(* ===== verification/DL_Prelude.thy ===== *)
theory DL_Prelude
  imports Main "HOL-Library.Word" "HOL-Library.Multiset" "HOL-Library.List_Lexorder" "HOL-Library.Char_ord"
begin

text \<open>
  Vocabulary shared by every component of the DenseLite model.

  \<^item> Machine integers: \<open>size_t\<close>, \<open>u64\<close>, \<open>u32\<close> and \<open>u8\<close> are fixed-width words, so \<open>+\<close>, \<open>-\<close> and
    \<open>*\<close> wrap around as the C++ unsigned types do.
  \<^item> \<open>std::string\<close> is a list of bytes (\<^typ>\<open>char\<close>); \<open>str_find\<close> is \<open>std::string::find\<close> from position 0,
    \<open>contains\<close> is the idiom \<open>find(p) != npos\<close>, \<open>tolower\<close> is \<open>std::tolower\<close> in the C locale, which is the
    locale the program runs in (it never calls \<open>setlocale\<close>).
  \<^item> \<open>std::map\<close> is an association list kept sorted by key (\<open>om_put\<close>, \<open>om_erase\<close>, \<open>map_of\<close>), because several
    components depend on its iteration order. Strings are ordered lexicographically by unsigned byte,
    which is the order of \<open>std::less<std::string>\<close>.
  \<^item> \<open>eviction_store\<close> is the interface of a bounded store that evicts until there is room; both the
    session KV cache and the session tool registry interpret it.
\<close>

named_theorems unat_simps \<open>moving machine arithmetic to \<open>nat\<close>\<close>
named_theorems omap_simps \<open>laws of the ordered map\<close>

type_synonym u8 = "8 word"
type_synonym u16 = "16 word"
type_synonym u32 = "32 word"
type_synonym u64 = "64 word"
type_synonym size_t = "64 word"

section \<open>Machine arithmetic\<close>

lemma unat_add_u64 [unat_simps]:
  "unat (a + b :: 64 word) = (unat a + unat b) mod 2 ^ 64"
  by (simp add: unat_word_ariths)

lemma unat_mult_u64 [unat_simps]:
  "unat (a * b :: 64 word) = (unat a * unat b) mod 2 ^ 64"
  by (simp add: unat_word_ariths)

lemma unat_sub_u64: "b \<le> a \<Longrightarrow> unat (a - b :: 64 word) = unat a - unat b"
  by (simp add: unat_sub word_le_nat_alt)

lemma unat_lt_u64 [simp]: "unat (a :: 64 word) < 18446744073709551616"
  using unsigned_less [of a] by simp

lemma unat_add_u64_no_wrap:
  "unat a + unat b < 2 ^ 64 \<Longrightarrow> unat (a + b :: 64 word) = unat a + unat b"
  by (simp add: unat_add_u64)

lemma unat_mult_u64_no_wrap:
  "unat a * unat b < 2 ^ 64 \<Longrightarrow> unat (a * b :: 64 word) = unat a * unat b"
  by (simp add: unat_mult_u64)

lemma unat_div_u64 [unat_simps]: "unat (a div b :: 64 word) = unat a div unat b"
  by (rule unat_div)

lemma unat_of_nat_u64 [unat_simps]:
  "unat (of_nat n :: 64 word) = n mod 2 ^ 64"
  by (simp add: unat_of_nat)

lemma unat_min_u64 [unat_simps]: "unat (min a b :: 64 word) = min (unat a) (unat b)"
  by (simp add: min_def word_le_nat_alt)

lemma unat_max_u64 [unat_simps]: "unat (max a b :: 64 word) = max (unat a) (unat b)"
  by (simp add: max_def word_le_nat_alt)

section \<open>Byte strings\<close>

fun starts_with :: "string \<Rightarrow> string \<Rightarrow> bool" where
  "starts_with [] s = True"
| "starts_with (p # ps) [] = False"
| "starts_with (p # ps) (c # cs) = (p = c \<and> starts_with ps cs)"

fun str_find :: "string \<Rightarrow> string \<Rightarrow> nat option" where
  "str_find pat [] = (if pat = [] then Some 0 else None)"
| "str_find pat (c # cs) =
     (if starts_with pat (c # cs) then Some 0 else map_option Suc (str_find pat cs))"

definition contains :: "string \<Rightarrow> string \<Rightarrow> bool" where
  "contains s pat \<longleftrightarrow> str_find pat s \<noteq> None"

lemma starts_with_iff: "starts_with p s \<longleftrightarrow> (\<exists>r. s = p @ r)"
  by (induction p s rule: starts_with.induct) auto

lemma str_find_Some:
  "str_find pat s = Some i \<Longrightarrow> \<exists>r. s = take i s @ pat @ r"
proof (induction s arbitrary: i)
  case Nil
  then show ?case by (auto split: if_splits)
next
  case (Cons c cs)
  show ?case
  proof (cases "starts_with pat (c # cs)")
    case True
    with Cons.prems show ?thesis by (auto simp: starts_with_iff)
  next
    case False
    with Cons.prems obtain j where "str_find pat cs = Some j" "i = Suc j" by auto
    with Cons.IH show ?thesis by auto
  qed
qed

lemma str_find_append: "str_find pat (a @ pat @ b) \<noteq> None"
proof (induction a)
  case Nil
  have "starts_with pat (pat @ b)" by (auto simp: starts_with_iff)
  then show ?case by (cases "pat @ b") auto
next
  case (Cons x a)
  then show ?case by auto
qed

text \<open>\<open>contains\<close> is the substring relation.\<close>

lemma contains_iff: "contains s pat \<longleftrightarrow> (\<exists>a b. s = a @ pat @ b)"
  unfolding contains_def using str_find_Some [of pat s] str_find_append [of pat] by force

lemma contains_Nil [simp]: "contains s []"
  by (cases s) (auto simp: contains_def)

lemma contains_append_left: "contains s pat \<Longrightarrow> contains (s @ t) pat"
  unfolding contains_iff by (metis append.assoc)

lemma contains_append_right: "contains t pat \<Longrightarrow> contains (s @ t) pat"
  unfolding contains_iff by (metis append.assoc)

definition code :: "char \<Rightarrow> nat" where
  "code c = of_char c"

definition tolower :: "char \<Rightarrow> char" where
  "tolower c = (if 65 \<le> code c \<and> code c \<le> 90 then char_of (code c + 32) else c)"

definition isspace :: "char \<Rightarrow> bool" where
  "isspace c \<longleftrightarrow> code c = 32 \<or> (9 \<le> code c \<and> code c \<le> 13)"

definition isdigit :: "char \<Rightarrow> bool" where
  "isdigit c \<longleftrightarrow> 48 \<le> code c \<and> code c \<le> 57"

definition isalnum :: "char \<Rightarrow> bool" where
  "isalnum c \<longleftrightarrow> isdigit c \<or> (65 \<le> code c \<and> code c \<le> 90) \<or> (97 \<le> code c \<and> code c \<le> 122)"

definition lower :: "string \<Rightarrow> string" where
  "lower s = map tolower s"

lemma code_lt: "code c < 256"
  unfolding code_def by (cases c) (simp add: of_char_def)

lemma tolower_idem [simp]: "tolower (tolower c) = tolower c"
proof (cases "65 \<le> code c \<and> code c \<le> 90")
  case True
  then have "code (char_of (code c + 32)) = code c + 32"
    by (simp add: code_def)
  with True show ?thesis by (simp add: tolower_def)
next
  case False
  then show ?thesis by (auto simp: tolower_def)
qed

lemma lower_idem [simp]: "lower (lower s) = lower s"
  by (simp add: lower_def)

lemma lower_append [simp]: "lower (a @ b) = lower a @ lower b"
  by (simp add: lower_def)

lemma length_lower [simp]: "length (lower s) = length s"
  by (simp add: lower_def)

lemma lower_eq_Nil [simp]: "lower s = [] \<longleftrightarrow> s = []"
  by (simp add: lower_def)

text \<open>\<open>std::search\<close> with the case-folding predicate that three source files define for themselves.\<close>

fun starts_with_icase :: "string \<Rightarrow> string \<Rightarrow> bool" where
  "starts_with_icase [] s = True"
| "starts_with_icase (p # ps) [] = False"
| "starts_with_icase (p # ps) (c # cs) = (tolower c = tolower p \<and> starts_with_icase ps cs)"

fun search_icase :: "string \<Rightarrow> string \<Rightarrow> bool" where
  "search_icase pat [] = (pat = [])"
| "search_icase pat (c # cs) = (starts_with_icase pat (c # cs) \<or> search_icase pat cs)"

lemma starts_with_icase_lower: "starts_with_icase p s = starts_with (lower p) (lower s)"
  by (induction p s rule: starts_with_icase.induct) (auto simp: lower_def)

text \<open>Searching with case folding is searching in the folded strings.\<close>

lemma search_icase_contains: "search_icase pat s = contains (lower s) (lower pat)"
proof (induction s)
  case Nil
  then show ?case by (simp add: contains_def lower_def)
next
  case (Cons c cs)
  have "contains (lower (c # cs)) (lower pat) \<longleftrightarrow>
        starts_with (lower pat) (lower (c # cs)) \<or> contains (lower cs) (lower pat)"
    by (simp add: contains_def lower_def)
  with Cons show ?case by (simp add: starts_with_icase_lower)
qed

text \<open>Decimal rendering (\<open>std::to_string\<close> of an unsigned value).\<close>

fun nat_digits :: "nat \<Rightarrow> string" where
  "nat_digits n =
     (if n < 10 then [char_of (48 + n)] else nat_digits (n div 10) @ [char_of (48 + n mod 10)])"

declare nat_digits.simps [simp del]

text \<open>Reading the longest run of decimal digits, as \<open>sscanf("%zu")\<close> and \<open>operator>>\<close> do.\<close>

fun read_digits :: "nat \<Rightarrow> string \<Rightarrow> nat \<times> string" where
  "read_digits acc [] = (acc, [])"
| "read_digits acc (c # cs) =
     (if isdigit c then read_digits (10 * acc + (code c - 48)) cs else (acc, c # cs))"

lemma code_char_of: "n < 256 \<Longrightarrow> code (char_of n) = n"
  by (simp add: code_def)

lemma read_digits_append:
  "(\<And>c. c \<in> set ds \<Longrightarrow> isdigit c) \<Longrightarrow>
   read_digits acc (ds @ rest) = read_digits (fst (read_digits acc ds)) rest"
  by (induction ds arbitrary: acc) auto

lemma nat_digits_isdigit: "c \<in> set (nat_digits n) \<Longrightarrow> isdigit c"
proof (induction n rule: nat_digits.induct)
  case (1 n)
  have d: "isdigit (char_of (48 + m))" if "m < 10" for m :: nat
    using that by (simp add: isdigit_def code_char_of)
  show ?case
  proof (cases "n < 10")
    case True
    with 1 d show ?thesis by (simp add: nat_digits.simps [of n])
  next
    case False
    with 1 d [of "n mod 10"] show ?thesis by (auto simp: nat_digits.simps [of n])
  qed
qed

lemma read_digits_nat_digits: "fst (read_digits 0 (nat_digits n)) = n"
proof (induction n rule: nat_digits.induct)
  case (1 n)
  have d: "fst (read_digits a [char_of (48 + m)]) = 10 * a + m" if "m < 10" for a m :: nat
    using that by (simp add: isdigit_def code_char_of)
  show ?case
  proof (cases "n < 10")
    case True
    with d [of n 0] show ?thesis by (simp add: nat_digits.simps [of n])
  next
    case False
    have "fst (read_digits 0 (nat_digits n)) =
          fst (read_digits (fst (read_digits 0 (nat_digits (n div 10)))) [char_of (48 + n mod 10)])"
      using False nat_digits_isdigit
      by (subst nat_digits.simps) (simp add: read_digits_append)
    also have "\<dots> = 10 * (n div 10) + n mod 10"
      using "1.IH" [OF False] d [of "n mod 10"] by simp
    finally show ?thesis by simp
  qed
qed

text \<open>Hence decimal rendering is injective, so identifiers built from it are unambiguous.\<close>

lemma nat_digits_inject [simp]: "nat_digits m = nat_digits n \<longleftrightarrow> m = n"
  using read_digits_nat_digits by metis

text \<open>The lines that \<open>std::getline\<close> yields: a line feed at the end does not start another line.\<close>

fun get_lines :: "string \<Rightarrow> string \<Rightarrow> string list" where
  "get_lines cur [] = (if cur = [] then [] else [cur])"
| "get_lines cur (c # cs) = (if c = CHR 0x0A then cur # get_lines [] cs else get_lines (cur @ [c]) cs)"

lemma get_lines_line: "CHR 0x0A \<notin> set line \<Longrightarrow> get_lines cur (line @ CHR 0x0A # rest) = (cur @ line) # get_lines [] rest"
  by (induction line arbitrary: cur) auto

section \<open>Stable sorting\<close>

text \<open>
  \<open>std::stable_sort\<close> with a comparator: insertion into the sorted rest, in front of the elements that do not
  come before it. For a comparator that is a strict weak order this is the one stable sorted arrangement.
\<close>

fun insert_stable :: "('a \<Rightarrow> 'a \<Rightarrow> bool) \<Rightarrow> 'a \<Rightarrow> 'a list \<Rightarrow> 'a list" where
  "insert_stable before x [] = [x]"
| "insert_stable before x (y # ys) = (if before y x then y # insert_stable before x ys else x # y # ys)"

definition stable_sort :: "('a \<Rightarrow> 'a \<Rightarrow> bool) \<Rightarrow> 'a list \<Rightarrow> 'a list" where
  "stable_sort before xs = foldr (insert_stable before) xs []"

lemma mset_insert_stable [simp]: "mset (insert_stable before x ys) = add_mset x (mset ys)"
  by (induction ys) auto

lemma mset_stable_sort [simp]: "mset (stable_sort before xs) = mset xs"
  by (induction xs) (auto simp: stable_sort_def)

lemma set_stable_sort [simp]: "set (stable_sort before xs) = set xs"
  using mset_stable_sort [of before xs] by (metis set_mset_mset)

lemma length_stable_sort [simp]: "length (stable_sort before xs) = length xs"
  using mset_stable_sort [of before xs] by (metis size_mset)

lemma set_insert_stable [simp]: "set (insert_stable before x ys) = insert x (set ys)"
  by (induction ys) auto

text \<open>
  What the standard library asks of a comparator, on the values \<open>ok\<close> describes (floats that are not NaN, for
  instance); then the result of the stable sort is ordered.
\<close>

locale strict_weak_order =
  fixes ok :: "'a \<Rightarrow> bool"
    and before :: "'a \<Rightarrow> 'a \<Rightarrow> bool"
  assumes asym: "ok x \<Longrightarrow> ok y \<Longrightarrow> before x y \<Longrightarrow> \<not> before y x"
    and neg_trans: "ok x \<Longrightarrow> ok y \<Longrightarrow> ok z \<Longrightarrow> \<not> before y x \<Longrightarrow> \<not> before z y \<Longrightarrow> \<not> before z x"
begin

lemma insert_stable_sorted:
  "ok x \<Longrightarrow> (\<And>y. y \<in> set ys \<Longrightarrow> ok y) \<Longrightarrow> sorted_wrt (\<lambda>a b. \<not> before b a) ys \<Longrightarrow>
   sorted_wrt (\<lambda>a b. \<not> before b a) (insert_stable before x ys)"
proof (induction ys)
  case (Cons y ys)
  show ?case
  proof (cases "before y x")
    case True
    with Cons asym [OF _ _ True] show ?thesis by simp
  next
    case False
    have "\<not> before z x" if "z \<in> set ys" for z
      using neg_trans [OF _ _ _ False, of z] Cons.prems that by simp
    with Cons False show ?thesis by simp
  qed
qed simp

lemma stable_sort_sorted:
  "(\<And>x. x \<in> set xs \<Longrightarrow> ok x) \<Longrightarrow> sorted_wrt (\<lambda>a b. \<not> before b a) (stable_sort before xs)"
proof (induction xs)
  case (Cons x xs)
  have ok: "ok y" if "y \<in> set (stable_sort before xs)" for y using Cons.prems that by simp
  have "sorted_wrt (\<lambda>a b. \<not> before b a) (insert_stable before x (stable_sort before xs))"
    using Cons ok by (intro insert_stable_sorted) auto
  then show ?case by (simp add: stable_sort_def)
qed (simp add: stable_sort_def)

end

text \<open>
  \<open>std::sort\<close> promises less: some ordered rearrangement, with equal elements in an unspecified order. Components
  that call it take the sorted arrangement as an argument \<open>srt\<close> and rely on this contract.
\<close>

locale std_sort = strict_weak_order ok before
  for ok :: "'a \<Rightarrow> bool" and before :: "'a \<Rightarrow> 'a \<Rightarrow> bool" +
  fixes srt :: "'a list \<Rightarrow> 'a list"
  assumes srt_mset: "(\<And>x. x \<in> set xs \<Longrightarrow> ok x) \<Longrightarrow> mset (srt xs) = mset xs"
    and srt_sorted: "(\<And>x. x \<in> set xs \<Longrightarrow> ok x) \<Longrightarrow> sorted_wrt (\<lambda>a b. \<not> before b a) (srt xs)"
begin

lemma srt_set: "(\<And>x. x \<in> set xs \<Longrightarrow> ok x) \<Longrightarrow> set (srt xs) = set xs"
  using srt_mset [of xs] by (metis set_mset_mset)

lemma srt_length: "(\<And>x. x \<in> set xs \<Longrightarrow> ok x) \<Longrightarrow> length (srt xs) = length xs"
  using srt_mset [of xs] by (metis size_mset)

text \<open>Cutting the sorted list keeps a best part: nothing that is dropped comes before anything that is kept.\<close>

lemma cut_keeps_best:
  assumes "\<And>x. x \<in> set xs \<Longrightarrow> ok x" and "kept \<in> set (take k (srt xs))" and "dropped \<in> set (drop k (srt xs))"
  shows "\<not> before dropped kept"
proof -
  have "sorted_wrt (\<lambda>a b. \<not> before b a) (take k (srt xs) @ drop k (srt xs))" using srt_sorted [of xs] assms(1) by simp
  then show ?thesis using assms(2,3) unfolding sorted_wrt_append by blast
qed

end

section \<open>Ordered maps\<close>

type_synonym ('k, 'v) omap = "('k \<times> 'v) list"

definition om_wf :: "('k::linorder, 'v) omap \<Rightarrow> bool" where
  "om_wf m \<longleftrightarrow> sorted_wrt (<) (map fst m)"

fun om_put :: "'k::linorder \<Rightarrow> 'v \<Rightarrow> ('k, 'v) omap \<Rightarrow> ('k, 'v) omap" where
  "om_put k v [] = [(k, v)]"
| "om_put k v ((k', v') # m) =
     (if k = k' then (k, v) # m
      else if k < k' then (k, v) # (k', v') # m
      else (k', v') # om_put k v m)"

definition om_erase :: "'k \<Rightarrow> ('k, 'v) omap \<Rightarrow> ('k, 'v) omap" where
  "om_erase k m = filter (\<lambda>e. fst e \<noteq> k) m"

lemma om_wf_Nil [simp]: "om_wf []"
  by (simp add: om_wf_def)

lemma om_wf_Cons: "om_wf (e # m) \<longleftrightarrow> (\<forall>x \<in> set m. fst e < fst x) \<and> om_wf m"
  by (auto simp: om_wf_def)

lemma om_find_put [simp, omap_simps]: "map_of (om_put k v m) = (map_of m)(k \<mapsto> v)"
  by (induction m rule: om_put.induct) auto

lemma om_find_erase [simp, omap_simps]: "map_of (om_erase k m) = (map_of m)(k := None)"
  by (induction m) (auto simp: om_erase_def)

lemma om_keys_put: "fst ` set (om_put k v m) = insert k (fst ` set m)"
  by (induction k v m rule: om_put.induct) auto

lemma om_wf_put [simp, omap_simps]: "om_wf m \<Longrightarrow> om_wf (om_put k v m)"
proof (induction k v m rule: om_put.induct)
  case (1 k v)
  then show ?case by (simp add: om_wf_Cons)
next
  case (2 k v k' v' m)
  have "\<forall>x \<in> set (om_put k v m). k' < fst x" if "k' < k" "\<forall>x \<in> set m. k' < fst x"
  proof
    fix x assume "x \<in> set (om_put k v m)"
    then have "fst x \<in> insert k (fst ` set m)" using om_keys_put [of k v m] by blast
    with that show "k' < fst x" by auto
  qed
  with 2 show ?case by (auto simp: om_wf_Cons)
qed

lemma om_wf_erase [simp, omap_simps]: "om_wf m \<Longrightarrow> om_wf (om_erase k m)"
  by (induction m) (auto simp: om_erase_def om_wf_Cons)

lemma om_wf_distinct: "om_wf m \<Longrightarrow> distinct (map fst m)"
  by (induction m) (auto simp: om_wf_Cons)

lemma om_wf_mem: "om_wf m \<Longrightarrow> (k, v) \<in> set m \<longleftrightarrow> map_of m k = Some v"
  using om_wf_distinct [of m] by (metis map_of_eq_Some_iff)

lemma length_om_put:
  "om_wf m \<Longrightarrow> length (om_put k v m) = (if map_of m k = None then Suc (length m) else length m)"
proof (induction k v m rule: om_put.induct)
  case (1 k v)
  then show ?case by simp
next
  case (2 k v k' v' m)
  have "map_of m k = None" if "k < k'"
  proof (rule ccontr)
    assume "map_of m k \<noteq> None"
    then obtain w where "(k, w) \<in> set m" by (auto dest: map_of_SomeD)
    with 2 that show False by (auto simp: om_wf_Cons)
  qed
  with 2 show ?case by (auto simp: om_wf_Cons)
qed

lemma length_om_erase:
  "om_wf m \<Longrightarrow> length (om_erase k m) = (if map_of m k = None then length m else length m - 1)"
proof (induction m)
  case Nil
  then show ?case by (simp add: om_erase_def)
next
  case (Cons e m)
  show ?case
  proof (cases "fst e = k")
    case True
    then have "filter (\<lambda>x. fst x \<noteq> k) m = m"
      using Cons.prems by (auto simp: om_wf_Cons filter_id_conv)
    with True show ?thesis by (cases e) (simp add: om_erase_def)
  next
    case False
    moreover have "map_of m k \<noteq> None \<Longrightarrow> m \<noteq> []" by auto
    ultimately show ?thesis using Cons by (cases e) (auto simp: om_erase_def om_wf_Cons)
  qed
qed

lemma length_om_erase_le: "length (om_erase k m) \<le> length m"
  by (simp add: om_erase_def)

lemma om_wf_ext: "om_wf m \<Longrightarrow> om_wf m' \<Longrightarrow> map_of m = map_of m' \<Longrightarrow> m = m'"
proof -
  assume wf: "om_wf m" "om_wf m'" and eq: "map_of m = map_of m'"
  have "set m = set m'"
    using om_wf_mem [OF wf(1)] om_wf_mem [OF wf(2)] eq by auto
  moreover have "sorted_wrt (\<lambda>a b. fst a < fst b) m" "sorted_wrt (\<lambda>a b. fst a < fst b) m'"
    using wf by (simp_all add: om_wf_def sorted_wrt_map)
  moreover have "distinct m" "distinct m'"
    using wf om_wf_distinct distinct_map by auto
  ultimately show ?thesis
  proof (induction m arbitrary: m')
    case Nil
    then show ?case by simp
  next
    case (Cons a m)
    then obtain b n where m': "m' = b # n" by (cases m') auto
    have ab: "a = b"
    proof (rule ccontr)
      assume ne: "a \<noteq> b"
      have "b \<in> set m" "a \<in> set n" using Cons.prems(1) ne m' by auto
      then have "fst a < fst b" "fst b < fst a" using Cons.prems(2,3) m' by auto
      then show False by simp
    qed
    moreover have "set m = set n" using Cons.prems(1,4,5) m' ab by auto
    ultimately show ?case using Cons m' by auto
  qed
qed

text \<open>A measure summed over the entries of an ordered map.\<close>

definition om_sum :: "('k \<times> 'v \<Rightarrow> nat) \<Rightarrow> ('k, 'v) omap \<Rightarrow> nat" where
  "om_sum f m = sum_list (map f m)"

lemma om_sum_put_new:
  "map_of m k = None \<Longrightarrow> om_sum f (om_put k v m) = f (k, v) + om_sum f m"
  by (induction k v m rule: om_put.induct) (auto simp: om_sum_def split: if_splits)

lemma om_sum_put_same:
  "om_wf m \<Longrightarrow> map_of m k = Some v \<Longrightarrow> f (k, v') = f (k, v) \<Longrightarrow> om_sum f (om_put k v' m) = om_sum f m"
proof (induction k v' m rule: om_put.induct)
  case (2 k v' k1 v1 m)
  have "k1 \<le> k"
  proof (rule ccontr)
    assume "\<not> k1 \<le> k"
    with 2(3) have "(k, v) \<in> set m" by (auto split: if_splits dest: map_of_SomeD)
    with 2(2) \<open>\<not> k1 \<le> k\<close> show False by (auto simp: om_wf_Cons)
  qed
  with 2 show ?case by (auto simp: om_sum_def om_wf_Cons split: if_splits)
qed simp

lemma om_sum_erase:
  "om_wf m \<Longrightarrow> map_of m k = Some v \<Longrightarrow> om_sum f (om_erase k m) + f (k, v) = om_sum f m"
proof (induction m)
  case (Cons e m)
  show ?case
  proof (cases "fst e = k")
    case True
    then have "filter (\<lambda>x. fst x \<noteq> k) m = m" "e = (k, v)"
      using Cons.prems by (cases e, auto simp: om_wf_Cons filter_id_conv)+
    then show ?thesis by (simp add: om_sum_def om_erase_def)
  next
    case False
    with Cons show ?thesis by (cases e) (auto simp: om_sum_def om_erase_def om_wf_Cons)
  qed
qed simp

section \<open>Evicting until there is room\<close>

text \<open>
  Two components keep a bounded number of sessions by the loop \<open>while (size() >= limit) evict();\<close>. The
  loop is modelled with one unit of fuel per round; the interface below says what an eviction promises
  and shows that the number of stored entries is enough fuel exactly when the limit is positive.
\<close>

fun evict_loop :: "('s \<Rightarrow> nat) \<Rightarrow> ('s \<Rightarrow> 's) \<Rightarrow> nat \<Rightarrow> nat \<Rightarrow> 's \<Rightarrow> 's option" where
  "evict_loop size_of evict 0 limit s = (if limit \<le> size_of s then None else Some s)"
| "evict_loop size_of evict (Suc fuel) limit s =
     (if limit \<le> size_of s then evict_loop size_of evict fuel limit (evict s) else Some s)"

lemma evict_loop_keeps:
  "evict_loop size_of evict fuel limit s = Some t \<Longrightarrow> P s \<Longrightarrow> (\<And>x. P x \<Longrightarrow> P (evict x)) \<Longrightarrow> P t"
  by (induction size_of evict fuel limit s rule: evict_loop.induct) (auto split: if_splits)

lemma find_append: "find P (xs @ ys) = (case find P xs of Some x \<Rightarrow> Some x | None \<Rightarrow> find P ys)"
  by (induction xs) auto

locale eviction_store =
  fixes wf :: "'s \<Rightarrow> bool"
    and size_of :: "'s \<Rightarrow> nat"
    and evict :: "'s \<Rightarrow> 's"
  assumes evict_wf: "wf s \<Longrightarrow> wf (evict s)"
    and evict_shrinks: "wf s \<Longrightarrow> 0 < size_of s \<Longrightarrow> size_of (evict s) = size_of s - 1"
    and evict_empty: "size_of s = 0 \<Longrightarrow> evict s = s"
begin

lemma evict_loop_returns:
  "wf s \<Longrightarrow> 0 < limit \<Longrightarrow> size_of s \<le> fuel \<Longrightarrow>
   \<exists>t. evict_loop size_of evict fuel limit s = Some t \<and> wf t \<and> size_of t = min (size_of s) (limit - 1)"
proof (induction fuel arbitrary: s)
  case 0
  then show ?case by simp
next
  case (Suc fuel)
  show ?case
  proof (cases "limit \<le> size_of s")
    case True
    with Suc.prems have pos: "0 < size_of s" by simp
    have sz: "size_of (evict s) = size_of s - 1"
      using evict_shrinks [OF Suc.prems(1) pos] .
    have "\<exists>t. evict_loop size_of evict fuel limit (evict s) = Some t \<and> wf t \<and>
              size_of t = min (size_of (evict s)) (limit - 1)"
      using Suc.prems sz by (intro Suc.IH evict_wf) auto
    with True sz pos show ?thesis by (auto simp: min_def)
  next
    case False
    with Suc.prems show ?thesis by (auto simp: min_def)
  qed
qed

lemma evict_loop_diverges: "evict_loop size_of evict fuel 0 s = None"
  by (induction fuel arbitrary: s) auto

lemma evict_loop_id: "size_of s < limit \<Longrightarrow> evict_loop size_of evict fuel limit s = Some s"
  by (cases fuel) auto

end

section \<open>Fallible steps in sequence\<close>

definition sbind :: "'e + 'a \<Rightarrow> ('a \<Rightarrow> 'e + 'b) \<Rightarrow> 'e + 'b" where
  "sbind m f = (case m of Inl e \<Rightarrow> Inl e | Inr x \<Rightarrow> f x)"

fun sfold :: "('a \<Rightarrow> 's \<Rightarrow> 'e + 's) \<Rightarrow> 'a list \<Rightarrow> 's \<Rightarrow> 'e + 's" where
  "sfold f [] s = Inr s"
| "sfold f (x # xs) s = sbind (f x s) (sfold f xs)"

fun smap :: "('a \<Rightarrow> 'e + 'b) \<Rightarrow> 'a list \<Rightarrow> 'e + 'b list" where
  "smap f [] = Inr []"
| "smap f (x # xs) = sbind (f x) (\<lambda>y. sbind (smap f xs) (\<lambda>ys. Inr (y # ys)))"

lemma sbind_simps [simp]: "sbind (Inr x) f = f x" "sbind (Inl e) f = Inl e"
  by (simp_all add: sbind_def)

lemma sbind_Inr: "sbind m f = Inr r \<longleftrightarrow> (\<exists>x. m = Inr x \<and> f x = Inr r)"
  by (auto simp: sbind_def split: sum.splits)

lemma sfold_append: "sfold f (xs @ ys) s = sbind (sfold f xs s) (sfold f ys)"
  by (induction xs arbitrary: s) (auto simp: sbind_def split: sum.splits)

lemma smap_Inr: "(\<And>x. x \<in> set xs \<Longrightarrow> f x = Inr (g x)) \<Longrightarrow> smap f xs = Inr (map g xs)"
  by (induction xs) auto

lemma smap_cong [fundef_cong]: "xs = ys \<Longrightarrow> (\<And>x. x \<in> set ys \<Longrightarrow> f x = g x) \<Longrightarrow> smap f xs = smap g ys"
  by (induction xs arbitrary: ys) auto

lemma smap_Inl:
  "x \<in> set xs \<Longrightarrow> f x = Inl e \<Longrightarrow> (\<And>y e'. y \<in> set xs \<Longrightarrow> f y = Inl e' \<Longrightarrow> e' = e) \<Longrightarrow> smap f xs = Inl e"
proof (induction xs)
  case (Cons y ys)
  show ?case
  proof (cases "f y")
    case (Inl e')
    then show ?thesis using Cons.prems(3) [of y e'] by simp
  next
    case (Inr z)
    then have "x \<in> set ys" using Cons.prems(1,2) by auto
    then have "smap f ys = Inl e" by (rule Cons.IH [OF _ Cons.prems(2)]) (erule (1) Cons.prems(3) [OF list.set_intros(2)])
    then show ?thesis using Inr by simp
  qed
qed simp

lemma sfold_keeps:
  assumes "\<And>x s. x \<in> set xs \<Longrightarrow> I s \<Longrightarrow> \<exists>s'. f x s = Inr s' \<and> I s'" and "I s"
  shows "\<exists>s'. sfold f xs s = Inr s' \<and> I s'"
  using assms by (induction xs arbitrary: s) (auto, metis sbind_simps(1))

section \<open>Stores that refine a map\<close>

text \<open>
  The interface of a keyed store that encodes what it is given: after any sequence of insertions and deletions,
  looking up is looking up in the map that the same sequence builds. A store may be bounded, \<open>room\<close> is a lower
  bound on the number of insertions it still takes.
\<close>

datatype ('k, 'x) store_op = Put 'k 'x | Del 'k

primrec map_op :: "('x \<Rightarrow> 'v) \<Rightarrow> ('k, 'x) store_op \<Rightarrow> ('k \<rightharpoonup> 'v) \<Rightarrow> ('k \<rightharpoonup> 'v)" where
  "map_op encode (Put k x) m = m(k \<mapsto> encode x)"
| "map_op encode (Del k) m = m(k := None)"

primrec run_op :: "('k \<Rightarrow> 'x \<Rightarrow> 's \<Rightarrow> 's) \<Rightarrow> ('k \<Rightarrow> 's \<Rightarrow> 's) \<Rightarrow> ('k, 'x) store_op \<Rightarrow> 's \<Rightarrow> 's" where
  "run_op put del (Put k x) s = put k x s"
| "run_op put del (Del k) s = del k s"

locale keyed_store =
  fixes ok :: "'s \<Rightarrow> bool"
    and room :: "'s \<Rightarrow> nat"
    and lookup :: "'s \<Rightarrow> 'k \<rightharpoonup> 'v"
    and encode :: "'x \<Rightarrow> 'v"
    and put :: "'k \<Rightarrow> 'x \<Rightarrow> 's \<Rightarrow> 's"
    and del :: "'k \<Rightarrow> 's \<Rightarrow> 's"
  assumes put_ok: "ok s \<Longrightarrow> 0 < room s \<Longrightarrow> ok (put k x s) \<and> room s \<le> Suc (room (put k x s))"
    and put_lookup: "ok s \<Longrightarrow> 0 < room s \<Longrightarrow> lookup (put k x s) = (lookup s)(k \<mapsto> encode x)"
    and del_ok: "ok s \<Longrightarrow> ok (del k s) \<and> room s \<le> room (del k s)"
    and del_lookup: "ok s \<Longrightarrow> lookup (del k s) = (lookup s)(k := None)"
begin

lemma run_refines:
  "ok s \<Longrightarrow> length ops \<le> room s \<Longrightarrow>
   ok (fold (run_op put del) ops s) \<and> lookup (fold (run_op put del) ops s) = fold (map_op encode) ops (lookup s)"
proof (induction ops arbitrary: s)
  case (Cons op ops)
  have "ok (run_op put del op s) \<and> length ops \<le> room (run_op put del op s) \<and>
        lookup (run_op put del op s) = map_op encode op (lookup s)"
  proof (cases op)
    case (Put k x)
    have "0 < room s" using Cons.prems(2) by simp
    then show ?thesis using Put Cons.prems put_ok [of s k x] put_lookup [of s k x] by simp
  next
    case (Del k)
    then show ?thesis using Cons.prems del_ok [of s k] del_lookup [of s k] by simp
  qed
  with Cons.IH [of "run_op put del op s"] show ?case by simp
qed simp

end

end
