(* ===== verification/Float_Round.thy ===== *)
theory Float_Round
  imports DL_Prelude
begin

text \<open>
  IEEE 754 rounding, as much of it as the resource code relies on.

  Every floating-point computation of \<open>src/src/ResourcePolicy.hpp\<close>, \<open>resource_governor.cpp\<close> and
  \<open>vulkan_device.cpp\<close> converts a byte count to \<open>double\<close> (or \<open>float\<close>), multiplies it by one positive
  literal or setting, and compares or truncates the product. Such a value is a natural number
  divided by a fixed power of two, so the model keeps the numerator: \<open>round_sig p n\<close> is the
  numerator rounded to \<open>p\<close> significant bits, to nearest, ties to even. No product here is small enough
  to be subnormal or large enough to overflow, so rounding the significand is all there is.
\<close>

fun bit_length :: "nat \<Rightarrow> nat" where
  "bit_length n = (if n = 0 then 0 else Suc (bit_length (n div 2)))"

declare bit_length.simps [simp del]

definition rne :: "nat \<Rightarrow> nat \<Rightarrow> nat" where
  "rne n s =
     (let q = n div 2 ^ s; r = n mod 2 ^ s
      in if 2 * r < 2 ^ s \<or> (2 * r = 2 ^ s \<and> even q) then q else q + 1)"

definition round_sig :: "nat \<Rightarrow> nat \<Rightarrow> nat" where
  "round_sig p n = (let s = bit_length n - p in rne n s * 2 ^ s)"

section \<open>Significant bits\<close>

lemma bit_length_0 [simp]: "bit_length 0 = 0"
  by (simp add: bit_length.simps)

lemma less_2_bit_length: "n < 2 ^ bit_length n"
proof (induction n rule: bit_length.induct)
  case (1 n)
  show ?case
  proof (cases "n = 0")
    case False
    with 1 have "n div 2 < 2 ^ bit_length (n div 2)" by simp
    then have "n < 2 * 2 ^ bit_length (n div 2)" by linarith
    with False show ?thesis by (simp add: bit_length.simps [of n])
  qed simp
qed

lemma bit_length_ge: "0 < n \<Longrightarrow> 2 ^ bit_length n \<le> 2 * n"
proof (induction n rule: bit_length.induct)
  case (1 n)
  show ?case
  proof (cases "n div 2 = 0")
    case True
    with 1 have "n = 1" by linarith
    then show ?thesis by (simp add: bit_length.simps)
  next
    case False
    with 1 have "2 ^ bit_length (n div 2) \<le> 2 * (n div 2)" by simp
    with 1 show ?thesis by (simp add: bit_length.simps [of n])
  qed
qed

lemma bit_length_mono: "m \<le> n \<Longrightarrow> bit_length m \<le> bit_length n"
proof (rule ccontr)
  assume le: "m \<le> n" and "\<not> bit_length m \<le> bit_length n"
  then have lt: "Suc (bit_length n) \<le> bit_length m" by simp
  then have "0 < m" by (cases m) auto
  have "(2::nat) ^ Suc (bit_length n) \<le> 2 ^ bit_length m" using lt by (intro power_increasing) auto
  also have "\<dots> \<le> 2 * m" using \<open>0 < m\<close> by (rule bit_length_ge)
  also have "\<dots> \<le> 2 * n" using le by simp
  finally show False using less_2_bit_length [of n] by simp
qed

lemma bit_length_le: "n < 2 ^ k \<Longrightarrow> bit_length n \<le> k"
proof (rule ccontr)
  assume n: "n < 2 ^ k" and "\<not> bit_length n \<le> k"
  then have lt: "Suc k \<le> bit_length n" by simp
  then have "0 < n" by (cases n) auto
  have "(2::nat) ^ Suc k \<le> 2 ^ bit_length n" using lt by (intro power_increasing) auto
  also have "\<dots> \<le> 2 * n" using \<open>0 < n\<close> by (rule bit_length_ge)
  finally show False using n by simp
qed

section \<open>Rounding one position\<close>

lemma rne_0 [simp]: "rne n 0 = n"
  by (simp add: rne_def)

lemma rne_lower: "n div 2 ^ s \<le> rne n s"
  by (simp add: rne_def Let_def)

lemma rne_upper: "rne n s \<le> n div 2 ^ s + 1"
  by (simp add: rne_def Let_def)

lemma rne_mono: "m \<le> n \<Longrightarrow> rne m s \<le> rne n s"
proof -
  assume le: "m \<le> n"
  show ?thesis
  proof (cases "m div 2 ^ s = n div 2 ^ s")
    case True
    have "n div 2 ^ s * 2 ^ s + m mod 2 ^ s \<le> n div 2 ^ s * 2 ^ s + n mod 2 ^ s"
      using le True by (metis div_mult_mod_eq)
    then have r: "m mod 2 ^ s \<le> n mod 2 ^ s" by simp
    then show ?thesis using True by (auto simp: rne_def Let_def)
  next
    case False
    moreover have "m div 2 ^ s \<le> n div 2 ^ s" using le by (rule div_le_mono)
    ultimately have "m div 2 ^ s + 1 \<le> n div 2 ^ s" by linarith
    with rne_upper [of m s] rne_lower [of n s] show ?thesis by linarith
  qed
qed

text \<open>The rounding error is at most half of the last place kept.\<close>

lemma rne_error:
  "2 * (rne n s * 2 ^ s) \<le> 2 * n + 2 ^ s" "2 * n \<le> 2 * (rne n s * 2 ^ s) + 2 ^ s"
proof -
  have n: "n = n div 2 ^ s * 2 ^ s + n mod 2 ^ s" by (metis div_mult_mod_eq)
  have r: "n mod 2 ^ s < 2 ^ s" by simp
  show "2 * (rne n s * 2 ^ s) \<le> 2 * n + 2 ^ s"
  proof (cases "rne n s = n div 2 ^ s")
    case True
    then have "rne n s * 2 ^ s \<le> n" by simp
    then show ?thesis by linarith
  next
    case False
    then have q: "rne n s = n div 2 ^ s + 1" and big: "2 ^ s \<le> 2 * (n mod 2 ^ s)"
      by (auto simp: rne_def Let_def split: if_splits)
    have "2 * (rne n s * 2 ^ s) = 2 * (n div 2 ^ s * 2 ^ s) + 2 * 2 ^ s" by (simp add: q algebra_simps)
    with n big show ?thesis by linarith
  qed
  show "2 * n \<le> 2 * (rne n s * 2 ^ s) + 2 ^ s"
  proof (cases "rne n s = n div 2 ^ s")
    case True
    then have "2 * (n mod 2 ^ s) \<le> 2 ^ s"
      by (auto simp: rne_def Let_def split: if_splits)
    moreover have "rne n s * 2 ^ s = n div 2 ^ s * 2 ^ s" by (simp add: True)
    ultimately show ?thesis using n by linarith
  next
    case False
    then have q: "rne n s = n div 2 ^ s + 1" by (auto simp: rne_def Let_def split: if_splits)
    have "rne n s * 2 ^ s = n div 2 ^ s * 2 ^ s + 2 ^ s" by (simp add: q algebra_simps)
    with n r show ?thesis by linarith
  qed
qed

section \<open>Rounding to \<open>p\<close> significant bits\<close>

lemma round_sig_eq: "round_sig p n = rne n (bit_length n - p) * 2 ^ (bit_length n - p)"
  by (simp add: round_sig_def Let_def)

lemma round_sig_exact: "n < 2 ^ p \<Longrightarrow> round_sig p n = n"
  using bit_length_le [of n p] by (simp add: round_sig_eq)

lemma round_sig_le_pow: "round_sig p n \<le> 2 ^ bit_length n"
proof (cases "bit_length n \<le> p")
  case True
  then show ?thesis using less_2_bit_length [of n] by (simp add: round_sig_eq)
next
  case False
  define s where "s = bit_length n - p"
  have "n < 2 ^ p * 2 ^ s"
    using less_2_bit_length [of n] False by (simp add: s_def flip: power_add)
  then have "n div 2 ^ s < 2 ^ p" by (simp add: less_mult_imp_div_less)
  then have "rne n s \<le> 2 ^ p" using rne_upper [of n s] by simp
  then have "rne n s * 2 ^ s \<le> 2 ^ p * 2 ^ s" by simp
  also have "\<dots> = 2 ^ bit_length n" using False by (simp add: s_def flip: power_add)
  finally show ?thesis by (simp add: round_sig_eq s_def)
qed

lemma round_sig_ge_pow: "0 < p \<Longrightarrow> 0 < n \<Longrightarrow> 2 ^ bit_length n \<le> 2 * round_sig p n"
proof (cases "bit_length n \<le> p")
  case True
  assume "0 < p" "0 < n"
  then show ?thesis using True bit_length_ge [of n] by (simp add: round_sig_eq)
next
  case False
  assume p: "0 < p" and n: "0 < n"
  define s where "s = bit_length n - p"
  have bl: "bit_length n = Suc (p - 1 + s)" using False p by (simp add: s_def)
  have "2 ^ (p - 1) * 2 ^ s \<le> n"
    using bit_length_ge [OF n] by (simp add: bl power_add)
  then have "2 ^ (p - 1) \<le> n div 2 ^ s" by (simp add: less_eq_div_iff_mult_less_eq)
  then have "2 ^ (p - 1) \<le> rne n s" using rne_lower [of n s] by simp
  then have "2 ^ (p - 1) * 2 ^ s \<le> round_sig p n"
    by (simp add: round_sig_eq s_def [symmetric])
  then show ?thesis by (simp add: bl power_add)
qed

lemma round_sig_mono: "0 < p \<Longrightarrow> m \<le> n \<Longrightarrow> round_sig p m \<le> round_sig p n"
proof -
  assume p: "0 < p" and le: "m \<le> n"
  consider "bit_length m = bit_length n" | "bit_length m < bit_length n"
    using bit_length_mono [OF le] by linarith
  then show ?thesis
  proof cases
    case 1
    then show ?thesis using rne_mono [OF le] by (simp add: round_sig_eq)
  next
    case 2
    then have "0 < n" by (cases n) auto
    have "2 * round_sig p m \<le> 2 ^ Suc (bit_length m)" using round_sig_le_pow [of p m] by simp
    also have "(2::nat) ^ Suc (bit_length m) \<le> 2 ^ bit_length n"
      using 2 by (intro power_increasing) auto
    also have "\<dots> \<le> 2 * round_sig p n" using p \<open>0 < n\<close> by (rule round_sig_ge_pow)
    finally show ?thesis by simp
  qed
qed

text \<open>The relative error is at most \<open>2 ^ - p\<close>.\<close>

lemma round_sig_error:
  "0 < p \<Longrightarrow> round_sig p n * 2 ^ p \<le> n * (2 ^ p + 1)"
  "0 < p \<Longrightarrow> n * 2 ^ p \<le> round_sig p n * 2 ^ p + n"
proof -
  assume p: "0 < p"
  define s where "s = bit_length n - p"
  have "2 ^ s * 2 ^ p \<le> 2 * n" if "bit_length n > p"
  proof -
    have "(2::nat) ^ s * 2 ^ p = 2 ^ bit_length n" using that by (simp add: s_def flip: power_add)
    moreover have "0 < n" using that by (cases n) auto
    ultimately show ?thesis using bit_length_ge by simp
  qed
  then have half: "bit_length n \<le> p \<or> 2 ^ s * 2 ^ p \<le> 2 * n" by linarith
  note err = rne_error [of n s, folded s_def]
  show "round_sig p n * 2 ^ p \<le> n * (2 ^ p + 1)"
  proof (cases "bit_length n \<le> p")
    case True
    then show ?thesis by (simp add: round_sig_eq)
  next
    case False
    have "2 * (round_sig p n * 2 ^ p) \<le> (2 * n + 2 ^ s) * 2 ^ p"
      using mult_le_mono1 [OF err(1), of "2 ^ p"] by (simp add: round_sig_eq s_def mult.assoc)
    also have "\<dots> \<le> 2 * (n * (2 ^ p + 1))" using half False by (simp add: algebra_simps)
    finally show ?thesis by simp
  qed
  show "n * 2 ^ p \<le> round_sig p n * 2 ^ p + n"
  proof (cases "bit_length n \<le> p")
    case True
    then show ?thesis by (simp add: round_sig_eq)
  next
    case False
    have "2 * n * 2 ^ p \<le> (2 * (rne n s * 2 ^ s) + 2 ^ s) * 2 ^ p"
      using mult_le_mono1 [OF err(2), of "2 ^ p"] by simp
    also have "\<dots> \<le> 2 * (round_sig p n * 2 ^ p) + 2 * n"
      using half False by (simp add: round_sig_eq s_def algebra_simps)
    finally show ?thesis by simp
  qed
qed

section \<open>The two expressions the sources use\<close>

text \<open>
  \<open>dbl_times n m\<close> is the numerator of \<open>static_cast<double>(n) * (m / 2^k)\<close>; the exponent \<open>k\<close> of the literal
  stays with the reader of the value. \<open>dbl_less a n m k\<close> is the comparison \<open>a < n * (m / 2^k)\<close> of an unsigned
  integer with a double: the integer is converted to \<open>double\<close> first.
\<close>

definition dbl_times :: "nat \<Rightarrow> nat \<Rightarrow> nat" where
  "dbl_times n m = round_sig 53 (round_sig 53 n * m)"

definition dbl_less :: "nat \<Rightarrow> nat \<Rightarrow> nat \<Rightarrow> nat \<Rightarrow> bool" where
  "dbl_less a n m k \<longleftrightarrow> round_sig 53 a * 2 ^ k < dbl_times n m"

lemma dbl_less_antimono: "a \<le> b \<Longrightarrow> dbl_less b n m k \<Longrightarrow> dbl_less a n m k"
  unfolding dbl_less_def using round_sig_mono [of 53 a b]
  by (meson le_less_trans mult_le_mono1 zero_less_numeral)

lemma dbl_times_mono: "m \<le> m' \<Longrightarrow> dbl_times n m \<le> dbl_times n m'"
  unfolding dbl_times_def by (intro round_sig_mono) auto

text \<open>A smaller fraction is a stronger test: \<open>m / 2^k \<le> m' / 2^k'\<close> compared over a common denominator.\<close>

lemma round_sig_scale: "round_sig p (n * 2 ^ j) = round_sig p n * 2 ^ j"
proof (cases "bit_length n \<le> p \<or> n = 0")
  case True
  have bl: "bit_length (n * 2 ^ j) = (if n = 0 then 0 else bit_length n + j)"
  proof (induction j)
    case (Suc j)
    then show ?case by (subst bit_length.simps) auto
  qed simp
  show ?thesis
  proof (cases "n = 0")
    case False
    define s where "s = bit_length (n * 2 ^ j) - p"
    have "s \<le> j" using True False bl by (simp add: s_def)
    then have e: "n * 2 ^ j = (n * 2 ^ (j - s)) * 2 ^ s" by (simp add: flip: power_add)
    have "rne (x * 2 ^ s) s = x" for x by (simp add: rne_def)
    with e have "rne (n * 2 ^ j) s = n * 2 ^ (j - s)" by metis
    with e True False show ?thesis by (simp add: round_sig_eq s_def)
  qed (simp add: round_sig_eq rne_def)
next
  case False
  have bl: "bit_length (n * 2 ^ j) = bit_length n + j"
  proof (induction j)
    case (Suc j)
    then show ?case using False by (subst bit_length.simps) auto
  qed simp
  define s where "s = bit_length n - p"
  have s': "bit_length (n * 2 ^ j) - p = s + j" using bl False by (simp add: s_def)
  have "n * 2 ^ j div 2 ^ (s + j) = n div 2 ^ s" "n * 2 ^ j mod 2 ^ (s + j) = (n mod 2 ^ s) * 2 ^ j"
    by (simp_all add: power_add mult_mod_left)
  then have "rne (n * 2 ^ j) (s + j) = rne n s"
    by (simp add: rne_def Let_def power_add)
  then show ?thesis by (simp add: round_sig_eq s' s_def [symmetric] power_add)
qed

text \<open>Rounding a rounded value changes nothing.\<close>

lemma round_sig_idem: "0 < p \<Longrightarrow> round_sig p (round_sig p n) = round_sig p n"
proof -
  assume p: "0 < p"
  define s where "s = bit_length n - p"
  have "n < 2 ^ (p + s)"
    using less_2_bit_length [of n] by (rule less_le_trans) (simp add: s_def)
  then have "n div 2 ^ s < 2 ^ p" by (simp add: less_mult_imp_div_less power_add)
  then have "rne n s < 2 ^ p \<or> rne n s = 2 ^ p" using rne_upper [of n s] by linarith
  then have "round_sig p (rne n s) = rne n s"
  proof
    assume "rne n s = 2 ^ p"
    moreover have "round_sig p (1 * 2 ^ p) = round_sig p 1 * 2 ^ p" by (rule round_sig_scale)
    moreover have "round_sig p 1 = 1" using p by (intro round_sig_exact one_less_power) auto
    ultimately show ?thesis by simp
  qed (rule round_sig_exact)
  then show ?thesis by (simp add: round_sig_eq [of p n] round_sig_scale s_def)
qed

lemma dbl_times_scale: "dbl_times n (m * 2 ^ j) = dbl_times n m * 2 ^ j"
  by (simp add: dbl_times_def round_sig_scale flip: mult.assoc)

lemma dbl_less_mono_lit:
  assumes "m * 2 ^ k' \<le> m' * 2 ^ k" and "dbl_less a n m k"
  shows "dbl_less a n m' k'"
proof -
  have "round_sig 53 a * 2 ^ k * 2 ^ k' < dbl_times n m * 2 ^ k'"
    using assms(2) by (simp add: dbl_less_def)
  also have "\<dots> = dbl_times n (m * 2 ^ k')" by (simp add: dbl_times_scale)
  also have "\<dots> \<le> dbl_times n (m' * 2 ^ k)" using assms(1) by (rule dbl_times_mono)
  also have "\<dots> = dbl_times n m' * 2 ^ k" by (simp add: dbl_times_scale)
  finally have "round_sig 53 a * 2 ^ k' * 2 ^ k < dbl_times n m' * 2 ^ k"
    by (simp add: mult_ac)
  then show ?thesis by (simp add: dbl_less_def)
qed

text \<open>A double product with a literal below one is at most the number itself.\<close>

lemma dbl_times_le:
  assumes "m \<le> 2 ^ k" and "n < 2 ^ 53"
  shows "dbl_times n m div 2 ^ k \<le> n"
proof -
  have n: "round_sig 53 n = n" using assms(2) by (rule round_sig_exact)
  have "dbl_times n m \<le> dbl_times n (1 * 2 ^ k)" using assms(1) by (intro dbl_times_mono) simp
  also have "\<dots> = dbl_times n 1 * 2 ^ k" by (rule dbl_times_scale)
  also have "\<dots> = n * 2 ^ k" by (simp add: dbl_times_def n)
  finally have "dbl_times n m div 2 ^ k \<le> n * 2 ^ k div 2 ^ k" by (rule div_le_mono)
  then show ?thesis by simp
qed

end
