(* ===== verification/Vulkan_Device.thy ===== *)
theory Vulkan_Device
  imports Float_Round
begin

text \<open>
  \<open>VulkanDevice\<close> (\<open>src/src/vulkan_device.hpp\<close>, \<open>vulkan_device.cpp\<close>) as far as it is DenseLite's own
  logic: the choice of the physical device, the VRAM ceiling computed from the memory heaps, the
  choice of the compute queue family, and the ledger of admitted bytes. The Vulkan API itself
  (instance, device, queue and pool creation) is an environment that says whether each call
  succeeds. The interface \<open>admission_ledger\<close> is what the model manager relies on.
\<close>

section \<open>State\<close>

record vulkan_memory_info =
  total_vram :: size_t
  safe_ceiling :: size_t
  allocated :: size_t
  available_budget :: size_t

record vulkan_device =
  vd_available :: bool
  vd_device_type :: nat
  vd_total_vram_bytes :: size_t
  vd_safe_ceiling_bytes :: size_t
  vd_allocated_bytes :: size_t
  vd_compute_queue_family :: int

definition fresh_device :: vulkan_device where
  "fresh_device = \<lparr>vd_available = False, vd_device_type = 0, vd_total_vram_bytes = 0, vd_safe_ceiling_bytes = 0,
                   vd_allocated_bytes = 0, vd_compute_queue_family = -1\<rparr>"

text \<open>What the Vulkan loader reports about one physical device.\<close>

record vk_memory_heap =
  heap_size :: u64
  device_local :: bool

record vk_physical_device =
  vk_type :: nat
  vk_heaps :: "vk_memory_heap list"
  vk_queue_compute :: "bool list"

text \<open>\<open>VK_PHYSICAL_DEVICE_TYPE_INTEGRATED_GPU\<close> is 1 and \<open>VK_PHYSICAL_DEVICE_TYPE_DISCRETE_GPU\<close> is 2.\<close>

definition device_score :: "vk_physical_device \<Rightarrow> int" where
  "device_score d = (if vk_type d = 2 then 100 else if vk_type d = 1 then 50 else 0)"

fun select_device :: "int \<Rightarrow> vk_physical_device option \<Rightarrow> vk_physical_device list \<Rightarrow> vk_physical_device option" where
  "select_device best sel [] = sel"
| "select_device best sel (d # ds) =
     (if device_score d > best then select_device (device_score d) (Some d) ds
      else select_device best sel ds)"

fun total_device_local :: "vk_memory_heap list \<Rightarrow> size_t" where
  "total_device_local [] = 0"
| "total_device_local (h # hs) =
     (if device_local h then heap_size h else 0) + total_device_local hs"

text \<open>\<open>static_cast<size_t>(vd_total_vram_bytes * 0.85)\<close>; the literal is \<open>7656119366529843 / 2^53\<close>.\<close>

definition vram_ceiling :: "size_t \<Rightarrow> size_t" where
  "vram_ceiling tot = of_nat (dbl_times (unat tot) 7656119366529843 div 2 ^ 53)"

fun first_compute_family :: "nat \<Rightarrow> bool list \<Rightarrow> int" where
  "first_compute_family i [] = -1"
| "first_compute_family i (c # cs) = (if c then int i else first_compute_family (Suc i) cs)"

text \<open>
  \<open>init_vulkan\<close>: \<open>instance_ok\<close> and \<open>device_ok\<close> are the results of \<open>vkCreateInstance\<close> and
  \<open>vkCreateDevice\<close>, \<open>devs\<close> the enumerated devices. The members written before a failing call keep their
  new values, as in the source.
\<close>

definition init_vulkan ::
  "bool \<Rightarrow> bool \<Rightarrow> vk_physical_device list \<Rightarrow> vulkan_device \<Rightarrow> bool \<times> vulkan_device" where
  "init_vulkan instance_ok device_ok devs dev =
     (if \<not> instance_ok then (False, dev)
      else if devs = [] then (False, dev)
      else
        let sel = (case select_device (-1) None devs of Some d \<Rightarrow> d | None \<Rightarrow> hd devs);
            tot = total_device_local (vk_heaps sel);
            dev1 = dev\<lparr>vd_device_type := vk_type sel, vd_total_vram_bytes := tot,
                       vd_safe_ceiling_bytes := vram_ceiling tot\<rparr>;
            fam = first_compute_family 0 (vk_queue_compute sel)
        in if fam = -1 then (False, dev1)
           else if \<not> device_ok then (False, dev1)
           else (True, dev1\<lparr>vd_compute_queue_family := fam, vd_available := True\<rparr>))"

definition make_device :: "bool \<Rightarrow> bool \<Rightarrow> vk_physical_device list \<Rightarrow> vulkan_device" where
  "make_device instance_ok device_ok devs =
     (let (ok, dev) = init_vulkan instance_ok device_ok devs fresh_device in dev\<lparr>vd_available := ok\<rparr>)"

definition cleanup :: "vulkan_device \<Rightarrow> vulkan_device" where
  "cleanup dev = dev\<lparr>vd_compute_queue_family := -1, vd_available := False\<rparr>"

section \<open>The byte ledger\<close>

definition available_safe_bytes :: "vulkan_device \<Rightarrow> size_t" where
  "available_safe_bytes dev =
     (if vd_allocated_bytes dev < vd_safe_ceiling_bytes dev
      then vd_safe_ceiling_bytes dev - vd_allocated_bytes dev else 0)"

definition memory_info :: "vulkan_device \<Rightarrow> vulkan_memory_info" where
  "memory_info dev =
     \<lparr>total_vram = vd_total_vram_bytes dev, safe_ceiling = vd_safe_ceiling_bytes dev,
      allocated = vd_allocated_bytes dev,
      available_budget = (if vd_allocated_bytes dev < vd_safe_ceiling_bytes dev
                          then vd_safe_ceiling_bytes dev - vd_allocated_bytes dev else 0)\<rparr>"

definition can_admit :: "vulkan_device \<Rightarrow> size_t \<Rightarrow> bool" where
  "can_admit dev bytes \<longleftrightarrow>
     vd_available dev \<and> vd_allocated_bytes dev + bytes \<le> vd_safe_ceiling_bytes dev"

definition dev_allocate :: "vulkan_device \<Rightarrow> size_t \<Rightarrow> bool \<times> vulkan_device" where
  "dev_allocate dev bytes =
     (if \<not> vd_available dev then (False, dev)
      else if vd_allocated_bytes dev + bytes > vd_safe_ceiling_bytes dev then (False, dev)
      else (True, dev\<lparr>vd_allocated_bytes := vd_allocated_bytes dev + bytes\<rparr>))"

definition dev_release :: "vulkan_device \<Rightarrow> size_t \<Rightarrow> vulkan_device" where
  "dev_release dev bytes =
     (if bytes \<ge> vd_allocated_bytes dev then dev\<lparr>vd_allocated_bytes := 0\<rparr>
      else dev\<lparr>vd_allocated_bytes := vd_allocated_bytes dev - bytes\<rparr>)"

definition find_memory_type :: "u32 list \<Rightarrow> u32 \<Rightarrow> u32 \<Rightarrow> nat option" where
  "find_memory_type type_flags type_filter properties =
     find (\<lambda>i. bit type_filter i \<and> and (type_flags ! i) properties = properties) [0..<length type_flags]"

section \<open>Selection and ceiling\<close>

lemma select_device_some: "(\<exists>d. sel = Some d) \<or> (best < 0 \<and> ds \<noteq> []) \<Longrightarrow> \<exists>d. select_device best sel ds = Some d"
proof (induction best sel ds rule: select_device.induct)
  case (2 best sel d ds)
  have "0 \<le> device_score d" by (simp add: device_score_def)
  with 2 show ?case by auto
qed auto

lemma select_device_best:
  "select_device best sel ds = Some d \<Longrightarrow> (\<And>s. sel = Some s \<Longrightarrow> device_score s = best) \<Longrightarrow>
   best \<le> device_score d \<and> (\<forall>e \<in> set ds. device_score e \<le> device_score d) \<and>
   (d \<in> set ds \<or> sel = Some d)"
proof (induction best sel ds rule: select_device.induct)
  case (2 best sel e ds)
  then show ?case by (cases "device_score e > best") fastforce+
qed auto

text \<open>The truncated double product never exceeds 85 percent on any machine with less than 2^48 bytes of VRAM.\<close>

lemma dbl_times_085:
  assumes "n < 2 ^ 48"
  shows "100 * (dbl_times n 7656119366529843 div 2 ^ 53) \<le> 85 * n"
proof -
  define X where "X = n * 7656119366529843"
  define c where "c = dbl_times n 7656119366529843 div 2 ^ 53"
  have "round_sig 53 n = n" using assms by (intro round_sig_exact) simp
  then have "dbl_times n 7656119366529843 = round_sig 53 X" by (simp add: dbl_times_def X_def)
  then have "c * 2 ^ 53 \<le> round_sig 53 X" by (simp add: c_def)
  then have "c * 2 ^ 53 * 2 ^ 53 \<le> round_sig 53 X * 2 ^ 53" by simp
  also have "\<dots> \<le> X * (2 ^ 53 + 1)" by (rule round_sig_error) simp
  finally have "20 * c * (2 ^ 53 * 2 ^ 53) \<le> 20 * X * (2 ^ 53 + 1)" by simp
  also have "\<dots> \<le> n * (17 * 2 ^ 53) * (2 ^ 53 + 1)" by (simp add: X_def)
  finally have "20 * c * 2 ^ 53 \<le> 17 * n * (2 ^ 53 + 1)" by simp
  with assms have "20 * c \<le> 17 * n" by simp
  then show ?thesis by (simp add: c_def)
qed

lemma vram_ceiling_unat:
  assumes "unat tot < 2 ^ 48"
  shows "unat (vram_ceiling tot) = dbl_times (unat tot) 7656119366529843 div 2 ^ 53"
proof -
  have "100 * (dbl_times (unat tot) 7656119366529843 div 2 ^ 53) \<le> 85 * unat tot"
    using assms by (rule dbl_times_085)
  with assms have "dbl_times (unat tot) 7656119366529843 div 2 ^ 53 < 2 ^ 64" by simp
  then show ?thesis by (simp add: vram_ceiling_def unat_of_nat_u64)
qed

section \<open>The admission interface\<close>

text \<open>
  What a client of the ledger may rely on: an admitted reservation is granted, the ledger moves by
  exactly the reserved bytes, giving them back restores it, and the ceiling is never passed.
\<close>

locale admission_ledger =
  fixes admits :: "'d \<Rightarrow> size_t \<Rightarrow> bool"
    and reserve :: "'d \<Rightarrow> size_t \<Rightarrow> bool \<times> 'd"
    and give_back :: "'d \<Rightarrow> size_t \<Rightarrow> 'd"
    and used :: "'d \<Rightarrow> nat"
    and ceiling :: "'d \<Rightarrow> nat"
    and small :: "'d \<Rightarrow> size_t \<Rightarrow> bool"
  assumes reserve_grants: "admits d b \<Longrightarrow> fst (reserve d b)"
    and reserve_used: "small d b \<Longrightarrow> fst (reserve d b) \<Longrightarrow> used (snd (reserve d b)) = used d + unat b"
    and reserve_refused: "\<not> fst (reserve d b) \<Longrightarrow> snd (reserve d b) = d"
    and reserve_ceiling: "ceiling (snd (reserve d b)) = ceiling d"
    and reserve_bound: "used d \<le> ceiling d \<Longrightarrow> used (snd (reserve d b)) \<le> ceiling d"
    and give_back_used: "used (give_back d b) = used d - unat b"
    and give_back_ceiling: "ceiling (give_back d b) = ceiling d"
begin

lemma reserve_give_back:
  "small d b \<Longrightarrow> fst (reserve d b) \<Longrightarrow> used (give_back (snd (reserve d b)) b) = used d"
  by (simp add: give_back_used reserve_used)

lemma admits_used:
  "admits d b \<Longrightarrow> small d b \<Longrightarrow> used (snd (reserve d b)) = used d + unat b"
  by (simp add: reserve_grants reserve_used)

lemma give_back_bound: "used d \<le> ceiling d \<Longrightarrow> used (give_back d b) \<le> ceiling (give_back d b)"
  by (simp add: give_back_used give_back_ceiling)

end

definition no_wrap :: "vulkan_device \<Rightarrow> size_t \<Rightarrow> bool" where
  "no_wrap dev bytes \<longleftrightarrow> unat (vd_allocated_bytes dev) + unat bytes < 2 ^ 64"

interpretation ledger: admission_ledger
  can_admit dev_allocate dev_release "\<lambda>d. unat (vd_allocated_bytes d)" "\<lambda>d. unat (vd_safe_ceiling_bytes d)" no_wrap
proof unfold_locales
  fix d b
  show "can_admit d b \<Longrightarrow> fst (dev_allocate d b)"
    by (auto simp: can_admit_def dev_allocate_def)
  show "no_wrap d b \<Longrightarrow> fst (dev_allocate d b) \<Longrightarrow>
    unat (vd_allocated_bytes (snd (dev_allocate d b))) = unat (vd_allocated_bytes d) + unat b"
    by (auto simp: dev_allocate_def no_wrap_def unat_add_u64_no_wrap split: if_splits)
  show "\<not> fst (dev_allocate d b) \<Longrightarrow> snd (dev_allocate d b) = d"
    by (auto simp: dev_allocate_def split: if_splits)
  show "unat (vd_safe_ceiling_bytes (snd (dev_allocate d b))) = unat (vd_safe_ceiling_bytes d)"
    by (simp add: dev_allocate_def)
  show "unat (vd_allocated_bytes d) \<le> unat (vd_safe_ceiling_bytes d) \<Longrightarrow>
    unat (vd_allocated_bytes (snd (dev_allocate d b))) \<le> unat (vd_safe_ceiling_bytes d)"
    by (auto simp: dev_allocate_def simp flip: word_le_nat_alt)
  show "unat (vd_allocated_bytes (dev_release d b)) = unat (vd_allocated_bytes d) - unat b"
    by (auto simp: dev_release_def word_le_nat_alt unat_sub)
  show "unat (vd_safe_ceiling_bytes (dev_release d b)) = unat (vd_safe_ceiling_bytes d)"
    by (simp add: dev_release_def)
qed

section \<open>Runs of the ledger\<close>

datatype dev_op = Alloc size_t | Release size_t

fun dev_step :: "vulkan_device \<Rightarrow> dev_op \<Rightarrow> vulkan_device" where
  "dev_step d (Alloc b) = snd (dev_allocate d b)"
| "dev_step d (Release b) = dev_release d b"

definition dev_run :: "vulkan_device \<Rightarrow> dev_op list \<Rightarrow> vulkan_device" where
  "dev_run = foldl dev_step"

lemma dev_step_ceiling [simp]: "vd_safe_ceiling_bytes (dev_step d e) = vd_safe_ceiling_bytes d"
  by (cases e) (simp_all add: dev_allocate_def dev_release_def)

lemma dev_step_bound:
  "vd_allocated_bytes d \<le> vd_safe_ceiling_bytes d \<Longrightarrow> vd_allocated_bytes (dev_step d e) \<le> vd_safe_ceiling_bytes (dev_step d e)"
  using ledger.reserve_bound [of d] ledger.give_back_used [of d]
  by (cases e) (auto simp: word_le_nat_alt ledger.reserve_ceiling ledger.give_back_ceiling)

lemma dev_run_bound:
  "vd_allocated_bytes d \<le> vd_safe_ceiling_bytes d \<Longrightarrow>
   vd_allocated_bytes (dev_run d es) \<le> vd_safe_ceiling_bytes d \<and> vd_safe_ceiling_bytes (dev_run d es) = vd_safe_ceiling_bytes d"
  unfolding dev_run_def
proof (induction es arbitrary: d)
  case (Cons e es)
  with Cons.IH [OF dev_step_bound] show ?case by simp
qed simp

lemma make_device_ledger_empty: "vd_allocated_bytes (make_device io dok devs) = 0"
  by (auto simp: make_device_def init_vulkan_def fresh_device_def Let_def split: option.splits)

lemma make_device_ceiling:
  "vd_safe_ceiling_bytes (make_device io dok devs) = 0 \<or>
   vd_safe_ceiling_bytes (make_device io dok devs) = vram_ceiling (vd_total_vram_bytes (make_device io dok devs))"
  by (auto simp: make_device_def init_vulkan_def fresh_device_def Let_def split: option.splits)

text \<open>
  C8. Whatever sequence of reservations and releases runs on a device that DenseLite initialised, the
  ledger never holds more than 85 percent of the device-local memory: 15 percent stay reserved for the
  display server. (Machines with less than 2^48 bytes of VRAM.)
\<close>

theorem vram_never_above_85_percent:
  assumes "unat (vd_total_vram_bytes (make_device io dok devs)) < 2 ^ 48"
  shows "100 * unat (vd_allocated_bytes (dev_run (make_device io dok devs) es))
           \<le> 85 * unat (vd_total_vram_bytes (make_device io dok devs))"
proof -
  let ?d = "make_device io dok devs"
  have "vd_allocated_bytes (dev_run ?d es) \<le> vd_safe_ceiling_bytes ?d"
    by (rule dev_run_bound [THEN conjunct1]) (simp add: make_device_ledger_empty)
  then have le: "unat (vd_allocated_bytes (dev_run ?d es)) \<le> unat (vd_safe_ceiling_bytes ?d)"
    by (simp add: word_le_nat_alt)
  have "100 * unat (vd_safe_ceiling_bytes ?d) \<le> 85 * unat (vd_total_vram_bytes ?d)"
    using make_device_ceiling [of io dok devs] dbl_times_085 [OF assms] vram_ceiling_unat [OF assms] by auto
  with le show ?thesis by linarith
qed

definition demo_gpu :: vk_physical_device where
  "demo_gpu = \<lparr>vk_type = 2, vk_heaps = [\<lparr>heap_size = 2000, device_local = True\<rparr>, \<lparr>heap_size = 7, device_local = False\<rparr>],
               vk_queue_compute = [False, True]\<rparr>"

theorem vram_never_above_85_percent_witness:
  "100 * unat (vd_allocated_bytes (dev_run (make_device True True [demo_gpu]) [Alloc 1000, Alloc 900, Release 300]))
     \<le> 85 * unat (vd_total_vram_bytes (make_device True True [demo_gpu]))"
  by (rule vram_never_above_85_percent)
     (simp add: make_device_def init_vulkan_def fresh_device_def demo_gpu_def device_score_def)

end
