(* ===== verification/Resource_Governor.thy ===== *)
theory Resource_Governor
  imports Vulkan_Device
begin

text \<open>
  \<open>ResourcePolicy\<close> (\<open>src/src/ResourcePolicy.hpp\<close>) and \<open>ResourceGovernor\<close> (\<open>resource_governor.hpp\<close>,
  \<open>resource_governor.cpp\<close>): host memory queries, the RAM ceiling, thread budget, admission checks, the
  six-stage eviction assessment and dynamic context sizing. The operating system's files
  \<open>/proc/meminfo\<close> and \<open>/proc/self/statm\<close> are inputs (Linux branch of the sources); everything computed from
  them is modelled, including the conversions to \<open>float\<close> and \<open>double\<close>. A function that queries the
  host several times takes one reading per query site where a different answer could matter.
\<close>

section \<open>Host readings\<close>

record proc_env =
  meminfo :: "string list option"
  statm :: "string option"
  page_size :: int

definition four_gib :: size_t where
  "four_gib = 4 * 1024 * 1024 * 1024"

text \<open>The \<open>%zu\<close> conversion: white space, an optional sign, then at least one digit.\<close>

definition split_sign :: "string \<Rightarrow> bool \<times> string" where
  "split_sign s =
     (case s of [] \<Rightarrow> (False, [])
      | c # cs \<Rightarrow> if c = CHR ''-'' then (True, cs) else if c = CHR ''+'' then (False, cs) else (False, s))"

definition scan_unsigned :: "string \<Rightarrow> (bool \<times> nat \<times> string) option" where
  "scan_unsigned s =
     (let (neg, ds) = split_sign (dropWhile isspace s)
      in case ds of [] \<Rightarrow> None
         | c # _ \<Rightarrow> if isdigit c then (let (n, r) = read_digits 0 ds in Some (neg, n, r)) else None)"

definition to_size_t :: "bool \<Rightarrow> nat \<Rightarrow> size_t" where
  "to_size_t neg n = (if 2 ^ 64 \<le> n then -1 else if neg then - of_nat n else of_nat n)"

definition sscanf_zu :: "string \<Rightarrow> size_t option" where
  "sscanf_zu s = map_option (\<lambda>(neg, n, _). to_size_t neg n) (scan_unsigned s)"

fun scan_mem_total :: "string list \<Rightarrow> size_t" where
  "scan_mem_total [] = 0"
| "scan_mem_total (l # ls) =
     (if starts_with ''MemTotal:'' l
      then (case sscanf_zu (drop 9 l) of Some kb \<Rightarrow> kb | None \<Rightarrow> scan_mem_total ls)
      else scan_mem_total ls)"

definition host_total_ram_bytes :: "proc_env \<Rightarrow> size_t" where
  "host_total_ram_bytes env =
     (let kb = (case meminfo env of None \<Rightarrow> 0 | Some ls \<Rightarrow> scan_mem_total ls)
      in if kb = 0 then four_gib else kb * 1024)"

fun scan_mem_available :: "string list \<Rightarrow> size_t" where
  "scan_mem_available [] = four_gib"
| "scan_mem_available (l # ls) =
     (if starts_with ''MemAvailable:'' l
      then (case sscanf_zu (drop 13 l) of Some kb \<Rightarrow> kb * 1024 | None \<Rightarrow> scan_mem_available ls)
      else scan_mem_available ls)"

definition get_host_available_ram_bytes :: "proc_env \<Rightarrow> size_t" where
  "get_host_available_ram_bytes env =
     (case meminfo env of None \<Rightarrow> four_gib | Some ls \<Rightarrow> scan_mem_available ls)"

text \<open>\<open>statm >> size >> resident\<close>: an extraction that overflows \<open>size_t\<close> fails.\<close>

definition extract_size_t :: "string \<Rightarrow> (size_t \<times> string) option" where
  "extract_size_t s =
     (case scan_unsigned s of None \<Rightarrow> None
      | Some (neg, n, r) \<Rightarrow> if 2 ^ 64 \<le> n then None else Some (to_size_t neg n, r))"

definition get_process_rss_bytes :: "proc_env \<Rightarrow> size_t" where
  "get_process_rss_bytes env =
     (case statm env of None \<Rightarrow> 0
      | Some txt \<Rightarrow>
          (case extract_size_t txt of None \<Rightarrow> 0
           | Some (_, rest) \<Rightarrow>
               (case extract_size_t rest of None \<Rightarrow> 0
                | Some (resident, _) \<Rightarrow>
                    if page_size env > 0 then resident * of_int (page_size env) else 0)))"

section \<open>Resource policy\<close>

text \<open>A \<open>float\<close> setting: a finite value is \<open>m / 2^k\<close>.\<close>

datatype flt = FNaN | FInf bool | FFin int nat

definition flt_positive :: "flt \<Rightarrow> bool" where
  "flt_positive f = (case f of FNaN \<Rightarrow> False | FInf neg \<Rightarrow> \<not> neg | FFin m k \<Rightarrow> m > 0)"

definition flt_above_half :: "flt \<Rightarrow> bool" where
  "flt_above_half f = (case f of FNaN \<Rightarrow> False | FInf neg \<Rightarrow> \<not> neg | FFin m k \<Rightarrow> 2 ^ k < 2 * m)"

definition DEFAULT_RAM_BUDGET_PCT :: flt where
  "DEFAULT_RAM_BUDGET_PCT = FFin 1 1"

definition flt_times_size :: "size_t \<Rightarrow> flt \<Rightarrow> size_t" where
  "flt_times_size n f =
     (case f of FFin m k \<Rightarrow> of_nat (round_sig 24 (round_sig 24 (unat n) * nat m) div 2 ^ k) | _ \<Rightarrow> 0)"

definition compute_safe_ram_ceiling :: "proc_env \<Rightarrow> flt \<Rightarrow> size_t" where
  "compute_safe_ram_ceiling env configured_pct =
     (let pct = configured_pct;
          pct = (if \<not> flt_positive pct then DEFAULT_RAM_BUDGET_PCT else pct);
          pct = (if flt_above_half pct then DEFAULT_RAM_BUDGET_PCT else pct)
      in flt_times_size (host_total_ram_bytes env) pct)"

text \<open>\<open>int\<close> arithmetic of C++ truncates; \<open>hw_concurrency * 50\<close> does not overflow for real core counts.\<close>

definition c_div :: "int \<Rightarrow> int \<Rightarrow> int" where
  "c_div a b = sgn a * sgn b * (\<bar>a\<bar> div \<bar>b\<bar>)"

definition thread_limit_for_hardware :: "int \<Rightarrow> int \<Rightarrow> int" where
  "thread_limit_for_hardware hw_concurrency configured_threads =
     (let hw = (if hw_concurrency = 0 then 4 else hw_concurrency);
          safe_limit = max 1 (c_div (hw * 50) 100)
      in if configured_threads > 0 then min configured_threads safe_limit else safe_limit)"

section \<open>Governor state\<close>

datatype eviction_stage =
  STAGE_NONE | DISCARD_SCRATCH | SHRINK_CONTEXT | EVICT_RETRIEVAL | UNLOAD_WARM | REJECT_OPTIONAL | ROUTE_CLOUD

fun stage_level :: "eviction_stage \<Rightarrow> nat" where
  "stage_level STAGE_NONE = 0"
| "stage_level DISCARD_SCRATCH = 1"
| "stage_level SHRINK_CONTEXT = 2"
| "stage_level EVICT_RETRIEVAL = 3"
| "stage_level UNLOAD_WARM = 4"
| "stage_level REJECT_OPTIONAL = 5"
| "stage_level ROUTE_CLOUD = 6"

lemma stage_level_inject: "stage_level a = stage_level b \<Longrightarrow> a = b"
  by (cases a; cases b) auto

text \<open>The scoped enumeration is compared by its numeric values.\<close>

instantiation eviction_stage :: linorder
begin

definition less_eq_eviction_stage :: "eviction_stage \<Rightarrow> eviction_stage \<Rightarrow> bool" where
  "less_eq_eviction_stage a b \<longleftrightarrow> stage_level a \<le> stage_level b"

definition less_eviction_stage :: "eviction_stage \<Rightarrow> eviction_stage \<Rightarrow> bool" where
  "less_eviction_stage a b \<longleftrightarrow> stage_level a < stage_level b"

instance
  by standard (auto simp: less_eq_eviction_stage_def less_eviction_stage_def intro: stage_level_inject)

end

record resource_governor =
  gpu_device :: "vulkan_device option"
  max_allowed_ram_bytes :: size_t
  inference_mem :: size_t
  kv_cache_mem :: size_t
  vector_store_mem :: size_t
  model_weights_mem :: size_t

definition make_governor :: "vulkan_device option \<Rightarrow> proc_env \<Rightarrow> flt \<Rightarrow> resource_governor" where
  "make_governor gpu env ram_budget_percent =
     \<lparr>gpu_device = gpu, max_allowed_ram_bytes = compute_safe_ram_ceiling env ram_budget_percent,
      inference_mem = 0, kv_cache_mem = 0, vector_store_mem = 0, model_weights_mem = 0\<rparr>"

definition get_max_allowed_threads :: "int \<Rightarrow> int \<Rightarrow> int" where
  "get_max_allowed_threads hw threads_setting = thread_limit_for_hardware hw threads_setting"

definition track_inference_memory :: "size_t \<Rightarrow> resource_governor \<Rightarrow> resource_governor" where
  "track_inference_memory bytes g = g\<lparr>inference_mem := bytes\<rparr>"

definition track_kv_cache :: "size_t \<Rightarrow> resource_governor \<Rightarrow> resource_governor" where
  "track_kv_cache bytes g = g\<lparr>kv_cache_mem := bytes\<rparr>"

definition track_vector_store :: "size_t \<Rightarrow> resource_governor \<Rightarrow> resource_governor" where
  "track_vector_store bytes g = g\<lparr>vector_store_mem := bytes\<rparr>"

definition track_model_weights :: "size_t \<Rightarrow> resource_governor \<Rightarrow> resource_governor" where
  "track_model_weights bytes g = g\<lparr>model_weights_mem := bytes\<rparr>"

definition get_total_tracked_bytes :: "resource_governor \<Rightarrow> size_t" where
  "get_total_tracked_bytes g = inference_mem g + kv_cache_mem g + vector_store_mem g + model_weights_mem g"

definition is_under_memory_pressure :: "resource_governor \<Rightarrow> proc_env \<Rightarrow> bool" where
  "is_under_memory_pressure g env =
     (let avail = get_host_available_ram_bytes env; tot = host_total_ram_bytes env
      in if dbl_less (unat avail) (unat tot) 3602879701896397 55 \<or> avail < 1536 * 1024 * 1024 then True
         else if get_process_rss_bytes env > max_allowed_ram_bytes g then True
         else False)"

definition can_admit_host_ram :: "resource_governor \<Rightarrow> proc_env \<Rightarrow> size_t \<Rightarrow> bool" where
  "can_admit_host_ram g env required_bytes =
     (let avail = get_host_available_ram_bytes env;
          min_headroom = 1024 * 1024 * 1024;
          used = max (get_process_rss_bytes env) (get_total_tracked_bytes g)
      in used \<le> max_allowed_ram_bytes g \<and> required_bytes \<le> max_allowed_ram_bytes g - used \<and>
         avail > min_headroom \<and> required_bytes < avail - min_headroom)"

definition can_admit_gpu_vram :: "resource_governor \<Rightarrow> size_t \<Rightarrow> size_t \<Rightarrow> bool" where
  "can_admit_gpu_vram g model_bytes static_overhead_bytes =
     (case gpu_device g of None \<Rightarrow> False
      | Some dev \<Rightarrow>
          if \<not> vd_available dev then False
          else let vram = memory_info dev;
                   required = model_bytes + static_overhead_bytes;
                   free_vram = (if safe_ceiling vram > allocated vram then safe_ceiling vram - allocated vram else 0)
               in free_vram \<ge> required)"

text \<open>The literals 0.05, 0.08, 0.12, 0.16, 0.20 and 0.25 as dyadic fractions.\<close>

definition stage_of_readings :: "size_t \<Rightarrow> size_t \<Rightarrow> size_t \<Rightarrow> size_t \<Rightarrow> eviction_stage" where
  "stage_of_readings avail tot rss max_allowed =
     (if dbl_less (unat avail) (unat tot) 3602879701896397 56 \<or> avail < 512 * 1024 * 1024 \<or> rss > max_allowed
      then ROUTE_CLOUD
      else if dbl_less (unat avail) (unat tot) 5764607523034235 56 \<or> avail < 1024 * 1024 * 1024
      then REJECT_OPTIONAL
      else if dbl_less (unat avail) (unat tot) 1080863910568919 53 \<or> avail < 1536 * 1024 * 1024
      then UNLOAD_WARM
      else if dbl_less (unat avail) (unat tot) 5764607523034235 55 \<or> avail < 2048 * 1024 * 1024
      then EVICT_RETRIEVAL
      else if dbl_less (unat avail) (unat tot) 3602879701896397 54 \<or> avail < 2560 * 1024 * 1024
      then SHRINK_CONTEXT
      else if dbl_less (unat avail) (unat tot) 1 2 \<or> avail < 3072 * 1024 * 1024
      then DISCARD_SCRATCH
      else STAGE_NONE)"

definition assess_eviction_stage :: "resource_governor \<Rightarrow> proc_env \<Rightarrow> eviction_stage" where
  "assess_eviction_stage g env =
     stage_of_readings (get_host_available_ram_bytes env) (host_total_ram_bytes env)
       (get_process_rss_bytes env) (max_allowed_ram_bytes g)"

definition should_route_to_cloud :: "resource_governor \<Rightarrow> proc_env \<Rightarrow> bool" where
  "should_route_to_cloud g env \<longleftrightarrow> assess_eviction_stage g env \<ge> ROUTE_CLOUD"

definition should_reject_optional_load :: "resource_governor \<Rightarrow> proc_env \<Rightarrow> bool" where
  "should_reject_optional_load g env \<longleftrightarrow> assess_eviction_stage g env \<ge> REJECT_OPTIONAL"

record resource_snapshot =
  snap_total_ram :: size_t
  snap_available_ram :: size_t
  snap_process_rss :: size_t
  snap_vram_total :: size_t
  snap_vram_ceiling :: size_t
  snap_vram_allocated :: size_t
  snap_inference :: size_t
  snap_kv_cache :: size_t
  snap_vector_store :: size_t
  snap_model_weights :: size_t
  snap_max_threads :: int
  snap_memory_pressure :: bool
  snap_stage :: eviction_stage

text \<open>\<open>env\<close>, \<open>env_p\<close> and \<open>env_s\<close> are the host readings of the three query sites of the function.\<close>

definition get_snapshot ::
  "resource_governor \<Rightarrow> int \<Rightarrow> int \<Rightarrow> proc_env \<Rightarrow> proc_env \<Rightarrow> proc_env \<Rightarrow> resource_snapshot" where
  "get_snapshot g hw threads_setting env env_p env_s =
     (let vram = (case gpu_device g of
                    Some dev \<Rightarrow> if vd_available dev
                      then (total_vram (memory_info dev), safe_ceiling (memory_info dev), allocated (memory_info dev))
                      else (0, 0, 0)
                  | None \<Rightarrow> (0, 0, 0))
      in \<lparr>snap_total_ram = host_total_ram_bytes env,
          snap_available_ram = get_host_available_ram_bytes env,
          snap_process_rss = get_process_rss_bytes env,
          snap_vram_total = fst vram, snap_vram_ceiling = fst (snd vram), snap_vram_allocated = snd (snd vram),
          snap_inference = inference_mem g, snap_kv_cache = kv_cache_mem g,
          snap_vector_store = vector_store_mem g, snap_model_weights = model_weights_mem g,
          snap_max_threads = get_max_allowed_threads hw threads_setting,
          snap_memory_pressure = is_under_memory_pressure g env_p,
          snap_stage = assess_eviction_stage g env_s\<rparr>)"

section \<open>Dynamic context sizing\<close>

text \<open>The three numbers of the active model's configuration that the function reads.\<close>

record kv_shape =
  ks_num_layers :: u32
  ks_num_kv_heads :: u32
  ks_head_dim :: u32

definition kv_bytes_per_token :: "kv_shape option \<Rightarrow> size_t" where
  "kv_bytes_per_token cfg =
     (let b = (case cfg of
                 Some c \<Rightarrow> if ks_num_layers c > 0 \<and> ks_num_kv_heads c > 0
                            then ucast (ks_num_layers c) * ucast (ks_num_kv_heads c) * ucast (ks_head_dim c) * 8
                            else 57344
               | None \<Rightarrow> 57344)
      in if b = 0 then 57344 else b)"

text \<open>\<open>static_cast<size_t>(std::min(policy_headroom, available_headroom) * 0.90)\<close>\<close>

definition dynamic_kv_budget :: "proc_env \<Rightarrow> flt \<Rightarrow> size_t" where
  "dynamic_kv_budget env ram_budget_percent =
     (let avail_ram = get_host_available_ram_bytes env;
          ceiling = compute_safe_ram_ceiling env ram_budget_percent;
          rss = get_process_rss_bytes env;
          policy_headroom = (if ceiling > rss then ceiling - rss else 0);
          reserve = 1024 * 1024 * 1024;
          available_headroom = (if avail_ram > reserve then avail_ram - reserve else 0)
      in of_nat (dbl_times (unat (min policy_headroom available_headroom)) 8106479329266893 div 2 ^ 53))"

definition context_tokens_for :: "size_t \<Rightarrow> size_t \<Rightarrow> size_t" where
  "context_tokens_for budget bytes_per_token =
     (if budget \<ge> 65536 * bytes_per_token then 65536
      else if budget \<ge> 32768 * bytes_per_token then 32768
      else if budget \<ge> 16384 * bytes_per_token then 16384
      else let tokens = budget div bytes_per_token; tokens = (tokens div 1024) * 1024
           in min tokens 8192)"

definition calculate_dynamic_context_tokens :: "proc_env \<Rightarrow> flt \<Rightarrow> kv_shape option \<Rightarrow> size_t" where
  "calculate_dynamic_context_tokens env ram_budget_percent cfg =
     context_tokens_for (dynamic_kv_budget env ram_budget_percent) (kv_bytes_per_token cfg)"

section \<open>Correctness\<close>

lemma flt_times_size_half:
  assumes "0 < m" and "2 * m \<le> 2 ^ k"
  shows "2 * unat (flt_times_size n (FFin m k)) \<le> round_sig 24 (unat n)"
proof -
  obtain j where k: "k = Suc j" using assms by (cases k) auto
  have "nat (2 * m) \<le> nat (2 ^ k)" using assms(2) by (rule nat_mono)
  then have "2 * nat m \<le> 2 ^ k" by (simp add: nat_mult_distrib nat_power_eq)
  then have m: "nat m \<le> 2 ^ j" by (simp add: k)
  let ?r = "round_sig 24 (unat n)"
  have "round_sig 24 (?r * nat m) \<le> round_sig 24 (?r * 2 ^ j)"
    using m by (intro round_sig_mono) auto
  also have "\<dots> = ?r * 2 ^ j" by (simp add: round_sig_scale round_sig_idem)
  finally have "round_sig 24 (?r * nat m) div 2 ^ k \<le> ?r * 2 ^ j div (2 ^ j * 2)"
    by (metis div_le_mono k power_Suc2)
  also have "\<dots> = ?r div 2" by simp
  finally have le: "round_sig 24 (?r * nat m) div 2 ^ k \<le> ?r div 2" .
  have "unat (flt_times_size n (FFin m k)) \<le> round_sig 24 (?r * nat m) div 2 ^ k"
    by (simp add: flt_times_size_def unat_of_nat_u64)
  with le show ?thesis by linarith
qed

text \<open>
  Whatever the configured percentage is (negative, zero, above one half, infinite or NaN), the RAM
  ceiling is at most half of the host memory, up to the rounding of the byte count to \<open>float\<close> (a
  relative error of 2^-24).
\<close>

theorem ram_ceiling_at_most_half:
  "2 * unat (compute_safe_ram_ceiling env pct) * 2 ^ 24 \<le> unat (host_total_ram_bytes env) * (2 ^ 24 + 1)"
proof -
  define p where "p = (let p0 = (if \<not> flt_positive pct then DEFAULT_RAM_BUDGET_PCT else pct)
                        in if flt_above_half p0 then DEFAULT_RAM_BUDGET_PCT else p0)"
  have "\<exists>m k. p = FFin m k \<and> 0 < m \<and> 2 * m \<le> 2 ^ k"
    by (auto simp: p_def DEFAULT_RAM_BUDGET_PCT_def flt_positive_def flt_above_half_def split: flt.splits)
  moreover have "compute_safe_ram_ceiling env pct = flt_times_size (host_total_ram_bytes env) p"
    by (simp add: compute_safe_ram_ceiling_def p_def)
  ultimately have "2 * unat (compute_safe_ram_ceiling env pct) \<le> round_sig 24 (unat (host_total_ram_bytes env))"
    using flt_times_size_half by metis
  then have "2 * unat (compute_safe_ram_ceiling env pct) * 2 ^ 24
      \<le> round_sig 24 (unat (host_total_ram_bytes env)) * 2 ^ 24"
    by (rule mult_le_mono1)
  also have "\<dots> \<le> unat (host_total_ram_bytes env) * (2 ^ 24 + 1)"
    by (rule round_sig_error) simp
  finally show ?thesis .
qed

text \<open>The thread budget is at least one and never more than half of the hardware threads (or one).\<close>

lemma thread_limit_bounds:
  "0 < hw \<Longrightarrow> 1 \<le> thread_limit_for_hardware hw t \<and> thread_limit_for_hardware hw t \<le> max 1 (hw div 2)"
  by (auto simp: thread_limit_for_hardware_def c_div_def Let_def min_def max_def)

subsection \<open>The eviction ladder\<close>

lemma stage_antimono_avail:
  assumes "a \<le> b"
  shows "stage_of_readings b tot rss mx \<le> stage_of_readings a tot rss mx"
proof -
  have d: "dbl_less (unat b) n m k \<Longrightarrow> dbl_less (unat a) n m k" for n m k
    using assms by (rule dbl_less_antimono [OF word_le_nat_alt [THEN iffD1]])
  have w: "b < c \<Longrightarrow> a < c" for c using assms by simp
  show ?thesis
    unfolding stage_of_readings_def less_eq_eviction_stage_def
    using d [of "unat tot"] w by (auto split: if_splits)
qed

text \<open>
  The eviction cascade is monotone: with the same total memory and the same process size, less
  available memory never leads to a milder stage.
\<close>

theorem eviction_stage_monotone:
  assumes "get_host_available_ram_bytes e1 \<le> get_host_available_ram_bytes e2"
    and "host_total_ram_bytes e1 = host_total_ram_bytes e2"
    and "get_process_rss_bytes e1 = get_process_rss_bytes e2"
  shows "assess_eviction_stage g e2 \<le> assess_eviction_stage g e1"
  using assms stage_antimono_avail by (simp add: assess_eviction_stage_def)

definition demo_env :: "string \<Rightarrow> proc_env" where
  "demo_env avail_kb =
     \<lparr>meminfo = Some [''MemTotal: 8000000 kB'', ''MemAvailable: '' @ avail_kb @ '' kB''],
      statm = Some ''500 200 7'', page_size = 4096\<rparr>"

definition demo_governor :: resource_governor where
  "demo_governor = make_governor None (demo_env ''4000000'') (FFin 1 1)"

lemmas host_eval_simps =
  demo_env_def get_host_available_ram_bytes_def host_total_ram_bytes_def get_process_rss_bytes_def
  sscanf_zu_def scan_unsigned_def split_sign_def to_size_t_def extract_size_t_def isspace_def isdigit_def
  code_def four_gib_def

theorem eviction_stage_monotone_witness:
  "assess_eviction_stage demo_governor (demo_env ''4000000'') \<le> assess_eviction_stage demo_governor (demo_env ''900000'')"
  by (rule eviction_stage_monotone) (simp_all add: host_eval_simps)

lemma pressure_cases:
  "is_under_memory_pressure g env \<longleftrightarrow>
     dbl_less (unat (get_host_available_ram_bytes env)) (unat (host_total_ram_bytes env)) 3602879701896397 55 \<or>
     get_host_available_ram_bytes env < 1536 * 1024 * 1024 \<or>
     get_process_rss_bytes env > max_allowed_ram_bytes g"
  by (auto simp: is_under_memory_pressure_def Let_def)

text \<open>
  The two views of memory shortage agree: the pressure flag is set whenever optional loads are
  rejected, and whenever it is set the cascade has reached the stage that unloads warm models.
\<close>

theorem pressure_matches_cascade:
  "(should_reject_optional_load g env \<longrightarrow> is_under_memory_pressure g env) \<and>
   (is_under_memory_pressure g env \<longrightarrow> UNLOAD_WARM \<le> assess_eviction_stage g env)"
proof -
  let ?a = "get_host_available_ram_bytes env" and ?t = "host_total_ram_bytes env"
  have lit: "dbl_less (unat ?a) (unat ?t) 3602879701896397 56 \<Longrightarrow> dbl_less (unat ?a) (unat ?t) 3602879701896397 55"
    "dbl_less (unat ?a) (unat ?t) 5764607523034235 56 \<Longrightarrow> dbl_less (unat ?a) (unat ?t) 3602879701896397 55"
    "dbl_less (unat ?a) (unat ?t) 3602879701896397 55 \<Longrightarrow> dbl_less (unat ?a) (unat ?t) 1080863910568919 53"
    by (rule dbl_less_mono_lit; simp)+
  have lt: "?a < 512 * 1024 * 1024 \<Longrightarrow> ?a < 1536 * 1024 * 1024"
    "?a < 1024 * 1024 * 1024 \<Longrightarrow> ?a < 1536 * 1024 * 1024"
    by (auto elim: less_trans)
  show ?thesis
    using lit lt
    by (auto simp: should_reject_optional_load_def assess_eviction_stage_def stage_of_readings_def
        pressure_cases less_eq_eviction_stage_def split: if_splits)
qed

theorem pressure_matches_cascade_witness:
  "UNLOAD_WARM \<le> assess_eviction_stage demo_governor (demo_env ''900000'')"
proof -
  have "is_under_memory_pressure demo_governor (demo_env ''900000'')"
    by (simp add: pressure_cases host_eval_simps)
  with pressure_matches_cascade show ?thesis by blast
qed

subsection \<open>Admission\<close>

text \<open>
  An admitted host allocation keeps the process within its RAM ceiling and leaves the one-gigabyte
  reserve of the host untouched; no subtraction in the check wraps around.
\<close>

theorem host_admission_safe:
  assumes "can_admit_host_ram g env required"
  shows "unat (get_process_rss_bytes env) + unat required \<le> unat (max_allowed_ram_bytes g) \<and>
         unat (get_total_tracked_bytes g) + unat required \<le> unat (max_allowed_ram_bytes g) \<and>
         unat required + 2 ^ 30 < unat (get_host_available_ram_bytes env)"
proof -
  let ?used = "max (get_process_rss_bytes env) (get_total_tracked_bytes g)"
  let ?avail = "get_host_available_ram_bytes env"
  have used: "?used \<le> max_allowed_ram_bytes g" and req: "required \<le> max_allowed_ram_bytes g - ?used"
    and res: "1024 * 1024 * 1024 < ?avail" and av: "required < ?avail - 1024 * 1024 * 1024"
    using assms by (auto simp: can_admit_host_ram_def Let_def)
  have "unat required \<le> unat (max_allowed_ram_bytes g) - unat ?used"
    using req unat_sub_u64 [OF used] by (simp add: word_le_nat_alt)
  moreover have "unat ?used \<le> unat (max_allowed_ram_bytes g)" using used by (simp add: word_le_nat_alt)
  moreover have "unat ?used = max (unat (get_process_rss_bytes env)) (unat (get_total_tracked_bytes g))"
    by (rule unat_max_u64)
  moreover have "unat required < unat ?avail - unat (1024 * 1024 * 1024 :: size_t)"
    using av unat_sub_u64 [OF less_imp_le [OF res]] by (simp add: word_less_nat_alt)
  moreover have "unat (1024 * 1024 * 1024 :: size_t) = 2 ^ 30" by simp
  ultimately show ?thesis by linarith
qed

theorem host_admission_safe_witness:
  "unat (get_process_rss_bytes (demo_env ''4000000'')) + 1000000 \<le> unat (max_allowed_ram_bytes demo_governor)"
proof -
  have "can_admit_host_ram demo_governor (demo_env ''4000000'') 1000000"
    by (simp add: can_admit_host_ram_def host_eval_simps demo_governor_def make_governor_def Let_def
        get_total_tracked_bytes_def compute_safe_ram_ceiling_def flt_positive_def flt_above_half_def
        flt_times_size_def round_sig_def rne_def bit_length.simps)
  from host_admission_safe [OF this] show ?thesis by simp
qed

lemma gpu_admission_safe:
  assumes "can_admit_gpu_vram g model overhead" and "unat model + unat overhead < 2 ^ 64"
  shows "\<exists>dev. gpu_device g = Some dev \<and> vd_available dev \<and>
    (unat (vd_allocated_bytes dev) \<le> unat (vd_safe_ceiling_bytes dev) \<longrightarrow>
     unat (vd_allocated_bytes dev) + unat model + unat overhead \<le> unat (vd_safe_ceiling_bytes dev))"
  using assms
  by (auto simp: can_admit_gpu_vram_def memory_info_def word_le_nat_alt word_less_nat_alt unat_sub
      unat_add_u64_no_wrap Let_def split: option.splits if_splits)

subsection \<open>Context sizing\<close>

lemma unat_trunc_1024: "unat (x div 1024 * 1024 :: size_t) = unat x div 1024 * 1024"
proof -
  have "unat x div 1024 * 1024 \<le> unat x" by (rule div_times_less_eq_dividend)
  then have lt: "unat x div 1024 * 1024 < 2 ^ 64" by (rule le_less_trans) (use unsigned_less [of x] in simp)
  have "unat (x div 1024) * unat (1024 :: size_t) = unat x div 1024 * 1024" by (simp add: unat_div_u64)
  with lt show ?thesis by (subst unat_mult_u64_no_wrap) simp_all
qed

lemma context_tokens_fit:
  assumes "bpt \<noteq> 0" and "65536 * unat bpt < 2 ^ 64"
  shows "unat (context_tokens_for budget bpt) * unat bpt \<le> unat budget"
proof -
  have m: "unat (c * bpt) = unat c * unat bpt" if "unat c \<le> 65536" for c :: size_t
  proof (rule unat_mult_u64_no_wrap)
    have "unat c * unat bpt \<le> 65536 * unat bpt" using that by simp
    with assms(2) show "unat c * unat bpt < 2 ^ 64" by linarith
  qed
  let ?t = "budget div bpt"
  have t: "unat (?t div 1024 * 1024) \<le> unat budget div unat bpt"
    by (simp add: unat_trunc_1024 unat_div_u64)
  have low: "unat (min (?t div 1024 * 1024) 8192) * unat bpt \<le> unat budget"
  proof -
    have "unat (min (?t div 1024 * 1024) 8192) * unat bpt \<le> unat budget div unat bpt * unat bpt"
      using t by (intro mult_le_mono1) (simp add: unat_min_u64)
    also have "\<dots> \<le> unat budget" by simp
    finally show ?thesis .
  qed
  show ?thesis
    using m [of 65536] m [of 32768] m [of 16384] low
    by (auto simp: context_tokens_for_def Let_def word_le_nat_alt)
qed

lemma kv_bytes_per_token_nonzero: "kv_bytes_per_token cfg \<noteq> 0"
  by (auto simp: kv_bytes_per_token_def Let_def split: option.splits)

text \<open>
  The context length chosen from the live memory readings fits: that many tokens of KV cache need
  no more bytes than the dynamic budget allows, and the length is one of 65536, 32768, 16384 or a
  multiple of 1024 up to 8192.
\<close>

theorem dynamic_context_fits_budget:
  assumes "65536 * unat (kv_bytes_per_token cfg) < 2 ^ 64"
  shows "unat (calculate_dynamic_context_tokens env pct cfg) * unat (kv_bytes_per_token cfg)
           \<le> unat (dynamic_kv_budget env pct) \<and>
         (calculate_dynamic_context_tokens env pct cfg \<in> {65536, 32768, 16384} \<or>
          (1024 dvd unat (calculate_dynamic_context_tokens env pct cfg) \<and>
           calculate_dynamic_context_tokens env pct cfg \<le> 8192))"
proof
  show "unat (calculate_dynamic_context_tokens env pct cfg) * unat (kv_bytes_per_token cfg)
           \<le> unat (dynamic_kv_budget env pct)"
    unfolding calculate_dynamic_context_tokens_def
    using kv_bytes_per_token_nonzero assms by (rule context_tokens_fit)
next
  show "calculate_dynamic_context_tokens env pct cfg \<in> {65536, 32768, 16384} \<or>
          (1024 dvd unat (calculate_dynamic_context_tokens env pct cfg) \<and>
           calculate_dynamic_context_tokens env pct cfg \<le> 8192)"
    by (auto simp: calculate_dynamic_context_tokens_def context_tokens_for_def Let_def min_def unat_trunc_1024)
qed

theorem dynamic_context_fits_budget_witness:
  "unat (calculate_dynamic_context_tokens (demo_env ''4000000'') (FFin 1 1) None) * 57344
     \<le> unat (dynamic_kv_budget (demo_env ''4000000'') (FFin 1 1))"
  using dynamic_context_fits_budget [of None "demo_env ''4000000''" "FFin 1 1"]
  by (simp add: kv_bytes_per_token_def)

end
