(* ===== verification/Model_Pool.thy ===== *)
theory Model_Pool
  imports DL_Prelude "HOL-Library.Multiset"
begin

text \<open>
  Model residency: \<open>ModelRegistry\<close> (\<open>model_registry.hpp\<close>, \<open>model_registry.cpp\<close>), \<open>ModelPool\<close>
  (\<open>model_pool.hpp\<close>, \<open>model_pool.cpp\<close>) and the RAII handle \<open>ModelLease\<close> (\<open>model_lease.hpp\<close>,
  \<open>model_lease.cpp\<close>).

  The pool's entries live on the heap behind \<open>unique_ptr\<close>s that are never null, so an entry carries
  the address it was allocated at (\<open>me_addr\<close>, drawn from a counter); a lease holds such an address as its
  model pointer. The type of models is left abstract (\<open>'m\<close>). Clock readings are arguments. The pool's
  own mutex is not recursive: the one call that would take it twice is an error value.
\<close>

section \<open>Registry\<close>

datatype model_role =
  ROUTER | EMBEDDING | FORMATTER | GENERAL_REASONER | CODER | SPEECH_TO_TEXT | IMAGE_GENERATOR

datatype device_placement = VULKAN_GPU | CPU_RAM

datatype model_state = COLD | LOADING | HOT | WARM | FAILED

datatype placement_policy = GPU_PREFERRED | CPU_RAM_ONLY

record model_descriptor =
  md_id :: string
  md_role :: model_role
  md_file_path :: string
  md_is_gguf :: bool
  md_placement_policy :: placement_policy
  md_weight_bytes :: size_t
  md_scratch_bytes :: size_t

record model_registry =
  models_by_id :: "(string, model_descriptor) omap"
  primary_model_for_role :: "model_role \<rightharpoonup> string"

definition empty_registry :: model_registry where
  "empty_registry = \<lparr>models_by_id = [], primary_model_for_role = Map.empty\<rparr>"

definition register_model :: "model_descriptor \<Rightarrow> model_registry \<Rightarrow> model_registry" where
  "register_model desc reg =
     (let reg1 = reg\<lparr>models_by_id := om_put (md_id desc) desc (models_by_id reg)\<rparr>
      in if primary_model_for_role reg1 (md_role desc) = None
         then reg1\<lparr>primary_model_for_role := (primary_model_for_role reg1)(md_role desc \<mapsto> md_id desc)\<rparr>
         else reg1)"

definition reg_get :: "model_registry \<Rightarrow> string \<Rightarrow> model_descriptor option" where
  "reg_get reg mid = map_of (models_by_id reg) mid"

definition get_by_role :: "model_registry \<Rightarrow> model_role \<Rightarrow> model_descriptor option" where
  "get_by_role reg role =
     (case primary_model_for_role reg role of Some mid \<Rightarrow> reg_get reg mid | None \<Rightarrow> None)"

definition get_all_ids :: "model_registry \<Rightarrow> string list" where
  "get_all_ids reg = map fst (models_by_id reg)"

fun role_to_string :: "model_role \<Rightarrow> string" where
  "role_to_string ROUTER = ''ROUTER''"
| "role_to_string EMBEDDING = ''EMBEDDING''"
| "role_to_string FORMATTER = ''FORMATTER''"
| "role_to_string GENERAL_REASONER = ''GENERAL_REASONER''"
| "role_to_string CODER = ''CODER''"
| "role_to_string SPEECH_TO_TEXT = ''SPEECH_TO_TEXT''"
| "role_to_string IMAGE_GENERATOR = ''IMAGE_GENERATOR''"

definition string_to_role :: "string \<Rightarrow> model_role" where
  "string_to_role s =
     (if s = ''ROUTER'' then ROUTER
      else if s = ''EMBEDDING'' then EMBEDDING
      else if s = ''FORMATTER'' then FORMATTER
      else if s = ''GENERAL_REASONER'' then GENERAL_REASONER
      else if s = ''CODER'' then CODER
      else if s = ''SPEECH_TO_TEXT'' then SPEECH_TO_TEXT
      else if s = ''IMAGE_GENERATOR'' then IMAGE_GENERATOR
      else GENERAL_REASONER)"

fun state_to_string :: "model_state \<Rightarrow> string" where
  "state_to_string COLD = ''COLD''"
| "state_to_string LOADING = ''LOADING''"
| "state_to_string HOT = ''HOT''"
| "state_to_string WARM = ''WARM''"
| "state_to_string FAILED = ''FAILED''"

fun placement_to_string :: "device_placement \<Rightarrow> string" where
  "placement_to_string VULKAN_GPU = ''VULKAN_GPU''"
| "placement_to_string CPU_RAM = ''CPU_RAM''"

lemma string_to_role_inverse [simp]: "string_to_role (role_to_string r) = r"
  by (cases r) (simp_all add: string_to_role_def)

definition reg_consistent :: "model_registry \<Rightarrow> bool" where
  "reg_consistent reg \<longleftrightarrow>
     (\<forall>r mid. primary_model_for_role reg r = Some mid \<longrightarrow>
        (\<exists>d. reg_get reg mid = Some d \<and> md_role d = r))"

lemma reg_consistent_empty [simp]: "reg_consistent empty_registry"
  by (simp add: reg_consistent_def empty_registry_def)

lemma reg_get_empty [simp]: "reg_get empty_registry mid = None"
  by (simp add: reg_get_def empty_registry_def)

lemma reg_get_register [simp]:
  "reg_get (register_model d reg) mid = (if mid = md_id d then Some d else reg_get reg mid)"
  by (simp add: reg_get_def register_model_def Let_def)

text \<open>Registering a model never changes the primary model of a role that has one.\<close>

lemma register_model_primary:
  "primary_model_for_role (register_model d reg) r =
     (if r = md_role d \<and> primary_model_for_role reg r = None then Some (md_id d) else primary_model_for_role reg r)"
  by (auto simp: register_model_def Let_def)

lemma reg_consistent_register:
  assumes "reg_consistent reg"
    and "\<And>d. reg_get reg (md_id desc) = Some d \<Longrightarrow> md_role d = md_role desc"
  shows "reg_consistent (register_model desc reg)"
  unfolding reg_consistent_def
proof (intro allI impI)
  fix r mid assume p: "primary_model_for_role (register_model desc reg) r = Some mid"
  show "\<exists>d. reg_get (register_model desc reg) mid = Some d \<and> md_role d = r"
  proof (cases "primary_model_for_role reg r = Some mid")
    case True
    with assms(1) obtain d where "reg_get reg mid = Some d" "md_role d = r"
      by (auto simp: reg_consistent_def)
    with assms(2) show ?thesis by auto
  next
    case False
    with p have "r = md_role desc" "mid = md_id desc"
      by (auto simp: register_model_primary split: if_splits)
    then show ?thesis by simp
  qed
qed

section \<open>Pool\<close>

record 'm model_entry =
  me_model :: 'm
  me_state :: model_state
  me_placement :: device_placement
  me_active_users :: int
  me_last_accessed :: int
  me_memory_bytes :: size_t
  me_addr :: nat

record 'm model_pool =
  entries :: "(string, 'm model_entry) omap"
  next_addr :: nat

definition empty_pool :: "'m model_pool" where
  "empty_pool = \<lparr>entries = [], next_addr = 0\<rparr>"

record lease =
  l_pool :: bool
  l_model_id :: string
  l_model_ptr :: "nat option"
  l_placement :: device_placement

definition empty_lease :: lease where
  "empty_lease = \<lparr>l_pool = False, l_model_id = [], l_model_ptr = None, l_placement = CPU_RAM\<rparr>"

definition lease_is_valid :: "lease \<Rightarrow> bool" where
  "lease_is_valid l \<longleftrightarrow> l_pool l \<and> l_model_ptr l \<noteq> None"

definition release_lease :: "int \<Rightarrow> string \<Rightarrow> 'm model_pool \<Rightarrow> 'm model_pool" where
  "release_lease now mid p =
     (case map_of (entries p) mid of
        None \<Rightarrow> p
      | Some e \<Rightarrow> p\<lparr>entries := om_put mid (e\<lparr>me_active_users := me_active_users e - 1, me_last_accessed := now\<rparr>) (entries p)\<rparr>)"

text \<open>The destructor, and the release that move assignment performs on its left side.\<close>

definition lease_drop :: "int \<Rightarrow> lease \<Rightarrow> 'm model_pool \<Rightarrow> 'm model_pool" where
  "lease_drop now l p = (if l_pool l \<and> l_model_id l \<noteq> [] then release_lease now (l_model_id l) p else p)"

text \<open>Move construction: the new lease and the emptied source.\<close>

definition lease_move :: "lease \<Rightarrow> lease \<times> lease" where
  "lease_move other = (other, other\<lparr>l_pool := False, l_model_id := [], l_model_ptr := None\<rparr>)"

text \<open>Move assignment to a different object: the pool, the left side and the emptied right side.\<close>

definition lease_move_assign :: "int \<Rightarrow> lease \<Rightarrow> lease \<Rightarrow> 'm model_pool \<Rightarrow> 'm model_pool \<times> lease \<times> lease" where
  "lease_move_assign now this other p =
     (lease_drop now this p, other, other\<lparr>l_pool := False, l_model_id := [], l_model_ptr := None\<rparr>)"

datatype lock_error = SelfDeadlock

text \<open>
  \<open>acquire_lease\<close> assigns to its out-parameter while it holds the pool's mutex; if the caller's lease
  already held a model of this pool, the assignment would call \<open>release_lease\<close> and lock again.
\<close>

definition acquire_lease ::
  "int \<Rightarrow> string \<Rightarrow> lease \<Rightarrow> 'm model_pool \<Rightarrow> lock_error + (bool \<times> lease \<times> 'm model_pool)" where
  "acquire_lease now mid l p =
     (case map_of (entries p) mid of
        None \<Rightarrow> Inr (False, l, p)
      | Some e \<Rightarrow>
          if me_state e \<noteq> HOT \<and> me_state e \<noteq> WARM then Inr (False, l, p)
          else if l_pool l \<and> l_model_id l \<noteq> [] then Inl SelfDeadlock
          else Inr (True,
            \<lparr>l_pool = True, l_model_id = mid, l_model_ptr = Some (me_addr e), l_placement = me_placement e\<rparr>,
            p\<lparr>entries := om_put mid (e\<lparr>me_active_users := me_active_users e + 1, me_last_accessed := now, me_state := HOT\<rparr>)
                          (entries p)\<rparr>))"

definition add_model :: "int \<Rightarrow> string \<Rightarrow> 'm \<Rightarrow> device_placement \<Rightarrow> size_t \<Rightarrow> 'm model_pool \<Rightarrow> bool \<times> 'm model_pool" where
  "add_model now mid model plc mem_bytes p =
     (True, p\<lparr>entries := om_put mid \<lparr>me_model = model, me_state = HOT, me_placement = plc, me_active_users = 0,
                                    me_last_accessed = now, me_memory_bytes = mem_bytes, me_addr = next_addr p\<rparr> (entries p),
              next_addr := Suc (next_addr p)\<rparr>)"

definition remove_model :: "string \<Rightarrow> 'm model_pool \<Rightarrow> 'm option \<times> 'm model_pool" where
  "remove_model mid p =
     (case map_of (entries p) mid of
        None \<Rightarrow> (None, p)
      | Some e \<Rightarrow>
          if me_active_users e > 0 then (None, p)
          else (Some (me_model e), p\<lparr>entries := om_erase mid (entries p)\<rparr>))"

definition is_in_use :: "string \<Rightarrow> 'm model_pool \<Rightarrow> bool" where
  "is_in_use mid p = (case map_of (entries p) mid of None \<Rightarrow> False | Some e \<Rightarrow> me_active_users e > 0)"

definition can_unload :: "string \<Rightarrow> 'm model_pool \<Rightarrow> bool" where
  "can_unload mid p = (case map_of (entries p) mid of None \<Rightarrow> False | Some e \<Rightarrow> me_active_users e = 0)"

definition get_state :: "string \<Rightarrow> 'm model_pool \<Rightarrow> model_state" where
  "get_state mid p = (case map_of (entries p) mid of None \<Rightarrow> COLD | Some e \<Rightarrow> me_state e)"

definition set_state :: "string \<Rightarrow> model_state \<Rightarrow> 'm model_pool \<Rightarrow> 'm model_pool" where
  "set_state mid st p =
     (case map_of (entries p) mid of
        None \<Rightarrow> p
      | Some e \<Rightarrow> p\<lparr>entries := om_put mid (e\<lparr>me_state := st\<rparr>) (entries p)\<rparr>)"

definition get_placement :: "string \<Rightarrow> 'm model_pool \<Rightarrow> device_placement" where
  "get_placement mid p = (case map_of (entries p) mid of None \<Rightarrow> CPU_RAM | Some e \<Rightarrow> me_placement e)"

definition get_memory_bytes :: "string \<Rightarrow> 'm model_pool \<Rightarrow> size_t" where
  "get_memory_bytes mid p = (case map_of (entries p) mid of None \<Rightarrow> 0 | Some e \<Rightarrow> me_memory_bytes e)"

definition get_loaded_model_ids :: "'m model_pool \<Rightarrow> string list" where
  "get_loaded_model_ids p = map fst (entries p)"

text \<open>
  Time points are in nanoseconds; \<open>duration_cast<seconds>\<close> truncates towards zero, which is \<open>div\<close> on the
  steady clock's non-negative differences.
\<close>

definition get_evictable_model_ids :: "int \<Rightarrow> int \<Rightarrow> 'm model_pool \<Rightarrow> string list" where
  "get_evictable_model_ids now idle_timeout p =
     map fst (filter (\<lambda>(mid, e). me_active_users e = 0 \<and> (now - me_last_accessed e) div 1000000000 \<ge> idle_timeout)
                     (entries p))"

section \<open>Leases against the pool\<close>

text \<open>
  The ownership invariant: every lease that refers to the pool names a resident entry and holds that
  entry's address, and every entry counts exactly the leases that name it. Entries are never anything
  but usable, and no entry has the empty identifier (a lease with an empty identifier would never be
  given back).
\<close>

definition holds :: "string \<Rightarrow> lease \<Rightarrow> bool" where
  "holds mid l \<longleftrightarrow> l_pool l \<and> l_model_id l = mid"

definition pool_wf :: "'m model_pool \<Rightarrow> bool" where
  "pool_wf p \<longleftrightarrow> om_wf (entries p) \<and> map_of (entries p) [] = None \<and>
     (\<forall>mid e. map_of (entries p) mid = Some e \<longrightarrow> me_state e = HOT \<and> me_addr e < next_addr p) \<and>
     (\<forall>i j e f. map_of (entries p) i = Some e \<longrightarrow> map_of (entries p) j = Some f \<longrightarrow> me_addr e = me_addr f \<longrightarrow> i = j)"

definition leases_ok :: "lease multiset \<Rightarrow> 'm model_pool \<Rightarrow> bool" where
  "leases_ok ls p \<longleftrightarrow>
     (\<forall>l \<in># ls. l_pool l \<longrightarrow>
        (\<exists>e. map_of (entries p) (l_model_id l) = Some e \<and> l_model_ptr l = Some (me_addr e))) \<and>
     (\<forall>mid e. map_of (entries p) mid = Some e \<longrightarrow> me_active_users e = int (size (filter_mset (holds mid) ls)))"

lemmas pool_defs = pool_wf_def leases_ok_def holds_def

lemma pool_wf_empty [simp]: "pool_wf empty_pool"
  by (simp add: pool_wf_def empty_pool_def)

lemma leases_ok_empty [simp]: "leases_ok {#} empty_pool"
  by (simp add: leases_ok_def empty_pool_def)

lemma pool_wf_Some:
  "pool_wf p \<Longrightarrow> map_of (entries p) mid = Some e \<Longrightarrow> mid \<noteq> [] \<and> me_state e = HOT \<and> me_addr e < next_addr p"
  unfolding pool_wf_def by (metis option.distinct(1))

text \<open>Updating the counters of one entry keeps the pool well formed.\<close>

lemma pool_wf_update:
  assumes "pool_wf p" and "map_of (entries p) mid = Some e"
    and "me_state e' = HOT" and "me_addr e' = me_addr e"
  shows "pool_wf (p\<lparr>entries := om_put mid e' (entries p)\<rparr>)"
proof -
  have "mid \<noteq> []" using assms(1,2) by (auto dest: pool_wf_Some)
  then show ?thesis using assms unfolding pool_wf_def by (auto split: if_splits)
qed

lemma acquire_lease_Inr:
  assumes "pool_wf p" and "acquire_lease now mid l p = Inr (True, l', p')"
  shows "\<exists>e. map_of (entries p) mid = Some e \<and>
    l' = \<lparr>l_pool = True, l_model_id = mid, l_model_ptr = Some (me_addr e), l_placement = me_placement e\<rparr> \<and>
    p' = p\<lparr>entries := om_put mid (e\<lparr>me_active_users := me_active_users e + 1, me_last_accessed := now, me_state := HOT\<rparr>)
             (entries p)\<rparr>"
  using assms(2) by (auto simp: acquire_lease_def split: option.splits if_splits)

lemma acquire_lease_fresh:
  "pool_wf p \<Longrightarrow> \<exists>b l' p'. acquire_lease now mid empty_lease p = Inr (b, l', p') \<and>
     (b \<longleftrightarrow> map_of (entries p) mid \<noteq> None) \<and> (\<not> b \<longrightarrow> l' = empty_lease \<and> p' = p)"
  by (auto simp: acquire_lease_def empty_lease_def dest: pool_wf_Some split: option.splits)

lemma acquire_lease_inv:
  assumes wf: "pool_wf p" and ok: "leases_ok ls p" and acq: "acquire_lease now mid l p = Inr (True, l', p')"
  shows "pool_wf p' \<and> leases_ok (add_mset l' ls) p'"
proof -
  obtain e where e: "map_of (entries p) mid = Some e"
    and l': "l' = \<lparr>l_pool = True, l_model_id = mid, l_model_ptr = Some (me_addr e), l_placement = me_placement e\<rparr>"
    and p': "p' = p\<lparr>entries := om_put mid (e\<lparr>me_active_users := me_active_users e + 1, me_last_accessed := now, me_state := HOT\<rparr>)
             (entries p)\<rparr>"
    using acquire_lease_Inr [OF wf acq] by blast
  have "pool_wf p'" unfolding p' by (rule pool_wf_update [OF wf e]) simp_all
  moreover have "leases_ok (add_mset l' ls) p'"
    using ok e unfolding leases_ok_def p' l' by (auto simp: holds_def)
  ultimately show ?thesis ..
qed

text \<open>Dropping one of the live leases (its destructor) keeps the invariant for the others.\<close>

lemma lease_drop_inv:
  assumes wf: "pool_wf p" and ok: "leases_ok (add_mset l ls) p"
  shows "pool_wf (lease_drop now l p) \<and> leases_ok ls (lease_drop now l p)"
proof (cases "l_pool l")
  case False
  then have "lease_drop now l p = p" by (simp add: lease_drop_def)
  with wf ok False show ?thesis by (auto simp: leases_ok_def holds_def)
next
  case True
  then obtain e where e: "map_of (entries p) (l_model_id l) = Some e" using ok by (auto simp: leases_ok_def)
  let ?e' = "e\<lparr>me_active_users := me_active_users e - 1, me_last_accessed := now\<rparr>"
  have ne: "l_model_id l \<noteq> []" and hot: "me_state e = HOT" using pool_wf_Some [OF wf e] by auto
  have p': "lease_drop now l p = p\<lparr>entries := om_put (l_model_id l) ?e' (entries p)\<rparr>"
    using True ne e by (simp add: lease_drop_def release_lease_def)
  have "pool_wf (lease_drop now l p)"
    unfolding p' by (rule pool_wf_update [OF wf e]) (simp_all add: hot)
  moreover have "leases_ok ls (lease_drop now l p)"
    using ok e True unfolding leases_ok_def p' by (auto simp: holds_def)
  ultimately show ?thesis ..
qed

text \<open>Moving a lease keeps the number of holders of every entry.\<close>

lemma lease_move_inv:
  "leases_ok (add_mset l ls) p \<Longrightarrow>
   leases_ok (add_mset (fst (lease_move l)) (add_mset (snd (lease_move l)) ls)) p"
  by (auto simp: leases_ok_def lease_move_def holds_def)

lemma lease_move_assign_inv:
  assumes "pool_wf p" and "leases_ok (add_mset this (add_mset other ls)) p"
    and "lease_move_assign now this other p = (p', this', other')"
  shows "pool_wf p' \<and> leases_ok (add_mset this' (add_mset other' ls)) p'"
  using lease_drop_inv [OF assms(1,2), of now] lease_move_inv [of other ls "lease_drop now this p"] assms(3)
  by (auto simp: lease_move_assign_def lease_move_def)

lemma remove_model_inv:
  assumes "pool_wf p" and "leases_ok ls p" and "remove_model mid p = (Some m, p')"
  shows "pool_wf p' \<and> leases_ok ls p' \<and> (\<forall>l \<in># ls. \<not> holds mid l)"
proof -
  obtain e where e: "map_of (entries p) mid = Some e" and u: "\<not> me_active_users e > 0"
    and p': "p' = p\<lparr>entries := om_erase mid (entries p)\<rparr>"
    using assms(3) by (auto simp: remove_model_def split: option.splits if_splits)
  have "me_active_users e = int (size (filter_mset (holds mid) ls))" using assms(2) e by (auto simp: leases_ok_def)
  with u have "filter_mset (holds mid) ls = {#}" by simp
  then have none: "\<forall>l \<in># ls. \<not> holds mid l" by (simp add: filter_mset_eq_mempty_iff)
  moreover have "pool_wf p'" using assms(1) unfolding pool_wf_def p' by (auto split: if_splits)
  moreover have "leases_ok ls p'" using assms(2) none unfolding leases_ok_def p' by (auto simp: holds_def)
  ultimately show ?thesis by blast
qed

lemma add_model_inv:
  assumes "pool_wf p" and "leases_ok ls p" and "map_of (entries p) mid = None" and "mid \<noteq> []"
  shows "pool_wf (snd (add_model now mid m plc b p)) \<and> leases_ok ls (snd (add_model now mid m plc b p))"
proof
  show "pool_wf (snd (add_model now mid m plc b p))"
    using assms unfolding pool_wf_def add_model_def by (auto split: if_splits simp: less_Suc_eq) (metis less_irrefl)+
  have "\<not> holds mid l" if "l \<in># ls" for l using assms(2,3) that by (auto simp: leases_ok_def holds_def)
  then have "filter_mset (holds mid) ls = {#}" by (simp add: filter_mset_eq_mempty_iff)
  then show "leases_ok ls (snd (add_model now mid m plc b p))"
    using assms unfolding leases_ok_def add_model_def by (auto simp: holds_def)
qed

end
