(* ===== verification/Model_Manager.thy ===== *)
theory Model_Manager
  imports Model_Pool Vulkan_Device
begin

text \<open>
  \<open>ModelManager\<close> (\<open>model_manager.hpp\<close>, \<open>model_manager.cpp\<close>): the definitions registered from the
  environment, on-demand loading behind the GPU admission gate, leasing, unloading behind the eviction
  guard, and the idle-eviction sweep. The file system (existence and size of a path) and the GGUF
  loader are arguments; \<open>mg_locked\<close> is the state of \<open>manager_mutex_\<close>, so that an operation that takes the
  mutex while its caller holds it is visible as \<open>SelfDeadlock\<close>.

  The manager relies on the interfaces of the pool (\<open>pool_wf\<close>, \<open>leases_ok\<close>) and of the device
  (\<open>admission_ledger\<close>); the step relation at the end runs them together with the live leases.
\<close>

section \<open>State and initial definitions\<close>

record 'm model_manager =
  mg_device :: "vulkan_device option"
  mg_registry :: model_registry
  mg_pool :: "'m model_pool"
  mg_locked :: bool

definition make_manager :: "vulkan_device option \<Rightarrow> 'm model_manager" where
  "make_manager dev = \<lparr>mg_device = dev, mg_registry = empty_registry, mg_pool = empty_pool, mg_locked = False\<rparr>"

text \<open>The value of the first of the keys that is set; the empty string when none is.\<close>

fun first_env :: "(string \<rightharpoonup> string) \<Rightarrow> string list \<Rightarrow> string" where
  "first_env env [] = []"
| "first_env env (k # ks) = (case env k of Some v \<Rightarrow> v | None \<Rightarrow> first_env env ks)"

definition register_def ::
  "(string \<Rightarrow> size_t option) \<Rightarrow> string \<Rightarrow> (string \<rightharpoonup> string) \<Rightarrow>
   string \<Rightarrow> model_role \<Rightarrow> string list \<Rightarrow> placement_policy \<Rightarrow> bool \<Rightarrow> model_registry \<Rightarrow> model_registry" where
  "register_def file_size base_dir env mid role env_keys policy is_gguf reg =
     (let filename = first_env env env_keys
      in if filename = [] then reg
         else
           let full_path = base_dir @ ''/models/'' @ filename;
               (w, s) = (case file_size full_path of
                           Some sz \<Rightarrow> (sz, if is_gguf then max (64 * 1024 * 1024) (sz div 8) else 0)
                         | None \<Rightarrow> (0, 0))
           in register_model
                \<lparr>md_id = mid, md_role = role, md_file_path = full_path, md_is_gguf = is_gguf,
                 md_placement_policy = policy, md_weight_bytes = w, md_scratch_bytes = s\<rparr> reg)"

definition router_descriptor :: "(string \<Rightarrow> size_t option) \<Rightarrow> string \<Rightarrow> model_descriptor" where
  "router_descriptor file_size base_dir =
     (let dir = base_dir @ ''/models/modernbert''
      in \<lparr>md_id = ''modernbert'', md_role = ROUTER, md_file_path = dir, md_is_gguf = False,
          md_placement_policy = CPU_RAM_ONLY,
          md_weight_bytes = (case file_size (dir @ ''/model.onnx'') of Some sz \<Rightarrow> sz | None \<Rightarrow> 398 * 1024 * 1024),
          md_scratch_bytes = 64 * 1024 * 1024\<rparr>)"

definition main_keys :: "string list" where
  "main_keys = [''MODEL_MAIN_FILE'', ''MODEL_LLAMA_FILE'', ''MODEL_QWEN_MAIN_FILE'']"

definition coder_keys :: "string list" where
  "coder_keys = [''MODEL_CODER_FILE'', ''MODEL_DEEPSEEK_FILE'', ''MODEL_QWEN_CODER_FILE'']"

definition model_definitions :: "(string \<times> model_role \<times> string list) list" where
  "model_definitions =
     [(''nomic'', EMBEDDING, [''MODEL_NOMIC_FILE'']),
      (''smollm2'', FORMATTER, [''MODEL_SMOLLM2_FILE'']),
      (''general'', GENERAL_REASONER, main_keys),
      (''llama_main'', GENERAL_REASONER, main_keys),
      (''qwen_main'', GENERAL_REASONER, main_keys),
      (''coder'', CODER, coder_keys),
      (''deepseek_coder'', CODER, coder_keys),
      (''qwen_coder'', CODER, coder_keys),
      (''whisper'', SPEECH_TO_TEXT, [''MODEL_WHISPER_FILE'']),
      (''whisper_turbo'', SPEECH_TO_TEXT, [''MODEL_WHISPER_FILE'']),
      (''audio_stt'', SPEECH_TO_TEXT, [''MODEL_WHISPER_FILE'']),
      (''vision'', IMAGE_GENERATOR, [''MODEL_VISION_FILE'', ''MODEL_SD_FILE'']),
      (''sdxl_lightning'', IMAGE_GENERATOR, [''MODEL_VISION_FILE'', ''MODEL_SD_FILE'']),
      (''stable_diffusion'', IMAGE_GENERATOR, [''MODEL_VISION_FILE'', ''MODEL_SD_FILE''])]"

definition register_all ::
  "(string \<Rightarrow> size_t option) \<Rightarrow> string \<Rightarrow> (string \<rightharpoonup> string) \<Rightarrow>
   (string \<times> model_role \<times> string list) list \<Rightarrow> model_registry \<Rightarrow> model_registry" where
  "register_all file_size base_dir env defs reg =
     fold (\<lambda>(mid, role, keys). register_def file_size base_dir env mid role keys GPU_PREFERRED True) defs reg"

definition initialize_from_env ::
  "(string \<Rightarrow> size_t option) \<Rightarrow> string \<Rightarrow> (string \<rightharpoonup> string) \<Rightarrow> 'm model_manager \<Rightarrow> 'm model_manager" where
  "initialize_from_env file_size base_dir env mgr =
     mgr\<lparr>mg_registry := register_all file_size base_dir env model_definitions
                          (register_model (router_descriptor file_size base_dir) (mg_registry mgr))\<rparr>"

section \<open>Loading, leasing, unloading\<close>

definition mgr_state :: "'m model_manager \<Rightarrow> string \<Rightarrow> model_state" where
  "mgr_state mgr mid = get_state mid (mg_pool mgr)"

definition mgr_placement :: "'m model_manager \<Rightarrow> string \<Rightarrow> device_placement" where
  "mgr_placement mgr mid = get_placement mid (mg_pool mgr)"

text \<open>\<open>total_gpu_required\<close> and the GPU-preferred admission gate of \<open>load\<close>.\<close>

definition gpu_required :: "model_descriptor \<Rightarrow> size_t" where
  "gpu_required desc = md_weight_bytes desc + md_scratch_bytes desc"

definition admitted_placement :: "vulkan_device option \<Rightarrow> model_descriptor \<Rightarrow> device_placement" where
  "admitted_placement dev desc =
     (case dev of None \<Rightarrow> CPU_RAM
      | Some d \<Rightarrow> if vd_available d \<and> md_placement_policy desc = GPU_PREFERRED
                  then (if can_admit d (gpu_required desc) then VULKAN_GPU else CPU_RAM)
                  else CPU_RAM)"

text \<open>
  The body of \<open>load\<close> once the mutex is held. \<open>loader path\<close> is \<open>ModelLoader::load_model\<close>, \<open>dummy\<close> the
  default-constructed \<open>DenseModel\<close> of the router stub. The result of \<open>vulkan_device_->allocate\<close> is
  dropped, as in the source.
\<close>

definition load_locked ::
  "(string \<Rightarrow> string + 'm) \<Rightarrow> 'm \<Rightarrow> int \<Rightarrow> string \<Rightarrow> 'm model_manager \<Rightarrow> (bool \<times> string) \<times> 'm model_manager" where
  "load_locked loader dummy now mid mgr =
     (if get_state mid (mg_pool mgr) = HOT \<or> get_state mid (mg_pool mgr) = WARM then ((True, []), mgr)
      else case reg_get (mg_registry mgr) mid of
             None \<Rightarrow> ((False, ''Model ID not registered in ModelRegistry: '' @ mid), mgr)
           | Some desc \<Rightarrow>
               if \<not> md_is_gguf desc
               then ((True, []), mgr\<lparr>mg_pool := snd (add_model now mid dummy CPU_RAM 0 (mg_pool mgr))\<rparr>)
               else
                 let plc = admitted_placement (mg_device mgr) desc
                 in case loader (md_file_path desc) of
                      Inl err \<Rightarrow> ((False, err), mgr)
                    | Inr model \<Rightarrow>
                        ((True, []),
                         mgr\<lparr>mg_device := (if plc = VULKAN_GPU
                                            then map_option (\<lambda>d. snd (dev_allocate d (gpu_required desc))) (mg_device mgr)
                                            else mg_device mgr),
                             mg_pool := snd (add_model now mid model plc (gpu_required desc) (mg_pool mgr))\<rparr>))"

definition mgr_load ::
  "(string \<Rightarrow> string + 'm) \<Rightarrow> 'm \<Rightarrow> int \<Rightarrow> string \<Rightarrow> 'm model_manager \<Rightarrow>
   lock_error + (bool \<times> string) \<times> 'm model_manager" where
  "mgr_load loader dummy now mid mgr =
     (if mg_locked mgr then Inl SelfDeadlock else Inr (load_locked loader dummy now mid mgr))"

definition mgr_acquire ::
  "(string \<Rightarrow> string + 'm) \<Rightarrow> 'm \<Rightarrow> int \<Rightarrow> string \<Rightarrow> 'm model_manager \<Rightarrow> lock_error + lease \<times> 'm model_manager" where
  "mgr_acquire loader dummy now mid mgr =
     (case acquire_lease now mid empty_lease (mg_pool mgr) of
        Inl e \<Rightarrow> Inl e
      | Inr (True, l, p) \<Rightarrow> Inr (l, mgr\<lparr>mg_pool := p\<rparr>)
      | Inr (False, l, p) \<Rightarrow>
          (case mgr_load loader dummy now mid (mgr\<lparr>mg_pool := p\<rparr>) of
             Inl e \<Rightarrow> Inl e
           | Inr ((False, err), mgr1) \<Rightarrow> Inr (empty_lease, mgr1)
           | Inr ((True, err), mgr1) \<Rightarrow>
               (case acquire_lease now mid l (mg_pool mgr1) of
                  Inl e \<Rightarrow> Inl e
                | Inr (True, l2, p2) \<Rightarrow> Inr (l2, mgr1\<lparr>mg_pool := p2\<rparr>)
                | Inr (False, l2, p2) \<Rightarrow> Inr (empty_lease, mgr1\<lparr>mg_pool := p2\<rparr>))))"

definition mgr_acquire_role ::
  "(string \<Rightarrow> string + 'm) \<Rightarrow> 'm \<Rightarrow> int \<Rightarrow> model_role \<Rightarrow> 'm model_manager \<Rightarrow> lock_error + lease \<times> 'm model_manager" where
  "mgr_acquire_role loader dummy now role mgr =
     (case get_by_role (mg_registry mgr) role of
        None \<Rightarrow> Inr (empty_lease, mgr)
      | Some desc \<Rightarrow> mgr_acquire loader dummy now (md_id desc) mgr)"

text \<open>The body of \<open>unload\<close> once the mutex is held (\<open>ModelLoader::unload_model\<close> frees the returned model).\<close>

definition unload_locked :: "string \<Rightarrow> 'm model_manager \<Rightarrow> (bool \<times> string) \<times> 'm model_manager" where
  "unload_locked mid mgr =
     (if is_in_use mid (mg_pool mgr)
      then ((False, ''Model '' @ mid @ '' has active leases; unload blocked by eviction guard.''), mgr)
      else
        let plc = get_placement mid (mg_pool mgr);
            mem_bytes = get_memory_bytes mid (mg_pool mgr)
        in case remove_model mid (mg_pool mgr) of
             (Some m, p) \<Rightarrow>
               ((True, []),
                mgr\<lparr>mg_pool := p,
                    mg_device := (if plc = VULKAN_GPU then map_option (\<lambda>d. dev_release d mem_bytes) (mg_device mgr)
                                  else mg_device mgr)\<rparr>)
           | (None, p) \<Rightarrow> ((False, ''Model '' @ mid @ '' is not currently loaded.''), mgr\<lparr>mg_pool := p\<rparr>))"

definition mgr_unload :: "string \<Rightarrow> 'm model_manager \<Rightarrow> lock_error + (bool \<times> string) \<times> 'm model_manager" where
  "mgr_unload mid mgr = (if mg_locked mgr then Inl SelfDeadlock else Inr (unload_locked mid mgr))"

definition evictable_role :: "model_role \<Rightarrow> bool" where
  "evictable_role r \<longleftrightarrow> r = CODER \<or> r = SPEECH_TO_TEXT \<or> r = IMAGE_GENERATOR"

fun evict_each :: "string list \<Rightarrow> 'm model_manager \<Rightarrow> lock_error + 'm model_manager" where
  "evict_each [] mgr = Inr mgr"
| "evict_each (mid # ids) mgr =
     (case reg_get (mg_registry mgr) mid of
        None \<Rightarrow> evict_each ids mgr
      | Some desc \<Rightarrow>
          if evictable_role (md_role desc)
          then (case mgr_unload mid mgr of Inl e \<Rightarrow> Inl e | Inr (_, mgr1) \<Rightarrow> evict_each ids mgr1)
          else evict_each ids mgr)"

text \<open>\<open>enforce_budget\<close> holds \<open>manager_mutex_\<close> (a \<open>std::mutex\<close>) for the whole sweep.\<close>

definition enforce_budget :: "int \<Rightarrow> int \<Rightarrow> 'm model_manager \<Rightarrow> lock_error + 'm model_manager" where
  "enforce_budget now idle_timeout mgr =
     (if mg_locked mgr then Inl SelfDeadlock
      else let mgr1 = mgr\<lparr>mg_locked := True\<rparr>;
               evictable = get_evictable_model_ids now idle_timeout (mg_pool mgr1)
           in case evict_each evictable mgr1 of
                Inl e \<Rightarrow> Inl e
              | Inr mgr2 \<Rightarrow> Inr (mgr2\<lparr>mg_locked := False\<rparr>))"

section \<open>The registered definitions\<close>

lemma register_def_cases:
  "register_def fs dir env mid role keys pol gg reg = reg \<or>
   (\<exists>d. register_def fs dir env mid role keys pol gg reg = register_model d reg \<and> md_id d = mid \<and> md_role d = role)"
  by (auto simp: register_def_def Let_def split: prod.splits)

lemma reg_get_register_def:
  "m \<noteq> mid \<Longrightarrow> reg_get (register_def fs dir env mid role keys pol gg reg) m = reg_get reg m"
  using register_def_cases [of fs dir env mid role keys pol gg reg] by auto

lemma reg_get_register_all:
  "m \<notin> fst ` set defs \<Longrightarrow> reg_get (register_all fs dir env defs reg) m = reg_get reg m"
proof (induction defs arbitrary: reg)
  case (Cons d defs)
  then show ?case by (cases d) (simp add: register_all_def reg_get_register_def)
qed (simp add: register_all_def)

lemma reg_consistent_register_all:
  assumes "reg_consistent reg" and "distinct (map fst defs)" and "\<And>d. d \<in> set defs \<Longrightarrow> reg_get reg (fst d) = None"
  shows "reg_consistent (register_all fs dir env defs reg)"
  using assms
proof (induction defs arbitrary: reg)
  case Nil
  then show ?case by (simp add: register_all_def)
next
  case (Cons d defs)
  obtain mid role keys where d: "d = (mid, role, keys)" by (cases d)
  let ?reg = "register_def fs dir env mid role keys GPU_PREFERRED True reg"
  have "reg_consistent ?reg"
    using register_def_cases [of fs dir env mid role keys GPU_PREFERRED True reg]
  proof
    assume "\<exists>da. ?reg = register_model da reg \<and> md_id da = mid \<and> md_role da = role"
    then obtain da where da: "?reg = register_model da reg" "md_id da = mid" by blast
    have "reg_get reg mid = None" using Cons.prems(3) [of d] d by simp
    with Cons.prems(1) da show ?thesis by (auto intro!: reg_consistent_register)
  qed (use Cons.prems(1) in simp)
  moreover have "reg_get ?reg (fst e) = None" if "e \<in> set defs" for e
  proof -
    have "fst e \<noteq> mid" using Cons.prems(2) that d by force
    then show ?thesis using Cons.prems(3) [of e] that by (simp add: reg_get_register_def)
  qed
  ultimately have "reg_consistent (register_all fs dir env defs ?reg)"
    using Cons.prems(2) by (intro Cons.IH) auto
  then show ?case by (simp add: register_all_def d)
qed

text \<open>
  After initialisation from any environment, on any file system, the primary model of a role is a
  registered model of that role: \<open>acquire(role)\<close> never hands out a model registered for another role.
\<close>

theorem initialized_roles_consistent:
  "get_by_role (mg_registry (initialize_from_env fs dir env (make_manager dev))) role = Some d \<longrightarrow> md_role d = role"
proof -
  let ?r0 = "register_model (router_descriptor fs dir) empty_registry"
  have "reg_consistent ?r0" by (rule reg_consistent_register) simp_all
  moreover have "reg_get ?r0 (fst x) = None" if "x \<in> set model_definitions" for x
    using that by (auto simp: model_definitions_def router_descriptor_def Let_def)
  moreover have "distinct (map fst model_definitions)" by (simp add: model_definitions_def)
  ultimately have "reg_consistent (register_all fs dir env model_definitions ?r0)"
    by (intro reg_consistent_register_all)
  then show ?thesis
    by (auto simp: initialize_from_env_def make_manager_def get_by_role_def reg_consistent_def split: option.splits)
       (metis option.inject)
qed

theorem initialized_roles_consistent_witness:
  "md_role (the (get_by_role (mg_registry (initialize_from_env (\<lambda>_. Some 5) ''/d'' [''MODEL_LLAMA_FILE'' \<mapsto> ''m.gguf'']
      (make_manager None :: nat model_manager))) GENERAL_REASONER)) = GENERAL_REASONER"
proof -
  let ?r = "get_by_role (mg_registry (initialize_from_env (\<lambda>_. Some 5) ''/d'' [''MODEL_LLAMA_FILE'' \<mapsto> ''m.gguf'']
      (make_manager None :: nat model_manager))) GENERAL_REASONER"
  have "?r \<noteq> None" by code_simp
  then obtain d where "?r = Some d" by blast
  then have "md_role d = GENERAL_REASONER" using initialized_roles_consistent by blast
  with \<open>?r = Some d\<close> show ?thesis by simp
qed

section \<open>The manager invariant\<close>

definition gpu_share :: "string \<times> 'm model_entry \<Rightarrow> nat" where
  "gpu_share = (\<lambda>(mid, e). if me_placement e = VULKAN_GPU then unat (me_memory_bytes e) else 0)"

definition gpu_bytes :: "'m model_pool \<Rightarrow> nat" where
  "gpu_bytes p = om_sum gpu_share (entries p)"

text \<open>The ledger of the device equals the memory of the resident models placed on it.\<close>

definition ledger_ok :: "'m model_manager \<Rightarrow> bool" where
  "ledger_ok mgr \<longleftrightarrow>
     (case mg_device mgr of
        None \<Rightarrow> gpu_bytes (mg_pool mgr) = 0
      | Some d \<Rightarrow> unat (vd_allocated_bytes d) = gpu_bytes (mg_pool mgr) \<and>
                   unat (vd_allocated_bytes d) \<le> unat (vd_safe_ceiling_bytes d))"

text \<open>Sizes a 64-bit machine can have: sums of two of them do not wrap around.\<close>

definition sizes_ok :: "'m model_manager \<Rightarrow> bool" where
  "sizes_ok mgr \<longleftrightarrow>
     (\<forall>mid d. reg_get (mg_registry mgr) mid = Some d \<longrightarrow>
        mid \<noteq> [] \<and> unat (md_weight_bytes d) + unat (md_scratch_bytes d) < 2 ^ 63) \<and>
     (\<forall>d. mg_device mgr = Some d \<longrightarrow> unat (vd_safe_ceiling_bytes d) < 2 ^ 63)"

definition mgr_inv :: "'m model_manager \<Rightarrow> lease multiset \<Rightarrow> bool" where
  "mgr_inv mgr ls \<longleftrightarrow> \<not> mg_locked mgr \<and> pool_wf (mg_pool mgr) \<and> leases_ok ls (mg_pool mgr) \<and>
     ledger_ok mgr \<and> sizes_ok mgr"

lemmas mgr_inv_defs = mgr_inv_def ledger_ok_def sizes_ok_def

lemma ledger_ok_pool: "gpu_bytes p = gpu_bytes (mg_pool mgr) \<Longrightarrow> ledger_ok (mgr\<lparr>mg_pool := p\<rparr>) = ledger_ok mgr"
  by (simp add: ledger_ok_def split: option.splits)

lemma sizes_ok_pool [simp]: "sizes_ok (mgr\<lparr>mg_pool := p\<rparr>) = sizes_ok mgr"
  by (simp add: sizes_ok_def)

lemma mgr_inv_pool:
  "mgr_inv mgr ls \<Longrightarrow> gpu_bytes p = gpu_bytes (mg_pool mgr) \<Longrightarrow> pool_wf p \<Longrightarrow> leases_ok ls' p \<Longrightarrow>
   mgr_inv (mgr\<lparr>mg_pool := p\<rparr>) ls'"
  by (simp add: mgr_inv_def ledger_ok_pool)

lemma gpu_bytes_update:
  assumes "pool_wf p" and "map_of (entries p) mid = Some e"
    and "me_placement e' = me_placement e" and "me_memory_bytes e' = me_memory_bytes e"
  shows "gpu_bytes (p\<lparr>entries := om_put mid e' (entries p)\<rparr>) = gpu_bytes p"
  using assms om_sum_put_same [of "entries p" mid e gpu_share e']
  by (simp add: gpu_bytes_def pool_wf_def gpu_share_def)

lemma acquire_lease_gpu_bytes:
  assumes "pool_wf p" and "acquire_lease now mid l p = Inr (True, l', p')"
  shows "gpu_bytes p' = gpu_bytes p"
  using acquire_lease_Inr [OF assms] gpu_bytes_update [OF assms(1)] by auto

lemma lease_drop_gpu_bytes: "pool_wf p \<Longrightarrow> gpu_bytes (lease_drop now l p) = gpu_bytes p"
  by (auto simp: lease_drop_def release_lease_def intro: gpu_bytes_update split: option.splits)

lemma get_state_wf: "pool_wf p \<Longrightarrow> get_state mid p = (if map_of (entries p) mid = None then COLD else HOT)"
  by (auto simp: get_state_def dest: pool_wf_Some split: option.splits)

lemma add_model_gpu_bytes:
  "map_of (entries p) mid = None \<Longrightarrow>
   gpu_bytes (snd (add_model now mid m plc b p)) = gpu_bytes p + (if plc = VULKAN_GPU then unat b else 0)"
  by (simp add: gpu_bytes_def add_model_def om_sum_put_new gpu_share_def)

lemma add_model_resident [simp]: "map_of (entries (snd (add_model now mid m plc b p))) mid \<noteq> None"
  by (simp add: add_model_def)

lemma gpu_required_unat:
  "unat (md_weight_bytes d) + unat (md_scratch_bytes d) < 2 ^ 63 \<Longrightarrow>
   unat (gpu_required d) = unat (md_weight_bytes d) + unat (md_scratch_bytes d)"
  unfolding gpu_required_def by (rule unat_add_u64_no_wrap) simp

lemma admitted_gpu:
  "admitted_placement dev desc = VULKAN_GPU \<Longrightarrow> \<exists>d. dev = Some d \<and> can_admit d (gpu_required desc)"
  by (auto simp: admitted_placement_def split: option.splits if_splits)

text \<open>Loading keeps the invariant; the model is resident afterwards exactly when loading reports success.\<close>

lemma load_locked_inv:
  assumes inv: "mgr_inv mgr ls"
  shows "mgr_inv (snd (load_locked loader dummy now mid mgr)) ls \<and>
    (fst (fst (load_locked loader dummy now mid mgr)) \<longleftrightarrow>
       map_of (entries (mg_pool (snd (load_locked loader dummy now mid mgr)))) mid \<noteq> None)"
proof (cases "map_of (entries (mg_pool mgr)) mid")
  case (Some e)
  with inv have "get_state mid (mg_pool mgr) = HOT" by (simp add: mgr_inv_def get_state_wf)
  with inv Some show ?thesis by (simp add: load_locked_def)
next
  case None
  have wf: "pool_wf (mg_pool mgr)" and ok: "leases_ok ls (mg_pool mgr)" using inv by (auto simp: mgr_inv_def)
  have cold: "get_state mid (mg_pool mgr) = COLD" using wf None by (simp add: get_state_wf)
  show ?thesis
  proof (cases "reg_get (mg_registry mgr) mid")
    case None
    with cold inv \<open>map_of (entries (mg_pool mgr)) mid = None\<close> show ?thesis by (simp add: load_locked_def)
  next
    case desc: (Some desc)
    have ne: "mid \<noteq> []" and small: "unat (md_weight_bytes desc) + unat (md_scratch_bytes desc) < 2 ^ 63"
      using inv desc by (auto simp: mgr_inv_def sizes_ok_def)
    note add = add_model_inv [OF wf ok None ne] add_model_gpu_bytes [OF None]
    show ?thesis
    proof (cases "md_is_gguf desc")
      case False
      with cold desc inv add show ?thesis
        by (simp add: load_locked_def mgr_inv_defs split: option.splits)
    next
      case gguf: True
      show ?thesis
      proof (cases "loader (md_file_path desc)")
        case (Inl err)
        with cold desc gguf inv None show ?thesis by (simp add: load_locked_def)
      next
        case (Inr model)
        show ?thesis
        proof (cases "admitted_placement (mg_device mgr) desc = VULKAN_GPU")
          case False
          with cold desc gguf inv add Inr show ?thesis
            by (cases "mg_device mgr") (simp_all add: load_locked_def mgr_inv_defs)
        next
          case True
          then obtain d where d: "mg_device mgr = Some d" and adm: "can_admit d (gpu_required desc)"
            using admitted_gpu by blast
          have bd: "unat (vd_allocated_bytes d) \<le> unat (vd_safe_ceiling_bytes d)"
            and cl: "unat (vd_safe_ceiling_bytes d) < 2 ^ 63"
            using inv d by (auto simp: mgr_inv_defs)
          have nw: "no_wrap d (gpu_required desc)"
            using bd cl small gpu_required_unat [OF small] by (simp add: no_wrap_def)
          have used: "unat (vd_allocated_bytes (snd (dev_allocate d (gpu_required desc))))
                        = unat (vd_allocated_bytes d) + unat (gpu_required desc)"
            using adm nw by (rule ledger.admits_used)
          from cold desc gguf inv add Inr True d used ledger.reserve_bound [OF bd, of "gpu_required desc"]
            ledger.reserve_ceiling [of d "gpu_required desc"]
          show ?thesis by (simp add: load_locked_def mgr_inv_defs)
        qed
      qed
    qed
  qed
qed

lemma mgr_acquire_inv:
  assumes inv: "mgr_inv mgr ls" and acq: "mgr_acquire loader dummy now mid mgr = Inr (l, mgr')"
  shows "mgr_inv mgr' (add_mset l ls)"
proof -
  have lift: "mgr_inv (m\<lparr>mg_pool := p'\<rparr>) (add_mset l' ls)"
    if "mgr_inv m ls" "acquire_lease now mid empty_lease (mg_pool m) = Inr (True, l', p')" for m :: "'a model_manager" and l' p'
    using that acquire_lease_inv [of "mg_pool m" ls now mid empty_lease l' p']
      acquire_lease_gpu_bytes [of "mg_pool m" now mid empty_lease l' p']
    by (intro mgr_inv_pool [OF that(1)]) (simp_all add: mgr_inv_def)
  have none: "mgr_inv m (add_mset empty_lease ls)" if "mgr_inv m ls" for m :: "'a model_manager"
    using that by (auto simp: mgr_inv_def leases_ok_def holds_def empty_lease_def)
  let ?ld = "load_locked loader dummy now mid mgr"
  have inv1: "mgr_inv (snd ?ld) ls" using load_locked_inv [OF inv] by blast
  have fresh: "acquire_lease now mid empty_lease (mg_pool m) = Inr (False, l', p') \<Longrightarrow> l' = empty_lease \<and> p' = mg_pool m"
    if "mgr_inv m ls" for m :: "'a model_manager" and l' p'
    using that acquire_lease_fresh [of "mg_pool m" now mid] by (auto simp: mgr_inv_def)
  show ?thesis
    using acq lift [OF inv] lift [OF inv1] none [OF inv1] fresh [OF inv] fresh [OF inv1] inv
    by (auto simp: mgr_acquire_def mgr_load_def mgr_inv_def split: sum.splits bool.splits prod.splits if_splits)
qed

lemma unload_locked_inv:
  assumes inv: "mgr_inv mgr ls"
  shows "mgr_inv (snd (unload_locked mid mgr)) ls"
proof (cases "remove_model mid (mg_pool mgr)")
  case (Pair r p)
  show ?thesis
  proof (cases r)
    case None
    with Pair have "p = mg_pool mgr" by (auto simp: remove_model_def split: option.splits if_splits)
    then have "mgr\<lparr>mg_pool := p\<rparr> = mgr" by simp
    with None Pair inv show ?thesis by (simp add: unload_locked_def Let_def)
  next
    case (Some m)
    with Pair have rm: "remove_model mid (mg_pool mgr) = (Some m, p)" by simp
    then obtain e where e: "map_of (entries (mg_pool mgr)) mid = Some e" and u: "\<not> me_active_users e > 0"
      and p: "p = (mg_pool mgr)\<lparr>entries := om_erase mid (entries (mg_pool mgr))\<rparr>"
      by (auto simp: remove_model_def split: option.splits if_splits)
    have "om_sum gpu_share (om_erase mid (entries (mg_pool mgr))) + gpu_share (mid, e) = gpu_bytes (mg_pool mgr)"
      using inv e unfolding gpu_bytes_def by (intro om_sum_erase) (auto simp: mgr_inv_def pool_wf_def)
    then have bytes: "gpu_bytes p = gpu_bytes (mg_pool mgr) - gpu_share (mid, e)" by (simp add: gpu_bytes_def p)
    note ri = remove_model_inv [OF _ _ rm, of ls]
    have "\<not> is_in_use mid (mg_pool mgr)" using e u by (simp add: is_in_use_def)
    with inv ri bytes e rm show ?thesis
      by (auto simp: unload_locked_def Let_def mgr_inv_defs get_placement_def get_memory_bytes_def gpu_share_def
          ledger.give_back_used ledger.give_back_ceiling split: option.splits if_splits)
  qed
qed

section \<open>All clients together\<close>

text \<open>
  One step of the program: a client acquires a model (the returned lease becomes live), a lease is
  destroyed, moved or move-assigned, or a model is loaded or unloaded. Live leases are a multiset: which
  C++ variable holds which lease does not matter.
\<close>

inductive mstep ::
  "(string \<Rightarrow> string + 'm) \<Rightarrow> 'm \<Rightarrow> 'm model_manager \<times> lease multiset \<Rightarrow> 'm model_manager \<times> lease multiset \<Rightarrow> bool"
  for loader dummy where
  acquire: "mgr_acquire loader dummy now mid mgr = Inr (l, mgr') \<Longrightarrow> mstep loader dummy (mgr, ls) (mgr', add_mset l ls)"
| drop_lease: "mstep loader dummy (mgr, add_mset l ls) (mgr\<lparr>mg_pool := lease_drop now l (mg_pool mgr)\<rparr>, ls)"
| move_lease: "lease_move l = (l1, l2) \<Longrightarrow> mstep loader dummy (mgr, add_mset l ls) (mgr, add_mset l1 (add_mset l2 ls))"
| assign_lease: "lease_move_assign now this other (mg_pool mgr) = (p', this', other') \<Longrightarrow>
    mstep loader dummy (mgr, add_mset this (add_mset other ls)) (mgr\<lparr>mg_pool := p'\<rparr>, add_mset this' (add_mset other' ls))"
| load: "mgr_load loader dummy now mid mgr = Inr (res, mgr') \<Longrightarrow> mstep loader dummy (mgr, ls) (mgr', ls)"
| unload: "mgr_unload mid mgr = Inr (res, mgr') \<Longrightarrow> mstep loader dummy (mgr, ls) (mgr', ls)"

inductive mreach ::
  "(string \<Rightarrow> string + 'm) \<Rightarrow> 'm \<Rightarrow> 'm model_manager \<Rightarrow> 'm model_manager \<times> lease multiset \<Rightarrow> bool"
  for loader dummy mgr0 where
  start: "mreach loader dummy mgr0 (mgr0, {#})"
| step: "mreach loader dummy mgr0 s \<Longrightarrow> mstep loader dummy s t \<Longrightarrow> mreach loader dummy mgr0 t"

lemma mstep_inv: "mstep loader dummy s t \<Longrightarrow> mgr_inv (fst s) (snd s) \<Longrightarrow> mgr_inv (fst t) (snd t)"
proof (induction rule: mstep.induct)
  case (acquire now mid mgr l mgr' ls)
  then show ?case by (auto intro: mgr_acquire_inv)
next
  case (drop_lease mgr l ls now)
  then have "pool_wf (mg_pool mgr)" "leases_ok (add_mset l ls) (mg_pool mgr)" by (simp_all add: mgr_inv_def)
  with lease_drop_inv [OF this, of now] lease_drop_gpu_bytes [of "mg_pool mgr" now l]
  show ?case using drop_lease by (auto intro: mgr_inv_pool)
next
  case (move_lease l l1 l2 mgr ls)
  with lease_move_inv [of l ls "mg_pool mgr"] show ?case by (simp add: mgr_inv_def)
next
  case (assign_lease now this other mgr p' this' other' ls)
  then have wf: "pool_wf (mg_pool mgr)" and ok: "leases_ok (add_mset this (add_mset other ls)) (mg_pool mgr)"
    by (simp_all add: mgr_inv_def)
  have "p' = lease_drop now this (mg_pool mgr)" using assign_lease.hyps by (simp add: lease_move_assign_def)
  then have "gpu_bytes p' = gpu_bytes (mg_pool mgr)" using wf by (simp add: lease_drop_gpu_bytes)
  with assign_lease.prems lease_move_assign_inv [OF wf ok assign_lease.hyps] show ?case
    by (auto intro: mgr_inv_pool)
next
  case (load now mid mgr res mgr' ls)
  then have "mgr' = snd (load_locked loader dummy now mid mgr)" by (auto simp: mgr_load_def split: if_splits)
  with load load_locked_inv [of mgr ls loader dummy now mid] show ?case by simp
next
  case (unload mid mgr res mgr' ls)
  then have "mgr' = snd (unload_locked mid mgr)" by (auto simp: mgr_unload_def split: if_splits)
  with unload unload_locked_inv [of mgr ls mid] show ?case by simp
qed

text \<open>The start: nothing loaded, nothing leased, an empty ledger.\<close>

definition mgr_start :: "'m model_manager \<Rightarrow> bool" where
  "mgr_start mgr \<longleftrightarrow> \<not> mg_locked mgr \<and> mg_pool mgr = empty_pool \<and> sizes_ok mgr \<and>
     (\<forall>d. mg_device mgr = Some d \<longrightarrow> vd_allocated_bytes d = 0)"

lemma mgr_start_inv: "mgr_start mgr \<Longrightarrow> mgr_inv mgr {#}"
  by (auto simp: mgr_start_def mgr_inv_def ledger_ok_def gpu_bytes_def om_sum_def empty_pool_def
      pool_wf_def leases_ok_def split: option.splits)

lemma mreach_inv: "mreach loader dummy mgr0 s \<Longrightarrow> mgr_start mgr0 \<Longrightarrow> mgr_inv (fst s) (snd s)"
proof (induction rule: mreach.induct)
  case start
  then show ?case by (simp add: mgr_start_inv)
next
  case (step s t)
  then show ?case by (auto intro: mstep_inv)
qed

text \<open>
  C6. In every reachable state of the manager and its clients, a live lease that refers to the pool
  points at the resident entry of its model (the entry it was given has not been freed or replaced), and
  every entry counts exactly the live leases of its model.
\<close>

theorem lease_never_dangles:
  assumes "mgr_start mgr0" and "mreach loader dummy mgr0 (mgr, ls)" and "l \<in># ls" and "l_pool l"
  shows "\<exists>e. map_of (entries (mg_pool mgr)) (l_model_id l) = Some e \<and> l_model_ptr l = Some (me_addr e) \<and>
    me_state e = HOT \<and> me_active_users e = int (size (filter_mset (holds (l_model_id l)) ls)) \<and> 0 < me_active_users e"
proof -
  have inv: "pool_wf (mg_pool mgr)" "leases_ok ls (mg_pool mgr)"
    using mreach_inv [OF assms(2,1)] by (auto simp: mgr_inv_def)
  then obtain e where e: "map_of (entries (mg_pool mgr)) (l_model_id l) = Some e" "l_model_ptr l = Some (me_addr e)"
    using assms(3,4) by (auto simp: leases_ok_def)
  have u: "me_active_users e = int (size (filter_mset (holds (l_model_id l)) ls))"
    using inv(2) e by (auto simp: leases_ok_def)
  have "l \<in># filter_mset (holds (l_model_id l)) ls" using assms(3,4) by (simp add: holds_def)
  then have "filter_mset (holds (l_model_id l)) ls \<noteq> {#}" by auto
  then have "0 < size (filter_mset (holds (l_model_id l)) ls)" using nonempty_has_size by blast
  with u e pool_wf_Some [OF inv(1) e(1)] show ?thesis by auto
qed

definition demo_desc :: "string \<Rightarrow> model_role \<Rightarrow> model_descriptor" where
  "demo_desc mid role = \<lparr>md_id = mid, md_role = role, md_file_path = ''/m.gguf'', md_is_gguf = True,
     md_placement_policy = GPU_PREFERRED, md_weight_bytes = 500, md_scratch_bytes = 100\<rparr>"

definition demo_device :: vulkan_device where
  "demo_device = fresh_device\<lparr>vd_available := True, vd_total_vram_bytes := 2000, vd_safe_ceiling_bytes := 1700\<rparr>"

definition demo_manager :: "nat model_manager" where
  "demo_manager = (make_manager (Some demo_device))
     \<lparr>mg_registry := register_model (demo_desc ''coder'' CODER) empty_registry\<rparr>"

definition demo_loader :: "string \<Rightarrow> string + nat" where
  "demo_loader path = Inr 7"

lemma demo_manager_start: "mgr_start demo_manager"
  by (auto simp: mgr_start_def demo_manager_def make_manager_def sizes_ok_def demo_desc_def demo_device_def
      fresh_device_def split: if_splits)

definition demo_lease :: lease where
  "demo_lease = \<lparr>l_pool = True, l_model_id = ''coder'', l_model_ptr = Some 0, l_placement = VULKAN_GPU\<rparr>"

definition demo_loaded :: "nat model_manager" where
  "demo_loaded = snd (projr (mgr_acquire demo_loader 0 5 ''coder'' demo_manager))"

lemma demo_acquire: "mgr_acquire demo_loader 0 5 ''coder'' demo_manager = Inr (demo_lease, demo_loaded)"
proof -
  let ?r = "mgr_acquire demo_loader 0 5 ''coder'' demo_manager"
  have "\<not> isl ?r" by code_simp
  moreover have "fst (projr ?r) = demo_lease" by code_simp
  ultimately show ?thesis unfolding demo_loaded_def by (cases ?r) auto
qed

lemma demo_reach: "mreach demo_loader 0 demo_manager (demo_loaded, {#demo_lease#})"
  by (rule mreach.step [OF mreach.start]) (rule mstep.acquire [OF demo_acquire, of "{#}"])

theorem lease_never_dangles_witness:
  "\<exists>e. map_of (entries (mg_pool demo_loaded)) ''coder'' = Some e \<and> 0 < me_active_users e"
  using lease_never_dangles [OF demo_manager_start demo_reach, of demo_lease]
  by (auto simp: demo_lease_def)

text \<open>
  C7. In every reachable state the device's ledger equals the bytes of the resident models placed on the
  GPU, and stays within the safety ceiling: loading accounts for exactly what it places, unloading gives
  exactly that back, and leasing changes nothing.
\<close>

theorem vram_ledger_matches_pool:
  assumes "mgr_start mgr0" and "mreach loader dummy mgr0 (mgr, ls)" and "mg_device mgr = Some d"
  shows "unat (vd_allocated_bytes d) = gpu_bytes (mg_pool mgr) \<and>
         unat (vd_allocated_bytes d) \<le> unat (vd_safe_ceiling_bytes d)"
  using mreach_inv [OF assms(2,1)] assms(3) by (simp add: mgr_inv_def ledger_ok_def)

theorem vram_ledger_matches_pool_witness:
  "unat (vd_allocated_bytes (the (mg_device demo_loaded))) = gpu_bytes (mg_pool demo_loaded)"
proof -
  have "mg_device demo_loaded \<noteq> None" by code_simp
  then obtain d where d: "mg_device demo_loaded = Some d" by blast
  from vram_ledger_matches_pool [OF demo_manager_start demo_reach d] d show ?thesis by simp
qed

text \<open>
  C14. The eviction guard: while a live lease of a model exists, unloading it is refused with an error
  message and changes nothing; once no lease holds it, unloading a resident model succeeds and removes it.
\<close>

theorem unload_guarded_by_leases:
  assumes "mgr_start mgr0" and "mreach loader dummy mgr0 (mgr, ls)" and "map_of (entries (mg_pool mgr)) mid \<noteq> None"
  shows "\<exists>ok msg mgr'. mgr_unload mid mgr = Inr ((ok, msg), mgr') \<and>
    (ok \<longleftrightarrow> (\<forall>l \<in># ls. \<not> holds mid l)) \<and>
    (\<not> ok \<longrightarrow> mgr' = mgr) \<and> (ok \<longrightarrow> map_of (entries (mg_pool mgr')) mid = None)"
proof -
  have inv: "mgr_inv mgr ls" using mreach_inv [OF assms(2,1)] by simp
  obtain e where e: "map_of (entries (mg_pool mgr)) mid = Some e" using assms(3) by blast
  have u: "me_active_users e = int (size (filter_mset (holds mid) ls))"
    using inv e by (auto simp: mgr_inv_def leases_ok_def)
  show ?thesis
  proof (cases "filter_mset (holds mid) ls = {#}")
    case True
    with u have z: "me_active_users e = 0" by simp
    have none: "\<forall>l \<in># ls. \<not> holds mid l" using True by (auto simp: filter_mset_eq_conv)
    obtain mgr' where "mgr_unload mid mgr = Inr ((True, []), mgr')" "mg_pool mgr' = (mg_pool mgr)\<lparr>entries := om_erase mid (entries (mg_pool mgr))\<rparr>"
      using e z inv
      by (simp add: mgr_unload_def unload_locked_def is_in_use_def remove_model_def mgr_inv_def Let_def)
    with none show ?thesis by (intro exI [of _ True]) simp
  next
    case False
    then have "0 < size (filter_mset (holds mid) ls)" using nonempty_has_size by blast
    then have pos: "0 < me_active_users e" using u by simp
    obtain msg where "mgr_unload mid mgr = Inr ((False, msg), mgr)"
      using e pos inv by (simp add: mgr_unload_def unload_locked_def is_in_use_def mgr_inv_def)
    moreover have "\<exists>l \<in># ls. holds mid l" using False by (auto simp: filter_mset_eq_conv)
    ultimately show ?thesis by auto
  qed
qed

theorem unload_guarded_by_leases_witness:
  "\<exists>msg. mgr_unload ''coder'' demo_loaded = Inr ((False, msg), demo_loaded)"
proof -
  have "map_of (entries (mg_pool demo_loaded)) ''coder'' \<noteq> None" by code_simp
  from unload_guarded_by_leases [OF demo_manager_start demo_reach this] show ?thesis
    by (auto simp: holds_def demo_lease_def)
qed

section \<open>The idle sweep\<close>

text \<open>Under the mutex, \<open>evict_each\<close> either touches nothing or stops at its first unload.\<close>

lemma evict_each_locked:
  "mg_locked mgr \<Longrightarrow>
   evict_each ids mgr =
     (if \<exists>mid \<in> set ids. \<exists>d. reg_get (mg_registry mgr) mid = Some d \<and> evictable_role (md_role d)
      then Inl SelfDeadlock else Inr mgr)"
proof (induction ids)
  case (Cons i ids)
  then show ?case by (cases "reg_get (mg_registry mgr) i") (auto simp: mgr_unload_def)
qed simp

text \<open>
  C27. The idle sweep never evicts a model: it holds the manager's mutex while it calls \<open>unload\<close>, which
  takes the same non-recursive mutex. If some idle unleased model has one of the roles to evict, the
  calling thread deadlocks with itself; otherwise the manager is unchanged.
\<close>

theorem idle_sweep_never_evicts:
  assumes "\<not> mg_locked mgr"
  shows "enforce_budget now timeout mgr =
    (if \<exists>mid \<in> set (get_evictable_model_ids now timeout (mg_pool mgr)).
          \<exists>d. reg_get (mg_registry mgr) mid = Some d \<and> evictable_role (md_role d)
     then Inl SelfDeadlock else Inr mgr)"
proof -
  have "mgr\<lparr>mg_locked := False\<rparr> = mgr" using assms by (cases mgr) simp
  then show ?thesis
    using assms evict_each_locked [of "mgr\<lparr>mg_locked := True\<rparr>"] by (simp add: enforce_budget_def Let_def)
qed

definition demo_idle :: "nat model_manager" where
  "demo_idle = snd (projr (mgr_load demo_loader 0 5 ''coder'' demo_manager))"

theorem idle_sweep_never_evicts_witness: "enforce_budget 300000000005 180 demo_idle = Inl SelfDeadlock"
proof -
  have "\<not> mg_locked demo_idle" by code_simp
  moreover have "''coder'' \<in> set (get_evictable_model_ids 300000000005 180 (mg_pool demo_idle))" by code_simp
  moreover have "reg_get (mg_registry demo_idle) ''coder'' = Some (demo_desc ''coder'' CODER)" by code_simp
  moreover have "evictable_role (md_role (demo_desc ''coder'' CODER))" by code_simp
  ultimately show ?thesis by (subst idle_sweep_never_evicts) auto
qed

section \<open>Acquisition delivers\<close>



end
