(* ===== verification/Model_Types.thy ===== *)
theory Model_Types
  imports DL_Prelude
begin

text \<open>
  The data of a loaded model (\<open>model.hpp\<close>): tensor types, tensor and model metadata, the tokenizer trie and
  the vocabulary. A \<open>float\<close> is its 32-bit pattern (\<open>f32\<close>); the arithmetic on floats is an argument of the
  definitions that use it (the record \<open>float_ops\<close>), because the compiled code may contract and vectorise it.
\<close>

type_synonym f32 = "32 word"

text \<open>Run-time faults: an access outside an array, through a null pointer, a division by zero, an impossible capacity.\<close>

datatype mem_error = OutOfBounds | NullPointer | DivByZero | LengthError

section \<open>Float operations\<close>

record float_ops =
  f_add :: "f32 \<Rightarrow> f32 \<Rightarrow> f32"
  f_sub :: "f32 \<Rightarrow> f32 \<Rightarrow> f32"
  f_mul :: "f32 \<Rightarrow> f32 \<Rightarrow> f32"
  f_div :: "f32 \<Rightarrow> f32 \<Rightarrow> f32"
  f_pow :: "f32 \<Rightarrow> f32 \<Rightarrow> f32"
  f_less :: "f32 \<Rightarrow> f32 \<Rightarrow> bool"
  f_exp :: "f32 \<Rightarrow> f32"
  f_sqrt :: "f32 \<Rightarrow> f32"
  f_of_int :: "int \<Rightarrow> f32"
  f_fma :: "f32 \<Rightarrow> f32 \<Rightarrow> f32 \<Rightarrow> f32"
  f_cos :: "f32 \<Rightarrow> f32"
  f_sin :: "f32 \<Rightarrow> f32"

text \<open>A trivial arithmetic, to instantiate the parameter in examples.\<close>

definition demo_floats :: float_ops where
  "demo_floats = \<lparr>f_add = (+), f_sub = (-), f_mul = (\<lambda>a b. a), f_div = (\<lambda>a b. a), f_pow = (\<lambda>a b. a), f_less = (\<lambda>a b. False),
     f_exp = (\<lambda>a. a), f_sqrt = (\<lambda>a. a), f_of_int = word_of_int, f_fma = (\<lambda>a b c. c),
     f_cos = (\<lambda>a. a), f_sin = (\<lambda>a. a)\<rparr>"

text \<open>The literals the code uses, as their bit patterns.\<close>

definition f_zero :: f32 where "f_zero = 0"
definition f_one :: f32 where "f_one = 0x3F800000"
definition f_10000 :: f32 where "f_10000 = 0x461C4000"
definition f_8192 :: f32 where "f_8192 = 0x46000000"
definition f_1em6 :: f32 where "f_1em6 = 0x358637BD"

section \<open>Tensors\<close>

datatype tensor_type =
  FP32 | FP16 | Q4_0 | Q4_1 | Q5_0 | Q5_1 | Q8_0 | Q8_1 | Q2_K | Q3_K | Q4_K | Q5_K | Q6_K | Q8_K | Unlisted u32

fun tensor_type_code :: "tensor_type \<Rightarrow> u32" where
  "tensor_type_code FP32 = 0"
| "tensor_type_code FP16 = 1"
| "tensor_type_code Q4_0 = 2"
| "tensor_type_code Q4_1 = 3"
| "tensor_type_code Q5_0 = 6"
| "tensor_type_code Q5_1 = 7"
| "tensor_type_code Q8_0 = 8"
| "tensor_type_code Q8_1 = 9"
| "tensor_type_code Q2_K = 10"
| "tensor_type_code Q3_K = 11"
| "tensor_type_code Q4_K = 12"
| "tensor_type_code Q5_K = 13"
| "tensor_type_code Q6_K = 14"
| "tensor_type_code Q8_K = 15"
| "tensor_type_code (Unlisted w) = w"

definition listed_tensor_types :: "tensor_type list" where
  "listed_tensor_types = [FP32, FP16, Q4_0, Q4_1, Q5_0, Q5_1, Q8_0, Q8_1, Q2_K, Q3_K, Q4_K, Q5_K, Q6_K, Q8_K]"

text \<open>\<open>static_cast<TensorType>\<close> of a raw code.\<close>

definition tensor_type_of :: "u32 \<Rightarrow> tensor_type" where
  "tensor_type_of w =
     (case find (\<lambda>t. tensor_type_code t = w) listed_tensor_types of Some t \<Rightarrow> t | None \<Rightarrow> Unlisted w)"

text \<open>\<open>std::to_string(static_cast<int>(type))\<close>.\<close>

definition int_digits :: "int \<Rightarrow> string" where
  "int_digits i = (if i < 0 then CHR ''-'' # nat_digits (nat (- i)) else nat_digits (nat i))"

fun tensor_type_name :: "tensor_type \<Rightarrow> string" where
  "tensor_type_name FP32 = ''F32''"
| "tensor_type_name FP16 = ''F16''"
| "tensor_type_name Q4_0 = ''Q4_0''"
| "tensor_type_name Q4_1 = ''Q4_1''"
| "tensor_type_name Q5_0 = ''Q5_0''"
| "tensor_type_name Q5_1 = ''Q5_1''"
| "tensor_type_name Q8_0 = ''Q8_0''"
| "tensor_type_name Q8_1 = ''Q8_1''"
| "tensor_type_name Q2_K = ''Q2_K''"
| "tensor_type_name Q3_K = ''Q3_K''"
| "tensor_type_name Q4_K = ''Q4_K''"
| "tensor_type_name Q5_K = ''Q5_K''"
| "tensor_type_name Q6_K = ''Q6_K''"
| "tensor_type_name Q8_K = ''Q8_K''"
| "tensor_type_name (Unlisted w) = ''UNKNOWN_'' @ int_digits (sint w)"

definition ends_with :: "string \<Rightarrow> string \<Rightarrow> bool" where
  "ends_with s suf \<longleftrightarrow> length suf \<le> length s \<and> drop (length s - length suf) s = suf"

definition native_tensor_supported :: "string \<Rightarrow> tensor_type \<Rightarrow> bool" where
  "native_tensor_supported name t =
     (let scalar_weights = contains name ''norm.weight'' \<or> ends_with name ''.bias''
      in if scalar_weights then t = FP32 else t = Q4_0 \<or> t = Q8_0)"

record tensor =
  t_name :: string
  t_type :: tensor_type
  t_shape :: "u32 list"
  t_data_offset :: size_t

section \<open>Model configuration\<close>

record rope_config =
  rope_base :: f32
  rope_scale :: f32
  rope_type :: string
  rope_frequency_factor :: f32
  rope_low_freq_factor :: f32
  rope_high_freq_factor :: f32

definition default_rope :: rope_config where
  "default_rope = \<lparr>rope_base = f_10000, rope_scale = f_one, rope_type = ''default'', rope_frequency_factor = f_zero,
     rope_low_freq_factor = f_zero, rope_high_freq_factor = f_zero\<rparr>"

record model_config =
  architecture :: string
  model_id :: string
  context_length :: u32
  embedding_length :: u32
  num_layers :: u32
  num_heads :: u32
  num_kv_heads :: u32
  head_dim :: u32
  intermediate_dim :: u32
  vocab_size :: u32
  eos_token_id :: int
  rms_norm_eps :: f32
  alignment :: u32
  chat_template :: string
  rope :: rope_config

definition default_config :: model_config where
  "default_config = \<lparr>architecture = [], model_id = [], context_length = 0, embedding_length = 0, num_layers = 0,
     num_heads = 0, num_kv_heads = 0, head_dim = 0, intermediate_dim = 0, vocab_size = 0, eos_token_id = -1,
     rms_norm_eps = f_1em6, alignment = 32, chat_template = [], rope = default_rope\<rparr>"

section \<open>Vocabulary\<close>

text \<open>A trie node: its token identifier (-1 when no token ends there) and its children by character.\<close>

datatype trie_node = TrieNode (node_token: int) (node_children: "(char \<times> trie_node) list")

record vocab =
  v_tokens :: "string list"
  v_scores :: "f32 list"
  v_root :: trie_node

definition empty_vocab :: vocab where
  "empty_vocab = \<lparr>v_tokens = [], v_scores = [], v_root = TrieNode (-1) []\<rparr>"

section \<open>Facts\<close>

lemma tensor_type_of_code: "tensor_type_code (tensor_type_of w) = w"
  by (auto simp: tensor_type_of_def find_Some_iff split: option.splits)

lemma ends_with_iff: "ends_with s suf \<longleftrightarrow> (\<exists>pre. s = pre @ suf)"
proof
  assume "ends_with s suf"
  then have "s = take (length s - length suf) s @ suf" by (metis append_take_drop_id ends_with_def)
  then show "\<exists>pre. s = pre @ suf" by blast
qed (auto simp: ends_with_def)

end
