(* ===== verification/KV_Cache.thy ===== *)
theory KV_Cache
  imports Model_Types Model_Pool Vulkan_Device
begin

text \<open>
  \<open>KVCache\<close> (\<open>kv_cache.hpp\<close>, \<open>kv_cache.cpp\<close>): the bounded key/value buffer of one model. \<open>kc_gpu_device\<close>
  says whether \<open>gpu_device_\<close> is set; the device it would point to is passed to the operations that may
  touch it, so that the governance rule of the source (the cache always lives in host memory) is a theorem
  about the device's ledger. \<open>resize_ok\<close> tells for which sizes \<open>host_buffer_.resize\<close> does not throw.
\<close>

section \<open>State and operations\<close>

record kv_cache =
  kc_placement :: device_placement
  kc_gpu_device :: bool
  kc_capacity_tokens :: size_t
  kc_current_tokens :: size_t
  kc_bytes_per_token :: size_t
  kc_allocated_bytes :: size_t
  kc_host_buffer :: "u8 list"

definition new_kv_cache :: kv_cache where
  "new_kv_cache = \<lparr>kc_placement = CPU_RAM, kc_gpu_device = False, kc_capacity_tokens = 0, kc_current_tokens = 0,
     kc_bytes_per_token = 0, kc_allocated_bytes = 0, kc_host_buffer = []\<rparr>"

definition calculate_bytes_per_token :: "model_config \<Rightarrow> size_t" where
  "calculate_bytes_per_token cfg =
     (let hd0 = ucast (head_dim cfg) :: size_t;
          hd1 = (if hd0 = 0 \<and> num_heads cfg > 0 then ucast (embedding_length cfg div num_heads cfg) else hd0);
          hd2 = (if hd1 = 0 then 128 else hd1)
      in ucast (num_layers cfg) * 2 * ucast (num_kv_heads cfg) * hd2 * 2)"

definition kv_release :: "kv_cache \<Rightarrow> vulkan_device option \<Rightarrow> kv_cache \<times> vulkan_device option" where
  "kv_release c dev =
     (let on_gpu = kc_placement c = VULKAN_GPU \<and> kc_gpu_device c
      in (c\<lparr>kc_gpu_device := (if on_gpu then False else kc_gpu_device c), kc_host_buffer := [],
            kc_allocated_bytes := 0, kc_capacity_tokens := 0, kc_current_tokens := 0, kc_placement := CPU_RAM\<rparr>,
          if on_gpu then map_option (\<lambda>d. dev_release d (kc_allocated_bytes c)) dev else dev))"

definition effective_tokens :: "model_config \<Rightarrow> size_t \<Rightarrow> size_t" where
  "effective_tokens cfg max_context_budget =
     (let model_context_limit = (if context_length cfg > 0 then ucast (context_length cfg) else 2048)
      in if max_context_budget > 0 then min model_context_limit max_context_budget else model_context_limit)"

definition kv_allocate ::
  "(size_t \<Rightarrow> bool) \<Rightarrow> model_config \<Rightarrow> size_t \<Rightarrow> kv_cache \<Rightarrow> vulkan_device option \<Rightarrow> bool \<times> kv_cache \<times> vulkan_device option" where
  "kv_allocate resize_ok cfg max_context_budget c dev =
     (let (c1, dev1) = kv_release c dev;
          tokens = effective_tokens cfg max_context_budget;
          bpt = calculate_bytes_per_token cfg;
          c2 = c1\<lparr>kc_bytes_per_token := bpt, kc_allocated_bytes := tokens * bpt, kc_capacity_tokens := tokens,
                  kc_current_tokens := 0, kc_placement := CPU_RAM, kc_gpu_device := False\<rparr>
      in if resize_ok (tokens * bpt)
         then (True, c2\<lparr>kc_host_buffer := replicate (unat (tokens * bpt)) 0\<rparr>, dev1)
         else (let (c3, dev2) = kv_release c2 dev1 in (False, c3, dev2)))"

definition can_append :: "kv_cache \<Rightarrow> size_t \<Rightarrow> bool" where
  "can_append c n \<longleftrightarrow> kc_current_tokens c + n \<le> kc_capacity_tokens c"

definition kv_advance :: "kv_cache \<Rightarrow> size_t \<Rightarrow> kv_cache" where
  "kv_advance c n = c\<lparr>kc_current_tokens := min (kc_capacity_tokens c) (kc_current_tokens c + n)\<rparr>"

definition kv_reset :: "kv_cache \<Rightarrow> kv_cache" where
  "kv_reset c = c\<lparr>kc_current_tokens := 0\<rparr>"

text \<open>The moved-from object after a move: buffer moved out, counters cleared, the other fields kept.\<close>

definition kv_moved_from :: "kv_cache \<Rightarrow> kv_cache" where
  "kv_moved_from c = c\<lparr>kc_gpu_device := False, kc_allocated_bytes := 0, kc_capacity_tokens := 0,
     kc_current_tokens := 0, kc_host_buffer := []\<rparr>"

definition kv_move :: "kv_cache \<Rightarrow> kv_cache \<times> kv_cache" where
  "kv_move other = (other, kv_moved_from other)"

text \<open>Move assignment between two distinct objects: \<open>(this, other, device)\<close> afterwards.\<close>

definition kv_move_assign ::
  "kv_cache \<Rightarrow> kv_cache \<Rightarrow> vulkan_device option \<Rightarrow> kv_cache \<times> kv_cache \<times> vulkan_device option" where
  "kv_move_assign this other dev = (let (_, dev1) = kv_release this dev in (other, kv_moved_from other, dev1))"

section \<open>Invariant\<close>

definition kv_inv :: "kv_cache \<Rightarrow> bool" where
  "kv_inv c \<longleftrightarrow> kc_placement c = CPU_RAM \<and> \<not> kc_gpu_device c \<and> kc_current_tokens c \<le> kc_capacity_tokens c \<and>
     kc_allocated_bytes c = kc_capacity_tokens c * kc_bytes_per_token c \<and>
     length (kc_host_buffer c) = unat (kc_allocated_bytes c)"

lemma kv_inv_new [simp]: "kv_inv new_kv_cache"
  by (simp add: kv_inv_def new_kv_cache_def)

lemma kv_release_inv: "kv_inv c \<Longrightarrow> kv_inv (fst (kv_release c dev)) \<and> snd (kv_release c dev) = dev"
  by (simp add: kv_inv_def kv_release_def)

lemma kv_allocate_result:
  assumes "kv_inv c"
  shows "kv_allocate ok cfg budget c dev =
    (if ok (effective_tokens cfg budget * calculate_bytes_per_token cfg)
     then (True, \<lparr>kc_placement = CPU_RAM, kc_gpu_device = False, kc_capacity_tokens = effective_tokens cfg budget,
             kc_current_tokens = 0, kc_bytes_per_token = calculate_bytes_per_token cfg,
             kc_allocated_bytes = effective_tokens cfg budget * calculate_bytes_per_token cfg,
             kc_host_buffer = replicate (unat (effective_tokens cfg budget * calculate_bytes_per_token cfg)) 0\<rparr>, dev)
     else (False, new_kv_cache\<lparr>kc_bytes_per_token := calculate_bytes_per_token cfg\<rparr>, dev))"
  using assms by (cases c) (simp add: kv_allocate_def kv_release_def kv_inv_def new_kv_cache_def Let_def)

datatype kv_op =
    KAllocate model_config size_t
  | KRelease
  | KAdvance size_t
  | KReset
  | KMoveTo

text \<open>One call on the cache; \<open>KMoveTo\<close> moves it into a new object and goes on with that one.\<close>

fun kv_step :: "(size_t \<Rightarrow> bool) \<Rightarrow> kv_op \<Rightarrow> kv_cache \<times> vulkan_device option \<Rightarrow> kv_cache \<times> vulkan_device option" where
  "kv_step ok (KAllocate cfg n) (c, dev) = snd (kv_allocate ok cfg n c dev)"
| "kv_step ok KRelease (c, dev) = kv_release c dev"
| "kv_step ok (KAdvance n) (c, dev) = (kv_advance c n, dev)"
| "kv_step ok KReset (c, dev) = (kv_reset c, dev)"
| "kv_step ok KMoveTo (c, dev) = (fst (kv_move c), dev)"

lemma kv_step_inv:
  "kv_inv c \<Longrightarrow> kv_inv (fst (kv_step ok op (c, dev))) \<and> snd (kv_step ok op (c, dev)) = dev"
  by (cases op)
     (auto simp: kv_allocate_result kv_release_inv kv_advance_def kv_reset_def kv_move_def,
      auto simp: kv_inv_def new_kv_cache_def)

text \<open>
  After any sequence of calls on a KV cache it lives in host memory, its fill level is at most its
  capacity, its buffer has exactly the accounted bytes, and the GPU's ledger has not been touched: the
  hardware governance rule of \<open>KVCache::allocate\<close> holds for the whole life of the object.
\<close>

theorem kv_cache_stays_on_host:
  assumes "fold (kv_step ok) ops (new_kv_cache, dev) = (c, dev')"
  shows "kc_placement c = CPU_RAM \<and> kc_current_tokens c \<le> kc_capacity_tokens c \<and>
         length (kc_host_buffer c) = unat (kc_allocated_bytes c) \<and> dev' = dev"
proof -
  have "kv_inv c0 \<Longrightarrow> kv_inv (fst (fold (kv_step ok) ops (c0, d))) \<and> snd (fold (kv_step ok) ops (c0, d)) = d" for c0 d
  proof (induction ops arbitrary: c0 d)
    case (Cons op ops)
    obtain c1 d1 where s: "kv_step ok op (c0, d) = (c1, d1)" by (metis prod.exhaust)
    with kv_step_inv [OF Cons.prems, of ok op d] have "kv_inv c1" "d1 = d" by auto
    with Cons.IH [of c1 d1] s show ?case by simp
  qed simp
  from this [OF kv_inv_new, of dev] assms show ?thesis by (simp add: kv_inv_def)
qed

theorem kv_cache_stays_on_host_witness:
  "kc_current_tokens (fst (fold (kv_step (\<lambda>n. n \<le> 10000))
     [KAllocate (default_config\<lparr>num_layers := 1, num_kv_heads := 1, head_dim := 2, context_length := 20\<rparr>) 8, KAdvance 5, KAdvance 9]
     (new_kv_cache, None))) \<le> 8"
proof -
  let ?ops = "[KAllocate (default_config\<lparr>num_layers := 1, num_kv_heads := 1, head_dim := 2, context_length := 20\<rparr>) 8, KAdvance 5, KAdvance 9]"
  obtain c d where r: "fold (kv_step (\<lambda>n. n \<le> 10000)) ?ops (new_kv_cache, None) = (c, d)" by (metis prod.exhaust)
  from kv_cache_stays_on_host [OF r] have "kc_current_tokens c \<le> kc_capacity_tokens c" by simp
  moreover have "kc_capacity_tokens (fst (fold (kv_step (\<lambda>n. n \<le> 10000)) ?ops (new_kv_cache, None))) = 8" by code_simp
  ultimately show ?thesis using r by simp
qed

text \<open>
  A successful allocation is bounded by both the model's context window (2048 when the file gives
  none) and the caller's budget, and room that \<open>can_append\<close> grants is there: advancing by it adds exactly
  that many tokens (token counts below 2^63, so that the sum does not wrap around).
\<close>

theorem kv_append_exact:
  assumes "kv_inv c" and "fst (kv_allocate ok cfg budget c dev)" and "can_append (kv_advance (fst (snd (kv_allocate ok cfg budget c dev))) used) n"
    and "unat used < 2 ^ 63" and "unat n < 2 ^ 63"
  shows "unat (kc_current_tokens (kv_advance (kv_advance (fst (snd (kv_allocate ok cfg budget c dev))) used) n)) =
           min (unat used) (unat (effective_tokens cfg budget)) + unat n \<and>
         (0 < budget \<longrightarrow> effective_tokens cfg budget \<le> budget)"
proof -
  let ?c = "fst (snd (kv_allocate ok cfg budget c dev))"
  have cap: "kc_capacity_tokens ?c = effective_tokens cfg budget" "kc_current_tokens ?c = 0"
    using assms(1,2) by (auto simp: kv_allocate_result split: if_splits)
  have small: "unat (min (effective_tokens cfg budget) used) < 2 ^ 63"
    using assms(4) by (simp add: unat_min_u64)
  have sum: "unat (min (effective_tokens cfg budget) used + n) = unat (min (effective_tokens cfg budget) used) + unat n"
    by (rule unat_add_u64_no_wrap) (use small assms(5) in simp)
  have "min (effective_tokens cfg budget) used + n \<le> effective_tokens cfg budget"
    using assms(3) cap by (simp add: can_append_def kv_advance_def)
  then have "unat (kc_current_tokens (kv_advance (kv_advance ?c used) n)) = min (unat used) (unat (effective_tokens cfg budget)) + unat n"
    using cap sum by (simp add: kv_advance_def min_absorb2 unat_min_u64 min.commute)
  moreover have "0 < budget \<longrightarrow> effective_tokens cfg budget \<le> budget" by (simp add: effective_tokens_def Let_def)
  ultimately show ?thesis by blast
qed

theorem kv_append_exact_witness:
  "unat (kc_current_tokens (kv_advance (kv_advance (fst (snd (kv_allocate (\<lambda>_. True)
     (default_config\<lparr>num_layers := 1, num_kv_heads := 1, head_dim := 2, context_length := 20\<rparr>) 8 new_kv_cache None))) 3) 4)) = 7"
proof -
  let ?cfg = "default_config\<lparr>num_layers := 1, num_kv_heads := 1, head_dim := 2, context_length := 20\<rparr>"
  have "fst (kv_allocate (\<lambda>_. True) ?cfg 8 new_kv_cache None)" by (simp add: kv_allocate_result)
  moreover have "can_append (kv_advance (fst (snd (kv_allocate (\<lambda>_. True) ?cfg 8 new_kv_cache None))) 3) 4" by code_simp
  ultimately have "unat (kc_current_tokens (kv_advance (kv_advance (fst (snd (kv_allocate (\<lambda>_. True) ?cfg 8 new_kv_cache None))) 3) 4)) =
      min (unat (3 :: size_t)) (unat (effective_tokens ?cfg 8)) + unat (4 :: size_t)"
    using kv_append_exact [OF kv_inv_new, of "\<lambda>_. True" ?cfg 8 None 3 4] by simp
  moreover have "effective_tokens ?cfg 8 = 8" by code_simp
  ultimately show ?thesis by simp
qed

end
