(* ===== verification/Byte_Codec.thy ===== *)
theory Byte_Codec
  imports DL_Prelude
begin

text \<open>
  Little-endian byte images of the scalars the program writes to and reads from binary files (a 32- or
  64-bit word, a signed \<open>int\<close>, a string), and the semantics of \<open>std::istream::read\<close> into a buffer: when the
  input is short, the available bytes are stored, the stream goes bad, and every later read leaves its
  destination unchanged. The locale \<open>scalar_codec\<close> is the interface of a fixed-width encoding; its lemmas on
  reading one scalar or an array of scalars serve every reader of the development.
\<close>

section \<open>Byte images\<close>

fun nat_bytes :: "nat \<Rightarrow> nat \<Rightarrow> u8 list" where
  "nat_bytes 0 n = []"
| "nat_bytes (Suc k) n = word_of_nat (n mod 256) # nat_bytes k (n div 256)"

fun bytes_nat :: "u8 list \<Rightarrow> nat" where
  "bytes_nat [] = 0"
| "bytes_nat (b # bs) = unat b + 256 * bytes_nat bs"

definition enc_u32 :: "u32 \<Rightarrow> u8 list" where "enc_u32 w = nat_bytes 4 (unat w)"
definition dec_u32 :: "u8 list \<Rightarrow> u32" where "dec_u32 bs = word_of_nat (bytes_nat bs)"
definition enc_u64 :: "u64 \<Rightarrow> u8 list" where "enc_u64 w = nat_bytes 8 (unat w)"
definition dec_u64 :: "u8 list \<Rightarrow> u64" where "dec_u64 bs = word_of_nat (bytes_nat bs)"
definition enc_i32 :: "int \<Rightarrow> u8 list" where "enc_i32 i = enc_u32 (word_of_int i)"
definition dec_i32 :: "u8 list \<Rightarrow> int" where "dec_i32 bs = sint (dec_u32 bs)"

definition i32_ok :: "int \<Rightarrow> bool" where "i32_ok i \<longleftrightarrow> - (2 ^ 31) \<le> i \<and> i < 2 ^ 31"

definition byte_of_char :: "char \<Rightarrow> u8" where "byte_of_char c = word_of_nat (of_char c)"
definition char_of_byte :: "u8 \<Rightarrow> char" where "char_of_byte b = char_of (unat b)"

lemma length_nat_bytes [simp]: "length (nat_bytes k n) = k"
  by (induction k n rule: nat_bytes.induct) auto

lemma bytes_nat_nat_bytes: "bytes_nat (nat_bytes k n) = n mod 256 ^ k"
proof (induction k n rule: nat_bytes.induct)
  case (2 k n)
  have "unat (word_of_nat (n mod 256) :: u8) = n mod 256" by (simp add: unat_of_nat)
  with 2 show ?case by (simp add: mod_mult2_eq mult.commute)
qed simp

lemma take_nat_bytes: "k \<le> m \<Longrightarrow> take k (nat_bytes m n) = nat_bytes k n"
proof (induction m n arbitrary: k rule: nat_bytes.induct)
  case (2 m n)
  then show ?case by (cases k) auto
qed simp

lemma bytes_nat_append: "bytes_nat (xs @ ys) = bytes_nat xs + 256 ^ length xs * bytes_nat ys"
  by (induction xs) (auto simp: algebra_simps)

lemma bytes_nat_less: "bytes_nat bs < 256 ^ length bs"
proof (induction bs)
  case (Cons b bs)
  have "unat b < 256" using unsigned_less [of b] by simp
  with Cons show ?case by simp
qed simp

lemma nat_bytes_bytes_nat: "nat_bytes (length bs) (bytes_nat bs) = bs"
proof (induction bs)
  case (Cons b bs)
  have "unat b < 256" using unsigned_less [of b] by simp
  with Cons show ?case by simp
qed simp

lemma char_of_byte_of_char [simp]: "char_of_byte (byte_of_char c) = c"
proof -
  have "unat (byte_of_char c) = of_char c" by (simp add: byte_of_char_def unat_of_nat)
  then show ?thesis by (simp add: char_of_byte_def)
qed

lemma byte_of_char_of_byte [simp]: "byte_of_char (char_of_byte b) = b"
proof -
  have "unat b < 256" using unsigned_less [of b] by simp
  then show ?thesis by (simp add: char_of_byte_def byte_of_char_def)
qed

lemma char_byte_comp [simp]: "char_of_byte \<circ> byte_of_char = id"
  by (rule ext) simp

section \<open>Arrays of scalars\<close>

fun dec_array :: "nat \<Rightarrow> (u8 list \<Rightarrow> 'a) \<Rightarrow> nat \<Rightarrow> u8 list \<Rightarrow> 'a list" where
  "dec_array width dec 0 bs = []"
| "dec_array width dec (Suc n) bs = dec (take width bs) # dec_array width dec n (drop width bs)"

section \<open>Input streams\<close>

type_synonym istream = "u8 list \<times> bool"

text \<open>\<open>in.read(buf, n)\<close>: the buffer afterwards and the stream afterwards.\<close>

definition in_read :: "nat \<Rightarrow> u8 list \<Rightarrow> istream \<Rightarrow> u8 list \<times> istream" where
  "in_read n buf s =
     (case s of (bs, good) \<Rightarrow>
        if \<not> good then (buf, s)
        else if n \<le> length bs then (take n bs @ drop n buf, (drop n bs, True))
        else (bs @ drop (length bs) buf, ([], False)))"

definition rd_u32 :: "istream \<Rightarrow> u32 \<times> istream" where
  "rd_u32 s = (let (b, s') = in_read 4 (replicate 4 0) s in (dec_u32 b, s'))"

definition rd_i32 :: "istream \<Rightarrow> int \<times> istream" where
  "rd_i32 s = (let (b, s') = in_read 4 (replicate 4 0) s in (dec_i32 b, s'))"

lemma in_read_enough:
  "length xs = n \<Longrightarrow> in_read n buf (xs @ rest, True) = (xs @ drop n buf, (rest, True))"
  by (simp add: in_read_def)

locale scalar_codec =
  fixes enc :: "'a \<Rightarrow> u8 list"
    and dec :: "u8 list \<Rightarrow> 'a"
    and width :: nat
    and valid :: "'a \<Rightarrow> bool"
  assumes enc_length: "length (enc x) = width"
    and dec_enc: "valid x \<Longrightarrow> dec (enc x) = x"
begin

lemma read_scalar:
  "length buf = width \<Longrightarrow> in_read width buf (enc x @ rest, True) = (enc x, (rest, True))"
  using enc_length by (simp add: in_read_enough)

lemma length_enc_array: "length (concat (map enc xs)) = width * length xs"
  by (induction xs) (auto simp: enc_length)

lemma dec_array_enc:
  "list_all valid xs \<Longrightarrow> dec_array width dec (length xs) (concat (map enc xs) @ rest) = xs"
  by (induction xs) (auto simp: enc_length dec_enc)

text \<open>Reading the image of \<open>xs\<close> into a buffer that holds the image of \<open>ys\<close> overwrites its front.\<close>

lemma read_array:
  assumes "list_all valid xs" and "list_all valid ys" and "length xs \<le> length ys"
  shows "in_read (width * length xs) (concat (map enc ys)) (concat (map enc xs) @ rest, True) =
           (concat (map enc (xs @ drop (length xs) ys)), (rest, True))"
proof -
  have "drop (width * length xs) (concat (map enc ys)) = concat (map enc (drop (length xs) ys))"
    using assms(3)
  proof (induction xs arbitrary: ys)
    case (Cons x xs)
    then obtain y ys' where "ys = y # ys'" by (cases ys) auto
    with Cons show ?case by (simp add: enc_length)
  qed simp
  then show ?thesis by (simp add: in_read_enough length_enc_array)
qed

end

interpretation u32c: scalar_codec enc_u32 dec_u32 4 "\<lambda>_. True"
proof
  show "length (enc_u32 x) = 4" for x by (simp add: enc_u32_def)
  show "dec_u32 (enc_u32 x) = x" for x
  proof -
    have "unat x < 256 ^ 4" using unsigned_less [of x] by simp
    then show ?thesis by (simp add: enc_u32_def dec_u32_def bytes_nat_nat_bytes)
  qed
qed

interpretation u64c: scalar_codec enc_u64 dec_u64 8 "\<lambda>_. True"
proof
  show "length (enc_u64 x) = 8" for x by (simp add: enc_u64_def)
  show "dec_u64 (enc_u64 x) = x" for x
  proof -
    have "unat x < 256 ^ 8" using unsigned_less [of x] by simp
    then show ?thesis by (simp add: enc_u64_def dec_u64_def bytes_nat_nat_bytes)
  qed
qed

interpretation i32c: scalar_codec enc_i32 dec_i32 4 i32_ok
proof
  show "length (enc_i32 x) = 4" for x by (simp add: enc_i32_def u32c.enc_length)
  show "i32_ok x \<Longrightarrow> dec_i32 (enc_i32 x) = x" for x
    by (simp add: enc_i32_def dec_i32_def u32c.dec_enc i32_ok_def signed_of_int signed_take_bit_int_eq_self)
qed

lemma rd_u32_enc [simp]: "rd_u32 (enc_u32 w @ rest, True) = (w, (rest, True))"
  by (simp add: rd_u32_def u32c.read_scalar u32c.dec_enc)

lemma rd_i32_enc [simp]: "i32_ok i \<Longrightarrow> rd_i32 (enc_i32 i @ rest, True) = (i, (rest, True))"
  by (simp add: rd_i32_def i32c.read_scalar i32c.dec_enc)

end
