(* ===== verification/Session_KV.thy ===== *)
theory Session_KV
  imports Model_Types Byte_Codec
begin

text \<open>
  The inference state of a session (\<open>InferenceState\<close>, \<open>init_inference_state\<close> in \<open>infer.cpp\<close>) and the session
  cache that keeps it in memory and spills it to disk (\<open>SessionKVCache.hpp\<close>, \<open>SessionKVCache.cpp\<close>): the DLKV
  file format, restoring it under the compatibility checks, and least-recently-used eviction.

  An access outside a vector is the error \<open>OutOfBounds\<close>. The disk is a map from paths to bytes; \<open>can_open\<close>
  says which paths can be opened for writing (writes to an open file succeed). A session entry counts the
  \<open>shared_ptr\<close>s held outside the map. The eviction loop runs with fuel, \<open>None\<close> meaning that it has not ended.
\<close>

unbundle bit_operations_syntax

section \<open>Inference state\<close>

record inference_state =
  st_x :: "f32 list"
  st_k_cache :: "f32 list list"
  st_v_cache :: "f32 list list"
  st_inv_freq :: "f32 list"
  st_current_pos :: int

definition new_inference_state :: inference_state where
  "new_inference_state = \<lparr>st_x = [], st_k_cache = [], st_v_cache = [], st_inv_freq = [], st_current_pos = 0\<rparr>"

text \<open>\<open>v.resize(n, d)\<close>.\<close>

definition vec_resize :: "nat \<Rightarrow> 'a \<Rightarrow> 'a list \<Rightarrow> 'a list" where
  "vec_resize n d xs = take n xs @ replicate (n - length xs) d"

text \<open>\<open>max_context * config.num_kv_heads * config.head_dim\<close> is unsigned 32-bit arithmetic.\<close>

definition kv_row_len :: "model_config \<Rightarrow> int \<Rightarrow> nat" where
  "kv_row_len cfg max_context = unat (word_of_int max_context * num_kv_heads cfg * head_dim cfg)"

definition rope_base_for :: "float_ops \<Rightarrow> model_config \<Rightarrow> int \<Rightarrow> f32" where
  "rope_base_for F cfg max_context =
     (let base = (if f_less F f_zero (rope_base (rope cfg)) then rope_base (rope cfg) else f_10000);
          hd = uint (head_dim cfg)
      in if max_context > 8192 \<and> head_dim cfg > 2
         then f_mul F base (f_pow F (f_div F (f_of_int F max_context) f_8192)
                                    (f_div F (f_of_int F hd) (f_of_int F (hd - 2))))
         else base)"

definition inv_freq_at :: "float_ops \<Rightarrow> model_config \<Rightarrow> int \<Rightarrow> nat \<Rightarrow> f32" where
  "inv_freq_at F cfg max_context j =
     f_div F f_one (f_pow F (rope_base_for F cfg max_context)
                           (f_div F (f_of_int F (2 * int j)) (f_of_int F (uint (head_dim cfg)))))"

text \<open>The frequency loop runs over even \<open>i < (int)head_dim\<close> and writes \<open>inv_freq[i / 2]\<close>.\<close>

definition init_inference_state ::
  "float_ops \<Rightarrow> model_config \<Rightarrow> int \<Rightarrow> inference_state \<Rightarrow> mem_error + inference_state" where
  "init_inference_state F cfg max_context st =
     (let row = replicate (kv_row_len cfg max_context) f_zero;
          half = unat (head_dim cfg) div 2;
          rounds = (nat (sint (head_dim cfg)) + 1) div 2;
          freq = vec_resize half f_zero (st_inv_freq st)
      in if half < rounds then Inl OutOfBounds
         else Inr (st\<lparr>st_x := vec_resize (unat (embedding_length cfg)) f_zero (st_x st), st_current_pos := 0,
                     st_k_cache := vec_resize (unat (num_layers cfg)) row (st_k_cache st),
                     st_v_cache := vec_resize (unat (num_layers cfg)) row (st_v_cache st),
                     st_inv_freq := map (inv_freq_at F cfg max_context) [0..<rounds] @ drop rounds freq\<rparr>))"

section \<open>Session state\<close>

record session_kv =
  sk_state :: inference_state
  sk_cached_tokens :: "int list"
  sk_max_context :: int
  sk_num_kv_heads :: int
  sk_head_dim :: int
  sk_model_hash :: u32
  sk_model_identity :: string
  sk_tokenizer_identity :: string
  sk_initialized :: bool
  sk_last_accessed :: int
  sk_in_use :: bool

definition new_session :: session_kv where
  "new_session = \<lparr>sk_state = new_inference_state, sk_cached_tokens = [], sk_max_context = 0, sk_num_kv_heads = 0,
     sk_head_dim = 0, sk_model_hash = 0, sk_model_identity = [], sk_tokenizer_identity = [], sk_initialized = False,
     sk_last_accessed = 0, sk_in_use = False\<rparr>"

text \<open>\<open>compute_model_hash\<close>: FNV-1a over the architecture name and six shape fields.\<close>

definition hash_byte :: "u32 \<Rightarrow> u32 \<Rightarrow> u32" where
  "hash_byte b hash = (hash XOR b) * 16777619"

definition hash_str :: "string \<Rightarrow> u32 \<Rightarrow> u32" where
  "hash_str s hash = fold (\<lambda>c. hash_byte (ucast (byte_of_char c))) s hash"

definition hash_u32 :: "u32 \<Rightarrow> u32 \<Rightarrow> u32" where
  "hash_u32 v hash = fold (\<lambda>i. hash_byte (drop_bit (8 * i) v AND 0xFF)) [0..<4] hash"

definition compute_model_hash :: "model_config \<Rightarrow> u32" where
  "compute_model_hash cfg =
     (let h0 = hash_str (architecture cfg) 2166136261
      in fold hash_u32 [vocab_size cfg, num_layers cfg, num_heads cfg, num_kv_heads cfg, head_dim cfg, intermediate_dim cfg] h0)"

section \<open>The DLKV file format\<close>

definition DLKV_MAGIC :: u32 where "DLKV_MAGIC = 0x444C4B56"

definition enc_ident :: "string \<Rightarrow> u8 list" where
  "enc_ident s = enc_u32 (word_of_nat (length s)) @ map byte_of_char s"

text \<open>\<open>active_floats * sizeof(float)\<close>, in scalars; the products are taken in \<open>size_t\<close>.\<close>

definition active_items :: "int \<Rightarrow> int \<Rightarrow> int \<Rightarrow> nat" where
  "active_items cur_pos kv_heads hdim =
     unat (word_of_int cur_pos * word_of_int kv_heads * word_of_int hdim * 4 :: size_t) div 4"

definition enc_floats :: "f32 list \<Rightarrow> u8 list" where
  "enc_floats xs = concat (map enc_u32 xs)"

fun save_rows :: "nat \<Rightarrow> f32 list list \<Rightarrow> f32 list list \<Rightarrow> mem_error + u8 list" where
  "save_rows n [] vs = Inr []"
| "save_rows n (k # ks) [] = Inl OutOfBounds"
| "save_rows n (k # ks) (v # vs) =
     (if length k < n \<or> length v < n then Inl OutOfBounds
      else case save_rows n ks vs of Inl e \<Rightarrow> Inl e
           | Inr bs \<Rightarrow> Inr (enc_floats (take n k) @ enc_floats (take n v) @ bs))"

definition saved_kv_heads :: "session_kv \<Rightarrow> int" where
  "saved_kv_heads s = (if sk_num_kv_heads s > 0 then sk_num_kv_heads s else 2)"

definition saved_head_dim :: "session_kv \<Rightarrow> int" where
  "saved_head_dim s = (if sk_head_dim s > 0 then sk_head_dim s else 128)"

definition save_header :: "session_kv \<Rightarrow> u8 list" where
  "save_header s =
     enc_u32 DLKV_MAGIC @ enc_u32 3 @ enc_u32 (sk_model_hash s) @
     enc_ident (sk_model_identity s) @ enc_ident (sk_tokenizer_identity s) @
     enc_i32 (int (length (st_k_cache (sk_state s)))) @ enc_i32 (saved_kv_heads s) @ enc_i32 (saved_head_dim s) @
     enc_i32 (sk_max_context s) @ enc_i32 (st_current_pos (sk_state s))"

definition save_bytes :: "session_kv \<Rightarrow> mem_error + u8 list" where
  "save_bytes s =
     (case save_rows (active_items (st_current_pos (sk_state s)) (saved_kv_heads s) (saved_head_dim s))
             (st_k_cache (sk_state s)) (st_v_cache (sk_state s)) of
        Inl e \<Rightarrow> Inl e
      | Inr rows \<Rightarrow>
          Inr (save_header s @ enc_u32 (word_of_nat (length (sk_cached_tokens s))) @
               concat (map enc_i32 (sk_cached_tokens s)) @ rows))"

section \<open>Restoring a session file\<close>

definition rd_ident :: "istream \<Rightarrow> string \<times> istream" where
  "rd_ident s0 =
     (let (len, s1) = rd_u32 s0
      in if 0 < len \<and> len < 4096
         then let (b, s2) = in_read (unat len) (replicate (unat len) 0) s1 in (map char_of_byte b, s2)
         else ([], s1))"

record dlkv_header =
  dh_hash :: u32
  dh_model_id :: string
  dh_tok_id :: string
  dh_layers :: int
  dh_kv_heads :: int
  dh_head_dim :: int
  dh_max_ctx :: int
  dh_cur_pos :: int

definition rd_header :: "u32 \<Rightarrow> istream \<Rightarrow> dlkv_header \<times> istream" where
  "rd_header version s0 =
     (let (hash, s1) = (if version \<ge> 2 then rd_u32 s0 else (0, s0));
          (mi, s2) = (if version \<ge> 3 then rd_ident s1 else ([], s1));
          (ti, s3) = (if version \<ge> 3 then rd_ident s2 else ([], s2));
          (nl, s4) = rd_i32 s3; (kh, s5) = rd_i32 s4; (hd, s6) = rd_i32 s5; (mc, s7) = rd_i32 s6; (cp, s8) = rd_i32 s7
      in (\<lparr>dh_hash = hash, dh_model_id = mi, dh_tok_id = ti, dh_layers = nl, dh_kv_heads = kh, dh_head_dim = hd,
           dh_max_ctx = mc, dh_cur_pos = cp\<rparr>, s8))"

text \<open>The three reasons to discard a file: its shape, its model hash, its model identity.\<close>

definition dlkv_compatible :: "model_config \<Rightarrow> u32 \<Rightarrow> dlkv_header \<Rightarrow> bool" where
  "dlkv_compatible cfg version h \<longleftrightarrow>
     dh_layers h = sint (num_layers cfg) \<and> dh_kv_heads h = sint (num_kv_heads cfg) \<and> dh_head_dim h = sint (head_dim cfg) \<and>
     \<not> (version \<ge> 2 \<and> dh_hash h \<noteq> compute_model_hash cfg) \<and>
     \<not> (version \<ge> 3 \<and> model_id cfg \<noteq> [] \<and> dh_model_id h \<noteq> model_id cfg)"

text \<open>\<open>in.read(row.data(), n * sizeof(float))\<close>: an overrun if more bytes arrive than the row has.\<close>

definition read_row :: "nat \<Rightarrow> f32 list \<Rightarrow> istream \<Rightarrow> mem_error + f32 list \<times> istream" where
  "read_row n row s =
     (let arriving = (if snd s then min (4 * n) (length (fst s)) else 0)
      in if arriving > 4 * length row then Inl OutOfBounds
         else let (b, s') = in_read (4 * n) (enc_floats row) s
              in Inr (dec_array 4 dec_u32 (length row) b, s'))"

fun read_rows :: "nat \<Rightarrow> nat \<Rightarrow> f32 list list \<Rightarrow> f32 list list \<Rightarrow> istream \<Rightarrow> mem_error + (f32 list list \<times> f32 list list)" where
  "read_rows 0 n ks vs s = Inr (ks, vs)"
| "read_rows (Suc l) n (k # ks) (v # vs) s =
     (case read_row n k s of Inl e \<Rightarrow> Inl e
      | Inr (k', s1) \<Rightarrow>
          (case read_row n v s1 of Inl e \<Rightarrow> Inl e
           | Inr (v', s2) \<Rightarrow>
               (case read_rows l n ks vs s2 of Inl e \<Rightarrow> Inl e
                | Inr (ks', vs') \<Rightarrow> Inr (k' # ks', v' # vs'))))"
| "read_rows (Suc l) n ks vs s = Inl OutOfBounds"

definition rd_tokens :: "istream \<Rightarrow> int list \<times> istream" where
  "rd_tokens s0 =
     (let (cnt, s1) = rd_u32 s0;
          (b, s2) = in_read (4 * unat cnt) (replicate (4 * unat cnt) 0) s1
      in (dec_array 4 dec_i32 (unat cnt) b, s2))"

definition restore_session :: "float_ops \<Rightarrow> model_config \<Rightarrow> u8 list \<Rightarrow> session_kv \<Rightarrow> mem_error + session_kv" where
  "restore_session F cfg bytes new_state =
     (let (magic, s1) = rd_u32 (bytes, True);
          (version, s2) = rd_u32 s1
      in if magic = DLKV_MAGIC \<and> 1 \<le> version \<and> version \<le> 3
         then
           let (h, s3) = rd_header version s2
           in if \<not> dlkv_compatible cfg version h then Inr new_state
              else
                let (toks, s4) = rd_tokens s3
                in case init_inference_state F cfg (dh_max_ctx h) (sk_state new_state) of
                     Inl e \<Rightarrow> Inl e
                   | Inr st \<Rightarrow>
                       (case read_rows (nat (dh_layers h)) (active_items (dh_cur_pos h) (dh_kv_heads h) (dh_head_dim h))
                               (st_k_cache st) (st_v_cache st) s4 of
                          Inl e \<Rightarrow> Inl e
                        | Inr (ks, vs) \<Rightarrow>
                            Inr (new_state\<lparr>sk_cached_tokens := toks,
                                   sk_state := st\<lparr>st_current_pos := dh_cur_pos h, st_k_cache := ks, st_v_cache := vs\<rparr>,
                                   sk_max_context := dh_max_ctx h, sk_num_kv_heads := dh_kv_heads h,
                                   sk_head_dim := dh_head_dim h, sk_initialized := True\<rparr>))
         else Inr new_state)"

section \<open>The cache manager\<close>

record kv_entry =
  ke_session :: session_kv
  ke_handles :: nat

record kv_manager =
  km_cache_dir :: string
  km_max_active :: size_t
  km_sessions :: "(string, kv_entry) omap"
  km_disk :: "string \<Rightarrow> u8 list option"

definition kv_path :: "kv_manager \<Rightarrow> string \<Rightarrow> string" where
  "kv_path m sid = km_cache_dir m @ ''/'' @ sid @ ''.kv''"

definition save_to_disk_internal ::
  "(string \<Rightarrow> bool) \<Rightarrow> string \<Rightarrow> session_kv \<Rightarrow> kv_manager \<Rightarrow> mem_error + bool \<times> kv_manager" where
  "save_to_disk_internal can_open sid s m =
     (if \<not> sk_initialized s then Inr (False, m)
      else if \<not> can_open (kv_path m sid) then Inr (False, m)
      else case save_bytes s of Inl e \<Rightarrow> Inl e
           | Inr bs \<Rightarrow> Inr (True, m\<lparr>km_disk := (km_disk m)(kv_path m sid \<mapsto> bs)\<rparr>))"

fun pick_oldest :: "string option \<Rightarrow> int \<Rightarrow> (string \<times> kv_entry) list \<Rightarrow> string option" where
  "pick_oldest oldest oldest_time [] = oldest"
| "pick_oldest oldest oldest_time ((sid, e) # es) =
     (if (ke_handles e = 0 \<and> \<not> sk_in_use (ke_session e) \<or> oldest = None) \<and> sk_last_accessed (ke_session e) < oldest_time
      then pick_oldest (Some sid) (sk_last_accessed (ke_session e)) es
      else pick_oldest oldest oldest_time es)"

definition INT64_MAX :: int where "INT64_MAX = 9223372036854775807"

definition evict_oldest_session_locked :: "(string \<Rightarrow> bool) \<Rightarrow> kv_manager \<Rightarrow> mem_error + kv_manager" where
  "evict_oldest_session_locked can_open m =
     (case pick_oldest None INT64_MAX (km_sessions m) of
        None \<Rightarrow> Inr m
      | Some sid \<Rightarrow>
          (case map_of (km_sessions m) sid of
             None \<Rightarrow> Inr m
           | Some e \<Rightarrow>
               (case save_to_disk_internal can_open sid (ke_session e) m of
                  Inl err \<Rightarrow> Inl err
                | Inr (_, m') \<Rightarrow> Inr (m'\<lparr>km_sessions := om_erase sid (km_sessions m')\<rparr>))))"

text \<open>The eviction loop threads the error; its size is the number of sessions in memory.\<close>

definition evict_or_error :: "(string \<Rightarrow> bool) \<Rightarrow> mem_error + kv_manager \<Rightarrow> mem_error + kv_manager" where
  "evict_or_error can_open r = (case r of Inl e \<Rightarrow> Inl e | Inr m \<Rightarrow> evict_oldest_session_locked can_open m)"

definition active_count :: "mem_error + kv_manager \<Rightarrow> nat" where
  "active_count r = (case r of Inl e \<Rightarrow> 0 | Inr m \<Rightarrow> length (km_sessions m))"

definition fresh_session :: "model_config option \<Rightarrow> int \<Rightarrow> session_kv" where
  "fresh_session config now =
     (case config of None \<Rightarrow> new_session\<lparr>sk_last_accessed := now\<rparr>
      | Some cfg \<Rightarrow> new_session\<lparr>sk_last_accessed := now, sk_num_kv_heads := sint (num_kv_heads cfg),
                       sk_head_dim := sint (head_dim cfg), sk_model_hash := compute_model_hash cfg,
                       sk_model_identity := model_id cfg\<rparr>)"

definition create_session ::
  "float_ops \<Rightarrow> int \<Rightarrow> string \<Rightarrow> model_config option \<Rightarrow> kv_manager \<Rightarrow> mem_error + session_kv \<times> kv_manager" where
  "create_session F now sid config m =
     (let new_state = fresh_session config now;
          restored = (case config of None \<Rightarrow> Inr new_state
                      | Some cfg \<Rightarrow> (case km_disk m (kv_path m sid) of None \<Rightarrow> Inr new_state
                                     | Some bytes \<Rightarrow> restore_session F cfg bytes new_state))
      in case restored of Inl e \<Rightarrow> Inl e
         | Inr s \<Rightarrow> Inr (s, m\<lparr>km_sessions := om_put sid \<lparr>ke_session = s, ke_handles = 1\<rparr> (km_sessions m)\<rparr>))"

definition get_or_create ::
  "nat \<Rightarrow> float_ops \<Rightarrow> (string \<Rightarrow> bool) \<Rightarrow> int \<Rightarrow> string \<Rightarrow> model_config option \<Rightarrow> kv_manager \<Rightarrow>
   (mem_error + session_kv \<times> kv_manager) option" where
  "get_or_create fuel F can_open now sid config m =
     (if sid = [] then Some (Inr (new_session, m))
      else case map_of (km_sessions m) sid of
             Some e \<Rightarrow>
               let s = (ke_session e)\<lparr>sk_last_accessed := now\<rparr>
               in Some (Inr (s, m\<lparr>km_sessions := om_put sid \<lparr>ke_session = s, ke_handles = Suc (ke_handles e)\<rparr> (km_sessions m)\<rparr>))
           | None \<Rightarrow>
               (case evict_loop active_count (evict_or_error can_open) fuel (unat (km_max_active m)) (Inr m) of
                  None \<Rightarrow> None
                | Some (Inl e) \<Rightarrow> Some (Inl e)
                | Some (Inr m') \<Rightarrow> Some (create_session F now sid config m')))"

definition save_to_disk :: "(string \<Rightarrow> bool) \<Rightarrow> string \<Rightarrow> kv_manager \<Rightarrow> mem_error + bool \<times> kv_manager" where
  "save_to_disk can_open sid m =
     (if sid = [] then Inr (False, m)
      else case map_of (km_sessions m) sid of None \<Rightarrow> Inr (False, m)
           | Some e \<Rightarrow> save_to_disk_internal can_open sid (ke_session e) m)"

definition load_from_disk ::
  "nat \<Rightarrow> float_ops \<Rightarrow> (string \<Rightarrow> bool) \<Rightarrow> int \<Rightarrow> string \<Rightarrow> model_config \<Rightarrow> kv_manager \<Rightarrow> (mem_error + bool \<times> kv_manager) option" where
  "load_from_disk fuel F can_open now sid cfg m =
     map_option (map_sum (\<lambda>e. e) (\<lambda>(s, m'). (sk_initialized s, m'))) (get_or_create fuel F can_open now sid (Some cfg) m)"

definition kv_evict :: "(string \<Rightarrow> bool) \<Rightarrow> string \<Rightarrow> bool \<Rightarrow> kv_manager \<Rightarrow> mem_error + kv_manager" where
  "kv_evict can_open sid persist m =
     (if sid = [] then Inr m
      else case map_of (km_sessions m) sid of None \<Rightarrow> Inr m
           | Some e \<Rightarrow>
               (case (if persist then save_to_disk_internal can_open sid (ke_session e) m else Inr (False, m)) of
                  Inl err \<Rightarrow> Inl err
                | Inr (_, m') \<Rightarrow> Inr (m'\<lparr>km_sessions := om_erase sid (km_sessions m')\<rparr>)))"

definition clear_all :: "kv_manager \<Rightarrow> kv_manager" where
  "clear_all m = m\<lparr>km_sessions := []\<rparr>"

section \<open>Round trip of a session file\<close>

lemma unat_word_of_int_u32: "0 \<le> z \<Longrightarrow> z < 2 ^ 32 \<Longrightarrow> unat (word_of_int z :: u32) = nat z"
  by (simp add: unsigned_of_int take_bit_int_eq_self)

lemma unat_word_of_int_u64: "0 \<le> z \<Longrightarrow> z < 2 ^ 64 \<Longrightarrow> unat (word_of_int z :: u64) = nat z"
  by (simp add: unsigned_of_int take_bit_int_eq_self)

lemma uint_nonneg_sint: "0 \<le> sint (w :: u32) \<Longrightarrow> uint w = sint w"
  using sint_less [of w] by (simp add: uint_sint take_bit_int_eq_self)

lemma kv_row_len_eq:
  assumes "0 \<le> m * sint (num_kv_heads cfg) * sint (head_dim cfg)" and "m * sint (num_kv_heads cfg) * sint (head_dim cfg) < 2 ^ 32"
  shows "kv_row_len cfg m = nat (m * sint (num_kv_heads cfg) * sint (head_dim cfg))"
proof -
  have "word_of_int m * num_kv_heads cfg * head_dim cfg = word_of_int (m * sint (num_kv_heads cfg) * sint (head_dim cfg))"
    by simp
  then show ?thesis unfolding kv_row_len_def using unat_word_of_int_u32 [OF assms] by metis
qed

lemma unat_times4: "0 \<le> z \<Longrightarrow> z < 2 ^ 32 \<Longrightarrow> unat (word_of_int (z * 4) :: u64) div 4 = nat z"
  by (subst unat_word_of_int_u64) (auto simp: nat_mult_distrib)

lemma active_items_eq:
  assumes "0 \<le> p * a * b" and "p * a * b < 2 ^ 32"
  shows "active_items p a b = nat (p * a * b)"
proof -
  have "word_of_int p * word_of_int a * word_of_int b * 4 = (word_of_int (p * a * b * 4) :: size_t)" by simp
  then show ?thesis unfolding active_items_def using unat_times4 [OF assms] by metis
qed

lemma rd_ident_enc: "length s < 4096 \<Longrightarrow> rd_ident (enc_ident s @ rest, True) = (s, (rest, True))"
proof -
  assume len: "length s < 4096"
  then have u: "unat (word_of_nat (length s) :: u32) = length s" by (simp add: unat_of_nat)
  have lt: "(word_of_nat (length s) :: u32) < 4096" using len u by (simp add: word_less_nat_alt)
  show ?thesis
  proof (cases "s = []")
    case False
    then have "0 < (word_of_nat (length s) :: u32)" using u by (simp add: word_less_nat_alt)
    with u lt show ?thesis
      by (simp add: rd_ident_def enc_ident_def in_read_enough [of "map byte_of_char s"])
  qed (simp add: rd_ident_def enc_ident_def)
qed

lemma rd_header_save:
  assumes "length (sk_model_identity s) < 4096" "length (sk_tokenizer_identity s) < 4096"
    and "i32_ok (int (length (st_k_cache (sk_state s))))" "i32_ok (saved_kv_heads s)" "i32_ok (saved_head_dim s)"
    and "i32_ok (sk_max_context s)" "i32_ok (st_current_pos (sk_state s))"
  shows "\<exists>t. save_header s @ rest = enc_u32 DLKV_MAGIC @ enc_u32 3 @ t \<and>
    rd_header 3 (t, True) =
      (\<lparr>dh_hash = sk_model_hash s, dh_model_id = sk_model_identity s, dh_tok_id = sk_tokenizer_identity s,
        dh_layers = int (length (st_k_cache (sk_state s))), dh_kv_heads = saved_kv_heads s, dh_head_dim = saved_head_dim s,
        dh_max_ctx = sk_max_context s, dh_cur_pos = st_current_pos (sk_state s)\<rparr>, (rest, True))"
  by (rule exI [of _ "drop 8 (save_header s) @ rest"])
     (use assms in \<open>simp add: save_header_def rd_header_def rd_ident_enc u32c.enc_length Let_def\<close>)

lemma rd_tokens_enc:
  assumes "list_all i32_ok toks" and "length toks < 2 ^ 32"
  shows "rd_tokens (enc_u32 (word_of_nat (length toks)) @ concat (map enc_i32 toks) @ rest, True) = (toks, (rest, True))"
proof -
  have u: "unat (word_of_nat (length toks) :: u32) = length toks" using assms(2) by (simp add: unat_of_nat)
  have "in_read (4 * length toks) (replicate (4 * length toks) 0) (concat (map enc_i32 toks) @ rest, True) =
          (concat (map enc_i32 toks), (rest, True))"
    using i32c.length_enc_array by (simp add: in_read_enough)
  then show ?thesis using u i32c.dec_array_enc [OF assms(1), of "[]"] by (simp add: rd_tokens_def Let_def)
qed

lemma read_row_enc:
  assumes "length row = len" "length k = len" "n \<le> len"
  shows "read_row n row (enc_floats (take n k) @ rest, True) = Inr (take n k @ drop n row, (rest, True))"
proof -
  have le: "length (take n k) = n" using assms by simp
  have rd: "in_read (4 * n) (enc_floats row) (enc_floats (take n k) @ rest, True) = (enc_floats (take n k @ drop n row), (rest, True))"
    using u32c.read_array [of "take n k" row rest] assms le by (simp add: enc_floats_def list_all_iff)
  have "dec_array 4 dec_u32 (length row) (enc_floats (take n k @ drop n row)) = take n k @ drop n row"
    using u32c.dec_array_enc [of "take n k @ drop n row" "[]"] assms le by (simp add: enc_floats_def list_all_iff)
  with rd le assms show ?thesis
    by (simp add: read_row_def Let_def u32c.length_enc_array enc_floats_def)
qed

lemma read_save_rows:
  assumes "list_all (\<lambda>r. length r = len) ks" "list_all (\<lambda>r. length r = len) vs" "length vs = length ks" "n \<le> len"
  shows "\<exists>bs. save_rows n ks vs = Inr bs \<and>
    read_rows (length ks) n (replicate (length ks) (replicate len 0)) (replicate (length ks) (replicate len 0)) (bs, True) =
      Inr (map (\<lambda>r. take n r @ replicate (len - n) 0) ks, map (\<lambda>r. take n r @ replicate (len - n) 0) vs)"
  using assms
proof (induction ks arbitrary: vs)
  case (Cons k ks)
  then obtain v vs' where vs: "vs = v # vs'" by (cases vs) auto
  with Cons.prems have l: "length k = len" "length v = len" by auto
  obtain bs where bs: "save_rows n ks vs' = Inr bs"
    "read_rows (length ks) n (replicate (length ks) (replicate len 0)) (replicate (length ks) (replicate len 0)) (bs, True) =
      Inr (map (\<lambda>r. take n r @ replicate (len - n) 0) ks, map (\<lambda>r. take n r @ replicate (len - n) 0) vs')"
    using Cons.IH [of vs'] Cons.prems vs by auto
  have "save_rows n (k # ks) vs = Inr (enc_floats (take n k) @ enc_floats (take n v) @ bs)"
    using bs vs l Cons.prems(4) by simp
  then show ?case
    using bs(2) vs l Cons.prems(4)
    by (simp add: read_row_enc [where len = len] del: save_rows.simps)
qed simp

text \<open>A session as the inference loop leaves it: shaped by its model's configuration, 32-bit counters.\<close>

definition session_ok :: "model_config \<Rightarrow> session_kv \<Rightarrow> bool" where
  "session_ok cfg s \<longleftrightarrow> sk_initialized s \<and> sk_model_hash s = compute_model_hash cfg \<and> sk_model_identity s = model_id cfg \<and>
     length (model_id cfg) < 4096 \<and> length (sk_tokenizer_identity s) < 4096 \<and>
     0 \<le> sint (num_layers cfg) \<and> length (st_k_cache (sk_state s)) = unat (num_layers cfg) \<and>
     length (st_v_cache (sk_state s)) = unat (num_layers cfg) \<and>
     list_all (\<lambda>r. length r = kv_row_len cfg (sk_max_context s)) (st_k_cache (sk_state s)) \<and>
     list_all (\<lambda>r. length r = kv_row_len cfg (sk_max_context s)) (st_v_cache (sk_state s)) \<and>
     sk_num_kv_heads s = sint (num_kv_heads cfg) \<and> sk_head_dim s = sint (head_dim cfg) \<and>
     0 < sk_num_kv_heads s \<and> 0 < sk_head_dim s \<and> even (sk_head_dim s) \<and>
     0 \<le> st_current_pos (sk_state s) \<and> st_current_pos (sk_state s) \<le> sk_max_context s \<and> i32_ok (sk_max_context s) \<and>
     sk_max_context s * sk_num_kv_heads s * sk_head_dim s < 2 ^ 32 \<and>
     list_all i32_ok (sk_cached_tokens s) \<and> length (sk_cached_tokens s) < 2 ^ 32"

definition active_of :: "session_kv \<Rightarrow> nat" where
  "active_of s = nat (st_current_pos (sk_state s) * sk_num_kv_heads s * sk_head_dim s)"

lemma i32_ok_sint: "i32_ok (sint (w :: u32))"
  using sint_greater_eq [of w] sint_less [of w] by (simp add: i32_ok_def)

lemma session_ok_sizes:
  assumes "session_ok cfg s"
  shows "active_items (st_current_pos (sk_state s)) (saved_kv_heads s) (saved_head_dim s) = active_of s"
    and "active_of s \<le> kv_row_len cfg (sk_max_context s)"
proof -
  let ?p = "st_current_pos (sk_state s)" and ?m = "sk_max_context s" and ?a = "sk_num_kv_heads s" and ?b = "sk_head_dim s"
  have o: "0 \<le> ?p" "?p \<le> ?m" "0 < ?a" "0 < ?b" "?m * ?a * ?b < 2 ^ 32" "?a = sint (num_kv_heads cfg)" "?b = sint (head_dim cfg)"
    using assms by (auto simp: session_ok_def)
  have le: "?p * ?a * ?b \<le> ?m * ?a * ?b" using o by (simp add: mult_right_mono)
  have nn: "0 \<le> ?p * ?a * ?b" using o by simp
  have lt: "?p * ?a * ?b < 2 ^ 32" using le o(5) by (rule le_less_trans)
  show "active_items ?p (saved_kv_heads s) (saved_head_dim s) = active_of s"
    using active_items_eq [OF nn lt] o by (simp add: saved_kv_heads_def saved_head_dim_def active_of_def)
  have "kv_row_len cfg ?m = nat (?m * ?a * ?b)" using kv_row_len_eq [of ?m cfg] o by simp
  then show "active_of s \<le> kv_row_len cfg ?m" using le by (simp add: active_of_def nat_mono)
qed

lemma init_new_state:
  assumes "0 < sint (head_dim cfg)" and "even (sint (head_dim cfg))"
  shows "\<exists>st. init_inference_state F cfg m new_inference_state = Inr st \<and>
    st_k_cache st = replicate (unat (num_layers cfg)) (replicate (kv_row_len cfg m) 0) \<and>
    st_v_cache st = replicate (unat (num_layers cfg)) (replicate (kv_row_len cfg m) 0)"
proof -
  have "uint (head_dim cfg) = sint (head_dim cfg)" using assms(1) by (simp add: uint_nonneg_sint)
  then have u: "unat (head_dim cfg) = nat (sint (head_dim cfg))" by (simp flip: nat_uint_eq)
  have "(nat (sint (head_dim cfg)) + 1) div 2 = nat (sint (head_dim cfg)) div 2"
    using assms by (simp add: even_nat_iff)
  with u show ?thesis
    by (simp add: init_inference_state_def new_inference_state_def vec_resize_def f_zero_def Let_def)
qed

lemma restore_steps:
  assumes "rd_header 3 (t, True) = (h, s3)" "dlkv_compatible cfg 3 h" "rd_tokens s3 = (toks, s4)"
    and "init_inference_state F cfg (dh_max_ctx h) (sk_state new_state) = Inr st"
    and "read_rows (nat (dh_layers h)) (active_items (dh_cur_pos h) (dh_kv_heads h) (dh_head_dim h))
           (st_k_cache st) (st_v_cache st) s4 = Inr (ks, vs)"
  shows "restore_session F cfg (enc_u32 DLKV_MAGIC @ enc_u32 3 @ t) new_state =
    Inr (new_state\<lparr>sk_cached_tokens := toks, sk_state := st\<lparr>st_current_pos := dh_cur_pos h, st_k_cache := ks, st_v_cache := vs\<rparr>,
           sk_max_context := dh_max_ctx h, sk_num_kv_heads := dh_kv_heads h, sk_head_dim := dh_head_dim h,
           sk_initialized := True\<rparr>)"
  using assms by (simp add: restore_session_def)

definition header_of :: "session_kv \<Rightarrow> dlkv_header" where
  "header_of s = \<lparr>dh_hash = sk_model_hash s, dh_model_id = sk_model_identity s, dh_tok_id = sk_tokenizer_identity s,
     dh_layers = int (length (st_k_cache (sk_state s))), dh_kv_heads = saved_kv_heads s, dh_head_dim = saved_head_dim s,
     dh_max_ctx = sk_max_context s, dh_cur_pos = st_current_pos (sk_state s)\<rparr>"

lemma session_ok_shape:
  assumes "session_ok cfg s"
  shows "saved_kv_heads s = sint (num_kv_heads cfg)" "saved_head_dim s = sint (head_dim cfg)"
    "int (length (st_k_cache (sk_state s))) = sint (num_layers cfg)" "0 < sint (head_dim cfg)" "even (sint (head_dim cfg))"
    "length (st_k_cache (sk_state s)) = unat (num_layers cfg)"
proof -
  show "saved_kv_heads s = sint (num_kv_heads cfg)" "saved_head_dim s = sint (head_dim cfg)" "0 < sint (head_dim cfg)"
    "even (sint (head_dim cfg))" "length (st_k_cache (sk_state s)) = unat (num_layers cfg)"
    using assms by (auto simp: session_ok_def saved_kv_heads_def saved_head_dim_def)
  then show "int (length (st_k_cache (sk_state s))) = sint (num_layers cfg)"
    using assms by (simp add: session_ok_def flip: uint_nonneg_sint)
qed

lemma session_header:
  assumes "session_ok cfg s"
  shows "\<exists>t. save_header s @ rest = enc_u32 DLKV_MAGIC @ enc_u32 3 @ t \<and> rd_header 3 (t, True) = (header_of s, (rest, True))"
proof -
  have "i32_ok (st_current_pos (sk_state s))" "i32_ok (sk_max_context s)" "length (sk_model_identity s) < 4096"
    "length (sk_tokenizer_identity s) < 4096"
    using assms by (auto simp: session_ok_def i32_ok_def)
  then show ?thesis
    unfolding header_of_def using session_ok_shape [OF assms] by (intro rd_header_save) (simp_all add: i32_ok_sint)
qed

text \<open>What \<open>restore_session\<close> makes of a saved header and token list followed by any row bytes.\<close>

lemma restore_saved:
  assumes "session_ok cfg s"
    and "\<And>zero. zero = replicate (unat (num_layers cfg)) (replicate (kv_row_len cfg (sk_max_context s)) 0) \<Longrightarrow>
           read_rows (unat (num_layers cfg)) (active_of s) zero zero (tail, True) = Inr (ks, vs)"
  shows "\<exists>st. restore_session F cfg (save_header s @ enc_u32 (word_of_nat (length (sk_cached_tokens s))) @
        concat (map enc_i32 (sk_cached_tokens s)) @ tail) (fresh_session (Some cfg) now) =
      Inr ((fresh_session (Some cfg) now)\<lparr>sk_cached_tokens := sk_cached_tokens s,
             sk_state := st\<lparr>st_current_pos := st_current_pos (sk_state s), st_k_cache := ks, st_v_cache := vs\<rparr>,
             sk_max_context := sk_max_context s, sk_initialized := True\<rparr>)"
proof -
  let ?toks = "enc_u32 (word_of_nat (length (sk_cached_tokens s))) @ concat (map enc_i32 (sk_cached_tokens s)) @ tail"
  obtain t where t: "save_header s @ ?toks = enc_u32 DLKV_MAGIC @ enc_u32 3 @ t" "rd_header 3 (t, True) = (header_of s, (?toks, True))"
    using session_header [OF assms(1)] by blast
  have tk: "rd_tokens (?toks, True) = (sk_cached_tokens s, (tail, True))"
    using assms(1) by (intro rd_tokens_enc) (auto simp: session_ok_def)
  note sh = session_ok_shape [OF assms(1)]
  obtain st where st: "init_inference_state F cfg (sk_max_context s) new_inference_state = Inr st"
    "st_k_cache st = replicate (unat (num_layers cfg)) (replicate (kv_row_len cfg (sk_max_context s)) 0)" "st_v_cache st = st_k_cache st"
    using init_new_state [OF sh(4,5), of F "sk_max_context s"] by auto
  have "sk_state (fresh_session (Some cfg) now) = new_inference_state" by (simp add: fresh_session_def new_session_def)
  moreover have "dlkv_compatible cfg 3 (header_of s)"
    using sh assms(1) by (auto simp: dlkv_compatible_def session_ok_def header_of_def)
  moreover have "nat (dh_layers (header_of s)) = unat (num_layers cfg)" using sh(6) by (simp only: header_of_def dlkv_header.select_convs nat_int)
  ultimately have "restore_session F cfg (save_header s @ ?toks) (fresh_session (Some cfg) now) =
      Inr ((fresh_session (Some cfg) now)\<lparr>sk_cached_tokens := sk_cached_tokens s,
        sk_state := st\<lparr>st_current_pos := st_current_pos (sk_state s), st_k_cache := ks, st_v_cache := vs\<rparr>,
        sk_max_context := sk_max_context s, sk_num_kv_heads := saved_kv_heads s, sk_head_dim := saved_head_dim s, sk_initialized := True\<rparr>)"
    unfolding t(1)
    by (subst restore_steps [OF t(2) _ tk])
       (use st assms(2) [OF st(2)] session_ok_sizes(1) [OF assms(1)] in \<open>simp_all add: header_of_def\<close>)
  then show ?thesis using sh(1,2) by (auto simp: fresh_session_def new_session_def)
qed

text \<open>
  The keys and values of a session up to its position, zero behind it, at the same position.
\<close>

definition restored_state :: "session_kv \<Rightarrow> inference_state \<Rightarrow> bool" where
  "restored_state s st \<longleftrightarrow> st_current_pos st = st_current_pos (sk_state s) \<and>
    st_k_cache st = map (\<lambda>r. take (active_of s) r @ replicate (length r - active_of s) 0) (st_k_cache (sk_state s)) \<and>
    st_v_cache st = map (\<lambda>r. take (active_of s) r @ replicate (length r - active_of s) 0) (st_v_cache (sk_state s))"

lemma save_restore:
  assumes "session_ok cfg s"
  shows "\<exists>bytes st. save_bytes s = Inr bytes \<and>
    restore_session F cfg bytes (fresh_session (Some cfg) now) =
      Inr ((fresh_session (Some cfg) now)\<lparr>sk_cached_tokens := sk_cached_tokens s, sk_state := st,
             sk_max_context := sk_max_context s, sk_initialized := True\<rparr>) \<and>
    restored_state s st"
proof -
  let ?n = "active_of s" and ?len = "kv_row_len cfg (sk_max_context s)" and ?L = "length (st_k_cache (sk_state s))"
  let ?pad = "\<lambda>r. take ?n r @ replicate (length r - ?n) 0"
  have rl: "list_all (\<lambda>r. length r = ?len) (st_k_cache (sk_state s))" "list_all (\<lambda>r. length r = ?len) (st_v_cache (sk_state s))"
      "length (st_v_cache (sk_state s)) = ?L"
    using assms by (auto simp: session_ok_def)
  have pad: "map (\<lambda>r. take ?n r @ replicate (?len - ?n) 0) rs = map ?pad rs"
    if "list_all (\<lambda>r. length r = ?len) rs" for rs :: "f32 list list" using that by (induction rs) auto
  obtain rows where rows: "save_rows ?n (st_k_cache (sk_state s)) (st_v_cache (sk_state s)) = Inr rows"
    "read_rows ?L ?n (replicate ?L (replicate ?len 0)) (replicate ?L (replicate ?len 0)) (rows, True) =
      Inr (map ?pad (st_k_cache (sk_state s)), map ?pad (st_v_cache (sk_state s)))"
    using read_save_rows [OF rl session_ok_sizes(2) [OF assms]] pad [OF rl(1)] pad [OF rl(2)] by auto
  have "save_bytes s = Inr (save_header s @ enc_u32 (word_of_nat (length (sk_cached_tokens s))) @
      concat (map enc_i32 (sk_cached_tokens s)) @ rows)"
    using rows(1) by (simp add: save_bytes_def session_ok_sizes(1) [OF assms])
  moreover have "read_rows (unat (num_layers cfg)) ?n zero zero (rows, True) =
      Inr (map ?pad (st_k_cache (sk_state s)), map ?pad (st_v_cache (sk_state s)))"
    if "zero = replicate (unat (num_layers cfg)) (replicate ?len 0)" for zero
    using rows(2) that session_ok_shape(6) [OF assms] by simp
  from restore_saved [OF assms this, of F now] obtain st where
    "restore_session F cfg (save_header s @ enc_u32 (word_of_nat (length (sk_cached_tokens s))) @
        concat (map enc_i32 (sk_cached_tokens s)) @ rows) (fresh_session (Some cfg) now) =
      Inr ((fresh_session (Some cfg) now)\<lparr>sk_cached_tokens := sk_cached_tokens s,
             sk_state := st\<lparr>st_current_pos := st_current_pos (sk_state s), st_k_cache := map ?pad (st_k_cache (sk_state s)),
                st_v_cache := map ?pad (st_v_cache (sk_state s))\<rparr>,
             sk_max_context := sk_max_context s, sk_initialized := True\<rparr>)" by blast
  moreover have "restored_state s (st\<lparr>st_current_pos := st_current_pos (sk_state s), st_k_cache := map ?pad (st_k_cache (sk_state s)),
                st_v_cache := map ?pad (st_v_cache (sk_state s))\<rparr>)" for st :: inference_state
    by (simp add: restored_state_def)
  ultimately show ?thesis by blast
qed

section \<open>Spilling and restoring\<close>

lemma save_internal_ok:
  assumes "session_ok cfg s" and "can_open (kv_path m sid)"
  shows "\<exists>bs. save_bytes s = Inr bs \<and> save_to_disk_internal can_open sid s m = Inr (True, m\<lparr>km_disk := (km_disk m)(kv_path m sid \<mapsto> bs)\<rparr>)"
proof -
  obtain bs where "save_bytes s = Inr bs" using save_restore [OF assms(1)] by blast
  with assms show ?thesis by (auto simp: save_to_disk_internal_def session_ok_def)
qed

lemma kv_path_simps [simp]:
  "kv_path (m\<lparr>km_sessions := x\<rparr>) sid = kv_path m sid" "kv_path (m\<lparr>km_disk := d\<rparr>) sid = kv_path m sid"
  by (simp_all add: kv_path_def)

text \<open>
  C9. A session that is evicted with persistence and asked for again under the same model comes back: with its
  cached tokens, its position and context size, and in every layer the keys and values up to that position.
\<close>

theorem spilled_session_comes_back:
  assumes "om_wf (km_sessions m)" and "sid \<noteq> []" and "map_of (km_sessions m) sid = Some e" and "session_ok cfg (ke_session e)"
    and "can_open (kv_path m sid)" and "length (km_sessions m) \<le> unat (km_max_active m)"
  shows "\<exists>m1 s2 m2. kv_evict can_open sid True m = Inr m1 \<and> map_of (km_sessions m1) sid = None \<and>
    get_or_create fuel F can_open now sid (Some cfg) m1 = Some (Inr (s2, m2)) \<and>
    sk_initialized s2 \<and> sk_cached_tokens s2 = sk_cached_tokens (ke_session e) \<and>
    sk_max_context s2 = sk_max_context (ke_session e) \<and> restored_state (ke_session e) (sk_state s2)"
proof -
  let ?s = "ke_session e"
  obtain bs where bs: "save_bytes ?s = Inr bs"
    "save_to_disk_internal can_open sid ?s m = Inr (True, m\<lparr>km_disk := (km_disk m)(kv_path m sid \<mapsto> bs)\<rparr>)"
    using save_internal_ok [where can_open = can_open and m = m and sid = sid, OF assms(4,5)] by blast
  obtain st where st: "restore_session F cfg bs (fresh_session (Some cfg) now) =
      Inr ((fresh_session (Some cfg) now)\<lparr>sk_cached_tokens := sk_cached_tokens ?s, sk_state := st,
             sk_max_context := sk_max_context ?s, sk_initialized := True\<rparr>)" "restored_state ?s st"
    using save_restore [OF assms(4), of F now] bs(1) by auto
  define m1 where "m1 = m\<lparr>km_disk := (km_disk m)(kv_path m sid \<mapsto> bs), km_sessions := om_erase sid (km_sessions m)\<rparr>"
  have ev: "kv_evict can_open sid True m = Inr m1"
    using assms(2,3) bs(2) by (simp add: kv_evict_def m1_def)
  have "length (km_sessions m1) < unat (km_max_active m1)"
    using length_om_erase [OF assms(1), of sid] assms(3,6) by (cases "km_sessions m") (auto simp: m1_def)
  then have "evict_loop active_count (evict_or_error can_open) fuel (unat (km_max_active m1)) (Inr m1) = Some (Inr m1)"
    by (cases fuel) (auto simp: active_count_def)
  moreover have "km_disk m1 (kv_path m1 sid) = Some bs" "map_of (km_sessions m1) sid = None" by (auto simp: m1_def kv_path_def)
  ultimately show ?thesis using ev assms(2) st by (auto simp: get_or_create_def create_session_def Let_def)
qed

definition demo_cfg :: model_config where
  "demo_cfg = default_config\<lparr>architecture := ''qwen2'', model_id := ''q'', num_layers := 1, num_heads := 1, num_kv_heads := 1, head_dim := 2\<rparr>"

definition demo_session :: session_kv where
  "demo_session = (fresh_session (Some demo_cfg) 5)\<lparr>sk_cached_tokens := [7, 9], sk_max_context := 2, sk_initialized := True,
     sk_state := new_inference_state\<lparr>st_k_cache := [[1, 2, 3, 4]], st_v_cache := [[5, 6, 7, 8]], st_current_pos := 1\<rparr>\<rparr>"

definition demo_kv_manager :: kv_manager where
  "demo_kv_manager = \<lparr>km_cache_dir = ''/c'', km_max_active = 8, km_sessions = [(''a'', \<lparr>ke_session = demo_session, ke_handles = 0\<rparr>)], km_disk = (\<lambda>_. None)\<rparr>"

lemma demo_session_ok: "session_ok demo_cfg demo_session"
  by (simp add: session_ok_def demo_session_def demo_cfg_def fresh_session_def default_config_def new_session_def
      new_inference_state_def kv_row_len_def i32_ok_def)

theorem spilled_session_comes_back_witness:
  "\<exists>m1 s2 m2. kv_evict (\<lambda>_. True) ''a'' True demo_kv_manager = Inr m1 \<and>
     get_or_create 0 demo_floats (\<lambda>_. True) 9 ''a'' (Some demo_cfg) m1 = Some (Inr (s2, m2)) \<and> sk_cached_tokens s2 = [7, 9]"
proof -
  have "map_of (km_sessions demo_kv_manager) ''a'' = Some \<lparr>ke_session = demo_session, ke_handles = 0\<rparr>"
    by (simp add: demo_kv_manager_def)
  moreover have "om_wf (km_sessions demo_kv_manager)" by (simp add: demo_kv_manager_def om_wf_def)
  moreover have "length (km_sessions demo_kv_manager) \<le> unat (km_max_active demo_kv_manager)" by (simp add: demo_kv_manager_def)
  ultimately have "\<exists>m1 s2 m2. kv_evict (\<lambda>_. True) ''a'' True demo_kv_manager = Inr m1 \<and>
      get_or_create 0 demo_floats (\<lambda>_. True) 9 ''a'' (Some demo_cfg) m1 = Some (Inr (s2, m2)) \<and>
      sk_cached_tokens s2 = sk_cached_tokens demo_session"
    using spilled_session_comes_back [where e = "\<lparr>ke_session = demo_session, ke_handles = 0\<rparr>" and cfg = demo_cfg
        and m = demo_kv_manager and sid = "''a''" and can_open = "\<lambda>_. True" and fuel = 0 and F = demo_floats and now = 9] demo_session_ok
    by auto
  then show ?thesis by (simp add: demo_session_def)
qed

text \<open>
  A file written for another model is never loaded: when the hash of the shape differs, or the identity
  differs from a known one, restoring leaves the fresh session as it was.
\<close>

theorem foreign_cache_discarded:
  assumes "session_ok cfg' s" and "save_bytes s = Inr bytes"
    and "compute_model_hash cfg' \<noteq> compute_model_hash cfg \<or> model_id cfg \<noteq> [] \<and> model_id cfg' \<noteq> model_id cfg"
  shows "restore_session F cfg bytes new_state = Inr new_state"
proof -
  obtain rest where b: "bytes = save_header s @ rest"
    using assms(2) by (auto simp: save_bytes_def split: sum.splits)
  obtain t where t: "bytes = enc_u32 DLKV_MAGIC @ enc_u32 3 @ t" "rd_header 3 (t, True) = (header_of s, (rest, True))"
    using session_header [OF assms(1)] b by blast
  have "sk_model_hash s = compute_model_hash cfg'" "sk_model_identity s = model_id cfg'" using assms(1) by (auto simp: session_ok_def)
  with t assms(3) show ?thesis by (auto simp: restore_session_def dlkv_compatible_def header_of_def)
qed

theorem foreign_cache_discarded_witness:
  "\<exists>bytes. save_bytes demo_session = Inr bytes \<and>
     restore_session demo_floats (demo_cfg\<lparr>model_id := ''other''\<rparr>) bytes new_session = Inr new_session"
proof -
  obtain bytes where "save_bytes demo_session = Inr bytes" using save_restore [OF demo_session_ok] by blast
  moreover from foreign_cache_discarded [OF demo_session_ok this, of "demo_cfg\<lparr>model_id := ''other''\<rparr>" demo_floats new_session]
  have "restore_session demo_floats (demo_cfg\<lparr>model_id := ''other''\<rparr>) bytes new_session = Inr new_session" by (simp add: demo_cfg_def)
  ultimately show ?thesis by blast
qed

text \<open>Rows read from an exhausted stream are left as they were.\<close>

lemma read_row_empty: "\<exists>g'. read_row n row ([], g) = Inr (row, ([], g'))"
proof -
  have "dec_array 4 dec_u32 (length row) (enc_floats row) = row"
    using u32c.dec_array_enc [of row "[]"] by (simp add: enc_floats_def list_all_iff)
  then show ?thesis by (auto simp: read_row_def in_read_def)
qed

lemma read_rows_empty: "l \<le> length ks \<Longrightarrow> l \<le> length vs \<Longrightarrow> read_rows l n ks vs ([], g) = Inr (ks, vs)"
proof (induction l n ks vs "([], g) :: istream" arbitrary: g rule: read_rows.induct)
  case (2 l n k ks v vs)
  obtain g1 where 1: "read_row n k ([], g) = Inr (k, ([], g1))" using read_row_empty by blast
  obtain g2 where 2: "read_row n v ([], g1) = Inr (v, ([], g2))" using read_row_empty by blast
  from "2.hyps" [OF 1 _ 2] "2.prems" 1 2 show ?case by simp
qed auto

text \<open>
  A truncated file is accepted: when the file ends after the token list, the session is still marked as
  initialised at the saved position, with all keys and values zero, because the state of the input stream is
  never examined.
\<close>

theorem truncated_cache_accepted:
  assumes "session_ok cfg s"
  shows "\<exists>st. restore_session F cfg
        (save_header s @ enc_u32 (word_of_nat (length (sk_cached_tokens s))) @ concat (map enc_i32 (sk_cached_tokens s)))
        (fresh_session (Some cfg) now) = Inr st \<and>
      sk_initialized st \<and> sk_cached_tokens st = sk_cached_tokens s \<and> st_current_pos (sk_state st) = st_current_pos (sk_state s) \<and>
      st_k_cache (sk_state st) = replicate (unat (num_layers cfg)) (replicate (kv_row_len cfg (sk_max_context s)) 0)"
proof -
  let ?z = "replicate (unat (num_layers cfg)) (replicate (kv_row_len cfg (sk_max_context s)) 0)"
  have "read_rows (unat (num_layers cfg)) (active_of s) zero zero ([], True) = Inr (?z, ?z)" if "zero = ?z" for zero
    using that by (simp add: read_rows_empty)
  from restore_saved [OF assms this, of F now] show ?thesis by auto
qed

theorem truncated_cache_accepted_witness:
  "\<exists>st. restore_session demo_floats demo_cfg (save_header demo_session @ enc_u32 2 @ enc_i32 7 @ enc_i32 9) (fresh_session (Some demo_cfg) 1) = Inr st \<and>
     sk_initialized st \<and> st_k_cache (sk_state st) = [[0, 0, 0, 0]]"
proof -
  have "unat (num_layers demo_cfg) = 1" "kv_row_len demo_cfg (sk_max_context demo_session) = 4"
    by (simp_all add: demo_cfg_def demo_session_def kv_row_len_def default_config_def fresh_session_def new_session_def)
  moreover have "sk_cached_tokens demo_session = [7, 9]" by (simp add: demo_session_def)
  ultimately show ?thesis using truncated_cache_accepted [OF demo_session_ok, of demo_floats 1] by (auto simp: numeral_eq_Suc)
qed

section \<open>Eviction\<close>

lemma pick_oldest_in: "pick_oldest b t es = Some sid \<Longrightarrow> b = Some sid \<or> sid \<in> fst ` set es"
  by (induction b t es rule: pick_oldest.induct) (auto split: if_splits)

lemma pick_oldest_Some: "b \<noteq> None \<Longrightarrow> pick_oldest b t es \<noteq> None"
  by (induction b t es rule: pick_oldest.induct) auto

text \<open>A manager whose sessions can be saved and carry clock readings below the largest 64-bit integer.\<close>

definition kv_manager_ok :: "kv_manager \<Rightarrow> bool" where
  "kv_manager_ok m \<longleftrightarrow> om_wf (km_sessions m) \<and>
     (\<forall>(sid, e) \<in> set (km_sessions m). sk_last_accessed (ke_session e) < INT64_MAX \<and>
        (sk_initialized (ke_session e) \<longrightarrow> (\<exists>bs. save_bytes (ke_session e) = Inr bs)))"

definition kv_result_ok :: "mem_error + kv_manager \<Rightarrow> bool" where
  "kv_result_ok r = (case r of Inl e \<Rightarrow> False | Inr m \<Rightarrow> kv_manager_ok m)"

lemma save_internal_total:
  "(sk_initialized s \<longrightarrow> (\<exists>bs. save_bytes s = Inr bs)) \<Longrightarrow>
   \<exists>b d. save_to_disk_internal can_open sid s m = Inr (b, m\<lparr>km_disk := d\<rparr>)"
proof -
  assume "sk_initialized s \<longrightarrow> (\<exists>bs. save_bytes s = Inr bs)"
  moreover have "\<exists>d. m = m\<lparr>km_disk := d\<rparr>" by (rule exI [of _ "km_disk m"]) simp
  ultimately show ?thesis by (auto simp: save_to_disk_internal_def split: sum.splits)
qed

lemma evict_oldest_ok:
  assumes "kv_manager_ok m"
  shows "\<exists>m'. evict_oldest_session_locked can_open m = Inr m' \<and> kv_manager_ok m' \<and>
    length (km_sessions m') = length (km_sessions m) - 1 \<and> km_max_active m' = km_max_active m"
proof (cases "km_sessions m")
  case Nil
  then show ?thesis using assms by (simp add: evict_oldest_session_locked_def)
next
  case (Cons x es)
  obtain sid0 e0 where x: "x = (sid0, e0)" by (cases x)
  have "pick_oldest None INT64_MAX (km_sessions m) \<noteq> None"
    using assms Cons x by (simp add: kv_manager_ok_def pick_oldest_Some)
  then obtain sid where sid: "pick_oldest None INT64_MAX (km_sessions m) = Some sid" by blast
  have wf: "om_wf (km_sessions m)" using assms by (simp add: kv_manager_ok_def)
  obtain e where e: "map_of (km_sessions m) sid = Some e"
    using pick_oldest_in [OF sid] by (metis map_of_eq_None_iff option.distinct(1) option.exhaust)
  have "sk_initialized (ke_session e) \<longrightarrow> (\<exists>bs. save_bytes (ke_session e) = Inr bs)"
    using assms map_of_SomeD [OF e] by (auto simp: kv_manager_ok_def)
  then obtain b d where sv: "save_to_disk_internal can_open sid (ke_session e) m = Inr (b, m\<lparr>km_disk := d\<rparr>)"
    using save_internal_total by blast
  have "kv_manager_ok (m\<lparr>km_disk := d, km_sessions := om_erase sid (km_sessions m)\<rparr>)"
    using assms wf by (auto simp: kv_manager_ok_def om_erase_def om_wf_def[symmetric] dest: om_wf_erase)
  with sid e sv wf show ?thesis
    by (simp add: evict_oldest_session_locked_def length_om_erase)
qed

interpretation kv_store: eviction_store kv_result_ok active_count "evict_or_error can_open"
proof
  fix s
  have step: "\<exists>m m'. s = Inr m \<and> evict_or_error can_open s = Inr m' \<and> kv_manager_ok m' \<and> length (km_sessions m') = length (km_sessions m) - 1"
    if "kv_result_ok s" for s
  proof (cases s)
    case (Inr m)
    with that have "kv_manager_ok m" by (simp add: kv_result_ok_def)
    from evict_oldest_ok [OF this, of can_open] Inr show ?thesis by (auto simp: evict_or_error_def)
  qed (use that in \<open>simp add: kv_result_ok_def\<close>)
  show "kv_result_ok s \<Longrightarrow> kv_result_ok (evict_or_error can_open s)"
    by (drule step) (auto simp: kv_result_ok_def)
  show "kv_result_ok s \<Longrightarrow> 0 < active_count s \<Longrightarrow> active_count (evict_or_error can_open s) = active_count s - 1"
    by (drule step) (auto simp: active_count_def)
  show "active_count s = 0 \<Longrightarrow> evict_or_error can_open s = s"
    by (cases s) (auto simp: evict_or_error_def active_count_def evict_oldest_session_locked_def)
qed

text \<open>
  Asking for a session always returns when the limit on active sessions is positive, and the number of
  sessions in memory never exceeds that limit (the number of sessions is enough fuel for the loop).
\<close>

theorem kv_sessions_bounded:
  assumes "kv_manager_ok m" and "0 < km_max_active m" and "length (km_sessions m) \<le> unat (km_max_active m)"
  shows "\<exists>r. get_or_create (length (km_sessions m)) F can_open now sid config m = Some r \<and>
    (\<forall>s m'. r = Inr (s, m') \<longrightarrow> length (km_sessions m') \<le> unat (km_max_active m))"
proof (cases "sid = [] \<or> map_of (km_sessions m) sid \<noteq> None")
  case True
  have "om_wf (km_sessions m)" using assms(1) by (simp add: kv_manager_ok_def)
  with True assms(3) show ?thesis by (auto simp: get_or_create_def Let_def length_om_put)
next
  case False
  have lim: "0 < unat (km_max_active m)" using assms(2) by (simp add: word_less_nat_alt)
  obtain t where t: "evict_loop active_count (evict_or_error can_open) (length (km_sessions m)) (unat (km_max_active m)) (Inr m) = Some t"
    "kv_result_ok t" "active_count t = min (length (km_sessions m)) (unat (km_max_active m) - 1)"
    using kv_store.evict_loop_returns [of "Inr m" "unat (km_max_active m)" "length (km_sessions m)" can_open] assms(1) lim
    by (auto simp: kv_result_ok_def active_count_def)
  from t(2) obtain m' where m': "t = Inr m'" "kv_manager_ok m'" by (cases t) (auto simp: kv_result_ok_def)
  then have "length (km_sessions m') < unat (km_max_active m)" "om_wf (km_sessions m')"
    using t(3) lim by (auto simp: active_count_def kv_manager_ok_def)
  with False t(1) m' show ?thesis
    by (auto simp: get_or_create_def create_session_def Let_def length_om_put split: sum.splits)
qed

theorem kv_sessions_bounded_witness:
  "\<exists>r. get_or_create (length (km_sessions (demo_kv_manager\<lparr>km_max_active := 1\<rparr>))) demo_floats (\<lambda>_. True) 9 ''b'' None
     (demo_kv_manager\<lparr>km_max_active := 1\<rparr>) = Some r"
proof -
  have "\<exists>bs. save_bytes demo_session = Inr bs" using save_restore [OF demo_session_ok] by blast
  moreover have "sk_last_accessed demo_session < INT64_MAX" by (simp add: demo_session_def fresh_session_def new_session_def INT64_MAX_def)
  ultimately have "kv_manager_ok (demo_kv_manager\<lparr>km_max_active := 1\<rparr>)"
    by (auto simp: kv_manager_ok_def demo_kv_manager_def om_wf_def)
  from kv_sessions_bounded [OF this, of demo_floats "\<lambda>_. True" 9 "''b''" None] show ?thesis by (auto simp: demo_kv_manager_def)
qed

text \<open>
  With a limit of zero sessions, asking for a session that is not in memory never returns: evicting
  from an empty map changes nothing and the loop goes on for ever, whatever the fuel.
\<close>

theorem zero_session_limit_hangs:
  assumes "km_max_active m = 0" and "sid \<noteq> []" and "map_of (km_sessions m) sid = None"
  shows "get_or_create fuel F can_open now sid config m = None"
  using assms kv_store.evict_loop_diverges [of can_open fuel "Inr m"] by (simp add: get_or_create_def)

theorem zero_session_limit_hangs_witness:
  "get_or_create 1000 demo_floats (\<lambda>_. True) 9 ''b'' None (demo_kv_manager\<lparr>km_max_active := 0\<rparr>) = None"
  using zero_session_limit_hangs [of "demo_kv_manager\<lparr>km_max_active := 0\<rparr>" "''b''"] by (simp add: demo_kv_manager_def)

definition idle_entry :: "kv_entry \<Rightarrow> bool" where
  "idle_entry e \<longleftrightarrow> ke_handles e = 0 \<and> \<not> sk_in_use (ke_session e)"

lemma pick_oldest_least:
  assumes "\<forall>(s, e) \<in> set es. idle_entry e" and "pick_oldest (Some s0) t es = Some sid"
  shows "\<exists>\<tau>. (sid = s0 \<and> \<tau> = t \<or> (\<exists>e. (sid, e) \<in> set es \<and> \<tau> = sk_last_accessed (ke_session e))) \<and> \<tau> \<le> t \<and>
    (\<forall>(s, e) \<in> set es. \<tau> \<le> sk_last_accessed (ke_session e))"
  using assms
proof (induction es arbitrary: s0 t)
  case (Cons x es)
  obtain s1 e1 where x: "x = (s1, e1)" by (cases x)
  let ?t1 = "sk_last_accessed (ke_session e1)"
  show ?case
  proof (cases "?t1 < t")
    case True
    with Cons.prems x have "pick_oldest (Some s1) ?t1 es = Some sid" by (simp add: idle_entry_def)
    with Cons.IH [of s1 ?t1] Cons.prems(1) obtain \<tau> where
      "sid = s1 \<and> \<tau> = ?t1 \<or> (\<exists>e. (sid, e) \<in> set es \<and> \<tau> = sk_last_accessed (ke_session e))" "\<tau> \<le> ?t1"
      "\<forall>(s, e) \<in> set es. \<tau> \<le> sk_last_accessed (ke_session e)" by auto
    with True x show ?thesis by (intro exI [of _ \<tau>]) auto
  next
    case False
    with Cons.prems x have "pick_oldest (Some s0) t es = Some sid" by simp
    with Cons.IH [of s0 t] Cons.prems(1) obtain \<tau> where
      "sid = s0 \<and> \<tau> = t \<or> (\<exists>e. (sid, e) \<in> set es \<and> \<tau> = sk_last_accessed (ke_session e))" "\<tau> \<le> t"
      "\<forall>(s, e) \<in> set es. \<tau> \<le> sk_last_accessed (ke_session e)" by auto
    with False x show ?thesis by (intro exI [of _ \<tau>]) auto
  qed
qed auto

text \<open>What an eviction removes, given the session that the scan picks.\<close>

lemma evict_oldest_removes:
  assumes "kv_manager_ok m" and "pick_oldest None INT64_MAX (km_sessions m) = Some sid"
  shows "\<exists>m' e. evict_oldest_session_locked can_open m = Inr m' \<and> map_of (km_sessions m) sid = Some e \<and>
    km_sessions m' = om_erase sid (km_sessions m)"
proof -
  obtain e where e: "map_of (km_sessions m) sid = Some e"
    using pick_oldest_in [OF assms(2)] by (metis map_of_eq_None_iff option.distinct(1) option.exhaust)
  then have "sk_initialized (ke_session e) \<longrightarrow> (\<exists>bs. save_bytes (ke_session e) = Inr bs)"
    using assms(1) map_of_SomeD [OF e] by (auto simp: kv_manager_ok_def)
  then obtain b d where "save_to_disk_internal can_open sid (ke_session e) m = Inr (b, m\<lparr>km_disk := d\<rparr>)"
    using save_internal_total by blast
  with e assms(2) show ?thesis by (simp add: evict_oldest_session_locked_def)
qed

text \<open>
  When no session is in use, an eviction removes a least recently accessed session and no other.
\<close>

theorem eviction_is_lru:
  assumes "kv_manager_ok m" and "km_sessions m \<noteq> []" and "\<forall>(s, e) \<in> set (km_sessions m). idle_entry e"
  shows "\<exists>sid e m'. evict_oldest_session_locked can_open m = Inr m' \<and> map_of (km_sessions m) sid = Some e \<and>
    km_sessions m' = om_erase sid (km_sessions m) \<and>
    (\<forall>(s, e') \<in> set (km_sessions m). sk_last_accessed (ke_session e) \<le> sk_last_accessed (ke_session e'))"
proof -
  obtain s1 e1 es where ss: "km_sessions m = (s1, e1) # es" using assms(2) by (metis list.exhaust prod.exhaust)
  let ?t1 = "sk_last_accessed (ke_session e1)"
  have "?t1 < INT64_MAX" using assms(1) ss by (simp add: kv_manager_ok_def)
  then have pick: "pick_oldest None INT64_MAX (km_sessions m) = pick_oldest (Some s1) ?t1 es" using ss by simp
  then obtain sid where sid: "pick_oldest (Some s1) ?t1 es = Some sid" using pick_oldest_Some by (metis option.distinct(1) option.exhaust)
  have "\<forall>(s, e) \<in> set es. idle_entry e" using assms(3) ss by auto
  from pick_oldest_least [OF this sid] obtain \<tau> where \<tau>:
    "sid = s1 \<and> \<tau> = ?t1 \<or> (\<exists>e. (sid, e) \<in> set es \<and> \<tau> = sk_last_accessed (ke_session e))" "\<tau> \<le> ?t1"
    "\<forall>(s, e) \<in> set es. \<tau> \<le> sk_last_accessed (ke_session e)" by blast
  obtain m' e where m': "evict_oldest_session_locked can_open m = Inr m'" "map_of (km_sessions m) sid = Some e"
    "km_sessions m' = om_erase sid (km_sessions m)"
    using evict_oldest_removes [OF assms(1)] pick sid by metis
  have "distinct (map fst (km_sessions m))" using assms(1) by (auto simp: kv_manager_ok_def om_wf_def strict_sorted_iff)
  moreover have "\<exists>e'. (sid, e') \<in> set (km_sessions m) \<and> \<tau> = sk_last_accessed (ke_session e')" using \<tau>(1) ss by auto
  ultimately have "\<tau> = sk_last_accessed (ke_session e)" using m'(2) by (metis map_of_is_SomeI option.inject)
  with \<tau>(2,3) ss m' show ?thesis by fastforce
qed

theorem eviction_is_lru_witness:
  "\<exists>sid e m'. evict_oldest_session_locked (\<lambda>_. True) demo_kv_manager = Inr m' \<and>
     map_of (km_sessions demo_kv_manager) sid = Some e \<and> km_sessions m' = om_erase sid (km_sessions demo_kv_manager)"
proof -
  have "\<exists>bs. save_bytes demo_session = Inr bs" using save_restore [OF demo_session_ok] by blast
  moreover have "sk_last_accessed demo_session < INT64_MAX" "\<not> sk_in_use demo_session"
    by (simp_all add: demo_session_def fresh_session_def new_session_def INT64_MAX_def)
  ultimately have "kv_manager_ok demo_kv_manager" "\<forall>(s, e) \<in> set (km_sessions demo_kv_manager). idle_entry e"
    by (auto simp: kv_manager_ok_def demo_kv_manager_def om_wf_def idle_entry_def)
  moreover have "km_sessions demo_kv_manager \<noteq> []" by (simp add: demo_kv_manager_def)
  ultimately show ?thesis using eviction_is_lru [of demo_kv_manager "\<lambda>_. True"] by blast
qed

lemma pick_oldest_first:
  "\<forall>(s, e) \<in> set es. t \<le> sk_last_accessed (ke_session e) \<Longrightarrow> pick_oldest (Some s0) t es = Some s0"
  by (induction es) auto

text \<open>
  The first session in map order is not protected by being in use: the scan admits it because nothing
  has been picked yet. If it is also the least recently accessed, it is evicted even while a request holds
  it and idle sessions exist.
\<close>

theorem busy_first_session_evicted:
  assumes "kv_manager_ok m" and "km_sessions m = (sid, e) # es"
    and "\<forall>(s, e') \<in> set es. sk_last_accessed (ke_session e) \<le> sk_last_accessed (ke_session e')"
  shows "\<exists>m'. evict_oldest_session_locked can_open m = Inr m' \<and> map_of (km_sessions m') sid = None"
proof -
  have "sk_last_accessed (ke_session e) < INT64_MAX" using assms(1,2) by (simp add: kv_manager_ok_def)
  then have "pick_oldest None INT64_MAX (km_sessions m) = Some sid"
    using assms(2,3) by (simp add: pick_oldest_first)
  from evict_oldest_removes [OF assms(1) this, of can_open] show ?thesis by auto
qed

theorem busy_first_session_evicted_witness:
  "\<exists>m'. evict_oldest_session_locked (\<lambda>_. True)
     (demo_kv_manager\<lparr>km_sessions := [(''a'', \<lparr>ke_session = new_session\<lparr>sk_in_use := True, sk_last_accessed := 1\<rparr>, ke_handles = 2\<rparr>),
        (''b'', \<lparr>ke_session = new_session\<lparr>sk_last_accessed := 2\<rparr>, ke_handles = 0\<rparr>)]\<rparr>) = Inr m' \<and> map_of (km_sessions m') ''a'' = None"
  by (rule busy_first_session_evicted [where es = "[(''b'', \<lparr>ke_session = new_session\<lparr>sk_last_accessed := 2\<rparr>, ke_handles = 0\<rparr>)]"
        and e = "\<lparr>ke_session = new_session\<lparr>sk_in_use := True, sk_last_accessed := 1\<rparr>, ke_handles = 2\<rparr>"])
     (auto simp: kv_manager_ok_def om_wf_def INT64_MAX_def new_session_def)

end
