(* ===== verification/Tokenizer_Model.thy ===== *)
theory Tokenizer_Model
  imports Model_Types "HOL-Library.AList"
begin

text \<open>
  Greedy longest-match tokenisation (\<open>Tokenizer\<close> in \<open>tokenizer.cpp\<close>, \<open>tokenize\<close>/\<open>detokenize\<close> in \<open>infer.cpp\<close>), the
  trie that the GGUF loader builds from the vocabulary, and the \<open>TokenizerRegistry\<close>. A position in the text
  is represented by the rest of the text from there. A null vocabulary pointer is \<open>None\<close>.
\<close>

section \<open>Byte-level text\<close>

definition C4 :: char where "C4 = CHR 0xC4"

definition bpe_char :: "char \<Rightarrow> string" where
  "bpe_char c = (if c = CHR '' '' then [C4, CHR 0xA0] else if c = CHR 0x0A then [C4, CHR 0x8A] else [c])"

definition bpe_text :: "string \<Rightarrow> string" where
  "bpe_text s = concat (map bpe_char s)"

text \<open>The loop \<open>while ((pos = s.find("ab", pos)) != npos) { s.replace(pos, 2, "r"); pos += 1; }\<close>.\<close>

fun replace_pair :: "char \<Rightarrow> char \<Rightarrow> char \<Rightarrow> string \<Rightarrow> string" where
  "replace_pair a b r (x # y # xs) =
     (if x = a \<and> y = b then r # replace_pair a b r xs else x # replace_pair a b r (y # xs))"
| "replace_pair a b r xs = xs"

definition detok_string :: "string \<Rightarrow> string" where
  "detok_string s = replace_pair C4 (CHR 0x8A) (CHR 0x0A) (replace_pair C4 (CHR 0xA0) (CHR '' '') s)"

section \<open>The trie\<close>

fun trie_insert :: "string \<Rightarrow> int \<Rightarrow> trie_node \<Rightarrow> trie_node" where
  "trie_insert [] tid (TrieNode t cs) = TrieNode tid cs"
| "trie_insert (c # s) tid (TrieNode t cs) =
     TrieNode t (AList.update c (trie_insert s tid (case map_of cs c of Some n \<Rightarrow> n | None \<Rightarrow> TrieNode (-1) [])) cs)"

text \<open>The vocabulary loop of the GGUF loader: token \<open>j\<close> gets identifier \<open>j\<close>.\<close>

fun build_trie :: "nat \<Rightarrow> string list \<Rightarrow> trie_node \<Rightarrow> trie_node" where
  "build_trie j [] root = root"
| "build_trie j (t # ts) root = build_trie (Suc j) ts (trie_insert t (int j) root)"

text \<open>The inner loop: walk down the trie and remember the last token seen with its length.\<close>

fun longest_match :: "trie_node \<Rightarrow> string \<Rightarrow> nat \<Rightarrow> int \<Rightarrow> nat \<Rightarrow> int \<times> nat" where
  "longest_match nd [] depth best_id best_len = (best_id, best_len)"
| "longest_match nd (c # cs) depth best_id best_len =
     (case map_of (node_children nd) c of
        None \<Rightarrow> (best_id, best_len)
      | Some n \<Rightarrow>
          if node_token n \<noteq> -1 then longest_match n cs (Suc depth) (node_token n) (Suc depth)
          else longest_match n cs (Suc depth) best_id best_len)"

lemma longest_match_progress:
  "longest_match nd s depth best_id best_len = (i, l) \<Longrightarrow> i \<noteq> -1 \<Longrightarrow> (best_id \<noteq> -1 \<longrightarrow> 0 < best_len) \<Longrightarrow> 0 < l"
  by (induction nd s depth best_id best_len rule: longest_match.induct) (auto split: option.splits if_splits)

section \<open>Encoding and counting\<close>

function encode_loop :: "trie_node \<Rightarrow> string \<Rightarrow> int list" where
  "encode_loop root [] = []"
| "encode_loop root (c # cs) =
     (let (best_id, best_len) = longest_match root (c # cs) 0 (-1) 0
      in if best_id = -1 then encode_loop root cs
         else best_id # encode_loop root (drop best_len (c # cs)))"
  by pat_completeness auto
termination
  by (relation "measure (length \<circ> snd)") (auto simp del: longest_match.simps dest: longest_match_progress [OF sym])

function count_loop :: "trie_node \<Rightarrow> string \<Rightarrow> nat \<Rightarrow> nat" where
  "count_loop root [] cnt = cnt"
| "count_loop root (c # cs) cnt =
     (let (best_id, best_len) = longest_match root (c # cs) 0 (-1) 0
      in if best_id = -1 then count_loop root cs cnt
         else count_loop root (drop best_len (c # cs)) (Suc cnt))"
  by pat_completeness auto
termination
  by (relation "measure (length \<circ> fst \<circ> snd)") (auto simp del: longest_match.simps dest: longest_match_progress [OF sym])

record tokenizer =
  tk_vocab :: "vocab option"
  tk_eos :: int
  tk_bos :: int

definition tk_encode :: "tokenizer \<Rightarrow> string \<Rightarrow> int list" where
  "tk_encode t text = (case tk_vocab t of None \<Rightarrow> [] | Some v \<Rightarrow> encode_loop (v_root v) (bpe_text text))"

definition tk_decode1 :: "tokenizer \<Rightarrow> int \<Rightarrow> string" where
  "tk_decode1 t tid =
     (case tk_vocab t of None \<Rightarrow> []
      | Some v \<Rightarrow> if 0 \<le> tid \<and> tid < int (length (v_tokens v)) then detok_string (v_tokens v ! nat tid) else [])"

definition tk_decode :: "tokenizer \<Rightarrow> int list \<Rightarrow> string" where
  "tk_decode t toks = concat (map (tk_decode1 t) toks)"

definition approx_tokens :: "string \<Rightarrow> nat" where "approx_tokens text = (length text + 3) div 4"

definition tk_count :: "tokenizer \<Rightarrow> string \<Rightarrow> nat" where
  "tk_count t text = (case tk_vocab t of None \<Rightarrow> approx_tokens text | Some v \<Rightarrow> count_loop (v_root v) (bpe_text text) 0)"

text \<open>The free functions of \<open>infer.cpp\<close>.\<close>

definition tokenize :: "vocab \<Rightarrow> string \<Rightarrow> int list" where
  "tokenize v text = encode_loop (v_root v) (bpe_text text)"

definition detokenize :: "vocab \<Rightarrow> int \<Rightarrow> string" where
  "detokenize v tid = (if 0 \<le> tid \<and> tid < int (length (v_tokens v)) then detok_string (v_tokens v ! nat tid) else [])"

section \<open>The registry\<close>

record tokenizer_registry =
  tg_tokenizers :: "(string, tokenizer) omap"
  tg_default :: string

definition register_tokenizer :: "string \<Rightarrow> vocab option \<Rightarrow> int \<Rightarrow> int \<Rightarrow> tokenizer_registry \<Rightarrow> tokenizer_registry" where
  "register_tokenizer mid v eos bos reg =
     reg\<lparr>tg_tokenizers := om_put mid \<lparr>tk_vocab = v, tk_eos = eos, tk_bos = bos\<rparr> (tg_tokenizers reg),
         tg_default := (if tg_default reg = [] \<or> mid = ''general'' then mid else tg_default reg)\<rparr>"

definition get_tokenizer :: "tokenizer_registry \<Rightarrow> string \<Rightarrow> tokenizer option" where
  "get_tokenizer reg mid =
     (case map_of (tg_tokenizers reg) mid of
        Some t \<Rightarrow> Some t
      | None \<Rightarrow> if tg_default reg \<noteq> [] then map_of (tg_tokenizers reg) (tg_default reg) else None)"

definition get_default_tokenizer :: "tokenizer_registry \<Rightarrow> tokenizer option" where
  "get_default_tokenizer reg =
     (case (if tg_default reg \<noteq> [] then map_of (tg_tokenizers reg) (tg_default reg) else None) of
        Some t \<Rightarrow> Some t
      | None \<Rightarrow> (case tg_tokenizers reg of [] \<Rightarrow> None | (_, t) # _ \<Rightarrow> Some t))"

definition registry_count_tokens :: "tokenizer_registry \<Rightarrow> string \<Rightarrow> string \<Rightarrow> nat" where
  "registry_count_tokens reg mid text =
     (case get_tokenizer reg mid of Some t \<Rightarrow> tk_count t text | None \<Rightarrow> approx_tokens text)"

section \<open>Trie laws\<close>

fun trie_lookup :: "trie_node \<Rightarrow> string \<Rightarrow> int" where
  "trie_lookup n [] = node_token n"
| "trie_lookup n (c # s) = (case map_of (node_children n) c of None \<Rightarrow> -1 | Some m \<Rightarrow> trie_lookup m s)"

lemma trie_lookup_leaf: "s \<noteq> [] \<Longrightarrow> trie_lookup (TrieNode t []) s = -1"
  by (cases s) auto

lemma trie_lookup_insert: "trie_lookup (trie_insert s i n) t = (if t = s then i else trie_lookup n t)"
proof (induction s i n arbitrary: t rule: trie_insert.induct)
  case (1 i t0 cs)
  then show ?case by (cases t) auto
next
  case (2 c s i t0 cs)
  show ?case
  proof (cases t)
    case (Cons d t')
    then show ?thesis
      using 2 [of t'] by (cases "map_of cs c"; cases t') (auto simp: update_conv')
  qed simp
qed

text \<open>Where a token ends in the trie, the vocabulary has that very string under the token's identifier.\<close>

definition trie_matches :: "string list \<Rightarrow> trie_node \<Rightarrow> bool" where
  "trie_matches toks root \<longleftrightarrow>
     (\<forall>s. trie_lookup root s \<noteq> -1 \<longrightarrow>
        0 \<le> trie_lookup root s \<and> trie_lookup root s < int (length toks) \<and> toks ! nat (trie_lookup root s) = s) \<and>
     (\<forall>s \<in> set toks. trie_lookup root s \<noteq> -1)"

lemma build_trie_lookup:
  "trie_lookup (build_trie j ts root) s =
     (case map_of (rev (zip ts [j..<j + length ts])) s of Some i \<Rightarrow> int i | None \<Rightarrow> trie_lookup root s)"
proof (induction j ts root rule: build_trie.induct)
  case (2 j t ts root)
  have "[j..<j + length (t # ts)] = j # [Suc j..<Suc j + length ts]" using upt_conv_Cons [of j "j + length (t # ts)"] by (simp del: upt.simps)
  with 2 show ?case by (auto simp: map_add_def trie_lookup_insert split: option.splits)
qed simp

lemma build_trie_matches: "trie_matches ts (build_trie 0 ts (TrieNode (-1) []))"
proof -
  let ?m = "rev (zip ts [0..<length ts])"
  have root: "trie_lookup (TrieNode (-1) []) s = -1" for s by (cases s) auto
  have "i < length ts \<and> ts ! i = s" if "map_of ?m s = Some i" for s i
    using map_of_SomeD [OF that] by (auto simp: set_zip)
  moreover have "map_of ?m s \<noteq> None" if "s \<in> set ts" for s
    using that by (auto simp: map_of_eq_None_iff set_zip image_iff in_set_conv_nth)
  ultimately show ?thesis
    by (auto simp: trie_matches_def build_trie_lookup root split: option.splits)
qed

section \<open>Longest match\<close>

definition no_match :: "trie_node \<Rightarrow> string \<Rightarrow> bool" where
  "no_match nd s \<longleftrightarrow> (\<forall>k. 0 < k \<and> k \<le> length s \<longrightarrow> trie_lookup nd (take k s) = -1)"

definition is_longest :: "trie_node \<Rightarrow> string \<Rightarrow> nat \<Rightarrow> bool" where
  "is_longest nd s k \<longleftrightarrow> 0 < k \<and> k \<le> length s \<and> trie_lookup nd (take k s) \<noteq> -1 \<and>
     (\<forall>k'. 0 < k' \<and> k' \<le> length s \<and> trie_lookup nd (take k' s) \<noteq> -1 \<longrightarrow> k' \<le> k)"

lemma no_match_Cons:
  "map_of (node_children nd) c = Some n \<Longrightarrow> no_match nd (c # cs) \<longleftrightarrow> node_token n = -1 \<and> no_match n cs"
proof -
  assume c: "map_of (node_children nd) c = Some n"
  show ?thesis
  proof
    assume nm: "no_match nd (c # cs)"
    have "trie_lookup n (take k cs) = -1" if "k \<le> length cs" for k
      using nm that c spec [OF nm [unfolded no_match_def], of "Suc k"] by simp
    from this [of 0] this show "node_token n = -1 \<and> no_match n cs" by (simp add: no_match_def)
  next
    assume r: "node_token n = -1 \<and> no_match n cs"
    have "trie_lookup nd (take (Suc k) (c # cs)) = -1" if "k \<le> length cs" for k
      using r c that by (cases k) (auto simp: no_match_def)
    then show "no_match nd (c # cs)" by (auto simp: no_match_def gr0_conv_Suc)
  qed
qed

lemma is_longest_Cons:
  assumes c: "map_of (node_children nd) c = Some n" and l: "is_longest n cs k"
  shows "is_longest nd (c # cs) (Suc k)"
  unfolding is_longest_def
proof (intro conjI allI impI)
  show "trie_lookup nd (take (Suc k) (c # cs)) \<noteq> -1" using c l by (simp add: is_longest_def)
  show "Suc k \<le> length (c # cs)" using l by (simp add: is_longest_def)
  fix k' assume k': "0 < k' \<and> k' \<le> length (c # cs) \<and> trie_lookup nd (take k' (c # cs)) \<noteq> -1"
  then obtain j where j: "k' = Suc j" by (cases k') auto
  show "k' \<le> Suc k"
  proof (cases j)
    case (Suc i)
    with k' j c have "0 < j \<and> j \<le> length cs \<and> trie_lookup n (take j cs) \<noteq> -1" by simp
    with l j show ?thesis by (auto simp: is_longest_def)
  qed (use j in simp)
qed simp

lemma is_longest_one:
  assumes c: "map_of (node_children nd) c = Some n" and "node_token n \<noteq> -1" and "no_match n cs"
  shows "is_longest nd (c # cs) 1"
  unfolding is_longest_def
proof (intro conjI allI impI)
  fix k' assume k': "0 < k' \<and> k' \<le> length (c # cs) \<and> trie_lookup nd (take k' (c # cs)) \<noteq> -1"
  then obtain j where j: "k' = Suc j" by (cases k') auto
  with k' c assms(3) show "k' \<le> 1" by (cases j) (auto simp: no_match_def)
qed (use assms in simp_all)

lemma longest_match_spec:
  "longest_match nd s d bi bl = (i, l) \<Longrightarrow>
     no_match nd s \<and> i = bi \<and> l = bl \<or> (\<exists>k. is_longest nd s k \<and> i = trie_lookup nd (take k s) \<and> l = d + k)"
proof (induction nd s d bi bl arbitrary: i l rule: longest_match.induct)
  case (1 nd d bi bl)
  then show ?case by (simp add: no_match_def)
next
  case (2 nd c cs d bi bl)
  show ?case
  proof (cases "map_of (node_children nd) c")
    case None
    then have "no_match nd (c # cs)" by (auto simp: no_match_def gr0_conv_Suc)
    with None 2 show ?thesis by simp
  next
    case (Some n)
    let ?bi = "if node_token n \<noteq> -1 then node_token n else bi" and ?bl = "if node_token n \<noteq> -1 then Suc d else bl"
    have r: "longest_match n cs (Suc d) ?bi ?bl = (i, l)" using 2(3) Some by (auto split: if_splits)
    have "no_match n cs \<and> i = ?bi \<and> l = ?bl \<or> (\<exists>k. is_longest n cs k \<and> i = trie_lookup n (take k cs) \<and> l = Suc d + k)"
      using 2(1) [OF Some, of i l] 2(2) [OF Some, of i l] r by (auto split: if_splits)
    then show ?thesis
    proof
      assume a: "no_match n cs \<and> i = ?bi \<and> l = ?bl"
      show ?thesis
      proof (cases "node_token n = -1")
        case True
        with a Some show ?thesis by (simp add: no_match_Cons)
      next
        case False
        with a Some is_longest_one [OF Some False] show ?thesis by (intro disjI2 exI [of _ 1]) auto
      qed
    next
      assume "\<exists>k. is_longest n cs k \<and> i = trie_lookup n (take k cs) \<and> l = Suc d + k"
      then obtain k where "is_longest n cs k" "i = trie_lookup n (take k cs)" "l = Suc d + k" by blast
      with Some is_longest_Cons [OF Some] show ?thesis by (intro disjI2 exI [of _ "Suc k"]) auto
    qed
  qed
qed

lemma is_longest_match:
  "is_longest nd s k \<Longrightarrow> longest_match nd s 0 (-1) 0 = (trie_lookup nd (take k s), k)"
proof -
  assume k: "is_longest nd s k"
  obtain i l where r: "longest_match nd s 0 (-1) 0 = (i, l)" by (metis prod.exhaust)
  from longest_match_spec [OF r] k obtain k' where k': "is_longest nd s k'" "i = trie_lookup nd (take k' s)" "l = k'"
    by (auto simp: no_match_def is_longest_def)
  have "k' = k" using k k'(1) unfolding is_longest_def by (meson le_antisym)
  with r k' show ?thesis by simp
qed

lemma encode_step: "is_longest root s k \<Longrightarrow> encode_loop root s = trie_lookup root (take k s) # encode_loop root (drop k s)"
proof -
  assume k: "is_longest root s k"
  then obtain c cs where "s = c # cs" by (cases s) (auto simp: is_longest_def)
  with k is_longest_match [OF k] show ?thesis by (simp add: is_longest_def del: longest_match.simps)
qed

lemma encode_skip: "no_match root (c # cs) \<Longrightarrow> encode_loop root (c # cs) = encode_loop root cs"
proof -
  assume n: "no_match root (c # cs)"
  obtain i l where r: "longest_match root (c # cs) 0 (-1) 0 = (i, l)" by (metis prod.exhaust)
  with longest_match_spec [OF r] n have "i = -1" by (auto simp: is_longest_def no_match_def)
  with r show ?thesis by (simp del: longest_match.simps)
qed

text \<open>
  C10. Encoding is greedy longest match against the vocabulary itself: with the trie that the loader builds from
  the tokens, the encoder emits at each position the identifier of the longest vocabulary string that starts
  there and goes on behind it, and skips a byte exactly when no vocabulary string starts there.
\<close>

theorem encode_takes_longest_token:
  assumes "root = build_trie 0 toks (TrieNode (-1) [])"
  shows "(\<forall>k. 0 < k \<and> k \<le> length s \<longrightarrow> take k s \<notin> set toks) \<and> encode_loop root s = encode_loop root (tl s) \<or>
    (\<exists>k i. 0 < k \<and> k \<le> length s \<and> i < length toks \<and> toks ! i = take k s \<and>
       (\<forall>k'. k < k' \<and> k' \<le> length s \<longrightarrow> take k' s \<notin> set toks) \<and>
       encode_loop root s = int i # encode_loop root (drop k s))"
proof -
  have m: "trie_matches toks root" using assms build_trie_matches by simp
  have in_toks: "trie_lookup root t \<noteq> -1 \<longleftrightarrow> t \<in> set toks" for t
  proof
    assume "trie_lookup root t \<noteq> -1"
    with m have "nat (trie_lookup root t) < length toks" "toks ! nat (trie_lookup root t) = t"
      by (auto simp: trie_matches_def)
    then show "t \<in> set toks" by (metis nth_mem)
  qed (use m in \<open>simp add: trie_matches_def\<close>)
  obtain i l where r: "longest_match root s 0 (-1) 0 = (i, l)" by (metis prod.exhaust)
  from longest_match_spec [OF r] show ?thesis
  proof
    assume "no_match root s \<and> i = -1 \<and> l = 0"
    then have "no_match root s" by simp
    then show ?thesis using in_toks encode_skip by (cases s) (auto simp: no_match_def)
  next
    assume "\<exists>k. is_longest root s k \<and> i = trie_lookup root (take k s) \<and> l = 0 + k"
    then obtain k where k: "is_longest root s k" by blast
    define j where "j = nat (trie_lookup root (take k s))"
    have j: "j < length toks" "toks ! j = take k s" "int j = trie_lookup root (take k s)"
      using k m by (auto simp: trie_matches_def is_longest_def j_def)
    moreover have "take k' s \<notin> set toks" if "k < k'" "k' \<le> length s" for k'
    proof
      assume "take k' s \<in> set toks"
      then have "trie_lookup root (take k' s) \<noteq> -1" by (simp add: in_toks)
      with k that have "k' \<le> k" unfolding is_longest_def by (meson less_trans)
      with that show False by simp
    qed
    ultimately show ?thesis using k encode_step [OF k] by (intro disjI2 exI [of _ k] exI [of _ j]) (simp add: is_longest_def)
  qed
qed

theorem encode_takes_longest_token_witness:
  "\<exists>k i. 0 < k \<and> encode_loop (build_trie 0 [''a'', ''ab'', ''b''] (TrieNode (-1) [])) ''abxb'' =
     int i # encode_loop (build_trie 0 [''a'', ''ab'', ''b''] (TrieNode (-1) [])) (drop k ''abxb'')"
  using encode_takes_longest_token [OF refl, where toks = "[''a'', ''ab'', ''b'']" and s = "''abxb''"]
proof
  assume "(\<forall>k. 0 < k \<and> k \<le> length ''abxb'' \<longrightarrow> take k ''abxb'' \<notin> set [''a'', ''ab'', ''b'']) \<and>
    encode_loop (build_trie 0 [''a'', ''ab'', ''b''] (TrieNode (-1) [])) ''abxb'' =
    encode_loop (build_trie 0 [''a'', ''ab'', ''b''] (TrieNode (-1) [])) (tl ''abxb'')"
  then have "take 1 ''abxb'' \<notin> set [''a'', ''ab'', ''b'']" by (metis length_greater_0_conv list.distinct(1) less_one Suc_leI One_nat_def)
  then show ?thesis by simp
qed blast

text \<open>
  Counting tokens is counting the encoder's output, without building it.
\<close>

theorem count_tokens_is_length_encode:
  "tk_vocab t = Some v \<Longrightarrow> tk_count t text = length (tk_encode t text)"
proof -
  have "count_loop root s n = n + length (encode_loop root s)" for root s n
    by (induction root s arbitrary: n rule: encode_loop.induct)
       (auto simp: Let_def simp del: longest_match.simps split: prod.splits)
  then show "tk_vocab t = Some v \<Longrightarrow> ?thesis" by (simp add: tk_count_def tk_encode_def)
qed

definition demo_vocab :: vocab where
  "demo_vocab = (let toks = [''h'', ''i'', [C4, CHR 0xA0], ''hi'', ''th'', ''ere'', ''t'', ''e'', ''r'', [C4, CHR 0x8A]]
     in \<lparr>v_tokens = toks, v_scores = [], v_root = build_trie 0 toks (TrieNode (-1) [])\<rparr>)"

definition demo_tokenizer :: tokenizer where
  "demo_tokenizer = \<lparr>tk_vocab = Some demo_vocab, tk_eos = -1, tk_bos = -1\<rparr>"

theorem count_tokens_is_length_encode_witness: "tk_count demo_tokenizer ''hi there'' = length (tk_encode demo_tokenizer ''hi there'')"
  by (rule count_tokens_is_length_encode [where v = demo_vocab]) (simp add: demo_tokenizer_def)

section \<open>Round trip\<close>

lemma replace_pair_skip: "x \<noteq> a \<Longrightarrow> replace_pair a b r (x # xs) = x # replace_pair a b r xs"
  by (cases xs) auto

lemma detok_bpe_text: "C4 \<notin> set s \<Longrightarrow> detok_string (bpe_text s) = s"
proof -
  assume c4: "C4 \<notin> set s"
  let ?nl = "\<lambda>c. if c = CHR 0x0A then [C4, CHR 0x8A] else [c]"
  have ne: "CHR 0x8A \<noteq> C4" "CHR 0xA0 \<noteq> C4" "CHR '' '' \<noteq> C4" "CHR 0x0A \<noteq> C4" "CHR 0x8A \<noteq> CHR 0xA0"
    by (simp_all add: C4_def)
  have 1: "replace_pair C4 (CHR 0xA0) (CHR '' '') (bpe_text s) = concat (map ?nl s)"
    using c4 by (induction s) (auto simp: bpe_text_def bpe_char_def replace_pair_skip ne)
  have 2: "replace_pair C4 (CHR 0x8A) (CHR 0x0A) (concat (map ?nl s)) = s"
    using c4 by (induction s) (auto simp: replace_pair_skip)
  show ?thesis using 1 2 by (simp add: detok_string_def)
qed

lemma bpe_prefix:
  "C4 \<notin> set s \<Longrightarrow> k \<le> length (bpe_text s) \<Longrightarrow> k = 0 \<or> last (take k (bpe_text s)) \<noteq> C4 \<Longrightarrow>
   \<exists>j \<le> length s. take k (bpe_text s) = bpe_text (take j s) \<and> drop k (bpe_text s) = bpe_text (drop j s)"
proof (induction s arbitrary: k)
  case Nil
  then show ?case by (auto simp: bpe_text_def)
next
  case (Cons c s)
  let ?m = "length (bpe_char c)"
  have b: "bpe_text (c # s) = bpe_char c @ bpe_text s" by (simp add: bpe_text_def)
  show ?case
  proof (cases "k < ?m")
    case True
    then have "k = 0 \<or> k = 1 \<and> hd (bpe_char c) = C4 \<and> ?m = 2" by (auto simp: bpe_char_def split: if_splits)
    then have "k = 0" using Cons.prems(3) b by (auto simp: bpe_char_def split: if_splits)
    then show ?thesis by (intro exI [of _ 0]) (simp add: bpe_text_def)
  next
    case False
    have last: "k - ?m = 0 \<or> last (take (k - ?m) (bpe_text s)) \<noteq> C4"
      using Cons.prems(2,3) b False by (auto simp: last_append split: if_splits)
    have "\<exists>j \<le> length s. take (k - ?m) (bpe_text s) = bpe_text (take j s) \<and> drop (k - ?m) (bpe_text s) = bpe_text (drop j s)"
      using Cons.prems b False last by (intro Cons.IH) auto
    then obtain j where "j \<le> length s" "take (k - ?m) (bpe_text s) = bpe_text (take j s)" "drop (k - ?m) (bpe_text s) = bpe_text (drop j s)"
      by blast
    with False b show ?thesis by (intro exI [of _ "Suc j"]) (simp add: bpe_text_def)
  qed
qed

lemma encode_decode_strings:
  assumes "trie_matches toks root" and "\<forall>t \<in> set toks. t \<noteq> [] \<longrightarrow> last t \<noteq> C4"
    and "C4 \<notin> set s" and "\<forall>c \<in> set s. bpe_char c \<in> set toks"
  shows "concat (map (\<lambda>i. detok_string (toks ! nat i)) (encode_loop root (bpe_text s))) = s \<and>
    (\<forall>i \<in> set (encode_loop root (bpe_text s)). 0 \<le> i \<and> i < int (length toks))"
  using assms(3,4)
proof (induction s rule: length_induct)
  case (1 s)
  show ?case
  proof (cases s)
    case (Cons c cs)
    have "trie_lookup root (take (length (bpe_char c)) (bpe_text s)) \<noteq> -1"
      using "1.prems"(2) Cons assms(1) by (auto simp: trie_matches_def bpe_text_def)
    then have "\<not> no_match root (bpe_text s)" using Cons by (auto simp: no_match_def bpe_text_def bpe_char_def intro!: exI [of _ "length (bpe_char c)"])
    then obtain k where k: "is_longest root (bpe_text s) k"
      using longest_match_spec [of root "bpe_text s" 0 "-1" 0] by (metis prod.exhaust)
    let ?i = "trie_lookup root (take k (bpe_text s))"
    have i: "0 \<le> ?i" "?i < int (length toks)" "toks ! nat ?i = take k (bpe_text s)"
      using k assms(1) by (auto simp: is_longest_def trie_matches_def)
    have ne: "take k (bpe_text s) \<noteq> []" "k \<le> length (bpe_text s)" using k by (auto simp: is_longest_def)
    have "take k (bpe_text s) \<in> set toks" using i by (metis nth_mem nat_less_iff)
    with assms(2) ne have "last (take k (bpe_text s)) \<noteq> C4" by blast
    then obtain j where j: "j \<le> length s" "take k (bpe_text s) = bpe_text (take j s)" "drop k (bpe_text s) = bpe_text (drop j s)"
      using bpe_prefix [of s k] "1.prems"(1) ne(2) by blast
    have "j \<noteq> 0"
    proof
      assume "j = 0"
      with j(2) ne(1) show False by (simp add: bpe_text_def)
    qed
    then have "length (drop j s) < length s" using Cons by simp
    moreover have "C4 \<notin> set (drop j s)" "\<forall>c \<in> set (drop j s). bpe_char c \<in> set toks"
      using "1.prems" set_drop_subset [of j s] by auto
    ultimately have IH: "concat (map (\<lambda>i. detok_string (toks ! nat i)) (encode_loop root (bpe_text (drop j s)))) = drop j s \<and>
        (\<forall>i \<in> set (encode_loop root (bpe_text (drop j s))). 0 \<le> i \<and> i < int (length toks))"
      using "1.IH" by blast
    have "detok_string (bpe_text (take j s)) = take j s"
      using "1.prems"(1) set_take_subset [of j s] by (intro detok_bpe_text) auto
    with IH i j encode_step [OF k] show ?thesis by simp
  qed (simp add: bpe_text_def)
qed

text \<open>
  C11. Decoding inverts encoding. For a vocabulary that has a token for every character of the text (blank and
  newline as their byte-pair form) and no token ending in a cut-off byte pair, the decoded token sequence
  is the text, for every text free of the byte 0xC4.
\<close>

theorem decode_encode_round_trip:
  assumes "tk_vocab t = Some v" and "v_root v = build_trie 0 (v_tokens v) (TrieNode (-1) [])"
    and "\<forall>x \<in> set (v_tokens v). x \<noteq> [] \<longrightarrow> last x \<noteq> C4"
    and "C4 \<notin> set text" and "\<forall>c \<in> set text. bpe_char c \<in> set (v_tokens v)"
  shows "tk_decode t (tk_encode t text) = text"
proof -
  have "trie_matches (v_tokens v) (v_root v)" using assms(2) build_trie_matches by simp
  from encode_decode_strings [OF this assms(3-5)]
  have 1: "concat (map (\<lambda>i. detok_string (v_tokens v ! nat i)) (encode_loop (v_root v) (bpe_text text))) = text"
    and 2: "\<forall>i \<in> set (encode_loop (v_root v) (bpe_text text)). 0 \<le> i \<and> i < int (length (v_tokens v))" by blast+
  have "map (tk_decode1 t) (encode_loop (v_root v) (bpe_text text)) =
      map (\<lambda>i. detok_string (v_tokens v ! nat i)) (encode_loop (v_root v) (bpe_text text))"
    using 2 assms(1) by (intro map_cong) (auto simp: tk_decode1_def)
  then show ?thesis using 1 assms(1) by (simp only: tk_decode_def tk_encode_def option.case)
qed

theorem decode_encode_round_trip_witness: "tk_decode demo_tokenizer (tk_encode demo_tokenizer ''hi there'') = ''hi there''"
  by (rule decode_encode_round_trip [where v = demo_vocab])
     (simp_all add: demo_tokenizer_def demo_vocab_def Let_def C4_def bpe_char_def)

end
