(* ===== verification/Gguf_Parser.thy ===== *)
theory Gguf_Parser
  imports Tokenizer_Model Byte_Codec
begin

text \<open>
  The GGUF loader (\<open>gguf_parser.cpp\<close>): magic, counts, the metadata loop, the tensor table and the alignment
  check. The mapped file is a byte list and \<open>ptr\<close> a position in it; a read outside the file is
  \<open>MemFault\<close> (so is the division by a zero alignment; the zero bytes that pad the last mapped page are not
  distinguished from the outside). An empty file cannot be mapped. \<open>skip_value\<close> recurses into nested arrays with a depth
  budget, \<open>FuelOut\<close> meaning that the budget was too small: each level consumes twelve bytes of the file, so a
  budget of the file's length plus one is never exhausted.
\<close>

section \<open>Reading\<close>

datatype gguf_error = MemFault | FuelOut

type_synonym 'a reader = "nat \<Rightarrow> gguf_error + 'a \<times> nat"

definition ret :: "'a \<Rightarrow> 'a reader" where "ret x p = Inr (x, p)"

definition rbind :: "'a reader \<Rightarrow> ('a \<Rightarrow> 'b reader) \<Rightarrow> 'b reader" where
  "rbind m f p = (case m p of Inl e \<Rightarrow> Inl e | Inr (x, p') \<Rightarrow> f x p')"

definition rd_raw :: "u8 list \<Rightarrow> nat \<Rightarrow> u8 list reader" where
  "rd_raw img k p = (if p + k \<le> length img then Inr (take k (drop p img), p + k) else Inl MemFault)"

definition advance :: "nat \<Rightarrow> unit reader" where "advance k p = Inr ((), p + k)"

definition g_u32 :: "u8 list \<Rightarrow> u32 reader" where
  "g_u32 img = rbind (rd_raw img 4) (\<lambda>b. ret (dec_u32 b))"

definition g_u64 :: "u8 list \<Rightarrow> u64 reader" where
  "g_u64 img = rbind (rd_raw img 8) (\<lambda>b. ret (dec_u64 b))"

text \<open>\<open>memcpy\<close> of a 32-bit value without moving the pointer.\<close>

definition peek_u32 :: "u8 list \<Rightarrow> u32 reader" where
  "peek_u32 img p = (case g_u32 img p of Inl e \<Rightarrow> Inl e | Inr (w, _) \<Rightarrow> Inr (w, p))"

definition read_string :: "u8 list \<Rightarrow> string reader" where
  "read_string img = rbind (g_u64 img) (\<lambda>len. rbind (rd_raw img (unat len)) (\<lambda>b. ret (map char_of_byte b)))"

fun repeat_reader :: "nat \<Rightarrow> unit reader \<Rightarrow> unit reader" where
  "repeat_reader 0 f = ret ()"
| "repeat_reader (Suc n) f = rbind f (\<lambda>_. repeat_reader n f)"

fun skip_value :: "nat \<Rightarrow> u8 list \<Rightarrow> u32 \<Rightarrow> unit reader" where
  "skip_value 0 img ty = (\<lambda>p. Inl FuelOut)"
| "skip_value (Suc d) img ty =
     (if ty \<in> {0, 1, 7} then advance 1
      else if ty \<in> {2, 3} then advance 2
      else if ty \<in> {4, 5, 6} then advance 4
      else if ty \<in> {10, 11, 12} then advance 8
      else if ty = 8 then rbind (read_string img) (\<lambda>_. ret ())
      else if ty = 9 then
        rbind (g_u32 img) (\<lambda>arr_type. rbind (g_u64 img) (\<lambda>arr_len. repeat_reader (unat arr_len) (skip_value d img arr_type)))
      else advance 4)"

definition depth_budget :: "u8 list \<Rightarrow> nat" where "depth_budget img = length img + 1"

section \<open>The model being filled\<close>

datatype device_context = CPU | GPU

record dense_model =
  dm_config :: model_config
  dm_vocab :: vocab
  dm_tensors :: "(string \<times> tensor) list"
  dm_execution_context :: device_context

definition new_dense_model :: dense_model where
  "new_dense_model = \<lparr>dm_config = default_config, dm_vocab = empty_vocab, dm_tensors = [], dm_execution_context = CPU\<rparr>"

definition upd_config :: "(model_config \<Rightarrow> model_config) \<Rightarrow> dense_model \<Rightarrow> dense_model" where
  "upd_config f m = m\<lparr>dm_config := f (dm_config m)\<rparr>"

definition int_of_u64 :: "nat \<Rightarrow> int" where "int_of_u64 j = sint (word_of_nat j :: u32)"

definition eos_names :: "string list" where "eos_names = [''<|im_end|>'', ''<|endoftext|>'', ''</s>'']"

text \<open>One vocabulary string: appended, put into the trie, and considered as end-of-sequence token.\<close>

definition add_token :: "nat \<Rightarrow> string \<Rightarrow> dense_model \<Rightarrow> dense_model" where
  "add_token j t m =
     (let v = dm_vocab m;
          v' = v\<lparr>v_tokens := v_tokens v @ [t], v_root := trie_insert t (int_of_u64 j) (v_root v)\<rparr>;
          eos' = (if t \<in> set eos_names \<and> (eos_token_id (dm_config m) = -1 \<or> t = ''<|im_end|>'')
                  then int_of_u64 j else eos_token_id (dm_config m))
      in m\<lparr>dm_vocab := v', dm_config := (dm_config m)\<lparr>eos_token_id := eos'\<rparr>\<rparr>)"

fun read_tokens :: "u8 list \<Rightarrow> u32 \<Rightarrow> nat \<Rightarrow> nat \<Rightarrow> dense_model \<Rightarrow> dense_model reader" where
  "read_tokens img arr_type j 0 m = ret m"
| "read_tokens img arr_type j (Suc n) m =
     (if arr_type = 8 then rbind (read_string img) (\<lambda>t. read_tokens img arr_type (Suc j) n (add_token j t m))
      else rbind (skip_value (depth_budget img) img arr_type) (\<lambda>_. read_tokens img arr_type (Suc j) n m))"

fun read_scores :: "u8 list \<Rightarrow> u32 \<Rightarrow> nat \<Rightarrow> dense_model \<Rightarrow> dense_model reader" where
  "read_scores img arr_type 0 m = ret m"
| "read_scores img arr_type (Suc n) m =
     (if arr_type = 6
      then rbind (g_u32 img) (\<lambda>s. read_scores img arr_type n (m\<lparr>dm_vocab := (dm_vocab m)\<lparr>v_scores := v_scores (dm_vocab m) @ [s]\<rparr>\<rparr>))
      else rbind (skip_value (depth_budget img) img arr_type) (\<lambda>_. read_scores img arr_type n m))"

section \<open>Metadata\<close>

definition set_u32 :: "u8 list \<Rightarrow> (u32 \<Rightarrow> model_config \<Rightarrow> model_config) \<Rightarrow> dense_model \<Rightarrow> dense_model reader" where
  "set_u32 img f m = rbind (g_u32 img) (\<lambda>w. ret (upd_config (f w) m))"

definition set_str :: "u8 list \<Rightarrow> (string \<Rightarrow> model_config \<Rightarrow> model_config) \<Rightarrow> dense_model \<Rightarrow> dense_model reader" where
  "set_str img f m = rbind (read_string img) (\<lambda>s. ret (upd_config (f s) m))"

definition upd_rope :: "(rope_config \<Rightarrow> rope_config) \<Rightarrow> model_config \<Rightarrow> model_config" where
  "upd_rope f c = c\<lparr>rope := f (rope c)\<rparr>"

definition read_kv :: "u8 list \<Rightarrow> string \<Rightarrow> u32 \<Rightarrow> dense_model \<Rightarrow> dense_model reader" where
  "read_kv img key ty m =
     (if key = ''general.alignment'' \<and> ty = 4 then
        rbind (peek_u32 img) (\<lambda>w. ret (upd_config (\<lambda>c. c\<lparr>alignment := w\<rparr>) m))
      else if key = ''tokenizer.ggml.tokens'' \<and> ty = 9 then
        rbind (g_u32 img) (\<lambda>arr_type. rbind (g_u64 img) (\<lambda>arr_len.
          rbind (read_tokens img arr_type 0 (unat arr_len) m) (\<lambda>m'. ret (upd_config (\<lambda>c. c\<lparr>vocab_size := ucast arr_len\<rparr>) m'))))
      else if contains key ''.eos_token_id'' \<and> (ty = 4 \<or> ty = 5) then
        set_u32 img (\<lambda>w c. c\<lparr>eos_token_id := sint w\<rparr>) m
      else if key = ''tokenizer.ggml.scores'' \<and> ty = 9 then
        rbind (g_u32 img) (\<lambda>arr_type. rbind (g_u64 img) (\<lambda>arr_len. read_scores img arr_type (unat arr_len) m))
      else if key = ''general.architecture'' \<and> ty = 8 then set_str img (\<lambda>s c. c\<lparr>architecture := s\<rparr>) m
      else if contains key ''.context_length'' \<and> ty = 4 then set_u32 img (\<lambda>w c. c\<lparr>context_length := w\<rparr>) m
      else if contains key ''.embedding_length'' \<and> ty = 4 then set_u32 img (\<lambda>w c. c\<lparr>embedding_length := w\<rparr>) m
      else if contains key ''.feed_forward_length'' \<and> ty = 4 then set_u32 img (\<lambda>w c. c\<lparr>intermediate_dim := w\<rparr>) m
      else if contains key ''.block_count'' \<and> ty = 4 then set_u32 img (\<lambda>w c. c\<lparr>num_layers := w\<rparr>) m
      else if contains key ''.attention.head_count'' \<and> \<not> contains key ''.attention.head_count_kv'' \<and> ty = 4 then
        set_u32 img (\<lambda>w c. c\<lparr>num_heads := w\<rparr>) m
      else if contains key ''.attention.head_count_kv'' \<and> ty = 4 then set_u32 img (\<lambda>w c. c\<lparr>num_kv_heads := w\<rparr>) m
      else if (contains key ''.attention.key_length'' \<or> contains key ''.rope.dimension_count'') \<and> ty = 4 then
        set_u32 img (\<lambda>w c. c\<lparr>head_dim := w\<rparr>) m
      else if contains key ''.rope.freq_base'' \<and> ty = 6 then set_u32 img (\<lambda>w. upd_rope (\<lambda>r. r\<lparr>rope_base := w\<rparr>)) m
      else if contains key ''.rope.scale'' \<and> ty = 6 then set_u32 img (\<lambda>w. upd_rope (\<lambda>r. r\<lparr>rope_scale := w\<rparr>)) m
      else if contains key ''.rope.scaling.type'' \<and> ty = 8 then set_str img (\<lambda>s. upd_rope (\<lambda>r. r\<lparr>rope_type := s\<rparr>)) m
      else if contains key ''.attention.layer_norm_rms_epsilon'' \<and> ty = 6 then set_u32 img (\<lambda>w c. c\<lparr>rms_norm_eps := w\<rparr>) m
      else if key = ''tokenizer.chat_template'' \<and> ty = 8 then set_str img (\<lambda>s c. c\<lparr>chat_template := s\<rparr>) m
      else rbind (skip_value (depth_budget img) img ty) (\<lambda>_. ret m))"

fun read_kvs :: "u8 list \<Rightarrow> nat \<Rightarrow> dense_model \<Rightarrow> dense_model reader" where
  "read_kvs img 0 m = ret m"
| "read_kvs img (Suc n) m =
     rbind (read_string img) (\<lambda>key. rbind (g_u32 img) (\<lambda>ty. rbind (read_kv img key ty m) (read_kvs img n)))"

text \<open>The derived dimensions; \<open>1000000.0f\<close> is 0x49742400, and a float equals zero for both signs of zero.\<close>

definition f_1e6 :: f32 where "f_1e6 = 0x49742400"

definition derive_dims :: "model_config \<Rightarrow> model_config" where
  "derive_dims c =
     (let c1 = (if head_dim c = 0 \<and> num_heads c > 0 then c\<lparr>head_dim := embedding_length c div num_heads c\<rparr> else c)
      in if rope_base (rope c1) = 0 \<or> rope_base (rope c1) = 0x80000000
         then upd_rope (\<lambda>r. r\<lparr>rope_base := (if architecture c1 = ''qwen2'' then f_1e6 else f_10000)\<rparr>) c1 else c1)"

section \<open>Tensors\<close>

fun read_shape :: "u8 list \<Rightarrow> nat \<Rightarrow> u32 list \<Rightarrow> u32 list reader" where
  "read_shape img 0 sh = ret sh"
| "read_shape img (Suc n) sh = rbind (g_u64 img) (\<lambda>dim_size. read_shape img n (sh @ [ucast dim_size]))"

definition read_tensor :: "u8 list \<Rightarrow> tensor reader" where
  "read_tensor img =
     rbind (read_string img) (\<lambda>name. rbind (g_u32 img) (\<lambda>n_dims. rbind (read_shape img (unat n_dims) []) (\<lambda>sh.
     rbind (g_u32 img) (\<lambda>ty. rbind (g_u64 img) (\<lambda>offset.
       ret \<lparr>t_name = name, t_type = tensor_type_of ty, t_shape = sh, t_data_offset = offset\<rparr>)))))"

fun read_tensors :: "u8 list \<Rightarrow> nat \<Rightarrow> (string \<times> tensor) list \<Rightarrow> (string \<times> tensor) list reader" where
  "read_tensors img 0 ts = ret ts"
| "read_tensors img (Suc n) ts = rbind (read_tensor img) (\<lambda>t. read_tensors img n (AList.update (t_name t) t ts))"

definition tensor_data_start :: "u32 \<Rightarrow> nat \<Rightarrow> size_t" where
  "tensor_data_start align metadata_size =
     (let a = ucast align :: size_t; md = word_of_nat metadata_size;
          padding = (a - (md mod a)) mod a
      in md + padding)"

definition tensor_offset :: "size_t \<Rightarrow> tensor \<Rightarrow> size_t" where
  "tensor_offset start t = start + t_data_offset t"

definition derive_intermediate :: "dense_model \<Rightarrow> dense_model" where
  "derive_intermediate m =
     (if intermediate_dim (dm_config m) \<noteq> 0 then m
      else case map_of (dm_tensors m) ''blk.0.ffn_gate.weight'' of
             Some t \<Rightarrow> (if length (t_shape t) \<ge> 2 then upd_config (\<lambda>c. c\<lparr>intermediate_dim := t_shape t ! 1\<rparr>) m else m)
           | None \<Rightarrow>
               (case map_of (dm_tensors m) ''blk.0.ffn_down.weight'' of
                  Some t \<Rightarrow> (if length (t_shape t) \<ge> 1 then upd_config (\<lambda>c. c\<lparr>intermediate_dim := t_shape t ! 0\<rparr>) m else m)
                | None \<Rightarrow> m))"

section \<open>Loading\<close>

definition GGUF_MAGIC :: u32 where "GGUF_MAGIC = 0x46554747"

text \<open>
  The body of \<open>load_gguf_model\<close> on the mapped bytes: \<open>Inl\<close> is a crash, \<open>Inr None\<close> the result \<open>false\<close>, otherwise the
  model together with the position where the tensor data starts.
\<close>

definition parse_gguf :: "u8 list \<Rightarrow> dense_model \<Rightarrow> gguf_error + (dense_model \<times> size_t) option" where
  "parse_gguf img m0 =
     (case g_u32 img 0 of
        Inl e \<Rightarrow> Inl e
      | Inr (magic, p) \<Rightarrow>
          if magic \<noteq> GGUF_MAGIC then Inr None
          else
            case rbind (g_u32 img) (\<lambda>version. rbind (g_u64 img) (\<lambda>tensor_count. rbind (g_u64 img) (\<lambda>kv_count.
                   rbind (read_kvs img (unat kv_count) (upd_config (\<lambda>c. c\<lparr>alignment := 32\<rparr>) m0)) (\<lambda>m1.
                   rbind (read_tensors img (unat tensor_count) (dm_tensors m1)) (\<lambda>ts.
                     ret (upd_config derive_dims m1, ts)))))) p of
              Inl e \<Rightarrow> Inl e
            | Inr ((m2, ts), q) \<Rightarrow>
                if alignment (dm_config m2) = 0 then Inl MemFault
                else
                  let start = tensor_data_start (alignment (dm_config m2)) q
                  in if list_ex (\<lambda>(n, t). tensor_offset start t mod 32 \<noteq> 0) ts then Inr None
                     else Inr (Some (derive_intermediate (m2\<lparr>dm_tensors := ts\<rparr>), start)))"

definition load_gguf_model :: "(string \<Rightarrow> u8 list option) \<Rightarrow> string \<Rightarrow> dense_model \<Rightarrow> gguf_error + (dense_model \<times> size_t) option" where
  "load_gguf_model disk path m0 =
     (case disk path of None \<Rightarrow> Inr None | Some img \<Rightarrow> if img = [] then Inr None else parse_gguf img m0)"

section \<open>The depth budget is enough\<close>

lemma rbind_Inr: "rbind m f p = Inr r \<longleftrightarrow> (\<exists>x q. m p = Inr (x, q) \<and> f x q = Inr r)"
  by (auto simp: rbind_def split: sum.splits)

lemma rbind_Inl: "rbind m f p = Inl e \<longleftrightarrow> m p = Inl e \<or> (\<exists>x q. m p = Inr (x, q) \<and> f x q = Inl e)"
  by (auto simp: rbind_def split: sum.splits)

lemmas reader_defs = ret_def rd_raw_def advance_def g_u32_def g_u64_def read_string_def

lemma g_u32_Inr: "g_u32 img p = Inr (w, q) \<Longrightarrow> q = p + 4 \<and> q \<le> length img"
  by (auto simp: g_u32_def rbind_Inr rd_raw_def ret_def split: if_splits)

lemma g_u64_Inr: "g_u64 img p = Inr (w, q) \<Longrightarrow> q = p + 8 \<and> q \<le> length img"
  by (auto simp: g_u64_def rbind_Inr rd_raw_def ret_def split: if_splits)

lemma read_string_Inr: "read_string img p = Inr (s, q) \<Longrightarrow> p \<le> q"
  by (auto simp: read_string_def rbind_Inr rd_raw_def ret_def dest!: g_u64_Inr split: if_splits)

lemma reader_fault [simp]: "rd_raw img k p \<noteq> Inl FuelOut" "g_u32 img p \<noteq> Inl FuelOut" "g_u64 img p \<noteq> Inl FuelOut"
    "read_string img p \<noteq> Inl FuelOut" "peek_u32 img p \<noteq> Inl FuelOut"
  by (auto simp: g_u32_def g_u64_def read_string_def peek_u32_def rbind_Inl rd_raw_def ret_def split: sum.splits if_splits)

lemma repeat_reader_mono:
  "(\<And>p x q. f p = Inr (x, q) \<Longrightarrow> p \<le> q) \<Longrightarrow> repeat_reader n f p = Inr (x, q) \<Longrightarrow> p \<le> q"
proof (induction n arbitrary: p)
  case (Suc n)
  then obtain q' where "f p = Inr ((), q')" "repeat_reader n f q' = Inr (x, q)" by (auto simp: rbind_Inr)
  with Suc show ?case by (meson order_trans)
qed (simp add: ret_def)

lemma skip_value_mono: "skip_value d img ty p = Inr (x, q) \<Longrightarrow> p \<le> q"
proof (induction d arbitrary: ty p x q)
  case (Suc d)
  have "p \<le> q" if "rbind (g_u32 img) (\<lambda>a. rbind (g_u64 img) (\<lambda>n. repeat_reader (unat n) (skip_value d img a))) p = Inr (x, q)"
    using that by (auto simp: rbind_Inr dest!: g_u32_Inr g_u64_Inr repeat_reader_mono [rotated] intro: Suc.IH)
  then show ?case
    using Suc.prems by (auto simp: advance_def rbind_Inr ret_def dest: read_string_Inr split: if_splits)
qed simp

lemma repeat_reader_no_fuel:
  "(\<And>p. b \<le> p \<Longrightarrow> f p \<noteq> Inl FuelOut) \<Longrightarrow> (\<And>p x q. f p = Inr (x, q) \<Longrightarrow> p \<le> q) \<Longrightarrow> b \<le> p \<Longrightarrow>
   repeat_reader n f p \<noteq> Inl FuelOut"
proof (induction n arbitrary: p)
  case (Suc n)
  show ?case
  proof
    assume "repeat_reader (Suc n) f p = Inl FuelOut"
    then obtain q where q: "f p = Inr ((), q)" "repeat_reader n f q = Inl FuelOut" using Suc.prems by (auto simp: rbind_Inl)
    with Suc.prems have "b \<le> q" by (meson order_trans)
    with Suc q show False by blast
  qed
qed (simp add: ret_def)

lemma skip_value_no_fuel: "length img < d + p \<Longrightarrow> 0 < d \<Longrightarrow> skip_value d img ty p \<noteq> Inl FuelOut"
proof (induction d arbitrary: ty p)
  case (Suc d)
  have "rbind (g_u32 img) (\<lambda>a. rbind (g_u64 img) (\<lambda>n. repeat_reader (unat n) (skip_value d img a))) p \<noteq> Inl FuelOut"
  proof
    assume "rbind (g_u32 img) (\<lambda>a. rbind (g_u64 img) (\<lambda>n. repeat_reader (unat n) (skip_value d img a))) p = Inl FuelOut"
    then obtain a n q1 q2 where q: "g_u32 img p = Inr (a, q1)" "g_u64 img q1 = Inr (n, q2)"
      "repeat_reader (unat n) (skip_value d img a) q2 = Inl FuelOut" by (auto simp: rbind_Inl)
    then have q2: "q2 = p + 12" "q2 \<le> length img" using g_u32_Inr g_u64_Inr by fastforce+
    then have "0 < d" using Suc.prems(1) by simp
    have "skip_value d img a p' \<noteq> Inl FuelOut" if "q2 \<le> p'" for p'
      using Suc.IH [of p' a] Suc.prems(1) q2 that \<open>0 < d\<close> by simp
    from repeat_reader_no_fuel [of q2 "skip_value d img a" q2 "unat n", OF this skip_value_mono order_refl] q(3) show False by simp
  qed
  then show ?case by (auto simp: advance_def rbind_Inl ret_def)
qed simp

lemma skip_budget [simp]: "skip_value (depth_budget img) img ty p \<noteq> Inl FuelOut"
  by (rule skip_value_no_fuel) (simp_all add: depth_budget_def)

lemma read_tokens_no_fuel [simp]: "read_tokens img ty j n m p \<noteq> Inl FuelOut"
  by (induction img ty j n m arbitrary: p rule: read_tokens.induct) (auto simp: rbind_Inl ret_def)

lemma read_scores_no_fuel [simp]: "read_scores img ty n m p \<noteq> Inl FuelOut"
  by (induction img ty n m arbitrary: p rule: read_scores.induct) (auto simp: rbind_Inl ret_def)

lemma set_no_fuel [simp]: "set_u32 img f m p \<noteq> Inl FuelOut" "set_str img g m p \<noteq> Inl FuelOut"
  by (auto simp: set_u32_def set_str_def rbind_Inl ret_def)

lemma read_kv_no_fuel [simp]: "read_kv img key ty m p \<noteq> Inl FuelOut"
  unfolding read_kv_def by (simp add: rbind_Inl ret_def)

lemma read_kvs_no_fuel [simp]: "read_kvs img n m p \<noteq> Inl FuelOut"
  by (induction img n m arbitrary: p rule: read_kvs.induct) (auto simp: rbind_Inl ret_def)

lemma read_shape_no_fuel [simp]: "read_shape img n sh p \<noteq> Inl FuelOut"
  by (induction img n sh arbitrary: p rule: read_shape.induct) (auto simp: rbind_Inl ret_def)

lemma read_tensors_no_fuel [simp]: "read_tensors img n ts p \<noteq> Inl FuelOut"
  by (induction img n ts arbitrary: p rule: read_tensors.induct) (auto simp: rbind_Inl ret_def read_tensor_def)

text \<open>
  C13. Loading terminates on every file: the recursion of \<open>skip_value\<close> into nested arrays never exceeds the depth
  budget, so every file is either loaded, rejected, or makes the reader leave the mapping.
\<close>

theorem gguf_never_out_of_fuel: "parse_gguf img m0 \<noteq> Inl FuelOut"
  by (auto simp: parse_gguf_def rbind_Inl rbind_Inr ret_def Let_def split: sum.splits)

lemma derive_intermediate_tensors [simp]: "dm_tensors (derive_intermediate m) = dm_tensors m"
  by (auto simp: derive_intermediate_def upd_config_def split: option.splits)

text \<open>
  A model that loads has every tensor on a 32-byte boundary of the mapping, as the AVX2 kernels need.
\<close>

theorem loaded_tensors_aligned:
  assumes "parse_gguf img m0 = Inr (Some (m, start))" and "(n, t) \<in> set (dm_tensors m)"
  shows "tensor_offset start t mod 32 = 0"
proof -
  obtain ts where ts: "dm_tensors m = ts" "\<not> list_ex (\<lambda>(n, t). tensor_offset start t mod 32 \<noteq> 0) ts"
    using assms(1) by (auto simp: parse_gguf_def Let_def split: sum.splits if_splits)
  with assms(2) show ?thesis unfolding list_ex_iff by blast
qed

section \<open>Files as written\<close>

definition at_pos :: "u8 list \<Rightarrow> nat \<Rightarrow> u8 list \<Rightarrow> bool" where
  "at_pos img p xs \<longleftrightarrow> p + length xs \<le> length img \<and> take (length xs) (drop p img) = xs"

lemma at_pos_append: "at_pos img p (xs @ ys) \<longleftrightarrow> at_pos img p xs \<and> at_pos img (p + length xs) ys"
  by (auto simp: at_pos_def take_add drop_drop add.commute add.left_commute)

lemma at_pos_prefix: "img = xs @ ys \<Longrightarrow> at_pos img 0 xs"
  by (simp add: at_pos_def)

lemma rd_raw_at: "at_pos img p xs \<Longrightarrow> k = length xs \<Longrightarrow> rd_raw img k p = Inr (xs, p + k)"
  by (simp add: at_pos_def rd_raw_def)

lemma g_u32_at: "at_pos img p (enc_u32 w) \<Longrightarrow> g_u32 img p = Inr (w, p + 4)"
  by (simp add: g_u32_def rbind_def rd_raw_at [of img p "enc_u32 w"] u32c.enc_length u32c.dec_enc ret_def)

lemma g_u64_at: "at_pos img p (enc_u64 w) \<Longrightarrow> g_u64 img p = Inr (w, p + 8)"
  by (simp add: g_u64_def rbind_def rd_raw_at [of img p "enc_u64 w"] u64c.enc_length u64c.dec_enc ret_def)

definition enc_gstr :: "string \<Rightarrow> u8 list" where
  "enc_gstr s = enc_u64 (word_of_nat (length s)) @ map byte_of_char s"

lemma length_enc_gstr [simp]: "length (enc_gstr s) = 8 + length s"
  by (simp add: enc_gstr_def u64c.enc_length)

lemma read_string_at:
  "at_pos img p (enc_gstr s) \<Longrightarrow> length s < 2 ^ 64 \<Longrightarrow> read_string img p = Inr (s, p + (8 + length s))"
proof -
  assume a: "at_pos img p (enc_gstr s)" and l: "length s < 2 ^ 64"
  have u: "unat (word_of_nat (length s) :: u64) = length s" using l by (simp add: unat_of_nat)
  from a have 1: "g_u64 img p = Inr (word_of_nat (length s), p + 8)" and "at_pos img (p + 8) (map byte_of_char s)"
    by (auto simp: enc_gstr_def at_pos_append u64c.enc_length intro: g_u64_at)
  then have "rd_raw img (length s) (p + 8) = Inr (map byte_of_char s, p + 8 + length s)"
    by (intro rd_raw_at) auto
  with 1 u show ?thesis by (simp add: read_string_def rbind_def ret_def add.assoc)
qed

lemma alignment_not_skipped:
  "at_pos img p (enc_u32 a) \<Longrightarrow> read_kv img ''general.alignment'' 4 m p = Inr (upd_config (\<lambda>c. c\<lparr>alignment := a\<rparr>) m, p)"
  by (simp add: read_kv_def rbind_def peek_u32_def g_u32_at ret_def)

lemma misread_length:
  assumes "at_pos img p (enc_u32 a @ enc_u64 (word_of_nat n))" and "0 < n" and "n < 2 ^ 32" and "length img < 2 ^ 32"
  shows "read_string img p = Inl MemFault"
proof -
  let ?lo = "take 4 (enc_u64 (word_of_nat n))"
  have n: "unat (word_of_nat n :: u64) = n" using assms(3) by (simp add: unat_of_nat)
  have "?lo = nat_bytes 4 n" unfolding enc_u64_def n by (rule take_nat_bytes) simp
  then have lo: "bytes_nat ?lo = n" using assms(3) by (simp add: bytes_nat_nat_bytes)
  have at: "at_pos img p (enc_u32 a @ ?lo)"
    using assms(1) by (metis append_assoc append_take_drop_id at_pos_append)
  have "bytes_nat (enc_u32 a @ ?lo) = unat a + 2 ^ 32 * n"
  proof -
    have "unat a < 256 ^ 4" using unsigned_less [of a] by simp
    then have "bytes_nat (enc_u32 a) = unat a" by (simp add: enc_u32_def bytes_nat_nat_bytes)
    then show ?thesis using lo by (simp add: bytes_nat_append u32c.enc_length)
  qed
  then have "unat (dec_u64 (enc_u32 a @ ?lo)) = (unat a + 2 ^ 32 * n) mod 2 ^ 64"
    unfolding dec_u64_def by (simp only: unat_of_nat_u64)
  moreover have "unat a < 2 ^ 32" using unsigned_less [of a] by simp
  then have "unat a + 2 ^ 32 * n < 2 ^ 64" using assms(3) by simp
  ultimately have "unat (dec_u64 (enc_u32 a @ ?lo)) = unat a + 2 ^ 32 * n" by simp
  then have big: "length img < unat (dec_u64 (enc_u32 a @ ?lo))" using assms(2,4) by simp
  have "g_u64 img p = Inr (dec_u64 (enc_u32 a @ ?lo), p + 8)"
    using at by (simp add: g_u64_def rbind_def rd_raw_at [of img p "enc_u32 a @ ?lo"] u32c.enc_length u64c.enc_length ret_def)
  with big show ?thesis by (simp add: read_string_def rbind_def rd_raw_def)
qed


text \<open>A three-entry file with an alignment entry first.\<close>

definition demo_aligned_gguf :: "u8 list" where
  "demo_aligned_gguf = enc_u32 GGUF_MAGIC @ enc_u32 3 @ enc_u64 0 @ enc_u64 2 @
      enc_gstr ''general.alignment'' @ enc_u32 4 @ enc_u32 32 @ enc_gstr ''k'' @ enc_u32 4 @ enc_u32 7"


section \<open>Metadata round trip\<close>

lemma read_kvs_step:
  assumes "at_pos img p (enc_gstr key @ enc_u32 ty @ payload)" and "length key < 2 ^ 64"
    and "\<And>m. at_pos img (p + (12 + length key)) payload \<Longrightarrow> read_kv img key ty m (p + (12 + length key)) = Inr (f m, q)"
  shows "read_kvs img (Suc n) m p = read_kvs img n (f m) q"
proof -
  have "read_string img p = Inr (key, p + (8 + length key))" "g_u32 img (p + (8 + length key)) = Inr (ty, p + (12 + length key))"
      "at_pos img (p + (12 + length key)) payload"
    using assms(1,2) read_string_at [of img p key] g_u32_at [of img "p + (8 + length key)" ty]
    by (simp_all add: at_pos_append u32c.enc_length add.assoc)
  with assms(3) show ?thesis by (simp add: rbind_def)
qed

lemma set_u32_at: "at_pos img p (enc_u32 w) \<Longrightarrow> set_u32 img f m p = Inr (upd_config (f w) m, p + 4)"
  by (simp add: set_u32_def rbind_def g_u32_at ret_def)

lemma set_str_at: "at_pos img p (enc_gstr s) \<Longrightarrow> length s < 2 ^ 64 \<Longrightarrow> set_str img f m p = Inr (upd_config (f s) m, p + (8 + length s))"
  by (simp add: set_str_def rbind_def read_string_at ret_def)

lemma int_of_u64_small: "j < 2 ^ 31 \<Longrightarrow> int_of_u64 j = int j"
  by (simp add: int_of_u64_def signed_of_nat signed_take_bit_int_eq_self)

lemma read_tokens_at:
  "at_pos img p (concat (map enc_gstr toks)) \<Longrightarrow> \<forall>t \<in> set toks. length t < 2 ^ 64 \<and> t \<notin> set eos_names \<Longrightarrow> j + length toks \<le> 2 ^ 31 \<Longrightarrow>
   read_tokens img 8 j (length toks) m p =
     Inr (m\<lparr>dm_vocab := (dm_vocab m)\<lparr>v_tokens := v_tokens (dm_vocab m) @ toks, v_root := build_trie j toks (v_root (dm_vocab m))\<rparr>\<rparr>,
          p + length (concat (map enc_gstr toks)))"
proof (induction toks arbitrary: p j m)
  case (Cons t toks)
  have 1: "read_string img p = Inr (t, p + (8 + length t))" using Cons.prems by (intro read_string_at) (auto simp: at_pos_append)
  have 2: "at_pos img (p + (8 + length t)) (concat (map enc_gstr toks))" using Cons.prems(1) by (simp add: at_pos_append)
  have 3: "add_token j t m = m\<lparr>dm_vocab := (dm_vocab m)\<lparr>v_tokens := v_tokens (dm_vocab m) @ [t], v_root := trie_insert t (int j) (v_root (dm_vocab m))\<rparr>\<rparr>"
    using Cons.prems(2,3) int_of_u64_small [of j] by (auto simp: add_token_def Let_def)
  show ?case using Cons.IH [OF 2, of "Suc j" "add_token j t m"] Cons.prems(2,3) 1 by (simp add: rbind_def 3 add.assoc)
qed (simp add: ret_def)

text \<open>The metadata that a converted llama model carries, as bytes.\<close>

definition kv_u32 :: "string \<Rightarrow> u32 \<Rightarrow> u8 list" where "kv_u32 key w = enc_gstr key @ enc_u32 4 @ enc_u32 w"

definition llama_file :: "u32 \<Rightarrow> u32 \<Rightarrow> u32 \<Rightarrow> u32 \<Rightarrow> u32 \<Rightarrow> u32 \<Rightarrow> string list \<Rightarrow> u8 list" where
  "llama_file ctx emb layers heads kv_heads ffn toks =
     enc_u32 GGUF_MAGIC @ enc_u32 3 @ enc_u64 0 @ enc_u64 8 @
     (enc_gstr ''general.architecture'' @ enc_u32 8 @ enc_gstr ''llama'') @
     kv_u32 ''llama.context_length'' ctx @ kv_u32 ''llama.embedding_length'' emb @ kv_u32 ''llama.block_count'' layers @
     kv_u32 ''llama.attention.head_count'' heads @ kv_u32 ''llama.attention.head_count_kv'' kv_heads @
     kv_u32 ''llama.feed_forward_length'' ffn @
     (enc_gstr ''tokenizer.ggml.tokens'' @ enc_u32 9 @ enc_u32 8 @ enc_u64 (word_of_nat (length toks)) @ concat (map enc_gstr toks))"

lemma llama_keys:
  "read_kv img ''general.architecture'' 8 = set_str img (\<lambda>s c. c\<lparr>architecture := s\<rparr>)"
  "read_kv img ''llama.context_length'' 4 = set_u32 img (\<lambda>w c. c\<lparr>context_length := w\<rparr>)"
  "read_kv img ''llama.embedding_length'' 4 = set_u32 img (\<lambda>w c. c\<lparr>embedding_length := w\<rparr>)"
  "read_kv img ''llama.block_count'' 4 = set_u32 img (\<lambda>w c. c\<lparr>num_layers := w\<rparr>)"
  "read_kv img ''llama.attention.head_count'' 4 = set_u32 img (\<lambda>w c. c\<lparr>num_heads := w\<rparr>)"
  "read_kv img ''llama.attention.head_count_kv'' 4 = set_u32 img (\<lambda>w c. c\<lparr>num_kv_heads := w\<rparr>)"
  "read_kv img ''llama.feed_forward_length'' 4 = set_u32 img (\<lambda>w c. c\<lparr>intermediate_dim := w\<rparr>)"
  by (rule ext, simp add: read_kv_def contains_def)+

lemma length_kv_u32 [simp]: "length (kv_u32 key w) = 16 + length key"
  by (simp add: kv_u32_def u32c.enc_length)

lemma read_u32_kv:
  assumes "at_pos img p (kv_u32 key w)" and "length key < 2 ^ 64" and "read_kv img key 4 = set_u32 img f"
  shows "read_kvs img (Suc n) m p = read_kvs img n (upd_config (f w) m) (p + (16 + length key))"
  using assms
  by (intro read_kvs_step [of img p key 4 "enc_u32 w" "upd_config (f w)"])
     (auto simp: kv_u32_def set_u32_at)

lemma read_tokens_kv:
  assumes "at_pos img p (enc_gstr ''tokenizer.ggml.tokens'' @ enc_u32 9 @ enc_u32 8 @ enc_u64 (word_of_nat (length toks)) @ concat (map enc_gstr toks))"
    and "\<forall>t \<in> set toks. length t < 2 ^ 64 \<and> t \<notin> set eos_names" and "length toks \<le> 2 ^ 31"
  shows "\<exists>q. read_kvs img (Suc n) m p = read_kvs img n
    (m\<lparr>dm_vocab := (dm_vocab m)\<lparr>v_tokens := v_tokens (dm_vocab m) @ toks, v_root := build_trie 0 toks (v_root (dm_vocab m))\<rparr>,
       dm_config := (dm_config m)\<lparr>vocab_size := word_of_nat (length toks)\<rparr>\<rparr>) q"
proof -
  let ?q = "p + 33"
  have u: "unat (word_of_nat (length toks) :: u64) = length toks" using assms(3) by (simp add: unat_of_nat)
  have a: "at_pos img ?q (enc_u32 8)" "at_pos img (?q + 4) (enc_u64 (word_of_nat (length toks)))" "at_pos img (?q + 12) (concat (map enc_gstr toks))"
    using assms(1) by (simp_all add: at_pos_append u32c.enc_length u64c.enc_length add.assoc)
  have uc: "(ucast (word_of_nat (length toks) :: u64) :: u32) = word_of_nat (length toks)"
    using assms(3) by (simp add: unsigned_of_nat take_bit_nat_eq_self)
  have kv: "read_kv img ''tokenizer.ggml.tokens'' 9 m ?q = Inr
      (m\<lparr>dm_vocab := (dm_vocab m)\<lparr>v_tokens := v_tokens (dm_vocab m) @ toks, v_root := build_trie 0 toks (v_root (dm_vocab m))\<rparr>,
         dm_config := (dm_config m)\<lparr>vocab_size := word_of_nat (length toks)\<rparr>\<rparr>, ?q + 12 + length (concat (map enc_gstr toks)))"
    using g_u32_at [OF a(1)] g_u64_at [OF a(2)] read_tokens_at [OF a(3) assms(2), of 0 m] assms(3) u uc
    by (simp add: read_kv_def rbind_def ret_def upd_config_def)
  have "read_string img p = Inr (''tokenizer.ggml.tokens'', p + 29)" "g_u32 img (p + 29) = Inr (9, p + 33)"
    using assms(1) read_string_at [of img p "''tokenizer.ggml.tokens''"] g_u32_at [of img "p + 29" 9]
    by (simp_all add: at_pos_append u32c.enc_length)
  with kv show ?thesis by (auto simp: rbind_def)
qed



definition demo_tensor_gguf :: "u8 list" where
  "demo_tensor_gguf = enc_u32 GGUF_MAGIC @ enc_u32 3 @ enc_u64 1 @ enc_u64 0 @
     enc_gstr ''t'' @ enc_u32 1 @ enc_u64 2 @ enc_u32 2 @ enc_u64 64"

theorem loaded_tensors_aligned_witness:
  "\<exists>m start t. parse_gguf demo_tensor_gguf new_dense_model = Inr (Some (m, start)) \<and>
     (''t'', t) \<in> set (dm_tensors m) \<and> tensor_offset start t mod 32 = 0"
proof -
  let ?img = demo_tensor_gguf
  have "at_pos ?img 0 (enc_u32 GGUF_MAGIC @ enc_u32 3 @ enc_u64 1 @ enc_u64 0 @
     enc_gstr ''t'' @ enc_u32 1 @ enc_u64 2 @ enc_u32 2 @ enc_u64 64)" by (simp add: demo_tensor_gguf_def at_pos_def)
  then have a: "at_pos ?img 0 (enc_u32 GGUF_MAGIC)" "at_pos ?img 4 (enc_u32 3)" "at_pos ?img 8 (enc_u64 1)" "at_pos ?img 16 (enc_u64 0)"
      "at_pos ?img 24 (enc_gstr ''t'')" "at_pos ?img 33 (enc_u32 1)" "at_pos ?img 37 (enc_u64 2)" "at_pos ?img 45 (enc_u32 2)" "at_pos ?img 49 (enc_u64 64)"
    by (simp_all add: at_pos_append u32c.enc_length u64c.enc_length)
  have "\<exists>m start. parse_gguf ?img new_dense_model = Inr (Some (m, start)) \<and> map fst (dm_tensors m) = [''t'']"
    using g_u32_at [OF a(1)] g_u32_at [OF a(2)] g_u64_at [OF a(3)] g_u64_at [OF a(4)] read_string_at [OF a(5)] g_u32_at [OF a(6)]
      g_u64_at [OF a(7)] g_u32_at [OF a(8)] g_u64_at [OF a(9)]
    by (simp add: parse_gguf_def rbind_def ret_def read_tensor_def new_dense_model_def upd_config_def derive_dims_def default_config_def
        default_rope_def f_10000_def tensor_data_start_def tensor_offset_def Let_def)
  then obtain m start where r: "parse_gguf ?img new_dense_model = Inr (Some (m, start))" and n: "map fst (dm_tensors m) = [''t'']"
    by (elim exE conjE)
  then obtain t where "(''t'', t) \<in> set (dm_tensors m)" by (cases "dm_tensors m") auto
  with r loaded_tensors_aligned [OF r] show ?thesis by blast
qed

end
