(* ===== verification/Json_Model.thy ===== *)
theory Json_Model
  imports DL_Prelude
begin

text \<open>
  JSON values as the program sees them through the vendored \<open>nlohmann::json\<close> library: the parser and the
  serialiser are arguments of the definitions that use them (\<open>parse :: string \<Rightarrow> json option\<close>, \<open>None\<close> being a
  thrown parse error); the accessors below follow the documented behaviour of \<open>contains\<close>, \<open>operator[]\<close>,
  \<open>value\<close> and \<open>get<T>\<close>, with \<open>None\<close> for a thrown type error. A double is its 64-bit pattern, and its
  conversions to \<open>int\<close> and \<open>float\<close> are given by the record \<open>num_ops\<close>.
\<close>

datatype json =
    JNull
  | JBool bool
  | JInt int
  | JReal u64
  | JString string
  | JArray "json list"
  | JObject "(string \<times> json) list"

record num_ops =
  double_to_int :: "u64 \<Rightarrow> int"
  double_to_float :: "u64 \<Rightarrow> u32"
  int_to_float :: "int \<Rightarrow> u32"

fun jcontains :: "json \<Rightarrow> string \<Rightarrow> bool" where
  "jcontains (JObject fs) k \<longleftrightarrow> map_of fs k \<noteq> None"
| "jcontains _ k \<longleftrightarrow> False"

text \<open>\<open>j[k]\<close> where the key is known to be there.\<close>

fun jget :: "json \<Rightarrow> string \<Rightarrow> json option" where
  "jget (JObject fs) k = map_of fs k"
| "jget _ k = None"

fun is_string :: "json \<Rightarrow> bool" where "is_string (JString s) = True" | "is_string _ = False"
fun is_array :: "json \<Rightarrow> bool" where "is_array (JArray a) = True" | "is_array _ = False"
fun is_object :: "json \<Rightarrow> bool" where "is_object (JObject a) = True" | "is_object _ = False"

fun get_string :: "json \<Rightarrow> string option" where "get_string (JString s) = Some s" | "get_string _ = None"
fun elements :: "json \<Rightarrow> json list" where "elements (JArray a) = a" | "elements _ = []"

text \<open>\<open>get<int>\<close>: a 64-bit integer is cut to 32 bits; booleans convert too.\<close>

definition cut_int :: "int \<Rightarrow> int" where "cut_int i = sint (word_of_int i :: u32)"

fun get_int :: "num_ops \<Rightarrow> json \<Rightarrow> int option" where
  "get_int N (JInt i) = Some (cut_int i)"
| "get_int N (JReal d) = Some (double_to_int N d)"
| "get_int N (JBool b) = Some (if b then 1 else 0)"
| "get_int N _ = None"

fun get_float :: "num_ops \<Rightarrow> json \<Rightarrow> u32 option" where
  "get_float N (JInt i) = Some (int_to_float N i)"
| "get_float N (JReal d) = Some (double_to_float N d)"
| "get_float N (JBool b) = Some (int_to_float N (if b then 1 else 0))"
| "get_float N _ = None"

fun get_bool :: "json \<Rightarrow> bool option" where "get_bool (JBool b) = Some b" | "get_bool _ = None"

text \<open>\<open>j.value(key, default)\<close>: a type error on anything but an object.\<close>

definition jvalue :: "(json \<Rightarrow> 'a option) \<Rightarrow> json \<Rightarrow> string \<Rightarrow> 'a \<Rightarrow> 'a option" where
  "jvalue getter j k def =
     (case j of JObject fs \<Rightarrow> (case map_of fs k of None \<Rightarrow> Some def | Some v \<Rightarrow> getter v) | _ \<Rightarrow> None)"

lemma jcontains_iff: "jcontains j k \<longleftrightarrow> jget j k \<noteq> None"
  by (cases j) auto

lemma cut_int_id: "- (2 ^ 31) \<le> i \<Longrightarrow> i < 2 ^ 31 \<Longrightarrow> cut_int i = i"
  by (simp add: cut_int_def signed_of_int signed_take_bit_int_eq_self)

lemma jvalue_object [simp]:
  "jvalue getter (JObject fs) k def = (case map_of fs k of None \<Rightarrow> Some def | Some v \<Rightarrow> getter v)"
  by (simp add: jvalue_def)

end
