(* ===== verification/Request_Model.thy ===== *)
theory Request_Model
  imports Json_Model Model_Types "HOL-Library.Monad_Syntax"
begin

text \<open>
  The OpenAI-style request (\<open>RequestAnalyzer.hpp\<close>, \<open>RequestAnalyzer.cpp\<close>): parsing the body, compiling the
  chat prompt for the model's template and the keyword classifier. Every exception inside \<open>parse_request\<close> is
  rethrown as \<open>invalid_argument\<close>, which is the value \<open>None\<close>. The wall clock reading is an argument.
\<close>

section \<open>Data\<close>

record openai_tool_function =
  tf_name :: string
  tf_description :: string
  tf_parameters_schema :: string

record openai_tool =
  tool_type :: string
  tool_function :: openai_tool_function

record openai_message =
  msg_role :: string
  msg_content :: string
  msg_name :: string
  msg_tool_call_id :: string

record openai_request =
  rq_model :: string
  rq_messages :: "openai_message list"
  rq_tools :: "openai_tool list"
  rq_max_tokens :: int
  rq_temperature :: f32
  rq_repetition_penalty :: f32
  rq_session_id :: string
  rq_use_context :: bool
  rq_stream :: bool

section \<open>Parsing\<close>

definition generate_session_id :: "nat \<Rightarrow> string" where
  "generate_session_id now_ms = ''req_'' @ nat_digits now_ms"

text \<open>\<open>j.contains(k) && j[k].is_string() && !j[k].get<std::string>().empty()\<close>.\<close>

definition nonempty_string_at :: "json \<Rightarrow> string \<Rightarrow> string option" where
  "nonempty_string_at j k =
     (case jget j k of Some (JString s) \<Rightarrow> (if s = [] then None else Some s) | _ \<Rightarrow> None)"

definition parse_session_id :: "nat \<Rightarrow> json \<Rightarrow> string" where
  "parse_session_id now_ms j =
     (case nonempty_string_at j ''session_id'' of Some s \<Rightarrow> s
      | None \<Rightarrow> (case nonempty_string_at j ''conversation_id'' of Some s \<Rightarrow> s
      | None \<Rightarrow> (case nonempty_string_at j ''user'' of Some s \<Rightarrow> s
      | None \<Rightarrow> generate_session_id now_ms)))"

fun combine_parts :: "json list \<Rightarrow> string option" where
  "combine_parts [] = Some []"
| "combine_parts (p # ps) =
     (if jget p ''type'' = Some (JString ''text'') \<and> jcontains p ''text''
      then do { t \<leftarrow> jget p ''text'' \<bind> get_string; rest \<leftarrow> combine_parts ps; Some (t @ rest) }
      else combine_parts ps)"

definition parse_message :: "json \<Rightarrow> openai_message option" where
  "parse_message msg =
     do { role \<leftarrow> jvalue get_string msg ''role'' [];
          content \<leftarrow> (case jget msg ''content'' of
                        Some (JString s) \<Rightarrow> Some s
                      | Some (JArray ps) \<Rightarrow> combine_parts ps
                      | _ \<Rightarrow> Some []);
          Some \<lparr>msg_role = role, msg_content = content, msg_name = [], msg_tool_call_id = []\<rparr> }"

definition parse_tool :: "(json \<Rightarrow> string) \<Rightarrow> json \<Rightarrow> openai_tool option" where
  "parse_tool dump t =
     do { ty \<leftarrow> jvalue get_string t ''type'' ''function'';
          fn \<leftarrow> (case jget t ''function'' of
                   None \<Rightarrow> Some \<lparr>tf_name = [], tf_description = [], tf_parameters_schema = []\<rparr>
                 | Some f \<Rightarrow>
                     do { name \<leftarrow> jvalue get_string f ''name'' [];
                          descr \<leftarrow> jvalue get_string f ''description'' [];
                          Some \<lparr>tf_name = name, tf_description = descr,
                                tf_parameters_schema = (case jget f ''parameters'' of Some p \<Rightarrow> dump p | None \<Rightarrow> [])\<rparr> });
          Some \<lparr>tool_type = ty, tool_function = fn\<rparr> }"

fun mapM_opt :: "('a \<Rightarrow> 'b option) \<Rightarrow> 'a list \<Rightarrow> 'b list option" where
  "mapM_opt f [] = Some []"
| "mapM_opt f (x # xs) = do { y \<leftarrow> f x; ys \<leftarrow> mapM_opt f xs; Some (y # ys) }"

definition array_at :: "json \<Rightarrow> string \<Rightarrow> json list" where
  "array_at j k = (case jget j k of Some (JArray a) \<Rightarrow> a | _ \<Rightarrow> [])"

fun parse_bool_val :: "num_ops \<Rightarrow> json \<Rightarrow> bool" where
  "parse_bool_val N (JBool b) = b"
| "parse_bool_val N (JInt i) = (cut_int i \<noteq> 0)"
| "parse_bool_val N (JReal d) = (double_to_int N d \<noteq> 0)"
| "parse_bool_val N (JString s) = (s = ''true'' \<or> s = ''1'')"
| "parse_bool_val N _ = False"

definition parse_use_context :: "num_ops \<Rightarrow> json \<Rightarrow> bool" where
  "parse_use_context N j =
     (case jget j ''use_context'' of Some v \<Rightarrow> parse_bool_val N v
      | None \<Rightarrow> (case jget j ''inject_context'' of Some v \<Rightarrow> parse_bool_val N v
      | None \<Rightarrow> (case jget j ''rag'' of Some v \<Rightarrow> parse_bool_val N v | None \<Rightarrow> True)))"

text \<open>The literals \<open>0.7f\<close> and \<open>1.15f\<close>.\<close>

definition f_0_7 :: f32 where "f_0_7 = 0x3F333333"
definition f_1_15 :: f32 where "f_1_15 = 0x3F933333"

definition parse_request_json :: "num_ops \<Rightarrow> (json \<Rightarrow> string) \<Rightarrow> nat \<Rightarrow> json \<Rightarrow> openai_request option" where
  "parse_request_json N dump now_ms j =
     do { model \<leftarrow> jvalue get_string j ''model'' ''denselite'';
          max_toks \<leftarrow> jvalue (get_int N) j ''max_tokens'' 512;
          max_compl \<leftarrow> jvalue (get_int N) j ''max_completion_tokens'' max_toks;
          temp \<leftarrow> jvalue (get_float N) j ''temperature'' f_0_7;
          pen \<leftarrow> jvalue (get_float N) j ''repetition_penalty'' f_1_15;
          strm \<leftarrow> jvalue get_bool j ''stream'' True;
          msgs \<leftarrow> mapM_opt parse_message (array_at j ''messages'');
          tools \<leftarrow> mapM_opt (parse_tool dump) (array_at j ''tools'');
          Some \<lparr>rq_model = model, rq_messages = msgs, rq_tools = tools, rq_max_tokens = max_compl, rq_temperature = temp,
                rq_repetition_penalty = pen, rq_session_id = parse_session_id now_ms j,
                rq_use_context = parse_use_context N j, rq_stream = strm\<rparr> }"

definition parse_request ::
  "(string \<Rightarrow> json option) \<Rightarrow> num_ops \<Rightarrow> (json \<Rightarrow> string) \<Rightarrow> nat \<Rightarrow> string \<Rightarrow> openai_request option" where
  "parse_request parse N dump now_ms raw_json_body = parse raw_json_body \<bind> parse_request_json N dump now_ms"

section \<open>The chat prompt\<close>

definition is_llama :: "model_config \<Rightarrow> bool" where
  "is_llama cfg =
     (if contains (chat_template cfg) ''<|start_header_id|>'' then True
      else if contains (chat_template cfg) ''<|im_start|>'' then False
      else contains (architecture cfg) ''llama'')"

definition llama_message :: "openai_message \<Rightarrow> string" where
  "llama_message m = ''<|start_header_id|>'' @ msg_role m @ ''<|end_header_id|>'' @ [CHR 0x0A, CHR 0x0A] @ msg_content m @ ''<|eot_id|>''"

definition chatml_message :: "openai_message \<Rightarrow> string" where
  "chatml_message m = ''<|im_start|>'' @ msg_role m @ [CHR 0x0A] @ msg_content m @ [CHR 0x0A] @ ''<|im_end|>'' @ [CHR 0x0A]"

definition compile_prompt :: "openai_request \<Rightarrow> model_config \<Rightarrow> string" where
  "compile_prompt req cfg =
     (if is_llama cfg
      then ''<|begin_of_text|>'' @ concat (map llama_message (rq_messages req)) @
           ''<|start_header_id|>assistant<|end_header_id|>'' @ [CHR 0x0A, CHR 0x0A]
      else concat (map chatml_message (rq_messages req)) @ ''<|im_start|>assistant'' @ [CHR 0x0A])"

section \<open>Keyword classification\<close>

definition quoted :: "string \<Rightarrow> string" where "quoted s = CHR 0x22 # s @ [CHR 0x22]"

definition image_keywords :: "string list" where
  "image_keywords = [quoted ''image_url'', ''data:image'', ''generate image'', ''create picture'', ''draw'', ''illustration'']"
definition audio_keywords :: "string list" where
  "audio_keywords = [''transcribe'', ''speech to text'', ''voice'', ''recording'', ''audio'']"
definition reasoning_keywords :: "string list" where
  "reasoning_keywords = [''architect'', ''plan'', ''calculate'', ''solve'', ''design'']"
definition coding_keywords :: "string list" where
  "coding_keywords = [''code'', ''function'', ''script'', ''c++'', ''python'', ''implement'']"

definition has_any :: "string \<Rightarrow> string list \<Rightarrow> bool" where
  "has_any s kws \<longleftrightarrow> list_ex (contains s) kws"

fun scan_messages :: "openai_message list \<Rightarrow> string option" where
  "scan_messages [] = None"
| "scan_messages (m # ms) =
     (if has_any (msg_content m) image_keywords then Some ''image''
      else if has_any (msg_content m) audio_keywords then Some ''audio''
      else scan_messages ms)"

definition categorize_last :: "string \<Rightarrow> string" where
  "categorize_last lower_msg =
     (if has_any lower_msg image_keywords then ''image''
      else if has_any lower_msg audio_keywords then ''audio''
      else if has_any lower_msg reasoning_keywords then ''reasoning''
      else if has_any lower_msg coding_keywords then ''coding''
      else ''text'')"

definition categorize_request :: "openai_request \<Rightarrow> string" where
  "categorize_request req =
     (case scan_messages (rq_messages req) of
        Some c \<Rightarrow> c
      | None \<Rightarrow> if rq_messages req = [] then ''text'' else categorize_last (lower (msg_content (last (rq_messages req)))))"

section \<open>Properties\<close>

text \<open>The body a client sends for a given request.\<close>

definition message_json :: "openai_message \<Rightarrow> json" where
  "message_json m = JObject [(''role'', JString (msg_role m)), (''content'', JString (msg_content m))]"

definition tool_json :: "openai_tool \<Rightarrow> json \<Rightarrow> json" where
  "tool_json t params = JObject [(''type'', JString (tool_type t)),
     (''function'', JObject [(''name'', JString (tf_name (tool_function t))),
        (''description'', JString (tf_description (tool_function t))), (''parameters'', params)])]"

lemma mapM_opt_map: "(\<And>x. x \<in> set xs \<Longrightarrow> f (g x) = Some x) \<Longrightarrow> mapM_opt f (map g xs) = Some xs"
  by (induction xs) auto

lemma parse_message_json: "msg_name m = [] \<Longrightarrow> msg_tool_call_id m = [] \<Longrightarrow> parse_message (message_json m) = Some m"
  by (simp add: parse_message_def message_json_def)

lemma parse_tool_json:
  "dump (schema t) = tf_parameters_schema (tool_function t) \<Longrightarrow> parse_tool dump (tool_json t (schema t)) = Some t"
  by (cases t, cases "tool_function t") (simp add: parse_tool_def tool_json_def)

text \<open>
  The request a client describes is the request the server works with: parsing the JSON body that
  carries a session, model, limits, messages and tools gives back exactly these (numbers as the client's
  values convert to \<open>int\<close> and \<open>float\<close>).
\<close>

theorem parse_request_round_trip:
  assumes "parse body = Some (JObject
      [(''session_id'', JString (rq_session_id r)), (''model'', JString (rq_model r)),
       (''max_tokens'', JInt (rq_max_tokens r)), (''temperature'', JReal t), (''repetition_penalty'', JReal p),
       (''stream'', JBool (rq_stream r)), (''use_context'', JBool (rq_use_context r)),
       (''messages'', JArray (map message_json (rq_messages r))),
       (''tools'', JArray (map (\<lambda>x. tool_json x (schema x)) (rq_tools r)))])"
    and "double_to_float N t = rq_temperature r" and "double_to_float N p = rq_repetition_penalty r"
    and "rq_session_id r \<noteq> []" and "- (2 ^ 31) \<le> rq_max_tokens r" and "rq_max_tokens r < 2 ^ 31"
    and "\<forall>m \<in> set (rq_messages r). msg_name m = [] \<and> msg_tool_call_id m = []"
    and "\<forall>x \<in> set (rq_tools r). dump (schema x) = tf_parameters_schema (tool_function x)"
  shows "parse_request parse N dump now body = Some r"
proof -
  have "mapM_opt parse_message (map message_json (rq_messages r)) = Some (rq_messages r)"
    using assms(7) by (intro mapM_opt_map) (auto intro: parse_message_json)
  moreover have "mapM_opt (parse_tool dump) (map (\<lambda>x. tool_json x (schema x)) (rq_tools r)) = Some (rq_tools r)"
    using assms(8) by (intro mapM_opt_map) (auto intro: parse_tool_json)
  ultimately show ?thesis
    using assms(1-6)
    by (simp add: parse_request_def parse_request_json_def array_at_def parse_session_id_def nonempty_string_at_def
        parse_use_context_def cut_int_id)
qed

definition demo_request :: openai_request where
  "demo_request = \<lparr>rq_model = ''m'', rq_messages = [\<lparr>msg_role = ''user'', msg_content = ''hi'', msg_name = [], msg_tool_call_id = []\<rparr>],
     rq_tools = [], rq_max_tokens = 64, rq_temperature = f_0_7, rq_repetition_penalty = f_1_15, rq_session_id = ''s1'',
     rq_use_context = True, rq_stream = False\<rparr>"

definition demo_body :: json where
  "demo_body = JObject
      [(''session_id'', JString ''s1''), (''model'', JString ''m''),
       (''max_tokens'', JInt 64), (''temperature'', JReal 1), (''repetition_penalty'', JReal 2),
       (''stream'', JBool False), (''use_context'', JBool True),
       (''messages'', JArray [message_json \<lparr>msg_role = ''user'', msg_content = ''hi'', msg_name = [], msg_tool_call_id = []\<rparr>]),
       (''tools'', JArray [])]"

definition demo_num :: num_ops where
  "demo_num = \<lparr>double_to_int = (\<lambda>d. 0), double_to_float = (\<lambda>d. if d = 1 then f_0_7 else f_1_15), int_to_float = (\<lambda>i. 0)\<rparr>"

theorem parse_request_round_trip_witness:
  "parse_request (\<lambda>_. Some demo_body) demo_num (\<lambda>_. []) 0 ''body'' = Some demo_request"
  by (rule parse_request_round_trip [where t = 1 and p = 2 and schema = "\<lambda>_. JNull"])
     (simp_all add: demo_body_def demo_request_def demo_num_def)

lemma nonempty_string_at_Some: "nonempty_string_at j k = Some s \<Longrightarrow> s \<noteq> []"
  by (auto simp: nonempty_string_at_def split: option.splits json.splits if_splits)

lemma parse_session_id_nonempty: "parse_session_id now j \<noteq> []"
  by (auto simp: parse_session_id_def generate_session_id_def dest: nonempty_string_at_Some split: option.splits)

text \<open>
  Every accepted request has a session: the parsed session identifier is never empty.
\<close>

theorem parsed_session_id_nonempty:
  "parse_request parse N dump now body = Some r \<Longrightarrow> rq_session_id r \<noteq> []"
  by (auto simp: parse_request_def parse_request_json_def bind_eq_Some_conv parse_session_id_nonempty)

theorem parsed_session_id_nonempty_witness: "rq_session_id (the (parse_request (\<lambda>_. Some demo_body) demo_num (\<lambda>_. []) 0 ''b'')) \<noteq> []"
proof -
  have "parse_request (\<lambda>_. Some demo_body) demo_num (\<lambda>_. []) 0 ''b'' = Some (the (parse_request (\<lambda>_. Some demo_body) demo_num (\<lambda>_. []) 0 ''b''))"
    by code_simp
  then show ?thesis by (rule parsed_session_id_nonempty)
qed

text \<open>
  The classifier answers \<open>text\<close> exactly when no message carries an image or audio keyword as written and
  the last message, in lower case, carries no keyword at all; the answer is always one of the five classes.
\<close>

theorem categorize_text_iff:
  "(categorize_request r = ''text'' \<longleftrightarrow>
      (\<forall>m \<in> set (rq_messages r). \<not> has_any (msg_content m) image_keywords \<and> \<not> has_any (msg_content m) audio_keywords) \<and>
      (rq_messages r = [] \<or>
       \<not> (\<exists>kws \<in> {image_keywords, audio_keywords, reasoning_keywords, coding_keywords}.
            has_any (lower (msg_content (last (rq_messages r)))) kws))) \<and>
   categorize_request r \<in> {''image'', ''audio'', ''reasoning'', ''coding'', ''text''}"
proof -
  have scan: "scan_messages ms = None \<longleftrightarrow>
      (\<forall>m \<in> set ms. \<not> has_any (msg_content m) image_keywords \<and> \<not> has_any (msg_content m) audio_keywords)" for ms
    by (induction ms) auto
  have vals: "scan_messages ms \<in> {None, Some ''image'', Some ''audio''}" for ms by (induction ms) auto
  show ?thesis
  proof (cases "scan_messages (rq_messages r)")
    case None
    then show ?thesis using scan [of "rq_messages r"] by (auto simp: categorize_request_def categorize_last_def)
  next
    case (Some c)
    then have "c = ''image'' \<or> c = ''audio''" using vals [of "rq_messages r"] by auto
    with Some scan [of "rq_messages r"] show ?thesis by (auto simp: categorize_request_def)
  qed
qed

theorem categorize_text_iff_witness: "categorize_request demo_request \<in> {''image'', ''audio'', ''reasoning'', ''coding'', ''text''}"
  using categorize_text_iff [of demo_request] by blast

end
