(* ===== verification/Tool_Registry.thy ===== *)
theory Tool_Registry
  imports Request_Model
begin

text \<open>
  \<open>SessionToolRegistry\<close> (\<open>SessionToolRegistry.hpp\<close>, \<open>SessionToolRegistry.cpp\<close>): the tool catalogues cached per
  session, bounded in number by evicting the session accessed longest ago. The clock reading is an argument
  of every operation that stamps an access; \<open>register_tools\<close> runs the eviction loop with fuel.
\<close>

record tool_registry =
  tr_max_sessions :: size_t
  tr_catalogs :: "(string, (string, openai_tool) omap) omap"
  tr_timestamps :: "(string, int) omap"

definition new_tool_registry :: tool_registry where
  "new_tool_registry = \<lparr>tr_max_sessions = 32, tr_catalogs = [], tr_timestamps = []\<rparr>"

fun oldest_access :: "string option \<Rightarrow> int \<Rightarrow> (string \<times> int) list \<Rightarrow> string option" where
  "oldest_access oldest oldest_time [] = oldest"
| "oldest_access oldest oldest_time ((sid, t) # ts) =
     (if t < oldest_time then oldest_access (Some sid) t ts else oldest_access oldest oldest_time ts)"

definition erase_session :: "string \<Rightarrow> tool_registry \<Rightarrow> tool_registry" where
  "erase_session sid r = r\<lparr>tr_timestamps := om_erase sid (tr_timestamps r), tr_catalogs := om_erase sid (tr_catalogs r)\<rparr>"

definition evict_oldest_locked :: "tool_registry \<Rightarrow> tool_registry" where
  "evict_oldest_locked r =
     (case tr_catalogs r of [] \<Rightarrow> r
      | (first, _) # _ \<Rightarrow>
          (case oldest_access None 9223372036854775807 (tr_timestamps r) of
             Some evicted \<Rightarrow> erase_session evicted r
           | None \<Rightarrow> erase_session first r))"

definition add_tool :: "openai_tool \<Rightarrow> (string, openai_tool) omap \<Rightarrow> (string, openai_tool) omap" where
  "add_tool t catalog =
     (if tf_name (tool_function t) = [] then catalog else om_put (tf_name (tool_function t)) t catalog)"

definition session_count :: "tool_registry \<Rightarrow> nat" where
  "session_count r = length (tr_catalogs r)"

definition register_tools :: "nat \<Rightarrow> int \<Rightarrow> string \<Rightarrow> openai_tool list \<Rightarrow> tool_registry \<Rightarrow> tool_registry option" where
  "register_tools fuel now sid tools r =
     (if sid = [] \<or> tools = [] then Some r
      else
        case (if map_of (tr_catalogs r) sid = None
              then evict_loop session_count evict_oldest_locked fuel (unat (tr_max_sessions r)) r else Some r) of
          None \<Rightarrow> None
        | Some r1 \<Rightarrow>
            let catalog = (case map_of (tr_catalogs r1) sid of Some c \<Rightarrow> c | None \<Rightarrow> [])
            in Some (r1\<lparr>tr_catalogs := om_put sid (fold add_tool tools catalog) (tr_catalogs r1),
                        tr_timestamps := om_put sid now (tr_timestamps r1)\<rparr>))"

definition touch :: "int \<Rightarrow> string \<Rightarrow> tool_registry \<Rightarrow> tool_registry" where
  "touch now sid r = r\<lparr>tr_timestamps := om_put sid now (tr_timestamps r)\<rparr>"

definition has_tools :: "int \<Rightarrow> string \<Rightarrow> tool_registry \<Rightarrow> bool \<times> tool_registry" where
  "has_tools now sid r =
     (if sid = [] then (False, r)
      else case map_of (tr_catalogs r) sid of
             Some c \<Rightarrow> if c \<noteq> [] then (True, touch now sid r) else (False, r)
           | None \<Rightarrow> (False, r))"

definition get_all_tools :: "int \<Rightarrow> string \<Rightarrow> tool_registry \<Rightarrow> openai_tool list \<times> tool_registry" where
  "get_all_tools now sid r =
     (if sid = [] then ([], r)
      else case map_of (tr_catalogs r) sid of
             Some c \<Rightarrow> (map snd c, touch now sid r)
           | None \<Rightarrow> ([], r))"

definition get_tools_by_names :: "int \<Rightarrow> string \<Rightarrow> string list \<Rightarrow> tool_registry \<Rightarrow> openai_tool list \<times> tool_registry" where
  "get_tools_by_names now sid names r =
     (if sid = [] \<or> names = [] then ([], r)
      else case map_of (tr_catalogs r) sid of
             Some c \<Rightarrow> (List.map_filter (map_of c) names, touch now sid r)
           | None \<Rightarrow> ([], r))"

definition clear_session :: "string \<Rightarrow> tool_registry \<Rightarrow> tool_registry" where
  "clear_session sid r = (if sid = [] then r else erase_session sid r)"

section \<open>Invariant and eviction\<close>

definition tool_registry_ok :: "tool_registry \<Rightarrow> bool" where
  "tool_registry_ok r \<longleftrightarrow> om_wf (tr_catalogs r) \<and> om_wf (tr_timestamps r) \<and>
     dom (map_of (tr_timestamps r)) = dom (map_of (tr_catalogs r)) \<and>
     (\<forall>c \<in> ran (map_of (tr_catalogs r)). om_wf c)"

lemma tool_registry_ok_new [simp]: "tool_registry_ok new_tool_registry"
  by (simp add: tool_registry_ok_def new_tool_registry_def om_wf_def)

lemma oldest_access_in: "oldest_access b t ts = Some sid \<Longrightarrow> b = Some sid \<or> sid \<in> fst ` set ts"
  by (induction b t ts rule: oldest_access.induct) (auto split: if_splits)

lemma erase_session_ok: "tool_registry_ok r \<Longrightarrow> tool_registry_ok (erase_session sid r)"
  by (auto simp: tool_registry_ok_def erase_session_def ran_def split: if_splits)

lemma erase_session_count:
  "tool_registry_ok r \<Longrightarrow> sid \<in> dom (map_of (tr_catalogs r)) \<Longrightarrow> session_count (erase_session sid r) = session_count r - 1"
  by (auto simp: session_count_def erase_session_def length_om_erase tool_registry_ok_def)

lemma evict_oldest_locked_erases:
  assumes "tool_registry_ok r" and "tr_catalogs r \<noteq> []"
  shows "\<exists>sid \<in> dom (map_of (tr_catalogs r)). evict_oldest_locked r = erase_session sid r"
proof -
  obtain s0 c0 cs where c: "tr_catalogs r = (s0, c0) # cs" using assms(2) by (metis list.exhaust prod.exhaust)
  show ?thesis
  proof (cases "oldest_access None 9223372036854775807 (tr_timestamps r)")
    case None
    with c show ?thesis by (intro bexI [of _ s0]) (auto simp: evict_oldest_locked_def)
  next
    case (Some sid)
    have "sid \<in> dom (map_of (tr_timestamps r))" using oldest_access_in [OF Some] by (auto simp: dom_map_of_conv_image_fst)
    with Some c assms(1) show ?thesis
      by (intro bexI [of _ sid]) (auto simp: evict_oldest_locked_def tool_registry_ok_def simp del: map_of.simps)
  qed
qed

interpretation tool_store: eviction_store tool_registry_ok session_count evict_oldest_locked
proof
  fix r
  show "tool_registry_ok (evict_oldest_locked r)" if "tool_registry_ok r"
    using evict_oldest_locked_erases [OF that] erase_session_ok that
    by (cases "tr_catalogs r = []") (auto simp: evict_oldest_locked_def)
  show "session_count (evict_oldest_locked r) = session_count r - 1" if "tool_registry_ok r" "0 < session_count r"
  proof -
    have "tr_catalogs r \<noteq> []" using that(2) by (simp add: session_count_def)
    from evict_oldest_locked_erases [OF that(1) this] show ?thesis using erase_session_count [OF that(1)] by metis
  qed
  show "session_count r = 0 \<Longrightarrow> evict_oldest_locked r = r"
    by (simp add: session_count_def evict_oldest_locked_def)
qed

lemma om_wf_add_tools: "om_wf c \<Longrightarrow> om_wf (fold add_tool ts c)"
  by (induction ts arbitrary: c) (auto simp: add_tool_def)

lemma map_of_add_tools:
  "n \<noteq> [] \<Longrightarrow> map_of (fold add_tool ts c) n =
     (case find (\<lambda>t. tf_name (tool_function t) = n) (rev ts) of Some t \<Rightarrow> Some t | None \<Rightarrow> map_of c n)"
proof (induction ts arbitrary: c)
  case (Cons t ts)
  then show ?case by (auto simp: add_tool_def find_append split: option.splits)
qed simp

lemma register_tools_result:
  assumes "tool_registry_ok r" and "0 < tr_max_sessions r" and "sid \<noteq> []" and "tools \<noteq> []"
  shows "\<exists>r1 c. register_tools (session_count r) now sid tools r =
      Some (r1\<lparr>tr_catalogs := om_put sid (fold add_tool tools c) (tr_catalogs r1), tr_timestamps := om_put sid now (tr_timestamps r1)\<rparr>) \<and>
    tool_registry_ok r1 \<and> om_wf c \<and> c = (case map_of (tr_catalogs r) sid of Some c0 \<Rightarrow> c0 | None \<Rightarrow> []) \<and>
    (if map_of (tr_catalogs r) sid = None then session_count r1 \<le> unat (tr_max_sessions r) - 1 else r1 = r)"
proof (cases "map_of (tr_catalogs r) sid")
  case (Some c)
  then have "om_wf c" using assms(1) by (auto simp: tool_registry_ok_def ran_def)
  with Some assms show ?thesis by (auto simp: register_tools_def)
next
  case None
  have "0 < unat (tr_max_sessions r)" using assms(2) by (simp add: word_less_nat_alt)
  then obtain r1 where r1: "evict_loop session_count evict_oldest_locked (session_count r) (unat (tr_max_sessions r)) r = Some r1"
    "tool_registry_ok r1" "session_count r1 = min (session_count r) (unat (tr_max_sessions r) - 1)"
    using tool_store.evict_loop_returns [OF assms(1)] by blast
  have "map_of (tr_catalogs r1) sid = None"
    by (rule evict_loop_keeps [OF r1(1)])
       (use None in \<open>auto simp: evict_oldest_locked_def erase_session_def split: list.splits option.splits\<close>)
  with None r1 assms(3,4) show ?thesis by (auto simp: register_tools_def)
qed

text \<open>
  A tool registered in a session can be retrieved by its name: asking for any names right after the
  registration returns, for each name that the registration mentions, the last tool registered under it,
  and keeps the earlier tools of that session under the other names.
\<close>

theorem registered_tools_retrievable:
  assumes "tool_registry_ok r" and "0 < tr_max_sessions r" and "sid \<noteq> []" and "tools \<noteq> []" and "[] \<notin> set names"
  shows "\<exists>r'. register_tools (session_count r) now sid tools r = Some r' \<and>
    fst (get_tools_by_names now' sid names r') =
      List.map_filter (\<lambda>n. case find (\<lambda>t. tf_name (tool_function t) = n) (rev tools) of
                             Some t \<Rightarrow> Some t
                           | None \<Rightarrow> map_of (case map_of (tr_catalogs r) sid of Some c \<Rightarrow> c | None \<Rightarrow> []) n) names"
proof -
  obtain r1 c where r1: "register_tools (session_count r) now sid tools r =
      Some (r1\<lparr>tr_catalogs := om_put sid (fold add_tool tools c) (tr_catalogs r1), tr_timestamps := om_put sid now (tr_timestamps r1)\<rparr>)"
    "c = (case map_of (tr_catalogs r) sid of Some c0 \<Rightarrow> c0 | None \<Rightarrow> [])"
    using register_tools_result [OF assms(1-4), of now] by blast
  have "List.map_filter (map_of (fold add_tool tools c)) names =
      List.map_filter (\<lambda>n. case find (\<lambda>t. tf_name (tool_function t) = n) (rev tools) of Some t \<Rightarrow> Some t | None \<Rightarrow> map_of c n) names"
    using assms(5) by (induction names) (auto simp: List.map_filter_def map_of_add_tools)
  with r1 assms(3) show ?thesis by (auto simp: get_tools_by_names_def List.map_filter_def)
qed

definition demo_tool :: "string \<Rightarrow> openai_tool" where
  "demo_tool n = \<lparr>tool_type = ''function'', tool_function = \<lparr>tf_name = n, tf_description = [], tf_parameters_schema = ''{}''\<rparr>\<rparr>"

theorem registered_tools_retrievable_witness:
  "\<exists>r'. register_tools 0 1 ''s'' [demo_tool ''grep'', demo_tool ''read''] new_tool_registry = Some r' \<and>
     fst (get_tools_by_names 2 ''s'' [''read'', ''write''] r') = [demo_tool ''read'']"
  using registered_tools_retrievable [OF tool_registry_ok_new, of "''s''" "[demo_tool ''grep'', demo_tool ''read'']" "[''read'', ''write'']" 1 2]
  by (simp add: new_tool_registry_def session_count_def demo_tool_def List.map_filter_def)

text \<open>
  Registering tools always returns when the session limit is positive, keeps the registry well formed and
  never leaves more than the allowed number of sessions in memory.
\<close>

theorem tool_sessions_bounded:
  assumes "tool_registry_ok r" and "0 < tr_max_sessions r" and "session_count r \<le> unat (tr_max_sessions r)"
  shows "\<exists>r'. register_tools (session_count r) now sid tools r = Some r' \<and> tool_registry_ok r' \<and>
    session_count r' \<le> unat (tr_max_sessions r)"
proof (cases "sid = [] \<or> tools = []")
  case False
  then obtain r1 c where r1: "register_tools (session_count r) now sid tools r =
      Some (r1\<lparr>tr_catalogs := om_put sid (fold add_tool tools c) (tr_catalogs r1), tr_timestamps := om_put sid now (tr_timestamps r1)\<rparr>)"
    "tool_registry_ok r1" "om_wf c" "c = (case map_of (tr_catalogs r) sid of Some c0 \<Rightarrow> c0 | None \<Rightarrow> [])"
    "(if map_of (tr_catalogs r) sid = None then session_count r1 \<le> unat (tr_max_sessions r) - 1 else r1 = r)"
    using register_tools_result [OF assms(1,2)] by blast
  have lim: "0 < unat (tr_max_sessions r)" using assms(2) by (simp add: word_less_nat_alt)
  have "session_count (r1\<lparr>tr_catalogs := om_put sid (fold add_tool tools c) (tr_catalogs r1), tr_timestamps := om_put sid now (tr_timestamps r1)\<rparr>)
      \<le> unat (tr_max_sessions r)"
    using r1(2,5) assms(3) lim
    by (auto simp: session_count_def length_om_put tool_registry_ok_def split: if_splits)
  moreover have "tool_registry_ok (r1\<lparr>tr_catalogs := om_put sid (fold add_tool tools c) (tr_catalogs r1), tr_timestamps := om_put sid now (tr_timestamps r1)\<rparr>)"
    using r1(2,3) om_wf_add_tools [OF r1(3)] by (auto simp: tool_registry_ok_def ran_def split: if_splits)
  ultimately show ?thesis using r1(1) by blast
qed (use assms in \<open>simp add: register_tools_def\<close>)

theorem tool_sessions_bounded_witness:
  "\<exists>r'. register_tools (session_count new_tool_registry) 1 ''s'' [demo_tool ''grep''] new_tool_registry = Some r' \<and> tool_registry_ok r'"
  using tool_sessions_bounded [OF tool_registry_ok_new, of 1 "''s''" "[demo_tool ''grep'']"] by (auto simp: new_tool_registry_def session_count_def)

end
