(* ===== verification/Agent_Policy.thy ===== *)
theory Agent_Policy
  imports Json_Model "HOL-Library.Monad_Syntax"
begin

text \<open>
  The deterministic policies around a model call: \<open>CompletionPolicy\<close>, \<open>RecoveryPolicy\<close>,
  \<open>ProviderErrorAnalyzer\<close>, \<open>ResponseAnalyzer\<close>, the server-sent-event \<open>Formatter\<close> and the \<open>Curator\<close> that
  consolidates results. The JSON parser and serialiser of the vendored library are the arguments \<open>parse\<close> and
  \<open>dump\<close>.
\<close>

section \<open>Completion\<close>

record completion_evidence =
  has_output :: bool
  has_task_type :: bool
  tools_called :: bool
  tool_result_received :: bool
  artifact_produced :: bool
  unresolved_error :: bool
  model_says_complete :: bool
  evidence_says_complete :: bool

definition is_bare_claim :: "string \<Rightarrow> bool" where
  "is_bare_claim model_output \<longleftrightarrow>
     lower model_output \<in> {''done'', ''done.'', ''i'' @ [CHR 0x27] @ ''m done'', ''finished''}"

definition is_acceptable :: "string \<Rightarrow> string \<Rightarrow> completion_evidence \<Rightarrow> bool" where
  "is_acceptable task_type model_output ev =
     (if model_output = [] \<and> \<not> has_output ev then False
      else if unresolved_error ev then False
      else if tools_called ev \<and> \<not> tool_result_received ev then False
      else if evidence_says_complete ev then True
      else if task_type = ''coding'' \<and> is_bare_claim model_output \<and> \<not> artifact_produced ev then False
      else if task_type = ''coding'' \<and>
              (contains model_output ''```'' \<or> artifact_produced ev \<or> tool_result_received ev) then True
      else \<not> is_bare_claim model_output)"

section \<open>Recovery\<close>

datatype recovery_action =
  RETRY_SAME | SWITCH_KEY | SWITCH_PROVIDER | SWITCH_MODEL | REDUCE_CONTEXT | FALLBACK_LOCAL | FAIL_SESSION

definition context_has :: "string \<Rightarrow> string \<Rightarrow> bool" where
  "context_has ctx term = (if term = [] \<or> length ctx < length term then False else search_icase term ctx)"

definition determine_action :: "int \<Rightarrow> string \<Rightarrow> recovery_action" where
  "determine_action error_code ctx =
     (if error_code = 413 \<or> error_code = 400 \<and>
           (context_has ctx ''context'' \<or> context_has ctx ''token limit'' \<or>
            context_has ctx ''maximum context length'' \<or> context_has ctx ''too large'')
      then REDUCE_CONTEXT
      else if error_code = 404 \<or> error_code = 400 \<and> (context_has ctx ''model_not_found'' \<or> context_has ctx ''does not exist'')
      then SWITCH_MODEL
      else if error_code = 429
      then (if context_has ctx ''quota'' \<or> context_has ctx ''key'' \<or> context_has ctx ''account'' then SWITCH_KEY else SWITCH_PROVIDER)
      else if error_code = 408 \<or> error_code = 502 \<or> error_code = 504 then RETRY_SAME
      else if error_code \<ge> 500 then FALLBACK_LOCAL
      else FAIL_SESSION)"

section \<open>Provider errors\<close>

datatype error_resolution = RETRY_SAME_PROVIDER | RETRY_DIFFERENT_PROVIDER | COOLDOWN_KEY | FATAL

record provider_error_analysis =
  resolution :: error_resolution
  suggested_fallback_model :: string
  cooldown_seconds :: int

definition analyze_provider_error :: "int \<Rightarrow> string \<Rightarrow> provider_error_analysis" where
  "analyze_provider_error status_code error_json =
     (if status_code = 429 \<or> contains error_json ''rate_limit'' \<or> contains error_json ''429''
      then \<lparr>resolution = COOLDOWN_KEY, suggested_fallback_model = [], cooldown_seconds = 300\<rparr>
      else if status_code = 404 \<or> contains error_json ''model_not_found'' \<or> contains error_json ''does not exist''
      then \<lparr>resolution = RETRY_DIFFERENT_PROVIDER, suggested_fallback_model = [], cooldown_seconds = 0\<rparr>
      else if status_code = 400 \<and>
              (contains error_json ''context_length_exceeded'' \<or> contains error_json ''maximum context length'')
      then \<lparr>resolution = FATAL, suggested_fallback_model = [], cooldown_seconds = 0\<rparr>
      else if status_code \<ge> 500
      then \<lparr>resolution = RETRY_DIFFERENT_PROVIDER, suggested_fallback_model = [], cooldown_seconds = 60\<rparr>
      else \<lparr>resolution = COOLDOWN_KEY, suggested_fallback_model = [], cooldown_seconds = 60\<rparr>)"

section \<open>Responses\<close>

datatype response_action = TOOL_CALL | MODEL_CONTINUE | COMPLETE | MODEL_ERROR | INVALID

text \<open>The first element of a non-empty array under a key.\<close>

definition first_of :: "json \<Rightarrow> string \<Rightarrow> json option" where
  "first_of j k = (case jget j k of Some (JArray (x # xs)) \<Rightarrow> Some x | _ \<Rightarrow> None)"

definition string_at :: "json \<Rightarrow> string \<Rightarrow> string option" where
  "string_at j k = (case jget j k of Some (JString s) \<Rightarrow> Some s | _ \<Rightarrow> None)"

definition openai_action :: "json \<Rightarrow> response_action option" where
  "openai_action j =
     (case first_of j ''choices'' of
        None \<Rightarrow> None
      | Some choice \<Rightarrow>
          if string_at choice ''finish_reason'' = Some ''length'' then Some MODEL_CONTINUE
          else if string_at choice ''finish_reason'' = Some ''tool_calls'' then Some TOOL_CALL
          else (case jget choice ''message'' of
                  Some (JObject fs) \<Rightarrow> (if first_of (JObject fs) ''tool_calls'' \<noteq> None then Some TOOL_CALL else None)
                | _ \<Rightarrow> None))"

definition gemini_action :: "json \<Rightarrow> response_action option" where
  "gemini_action j =
     (case first_of j ''candidates'' of
        None \<Rightarrow> None
      | Some cand \<Rightarrow>
          (case string_at cand ''finishReason'' of
             None \<Rightarrow> None
           | Some fr \<Rightarrow> if fr = ''MAX_TOKENS'' then Some MODEL_CONTINUE
                        else if fr = ''SAFETY'' \<or> fr = ''RECITATION'' then Some INVALID else None))"

definition analyze_json :: "json \<Rightarrow> response_action" where
  "analyze_json j =
     (if jcontains j ''error'' then MODEL_ERROR
      else case openai_action j of Some a \<Rightarrow> a
           | None \<Rightarrow> (case gemini_action j of Some a \<Rightarrow> a | None \<Rightarrow> COMPLETE))"

definition attempted_json :: "string \<Rightarrow> bool" where
  "attempted_json raw_output =
     (case dropWhile isspace raw_output of [] \<Rightarrow> False | c # cs \<Rightarrow> c = CHR ''{'' \<or> c = CHR ''['')"

definition is_garbage :: "char \<Rightarrow> bool" where
  "is_garbage c \<longleftrightarrow> code c = 0 \<or> code c < 32 \<and> code c \<noteq> 10 \<and> code c \<noteq> 13 \<and> code c \<noteq> 9"

definition analyze_raw :: "string \<Rightarrow> response_action" where
  "analyze_raw raw_output =
     (if contains raw_output ''<tool_call>'' \<or> contains raw_output ''```tool_code'' then TOOL_CALL
      else if list_ex is_garbage raw_output then INVALID
      else COMPLETE)"

definition quote_key :: "string \<Rightarrow> string" where "quote_key s = CHR 0x22 # s @ [CHR 0x22]"

definition analyze_response :: "(string \<Rightarrow> json option) \<Rightarrow> string \<Rightarrow> string \<Rightarrow> response_action" where
  "analyze_response parse raw_output stop_reason =
     (if raw_output = [] then MODEL_ERROR
      else if stop_reason = ''length'' \<or> stop_reason = ''max_tokens'' then MODEL_CONTINUE
      else if stop_reason = ''error'' then MODEL_ERROR
      else case parse raw_output of
             Some j \<Rightarrow> analyze_json j
           | None \<Rightarrow>
               if attempted_json raw_output
               then (if contains raw_output (quote_key ''tool_calls'') then TOOL_CALL
                     else if contains raw_output (quote_key ''error'') then MODEL_ERROR
                     else INVALID)
               else analyze_raw raw_output)"

section \<open>Server-sent events\<close>

definition json_escape :: "(json \<Rightarrow> string) \<Rightarrow> string \<Rightarrow> string" where
  "json_escape dump s = (let dumped = dump (JString s) in take (length dumped - 2) (drop 1 dumped))"

definition json_unescape :: "(string \<Rightarrow> json option) \<Rightarrow> string \<Rightarrow> string" where
  "json_unescape parse s =
     (case parse (CHR 0x22 # s @ [CHR 0x22]) of
        None \<Rightarrow> s
      | Some j \<Rightarrow> (case get_string j of Some t \<Rightarrow> t | None \<Rightarrow> s))"

definition sse_event :: "(json \<Rightarrow> string) \<Rightarrow> json \<Rightarrow> string" where
  "sse_event dump root = ''data: '' @ dump root @ [CHR 0x0A, CHR 0x0A]"

definition choices_of :: "json \<Rightarrow> json" where
  "choices_of delta = JObject [(''choices'', JArray [JObject [(''delta'', delta)]])]"

definition format_sse_delta :: "(json \<Rightarrow> string) \<Rightarrow> string \<Rightarrow> string" where
  "format_sse_delta dump content_chunk = sse_event dump (choices_of (JObject [(''content'', JString content_chunk)]))"

definition format_sse_tool_call :: "(json \<Rightarrow> string) \<Rightarrow> string \<Rightarrow> string \<Rightarrow> string \<Rightarrow> string" where
  "format_sse_tool_call dump tool_name tool_arguments session_id =
     sse_event dump (choices_of (JObject [(''tool_calls'', JArray [JObject
       [(''index'', JInt 0), (''id'', JString (''call_'' @ session_id)), (''type'', JString ''function''),
        (''function'', JObject [(''name'', JString tool_name), (''arguments'', JString tool_arguments)])]])]))"

definition format_sse_done :: string where
  "format_sse_done = ''data: [DONE]'' @ [CHR 0x0A, CHR 0x0A]"

section \<open>Consolidation\<close>

text \<open>
  \<open>extract_text\<close>: \<open>Some None\<close> is the fall-through to the raw text, \<open>None\<close> an access outside an array or to an
  absent key of a constant object, which the library leaves undefined.
\<close>

definition openai_content :: "json \<Rightarrow> string option" where
  "openai_content choice =
     (case jget choice ''message'' \<bind> (\<lambda>m. string_at m ''content'') of
        Some t \<Rightarrow> Some t
      | None \<Rightarrow> jget choice ''delta'' \<bind> (\<lambda>m. string_at m ''content''))"

definition gemini_content :: "json \<Rightarrow> string option option" where
  "gemini_content j =
     (case first_of j ''candidates'' of
        None \<Rightarrow> Some None
      | Some cand \<Rightarrow>
          (case jget cand ''content'' \<bind> (\<lambda>c. jget c ''parts'') of
             Some (JArray []) \<Rightarrow> None
           | Some (JArray (JObject fs # ps)) \<Rightarrow>
               (case map_of fs ''text'' of None \<Rightarrow> None | Some v \<Rightarrow> Some (get_string v))
           | _ \<Rightarrow> Some None))"

definition extract_text :: "(string \<Rightarrow> json option) \<Rightarrow> string \<Rightarrow> string option" where
  "extract_text parse raw =
     (case parse raw of
        None \<Rightarrow> Some raw
      | Some j \<Rightarrow>
          (case first_of j ''choices'' \<bind> openai_content of
             Some t \<Rightarrow> Some t
           | None \<Rightarrow>
               (case gemini_content j of None \<Rightarrow> None | Some None \<Rightarrow> Some raw | Some (Some t) \<Rightarrow> Some t)))"

fun iterations :: "(string \<Rightarrow> json option) \<Rightarrow> nat \<Rightarrow> string list \<Rightarrow> string option" where
  "iterations parse i [] = Some []"
| "iterations parse i (r # rs) =
     (case extract_text parse r of None \<Rightarrow> None
      | Some t \<Rightarrow>
          (case iterations parse (Suc i) rs of None \<Rightarrow> None
           | Some rest \<Rightarrow> Some ([CHR 0x0A] @ ''--- Iteration '' @ nat_digits (Suc i) @ '' ---'' @ [CHR 0x0A] @ t @ [CHR 0x0A] @ rest)))"

definition citation :: "string \<times> string \<Rightarrow> string" where
  "citation ev =
     (case ev of (symbol_name, file_path) \<Rightarrow>
        if symbol_name \<noteq> [] then ''- **'' @ symbol_name @ ''** (`'' @ file_path @ ''`)'' @ [CHR 0x0A]
        else if file_path \<noteq> [] then ''- `'' @ file_path @ ''`'' @ [CHR 0x0A] else [])"

definition consolidate :: "(string \<Rightarrow> json option) \<Rightarrow> string list \<Rightarrow> string \<Rightarrow> (string \<times> string) list \<Rightarrow> string option" where
  "consolidate parse results task_type evidence =
     (let tail_part = (if evidence = [] then []
                       else [CHR 0x0A, CHR 0x0A] @ ''### Supporting Evidence Citations'' @ [CHR 0x0A] @ concat (map citation evidence))
      in case results of
           [] \<Rightarrow> Some []
         | [r] \<Rightarrow> map_option (\<lambda>t. t @ tail_part) (extract_text parse r)
         | _ \<Rightarrow> map_option (\<lambda>t. ''### Task Consolidation ('' @ task_type @ '')'' @ [CHR 0x0A] @ t @ tail_part) (iterations parse 0 results))"

section \<open>Properties\<close>

lemma context_has_contains: "context_has ctx term \<longleftrightarrow> term \<noteq> [] \<and> length term \<le> length ctx \<and> contains (lower ctx) (lower term)"
  by (auto simp: context_has_def search_icase_contains)

text \<open>
  Recovery does not depend on letter case: two error texts that agree after lower-casing lead to the
  same action for every status code.
\<close>

theorem recovery_case_insensitive:
  "lower ctx = lower ctx' \<Longrightarrow> determine_action error_code ctx = determine_action error_code ctx'"
proof -
  assume l: "lower ctx = lower ctx'"
  then have "length ctx = length ctx'" unfolding lower_def by (rule map_eq_imp_length_eq)
  with l have "context_has ctx t = context_has ctx' t" for t by (simp add: context_has_contains)
  then show ?thesis by (simp add: determine_action_def)
qed

theorem recovery_case_insensitive_witness:
  "determine_action 400 ''Token Limit'' = determine_action 400 ''token limit''"
  by (rule recovery_case_insensitive) code_simp

text \<open>
  The two error policies disagree on a context overflow reported with status 400: the recovery policy
  asks for a smaller context, the provider analyser calls the error fatal.
\<close>

theorem context_overflow_policies_disagree:
  assumes "contains err ''maximum context length''"
    and "\<not> contains err ''rate_limit''" and "\<not> contains err ''429''" and "\<not> contains err ''model_not_found''"
    and "\<not> contains err ''does not exist''"
  shows "determine_action 400 err = REDUCE_CONTEXT \<and> resolution (analyze_provider_error 400 err) = FATAL"
proof -
  obtain a b where e: "err = a @ ''maximum context length'' @ b" using assms(1) by (auto simp: contains_iff)
  have "lower ''maximum context length'' = ''maximum context length''" by code_simp
  then have "contains (lower err) (lower ''maximum context length'')"
    unfolding contains_iff e lower_def map_append by blast
  moreover have "length (''maximum context length'' :: string) \<le> length err" unfolding e by simp
  ultimately have "context_has err ''maximum context length''" by (simp add: context_has_contains)
  then show ?thesis using assms by (simp add: determine_action_def analyze_provider_error_def)
qed

theorem context_overflow_policies_disagree_witness:
  "determine_action 400 ''maximum context length is 8'' = REDUCE_CONTEXT \<and>
   resolution (analyze_provider_error 400 ''maximum context length is 8'') = FATAL"
  by (rule context_overflow_policies_disagree) code_simp+

text \<open>
  A bare claim of completion is never enough: an output that only says it is done is accepted only if
  the evidence itself says so, or if it is a coding task with an artifact; and nothing is accepted while an
  error is unresolved or a tool result is outstanding.
\<close>

theorem completion_needs_evidence:
  assumes "is_acceptable task_type out ev"
  shows "(is_bare_claim out \<longrightarrow> evidence_says_complete ev \<or> task_type = ''coding'' \<and> artifact_produced ev) \<and>
         \<not> unresolved_error ev \<and> (tools_called ev \<longrightarrow> tool_result_received ev) \<and> (out \<noteq> [] \<or> has_output ev)"
  using assms by (auto simp: is_acceptable_def split: if_splits)

definition demo_evidence :: completion_evidence where
  "demo_evidence = \<lparr>has_output = False, has_task_type = False, tools_called = True, tool_result_received = True,
     artifact_produced = True, unresolved_error = False, model_says_complete = False, evidence_says_complete = False\<rparr>"

theorem completion_needs_evidence_witness:
  "is_bare_claim ''Done'' \<and> artifact_produced demo_evidence \<and> \<not> unresolved_error demo_evidence"
proof -
  have "is_acceptable ''coding'' ''Done'' demo_evidence" by code_simp
  from completion_needs_evidence [OF this] have "\<not> unresolved_error demo_evidence"
    "is_bare_claim ''Done'' \<longrightarrow> evidence_says_complete demo_evidence \<or> artifact_produced demo_evidence" by auto
  moreover have "is_bare_claim ''Done''" "\<not> evidence_says_complete demo_evidence" by code_simp+
  ultimately show ?thesis by blast
qed

text \<open>
  An output is reported complete only if it is not cut off and not an error: it is non-empty, the stop
  reason is neither a length limit nor an error, and either it parses as JSON without an \<open>error\<close> member and
  without a length, tool-call or refusal marker, or it is plain text free of tool markup and of control bytes.
\<close>

theorem complete_response_is_clean:
  assumes "analyze_response parse raw stop = COMPLETE"
  shows "raw \<noteq> [] \<and> stop \<notin> {''length'', ''max_tokens'', ''error''} \<and>
    (case parse raw of
       Some j \<Rightarrow> \<not> jcontains j ''error'' \<and> openai_action j \<in> {None, Some COMPLETE} \<and> gemini_action j \<in> {None, Some COMPLETE}
     | None \<Rightarrow> \<not> attempted_json raw \<and> \<not> contains raw ''<tool_call>'' \<and> (\<forall>c \<in> set raw. code c \<ge> 32 \<or> code c \<in> {9, 10, 13}))"
proof (cases "parse raw")
  case (Some j)
  have "openai_action j \<noteq> Some COMPLETE"
    by (auto simp: openai_action_def split: option.splits json.splits)
  with Some assms show ?thesis
    by (auto simp: analyze_response_def analyze_json_def split: if_splits option.splits)
next
  case None
  with assms show ?thesis
    by (auto simp: analyze_response_def analyze_raw_def list_ex_iff is_garbage_def split: if_splits)
qed

theorem complete_response_is_clean_witness: "\<not> attempted_json ''All tests pass.''"
proof -
  have "analyze_response (\<lambda>_. None) ''All tests pass.'' ''stop'' = COMPLETE" by code_simp
  from complete_response_is_clean [OF this] show ?thesis by simp
qed

text \<open>
  Escaping and unescaping a string are inverse, given that the serialiser writes a string between two
  quotation marks and that the parser reads back what the serialiser writes.
\<close>

theorem json_escape_round_trip:
  assumes "dump (JString s) = CHR 0x22 # body @ [CHR 0x22]" and "parse (dump (JString s)) = Some (JString s)"
  shows "json_unescape parse (json_escape dump s) = s"
  using assms by (simp add: json_unescape_def json_escape_def)

theorem json_escape_round_trip_witness:
  "json_unescape (\<lambda>t. Some (JString (take (length t - 2) (drop 1 t))))
     (json_escape (\<lambda>j. case j of JString t \<Rightarrow> CHR 0x22 # t @ [CHR 0x22] | _ \<Rightarrow> []) ''abc'') = ''abc''"
  by (rule json_escape_round_trip [where body = "''abc''"]) simp_all

end
