(* ===== verification/Context_Engine.thy ===== *)
theory Context_Engine
  imports Request_Model Tokenizer_Model "HOL-Library.Sublist"
begin

text \<open>
  Context preparation: \<open>ContextBudgeter\<close>, \<open>ContextCompressor\<close>, \<open>ContextCompiler\<close>, \<open>ContextEngine\<close> and the older
  \<open>ContextManager\<close>. The budget arithmetic is on \<open>size_t\<close>; token counts of texts are natural numbers, since a
  count is at most the number of bytes of the text and the sums stay far below 2^64. A null tokenizer is
  \<open>None\<close>. The embedding model and the cosine similarity of \<open>semantic_filter\<close> are arguments.
\<close>

section \<open>Budget\<close>

record context_budget_plan =
  total_context_limit :: size_t
  generation_reserve :: size_t
  max_input_tokens :: size_t
  system_prompt_tokens :: size_t
  task_prompt_tokens :: size_t
  working_memory_budget :: size_t
  retrieved_code_budget :: size_t
  retrieved_memory_budget :: size_t
  history_budget :: size_t
  total_allocated_input :: size_t

definition calculate_budget :: "size_t \<Rightarrow> size_t \<Rightarrow> size_t \<Rightarrow> size_t \<Rightarrow> context_budget_plan" where
  "calculate_budget total_context system_tokens task_tokens min_generation_reserve =
     (let tot = (if total_context > 0 then total_context else 8192);
          reserve0 = max min_generation_reserve (tot div 4);
          reserve = (if reserve0 \<ge> tot then tot div 2 else reserve0);
          max_input = tot - reserve;
          mandatory = system_tokens + task_tokens
      in if mandatory \<ge> max_input
         then \<lparr>total_context_limit = tot, generation_reserve = reserve, max_input_tokens = max_input,
               system_prompt_tokens = system_tokens, task_prompt_tokens = task_tokens,
               working_memory_budget = 0, retrieved_code_budget = 0, retrieved_memory_budget = 0, history_budget = 0,
               total_allocated_input = mandatory\<rparr>
         else
           let remaining = max_input - mandatory;
               history = min (remaining div 2) 2048;
               aux_remaining = remaining - history;
               cod = min (aux_remaining * 5 div 10) 2500;
               mem = min (aux_remaining * 3 div 10) 800;
               wm = aux_remaining - cod - mem
           in \<lparr>total_context_limit = tot, generation_reserve = reserve, max_input_tokens = max_input,
               system_prompt_tokens = system_tokens, task_prompt_tokens = task_tokens,
               working_memory_budget = wm, retrieved_code_budget = cod, retrieved_memory_budget = mem,
               history_budget = history, total_allocated_input = mandatory + history + wm + cod + mem\<rparr>)"

section \<open>Compression\<close>

definition same_message :: "openai_message \<Rightarrow> openai_message \<Rightarrow> bool" where
  "same_message a b \<longleftrightarrow> msg_role a = msg_role b \<and> msg_content a = msg_content b"

fun dedup_from :: "openai_message option \<Rightarrow> openai_message list \<Rightarrow> openai_message list" where
  "dedup_from prev [] = []"
| "dedup_from prev (m # ms) =
     (if (case prev of Some p \<Rightarrow> same_message m p | None \<Rightarrow> False) then dedup_from (Some m) ms
      else if msg_content m = [] \<and> msg_role m \<noteq> ''system'' then dedup_from (Some m) ms
      else m # dedup_from (Some m) ms)"

definition deduplicate :: "openai_message list \<Rightarrow> openai_message list" where
  "deduplicate ms = (if length ms \<le> 1 then ms else dedup_from None ms)"

definition tok_count :: "tokenizer option \<Rightarrow> string \<Rightarrow> nat" where
  "tok_count tk text = (case tk of Some t \<Rightarrow> tk_count t text | None \<Rightarrow> approx_tokens text)"

definition content_tokens :: "tokenizer option \<Rightarrow> openai_message list \<Rightarrow> nat" where
  "content_tokens tk ms = sum_list (map (\<lambda>m. tok_count tk (msg_content m)) ms)"

text \<open>The backward scan: messages from the newest on, until one does not fit.\<close>

fun take_recent :: "tokenizer option \<Rightarrow> nat \<Rightarrow> nat \<Rightarrow> openai_message list \<Rightarrow> openai_message list" where
  "take_recent tk budget running [] = []"
| "take_recent tk budget running (m # ms) =
     (let c = tok_count tk (msg_content m)
      in if running + c > budget then [] else m # take_recent tk budget (running + c) ms)"

definition sliding_window :: "tokenizer option \<Rightarrow> nat \<Rightarrow> openai_message list \<Rightarrow> openai_message list" where
  "sliding_window tk max_budget ms =
     (if ms = [] then ms
      else if content_tokens tk ms \<le> max_budget then ms
      else
        let (sys, rest) = (if msg_role (hd ms) = ''system'' then ([hd ms], tl ms) else ([], ms));
            last_part = (if rest = [] then [] else [last ms]);
            running = content_tokens tk sys + content_tokens tk last_part;
            recent = (if length rest > 1 then take_recent tk max_budget running (rev (butlast rest)) else [])
        in sys @ rev recent @ last_part)"

definition compress :: "tokenizer option \<Rightarrow> nat \<Rightarrow> openai_message list \<Rightarrow> openai_message list" where
  "compress tk target_token_budget ms = sliding_window tk target_token_budget (deduplicate ms)"

section \<open>Compilation\<close>

record compiled_context =
  cc_prompt :: string
  cc_prompt_tokens :: nat
  cc_system_tokens :: nat
  cc_history_tokens :: nat
  cc_task_tokens :: nat
  cc_fits_budget :: bool

definition format_chatml :: "openai_message list \<Rightarrow> bool \<Rightarrow> string" where
  "format_chatml ms append_assistant_header =
     concat (map (\<lambda>m. ''<|im_start|>'' @ msg_role m @ [CHR 0x0A] @ msg_content m @ [CHR 0x0A] @ ''<|im_end|>'' @ [CHR 0x0A]) ms) @
     (if append_assistant_header then ''<|im_start|>assistant'' @ [CHR 0x0A] else [])"

definition format_llama3 :: "openai_message list \<Rightarrow> bool \<Rightarrow> string" where
  "format_llama3 ms append_assistant_header =
     ''<|begin_of_text|>'' @
     concat (map (\<lambda>m. ''<|start_header_id|>'' @ msg_role m @ ''<|end_header_id|>'' @ [CHR 0x0A, CHR 0x0A] @ msg_content m @ ''<|eot_id|>'') ms) @
     (if append_assistant_header then ''<|start_header_id|>assistant<|end_header_id|>'' @ [CHR 0x0A, CHR 0x0A] else [])"

definition compiles_llama :: "model_config \<Rightarrow> bool" where
  "compiles_llama cfg =
     (let llama = chat_template cfg \<noteq> [] \<and> contains (chat_template cfg) ''<|start_header_id|>'';
          chatml = chat_template cfg \<noteq> [] \<and> \<not> llama \<and> contains (chat_template cfg) ''<|im_start|>''
      in if \<not> llama \<and> \<not> chatml then contains (architecture cfg) ''llama'' else llama)"

definition valid_count :: "tokenizer option \<Rightarrow> string \<Rightarrow> nat" where
  "valid_count tk text =
     (case tk of Some t \<Rightarrow> if tk_vocab t \<noteq> None then tk_count t text else approx_tokens text | None \<Rightarrow> approx_tokens text)"

text \<open>The sectional breakdown: (system, history, task) tokens; the task is a user message in last position.\<close>

fun breakdown :: "tokenizer option \<Rightarrow> openai_message list \<Rightarrow> nat \<times> nat \<times> nat \<Rightarrow> nat \<times> nat \<times> nat" where
  "breakdown tk [] acc = acc"
| "breakdown tk (m # ms) (s, h, t) =
     (let c = valid_count tk (msg_content m)
      in if msg_role m = ''system'' then breakdown tk ms (s + c, h, t)
         else if ms = [] \<and> msg_role m = ''user'' then breakdown tk ms (s, h, t + c)
         else breakdown tk ms (s, h + c, t))"

definition compile_context :: "openai_message list \<Rightarrow> tokenizer option \<Rightarrow> nat \<Rightarrow> bool \<Rightarrow> model_config \<Rightarrow> compiled_context" where
  "compile_context ms tk max_input append_assistant_header cfg =
     (let prompt = (if compiles_llama cfg then format_llama3 ms append_assistant_header else format_chatml ms append_assistant_header);
          (s, h, t) = breakdown tk ms (0, 0, 0)
      in \<lparr>cc_prompt = prompt, cc_prompt_tokens = valid_count tk prompt, cc_system_tokens = s, cc_history_tokens = h,
          cc_task_tokens = t, cc_fits_budget = (valid_count tk prompt \<le> max_input)\<rparr>)"

section \<open>The context engine\<close>

record context_optimization_result =
  co_compiled_prompt :: string
  co_budget_plan :: context_budget_plan
  co_compiled_context :: compiled_context
  co_original_messages_count :: nat
  co_compressed_messages_count :: nat
  co_compression_applied :: bool

text \<open>The invariant tokens: all system messages, and the last message if it is the user's.\<close>

fun invariant_tokens :: "tokenizer option \<Rightarrow> openai_message list \<Rightarrow> nat \<times> nat \<Rightarrow> nat \<times> nat" where
  "invariant_tokens tk [] acc = acc"
| "invariant_tokens tk (m # ms) (s, t) =
     (let c = valid_count tk (msg_content m)
      in if msg_role m = ''system'' then invariant_tokens tk ms (s + c, t)
         else if ms = [] \<and> msg_role m = ''user'' then invariant_tokens tk ms (s, c)
         else invariant_tokens tk ms (s, t))"

definition optimize_and_compile ::
  "tokenizer_registry option \<Rightarrow> openai_request \<Rightarrow> string \<Rightarrow> model_config \<Rightarrow> size_t \<Rightarrow> context_optimization_result" where
  "optimize_and_compile reg req target_model_id cfg total_limit =
     (let tk = (case reg of Some r \<Rightarrow> get_tokenizer r target_model_id | None \<Rightarrow> None);
          (sys, task) = invariant_tokens tk (rq_messages req) (0, 0);
          plan = calculate_budget total_limit (word_of_nat sys) (word_of_nat task) 1024;
          msgs = deduplicate (rq_messages req);
          optimized = compress tk (unat (max_input_tokens plan)) msgs;
          compiled = compile_context optimized tk (unat (max_input_tokens plan)) True cfg
      in \<lparr>co_compiled_prompt = cc_prompt compiled, co_budget_plan = plan, co_compiled_context = compiled,
          co_original_messages_count = length (rq_messages req), co_compressed_messages_count = length optimized,
          co_compression_applied = (length msgs < length (rq_messages req) \<or> length optimized < length msgs)\<rparr>)"

text \<open>The overload with evidence; an item is its symbol name, file path and content.\<close>

definition evidence_line :: "string \<times> string \<times> string \<Rightarrow> string" where
  "evidence_line ev =
     (case ev of (symbol_name, path, content) \<Rightarrow>
        (if symbol_name \<noteq> [] then ''Symbol: '' @ symbol_name @ '' ('' @ path @ '')'' @ [CHR 0x0A]
         else if path \<noteq> [] then ''File: '' @ path @ [CHR 0x0A] else []) @
        content @ [CHR 0x0A] @ ''---'' @ [CHR 0x0A])"

definition evidence_block :: "(string \<times> string \<times> string) list \<Rightarrow> string" where
  "evidence_block evs = [CHR 0x0A] @ ''[Retrieved Context Evidence]'' @ [CHR 0x0A] @ concat (map evidence_line evs)"

fun inject_system :: "string \<Rightarrow> openai_message list \<Rightarrow> openai_message list option" where
  "inject_system block [] = None"
| "inject_system block (m # ms) =
     (if msg_role m = ''system'' then Some (m\<lparr>msg_content := msg_content m @ [CHR 0x0A] @ block\<rparr> # ms)
      else map_option ((#) m) (inject_system block ms))"

definition enrich_request :: "(string \<times> string \<times> string) list \<Rightarrow> openai_request \<Rightarrow> openai_request" where
  "enrich_request evs req =
     req\<lparr>rq_messages := (case inject_system (evidence_block evs) (rq_messages req) of
            Some ms \<Rightarrow> ms
          | None \<Rightarrow> \<lparr>msg_role = ''system'', msg_content = evidence_block evs, msg_name = [], msg_tool_call_id = []\<rparr> # rq_messages req)\<rparr>"

definition optimize_with_evidence ::
  "tokenizer_registry option \<Rightarrow> openai_request \<Rightarrow> (string \<times> string \<times> string) list \<Rightarrow> string \<Rightarrow> model_config \<Rightarrow> size_t \<Rightarrow>
   context_optimization_result" where
  "optimize_with_evidence reg req evs target_model_id cfg total_limit =
     (if evs = [] then optimize_and_compile reg req target_model_id cfg total_limit
      else optimize_and_compile reg (enrich_request evs req) target_model_id cfg total_limit)"

section \<open>The context manager\<close>

definition truncate_history :: "openai_message list \<Rightarrow> int \<Rightarrow> openai_message list" where
  "truncate_history ms max_context_tokens =
     sliding_window None (unat (word_of_int max_context_tokens :: size_t)) (deduplicate ms)"

text \<open>
  \<open>embedding\<close> is \<open>compute_embedding\<close> of the tokenised text, \<open>sim\<close> the cosine similarity, \<open>fgt\<close> the comparison of
  two floats; \<open>embedding = None\<close> when there is no embedding model.
\<close>

definition semantic_filter ::
  "(f32 \<Rightarrow> f32 \<Rightarrow> bool) \<Rightarrow> ('v list \<Rightarrow> 'v list \<Rightarrow> f32) \<Rightarrow> (string \<Rightarrow> 'v list) option \<Rightarrow> openai_message list \<Rightarrow> openai_message list" where
  "semantic_filter fgt sim embedding ms =
     (if length ms < 2 then ms
      else case embedding of None \<Rightarrow> truncate_history ms 8192
      | Some emb \<Rightarrow>
          let query_vec = emb (msg_content (last ms))
          in if query_vec = [] then truncate_history ms 8192
             else
               let (sys, rest) = (if msg_role (hd ms) = ''system'' then ([hd ms], tl ms) else ([], ms));
                   scored = map (\<lambda>m. (sim query_vec (emb (msg_content m)), m)) (butlast rest);
                   sorted = stable_sort (\<lambda>a b. fgt (fst a) (fst b)) scored
               in truncate_history (sys @ map snd sorted @ [last ms]) 8192)"

definition optimize_context ::
  "(f32 \<Rightarrow> f32 \<Rightarrow> bool) \<Rightarrow> ('v list \<Rightarrow> 'v list \<Rightarrow> f32) \<Rightarrow> (string \<Rightarrow> 'v list) option \<Rightarrow> int \<Rightarrow> bool \<Rightarrow> openai_request \<Rightarrow> openai_request" where
  "optimize_context fgt sim embedding max_context_tokens use_semantic_selection req =
     (if rq_messages req = [] then req
      else if use_semantic_selection \<and> embedding \<noteq> None
      then req\<lparr>rq_messages := semantic_filter fgt sim embedding (rq_messages req)\<rparr>
      else req\<lparr>rq_messages := truncate_history (rq_messages req) max_context_tokens\<rparr>)"

section \<open>The budget protects the reserve\<close>

lemma half_u64: "unat (x * 5 div 10 :: size_t) = unat x div 2" if "unat x < 2 ^ 60"
proof -
  have "unat (x * 5) = unat x * 5" using that by (simp add: unat_mult_u64)
  then show ?thesis by (simp add: unat_div_u64)
qed

lemma three_tenths_u64: "unat (x * 3 div 10 :: size_t) = unat x * 3 div 10" if "unat x < 2 ^ 60"
proof -
  have "unat (x * 3) = unat x * 3" using that by (simp add: unat_mult_u64)
  then show ?thesis by (simp add: unat_div_u64)
qed

text \<open>
  The budget plan is exact: the input part and the generation reserve together are the context window;
  the reserve is at least a quarter of the window (half of it when the requested minimum does not fit); and
  when system prompt and task fit, the sections fill the input part completely and never touch the reserve.
\<close>

theorem budget_protects_reserve:
  assumes "plan = calculate_budget tot sys task min_reserve" and "0 < tot" and "unat tot < 2 ^ 60"
    and "unat sys < 2 ^ 60" and "unat task < 2 ^ 60"
  shows "unat (max_input_tokens plan) + unat (generation_reserve plan) = unat tot \<and>
    unat tot div 4 \<le> unat (generation_reserve plan) \<and>
    (unat sys + unat task < unat (max_input_tokens plan) \<longrightarrow>
       unat (total_allocated_input plan) + unat (generation_reserve plan) = unat tot \<and>
       unat sys + unat task + unat (history_budget plan) + unat (working_memory_budget plan) +
         unat (retrieved_code_budget plan) + unat (retrieved_memory_budget plan) = unat (total_allocated_input plan))"
proof -
  define reserve where "reserve = (if max min_reserve (tot div 4) \<ge> tot then tot div 2 else max min_reserve (tot div 4))"
  have pos: "0 < unat tot" using assms(2) by (simp add: word_less_nat_alt)
  have r: "unat reserve \<le> unat tot" "unat tot div 4 \<le> unat reserve"
    unfolding reserve_def by (auto simp: unat_div_u64 unat_max_u64 word_le_nat_alt word_less_nat_alt not_le max_def)
  have inp: "unat (tot - reserve) = unat tot - unat reserve" using r(1) by (simp add: unat_sub_u64 word_le_nat_alt)
  have mand: "unat (sys + task) = unat sys + unat task" using assms(4,5) by (simp add: unat_add_u64)
  have fields: "max_input_tokens plan = tot - reserve" "generation_reserve plan = reserve"
    unfolding assms(1) calculate_budget_def Let_def if_P [OF assms(2)] reserve_def [symmetric] by simp_all
  show ?thesis
  proof (cases "unat sys + unat task < unat (tot - reserve)")
    case False
    then show ?thesis using r inp fields by simp
  next
    case True
    define rem where "rem = tot - reserve - (sys + task)"
    define h where "h = min (rem div 2) 2048"
    define a where "a = rem - h"
    define cod where "cod = min (a * 5 div 10) 2500"
    define mem where "mem = min (a * 3 div 10) 800"
    have rem: "unat rem = unat tot - unat reserve - (unat sys + unat task)"
      unfolding rem_def using True inp mand by (simp add: unat_sub_u64 word_le_nat_alt)
    have h: "unat h \<le> unat rem div 2" unfolding h_def by (simp add: unat_min_u64 unat_div_u64)
    have a: "unat a = unat rem - unat h" unfolding a_def using h by (simp add: unat_sub_u64 word_le_nat_alt)
    have small: "unat a < 2 ^ 60" using a rem assms(3) by simp
    have c: "unat cod \<le> unat a div 2" unfolding cod_def using half_u64 [OF small] by (simp add: unat_min_u64)
    have m: "unat mem \<le> unat a * 3 div 10" unfolding mem_def using three_tenths_u64 [OF small] by (simp add: unat_min_u64)
    have ac: "unat (a - cod) = unat a - unat cod" using c by (simp add: unat_sub_u64 word_le_nat_alt)
    have wm: "unat (a - cod - mem) = unat a - unat cod - unat mem"
      using ac c m by (simp add: unat_sub_u64 word_le_nat_alt)
    have le: "\<not> sys + task \<ge> tot - reserve" using True mand by (simp add: word_le_nat_alt)
    have pl: "history_budget plan = h" "working_memory_budget plan = a - cod - mem" "retrieved_code_budget plan = cod"
        "retrieved_memory_budget plan = mem" "total_allocated_input plan = sys + task + h + (a - cod - mem) + cod + mem"
      unfolding assms(1) calculate_budget_def Let_def if_P [OF assms(2)] reserve_def [symmetric] if_not_P [OF le]
        rem_def h_def a_def cod_def mem_def by simp_all
    have parts: "unat sys + unat task + unat h + unat (a - cod - mem) + unat cod + unat mem = unat tot - unat reserve"
      using wm a c m h rem True inp by linarith
    have big: "unat tot - unat reserve < 2 ^ 64" using assms(3) by simp
    have s1: "unat (sys + task + h) = unat sys + unat task + unat h"
      using mand parts big by (subst unat_add_u64_no_wrap) linarith+
    have s2: "unat (sys + task + h + (a - cod - mem)) = unat sys + unat task + unat h + unat (a - cod - mem)"
      using s1 parts big by (subst unat_add_u64_no_wrap) linarith+
    have s3: "unat (sys + task + h + (a - cod - mem) + cod) = unat sys + unat task + unat h + unat (a - cod - mem) + unat cod"
      using s2 parts big by (subst unat_add_u64_no_wrap) linarith+
    have "unat (sys + task + h + (a - cod - mem) + cod + mem) = unat tot - unat reserve"
      using s3 parts big by (subst unat_add_u64_no_wrap) linarith+
    then show ?thesis using pl fields r inp parts by simp
  qed
qed

theorem budget_protects_reserve_witness:
  "unat (total_allocated_input (calculate_budget 8192 100 50 1024)) + unat (generation_reserve (calculate_budget 8192 100 50 1024)) = 8192"
proof -
  have "unat (max_input_tokens (calculate_budget 8192 100 50 1024)) = 6144" by code_simp
  then show ?thesis using budget_protects_reserve [OF refl, of 8192 100 50 1024] by simp
qed

section \<open>The sliding window\<close>

lemma content_tokens_simps [simp]:
  "content_tokens tk [] = 0" "content_tokens tk (m # ms) = tok_count tk (msg_content m) + content_tokens tk ms"
  "content_tokens tk (xs @ ys) = content_tokens tk xs + content_tokens tk ys"
  by (simp_all add: content_tokens_def)

lemma content_tokens_rev [simp]: "content_tokens tk (rev xs) = content_tokens tk xs"
  by (induction xs) auto

lemma take_recent_prefix: "prefix (take_recent tk b r ms) ms"
  by (induction tk b r ms rule: take_recent.induct) (auto simp: Let_def)

lemma take_recent_fits: "r \<le> b \<Longrightarrow> r + content_tokens tk (take_recent tk b r ms) \<le> b"
  by (induction tk b r ms rule: take_recent.induct) (auto simp: Let_def)

lemma rev_take_recent: "suffix (rev (take_recent tk b r (rev ms))) ms"
  using take_recent_prefix [of tk b r "rev ms"] by (simp add: suffix_to_prefix)

text \<open>What the window is when it has to cut: the leading system message, the newest turns, the last message.\<close>

lemma sliding_window_cut:
  assumes "ms \<noteq> []" and "\<not> content_tokens tk ms \<le> budget"
  shows "\<exists>sys rest recent. ms = sys @ rest \<and> sys = (if msg_role (hd ms) = ''system'' then [hd ms] else []) \<and>
    (if rest = [] then sliding_window tk budget ms = sys
     else sliding_window tk budget ms = sys @ recent @ [last ms] \<and> suffix recent (butlast rest) \<and>
       (content_tokens tk sys + tok_count tk (msg_content (last ms)) \<le> budget \<longrightarrow>
          content_tokens tk sys + content_tokens tk recent + tok_count tk (msg_content (last ms)) \<le> budget))"
proof -
  define sys where "sys = (if msg_role (hd ms) = ''system'' then [hd ms] else [])"
  define rest where "rest = (if msg_role (hd ms) = ''system'' then tl ms else ms)"
  have split: "ms = sys @ rest" using assms(1) by (simp add: sys_def rest_def)
  let ?run = "content_tokens tk sys + tok_count tk (msg_content (last ms))"
  define recent where "recent = (if length rest > 1 then rev (take_recent tk budget ?run (rev (butlast rest))) else [])"
  have win: "sliding_window tk budget ms = (if rest = [] then sys else sys @ recent @ [last ms])"
    using assms unfolding sliding_window_def sys_def rest_def recent_def by (auto simp: Let_def)
  have suf: "suffix recent (butlast rest)" by (simp add: recent_def rev_take_recent)
  have "?run \<le> budget \<longrightarrow> ?run + content_tokens tk recent \<le> budget"
    using take_recent_fits [of ?run budget tk "rev (butlast rest)"] by (simp add: recent_def)
  with split win suf sys_def show ?thesis by (intro exI [of _ sys] exI [of _ rest] exI [of _ recent]) auto
qed

lemma window_ends:
  assumes "ms \<noteq> []"
  shows "sliding_window tk budget ms \<noteq> [] \<and> last (sliding_window tk budget ms) = last ms \<and>
    (msg_role (hd ms) = ''system'' \<longrightarrow> hd (sliding_window tk budget ms) = hd ms)"
proof (cases "content_tokens tk ms \<le> budget")
  case True
  then show ?thesis using assms by (simp add: sliding_window_def)
next
  case False
  from sliding_window_cut [OF assms False] obtain sys rest recent where
    "ms = sys @ rest" "sys = (if msg_role (hd ms) = ''system'' then [hd ms] else [])"
    "if rest = [] then sliding_window tk budget ms = sys else sliding_window tk budget ms = sys @ recent @ [last ms]" by metis
  note w = this
  show ?thesis
  proof (cases "rest = []")
    case True
    then have "sliding_window tk budget ms = ms" using w by simp
    with assms show ?thesis by simp
  next
    case False
    then have win: "sliding_window tk budget ms = sys @ recent @ [last ms]" using w(3) by simp
    show ?thesis by (cases "msg_role (hd ms) = ''system''") (use w(2) win in simp_all)
  qed
qed

text \<open>
  C16. Compaction keeps the frame of the conversation: the window is a subsequence of the messages in their
  order, starts with the leading system message if there is one, ends with the newest message, and fits the
  budget whenever those two alone do.
\<close>

theorem sliding_window_keeps_frame:
  assumes "ms \<noteq> []"
  shows "subseq (sliding_window tk budget ms) ms \<and>
    last (sliding_window tk budget ms) = last ms \<and>
    (msg_role (hd ms) = ''system'' \<longrightarrow> hd (sliding_window tk budget ms) = hd ms) \<and>
    (content_tokens tk (if msg_role (hd ms) = ''system'' \<and> length ms > 1 then [hd ms, last ms] else [last ms]) \<le> budget \<longrightarrow>
       content_tokens tk (sliding_window tk budget ms) \<le> budget)"
proof (cases "content_tokens tk ms \<le> budget")
  case True
  then show ?thesis by (simp add: sliding_window_def)
next
  case False
  from sliding_window_cut [OF assms False] obtain sys rest recent where
    split: "ms = sys @ rest" and sys: "sys = (if msg_role (hd ms) = ''system'' then [hd ms] else [])" and
    win: "if rest = [] then sliding_window tk budget ms = sys
     else sliding_window tk budget ms = sys @ recent @ [last ms] \<and> suffix recent (butlast rest) \<and>
       (content_tokens tk sys + tok_count tk (msg_content (last ms)) \<le> budget \<longrightarrow>
          content_tokens tk sys + content_tokens tk recent + tok_count tk (msg_content (last ms)) \<le> budget)" by blast
  show ?thesis
  proof (cases "rest = []")
    case True
    then have "sys = ms" using split by simp
    with sys assms have one: "ms = [hd ms]" by (metis (full_types))
    then obtain m where m: "ms = [m]" by blast
    have "sliding_window tk budget ms = ms" using win True \<open>sys = ms\<close> by simp
    with m False show ?thesis by simp
  next
    case rest: False
    have last: "last ms = last rest" using split rest by simp
    have "subseq recent (butlast rest)" using win rest by (auto intro: suffix_imp_subseq)
    then have "subseq (recent @ [last ms]) (butlast rest @ [last rest])" using last by (simp add: list_emb_append_mono)
    then have "subseq (recent @ [last ms]) rest" using rest by simp
    then have "subseq (sys @ recent @ [last ms]) (sys @ rest)" by (simp add: list_emb_append_mono)
    then have sub: "subseq (sliding_window tk budget ms) ms" using win rest split by simp
    have lms: "length ms = length sys + length rest" using arg_cong [OF split, of length] by simp
    have w: "sliding_window tk budget ms = sys @ recent @ [last ms]"
      "content_tokens tk sys + tok_count tk (msg_content (last ms)) \<le> budget \<longrightarrow>
         content_tokens tk sys + content_tokens tk recent + tok_count tk (msg_content (last ms)) \<le> budget"
      using win rest by simp_all
    show ?thesis
    proof (cases "msg_role (hd ms) = ''system''")
      case True
      then have sy: "sys = [hd ms]" using sys by simp
      then have l: "1 < length ms" using lms rest by simp
      have "content_tokens tk [hd ms, last ms] \<le> budget \<longrightarrow> content_tokens tk (sliding_window tk budget ms) \<le> budget"
        using w(2) unfolding w(1) sy by (simp add: add.assoc)
      with sub l w(1) sy True show ?thesis by (simp del: content_tokens_simps)
    next
      case False
      then have sy: "sys = []" using sys by simp
      have "content_tokens tk [last ms] \<le> budget \<longrightarrow> content_tokens tk (sliding_window tk budget ms) \<le> budget"
        using w(2) unfolding w(1) sy by (simp add: add.assoc)
      with sub w(1) sy False show ?thesis by (simp del: content_tokens_simps)
    qed
  qed
qed

definition demo_msg :: "string \<Rightarrow> string \<Rightarrow> openai_message" where
  "demo_msg r c = \<lparr>msg_role = r, msg_content = c, msg_name = [], msg_tool_call_id = []\<rparr>"

theorem sliding_window_keeps_frame_witness:
  "content_tokens None (sliding_window None 4 [demo_msg ''system'' ''be brief'', demo_msg ''user'' ''a long old question'', demo_msg ''user'' ''now'']) \<le> 4"
  using sliding_window_keeps_frame [of "[demo_msg ''system'' ''be brief'', demo_msg ''user'' ''a long old question'', demo_msg ''user'' ''now'']" None 4]
  by (simp add: demo_msg_def tok_count_def approx_tokens_def)

section \<open>Deduplication and prompts\<close>

lemma dedup_from_subseq: "subseq (dedup_from prev ms) ms"
  by (induction prev ms rule: dedup_from.induct) auto

lemma dedup_from_last:
  "ms \<noteq> [] \<Longrightarrow> msg_content (last ms) \<noteq> [] \<Longrightarrow>
   (\<exists>m. dedup_from prev ms \<noteq> [] \<and> last (dedup_from prev ms) = m \<and> same_message m (last ms)) \<or>
   (\<exists>p. prev = Some p \<and> dedup_from prev ms = [] \<and> same_message (last ms) p)"
proof (induction prev ms rule: dedup_from.induct)
  case (2 prev m ms)
  show ?case
  proof (cases "ms = []")
    case True
    with 2(5) show ?thesis by (auto simp: same_message_def split: option.splits)
  next
    case False
    then have l: "last (m # ms) = last ms" by simp
    let ?skip = "(case prev of Some p \<Rightarrow> same_message m p | None \<Rightarrow> False)"
    have IH: "(\<exists>x. dedup_from (Some m) ms \<noteq> [] \<and> last (dedup_from (Some m) ms) = x \<and> same_message x (last ms)) \<or>
       dedup_from (Some m) ms = [] \<and> same_message (last ms) m"
      using 2 False by (cases ?skip; cases "msg_content m = [] \<and> msg_role m \<noteq> ''system''") auto
    have "dedup_from prev (m # ms) = dedup_from (Some m) ms \<and> (?skip \<or> msg_content m = []) \<or> dedup_from prev (m # ms) = m # dedup_from (Some m) ms"
      by auto
    then show ?thesis
    proof
      assume a: "dedup_from prev (m # ms) = dedup_from (Some m) ms \<and> (?skip \<or> msg_content m = [])"
      show ?thesis
      proof (cases "dedup_from (Some m) ms = []")
        case True
        with IH have s: "same_message (last ms) m" by blast
        with 2(5) l have "msg_content m \<noteq> []" by (auto simp: same_message_def)
        with a obtain p where "prev = Some p" "same_message m p" by (auto split: option.splits)
        with s a True l show ?thesis by (auto simp: same_message_def)
      qed (use IH a l in auto)
    next
      assume a: "dedup_from prev (m # ms) = m # dedup_from (Some m) ms"
      then show ?thesis using IH l by (cases "dedup_from (Some m) ms = []") (auto simp: same_message_def)
    qed
  qed
qed simp

lemma deduplicate_last:
  assumes "ms \<noteq> []" and "msg_content (last ms) \<noteq> []"
  shows "deduplicate ms \<noteq> [] \<and> same_message (last (deduplicate ms)) (last ms)"
  using dedup_from_last [OF assms, of None] assms by (auto simp: deduplicate_def same_message_def)

lemma deduplicate_hd_system:
  "ms \<noteq> [] \<Longrightarrow> msg_role (hd ms) = ''system'' \<Longrightarrow> deduplicate ms \<noteq> [] \<and> hd (deduplicate ms) = hd ms"
  by (cases ms) (auto simp: deduplicate_def)

text \<open>
  The optimised request still asks the same question under the same instructions: after deduplication and
  compaction to any budget, a leading system message is still the first message, and a last message with
  content is still the last one (same role and content).
\<close>

theorem compress_keeps_system_and_task:
  assumes "ms \<noteq> []" and "msg_content (last ms) \<noteq> []"
  shows "compress tk budget (deduplicate ms) \<noteq> [] \<and>
    same_message (last (compress tk budget (deduplicate ms))) (last ms) \<and>
    (msg_role (hd ms) = ''system'' \<longrightarrow> hd (compress tk budget (deduplicate ms)) = hd ms)"
proof -
  let ?d = "deduplicate ms" and ?dd = "deduplicate (deduplicate ms)"
  have d: "?d \<noteq> []" "same_message (last ?d) (last ms)" using deduplicate_last [OF assms] by auto
  then have dd: "?dd \<noteq> []" "same_message (last ?dd) (last ?d)"
    using deduplicate_last [of ?d] assms(2) by (auto simp: same_message_def)
  have hd: "hd ?dd = hd ms" if "msg_role (hd ms) = ''system''"
    using that deduplicate_hd_system [OF assms(1) that] deduplicate_hd_system [OF d(1)] by simp
  from window_ends [OF dd(1), of tk budget] show ?thesis
    using d(2) dd(2) hd by (auto simp: compress_def same_message_def)
qed

theorem compress_keeps_system_and_task_witness:
  "same_message (last (compress None 1 (deduplicate [demo_msg ''system'' ''rules'', demo_msg ''user'' ''old'', demo_msg ''user'' ''new'']))) (demo_msg ''user'' ''new'')"
  using compress_keeps_system_and_task [of "[demo_msg ''system'' ''rules'', demo_msg ''user'' ''old'', demo_msg ''user'' ''new'']" None 1]
  by (simp add: demo_msg_def)

text \<open>
  The two prompt compilers agree: the prompt of the context compiler, with the assistant header, is the
  prompt that \<open>RequestAnalyzer::compile_prompt\<close> builds for the same messages and model.
\<close>

theorem compilers_agree:
  "cc_prompt (compile_context (rq_messages req) tk n True cfg) = compile_prompt req cfg"
proof -
  have "compiles_llama cfg = is_llama cfg"
  proof (cases "chat_template cfg = []")
    case True
    have "\<not> contains [] ''<|start_header_id|>''" "\<not> contains [] ''<|im_start|>''" by code_simp+
    with True show ?thesis by (simp add: compiles_llama_def is_llama_def)
  qed (simp add: compiles_llama_def is_llama_def Let_def)
  then show ?thesis
    by (simp add: compile_context_def compile_prompt_def format_llama3_def format_chatml_def llama_message_def [abs_def]
        chatml_message_def [abs_def] Let_def split: prod.splits)
qed

lemma semantic_order:
  assumes "ms \<noteq> []" and "(sys, rest) = (if msg_role (hd ms) = ''system'' then ([hd ms], tl ms) else ([], ms))" and "rest \<noteq> []"
  shows "mset (sys @ map snd (stable_sort before (map (\<lambda>m. (f m, m)) (butlast rest))) @ [last ms]) = mset ms"
proof -
  have "rest = butlast rest @ [last rest]" "last rest = last ms" using assms by (auto split: if_splits simp: last_tl)
  moreover have "ms = sys @ rest" using assms(1,2) by (auto split: if_splits)
  ultimately have ms: "ms = sys @ butlast rest @ [last ms]" by metis
  have "mset (map snd (stable_sort before (map (\<lambda>m. (f m, m)) (butlast rest)))) = mset (butlast rest)"
    by (simp add: image_mset.compositionality comp_def)
  then have "mset (sys @ map snd (stable_sort before (map (\<lambda>m. (f m, m)) (butlast rest))) @ [last ms]) = mset (sys @ butlast rest @ [last ms])"
    by (simp only: mset_append)
  with ms show ?thesis by simp
qed

text \<open>
  Semantic selection loses no turn before the window is applied: it hands the window a rearrangement of the
  messages in which the leading system message and the last message keep their places.
\<close>

theorem semantic_filter_rearranges:
  assumes "2 \<le> length ms"
  shows "\<exists>ms'. semantic_filter fgt sim embedding ms = truncate_history ms' 8192 \<and> mset ms' = mset ms \<and> last ms' = last ms \<and>
    (msg_role (hd ms) = ''system'' \<longrightarrow> hd ms' = hd ms)"
proof (cases "\<exists>emb. embedding = Some emb \<and> emb (msg_content (last ms)) \<noteq> []")
  case False
  then have "semantic_filter fgt sim embedding ms = truncate_history ms 8192"
    using assms by (auto simp: semantic_filter_def split: option.splits)
  then show ?thesis by blast
next
  case True
  then obtain emb where emb: "embedding = Some emb" "emb (msg_content (last ms)) \<noteq> []" by blast
  obtain sys rest where sr: "(sys, rest) = (if msg_role (hd ms) = ''system'' then ([hd ms], tl ms) else ([], ms))"
    by (metis surj_pair)
  from assms have ne: "ms \<noteq> []" and tl: "tl ms \<noteq> []" by (cases ms; auto)+
  from sr ne tl have rest: "rest \<noteq> []" by (auto split: if_splits)
  let ?m = "sys @ map snd (stable_sort (\<lambda>a b. fgt (fst a) (fst b))
    (map (\<lambda>m. (sim (emb (msg_content (last ms))) (emb (msg_content m)), m)) (butlast rest))) @ [last ms]"
  have "semantic_filter fgt sim embedding ms = truncate_history ?m 8192"
    using assms emb unfolding semantic_filter_def sr [symmetric] by simp
  moreover have "mset ?m = mset ms" by (rule semantic_order [OF ne sr rest])
  moreover have "msg_role (hd ms) = ''system'' \<Longrightarrow> hd ?m = hd ms" using sr by simp
  ultimately show ?thesis by (intro exI [of _ ?m]) simp
qed

end
