(* ===== verification/Float_Order.thy ===== *)
theory Float_Order
  imports Model_Types
begin

text \<open>
  Comparison of \<open>float\<close> values on their bit patterns, which IEEE 754 fixes completely: the order of
  sign and magnitude, with both zeros equal and every comparison with a NaN false. \<open>f32_max\<close> and \<open>f32_min\<close> are
  \<open>std::max\<close> and \<open>std::min\<close>, whose results depend on the order of their arguments. Descending order of a
  float key, the comparator of every ranking in the program, is a strict weak order away from NaN.
\<close>

definition f32_mag :: "f32 \<Rightarrow> int" where
  "f32_mag w = uint w mod 2 ^ 31"

definition f32_nan :: "f32 \<Rightarrow> bool" where
  "f32_nan w \<longleftrightarrow> 0x7F800000 < f32_mag w"

definition f32_key :: "f32 \<Rightarrow> int" where
  "f32_key w = (if 2 ^ 31 \<le> uint w then - f32_mag w else f32_mag w)"

definition f32_lt :: "f32 \<Rightarrow> f32 \<Rightarrow> bool" where
  "f32_lt a b \<longleftrightarrow> \<not> f32_nan a \<and> \<not> f32_nan b \<and> f32_key a < f32_key b"

definition f32_le :: "f32 \<Rightarrow> f32 \<Rightarrow> bool" where
  "f32_le a b \<longleftrightarrow> \<not> f32_nan a \<and> \<not> f32_nan b \<and> f32_key a \<le> f32_key b"

definition f32_max :: "f32 \<Rightarrow> f32 \<Rightarrow> f32" where
  "f32_max a b = (if f32_lt a b then b else a)"

definition f32_min :: "f32 \<Rightarrow> f32 \<Rightarrow> f32" where
  "f32_min a b = (if f32_lt b a then b else a)"

text \<open>
  The double precision operations of the two normalisations and of the cosine: conversion, sum, product, the comparison with 1e-9, the float of an
  inverse square root, and the float of a quotient by the product of two square roots.
\<close>

record double_ops =
  d_of_f32 :: "f32 \<Rightarrow> u64"
  d_add :: "u64 \<Rightarrow> u64 \<Rightarrow> u64"
  d_mul :: "u64 \<Rightarrow> u64 \<Rightarrow> u64"
  d_above_1em9 :: "u64 \<Rightarrow> bool"
  d_upto_1em9 :: "u64 \<Rightarrow> bool"
  d_inv_sqrt_f32 :: "u64 \<Rightarrow> f32"
  d_cosine_f32 :: "u64 \<Rightarrow> u64 \<Rightarrow> u64 \<Rightarrow> f32"

definition d_dot :: "double_ops \<Rightarrow> f32 list \<Rightarrow> f32 list \<Rightarrow> u64" where
  "d_dot D a b = foldl (\<lambda>s p. d_add D s (d_mul D (d_of_f32 D (fst p)) (d_of_f32 D (snd p)))) 0 (zip a b)"

definition l2_normalise :: "float_ops \<Rightarrow> double_ops \<Rightarrow> f32 list \<Rightarrow> f32 list" where
  "l2_normalise F D v = (if d_above_1em9 D (d_dot D v v) then map (\<lambda>x. f_mul F x (d_inv_sqrt_f32 D (d_dot D v v))) v else v)"

lemma length_l2_normalise [simp]: "length (l2_normalise F D v) = length v"
  by (simp add: l2_normalise_def)

definition desc_by :: "('a \<Rightarrow> f32) \<Rightarrow> 'a \<Rightarrow> 'a \<Rightarrow> bool" where
  "desc_by key x y \<longleftrightarrow> f32_lt (key y) (key x)"

definition num_key :: "('a \<Rightarrow> f32) \<Rightarrow> 'a \<Rightarrow> bool" where
  "num_key key x \<longleftrightarrow> \<not> f32_nan (key x)"

lemma f32_max_ge:
  "\<not> f32_nan a \<Longrightarrow> \<not> f32_nan b \<Longrightarrow> \<not> f32_nan (f32_max a b) \<and> f32_le a (f32_max a b) \<and> f32_le b (f32_max a b)"
  by (auto simp: f32_max_def f32_lt_def f32_le_def)

lemma f32_max_nan: "\<not> f32_nan a \<Longrightarrow> \<not> f32_nan (f32_max a b)"
  by (auto simp: f32_max_def f32_lt_def)

lemma f32_le_trans: "f32_le a b \<Longrightarrow> f32_le b c \<Longrightarrow> f32_le a c"
  by (auto simp: f32_le_def)

lemma f32_le_refl: "\<not> f32_nan a \<Longrightarrow> f32_le a a"
  by (simp add: f32_le_def)

lemma desc_by_iff: "num_key key x \<Longrightarrow> num_key key y \<Longrightarrow> \<not> desc_by key y x \<longleftrightarrow> f32_le (key y) (key x)"
  by (auto simp: desc_by_def num_key_def f32_lt_def f32_le_def)

interpretation desc: strict_weak_order "num_key key" "desc_by key" for key
  by unfold_locales (auto simp: desc_by_def num_key_def f32_lt_def)

interpretation ranking: std_sort "num_key key" "desc_by key" "stable_sort (desc_by key)" for key
  by unfold_locales (auto intro: desc.stable_sort_sorted)

text \<open>Ranking by a float key and cutting after \<open>k\<close> entries, for any arrangement that \<open>std::sort\<close> may produce.\<close>

lemma ranked_cut:
  assumes "std_sort (num_key key) (desc_by key) srt" and "\<And>x. x \<in> set xs \<Longrightarrow> \<not> f32_nan (key x)"
  shows "mset (srt xs) = mset xs" and "set (srt xs) = set xs"
    and "sorted_wrt (\<lambda>a b. f32_le (key b) (key a)) (take k (srt xs))"
    and "\<forall>r x. r \<in> set (take k (srt xs)) \<and> x \<in> set xs \<and> x \<notin> set (take k (srt xs)) \<longrightarrow> f32_le (key x) (key r)"
proof -
  have num: "num_key key x" if "x \<in> set xs" for x using assms(2) that by (simp add: num_key_def)
  show "mset (srt xs) = mset xs" by (rule std_sort.srt_mset [OF assms(1)]) (rule num)
  show st: "set (srt xs) = set xs" by (rule std_sort.srt_set [OF assms(1)]) (rule num)
  have "sorted_wrt (\<lambda>a b. \<not> desc_by key b a) (srt xs)" by (rule std_sort.srt_sorted [OF assms(1)]) (rule num)
  then have "sorted_wrt (\<lambda>a b. \<not> desc_by key b a) (take k (srt xs))" by (rule sorted_wrt_take)
  then show "sorted_wrt (\<lambda>a b. f32_le (key b) (key a)) (take k (srt xs))"
    by (rule sorted_wrt_mono_rel [rotated]) (use num st desc_by_iff in_set_takeD in metis)
  have "f32_le (key x) (key r)" if r: "r \<in> set (take k (srt xs))" and x: "x \<in> set xs" "x \<notin> set (take k (srt xs))" for r x
  proof -
    have "x \<in> set (take k (srt xs) @ drop k (srt xs))" using x(1) st by simp
    then have "x \<in> set (drop k (srt xs))" using x(2) unfolding set_append by blast
    then have "\<not> desc_by key x r" using std_sort.cut_keeps_best [OF assms(1) num r] by blast
    then show ?thesis using desc_by_iff num x(1) r st in_set_takeD by metis
  qed
  then show "\<forall>r x. r \<in> set (take k (srt xs)) \<and> x \<in> set xs \<and> x \<notin> set (take k (srt xs)) \<longrightarrow> f32_le (key x) (key r)" by blast
qed

end
