(* ===== verification/Agent_Memory.thy ===== *)
theory Agent_Memory
  imports Float_Order
begin

text \<open>
  The agent's memory: \<open>WorkingMemory\<close>, \<open>SessionMemory\<close>, \<open>PersistentMemory\<close> with its scope filter,
  \<open>MemoryRecall\<close>, the keyword query of \<open>MemoryStore\<close> and the context assembly of \<open>MemoryEngine\<close>. Every method takes
  the object's mutex for its whole body, so a method is one step on the object's record. The clock, the rows
  that an SQL statement yields and the arrangement that \<open>std::sort\<close> picks among equal scores are arguments.
\<close>

section \<open>Working memory\<close>

record working_memory =
  wm_objective :: string
  wm_current_task :: string
  wm_active_model :: string
  wm_status :: string
  wm_iteration_count :: int
  wm_constraints :: "string list"

definition new_working_memory :: working_memory where
  "new_working_memory = \<lparr>wm_objective = [], wm_current_task = [], wm_active_model = [], wm_status = ''idle'',
     wm_iteration_count = 0, wm_constraints = []\<rparr>"

definition set_objective :: "string \<Rightarrow> working_memory \<Rightarrow> working_memory" where
  "set_objective obj wm = wm\<lparr>wm_objective := obj\<rparr>"

definition set_current_task :: "string \<Rightarrow> working_memory \<Rightarrow> working_memory" where
  "set_current_task task wm = wm\<lparr>wm_current_task := task\<rparr>"

definition set_active_model :: "string \<Rightarrow> working_memory \<Rightarrow> working_memory" where
  "set_active_model model wm = wm\<lparr>wm_active_model := model\<rparr>"

definition set_status :: "string \<Rightarrow> working_memory \<Rightarrow> working_memory" where
  "set_status status wm = wm\<lparr>wm_status := status\<rparr>"

definition add_constraint :: "string \<Rightarrow> working_memory \<Rightarrow> working_memory" where
  "add_constraint c wm = wm\<lparr>wm_constraints := wm_constraints wm @ [c]\<rparr>"

definition clear_constraints :: "working_memory \<Rightarrow> working_memory" where
  "clear_constraints wm = wm\<lparr>wm_constraints := []\<rparr>"

text \<open>The counter is a signed \<open>int\<close>: incrementing its maximum is undefined, which is \<open>None\<close>.\<close>

definition increment_iteration :: "working_memory \<Rightarrow> working_memory option" where
  "increment_iteration wm =
     (if wm_iteration_count wm = 2147483647 then None else Some (wm\<lparr>wm_iteration_count := wm_iteration_count wm + 1\<rparr>))"

definition reset_iteration :: "working_memory \<Rightarrow> working_memory" where
  "reset_iteration wm = wm\<lparr>wm_iteration_count := 0\<rparr>"

definition wm_reset :: "working_memory \<Rightarrow> working_memory" where
  "wm_reset wm = new_working_memory"

definition nl :: string where
  "nl = [CHR 0x0A]"

definition format_context_block :: "working_memory \<Rightarrow> string" where
  "format_context_block wm =
     (if wm_objective wm = [] \<and> wm_current_task wm = [] \<and> wm_constraints wm = [] then []
      else ''[Working Memory]'' @ nl @
        (if wm_objective wm \<noteq> [] then ''Objective: '' @ wm_objective wm @ nl else []) @
        (if wm_current_task wm \<noteq> [] then ''Current Task: '' @ wm_current_task wm @ nl else []) @
        (if wm_active_model wm \<noteq> [] then ''Model: '' @ wm_active_model wm @ nl else []) @
        (if wm_constraints wm \<noteq> [] then ''Constraints:'' @ nl @ concat (map (\<lambda>c. '' - '' @ c @ nl) (wm_constraints wm)) else []))"

section \<open>Session memory\<close>

record session_turn =
  st_turn_index :: u32
  st_timestamp :: int
  st_role :: string
  st_content :: string
  st_tool_name :: string
  st_tool_arguments :: string
  st_tool_result :: string

record session_memory =
  sm_session_id :: string
  sm_turns :: "session_turn list"
  sm_decisions :: "string list"

definition new_session_memory :: "string \<Rightarrow> session_memory" where
  "new_session_memory sid = \<lparr>sm_session_id = sid, sm_turns = [], sm_decisions = []\<rparr>"

definition sm_set_session_id :: "string \<Rightarrow> session_memory \<Rightarrow> session_memory" where
  "sm_set_session_id sid sm = sm\<lparr>sm_session_id := sid\<rparr>"

definition add_message :: "int \<Rightarrow> string \<Rightarrow> string \<Rightarrow> session_memory \<Rightarrow> session_memory" where
  "add_message now role content sm =
     sm\<lparr>sm_turns := sm_turns sm @ [\<lparr>st_turn_index = word_of_nat (length (sm_turns sm)), st_timestamp = now, st_role = role,
        st_content = content, st_tool_name = [], st_tool_arguments = [], st_tool_result = []\<rparr>]\<rparr>"

definition add_tool_interaction :: "int \<Rightarrow> string \<Rightarrow> string \<Rightarrow> string \<Rightarrow> session_memory \<Rightarrow> session_memory" where
  "add_tool_interaction now tool_name arguments res sm =
     sm\<lparr>sm_turns := sm_turns sm @ [\<lparr>st_turn_index = word_of_nat (length (sm_turns sm)), st_timestamp = now, st_role = ''tool'',
        st_content = [], st_tool_name = tool_name, st_tool_arguments = arguments, st_tool_result = res\<rparr>]\<rparr>"

definition add_decision :: "string \<Rightarrow> session_memory \<Rightarrow> session_memory" where
  "add_decision d sm = sm\<lparr>sm_decisions := sm_decisions sm @ [d]\<rparr>"

definition sm_clear :: "session_memory \<Rightarrow> session_memory" where
  "sm_clear sm = sm\<lparr>sm_turns := [], sm_decisions := []\<rparr>"

definition turn_line :: "session_turn \<Rightarrow> string" where
  "turn_line t =
     (if st_role t = ''tool''
      then ''[Tool: '' @ st_tool_name t @ ''] Args: '' @ st_tool_arguments t @ nl @ ''Result: '' @ st_tool_result t @ nl
      else ''['' @ st_role t @ ''] '' @ st_content t @ nl)"

definition format_transcript :: "session_memory \<Rightarrow> string" where
  "format_transcript sm =
     concat (map turn_line (sm_turns sm)) @
     (if sm_decisions sm \<noteq> [] then ''[Decisions Made]'' @ nl @ concat (map (\<lambda>d. '' - '' @ d @ nl) (sm_decisions sm)) else [])"

section \<open>Persistent memory\<close>

datatype memory_category = RULE | CONVENTION | DISCOVERY | ARCHITECTURAL_DECISION

record memory_entry =
  me_id :: string
  me_category :: memory_category
  me_key :: string
  me_value :: string
  me_confidence :: f32
  me_updated_at :: int
  me_workspace_id :: string
  me_session_id :: string
  me_actor_scope :: string
  me_visibility :: string
  me_source_path :: string
  me_source_type :: string
  me_commit_hash :: string
  me_importance :: f32
  me_access_count :: int
  me_last_accessed_at :: int
  me_expires_at :: int
  me_supersedes_id :: string
  me_contradicts_id :: string
  me_status :: string

definition new_memory_entry :: memory_entry where
  "new_memory_entry = \<lparr>me_id = [], me_category = DISCOVERY, me_key = [], me_value = [], me_confidence = f_one, me_updated_at = 0,
     me_workspace_id = ''default'', me_session_id = [], me_actor_scope = ''public'', me_visibility = ''workspace'',
     me_source_path = [], me_source_type = ''user'', me_commit_hash = [], me_importance = 0x3F000000, me_access_count = 0,
     me_last_accessed_at = 0, me_expires_at = 0, me_supersedes_id = [], me_contradicts_id = [], me_status = ''active''\<rparr>"

record scope_filter =
  sf_workspace_id :: string
  sf_session_id :: string
  sf_allowed_visibilities :: "string list"
  sf_active_only :: bool

definition default_filter :: scope_filter where
  "default_filter = \<lparr>sf_workspace_id = [], sf_session_id = [], sf_allowed_visibilities = [''public'', ''workspace''], sf_active_only = True\<rparr>"

definition scope_matches :: "scope_filter \<Rightarrow> memory_entry \<Rightarrow> bool" where
  "scope_matches f e =
     (if sf_active_only f \<and> me_status e \<noteq> ''active'' then False
      else if sf_workspace_id f \<noteq> [] \<and> me_workspace_id e \<noteq> sf_workspace_id f \<and> me_workspace_id e \<noteq> ''default'' \<and>
              me_visibility e \<noteq> ''public'' then False
      else if sf_session_id f \<noteq> [] \<and> me_visibility e = ''session'' \<and> me_session_id e \<noteq> sf_session_id f then False
      else if sf_allowed_visibilities f \<noteq> [] \<and> me_visibility e \<notin> set (sf_allowed_visibilities f) then False
      else True)"

type_synonym persistent_memory = "(string, memory_entry) omap"

definition set_entry :: "int \<Rightarrow> memory_entry \<Rightarrow> persistent_memory \<Rightarrow> persistent_memory" where
  "set_entry now entry pm =
     (let e = (if me_updated_at entry = 0 then entry\<lparr>me_updated_at := now\<rparr> else entry) in om_put (me_key e) e pm)"

definition get_entry :: "string \<Rightarrow> persistent_memory \<Rightarrow> memory_entry option" where
  "get_entry key pm = map_of pm key"

definition remove_entry :: "string \<Rightarrow> persistent_memory \<Rightarrow> bool \<times> persistent_memory" where
  "remove_entry key pm = (map_of pm key \<noteq> None, om_erase key pm)"

definition get_all_by_category :: "memory_category \<Rightarrow> persistent_memory \<Rightarrow> memory_entry list" where
  "get_all_by_category cat pm = filter (\<lambda>e. me_category e = cat) (map snd pm)"

definition get_all :: "scope_filter \<Rightarrow> persistent_memory \<Rightarrow> memory_entry list" where
  "get_all f pm = filter (scope_matches f) (map snd pm)"

fun category_name :: "memory_category \<Rightarrow> string" where
  "category_name RULE = ''Rule''"
| "category_name CONVENTION = ''Convention''"
| "category_name DISCOVERY = ''Discovery''"
| "category_name ARCHITECTURAL_DECISION = ''Decision''"

definition rule_line :: "memory_entry \<Rightarrow> string" where
  "rule_line e = ''['' @ category_name (me_category e) @ ''] '' @ me_key e @ '': '' @ me_value e @ nl"

definition format_context_rules :: "scope_filter \<Rightarrow> persistent_memory \<Rightarrow> string" where
  "format_context_rules f pm =
     (if pm = [] then []
      else let rules = filter (scope_matches f) (map snd pm)
           in if rules = [] then [] else ''[Persistent System Knowledge & Rules]'' @ nl @ concat (map rule_line rules))"

definition pm_clear :: "persistent_memory \<Rightarrow> persistent_memory" where
  "pm_clear pm = []"

section \<open>Recall\<close>

text \<open>
  The keyword query of the store: \<open>rows\<close> are the rows the SQL statement yields. A row is kept when the filter
  accepts it, and the loop stops once there are \<open>limit\<close> results (after the first one for a limit of zero).
\<close>

fun query_memories_keyword :: "scope_filter \<Rightarrow> nat \<Rightarrow> memory_entry list \<Rightarrow> memory_entry list \<Rightarrow> memory_entry list" where
  "query_memories_keyword f limit [] results = results"
| "query_memories_keyword f limit (e # rows) results =
     (if scope_matches f e
      then if limit \<le> length (results @ [e]) then results @ [e] else query_memories_keyword f limit rows (results @ [e])
      else query_memories_keyword f limit rows results)"

fun alnum_tokens :: "string \<Rightarrow> string \<Rightarrow> string list" where
  "alnum_tokens cur [] = (if cur \<noteq> [] then [cur] else [])"
| "alnum_tokens cur (c # cs) =
     (if isalnum c then alnum_tokens (cur @ [c]) cs
      else if cur \<noteq> [] then cur # alnum_tokens [] cs else alnum_tokens [] cs)"

definition compute_lexical_similarity :: "float_ops \<Rightarrow> string \<Rightarrow> string \<Rightarrow> f32" where
  "compute_lexical_similarity F query target =
     (if query = [] \<or> target = [] then f_zero
      else if contains (lower target) (lower query) then f_one
      else let q_tokens = alnum_tokens [] (lower query);
               hits = length (filter (\<lambda>tok. 3 \<le> length tok \<and> contains (lower target) tok) q_tokens)
           in if q_tokens = [] then f_zero else f_div F (f_of_int F (int hits)) (f_of_int F (int (length q_tokens))))"

record recalled_memory =
  rm_entry :: memory_entry
  rm_relevance_score :: f32
  rm_match_source :: string

definition similarity_of :: "float_ops \<Rightarrow> string \<Rightarrow> memory_entry \<Rightarrow> f32" where
  "similarity_of F query e =
     f32_max (compute_lexical_similarity F query (me_key e)) (compute_lexical_similarity F query (me_value e))"

text \<open>\<open>score > 0.1f\<close>\<close>

definition recall_persistent :: "float_ops \<Rightarrow> string \<Rightarrow> memory_entry list \<Rightarrow> recalled_memory list" where
  "recall_persistent F query es =
     map (\<lambda>e. \<lparr>rm_entry = e, rm_relevance_score = f_mul F (similarity_of F query e) (me_confidence e), rm_match_source = ''persistent_cache''\<rparr>)
       (filter (\<lambda>e. f32_lt 0x3DCCCCCD (similarity_of F query e)) es)"

definition store_hit :: "float_ops \<Rightarrow> string \<Rightarrow> memory_entry \<Rightarrow> recalled_memory" where
  "store_hit F query e =
     (let score = similarity_of F query e
      in \<lparr>rm_entry = e, rm_relevance_score = f_mul F (if f32_lt f_zero score then score else 0x3F000000) (me_confidence e),
          rm_match_source = ''canonical_store''\<rparr>)"

fun recall_store :: "float_ops \<Rightarrow> string \<Rightarrow> memory_entry list \<Rightarrow> recalled_memory list \<Rightarrow> recalled_memory list" where
  "recall_store F query [] results = results"
| "recall_store F query (e # es) results =
     (if \<exists>r \<in> set results. me_key (rm_entry r) = me_key e then recall_store F query es results
      else recall_store F query es (results @ [store_hit F query e]))"

definition gather_recall ::
  "float_ops \<Rightarrow> string \<Rightarrow> nat \<Rightarrow> scope_filter \<Rightarrow> persistent_memory option \<Rightarrow> memory_entry list option \<Rightarrow> recalled_memory list" where
  "gather_recall F query limit f pm rows =
     (let found = (case pm of Some m \<Rightarrow> recall_persistent F query (get_all f m) | None \<Rightarrow> [])
      in case rows of Some rs \<Rightarrow> recall_store F query (query_memories_keyword f limit rs []) found | None \<Rightarrow> found)"

definition recall ::
  "(recalled_memory list \<Rightarrow> recalled_memory list) \<Rightarrow> float_ops \<Rightarrow> string \<Rightarrow> nat \<Rightarrow> scope_filter \<Rightarrow> persistent_memory option \<Rightarrow>
   memory_entry list option \<Rightarrow> recalled_memory list" where
  "recall srt F query limit f pm rows = take limit (srt (gather_recall F query limit f pm rows))"

definition format_recalled_context :: "recalled_memory list \<Rightarrow> string" where
  "format_recalled_context ms =
     (if ms = [] then []
      else ''[Recalled Relevant Memory Context]'' @ nl @
        concat (map (\<lambda>r. '' - ('' @ rm_match_source r @ '') '' @ me_key (rm_entry r) @ '': '' @ me_value (rm_entry r) @ nl) ms))"

section \<open>The memory engine\<close>

record memory_engine =
  en_working :: working_memory
  en_session :: session_memory
  en_persistent :: persistent_memory

text \<open>\<open>rows\<close> answers the keyword statement for a query, a limit and a filter.\<close>

definition assemble_memory_context ::
  "(recalled_memory list \<Rightarrow> recalled_memory list) \<Rightarrow> float_ops \<Rightarrow> (string \<Rightarrow> scope_filter \<Rightarrow> memory_entry list) \<Rightarrow>
   string \<Rightarrow> scope_filter \<Rightarrow> memory_engine \<Rightarrow> string" where
  "assemble_memory_context srt F rows current_query f en =
     (let wm = format_context_block (en_working en);
          pm = format_context_rules default_filter (en_persistent en);
          rm = (if current_query \<noteq> []
                then format_recalled_context (recall srt F current_query 5 f (Some (en_persistent en)) (Some (rows current_query f)))
                else [])
      in (if wm \<noteq> [] then wm @ nl else []) @ (if pm \<noteq> [] then pm @ nl else []) @ (if rm \<noteq> [] then rm @ nl else []))"

text \<open>\<open>MemoryEngine::init\<close> after the store is open: the loaded rules enter the in-memory cache.\<close>

definition load_persistent :: "int \<Rightarrow> memory_entry list \<Rightarrow> memory_engine \<Rightarrow> memory_engine" where
  "load_persistent now loaded en = en\<lparr>en_persistent := fold (set_entry now) loaded (en_persistent en)\<rparr>"

section \<open>Sessions\<close>

text \<open>The calls that change a session object, in any order; the clock value of a call is arbitrary.\<close>

inductive session_step :: "session_memory \<Rightarrow> session_memory \<Rightarrow> bool" where
  step_id: "session_step sm (sm_set_session_id sid sm)"
| step_message: "session_step sm (add_message now role content sm)"
| step_tool: "session_step sm (add_tool_interaction now tool args res sm)"
| step_decision: "session_step sm (add_decision d sm)"
| step_clear: "session_step sm (sm_clear sm)"

definition turns_numbered :: "session_memory \<Rightarrow> bool" where
  "turns_numbered sm \<longleftrightarrow> map st_turn_index (sm_turns sm) = map word_of_nat [0..<length (sm_turns sm)]"

lemma turns_numbered_step: "session_step sm sm' \<Longrightarrow> turns_numbered sm \<Longrightarrow> turns_numbered sm'"
  by (induction rule: session_step.induct)
    (auto simp: turns_numbered_def sm_set_session_id_def add_message_def add_tool_interaction_def add_decision_def sm_clear_def)

text \<open>
  However a session is used, its turns are numbered by their positions (modulo the 32 bits of the index), and a
  message that is added is the last turn of the transcript with its role and content.
\<close>

theorem session_turns_numbered:
  assumes "session_step\<^sup>*\<^sup>* (new_session_memory sid) sm"
  shows "(\<forall>i < length (sm_turns sm). st_turn_index (sm_turns sm ! i) = word_of_nat i) \<and>
    st_turn_index (last (sm_turns (add_message now role content sm))) = word_of_nat (length (sm_turns sm)) \<and>
    (sm_decisions sm = [] \<and> role \<noteq> ''tool'' \<longrightarrow>
       format_transcript (add_message now role content sm) = format_transcript sm @ ''['' @ role @ ''] '' @ content @ nl)"
proof -
  have "turns_numbered (new_session_memory sid)" by (simp add: turns_numbered_def new_session_memory_def)
  with assms have "turns_numbered sm" by (induction rule: rtranclp_induct) (auto intro: turns_numbered_step)
  then have n: "map st_turn_index (sm_turns sm) = map word_of_nat [0..<length (sm_turns sm)]" by (simp add: turns_numbered_def)
  have "st_turn_index (sm_turns sm ! i) = word_of_nat i" if "i < length (sm_turns sm)" for i
    using arg_cong [OF n, of "\<lambda>l. l ! i"] that by simp
  then show ?thesis by (simp add: add_message_def format_transcript_def turn_line_def)
qed

theorem session_turns_numbered_witness:
  "st_turn_index (sm_turns (add_message 7 ''user'' ''hi'' (new_session_memory ''s'')) ! 0) = 0"
  using session_turns_numbered [of "''s''" "add_message 7 ''user'' ''hi'' (new_session_memory ''s'')"]
    step_message [of "new_session_memory ''s''" 7 "''user''" "''hi''"]
  by (simp add: r_into_rtranclp add_message_def new_session_memory_def)

section \<open>Recall stays in scope\<close>

definition pm_wf :: "persistent_memory \<Rightarrow> bool" where
  "pm_wf pm \<longleftrightarrow> om_wf pm \<and> (\<forall>(k, e) \<in> set pm. me_key e = k)"

lemma om_put_mem: "x \<in> set (om_put k v m) \<Longrightarrow> x = (k, v) \<or> x \<in> set m"
  by (induction k v m rule: om_put.induct) (auto split: if_splits)

lemma pm_wf_set_entry: "pm_wf pm \<Longrightarrow> pm_wf (set_entry now e pm)"
  by (auto simp: pm_wf_def set_entry_def Let_def dest!: om_put_mem split: if_splits)

lemma pm_wf_remove_entry: "pm_wf pm \<Longrightarrow> pm_wf (snd (remove_entry key pm))"
  by (auto simp: pm_wf_def remove_entry_def) (auto simp: om_erase_def)

lemma pm_wf_load: "pm_wf (en_persistent en) \<Longrightarrow> pm_wf (en_persistent (load_persistent now es en))"
proof -
  have "pm_wf pm \<Longrightarrow> pm_wf (fold (set_entry now) es pm)" for pm
    by (induction es arbitrary: pm) (auto simp: pm_wf_set_entry)
  then show "pm_wf (en_persistent en) \<Longrightarrow> ?thesis" by (simp add: load_persistent_def)
qed

lemma pm_keys: "pm_wf pm \<Longrightarrow> map (me_key \<circ> snd) pm = map fst pm"
  by (auto simp: pm_wf_def)

lemma query_in_scope:
  "(\<And>e. e \<in> set results \<Longrightarrow> scope_matches f e) \<Longrightarrow> e \<in> set (query_memories_keyword f limit rows results) \<Longrightarrow> scope_matches f e"
  by (induction f limit rows results rule: query_memories_keyword.induct) (auto split: if_splits)

lemma store_hit_entry [simp]: "rm_entry (store_hit F query e) = e"
  by (simp add: store_hit_def Let_def)

lemma recall_store_scope:
  "(\<And>e. e \<in> set es \<Longrightarrow> P e) \<Longrightarrow> (\<And>r. r \<in> set results \<Longrightarrow> P (rm_entry r)) \<Longrightarrow>
   r \<in> set (recall_store F query es results) \<Longrightarrow> P (rm_entry r)"
  by (induction F query es results rule: recall_store.induct) (fastforce split: if_splits)+

lemma recall_store_distinct:
  "distinct (map (me_key \<circ> rm_entry) results) \<Longrightarrow> distinct (map (me_key \<circ> rm_entry) (recall_store F query es results))"
  by (induction F query es results rule: recall_store.induct) (force simp: comp_def)+

lemma recall_persistent_keys:
  "map (me_key \<circ> rm_entry) (recall_persistent F query es) = map me_key (filter (\<lambda>e. f32_lt 0x3DCCCCCD (similarity_of F query e)) es)"
  by (simp add: recall_persistent_def)

lemma gather_recall_scope:
  assumes "r \<in> set (gather_recall F query limit f pm rows)"
  shows "scope_matches f (rm_entry r)"
proof -
  let ?found = "case pm of Some m \<Rightarrow> recall_persistent F query (get_all f m) | None \<Rightarrow> []"
  have found: "scope_matches f (rm_entry x)" if "x \<in> set ?found" for x
    using that by (auto simp: recall_persistent_def get_all_def split: option.splits)
  show ?thesis
  proof (cases rows)
    case None
    with assms found show ?thesis by (simp add: gather_recall_def)
  next
    case (Some rs)
    have q: "scope_matches f e" if "e \<in> set (query_memories_keyword f limit rs [])" for e using query_in_scope [OF _ that] by simp
    have "r \<in> set (recall_store F query (query_memories_keyword f limit rs []) ?found)"
      using assms Some by (simp add: gather_recall_def)
    then show ?thesis by (rule recall_store_scope [where P = "scope_matches f", rotated 2]) (fact q, fact found)
  qed
qed

lemma gather_recall_distinct:
  assumes "pm_wf m"
  shows "distinct (map (me_key \<circ> rm_entry) (gather_recall F query limit f (Some m) rows))"
proof -
  have "distinct (map me_key (map snd m))" using assms om_wf_distinct [of m] unfolding map_map pm_keys [OF assms] by (simp add: pm_wf_def)
  then have "distinct (map me_key (filter P (filter Q (map snd m))))" for P Q by (intro distinct_map_filter)
  then have "distinct (map (me_key \<circ> rm_entry) (recall_persistent F query (get_all f m)))"
    unfolding recall_persistent_keys get_all_def .
  then show ?thesis using recall_store_distinct by (cases rows) (simp_all add: gather_recall_def)
qed

text \<open>
  Recall respects the scope and ranks: every recalled memory is accepted by the caller's filter, no key
  is recalled twice, there are at most \<open>limit\<close> of them, they come in order of relevance, and nothing that was
  left out is more relevant than something that was returned. The scores must be numbers: \<open>std::sort\<close> has no
  defined result when one of them is NaN.
\<close>

theorem recall_in_scope:
  assumes "std_sort (num_key rm_relevance_score) (desc_by rm_relevance_score) srt" and "pm_wf m"
    and "\<And>r. r \<in> set (gather_recall F query limit f (Some m) rows) \<Longrightarrow> \<not> f32_nan (rm_relevance_score r)"
  shows "(\<forall>r. r \<in> set (recall srt F query limit f (Some m) rows) \<longrightarrow> scope_matches f (rm_entry r)) \<and>
    distinct (map (me_key \<circ> rm_entry) (recall srt F query limit f (Some m) rows)) \<and>
    length (recall srt F query limit f (Some m) rows) \<le> limit \<and>
    sorted_wrt (\<lambda>a b. f32_le (rm_relevance_score b) (rm_relevance_score a)) (recall srt F query limit f (Some m) rows) \<and>
    (\<forall>r x. r \<in> set (recall srt F query limit f (Some m) rows) \<and> x \<in> set (gather_recall F query limit f (Some m) rows) \<and>
       x \<notin> set (recall srt F query limit f (Some m) rows) \<longrightarrow> f32_le (rm_relevance_score x) (rm_relevance_score r))"
proof -
  define xs where "xs = gather_recall F query limit f (Some m) rows"
  note cut = ranked_cut [OF assms(1) assms(3), folded xs_def]
  have "mset (map (me_key \<circ> rm_entry) (srt xs)) = mset (map (me_key \<circ> rm_entry) xs)" using cut(1) by (simp add: mset_map)
  then have "distinct (map (me_key \<circ> rm_entry) (srt xs))"
    using gather_recall_distinct [OF assms(2)] mset_eq_imp_distinct_iff unfolding xs_def by blast
  then have d: "distinct (map (me_key \<circ> rm_entry) (take limit (srt xs)))" by (metis distinct_take take_map)
  have sc: "scope_matches f (rm_entry r)" if "r \<in> set (take limit (srt xs))" for r
    using that cut(2) gather_recall_scope in_set_takeD unfolding xs_def by metis
  show ?thesis unfolding recall_def xs_def [symmetric] using d cut(3,4) sc by simp
qed

definition demo_memory :: "string \<Rightarrow> string \<Rightarrow> string \<Rightarrow> memory_entry" where
  "demo_memory ws k v = new_memory_entry\<lparr>me_key := k, me_value := v, me_workspace_id := ws, me_updated_at := 1\<rparr>"

definition scope_of :: "string \<Rightarrow> scope_filter" where
  "scope_of ws = default_filter\<lparr>sf_workspace_id := ws\<rparr>"

theorem recall_in_scope_witness:
  "set (recall (stable_sort (desc_by rm_relevance_score)) demo_floats ''db'' 5 (scope_of ''w1'')
      (Some (set_entry 0 (demo_memory ''w2'' ''db'' ''mysql'') (set_entry 0 (demo_memory ''w1'' ''db-port'' ''5432'') []))) None) \<subseteq>
     {r. scope_matches (scope_of ''w1'') (rm_entry r)}"
proof -
  let ?m = "set_entry 0 (demo_memory ''w2'' ''db'' ''mysql'') (set_entry 0 (demo_memory ''w1'' ''db-port'' ''5432'') [])"
  have wf: "pm_wf ?m" by (intro pm_wf_set_entry) (simp add: pm_wf_def)
  have "list_all (\<lambda>r. \<not> f32_nan (rm_relevance_score r)) (gather_recall demo_floats ''db'' 5 (scope_of ''w1'') (Some ?m) None)"
    by code_simp
  then have "\<not> f32_nan (rm_relevance_score r)"
    if "r \<in> set (gather_recall demo_floats ''db'' 5 (scope_of ''w1'') (Some ?m) None)" for r
    using that by (simp add: list_all_iff)
  from recall_in_scope [OF ranking.std_sort_axioms wf this] show ?thesis by blast
qed

section \<open>The assembled context\<close>

lemma contains_concat: "s \<in> set ss \<Longrightarrow> contains (concat ss) s"
proof -
  assume "s \<in> set ss"
  then obtain a b where "ss = a @ s # b" by (meson split_list)
  then have "concat ss = concat a @ s @ concat b" by simp
  then show ?thesis unfolding contains_iff by blast
qed

lemma rule_in_context:
  assumes "e \<in> set (get_all default_filter (en_persistent en))"
  shows "contains (assemble_memory_context srt F rows q f en) (rule_line e)"
proof -
  let ?pm = "format_context_rules default_filter (en_persistent en)"
  have ne: "en_persistent en \<noteq> []" "get_all default_filter (en_persistent en) \<noteq> []"
    using assms by (auto simp: get_all_def filter_empty_conv)
  have "?pm = (''[Persistent System Knowledge & Rules]'' @ nl) @ concat (map rule_line (get_all default_filter (en_persistent en)))"
    using ne by (simp add: format_context_rules_def get_all_def)
  moreover have "contains (concat (map rule_line (get_all default_filter (en_persistent en)))) (rule_line e)"
    using assms by (intro contains_concat) auto
  ultimately have c: "contains ?pm (rule_line e)" using contains_append_right by metis
  have "?pm \<noteq> []" using ne by (simp add: format_context_rules_def get_all_def)
  then obtain a b where "assemble_memory_context srt F rows q f en = a @ ?pm @ b"
    unfolding assemble_memory_context_def Let_def by auto
  with c show ?thesis by (simp add: contains_append_left contains_append_right)
qed

text \<open>
  The rules section of the assembled context ignores the caller's scope: an active rule with workspace
  visibility is in the prompt of every request, whatever workspace or session the request's filter names.
\<close>

theorem context_rules_ignore_scope:
  assumes "(k, e) \<in> set (en_persistent en)" and "me_status e = ''active''" and "me_visibility e = ''workspace''"
  shows "contains (assemble_memory_context srt F rows query f en) (rule_line e)"
proof -
  have "scope_matches default_filter e" using assms(2,3) by (simp add: scope_matches_def default_filter_def)
  with assms(1) have "e \<in> set (get_all default_filter (en_persistent en))" by (force simp: get_all_def)
  then show ?thesis by (rule rule_in_context)
qed

definition demo_engine :: memory_engine where
  "demo_engine = \<lparr>en_working = new_working_memory, en_session = new_session_memory ''s'',
     en_persistent = [(''db'', demo_memory ''w2'' ''db'' ''mysql'')]\<rparr>"

theorem context_rules_ignore_scope_witness:
  "contains (assemble_memory_context (\<lambda>xs. xs) demo_floats (\<lambda>_ _. []) [] (scope_of ''w1'') demo_engine)
     ''[Discovery] db: mysql\<newline>'' \<and> \<not> scope_matches (scope_of ''w1'') (demo_memory ''w2'' ''db'' ''mysql'')"
proof
  have r: "rule_line (demo_memory ''w2'' ''db'' ''mysql'') = ''[Discovery] db: mysql\<newline>''" by code_simp
  show "contains (assemble_memory_context (\<lambda>xs. xs) demo_floats (\<lambda>_ _. []) [] (scope_of ''w1'') demo_engine) ''[Discovery] db: mysql\<newline>''"
    using context_rules_ignore_scope [of "''db''" "demo_memory ''w2'' ''db'' ''mysql''" demo_engine "\<lambda>xs. xs" demo_floats "\<lambda>_ _. []" "[]" "scope_of ''w1''"]
    by (simp add: r demo_engine_def) (simp add: demo_memory_def new_memory_entry_def)
  show "\<not> scope_matches (scope_of ''w1'') (demo_memory ''w2'' ''db'' ''mysql'')" by code_simp
qed

end
