(* ===== verification/Search_Engine.thy ===== *)
theory Search_Engine
  imports Agent_Memory
begin

text \<open>
  Evidence search: \<open>ExactSearch\<close>, \<open>LexicalSearch\<close>, \<open>StructuralSearch\<close>, \<open>ResultFusion\<close> and \<open>SearchEngine\<close>. The
  symbol table, the memory store, the text embedding and the vector index answer through arguments; float sums
  and products are the argument \<open>F\<close>, while float comparisons are computed on the bit patterns.
\<close>

section \<open>Results and chunks\<close>

datatype search_source = CODE | MEMORY | TEXT

record search_result =
  sr_id :: string
  sr_source :: search_source
  sr_file_path :: string
  sr_symbol_name :: string
  sr_content :: string
  sr_line_start :: u32
  sr_line_end :: u32
  sr_timestamp :: int
  sr_semantic_similarity :: f32
  sr_lexical_score :: f32
  sr_structural_importance :: f32
  sr_symbol_match :: f32
  sr_recency :: f32
  sr_task_relevance :: f32
  sr_final_score :: f32

definition new_search_result :: search_result where
  "new_search_result = \<lparr>sr_id = [], sr_source = CODE, sr_file_path = [], sr_symbol_name = [], sr_content = [], sr_line_start = 0,
     sr_line_end = 0, sr_timestamp = 0, sr_semantic_similarity = f_zero, sr_lexical_score = f_zero, sr_structural_importance = f_zero,
     sr_symbol_match = f_zero, sr_recency = f_zero, sr_task_relevance = f_zero, sr_final_score = f_zero\<rparr>"

record structural_chunk =
  ch_file_path :: string
  ch_symbol :: string
  ch_parent_symbol :: string
  ch_language :: string
  ch_start_line :: int
  ch_end_line :: int
  ch_source_hash :: u64
  ch_content :: string

text \<open>The part of a result that every code channel fills in the same way.\<close>

definition chunk_result :: "structural_chunk \<Rightarrow> search_result" where
  "chunk_result ch = new_search_result\<lparr>sr_id := ch_file_path ch @ '':'' @ int_digits (ch_start_line ch), sr_source := CODE,
     sr_file_path := ch_file_path ch, sr_symbol_name := ch_symbol ch, sr_content := ch_content ch,
     sr_line_start := word_of_int (ch_start_line ch), sr_line_end := word_of_int (ch_end_line ch)\<rparr>"

section \<open>Exact search\<close>

definition icase_equals :: "string \<Rightarrow> string \<Rightarrow> bool" where
  "icase_equals a b \<longleftrightarrow> length a = length b \<and> list_all2 (\<lambda>c1 c2. tolower c1 = tolower c2) a b"

definition icase_contains :: "string \<Rightarrow> string \<Rightarrow> bool" where
  "icase_contains str sub =
     (if sub = [] then True else if length str < length sub then False else search_icase sub str)"

definition is_exact_symbol :: "string \<Rightarrow> string \<Rightarrow> bool" where
  "is_exact_symbol query target \<longleftrightarrow> query \<noteq> [] \<and> target \<noteq> [] \<and> icase_equals query target"

definition exact_search_code :: "string \<Rightarrow> structural_chunk list \<Rightarrow> search_result list" where
  "exact_search_code query chunks =
     (if query = [] then []
      else concat (map (\<lambda>ch.
        let symbol_hit = is_exact_symbol query (ch_symbol ch) \<or> is_exact_symbol query (ch_parent_symbol ch);
            substring_hit = icase_contains (ch_content ch) query;
            is_class = ch_parent_symbol ch = [] \<or> ch_parent_symbol ch = ch_symbol ch
        in if symbol_hit \<or> substring_hit
           then [(chunk_result ch)\<lparr>sr_symbol_match := (if symbol_hit then f_one else 0x3F000000),
                  sr_lexical_score := (if substring_hit then 0x3F333333 else f_zero),
                  sr_structural_importance := (if is_class then f_one else 0x3F4CCCCD)\<rparr>]
           else []) chunks))"

definition exact_search_text :: "string \<Rightarrow> string \<Rightarrow> string \<Rightarrow> search_result list" where
  "exact_search_text query text path =
     (if query = [] \<or> text = [] then []
      else if contains text query
      then [new_search_result\<lparr>sr_id := path @ '':exact'', sr_source := TEXT, sr_file_path := path, sr_content := text,
             sr_lexical_score := 0x3F4CCCCD, sr_symbol_match := (if length query > 3 then 0x3F19999A else 0x3E99999A)\<rparr>]
      else [])"

section \<open>Lexical search\<close>

fun lex_tokens :: "string \<Rightarrow> string \<Rightarrow> string list" where
  "lex_tokens cur [] = (if 2 \<le> length cur then [cur] else [])"
| "lex_tokens cur (c # cs) =
     (if isalnum c \<or> c = CHR ''_'' then lex_tokens (cur @ [tolower c]) cs
      else if cur \<noteq> [] then (if 2 \<le> length cur then [cur] else []) @ lex_tokens [] cs
      else lex_tokens [] cs)"

definition lexical_tokenize :: "string \<Rightarrow> string list" where
  "lexical_tokenize text = lex_tokens [] text"

definition score_content :: "float_ops \<Rightarrow> string list \<Rightarrow> string \<Rightarrow> f32" where
  "score_content F query_terms content =
     (if query_terms = [] \<or> content = [] then f_zero
      else let doc_terms = lexical_tokenize content; unique_query = remdups query_terms;
               hits = length (filter (\<lambda>t. t \<in> set doc_terms) unique_query)
           in if doc_terms = [] then f_zero
              else f32_min f_one (f_div F (f_of_int F (int hits)) (f_of_int F (int (length unique_query)))))"

definition lexical_search_chunks :: "float_ops \<Rightarrow> string \<Rightarrow> structural_chunk list \<Rightarrow> f32 \<Rightarrow> search_result list" where
  "lexical_search_chunks F query chunks threshold =
     (let query_terms = lexical_tokenize query
      in if query_terms = [] then []
         else concat (map (\<lambda>ch.
           let score = score_content F query_terms (ch_content ch);
               is_class = ch_parent_symbol ch = [] \<or> ch_parent_symbol ch = ch_symbol ch
           in if f32_le threshold score
              then [(chunk_result ch)\<lparr>sr_lexical_score := score, sr_structural_importance := (if is_class then 0x3F666666 else 0x3F333333)\<rparr>]
              else []) chunks))"

definition lexical_search_texts :: "float_ops \<Rightarrow> string \<Rightarrow> (string \<times> string) list \<Rightarrow> f32 \<Rightarrow> search_result list" where
  "lexical_search_texts F query id_and_texts threshold =
     (let query_terms = lexical_tokenize query
      in if query_terms = [] then []
         else concat (map (\<lambda>(tid, text).
           let score = score_content F query_terms text
           in if f32_le threshold score
              then [new_search_result\<lparr>sr_id := tid, sr_source := TEXT, sr_content := text, sr_lexical_score := score\<rparr>]
              else []) id_and_texts))"

section \<open>Structural search\<close>

definition chunk_to_result :: "structural_chunk \<Rightarrow> f32 \<Rightarrow> f32 \<Rightarrow> search_result" where
  "chunk_to_result ch importance symbol_match =
     (chunk_result ch)\<lparr>sr_structural_importance := importance, sr_symbol_match := symbol_match, sr_lexical_score := 0x3F000000\<rparr>"

definition search_class :: "string \<Rightarrow> structural_chunk list \<Rightarrow> search_result list" where
  "search_class class_name chunks =
     (if class_name = [] then []
      else map (\<lambda>ch. chunk_to_result ch f_one f_one)
        (filter (\<lambda>ch. icase_equals (ch_symbol ch) class_name \<and>
           (ch_parent_symbol ch = [] \<or> icase_equals (ch_parent_symbol ch) class_name)) chunks))"

definition search_methods_in_scope :: "string \<Rightarrow> structural_chunk list \<Rightarrow> search_result list" where
  "search_methods_in_scope scope_name chunks =
     (if scope_name = [] then []
      else map (\<lambda>ch. chunk_to_result ch 0x3F59999A 0x3F4CCCCD)
        (filter (\<lambda>ch. icase_equals (ch_parent_symbol ch) scope_name \<and> \<not> icase_equals (ch_symbol ch) scope_name) chunks))"

definition structural_search_all :: "string \<Rightarrow> structural_chunk list \<Rightarrow> search_result list" where
  "structural_search_all query chunks =
     (if query = [] then []
      else map (\<lambda>ch. chunk_to_result ch
            (if ch_parent_symbol ch = [] \<or> icase_equals (ch_parent_symbol ch) (ch_symbol ch) then f_one else 0x3F400000)
            (if icase_equals (ch_symbol ch) query then f_one else 0x3F19999A))
        (filter (\<lambda>ch. icase_contains (ch_symbol ch) query \<or> icase_contains (ch_parent_symbol ch) query) chunks))"

section \<open>Fusion\<close>

record fusion_weights =
  w1_semantic :: f32
  w2_lexical :: f32
  w3_structural :: f32
  w4_symbol :: f32
  w5_recency :: f32
  w6_task :: f32

definition default_weights :: fusion_weights where
  "default_weights = \<lparr>w1_semantic = 0x3E800000, w2_lexical = 0x3E800000, w3_structural = 0x3E19999A, w4_symbol = 0x3E4CCCCD,
     w5_recency = 0x3D4CCCCD, w6_task = 0x3DCCCCCD\<rparr>"

definition compute_score :: "float_ops \<Rightarrow> fusion_weights \<Rightarrow> search_result \<Rightarrow> f32" where
  "compute_score F w r =
     f_add F (f_add F (f_add F (f_add F (f_add F
       (f_mul F (w1_semantic w) (sr_semantic_similarity r)) (f_mul F (w2_lexical w) (sr_lexical_score r)))
       (f_mul F (w3_structural w) (sr_structural_importance r))) (f_mul F (w4_symbol w) (sr_symbol_match r)))
       (f_mul F (w5_recency w) (sr_recency r))) (f_mul F (w6_task w) (sr_task_relevance r))"

definition is_duplicate :: "search_result \<Rightarrow> search_result \<Rightarrow> bool" where
  "is_duplicate a b =
     (if sr_id a \<noteq> [] \<and> sr_id a = sr_id b then True
      else if sr_source a = sr_source b \<and> sr_file_path a \<noteq> [] \<and> sr_file_path a = sr_file_path b
      then sr_line_start a \<le> sr_line_end b \<and> sr_line_start b \<le> sr_line_end a
      else False)"

definition merge_results :: "search_result \<Rightarrow> search_result \<Rightarrow> search_result" where
  "merge_results a b =
     a\<lparr>sr_content := (if length (sr_content a) < length (sr_content b) then sr_content b else sr_content a),
       sr_semantic_similarity := f32_max (sr_semantic_similarity a) (sr_semantic_similarity b),
       sr_lexical_score := f32_max (sr_lexical_score a) (sr_lexical_score b),
       sr_structural_importance := f32_max (sr_structural_importance a) (sr_structural_importance b),
       sr_symbol_match := f32_max (sr_symbol_match a) (sr_symbol_match b),
       sr_recency := f32_max (sr_recency a) (sr_recency b),
       sr_task_relevance := f32_max (sr_task_relevance a) (sr_task_relevance b),
       sr_timestamp := max (sr_timestamp a) (sr_timestamp b)\<rparr>"

text \<open>One candidate is merged into the first entry it duplicates, or appended.\<close>

fun absorb :: "search_result \<Rightarrow> search_result list \<Rightarrow> search_result list" where
  "absorb r [] = [r]"
| "absorb r (e # es) = (if is_duplicate e r then merge_results e r # es else e # absorb r es)"

definition dedup_results :: "search_result list \<Rightarrow> search_result list" where
  "dedup_results rs = fold absorb rs []"

definition score_all :: "float_ops \<Rightarrow> fusion_weights \<Rightarrow> search_result list \<Rightarrow> search_result list" where
  "score_all F w rs = map (\<lambda>r. r\<lparr>sr_final_score := compute_score F w r\<rparr>) rs"

definition fuse ::
  "(search_result list \<Rightarrow> search_result list) \<Rightarrow> float_ops \<Rightarrow> search_result list \<Rightarrow> nat \<Rightarrow> fusion_weights \<Rightarrow> search_result list" where
  "fuse srt F rs top_k w = (if rs = [] then [] else take top_k (srt (score_all F w (dedup_results rs))))"

section \<open>The search engine\<close>

record memory_source =
  ms_keyword :: "string \<Rightarrow> nat \<Rightarrow> scope_filter \<Rightarrow> memory_entry list"
  ms_vector :: "f32 list \<Rightarrow> nat \<Rightarrow> f32 \<Rightarrow> scope_filter \<Rightarrow> (memory_entry \<times> f32) list"

record search_engine =
  se_code_indexer :: "(string \<Rightarrow> structural_chunk list) option"
  se_memory_engine :: "memory_source option"
  se_vector_index :: "(f32 list \<Rightarrow> nat \<Rightarrow> (string \<times> f32) list) option"
  se_workspace_id :: string
  se_custom_chunks :: "structural_chunk list"

definition new_search_engine :: search_engine where
  "new_search_engine = \<lparr>se_code_indexer = None, se_memory_engine = None, se_vector_index = None, se_workspace_id = ''default'',
     se_custom_chunks = []\<rparr>"

definition set_code_indexer :: "(string \<Rightarrow> structural_chunk list) option \<Rightarrow> search_engine \<Rightarrow> search_engine" where
  "set_code_indexer ix se = se\<lparr>se_code_indexer := ix\<rparr>"

definition set_memory_engine :: "memory_source option \<Rightarrow> search_engine \<Rightarrow> search_engine" where
  "set_memory_engine m se = se\<lparr>se_memory_engine := m\<rparr>"

definition set_vector_index :: "(f32 list \<Rightarrow> nat \<Rightarrow> (string \<times> f32) list) option \<Rightarrow> search_engine \<Rightarrow> search_engine" where
  "set_vector_index ix se = se\<lparr>se_vector_index := ix\<rparr>"

definition set_workspace_id :: "string \<Rightarrow> search_engine \<Rightarrow> search_engine" where
  "set_workspace_id ws se = se\<lparr>se_workspace_id := ws\<rparr>"

definition add_custom_chunk :: "structural_chunk \<Rightarrow> search_engine \<Rightarrow> search_engine" where
  "add_custom_chunk ch se = se\<lparr>se_custom_chunks := se_custom_chunks se @ [ch]\<rparr>"

definition clear_custom_chunks :: "search_engine \<Rightarrow> search_engine" where
  "clear_custom_chunks se = se\<lparr>se_custom_chunks := []\<rparr>"

definition code_chunks_for :: "search_engine \<Rightarrow> string \<Rightarrow> structural_chunk list" where
  "code_chunks_for se query =
     se_custom_chunks se @ (case se_code_indexer se of Some find_sym \<Rightarrow> find_sym query | None \<Rightarrow> [])"

definition search_scope :: "search_engine \<Rightarrow> scope_filter" where
  "search_scope se = default_filter\<lparr>sf_workspace_id := se_workspace_id se, sf_active_only := True\<rparr>"

definition memory_texts_for :: "search_engine \<Rightarrow> string \<Rightarrow> (string \<times> string) list" where
  "memory_texts_for se query =
     (case se_memory_engine se of Some m \<Rightarrow> map (\<lambda>e. (me_key e, me_value e)) (ms_keyword m query 20 (search_scope se)) | None \<Rightarrow> [])"

definition vector_memory_hits :: "search_engine \<Rightarrow> f32 list \<Rightarrow> size_t \<Rightarrow> search_result list" where
  "vector_memory_hits se query_vec top_k =
     (case se_memory_engine se of
        Some m \<Rightarrow> map (\<lambda>(e, score). new_search_result\<lparr>sr_id := (if me_id e = [] then me_key e else me_id e), sr_source := MEMORY,
            sr_content := me_value e, sr_semantic_similarity := score, sr_timestamp := me_updated_at e\<rparr>)
          (ms_vector m query_vec (unat (top_k * 2)) 0x3E19999A (search_scope se))
      | None \<Rightarrow> [])"

definition vector_code_hits :: "search_engine \<Rightarrow> f32 list \<Rightarrow> size_t \<Rightarrow> search_result list" where
  "vector_code_hits se query_vec top_k =
     (case se_vector_index se of
        Some idx \<Rightarrow> map (\<lambda>(hid, score).
            let r = new_search_result\<lparr>sr_id := hid, sr_source := CODE, sr_semantic_similarity := score\<rparr>
            in case (case se_code_indexer se of Some find_sym \<Rightarrow> find_sym hid | None \<Rightarrow> []) of
                 ch # _ \<Rightarrow> r\<lparr>sr_content := ch_content ch, sr_file_path := ch_file_path ch, sr_symbol_name := ch_symbol ch\<rparr>
               | [] \<Rightarrow> r\<lparr>sr_content := ''Vector Match: '' @ hid, sr_symbol_name := hid\<rparr>)
          (idx query_vec (unat top_k))
      | None \<Rightarrow> [])"

definition gather_candidates :: "float_ops \<Rightarrow> (string \<Rightarrow> f32 list) \<Rightarrow> search_engine \<Rightarrow> string \<Rightarrow> size_t \<Rightarrow> search_result list" where
  "gather_candidates F embed_text se query top_k =
     (let chunks = code_chunks_for se query;
          query_vec = embed_text query
      in exact_search_code query chunks @
         lexical_search_chunks F query chunks 0x3DCCCCCD @
         map (\<lambda>r. r\<lparr>sr_source := MEMORY\<rparr>) (lexical_search_texts F query (memory_texts_for se query) 0x3DCCCCCD) @
         structural_search_all query chunks @
         (if query_vec = [] then [] else vector_memory_hits se query_vec top_k @ vector_code_hits se query_vec top_k))"

definition assign_relevance :: "float_ops \<Rightarrow> string \<Rightarrow> search_result list \<Rightarrow> search_result list" where
  "assign_relevance F active_task rs =
     (if active_task = [] then rs
      else map (\<lambda>r. r\<lparr>sr_task_relevance := score_content F (lexical_tokenize active_task) (sr_content r)\<rparr>) rs)"

definition search ::
  "(search_result list \<Rightarrow> search_result list) \<Rightarrow> float_ops \<Rightarrow> (string \<Rightarrow> f32 list) \<Rightarrow> search_engine \<Rightarrow> string \<Rightarrow> string \<Rightarrow> size_t \<Rightarrow>
   search_result list" where
  "search srt F embed_text se query active_task top_k =
     fuse srt F (assign_relevance F active_task (gather_candidates F embed_text se query top_k)) (unat top_k) default_weights"

text \<open>The loop of \<open>search_memory\<close> stops after the result that reaches \<open>top_k\<close>.\<close>

fun take_memory :: "nat \<Rightarrow> search_result list \<Rightarrow> search_result list \<Rightarrow> search_result list" where
  "take_memory k [] acc = acc"
| "take_memory k (r # rs) acc =
     (if sr_source r = MEMORY
      then if k \<le> length (acc @ [r]) then acc @ [r] else take_memory k rs (acc @ [r])
      else take_memory k rs acc)"

definition search_memory ::
  "(search_result list \<Rightarrow> search_result list) \<Rightarrow> float_ops \<Rightarrow> (string \<Rightarrow> f32 list) \<Rightarrow> search_engine \<Rightarrow> string \<Rightarrow> size_t \<Rightarrow>
   search_result list" where
  "search_memory srt F embed_text se query top_k =
     take_memory (unat top_k) (search srt F embed_text se query [] (top_k * 2)) []"

definition search_code ::
  "(search_result list \<Rightarrow> search_result list) \<Rightarrow> float_ops \<Rightarrow> (string \<Rightarrow> f32 list) \<Rightarrow> search_engine \<Rightarrow> string \<Rightarrow> size_t \<Rightarrow>
   search_result list" where
  "search_code srt F embed_text se query top_k = search srt F embed_text se query [] top_k"

section \<open>Case-insensitive matching\<close>

lemma icase_equals_lower: "icase_equals a b \<longleftrightarrow> lower a = lower b"
  unfolding icase_equals_def lower_def by (auto simp: list_all2_conv_all_nth list_eq_iff_nth_eq)

lemma contains_length: "contains s p \<Longrightarrow> length p \<le> length s"
  by (auto simp: contains_iff)

text \<open>The two copies of the case-folding helpers mean the same as folding both strings first.\<close>

lemma icase_contains_lower: "icase_contains s p \<longleftrightarrow> contains (lower s) (lower p)"
  using contains_length [of "lower s" "lower p"] by (auto simp: icase_contains_def search_icase_contains lower_def)

section \<open>Deduplication\<close>

definition same_place :: "search_result \<Rightarrow> search_result \<Rightarrow> bool" where
  "same_place a b \<longleftrightarrow> sr_id a = sr_id b \<and> sr_source a = sr_source b \<and> sr_file_path a = sr_file_path b \<and>
     sr_line_start a = sr_line_start b \<and> sr_line_end a = sr_line_end b"

definition signals :: "search_result \<Rightarrow> f32 list" where
  "signals r = [sr_semantic_similarity r, sr_lexical_score r, sr_structural_importance r, sr_symbol_match r, sr_recency r, sr_task_relevance r]"

definition clean_signals :: "search_result \<Rightarrow> bool" where
  "clean_signals r \<longleftrightarrow> list_all (\<lambda>x. \<not> f32_nan x) (signals r)"

definition outscores :: "search_result \<Rightarrow> search_result \<Rightarrow> bool" where
  "outscores e r \<longleftrightarrow> list_all2 f32_le (signals r) (signals e)"

text \<open>A candidate is represented by an entry that stands for the same place with signals at least as high.\<close>

definition represents :: "search_result \<Rightarrow> search_result \<Rightarrow> bool" where
  "represents e r \<longleftrightarrow> (is_duplicate e r \<or> same_place e r) \<and> outscores e r"

lemma same_place_refl [simp]: "same_place a a"
  by (simp add: same_place_def)

lemma same_place_merge [simp]: "same_place (merge_results a b) a"
  by (simp add: same_place_def merge_results_def)

lemma is_duplicate_place: "same_place a a' \<Longrightarrow> same_place b b' \<Longrightarrow> is_duplicate a b = is_duplicate a' b'"
  by (simp add: same_place_def is_duplicate_def)

lemma is_duplicate_sym: "is_duplicate a b = is_duplicate b a"
  by (auto simp: is_duplicate_def)

lemma absorb_places: "x \<in> set (absorb r es) \<Longrightarrow> x = r \<or> (\<exists>y \<in> set es. same_place x y)"
  by (induction r es rule: absorb.induct) (auto split: if_splits intro: bexI [rotated])

lemma absorb_distinct:
  "sorted_wrt (\<lambda>a b. \<not> is_duplicate a b) es \<Longrightarrow> sorted_wrt (\<lambda>a b. \<not> is_duplicate a b) (absorb r es)"
proof (induction r es rule: absorb.induct)
  case (2 r e es)
  show ?case
  proof (cases "is_duplicate e r")
    case True
    have "is_duplicate (merge_results e r) x = is_duplicate e x" for x by (rule is_duplicate_place) simp_all
    with True 2(2) show ?thesis by simp
  next
    case False
    have "\<not> is_duplicate e x" if "x \<in> set (absorb r es)" for x
      using absorb_places [OF that] False 2(2) is_duplicate_place [of e e x] by auto
    with False 2 show ?thesis by simp
  qed
qed simp

lemma dedup_distinct: "sorted_wrt (\<lambda>a b. \<not> is_duplicate a b) (dedup_results rs)"
proof -
  have "sorted_wrt (\<lambda>a b. \<not> is_duplicate a b) es \<Longrightarrow> sorted_wrt (\<lambda>a b. \<not> is_duplicate a b) (fold absorb rs es)" for es
    by (induction rs arbitrary: es) (auto simp: absorb_distinct)
  then show ?thesis by (simp add: dedup_results_def)
qed

lemma length_absorb: "length (absorb r es) \<le> Suc (length es)"
  by (induction r es rule: absorb.induct) auto

lemma length_dedup: "length (dedup_results rs) \<le> length rs"
proof -
  have "length (fold absorb rs es) \<le> length rs + length es" for es
  proof (induction rs arbitrary: es)
    case (Cons r rs)
    show ?case using Cons [of "absorb r es"] length_absorb [of r es] by simp
  qed simp
  from this [of "[]"] show ?thesis by (simp add: dedup_results_def)
qed

lemma signals_merge: "signals (merge_results a b) = map2 f32_max (signals a) (signals b)"
  by (simp add: signals_def merge_results_def)

lemma merge_outscores:
  assumes "clean_signals a" and "clean_signals b"
  shows "outscores (merge_results a b) a" "outscores (merge_results a b) b" "clean_signals (merge_results a b)"
  using assms f32_max_ge by (auto simp: outscores_def clean_signals_def signals_def merge_results_def)

lemma outscores_refl: "clean_signals a \<Longrightarrow> outscores a a"
  by (auto simp: outscores_def clean_signals_def signals_def f32_le_refl)

lemma outscores_trans: "outscores c b \<Longrightarrow> outscores b a \<Longrightarrow> outscores c a"
  unfolding outscores_def by (rule list_all2_trans [of f32_le f32_le]) (auto intro: f32_le_trans)

lemma represents_place: "same_place e' e \<Longrightarrow> outscores e' e \<Longrightarrow> represents e r \<Longrightarrow> represents e' r"
  unfolding represents_def using is_duplicate_place [of e' e r r] outscores_trans by (auto simp: same_place_def)

lemma absorb_clean: "clean_signals r \<Longrightarrow> (\<And>e. e \<in> set es \<Longrightarrow> clean_signals e) \<Longrightarrow> x \<in> set (absorb r es) \<Longrightarrow> clean_signals x"
  by (induction r es rule: absorb.induct) (auto split: if_splits simp: merge_outscores)

lemma absorb_represents:
  "clean_signals r \<Longrightarrow> (\<And>e. e \<in> set es \<Longrightarrow> clean_signals e) \<Longrightarrow> \<exists>e \<in> set (absorb r es). represents e r"
proof (induction r es rule: absorb.induct)
  case (2 r e es)
  show ?case
  proof (cases "is_duplicate e r")
    case True
    have "is_duplicate (merge_results e r) r" using True is_duplicate_place [of "merge_results e r" e r r] by simp
    with True 2(2) 2(3) [of e] show ?thesis by (simp add: represents_def merge_outscores)
  qed (use 2 in auto)
qed (simp add: represents_def outscores_refl)

lemma absorb_keeps:
  "clean_signals r \<Longrightarrow> (\<And>e. e \<in> set es \<Longrightarrow> clean_signals e) \<Longrightarrow> e \<in> set es \<Longrightarrow> \<exists>e' \<in> set (absorb r es). same_place e' e \<and> outscores e' e"
proof (induction r es rule: absorb.induct)
  case (2 r x es)
  show ?case
  proof (cases "is_duplicate x r \<and> e = x")
    case True
    then show ?thesis using 2(2) 2(3) [of x] by (auto simp: merge_outscores)
  next
    case False
    show ?thesis
    proof (cases "e = x")
      case True
      then show ?thesis using False 2(3) [of x] by (auto simp: outscores_refl)
    next
      case ne: False
      then have e: "e \<in> set es" using 2(4) by simp
      then have "same_place e e \<and> outscores e e" using 2(3) [of e] by (simp add: outscores_refl)
      then show ?thesis using 2 e by (cases "is_duplicate x r") auto
    qed
  qed
qed simp

lemma dedup_represents:
  assumes "\<And>r. r \<in> set rs \<Longrightarrow> clean_signals r" and "r \<in> set rs"
  shows "\<exists>e \<in> set (dedup_results rs). represents e r"
proof -
  have "(\<forall>e \<in> set (fold absorb rs es). clean_signals e) \<and> (\<forall>r \<in> set rs. \<exists>e \<in> set (fold absorb rs es). represents e r) \<and>
        (\<forall>r. (\<exists>e \<in> set es. represents e r) \<longrightarrow> (\<exists>e \<in> set (fold absorb rs es). represents e r))"
    if "\<And>r. r \<in> set rs \<Longrightarrow> clean_signals r" "\<And>e. e \<in> set es \<Longrightarrow> clean_signals e" for rs es
    using that
  proof (induction rs arbitrary: es)
    case (Cons x rs)
    have cl: "clean_signals e" if "e \<in> set (absorb x es)" for e using absorb_clean [OF _ _ that] Cons.prems by simp
    note IH = Cons.IH [of "absorb x es", OF _ cl]
    have x: "\<exists>e \<in> set (absorb x es). represents e x" using absorb_represents Cons.prems by simp
    have keep: "\<exists>e' \<in> set (absorb x es). represents e' r" if "e \<in> set es" "represents e r" for e r
      using absorb_keeps [of x es e] Cons.prems that represents_place by (metis list.set_intros(1))
    have "\<forall>r. (\<exists>e \<in> set es. represents e r) \<longrightarrow> (\<exists>e \<in> set (fold absorb rs (absorb x es)). represents e r)"
      using IH Cons.prems(1) keep by (metis list.set_intros(2))
    moreover have "\<forall>r \<in> set (x # rs). \<exists>e \<in> set (fold absorb rs (absorb x es)). represents e r"
      using IH Cons.prems(1) x by (metis list.set_intros(2) set_ConsD)
    moreover have "\<forall>e \<in> set (fold absorb rs (absorb x es)). clean_signals e" using IH Cons.prems(1) by simp
    ultimately show ?case by simp
  qed simp
  from this [of rs "[]"] assms show ?thesis by (simp add: dedup_results_def)
qed

section \<open>What fusion returns\<close>

lemma signals_scored [simp]: "signals (r\<lparr>sr_final_score := x\<rparr>) = signals r"
  by (simp add: signals_def)

lemma scored_place [simp]: "same_place (r\<lparr>sr_final_score := x\<rparr>) r"
  by (simp add: same_place_def)

lemma score_all_distinct:
  "sorted_wrt (\<lambda>a b. \<not> is_duplicate a b) rs \<Longrightarrow> sorted_wrt (\<lambda>a b. \<not> is_duplicate a b) (score_all F w rs)"
proof -
  have "is_duplicate (a\<lparr>sr_final_score := x\<rparr>) (b\<lparr>sr_final_score := y\<rparr>) = is_duplicate a b" for a b x y
    by (rule is_duplicate_place) simp_all
  then show "sorted_wrt (\<lambda>a b. \<not> is_duplicate a b) rs \<Longrightarrow> ?thesis" by (simp add: score_all_def sorted_wrt_map)
qed

text \<open>A symmetric relation that holds between any two positions does not depend on the arrangement.\<close>

lemma sorted_wrt_sym_mset:
  assumes "\<And>a b. R a b = R b a" and "mset xs = mset ys" and "sorted_wrt R xs"
  shows "sorted_wrt R ys"
  using assms(2,3)
proof (induction xs arbitrary: ys)
  case (Cons x xs)
  from Cons.prems(1) have "x \<in> set ys" by (metis list.set_intros(1) set_mset_mset)
  then obtain a b where ys: "ys = a @ x # b" by (meson split_list)
  with Cons.prems have m: "mset xs = mset (a @ b)" by simp
  then have so: "sorted_wrt R (a @ b)" using Cons.IH Cons.prems(2) by simp
  have "set xs = set (a @ b)" using m by (metis set_mset_mset)
  then have "\<forall>y \<in> set (a @ b). R x y" using Cons.prems(2) by simp
  with so show ?case unfolding ys using assms(1) by (auto simp: sorted_wrt_append)
qed simp

text \<open>
  Fusion ranks distinct evidence: it returns at most \<open>top_k\<close> results, no two of them are duplicates of each
  other (same identifier, or overlapping lines of the same file), they are in descending order of the fused score,
  and every fused candidate that was cut scores at most as high as every result.
\<close>

theorem fuse_ranks_distinct_evidence:
  assumes "std_sort (num_key sr_final_score) (desc_by sr_final_score) srt"
    and "\<And>r. r \<in> set (score_all F w (dedup_results rs)) \<Longrightarrow> \<not> f32_nan (sr_final_score r)"
  shows "length (fuse srt F rs top_k w) \<le> top_k \<and>
    sorted_wrt (\<lambda>a b. \<not> is_duplicate a b \<and> \<not> is_duplicate b a) (fuse srt F rs top_k w) \<and>
    sorted_wrt (\<lambda>a b. f32_le (sr_final_score b) (sr_final_score a)) (fuse srt F rs top_k w) \<and>
    (\<forall>r x. r \<in> set (fuse srt F rs top_k w) \<and> x \<in> set (score_all F w (dedup_results rs)) \<and> x \<notin> set (fuse srt F rs top_k w) \<longrightarrow>
       f32_le (sr_final_score x) (sr_final_score r))"
proof (cases "rs = []")
  case False
  define xs where "xs = score_all F w (dedup_results rs)"
  have f: "fuse srt F rs top_k w = take top_k (srt xs)" using False by (simp add: fuse_def xs_def)
  note cut = ranked_cut [OF assms, folded xs_def]
  have "sorted_wrt (\<lambda>a b. \<not> is_duplicate a b) xs" unfolding xs_def by (intro score_all_distinct dedup_distinct)
  then have "sorted_wrt (\<lambda>a b. \<not> is_duplicate a b) (srt xs)"
    using sorted_wrt_sym_mset [of "\<lambda>a b. \<not> is_duplicate a b" xs "srt xs"] cut(1) is_duplicate_sym by metis
  then have d: "sorted_wrt (\<lambda>a b. \<not> is_duplicate a b \<and> \<not> is_duplicate b a) (take top_k (srt xs))"
    using is_duplicate_sym by (intro sorted_wrt_take) (auto elim: sorted_wrt_mono_rel [rotated])
  show ?thesis unfolding f xs_def [symmetric] using d cut(3,4) by simp
qed (simp add: fuse_def)

definition demo_chunk :: "string \<Rightarrow> int \<Rightarrow> structural_chunk" where
  "demo_chunk s n = \<lparr>ch_file_path = ''a.cpp'', ch_symbol = s, ch_parent_symbol = [], ch_language = ''cpp'', ch_start_line = n,
     ch_end_line = n + 3, ch_source_hash = 0, ch_content = ''void '' @ s @ ''()''\<rparr>"

definition zero_floats :: float_ops where
  "zero_floats = demo_floats\<lparr>f_add := (\<lambda>a b. a), f_mul := (\<lambda>a b. f_zero)\<rparr>"

lemma zero_floats_score: "r \<in> set (score_all zero_floats w rs) \<Longrightarrow> \<not> f32_nan (sr_final_score r)"
proof -
  have z: "\<not> f32_nan f_zero" by code_simp
  show "r \<in> set (score_all zero_floats w rs) \<Longrightarrow> ?thesis"
    by (auto simp: score_all_def compute_score_def zero_floats_def z)
qed

theorem fuse_ranks_distinct_evidence_witness:
  "length (fuse (stable_sort (desc_by sr_final_score)) zero_floats
     [chunk_result (demo_chunk ''f'' 1), chunk_result (demo_chunk ''g'' 2), chunk_result (demo_chunk ''h'' 9)] 1 default_weights) \<le> 1"
  using fuse_ranks_distinct_evidence [OF ranking.std_sort_axioms, of zero_floats default_weights
      "[chunk_result (demo_chunk ''f'' 1), chunk_result (demo_chunk ''g'' 2), chunk_result (demo_chunk ''h'' 9)]" 1]
    zero_floats_score by blast

text \<open>
  Nothing is lost before the cut: when \<open>top_k\<close> admits all candidates, every candidate is represented in the result
  by an entry of the same place (or one it duplicates) whose six signals are all at least as high.
\<close>

theorem fuse_represents_candidates:
  assumes "std_sort (num_key sr_final_score) (desc_by sr_final_score) srt"
    and "\<And>r. r \<in> set (score_all F w (dedup_results rs)) \<Longrightarrow> \<not> f32_nan (sr_final_score r)"
    and "\<And>r. r \<in> set rs \<Longrightarrow> clean_signals r" and "length rs \<le> top_k" and "r \<in> set rs"
  shows "\<exists>e \<in> set (fuse srt F rs top_k w). represents e r"
proof -
  obtain e where e: "e \<in> set (dedup_results rs)" "represents e r" using dedup_represents [OF assms(3,5)] by blast
  let ?e = "e\<lparr>sr_final_score := compute_score F w e\<rparr>"
  have "outscores ?e e" using e(2) by (auto simp: outscores_def represents_def list_all2_conv_all_nth f32_le_def)
  then have "represents ?e r" using e(2) represents_place scored_place by blast
  moreover have "?e \<in> set (score_all F w (dedup_results rs))" using e(1) by (auto simp: score_all_def)
  moreover have "mset (srt (score_all F w (dedup_results rs))) = mset (score_all F w (dedup_results rs))"
    by (rule ranked_cut(1) [OF assms(1,2)])
  then have "length (srt (score_all F w (dedup_results rs))) \<le> top_k"
    using assms(4) length_dedup [of rs] mset_eq_length by (fastforce simp: score_all_def)
  moreover have "set (srt (score_all F w (dedup_results rs))) = set (score_all F w (dedup_results rs))"
    by (rule ranked_cut(2) [OF assms(1,2)])
  ultimately show ?thesis using assms(5) by (auto simp: fuse_def)
qed

theorem fuse_represents_candidates_witness:
  "\<exists>e \<in> set (fuse (stable_sort (desc_by sr_final_score)) zero_floats
     [chunk_result (demo_chunk ''f'' 1), chunk_result (demo_chunk ''g'' 2)] 2 default_weights). represents e (chunk_result (demo_chunk ''g'' 2))"
proof -
  have z: "\<not> f32_nan f_zero" by code_simp
  have "clean_signals (chunk_result ch)" for ch
    by (simp add: clean_signals_def signals_def chunk_result_def new_search_result_def z)
  then show ?thesis
    using fuse_represents_candidates [OF ranking.std_sort_axioms, of zero_floats default_weights
        "[chunk_result (demo_chunk ''f'' 1), chunk_result (demo_chunk ''g'' 2)]" 2 "chunk_result (demo_chunk ''g'' 2)"]
      zero_floats_score by auto
qed

section \<open>The engine\<close>

lemma take_memory_sound:
  "(\<And>r. r \<in> set acc \<Longrightarrow> sr_source r = MEMORY) \<Longrightarrow> r \<in> set (take_memory k rs acc) \<Longrightarrow> sr_source r = MEMORY \<and> (r \<in> set acc \<or> r \<in> set rs)"
  by (induction k rs acc rule: take_memory.induct) (auto split: if_splits)

lemma take_memory_length: "length acc < k \<Longrightarrow> length (take_memory k rs acc) \<le> k"
  by (induction k rs acc rule: take_memory.induct) auto

text \<open>
  \<open>search_memory\<close> returns only memory evidence, at most \<open>top_k\<close> of it, and only what a search for twice as many
  results found, whatever the store, the embedding and the sort do.
\<close>

theorem search_memory_only_memory:
  "length (search_memory srt F embed_text se query top_k) \<le> unat top_k \<and>
   set (search_memory srt F embed_text se query top_k) \<subseteq>
     {r. sr_source r = MEMORY \<and> r \<in> set (search srt F embed_text se query [] (top_k * 2))}"
proof (cases "top_k = 0")
  case True
  then show ?thesis by (simp add: search_memory_def search_def fuse_def)
next
  case False
  then have "length (search_memory srt F embed_text se query top_k) \<le> unat top_k"
    unfolding search_memory_def by (intro take_memory_length) (simp add: unat_gt_0)
  then show ?thesis using take_memory_sound [of "[]"] by (fastforce simp: search_memory_def)
qed

end
