(* ===== verification/Code_Tracker.thy ===== *)
theory Code_Tracker
  imports Model_Types
begin

text \<open>
  The change tracker and the language registry of the code indexer (\<open>code_change_tracker.cpp\<close>,
  \<open>language_registry.cpp\<close>). A file is re-indexed only when its 64-bit FNV-1a hash differs from the recorded
  one. The four tree-sitter grammars are opaque: a constructor stands for the pointer each grammar function returns.
\<close>

unbundle bit_operations_syntax

section \<open>Change tracking\<close>

definition fnv_prime :: u64 where
  "fnv_prime = 1099511628211"

definition fnv_offset :: u64 where
  "fnv_offset = 14695981039346656037"

definition fnv_step :: "u64 \<Rightarrow> char \<Rightarrow> u64" where
  "fnv_step h c = (h XOR word_of_nat (code c)) * fnv_prime"

definition compute_hash :: "string \<Rightarrow> u64" where
  "compute_hash content = foldl fnv_step fnv_offset content"

type_synonym change_tracker = "string \<rightharpoonup> u64"

definition has_changed :: "change_tracker \<Rightarrow> string \<Rightarrow> string \<Rightarrow> bool" where
  "has_changed t path content = (case t path of None \<Rightarrow> True | Some h \<Rightarrow> h \<noteq> compute_hash content)"

definition update_hash :: "string \<Rightarrow> string \<Rightarrow> change_tracker \<Rightarrow> change_tracker" where
  "update_hash path content t = t(path \<mapsto> compute_hash content)"

definition remove_file :: "string \<Rightarrow> change_tracker \<Rightarrow> change_tracker" where
  "remove_file path t = t(path := None)"

definition get_hash :: "change_tracker \<Rightarrow> string \<Rightarrow> u64" where
  "get_hash t path = (case t path of Some h \<Rightarrow> h | None \<Rightarrow> 0)"

definition tracker_clear :: "change_tracker \<Rightarrow> change_tracker" where
  "tracker_clear t = Map.empty"

section \<open>Languages\<close>

definition extension_map :: "(string \<times> string) list" where
  "extension_map =
     [(''.cpp'', ''cpp''), (''.hpp'', ''cpp''), (''.cc'', ''cpp''), (''.cxx'', ''cpp''), (''.c'', ''cpp''), (''.h'', ''cpp''),
      (''.py'', ''python''), (''.pyi'', ''python''), (''.php'', ''php''),
      (''.js'', ''javascript''), (''.jsx'', ''javascript''), (''.ts'', ''javascript''), (''.tsx'', ''javascript''), (''.mjs'', ''javascript'')]"

text \<open>\<open>substr(rfind('.'))\<close>: the text from the last dot on.\<close>

definition last_dot :: "string \<Rightarrow> string option" where
  "last_dot path =
     (if CHR ''.'' \<notin> set path then None else Some (CHR ''.'' # rev (takeWhile (\<lambda>c. c \<noteq> CHR ''.'') (rev path))))"

definition detect_language :: "string \<Rightarrow> string" where
  "detect_language path =
     (case last_dot path of None \<Rightarrow> [] | Some ext \<Rightarrow> (case map_of extension_map (lower ext) of Some l \<Rightarrow> l | None \<Rightarrow> []))"

datatype grammar = GCpp | GPython | GPhp | GJavascript

definition get_grammar_for_language :: "string \<Rightarrow> grammar option" where
  "get_grammar_for_language language =
     (if language = ''cpp'' then Some GCpp else if language = ''python'' then Some GPython
      else if language = ''php'' then Some GPhp else if language = ''javascript'' then Some GJavascript else None)"

definition get_grammar_for_file :: "string \<Rightarrow> grammar option" where
  "get_grammar_for_file path =
     (let lang = detect_language path in if lang = [] then None else get_grammar_for_language lang)"

definition is_supported :: "string \<Rightarrow> bool" where
  "is_supported path \<longleftrightarrow> detect_language path \<noteq> []"

section \<open>Edits are noticed\<close>

lemma fnv_prime_inverse: "fnv_prime * 14886173955864302971 = 1"
  by (simp add: fnv_prime_def)

lemma mult_fnv_prime_inject: "a * fnv_prime = b * fnv_prime \<longleftrightarrow> a = b"
proof
  obtain inv where inv: "fnv_prime * inv = 1" using fnv_prime_inverse by blast
  assume "a * fnv_prime = b * fnv_prime"
  then have "a * fnv_prime * inv = b * fnv_prime * inv" by (rule arg_cong)
  then show "a = b" by (simp only: mult.assoc inv mult_1_right)
qed simp

lemma xor_cancel: "(a XOR c :: u64) = b XOR c \<longleftrightarrow> a = b"
proof
  assume "a XOR c = b XOR c"
  then have "(a XOR c) XOR c = (b XOR c) XOR c" by simp
  then show "a = b" by (simp add: xor.assoc)
qed simp

lemma fnv_step_inject: "fnv_step a c = fnv_step b c \<longleftrightarrow> a = b"
  by (simp add: fnv_step_def mult_fnv_prime_inject xor_cancel)

lemma code_inject: "code c = code d \<longleftrightarrow> c = d"
  by (simp add: code_def)

lemma fnv_step_byte: "fnv_step h c = fnv_step h d \<longleftrightarrow> c = d"
proof -
  have "unat (word_of_nat (code c) :: u64) = code c" for c using code_lt [of c] by (simp add: unat_of_nat)
  then have "(word_of_nat (code c) :: u64) = word_of_nat (code d) \<longleftrightarrow> c = d" by (metis code_inject)
  then show ?thesis using xor_cancel [of _ h] by (simp add: fnv_step_def mult_fnv_prime_inject xor.commute [of h])
qed

lemma foldl_fnv_inject: "foldl fnv_step a s = foldl fnv_step b s \<longleftrightarrow> a = b"
  by (induction s arbitrary: a b) (simp_all add: fnv_step_inject)

text \<open>
  Replacing one byte of a tracked file is always noticed: the file counts as changed afterwards. An
  unmodified file counts as unchanged, and a file that was never recorded, or was removed, as changed.
\<close>

theorem edited_byte_is_noticed:
  "has_changed (update_hash path (a @ c # b) t) path (a @ d # b) = (c \<noteq> d) \<and>
   has_changed (remove_file path t) path content"
  by (simp add: has_changed_def update_hash_def remove_file_def compute_hash_def foldl_fnv_inject fnv_step_byte)

text \<open>Every supported file has a grammar, and the extension is matched regardless of case.\<close>

lemma supported_has_grammar: "is_supported path \<longleftrightarrow> get_grammar_for_file path \<noteq> None"
proof -
  have "l \<in> snd ` set extension_map \<Longrightarrow> get_grammar_for_language l \<noteq> None" for l
    by (auto simp: extension_map_def get_grammar_for_language_def)
  then have "map_of extension_map e = Some l \<Longrightarrow> get_grammar_for_language l \<noteq> None" for e l
    by (force dest: map_of_SomeD)
  then show ?thesis
    by (auto simp: is_supported_def get_grammar_for_file_def detect_language_def Let_def split: option.splits)
qed

end
