(* ===== verification/Decision_Engine.thy ===== *)
theory Decision_Engine
  imports Request_Model Float_Order
begin

text \<open>
  Request classification: \<open>DecisionEngine\<close> (\<open>decision_engine.cpp\<close>) and the heuristics of \<open>NLIEvaluator\<close>
  (\<open>nli_evaluator.cpp\<close>). The ModernBERT classifier is an argument: whether it is available, whether
  \<open>initialize\<close> makes it available, and the intents it ranks for a text.
\<close>

record decision_output =
  do_domain :: string
  do_intent :: string
  do_requires_code_context :: bool
  do_requires_memory :: bool
  do_requires_web_search :: bool
  do_complexity_score :: f32
  do_confidence :: f32
  do_suggested_action :: string

definition new_decision :: decision_output where
  "new_decision = \<lparr>do_domain = ''general'', do_intent = ''text'', do_requires_code_context = False, do_requires_memory = False,
     do_requires_web_search = False, do_complexity_score = f_zero, do_confidence = f_one, do_suggested_action = ''direct_generate''\<rparr>"

definition code_indicators :: "string list" where
  "code_indicators = [''.cpp'', ''.hpp'', ''.h'', ''.c'', ''.ts'', ''.js'', ''.py'', ''.rs'', ''.go'', ''.php'', ''.sql'', ''.json'',
     ''function'', ''class '', ''struct '', ''refactor'', ''compile'', ''cmake'', ''segfault'', ''undefined'',
     ''int '', ''void '', ''const '', ''impl'', ''enum '', ''namespace'', ''include <'', ''import '']"

definition trouble_indicators :: "string list" where
  "trouble_indicators = [''error:'', ''exception'', ''failed'', ''crash'', ''bug'', ''stack trace'', ''warning:'', ''broken'', ''fix'']"

definition memory_indicators :: "string list" where
  "memory_indicators = [''remember'', ''convention'', ''architecture'', ''rule'', ''standard'', ''guideline'', ''workspace'', ''project config'']"

definition web_indicators :: "string list" where
  "web_indicators = [''latest'', ''recent'', ''search online'', ''changelog'', ''news'', ''documentation for v'']"

definition mentions :: "string \<Rightarrow> string list \<Rightarrow> bool" where
  "mentions q inds \<longleftrightarrow> list_ex (contains q) inds"

definition complexity_of :: "float_ops \<Rightarrow> string \<Rightarrow> bool \<Rightarrow> bool \<Rightarrow> f32" where
  "complexity_of F q is_code is_trouble =
     (let c0 = 0x3DCCCCCD;
          c1 = (if length q > 200 then f_add F c0 0x3E800000 else c0);
          c2 = (if is_code then f_add F c1 0x3E800000 else c1);
          c3 = (if is_trouble then f_add F c2 0x3E4CCCCD else c2);
          c4 = (if contains q ''step by step'' \<or> contains q ''refactor'' \<or> contains q ''architect'' then f_add F c3 0x3E4CCCCD else c3)
      in f32_min f_one c4)"

definition classify_domain :: "string \<Rightarrow> bool \<Rightarrow> bool \<Rightarrow> decision_output" where
  "classify_domain q is_code is_trouble =
     (if is_trouble
      then new_decision\<lparr>do_domain := ''troubleshooting'', do_intent := (if is_code then ''coding'' else ''reasoning''),
             do_requires_code_context := True, do_suggested_action := ''inspect_repository'', do_confidence := 0x3F4CCCCD\<rparr>
      else if is_code
      then new_decision\<lparr>do_domain := ''coding'', do_intent := ''coding'', do_requires_code_context := True,
             do_suggested_action := ''inspect_repository'', do_confidence := 0x3F4CCCCD\<rparr>
      else if contains q ''doc'' \<or> contains q ''readme''
      then new_decision\<lparr>do_domain := ''documentation'', do_intent := ''text'', do_requires_code_context := True,
             do_suggested_action := ''inspect_repository'', do_confidence := 0x3F4CCCCD\<rparr>
      else new_decision\<lparr>do_domain := ''general'', do_intent := ''text'', do_suggested_action := ''direct_generate'', do_confidence := 0x3F19999A\<rparr>)"

definition fast_heuristic_decide :: "float_ops \<Rightarrow> string \<Rightarrow> openai_request option \<Rightarrow> decision_output" where
  "fast_heuristic_decide F query req =
     (let q = (case req of Some r \<Rightarrow> if query = [] \<and> rq_messages r \<noteq> [] then lower (msg_content (last (rq_messages r))) else lower query
                | None \<Rightarrow> lower query);
          is_code = mentions q code_indicators;
          is_trouble = mentions q trouble_indicators;
          out1 = classify_domain q is_code is_trouble;
          out2 = (if mentions q memory_indicators
                  then out1\<lparr>do_requires_memory := True, do_suggested_action :=
                         (if do_suggested_action out1 = ''direct_generate'' then ''retrieve_memory'' else do_suggested_action out1)\<rparr>
                  else out1);
          out3 = (if mentions q web_indicators then out2\<lparr>do_requires_web_search := True\<rparr> else out2)
      in out3\<lparr>do_complexity_score := complexity_of F q is_code is_trouble\<rparr>)"

record bert =
  bert_available :: bool
  bert_initializes :: bool
  bert_rank :: "string \<Rightarrow> (string \<times> f32) list"

text \<open>\<open>srt\<close> is what \<open>std::sort\<close> by descending probability makes of the ranked intents.\<close>

definition modernbert_decide ::
  "((string \<times> f32) list \<Rightarrow> (string \<times> f32) list) \<Rightarrow> float_ops \<Rightarrow> bert \<Rightarrow> string \<Rightarrow> decision_output" where
  "modernbert_decide srt F b query =
     (let out = fast_heuristic_decide F query None
      in if \<not> bert_available b \<and> \<not> bert_initializes b then out
         else case srt (bert_rank b query) of
           [] \<Rightarrow> out
         | (label, probability) # _ \<Rightarrow>
             let out1 = out\<lparr>do_intent := label, do_confidence := f32_max (do_confidence out) probability\<rparr>
             in if label = ''coding''
                then out1\<lparr>do_domain := ''coding'', do_requires_code_context := True, do_suggested_action := ''inspect_repository''\<rparr>
                else if label = ''reasoning''
                then out1\<lparr>do_domain := (if do_domain out1 \<noteq> ''troubleshooting'' then ''general'' else do_domain out1),
                       do_complexity_score := f32_max (do_complexity_score out1) 0x3F19999A\<rparr>
                else out1)"

definition decide ::
  "((string \<times> f32) list \<Rightarrow> (string \<times> f32) list) \<Rightarrow> float_ops \<Rightarrow> bert \<Rightarrow> string \<Rightarrow> openai_request option \<Rightarrow> decision_output" where
  "decide srt F b query req =
     (let out = fast_heuristic_decide F query req
      in if bert_available b
         then let mb = modernbert_decide srt F b query
              in out\<lparr>do_domain := do_domain mb, do_intent := do_intent mb, do_suggested_action := do_suggested_action mb,
                     do_requires_code_context := do_requires_code_context out \<or> do_requires_code_context mb,
                     do_complexity_score := f32_max (do_complexity_score out) (do_complexity_score mb)\<rparr>
         else out)"

definition analyze_decision ::
  "((string \<times> f32) list \<Rightarrow> (string \<times> f32) list) \<Rightarrow> float_ops \<Rightarrow> bert \<Rightarrow> openai_request \<Rightarrow> decision_output" where
  "analyze_decision srt F b req =
     decide srt F b (if rq_messages req \<noteq> [] then msg_content (last (rq_messages req)) else []) (Some req)"

section \<open>Entailment and contradiction\<close>

text \<open>\<open>operator>>\<close> on a string stream: maximal runs without white space.\<close>

fun stream_words :: "string \<Rightarrow> string \<Rightarrow> string list" where
  "stream_words cur [] = (if cur \<noteq> [] then [cur] else [])"
| "stream_words cur (c # cs) =
     (if isspace c then (if cur \<noteq> [] then cur # stream_words [] cs else stream_words [] cs) else stream_words (cur @ [c]) cs)"

definition evaluate_entailment :: "float_ops \<Rightarrow> string \<Rightarrow> string \<Rightarrow> f32" where
  "evaluate_entailment F premise hypothesis =
     (if premise = [] \<or> hypothesis = [] then f_zero
      else let ws = filter (\<lambda>w. 2 < length w) (stream_words [] (lower hypothesis));
               hits = length (filter (contains (lower premise)) ws)
           in if ws = [] then f_one
              else f32_min f_one (f_div F (f_of_int F (int hits)) (f_of_int F (int (length ws)))))"

definition polarities :: "(string \<times> string) list" where
  "polarities = [(''enabled'', ''disabled''), (''true'', ''false''), (''active'', ''inactive''), (''allowed'', ''forbidden''),
     (''supported'', ''deprecated'')]"

definition opposed :: "string \<Rightarrow> string \<Rightarrow> string \<times> string \<Rightarrow> bool" where
  "opposed p h pr \<longleftrightarrow> contains p (fst pr) \<and> contains h (snd pr) \<or> contains p (snd pr) \<and> contains h (fst pr)"

definition is_contradiction :: "string \<Rightarrow> string \<Rightarrow> bool" where
  "is_contradiction premise hypothesis \<longleftrightarrow>
     premise \<noteq> [] \<and> hypothesis \<noteq> [] \<and> list_ex (opposed (lower premise) (lower hypothesis)) polarities"

definition nli_polarities :: "(string \<times> string) list" where
  "nli_polarities = polarities @ [(''yes'', ''no'')]"

definition is_heuristic_contradiction :: "string \<Rightarrow> string \<Rightarrow> bool" where
  "is_heuristic_contradiction premise hypothesis \<longleftrightarrow>
     premise \<noteq> [] \<and> hypothesis \<noteq> [] \<and> list_ex (opposed (lower premise) (lower hypothesis)) nli_polarities"

datatype nli_label = ENTAILMENT | CONTRADICTION | NEUTRAL

definition heuristic_entailment_score :: "float_ops \<Rightarrow> string \<Rightarrow> string \<Rightarrow> f32" where
  "heuristic_entailment_score F premise hypothesis =
     (if premise = [] \<or> hypothesis = [] then f_zero
      else let ws = filter (\<lambda>w. 2 < length w) (stream_words [] (lower hypothesis));
               hits = length (filter (contains (lower premise)) ws)
           in if ws = [] then f_one
              else f32_min f_one (f_div F (f_of_int F (int hits)) (f_of_int F (int (length ws)))))"

definition heuristic_evaluate :: "float_ops \<Rightarrow> string \<Rightarrow> string \<Rightarrow> nli_label" where
  "heuristic_evaluate F premise hypothesis =
     (if is_heuristic_contradiction premise hypothesis then CONTRADICTION
      else if f32_le 0x3F000000 (heuristic_entailment_score F premise hypothesis) then ENTAILMENT else NEUTRAL)"

section \<open>Decisions are consistent\<close>

lemma heuristic_action:
  "do_requires_code_context (fast_heuristic_decide F query req) = (do_suggested_action (fast_heuristic_decide F query req) = ''inspect_repository'') \<and>
   (do_suggested_action (fast_heuristic_decide F query req) = ''retrieve_memory'' \<longrightarrow> do_requires_memory (fast_heuristic_decide F query req))"
  unfolding fast_heuristic_decide_def Let_def by (simp add: classify_domain_def new_decision_def)

lemma modernbert_action:
  "do_suggested_action (modernbert_decide srt F b query) = ''inspect_repository'' \<longrightarrow> do_requires_code_context (modernbert_decide srt F b query)"
  using heuristic_action [of F query None]
  by (auto simp: modernbert_decide_def Let_def split: list.splits prod.splits)

text \<open>
  Decisions hang together: whenever the engine tells the agent to inspect the repository it also asks for code
  context, the classifier can add the need for code context but never withdraw it, memory and web needs are
  those of the heuristics, and the complexity estimate never drops below the heuristic one.
\<close>

theorem decisions_consistent:
  "(do_suggested_action (decide srt F b query req) = ''inspect_repository'' \<longrightarrow> do_requires_code_context (decide srt F b query req)) \<and>
   (do_requires_code_context (fast_heuristic_decide F query req) \<longrightarrow> do_requires_code_context (decide srt F b query req)) \<and>
   do_requires_memory (decide srt F b query req) = do_requires_memory (fast_heuristic_decide F query req) \<and>
   do_requires_web_search (decide srt F b query req) = do_requires_web_search (fast_heuristic_decide F query req) \<and>
   \<not> f32_lt (do_complexity_score (decide srt F b query req)) (do_complexity_score (fast_heuristic_decide F query req))"
  using heuristic_action [of F query req] modernbert_action [of srt F b query]
  by (auto simp: decide_def Let_def f32_max_def f32_lt_def)

theorem decisions_consistent_witness:
  "do_requires_code_context (decide (\<lambda>xs. xs) demo_floats \<lparr>bert_available = True, bert_initializes = True, bert_rank = (\<lambda>_. [(''text'', f_one)])\<rparr> ''fix it'' None)"
proof -
  have "do_requires_code_context (fast_heuristic_decide demo_floats ''fix it'' None)" by code_simp
  then show ?thesis using decisions_consistent [of "\<lambda>xs. xs" demo_floats _ "''fix it''" None] by blast
qed

lemma opposed_swap: "opposed p h pr = opposed h p pr"
  by (auto simp: opposed_def)

text \<open>
  The contradiction test is symmetric but not sound: because ``active'' is a part of ``inactive'', every text that
  mentions ``inactive'' (in any case) is reported to contradict itself, by the decision engine and by the NLI evaluator.
\<close>

theorem inactive_contradicts_itself:
  assumes "contains (lower text) ''inactive''"
  shows "is_contradiction text text \<and> is_heuristic_contradiction text text \<and> heuristic_evaluate F text text = CONTRADICTION \<and>
    is_contradiction text other = is_contradiction other text"
proof -
  obtain a b where ab: "lower text = a @ ''inactive'' @ b" using assms by (auto simp: contains_iff)
  then have "lower text = (a @ ''in'') @ ''active'' @ b" by simp
  then have "contains (lower text) ''active''" unfolding contains_iff by blast
  with assms have "opposed (lower text) (lower text) (''active'', ''inactive'')" by (simp add: opposed_def)
  moreover have "text \<noteq> []" using ab by (auto simp: lower_def)
  ultimately have "is_contradiction text text" "is_heuristic_contradiction text text"
    by (auto simp: is_contradiction_def is_heuristic_contradiction_def nli_polarities_def polarities_def)
  then show ?thesis using opposed_swap by (auto simp: heuristic_evaluate_def is_contradiction_def list_ex_iff)
qed

theorem inactive_contradicts_itself_witness: "is_contradiction ''Status: Inactive'' ''Status: Inactive''"
proof -
  have "contains (lower ''Status: Inactive'') ''inactive''" by code_simp
  from inactive_contradicts_itself [OF this] show ?thesis by blast
qed

end
