(* ===== verification/Kernels.thy ===== *)
theory Kernels
  imports Float_Order
begin

text \<open>
  The numeric kernels (\<open>avx2_math.hpp\<close>) and the row routines of \<open>infer.cpp\<close>: quantised blocks, their dequantisation, the AVX2
  dot products, RMSNorm, softmax, rotary embedding and SwiGLU. A vector register is the list of its lanes; the arithmetic of a lane is the
  argument \<open>F\<close>, while the conversion from half to single precision and every integer step are computed exactly.
\<close>

unbundle bit_operations_syntax

type_synonym u16 = "16 word"
type_synonym i8 = "8 word"

section \<open>Blocks\<close>

record block_q8_0 =
  q8_d :: u16
  q8_qs :: "i8 list"

record block_q4_0 =
  q4_d :: u16
  q4_qs :: "u8 list"

text \<open>The position of the highest set bit.\<close>

fun top_bit :: "nat \<Rightarrow> nat" where
  "top_bit n = (if n \<le> 1 then 0 else Suc (top_bit (n div 2)))"

declare top_bit.simps [simp del]

text \<open>\<open>_mm_cvtph_ps\<close> on one lane.\<close>

definition fp16_to_fp32 :: "u16 \<Rightarrow> f32" where
  "fp16_to_fp32 h =
     (let n = unat h; s = n div 32768; e = n div 1024 mod 32; m = n mod 1024
      in word_of_nat (s * 2 ^ 31 +
           (if e = 31 then 0x7F800000 + m * 8192 + (if m \<noteq> 0 \<and> m < 512 then 0x400000 else 0)
            else if e = 0 then (if m = 0 then 0 else (top_bit m + 103) * 2 ^ 23 + (m * 2 ^ (10 - top_bit m) - 1024) * 8192)
            else (e + 112) * 2 ^ 23 + m * 8192)))"

definition dequantize_q8_row :: "float_ops \<Rightarrow> block_q8_0 list \<Rightarrow> f32 list" where
  "dequantize_q8_row F x = concat (map (\<lambda>b. map (\<lambda>q. f_mul F (f_of_int F (sint q)) (fp16_to_fp32 (q8_d b))) (q8_qs b)) x)"

definition dequantize_q4_row :: "float_ops \<Rightarrow> block_q4_0 list \<Rightarrow> f32 list" where
  "dequantize_q4_row F x =
     concat (map (\<lambda>b. map (\<lambda>q. f_mul F (f_of_int F (uint (q AND 0x0F) - 8)) (fp16_to_fp32 (q4_d b))) (q4_qs b) @
                      map (\<lambda>q. f_mul F (f_of_int F (uint (drop_bit 4 q) - 8)) (fp16_to_fp32 (q4_d b))) (q4_qs b)) x)"

section \<open>Registers\<close>

definition fma_lanes :: "float_ops \<Rightarrow> f32 list \<Rightarrow> f32 list \<Rightarrow> f32 list \<Rightarrow> f32 list" where
  "fma_lanes F xs ys acc = map (\<lambda>t. f_fma F (fst t) (fst (snd t)) (snd (snd t))) (zip xs (zip ys acc))"

definition lanes :: "nat \<Rightarrow> 'a list \<Rightarrow> 'a list" where
  "lanes k xs = take 8 (drop k xs)"

text \<open>The horizontal sum: upper half plus lower half, then two \<open>_mm_hadd_ps\<close>.\<close>

definition hsum8 :: "float_ops \<Rightarrow> f32 list \<Rightarrow> f32" where
  "hsum8 F acc =
     (let s = map (\<lambda>p. f_add F (fst p) (snd p)) (zip (drop 4 acc) (take 4 acc))
      in f_add F (f_add F (s ! 0) (s ! 1)) (f_add F (s ! 2) (s ! 3)))"

text \<open>The loop over full registers of two float arrays: the accumulator and the remaining elements.\<close>

function lane_rounds :: "float_ops \<Rightarrow> f32 list \<Rightarrow> f32 list \<Rightarrow> f32 list \<Rightarrow> f32 list \<times> f32 list \<times> f32 list" where
  "lane_rounds F v k acc =
     (if length v < 8 then (acc, v, k) else lane_rounds F (drop 8 v) (drop 8 k) (fma_lanes F (take 8 v) (take 8 k) acc))"
  by pat_completeness auto
termination by (relation "measure (\<lambda>(F, v, k, acc). length v)") auto

declare lane_rounds.simps [simp del]

definition zero8 :: "f32 list" where
  "zero8 = replicate 8 f_zero"

section \<open>Dot products\<close>

definition fma_chunks :: "float_ops \<Rightarrow> (nat \<Rightarrow> f32 list) \<Rightarrow> f32 list \<Rightarrow> f32 list \<Rightarrow> f32 list" where
  "fma_chunks F vf y acc =
     fma_lanes F (vf 3) (lanes 24 y) (fma_lanes F (vf 2) (lanes 16 y) (fma_lanes F (vf 1) (lanes 8 y) (fma_lanes F (vf 0) (lanes 0 y) acc)))"

fun q8_rounds :: "float_ops \<Rightarrow> block_q8_0 list \<Rightarrow> f32 list \<Rightarrow> f32 list \<Rightarrow> f32 list" where
  "q8_rounds F [] y acc = acc"
| "q8_rounds F (b # bs) y acc =
     (let vd = fp16_to_fp32 (q8_d b);
          vf = (\<lambda>c. map (\<lambda>q. f_mul F (f_of_int F (sint q)) vd) (lanes (8 * c) (q8_qs b)))
      in q8_rounds F bs (drop 32 y) (fma_chunks F vf y acc))"

definition dot_product_q8_fp32 :: "float_ops \<Rightarrow> block_q8_0 list \<Rightarrow> f32 list \<Rightarrow> f32" where
  "dot_product_q8_fp32 F x y = hsum8 F (q8_rounds F x y zero8)"

text \<open>\<open>_mm_srli_epi16(v, 4)\<close>: every pair of bytes is one 16-bit lane.\<close>

fun srli_epi16_4 :: "u8 list \<Rightarrow> u8 list" where
  "srli_epi16_4 (a # b # rest) =
     (let w = drop_bit 4 ((ucast a :: u16) OR push_bit 8 (ucast b)) in ucast w # ucast (drop_bit 8 w) # srli_epi16_4 rest)"
| "srli_epi16_4 xs = xs"

fun q4_rounds :: "float_ops \<Rightarrow> block_q4_0 list \<Rightarrow> f32 list \<Rightarrow> f32 list \<Rightarrow> f32 list" where
  "q4_rounds F [] y acc = acc"
| "q4_rounds F (b # bs) y acc =
     (let vd = fp16_to_fp32 (q4_d b);
          vq_lo = map (\<lambda>q. (q AND 0x0F) - 8) (q4_qs b);
          vq_hi = map (\<lambda>q. (q AND 0x0F) - 8) (srli_epi16_4 (q4_qs b));
          conv = map (\<lambda>q. f_mul F (f_of_int F (sint q)) vd);
          vf = (\<lambda>c. conv (if c < 2 then lanes (8 * c) vq_lo else lanes (8 * (c - 2)) vq_hi))
      in q4_rounds F bs (drop 32 y) (fma_chunks F vf y acc))"

definition dot_product_q4_0_fp32 :: "float_ops \<Rightarrow> block_q4_0 list \<Rightarrow> f32 list \<Rightarrow> f32" where
  "dot_product_q4_0_fp32 F x y = hsum8 F (q4_rounds F x y zero8)"

definition dot_product_fp32 :: "float_ops \<Rightarrow> f32 list \<Rightarrow> f32 list \<Rightarrow> f32" where
  "dot_product_fp32 F a b =
     (case lane_rounds F a b zero8 of (acc, a', b') \<Rightarrow>
        foldl (\<lambda>s p. f_add F s (f_mul F (fst p) (snd p))) (hsum8 F acc) (zip a' b'))"

section \<open>Normalisation, rotation and activation\<close>

definition rmsnorm :: "float_ops \<Rightarrow> f32 list \<Rightarrow> nat \<Rightarrow> f32 \<Rightarrow> f32 list \<Rightarrow> mem_error + f32 list" where
  "rmsnorm F x sz eps weight =
     (if sz mod 8 \<noteq> 0 \<or> length x < sz \<or> length weight < sz then Inl OutOfBounds
      else
        let ss = hsum8 F (fst (lane_rounds F (take sz x) (take sz x) zero8));
            scale = f_div F f_one (f_sqrt F (f_add F (f_div F ss (f_of_int F (int sz))) eps))
        in Inr (map (\<lambda>p. f_mul F (f_mul F (fst p) scale) (snd p)) (zip (take sz x) weight) @ drop sz x))"

definition softmax_max :: "f32 list \<Rightarrow> f32 \<Rightarrow> f32" where
  "softmax_max xs init = foldl (\<lambda>m v. if f32_lt m v then v else m) init xs"

definition softmax_with :: "float_ops \<Rightarrow> f32 \<Rightarrow> f32 list \<Rightarrow> f32 list" where
  "softmax_with F max_val x =
     (let ex = map (\<lambda>v. f_exp F (f_sub F v max_val)) x; tot = foldl (f_add F) f_zero ex
      in map (\<lambda>v. f_div F v tot) ex)"

definition softmax :: "float_ops \<Rightarrow> f32 list \<Rightarrow> mem_error + f32 list" where
  "softmax F x = (case x of [] \<Rightarrow> Inl OutOfBounds | v # vs \<Rightarrow> Inr (softmax_with F (softmax_max vs v) x))"

text \<open>One rotated pair; \<open>j\<close> is the place of its first element in the vector, \<open>i\<close> in its head.\<close>

definition rope_pair :: "float_ops \<Rightarrow> int \<Rightarrow> f32 list \<Rightarrow> nat \<times> nat \<Rightarrow> f32 list \<Rightarrow> mem_error + f32 list" where
  "rope_pair F pos inv_freq ji vec =
     (let j = fst ji; i = snd ji
      in if Suc j < length vec \<and> i div 2 < length inv_freq then
           let theta = f_mul F (f_of_int F pos) (inv_freq ! (i div 2));
               cos_theta = f_cos F theta; sin_theta = f_sin F theta;
               x0 = vec ! j; x1 = vec ! Suc j
           in Inr (vec[j := f_sub F (f_mul F x0 cos_theta) (f_mul F x1 sin_theta),
                       Suc j := f_add F (f_mul F x0 sin_theta) (f_mul F x1 cos_theta)])
         else Inl OutOfBounds)"

definition rope_places :: "nat \<Rightarrow> nat \<Rightarrow> (nat \<times> nat) list" where
  "rope_places nheads hdim = concat (map (\<lambda>h. map (\<lambda>t. (h * hdim + 2 * t, 2 * t)) [0..<(hdim + 1) div 2]) [0..<nheads])"

definition math_rope :: "float_ops \<Rightarrow> f32 list \<Rightarrow> int \<Rightarrow> nat \<Rightarrow> nat \<Rightarrow> f32 list \<Rightarrow> mem_error + f32 list" where
  "math_rope F vec pos nheads hdim inv_freq = sfold (rope_pair F pos inv_freq) (rope_places nheads hdim) vec"

definition f32_neg :: "f32 \<Rightarrow> f32" where
  "f32_neg x = x XOR 0x80000000"

definition swiglu :: "float_ops \<Rightarrow> f32 list \<Rightarrow> f32 list \<Rightarrow> f32 list" where
  "swiglu F gate up =
     map (\<lambda>p. f_mul F (snd p) (f_div F (fst p) (f_add F f_one (f_exp F (f32_neg (fst p)))))) (zip gate up)"

section \<open>The quantised dot products are exact refinements\<close>

lemma lane_rounds_step:
  "length row = 8 \<Longrightarrow> lane_rounds F (row @ v) k acc = lane_rounds F v (drop 8 k) (fma_lanes F row (take 8 k) acc)"
  by (subst lane_rounds.simps) simp

lemma lanes_split: "length row = 32 \<Longrightarrow> row = lanes 0 row @ lanes 8 row @ lanes 16 row @ lanes 24 row"
  using append_take_drop_id [of 8 row] append_take_drop_id [of 8 "drop 8 row"] append_take_drop_id [of 8 "drop 16 row"]
  by (simp add: lanes_def)

lemma lane_rounds_block:
  assumes "length row = 32"
  shows "lane_rounds F (row @ v) y acc = lane_rounds F v (drop 32 y) (fma_chunks F (\<lambda>c. lanes (8 * c) row) y acc)"
proof -
  have l: "length (lanes 0 row) = 8" "length (lanes 8 row) = 8" "length (lanes 16 row) = 8" "length (lanes 24 row) = 8"
    using assms by (simp_all add: lanes_def)
  have "lane_rounds F (lanes 0 row @ lanes 8 row @ lanes 16 row @ lanes 24 row @ v) y acc =
      lane_rounds F v (drop 32 y) (fma_chunks F (\<lambda>c. lanes (8 * c) row) y acc)"
    using l by (simp add: lane_rounds_step fma_chunks_def lanes_def [of _ y])
  moreover have "row @ v = lanes 0 row @ lanes 8 row @ lanes 16 row @ lanes 24 row @ v" using lanes_split [OF assms] by (metis append.assoc)
  ultimately show ?thesis by (rule ssubst [rotated])
qed

lemma lane_rounds_end: "length v < 8 \<Longrightarrow> lane_rounds F v k acc = (acc, v, k)"
  by (subst lane_rounds.simps) simp

lemma lanes_map: "lanes k (map f xs) = map f (lanes k xs)"
  by (simp add: lanes_def take_map drop_map)

lemma lanes_append_left: "k + 8 \<le> length xs \<Longrightarrow> lanes k (xs @ ys) = lanes k xs"
  by (simp add: lanes_def)

lemma lanes_append_right: "length xs \<le> k \<Longrightarrow> lanes k (xs @ ys) = lanes (k - length xs) ys"
  by (simp add: lanes_def)

lemma q8_rounds_dequantize:
  assumes "\<forall>b\<in>set x. length (q8_qs b) = 32"
  shows "lane_rounds F (dequantize_q8_row F x) y acc = (q8_rounds F x y acc, [], drop (32 * length x) y)"
  using assms
proof (induction x arbitrary: y acc)
  case (Cons b x)
  let ?row = "map (\<lambda>q. f_mul F (f_of_int F (sint q)) (fp16_to_fp32 (q8_d b))) (q8_qs b)"
  have "dequantize_q8_row F (b # x) = ?row @ dequantize_q8_row F x" by (simp add: dequantize_q8_row_def)
  then show ?case using Cons lane_rounds_block [of ?row F "dequantize_q8_row F x" y acc]
    by (simp add: lanes_map Let_def algebra_simps)
qed (simp add: dequantize_q8_row_def lane_rounds_end)

lemma low_nibble: "(q :: 8 word) AND 0x0F = take_bit 4 q"
  by (simp add: take_bit_eq_mask mask_eq_exp_minus_1)

lemma nibble_signed: "sint ((q AND 0x0F) - 8 :: 8 word) = uint (q AND 0x0F) - 8"
proof -
  have "uint (q AND 0x0F) = uint q mod 16" unfolding low_nibble by (simp add: unsigned_take_bit_eq) (simp add: take_bit_eq_mod)
  then have r: "0 \<le> uint (q AND 0x0F)" "uint (q AND 0x0F) < 16" by auto
  have "(q AND 0x0F) - 8 = word_of_int (uint (q AND 0x0F) - 8)" by simp
  then have "sint ((q AND 0x0F) - 8) = sint (word_of_int (uint (q AND 0x0F) - 8) :: 8 word)" by simp
  also have "\<dots> = uint (q AND 0x0F) - 8" using r by (subst sint_sbintrunc') (simp add: signed_take_bit_int_eq_self)
  finally show ?thesis .
qed

lemma srli_nibbles: "even (length qs) \<Longrightarrow> map (\<lambda>q. (q AND 0x0F) - 8) (srli_epi16_4 qs) = map (\<lambda>q. (drop_bit 4 q) - 8) qs"
proof (induction qs rule: srli_epi16_4.induct)
  case (1 a b rest)
  have "ucast (drop_bit 4 ((ucast a :: u16) OR push_bit 8 (ucast b))) AND 0x0F = drop_bit 4 a"
    "ucast (drop_bit 8 (drop_bit 4 ((ucast a :: u16) OR push_bit 8 (ucast b)))) AND 0x0F = drop_bit 4 b"
    unfolding low_nibble by (rule bit_word_eqI, use bit_imp_le_length in \<open>force simp: bit_simps\<close>)+
  then show ?case using 1 by (simp add: Let_def)
qed auto

lemma high_nibble_signed: "sint (drop_bit 4 q - 8 :: 8 word) = uint (drop_bit 4 q) - 8"
proof -
  have "drop_bit 4 q = drop_bit 4 q AND (0x0F :: 8 word)" unfolding low_nibble
    by (rule bit_word_eqI) (use bit_imp_le_length in \<open>force simp: bit_simps\<close>)
  then show ?thesis using nibble_signed [of "drop_bit 4 q"] by simp
qed

lemma fma_chunks_cong: "(\<And>c. c < 4 \<Longrightarrow> vf c = vf' c) \<Longrightarrow> fma_chunks F vf y acc = fma_chunks F vf' y acc"
  by (simp add: fma_chunks_def)

lemma q4_rounds_dequantize:
  assumes "\<forall>b\<in>set x. length (q4_qs b) = 16"
  shows "lane_rounds F (dequantize_q4_row F x) y acc = (q4_rounds F x y acc, [], drop (32 * length x) y)"
  using assms
proof (induction x arbitrary: y acc)
  case (Cons b x)
  let ?d = "fp16_to_fp32 (q4_d b)"
  let ?lo = "map (\<lambda>q. f_mul F (f_of_int F (uint (q AND 0x0F) - 8)) ?d) (q4_qs b)"
  let ?hi = "map (\<lambda>q. f_mul F (f_of_int F (uint (drop_bit 4 q) - 8)) ?d) (q4_qs b)"
  let ?lo8 = "map (\<lambda>q. (q AND 0x0F) - 8) (q4_qs b)" and ?hi8 = "map (\<lambda>q. (q AND 0x0F) - 8) (srli_epi16_4 (q4_qs b))"
  have l: "length ?lo = 16" "length ?hi = 16" using Cons.prems by auto
  have sp: "lanes (8 * c) (?lo @ ?hi) = (if c < 2 then lanes (8 * c) ?lo else lanes (8 * (c - 2)) ?hi)" if "c < 4" for c
    using that l by (cases "c < 2") (simp_all add: lanes_append_left lanes_append_right right_diff_distrib')
  have lo: "map (\<lambda>q. f_mul F (f_of_int F (sint q)) ?d) ?lo8 = ?lo" by (simp add: nibble_signed)
  have lol: "lanes k ?lo = map (\<lambda>q. f_mul F (f_of_int F (sint q)) ?d) (lanes k ?lo8)" for k unfolding lo [symmetric] by (rule lanes_map)
  have hi: "map (\<lambda>q. f_mul F (f_of_int F (sint q)) ?d) ?hi8 = ?hi"
    using Cons.prems by (subst srli_nibbles) (auto simp: high_nibble_signed)
  have hil: "lanes k ?hi = map (\<lambda>q. f_mul F (f_of_int F (sint q)) ?d) (lanes k ?hi8)" for k unfolding hi [symmetric] by (rule lanes_map)
  have "fma_chunks F (\<lambda>c. lanes (8 * c) (?lo @ ?hi)) y acc =
      fma_chunks F (\<lambda>c. map (\<lambda>q. f_mul F (f_of_int F (sint q)) ?d) (if c < 2 then lanes (8 * c) ?lo8 else lanes (8 * (c - 2)) ?hi8)) y acc"
    by (rule fma_chunks_cong) (simp only: sp lol hil split: if_split, simp)
  moreover have "dequantize_q4_row F (b # x) = (?lo @ ?hi) @ dequantize_q4_row F x" by (simp add: dequantize_q4_row_def)
  ultimately show ?case using Cons lane_rounds_block [of "?lo @ ?hi" F "dequantize_q4_row F x" y acc] l
    by (simp add: Let_def algebra_simps)
qed (simp add: dequantize_q4_row_def lane_rounds_end)



section \<open>Half precision\<close>

text \<open>The magnitude of a finite float in units of 2^-149, and of a finite half in units of 2^-24.\<close>

definition f32_units :: "f32 \<Rightarrow> nat" where
  "f32_units w = (let e = unat w div 2 ^ 23 mod 256; m = unat w mod 2 ^ 23 in if e = 0 then m else (2 ^ 23 + m) * 2 ^ (e - 1))"

definition f16_units :: "u16 \<Rightarrow> nat" where
  "f16_units h = (let e = unat h div 1024 mod 32; m = unat h mod 1024 in if e = 0 then m else (1024 + m) * 2 ^ (e - 1))"

lemma top_bit_bounds: "0 < n \<Longrightarrow> 2 ^ top_bit n \<le> n \<and> n < 2 ^ Suc (top_bit n)"
proof (induction n rule: top_bit.induct)
  case (1 n)
  show ?case
  proof (cases "n \<le> 1")
    case True
    with 1 show ?thesis by (simp add: top_bit.simps [of n])
  next
    case False
    then have "2 ^ top_bit (n div 2) \<le> n div 2 \<and> n div 2 < 2 ^ Suc (top_bit (n div 2))" using 1 by simp
    then show ?thesis using False by (simp add: top_bit.simps [of n]) linarith
  qed
qed

lemma f32_units_fields:
  assumes "s < 2" "e < 256" "m < 2 ^ 23"
  shows "f32_units (word_of_nat (s * 2 ^ 31 + (e * 2 ^ 23 + m))) = (if e = 0 then m else (2 ^ 23 + m) * 2 ^ (e - 1))"
    "unat (word_of_nat (s * 2 ^ 31 + (e * 2 ^ 23 + m)) :: f32) div 2 ^ 31 = s"
proof -
  let ?n = "s * 2 ^ 31 + (e * 2 ^ 23 + m)"
  have "s * 2 ^ 31 \<le> 2 ^ 31" using assms(1) by simp
  then have "?n < 2 ^ 32" using assms(2,3) by simp
  then have u: "unat (word_of_nat ?n :: f32) = ?n" unfolding unat_of_nat by (intro mod_less) simp
  have "?n = m + (s * 256 + e) * 2 ^ 23" by simp
  then have d: "?n div 2 ^ 23 = s * 256 + e" "?n mod 2 ^ 23 = m" using assms(3) by (simp_all only: div_mult_self1 mod_mult_self1) auto
  show "f32_units (word_of_nat ?n) = (if e = 0 then m else (2 ^ 23 + m) * 2 ^ (e - 1))"
    unfolding f32_units_def u Let_def d using assms(2) by simp
  have "e * 2 ^ 23 + m < 2 ^ 31" using assms(2,3) by simp
  then show "unat (word_of_nat ?n :: f32) div 2 ^ 31 = s" unfolding u by simp
qed

text \<open>
  The conversion of a finite half, subnormal ones included, is exact: the float has the same magnitude and the same sign.
\<close>

theorem fp16_to_fp32_exact:
  assumes "unat h div 1024 mod 32 \<noteq> 31"
  shows "f32_units (fp16_to_fp32 h) = f16_units h * 2 ^ 125 \<and> unat (fp16_to_fp32 h) div 2 ^ 31 = unat h div 2 ^ 15"
proof -
  define s e m where f: "s = unat h div 32768" "e = unat h div 1024 mod 32" "m = unat h mod 1024"
  have "unat h < 2 ^ 16" using unsigned_less [of h] by simp
  then have s: "s < 2" and e: "e < 31" and m: "m < 1024" using assms f by auto
  have units: "f16_units h = (if e = 0 then m else (1024 + m) * 2 ^ (e - 1))" by (simp add: f16_units_def Let_def f)
  have sgn: "unat h div 2 ^ 15 = s" by (simp add: f)
  consider "e = 0" "m = 0" | "e = 0" "0 < m" | "0 < e" by auto
  then show ?thesis
  proof cases
    case 1
    then have "fp16_to_fp32 h = word_of_nat (s * 2 ^ 31 + (0 * 2 ^ 23 + 0))" by (simp add: fp16_to_fp32_def f Let_def)
    then show ?thesis using f32_units_fields [OF s, of 0 0] 1 units sgn by simp
  next
    case 2
    let ?k = "top_bit m"
    have k: "2 ^ ?k \<le> m" "m < 2 ^ Suc ?k" using top_bit_bounds 2 by auto
    have "?k < 10"
    proof (rule ccontr)
      assume "\<not> ?k < 10"
      then have "(2::nat) ^ 10 \<le> 2 ^ ?k" by (intro power_increasing) auto
      then show False using k m by simp
    qed
    then have p: "(2::nat) ^ ?k * 2 ^ (10 - ?k) = 1024" "(2::nat) ^ Suc ?k * 2 ^ (10 - ?k) = 2048"
      by (simp_all flip: power_add)
    have "m * 2 ^ (10 - ?k) < 2 ^ Suc ?k * 2 ^ (10 - ?k)" by (rule mult_less_mono1 [OF k(2)]) simp
    then have b: "1024 \<le> m * 2 ^ (10 - ?k)" "m * 2 ^ (10 - ?k) < 2048"
      using mult_le_mono1 [OF k(1), of "2 ^ (10 - ?k)"] unfolding p by auto
    have w: "fp16_to_fp32 h = word_of_nat (s * 2 ^ 31 + ((?k + 103) * 2 ^ 23 + (m * 2 ^ (10 - ?k) - 1024) * 8192))"
      using 2 by (simp add: fp16_to_fp32_def f Let_def)
    have r: "?k + 103 < 256" "(m * 2 ^ (10 - ?k) - 1024) * 8192 < 2 ^ 23" using \<open>?k < 10\<close> b by auto
    have "(2 ^ 23 + (m * 2 ^ (10 - ?k) - 1024) * 8192) * 2 ^ (?k + 103 - 1) = m * 2 ^ (10 - ?k) * 8192 * 2 ^ (?k + 102)"
      using b by (simp add: diff_mult_distrib)
    also have "\<dots> = m * (2 ^ (10 - ?k) * 2 ^ 13 * 2 ^ (?k + 102))" by simp
    also have "(2::nat) ^ (10 - ?k) * 2 ^ 13 * 2 ^ (?k + 102) = 2 ^ (10 - ?k + 13 + (?k + 102))" by (simp only: power_add)
    also have "10 - ?k + 13 + (?k + 102) = 125" using \<open>?k < 10\<close> by simp
    finally have "(2 ^ 23 + (m * 2 ^ (10 - ?k) - 1024) * 8192) * 2 ^ (?k + 103 - 1) = f16_units h * 2 ^ 125" using 2(1) units by simp
    then show ?thesis using f32_units_fields [OF s r, folded w] sgn by simp
  next
    case 3
    have w: "fp16_to_fp32 h = word_of_nat (s * 2 ^ 31 + ((e + 112) * 2 ^ 23 + m * 8192))"
      using 3 e by (simp add: fp16_to_fp32_def f Let_def)
    have r: "e + 112 < 256" "m * 8192 < 2 ^ 23" using e m by auto
    have "(2 ^ 23 + m * 8192) * 2 ^ (e + 112 - 1) = (1024 + m) * (2 ^ 13 * 2 ^ (e + 111))" by (simp add: algebra_simps)
    also have "(2::nat) ^ 13 * 2 ^ (e + 111) = 2 ^ (e - 1) * 2 ^ 125"
    proof -
      have "13 + (e + 111) = (e - 1) + 125" using 3 by simp
      then show ?thesis by (simp only: power_add [symmetric])
    qed
    finally have "(2 ^ 23 + m * 8192) * 2 ^ (e + 112 - 1) = f16_units h * 2 ^ 125" using 3 units by simp
    then show ?thesis using f32_units_fields [OF s r, folded w] sgn by simp
  qed
qed

theorem fp16_to_fp32_exact_witness: "f32_units (fp16_to_fp32 0x3C00) = f16_units 0x3C00 * 2 ^ 125"
  using fp16_to_fp32_exact [of "0x3C00"] by simp

section \<open>Shapes\<close>

lemma length_rmsnorm:
  "sz mod 8 = 0 \<Longrightarrow> length x = sz \<Longrightarrow> sz \<le> length w \<Longrightarrow> \<exists>y. rmsnorm F x sz eps w = Inr y \<and> length y = sz"
  by (simp add: rmsnorm_def Let_def)

lemma rope_place_bounds:
  assumes "even hdim" and "ji \<in> set (rope_places nheads hdim)"
  shows "Suc (fst ji) < nheads * hdim" "snd ji div 2 < hdim div 2"
proof -
  obtain h t where t: "h < nheads" "t < (hdim + 1) div 2" "ji = (h * hdim + 2 * t, 2 * t)" using assms(2) by (auto simp: rope_places_def)
  have "t < hdim div 2" using t(2) assms(1) by presburger
  then have "h * hdim + (2 * t + 1) < (h + 1) * hdim" using assms(1) by (auto simp: algebra_simps elim!: evenE)
  also have "\<dots> \<le> nheads * hdim" using t(1) by (intro mult_le_mono1) simp
  finally show "Suc (fst ji) < nheads * hdim" using t(3) by simp
  show "snd ji div 2 < hdim div 2" using \<open>t < hdim div 2\<close> t(3) by simp
qed

lemma length_math_rope:
  assumes "even hdim" and "nheads * hdim \<le> length vec" and "hdim div 2 \<le> length freq"
  shows "\<exists>y. math_rope F vec pos nheads hdim freq = Inr y \<and> length y = length vec"
  unfolding math_rope_def
proof (rule sfold_keeps)
  fix ji and v :: "f32 list"
  assume "ji \<in> set (rope_places nheads hdim)" "length v = length vec"
  then show "\<exists>s'. rope_pair F pos freq ji v = Inr s' \<and> length s' = length vec"
    using rope_place_bounds [OF assms(1), of ji nheads] assms(2,3) by (auto simp: rope_pair_def Let_def)
qed simp

end
