(* ===== verification/Vector_Index.thy ===== *)
theory Vector_Index
  imports Kernels Byte_Codec
begin

text \<open>
  The quantised vector index (\<open>vector/turboquant_index.hpp\<close>, \<open>turboquant_index.cpp\<close>): rotation, 4-bit
  quantisation, insertion with overwriting, soft deletion, exhaustive top-k search under an allow mask, and the DLVQ file format.

  Every method holds the index mutex for its whole body, so a method is one step. Float arithmetic is the argument
  \<open>F\<close> (with \<open>f_fma\<close> for the AVX2 fused multiply-add), comparisons are computed on bit patterns. The normally
  distributed draws of the rotation matrix are an argument: \<open>gauss seed i\<close> is the i-th draw. A read outside the
  allow mask is the error \<open>MaskOverrun\<close>. The priority queue is kept as its elements in ascending order,
  which is what its \<open>top\<close> and \<open>pop\<close> observe of it when no score is NaN. A write that fails is not modelled: \<open>save_index\<close> is
  the content of the file that \<open>save\<close> renames into place.
\<close>

unbundle bit_operations_syntax

section \<open>Quantisation\<close>

record quantized_vector =
  qv_scale :: f32
  qv_offset :: f32
  qv_packed :: "u8 list"
  qv_active :: bool

definition LLOYD_MAX_16 :: "f32 list" where
  "LLOYD_MAX_16 = [0xC02EE2EB, 0xC0046A7F, 0xBFCF1DE7, 0xBFA0CB29, 0xBF714120, 0xBF28240B, 0xBEC6B50B, 0xBE037B4A,
     0x3E037B4A, 0x3EC6B50B, 0x3F28240B, 0x3F714120, 0x3FA0CB29, 0x3FCF1DE7, 0x40046A7F, 0x402EE2EB]"

definition BOUNDARIES_16 :: "f32 list" where
  "BOUNDARIES_16 = [0xC019A6B5, 0xBFEBF7CF, 0xBFB7F2E5, 0xBF8CB5DD, 0xBF4CB296, 0xBF05BC02, 0xBE8432CA, 0,
     0x3E8432CA, 0x3F05BC02, 0x3F4CB296, 0x3F8CB5DD, 0x3FB7F2E5, 0x3FEBF7CF, 0x4019A6B5]"

text \<open>\<open>while (bin < 15 && v > BOUNDARIES_16[bin]) bin++\<close>: the length of the run of boundaries below \<open>v\<close>.\<close>

fun quantize_from :: "f32 list \<Rightarrow> nat \<Rightarrow> f32 \<Rightarrow> nat" where
  "quantize_from [] bin v = bin"
| "quantize_from (b # bs) bin v = (if f32_lt b v then quantize_from bs (Suc bin) v else bin)"

definition quantize_scalar :: "f32 \<Rightarrow> u8" where
  "quantize_scalar v = word_of_nat (quantize_from BOUNDARIES_16 0 v)"

definition pack_bins :: "u8 \<Rightarrow> u8 \<Rightarrow> u8" where
  "pack_bins b0 b1 = (b0 AND 0x0F) OR push_bit 4 (b1 AND 0x0F)"

definition bin_at :: "u8 list \<Rightarrow> nat \<Rightarrow> u8" where
  "bin_at packed i = (if even i then packed ! (i div 2) AND 0x0F else drop_bit 4 (packed ! (i div 2)) AND 0x0F)"

section \<open>Rotation\<close>

definition dot :: "float_ops \<Rightarrow> f32 list \<Rightarrow> f32 list \<Rightarrow> f32" where
  "dot F xs ys = foldl (\<lambda>s p. f_add F s (f_mul F (fst p) (snd p))) f_zero (zip xs ys)"

text \<open>One row of the modified Gram-Schmidt process against the rows before it.\<close>

definition orthonormal_row :: "float_ops \<Rightarrow> f32 list list \<Rightarrow> f32 list \<Rightarrow> f32 list" where
  "orthonormal_row F prev vi =
     (let v = foldl (\<lambda>v vj. let d = dot F v vj in map (\<lambda>p. f_sub F (fst p) (f_mul F d (snd p))) (zip v vj)) vi prev;
          norm = f_sqrt F (dot F v v);
          inv_norm = (if f32_lt 0x322BCC77 norm then f_div F f_one norm else f_zero)
      in map (\<lambda>x. f_mul F x inv_norm) v)"

definition init_rotation_matrix :: "float_ops \<Rightarrow> (u32 \<Rightarrow> nat \<Rightarrow> f32) \<Rightarrow> nat \<Rightarrow> u32 \<Rightarrow> f32 list list" where
  "init_rotation_matrix F gauss d seed =
     foldl (\<lambda>rows vi. rows @ [orthonormal_row F rows vi]) [] (map (\<lambda>i. map (\<lambda>k. gauss seed (i * d + k)) [0..<d]) [0..<d])"

definition rotate_vector :: "float_ops \<Rightarrow> f32 list list \<Rightarrow> f32 list \<Rightarrow> f32 list" where
  "rotate_vector F rows xs = map (\<lambda>row. dot F row xs) rows"

definition sum_floats :: "float_ops \<Rightarrow> f32 list \<Rightarrow> f32" where
  "sum_floats F xs = foldl (f_add F) f_zero xs"

definition packed_len :: "size_t \<Rightarrow> nat" where
  "packed_len d = unat ((d + 1) div 2)"

definition quantize_rotated :: "float_ops \<Rightarrow> size_t \<Rightarrow> f32 list \<Rightarrow> quantized_vector" where
  "quantize_rotated F d rotated =
     (let n = f_of_int F (uint d);
          mean = f_div F (sum_floats F rotated) n;
          var = foldl (\<lambda>s x. let diff = f_sub F x mean in f_add F s (f_mul F diff diff)) f_zero rotated;
          dev0 = f_sqrt F (f_div F var n);
          dev = (if f32_lt dev0 0x33D6BF95 then 0x33D6BF95 else dev0);
          bin = (\<lambda>i. quantize_scalar (f_div F (f_sub F (rotated ! i) mean) dev))
      in \<lparr>qv_scale = dev, qv_offset = mean,
          qv_packed = map (\<lambda>j. pack_bins (bin (2 * j)) (if 2 * j + 1 < unat d then bin (2 * j + 1) else 0)) [0..<packed_len d],
          qv_active = True\<rparr>)"

section \<open>The index\<close>

record vector_index =
  vi_dim :: size_t
  vi_rotation :: "f32 list list"
  vi_vectors :: "quantized_vector list"
  vi_id_by_index :: "string list"
  vi_index_by_id :: "string \<rightharpoonup> u32"

definition new_vector_index :: "float_ops \<Rightarrow> (u32 \<Rightarrow> nat \<Rightarrow> f32) \<Rightarrow> size_t \<Rightarrow> u32 \<Rightarrow> vector_index" where
  "new_vector_index F gauss d seed = \<lparr>vi_dim = d, vi_rotation = init_rotation_matrix F gauss (unat d) seed, vi_vectors = [],
     vi_id_by_index = [], vi_index_by_id = Map.empty\<rparr>"

text \<open>\<open>copy_n\<close> of at most \<open>dim\<close> values into a zero vector.\<close>

definition padded :: "size_t \<Rightarrow> f32 list \<Rightarrow> f32 list" where
  "padded d vec = take (unat d) vec @ replicate (unat d - length vec) f_zero"

definition quantize :: "float_ops \<Rightarrow> vector_index \<Rightarrow> f32 list \<Rightarrow> quantized_vector" where
  "quantize F ix vec = quantize_rotated F (vi_dim ix) (rotate_vector F (vi_rotation ix) (padded (vi_dim ix) vec))"

definition vi_add :: "float_ops \<Rightarrow> string \<Rightarrow> f32 list \<Rightarrow> vector_index \<Rightarrow> vector_index" where
  "vi_add F vid vec ix =
     (let qv = quantize F ix vec
      in case vi_index_by_id ix vid of
           Some i \<Rightarrow> ix\<lparr>vi_vectors := (vi_vectors ix)[unat i := qv]\<rparr>
         | None \<Rightarrow> ix\<lparr>vi_vectors := vi_vectors ix @ [qv], vi_id_by_index := vi_id_by_index ix @ [vid],
                     vi_index_by_id := (vi_index_by_id ix)(vid \<mapsto> word_of_nat (length (vi_vectors ix)))\<rparr>)"

definition vi_remove :: "string \<Rightarrow> vector_index \<Rightarrow> bool \<times> vector_index" where
  "vi_remove vid ix =
     (case vi_index_by_id ix vid of
        None \<Rightarrow> (False, ix)
      | Some i \<Rightarrow> (True, ix\<lparr>vi_vectors := (vi_vectors ix)[unat i := (vi_vectors ix ! unat i)\<lparr>qv_active := False\<rparr>]\<rparr>))"

definition vi_size :: "vector_index \<Rightarrow> nat" where
  "vi_size ix = length (filter qv_active (vi_vectors ix))"

section \<open>Search\<close>

text \<open>The AVX2 loop: two accumulators of eight lanes, sixteen elements per round; the rest is added in order.\<close>

function simd_rounds :: "float_ops \<Rightarrow> f32 list \<Rightarrow> f32 list \<Rightarrow> f32 list \<Rightarrow> f32 list \<Rightarrow> f32 list \<times> f32 list \<times> f32 list \<times> f32 list" where
  "simd_rounds F q c acc0 acc1 =
     (if length q < 16 then (acc0, acc1, q, c)
      else simd_rounds F (drop 16 q) (drop 16 c) (fma_lanes F (take 8 q) (take 8 c) acc0)
             (fma_lanes F (take 8 (drop 8 q)) (take 8 (drop 8 c)) acc1))"
  by pat_completeness auto
termination by (relation "measure (\<lambda>(F, q, c, acc0, acc1). length q)") auto

declare simd_rounds.simps [simp del]

definition code_dot :: "float_ops \<Rightarrow> f32 list \<Rightarrow> f32 list \<Rightarrow> f32" where
  "code_dot F q c =
     (case simd_rounds F q c (replicate 8 f_zero) (replicate 8 f_zero) of (acc0, acc1, q', c') \<Rightarrow>
        let lanes = map (\<lambda>p. f_add F (fst p) (snd p)) (zip acc0 acc1);
            hsum = foldl (f_add F) (hd lanes) (tl lanes)
        in foldl (\<lambda>s p. f_add F s (f_mul F (fst p) (snd p))) hsum (zip q' c'))"

definition codes :: "size_t \<Rightarrow> u8 list \<Rightarrow> f32 list" where
  "codes d packed = map (\<lambda>i. LLOYD_MAX_16 ! unat (bin_at packed i)) [0..<unat d]"

definition vector_score :: "float_ops \<Rightarrow> size_t \<Rightarrow> f32 list \<Rightarrow> quantized_vector \<Rightarrow> f32" where
  "vector_score F d q_rot qv =
     (let q_sum = sum_floats F q_rot;
          q_norm = f_sqrt F (foldl (\<lambda>s v. f_add F s (f_mul F v v)) f_zero q_rot);
          dot_prod = f_add F (f_mul F (qv_scale qv) (code_dot F q_rot (codes d (qv_packed qv)))) (f_mul F (qv_offset qv) q_sum)
      in f_div F dot_prod (f_mul F q_norm (f32_max 0x358637BD (f_mul F (qv_scale qv) (f_sqrt F (f_of_int F (uint d)))))))"

text \<open>\<open>std::greater\<close> on pairs puts the least pair on top.\<close>

definition pair_less :: "f32 \<times> nat \<Rightarrow> f32 \<times> nat \<Rightarrow> bool" where
  "pair_less a b \<longleftrightarrow> f32_lt (fst a) (fst b) \<or> \<not> f32_lt (fst b) (fst a) \<and> snd a < snd b"

definition heap_push :: "f32 \<times> nat \<Rightarrow> (f32 \<times> nat) list \<Rightarrow> (f32 \<times> nat) list" where
  "heap_push x h = insert_stable pair_less x h"

definition offer :: "nat \<Rightarrow> f32 \<times> nat \<Rightarrow> (f32 \<times> nat) list \<Rightarrow> (f32 \<times> nat) list" where
  "offer top_k x h =
     (if length h < top_k then heap_push x h
      else if f32_lt (fst (hd h)) (fst x) then heap_push x (tl h) else h)"

datatype index_error = MaskOverrun

definition mask_bit :: "u64 list \<Rightarrow> nat \<Rightarrow> index_error + bool" where
  "mask_bit allow j = (if j div 64 < length allow then Inr (bit (allow ! (j div 64)) (j mod 64)) else Inl MaskOverrun)"

text \<open>The vectors that the scan scores, as (score, position) pairs in the order of the positions.\<close>

fun scan :: "(quantized_vector \<Rightarrow> f32) \<Rightarrow> u64 list option \<Rightarrow> nat \<Rightarrow> quantized_vector list \<Rightarrow> index_error + (f32 \<times> nat) list" where
  "scan score allow j [] = Inr []"
| "scan score allow j (qv # qvs) =
     (case (case allow of None \<Rightarrow> Inr True | Some m \<Rightarrow> mask_bit m j) of
        Inl e \<Rightarrow> Inl e
      | Inr allowed \<Rightarrow>
          (case scan score allow (Suc j) qvs of
             Inl e \<Rightarrow> Inl e
           | Inr rest \<Rightarrow> Inr (if allowed \<and> qv_active qv then (score qv, j) # rest else rest)))"

definition top_hits :: "nat \<Rightarrow> (f32 \<times> nat) list \<Rightarrow> (f32 \<times> nat) list" where
  "top_hits top_k cands = rev (fold (offer top_k) cands [])"

record index_hit =
  hit_id :: string
  hit_internal :: nat
  hit_score :: f32

definition vi_search :: "float_ops \<Rightarrow> vector_index \<Rightarrow> f32 list \<Rightarrow> nat \<Rightarrow> u64 list option \<Rightarrow> index_error + index_hit list" where
  "vi_search F ix query_vec top_k allow =
     (if vi_vectors ix = [] \<or> top_k = 0 then Inr []
      else
        let q_rot = rotate_vector F (vi_rotation ix) (padded (vi_dim ix) query_vec);
            q_norm = f_sqrt F (foldl (\<lambda>s v. f_add F s (f_mul F v v)) f_zero q_rot)
        in if f32_lt q_norm 0x322BCC77 then Inr []
           else case scan (vector_score F (vi_dim ix) q_rot) allow 0 (vi_vectors ix) of
                  Inl e \<Rightarrow> Inl e
                | Inr cands \<Rightarrow>
                    Inr (map (\<lambda>h. \<lparr>hit_id = vi_id_by_index ix ! snd h, hit_internal = snd h, hit_score = fst h\<rparr>) (top_hits top_k cands)))"

definition set_mask_bit :: "nat \<Rightarrow> u64 list \<Rightarrow> u64 list" where
  "set_mask_bit i allow = allow[i div 64 := allow ! (i div 64) OR push_bit (i mod 64) 1]"

definition build_allowlist_mask :: "vector_index \<Rightarrow> string list \<Rightarrow> u64 list" where
  "build_allowlist_mask ix allowed_ids =
     (if vi_vectors ix = [] then []
      else fold (\<lambda>vid allow. case vi_index_by_id ix vid of Some i \<Rightarrow> set_mask_bit (unat i) allow | None \<Rightarrow> allow) allowed_ids
             (replicate ((length (vi_vectors ix) + 63) div 64) 0))"

section \<open>The DLVQ file\<close>

definition DLVQ_MAGIC :: u32 where "DLVQ_MAGIC = 0x444C5651"

definition EOF_MARKER :: u32 where "EOF_MARKER = 0x454F4621"

definition enc_entry :: "string \<times> quantized_vector \<Rightarrow> u8 list" where
  "enc_entry e =
     enc_u32 (word_of_nat (length (fst e))) @ map byte_of_char (fst e) @ enc_u32 (qv_scale (snd e)) @ enc_u32 (qv_offset (snd e)) @
     [if qv_active (snd e) then 1 else 0] @ qv_packed (snd e)"

text \<open>The bytes of the file; \<open>n\<close> is the 32-bit count, so at most that many entries are written.\<close>

definition save_index :: "vector_index \<Rightarrow> u8 list" where
  "save_index ix =
     (let n = (word_of_nat (length (vi_vectors ix)) :: u32)
      in enc_u32 DLVQ_MAGIC @ enc_u32 2 @ enc_u32 (ucast (vi_dim ix)) @ enc_u32 n @
         concat (map enc_entry (take (unat n) (zip (vi_id_by_index ix) (vi_vectors ix)))) @ enc_u32 EOF_MARKER)"

definition cleared :: "vector_index \<Rightarrow> vector_index" where
  "cleared ix = ix\<lparr>vi_vectors := [], vi_id_by_index := [], vi_index_by_id := Map.empty\<rparr>"

definition rd_float :: "f32 \<Rightarrow> istream \<Rightarrow> f32 \<times> istream" where
  "rd_float init s = (let (b, s') = in_read 4 (enc_u32 init) s in (dec_u32 b, s'))"

text \<open>One entry; \<open>None\<close> is the jump to \<open>load_error\<close>.\<close>

definition load_entry :: "nat \<Rightarrow> istream \<Rightarrow> ((string \<times> quantized_vector) \<times> istream) option" where
  "load_entry plen s0 =
     (if \<not> snd s0 then None
      else
        let (id_len, s1) = rd_u32 s0
        in if id_len = 0 \<or> id_len > 4096 \<or> \<not> snd s1 then None
           else
             let (idb, s2) = in_read (unat id_len) (replicate (unat id_len) 0) s1;
                 (scale, s3) = rd_float f_one s2;
                 (offset, s4) = rd_float f_zero s3;
                 (ab, s5) = in_read 1 [0] s4;
                 (packed, s6) = in_read plen (replicate plen 0) s5
             in if \<not> snd s6 then None
                else Some ((map char_of_byte idb, \<lparr>qv_scale = scale, qv_offset = offset, qv_packed = packed, qv_active = (hd ab \<noteq> 0)\<rparr>), s6))"

definition store_entry :: "string \<times> quantized_vector \<Rightarrow> vector_index \<Rightarrow> vector_index" where
  "store_entry e ix = ix\<lparr>vi_index_by_id := (vi_index_by_id ix)(fst e \<mapsto> word_of_nat (length (vi_vectors ix))),
     vi_id_by_index := vi_id_by_index ix @ [fst e], vi_vectors := vi_vectors ix @ [snd e]\<rparr>"

fun load_entries :: "nat \<Rightarrow> nat \<Rightarrow> istream \<Rightarrow> vector_index \<Rightarrow> (vector_index \<times> istream) option" where
  "load_entries plen 0 s ix = Some (ix, s)"
| "load_entries plen (Suc n) s ix =
     (case load_entry plen s of None \<Rightarrow> None | Some (e, s') \<Rightarrow> load_entries plen n s' (store_entry e ix))"

definition load_index :: "u8 list option \<Rightarrow> vector_index \<Rightarrow> bool \<times> vector_index" where
  "load_index contents ix =
     (case contents of
        None \<Rightarrow> (False, ix)
      | Some bytes \<Rightarrow>
          if length bytes < 16 then (False, ix)
          else
            let (magic, s1) = rd_u32 (bytes, True); (version, s2) = rd_u32 s1; (d, s3) = rd_u32 s2; (n, s4) = rd_u32 s3;
                min_expected = 16 + unat n * (13 + packed_len (vi_dim ix))
            in if magic \<noteq> DLVQ_MAGIC \<or> (version \<noteq> 1 \<and> version \<noteq> 2) \<or> ucast d \<noteq> vi_dim ix then (False, ix)
               else if n > 10000000 then (False, ix)
               else if length bytes < min_expected then (False, ix)
               else if version = 2 \<and> length bytes < min_expected + 4 then (False, ix)
               else case load_entries (packed_len (vi_dim ix)) (unat n) s4 (cleared ix) of
                      None \<Rightarrow> (False, cleared ix)
                    | Some (ix', s5) \<Rightarrow>
                        if version = 2
                        then let (marker, s6) = rd_u32 s5
                             in if marker \<noteq> EOF_MARKER \<or> \<not> snd s6 then (False, cleared ix) else (True, ix')
                        else (True, ix'))"

section \<open>The index refines a map\<close>

text \<open>The two directions of the identifier table agree, and positions fit 32 bits.\<close>

definition vi_ok :: "vector_index \<Rightarrow> bool" where
  "vi_ok ix \<longleftrightarrow> length (vi_id_by_index ix) = length (vi_vectors ix) \<and> length (vi_vectors ix) \<le> 2 ^ 32 \<and>
     (\<forall>vid w. vi_index_by_id ix vid = Some w \<longleftrightarrow> unat w < length (vi_id_by_index ix) \<and> vi_id_by_index ix ! unat w = vid)"

definition vi_lookup :: "vector_index \<Rightarrow> string \<rightharpoonup> quantized_vector" where
  "vi_lookup ix vid =
     (case vi_index_by_id ix vid of None \<Rightarrow> None
      | Some w \<Rightarrow> if qv_active (vi_vectors ix ! unat w) then Some (vi_vectors ix ! unat w) else None)"

definition vi_room :: "vector_index \<Rightarrow> nat" where
  "vi_room ix = 2 ^ 32 - length (vi_vectors ix)"

lemma unat_of_nat_u32: "n < 2 ^ 32 \<Longrightarrow> unat (word_of_nat n :: u32) = n"
  by (simp add: unat_of_nat)

lemma unat_eq_word_of_nat: "n < 2 ^ 32 \<Longrightarrow> unat w = n \<longleftrightarrow> w = (word_of_nat n :: u32)"
  by (auto simp: unat_of_nat_u32)

lemma vi_ok_new: "vi_ok (new_vector_index F gauss d seed)"
  by (simp add: vi_ok_def new_vector_index_def)

lemma vi_ok_table:
  assumes "vi_ok ix"
  shows "length (vi_id_by_index ix) = length (vi_vectors ix)" "length (vi_vectors ix) \<le> 2 ^ 32"
    "vi_index_by_id ix vid = Some w \<longleftrightarrow> unat w < length (vi_vectors ix) \<and> vi_id_by_index ix ! unat w = vid"
  using assms by (auto simp: vi_ok_def)

lemma vi_ok_at:
  assumes "vi_ok ix" and "i < length (vi_vectors ix)"
  shows "vi_index_by_id ix (vi_id_by_index ix ! i) = Some (word_of_nat i)"
proof -
  have "unat (word_of_nat i :: u32) = i" using assms vi_ok_table(2) [OF assms(1)] by (intro unat_of_nat_u32) simp
  then show ?thesis using assms vi_ok_table(3) [OF assms(1)] by simp
qed

lemma vi_ids_distinct:
  assumes "vi_ok ix"
  shows "distinct (vi_id_by_index ix)"
  unfolding distinct_conv_nth
proof (intro allI impI)
  fix i j
  assume ij: "i < length (vi_id_by_index ix)" "j < length (vi_id_by_index ix)" "i \<noteq> j"
  then have l: "i < length (vi_vectors ix)" "j < length (vi_vectors ix)" using vi_ok_table(1) [OF assms] by auto
  have "i < 2 ^ 32" "j < 2 ^ 32" using l vi_ok_table(2) [OF assms] by simp_all
  then have "(word_of_nat i :: u32) \<noteq> word_of_nat j" using ij(3) unat_of_nat_u32 by metis
  then show "vi_id_by_index ix ! i \<noteq> vi_id_by_index ix ! j" using vi_ok_at [OF assms l(1)] vi_ok_at [OF assms l(2)] by auto
qed

lemma vi_lookup_at:
  assumes "vi_ok ix" and "i < length (vi_vectors ix)"
  shows "vi_lookup ix (vi_id_by_index ix ! i) = (if qv_active (vi_vectors ix ! i) then Some (vi_vectors ix ! i) else None)"
proof -
  have "unat (word_of_nat i :: u32) = i" using assms vi_ok_table(2) [OF assms(1)] by (intro unat_of_nat_u32) simp
  then show ?thesis by (simp add: vi_lookup_def vi_ok_at [OF assms])
qed

lemma vi_update_ok:
  "vi_ok ix \<Longrightarrow> vi_ok (ix\<lparr>vi_vectors := (vi_vectors ix)[i := qv]\<rparr>)"
  by (simp add: vi_ok_def)

lemma vi_update_lookup:
  assumes "vi_ok ix" and "vi_index_by_id ix vid = Some w"
  shows "vi_lookup (ix\<lparr>vi_vectors := (vi_vectors ix)[unat w := qv]\<rparr>) = (vi_lookup ix)(vid := if qv_active qv then Some qv else None)"
proof
  fix x
  have w: "unat w < length (vi_vectors ix)" using assms vi_ok_table(3) by blast
  show "vi_lookup (ix\<lparr>vi_vectors := (vi_vectors ix)[unat w := qv]\<rparr>) x = ((vi_lookup ix)(vid := if qv_active qv then Some qv else None)) x"
  proof (cases "vi_index_by_id ix x")
    case (Some w')
    have i: "vi_id_by_index ix ! unat w' = x" "vi_id_by_index ix ! unat w = vid"
      using Some assms vi_ok_table(3) by blast+
    show ?thesis
    proof (cases "x = vid")
      case True
      with Some assms(2) have "w' = w" by simp
      with True assms(2) w show ?thesis by (simp add: vi_lookup_def)
    next
      case False
      then have "unat w \<noteq> unat w'" using i by metis
      then have "(vi_vectors ix)[unat w := qv] ! unat w' = vi_vectors ix ! unat w'" by (rule nth_list_update_neq)
      then show ?thesis using Some False by (simp add: vi_lookup_def)
    qed
  qed (use assms(2) in \<open>auto simp: vi_lookup_def\<close>)
qed

lemma vi_append_ok:
  fixes qv :: quantized_vector
  assumes "vi_ok ix" and "length (vi_vectors ix) < 2 ^ 32" and "vi_index_by_id ix vid = None"
  defines "ix' \<equiv> ix\<lparr>vi_vectors := vi_vectors ix @ [qv], vi_id_by_index := vi_id_by_index ix @ [vid],
     vi_index_by_id := (vi_index_by_id ix)(vid \<mapsto> word_of_nat (length (vi_vectors ix)))\<rparr>"
  shows "vi_ok ix'" "vi_lookup ix' = (vi_lookup ix)(vid := if qv_active qv then Some qv else None)"
proof -
  let ?n = "length (vi_vectors ix)"
  have n: "unat (word_of_nat ?n :: u32) = ?n" using assms(2) by (rule unat_of_nat_u32)
  note t = vi_ok_table [OF assms(1)]
  have fresh: "vi_id_by_index ix ! i \<noteq> vid" if "i < ?n" for i using vi_ok_at [OF assms(1) that] assms(3) by auto
  have eq: "(if x = vid then Some (word_of_nat ?n) else vi_index_by_id ix x) = Some w \<longleftrightarrow>
      unat w < Suc ?n \<and> (vi_id_by_index ix @ [vid]) ! unat w = x" for x w
  proof (cases "unat w < ?n")
    case True
    then have "w \<noteq> word_of_nat ?n" using n by auto
    then show ?thesis using True t fresh by (auto simp: nth_append)
  next
    case False
    have "unat w = ?n \<longleftrightarrow> w = word_of_nat ?n" by (rule unat_eq_word_of_nat [OF assms(2)])
    then show ?thesis using False t by (auto simp: nth_append)
  qed
  show "vi_ok ix'" using eq t assms(2) by (simp add: vi_ok_def ix'_def fun_upd_def)
  have old: "unat w < ?n" if "vi_index_by_id ix x = Some w" for x w using t(3) that by blast
  show "vi_lookup ix' = (vi_lookup ix)(vid := if qv_active qv then Some qv else None)"
    by (rule ext) (auto simp: vi_lookup_def ix'_def n nth_append dest: old split: option.splits)
qed

lemma quantize_active [simp]: "qv_active (quantize F ix vec)"
  by (simp add: quantize_def quantize_rotated_def Let_def)

lemma quantize_cong: "vi_dim ix = vi_dim ix' \<Longrightarrow> vi_rotation ix = vi_rotation ix' \<Longrightarrow> quantize F ix = quantize F ix'"
  by (rule ext) (simp add: quantize_def)

lemma vi_add_frame [simp]: "vi_dim (vi_add F vid vec ix) = vi_dim ix" "vi_rotation (vi_add F vid vec ix) = vi_rotation ix"
  by (simp_all add: vi_add_def Let_def split: option.splits)

lemma vi_remove_frame [simp]: "vi_dim (snd (vi_remove vid ix)) = vi_dim ix" "vi_rotation (snd (vi_remove vid ix)) = vi_rotation ix"
  by (simp_all add: vi_remove_def split: option.splits)

lemma vi_add_refines:
  assumes "vi_ok ix" and "length (vi_vectors ix) < 2 ^ 32"
  shows "vi_ok (vi_add F vid vec ix)" "vi_lookup (vi_add F vid vec ix) = (vi_lookup ix)(vid \<mapsto> quantize F ix vec)"
    "length (vi_vectors (vi_add F vid vec ix)) \<le> Suc (length (vi_vectors ix))"
  using vi_append_ok [OF assms, of vid "quantize F ix vec"] vi_update_ok [OF assms(1)] vi_update_lookup [OF assms(1), of vid _ "quantize F ix vec"]
  by (auto simp: vi_add_def Let_def split: option.splits)

lemma vi_remove_refines:
  assumes "vi_ok ix"
  shows "vi_ok (snd (vi_remove vid ix))" "vi_lookup (snd (vi_remove vid ix)) = (vi_lookup ix)(vid := None)"
    "length (vi_vectors (snd (vi_remove vid ix))) = length (vi_vectors ix)"
  using assms vi_update_ok [OF assms] vi_update_lookup [OF assms, of vid]
  by (auto simp: vi_remove_def vi_lookup_def split: option.splits)

text \<open>The store interface on an index with a fixed dimension and rotation.\<close>

definition vi_frame :: "size_t \<Rightarrow> f32 list list \<Rightarrow> vector_index \<Rightarrow> bool" where
  "vi_frame d rot ix \<longleftrightarrow> vi_ok ix \<and> vi_dim ix = d \<and> vi_rotation ix = rot"

definition encode_for :: "float_ops \<Rightarrow> size_t \<Rightarrow> f32 list list \<Rightarrow> f32 list \<Rightarrow> quantized_vector" where
  "encode_for F d rot vec = quantize_rotated F d (rotate_vector F rot (padded d vec))"

interpretation vstore: keyed_store "vi_frame d rot" vi_room vi_lookup "encode_for F d rot" "vi_add F" "\<lambda>vid ix. snd (vi_remove vid ix)"
  for d rot F
proof
  fix s :: vector_index and k x
  assume ok: "vi_frame d rot s" and room: "0 < vi_room s"
  then have l: "length (vi_vectors s) < 2 ^ 32" by (simp add: vi_room_def)
  have o: "vi_ok s" using ok by (simp add: vi_frame_def)
  show "vi_frame d rot (vi_add F k x s) \<and> vi_room s \<le> Suc (vi_room (vi_add F k x s))"
    using ok vi_add_refines(1,3) [OF o l, of F k x] by (auto simp: vi_frame_def vi_room_def)
  show "vi_lookup (vi_add F k x s) = (vi_lookup s)(k \<mapsto> encode_for F d rot x)"
    using ok vi_add_refines(2) [OF o l, of F k x] by (simp add: vi_frame_def encode_for_def quantize_def)
next
  fix s :: vector_index and k
  assume ok: "vi_frame d rot s"
  then have o: "vi_ok s" by (simp add: vi_frame_def)
  show "vi_frame d rot (snd (vi_remove k s)) \<and> vi_room s \<le> vi_room (snd (vi_remove k s))"
    using ok vi_remove_refines(1,3) [OF o, of k] by (simp add: vi_frame_def vi_room_def)
  show "vi_lookup (snd (vi_remove k s)) = (vi_lookup s)(k := None)" by (rule vi_remove_refines(2) [OF o])
qed

lemma vi_size_card:
  assumes "vi_ok ix"
  shows "vi_size ix = card (dom (vi_lookup ix))"
proof -
  let ?A = "{i. i < length (vi_vectors ix) \<and> qv_active (vi_vectors ix ! i)}"
  have "dom (vi_lookup ix) = (\<lambda>i. vi_id_by_index ix ! i) ` ?A"
  proof (intro set_eqI iffI)
    fix x
    assume "x \<in> dom (vi_lookup ix)"
    then obtain w where "vi_index_by_id ix x = Some w" "qv_active (vi_vectors ix ! unat w)"
      by (auto simp: vi_lookup_def dom_def split: option.splits if_splits)
    then show "x \<in> (\<lambda>i. vi_id_by_index ix ! i) ` ?A" using vi_ok_table(3) [OF assms, of x w] by auto
  next
    fix x
    assume "x \<in> (\<lambda>i. vi_id_by_index ix ! i) ` ?A"
    then show "x \<in> dom (vi_lookup ix)" using vi_lookup_at [OF assms] by auto
  qed
  moreover have "inj_on (\<lambda>i. vi_id_by_index ix ! i) ?A"
    using vi_ids_distinct [OF assms] vi_ok_table(1) [OF assms] by (auto simp: inj_on_def nth_eq_iff_index_eq)
  ultimately show ?thesis by (simp add: vi_size_def length_filter_conv_card card_image)
qed

text \<open>
  C17. The vector index refines a map: after any sequence of insertions and removals on a new index (fewer than 2^32
  of them), an identifier is found exactly with the quantised form of the last vector stored under it since its last
  removal, and \<open>size\<close> is the number of such identifiers.
\<close>

theorem vector_index_refines_map:
  assumes "length ops \<le> 2 ^ 32"
    and "ix = fold (run_op (vi_add F) (\<lambda>vid ix. snd (vi_remove vid ix))) ops (new_vector_index F gauss d seed)"
  shows "vi_lookup ix = fold (map_op (encode_for F d (init_rotation_matrix F gauss (unat d) seed))) ops Map.empty \<and>
    vi_size ix = card (dom (fold (map_op (encode_for F d (init_rotation_matrix F gauss (unat d) seed))) ops Map.empty))"
proof -
  let ?s = "new_vector_index F gauss d seed" and ?r = "init_rotation_matrix F gauss (unat d) seed"
  have "vi_frame d ?r ?s" using vi_ok_new [of F gauss d seed] by (simp add: vi_frame_def) (simp add: new_vector_index_def)
  moreover have "length ops \<le> vi_room ?s" using assms(1) by (simp add: vi_room_def new_vector_index_def)
  ultimately have r: "vi_frame d ?r ix \<and> vi_lookup ix = fold (map_op (encode_for F d ?r)) ops (vi_lookup ?s)"
    unfolding assms(2) by (rule vstore.run_refines)
  have "vi_lookup ?s = Map.empty" by (rule ext) (simp add: vi_lookup_def new_vector_index_def)
  with r show ?thesis using vi_size_card [of ix] by (simp add: vi_frame_def)
qed

definition demo_index :: vector_index where
  "demo_index = new_vector_index demo_floats (\<lambda>_ _. 0) 2 42"

theorem vector_index_refines_map_witness:
  "vi_size (vi_add demo_floats ''b'' [f_one] (snd (vi_remove ''a'' (vi_add demo_floats ''a'' [f_one] demo_index)))) = 1"
  using vector_index_refines_map [of "[Put ''a'' [f_one], Del ''a'', Put ''b'' [f_one]]" _ demo_floats "\<lambda>_ _. 0" 2 42, OF _ refl]
  by (simp add: demo_index_def)

section \<open>The search returns the best allowed vectors\<close>

interpretation hitq: strict_weak_order "num_key fst" pair_less
  by unfold_locales (auto simp: pair_less_def f32_lt_def num_key_def)

lemma pair_less_key: "num_key fst x \<Longrightarrow> num_key fst y \<Longrightarrow> \<not> pair_less y x \<Longrightarrow> f32_le (fst x) (fst y)"
  by (auto simp: pair_less_def f32_lt_def f32_le_def num_key_def)

text \<open>What the queue holds after the candidates \<open>xs\<close>: the best \<open>k\<close> of them in ascending order.\<close>

definition best_of :: "nat \<Rightarrow> (f32 \<times> nat) list \<Rightarrow> (f32 \<times> nat) list \<Rightarrow> bool" where
  "best_of k xs h \<longleftrightarrow> length h = min k (length xs) \<and> sorted_wrt (\<lambda>a b. \<not> pair_less b a) h \<and>
     (\<exists>rest. mset xs = mset h + mset rest \<and> (\<forall>x\<in>set rest. \<forall>y\<in>set h. f32_le (fst x) (fst y)))"

lemma best_ofI:
  assumes "length h = min k (length xs)" "sorted_wrt (\<lambda>a b. \<not> pair_less b a) h" "mset xs = mset h + mset rest"
    and "\<forall>x\<in>set rest. \<forall>y\<in>set h. f32_le (fst x) (fst y)"
  shows "best_of k xs h"
  using assms unfolding best_of_def by blast

lemma heap_push_simps [simp]:
  "length (heap_push x h) = Suc (length h)" "mset (heap_push x h) = add_mset x (mset h)" "set (heap_push x h) = insert x (set h)"
  by (simp_all add: heap_push_def flip: size_mset)

lemma best_of_set: "best_of k xs h \<Longrightarrow> set h \<subseteq> set xs"
  by (metis best_of_def set_mset_mset set_mset_union Un_upper1)

lemma best_of_offer:
  assumes b: "best_of k xs h" and k: "0 < k" and num: "num_key fst x" "\<And>y. y \<in> set xs \<Longrightarrow> num_key fst y"
  shows "best_of k (xs @ [x]) (offer k x h)"
proof -
  obtain rest where rest: "mset xs = mset h + mset rest" "\<forall>u\<in>set rest. \<forall>y\<in>set h. f32_le (fst u) (fst y)"
    using b by (auto simp: best_of_def)
  have numh: "num_key fst y" if "y \<in> set h" for y using num(2) best_of_set [OF b] that by blast
  have len: "length h = min k (length xs)" and srt: "sorted_wrt (\<lambda>a b. \<not> pair_less b a) h"
    using b by (auto simp: best_of_def)
  show ?thesis
  proof (cases "length h < k")
    case True
    then have "length h = length xs" using len by simp
    then have "rest = []" using arg_cong [OF rest(1), of size] by simp
    moreover have "sorted_wrt (\<lambda>a b. \<not> pair_less b a) (heap_push x h)"
      unfolding heap_push_def by (rule hitq.insert_stable_sorted [OF num(1) numh srt])
    ultimately have "best_of k (xs @ [x]) (heap_push x h)"
      by (intro best_ofI [of _ _ _ "[]"]) (use True len rest(1) in \<open>simp_all\<close>)
    then show ?thesis using True by (simp add: offer_def)
  next
    case False
    then obtain r t where h: "h = r # t" using k by (cases h) auto
    have rmin: "f32_le (fst r) (fst y)" if "y \<in> set t" for y
      using srt h numh that pair_less_key by simp
    show ?thesis
    proof (cases "f32_lt (fst r) (fst x)")
      case True
      have "sorted_wrt (\<lambda>a b. \<not> pair_less b a) (heap_push x t)"
        unfolding heap_push_def by (rule hitq.insert_stable_sorted [OF num(1)]) (use numh srt h in auto)
      moreover have "\<forall>u\<in>set (r # rest). \<forall>y\<in>set (heap_push x t). f32_le (fst u) (fst y)"
        using rest(2) rmin True h f32_le_trans by (auto simp: heap_push_def f32_lt_def f32_le_def)
      ultimately have "best_of k (xs @ [x]) (heap_push x t)"
        by (intro best_ofI [of _ _ _ "r # rest"]) (use False len rest(1) h in \<open>simp_all\<close>)
      then show ?thesis using True False h by (simp add: offer_def)
    next
      case F: False
      have "f32_le (fst x) (fst r)" using F h num(1) numh [of r] by (auto simp: f32_lt_def f32_le_def num_key_def)
      then have "f32_le (fst x) (fst y)" if "y \<in> set h" for y using rmin [of y] h that f32_le_trans by auto
      then have "best_of k (xs @ [x]) h"
        by (intro best_ofI [of _ _ _ "x # rest"]) (use False len rest srt in \<open>simp_all\<close>)
      then show ?thesis using F False h by (simp add: offer_def)
    qed
  qed
qed

lemma best_of_fold:
  assumes "0 < k" and "\<And>y. y \<in> set xs \<Longrightarrow> num_key fst y"
  shows "best_of k xs (fold (offer k) xs [])"
  using assms
proof (induction xs rule: rev_induct)
  case (snoc x xs)
  then show ?case using best_of_offer [of k xs "fold (offer k) xs []" x] by simp
qed (simp add: best_of_def)

lemma top_hits_best:
  assumes "0 < k" and "\<forall>y\<in>set xs. \<not> f32_nan (fst y)" and "distinct (map snd xs)"
  shows "length (top_hits k xs) = min k (length xs)" "set (top_hits k xs) \<subseteq> set xs" "distinct (map snd (top_hits k xs))"
    "sorted_wrt (\<lambda>a b. f32_le (fst b) (fst a)) (top_hits k xs)"
    "x \<in> set xs \<Longrightarrow> x \<notin> set (top_hits k xs) \<Longrightarrow> y \<in> set (top_hits k xs) \<Longrightarrow> f32_le (fst x) (fst y)"
proof -
  let ?h = "fold (offer k) xs []"
  have num: "num_key fst y" if "y \<in> set xs" for y using assms(2) that by (simp add: num_key_def)
  have b: "best_of k xs ?h" by (rule best_of_fold [OF assms(1) num])
  show "length (top_hits k xs) = min k (length xs)" using b by (simp add: best_of_def top_hits_def)
  show sub: "set (top_hits k xs) \<subseteq> set xs" using best_of_set [OF b] by (simp add: top_hits_def)
  obtain rest where r: "mset xs = mset ?h + mset rest" "\<forall>u\<in>set rest. \<forall>y\<in>set ?h. f32_le (fst u) (fst y)"
    using b unfolding best_of_def by blast
  have "mset (map snd xs) = mset (map snd ?h) + mset (map snd rest)" using r(1) by (metis mset_map image_mset_union)
  then have "distinct (map snd ?h)" using assms(3)
    by (metis distinct_append mset_append mset_eq_imp_distinct_iff)
  then show "distinct (map snd (top_hits k xs))" by (simp add: top_hits_def rev_map [symmetric])
  have "sorted_wrt (\<lambda>a b. f32_le (fst a) (fst b)) ?h"
    by (rule sorted_wrt_mono_rel [where P = "\<lambda>a b. \<not> pair_less b a"])
      (use b num best_of_set [OF b] pair_less_key in \<open>blast, simp add: best_of_def\<close>)
  then show "sorted_wrt (\<lambda>a b. f32_le (fst b) (fst a)) (top_hits k xs)" by (simp add: top_hits_def sorted_wrt_rev)
  show "f32_le (fst x) (fst y)" if "x \<in> set xs" "x \<notin> set (top_hits k xs)" "y \<in> set (top_hits k xs)"
  proof -
    have "x \<in># mset ?h + mset rest" using that(1) r(1) by (metis set_mset_mset)
    then have "x \<in> set rest" using that(2) by (simp add: top_hits_def)
    then show ?thesis using r(2) that(3) by (simp add: top_hits_def)
  qed
qed

text \<open>The scan: it fails exactly when the mask is shorter than the vector table, and keeps the allowed active vectors.\<close>

definition mask_covers :: "u64 list option \<Rightarrow> nat \<Rightarrow> bool" where
  "mask_covers allow n \<longleftrightarrow> (case allow of None \<Rightarrow> True | Some m \<Rightarrow> n \<le> 64 * length m)"

definition mask_allows :: "u64 list option \<Rightarrow> nat \<Rightarrow> bool" where
  "mask_allows allow j \<longleftrightarrow> (case allow of None \<Rightarrow> True | Some m \<Rightarrow> bit (m ! (j div 64)) (j mod 64))"

lemma scan_covered:
  "mask_covers allow (j + length qvs) \<Longrightarrow>
   scan score allow j qvs = Inr (map (\<lambda>i. (score (qvs ! (i - j)), i)) (filter (\<lambda>i. mask_allows allow i \<and> qv_active (qvs ! (i - j))) [j..<j + length qvs]))"
proof (induction qvs arbitrary: j)
  case (Cons qv qvs)
  have c: "mask_covers allow (Suc j + length qvs)" using Cons.prems by simp
  have b: "(case allow of None \<Rightarrow> Inr True | Some m \<Rightarrow> mask_bit m j) = Inr (mask_allows allow j)"
    using Cons.prems by (auto simp: mask_covers_def mask_allows_def mask_bit_def split: option.splits)
  have e: "[j..<j + length (qv # qvs)] = j # [Suc j..<Suc j + length qvs]" using upt_conv_Cons [of j "j + length (qv # qvs)"] by simp
  have n: "(qv # qvs) ! (i - j) = qvs ! (i - Suc j)" if "i \<in> set [Suc j..<Suc j + length qvs]" for i
    using that by (auto simp: nth_Cons' Suc_diff_Suc)
  have f: "map (\<lambda>i. (score ((qv # qvs) ! (i - j)), i)) (filter (\<lambda>i. mask_allows allow i \<and> qv_active ((qv # qvs) ! (i - j))) [Suc j..<Suc j + length qvs])
    = map (\<lambda>i. (score (qvs ! (i - Suc j)), i)) (filter (\<lambda>i. mask_allows allow i \<and> qv_active (qvs ! (i - Suc j))) [Suc j..<Suc j + length qvs])"
    using n by (intro map_cong filter_cong) auto
  show ?case unfolding e using Cons.IH [OF c] b f by simp
qed simp

lemma scan_overrun:
  "\<not> mask_covers allow (j + length qvs) \<Longrightarrow> mask_covers allow j \<Longrightarrow> scan score allow j qvs = Inl MaskOverrun"
proof (induction qvs arbitrary: j)
  case (Cons qv qvs)
  then obtain m where m: "allow = Some m" by (auto simp: mask_covers_def split: option.splits)
  show ?case
  proof (cases "j div 64 < length m")
    case True
    then have "mask_covers allow (Suc j)" by (simp add: mask_covers_def m)
    then show ?thesis using Cons.IH [of "Suc j"] Cons.prems True by (simp add: m mask_bit_def)
  qed (simp add: m mask_bit_def)
qed simp

text \<open>The mask built from identifiers covers the table and allows exactly their positions.\<close>

lemma set_mask_bit_simps:
  assumes "i div 64 < length m"
  shows "length (set_mask_bit i m) = length m" "bit (set_mask_bit i m ! (j div 64)) (j mod 64) \<longleftrightarrow> i = j \<or> bit (m ! (j div 64)) (j mod 64)"
proof -
  show "length (set_mask_bit i m) = length m" by (simp add: set_mask_bit_def)
  have "i = j \<longleftrightarrow> i div 64 = j div 64 \<and> i mod 64 = j mod 64" by (metis div_mult_mod_eq)
  then show "bit (set_mask_bit i m ! (j div 64)) (j mod 64) \<longleftrightarrow> i = j \<or> bit (m ! (j div 64)) (j mod 64)"
    using assms by (cases "i div 64 = j div 64") (auto simp: set_mask_bit_def bit_simps)
qed

lemma mask_fold:
  fixes m :: "u64 list"
  assumes "vi_ok ix" and "length (vi_vectors ix) \<le> 64 * length m"
  defines "step \<equiv> \<lambda>vid allow. case vi_index_by_id ix vid of Some i \<Rightarrow> set_mask_bit (unat i) allow | None \<Rightarrow> allow"
  shows "length (fold step ids m) = length m"
    "j < length (vi_vectors ix) \<Longrightarrow> bit (fold step ids m ! (j div 64)) (j mod 64) \<longleftrightarrow> vi_id_by_index ix ! j \<in> set ids \<or> bit (m ! (j div 64)) (j mod 64)"
proof -
  have "length (fold step ids m) = length m \<and>
      (j < length (vi_vectors ix) \<longrightarrow> (bit (fold step ids m ! (j div 64)) (j mod 64) \<longleftrightarrow> vi_id_by_index ix ! j \<in> set ids \<or> bit (m ! (j div 64)) (j mod 64)))"
    using assms(2)
  proof (induction ids arbitrary: m)
    case (Cons vid ids)
    show ?case
    proof (cases "vi_index_by_id ix vid")
      case None
      then have "j < length (vi_vectors ix) \<Longrightarrow> vi_id_by_index ix ! j \<noteq> vid" using vi_ok_at [OF assms(1)] by auto
      then show ?thesis using Cons.IH [OF Cons.prems] None by (auto simp: step_def)
    next
      case (Some w)
      have w: "unat w < length (vi_vectors ix)" "vi_id_by_index ix ! unat w = vid" using vi_ok_table(3) [OF assms(1)] Some by blast+
      then have d: "unat w div 64 < length m" using Cons.prems by simp
      have "j < length (vi_vectors ix) \<Longrightarrow> vi_id_by_index ix ! j = vid \<longleftrightarrow> unat w = j"
        using w vi_ids_distinct [OF assms(1)] vi_ok_table(1) [OF assms(1)] nth_eq_iff_index_eq by metis
      then show ?thesis using Cons.IH [of "set_mask_bit (unat w) m"] Cons.prems Some set_mask_bit_simps [OF d] by (auto simp: step_def)
    qed
  qed simp
  then show "length (fold step ids m) = length m"
    "j < length (vi_vectors ix) \<Longrightarrow> bit (fold step ids m ! (j div 64)) (j mod 64) \<longleftrightarrow> vi_id_by_index ix ! j \<in> set ids \<or> bit (m ! (j div 64)) (j mod 64)"
    by auto
qed

lemma allowlist_mask:
  assumes "vi_ok ix"
  shows "mask_covers (Some (build_allowlist_mask ix ids)) (length (vi_vectors ix))"
    "j < length (vi_vectors ix) \<Longrightarrow> mask_allows (Some (build_allowlist_mask ix ids)) j \<longleftrightarrow> vi_id_by_index ix ! j \<in> set ids"
proof -
  let ?n = "length (vi_vectors ix)" and ?m = "replicate ((length (vi_vectors ix) + 63) div 64) 0 :: u64 list"
  have l: "?n \<le> 64 * length ?m" by simp
  note mf = mask_fold [OF assms l, where ids = ids]
  show "mask_covers (Some (build_allowlist_mask ix ids)) ?n" using mf(1) l by (simp add: mask_covers_def build_allowlist_mask_def)
  assume j: "j < ?n"
  then have "j div 64 < (?n + 63) div 64" by linarith
  then show "mask_allows (Some (build_allowlist_mask ix ids)) j \<longleftrightarrow> vi_id_by_index ix ! j \<in> set ids"
    using mf(2) [OF j] j by (auto simp: mask_allows_def build_allowlist_mask_def)
qed

definition rotated_query :: "float_ops \<Rightarrow> vector_index \<Rightarrow> f32 list \<Rightarrow> f32 list" where
  "rotated_query F ix query = rotate_vector F (vi_rotation ix) (padded (vi_dim ix) query)"

definition query_norm :: "float_ops \<Rightarrow> vector_index \<Rightarrow> f32 list \<Rightarrow> f32" where
  "query_norm F ix query = f_sqrt F (foldl (\<lambda>s v. f_add F s (f_mul F v v)) f_zero (rotated_query F ix query))"

definition stored_score :: "float_ops \<Rightarrow> vector_index \<Rightarrow> f32 list \<Rightarrow> string \<Rightarrow> f32" where
  "stored_score F ix query vid = vector_score F (vi_dim ix) (rotated_query F ix query) (the (vi_lookup ix vid))"

definition searchable :: "vector_index \<Rightarrow> string list option \<Rightarrow> string set" where
  "searchable ix wanted = dom (vi_lookup ix) \<inter> (case wanted of None \<Rightarrow> UNIV | Some ids \<Rightarrow> set ids)"

text \<open>The candidates of a search, by position.\<close>

definition cand_positions :: "vector_index \<Rightarrow> string list option \<Rightarrow> nat list" where
  "cand_positions ix wanted = filter (\<lambda>i. vi_id_by_index ix ! i \<in> searchable ix wanted) [0..<length (vi_vectors ix)]"

lemma searchable_at:
  assumes "vi_ok ix" and "i < length (vi_vectors ix)"
  shows "vi_id_by_index ix ! i \<in> searchable ix wanted \<longleftrightarrow>
     mask_allows (map_option (build_allowlist_mask ix) wanted) i \<and> qv_active (vi_vectors ix ! i)"
  using vi_lookup_at [OF assms] allowlist_mask(2) [OF assms(1) assms(2)]
  by (cases wanted) (auto simp: searchable_def mask_allows_def split: if_splits)

lemma cand_positions_image:
  assumes "vi_ok ix"
  shows "(\<lambda>i. vi_id_by_index ix ! i) ` set (cand_positions ix wanted) = searchable ix wanted"
    and "length (cand_positions ix wanted) = card (searchable ix wanted)"
proof -
  show img: "(\<lambda>i. vi_id_by_index ix ! i) ` set (cand_positions ix wanted) = searchable ix wanted"
  proof (intro set_eqI iffI)
    fix x
    assume x: "x \<in> searchable ix wanted"
    then obtain w where "vi_index_by_id ix x = Some w" by (auto simp: searchable_def vi_lookup_def dom_def split: option.splits)
    then have "unat w < length (vi_vectors ix)" "vi_id_by_index ix ! unat w = x" using vi_ok_table(3) [OF assms] by blast+
    then show "x \<in> (\<lambda>i. vi_id_by_index ix ! i) ` set (cand_positions ix wanted)"
      using x by (auto simp: cand_positions_def intro!: image_eqI [of _ _ "unat w"])
  qed (auto simp: cand_positions_def)
  have "inj_on (\<lambda>i. vi_id_by_index ix ! i) (set (cand_positions ix wanted))"
    using vi_ids_distinct [OF assms] vi_ok_table(1) [OF assms] by (auto simp: inj_on_def cand_positions_def nth_eq_iff_index_eq)
  moreover have "distinct (cand_positions ix wanted)" by (simp add: cand_positions_def)
  ultimately show "length (cand_positions ix wanted) = card (searchable ix wanted)"
    using img by (metis card_image distinct_card)
qed

lemma stored_score_at:
  assumes "vi_ok ix" and "i < length (vi_vectors ix)" and "vi_id_by_index ix ! i \<in> searchable ix wanted"
  shows "stored_score F ix query (vi_id_by_index ix ! i) = vector_score F (vi_dim ix) (rotated_query F ix query) (vi_vectors ix ! i)"
  using assms vi_lookup_at [OF assms(1,2)] by (auto simp: stored_score_def searchable_def split: if_splits)

lemma vi_search_cands:
  assumes ok: "vi_ok ix" and k: "0 < top_k" and norm: "\<not> f32_lt (query_norm F ix query) 0x322BCC77"
  defines "idx \<equiv> \<lambda>i. vi_id_by_index ix ! i"
  shows "vi_search F ix query top_k (map_option (build_allowlist_mask ix) wanted) =
    Inr (map (\<lambda>h. \<lparr>hit_id = idx (snd h), hit_internal = snd h, hit_score = fst h\<rparr>)
      (top_hits top_k (map (\<lambda>i. (stored_score F ix query (idx i), i)) (cand_positions ix wanted))))"
proof (cases "vi_vectors ix = []")
  case True
  then show ?thesis by (simp add: vi_search_def cand_positions_def top_hits_def)
next
  case False
  have "mask_covers (map_option (build_allowlist_mask ix) wanted) (0 + length (vi_vectors ix))"
    using allowlist_mask(1) [OF ok] by (cases wanted) (auto simp: mask_covers_def)
  note sc = scan_covered [OF this, of "vector_score F (vi_dim ix) (rotated_query F ix query)"]
  have "filter (\<lambda>i. mask_allows (map_option (build_allowlist_mask ix) wanted) i \<and> qv_active (vi_vectors ix ! i)) [0..<length (vi_vectors ix)]
      = cand_positions ix wanted"
    unfolding cand_positions_def by (rule filter_cong) (auto simp: searchable_at [OF ok])
  moreover have "map (\<lambda>i. (vector_score F (vi_dim ix) (rotated_query F ix query) (vi_vectors ix ! i), i)) (cand_positions ix wanted)
      = map (\<lambda>i. (stored_score F ix query (idx i), i)) (cand_positions ix wanted)"
    using stored_score_at [OF ok] by (auto simp: cand_positions_def idx_def)
  ultimately have "scan (vector_score F (vi_dim ix) (rotated_query F ix query)) (map_option (build_allowlist_mask ix) wanted) 0 (vi_vectors ix)
      = Inr (map (\<lambda>i. (stored_score F ix query (idx i), i)) (cand_positions ix wanted))" using sc by simp
  then show ?thesis using False k norm
    by (simp add: vi_search_def Let_def idx_def query_norm_def rotated_query_def)
qed

text \<open>
  C19. Search: for a query whose rotated norm is not negligible and scores that are numbers, a search over all
  vectors or over an allow list returns without reading outside the mask; its hits are distinct stored identifiers of
  the allow list with their scores, as many as asked for or as there are, in descending order, and no stored and
  allowed identifier that is left out scores higher than one that is returned.
\<close>

theorem vector_search_top_k:
  assumes ok: "vi_ok ix" and k: "0 < top_k" and norm: "\<not> f32_lt (query_norm F ix query) 0x322BCC77"
    and num: "\<forall>vid\<in>searchable ix wanted. \<not> f32_nan (stored_score F ix query vid)"
  shows "\<exists>hits. vi_search F ix query top_k (map_option (build_allowlist_mask ix) wanted) = Inr hits \<and>
    distinct (map hit_id hits) \<and> set (map hit_id hits) \<subseteq> searchable ix wanted \<and>
    length hits = min top_k (card (searchable ix wanted)) \<and>
    (\<forall>h\<in>set hits. hit_score h = stored_score F ix query (hit_id h)) \<and>
    sorted_wrt (\<lambda>a b. f32_le (hit_score b) (hit_score a)) hits \<and>
    (\<forall>vid\<in>searchable ix wanted - hit_id ` set hits. \<forall>h\<in>set hits. f32_le (stored_score F ix query vid) (hit_score h))"
proof -
  let ?idx = "\<lambda>i. vi_id_by_index ix ! i" and ?ps = "cand_positions ix wanted"
  let ?cs = "map (\<lambda>i. (stored_score F ix query (?idx i), i)) ?ps"
  let ?hit = "\<lambda>h. \<lparr>hit_id = ?idx (snd h), hit_internal = snd h, hit_score = fst h\<rparr>"
  let ?ts = "top_hits top_k ?cs"
  have "?idx i \<in> searchable ix wanted" if "i \<in> set ?ps" for i using that cand_positions_image(1) [OF ok, of wanted] by blast
  then have n: "\<forall>y\<in>set ?cs. \<not> f32_nan (fst y)" using num by auto
  have "distinct (map snd ?cs)" by (simp add: comp_def cand_positions_def)
  note best = top_hits_best [OF k n this]
  have ts: "\<exists>i\<in>set ?ps. h = (stored_score F ix query (?idx i), i)" if "h \<in> set ?ts" for h using that best(2) by auto
  have "inj_on ?idx (set ?ps)"
    using vi_ids_distinct [OF ok] vi_ok_table(1) [OF ok] by (auto simp: inj_on_def cand_positions_def nth_eq_iff_index_eq)
  moreover have "set (map snd ?ts) \<subseteq> set ?ps" using ts by force
  ultimately have "inj_on ?idx (set (map snd ?ts))" by (rule inj_on_subset)
  with best(3) have d: "distinct (map ?idx (map snd ?ts))" by (subst distinct_map) (rule conjI)
  have left: "f32_le (stored_score F ix query vid) (fst h)"
    if "vid \<in> searchable ix wanted" "vid \<notin> (\<lambda>h. ?idx (snd h)) ` set ?ts" "h \<in> set ?ts" for vid h
  proof -
    have "vid \<in> ?idx ` set ?ps" using that(1) unfolding cand_positions_image(1) [OF ok] .
    then obtain i where i: "i \<in> set ?ps" "?idx i = vid" by (elim imageE) simp
    then have "(stored_score F ix query vid, i) \<in> set ?cs" by auto
    moreover have "(stored_score F ix query vid, i) \<notin> set ?ts"
    proof
      assume "(stored_score F ix query vid, i) \<in> set ?ts"
      then have "?idx (snd (stored_score F ix query vid, i)) \<in> (\<lambda>h. ?idx (snd h)) ` set ?ts" by (rule imageI)
      then show False using that(2) i(2) by simp
    qed
    ultimately have "f32_le (fst (stored_score F ix query vid, i)) (fst h)" using that(3) by (rule best(5))
    then show ?thesis by simp
  qed
  show ?thesis
  proof (intro exI conjI)
    show "vi_search F ix query top_k (map_option (build_allowlist_mask ix) wanted) = Inr (map ?hit ?ts)"
      by (rule vi_search_cands [OF ok k norm])
    show "distinct (map hit_id (map ?hit ?ts))" using d by (simp add: comp_def)
    show "set (map hit_id (map ?hit ?ts)) \<subseteq> searchable ix wanted"
      using ts cand_positions_image(1) [OF ok, of wanted] by fastforce
    show "length (map ?hit ?ts) = min top_k (card (searchable ix wanted))"
      using best(1) cand_positions_image(2) [OF ok, of wanted] by simp
    show "\<forall>h\<in>set (map ?hit ?ts). hit_score h = stored_score F ix query (hit_id h)" using ts by fastforce
    show "sorted_wrt (\<lambda>a b. f32_le (hit_score b) (hit_score a)) (map ?hit ?ts)" using best(4) by (simp add: sorted_wrt_map)
    show "\<forall>vid\<in>searchable ix wanted - hit_id ` set (map ?hit ?ts). \<forall>h\<in>set (map ?hit ?ts). f32_le (stored_score F ix query vid) (hit_score h)"
      using left by (auto simp: image_image)
  qed
qed

definition demo_store :: vector_index where
  "demo_store = vi_add demo_floats ''b'' [f_one] (vi_add demo_floats ''a'' [f_one] (new_vector_index demo_floats (\<lambda>_ _. f_one) 1 42))"

lemma demo_store_ok: "vi_ok demo_store"
proof -
  let ?s = "new_vector_index demo_floats (\<lambda>_ _. f_one) 1 42"
  have "length (vi_vectors ?s) = 0" by (simp add: new_vector_index_def)
  then have a: "vi_ok (vi_add demo_floats ''a'' [f_one] ?s)" "length (vi_vectors (vi_add demo_floats ''a'' [f_one] ?s)) \<le> 1"
    using vi_add_refines [OF vi_ok_new, of demo_floats "\<lambda>_ _. f_one" 1 42 demo_floats "''a''" "[f_one]"] by auto
  show ?thesis unfolding demo_store_def by (rule vi_add_refines(1) [OF a(1)]) (use a(2) in simp)
qed

lemma demo_store_searchable: "searchable demo_store (Some [''b'', ''c'']) = {''b''}"
  by (auto simp: searchable_def demo_store_def vi_lookup_def vi_add_def new_vector_index_def Let_def)

theorem vector_search_top_k_witness:
  "\<exists>hits. vi_search demo_floats demo_store [f_one] 3 (Some (build_allowlist_mask demo_store [''b'', ''c''])) = Inr hits \<and>
     set (map hit_id hits) \<subseteq> {''b''} \<and> length hits = 1"
proof -
  have norm: "\<not> f32_lt (query_norm demo_floats demo_store [f_one]) 0x322BCC77" by code_simp
  have num: "\<not> f32_nan (stored_score demo_floats demo_store [f_one] ''b'')" by code_simp
  show ?thesis
    using vector_search_top_k [OF demo_store_ok _ norm, of 3 "Some [''b'', ''c'']"] num unfolding demo_store_searchable by auto
qed

section \<open>Saving and loading\<close>

definition entry_ok :: "nat \<Rightarrow> string \<times> quantized_vector \<Rightarrow> bool" where
  "entry_ok plen e \<longleftrightarrow> length (fst e) < 2 ^ 32 \<and> length (qv_packed (snd e)) = plen"

definition id_loadable :: "string \<Rightarrow> bool" where
  "id_loadable vid \<longleftrightarrow> vid \<noteq> [] \<and> length vid \<le> 4096"

definition file_sized :: "vector_index \<Rightarrow> bool" where
  "file_sized ix \<longleftrightarrow> length (vi_vectors ix) \<le> 10000000 \<and> unat (vi_dim ix) < 2 ^ 32 \<and>
     list_all (entry_ok (packed_len (vi_dim ix))) (zip (vi_id_by_index ix) (vi_vectors ix))"

lemma id_len_test:
  fixes e :: "string \<times> quantized_vector"
  assumes "entry_ok plen e"
  shows "(word_of_nat (length (fst e)) :: u32) = 0 \<or> (word_of_nat (length (fst e)) :: u32) > 4096 \<longleftrightarrow> \<not> id_loadable (fst e)"
    "unat (word_of_nat (length (fst e)) :: u32) = length (fst e)"
proof -
  show u: "unat (word_of_nat (length (fst e)) :: u32) = length (fst e)" using assms by (intro unat_of_nat_u32) (simp add: entry_ok_def)
  then show "(word_of_nat (length (fst e)) :: u32) = 0 \<or> (word_of_nat (length (fst e)) :: u32) > 4096 \<longleftrightarrow> \<not> id_loadable (fst e)"
    by (auto simp: id_loadable_def word_less_nat_alt unat_eq_0 [symmetric])
qed

lemma rd_float_enc [simp]: "rd_float init (enc_u32 w @ rest, True) = (w, (rest, True))"
  by (simp add: rd_float_def u32c.read_scalar u32c.dec_enc u32c.enc_length)

lemma load_entry_enc:
  assumes "entry_ok plen e" and "id_loadable (fst e)"
  shows "load_entry plen (enc_entry e @ rest, True) = Some (e, (rest, True))"
proof -
  note t = id_len_test [OF assms(1)]
  have p: "length (qv_packed (snd e)) = plen" using assms(1) by (simp add: entry_ok_def)
  have i: "in_read (length (fst e)) buf (map byte_of_char (fst e) @ r, True) = (map byte_of_char (fst e) @ drop (length (fst e)) buf, (r, True))" for buf r
    by (rule in_read_enough) simp
  have a: "in_read (Suc 0) [0] (b # r, True) = ([b], (r, True))" for b :: u8 and r
    by (simp add: in_read_def)
  have q: "in_read plen (replicate plen 0) (qv_packed (snd e) @ r, True) = (qv_packed (snd e), (r, True))" for r
    using in_read_enough [OF p, of "replicate plen 0" r] by simp
  show ?thesis
    using t assms(2) by (simp add: load_entry_def enc_entry_def Let_def i a q) (cases e, simp)
qed

lemma load_entry_bad:
  "entry_ok plen e \<Longrightarrow> \<not> id_loadable (fst e) \<Longrightarrow> load_entry plen (enc_entry e @ rest, True) = None"
  using id_len_test(1) [of plen e] by (auto simp: load_entry_def enc_entry_def Let_def)

lemma load_entries_enc:
  assumes "list_all (entry_ok plen) es"
  shows "load_entries plen (length es) (concat (map enc_entry es) @ rest, True) ix =
    (if list_all (\<lambda>e. id_loadable (fst e)) es then Some (fold store_entry es ix, (rest, True)) else None)"
  using assms
proof (induction es arbitrary: ix)
  case (Cons e es)
  then show ?case by (cases "id_loadable (fst e)") (auto simp: load_entry_enc load_entry_bad)
qed simp

lemma store_entry_alt:
  "store_entry e ix = ix\<lparr>vi_vectors := vi_vectors ix @ [snd e], vi_id_by_index := vi_id_by_index ix @ [fst e],
     vi_index_by_id := (vi_index_by_id ix)(fst e \<mapsto> word_of_nat (length (vi_vectors ix)))\<rparr>"
  by (cases ix) (simp add: store_entry_def)

lemma fold_store_entry:
  fixes ix :: vector_index
  assumes "distinct (map fst es)" and "length es \<le> 2 ^ 32"
  defines "ix' \<equiv> fold store_entry es (cleared ix)"
  shows "vi_ok ix' \<and> vi_vectors ix' = map snd es \<and> vi_id_by_index ix' = map fst es \<and> vi_dim ix' = vi_dim ix \<and> vi_rotation ix' = vi_rotation ix"
  using assms(1,2) unfolding ix'_def
proof (induction es rule: rev_induct)
  case (snoc e es)
  let ?s = "fold store_entry es (cleared ix)"
  have IH: "vi_ok ?s" "vi_vectors ?s = map snd es" "vi_id_by_index ?s = map fst es" "vi_dim ?s = vi_dim ix" "vi_rotation ?s = vi_rotation ix"
    using snoc by auto
  have "vi_index_by_id ?s (fst e) = None"
  proof (rule ccontr)
    assume "vi_index_by_id ?s (fst e) \<noteq> None"
    then obtain w where w: "vi_index_by_id ?s (fst e) = Some w" by blast
    have "unat w < length es" "map fst es ! unat w = fst e"
      using vi_ok_table(3) [OF IH(1), THEN iffD1, OF w] IH(2,3) by simp_all
    then have "fst e \<in> set (map fst es)" by (metis length_map nth_mem)
    then show False using snoc.prems(1) by simp
  qed
  moreover have "length (vi_vectors ?s) < 2 ^ 32" using IH(2) snoc.prems(2) by simp
  ultimately have "vi_ok (store_entry e ?s)" using vi_append_ok(1) [OF IH(1), of "fst e" "snd e"]
    by (simp add: store_entry_alt)
  then show ?case using IH(2-5) by (simp add: store_entry_alt [of e])
qed (simp add: cleared_def vi_ok_def)

lemma vi_ok_determined:
  assumes "vi_ok ix" "vi_ok ix'" "vi_id_by_index ix = vi_id_by_index ix'"
  shows "vi_index_by_id ix = vi_index_by_id ix'"
proof
  fix vid
  have "vi_index_by_id ix vid = Some w \<longleftrightarrow> vi_index_by_id ix' vid = Some w" for w
    using assms by (simp add: vi_ok_def)
  then show "vi_index_by_id ix vid = vi_index_by_id ix' vid" by (metis not_Some_eq)
qed

lemma length_enc_entry: "length (enc_entry e) = 13 + length (fst e) + length (qv_packed (snd e))"
  by (simp add: enc_entry_def u32c.enc_length)

lemma length_enc_entries:
  "list_all (entry_ok plen) es \<Longrightarrow> length es * (13 + plen) \<le> length (concat (map enc_entry es))"
  by (induction es) (auto simp: length_enc_entry entry_ok_def)

text \<open>Loading a saved file comes down to the entry loop.\<close>

lemma load_saved:
  assumes ok: "vi_ok ix" and sz: "file_sized ix" and d: "vi_dim ix0 = vi_dim ix"
  defines "es \<equiv> zip (vi_id_by_index ix) (vi_vectors ix)"
  shows "load_index (Some (save_index ix)) ix0 =
    (if list_all id_loadable (vi_id_by_index ix) then (True, fold store_entry es (cleared ix0)) else (False, cleared ix0))"
proof -
  let ?n = "length (vi_vectors ix)" and ?p = "packed_len (vi_dim ix)"
  have n: "?n \<le> 10000000" "unat (word_of_nat ?n :: u32) = ?n" using sz unat_of_nat_u32 [of ?n] by (auto simp: file_sized_def)
  have le: "length es = ?n" using vi_ok_table(1) [OF ok] by (simp add: es_def)
  have eok: "list_all (entry_ok ?p) es" using sz by (simp add: file_sized_def es_def)
  have ids: "map fst es = vi_id_by_index ix" using vi_ok_table(1) [OF ok] by (simp add: es_def)
  have "ucast (ucast (vi_dim ix) :: u32) = vi_dim ix" using sz
    by (intro word_unat_eq_iff [THEN iffD2]) (simp add: file_sized_def unsigned_ucast_eq unsigned_take_bit_eq take_bit_nat_eq_self)
  moreover have "\<not> (word_of_nat ?n :: u32) > 10000000" using n by (simp add: word_less_nat_alt)
  moreover have "list_all (\<lambda>e. id_loadable (fst e)) es \<longleftrightarrow> list_all id_loadable (vi_id_by_index ix)"
    unfolding ids [symmetric] by (simp add: list_all_iff)
  moreover have "16 + ?n * (13 + ?p) + 4 \<le> length (save_index ix)"
    using length_enc_entries [OF eok] n(2) le by (simp add: save_index_def Let_def u32c.enc_length es_def)
  ultimately show ?thesis
    using load_entries_enc [OF eok, of "enc_u32 EOF_MARKER" "cleared ix0"] n(2) le d
      rd_u32_enc [of EOF_MARKER "[]"] u32c.enc_length
    by (simp add: load_index_def Let_def) (simp add: save_index_def Let_def es_def)
qed

text \<open>
  Save and load: an index whose identifiers have 1 to 4096 bytes comes back from its own file as it was, deleted
  entries included, whatever the loading index held before.
\<close>

theorem index_save_load:
  assumes "vi_ok ix" and "file_sized ix" and "list_all id_loadable (vi_id_by_index ix)"
    and "vi_dim ix0 = vi_dim ix" and "vi_rotation ix0 = vi_rotation ix"
  shows "load_index (Some (save_index ix)) ix0 = (True, ix)"
proof -
  let ?es = "zip (vi_id_by_index ix) (vi_vectors ix)"
  let ?s = "fold store_entry ?es (cleared ix0)"
  note t = vi_ok_table [OF assms(1)]
  have "vi_ok ?s \<and> vi_vectors ?s = map snd ?es \<and> vi_id_by_index ?s = map fst ?es \<and> vi_dim ?s = vi_dim ix0 \<and> vi_rotation ?s = vi_rotation ix0"
    by (rule fold_store_entry) (use vi_ids_distinct [OF assms(1)] t(1,2) in simp_all)
  then have f: "vi_ok ?s" "vi_vectors ?s = vi_vectors ix" "vi_id_by_index ?s = vi_id_by_index ix" "vi_dim ?s = vi_dim ix" "vi_rotation ?s = vi_rotation ix"
    using t(1) assms(4,5) by auto
  then have "?s = ix" using vi_ok_determined [OF f(1) assms(1) f(3)] by simp
  then show ?thesis using load_saved [OF assms(1,2,4)] assms(3) by simp
qed

text \<open>The sizes of a file, read off the lengths alone.\<close>

lemma file_sized_lengths:
  "file_sized ix \<longleftrightarrow> length (vi_vectors ix) \<le> 10000000 \<and> unat (vi_dim ix) < 2 ^ 32 \<and>
     list_all (\<lambda>l. fst l < 2 ^ 32 \<and> snd l = packed_len (vi_dim ix))
       (map (\<lambda>e. (length (fst e), length (qv_packed (snd e)))) (zip (vi_id_by_index ix) (vi_vectors ix)))"
  by (simp add: file_sized_def entry_ok_def [abs_def] list.pred_map comp_def)

lemma demo_store_sizes:
  "vi_dim demo_store = 1" "length (vi_vectors demo_store) = 2" "packed_len 1 = 1"
  "map (\<lambda>e. (length (fst e), length (qv_packed (snd e)))) (zip (vi_id_by_index demo_store) (vi_vectors demo_store)) = [(1, 1), (1, 1)]"
  by code_simp+

theorem index_save_load_witness: "load_index (Some (save_index demo_store)) (cleared demo_store) = (True, demo_store)"
proof -
  have "file_sized demo_store" by (simp add: file_sized_lengths demo_store_sizes)
  moreover have "list_all id_loadable (vi_id_by_index demo_store)" by code_simp
  ultimately show ?thesis using index_save_load [OF demo_store_ok, of "cleared demo_store"] by (simp add: cleared_def)
qed

text \<open>
  A single identifier that is empty or longer than 4096 bytes is accepted by \<open>add\<close> and written by \<open>save\<close>, but
  makes the whole file unreadable: \<open>load\<close> fails and leaves the index empty.
\<close>

theorem index_unloadable_id:
  assumes "vi_ok ix" and "file_sized ix" and "vid \<in> set (vi_id_by_index ix)" and "vid = [] \<or> 4096 < length vid"
    and "vi_dim ix0 = vi_dim ix"
  shows "load_index (Some (save_index ix)) ix0 = (False, cleared ix0)"
proof -
  have "\<not> list_all id_loadable (vi_id_by_index ix)" using assms(3,4) unfolding list_all_iff id_loadable_def by (metis not_less)
  then show ?thesis using load_saved [OF assms(1,2,5)] by simp
qed

definition demo_unnamed :: vector_index where
  "demo_unnamed = vi_add demo_floats [] [f_one] demo_store"

theorem index_unloadable_id_witness: "load_index (Some (save_index demo_unnamed)) demo_unnamed = (False, cleared demo_unnamed)"
proof -
  have "vi_ok demo_unnamed" unfolding demo_unnamed_def by (rule vi_add_refines(1) [OF demo_store_ok]) (simp add: demo_store_sizes)
  moreover have "length (vi_vectors demo_unnamed) = 3" "vi_dim demo_unnamed = 1"
    "map (\<lambda>e. (length (fst e), length (qv_packed (snd e)))) (zip (vi_id_by_index demo_unnamed) (vi_vectors demo_unnamed)) = [(1, 1), (1, 1), (0, 1)]"
    by code_simp+
  then have "file_sized demo_unnamed" by (simp add: file_sized_lengths demo_store_sizes)
  moreover have "[] \<in> set (vi_id_by_index demo_unnamed)" by code_simp
  ultimately show ?thesis using index_unloadable_id [of demo_unnamed "[]" demo_unnamed] by simp
qed

end
