(* ===== verification/Vector_IVF.thy ===== *)
theory Vector_IVF
  imports Vector_Index
begin

text \<open>
  The partitioned vector index (\<open>vector/turboquant_ivf.hpp\<close>, \<open>turboquant_ivf.cpp\<close>): coarse centroids with posting
  lists of positions over the flat index of theory \<open>Vector_Index\<close>, spherical k-means training, and a search that probes the clusters
  nearest to the query.

  The generator's draws are the argument \<open>gauss\<close> as in the flat index; \<open>std::partial_sort\<close> is the argument
  \<open>psort\<close>. Reads past the end of a vector, a centroid or a mask are the errors \<open>VectorOverrun\<close> and \<open>Flat MaskOverrun\<close>.
\<close>

unbundle bit_operations_syntax

section \<open>Clusters\<close>

record ivf_cluster =
  centroid :: "f32 list"
  member_indices :: "u32 list"

record ivf_index =
  iv_dim :: size_t
  iv_num_clusters :: nat
  iv_trained :: bool
  iv_base :: vector_index
  iv_clusters :: "ivf_cluster list"
  iv_assignment :: "string \<rightharpoonup> nat"

datatype ivf_error = VectorOverrun | Flat index_error

definition scaled :: "float_ops \<Rightarrow> f32 \<Rightarrow> f32 list \<Rightarrow> f32 list" where
  "scaled F degenerate xs =
     (let norm_sq = dot F xs xs;
          inv_norm = (if f32_lt 0x322BCC77 norm_sq then f_div F f_one (f_sqrt F norm_sq) else degenerate)
      in map (\<lambda>x. f_mul F x inv_norm) xs)"

definition init_centroids :: "float_ops \<Rightarrow> (u32 \<Rightarrow> nat \<Rightarrow> f32) \<Rightarrow> nat \<Rightarrow> nat \<Rightarrow> u32 \<Rightarrow> ivf_cluster list" where
  "init_centroids F gauss d n seed =
     map (\<lambda>c. \<lparr>centroid = scaled F f_zero (map (\<lambda>k. gauss seed (c * d + k)) [0..<d]), member_indices = []\<rparr>) [0..<n]"

definition new_ivf :: "float_ops \<Rightarrow> (u32 \<Rightarrow> nat \<Rightarrow> f32) \<Rightarrow> size_t \<Rightarrow> nat \<Rightarrow> u32 \<Rightarrow> ivf_index" where
  "new_ivf F gauss d num_clusters seed =
     \<lparr>iv_dim = d, iv_num_clusters = max 2 num_clusters, iv_trained = False, iv_base = new_vector_index F gauss d seed,
      iv_clusters = init_centroids F gauss (unat d) (max 2 num_clusters) seed, iv_assignment = Map.empty\<rparr>"

text \<open>The AVX2 dot product with one accumulator; the lanes are added from left to right.\<close>

definition centroid_dot :: "float_ops \<Rightarrow> nat \<Rightarrow> f32 list \<Rightarrow> f32 list \<Rightarrow> ivf_error + f32" where
  "centroid_dot F d vec cent =
     (if length vec < d \<or> length cent < d then Inl VectorOverrun
      else case lane_rounds F (take d vec) (take d cent) (replicate 8 f_zero) of (acc, v, k) \<Rightarrow>
             Inr (foldl (\<lambda>s p. f_add F s (f_mul F (fst p) (snd p))) (foldl (f_add F) (hd acc) (tl acc)) (zip v k)))"

fun closest_from :: "float_ops \<Rightarrow> nat \<Rightarrow> f32 list \<Rightarrow> nat \<Rightarrow> ivf_cluster list \<Rightarrow> f32 \<Rightarrow> nat \<Rightarrow> ivf_error + nat" where
  "closest_from F d vec c [] best_sim best_c = Inr best_c"
| "closest_from F d vec c (cl # cls) best_sim best_c =
     (case centroid_dot F d vec (centroid cl) of
        Inl e \<Rightarrow> Inl e
      | Inr s \<Rightarrow> if f32_lt best_sim s then closest_from F d vec (Suc c) cls s c else closest_from F d vec (Suc c) cls best_sim best_c)"

definition find_closest_centroid :: "float_ops \<Rightarrow> nat \<Rightarrow> ivf_cluster list \<Rightarrow> f32 list \<Rightarrow> ivf_error + nat" where
  "find_closest_centroid F d clusters vec = closest_from F d vec 0 clusters 0xCE6E6B28 0"

fun score_clusters :: "float_ops \<Rightarrow> nat \<Rightarrow> f32 list \<Rightarrow> nat \<Rightarrow> ivf_cluster list \<Rightarrow> ivf_error + (f32 \<times> nat) list" where
  "score_clusters F d vec c [] = Inr []"
| "score_clusters F d vec c (cl # cls) =
     (case centroid_dot F d vec (centroid cl) of
        Inl e \<Rightarrow> Inl e
      | Inr s \<Rightarrow> (case score_clusters F d vec (Suc c) cls of Inl e \<Rightarrow> Inl e | Inr rest \<Rightarrow> Inr ((s, c) # rest)))"

definition find_top_centroids ::
  "float_ops \<Rightarrow> (nat \<Rightarrow> (f32 \<times> nat) list \<Rightarrow> (f32 \<times> nat) list) \<Rightarrow> nat \<Rightarrow> ivf_cluster list \<Rightarrow> f32 list \<Rightarrow> nat \<Rightarrow> ivf_error + nat list" where
  "find_top_centroids F psort d clusters vec nprobe0 =
     (let nprobe = min nprobe0 (length clusters)
      in case score_clusters F d vec 0 clusters of
           Inl e \<Rightarrow> Inl e
         | Inr scored \<Rightarrow> Inr (map snd (take nprobe (psort nprobe scored))))"

section \<open>Insertion, removal and search\<close>

text \<open>The position recorded in the posting list is the number of active vectors before the insertion.\<close>

definition ivf_add :: "float_ops \<Rightarrow> string \<Rightarrow> f32 list \<Rightarrow> ivf_index \<Rightarrow> ivf_error + ivf_index" where
  "ivf_add F vid vec iv =
     (let internal_idx = (word_of_nat (vi_size (iv_base iv)) :: u32);
          iv1 = iv\<lparr>iv_base := vi_add F vid vec (iv_base iv)\<rparr>
      in case find_closest_centroid F (unat (iv_dim iv)) (iv_clusters iv) (padded (iv_dim iv) vec) of
           Inl e \<Rightarrow> Inl e
         | Inr c \<Rightarrow>
             Inr (iv1\<lparr>iv_clusters := (iv_clusters iv)[c := (iv_clusters iv ! c)\<lparr>member_indices := member_indices (iv_clusters iv ! c) @ [internal_idx]\<rparr>],
                      iv_assignment := (iv_assignment iv)(vid \<mapsto> c)\<rparr>))"

definition ivf_remove :: "string \<Rightarrow> ivf_index \<Rightarrow> bool \<times> ivf_index" where
  "ivf_remove vid iv = (case vi_remove vid (iv_base iv) of (r, b) \<Rightarrow> (r, iv\<lparr>iv_base := b\<rparr>))"

definition ivf_size :: "ivf_index \<Rightarrow> nat" where
  "ivf_size iv = vi_size (iv_base iv)"

definition cluster_mask :: "nat \<Rightarrow> ivf_cluster list \<Rightarrow> nat list \<Rightarrow> u64 list" where
  "cluster_mask total_vecs clusters top_clusters =
     fold (\<lambda>c m. fold (\<lambda>i m. if unat i < total_vecs then set_mask_bit (unat i) m else m) (member_indices (clusters ! c)) m) top_clusters
       (replicate ((total_vecs + 63) div 64) 0)"

definition and_masks :: "u64 list \<Rightarrow> u64 list \<Rightarrow> ivf_error + u64 list" where
  "and_masks m allow = (if length allow < length m then Inl (Flat MaskOverrun) else Inr (map (\<lambda>p. fst p AND snd p) (zip m allow)))"

definition flat_search :: "float_ops \<Rightarrow> vector_index \<Rightarrow> f32 list \<Rightarrow> nat \<Rightarrow> u64 list option \<Rightarrow> ivf_error + index_hit list" where
  "flat_search F ix query_vec top_k allow = map_sum Flat (\<lambda>hits. hits) (vi_search F ix query_vec top_k allow)"

definition ivf_search ::
  "float_ops \<Rightarrow> (nat \<Rightarrow> (f32 \<times> nat) list \<Rightarrow> (f32 \<times> nat) list) \<Rightarrow> ivf_index \<Rightarrow> f32 list \<Rightarrow> nat \<Rightarrow> nat \<Rightarrow> u64 list option \<Rightarrow> ivf_error + index_hit list" where
  "ivf_search F psort iv query_vec top_k nprobe allow =
     (let total_vecs = vi_size (iv_base iv)
      in if total_vecs = 0 \<or> top_k = 0 then Inr []
         else if total_vecs < 500 \<or> length (iv_clusters iv) \<le> nprobe then flat_search F (iv_base iv) query_vec top_k allow
         else case find_top_centroids F psort (unat (iv_dim iv)) (iv_clusters iv) (padded (iv_dim iv) query_vec) nprobe of
                Inl e \<Rightarrow> Inl e
              | Inr top_clusters \<Rightarrow>
                  (case (case allow of None \<Rightarrow> Inr (cluster_mask total_vecs (iv_clusters iv) top_clusters)
                         | Some a \<Rightarrow> and_masks (cluster_mask total_vecs (iv_clusters iv) top_clusters) a) of
                     Inl e \<Rightarrow> Inl e
                   | Inr m \<Rightarrow> flat_search F (iv_base iv) query_vec top_k (Some m)))"

section \<open>Training\<close>

definition f32_abs :: "f32 \<Rightarrow> f32" where
  "f32_abs x = x AND 0x7FFFFFFF"

fun kmeans_assign ::
  "float_ops \<Rightarrow> nat \<Rightarrow> ivf_cluster list \<Rightarrow> f32 list list \<Rightarrow> f32 list list \<times> nat list \<Rightarrow> ivf_error + f32 list list \<times> nat list" where
  "kmeans_assign F d clusters [] acc = Inr acc"
| "kmeans_assign F d clusters (vec # vecs) (sums, counts) =
     (case find_closest_centroid F d clusters vec of
        Inl e \<Rightarrow> Inl e
      | Inr c \<Rightarrow>
          if length vec < d then Inl VectorOverrun
          else kmeans_assign F d clusters vecs
                 (sums[c := map (\<lambda>p. f_add F (fst p) (snd p)) (zip (sums ! c) vec)], counts[c := Suc (counts ! c)]))"

text \<open>The update of the non-empty clusters in order, with the largest shift of a coordinate.\<close>

fun kmeans_update :: "float_ops \<Rightarrow> nat \<Rightarrow> ivf_cluster list \<Rightarrow> f32 list list \<Rightarrow> nat list \<Rightarrow> f32 \<Rightarrow> ivf_cluster list \<times> f32" where
  "kmeans_update F d (cl # cls) (nc # ncs) (n # ns) max_shift =
     (if n = 0 then (case kmeans_update F d cls ncs ns max_shift of (cls', m) \<Rightarrow> (cl # cls', m))
      else
        let updated = scaled F f_one nc;
            shift = foldl (\<lambda>m p. f32_max m (f32_abs (f_sub F (fst p) (snd p)))) max_shift (zip updated (centroid cl))
        in case kmeans_update F d cls ncs ns shift of (cls', m) \<Rightarrow> (cl\<lparr>centroid := updated @ drop d (centroid cl)\<rparr> # cls', m))"
| "kmeans_update F d cls ncs ns max_shift = (cls, max_shift)"

fun kmeans :: "float_ops \<Rightarrow> nat \<Rightarrow> f32 list list \<Rightarrow> nat \<Rightarrow> ivf_cluster list \<Rightarrow> ivf_error + ivf_cluster list" where
  "kmeans F d vecs 0 clusters = Inr clusters"
| "kmeans F d vecs (Suc iters) clusters =
     (case kmeans_assign F d clusters vecs (replicate (length clusters) (replicate d f_zero), replicate (length clusters) 0) of
        Inl e \<Rightarrow> Inl e
      | Inr (sums, counts) \<Rightarrow>
          (case kmeans_update F d clusters sums counts f_zero of
             (clusters', max_shift) \<Rightarrow> if f32_lt max_shift 0x38D1B717 then Inr clusters' else kmeans F d vecs iters clusters'))"

definition ivf_train :: "float_ops \<Rightarrow> f32 list list \<Rightarrow> nat \<Rightarrow> ivf_index \<Rightarrow> ivf_error + ivf_index" where
  "ivf_train F training_vectors max_iters iv =
     (if training_vectors = [] then Inr iv
      else
        let k = min (iv_num_clusters iv) (length training_vectors);
            clusters = map (\<lambda>v. \<lparr>centroid = scaled F f_one v, member_indices = []\<rparr>) (take k training_vectors)
        in case kmeans F (unat (iv_dim iv)) training_vectors max_iters clusters of
             Inl e \<Rightarrow> Inl e
           | Inr cls \<Rightarrow> Inr (iv\<lparr>iv_clusters := cls, iv_trained := True\<rparr>))"

section \<open>Insertion keeps the posting lists\<close>

lemma dot_length: "length (scaled F e xs) = length xs"
  by (simp add: scaled_def Let_def)

lemma centroid_dot_Inr: "d \<le> length vec \<Longrightarrow> length cent = d \<Longrightarrow> \<exists>s. centroid_dot F d vec cent = Inr s"
  by (cases "lane_rounds F (take d vec) (take d cent) (replicate 8 f_zero)") (simp add: centroid_dot_def)

lemma closest_from_range:
  assumes "d \<le> length vec" and "\<forall>cl\<in>set cls. length (centroid cl) = d"
  shows "\<exists>r. closest_from F d vec c cls sim b = Inr r \<and> (r = b \<or> c \<le> r \<and> r < c + length cls)"
  using assms(1,2)
proof (induction cls arbitrary: c sim b)
  case (Cons cl cls)
  obtain s where s: "centroid_dot F d vec (centroid cl) = Inr s"
    using centroid_dot_Inr Cons.prems by fastforce
  show ?case
    using Cons.IH [of "Suc c" s c] Cons.IH [of "Suc c" sim b] Cons.prems s by auto
qed simp

lemma find_closest_centroid_range:
  assumes "d \<le> length vec" and "\<forall>cl\<in>set cls. length (centroid cl) = d" and "cls \<noteq> []"
  shows "\<exists>c. find_closest_centroid F d cls vec = Inr c \<and> c < length cls"
  using closest_from_range [OF assms(1,2), of F 0 "0xCE6E6B28" 0] assms(3) unfolding find_closest_centroid_def by auto

lemma score_clusters_all:
  assumes "d \<le> length vec" and "\<forall>cl\<in>set cls. length (centroid cl) = d"
  shows "\<exists>xs. score_clusters F d vec c cls = Inr xs \<and> map snd xs = [c..<c + length cls]"
  using assms
proof (induction cls arbitrary: c)
  case (Cons cl cls)
  obtain s where s: "centroid_dot F d vec (centroid cl) = Inr s"
    using centroid_dot_Inr Cons.prems by fastforce
  obtain xs where "score_clusters F d vec (Suc c) cls = Inr xs" "map snd xs = [Suc c..<Suc c + length cls]"
    using Cons.IH [of "Suc c"] Cons.prems by auto
  then show ?case using s upt_conv_Cons [of c "c + length (cl # cls)"] by simp
qed simp

lemma find_top_centroids_probes:
  assumes "d \<le> length vec" and "\<forall>cl\<in>set cls. length (centroid cl) = d" and "\<And>n xs. mset (psort n xs) = mset xs" and "n \<le> length cls"
  shows "\<exists>probed. find_top_centroids F psort d cls vec n = Inr probed \<and> length probed = n \<and> distinct probed \<and> set probed \<subseteq> {..<length cls}"
proof -
  obtain xs where xs: "score_clusters F d vec 0 cls = Inr xs" "map snd xs = [0..<length cls]"
    using score_clusters_all [OF assms(1,2), of F 0] by auto
  have m: "mset (map snd (psort n xs)) = mset [0..<length cls]" using assms(3) [of n xs] xs(2) by (metis mset_map)
  then have "distinct (map snd (psort n xs))" "set (map snd (psort n xs)) = {..<length cls}" "length (psort n xs) = length cls"
    using mset_eq_imp_distinct_iff [OF m] mset_eq_setD [OF m] mset_eq_length [OF m] by (simp_all add: atLeast0LessThan)
  then have "distinct (take n (map snd (psort n xs)))" "set (take n (map snd (psort n xs))) \<subseteq> {..<length cls}" "length (take n (psort n xs)) = n"
    using set_take_subset [of n "map snd (psort n xs)"] assms(4) by (blast intro: distinct_take, blast, simp)
  then show ?thesis using xs(1) assms(4) by (simp add: find_top_centroids_def take_map)
qed

text \<open>What holds as long as identifiers are only inserted: each cluster lists exactly the positions assigned to it.\<close>

definition ivf_ok :: "ivf_index \<Rightarrow> bool" where
  "ivf_ok iv \<longleftrightarrow> vi_ok (iv_base iv) \<and> vi_dim (iv_base iv) = iv_dim iv \<and> list_all qv_active (vi_vectors (iv_base iv)) \<and>
     iv_clusters iv \<noteq> [] \<and> (\<forall>cl\<in>set (iv_clusters iv). length (centroid cl) = unat (iv_dim iv)) \<and>
     (\<forall>c<length (iv_clusters iv). unat ` set (member_indices (iv_clusters iv ! c)) =
        {i. i < length (vi_vectors (iv_base iv)) \<and> iv_assignment iv (vi_id_by_index (iv_base iv) ! i) = Some c})"

lemma ivf_ok_size: "ivf_ok iv \<Longrightarrow> vi_size (iv_base iv) = length (vi_vectors (iv_base iv))"
  by (simp add: ivf_ok_def vi_size_def list_all_iff filter_True)

lemma ivf_ok_new: "ivf_ok (new_ivf F gauss d n seed)"
  using vi_ok_new [of F gauss d seed]
  by (auto simp: ivf_ok_def new_ivf_def init_centroids_def dot_length new_vector_index_def)

lemma length_padded [simp]: "length (padded d vec) = unat d"
  by (simp add: padded_def)

lemma vi_add_fresh:
  "vi_index_by_id ix vid = None \<Longrightarrow> vi_vectors (vi_add F vid vec ix) = vi_vectors ix @ [quantize F ix vec]"
  "vi_index_by_id ix vid = None \<Longrightarrow> vi_id_by_index (vi_add F vid vec ix) = vi_id_by_index ix @ [vid]"
  by (simp_all add: vi_add_def Let_def)

lemma vi_fresh_iff: "vi_ok ix \<Longrightarrow> vi_index_by_id ix vid = None \<longleftrightarrow> vid \<notin> set (vi_id_by_index ix)"
  by (metis in_set_conv_nth not_None_eq vi_ok_at vi_ok_table(1,3))

lemma ivf_add_ok:
  assumes ok: "ivf_ok iv" and fresh: "vid \<notin> set (vi_id_by_index (iv_base iv))" and len: "length (vi_vectors (iv_base iv)) < 2 ^ 32"
  shows "\<exists>iv'. ivf_add F vid vec iv = Inr iv' \<and> ivf_ok iv' \<and> iv_base iv' = vi_add F vid vec (iv_base iv) \<and>
    iv_dim iv' = iv_dim iv \<and> length (iv_clusters iv') = length (iv_clusters iv)"
proof -
  let ?b = "iv_base iv" and ?n = "length (vi_vectors (iv_base iv))"
  have b: "vi_ok ?b" "list_all qv_active (vi_vectors ?b)" "vi_dim ?b = iv_dim iv"
    and cl: "iv_clusters iv \<noteq> []" "\<forall>cl\<in>set (iv_clusters iv). length (centroid cl) = unat (iv_dim iv)"
    and mem: "\<And>c. c < length (iv_clusters iv) \<Longrightarrow> unat ` set (member_indices (iv_clusters iv ! c)) =
        {i. i < ?n \<and> iv_assignment iv (vi_id_by_index ?b ! i) = Some c}"
    using ok by (auto simp: ivf_ok_def)
  obtain c where c: "find_closest_centroid F (unat (iv_dim iv)) (iv_clusters iv) (padded (iv_dim iv) vec) = Inr c" "c < length (iv_clusters iv)"
    using find_closest_centroid_range [of "unat (iv_dim iv)" "padded (iv_dim iv) vec", OF _ cl(2,1)] by auto
  have none: "vi_index_by_id ?b vid = None" using vi_fresh_iff [OF b(1)] fresh by simp
  have n: "unat (word_of_nat ?n :: u32) = ?n" by (rule unat_of_nat_u32 [OF len])
  have ids: "length (vi_id_by_index ?b) = ?n" by (rule vi_ok_table(1) [OF b(1)])
  have ne: "vi_id_by_index ?b ! i \<noteq> vid" if "i < ?n" for i using fresh ids that by (metis nth_mem)
  let ?cls = "(iv_clusters iv)[c := (iv_clusters iv ! c)\<lparr>member_indices := member_indices (iv_clusters iv ! c) @ [word_of_nat ?n]\<rparr>]"
  have m: "unat ` set (member_indices (?cls ! x)) =
      {i. i < Suc ?n \<and> ((iv_assignment iv)(vid \<mapsto> c)) ((vi_id_by_index ?b @ [vid]) ! i) = Some x}"
    if "x < length (iv_clusters iv)" for x
  proof -
    have split: "i < Suc ?n \<longleftrightarrow> i < ?n \<or> i = ?n" for i by auto
    have "{i. i < Suc ?n \<and> ((iv_assignment iv)(vid \<mapsto> c)) ((vi_id_by_index ?b @ [vid]) ! i) = Some x} =
        {i. i < ?n \<and> iv_assignment iv (vi_id_by_index ?b ! i) = Some x} \<union> (if x = c then {?n} else {})"
      unfolding split using ne ids by (auto simp: nth_append)
    then show ?thesis using mem [OF that] that c(2) n by (cases "x = c") auto
  qed
  have cen: "\<forall>cl\<in>set ?cls. length (centroid cl) = unat (iv_dim iv)"
    using cl(2) c(2) by (auto simp: set_update_subsetI dest!: set_update_subset_insert [THEN subsetD])
  show ?thesis
    using vi_add_refines(1) [OF b(1) len, of F vid vec] b m c cen cl(1) vi_add_fresh [OF none, of F vec] ids
    by (simp add: ivf_add_def Let_def ivf_ok_size [OF ok] ivf_ok_def)
qed

section \<open>Probing is an allow-listed search\<close>

text \<open>The mask of the positions below \<open>n\<close> with a property is unique.\<close>

definition mask_is :: "nat \<Rightarrow> (nat \<Rightarrow> bool) \<Rightarrow> u64 list \<Rightarrow> bool" where
  "mask_is n P m \<longleftrightarrow> length m = (n + 63) div 64 \<and> (\<forall>j<64 * length m. bit (m ! (j div 64)) (j mod 64) \<longleftrightarrow> j < n \<and> P j)"

lemma mask_is_unique:
  assumes "mask_is n P m" "mask_is n Q m'" "\<And>j. j < n \<Longrightarrow> P j \<longleftrightarrow> Q j"
  shows "m = m'"
proof (rule nth_equalityI)
  show "length m = length m'" using assms(1,2) by (simp add: mask_is_def)
  fix w
  assume w: "w < length m"
  show "m ! w = m' ! w"
  proof (rule bit_word_eqI)
    fix b
    assume "b < LENGTH(64)"
    then have "(64 * w + b) div 64 = w" "(64 * w + b) mod 64 = b" "64 * w + b < 64 * length m" using w by auto
    then show "bit (m ! w) b \<longleftrightarrow> bit (m' ! w) b" using assms unfolding mask_is_def by metis
  qed
qed

lemma mask_is_fold:
  assumes "set ps \<subseteq> {..<n}"
  shows "mask_is n (\<lambda>j. j \<in> set ps) (fold set_mask_bit ps (replicate ((n + 63) div 64) 0))"
  using assms
proof (induction ps rule: rev_induct)
  case (snoc p ps)
  let ?m = "fold set_mask_bit ps (replicate ((n + 63) div 64) 0)"
  have IH: "mask_is n (\<lambda>j. j \<in> set ps) ?m" using snoc by simp
  have "p < n" using snoc.prems by simp
  moreover have "length ?m = (n + 63) div 64" using IH by (simp add: mask_is_def)
  ultimately have "p div 64 < length ?m" by linarith
  from set_mask_bit_simps [OF this] show ?case using IH \<open>p < n\<close> by (auto simp: mask_is_def)
qed (simp add: mask_is_def)

lemma mask_is_and:
  assumes "mask_is n P m" "mask_is n Q m'"
  shows "mask_is n (\<lambda>j. P j \<and> Q j) (map (\<lambda>p. fst p AND snd p) (zip m m'))"
  using assms by (auto simp: mask_is_def bit_simps)

lemma mask_is_cluster_mask:
  "mask_is n (\<lambda>j. \<exists>c\<in>set cs. j \<in> unat ` set (member_indices (clusters ! c))) (cluster_mask n clusters cs)"
proof -
  let ?ps = "\<lambda>c. filter (\<lambda>i. i < n) (map unat (member_indices (clusters ! c)))"
  have inner: "fold (\<lambda>i m. if unat i < n then set_mask_bit (unat i) m else m) is = fold set_mask_bit (filter (\<lambda>i. i < n) (map unat is))" for "is" :: "u32 list"
    by (induction "is") (auto simp: fun_eq_iff)
  have outer: "fold (\<lambda>c m. fold set_mask_bit (?ps c) m) cs m = fold set_mask_bit (concat (map ?ps cs)) m" for m
    by (induction cs arbitrary: m) auto
  have "cluster_mask n clusters cs = fold set_mask_bit (concat (map ?ps cs)) (replicate ((n + 63) div 64) 0)"
    unfolding cluster_mask_def inner by (rule outer)
  moreover have "mask_is n (\<lambda>j. j \<in> set (concat (map ?ps cs))) (fold set_mask_bit (concat (map ?ps cs)) (replicate ((n + 63) div 64) 0))"
    by (rule mask_is_fold) auto
  ultimately show ?thesis by (auto simp: mask_is_def)
qed

lemma mask_is_allowlist:
  assumes "vi_ok ix"
  shows "mask_is (length (vi_vectors ix)) (\<lambda>j. vi_id_by_index ix ! j \<in> set ids) (build_allowlist_mask ix ids)"
proof -
  let ?n = "length (vi_vectors ix)" and ?ps = "map unat (List.map_filter (vi_index_by_id ix) ids)"
  have "fold (\<lambda>vid allow. case vi_index_by_id ix vid of Some i \<Rightarrow> set_mask_bit (unat i) allow | None \<Rightarrow> allow) ids m = fold set_mask_bit ?ps m" for m
    by (induction ids arbitrary: m) (auto simp: map_filter_simps split: option.splits)
  then have b: "build_allowlist_mask ix ids = fold set_mask_bit ?ps (replicate ((?n + 63) div 64) 0)" if "?n \<noteq> 0"
    using that by (simp add: build_allowlist_mask_def)
  have "set ?ps = {i. i < ?n \<and> vi_id_by_index ix ! i \<in> set ids}"
  proof (intro set_eqI iffI)
    fix i
    assume "i \<in> set ?ps"
    then obtain vid w where "vid \<in> set ids" "vi_index_by_id ix vid = Some w" "i = unat w" by (force simp: map_filter_def)
    then show "i \<in> {i. i < ?n \<and> vi_id_by_index ix ! i \<in> set ids}" using vi_ok_table(3) [OF assms, of vid w] by auto
  next
    fix i
    assume "i \<in> {i. i < ?n \<and> vi_id_by_index ix ! i \<in> set ids}"
    then have i: "i < ?n" "vi_id_by_index ix ! i \<in> set ids" by auto
    have "unat (word_of_nat i :: u32) = i" using i(1) vi_ok_table(2) [OF assms] by (intro unat_of_nat_u32) simp
    then show "i \<in> set ?ps" using vi_ok_at [OF assms i(1)] i(2) by (force simp: map_filter_def)
  qed
  then have "mask_is ?n (\<lambda>j. vi_id_by_index ix ! j \<in> set ids) (fold set_mask_bit ?ps (replicate ((?n + 63) div 64) 0))"
    using mask_is_fold [of ?ps ?n] by (auto simp: mask_is_def)
  then show ?thesis using b by (cases "?n = 0") (auto simp: mask_is_def build_allowlist_mask_def)
qed

fun ivf_add_all :: "float_ops \<Rightarrow> (string \<times> f32 list) list \<Rightarrow> ivf_index \<Rightarrow> ivf_error + ivf_index" where
  "ivf_add_all F [] iv = Inr iv"
| "ivf_add_all F (e # es) iv = (case ivf_add F (fst e) (snd e) iv of Inl err \<Rightarrow> Inl err | Inr iv' \<Rightarrow> ivf_add_all F es iv')"

lemma ivf_add_all_ok:
  assumes "ivf_ok iv" and "distinct (map fst es)" and "set (map fst es) \<inter> set (vi_id_by_index (iv_base iv)) = {}"
    and "length (vi_vectors (iv_base iv)) + length es \<le> 2 ^ 32"
  shows "\<exists>iv'. ivf_add_all F es iv = Inr iv' \<and> ivf_ok iv' \<and> vi_id_by_index (iv_base iv') = vi_id_by_index (iv_base iv) @ map fst es \<and>
    length (iv_clusters iv') = length (iv_clusters iv) \<and> iv_dim iv' = iv_dim iv \<and> vi_rotation (iv_base iv') = vi_rotation (iv_base iv)"
  using assms
proof (induction es arbitrary: iv)
  case (Cons e es)
  have ok: "vi_ok (iv_base iv)" using Cons.prems(1) by (simp add: ivf_ok_def)
  have f: "fst e \<notin> set (vi_id_by_index (iv_base iv))" using Cons.prems(3) by auto
  obtain iv1 where a: "ivf_add F (fst e) (snd e) iv = Inr iv1" "ivf_ok iv1" "iv_base iv1 = vi_add F (fst e) (snd e) (iv_base iv)"
    "iv_dim iv1 = iv_dim iv" "length (iv_clusters iv1) = length (iv_clusters iv)"
    using ivf_add_ok [OF Cons.prems(1) f, of F "snd e"] Cons.prems(4) by auto
  note fr = vi_add_fresh [OF vi_fresh_iff [OF ok, THEN iffD2, OF f], of F "snd e"]
  show ?case using Cons.IH [OF a(2)] Cons.prems a fr by (auto simp: a(3))
qed simp

lemma ivf_search_probing:
  assumes "500 \<le> vi_size (iv_base iv)" "nprobe < length (iv_clusters iv)" "0 < top_k"
    and "find_top_centroids F psort (unat (iv_dim iv)) (iv_clusters iv) (padded (iv_dim iv) query) nprobe = Inr probed"
    and "(case allow of None \<Rightarrow> Inr (cluster_mask (vi_size (iv_base iv)) (iv_clusters iv) probed)
       | Some a \<Rightarrow> and_masks (cluster_mask (vi_size (iv_base iv)) (iv_clusters iv) probed) a) = Inr m"
  shows "ivf_search F psort iv query top_k nprobe allow = flat_search F (iv_base iv) query top_k (Some m)"
proof -
  have "vi_size (iv_base iv) \<noteq> 0" "\<not> vi_size (iv_base iv) < 500" "\<not> length (iv_clusters iv) \<le> nprobe" "top_k \<noteq> 0"
    using assms(1-3) by auto
  then show ?thesis unfolding ivf_search_def Let_def assms(4) using assms(5) by simp
qed

text \<open>
  Probing: after inserting at least 500 distinct identifiers, a search that probes fewer clusters than there are
  is exactly the exhaustive search restricted to the identifiers assigned to the probed clusters (and to the caller's
  allow list), for every partial sort that permutes its input.
\<close>

theorem ivf_search_is_allowlisted:
  assumes "distinct (map fst es)" and "500 \<le> length es" and "length es \<le> 2 ^ 32"
    and "nprobe < max 2 num_clusters" and "0 < top_k" and "\<And>n xs. mset (psort n xs) = mset xs"
  shows "\<exists>iv probed. ivf_add_all F es (new_ivf F gauss d num_clusters seed) = Inr iv \<and>
    find_top_centroids F psort (unat d) (iv_clusters iv) (padded d query) nprobe = Inr probed \<and>
    length probed = nprobe \<and> distinct probed \<and>
    ivf_search F psort iv query top_k nprobe (map_option (build_allowlist_mask (iv_base iv)) wanted) =
      flat_search F (iv_base iv) query top_k (Some (build_allowlist_mask (iv_base iv)
        (filter (\<lambda>vid. (\<exists>c\<in>set probed. iv_assignment iv vid = Some c) \<and> (case wanted of None \<Rightarrow> True | Some ids \<Rightarrow> vid \<in> set ids)) (map fst es))))"
proof -
  let ?new = "new_ivf F gauss d num_clusters seed"
  obtain iv where iv: "ivf_add_all F es ?new = Inr iv" "ivf_ok iv" "vi_id_by_index (iv_base iv) = map fst es"
      "length (iv_clusters iv) = max 2 num_clusters" "iv_dim iv = d"
    using ivf_add_all_ok [OF ivf_ok_new, of es F gauss d num_clusters seed F] assms(1,3)
    by (auto simp: new_ivf_def new_vector_index_def init_centroids_def)
  have ok: "vi_ok (iv_base iv)" and cen: "\<forall>cl\<in>set (iv_clusters iv). length (centroid cl) = unat d"
    and mem: "\<And>c. c < length (iv_clusters iv) \<Longrightarrow> unat ` set (member_indices (iv_clusters iv ! c)) =
        {i. i < length (vi_vectors (iv_base iv)) \<and> iv_assignment iv (vi_id_by_index (iv_base iv) ! i) = Some c}"
    using iv(2,5) by (auto simp: ivf_ok_def)
  have n: "length (vi_vectors (iv_base iv)) = length es" using vi_ok_table(1) [OF ok] iv(3) by simp
  obtain probed where p: "find_top_centroids F psort (unat d) (iv_clusters iv) (padded d query) nprobe = Inr probed"
      "length probed = nprobe" "distinct probed" "set probed \<subseteq> {..<length (iv_clusters iv)}"
    using find_top_centroids_probes [of "unat d" "padded d query" "iv_clusters iv" psort nprobe F, OF _ cen assms(6)] assms(4) iv(4) by auto
  let ?P = "\<lambda>vid. \<exists>c\<in>set probed. iv_assignment iv vid = Some c" and ?W = "\<lambda>vid. case wanted of None \<Rightarrow> True | Some ids \<Rightarrow> vid \<in> set ids"
  let ?t = "build_allowlist_mask (iv_base iv) (filter (\<lambda>vid. ?P vid \<and> ?W vid) (map fst es))"
  have cm: "mask_is (length es) (\<lambda>j. \<exists>c\<in>set probed. j \<in> unat ` set (member_indices (iv_clusters iv ! c))) (cluster_mask (length es) (iv_clusters iv) probed)"
    by (rule mask_is_cluster_mask)
  have al: "mask_is (length es) (\<lambda>j. map fst es ! j \<in> set ids) (build_allowlist_mask (iv_base iv) ids)" for ids
    using mask_is_allowlist [OF ok, of ids] n iv(3) by simp
  have pr: "(\<exists>c\<in>set probed. j \<in> unat ` set (member_indices (iv_clusters iv ! c))) \<longleftrightarrow> ?P (map fst es ! j)" if "j < length es" for j
    using mem p(4) that n iv(3) by (auto simp: subset_iff)
  have "map fst es ! j \<in> set (map fst es)" if "j < length es" for j using that by (metis length_map nth_mem)
  then have tgt: "(map fst es ! j \<in> set (filter (\<lambda>vid. ?P vid \<and> ?W vid) (map fst es))) \<longleftrightarrow> ?P (map fst es ! j) \<and> ?W (map fst es ! j)" if "j < length es" for j
    using that unfolding set_filter by blast
  have eq: "(case map_option (build_allowlist_mask (iv_base iv)) wanted of None \<Rightarrow> Inr (cluster_mask (length es) (iv_clusters iv) probed)
     | Some a \<Rightarrow> and_masks (cluster_mask (length es) (iv_clusters iv) probed) a) = Inr ?t"
  proof (cases wanted)
    case None
    have "cluster_mask (length es) (iv_clusters iv) probed = ?t"
      by (rule mask_is_unique [OF cm al]) (use pr tgt None in auto)
    then show ?thesis using None by simp
  next
    case (Some ids)
    have "map (\<lambda>p. fst p AND snd p) (zip (cluster_mask (length es) (iv_clusters iv) probed) (build_allowlist_mask (iv_base iv) ids)) = ?t"
      by (rule mask_is_unique [OF mask_is_and [OF cm al] al]) (use pr tgt Some in auto)
    moreover have "length (cluster_mask (length es) (iv_clusters iv) probed) = length (build_allowlist_mask (iv_base iv) ids)"
      using cm al [of ids] by (simp add: mask_is_def)
    ultimately show ?thesis using Some by (simp add: and_masks_def)
  qed
  have "ivf_search F psort iv query top_k nprobe (map_option (build_allowlist_mask (iv_base iv)) wanted) = flat_search F (iv_base iv) query top_k (Some ?t)"
  proof (rule ivf_search_probing)
    have sz: "vi_size (iv_base iv) = length es" using ivf_ok_size [OF iv(2)] n by simp
    then show "500 \<le> vi_size (iv_base iv)" using assms(2) by simp
    show "(case map_option (build_allowlist_mask (iv_base iv)) wanted of None \<Rightarrow> Inr (cluster_mask (vi_size (iv_base iv)) (iv_clusters iv) probed)
       | Some a \<Rightarrow> and_masks (cluster_mask (vi_size (iv_base iv)) (iv_clusters iv) probed) a) = Inr ?t" unfolding sz by (rule eq)
  qed (use p(1) assms(4,5) iv(4,5) in simp_all)
  then show ?thesis using iv(1) p(1-3) by blast
qed

definition demo_ids :: "nat \<Rightarrow> (string \<times> f32 list) list" where
  "demo_ids n = map (\<lambda>i. (replicate i CHR ''a'', [f_one])) [0..<n]"

lemma demo_ids_Nil: "0 < n \<Longrightarrow> [] \<in> set (map fst (demo_ids n))"
  by (force simp: demo_ids_def image_iff)

lemma demo_ids_simps [simp]: "length (demo_ids n) = n" "distinct (map fst (demo_ids n))"
proof -
  show "length (demo_ids n) = n" by (simp add: demo_ids_def)
  have "inj_on (\<lambda>i. replicate i CHR ''a'') (set [0..<n])" by (auto simp: inj_on_def)
  then show "distinct (map fst (demo_ids n))" by (simp add: demo_ids_def comp_def distinct_map)
qed

theorem ivf_search_is_allowlisted_witness:
  "\<exists>iv probed. ivf_add_all demo_floats (demo_ids 600) (new_ivf demo_floats (\<lambda>_ _. f_one) 1 4 42) = Inr iv \<and> length probed = 2 \<and>
    ivf_search demo_floats (\<lambda>n. stable_sort (desc_by fst)) iv [f_one] 3 2 None =
      flat_search demo_floats (iv_base iv) [f_one] 3 (Some (build_allowlist_mask (iv_base iv)
        (filter (\<lambda>vid. \<exists>c\<in>set probed. iv_assignment iv vid = Some c) (map fst (demo_ids 600)))))"
proof -
  have "mset (stable_sort (desc_by fst) xs) = mset xs" for xs :: "(f32 \<times> nat) list" by simp
  then show ?thesis
    using ivf_search_is_allowlisted [of "demo_ids 600" 2 4 3 "\<lambda>n. stable_sort (desc_by fst)" demo_floats "\<lambda>_ _. f_one" 1 42 "[f_one]" None]
    by auto
qed

lemma flat_search_overrun:
  assumes "vi_vectors ix \<noteq> []" "0 < top_k" "\<not> f32_lt (query_norm F ix query) 0x322BCC77" "64 * length m < length (vi_vectors ix)"
  shows "flat_search F ix query top_k (Some m) = Inl (Flat MaskOverrun)"
proof -
  have "scan (vector_score F (vi_dim ix) (rotated_query F ix query)) (Some m) 0 (vi_vectors ix) = Inl MaskOverrun"
    by (rule scan_overrun) (use assms(4) in \<open>auto simp: mask_covers_def\<close>)
  then show ?thesis using assms(1-3) by (simp add: flat_search_def vi_search_def query_norm_def rotated_query_def Let_def)
qed

lemma vi_remove_counts:
  assumes "vi_ok ix" and "list_all qv_active (vi_vectors ix)" and "vid \<in> set (vi_id_by_index ix)"
  shows "vi_size (snd (vi_remove vid ix)) = length (vi_vectors ix) - 1" "length (vi_vectors (snd (vi_remove vid ix))) = length (vi_vectors ix)"
proof -
  obtain w where w: "vi_index_by_id ix vid = Some w" using vi_fresh_iff [OF assms(1)] assms(3) by blast
  have d: "vi_lookup ix vid \<noteq> None" using w vi_ok_table(3) [OF assms(1), of vid w] assms(2) by (auto simp: vi_lookup_def list_all_length)
  have "vi_size (snd (vi_remove vid ix)) = card (dom (vi_lookup ix) - {vid})"
    using vi_size_card [OF vi_remove_refines(1) [OF assms(1)]] vi_remove_refines(2) [OF assms(1), of vid] by (simp add: dom_fun_upd)
  also have "\<dots> = card (dom (vi_lookup ix)) - 1" using d by (intro card_Diff_singleton) auto
  finally show "vi_size (snd (vi_remove vid ix)) = length (vi_vectors ix) - 1"
    using vi_size_card [OF assms(1)] assms(2) by (simp add: vi_size_def list_all_iff filter_True)
qed (rule vi_remove_refines(3) [OF assms(1)])

text \<open>
  C29. Removal breaks probing: after inserting \<open>n\<close> distinct identifiers and removing one of them, with \<open>n\<close> above 500
  and one more than a multiple of 64, the mask is sized by the remaining active vectors while the scan covers all slots, and every probing search reads one word past
  the end of the mask.
\<close>

theorem ivf_search_overruns_after_remove:
  assumes "distinct (map fst es)" and "length es mod 64 = 1" and "500 < length es" and "length es \<le> 2 ^ 32" and "vid \<in> set (map fst es)"
    and "nprobe < max 2 num_clusters" and "0 < top_k" and "\<And>n xs. mset (psort n xs) = mset xs"
    and "\<not> f32_lt (query_norm F (new_vector_index F gauss d seed) query) 0x322BCC77"
  shows "\<exists>iv. ivf_add_all F es (new_ivf F gauss d num_clusters seed) = Inr iv \<and>
    ivf_search F psort (snd (ivf_remove vid iv)) query top_k nprobe None = Inl (Flat MaskOverrun)"
proof -
  let ?new = "new_ivf F gauss d num_clusters seed"
  obtain iv where iv: "ivf_add_all F es ?new = Inr iv" "ivf_ok iv" "vi_id_by_index (iv_base iv) = map fst es"
      "length (iv_clusters iv) = max 2 num_clusters" "iv_dim iv = d" "vi_rotation (iv_base iv) = init_rotation_matrix F gauss (unat d) seed"
    using ivf_add_all_ok [OF ivf_ok_new, of es F gauss d num_clusters seed F] assms(1,4)
    by (auto simp: new_ivf_def new_vector_index_def init_centroids_def)
  let ?b = "snd (vi_remove vid (iv_base iv))"
  have ok: "vi_ok (iv_base iv)" "list_all qv_active (vi_vectors (iv_base iv))" "vi_dim (iv_base iv) = d"
    and cen: "\<forall>cl\<in>set (iv_clusters iv). length (centroid cl) = unat d" using iv(2,5) by (auto simp: ivf_ok_def)
  have n: "length (vi_vectors (iv_base iv)) = length es" using vi_ok_table(1) [OF ok(1)] iv(3) by simp
  have cnt: "vi_size ?b = length es - 1" "length (vi_vectors ?b) = length es"
    using vi_remove_counts [OF ok(1,2), of vid] assms(5) iv(3) n by auto
  obtain probed where p: "find_top_centroids F psort (unat d) (iv_clusters iv) (padded d query) nprobe = Inr probed"
    using find_top_centroids_probes [of "unat d" "padded d query" "iv_clusters iv" psort nprobe F, OF _ cen assms(8)] assms(6) iv(4) by auto
  have "length es = 64 * (length es div 64) + 1" using div_mult_mod_eq [of "length es" 64] assms(2) by simp
  then obtain q where "length es = 64 * q + 1" by blast
  then have "64 * ((62 + length es) div 64) < length es" by simp
  then have "64 * length (cluster_mask (length es - 1) (iv_clusters iv) probed) < length es"
    using mask_is_cluster_mask [of "length es - 1" probed "iv_clusters iv"] by (simp add: mask_is_def)
  moreover have "query_norm F ?b query = query_norm F (new_vector_index F gauss d seed) query"
    using ok(3) iv(6) by (simp add: query_norm_def rotated_query_def new_vector_index_def)
  ultimately have "flat_search F ?b query top_k (Some (cluster_mask (length es - 1) (iv_clusters iv) probed)) = Inl (Flat MaskOverrun)"
    by (intro flat_search_overrun) (use assms(3,7,9) cnt(2) in auto)
  moreover have "ivf_search F psort (iv\<lparr>iv_base := ?b\<rparr>) query top_k nprobe None =
      flat_search F (iv_base (iv\<lparr>iv_base := ?b\<rparr>)) query top_k (Some (cluster_mask (length es - 1) (iv_clusters iv) probed))"
    by (rule ivf_search_probing) (use p assms(3,6,7) iv(4,5) cnt(1) in simp_all)
  ultimately have "ivf_search F psort (iv\<lparr>iv_base := ?b\<rparr>) query top_k nprobe None = Inl (Flat MaskOverrun)" by simp
  then show ?thesis using iv(1) by (auto simp: ivf_remove_def split: prod.splits)
qed

theorem ivf_search_overruns_after_remove_witness:
  "\<exists>iv. ivf_add_all demo_floats (demo_ids 513) (new_ivf demo_floats (\<lambda>_ _. f_one) 1 4 42) = Inr iv \<and>
    ivf_search demo_floats (\<lambda>n. stable_sort (desc_by fst)) (snd (ivf_remove [] iv)) [f_one] 3 2 None = Inl (Flat MaskOverrun)"
proof -
  have m: "mset (stable_sort (desc_by fst) xs) = mset xs" for xs :: "(f32 \<times> nat) list" by simp
  have q: "\<not> f32_lt (query_norm demo_floats (new_vector_index demo_floats (\<lambda>_ _. f_one) 1 42) [f_one]) 0x322BCC77" by code_simp
  have "[] \<in> set (map fst (demo_ids 513))" by (rule demo_ids_Nil) simp
  then show ?thesis
    using ivf_search_overruns_after_remove [of "demo_ids 513" "[]" 2 4 3 "\<lambda>n. stable_sort (desc_by fst)" demo_floats "\<lambda>_ _. f_one" 1 42 "[f_one]"] m q
    by auto
qed

section \<open>Training\<close>

lemma kmeans_assign_ok:
  assumes "\<forall>cl\<in>set cls. length (centroid cl) = d" "cls \<noteq> []" "\<forall>v\<in>set vecs. length v = d"
    and "\<forall>x\<in>set sums. length x = d" "length sums = length cls" "length counts = length cls"
  shows "\<exists>sums' counts'. kmeans_assign F d cls vecs (sums, counts) = Inr (sums', counts') \<and>
    (\<forall>x\<in>set sums'. length x = d) \<and> length sums' = length cls \<and> length counts' = length cls"
  using assms(3-)
proof (induction vecs arbitrary: sums counts)
  case (Cons v vecs)
  obtain c where c: "find_closest_centroid F d cls v = Inr c" "c < length cls"
    using find_closest_centroid_range [of d v cls F] assms(1,2) Cons.prems(1) by auto
  have "length (sums ! c) = d" using Cons.prems c(2) by simp
  then have "\<forall>x\<in>set (sums[c := map (\<lambda>p. f_add F (fst p) (snd p)) (zip (sums ! c) v)]). length x = d"
    using Cons.prems(1,2) by (auto dest!: set_update_subset_insert [THEN subsetD])
  then show ?case using Cons.IH [of "sums[c := map (\<lambda>p. f_add F (fst p) (snd p)) (zip (sums ! c) v)]" "counts[c := Suc (counts ! c)]"] Cons.prems c
    by simp
qed simp

lemma kmeans_update_frame:
  "map member_indices (fst (kmeans_update F d cls ncs ns m)) = map member_indices cls"
  by (induction F d cls ncs ns m rule: kmeans_update.induct) (auto simp: Let_def split: prod.splits)

lemma kmeans_update_centroids:
  "\<forall>cl\<in>set cls. length (centroid cl) = d \<Longrightarrow> \<forall>x\<in>set ncs. length x = d \<Longrightarrow>
   \<forall>cl\<in>set (fst (kmeans_update F d cls ncs ns m)). length (centroid cl) = d"
proof (induction F d cls ncs ns m rule: kmeans_update.induct)
  case (1 F d cl cls nc ncs n ns m)
  show ?case
  proof (cases "n = 0")
    case True
    then show ?thesis using "1.IH"(1) "1.prems" by (cases "kmeans_update F d cls ncs ns m") simp
  next
    case False
    let ?s = "foldl (\<lambda>m p. f32_max m (f32_abs (f_sub F (fst p) (snd p)))) m (zip (scaled F f_one nc) (centroid cl))"
    have "\<forall>cl\<in>set (fst (kmeans_update F d cls ncs ns ?s)). length (centroid cl) = d"
      by (rule "1.IH"(2) [OF False refl refl]) (use "1.prems" in simp_all)
    then show ?thesis using False "1.prems" by (cases "kmeans_update F d cls ncs ns ?s") (simp add: Let_def dot_length)
  qed
qed simp_all

lemma kmeans_ok:
  assumes "\<forall>cl\<in>set cls. length (centroid cl) = d" "cls \<noteq> []" "\<forall>v\<in>set vecs. length v = d"
  shows "\<exists>cls'. kmeans F d vecs n cls = Inr cls' \<and> (\<forall>cl\<in>set cls'. length (centroid cl) = d) \<and> map member_indices cls' = map member_indices cls"
  using assms(1,2)
proof (induction n arbitrary: cls)
  case (Suc n)
  obtain sums counts where a: "kmeans_assign F d cls vecs (replicate (length cls) (replicate d f_zero), replicate (length cls) 0) = Inr (sums, counts)"
      "\<forall>x\<in>set sums. length x = d"
    using kmeans_assign_ok [OF Suc.prems assms(3), of "replicate (length cls) (replicate d f_zero)" "replicate (length cls) 0" F] by auto
  obtain cls1 m where u: "kmeans_update F d cls sums counts f_zero = (cls1, m)" by fastforce
  have c1: "\<forall>cl\<in>set cls1. length (centroid cl) = d" "map member_indices cls1 = map member_indices cls"
    using kmeans_update_centroids [OF Suc.prems(1) a(2), of F counts f_zero] kmeans_update_frame [of F d cls sums counts f_zero] u by auto
  moreover from c1(2) Suc.prems(2) have "cls1 \<noteq> []" by auto
  ultimately show ?case using Suc.IH [of cls1] a(1) u by auto
qed simp

text \<open>
  Training: on at least one training vector, all of the index's dimension, k-means returns after at most
  the given rounds without reading outside a vector, and an index without vectors is ready for insertion and probing afterwards.
\<close>

theorem ivf_train_ready:
  assumes "ivf_ok iv" and "vi_vectors (iv_base iv) = []" and "2 \<le> iv_num_clusters iv"
    and "training \<noteq> []" and "\<forall>v\<in>set training. length v = unat (iv_dim iv)"
  shows "\<exists>iv'. ivf_train F training max_iters iv = Inr iv' \<and> ivf_ok iv' \<and> iv_trained iv' \<and>
    length (iv_clusters iv') = min (iv_num_clusters iv) (length training)"
proof -
  let ?k = "min (iv_num_clusters iv) (length training)"
  let ?cls = "map (\<lambda>v. \<lparr>centroid = scaled F f_one v, member_indices = []\<rparr>) (take ?k training)"
  have "\<forall>cl\<in>set ?cls. length (centroid cl) = unat (iv_dim iv)" using assms(5) by (auto simp: dot_length dest: in_set_takeD)
  moreover have "?cls \<noteq> []" using assms(3,4) by simp
  ultimately obtain cls where k: "kmeans F (unat (iv_dim iv)) training max_iters ?cls = Inr cls"
      "\<forall>cl\<in>set cls. length (centroid cl) = unat (iv_dim iv)" "map member_indices cls = map member_indices ?cls"
    using kmeans_ok [of ?cls _ training F max_iters] assms(5) by blast
  have l: "length cls = ?k" using arg_cong [OF k(3), of length] by simp
  then have ne: "cls \<noteq> []" using assms(3,4) by (cases training) auto
  have "member_indices (cls ! c) = []" if "c < length cls" for c
    using nth_map [OF that, of member_indices] k(3) that l by simp
  then have "ivf_ok (iv\<lparr>iv_clusters := cls, iv_trained := True\<rparr>)"
    using assms(1,2) k(2) ne by (auto simp: ivf_ok_def)
  then show ?thesis using k(1) l assms(4) by (simp add: ivf_train_def Let_def)
qed

theorem ivf_train_ready_witness:
  "\<exists>iv'. ivf_train demo_floats [[f_one], [f_zero]] 10 (new_ivf demo_floats (\<lambda>_ _. f_one) 1 4 42) = Inr iv' \<and> ivf_ok iv' \<and> length (iv_clusters iv') = 2"
  using ivf_train_ready [OF ivf_ok_new, of demo_floats "\<lambda>_ _. f_one" 1 4 42 "[[f_one], [f_zero]]" demo_floats 10]
  by (auto simp: new_ivf_def new_vector_index_def)

text \<open>Training an index that already holds vectors empties every posting list: no probing search can return them.\<close>

lemma kmeans_members: "kmeans F d vecs n cls = Inr cls' \<Longrightarrow> map member_indices cls' = map member_indices cls"
proof (induction n arbitrary: cls)
  case (Suc n)
  then show ?case
    using kmeans_update_frame [of F d cls] by (auto split: sum.splits prod.splits if_splits) (metis fst_conv)+
qed simp

lemma ivf_train_forgets:
  assumes "ivf_train F training max_iters iv = Inr iv'" and "training \<noteq> []"
  shows "iv_base iv' = iv_base iv" "cl \<in> set (iv_clusters iv') \<Longrightarrow> member_indices cl = []"
proof -
  let ?cls = "map (\<lambda>v. \<lparr>centroid = scaled F f_one v, member_indices = []\<rparr>) (take (min (iv_num_clusters iv) (length training)) training)"
  obtain cls where k: "kmeans F (unat (iv_dim iv)) training max_iters ?cls = Inr cls" "iv' = iv\<lparr>iv_clusters := cls, iv_trained := True\<rparr>"
    using assms by (auto simp: ivf_train_def Let_def split: sum.splits)
  then show "iv_base iv' = iv_base iv" by simp
  assume "cl \<in> set (iv_clusters iv')"
  then have "member_indices cl \<in> set (map member_indices cls)" using k(2) by simp
  then have "member_indices cl \<in> set (map member_indices ?cls)" unfolding kmeans_members [OF k(1)] .
  then show "member_indices cl = []" by auto
qed

end
