(* ===== verification/Forward_Pass.thy ===== *)
theory Forward_Pass
  imports Kernels Session_KV Gguf_Parser
begin

text \<open>
  The transformer decoder (\<open>forward_pass\<close> of \<open>infer.cpp\<close>): embedding lookup, the attention and feed-forward blocks of every layer
  over the KV cache, and the vocabulary projection.

  A loaded model is the parsed model with the mapped file and the place where tensor data starts; the \<open>data\<close> pointer of a tensor is the
  rest of the file from its offset. Reading outside the file, a buffer or a cache row is \<open>OutOfBounds\<close>, a tensor that the model lacks
  has a null pointer. \<open>InferenceState::vulkan_compute\<close> is a null pointer throughout (no code assigns it), so only the CPU branches are
  present. Dimensions are below 2^31, so that their conversion to \<open>int\<close> is the identity. The iterations of the OpenMP loops write disjoint elements.
\<close>

unbundle bit_operations_syntax

section \<open>Weights\<close>

record loaded_model =
  lm_model :: dense_model
  lm_image :: "u8 list"
  lm_start :: size_t

definition has_tensor :: "loaded_model \<Rightarrow> string \<Rightarrow> bool" where
  "has_tensor M name \<longleftrightarrow> map_of (dm_tensors (lm_model M)) name \<noteq> None"

definition tensor_bytes :: "loaded_model \<Rightarrow> string \<Rightarrow> mem_error + tensor_type \<times> u8 list" where
  "tensor_bytes M name =
     (case map_of (dm_tensors (lm_model M)) name of
        None \<Rightarrow> Inl NullPointer
      | Some t \<Rightarrow> Inr (t_type t, drop (unat (tensor_offset (lm_start M) t)) (lm_image M)))"

definition dec_u16 :: "u8 list \<Rightarrow> u16" where
  "dec_u16 bs = word_of_nat (bytes_nat bs)"

definition q8_block :: "u8 list \<Rightarrow> nat \<Rightarrow> mem_error + block_q8_0" where
  "q8_block data i =
     (if 34 * Suc i \<le> length data
      then Inr \<lparr>q8_d = dec_u16 (take 2 (drop (34 * i) data)), q8_qs = take 32 (drop (34 * i + 2) data)\<rparr> else Inl OutOfBounds)"

definition q4_block :: "u8 list \<Rightarrow> nat \<Rightarrow> mem_error + block_q4_0" where
  "q4_block data i =
     (if 18 * Suc i \<le> length data
      then Inr \<lparr>q4_d = dec_u16 (take 2 (drop (18 * i) data)), q4_qs = take 16 (drop (18 * i + 2) data)\<rparr> else Inl OutOfBounds)"

definition float_array :: "u8 list \<Rightarrow> nat \<Rightarrow> mem_error + f32 list" where
  "float_array data n = (if 4 * n \<le> length data then Inr (dec_array 4 dec_u32 n data) else Inl OutOfBounds)"

section \<open>Matrix-vector product\<close>

definition matvec_row :: "float_ops \<Rightarrow> tensor_type \<Rightarrow> u8 list \<Rightarrow> f32 list \<Rightarrow> nat \<Rightarrow> nat \<Rightarrow> mem_error + f32" where
  "matvec_row F ty data x nb i =
     (if length x < 32 * nb then Inl OutOfBounds
      else if ty = Q4_0 then sbind (smap (q4_block data) [i * nb..<i * nb + nb]) (\<lambda>bs. Inr (dot_product_q4_0_fp32 F bs x))
      else sbind (smap (q8_block data) [i * nb..<i * nb + nb]) (\<lambda>bs. Inr (dot_product_q8_fp32 F bs x)))"

definition matvec :: "float_ops \<Rightarrow> loaded_model \<Rightarrow> string \<Rightarrow> f32 list \<Rightarrow> nat \<Rightarrow> nat \<Rightarrow> mem_error + f32 list" where
  "matvec F M name x in_features out_features =
     sbind (tensor_bytes M name) (\<lambda>(ty, data). smap (matvec_row F ty data x (in_features div 32)) [0..<out_features])"

definition nl_char :: char where "nl_char = CHR 0x0A"

definition native_tensor_error :: "string \<Rightarrow> tensor_type \<Rightarrow> string" where
  "native_tensor_error name ty =
     ''Inference Error: Unsupported tensor representation.'' @ [nl_char] @ ''  => Failing Tensor: '' @ [CHR 0x27] @ name @ [CHR 0x27, nl_char] @
     ''  => Detected Type:  '' @ tensor_type_name ty @ [nl_char] @
     ''  => Resolution:     Native execution requires Q4_0/Q8_0 for matrices, and FP32 for 1D biases/norm.''"

definition model_tensor_error :: "dense_model \<Rightarrow> string" where
  "model_tensor_error m =
     (case find (\<lambda>e. \<not> native_tensor_supported (fst e) (t_type (snd e))) (dm_tensors m) of
        Some e \<Rightarrow> native_tensor_error (fst e) (t_type (snd e))
      | None \<Rightarrow> ''Inference Error: Forward pass failed due to tensor incompatibility or numerical error.'')"

section \<open>Dimensions\<close>

definition cfg_of :: "loaded_model \<Rightarrow> model_config" where "cfg_of M = dm_config (lm_model M)"
definition emb_dim :: "loaded_model \<Rightarrow> nat" where "emb_dim M = unat (embedding_length (cfg_of M))"
definition hd_dim :: "loaded_model \<Rightarrow> nat" where "hd_dim M = unat (head_dim (cfg_of M))"
definition kv_dim :: "loaded_model \<Rightarrow> nat" where "kv_dim M = unat (num_kv_heads (cfg_of M) * head_dim (cfg_of M))"
definition mlp_dim :: "loaded_model \<Rightarrow> nat" where "mlp_dim M = unat (intermediate_dim (cfg_of M))"
definition n_heads :: "loaded_model \<Rightarrow> nat" where "n_heads M = unat (num_heads (cfg_of M))"
definition n_kv_heads :: "loaded_model \<Rightarrow> nat" where "n_kv_heads M = unat (num_kv_heads (cfg_of M))"
definition n_layers :: "loaded_model \<Rightarrow> nat" where "n_layers M = unat (num_layers (cfg_of M))"
definition n_vocab :: "loaded_model \<Rightarrow> nat" where "n_vocab M = unat (vocab_size (cfg_of M))"

definition kv_groups :: "loaded_model \<Rightarrow> nat" where
  "kv_groups M = (if n_kv_heads M > 0 then n_heads M div n_kv_heads M else 1)"

definition layer_name :: "nat \<Rightarrow> string \<Rightarrow> string" where
  "layer_name l suffix = ''blk.'' @ nat_digits l @ ''.'' @ suffix"

section \<open>Attention\<close>

definition norm_by :: "float_ops \<Rightarrow> loaded_model \<Rightarrow> string \<Rightarrow> f32 list \<Rightarrow> mem_error + f32 list" where
  "norm_by F M name x =
     sbind (tensor_bytes M name) (\<lambda>(ty, data). sbind (float_array data (emb_dim M)) (\<lambda>w. rmsnorm F x (emb_dim M) (rms_norm_eps (cfg_of M)) w))"

definition add_bias :: "float_ops \<Rightarrow> loaded_model \<Rightarrow> string \<Rightarrow> nat \<Rightarrow> f32 list \<Rightarrow> mem_error + f32 list" where
  "add_bias F M name n v =
     (if has_tensor M name
      then sbind (tensor_bytes M name) (\<lambda>(ty, data). sbind (float_array data n) (\<lambda>b. Inr (map (\<lambda>p. f_add F (fst p) (snd p)) (zip v b))))
      else Inr v)"

definition slice :: "'a list \<Rightarrow> nat \<Rightarrow> nat \<Rightarrow> mem_error + 'a list" where
  "slice xs i n = (if i + n \<le> length xs then Inr (take n (drop i xs)) else Inl OutOfBounds)"

definition overwrite :: "'a list \<Rightarrow> nat \<Rightarrow> 'a list \<Rightarrow> 'a list" where
  "overwrite xs i ys = take i xs @ ys @ drop (i + length ys) xs"

text \<open>The rows of layer \<open>l\<close> after the keys and values of the position are stored, if they fit the key row.\<close>

definition store_kv :: "nat \<Rightarrow> nat \<Rightarrow> f32 list \<Rightarrow> f32 list \<Rightarrow> nat \<Rightarrow> inference_state \<Rightarrow> mem_error + inference_state" where
  "store_kv pos n k v l st =
     (if length (st_k_cache st) \<le> l then Inl OutOfBounds
      else if pos * n + n \<le> length (st_k_cache st ! l) then
        (if length (st_v_cache st) \<le> l \<or> length (st_v_cache st ! l) < pos * n + n then Inl OutOfBounds
         else Inr (st\<lparr>st_k_cache := (st_k_cache st)[l := overwrite (st_k_cache st ! l) (pos * n) k],
                     st_v_cache := (st_v_cache st)[l := overwrite (st_v_cache st ! l) (pos * n) v]\<rparr>))
      else Inr st)"

definition head_score :: "float_ops \<Rightarrow> nat \<Rightarrow> f32 list \<Rightarrow> f32 list \<Rightarrow> f32" where
  "head_score F hdim q_head k_head =
     f_div F (foldl (\<lambda>s p. f_add F s (f_mul F (fst p) (snd p))) f_zero (zip q_head k_head)) (f_sqrt F (f_of_int F (int hdim)))"

definition weigh_values :: "float_ops \<Rightarrow> nat \<Rightarrow> (f32 \<times> f32 list) list \<Rightarrow> f32 list" where
  "weigh_values F hdim svs = foldl (\<lambda>out sv. map (\<lambda>p. f_add F (fst p) (f_mul F (fst sv) (snd p))) (zip out (snd sv))) (replicate hdim f_zero) svs"

definition attend_head :: "float_ops \<Rightarrow> loaded_model \<Rightarrow> nat \<Rightarrow> f32 list \<Rightarrow> f32 list \<Rightarrow> f32 list \<Rightarrow> nat \<Rightarrow> mem_error + f32 list" where
  "attend_head F M pos q krow vrow h =
     (if kv_groups M = 0 then Inl DivByZero
      else
        let hdim = hd_dim M; kv_h = h div kv_groups M
        in sbind (slice q (h * hdim) hdim) (\<lambda>q_head.
           sbind (smap (\<lambda>p. slice krow (p * kv_dim M + kv_h * hdim) hdim) [0..<Suc pos]) (\<lambda>ks.
           sbind (smap (\<lambda>p. slice vrow (p * kv_dim M + kv_h * hdim) hdim) [0..<Suc pos]) (\<lambda>vs.
             let scores = map (head_score F hdim q_head) ks
             in Inr (weigh_values F hdim (zip (softmax_with F (softmax_max scores 0xCE6E6B28) scores) vs))))))"

definition attend :: "float_ops \<Rightarrow> loaded_model \<Rightarrow> nat \<Rightarrow> f32 list \<Rightarrow> f32 list \<Rightarrow> f32 list \<Rightarrow> mem_error + f32 list" where
  "attend F M pos q krow vrow =
     sbind (smap (attend_head F M pos q krow vrow) [0..<n_heads M]) (\<lambda>heads.
       if emb_dim M < n_heads M * hd_dim M then Inl OutOfBounds
       else Inr (concat heads @ replicate (emb_dim M - n_heads M * hd_dim M) f_zero))"

definition add_vec :: "float_ops \<Rightarrow> f32 list \<Rightarrow> f32 list \<Rightarrow> f32 list" where
  "add_vec F a b = map (\<lambda>p. f_add F (fst p) (snd p)) (zip a b)"

section \<open>Layers\<close>

text \<open>A projected query, key or value vector with its optional bias.\<close>

definition project :: "float_ops \<Rightarrow> loaded_model \<Rightarrow> nat \<Rightarrow> string \<Rightarrow> f32 list \<Rightarrow> nat \<Rightarrow> mem_error + f32 list" where
  "project F M l name x n =
     sbind (matvec F M (layer_name l (name @ ''.weight'')) x (emb_dim M) n) (add_bias F M (layer_name l (name @ ''.bias'')) n)"

definition attention_block :: "float_ops \<Rightarrow> loaded_model \<Rightarrow> nat \<Rightarrow> inference_state \<Rightarrow> mem_error + inference_state" where
  "attention_block F M l st =
     (let pos = nat (st_current_pos st)
      in sbind (norm_by F M (layer_name l ''attn_norm.weight'') (st_x st)) (\<lambda>xn.
         sbind (project F M l ''attn_q'' xn (emb_dim M)) (\<lambda>q0.
         sbind (project F M l ''attn_k'' xn (kv_dim M)) (\<lambda>k0.
         sbind (project F M l ''attn_v'' xn (kv_dim M)) (\<lambda>v.
         sbind (math_rope F q0 (st_current_pos st) (n_heads M) (hd_dim M) (st_inv_freq st)) (\<lambda>q.
         sbind (math_rope F k0 (st_current_pos st) (n_kv_heads M) (hd_dim M) (st_inv_freq st)) (\<lambda>k.
         sbind (store_kv pos (kv_dim M) k v l st) (\<lambda>st1.
         sbind (if length (st_v_cache st1) \<le> l then Inl OutOfBounds else attend F M pos q (st_k_cache st1 ! l) (st_v_cache st1 ! l)) (\<lambda>att_out.
         sbind (matvec F M (layer_name l ''attn_output.weight'') att_out (emb_dim M) (emb_dim M)) (\<lambda>proj.
           Inr (st1\<lparr>st_x := add_vec F (st_x st) proj\<rparr>)))))))))))"

definition ffn_block :: "float_ops \<Rightarrow> loaded_model \<Rightarrow> nat \<Rightarrow> f32 list \<Rightarrow> mem_error + f32 list" where
  "ffn_block F M l x =
     sbind (norm_by F M (layer_name l ''ffn_norm.weight'') x) (\<lambda>xn.
     sbind (matvec F M (layer_name l ''ffn_gate.weight'') xn (emb_dim M) (mlp_dim M)) (\<lambda>gate.
     sbind (matvec F M (layer_name l ''ffn_up.weight'') xn (emb_dim M) (mlp_dim M)) (\<lambda>up.
     sbind (matvec F M (layer_name l ''ffn_down.weight'') (swiglu F gate up) (mlp_dim M) (emb_dim M)) (\<lambda>proj.
       Inr (add_vec F x proj)))))"

definition layer_step :: "float_ops \<Rightarrow> loaded_model \<Rightarrow> nat \<Rightarrow> inference_state \<Rightarrow> mem_error + inference_state" where
  "layer_step F M l st =
     sbind (attention_block F M l st) (\<lambda>st1. sbind (ffn_block F M l (st_x st1)) (\<lambda>x. Inr (st1\<lparr>st_x := x\<rparr>)))"

section \<open>The forward pass\<close>

definition embed_token :: "float_ops \<Rightarrow> loaded_model \<Rightarrow> tensor_type \<Rightarrow> u8 list \<Rightarrow> nat \<Rightarrow> f32 list \<Rightarrow> mem_error + f32 list" where
  "embed_token F M ty data tok x =
     (let nb = emb_dim M div 32
      in if length x < 32 * nb then Inl OutOfBounds
         else sbind (if ty = Q4_0 then sbind (smap (q4_block data) [tok * nb..<tok * nb + nb]) (\<lambda>bs. Inr (dequantize_q4_row F bs))
                     else sbind (smap (q8_block data) [tok * nb..<tok * nb + nb]) (\<lambda>bs. Inr (dequantize_q8_row F bs))) (\<lambda>row.
                Inr (row @ drop (32 * nb) x)))"

text \<open>\<open>Inr (ok, st, logits)\<close>: the result, the state and the logits afterwards.\<close>

definition forward_pass :: "float_ops \<Rightarrow> loaded_model \<Rightarrow> inference_state \<Rightarrow> int \<Rightarrow> f32 list \<Rightarrow> mem_error + bool \<times> inference_state \<times> f32 list" where
  "forward_pass F M st token_id logits =
     (if list_ex (\<lambda>e. \<not> native_tensor_supported (fst e) (t_type (snd e))) (dm_tensors (lm_model M)) then Inr (False, st, logits)
      else if token_id < 0 \<or> sint (vocab_size (cfg_of M)) \<le> token_id then Inr (False, st, logits)
      else if \<not> has_tensor M ''token_embd.weight'' then Inr (False, st, logits)
      else
        sbind (tensor_bytes M ''token_embd.weight'') (\<lambda>(ty, data).
          if ty \<noteq> Q4_0 \<and> ty \<noteq> Q8_0 then Inr (False, st, logits)
          else
            sbind (embed_token F M ty data (nat token_id) (st_x st)) (\<lambda>x0.
            if st_current_pos st < 0 then Inl OutOfBounds
            else
            sbind (sfold (layer_step F M) [0..<n_layers M] (st\<lparr>st_x := x0\<rparr>)) (\<lambda>st1.
            sbind (norm_by F M ''output_norm.weight'' (st_x st1)) (\<lambda>xn.
            sbind (matvec F M (if has_tensor M ''output.weight'' then ''output.weight'' else ''token_embd.weight'') xn (emb_dim M) (n_vocab M)) (\<lambda>lg.
              Inr (True, st1\<lparr>st_x := xn\<rparr>, lg @ drop (n_vocab M) logits)))))))"

section \<open>Well-formed models and states\<close>

definition block_bytes :: "tensor_type \<Rightarrow> nat" where
  "block_bytes ty = (if ty = Q4_0 then 18 else 34)"

definition weights_fit :: "loaded_model \<Rightarrow> string \<Rightarrow> nat \<Rightarrow> nat \<Rightarrow> bool" where
  "weights_fit M name in_features out_features \<longleftrightarrow>
     (case tensor_bytes M name of Inl e \<Rightarrow> False | Inr (ty, data) \<Rightarrow> block_bytes ty * (out_features * (in_features div 32)) \<le> length data)"

definition floats_fit :: "loaded_model \<Rightarrow> string \<Rightarrow> nat \<Rightarrow> bool" where
  "floats_fit M name n \<longleftrightarrow> (case tensor_bytes M name of Inl e \<Rightarrow> False | Inr (ty, data) \<Rightarrow> 4 * n \<le> length data)"

definition bias_fits :: "loaded_model \<Rightarrow> string \<Rightarrow> nat \<Rightarrow> bool" where
  "bias_fits M name n \<longleftrightarrow> (has_tensor M name \<longrightarrow> floats_fit M name n)"

definition projection_fits :: "loaded_model \<Rightarrow> nat \<Rightarrow> string \<Rightarrow> nat \<Rightarrow> bool" where
  "projection_fits M l name n \<longleftrightarrow>
     weights_fit M (layer_name l (name @ ''.weight'')) (emb_dim M) n \<and> bias_fits M (layer_name l (name @ ''.bias'')) n"

definition layer_fits :: "loaded_model \<Rightarrow> nat \<Rightarrow> bool" where
  "layer_fits M l \<longleftrightarrow>
     floats_fit M (layer_name l ''attn_norm.weight'') (emb_dim M) \<and> floats_fit M (layer_name l ''ffn_norm.weight'') (emb_dim M) \<and>
     projection_fits M l ''attn_q'' (emb_dim M) \<and> projection_fits M l ''attn_k'' (kv_dim M) \<and> projection_fits M l ''attn_v'' (kv_dim M) \<and>
     weights_fit M (layer_name l ''attn_output.weight'') (emb_dim M) (emb_dim M) \<and>
     weights_fit M (layer_name l ''ffn_gate.weight'') (emb_dim M) (mlp_dim M) \<and>
     weights_fit M (layer_name l ''ffn_up.weight'') (emb_dim M) (mlp_dim M) \<and>
     weights_fit M (layer_name l ''ffn_down.weight'') (mlp_dim M) (emb_dim M)"

definition dims_ok :: "loaded_model \<Rightarrow> bool" where
  "dims_ok M \<longleftrightarrow> emb_dim M mod 32 = 0 \<and> even (hd_dim M) \<and> n_heads M * hd_dim M \<le> emb_dim M \<and>
     0 < n_kv_heads M \<and> 0 < n_heads M \<and> n_heads M mod n_kv_heads M = 0 \<and> kv_dim M = n_kv_heads M * hd_dim M \<and>
     vocab_size (cfg_of M) < 2 ^ 31 \<and> embedding_length (cfg_of M) < 2 ^ 31 \<and> intermediate_dim (cfg_of M) < 2 ^ 31"

definition model_ok :: "loaded_model \<Rightarrow> bool" where
  "model_ok M \<longleftrightarrow> dims_ok M \<and> list_all (\<lambda>e. native_tensor_supported (fst e) (t_type (snd e))) (dm_tensors (lm_model M)) \<and>
     weights_fit M ''token_embd.weight'' (emb_dim M) (n_vocab M) \<and>
     (has_tensor M ''output.weight'' \<longrightarrow> weights_fit M ''output.weight'' (emb_dim M) (n_vocab M)) \<and>
     floats_fit M ''output_norm.weight'' (emb_dim M) \<and> list_all (layer_fits M) [0..<n_layers M]"

text \<open>A state whose cache rows have room for \<open>c\<close> positions.\<close>

definition state_fits :: "loaded_model \<Rightarrow> nat \<Rightarrow> inference_state \<Rightarrow> bool" where
  "state_fits M c st \<longleftrightarrow> length (st_x st) = emb_dim M \<and> hd_dim M div 2 \<le> length (st_inv_freq st) \<and>
     length (st_k_cache st) = n_layers M \<and> length (st_v_cache st) = n_layers M \<and>
     list_all (\<lambda>row. c * kv_dim M \<le> length row) (st_k_cache st) \<and> list_all (\<lambda>row. c * kv_dim M \<le> length row) (st_v_cache st)"

section \<open>Shapes\<close>

lemma smap_upt_ok:
  assumes "\<And>i. a \<le> i \<Longrightarrow> i < b \<Longrightarrow> \<exists>y. f i = Inr y \<and> P y"
  shows "\<exists>ys. smap f [a..<b] = Inr ys \<and> length ys = b - a \<and> list_all P ys"
proof -
  have "\<exists>y. f i = Inr y \<and> P y" if "i \<in> set [a..<b]" for i using assms that by simp
  then have "\<exists>ys. smap f xs = Inr ys \<and> length ys = length xs \<and> list_all P ys" if "set xs \<subseteq> set [a..<b]" for xs
    using that by (induction xs) fastforce+
  from this [of "[a..<b]"] show ?thesis by simp
qed

lemma q8_block_ok: "34 * Suc i \<le> length data \<Longrightarrow> \<exists>b. q8_block data i = Inr b \<and> length (q8_qs b) = 32"
  by (simp add: q8_block_def)

lemma q4_block_ok: "18 * Suc i \<le> length data \<Longrightarrow> \<exists>b. q4_block data i = Inr b \<and> length (q4_qs b) = 16"
  by (simp add: q4_block_def)

lemma block_range:
  fixes i nb :: nat
  assumes "a * (n * nb) \<le> len" "r < n" "r * nb \<le> i" "i < r * nb + nb"
  shows "a * Suc i \<le> len"
proof -
  have "Suc i \<le> (r + 1) * nb" using assms(4) by simp
  also have "\<dots> \<le> n * nb" using assms(2) by (intro mult_le_mono1) simp
  finally have "a * Suc i \<le> a * (n * nb)" by (rule mult_le_mono2)
  then show ?thesis using assms(1) by simp
qed

lemma blocks_ok:
  assumes "block_bytes ty * (n * nb) \<le> length data" "r < n"
  shows "ty = Q4_0 \<Longrightarrow> \<exists>bs. smap (q4_block data) [r * nb..<r * nb + nb] = Inr bs \<and> length bs = nb \<and> list_all (\<lambda>b. length (q4_qs b) = 16) bs"
    "ty \<noteq> Q4_0 \<Longrightarrow> \<exists>bs. smap (q8_block data) [r * nb..<r * nb + nb] = Inr bs \<and> length bs = nb \<and> list_all (\<lambda>b. length (q8_qs b) = 32) bs"
proof -
  have a: "block_bytes ty * Suc i \<le> length data" if "r * nb \<le> i" "i < r * nb + nb" for i
    by (rule block_range [OF assms that])
  show "\<exists>bs. smap (q4_block data) [r * nb..<r * nb + nb] = Inr bs \<and> length bs = nb \<and> list_all (\<lambda>b. length (q4_qs b) = 16) bs" if "ty = Q4_0"
    using smap_upt_ok [of "r * nb" "r * nb + nb" "q4_block data" "\<lambda>b. length (q4_qs b) = 16"] q4_block_ok a that by (simp add: block_bytes_def)
  show "\<exists>bs. smap (q8_block data) [r * nb..<r * nb + nb] = Inr bs \<and> length bs = nb \<and> list_all (\<lambda>b. length (q8_qs b) = 32) bs" if "ty \<noteq> Q4_0"
    using smap_upt_ok [of "r * nb" "r * nb + nb" "q8_block data" "\<lambda>b. length (q8_qs b) = 32"] q8_block_ok a that by (simp add: block_bytes_def)
qed

lemma matvec_ok:
  assumes "weights_fit M name n_in n_out" and "n_in \<le> length x"
  shows "\<exists>y. matvec F M name x n_in n_out = Inr y \<and> length y = n_out"
proof -
  obtain ty data where d: "tensor_bytes M name = Inr (ty, data)" "block_bytes ty * (n_out * (n_in div 32)) \<le> length data"
    using assms(1) by (auto simp: weights_fit_def split: sum.splits)
  have "32 * (n_in div 32) \<le> length x" using assms(2) times_div_less_eq_dividend [of 32 n_in] by linarith
  then have "\<exists>y. matvec_row F ty data x (n_in div 32) r = Inr y \<and> True" if "r < n_out" for r
    using blocks_ok [OF d(2) that] by (cases "ty = Q4_0") (auto simp: matvec_row_def)
  then show ?thesis using smap_upt_ok [of 0 n_out "matvec_row F ty data x (n_in div 32)" "\<lambda>_. True"] d(1) by (auto simp: matvec_def)
qed

lemma float_array_ok: "4 * n \<le> length data \<Longrightarrow> \<exists>w. float_array data n = Inr w \<and> length w = n"
proof -
  have "length (dec_array 4 dec n data) = n" for dec :: "u8 list \<Rightarrow> f32" by (induction n arbitrary: data) auto
  then show "4 * n \<le> length data \<Longrightarrow> ?thesis" by (simp add: float_array_def)
qed

lemma norm_by_ok:
  assumes "dims_ok M" "floats_fit M name (emb_dim M)" "length x = emb_dim M"
  shows "\<exists>y. norm_by F M name x = Inr y \<and> length y = emb_dim M"
proof -
  obtain ty data where d: "tensor_bytes M name = Inr (ty, data)" "4 * emb_dim M \<le> length data"
    using assms(2) by (auto simp: floats_fit_def split: sum.splits)
  obtain w where w: "float_array data (emb_dim M) = Inr w" "length w = emb_dim M" using float_array_ok [OF d(2)] by blast
  have "emb_dim M mod 8 = 0" using assms(1) by (auto simp: dims_ok_def)
  then show ?thesis using length_rmsnorm [of "emb_dim M" x w F] assms(3) d(1) w by (simp add: norm_by_def)
qed

lemma project_ok:
  assumes "projection_fits M l name n" "length x = emb_dim M"
  shows "\<exists>y. project F M l name x n = Inr y \<and> length y = n"
proof -
  obtain y where y: "matvec F M (layer_name l (name @ ''.weight'')) x (emb_dim M) n = Inr y" "length y = n"
    using matvec_ok assms unfolding projection_fits_def by (metis order_refl)
  show ?thesis
  proof (cases "has_tensor M (layer_name l (name @ ''.bias''))")
    case True
    then obtain ty data where d: "tensor_bytes M (layer_name l (name @ ''.bias'')) = Inr (ty, data)" "4 * n \<le> length data"
      using assms(1) by (auto simp: projection_fits_def bias_fits_def floats_fit_def split: sum.splits)
    then show ?thesis using y float_array_ok [OF d(2)] True by (auto simp: project_def add_bias_def)
  qed (simp add: project_def add_bias_def y)
qed

section \<open>Attention reads only the stored positions\<close>

lemma slice_take: "i + n \<le> m \<Longrightarrow> m \<le> length xs \<Longrightarrow> slice (take m xs) i n = slice xs i n"
  by (simp add: slice_def drop_take)

lemma kv_head_bound:
  assumes "dims_ok M" "h < n_heads M"
  shows "0 < kv_groups M" "h div kv_groups M * hd_dim M + hd_dim M \<le> kv_dim M"
proof -
  have d: "n_heads M mod n_kv_heads M = 0" "0 < n_kv_heads M" "kv_dim M = n_kv_heads M * hd_dim M"
    using assms(1) by (auto simp: dims_ok_def)
  then have e: "n_heads M = n_kv_heads M * kv_groups M" by (auto simp: kv_groups_def)
  then show g: "0 < kv_groups M" using assms(2) by (cases "kv_groups M = 0") auto
  have "h div kv_groups M < n_kv_heads M" using assms(2) e g by (simp add: div_less_iff_less_mult)
  then have "(h div kv_groups M + 1) * hd_dim M \<le> n_kv_heads M * hd_dim M" by (intro mult_le_mono1) simp
  then show "h div kv_groups M * hd_dim M + hd_dim M \<le> kv_dim M" using d(3) by simp
qed

lemma kv_slot_bound:
  assumes "dims_ok M" "h < n_heads M" "p < Suc pos"
  shows "p * kv_dim M + h div kv_groups M * hd_dim M + hd_dim M \<le> Suc pos * kv_dim M"
proof -
  have "p * kv_dim M + (h div kv_groups M * hd_dim M + hd_dim M) \<le> (p + 1) * kv_dim M" using kv_head_bound(2) [OF assms(1,2)] by simp
  also have "\<dots> \<le> Suc pos * kv_dim M" using assms(3) by (intro mult_le_mono1) simp
  finally show ?thesis by simp
qed

lemma attend_head_prefix:
  assumes "dims_ok M" "h < n_heads M" "Suc pos * kv_dim M \<le> length krow" "Suc pos * kv_dim M \<le> length vrow"
  shows "attend_head F M pos q (take (Suc pos * kv_dim M) krow) (take (Suc pos * kv_dim M) vrow) h = attend_head F M pos q krow vrow h"
proof -
  have "smap (\<lambda>p. slice (take (Suc pos * kv_dim M) row) (p * kv_dim M + h div kv_groups M * hd_dim M) (hd_dim M)) [0..<Suc pos] =
      smap (\<lambda>p. slice row (p * kv_dim M + h div kv_groups M * hd_dim M) (hd_dim M)) [0..<Suc pos]"
    if "Suc pos * kv_dim M \<le> length row" for row :: "f32 list"
    by (rule smap_cong [OF refl]) (rule slice_take, use kv_slot_bound [OF assms(1,2)] that in auto)
  then show ?thesis using assms(3,4) by (simp add: attend_head_def Let_def del: upt_Suc)
qed

lemma attend_prefix:
  assumes "dims_ok M" "Suc pos * kv_dim M \<le> length krow" "Suc pos * kv_dim M \<le> length vrow"
  shows "attend F M pos q (take (Suc pos * kv_dim M) krow) (take (Suc pos * kv_dim M) vrow) = attend F M pos q krow vrow"
proof -
  have "smap (attend_head F M pos q (take (Suc pos * kv_dim M) krow) (take (Suc pos * kv_dim M) vrow)) [0..<n_heads M] =
      smap (attend_head F M pos q krow vrow) [0..<n_heads M]"
    by (rule smap_cong [OF refl]) (rule attend_head_prefix [OF assms(1) _ assms(2,3)], simp)
  then show ?thesis by (simp add: attend_def)
qed

lemma length_weigh_values: "list_all (\<lambda>sv. length (snd sv) = hdim) svs \<Longrightarrow> length (weigh_values F hdim svs) = hdim"
proof -
  have "list_all (\<lambda>sv. length (snd sv) = hdim) svs \<Longrightarrow> length out = hdim \<Longrightarrow>
    length (foldl (\<lambda>out sv. map (\<lambda>p. f_add F (fst p) (f_mul F (fst sv) (snd p))) (zip out (snd sv))) out svs) = hdim" for out
    by (induction svs arbitrary: out) auto
  then show "list_all (\<lambda>sv. length (snd sv) = hdim) svs \<Longrightarrow> ?thesis" by (simp add: weigh_values_def)
qed

lemma attend_head_ok:
  assumes "dims_ok M" "h < n_heads M" "length q = emb_dim M" "Suc pos * kv_dim M \<le> length krow" "Suc pos * kv_dim M \<le> length vrow"
  shows "\<exists>y. attend_head F M pos q krow vrow h = Inr y \<and> length y = hd_dim M"
proof -
  have "(h + 1) * hd_dim M \<le> n_heads M * hd_dim M" using assms(2) by (intro mult_le_mono1) simp
  then have q: "slice q (h * hd_dim M) (hd_dim M) = Inr (take (hd_dim M) (drop (h * hd_dim M) q))"
    using assms(1,3) by (simp add: slice_def dims_ok_def)
  have "\<exists>ys. smap (\<lambda>p. slice row (p * kv_dim M + h div kv_groups M * hd_dim M) (hd_dim M)) [0..<Suc pos] = Inr ys \<and>
      length ys = Suc pos - 0 \<and> list_all (\<lambda>y. length y = hd_dim M) ys" if "Suc pos * kv_dim M \<le> length row" for row :: "f32 list"
  proof (rule smap_upt_ok)
    fix p
    assume "p < Suc pos"
    then show "\<exists>y. slice row (p * kv_dim M + h div kv_groups M * hd_dim M) (hd_dim M) = Inr y \<and> length y = hd_dim M"
      using kv_slot_bound [OF assms(1,2), of p pos] that by (auto simp: slice_def)
  qed
  from this [OF assms(4)] this [OF assms(5)] obtain ks vs where kv:
    "smap (\<lambda>p. slice krow (p * kv_dim M + h div kv_groups M * hd_dim M) (hd_dim M)) [0..<Suc pos] = Inr ks"
    "smap (\<lambda>p. slice vrow (p * kv_dim M + h div kv_groups M * hd_dim M) (hd_dim M)) [0..<Suc pos] = Inr vs" "list_all (\<lambda>y. length y = hd_dim M) vs"
    by blast
  have "list_all (\<lambda>sv. length (snd sv) = hd_dim M) (zip scs vs)" for scs :: "f32 list"
    using kv(3) by (auto simp: list_all_iff dest: set_zip_rightD)
  then show ?thesis using q kv(1,2) kv_head_bound(1) [OF assms(1,2)] length_weigh_values [of "hd_dim M"]
    by (simp add: attend_head_def Let_def del: upt_Suc)
qed

lemma attend_ok:
  assumes "dims_ok M" "length q = emb_dim M" "Suc pos * kv_dim M \<le> length krow" "Suc pos * kv_dim M \<le> length vrow"
  shows "\<exists>y. attend F M pos q krow vrow = Inr y \<and> length y = emb_dim M"
proof -
  obtain hs where hs: "smap (attend_head F M pos q krow vrow) [0..<n_heads M] = Inr hs" "length hs = n_heads M" "list_all (\<lambda>y. length y = hd_dim M) hs"
    using smap_upt_ok [of 0 "n_heads M" "attend_head F M pos q krow vrow" "\<lambda>y. length y = hd_dim M"] attend_head_ok [OF assms(1) _ assms(2-4)] by auto
  have "sum_list (map length hs) = length hs * hd_dim M" using hs(3) by (induction hs) auto
  then show ?thesis using hs assms(1) by (simp add: attend_def length_concat dims_ok_def)
qed

section \<open>A layer as a function of the earlier positions\<close>

definition att_core :: "float_ops \<Rightarrow> loaded_model \<Rightarrow> nat \<Rightarrow> int \<Rightarrow> f32 list \<Rightarrow> f32 list \<Rightarrow> f32 list \<Rightarrow> f32 list \<Rightarrow> mem_error + f32 list \<times> f32 list \<times> f32 list" where
  "att_core F M l p x freq kpre vpre =
     sbind (norm_by F M (layer_name l ''attn_norm.weight'') x) (\<lambda>xn.
     sbind (project F M l ''attn_q'' xn (emb_dim M)) (\<lambda>q0.
     sbind (project F M l ''attn_k'' xn (kv_dim M)) (\<lambda>k0.
     sbind (project F M l ''attn_v'' xn (kv_dim M)) (\<lambda>v.
     sbind (math_rope F q0 p (n_heads M) (hd_dim M) freq) (\<lambda>q.
     sbind (math_rope F k0 p (n_kv_heads M) (hd_dim M) freq) (\<lambda>k.
     sbind (attend F M (nat p) q (kpre @ k) (vpre @ v)) (\<lambda>att_out.
     sbind (matvec F M (layer_name l ''attn_output.weight'') att_out (emb_dim M) (emb_dim M)) (\<lambda>proj.
       Inr (add_vec F x proj, k, v)))))))))"

definition layer_core :: "float_ops \<Rightarrow> loaded_model \<Rightarrow> nat \<Rightarrow> int \<Rightarrow> f32 list \<Rightarrow> f32 list \<Rightarrow> f32 list \<Rightarrow> f32 list \<Rightarrow> mem_error + f32 list \<times> f32 list \<times> f32 list" where
  "layer_core F M l p x freq kpre vpre =
     sbind (att_core F M l p x freq kpre vpre) (\<lambda>(x1, k, v). sbind (ffn_block F M l x1) (\<lambda>x2. Inr (x2, k, v)))"

definition put_kv :: "loaded_model \<Rightarrow> nat \<Rightarrow> f32 list \<Rightarrow> f32 list \<Rightarrow> f32 list \<Rightarrow> inference_state \<Rightarrow> inference_state" where
  "put_kv M l x k v st =
     st\<lparr>st_x := x, st_k_cache := (st_k_cache st)[l := overwrite (st_k_cache st ! l) (nat (st_current_pos st) * kv_dim M) k],
        st_v_cache := (st_v_cache st)[l := overwrite (st_v_cache st ! l) (nat (st_current_pos st) * kv_dim M) v]\<rparr>"

lemma length_add_vec [simp]: "length (add_vec F a b) = min (length a) (length b)"
  by (simp add: add_vec_def)

lemma length_overwrite [simp]: "i + length ys \<le> length xs \<Longrightarrow> length (overwrite xs i ys) = length xs"
  by (simp add: overwrite_def)

lemma take_overwrite: "i \<le> length xs \<Longrightarrow> take (i + length ys) (overwrite xs i ys) = take i xs @ ys"
  by (simp add: overwrite_def)

lemma att_inputs_ok:
  assumes ok: "dims_ok M" "layer_fits M l" and len: "length x = emb_dim M" "hd_dim M div 2 \<le> length freq"
  obtains xn q0 k0 v q k where "norm_by F M (layer_name l ''attn_norm.weight'') x = Inr xn" "project F M l ''attn_q'' xn (emb_dim M) = Inr q0"
    "project F M l ''attn_k'' xn (kv_dim M) = Inr k0" "project F M l ''attn_v'' xn (kv_dim M) = Inr v"
    "math_rope F q0 p (n_heads M) (hd_dim M) freq = Inr q" "math_rope F k0 p (n_kv_heads M) (hd_dim M) freq = Inr k"
    "length q = emb_dim M" "length k = kv_dim M" "length v = kv_dim M"
proof -
  have d: "even (hd_dim M)" "n_heads M * hd_dim M \<le> emb_dim M" "n_kv_heads M * hd_dim M = kv_dim M" using ok(1) by (auto simp: dims_ok_def)
  have w: "floats_fit M (layer_name l ''attn_norm.weight'') (emb_dim M)" "projection_fits M l ''attn_q'' (emb_dim M)"
    "projection_fits M l ''attn_k'' (kv_dim M)" "projection_fits M l ''attn_v'' (kv_dim M)"
    using ok(2) by (auto simp: layer_fits_def)
  obtain xn where xn: "norm_by F M (layer_name l ''attn_norm.weight'') x = Inr xn" "length xn = emb_dim M"
    using norm_by_ok [OF ok(1) w(1) len(1)] by blast
  obtain q0 k0 v where q0: "project F M l ''attn_q'' xn (emb_dim M) = Inr q0" "length q0 = emb_dim M"
    and k0: "project F M l ''attn_k'' xn (kv_dim M) = Inr k0" "length k0 = kv_dim M"
    and v: "project F M l ''attn_v'' xn (kv_dim M) = Inr v" "length v = kv_dim M"
    using project_ok [OF w(2) xn(2)] project_ok [OF w(3) xn(2)] project_ok [OF w(4) xn(2)] by metis
  obtain q where q: "math_rope F q0 p (n_heads M) (hd_dim M) freq = Inr q" "length q = emb_dim M"
    using length_math_rope [OF d(1), of "n_heads M" q0 freq F p] d(2) len(2) q0(2) by auto
  obtain k where k: "math_rope F k0 p (n_kv_heads M) (hd_dim M) freq = Inr k" "length k = kv_dim M"
    using length_math_rope [OF d(1), of "n_kv_heads M" k0 freq F p] d(3) len(2) k0(2) by auto
  show ?thesis by (rule that [OF xn(1) q0(1) k0(1) v(1) q(1) k(1) q(2) k(2) v(2)])
qed

lemma att_core_ok:
  assumes ok: "dims_ok M" "layer_fits M l" and len: "length x = emb_dim M" "hd_dim M div 2 \<le> length freq"
    and pre: "length kpre = nat p * kv_dim M" "length vpre = nat p * kv_dim M"
  shows "\<exists>x' k v. att_core F M l p x freq kpre vpre = Inr (x', k, v) \<and> length x' = emb_dim M \<and> length k = kv_dim M \<and> length v = kv_dim M"
proof -
  obtain xn q0 k0 v q k where i: "norm_by F M (layer_name l ''attn_norm.weight'') x = Inr xn" "project F M l ''attn_q'' xn (emb_dim M) = Inr q0"
    "project F M l ''attn_k'' xn (kv_dim M) = Inr k0" "project F M l ''attn_v'' xn (kv_dim M) = Inr v"
    "math_rope F q0 p (n_heads M) (hd_dim M) freq = Inr q" "math_rope F k0 p (n_kv_heads M) (hd_dim M) freq = Inr k"
    "length q = emb_dim M" "length k = kv_dim M" "length v = kv_dim M"
    by (rule att_inputs_ok [OF ok len])
  obtain a where a: "attend F M (nat p) q (kpre @ k) (vpre @ v) = Inr a" "length a = emb_dim M"
    using attend_ok [OF ok(1) i(7), of "nat p" "kpre @ k" "vpre @ v" F] pre i(8,9) by auto
  have "weights_fit M (layer_name l ''attn_output.weight'') (emb_dim M) (emb_dim M)" using ok(2) by (simp add: layer_fits_def)
  then obtain y where y: "matvec F M (layer_name l ''attn_output.weight'') a (emb_dim M) (emb_dim M) = Inr y" "length y = emb_dim M"
    using matvec_ok [of M "layer_name l ''attn_output.weight''" "emb_dim M" "emb_dim M" a F] a(2) by auto
  show ?thesis using i a y len(1) by (simp add: att_core_def)
qed

lemma ffn_block_ok:
  assumes ok: "dims_ok M" "layer_fits M l" and len: "length x = emb_dim M"
  shows "\<exists>y. ffn_block F M l x = Inr y \<and> length y = emb_dim M"
proof -
  have w: "floats_fit M (layer_name l ''ffn_norm.weight'') (emb_dim M)" "weights_fit M (layer_name l ''ffn_gate.weight'') (emb_dim M) (mlp_dim M)"
    "weights_fit M (layer_name l ''ffn_up.weight'') (emb_dim M) (mlp_dim M)" "weights_fit M (layer_name l ''ffn_down.weight'') (mlp_dim M) (emb_dim M)"
    using ok(2) by (auto simp: layer_fits_def)
  obtain xn where xn: "norm_by F M (layer_name l ''ffn_norm.weight'') x = Inr xn" "length xn = emb_dim M" using norm_by_ok [OF ok(1) w(1) len] by blast
  obtain g u where g: "matvec F M (layer_name l ''ffn_gate.weight'') xn (emb_dim M) (mlp_dim M) = Inr g" "length g = mlp_dim M"
    and u: "matvec F M (layer_name l ''ffn_up.weight'') xn (emb_dim M) (mlp_dim M) = Inr u" "length u = mlp_dim M"
    using matvec_ok [OF w(2), of xn F] matvec_ok [OF w(3), of xn F] xn(2) by auto
  have "length (swiglu F g u) = mlp_dim M" using g(2) u(2) by (simp add: swiglu_def)
  then obtain y where "matvec F M (layer_name l ''ffn_down.weight'') (swiglu F g u) (mlp_dim M) (emb_dim M) = Inr y" "length y = emb_dim M"
    using matvec_ok [OF w(4), of "swiglu F g u" F] by auto
  then show ?thesis using xn g u len by (simp add: ffn_block_def)
qed

lemma layer_core_ok:
  assumes "dims_ok M" "layer_fits M l" "length x = emb_dim M" "hd_dim M div 2 \<le> length freq" "length kpre = nat p * kv_dim M" "length vpre = nat p * kv_dim M"
  shows "\<exists>x' k v. layer_core F M l p x freq kpre vpre = Inr (x', k, v) \<and> length x' = emb_dim M \<and> length k = kv_dim M \<and> length v = kv_dim M"
  using att_core_ok [OF assms, of F] ffn_block_ok [OF assms(1,2), of _ F] unfolding layer_core_def by fastforce

text \<open>The layer stores the keys and values it computes and touches nothing else of the cache.\<close>

lemma layer_step_core:
  assumes ok: "dims_ok M" "layer_fits M l" and fits: "state_fits M c st" "l < n_layers M" and pos: "nat (st_current_pos st) < c"
  defines "n \<equiv> nat (st_current_pos st) * kv_dim M"
  shows "layer_step F M l st =
    sbind (layer_core F M l (st_current_pos st) (st_x st) (st_inv_freq st) (take n (st_k_cache st ! l)) (take n (st_v_cache st ! l)))
      (\<lambda>(x, k, v). Inr (put_kv M l x k v st))"
proof -
  let ?p = "nat (st_current_pos st)" and ?K = "st_k_cache st ! l" and ?V = "st_v_cache st ! l"
  have "Suc ?p * kv_dim M \<le> c * kv_dim M" using pos by (intro mult_le_mono1) simp
  then have rows: "n + kv_dim M \<le> length ?K" "n + kv_dim M \<le> length ?V" "l < length (st_k_cache st)" "l < length (st_v_cache st)"
    and len: "length (st_x st) = emb_dim M" "hd_dim M div 2 \<le> length (st_inv_freq st)"
    using fits unfolding state_fits_def list_all_length n_def by fastforce+
  obtain x k v where core: "att_core F M l (st_current_pos st) (st_x st) (st_inv_freq st) (take n ?K) (take n ?V) = Inr (x, k, v)"
      and kv: "length k = kv_dim M" "length v = kv_dim M"
    using att_core_ok [OF ok len, of "take n ?K" "st_current_pos st" "take n ?V" F] rows by (auto simp: n_def)
  have m: "Suc ?p * kv_dim M = n + kv_dim M" by (simp add: n_def)
  have at: "attend F M ?p q (overwrite ?K n k') (overwrite ?V n v') = attend F M ?p q (take n ?K @ k') (take n ?V @ v')"
    if "length k' = kv_dim M" "length v' = kv_dim M" for q k' v'
    using attend_prefix [OF ok(1), of ?p "overwrite ?K n k'" "overwrite ?V n v'" F q] that rows take_overwrite [of n ?K k'] take_overwrite [of n ?V v']
    unfolding m by simp
  have block: "attention_block F M l st = Inr (put_kv M l x k v st)"
    using core kv rows at unfolding att_core_def attention_block_def Let_def
    by (auto simp: sbind_Inr store_kv_def put_kv_def n_def)
  show ?thesis unfolding layer_step_def layer_core_def block core by (simp add: sbind_def put_kv_def split: sum.splits)
qed

section \<open>The forward pass on well-formed models\<close>

text \<open>A row after a store at \<open>n\<close>: only the slot of \<open>m\<close> elements may have changed.\<close>

definition row_frame :: "nat \<Rightarrow> nat \<Rightarrow> f32 list \<Rightarrow> f32 list \<Rightarrow> bool" where
  "row_frame n m row row' \<longleftrightarrow> length row' = length row \<and> take n row' = take n row \<and> drop (n + m) row' = drop (n + m) row"

definition caches_frame :: "loaded_model \<Rightarrow> nat \<Rightarrow> inference_state \<Rightarrow> inference_state \<Rightarrow> bool" where
  "caches_frame M p st st' \<longleftrightarrow> st_current_pos st' = st_current_pos st \<and> st_inv_freq st' = st_inv_freq st \<and>
     list_all2 (row_frame (p * kv_dim M) (kv_dim M)) (st_k_cache st) (st_k_cache st') \<and>
     list_all2 (row_frame (p * kv_dim M) (kv_dim M)) (st_v_cache st) (st_v_cache st')"

lemma row_frame_refl [simp]: "row_frame n m row row"
  by (simp add: row_frame_def)

lemma row_frame_trans: "row_frame n m a b \<Longrightarrow> row_frame n m b c \<Longrightarrow> row_frame n m a c"
  by (simp add: row_frame_def)

lemma caches_frame_refl [simp]: "caches_frame M p st st"
  by (simp add: caches_frame_def list.rel_refl)

lemma row_frames_trans:
  "list_all2 (row_frame n m) as bs \<Longrightarrow> list_all2 (row_frame n m) bs cs \<Longrightarrow> list_all2 (row_frame n m) as cs"
  using row_frame_trans by (auto simp: list_all2_conv_all_nth)

lemma caches_frame_trans: "caches_frame M p a b \<Longrightarrow> caches_frame M p b c \<Longrightarrow> caches_frame M p a c"
  unfolding caches_frame_def using row_frames_trans by auto

lemma row_frame_overwrite:
  "n + length ys \<le> length row \<Longrightarrow> length ys = m \<Longrightarrow> row_frame n m row (overwrite row n ys)"
  by (simp add: row_frame_def overwrite_def)

lemma list_all2_update: "(\<And>x. x \<in> set xs \<Longrightarrow> R x x) \<Longrightarrow> (l < length xs \<Longrightarrow> R (xs ! l) y) \<Longrightarrow> list_all2 R xs (xs[l := y])"
  unfolding list_all2_conv_all_nth by (metis length_list_update nth_list_update_eq nth_list_update_neq nth_mem)

lemma fits_rows:
  assumes "state_fits M c st" "i < n_layers M" "p < c"
  shows "p * kv_dim M + kv_dim M \<le> length (st_k_cache st ! i)" "p * kv_dim M + kv_dim M \<le> length (st_v_cache st ! i)"
    "i < length (st_k_cache st)" "i < length (st_v_cache st)"
proof -
  have "Suc p * kv_dim M \<le> c * kv_dim M" using assms(3) by (intro mult_le_mono1) simp
  then have m: "p * kv_dim M + kv_dim M \<le> c * kv_dim M" by simp
  show i: "i < length (st_k_cache st)" "i < length (st_v_cache st)" using assms(1,2) by (simp_all add: state_fits_def)
  have "c * kv_dim M \<le> length (st_k_cache st ! i)" "c * kv_dim M \<le> length (st_v_cache st ! i)"
    using assms(1) i unfolding state_fits_def list_all_length by blast+
  then show "p * kv_dim M + kv_dim M \<le> length (st_k_cache st ! i)" "p * kv_dim M + kv_dim M \<le> length (st_v_cache st ! i)"
    using m by (blast intro: order_trans)+
qed

lemma list_all_update: "list_all P xs \<Longrightarrow> (l < length xs \<Longrightarrow> P y) \<Longrightarrow> list_all P (xs[l := y])"
  unfolding list_all_length by (metis length_list_update nth_list_update_eq nth_list_update_neq)

lemma put_kv_frame:
  assumes "state_fits M c st" "l < n_layers M" "nat (st_current_pos st) < c" "length x = emb_dim M" "length k = kv_dim M" "length v = kv_dim M"
  shows "state_fits M c (put_kv M l x k v st)" "caches_frame M (nat (st_current_pos st)) st (put_kv M l x k v st)"
proof -
  let ?n = "nat (st_current_pos st) * kv_dim M"
  note rows = fits_rows [OF assms(1-3)]
  have len: "length (overwrite (st_k_cache st ! l) ?n k) = length (st_k_cache st ! l)" "length (overwrite (st_v_cache st ! l) ?n v) = length (st_v_cache st ! l)"
    using rows assms(5,6) by simp_all
  have "c * kv_dim M \<le> length (st_k_cache st ! l)" "c * kv_dim M \<le> length (st_v_cache st ! l)"
    using assms(1) rows(3,4) unfolding state_fits_def list_all_length by blast+
  then show "state_fits M c (put_kv M l x k v st)"
    using assms(1,4) unfolding state_fits_def put_kv_def by (simp add: list_all_update len)
  show "caches_frame M (nat (st_current_pos st)) st (put_kv M l x k v st)"
    using rows assms(5,6) by (auto simp: caches_frame_def put_kv_def intro!: list_all2_update row_frame_overwrite)
qed

text \<open>Two states that give the same result: equal activations and frequencies, cache rows equal below the position (layers from \<open>l\<close> on)
  or including it (earlier layers).\<close>

definition same_upto :: "loaded_model \<Rightarrow> nat \<Rightarrow> inference_state \<Rightarrow> inference_state \<Rightarrow> bool" where
  "same_upto M l st st2 \<longleftrightarrow>
     (let n = (\<lambda>i. (if i < l then Suc (nat (st_current_pos st)) else nat (st_current_pos st)) * kv_dim M)
      in st_x st2 = st_x st \<and> st_current_pos st2 = st_current_pos st \<and> st_inv_freq st2 = st_inv_freq st \<and>
         (\<forall>i<n_layers M. take (n i) (st_k_cache st2 ! i) = take (n i) (st_k_cache st ! i) \<and> take (n i) (st_v_cache st2 ! i) = take (n i) (st_v_cache st ! i)))"

lemma same_upto_D:
  assumes "same_upto M l st st2"
  shows "st_x st2 = st_x st" "st_current_pos st2 = st_current_pos st" "st_inv_freq st2 = st_inv_freq st"
    "i < n_layers M \<Longrightarrow> l \<le> i \<Longrightarrow> take (nat (st_current_pos st) * kv_dim M) (st_k_cache st2 ! i) = take (nat (st_current_pos st) * kv_dim M) (st_k_cache st ! i)"
    "i < n_layers M \<Longrightarrow> l \<le> i \<Longrightarrow> take (nat (st_current_pos st) * kv_dim M) (st_v_cache st2 ! i) = take (nat (st_current_pos st) * kv_dim M) (st_v_cache st ! i)"
    "i < n_layers M \<Longrightarrow> i < l \<Longrightarrow> take (Suc (nat (st_current_pos st)) * kv_dim M) (st_k_cache st2 ! i) = take (Suc (nat (st_current_pos st)) * kv_dim M) (st_k_cache st ! i)"
    "i < n_layers M \<Longrightarrow> i < l \<Longrightarrow> take (Suc (nat (st_current_pos st)) * kv_dim M) (st_v_cache st2 ! i) = take (Suc (nat (st_current_pos st)) * kv_dim M) (st_v_cache st ! i)"
proof -
  let ?n = "(if i < l then Suc (nat (st_current_pos st)) else nat (st_current_pos st)) * kv_dim M"
  have a: "take ?n (st_k_cache st2 ! i) = take ?n (st_k_cache st ! i) \<and> take ?n (st_v_cache st2 ! i) = take ?n (st_v_cache st ! i)" if "i < n_layers M"
    using assms that unfolding same_upto_def Let_def by blast
  have lo: "?n = nat (st_current_pos st) * kv_dim M" if "l \<le> i" using that by simp
  have hi: "?n = Suc (nat (st_current_pos st)) * kv_dim M" if "i < l" using that by simp
  show "i < n_layers M \<Longrightarrow> l \<le> i \<Longrightarrow> take (nat (st_current_pos st) * kv_dim M) (st_k_cache st2 ! i) = take (nat (st_current_pos st) * kv_dim M) (st_k_cache st ! i)"
    "i < n_layers M \<Longrightarrow> l \<le> i \<Longrightarrow> take (nat (st_current_pos st) * kv_dim M) (st_v_cache st2 ! i) = take (nat (st_current_pos st) * kv_dim M) (st_v_cache st ! i)"
    using a by (simp_all add: lo not_less)
  show "i < n_layers M \<Longrightarrow> i < l \<Longrightarrow> take (Suc (nat (st_current_pos st)) * kv_dim M) (st_k_cache st2 ! i) = take (Suc (nat (st_current_pos st)) * kv_dim M) (st_k_cache st ! i)"
    "i < n_layers M \<Longrightarrow> i < l \<Longrightarrow> take (Suc (nat (st_current_pos st)) * kv_dim M) (st_v_cache st2 ! i) = take (Suc (nat (st_current_pos st)) * kv_dim M) (st_v_cache st ! i)"
    using a by simp_all
qed (use assms in \<open>simp_all add: same_upto_def Let_def\<close>)

lemma same_uptoI:
  assumes "st_x st2 = st_x st" "st_current_pos st2 = st_current_pos st" "st_inv_freq st2 = st_inv_freq st"
    and "\<And>i. i < n_layers M \<Longrightarrow> l \<le> i \<Longrightarrow> take (nat (st_current_pos st) * kv_dim M) (st_k_cache st2 ! i) = take (nat (st_current_pos st) * kv_dim M) (st_k_cache st ! i) \<and>
      take (nat (st_current_pos st) * kv_dim M) (st_v_cache st2 ! i) = take (nat (st_current_pos st) * kv_dim M) (st_v_cache st ! i)"
    and "\<And>i. i < n_layers M \<Longrightarrow> i < l \<Longrightarrow> take (Suc (nat (st_current_pos st)) * kv_dim M) (st_k_cache st2 ! i) = take (Suc (nat (st_current_pos st)) * kv_dim M) (st_k_cache st ! i) \<and>
      take (Suc (nat (st_current_pos st)) * kv_dim M) (st_v_cache st2 ! i) = take (Suc (nat (st_current_pos st)) * kv_dim M) (st_v_cache st ! i)"
  shows "same_upto M l st st2"
  unfolding same_upto_def Let_def
proof (intro conjI allI impI assms(1-3))
  fix i
  assume i: "i < n_layers M"
  let ?n = "(if i < l then Suc (nat (st_current_pos st)) else nat (st_current_pos st)) * kv_dim M"
  show "take ?n (st_k_cache st2 ! i) = take ?n (st_k_cache st ! i)" "take ?n (st_v_cache st2 ! i) = take ?n (st_v_cache st ! i)"
    using assms(4,5) [OF i] by (cases "i < l", simp_all add: not_less)+
qed

lemma take_slot:
  fixes a :: "f32 list"
  shows "p * n \<le> length a \<Longrightarrow> length y = n \<Longrightarrow> take (Suc p * n) (overwrite a (p * n) y) = take (p * n) a @ y"
  using take_overwrite [of "p * n" a y] by (simp add: add.commute)

lemma put_kv_same:
  assumes "same_upto M l st st2" "state_fits M c st" "state_fits M c st2" "l < n_layers M" "nat (st_current_pos st) < c"
    "length k = kv_dim M" "length v = kv_dim M"
  shows "same_upto M (Suc l) (put_kv M l x k v st) (put_kv M l x k v st2)"
proof -
  note D = same_upto_D [OF assms(1)]
  note r1 = fits_rows [OF assms(2,4,5)] and r2 = fits_rows [OF assms(3,4,5)]
  show ?thesis
  proof (rule same_uptoI)
    fix i
    assume i: "i < n_layers M" "i < Suc l"
    show "take (Suc (nat (st_current_pos (put_kv M l x k v st))) * kv_dim M) (st_k_cache (put_kv M l x k v st2) ! i) =
        take (Suc (nat (st_current_pos (put_kv M l x k v st))) * kv_dim M) (st_k_cache (put_kv M l x k v st) ! i) \<and>
        take (Suc (nat (st_current_pos (put_kv M l x k v st))) * kv_dim M) (st_v_cache (put_kv M l x k v st2) ! i) =
        take (Suc (nat (st_current_pos (put_kv M l x k v st))) * kv_dim M) (st_v_cache (put_kv M l x k v st) ! i)"
    proof (cases "i = l")
      case True
      then show ?thesis using D(2) D(4,5) [of l] r1 r2 assms(4,6,7) by (simp add: put_kv_def take_slot del: mult_Suc)
    next
      case False
      then show ?thesis using D(6,7) [of i] i by (simp add: put_kv_def)
    qed
  next
    fix i
    assume "i < n_layers M" "Suc l \<le> i"
    then show "take (nat (st_current_pos (put_kv M l x k v st)) * kv_dim M) (st_k_cache (put_kv M l x k v st2) ! i) =
        take (nat (st_current_pos (put_kv M l x k v st)) * kv_dim M) (st_k_cache (put_kv M l x k v st) ! i) \<and>
        take (nat (st_current_pos (put_kv M l x k v st)) * kv_dim M) (st_v_cache (put_kv M l x k v st2) ! i) =
        take (nat (st_current_pos (put_kv M l x k v st)) * kv_dim M) (st_v_cache (put_kv M l x k v st) ! i)"
      using D(4,5) [of i] by (simp add: put_kv_def)
  qed (use D in \<open>simp_all add: put_kv_def\<close>)
qed

lemma layers_ok:
  assumes ok: "model_ok M" and fits: "state_fits M c st" and pos: "nat (st_current_pos st) < c" and l: "l \<le> n_layers M"
  shows "\<exists>st'. sfold (layer_step F M) [0..<l] st = Inr st' \<and> state_fits M c st' \<and> caches_frame M (nat (st_current_pos st)) st st'"
  using l
proof (induction l)
  case (Suc l)
  obtain s where s: "sfold (layer_step F M) [0..<l] st = Inr s" "state_fits M c s" "caches_frame M (nat (st_current_pos st)) st s"
    using Suc by auto
  have sp: "st_current_pos s = st_current_pos st" using s(3) by (simp add: caches_frame_def)
  have lf: "dims_ok M" "layer_fits M l" using ok Suc.prems by (auto simp: model_ok_def list_all_iff)
  have row: "nat (st_current_pos s) * kv_dim M \<le> length (st_k_cache s ! l)" "nat (st_current_pos s) * kv_dim M \<le> length (st_v_cache s ! l)"
    using fits_rows [OF s(2), of l "nat (st_current_pos s)"] Suc.prems pos sp by auto
  obtain x k v where core: "layer_core F M l (st_current_pos s) (st_x s) (st_inv_freq s) (take (nat (st_current_pos s) * kv_dim M) (st_k_cache s ! l))
       (take (nat (st_current_pos s) * kv_dim M) (st_v_cache s ! l)) = Inr (x, k, v)" "length x = emb_dim M" "length k = kv_dim M" "length v = kv_dim M"
    using layer_core_ok [OF lf, of "st_x s" "st_inv_freq s" "take (nat (st_current_pos s) * kv_dim M) (st_k_cache s ! l)" "st_current_pos s"
        "take (nat (st_current_pos s) * kv_dim M) (st_v_cache s ! l)" F] s(2) row by (auto simp: state_fits_def)
  have "layer_step F M l s = Inr (put_kv M l x k v s)"
    using layer_step_core [OF lf s(2), of F] Suc.prems pos sp core(1) by simp
  moreover have "state_fits M c (put_kv M l x k v s)" "caches_frame M (nat (st_current_pos s)) s (put_kv M l x k v s)"
    using put_kv_frame [OF s(2)] Suc.prems pos sp core(2-4) by auto
  ultimately show ?case using s sp caches_frame_trans by (auto simp: sfold_append)
qed (use fits in simp)

lemma layers_same:
  assumes ok: "model_ok M" and fits: "state_fits M c st" "state_fits M c st2" and pos: "nat (st_current_pos st) < c" and same: "same_upto M 0 st st2"
    and l: "l \<le> n_layers M" and run: "sfold (layer_step F M) [0..<l] st = Inr st'"
  shows "\<exists>st2'. sfold (layer_step F M) [0..<l] st2 = Inr st2' \<and> same_upto M l st' st2' \<and> state_fits M c st' \<and> state_fits M c st2'"
  using l run
proof (induction l arbitrary: st')
  case (Suc l)
  have p2: "st_current_pos st2 = st_current_pos st" using same by (simp add: same_upto_def Let_def)
  obtain s where s: "sfold (layer_step F M) [0..<l] st = Inr s" "layer_step F M l s = Inr st'"
    using Suc.prems(2) by (auto simp: sfold_append sbind_Inr)
  obtain s2 where s2: "sfold (layer_step F M) [0..<l] st2 = Inr s2" "same_upto M l s s2" "state_fits M c s" "state_fits M c s2"
    using Suc.IH [OF _ s(1)] Suc.prems(1) by auto
  have sp: "st_current_pos s = st_current_pos st" "st_current_pos s2 = st_current_pos st"
    using layers_ok [OF ok fits(1) pos, of l F] layers_ok [OF ok fits(2), of l F] s(1) s2(1) pos p2 Suc.prems(1) by (auto simp: caches_frame_def)
  have lf: "dims_ok M" "layer_fits M l" using ok Suc.prems by (auto simp: model_ok_def list_all_iff)
  let ?n = "nat (st_current_pos st) * kv_dim M"
  have eq: "st_x s2 = st_x s" "st_inv_freq s2 = st_inv_freq s" "take ?n (st_k_cache s2 ! l) = take ?n (st_k_cache s ! l)" "take ?n (st_v_cache s2 ! l) = take ?n (st_v_cache s ! l)"
    using same_upto_D [OF s2(2)] sp Suc.prems(1) by auto
  let ?core = "layer_core F M l (st_current_pos st) (st_x s) (st_inv_freq s) (take ?n (st_k_cache s ! l)) (take ?n (st_v_cache s ! l))"
  have step: "layer_step F M l s = sbind ?core (\<lambda>(x, k, v). Inr (put_kv M l x k v s))" "layer_step F M l s2 = sbind ?core (\<lambda>(x, k, v). Inr (put_kv M l x k v s2))"
    using layer_step_core [OF lf s2(3), of F] layer_step_core [OF lf s2(4), of F] Suc.prems(1) pos sp eq by auto
  then obtain x k v where core: "?core = Inr (x, k, v)" "st' = put_kv M l x k v s" using s(2) unfolding step(1) by (auto simp: sbind_Inr)
  have row: "?n \<le> length (st_k_cache s ! l)" "?n \<le> length (st_v_cache s ! l)" using fits_rows [OF s2(3), of l "nat (st_current_pos st)"] Suc.prems pos by auto
  have len: "length x = emb_dim M" "length k = kv_dim M" "length v = kv_dim M"
    using layer_core_ok [OF lf, of "st_x s" "st_inv_freq s" "take ?n (st_k_cache s ! l)" "st_current_pos st" "take ?n (st_v_cache s ! l)" F] s2(3) row core(1)
    by (auto simp: state_fits_def)
  have "same_upto M (Suc l) (put_kv M l x k v s) (put_kv M l x k v s2)"
    by (rule put_kv_same [OF s2(2-4) _ _ len(2,3)]) (use Suc.prems pos sp in auto)
  moreover have "state_fits M c (put_kv M l x k v s)" "state_fits M c (put_kv M l x k v s2)"
    using put_kv_frame(1) [OF s2(3) _ _ len] put_kv_frame(1) [OF s2(4) _ _ len] Suc.prems pos sp by auto
  ultimately show ?case using s2(1) step(2) core by (simp add: sfold_append)
qed (use fits same in simp)

text \<open>Cache rows that agree on the first \<open>n\<close> positions, with the same frequencies.\<close>

definition agree :: "loaded_model \<Rightarrow> nat \<Rightarrow> inference_state \<Rightarrow> inference_state \<Rightarrow> bool" where
  "agree M n st st2 \<longleftrightarrow> st_inv_freq st2 = st_inv_freq st \<and>
     (\<forall>i<n_layers M. take (n * kv_dim M) (st_k_cache st2 ! i) = take (n * kv_dim M) (st_k_cache st ! i) \<and>
                     take (n * kv_dim M) (st_v_cache st2 ! i) = take (n * kv_dim M) (st_v_cache st ! i))"

definition token_ok :: "loaded_model \<Rightarrow> int \<Rightarrow> bool" where
  "token_ok M tok \<longleftrightarrow> 0 \<le> tok \<and> tok < int (n_vocab M)"

lemma length_dequantized:
  "list_all (\<lambda>b. length (q4_qs b) = 16) bs4 \<Longrightarrow> length (dequantize_q4_row F bs4) = 32 * length bs4"
  "list_all (\<lambda>b. length (q8_qs b) = 32) bs8 \<Longrightarrow> length (dequantize_q8_row F bs8) = 32 * length bs8"
  by (induction bs4) (auto simp: dequantize_q4_row_def, induction bs8, auto simp: dequantize_q8_row_def)

lemma embed_token_ok:
  assumes "model_ok M" "token_ok M tok" "length x = emb_dim M" "length x2 = emb_dim M"
  shows "\<exists>ty data y. tensor_bytes M ''token_embd.weight'' = Inr (ty, data) \<and> (ty = Q4_0 \<or> ty = Q8_0) \<and>
    embed_token F M ty data (nat tok) x = Inr y \<and> embed_token F M ty data (nat tok) x2 = Inr y \<and> length y = emb_dim M"
proof -
  let ?nb = "emb_dim M div 32"
  obtain ty data where d: "tensor_bytes M ''token_embd.weight'' = Inr (ty, data)" "block_bytes ty * (n_vocab M * ?nb) \<le> length data"
    using assms(1) by (auto simp: model_ok_def weights_fit_def split: sum.splits)
  have "emb_dim M mod 32 = 0" using assms(1) by (simp add: model_ok_def dims_ok_def)
  then have nb: "32 * ?nb = emb_dim M" by auto
  obtain t where t: "map_of (dm_tensors (lm_model M)) ''token_embd.weight'' = Some t" "t_type t = ty"
    using d(1) by (auto simp: tensor_bytes_def split: option.splits)
  have "native_tensor_supported ''token_embd.weight'' ty" using map_of_SomeD [OF t(1)] t(2) assms(1) by (auto simp: model_ok_def list_all_iff)
  moreover have "\<not> contains ''token_embd.weight'' ''norm.weight''" "\<not> ends_with ''token_embd.weight'' ''.bias''" by code_simp+
  ultimately have ty: "ty = Q4_0 \<or> ty = Q8_0" by (simp add: native_tensor_supported_def Let_def)
  have r: "nat tok < n_vocab M" using assms(2) by (auto simp: token_ok_def)
  have "\<exists>y. embed_token F M ty data (nat tok) x = Inr y \<and> embed_token F M ty data (nat tok) x2 = Inr y \<and> length y = emb_dim M"
    using blocks_ok [OF d(2) r] nb assms(3,4)
    by (cases "ty = Q4_0") (auto simp: embed_token_def Let_def length_dequantized)
  then show ?thesis using d(1) ty by blast
qed

text \<open>The forward pass in closed form: embedding, layers, projection.\<close>

lemma forward_pass_layers:
  assumes "model_ok M" "token_ok M tok" "0 \<le> st_current_pos st"
    and "tensor_bytes M ''token_embd.weight'' = Inr (ty, data)" "ty = Q4_0 \<or> ty = Q8_0" "embed_token F M ty data (nat tok) (st_x st) = Inr x0"
  shows "forward_pass F M st tok logits =
    sbind (sfold (layer_step F M) [0..<n_layers M] (st\<lparr>st_x := x0\<rparr>)) (\<lambda>st1.
    sbind (norm_by F M ''output_norm.weight'' (st_x st1)) (\<lambda>xn.
    sbind (matvec F M (if has_tensor M ''output.weight'' then ''output.weight'' else ''token_embd.weight'') xn (emb_dim M) (n_vocab M)) (\<lambda>lg.
      Inr (True, st1\<lparr>st_x := xn\<rparr>, lg @ drop (n_vocab M) logits))))"
proof -
  have "vocab_size (cfg_of M) < 2 ^ 31" using assms(1) by (simp add: model_ok_def dims_ok_def)
  then have "sint (vocab_size (cfg_of M)) = int (n_vocab M)"
    using signed_take_bit_int_eq_self [of 31 "uint (vocab_size (cfg_of M))"] uint_ge_0 [of "vocab_size (cfg_of M)"]
    by (simp add: n_vocab_def sint_uint word_less_def del: uint_ge_0)
  moreover have "has_tensor M ''token_embd.weight''" using assms(4) by (auto simp: has_tensor_def tensor_bytes_def split: option.splits)
  moreover have "\<not> list_ex (\<lambda>e. \<not> native_tensor_supported (fst e) (t_type (snd e))) (dm_tensors (lm_model M))"
    using assms(1) by (auto simp: model_ok_def list_all_iff list_ex_iff)
  ultimately show ?thesis using assms(2-) by (auto simp: forward_pass_def token_ok_def)
qed

lemma forward_pass_closed:
  assumes "model_ok M" "token_ok M tok" "0 \<le> st_current_pos st"
    and "tensor_bytes M ''token_embd.weight'' = Inr (ty, data)" "ty = Q4_0 \<or> ty = Q8_0" "embed_token F M ty data (nat tok) (st_x st) = Inr x0"
    and "sfold (layer_step F M) [0..<n_layers M] (st\<lparr>st_x := x0\<rparr>) = Inr st1"
  shows "forward_pass F M st tok logits =
    sbind (norm_by F M ''output_norm.weight'' (st_x st1)) (\<lambda>xn.
    sbind (matvec F M (if has_tensor M ''output.weight'' then ''output.weight'' else ''token_embd.weight'') xn (emb_dim M) (n_vocab M)) (\<lambda>lg.
      Inr (True, st1\<lparr>st_x := xn\<rparr>, lg @ drop (n_vocab M) logits)))"
  using forward_pass_layers [OF assms(1-6)] assms(7) by simp

lemma head_ok:
  assumes "model_ok M" "length x = emb_dim M"
  shows "\<exists>xn lg. norm_by F M ''output_norm.weight'' x = Inr xn \<and> length xn = emb_dim M \<and>
    matvec F M (if has_tensor M ''output.weight'' then ''output.weight'' else ''token_embd.weight'') xn (emb_dim M) (n_vocab M) = Inr lg \<and> length lg = n_vocab M"
proof -
  have w: "dims_ok M" "floats_fit M ''output_norm.weight'' (emb_dim M)"
    "weights_fit M (if has_tensor M ''output.weight'' then ''output.weight'' else ''token_embd.weight'') (emb_dim M) (n_vocab M)"
    using assms(1) by (auto simp: model_ok_def)
  obtain xn where "norm_by F M ''output_norm.weight'' x = Inr xn" "length xn = emb_dim M" using norm_by_ok [OF w(1,2) assms(2)] by blast
  then show ?thesis using matvec_ok [OF w(3), of xn F] by auto
qed

lemma forward_pass_fits:
  assumes ok: "model_ok M" "token_ok M tok" and fits: "state_fits M c st" and pos: "0 \<le> st_current_pos st" "nat (st_current_pos st) < c" and lg: "length logits = n_vocab M"
  shows "\<exists>st' logits'. forward_pass F M st tok logits = Inr (True, st', logits') \<and> state_fits M c st' \<and> length logits' = n_vocab M \<and>
    caches_frame M (nat (st_current_pos st)) st st'"
proof -
  have lx: "length (st_x st) = emb_dim M" using fits by (simp add: state_fits_def)
  obtain ty data x0 where e: "tensor_bytes M ''token_embd.weight'' = Inr (ty, data)" "ty = Q4_0 \<or> ty = Q8_0"
    "embed_token F M ty data (nat tok) (st_x st) = Inr x0" "length x0 = emb_dim M"
    using embed_token_ok [OF ok lx lx, of F] by blast
  let ?st = "st\<lparr>st_x := x0\<rparr>"
  have f0: "state_fits M c ?st" "caches_frame M (nat (st_current_pos st)) st ?st" using fits e(4) by (auto simp: state_fits_def caches_frame_def list.rel_refl)
  obtain st1 where s1: "sfold (layer_step F M) [0..<n_layers M] ?st = Inr st1" "state_fits M c st1" "caches_frame M (nat (st_current_pos st)) ?st st1"
    using layers_ok [OF ok(1) f0(1), of "n_layers M" F] pos by auto
  obtain xn lg where h: "norm_by F M ''output_norm.weight'' (st_x st1) = Inr xn" "length xn = emb_dim M"
    "matvec F M (if has_tensor M ''output.weight'' then ''output.weight'' else ''token_embd.weight'') xn (emb_dim M) (n_vocab M) = Inr lg" "length lg = n_vocab M"
    using head_ok [OF ok(1), of "st_x st1" F] s1(2) by (auto simp: state_fits_def)
  have "state_fits M c (st1\<lparr>st_x := xn\<rparr>)" "caches_frame M (nat (st_current_pos st)) st (st1\<lparr>st_x := xn\<rparr>)"
    using s1(2,3) h(2) f0(2) by (auto simp: state_fits_def caches_frame_def)
  then show ?thesis using forward_pass_closed [OF ok pos(1) e(1-3) s1(1), of logits] h lg by auto
qed

lemma forward_pass_agree:
  assumes ok: "model_ok M" "token_ok M tok" and fits: "state_fits M c st" "state_fits M c st2" and pos: "0 \<le> st_current_pos st" "nat (st_current_pos st) < c"
    and same: "st_current_pos st2 = st_current_pos st" "agree M (nat (st_current_pos st)) st st2" and lg: "length logits = n_vocab M" "length logits2 = n_vocab M"
    and run: "forward_pass F M st tok logits = Inr (True, st', out)"
  shows "\<exists>st2'. forward_pass F M st2 tok logits2 = Inr (True, st2', out) \<and> agree M (Suc (nat (st_current_pos st))) st' st2'"
proof -
  have lx: "length (st_x st) = emb_dim M" "length (st_x st2) = emb_dim M" using fits by (auto simp: state_fits_def)
  obtain ty data x0 where e: "tensor_bytes M ''token_embd.weight'' = Inr (ty, data)" "ty = Q4_0 \<or> ty = Q8_0"
    "embed_token F M ty data (nat tok) (st_x st) = Inr x0" "embed_token F M ty data (nat tok) (st_x st2) = Inr x0" "length x0 = emb_dim M"
    using embed_token_ok [OF ok lx, of F] by blast
  let ?a = "st\<lparr>st_x := x0\<rparr>" and ?b = "st2\<lparr>st_x := x0\<rparr>"
  have f0: "state_fits M c ?a" "state_fits M c ?b" using fits e(5) by (auto simp: state_fits_def)
  have s0: "same_upto M 0 ?a ?b" by (rule same_uptoI) (use same in \<open>auto simp: agree_def\<close>)
  obtain a1 where a1: "sfold (layer_step F M) [0..<n_layers M] ?a = Inr a1" "caches_frame M (nat (st_current_pos st)) ?a a1"
    using layers_ok [OF ok(1) f0(1), of "n_layers M" F] pos by auto
  obtain b1 where b1: "sfold (layer_step F M) [0..<n_layers M] ?b = Inr b1" "same_upto M (n_layers M) a1 b1"
    using layers_same [OF ok(1) f0 _ s0 order_refl a1(1)] pos by auto
  note D = same_upto_D [OF b1(2)]
  have ap: "st_current_pos a1 = st_current_pos st" using a1(2) by (simp add: caches_frame_def)
  have fa: "forward_pass F M st tok logits = sbind (norm_by F M ''output_norm.weight'' (st_x a1)) (\<lambda>xn.
      sbind (matvec F M (if has_tensor M ''output.weight'' then ''output.weight'' else ''token_embd.weight'') xn (emb_dim M) (n_vocab M)) (\<lambda>lg.
      Inr (True, a1\<lparr>st_x := xn\<rparr>, lg)))"
    using forward_pass_closed [OF ok pos(1) e(1-3) a1(1), of logits] lg(1) by simp
  have fb: "forward_pass F M st2 tok logits2 = sbind (norm_by F M ''output_norm.weight'' (st_x a1)) (\<lambda>xn.
      sbind (matvec F M (if has_tensor M ''output.weight'' then ''output.weight'' else ''token_embd.weight'') xn (emb_dim M) (n_vocab M)) (\<lambda>lg.
      Inr (True, b1\<lparr>st_x := xn\<rparr>, lg)))"
    using forward_pass_closed [OF ok _ e(1,2,4) b1(1), of logits2] lg(2) same(1) pos(1) D(1) by simp
  obtain xn where x: "norm_by F M ''output_norm.weight'' (st_x a1) = Inr xn" "st' = a1\<lparr>st_x := xn\<rparr>"
    and o: "matvec F M (if has_tensor M ''output.weight'' then ''output.weight'' else ''token_embd.weight'') xn (emb_dim M) (n_vocab M) = Inr out"
    using run unfolding fa by (auto simp: sbind_Inr)
  have "agree M (Suc (nat (st_current_pos st))) st' (b1\<lparr>st_x := xn\<rparr>)" using D(3) D(6,7) ap unfolding agree_def x(2) by simp
  then show ?thesis using fb x(1) o by simp
qed

section \<open>A small model\<close>

text \<open>One layer, one head of 32 elements, a vocabulary of two tokens, all weights zero.\<close>

definition demo_tensor :: "tensor_type \<Rightarrow> tensor" where
  "demo_tensor ty = \<lparr>t_name = [], t_type = ty, t_shape = [], t_data_offset = 0\<rparr>"

definition demo_model :: loaded_model where
  "demo_model = \<lparr>lm_model = \<lparr>dm_config = default_config\<lparr>context_length := 8, embedding_length := 32, num_layers := 1, num_heads := 1, num_kv_heads := 1,
        head_dim := 32, intermediate_dim := 32, vocab_size := 2\<rparr>,
      dm_vocab = empty_vocab\<lparr>v_tokens := [''a'', ''b'']\<rparr>,
      dm_tensors = map (\<lambda>n. (n, demo_tensor FP32)) [''output_norm.weight'', ''blk.0.attn_norm.weight'', ''blk.0.ffn_norm.weight''] @
        map (\<lambda>n. (n, demo_tensor Q8_0)) [''token_embd.weight'', ''blk.0.attn_q.weight'', ''blk.0.attn_k.weight'', ''blk.0.attn_v.weight'',
          ''blk.0.attn_output.weight'', ''blk.0.ffn_gate.weight'', ''blk.0.ffn_up.weight'', ''blk.0.ffn_down.weight''],
      dm_execution_context = CPU\<rparr>, lm_image = replicate 1088 0, lm_start = 0\<rparr>"

lemma demo_dims:
  "emb_dim demo_model = 32" "hd_dim demo_model = 32" "kv_dim demo_model = 32" "mlp_dim demo_model = 32" "n_heads demo_model = 1" "n_kv_heads demo_model = 1"
  "n_layers demo_model = 1" "n_vocab demo_model = 2" "vocab_size (cfg_of demo_model) = 2" "embedding_length (cfg_of demo_model) = 32" "intermediate_dim (cfg_of demo_model) = 32"
  by (simp_all add: emb_dim_def hd_dim_def kv_dim_def mlp_dim_def n_heads_def n_kv_heads_def n_layers_def n_vocab_def cfg_of_def demo_model_def default_config_def)

lemma demo_bytes:
  "tensor_bytes demo_model n = (case map_of (dm_tensors (lm_model demo_model)) n of None \<Rightarrow> Inl NullPointer | Some t \<Rightarrow> Inr (t_type t, replicate 1088 0))"
proof -
  have "t_data_offset t = 0" if "map_of (dm_tensors (lm_model demo_model)) n = Some t" for t
    using map_of_SomeD [OF that] by (auto simp: demo_model_def demo_tensor_def)
  then show ?thesis by (auto simp: tensor_bytes_def tensor_offset_def demo_model_def split: option.splits)
qed

lemma demo_model_ok: "model_ok demo_model"
proof -
  have t: "map_of (dm_tensors (lm_model demo_model)) n = Some (demo_tensor (if n \<in> {''output_norm.weight'', ''blk.0.attn_norm.weight'', ''blk.0.ffn_norm.weight''} then FP32 else Q8_0))"
    if "n \<in> {''output_norm.weight'', ''blk.0.attn_norm.weight'', ''blk.0.ffn_norm.weight'', ''token_embd.weight'', ''blk.0.attn_q.weight'', ''blk.0.attn_k.weight'', ''blk.0.attn_v.weight'',
          ''blk.0.attn_output.weight'', ''blk.0.ffn_gate.weight'', ''blk.0.ffn_up.weight'', ''blk.0.ffn_down.weight''}" for n
    using that by (auto simp: demo_model_def)
  have "nat_digits 0 = ''0''" by code_simp
  then have n: "layer_name 0 x = ''blk.0.'' @ x" for x by (simp add: layer_name_def)
  have h: "\<not> has_tensor demo_model ''blk.0.attn_q.bias''" "\<not> has_tensor demo_model ''blk.0.attn_k.bias''" "\<not> has_tensor demo_model ''blk.0.attn_v.bias''" "\<not> has_tensor demo_model ''output.weight''"
    by (simp_all add: has_tensor_def demo_model_def)
  have "list_all (\<lambda>e. native_tensor_supported (fst e) (t_type (snd e))) (dm_tensors (lm_model demo_model))" by code_simp
  moreover have "layer_fits demo_model 0"
    by (simp add: layer_fits_def projection_fits_def bias_fits_def weights_fit_def floats_fit_def demo_bytes n h t demo_dims block_bytes_def demo_tensor_def)
  moreover have "dims_ok demo_model" by (simp add: dims_ok_def demo_dims)
  ultimately show ?thesis
    by (simp add: model_ok_def h weights_fit_def floats_fit_def demo_bytes t demo_dims block_bytes_def demo_tensor_def)
qed


definition demo_state :: inference_state where
  "demo_state = \<lparr>st_x = replicate 32 0, st_k_cache = [replicate 256 0], st_v_cache = [replicate 256 0], st_inv_freq = replicate 16 0, st_current_pos = 0\<rparr>"

lemma demo_state_fits: "state_fits demo_model 8 demo_state"
  by (simp add: state_fits_def demo_dims demo_state_def)


end
