(* ===== verification/Generation.thy ===== *)
theory Generation
  imports Forward_Pass
begin

text \<open>
  The generation loop (\<open>generate\<close> of \<open>infer.cpp\<close>) with its reuse of a session's KV cache, the sampler, and the mean-pooled embedding
  (\<open>compute_embedding\<close>).

  The loops take the forward pass as an argument \<open>fwd\<close>, which \<open>generate\<close> instantiates with \<open>forward_pass\<close>. \<open>std::nth_element\<close>
  and the draws of \<open>std::discrete_distribution\<close> are the record \<open>sampler\<close> (the draw of a step is a function of the step and the
  probabilities). The penalised logits of a step need not be passed on, since a forward pass that succeeds overwrites them all. The texts given to the callback are returned in order. A session's mutex is held for the whole call.
\<close>

unbundle bit_operations_syntax

section \<open>Sampling\<close>

record sampler =
  smp_nth :: "nat \<Rightarrow> (f32 \<times> int) list \<Rightarrow> (f32 \<times> int) list"
  smp_draw :: "nat \<Rightarrow> f32 list \<Rightarrow> nat"

definition f32_eq :: "f32 \<Rightarrow> f32 \<Rightarrow> bool" where
  "f32_eq a b \<longleftrightarrow> f32_le a b \<and> f32_le b a"

definition f32_inf :: "f32 \<Rightarrow> bool" where
  "f32_inf a \<longleftrightarrow> f32_mag a = 0x7F800000"

definition penalize :: "float_ops \<Rightarrow> f32 \<Rightarrow> int \<Rightarrow> f32 list \<Rightarrow> f32 list" where
  "penalize F repetition_penalty tok logits =
     (if 0 \<le> tok \<and> tok < int (length logits)
      then logits[nat tok := (if f32_lt f_zero (logits ! nat tok) then f_div F (logits ! nat tok) repetition_penalty
                             else f_mul F (logits ! nat tok) repetition_penalty)]
      else logits)"

definition apply_penalty :: "float_ops \<Rightarrow> f32 \<Rightarrow> int list \<Rightarrow> f32 list \<Rightarrow> f32 list" where
  "apply_penalty F repetition_penalty generated logits =
     (if f32_eq repetition_penalty f_one then logits else fold (penalize F repetition_penalty) generated logits)"

text \<open>The first index of a greatest key, from \<open>i\<close> on.\<close>

fun argmax :: "nat \<Rightarrow> f32 list \<Rightarrow> f32 \<Rightarrow> nat \<Rightarrow> nat" where
  "argmax i [] max_val best = best"
| "argmax i (x # xs) max_val best = (if f32_lt max_val x then argmax (Suc i) xs x i else argmax (Suc i) xs max_val best)"

definition TOP_K :: nat where "TOP_K = 40"

definition sample_token :: "float_ops \<Rightarrow> sampler \<Rightarrow> f32 \<Rightarrow> nat \<Rightarrow> f32 list \<Rightarrow> mem_error + int" where
  "sample_token F S temperature step logits =
     (case logits of
        [] \<Rightarrow> Inl OutOfBounds
      | l0 # ls \<Rightarrow>
          if f32_le temperature 0x3C23D70A then Inr (int (argmax 1 ls l0 0))
          else
            let candidates = smp_nth S (min TOP_K (length logits)) (zip logits (map int [0..<length logits]));
                k = min TOP_K (length logits);
                top = take k candidates;
                max_logit = softmax_max (map fst top) 0xCE6E6B28;
                probs = map (\<lambda>c. f_exp F (f_div F (f_sub F (fst c) max_logit) temperature)) top;
                tot = foldl (f_add F) f_zero probs
            in if f32_le tot f_zero \<or> f32_nan tot \<or> f32_inf tot
               then Inr (snd (candidates ! argmax 1 (tl (map fst top)) (fst (candidates ! 0)) 0))
               else Inr (snd (candidates ! smp_draw S step (map (\<lambda>p. f_div F p tot) probs))))"

definition eos_strings :: "string list" where
  "eos_strings = [''<|im_end|>'', ''<|endoftext|>'', ''</s>'', ''<eos>'', ''<|im_start|>'', ''<|eot_id|>'']"

definition is_eos :: "dense_model \<Rightarrow> int \<Rightarrow> bool" where
  "is_eos m tok \<longleftrightarrow> tok = eos_token_id (dm_config m) \<or>
     0 \<le> tok \<and> tok < int (length (v_tokens (dm_vocab m))) \<and> v_tokens (dm_vocab m) ! nat tok \<in> set eos_strings"

section \<open>The loops\<close>

type_synonym decoder_step = "inference_state \<Rightarrow> int \<Rightarrow> f32 list \<Rightarrow> mem_error + bool \<times> inference_state \<times> f32 list"

definition inc_pos :: "inference_state \<Rightarrow> inference_state" where
  "inc_pos st = st\<lparr>st_current_pos := st_current_pos st + 1\<rparr>"

text \<open>Prefill: stops at the end of the context; \<open>False\<close> means that a forward pass failed.\<close>

fun prefill :: "decoder_step \<Rightarrow> int \<Rightarrow> int list \<Rightarrow> inference_state \<Rightarrow> f32 list \<Rightarrow> mem_error + bool \<times> inference_state \<times> f32 list" where
  "prefill fwd ctx_len [] st logits = Inr (True, st, logits)"
| "prefill fwd ctx_len (t # ts) st logits =
     (if ctx_len - 1 \<le> st_current_pos st then Inr (True, st, logits)
      else sbind (fwd st t logits) (\<lambda>(ok, st1, logits1).
        if ok then prefill fwd ctx_len ts (inc_pos st1) logits1 else Inr (False, st1, logits1)))"

text \<open>What the generation loop returns: the tokens it produced, the state, and whether a forward pass failed.\<close>

record gen_result =
  gr_tokens :: "int list"
  gr_state :: inference_state
  gr_failed :: bool

fun gen_loop ::
  "decoder_step \<Rightarrow> (nat \<Rightarrow> int list \<Rightarrow> f32 list \<Rightarrow> mem_error + int) \<Rightarrow> (int \<Rightarrow> bool) \<Rightarrow> int \<Rightarrow> nat \<Rightarrow> nat \<Rightarrow> int \<Rightarrow> int list \<Rightarrow> inference_state \<Rightarrow> f32 list
     \<Rightarrow> mem_error + gen_result" where
  "gen_loop fwd pick eos ctx_len 0 step tok gen st logits = Inr \<lparr>gr_tokens = gen, gr_state = st, gr_failed = False\<rparr>"
| "gen_loop fwd pick eos ctx_len (Suc n) step tok gen st logits =
     (if ctx_len - 1 \<le> st_current_pos st then Inr \<lparr>gr_tokens = gen, gr_state = st, gr_failed = False\<rparr>
      else sbind (fwd st tok logits) (\<lambda>(ok, st1, logits1).
        if \<not> ok then Inr \<lparr>gr_tokens = gen, gr_state = st1, gr_failed = True\<rparr>
        else sbind (pick step gen logits1) (\<lambda>next_token.
          if eos next_token then Inr \<lparr>gr_tokens = gen, gr_state = st1, gr_failed = False\<rparr>
          else gen_loop fwd pick eos ctx_len n (Suc step) next_token (gen @ [next_token]) (inc_pos st1) logits1)))"

definition pick_token :: "float_ops \<Rightarrow> sampler \<Rightarrow> f32 \<Rightarrow> f32 \<Rightarrow> nat \<Rightarrow> int list \<Rightarrow> f32 list \<Rightarrow> mem_error + int" where
  "pick_token F S temperature repetition_penalty step gen logits =
     sample_token F S temperature step (apply_penalty F repetition_penalty gen logits)"

section \<open>generate\<close>

definition context_len :: "loaded_model \<Rightarrow> int \<Rightarrow> int" where
  "context_len M context_budget =
     (let base_ctx = (if context_budget > 0 then context_budget
                      else if context_length (cfg_of M) > 0 then sint (context_length (cfg_of M)) else 4096)
      in min base_ctx 65536)"

text \<open>The length of the common prefix, at most one less than the prompt.\<close>

fun common_prefix :: "int list \<Rightarrow> int list \<Rightarrow> nat" where
  "common_prefix (c # cs) (p # p' # ps) = (if c = p then Suc (common_prefix cs (p' # ps)) else 0)"
| "common_prefix cs ps = 0"

text \<open>The session after the cache decision, with the index at which prefill starts.\<close>

definition open_session :: "float_ops \<Rightarrow> loaded_model \<Rightarrow> int \<Rightarrow> int list \<Rightarrow> session_kv \<Rightarrow> mem_error + session_kv \<times> nat" where
  "open_session F M ctx_len prompt s =
     (if \<not> sk_initialized s \<or> sk_max_context s < ctx_len then
        sbind (init_inference_state F (cfg_of M) ctx_len (sk_state s)) (\<lambda>st.
          Inr (s\<lparr>sk_state := st, sk_max_context := ctx_len, sk_num_kv_heads := sint (num_kv_heads (cfg_of M)),
                 sk_head_dim := sint (head_dim (cfg_of M)), sk_initialized := True, sk_cached_tokens := []\<rparr>, 0))
      else
        let common_len = common_prefix (sk_cached_tokens s) prompt
        in Inr (s\<lparr>sk_state := (sk_state s)\<lparr>st_current_pos := int common_len\<rparr>\<rparr>, common_len))"

definition error_text :: "loaded_model \<Rightarrow> string" where
  "error_text M = [nl_char, nl_char] @ ''[DenseLite Runtime Error: '' @ model_tensor_error (lm_model M) @ '']''"

text \<open>The two loops on an inference state: the texts, the generated tokens, the final state, and whether the prefill went through.\<close>

definition run_model ::
  "float_ops \<Rightarrow> sampler \<Rightarrow> loaded_model \<Rightarrow> int \<Rightarrow> int \<Rightarrow> f32 \<Rightarrow> f32 \<Rightarrow> int list \<Rightarrow> nat \<Rightarrow> inference_state \<Rightarrow> mem_error + string list \<times> int list \<times> inference_state \<times> bool" where
  "run_model F S M ctx_len max_tokens temperature repetition_penalty effective start st =
     (if max_tokens < 0 then Inl LengthError
      else sbind (prefill (forward_pass F M) ctx_len (drop start (butlast effective)) st (replicate (n_vocab M) f_zero)) (\<lambda>(ok, st1, logits).
        if \<not> ok then Inr ([error_text M], [], st1, False)
        else if effective = [] then Inl OutOfBounds
        else sbind (gen_loop (forward_pass F M) (pick_token F S temperature repetition_penalty) (is_eos (lm_model M)) ctx_len (nat max_tokens) 0
                      (last effective) [] st1 logits) (\<lambda>r.
          Inr (map (detokenize (dm_vocab (lm_model M))) (gr_tokens r) @ (if gr_failed r then [error_text M] else []), gr_tokens r, gr_state r, True))))"

text \<open>The prompt cut to the context, and the session made to forget its tokens when the prompt is cut.\<close>

definition effective_prompt :: "int \<Rightarrow> int list \<Rightarrow> int list" where
  "effective_prompt ctx_len prompt =
     (if unat (word_of_int ctx_len :: size_t) \<le> length prompt then drop (length prompt - (nat ctx_len - 1)) prompt else prompt)"

definition generate ::
  "float_ops \<Rightarrow> sampler \<Rightarrow> loaded_model \<Rightarrow> int list \<Rightarrow> int \<Rightarrow> f32 \<Rightarrow> f32 \<Rightarrow> session_kv option \<Rightarrow> int \<Rightarrow> mem_error + string list \<times> session_kv option" where
  "generate F S M prompt max_tokens temperature repetition_penalty session context_budget =
     (if prompt = [] then Inr ([], session)
      else
        let ctx_len = context_len M context_budget;
            cut = unat (word_of_int ctx_len :: size_t) \<le> length prompt;
            effective = effective_prompt ctx_len prompt
        in case session of
             None \<Rightarrow>
               sbind (init_inference_state F (cfg_of M) ctx_len new_inference_state) (\<lambda>st.
               sbind (run_model F S M ctx_len max_tokens temperature repetition_penalty effective 0 st) (\<lambda>(texts, gen, st1, ok).
                 Inr (texts, None)))
           | Some s0 \<Rightarrow>
               sbind (open_session F M ctx_len prompt s0) (\<lambda>(s1, start1).
                 let s2 = (if cut then s1\<lparr>sk_cached_tokens := [], sk_state := (sk_state s1)\<lparr>st_current_pos := 0\<rparr>\<rparr> else s1);
                     start = (if cut then 0 else start1)
                 in sbind (run_model F S M ctx_len max_tokens temperature repetition_penalty effective start (sk_state s2)) (\<lambda>(texts, gen, st1, ok).
                      Inr (texts, Some (s2\<lparr>sk_state := st1, sk_cached_tokens := (if ok then effective @ gen else sk_cached_tokens s2)\<rparr>)))))"

section \<open>Embedding\<close>

fun embed_tokens :: "float_ops \<Rightarrow> loaded_model \<Rightarrow> int list \<Rightarrow> inference_state \<Rightarrow> f32 list \<Rightarrow> f32 list \<Rightarrow> mem_error + f32 list option" where
  "embed_tokens F M [] st logits pooled = Inr (Some pooled)"
| "embed_tokens F M (t # ts) st logits pooled =
     sbind (forward_pass F M st t logits) (\<lambda>(ok, st1, logits1).
       if \<not> ok then Inr None
       else embed_tokens F M ts (inc_pos st1) logits1 (add_vec F pooled (st_x st1)))"

definition normalise_pooled :: "float_ops \<Rightarrow> double_ops \<Rightarrow> nat \<Rightarrow> f32 list \<Rightarrow> f32 list" where
  "normalise_pooled F D n pooled = l2_normalise F D (map (\<lambda>x. f_mul F x (f_div F f_one (f_of_int F (int n)))) pooled)"

definition compute_embedding :: "float_ops \<Rightarrow> double_ops \<Rightarrow> loaded_model \<Rightarrow> int list \<Rightarrow> mem_error + f32 list" where
  "compute_embedding F D M tokens =
     (if tokens = [] then Inr []
      else
        let ctx = max (int (length tokens) + 16) 256
        in sbind (init_inference_state F (cfg_of M) ctx new_inference_state) (\<lambda>st.
           sbind (embed_tokens F M tokens st (replicate (if n_vocab M > 0 then n_vocab M else 1) f_zero) (replicate (emb_dim M) f_zero)) (\<lambda>r.
             Inr (case r of None \<Rightarrow> [] | Some pooled \<Rightarrow> normalise_pooled F D (length tokens) pooled))))"

section \<open>The interface of a decoder step\<close>

text \<open>
  What the loops rely on: a step at a position within the capacity succeeds, leaves earlier positions alone, and its result depends only on them.
\<close>

definition set_pos :: "int \<Rightarrow> inference_state \<Rightarrow> inference_state" where
  "set_pos p st = st\<lparr>st_current_pos := p\<rparr>"

lemma set_pos_simps [simp]: "st_current_pos (set_pos p st) = p" "inc_pos st = set_pos (st_current_pos st + 1) st"
  by (simp_all add: set_pos_def inc_pos_def)

definition kv_valid :: "decoder_step \<Rightarrow> (inference_state \<Rightarrow> bool) \<Rightarrow> (nat \<Rightarrow> inference_state \<Rightarrow> inference_state \<Rightarrow> bool) \<Rightarrow> nat \<Rightarrow> int list \<Rightarrow> inference_state \<Rightarrow> bool" where
  "kv_valid fwd fits agr nv toks st \<longleftrightarrow>
     (\<exists>st0 lg0 st1 lg1. fits st0 \<and> st_current_pos st0 = 0 \<and> length lg0 = nv \<and>
        prefill fwd (int (length toks) + 1) toks st0 lg0 = Inr (True, st1, lg1) \<and> agr (length toks) st1 st)"

locale decoder =
  fixes fwd :: decoder_step
    and cap :: nat
    and nv :: nat
    and fits :: "inference_state \<Rightarrow> bool"
    and tok_ok :: "int \<Rightarrow> bool"
    and agr :: "nat \<Rightarrow> inference_state \<Rightarrow> inference_state \<Rightarrow> bool"
  assumes step_ok: "fits st \<Longrightarrow> tok_ok t \<Longrightarrow> 0 \<le> st_current_pos st \<Longrightarrow> st_current_pos st < int cap \<Longrightarrow> length lg = nv \<Longrightarrow>
      \<exists>st' lg'. fwd st t lg = Inr (True, st', lg') \<and> fits st' \<and> length lg' = nv \<and> st_current_pos st' = st_current_pos st \<and> agr (nat (st_current_pos st)) st st'"
    and step_agree: "fits st \<Longrightarrow> fits st2 \<Longrightarrow> tok_ok t \<Longrightarrow> 0 \<le> st_current_pos st \<Longrightarrow> st_current_pos st < int cap \<Longrightarrow> st_current_pos st2 = st_current_pos st \<Longrightarrow>
      agr (nat (st_current_pos st)) st st2 \<Longrightarrow> length lg = nv \<Longrightarrow> length lg2 = nv \<Longrightarrow> fwd st t lg = Inr (True, st', out) \<Longrightarrow>
      \<exists>st2'. fwd st2 t lg2 = Inr (True, st2', out) \<and> agr (Suc (nat (st_current_pos st))) st' st2'"
    and agr_refl: "agr n st st"
    and agr_sym: "agr n st st2 \<Longrightarrow> agr n st2 st"
    and agr_trans: "agr n st st2 \<Longrightarrow> agr n st2 st3 \<Longrightarrow> agr n st st3"
    and agr_mono: "agr n st st2 \<Longrightarrow> m \<le> n \<Longrightarrow> agr m st st2"
    and fits_pos: "fits (set_pos p st) \<longleftrightarrow> fits st"
    and agr_pos: "agr n (set_pos p st) st2 \<longleftrightarrow> agr n st st2"
begin

lemma agr_pos2: "agr n st (set_pos p st2) \<longleftrightarrow> agr n st st2"
  using agr_sym agr_pos by blast

lemma step_both:
  assumes "fits st" "fits st2" "tok_ok t" "0 \<le> st_current_pos st" "st_current_pos st < int cap" "st_current_pos st2 = st_current_pos st"
    "agr (nat (st_current_pos st)) st st2" "length lg = nv" "length lg2 = nv"
  obtains st' st2' out where "fwd st t lg = Inr (True, st', out)" "fwd st2 t lg2 = Inr (True, st2', out)" "fits st'" "fits st2'" "length out = nv"
    "st_current_pos st' = st_current_pos st" "st_current_pos st2' = st_current_pos st" "agr (Suc (nat (st_current_pos st))) st' st2'"
    "agr (nat (st_current_pos st)) st st'"
proof -
  obtain st' out where a: "fwd st t lg = Inr (True, st', out)" "fits st'" "length out = nv" "st_current_pos st' = st_current_pos st" "agr (nat (st_current_pos st)) st st'"
    using step_ok [OF assms(1,3,4,5,8)] by auto
  obtain st2' where b: "fwd st2 t lg2 = Inr (True, st2', out)" "agr (Suc (nat (st_current_pos st))) st' st2'"
    using step_agree [OF assms a(1)] by auto
  have "fits st2'" "st_current_pos st2' = st_current_pos st"
    using step_ok [OF assms(2,3) _ _ assms(9)] assms(4,5,6) b(1) by auto
  with a b show ?thesis by (intro that)
qed

lemma prefill_both:
  assumes "fits st" "fits st2" "list_all tok_ok ts" "0 \<le> st_current_pos st" "st_current_pos st + int (length ts) \<le> ctx - 1"
    "st_current_pos st + int (length ts) \<le> ctx2 - 1" "st_current_pos st + int (length ts) \<le> int cap" "st_current_pos st2 = st_current_pos st"
    "agr (nat (st_current_pos st)) st st2" "length lg = nv" "length lg2 = nv"
  shows "\<exists>st' st2' lg' lg2'. prefill fwd ctx ts st lg = Inr (True, st', lg') \<and> prefill fwd ctx2 ts st2 lg2 = Inr (True, st2', lg2') \<and> fits st' \<and> fits st2' \<and>
    st_current_pos st' = st_current_pos st + int (length ts) \<and> st_current_pos st2' = st_current_pos st' \<and> length lg' = nv \<and> length lg2' = nv \<and>
    agr (nat (st_current_pos st')) st' st2' \<and> agr (nat (st_current_pos st)) st st'"
  using assms
proof (induction ts arbitrary: st st2 lg lg2)
  case Nil
  then show ?case using agr_refl by auto
next
  case (Cons t ts)
  obtain s s2 out where s: "fwd st t lg = Inr (True, s, out)" "fwd st2 t lg2 = Inr (True, s2, out)" "fits s" "fits s2" "length out = nv"
    "st_current_pos s = st_current_pos st" "st_current_pos s2 = st_current_pos st" "agr (Suc (nat (st_current_pos st))) s s2" "agr (nat (st_current_pos st)) st s"
    by (rule step_both [of st st2 t lg lg2]) (use Cons.prems in auto)
  have n: "nat (st_current_pos st + 1) = Suc (nat (st_current_pos st))" using Cons.prems(4) by simp
  obtain st' st2' lg' lg2' where r: "prefill fwd ctx ts (inc_pos s) out = Inr (True, st', lg')" "prefill fwd ctx2 ts (inc_pos s2) out = Inr (True, st2', lg2')"
    "fits st'" "fits st2'" "st_current_pos st' = st_current_pos st + 1 + int (length ts)" "st_current_pos st2' = st_current_pos st'" "length lg' = nv" "length lg2' = nv"
    "agr (nat (st_current_pos st')) st' st2'" "agr (nat (st_current_pos st + 1)) (inc_pos s) st'"
    using Cons.IH [of "inc_pos s" "inc_pos s2" out out] Cons.prems s n by (auto simp: fits_pos agr_pos agr_pos2)
  have "agr (nat (st_current_pos st)) s st'" using r(10) n agr_mono by (simp add: agr_pos)
  then have "agr (nat (st_current_pos st)) st st'" using s(9) agr_trans by blast
  then show ?case using r s(1,2) Cons.prems(4-8) by auto
qed

lemma prefill_append:
  "prefill fwd ctx (a @ b) st lg = sbind (prefill fwd ctx a st lg) (\<lambda>(ok, st1, lg1). if ok then prefill fwd ctx b st1 lg1 else Inr (False, st1, lg1))"
proof (induction a arbitrary: st lg)
  case (Cons t a)
  show ?case
  proof (cases "ctx - 1 \<le> st_current_pos st")
    case True
    then show ?thesis by (cases b) simp_all
  next
    case False
    then show ?thesis using Cons by (simp add: sbind_def split: sum.splits prod.splits)
  qed
qed simp

lemma prefill_one:
  assumes "fits st" "list_all tok_ok ts" "0 \<le> st_current_pos st" "st_current_pos st + int (length ts) \<le> ctx - 1" "st_current_pos st + int (length ts) \<le> int cap" "length lg = nv"
  obtains st' lg' where "prefill fwd ctx ts st lg = Inr (True, st', lg')" "fits st'" "length lg' = nv" "st_current_pos st' = st_current_pos st + int (length ts)"
    "agr (nat (st_current_pos st)) st st'"
  using prefill_both [of st st ts ctx ctx lg lg] assms agr_refl by auto

lemma prefill_ctx:
  assumes "fits st" "list_all tok_ok ts" "0 \<le> st_current_pos st" "st_current_pos st + int (length ts) \<le> ctx - 1" "st_current_pos st + int (length ts) \<le> ctx2 - 1"
    "st_current_pos st + int (length ts) \<le> int cap" "length lg = nv"
  shows "prefill fwd ctx2 ts st lg = prefill fwd ctx ts st lg"
  using assms
proof (induction ts arbitrary: st lg)
  case (Cons t ts)
  obtain s out where s: "fwd st t lg = Inr (True, s, out)" "fits s" "length out = nv" "st_current_pos s = st_current_pos st"
    using step_ok [of st t lg] Cons.prems by auto
  then show ?case using Cons.IH [of "inc_pos s" out] Cons.prems by (auto simp: fits_pos)
qed simp

text \<open>Prefilling from scratch reproduces a valid cache.\<close>

lemma valid_resume:
  assumes v: "kv_valid fwd fits agr nv toks st" and f: "fits st" "list_all tok_ok toks" "length toks \<le> cap" "int (length toks) \<le> ctx - 1" "length lg = nv"
  obtains s lg' where "prefill fwd ctx toks (set_pos 0 st) lg = Inr (True, s, lg')" "fits s" "length lg' = nv" "st_current_pos s = int (length toks)" "agr (length toks) s st"
proof -
  obtain st0 lg0 st1 lg1 where 0: "fits st0" "st_current_pos st0 = 0" "length lg0 = nv"
      "prefill fwd (int (length toks) + 1) toks st0 lg0 = Inr (True, st1, lg1)" "agr (length toks) st1 st"
    using v by (auto simp: kv_valid_def)
  obtain st1' lg1' where "prefill fwd (int (length toks) + 1) toks st0 lg0 = Inr (True, st1', lg1')" "agr (nat (st_current_pos st0)) st0 st1'"
    by (rule prefill_one [of st0 toks "int (length toks) + 1" lg0]) (use 0(1-3) f in auto)
  then have a0: "agr 0 st0 st1" using 0(2,4) by simp
  have "agr 0 st1 st" using agr_mono [OF 0(5)] by simp
  then have "agr 0 st0 (set_pos 0 st)" using agr_trans [OF a0] agr_pos2 by blast
  then obtain st' s lg' lg2' where r: "prefill fwd (int (length toks) + 1) toks st0 lg0 = Inr (True, st', lg')" "prefill fwd ctx toks (set_pos 0 st) lg = Inr (True, s, lg2')"
      "fits s" "st_current_pos st' = int (length toks)" "st_current_pos s = st_current_pos st'" "length lg2' = nv" "agr (nat (st_current_pos st')) st' s"
    using prefill_both [of st0 "set_pos 0 st" toks "int (length toks) + 1" ctx lg0 lg] 0(1-3) f by (auto simp: fits_pos)
  have "agr (length toks) st1 s" using r(1,4,7) 0(4) by simp
  then have "agr (length toks) s st" using agr_trans [OF agr_sym 0(5)] by blast
  then show ?thesis using that r by simp
qed

lemma valid_nil: "fits st \<Longrightarrow> kv_valid fwd fits agr nv [] st"
  unfolding kv_valid_def
  by (intro exI [of _ "set_pos 0 st"] exI [of _ "replicate nv (0 :: f32)"] exI conjI) (simp_all add: fits_pos agr_pos agr_refl)

lemma valid_agr: "kv_valid fwd fits agr nv toks st \<Longrightarrow> agr (length toks) st st' \<Longrightarrow> kv_valid fwd fits agr nv toks st'"
  unfolding kv_valid_def using agr_trans by blast

lemma valid_append:
  assumes "kv_valid fwd fits agr nv (a @ b) st" "list_all tok_ok (a @ b)" "length (a @ b) \<le> cap"
  shows "kv_valid fwd fits agr nv a st"
proof -
  obtain st0 lg0 st1 lg1 where 0: "fits st0" "st_current_pos st0 = 0" "length lg0 = nv"
      "prefill fwd (int (length (a @ b)) + 1) (a @ b) st0 lg0 = Inr (True, st1, lg1)" "agr (length (a @ b)) st1 st"
    using assms(1) by (auto simp: kv_valid_def)
  obtain sa la where sa: "prefill fwd (int (length (a @ b)) + 1) a st0 lg0 = Inr (True, sa, la)" "fits sa" "length la = nv" "st_current_pos sa = int (length a)"
    by (rule prefill_one [of st0 a "int (length (a @ b)) + 1" lg0]) (use 0(1-3) assms(2,3) in auto)
  have b: "prefill fwd (int (length (a @ b)) + 1) b sa la = Inr (True, st1, lg1)" using 0(4) sa(1) by (simp add: prefill_append)
  obtain s' l' where s': "prefill fwd (int (length (a @ b)) + 1) b sa la = Inr (True, s', l')" "agr (nat (st_current_pos sa)) sa s'"
    by (rule prefill_one [of sa b "int (length (a @ b)) + 1" la]) (use sa assms(2,3) in auto)
  have "agr (length a) sa st1" using s' b sa(4) by simp
  moreover have "agr (length a) st1 st" using agr_mono [OF 0(5)] by simp
  ultimately have "agr (length a) sa st" by (rule agr_trans)
  moreover have "prefill fwd (int (length a) + 1) a st0 lg0 = Inr (True, sa, la)"
    using prefill_ctx [of st0 a "int (length (a @ b)) + 1" "int (length a) + 1" lg0] 0(1-3) sa(1) assms(2,3) by simp
  ultimately show ?thesis unfolding kv_valid_def using 0(1-3) by blast
qed

lemma valid_step:
  assumes v: "kv_valid fwd fits agr nv toks st" and f: "fits st" "list_all tok_ok toks" "tok_ok t" "length toks < cap" "length lg = nv"
    and p: "st_current_pos st = int (length toks)" and run: "fwd st t lg = Inr (True, st', lg')"
  shows "kv_valid fwd fits agr nv (toks @ [t]) st'"
proof -
  obtain st0 lg0 st1 lg1 where 0: "fits st0" "st_current_pos st0 = 0" "length lg0 = nv"
      "prefill fwd (int (length toks) + 1) toks st0 lg0 = Inr (True, st1, lg1)" "agr (length toks) st1 st"
    using v by (auto simp: kv_valid_def)
  obtain st1' lg1' where "prefill fwd (int (length toks) + 1) toks st0 lg0 = Inr (True, st1', lg1')" "fits st1'" "length lg1' = nv" "st_current_pos st1' = int (length toks)"
    by (rule prefill_one [of st0 toks "int (length toks) + 1" lg0]) (use 0(1-3) f in auto)
  then have 1: "fits st1" "length lg1 = nv" "st_current_pos st1 = int (length toks)" using 0(4) by auto
  obtain s s2 out where s: "fwd st1 t lg1 = Inr (True, s, out)" "fwd st t lg = Inr (True, s2, out)" "agr (Suc (length toks)) s s2"
    by (rule step_both [of st1 st t lg1 lg]) (use 0(5) 1 f p in auto)
  have a: "agr (Suc (length toks)) (inc_pos s) st'" using s(2,3) run by (simp add: agr_pos)
  have "prefill fwd (int (length (toks @ [t])) + 1) toks st0 lg0 = Inr (True, st1, lg1)"
    using prefill_ctx [of st0 toks "int (length toks) + 1" "int (length (toks @ [t])) + 1" lg0] 0(1-4) f by simp
  then have pr: "prefill fwd (int (length (toks @ [t])) + 1) (toks @ [t]) st0 lg0 = Inr (True, inc_pos s, out)"
    unfolding prefill_append using s(1) 1(3) by simp
  show ?thesis unfolding kv_valid_def by (intro exI conjI, rule 0(1), rule 0(2), rule 0(3), rule pr) (use a in simp)
qed

text \<open>Equal runs of the generation loop from states that agree below the position.\<close>

lemma gen_both:
  assumes pick: "\<And>i g lg. length lg = nv \<Longrightarrow> \<exists>t. pick i g lg = Inr t \<and> tok_ok t" and ctx: "ctx - 1 \<le> int cap"
    and "fits st" "fits st2" "tok_ok tok" "0 \<le> st_current_pos st" "st_current_pos st2 = st_current_pos st" "agr (nat (st_current_pos st)) st st2" "length lg = nv" "length lg2 = nv"
  shows "\<exists>r r2. gen_loop fwd pick eos ctx n i tok gen st lg = Inr r \<and> gen_loop fwd pick eos ctx n i tok gen st2 lg2 = Inr r2 \<and>
    gr_tokens r2 = gr_tokens r \<and> \<not> gr_failed r \<and> \<not> gr_failed r2"
  using assms(3-)
proof (induction n arbitrary: st st2 tok gen i lg lg2)
  case (Suc n)
  show ?case
  proof (cases "ctx - 1 \<le> st_current_pos st")
    case True
    then show ?thesis using Suc.prems by simp
  next
    case False
    obtain s s2 out where s: "fwd st tok lg = Inr (True, s, out)" "fwd st2 tok lg2 = Inr (True, s2, out)" "fits s" "fits s2" "length out = nv"
      "st_current_pos s = st_current_pos st" "st_current_pos s2 = st_current_pos st" "agr (Suc (nat (st_current_pos st))) s s2"
      by (rule step_both [of st st2 tok lg lg2]) (use Suc.prems False ctx in auto)
    obtain t where t: "pick i gen out = Inr t" "tok_ok t" using pick [OF s(5)] by blast
    have n: "nat (st_current_pos st + 1) = Suc (nat (st_current_pos st))" using Suc.prems(4) by simp
    show ?thesis
    proof (cases "eos t")
      case True
      then show ?thesis using False Suc.prems(5) s(1,2) t(1) by simp
    next
      case E: False
      then show ?thesis
        using Suc.IH [of "inc_pos s" "inc_pos s2" t out out "Suc i" "gen @ [t]"] False Suc.prems(4,5) s t n by (simp add: fits_pos agr_pos agr_pos2)
    qed
  qed
qed simp

text \<open>
  One run: at most \<open>n\<close> tokens, exactly that many (or up to the end of the context) when none of them ends the text; the cache afterwards is valid for all tokens
  but the last, and for the last one too when the text was ended by an end-of-sequence token.
\<close>

lemma gen_run:
  assumes pick: "\<And>i g lg. length lg = nv \<Longrightarrow> \<exists>t. pick i g lg = Inr t \<and> tok_ok t" and ctx: "ctx - 1 \<le> int cap"
    and "fits st" "kv_valid fwd fits agr nv toks st" "list_all tok_ok toks" "tok_ok tok" "st_current_pos st = int (length toks)" "int (length toks) \<le> ctx - 1" "length lg = nv"
  shows "\<exists>r new. gen_loop fwd pick eos ctx n i tok gen st lg = Inr r \<and> gr_tokens r = gen @ new \<and> \<not> gr_failed r \<and> length new \<le> n \<and> list_all tok_ok new \<and>
    list_all (\<lambda>t. \<not> eos t) new \<and> fits (gr_state r) \<and> st_current_pos (gr_state r) = int (length toks + length new) \<and> int (length toks + length new) \<le> ctx - 1 \<and>
    kv_valid fwd fits agr nv (toks @ butlast (tok # new)) (gr_state r) \<and>
    (length new < n \<and> int (length toks + length new) < ctx - 1 \<longrightarrow> kv_valid fwd fits agr nv (toks @ tok # new) (gr_state r)) \<and>
    ((\<forall>t. tok_ok t \<longrightarrow> \<not> eos t) \<longrightarrow> length new = n \<or> int (length toks + length new) = ctx - 1)"
  using assms(3-)
proof (induction n arbitrary: st toks tok gen i lg)
  case (Suc n)
  show ?case
  proof (cases "ctx - 1 \<le> st_current_pos st")
    case True
    then show ?thesis using Suc.prems by (intro exI [of _ "\<lparr>gr_tokens = gen, gr_state = st, gr_failed = False\<rparr>"] exI [of _ "[]"]) auto
  next
    case False
    obtain s out where s: "fwd st tok lg = Inr (True, s, out)" "fits s" "length out = nv" "st_current_pos s = int (length toks)"
      using step_ok [of st tok lg] Suc.prems False ctx by auto
    have v: "kv_valid fwd fits agr nv (toks @ [tok]) s"
      by (rule valid_step [OF Suc.prems(2,1,3,4) _ Suc.prems(7,5) s(1)]) (use False Suc.prems(5) ctx in auto)
    have v0: "kv_valid fwd fits agr nv toks s"
      by (rule valid_append [OF v]) (use False Suc.prems ctx in auto)
    obtain t where t: "pick i gen out = Inr t" "tok_ok t" using pick [OF s(3)] by blast
    show ?thesis
    proof (cases "eos t")
      case True
      then show ?thesis using False s t v v0 Suc.prems(5,6)
        by (intro exI [of _ "\<lparr>gr_tokens = gen, gr_state = s, gr_failed = False\<rparr>"] exI [of _ "[]"]) auto
    next
      case E: False
      have "kv_valid fwd fits agr nv (toks @ [tok]) (inc_pos s)" using v valid_agr agr_pos2 agr_refl by (metis set_pos_simps(2))
      then obtain r new where r: "gen_loop fwd pick eos ctx n (Suc i) t (gen @ [t]) (inc_pos s) out = Inr r" "gr_tokens r = (gen @ [t]) @ new" "\<not> gr_failed r"
        "length new \<le> n" "list_all tok_ok new" "list_all (\<lambda>t. \<not> eos t) new" "fits (gr_state r)" "st_current_pos (gr_state r) = int (length (toks @ [tok]) + length new)"
        "int (length (toks @ [tok]) + length new) \<le> ctx - 1" "kv_valid fwd fits agr nv ((toks @ [tok]) @ butlast (t # new)) (gr_state r)"
        "length new < n \<and> int (length (toks @ [tok]) + length new) < ctx - 1 \<longrightarrow> kv_valid fwd fits agr nv ((toks @ [tok]) @ t # new) (gr_state r)"
        "(\<forall>t. tok_ok t \<longrightarrow> \<not> eos t) \<longrightarrow> length new = n \<or> int (length (toks @ [tok]) + length new) = ctx - 1"
        using Suc.IH [of "inc_pos s" "toks @ [tok]" t out "Suc i" "gen @ [t]"] s t Suc.prems(3,4,5) False by (auto simp: fits_pos)
      show ?thesis
        by (rule exI [of _ r], rule exI [of _ "t # new"]) (use r False s(1) t E Suc.prems(5) in auto)
    qed
  qed
qed (use assms(3-) in \<open>auto intro!: exI [of _ "[]"]\<close>)

end

section \<open>The forward pass is a decoder step\<close>

definition runs_on :: "loaded_model \<Rightarrow> nat \<Rightarrow> inference_state \<Rightarrow> bool" where
  "runs_on M c st \<longleftrightarrow> model_ok M \<and> state_fits M c st"

lemma frame_agree: "state_fits M c st \<Longrightarrow> caches_frame M p st st' \<Longrightarrow> agree M p st st'"
  unfolding state_fits_def caches_frame_def agree_def by (auto simp: list_all2_conv_all_nth row_frame_def)

lemma agree_mono:
  assumes "agree M n st st2" "m \<le> n"
  shows "agree M m st st2"
proof -
  have "take (m * kv_dim M) row' = take (m * kv_dim M) row" if "take (n * kv_dim M) row' = take (n * kv_dim M) row" for row row' :: "f32 list"
  proof -
    have "take (m * kv_dim M) (take (n * kv_dim M) row') = take (m * kv_dim M) (take (n * kv_dim M) row)" using that by simp
    then show ?thesis using mult_le_mono1 [OF assms(2), of "kv_dim M"] by (simp add: min_absorb1)
  qed
  then show ?thesis using assms(1) unfolding agree_def by blast
qed

interpretation dec: decoder "forward_pass F M" c "n_vocab M" "runs_on M c" "token_ok M" "agree M"
  for F M c
proof
  fix st :: inference_state and t and lg :: "f32 list"
  assume a: "runs_on M c st" "token_ok M t" "0 \<le> st_current_pos st" "st_current_pos st < int c" "length lg = n_vocab M"
  then obtain st' lg' where "forward_pass F M st t lg = Inr (True, st', lg')" "state_fits M c st'" "length lg' = n_vocab M" and f: "caches_frame M (nat (st_current_pos st)) st st'"
    using forward_pass_fits [of M t c st lg F] by (auto simp: runs_on_def nat_less_iff)
  moreover have "agree M (nat (st_current_pos st)) st st'" "st_current_pos st' = st_current_pos st"
    using frame_agree [OF _ f] a(1) f by (auto simp: runs_on_def caches_frame_def)
  ultimately show "\<exists>st' lg'. forward_pass F M st t lg = Inr (True, st', lg') \<and> runs_on M c st' \<and> length lg' = n_vocab M \<and>
      st_current_pos st' = st_current_pos st \<and> agree M (nat (st_current_pos st)) st st'"
    using a(1) by (auto simp: runs_on_def)
next
  fix st st2 :: inference_state and t and lg lg2 :: "f32 list" and st' out
  assume "runs_on M c st" "runs_on M c st2" "token_ok M t" "0 \<le> st_current_pos st" "st_current_pos st < int c" "st_current_pos st2 = st_current_pos st"
    "agree M (nat (st_current_pos st)) st st2" "length lg = n_vocab M" "length lg2 = n_vocab M" "forward_pass F M st t lg = Inr (True, st', out)"
  then show "\<exists>st2'. forward_pass F M st2 t lg2 = Inr (True, st2', out) \<and> agree M (Suc (nat (st_current_pos st))) st' st2'"
    using forward_pass_agree [of M t c st st2 lg lg2 F st' out] by (simp add: runs_on_def nat_less_iff)
next
  fix n m :: nat and p and st st2 st3 :: inference_state
  show "agree M n st st" by (simp add: agree_def)
  show "agree M n st st2 \<Longrightarrow> agree M n st2 st" by (simp add: agree_def)
  show "agree M n st st2 \<Longrightarrow> agree M n st2 st3 \<Longrightarrow> agree M n st st3" by (simp add: agree_def)
  show "agree M n st st2 \<Longrightarrow> m \<le> n \<Longrightarrow> agree M m st st2" by (rule agree_mono)
  show "runs_on M c (set_pos p st) \<longleftrightarrow> runs_on M c st" by (simp add: runs_on_def state_fits_def set_pos_def)
  show "agree M n (set_pos p st) st2 \<longleftrightarrow> agree M n st st2" by (simp add: agree_def set_pos_def)
qed

text \<open>The cache of a state holds the keys and values of \<open>toks\<close>.\<close>

definition holds_kv :: "float_ops \<Rightarrow> loaded_model \<Rightarrow> nat \<Rightarrow> int list \<Rightarrow> inference_state \<Rightarrow> bool" where
  "holds_kv F M c toks st \<longleftrightarrow> kv_valid (forward_pass F M) (runs_on M c) (agree M) (n_vocab M) toks st"

definition sampler_ok :: "sampler \<Rightarrow> bool" where
  "sampler_ok S \<longleftrightarrow> (\<forall>n xs. mset (smp_nth S n xs) = mset xs) \<and> (\<forall>i ps. ps \<noteq> [] \<longrightarrow> smp_draw S i ps < length ps)"

lemma argmax_range: "argmax i xs m b = b \<or> i \<le> argmax i xs m b \<and> argmax i xs m b < i + length xs"
  by (induction i xs m b rule: argmax.induct) auto

lemma argmax_bound: "argmax 1 xs m 0 < Suc (length xs)"
  using argmax_range [of 1 xs m 0] by auto

lemma length_apply_penalty [simp]: "length (apply_penalty F pen gen logits) = length logits"
proof -
  have "length (fold (penalize F pen) gen logits) = length logits" by (induction gen arbitrary: logits) (auto simp: penalize_def)
  then show ?thesis by (simp add: apply_penalty_def)
qed

lemma sample_token_ok:
  assumes S: "sampler_ok S" and len: "logits \<noteq> []"
  shows "\<exists>t. sample_token F S temperature step logits = Inr t \<and> 0 \<le> t \<and> t < int (length logits)"
proof -
  let ?n = "length logits" and ?k = "min TOP_K (length logits)"
  let ?c = "smp_nth S ?k (zip logits (map int [0..<?n]))"
  have m: "mset ?c = mset (zip logits (map int [0..<?n]))" using S by (simp add: sampler_ok_def)
  then have lc: "length ?c = ?n" using mset_eq_length [OF m] by simp
  have "0 \<le> snd (?c ! j) \<and> snd (?c ! j) < int ?n" if "j < ?n" for j
  proof -
    have "?c ! j \<in> set (zip logits (map int [0..<?n]))" using that lc mset_eq_setD [OF m] nth_mem by metis
    then show ?thesis by (auto simp: set_zip)
  qed
  note inr = this
  have k: "0 < ?k" "?k \<le> ?n" using len by (auto simp: TOP_K_def)
  obtain l0 ls where l: "logits = l0 # ls" using len by (cases logits) auto
  have lt: "length (take ?k ?c) = ?k" using lc k by simp
  have d: "smp_draw S step ps < ?n" if "length ps = ?k" for ps :: "f32 list"
  proof -
    have "0 < length ps" unfolding that by (rule k(1))
    then have "ps \<noteq> []" by simp
    then have "smp_draw S step ps < length ps" using S by (simp add: sampler_ok_def)
    then show ?thesis using that k(2) by simp
  qed
  have a: "argmax 1 (tl (map fst (take ?k ?c))) mv 0 < ?n" for mv
    using argmax_bound [of "tl (map fst (take ?k ?c))" mv] lt k by simp
  have g: "argmax 1 ls l0 0 < ?n" using argmax_bound [of ls l0] l by simp
  show ?thesis
  proof (cases "f32_le temperature 0x3C23D70A")
    case True
    then show ?thesis using g l by (simp add: sample_token_def)
  next
    case False
    have "sample_token F S temperature step logits \<in> {Inr (snd (?c ! argmax 1 (tl (map fst (take ?k ?c))) (fst (?c ! 0)) 0))} \<union>
        {Inr (snd (?c ! smp_draw S step ps)) | ps. length ps = ?k}"
      using False lt unfolding sample_token_def Let_def l by (auto simp del: upt_Suc)
    then show ?thesis using inr a d by auto
  qed
qed

lemma pick_token_ok:
  assumes "sampler_ok S" "0 < n_vocab M" "length lg = n_vocab M"
  shows "\<exists>t. pick_token F S temperature pen i g lg = Inr t \<and> token_ok M t"
  using sample_token_ok [OF assms(1), of "apply_penalty F pen g lg" F temperature i] assms(2,3)
  by (auto simp: pick_token_def token_ok_def simp flip: length_greater_0_conv)

section \<open>Runs of the model\<close>

lemma run_model_valid:
  assumes S: "sampler_ok S" "0 < n_vocab M" and st: "runs_on M c st" "st_current_pos st = int start" "holds_kv F M c (take start eff) st" "start < length eff"
    and eff: "list_all (token_ok M) eff" "int (length eff) \<le> ctx" "ctx - 1 \<le> int c" and mt: "0 \<le> mt"
  shows "\<exists>gen st1. run_model F S M ctx mt temperature pen eff start st = Inr (map (detokenize (dm_vocab (lm_model M))) gen, gen, st1, True) \<and>
    int (length gen) \<le> mt \<and> list_all (token_ok M) gen \<and> list_all (\<lambda>t. \<not> is_eos (lm_model M) t) gen \<and> runs_on M c st1 \<and> int (length eff + length gen) \<le> ctx \<and>
    holds_kv F M c (butlast (eff @ gen)) st1 \<and>
    (int (length gen) < mt \<and> int (length eff + length gen) < ctx \<longrightarrow> holds_kv F M c (eff @ gen) st1) \<and>
    ((\<forall>t. token_ok M t \<longrightarrow> \<not> is_eos (lm_model M) t) \<longrightarrow> int (length gen) = min mt (ctx - int (length eff)))"
proof -
  let ?body = "butlast eff" and ?lg = "replicate (n_vocab M) f_zero"
  have ne: "eff \<noteq> []" using st(4) by auto
  have split: "?body = take start eff @ drop start ?body" using st(4) by (simp add: take_butlast [symmetric])
  have tk: "list_all (token_ok M) ?body" "list_all (token_ok M) (take start eff)" "list_all (token_ok M) (drop start ?body)" "token_ok M (last eff)"
    using eff(1) ne by (auto simp: list_all_iff dest: in_set_butlastD in_set_takeD in_set_dropD)
  obtain s lg where pre: "prefill (forward_pass F M) ctx (drop start ?body) st ?lg = Inr (True, s, lg)" "runs_on M c s" "length lg = n_vocab M" "st_current_pos s = int (length ?body)"
      "agree M (nat (st_current_pos st)) st s"
    by (rule dec.prefill_one [of M c st "drop start ?body" ctx ?lg F]) (use st eff tk in auto)
  have hv: "kv_valid (forward_pass F M) (runs_on M c) (agree M) (n_vocab M) ?body s"
  proof -
    obtain s0 l0 where r0: "prefill (forward_pass F M) ctx (take start eff) (set_pos 0 st) ?lg = Inr (True, s0, l0)" "runs_on M c s0" "length l0 = n_vocab M"
        "st_current_pos s0 = int (length (take start eff))" "agree M (length (take start eff)) s0 st"
      by (rule dec.valid_resume [OF st(3) [unfolded holds_kv_def], of ctx ?lg]) (use st eff tk in auto)
    obtain a b la lb where "prefill (forward_pass F M) ctx (drop start ?body) s0 l0 = Inr (True, a, la)" "prefill (forward_pass F M) ctx (drop start ?body) st ?lg = Inr (True, b, lb)"
        "st_current_pos a = int (length ?body)" "agree M (nat (st_current_pos a)) a b"
      using dec.prefill_both [of M c s0 st "drop start ?body" ctx ctx l0 ?lg F] r0 st eff tk by auto
    then have "prefill (forward_pass F M) ctx ?body (set_pos 0 st) ?lg = Inr (True, a, la)" "agree M (length ?body) a s"
      using pre(1) r0(1) dec.prefill_append [of F M ctx "take start eff" "drop start ?body" "set_pos 0 st" ?lg] split by auto
    moreover have "prefill (forward_pass F M) (int (length ?body) + 1) ?body (set_pos 0 st) ?lg = prefill (forward_pass F M) ctx ?body (set_pos 0 st) ?lg"
      by (rule dec.prefill_ctx [of M c]) (use st(1,4) eff tk in \<open>auto simp: dec.fits_pos\<close>)
    ultimately show ?thesis unfolding kv_valid_def using st(1)
      by (intro exI [of _ "set_pos 0 st"] exI [of _ ?lg] exI [of _ a] exI [of _ la]) (simp add: dec.fits_pos)
  qed
  obtain r new where g: "gen_loop (forward_pass F M) (pick_token F S temperature pen) (is_eos (lm_model M)) ctx (nat mt) 0 (last eff) [] s lg = Inr r"
      "gr_tokens r = [] @ new" "\<not> gr_failed r" "length new \<le> nat mt" "list_all (token_ok M) new" "list_all (\<lambda>t. \<not> is_eos (lm_model M) t) new" "runs_on M c (gr_state r)"
      "int (length ?body + length new) \<le> ctx - 1"
      "kv_valid (forward_pass F M) (runs_on M c) (agree M) (n_vocab M) (?body @ butlast (last eff # new)) (gr_state r)"
      "length new < nat mt \<and> int (length ?body + length new) < ctx - 1 \<longrightarrow> kv_valid (forward_pass F M) (runs_on M c) (agree M) (n_vocab M) (?body @ last eff # new) (gr_state r)"
      "(\<forall>t. token_ok M t \<longrightarrow> \<not> is_eos (lm_model M) t) \<longrightarrow> length new = nat mt \<or> int (length ?body + length new) = ctx - 1"
    using dec.gen_run [where pick = "pick_token F S temperature pen" and eos = "is_eos (lm_model M)" and n = "nat mt" and i = 0 and gen = "[]",
        OF pick_token_ok [OF S] eff(3) pre(2) hv tk(1,4) pre(4) _ pre(3)] eff(2) st(4) by auto
  have w: "?body @ last eff # new = eff @ new" using ne by (metis append_butlast_last_id append.assoc append_Cons append_Nil)
  then have bl: "?body @ butlast (last eff # new) = butlast (eff @ new)" by (metis butlast_append list.distinct(1))
  have lb: "int (length eff) = int (length ?body) + 1" using st(4) by simp
  have "kv_valid (forward_pass F M) (runs_on M c) (agree M) (n_vocab M) (eff @ new) (gr_state r)"
    if "int (length new) < mt \<and> int (length eff + length new) < ctx"
    using g(10) that lb by (simp add: w zless_nat_eq_int_zless del: length_butlast)
  moreover have "int (length new) = min mt (ctx - int (length eff))" if "\<forall>t. token_ok M t \<longrightarrow> \<not> is_eos (lm_model M) t"
  proof -
    have "length new = nat mt \<or> int (length ?body + length new) = ctx - 1" using g(11) that by blast
    then show ?thesis using g(4,8) mt lb by linarith
  qed
  moreover have "run_model F S M ctx mt temperature pen eff start st = Inr (map (detokenize (dm_vocab (lm_model M))) new, new, gr_state r, True)"
    using pre(1) g(1-3) mt ne by (simp add: run_model_def)
  moreover have "int (length new) \<le> mt" "int (length eff + length new) \<le> ctx" using g(4,8) mt lb by linarith+
  ultimately show ?thesis using g(5-7,9) unfolding holds_kv_def bl by blast
qed

lemma run_model_same:
  assumes S: "sampler_ok S" "0 < n_vocab M" and st: "runs_on M c st" "st_current_pos st = int start" "holds_kv F M c (take start eff) st" "start < length eff"
    and eff: "list_all (token_ok M) eff" "int (length eff) \<le> ctx" "ctx - 1 \<le> int c" and mt: "0 \<le> mt"
  shows "\<exists>texts gen st1 st2. run_model F S M ctx mt temperature pen eff start st = Inr (texts, gen, st1, True) \<and>
    run_model F S M ctx mt temperature pen eff 0 (set_pos 0 st) = Inr (texts, gen, st2, True)"
proof -
  let ?body = "butlast eff" and ?lg = "replicate (n_vocab M) f_zero"
  have ne: "eff \<noteq> []" using st(4) by auto
  have split: "?body = take start eff @ drop start ?body" using st(4) by (simp add: take_butlast [symmetric])
  have tk: "list_all (token_ok M) (take start eff)" "list_all (token_ok M) (drop start ?body)" "token_ok M (last eff)"
    using eff(1) ne by (auto simp: list_all_iff dest: in_set_butlastD in_set_takeD in_set_dropD)
  obtain s0 l0 where r0: "prefill (forward_pass F M) ctx (take start eff) (set_pos 0 st) ?lg = Inr (True, s0, l0)" "runs_on M c s0" "length l0 = n_vocab M"
      "st_current_pos s0 = int (length (take start eff))" "agree M (length (take start eff)) s0 st"
    by (rule dec.valid_resume [OF st(3) [unfolded holds_kv_def], of ctx ?lg]) (use st eff tk in auto)
  obtain a b la lb where ab: "prefill (forward_pass F M) ctx (drop start ?body) s0 l0 = Inr (True, a, la)" "prefill (forward_pass F M) ctx (drop start ?body) st ?lg = Inr (True, b, lb)"
      "runs_on M c a" "runs_on M c b" "st_current_pos a = int (length ?body)" "st_current_pos b = st_current_pos a" "length la = n_vocab M" "length lb = n_vocab M"
      "agree M (nat (st_current_pos a)) a b"
    using dec.prefill_both [of M c s0 st "drop start ?body" ctx ctx l0 ?lg F] r0 st eff tk by auto
  have full: "prefill (forward_pass F M) ctx ?body (set_pos 0 st) ?lg = Inr (True, a, la)"
    using ab(1) r0(1) dec.prefill_append [of F M ctx "take start eff" "drop start ?body" "set_pos 0 st" ?lg] split by auto
  obtain r r2 where g: "gen_loop (forward_pass F M) (pick_token F S temperature pen) (is_eos (lm_model M)) ctx (nat mt) 0 (last eff) [] a la = Inr r"
      "gen_loop (forward_pass F M) (pick_token F S temperature pen) (is_eos (lm_model M)) ctx (nat mt) 0 (last eff) [] b lb = Inr r2"
      "gr_tokens r2 = gr_tokens r" "\<not> gr_failed r" "\<not> gr_failed r2"
    using dec.gen_both [where F = F and pick = "pick_token F S temperature pen" and eos = "is_eos (lm_model M)" and n = "nat mt" and i = 0 and gen = "[]",
        OF pick_token_ok [OF S] eff(3) ab(3,4) tk(3) _ ab(6) ab(9) ab(7,8)] ab(5) by auto
  show ?thesis using full ab(2) g mt ne by (simp add: run_model_def)
qed

section \<open>Sessions\<close>

text \<open>An initialised session whose cache holds the first \<open>n\<close> of its cached tokens.\<close>

definition session_holds :: "float_ops \<Rightarrow> loaded_model \<Rightarrow> session_kv \<Rightarrow> nat \<Rightarrow> bool" where
  "session_holds F M s n \<longleftrightarrow> sk_initialized s \<and> runs_on M (nat (sk_max_context s)) (sk_state s) \<and> list_all (token_ok M) (sk_cached_tokens s) \<and>
     length (sk_cached_tokens s) \<le> nat (sk_max_context s) \<and> holds_kv F M (nat (sk_max_context s)) (take n (sk_cached_tokens s)) (sk_state s)"

text \<open>A session before its first use.\<close>

definition blank_session :: "session_kv \<Rightarrow> bool" where
  "blank_session s \<longleftrightarrow> \<not> sk_initialized s \<and> sk_state s = new_inference_state"

lemma common_prefix_props:
  "ps \<noteq> [] \<Longrightarrow> common_prefix cs ps < length ps" "take (common_prefix cs ps) cs = take (common_prefix cs ps) ps" "common_prefix cs ps \<le> length cs"
  by (induction cs ps rule: common_prefix.induct) auto

lemma common_prefix_Nil [simp]: "common_prefix [] ps = 0"
  by (cases ps) auto

lemma holds_kv_Nil: "runs_on M c st \<Longrightarrow> holds_kv F M c [] st"
  unfolding holds_kv_def by (rule dec.valid_nil)

lemma holds_kv_agree: "holds_kv F M c toks st \<Longrightarrow> holds_kv F M c toks (set_pos p st)"
  unfolding holds_kv_def by (erule dec.valid_agr) (simp add: agree_def set_pos_def)

lemma holds_kv_take:
  assumes "holds_kv F M c (take n toks) st" "list_all (token_ok M) toks" "length toks \<le> c" "m \<le> n"
  shows "holds_kv F M c (take m toks) st"
proof -
  have "take n toks = take m toks @ drop m (take n toks)" using assms(4) by (metis append_take_drop_id min_absorb1 take_take)
  moreover have "list_all (token_ok M) (take n toks)" using assms(2) by (auto simp: list_all_iff dest: in_set_takeD)
  moreover have "length (take n toks) \<le> c" using assms(3) by simp
  ultimately show ?thesis using dec.valid_append [of F M c "take m toks" "drop m (take n toks)" st] assms(1)
    unfolding holds_kv_def by metis
qed

lemma context_len_bounds: "context_len M b \<le> 65536"
  by (simp add: context_len_def Let_def)

lemma context_len_word: "0 \<le> context_len M b \<Longrightarrow> unat (word_of_int (context_len M b) :: size_t) = nat (context_len M b)"
  using context_len_bounds [of M b] by (simp add: unat_word_of_int_u64)

lemma effective_prompt_props:
  assumes "2 \<le> context_len M b" "prompt \<noteq> []"
  defines "eff \<equiv> effective_prompt (context_len M b) prompt"
  shows "eff \<noteq> []" "int (length eff) \<le> context_len M b - 1" "list_all P prompt \<Longrightarrow> list_all P eff"
    "\<not> nat (context_len M b) \<le> length prompt \<Longrightarrow> eff = prompt"
proof -
  let ?c = "context_len M b"
  have w: "unat (word_of_int ?c :: size_t) = nat ?c" using assms(1) by (intro context_len_word) simp
  show "eff \<noteq> []" using assms(1,2) unfolding eff_def effective_prompt_def w by auto
  show "int (length eff) \<le> ?c - 1" using assms(1,2) unfolding eff_def effective_prompt_def w by auto
  show "list_all P prompt \<Longrightarrow> list_all P eff" unfolding eff_def effective_prompt_def by (auto simp: list_all_iff dest: in_set_dropD)
  show "\<not> nat ?c \<le> length prompt \<Longrightarrow> eff = prompt" unfolding eff_def effective_prompt_def w by simp
qed

text \<open>The state in which a session enters the loops.\<close>

definition entry_state :: "session_kv \<Rightarrow> int list \<Rightarrow> int \<Rightarrow> nat \<times> inference_state" where
  "entry_state s prompt ctx =
     (let start = (if nat ctx \<le> length prompt then 0 else common_prefix (sk_cached_tokens s) prompt) in (start, set_pos (int start) (sk_state s)))"

lemma session_start:
  assumes "runs_on M c (sk_state s)" "holds_kv F M c (take (common_prefix (sk_cached_tokens s) prompt) (sk_cached_tokens s)) (sk_state s)"
    "2 \<le> context_len M b" "prompt \<noteq> []"
  obtains start where "entry_state s prompt (context_len M b) = (start, set_pos (int start) (sk_state s))"
    "start < length (effective_prompt (context_len M b) prompt)" "holds_kv F M c (take start (effective_prompt (context_len M b) prompt)) (sk_state s)"
proof (cases "nat (context_len M b) \<le> length prompt")
  case True
  show ?thesis by (rule that [of 0]) (use True effective_prompt_props(1) [OF assms(3,4)] holds_kv_Nil [OF assms(1)] in \<open>auto simp: entry_state_def\<close>)
next
  case False
  show ?thesis
    by (rule that [of "common_prefix (sk_cached_tokens s) prompt"])
      (use False effective_prompt_props(4) [OF assms(3,4)] assms(2) common_prefix_props(1) [OF assms(4)] common_prefix_props(2) [of "sk_cached_tokens s" prompt]
        in \<open>auto simp: entry_state_def Let_def\<close>)
qed

lemma generate_session:
  assumes "sk_initialized s" "context_len M b \<le> sk_max_context s" "0 \<le> context_len M b" "prompt \<noteq> []"
  shows "generate F S M prompt mt temperature pen (Some s) b =
    (case entry_state s prompt (context_len M b) of (start, st) \<Rightarrow>
       sbind (run_model F S M (context_len M b) mt temperature pen (effective_prompt (context_len M b) prompt) start st) (\<lambda>(texts, gen, st1, ok).
         Inr (texts, Some (s\<lparr>sk_state := st1, sk_cached_tokens := (if ok then effective_prompt (context_len M b) prompt @ gen
            else if nat (context_len M b) \<le> length prompt then [] else sk_cached_tokens s)\<rparr>))))"
  using assms context_len_word [OF assms(3)]
  by (auto simp: generate_def Let_def open_session_def entry_state_def set_pos_def sbind_def split: sum.splits)

lemma generate_capacity:
  assumes "sk_initialized s" "context_len M b \<le> sk_max_context s" "0 \<le> context_len M b" "prompt \<noteq> []"
    and "generate F S M prompt mt temperature pen (Some s) b = Inr (texts, Some s')"
  shows "sk_max_context s' = sk_max_context s"
  using assms(5) unfolding generate_session [OF assms(1-4)] by (auto simp: sbind_Inr split: prod.splits)

text \<open>
  C1. Reuse of the KV cache is transparent: on a well-formed model, when the cache of a session holds the tokens it shares with the prompt, generating from
  the cached prefix gives the same text as recomputing the whole prompt.
\<close>

theorem cache_reuse_transparent:
  assumes "sampler_ok S" and "0 < n_vocab M" and "session_holds F M s (common_prefix (sk_cached_tokens s) prompt)"
    and "prompt \<noteq> []" and "list_all (token_ok M) prompt" and "context_len M b \<le> sk_max_context s" and "2 \<le> context_len M b" and "0 \<le> mt"
  shows "\<exists>texts s1 s2. generate F S M prompt mt temperature pen (Some s) b = Inr (texts, Some s1) \<and>
    generate F S M prompt mt temperature pen (Some (s\<lparr>sk_cached_tokens := []\<rparr>)) b = Inr (texts, Some s2) \<and> sk_cached_tokens s1 = sk_cached_tokens s2"
proof -
  let ?ctx = "context_len M b" and ?c = "nat (sk_max_context s)" and ?st = "sk_state s"
  let ?eff = "effective_prompt ?ctx prompt" and ?n = "common_prefix (sk_cached_tokens s) prompt"
  note eff = effective_prompt_props [OF assms(7,4)]
  have h: "sk_initialized s" "runs_on M ?c ?st" "holds_kv F M ?c (take ?n (sk_cached_tokens s)) ?st" using assms(3) by (auto simp: session_holds_def)
  have pos: "0 \<le> ?ctx" using assms(7) by simp
  have g: "generate F S M prompt mt temperature pen (Some s') b = (case entry_state s' prompt ?ctx of (start, st) \<Rightarrow>
       sbind (run_model F S M ?ctx mt temperature pen ?eff start st) (\<lambda>(texts, gen, st1, ok).
         Inr (texts, Some (s'\<lparr>sk_state := st1, sk_cached_tokens := (if ok then ?eff @ gen else if nat ?ctx \<le> length prompt then [] else sk_cached_tokens s')\<rparr>))))"
    if "s' = s \<or> s' = s\<lparr>sk_cached_tokens := []\<rparr>" for s'
    by (rule generate_session) (use that h(1) assms(4,6) pos in auto)
  obtain start where start: "entry_state s prompt ?ctx = (start, set_pos (int start) ?st)" "start < length ?eff" "holds_kv F M ?c (take start ?eff) ?st"
    by (rule session_start [OF h(2,3) assms(7,4)])
  have zero: "entry_state (s\<lparr>sk_cached_tokens := []\<rparr>) prompt ?ctx = (0, set_pos 0 ?st)" by (simp add: entry_state_def)
  have "\<exists>texts gen st1 st2. run_model F S M ?ctx mt temperature pen ?eff start (set_pos (int start) ?st) = Inr (texts, gen, st1, True) \<and>
      run_model F S M ?ctx mt temperature pen ?eff 0 (set_pos 0 (set_pos (int start) ?st)) = Inr (texts, gen, st2, True)"
    by (rule run_model_same [OF assms(1,2), of ?c])
      (use h(2) start(2,3) eff(2,3) assms(5,6,8) in \<open>auto simp: dec.fits_pos holds_kv_agree\<close>)
  then obtain texts gen st1 st2 where "run_model F S M ?ctx mt temperature pen ?eff start (set_pos (int start) ?st) = Inr (texts, gen, st1, True)"
      "run_model F S M ?ctx mt temperature pen ?eff 0 (set_pos 0 ?st) = Inr (texts, gen, st2, True)"
    by (auto simp: set_pos_def)
  then show ?thesis using g start(1) zero by auto
qed

text \<open>A fresh state has room for the whole context.\<close>

lemma inv_freq_rounds:
  assumes "model_ok M"
  shows "(nat (sint (head_dim (cfg_of M))) + 1) div 2 = hd_dim M div 2"
proof -
  have d: "even (hd_dim M)" "n_heads M * hd_dim M \<le> emb_dim M" "0 < n_heads M" "embedding_length (cfg_of M) < 2 ^ 31"
    using assms by (auto simp: model_ok_def dims_ok_def)
  have "emb_dim M < 2 ^ 31" using d(4) by (simp add: emb_dim_def word_less_nat_alt)
  moreover have "hd_dim M \<le> n_heads M * hd_dim M" using mult_le_mono1 [of 1 "n_heads M" "hd_dim M"] d(3) by linarith
  ultimately have "unat (head_dim (cfg_of M)) < 2 ^ 31" using d(2) unfolding hd_dim_def by linarith
  then have "head_dim (cfg_of M) < 2 ^ 31" by (simp add: word_less_nat_alt)
  then have "uint (head_dim (cfg_of M)) < 2 ^ 31" by (simp add: word_less_def)
  then have "sint (head_dim (cfg_of M)) = uint (head_dim (cfg_of M))"
    using signed_take_bit_int_eq_self [of 31 "uint (head_dim (cfg_of M))"] uint_ge_0 [of "head_dim (cfg_of M)"]
    by (simp add: sint_uint del: uint_ge_0)
  then have "nat (sint (head_dim (cfg_of M))) = hd_dim M" by (simp add: hd_dim_def)
  then show "(nat (sint (head_dim (cfg_of M))) + 1) div 2 = hd_dim M div 2" using d(1) by (metis even_succ_div_two)
qed

lemma init_new_fits:
  assumes "model_ok M" "0 \<le> ctx" "nat ctx * kv_dim M < 2 ^ 32"
  shows "\<exists>st. init_inference_state F (cfg_of M) ctx new_inference_state = Inr st \<and> state_fits M (nat ctx) st \<and> st_current_pos st = 0"
proof -
  note r = inv_freq_rounds [OF assms(1)]
  have "word_of_int ctx = (word_of_nat (nat ctx) :: u32)" using assms(2) by (metis int_nat_eq of_int_of_nat_eq)
  then have "unat (word_of_int ctx * num_kv_heads (cfg_of M) * head_dim (cfg_of M)) = unat ((word_of_nat (nat ctx) :: u32) * (num_kv_heads (cfg_of M) * head_dim (cfg_of M)))"
    by (simp add: mult.assoc)
  also have "\<dots> = (nat ctx * kv_dim M) mod 2 ^ 32" by (simp add: unat_word_ariths unat_of_nat kv_dim_def mod_simps)
  finally have row: "kv_row_len (cfg_of M) ctx = nat ctx * kv_dim M" using assms(3) by (simp add: kv_row_len_def)
  show ?thesis
    using r row by (auto simp: init_inference_state_def Let_def new_inference_state_def state_fits_def vec_resize_def emb_dim_def hd_dim_def n_layers_def list_all_iff)
qed

definition session_ready :: "float_ops \<Rightarrow> loaded_model \<Rightarrow> int \<Rightarrow> session_kv \<Rightarrow> bool" where
  "session_ready F M ctx s \<longleftrightarrow>
     blank_session s \<and> model_ok M \<and> nat ctx * kv_dim M < 2 ^ 32 \<or> session_holds F M s (length (sk_cached_tokens s)) \<and> ctx \<le> sk_max_context s"

lemma blank_session_opens:
  assumes "blank_session s" "model_ok M" "nat (context_len M b) * kv_dim M < 2 ^ 32" "0 \<le> context_len M b" "prompt \<noteq> []"
  shows "\<exists>s1. session_holds F M s1 (length (sk_cached_tokens s1)) \<and> sk_max_context s1 = context_len M b \<and>
    generate F S M prompt mt temperature pen (Some s) b = generate F S M prompt mt temperature pen (Some s1) b"
proof -
  let ?ctx = "context_len M b"
  obtain st where st: "init_inference_state F (cfg_of M) ?ctx new_inference_state = Inr st" "state_fits M (nat ?ctx) st" "st_current_pos st = 0"
    using init_new_fits [OF assms(2,4,3)] by blast
  let ?s1 = "s\<lparr>sk_state := st, sk_max_context := ?ctx, sk_num_kv_heads := sint (num_kv_heads (cfg_of M)),
     sk_head_dim := sint (head_dim (cfg_of M)), sk_initialized := True, sk_cached_tokens := []\<rparr>"
  have p0: "st\<lparr>st_current_pos := 0\<rparr> = st" using st(3) by simp
  have o: "open_session F M ?ctx prompt s = Inr (?s1, 0)" using assms(1) st(1) by (simp add: open_session_def blank_session_def)
  have o1: "open_session F M ?ctx prompt ?s1 = Inr (?s1, 0)" using p0 by (simp add: open_session_def)
  have "session_holds F M ?s1 (length (sk_cached_tokens ?s1))"
    using st(2) assms(2) by (simp add: session_holds_def runs_on_def holds_kv_Nil)
  moreover have "generate F S M prompt mt temperature pen (Some s) b = generate F S M prompt mt temperature pen (Some ?s1) b"
    using o o1 assms(5) by (simp add: generate_def Let_def)
  ultimately show ?thesis by (intro exI [of _ ?s1]) simp
qed

lemma generate_run:
  assumes S: "sampler_ok S" "0 < n_vocab M" and ses: "session_ready F M (context_len M b) s"
    and pr: "prompt \<noteq> []" "list_all (token_ok M) prompt" and ctx: "2 \<le> context_len M b" and mt: "0 \<le> mt"
  defines "eff \<equiv> effective_prompt (context_len M b) prompt"
  shows "\<exists>gen s'. generate F S M prompt mt temperature pen (Some s) b = Inr (map (detokenize (dm_vocab (lm_model M))) gen, Some s') \<and>
    sk_cached_tokens s' = eff @ gen \<and> int (length gen) \<le> mt \<and> session_holds F M s' (length (eff @ gen) - 1) \<and>
    (int (length gen) < mt \<and> int (length (eff @ gen)) < context_len M b \<longrightarrow> session_holds F M s' (length (eff @ gen))) \<and>
    ((\<forall>t. token_ok M t \<longrightarrow> \<not> is_eos (lm_model M) t) \<longrightarrow> int (length gen) = min mt (context_len M b - int (length eff)))"
proof -
  let ?ctx = "context_len M b"
  obtain s0 where s0: "session_holds F M s0 (length (sk_cached_tokens s0))" "?ctx \<le> sk_max_context s0"
      "generate F S M prompt mt temperature pen (Some s) b = generate F S M prompt mt temperature pen (Some s0) b"
    using ses blank_session_opens [of s M b prompt F S mt temperature pen] ctx pr(1) unfolding session_ready_def by force
  let ?c = "nat (sk_max_context s0)" and ?n = "common_prefix (sk_cached_tokens s0) prompt"
  have h: "sk_initialized s0" "runs_on M ?c (sk_state s0)" "list_all (token_ok M) (sk_cached_tokens s0)" "length (sk_cached_tokens s0) \<le> ?c"
    "holds_kv F M ?c (sk_cached_tokens s0) (sk_state s0)" using s0(1) by (auto simp: session_holds_def)
  note ep = effective_prompt_props [OF ctx pr(1), folded eff_def]
  have hn: "holds_kv F M ?c (take ?n (sk_cached_tokens s0)) (sk_state s0)"
    by (rule holds_kv_take [where n = "length (sk_cached_tokens s0)", OF _ h(3,4)]) (use h(5) common_prefix_props(3) in auto)
  obtain start where start: "entry_state s0 prompt ?ctx = (start, set_pos (int start) (sk_state s0))" "start < length eff" "holds_kv F M ?c (take start eff) (sk_state s0)"
    unfolding eff_def by (rule session_start [OF h(2) hn ctx pr(1)])
  have el: "int (length eff) \<le> ?ctx" "?ctx - 1 \<le> int ?c" using ep(2) s0(2) ctx by auto
  obtain gen st1 where r: "run_model F S M ?ctx mt temperature pen eff start (set_pos (int start) (sk_state s0)) = Inr (map (detokenize (dm_vocab (lm_model M))) gen, gen, st1, True)"
      "int (length gen) \<le> mt" "list_all (token_ok M) gen" "runs_on M ?c st1" "int (length eff + length gen) \<le> ?ctx" "holds_kv F M ?c (butlast (eff @ gen)) st1"
      "int (length gen) < mt \<and> int (length eff + length gen) < ?ctx \<longrightarrow> holds_kv F M ?c (eff @ gen) st1"
      "(\<forall>t. token_ok M t \<longrightarrow> \<not> is_eos (lm_model M) t) \<longrightarrow> int (length gen) = min mt (?ctx - int (length eff))"
    using run_model_valid [OF S, of ?c "set_pos (int start) (sk_state s0)" start F eff ?ctx mt temperature pen] h(2) start(2,3) el ep(3) pr(2) mt
    by (auto simp: dec.fits_pos holds_kv_agree)
  let ?s' = "s0\<lparr>sk_state := st1, sk_cached_tokens := eff @ gen\<rparr>"
  have "generate F S M prompt mt temperature pen (Some s0) b = Inr (map (detokenize (dm_vocab (lm_model M))) gen, Some ?s')"
    using generate_session [OF h(1) s0(2) _ pr(1), of F S mt temperature pen] start(1) r(1) ctx by (simp add: eff_def)
  moreover have base: "list_all (token_ok M) (eff @ gen)" "length (eff @ gen) \<le> ?c" using ep(3) pr(2) r(3,5) s0(2) by auto
  moreover have "session_holds F M ?s' (length (eff @ gen) - 1)" "int (length gen) < mt \<and> int (length (eff @ gen)) < ?ctx \<longrightarrow> session_holds F M ?s' (length (eff @ gen))"
    using h(1) r(4,6,7) base by (auto simp: session_holds_def butlast_conv_take)
  ultimately show ?thesis using r(2,8) s0(3) by (intro exI [of _ gen] exI [of _ ?s']) simp
qed

text \<open>
  C2. Generation terminates and delivers: with a session before its first use, or one whose cache is valid, and a model without end-of-sequence
  tokens, \<open>generate\<close> returns exactly \<open>max_tokens\<close> texts, or as many as the context leaves room for.
\<close>

theorem generate_delivers:
  assumes "sampler_ok S" and "0 < n_vocab M" and "session_ready F M (context_len M b) s" and "prompt \<noteq> []" and "list_all (token_ok M) prompt"
    and "2 \<le> context_len M b" and "0 \<le> mt" and "\<forall>t. token_ok M t \<longrightarrow> \<not> is_eos (lm_model M) t"
  shows "\<exists>texts s'. generate F S M prompt mt temperature pen (Some s) b = Inr (texts, Some s') \<and>
    int (length texts) = min mt (context_len M b - int (length (effective_prompt (context_len M b) prompt)))"
  using generate_run [OF assms(1-7), of temperature pen] assms(8) by auto

text \<open>
  C3. Generation keeps the session cache valid: afterwards the session holds the keys and values of every cached token but the last, and of the last
  one too when the text ended with an end-of-sequence token (fewer texts than asked for, and room left in the context).
\<close>

theorem generate_keeps_cache:
  assumes "sampler_ok S" and "0 < n_vocab M" and "session_ready F M (context_len M b) s" and "prompt \<noteq> []" and "list_all (token_ok M) prompt"
    and "2 \<le> context_len M b" and "0 \<le> mt"
  shows "\<exists>texts s'. generate F S M prompt mt temperature pen (Some s) b = Inr (texts, Some s') \<and> int (length texts) \<le> mt \<and>
    session_holds F M s' (length (sk_cached_tokens s') - 1) \<and>
    (int (length texts) < mt \<and> int (length (sk_cached_tokens s')) < context_len M b \<longrightarrow> session_holds F M s' (length (sk_cached_tokens s')))"
  using generate_run [OF assms, of temperature pen] by fastforce

section \<open>Examples\<close>

definition demo_sampler :: sampler where
  "demo_sampler = \<lparr>smp_nth = (\<lambda>n xs. xs), smp_draw = (\<lambda>i ps. 0)\<rparr>"

lemma demo_sampler_ok: "sampler_ok demo_sampler"
  by (simp add: sampler_ok_def demo_sampler_def)

lemma demo_context: "context_len demo_model 0 = 8"
  by (simp add: context_len_def Let_def cfg_of_def demo_model_def default_config_def)

lemma demo_ready: "session_ready demo_floats demo_model (context_len demo_model 0) new_session"
  by (simp add: session_ready_def blank_session_def new_session_def demo_model_ok demo_context demo_dims)

lemma demo_prompt: "list_all (token_ok demo_model) [0, 1]"
  by (simp add: token_ok_def demo_dims)

lemma demo_effective: "effective_prompt 8 [0, 1] = [0, 1]"
  by (simp add: effective_prompt_def)

lemma demo_no_eos: "\<forall>t. token_ok demo_model t \<longrightarrow> \<not> is_eos (lm_model demo_model) t"
  by (auto simp: token_ok_def demo_dims is_eos_def demo_model_def default_config_def eos_strings_def less_2_cases_iff nth_Cons')

lemma demo_vocab: "0 < n_vocab demo_model"
  by (simp add: demo_dims)

theorem generate_delivers_witness:
  "\<exists>texts s'. generate demo_floats demo_sampler demo_model [0, 1] 3 f_one f_one (Some new_session) 0 = Inr (texts, Some s') \<and> length texts = 3"
  using generate_delivers [OF demo_sampler_ok demo_vocab demo_ready _ demo_prompt _ _ demo_no_eos, of 3 f_one f_one]
  by (simp add: demo_context demo_effective)

theorem generate_keeps_cache_witness:
  "\<exists>texts s'. generate demo_floats demo_sampler demo_model [0, 1] 3 f_one f_one (Some new_session) 0 = Inr (texts, Some s') \<and>
     session_holds demo_floats demo_model s' (length (sk_cached_tokens s') - 1)"
  using generate_keeps_cache [OF demo_sampler_ok demo_vocab demo_ready _ demo_prompt, of 3 f_one f_one] by (auto simp: demo_context)

lemma demo_second_turn:
  "\<exists>s. session_holds demo_floats demo_model s (common_prefix (sk_cached_tokens s) [0, 1]) \<and> 2 \<le> length (sk_cached_tokens s) \<and> sk_max_context s = 8"
proof -
  let ?d = "demo_floats" and ?M = demo_model
  obtain s1 where s1: "session_holds ?d ?M s1 (length (sk_cached_tokens s1))" "sk_max_context s1 = 8"
    using blank_session_opens [of new_session ?M 0 "[0, 1]" ?d demo_sampler 3 f_one f_one] demo_ready
    by (auto simp: session_ready_def session_holds_def new_session_def demo_context blank_session_def)
  then have "session_ready ?d ?M (context_len ?M 0) s1" by (simp add: session_ready_def demo_context)
  then obtain gen s' where s': "generate ?d demo_sampler ?M [0, 1] 3 f_one f_one (Some s1) 0 = Inr (map (detokenize (dm_vocab (lm_model ?M))) gen, Some s')"
      "sk_cached_tokens s' = [0, 1] @ gen" "session_holds ?d ?M s' (length ([0, 1] @ gen) - 1)"
    using generate_run [OF demo_sampler_ok demo_vocab _ _ demo_prompt, of ?d 0 s1 3 f_one f_one] by (auto simp: demo_context demo_effective)
  have "sk_max_context s' = 8"
    using generate_capacity [OF _ _ _ _ s'(1)] s1 by (auto simp: session_holds_def demo_context)
  moreover have "session_holds ?d ?M s' (common_prefix (sk_cached_tokens s') [0, 1])"
  proof -
    have "holds_kv ?d ?M (nat (sk_max_context s')) (take (common_prefix (sk_cached_tokens s') [0, 1]) (sk_cached_tokens s')) (sk_state s')"
      by (rule holds_kv_take [where n = "length ([0, 1] @ gen) - 1"]) (use s'(2,3) in \<open>auto simp: session_holds_def\<close>)
    then show ?thesis using s'(3) by (simp add: session_holds_def)
  qed
  moreover have "2 \<le> length (sk_cached_tokens s')" using s'(2) by simp
  ultimately show ?thesis by blast
qed

theorem cache_reuse_transparent_witness:
  "\<exists>s texts s1 s2. 2 \<le> length (sk_cached_tokens s) \<and> generate demo_floats demo_sampler demo_model [0, 1] 3 f_one f_one (Some s) 0 = Inr (texts, Some s1) \<and>
     generate demo_floats demo_sampler demo_model [0, 1] 3 f_one f_one (Some (s\<lparr>sk_cached_tokens := []\<rparr>)) 0 = Inr (texts, Some s2)"
proof -
  obtain s where s: "session_holds demo_floats demo_model s (common_prefix (sk_cached_tokens s) [0, 1])" "2 \<le> length (sk_cached_tokens s)" "sk_max_context s = 8"
    using demo_second_turn by blast
  then show ?thesis
    using cache_reuse_transparent [OF demo_sampler_ok demo_vocab s(1) _ demo_prompt, of 0 3 f_one f_one] by (auto simp: demo_context)
qed

end
