(* ===== verification/Session_Reuse.thy ===== *)
theory Session_Reuse
  imports Generation
begin

text \<open>
  Two hazards of reusing a session across calls of \<open>generate\<close> (\<open>infer.cpp\<close>): the cache slot of the last token of a text cut at
  \<open>max_tokens\<close> is never written but is taken for valid by the next call, and growing the context of a session keeps its old cache rows.
\<close>

section \<open>Slots that a run leaves alone\<close>

text \<open>A decoder step that writes no slot after its position.\<close>

locale decoder_frame = decoder +
  fixes keep :: "nat \<Rightarrow> inference_state \<Rightarrow> inference_state \<Rightarrow> bool"
  assumes step_keep: "fits st \<Longrightarrow> tok_ok t \<Longrightarrow> 0 \<le> st_current_pos st \<Longrightarrow> st_current_pos st < int cap \<Longrightarrow> length lg = nv \<Longrightarrow>
      fwd st t lg = Inr (True, st', lg') \<Longrightarrow> keep (Suc (nat (st_current_pos st))) st st'"
    and keep_refl: "keep n st st"
    and keep_trans: "keep n st st2 \<Longrightarrow> keep n st2 st3 \<Longrightarrow> keep n st st3"
    and keep_mono: "keep n st st2 \<Longrightarrow> n \<le> m \<Longrightarrow> keep m st st2"
    and keep_pos: "keep n (set_pos p st) st2 \<longleftrightarrow> keep n st st2"
begin

lemma prefill_keep:
  assumes "fits st" "list_all tok_ok ts" "0 \<le> st_current_pos st" "st_current_pos st + int (length ts) \<le> ctx - 1"
    "st_current_pos st + int (length ts) \<le> int cap" "length lg = nv"
    "prefill fwd ctx ts st lg = Inr (True, st', lg')"
  shows "keep (nat (st_current_pos st) + length ts) st st'"
  using assms
proof (induction ts arbitrary: st lg)
  case Nil
  then show ?case using keep_refl by simp
next
  case (Cons t ts)
  obtain s out where s: "fwd st t lg = Inr (True, s, out)" "fits s" "length out = nv" "st_current_pos s = st_current_pos st"
    using step_ok [of st t lg] Cons.prems by auto
  have "keep (nat (st_current_pos st + 1) + length ts) (inc_pos s) st'"
    using Cons.IH [of "inc_pos s" out] Cons.prems s by (auto simp: fits_pos)
  then have "keep (nat (st_current_pos st) + length (t # ts)) s st'" using Cons.prems(3) by (simp add: keep_pos nat_add_distrib)
  moreover have "keep (Suc (nat (st_current_pos st))) st s" using step_keep [OF _ _ _ _ _ s(1)] Cons.prems by simp
  ultimately show ?case using keep_mono keep_trans by (metis add_Suc_right le_add1 list.size(4) plus_1_eq_Suc add.commute add_Suc)
qed

lemma gen_keep:
  assumes ctx: "ctx - 1 \<le> int cap" and pick: "\<And>i g lg. length lg = nv \<Longrightarrow> \<exists>t. pick i g lg = Inr t \<and> tok_ok t"
    and "fits st" "tok_ok tok" "0 \<le> st_current_pos st" "length lg = nv"
    "gen_loop fwd pick eos ctx n i tok gen st lg = Inr r" "length (gr_tokens r) = length gen + n"
  shows "keep (nat (st_current_pos st) + n) st (gr_state r)"
  using assms(3-)
proof (induction n arbitrary: st tok gen i lg)
  case 0
  then show ?case using keep_refl by auto
next
  case (Suc n)
  have c: "st_current_pos st < ctx - 1" using Suc.prems(5,6) by (auto split: if_splits)
  obtain s out where s: "fwd st tok lg = Inr (True, s, out)" "fits s" "length out = nv" "st_current_pos s = st_current_pos st"
    using step_ok [of st tok lg] Suc.prems c ctx by auto
  obtain t where t: "pick i gen out = Inr t" "tok_ok t" using pick [OF s(3)] by blast
  have e: "\<not> eos t" using Suc.prems(5,6) c s(1) t(1) by auto
  have "keep (nat (st_current_pos st + 1) + n) (inc_pos s) (gr_state r)"
    using Suc.IH [of "inc_pos s" t out "Suc i" "gen @ [t]"] Suc.prems c s t e by (auto simp: fits_pos)
  then have "keep (nat (st_current_pos st) + Suc n) s (gr_state r)" using Suc.prems(3) by (simp add: keep_pos nat_add_distrib)
  moreover have "keep (nat (st_current_pos st) + Suc n) st s"
    by (rule keep_mono [OF step_keep [OF _ _ _ _ _ s(1)]]) (use Suc.prems c ctx in auto)
  ultimately show ?case using keep_trans by blast
qed

end

definition later_slots :: "loaded_model \<Rightarrow> nat \<Rightarrow> inference_state \<Rightarrow> inference_state \<Rightarrow> bool" where
  "later_slots M n st st' \<longleftrightarrow> map (drop (n * kv_dim M)) (st_k_cache st') = map (drop (n * kv_dim M)) (st_k_cache st) \<and>
     map (drop (n * kv_dim M)) (st_v_cache st') = map (drop (n * kv_dim M)) (st_v_cache st)"

lemma frame_later:
  assumes "caches_frame M p st st'"
  shows "later_slots M (Suc p) st st'"
proof -
  have "map (drop (Suc p * kv_dim M)) ys = map (drop (Suc p * kv_dim M)) xs"
    if "list_all2 (row_frame (p * kv_dim M) (kv_dim M)) xs ys" for xs ys :: "f32 list list"
    using that by (induction rule: list_all2_induct) (auto simp: row_frame_def add.commute)
  then show ?thesis using assms by (auto simp: caches_frame_def later_slots_def)
qed

lemma later_slots_mono:
  assumes "later_slots M n st st2" "n \<le> m"
  shows "later_slots M m st st2"
proof -
  obtain d where d: "m = n + d" using assms(2) le_Suc_ex by blast
  have "map (drop (m * kv_dim M)) xs = map (drop (d * kv_dim M)) (map (drop (n * kv_dim M)) xs)" for xs :: "f32 list list"
    by (simp add: d algebra_simps)
  then show ?thesis using assms(1) unfolding later_slots_def by metis
qed

interpretation decf: decoder_frame "forward_pass F M" c "n_vocab M" "runs_on M c" "token_ok M" "agree M" "later_slots M"
  for F M c
proof
  fix st :: inference_state and t and lg :: "f32 list" and st' lg'
  assume a: "runs_on M c st" "token_ok M t" "0 \<le> st_current_pos st" "st_current_pos st < int c" "length lg = n_vocab M" "forward_pass F M st t lg = Inr (True, st', lg')"
  have "caches_frame M (nat (st_current_pos st)) st st'"
    using forward_pass_fits [of M t c st lg F] a by (auto simp: runs_on_def nat_less_iff)
  then show "later_slots M (Suc (nat (st_current_pos st))) st st'" by (rule frame_later)
next
  fix n m :: nat and p and st st2 st3 :: inference_state
  show "later_slots M n st st" by (simp add: later_slots_def)
  show "later_slots M n st st2 \<Longrightarrow> later_slots M n st2 st3 \<Longrightarrow> later_slots M n st st3" by (simp add: later_slots_def)
  show "later_slots M n st st2 \<Longrightarrow> n \<le> m \<Longrightarrow> later_slots M m st st2" by (rule later_slots_mono)
  show "later_slots M n (set_pos p st) st2 \<longleftrightarrow> later_slots M n st st2" by (simp add: later_slots_def set_pos_def)
qed

section \<open>The last token of a text cut at its limit\<close>

lemma run_model_keep:
  assumes S: "sampler_ok S" "0 < n_vocab M" and st: "runs_on M c st" "st_current_pos st = int start" "start < length eff"
    and eff: "list_all (token_ok M) eff" "int (length eff) \<le> ctx" "ctx - 1 \<le> int c"
    and run: "run_model F S M ctx (int n) temperature pen eff start st = Inr (texts, gen, st1, True)" "length gen = n"
  shows "later_slots M (length eff - 1 + n) st st1"
proof -
  let ?body = "butlast eff" and ?lg = "replicate (n_vocab M) f_zero"
  have ne: "eff \<noteq> []" using st(3) by auto
  have tk: "list_all (token_ok M) (drop start ?body)" "token_ok M (last eff)"
    using eff(1) ne by (auto simp: list_all_iff dest: in_set_butlastD in_set_dropD)
  obtain s lg where pre: "prefill (forward_pass F M) ctx (drop start ?body) st ?lg = Inr (True, s, lg)" "runs_on M c s" "length lg = n_vocab M"
      "st_current_pos s = int (length ?body)"
    by (rule dec.prefill_one [of M c st "drop start ?body" ctx ?lg F]) (use st eff tk in auto)
  have "later_slots M (nat (st_current_pos st) + length (drop start ?body)) st s"
    by (rule decf.prefill_keep [OF st(1) tk(1) _ _ _ _ pre(1)]) (use st eff in auto)
  then have a: "later_slots M (length eff - 1 + n) st s" by (rule later_slots_mono) (use st in simp)
  obtain r where r: "gen_loop (forward_pass F M) (pick_token F S temperature pen) (is_eos (lm_model M)) ctx n 0 (last eff) [] s lg = Inr r"
      "gr_tokens r = gen" "gr_state r = st1"
    using run(1) pre(1) ne by (auto simp: run_model_def sbind_Inr)
  have "later_slots M (nat (st_current_pos s) + n) s (gr_state r)"
    by (rule decf.gen_keep [OF eff(3) pick_token_ok [OF S] pre(2) tk(2) _ pre(3) r(1)]) (use pre(4) r(2) run(2) in auto)
  then show ?thesis using decf.keep_trans [OF a] pre(4) r(3) by simp
qed

lemma common_prefix_snoc: "common_prefix cs (cs @ [t]) = length cs"
proof (induction cs)
  case (Cons c cs)
  then show ?case by (cases "cs @ [t]") auto
qed simp

text \<open>
  The cache entry that is never computed: when a text stops because \<open>max_tokens\<close> is reached, the slot of its last token (and every later slot)
  still has the content it had before the call, but the token counts as cached: a next prompt that continues the conversation starts behind it.
\<close>

theorem last_token_never_cached:
  assumes "sampler_ok S" and "0 < n_vocab M" and "session_holds F M s (length (sk_cached_tokens s))" and "context_len M b \<le> sk_max_context s"
    and "prompt \<noteq> []" and "list_all (token_ok M) prompt" and "2 \<le> context_len M b"
    and "generate F S M prompt (int n) temperature pen (Some s) b = Inr (texts, Some s')" and "length texts = n" and "0 < n"
  shows "later_slots M (length (sk_cached_tokens s') - 1) (sk_state s) (sk_state s') \<and>
    (\<exists>s2. open_session F M (context_len M b) (sk_cached_tokens s' @ [t]) s' = Inr (s2, length (sk_cached_tokens s')))"
proof -
  let ?ctx = "context_len M b" and ?c = "nat (sk_max_context s)" and ?n = "common_prefix (sk_cached_tokens s) prompt"
  let ?eff = "effective_prompt ?ctx prompt"
  have h: "sk_initialized s" "runs_on M ?c (sk_state s)" "list_all (token_ok M) (sk_cached_tokens s)" "length (sk_cached_tokens s) \<le> ?c"
    "holds_kv F M ?c (sk_cached_tokens s) (sk_state s)" using assms(3) by (auto simp: session_holds_def)
  note ep = effective_prompt_props [OF assms(7,5)]
  have hn: "holds_kv F M ?c (take ?n (sk_cached_tokens s)) (sk_state s)"
    by (rule holds_kv_take [where n = "length (sk_cached_tokens s)", OF _ h(3,4)]) (use h(5) common_prefix_props(3) in auto)
  obtain start where start: "entry_state s prompt ?ctx = (start, set_pos (int start) (sk_state s))" "start < length ?eff" "holds_kv F M ?c (take start ?eff) (sk_state s)"
    by (rule session_start [OF h(2) hn assms(7,5)])
  have el: "int (length ?eff) \<le> ?ctx" "?ctx - 1 \<le> int ?c" using ep(2) assms(4,7) by auto
  obtain gen st1 where r: "run_model F S M ?ctx (int n) temperature pen ?eff start (set_pos (int start) (sk_state s)) =
      Inr (map (detokenize (dm_vocab (lm_model M))) gen, gen, st1, True)"
    using run_model_valid [OF assms(1,2), of ?c "set_pos (int start) (sk_state s)" start F ?eff ?ctx "int n" temperature pen] h(2) start(2,3) el ep(3) assms(6)
    by (auto simp: dec.fits_pos holds_kv_agree)
  have s': "s' = s\<lparr>sk_state := st1, sk_cached_tokens := ?eff @ gen\<rparr>" "length gen = n"
    using assms(8,9) generate_session [OF h(1) assms(4) _ assms(5), of F S "int n" temperature pen] start(1) r assms(7) by auto
  have "later_slots M (length ?eff - 1 + n) (set_pos (int start) (sk_state s)) st1"
    by (rule run_model_keep [OF assms(1,2) _ _ start(2) _ el r s'(2)]) (use h(2) ep(3) assms(6) in \<open>auto simp: dec.fits_pos\<close>)
  then have "later_slots M (length (?eff @ gen) - 1) (sk_state s) st1" using s'(2) start(2) by (simp add: decf.keep_pos)
  then show ?thesis using s'(1) h(1) assms(4) common_prefix_snoc [of "?eff @ gen" t] by (simp add: open_session_def Let_def)
qed

section \<open>Growing the context of a session\<close>

lemma attend_overrun:
  assumes "dims_ok M" "0 < hd_dim M" "length q = emb_dim M" "length krow = pos * kv_dim M"
  shows "attend F M pos q krow vrow = Inl OutOfBounds"
proof -
  have "attend_head F M pos q krow vrow h = Inl OutOfBounds" if h: "h < n_heads M" for h
  proof -
    have "(h + 1) * hd_dim M \<le> n_heads M * hd_dim M" using h by (intro mult_le_mono1) simp
    then have "slice q (h * hd_dim M) (hd_dim M) = Inr (take (hd_dim M) (drop (h * hd_dim M) q))"
      using assms(1,3) by (simp add: slice_def dims_ok_def)
    moreover have "smap (\<lambda>p. slice krow (p * kv_dim M + h div kv_groups M * hd_dim M) (hd_dim M)) [0..<Suc pos] = Inl OutOfBounds"
      by (rule smap_Inl [of pos]) (use assms(2,4) in \<open>auto simp: slice_def split: if_splits\<close>)
    ultimately show ?thesis using kv_head_bound(1) [OF assms(1) h] by (simp add: attend_head_def Let_def del: upt_Suc)
  qed
  then have "smap (attend_head F M pos q krow vrow) [0..<n_heads M] = Inl OutOfBounds"
    by (intro smap_Inl [of 0]) (use assms(1) in \<open>auto simp: dims_ok_def\<close>)
  then show ?thesis by (simp add: attend_def)
qed

text \<open>A state whose cache rows have exactly \<open>c\<close> positions.\<close>

definition rows_exact :: "loaded_model \<Rightarrow> nat \<Rightarrow> inference_state \<Rightarrow> bool" where
  "rows_exact M c st \<longleftrightarrow> list_all (\<lambda>row. length row = c * kv_dim M) (st_k_cache st)"

lemma forward_pass_overrun:
  assumes ok: "model_ok M" "token_ok M tok" "0 < hd_dim M" "0 < n_layers M" and st: "state_fits M c st" "rows_exact M c st" "st_current_pos st = int c"
  shows "forward_pass F M st tok logits = Inl OutOfBounds"
proof -
  have d: "dims_ok M" "layer_fits M 0" using ok(1,4) by (auto simp: model_ok_def list_all_iff)
  obtain ty data x0 where e: "tensor_bytes M ''token_embd.weight'' = Inr (ty, data)" "ty = Q4_0 \<or> ty = Q8_0"
      "embed_token F M ty data (nat tok) (st_x st) = Inr x0" "length x0 = emb_dim M"
    using embed_token_ok [OF ok(1,2), of "st_x st" "st_x st" F] st(1) by (auto simp: state_fits_def)
  obtain xn q0 k0 v q k where i: "norm_by F M (layer_name 0 ''attn_norm.weight'') x0 = Inr xn" "project F M 0 ''attn_q'' xn (emb_dim M) = Inr q0"
    "project F M 0 ''attn_k'' xn (kv_dim M) = Inr k0" "project F M 0 ''attn_v'' xn (kv_dim M) = Inr v"
    "math_rope F q0 (int c) (n_heads M) (hd_dim M) (st_inv_freq st) = Inr q" "math_rope F k0 (int c) (n_kv_heads M) (hd_dim M) (st_inv_freq st) = Inr k"
    "length q = emb_dim M"
    by (rule att_inputs_ok [OF d e(4), of "st_inv_freq st" F "int c"]) (use st(1) in \<open>auto simp: state_fits_def\<close>)
  have rows: "0 < length (st_k_cache st)" "0 < length (st_v_cache st)" "length (st_k_cache st ! 0) = c * kv_dim M"
    using st(1,2) ok(4) by (auto simp: state_fits_def rows_exact_def list_all_length)
  have "0 < kv_dim M" using d(1) ok(3) by (simp add: dims_ok_def)
  then have s: "store_kv c (kv_dim M) k v 0 (st\<lparr>st_x := x0\<rparr>) = Inr (st\<lparr>st_x := x0\<rparr>)" using rows by (simp add: store_kv_def)
  have a: "attend F M c q (st_k_cache st ! 0) (st_v_cache st ! 0) = Inl OutOfBounds" by (rule attend_overrun [OF d(1) ok(3) i(7) rows(3)])
  have "attention_block F M 0 (st\<lparr>st_x := x0\<rparr>) = Inl OutOfBounds"
    using i s a rows st(3) by (simp add: attention_block_def Let_def)
  then have l: "sfold (layer_step F M) [0..<n_layers M] (st\<lparr>st_x := x0\<rparr>) = Inl OutOfBounds"
    using ok(4) by (simp add: upt_conv_Cons layer_step_def)
  show ?thesis using forward_pass_layers [OF ok(1,2) _ e(1-3)] l st(3) by simp
qed

lemma kv_rows_kept:
  assumes "caches_frame M p st st'" "rows_exact M c st"
  shows "rows_exact M c st'"
proof -
  have "list_all (\<lambda>row. length row = n) ys" if "list_all2 (row_frame a b) xs ys" "list_all (\<lambda>row. length row = n) xs" for a b n and xs ys :: "f32 list list"
    using that by (induction rule: list_all2_induct) (auto simp: row_frame_def)
  then show ?thesis using assms by (auto simp: caches_frame_def rows_exact_def)
qed

lemma prefill_overrun:
  assumes ok: "model_ok M" "0 < hd_dim M" "0 < n_layers M" and st: "state_fits M c st" "rows_exact M c st" "0 \<le> st_current_pos st" "st_current_pos st \<le> int c"
    and ts: "list_all (token_ok M) ts" "int c < st_current_pos st + int (length ts)" "int c < ctx - 1" "length lg = n_vocab M"
  shows "prefill (forward_pass F M) ctx ts st lg = Inl OutOfBounds"
  using st ts(1,2,4)
proof (induction ts arbitrary: st lg)
  case (Cons t ts)
  show ?case
  proof (cases "st_current_pos st = int c")
    case True
    then show ?thesis using forward_pass_overrun [OF ok(1) _ ok(2,3) Cons.prems(1,2) True] Cons.prems(5) ts(3) by simp
  next
    case False
    then have p: "nat (st_current_pos st) < c" using Cons.prems(3,4) by linarith
    obtain s out where s: "forward_pass F M st t lg = Inr (True, s, out)" "state_fits M c s" "length out = n_vocab M" "caches_frame M (nat (st_current_pos st)) st s"
      using forward_pass_fits [OF ok(1) _ Cons.prems(1,3) p Cons.prems(7), of t F] Cons.prems(5) by auto
    have c: "st_current_pos s = st_current_pos st" using s(4) by (simp add: caches_frame_def)
    have "state_fits M c (inc_pos s)" "rows_exact M c (inc_pos s)"
      using s(2) kv_rows_kept [OF s(4) Cons.prems(2)] by (auto simp: state_fits_def rows_exact_def set_pos_def)
    then have "prefill (forward_pass F M) ctx ts (inc_pos s) out = Inl OutOfBounds"
      by (rule Cons.IH) (use Cons.prems p c s(3) False in auto)
    then show ?thesis using s(1) Cons.prems(4) False ts(3) by simp
  qed
qed simp

lemma init_keeps_rows:
  assumes "model_ok M" "state_fits M c st" "rows_exact M c st"
  shows "\<exists>st'. init_inference_state F (cfg_of M) ctx st = Inr st' \<and> state_fits M c st' \<and> rows_exact M c st' \<and> st_current_pos st' = 0"
proof -
  note r = inv_freq_rounds [OF assms(1)]
  show ?thesis
    using assms(2,3) r by (auto simp: init_inference_state_def vec_resize_def Let_def state_fits_def rows_exact_def emb_dim_def hd_dim_def n_layers_def)
qed

text \<open>
  C26. Growing a session overruns its cache: when a session with cache rows for its old context size is used with a larger context, the old rows are kept,
  and a prompt longer than them makes the attention read outside the rows.
\<close>

theorem session_growth_overruns:
  assumes "model_ok M" and "0 < hd_dim M" and "0 < n_layers M" and "sk_initialized s" and "state_fits M c (sk_state s)" and "rows_exact M c (sk_state s)"
    and "sk_max_context s = int c" and "list_all (token_ok M) prompt" and "c + 1 < length prompt" and "int (length prompt) < context_len M b" and "0 \<le> mt"
  shows "generate F S M prompt mt temperature pen (Some s) b = Inl OutOfBounds"
proof -
  let ?ctx = "context_len M b"
  obtain st where st: "init_inference_state F (cfg_of M) ?ctx (sk_state s) = Inr st" "state_fits M c st" "rows_exact M c st" "st_current_pos st = 0"
    using init_keeps_rows [OF assms(1,5,6)] by blast
  have w: "unat (word_of_int ?ctx :: size_t) = nat ?ctx" using assms(10) by (intro context_len_word) simp
  then have e: "effective_prompt ?ctx prompt = prompt" "\<not> unat (word_of_int ?ctx :: size_t) \<le> length prompt" using assms(10) by (auto simp: effective_prompt_def)
  have "prefill (forward_pass F M) ?ctx (butlast prompt) st (replicate (n_vocab M) f_zero) = Inl OutOfBounds"
    by (rule prefill_overrun [OF assms(1-3) st(2,3)]) (use st(4) assms(8-10) in \<open>auto simp: list_all_iff dest: in_set_butlastD\<close>)
  then have "run_model F S M ?ctx mt temperature pen prompt 0 st = Inl OutOfBounds" using assms(11) by (simp add: run_model_def)
  moreover have "open_session F M ?ctx prompt s = Inr (s\<lparr>sk_state := st, sk_max_context := ?ctx, sk_num_kv_heads := sint (num_kv_heads (cfg_of M)),
      sk_head_dim := sint (head_dim (cfg_of M)), sk_initialized := True, sk_cached_tokens := []\<rparr>, 0)"
    using st(1) assms(7,9,10) by (simp add: open_session_def)
  ultimately show ?thesis using e assms(9) by (auto simp: generate_def Let_def)
qed

section \<open>Examples\<close>

definition small_session :: session_kv where
  "small_session = new_session\<lparr>sk_state := demo_state\<lparr>st_k_cache := [replicate 64 0], st_v_cache := [replicate 64 0]\<rparr>, sk_max_context := 2, sk_initialized := True\<rparr>"

theorem session_growth_overruns_witness:
  "generate demo_floats demo_sampler demo_model [0, 1, 0, 1] 3 f_one f_one (Some small_session) 0 = Inl OutOfBounds"
  by (rule session_growth_overruns [OF demo_model_ok, where c = 2])
    (simp_all add: demo_dims demo_context small_session_def state_fits_def rows_exact_def demo_state_def token_ok_def)

lemma demo_session_holds: "\<exists>s. session_holds demo_floats demo_model s (length (sk_cached_tokens s)) \<and> sk_max_context s = 8"
  using blank_session_opens [of new_session demo_model 0 "[0, 1]" demo_floats demo_sampler 3 f_one f_one] demo_ready
  by (auto simp: session_ready_def session_holds_def new_session_def demo_context blank_session_def)

theorem last_token_never_cached_witness:
  "\<exists>s s2 s' texts. sk_max_context s = 8 \<and> generate demo_floats demo_sampler demo_model [0, 1] 3 f_one f_one (Some s) 0 = Inr (texts, Some s') \<and>
     length (sk_cached_tokens s') = 5 \<and> later_slots demo_model 4 (sk_state s) (sk_state s') \<and>
     open_session demo_floats demo_model 8 (sk_cached_tokens s' @ [0]) s' = Inr (s2, 5)"
proof -
  obtain s where s: "session_holds demo_floats demo_model s (length (sk_cached_tokens s))" "sk_max_context s = 8" using demo_session_holds by blast
  then have "session_ready demo_floats demo_model (context_len demo_model 0) s" by (simp add: session_ready_def demo_context)
  then obtain gen s' where r: "generate demo_floats demo_sampler demo_model [0, 1] (int 3) f_one f_one (Some s) 0 = Inr (map (detokenize (dm_vocab (lm_model demo_model))) gen, Some s')"
      "sk_cached_tokens s' = [0, 1] @ gen" "length gen = 3"
    using generate_run [OF demo_sampler_ok demo_vocab _ _ demo_prompt, of demo_floats 0 s 3 f_one f_one] demo_no_eos by (auto simp: demo_context demo_effective)
  have l: "length (sk_cached_tokens s') = 5" using r(2,3) by simp
  have "later_slots demo_model (length (sk_cached_tokens s') - 1) (sk_state s) (sk_state s') \<and>
      (\<exists>s2. open_session demo_floats demo_model (context_len demo_model 0) (sk_cached_tokens s' @ [0]) s' = Inr (s2, length (sk_cached_tokens s')))"
    by (rule last_token_never_cached [OF demo_sampler_ok demo_vocab s(1) _ _ demo_prompt _ r(1)]) (use s(2) r(3) in \<open>auto simp: demo_context\<close>)
  then show ?thesis using s(2) r(1) l by (auto simp: demo_context)
qed

end
