(* ===== verification/Text_Embedding.thy ===== *)
theory Text_Embedding
  imports Search_Engine
begin

text \<open>
  Text embedding and similarity (\<open>vector_search.cpp\<close>): the hashed feature projection that is used when no neural embedding is registered, the
  cosine mapped to the unit interval, and the two threshold searches.

  The registered embedding function (\<open>set_embedding_fn\<close>, a static variable behind a mutex) is an argument: \<open>None\<close> when there is none. Writing
  outside the feature vector is \<open>OutOfBounds\<close>. Sums and roots in double precision are the record \<open>double_ops\<close>.
\<close>

unbundle bit_operations_syntax

section \<open>Similarity\<close>

definition cosine_similarity :: "float_ops \<Rightarrow> double_ops \<Rightarrow> f32 list \<Rightarrow> f32 list \<Rightarrow> f32" where
  "cosine_similarity F D a b =
     (if a = [] \<or> length a \<noteq> length b then f_zero
      else
        let dot = d_dot D a b; norm_a = d_dot D a a; norm_b = d_dot D b b
        in if d_upto_1em9 D norm_a \<or> d_upto_1em9 D norm_b then f_zero
           else f32_max f_zero (f32_min f_one (f_mul F (f_add F (d_cosine_f32 D dot norm_a norm_b) f_one) 0x3F000000)))"

section \<open>Feature projection\<close>

definition fnv1a_hash :: "string \<Rightarrow> u32" where
  "fnv1a_hash s = fold (\<lambda>c hash. (hash XOR word_of_nat (code c)) * 16777619) s 2166136261"

fun to_words :: "string \<Rightarrow> string \<Rightarrow> string list" where
  "to_words cur [] = (if cur \<noteq> [] then [cur] else [])"
| "to_words cur (c # cs) =
     (if isalnum c then to_words (cur @ [tolower c]) cs
      else if cur \<noteq> [] then cur # to_words [] cs else to_words [] cs)"

definition cluster_map :: "(string \<times> nat) list" where
  "cluster_map =
     map (\<lambda>w. (w, 0)) [''auth'', ''login'', ''authenticate'', ''credential'', ''password'', ''token'', ''session'', ''jwt'', ''signin'', ''verify''] @
     map (\<lambda>w. (w, 1)) [''db'', ''database'', ''sql'', ''sqlite'', ''table'', ''store'', ''query'', ''record'', ''schema''] @
     map (\<lambda>w. (w, 2)) [''route'', ''endpoint'', ''url'', ''api'', ''handler'', ''request'', ''http'', ''controller'', ''client''] @
     map (\<lambda>w. (w, 3)) [''memory'', ''cache'', ''persist'', ''recall'', ''state'', ''kv'', ''buffer''] @
     map (\<lambda>w. (w, 4)) [''thread'', ''async'', ''mutex'', ''lock'', ''task'', ''worker'', ''pool''] @
     map (\<lambda>w. (w, 5)) [''code'', ''ast'', ''tree'', ''symbol'', ''class'', ''function'', ''method'']"

text \<open>The places a word adds to and the amounts 2.0, 1.5 and 0.5.\<close>

definition hashed_place :: "nat \<Rightarrow> string \<Rightarrow> nat" where
  "hashed_place dim w = 36 + unat (fnv1a_hash w) mod (dim - 36)"

definition word_features :: "nat \<Rightarrow> string \<Rightarrow> (nat \<times> f32) list" where
  "word_features dim w =
     (case map_of cluster_map w of Some c \<Rightarrow> map (\<lambda>k. (c * 6 + k, 0x40000000)) [0..<6] | None \<Rightarrow> []) @
     [(hashed_place dim w, 0x3FC00000)] @
     (if 3 \<le> length w then map (\<lambda>i. (hashed_place dim (take 3 (drop i w)), 0x3F000000)) [0..<length w - 2] else [])"

definition add_feature :: "float_ops \<Rightarrow> nat \<times> f32 \<Rightarrow> f32 list \<Rightarrow> mem_error + f32 list" where
  "add_feature F p vec = (if fst p < length vec then Inr (vec[fst p := f_add F (vec ! fst p) (snd p)]) else Inl OutOfBounds)"

definition project_text :: "float_ops \<Rightarrow> double_ops \<Rightarrow> string \<Rightarrow> nat \<Rightarrow> mem_error + f32 list" where
  "project_text F D text dim0 =
     (let dim = (if dim0 < 64 then 64 else dim0); vec = replicate dim f_zero
      in if text = [] then Inr vec
         else let words = to_words [] text
              in if words = [] then Inr vec
                 else sbind (sfold (add_feature F) (concat (map (word_features dim) words)) vec) (\<lambda>v. Inr (l2_normalise F D v)))"

definition embed_text :: "float_ops \<Rightarrow> double_ops \<Rightarrow> (string \<Rightarrow> f32 list) option \<Rightarrow> string \<Rightarrow> nat \<Rightarrow> mem_error + f32 list" where
  "embed_text F D embedding_fn text dim =
     (case embedding_fn of
        Some fn \<Rightarrow> if fn text \<noteq> [] then Inr (fn text) else project_text F D text dim
      | None \<Rightarrow> project_text F D text dim)"

definition semantic_overlap :: "float_ops \<Rightarrow> double_ops \<Rightarrow> (string \<Rightarrow> f32 list) option \<Rightarrow> string \<Rightarrow> string \<Rightarrow> mem_error + f32" where
  "semantic_overlap F D fn query target =
     (if query = [] \<or> target = [] then Inr f_zero
      else sbind (embed_text F D fn query 128) (\<lambda>q_vec. sbind (embed_text F D fn target 128) (\<lambda>t_vec. Inr (cosine_similarity F D q_vec t_vec))))"

definition vs_search :: "float_ops \<Rightarrow> double_ops \<Rightarrow> f32 list \<Rightarrow> (search_result \<times> f32 list) list \<Rightarrow> f32 \<Rightarrow> search_result list" where
  "vs_search F D query_vec candidates threshold =
     map (\<lambda>(r, v). r\<lparr>sr_semantic_similarity := cosine_similarity F D query_vec v\<rparr>)
       (filter (\<lambda>(r, v). f32_le threshold (cosine_similarity F D query_vec v)) candidates)"

definition search_semantic_text ::
  "float_ops \<Rightarrow> double_ops \<Rightarrow> (string \<Rightarrow> f32 list) option \<Rightarrow> string \<Rightarrow> search_result list \<Rightarrow> f32 \<Rightarrow> mem_error + search_result list" where
  "search_semantic_text F D fn query candidates threshold =
     (if query = [] \<or> candidates = [] then Inr []
      else sbind (embed_text F D fn query 128) (\<lambda>query_vec.
           sbind (smap (\<lambda>r. embed_text F D fn (sr_content r) 128) candidates) (\<lambda>doc_vecs.
             Inr (vs_search F D query_vec (zip candidates doc_vecs) threshold))))"

section \<open>Facts\<close>

lemma cluster_range: "map_of cluster_map w = Some c \<Longrightarrow> c < 6"
proof -
  have "list_all (\<lambda>e. snd e < 6) cluster_map" by (simp add: cluster_map_def)
  then show "map_of cluster_map w = Some c \<Longrightarrow> c < 6" using map_of_SomeD [of cluster_map w c] by (auto simp: list_all_iff)
qed

lemma word_features_bound: "64 \<le> dim \<Longrightarrow> p \<in> set (word_features dim w) \<Longrightarrow> fst p < dim"
proof -
  assume dim: "64 \<le> dim" and p: "p \<in> set (word_features dim w)"
  have h: "hashed_place dim x < dim" for x
  proof -
    have "unat (fnv1a_hash x) mod (dim - 36) < dim - 36" using dim by (intro mod_less_divisor) simp
    then show ?thesis unfolding hashed_place_def by linarith
  qed
  have c: "c * 6 + k < dim" if "map_of cluster_map w = Some c" "k < 6" for c k
    using cluster_range [OF that(1)] that(2) dim by linarith
  show "fst p < dim" using p h c by (auto simp: word_features_def split: option.splits if_splits)
qed

lemma add_features_ok:
  assumes "\<And>p. p \<in> set ps \<Longrightarrow> fst p < n" and "length v = n"
  shows "\<exists>v'. sfold (add_feature F) ps v = Inr v' \<and> length v' = n"
  by (rule sfold_keeps) (use assms in \<open>auto simp: add_feature_def\<close>)

lemma project_text_ok: "\<exists>v. project_text F D text dim = Inr v \<and> length v = max 64 dim"
proof -
  let ?d = "if dim < 64 then 64 else dim"
  have "\<exists>v'. sfold (add_feature F) (concat (map (word_features ?d) (to_words [] text))) (replicate ?d f_zero) = Inr v' \<and> length v' = ?d"
    by (rule add_features_ok) (auto intro!: word_features_bound)
  then show ?thesis by (auto simp: project_text_def Let_def)
qed

text \<open>
  The feature projection is total and depends on the words only: for every text and dimension it writes inside the vector and returns a vector of
  the asked dimension, at least 64, and two texts with the same words up to case, spacing and punctuation have the same embedding.
\<close>

theorem projection_total_on_words:
  "(\<exists>v. embed_text F D None text dim = Inr v \<and> length v = max 64 dim) \<and>
   (to_words [] text = to_words [] text2 \<longrightarrow> embed_text F D None text dim = embed_text F D None text2 dim)"
proof -
  have "project_text F D text dim = project_text F D text2 dim" if "to_words [] text = to_words [] text2"
    using that by (cases "text = []"; cases "text2 = []") (auto simp: project_text_def Let_def)
  then show ?thesis using project_text_ok [of F D "text" dim] by (auto simp: embed_text_def)
qed

text \<open>
  The similarity is a number of the unit interval for all inputs, including vectors with infinite or undefined elements, and vectors of different
  length have similarity zero.
\<close>

theorem cosine_in_unit_interval:
  "f32_le f_zero (cosine_similarity F D a b) \<and> f32_le (cosine_similarity F D a b) f_one \<and>
   (length a \<noteq> length b \<longrightarrow> cosine_similarity F D a b = f_zero)"
proof -
  have n: "\<not> f32_nan f_zero" "\<not> f32_nan f_one" "f32_key f_zero = 0" "f32_key f_one = 0x3F800000"
    by (simp_all add: f32_nan_def f32_mag_def f32_key_def f_zero_def f_one_def)
  have "f32_le f_zero (f32_max f_zero (f32_min f_one x)) \<and> f32_le (f32_max f_zero (f32_min f_one x)) f_one" for x
    using n by (auto simp: f32_max_def f32_min_def f32_le_def f32_lt_def)
  then show ?thesis using n by (auto simp: cosine_similarity_def Let_def f32_le_def)
qed

text \<open>The clamp turns an undefined cosine into the greatest similarity.\<close>

theorem undefined_cosine_is_one:
  assumes "a \<noteq> []" and "length a = length b" and "\<not> d_upto_1em9 D (d_dot D a a)" and "\<not> d_upto_1em9 D (d_dot D b b)"
    and "f32_nan (f_mul F (f_add F (d_cosine_f32 D (d_dot D a b) (d_dot D a a) (d_dot D b b)) f_one) 0x3F000000)"
  shows "cosine_similarity F D a b = f_one"
  using assms by (auto simp: cosine_similarity_def Let_def f32_min_def f32_max_def f32_lt_def f32_nan_def f32_key_def f32_mag_def f_zero_def f_one_def)

section \<open>Examples\<close>

definition demo_doubles :: double_ops where
  "demo_doubles = \<lparr>d_of_f32 = ucast, d_add = (+), d_mul = (\<lambda>a b. a), d_above_1em9 = (\<lambda>a. False), d_upto_1em9 = (\<lambda>a. a = 0),
     d_inv_sqrt_f32 = (\<lambda>a. f_one), d_cosine_f32 = (\<lambda>a b c. f_one)\<rparr>"

theorem projection_total_on_words_witness:
  "embed_text demo_floats demo_doubles None ''DB, query'' 64 = embed_text demo_floats demo_doubles None ''db query!'' 64"
proof -
  have "to_words [] ''DB, query'' = to_words [] ''db query!''" by code_simp
  then show ?thesis using projection_total_on_words [of demo_floats demo_doubles "''DB, query''" 64 "''db query!''"] by simp
qed

theorem cosine_in_unit_interval_witness:
  "cosine_similarity demo_floats demo_doubles [f_one] [f_one, f_one] = f_zero"
  using cosine_in_unit_interval [of demo_floats demo_doubles "[f_one]" "[f_one, f_one]"] by simp

end
