(* ===== verification/Sql_Table.thy ===== *)
theory Sql_Table
  imports Model_Types
begin

text \<open>
  Tables of the embedded database as the stores use them: a table is the list of its rows, text is bound as a C string (with length -1, so that it ends at
  the first zero byte), and an \<open>INSERT ... ON CONFLICT DO UPDATE\<close> or \<open>INSERT OR REPLACE\<close> is \<open>upsert\<close>. The numbers that the stores keep as
  text are printed by \<open>std::to_string\<close> and read by \<open>std::stoi\<close>.
\<close>

section \<open>Text and rows\<close>

definition c_str :: "string \<Rightarrow> string" where
  "c_str s = takeWhile (\<lambda>c. c \<noteq> CHR 0x00) s"

fun upsert :: "('r \<Rightarrow> 'k) \<Rightarrow> ('r \<Rightarrow> 'r \<Rightarrow> 'r) \<Rightarrow> 'r \<Rightarrow> 'r list \<Rightarrow> 'r list" where
  "upsert key merge row [] = [row]"
| "upsert key merge row (r # rs) = (if key r = key row then merge r row # rs else r # upsert key merge row rs)"

lemma c_str_id: "CHR 0x00 \<notin> set s \<Longrightarrow> c_str s = s"
  by (auto simp: c_str_def takeWhile_eq_all_conv)

lemma c_str_idem [simp]: "c_str (c_str s) = c_str s"
  by (rule c_str_id) (auto simp: c_str_def dest: set_takeWhileD)

section \<open>Tables with a key\<close>

text \<open>The interface of a table with a primary key: merging a row into one with the same key keeps the key.\<close>

locale keyed_table =
  fixes key :: "'r \<Rightarrow> 'k" and merge :: "'r \<Rightarrow> 'r \<Rightarrow> 'r"
  assumes merge_key: "key old = key new \<Longrightarrow> key (merge old new) = key new"
begin

lemma upsert_keys: "set (map key (upsert key merge row rows)) = insert (key row) (set (map key rows))"
  by (induction rows) (auto simp: merge_key)

lemma upsert_distinct: "distinct (map key rows) \<Longrightarrow> distinct (map key (upsert key merge row rows))"
proof (induction rows)
  case (Cons r rows)
  have "set (map key (upsert key merge row rows)) = insert (key row) (set (map key rows))" by (rule upsert_keys)
  then show ?case using Cons by (auto simp: merge_key)
qed simp

lemma find_upsert:
  "find (\<lambda>r. key r = k) (upsert key merge row rows) =
     (if k = key row then Some (case find (\<lambda>r. key r = k) rows of None \<Rightarrow> row | Some old \<Rightarrow> merge old row) else find (\<lambda>r. key r = k) rows)"
  by (induction rows) (auto simp: merge_key)

end

section \<open>Numbers as text\<close>

text \<open>\<open>std::stoi\<close>: blanks, a sign, digits; without digits or outside 32 bits it throws.\<close>

definition stoi :: "string \<Rightarrow> int option" where
  "stoi s =
     (let s1 = dropWhile isspace s;
          neg = (s1 \<noteq> [] \<and> hd s1 = CHR ''-'');
          s2 = (if s1 \<noteq> [] \<and> (hd s1 = CHR ''-'' \<or> hd s1 = CHR ''+'') then tl s1 else s1);
          n = int (fst (read_digits 0 s2));
          v = (if neg then - n else n)
      in if s2 = [] \<or> \<not> isdigit (hd s2) then None else if - (2 ^ 31) \<le> v \<and> v < 2 ^ 31 then Some v else None)"

lemma nat_digits_Nil [simp]: "nat_digits n \<noteq> []"
  by (simp add: nat_digits.simps [of n])

lemma hd_nat_digits: "isdigit (hd (nat_digits n))"
  by (rule nat_digits_isdigit [of _ n]) simp

lemma isdigit_plain: "isdigit c \<Longrightarrow> \<not> isspace c \<and> c \<noteq> CHR ''-'' \<and> c \<noteq> CHR ''+'' \<and> c \<noteq> CHR 0x00"
  by (auto simp: isdigit_def isspace_def code_def)

lemma dropWhile_keep: "s = [] \<or> \<not> P (hd s) \<Longrightarrow> dropWhile P s = s"
  by (cases s) auto

lemma stoi_int_digits:
  assumes "- (2 ^ 31) \<le> i" and "i < 2 ^ 31"
  shows "stoi (int_digits i) = Some i"
proof (cases "i < 0")
  case True
  have "\<not> isspace (CHR ''-'')" by (simp add: isspace_def code_def)
  with True assms show ?thesis
    using hd_nat_digits [of "nat (- i)"] by (simp add: stoi_def int_digits_def Let_def read_digits_nat_digits)
next
  case False
  have "dropWhile isspace (nat_digits (nat i)) = nat_digits (nat i)"
    by (rule dropWhile_keep) (use hd_nat_digits [of "nat i"] isdigit_plain in blast)
  with False assms show ?thesis
    using hd_nat_digits [of "nat i"] isdigit_plain [OF hd_nat_digits [of "nat i"]] by (simp add: stoi_def int_digits_def Let_def read_digits_nat_digits)
qed

lemma int_digits_clean [simp]: "c_str (int_digits i) = int_digits i"
  by (rule c_str_id) (use isdigit_plain nat_digits_isdigit in \<open>auto simp: int_digits_def\<close>)

end
