(* ===== verification/Memory_Store.thy ===== *)
theory Memory_Store
  imports Agent_Memory Vector_Index Text_Embedding Sql_Table
begin

text \<open>
  The canonical memory store (\<open>memory_store.cpp\<close>): the tables \<open>memories\<close>, \<open>sessions\<close>, \<open>session_turns\<close> and
  \<open>consolidated_archives\<close> with the statements the code runs on them, and the quantised index that accompanies the memories.

  A table is the list of its rows in insertion order; an \<open>INSERT ... ON CONFLICT\<close> is \<open>upsert\<close> (\<open>Sql_Table\<close>). What SQLite answers beyond that is the record
  \<open>sqlite_ops\<close>: the \<open>LIKE\<close> operator, the order in which a \<open>SELECT\<close> without \<open>ORDER BY\<close> visits the rows, the value read back from a
  \<open>REAL\<close> column, and the keys that the scope statement yields when the workspace identifier, which is pasted into the statement, contains a quote.
  Text is bound with length -1, so that it ends at the first zero byte. \<open>ok\<close> says whether a writing statement succeeds. Every method holds the
  store's mutex; the schema is in place once \<open>init\<close> has succeeded. The text embedding is the argument \<open>emb_fn\<close>, the clock the argument \<open>now\<close>.
\<close>

section \<open>Tables\<close>

record memory_row =
  mr_entry :: memory_entry
  mr_embedding :: "f32 list option"

record turn_row =
  tr_session_id :: string
  tr_turn :: session_turn

record session_row =
  sr_key :: string
  sr_turn_count :: int
  sr_updated_at :: int

record archive_row =
  ar_archive_id :: string
  ar_session_id :: string
  ar_summary :: string
  ar_extracted_facts :: string
  ar_created_at :: int

record sqlite_ops =
  sq_like :: "string \<Rightarrow> string \<Rightarrow> bool"
  sq_scan :: "memory_row list \<Rightarrow> memory_row list"
  sq_real :: "f32 \<Rightarrow> f32"
  sq_pasted :: "string \<Rightarrow> memory_row list \<Rightarrow> string list"

record memory_store =
  ms_open :: bool
  ms_memories :: "memory_row list"
  ms_sessions :: "session_row list"
  ms_turns :: "turn_row list"
  ms_archives :: "archive_row list"
  ms_index :: "vector_index option"
  ms_index_file :: "u8 list"

section \<open>Memories\<close>

definition row_key :: "memory_row \<Rightarrow> string" where
  "row_key r = me_key (mr_entry r)"

text \<open>The bound column values of an entry.\<close>

definition to_columns :: "sqlite_ops \<Rightarrow> memory_entry \<Rightarrow> memory_entry" where
  "to_columns Q e = e\<lparr>me_key := c_str (me_key e), me_id := c_str (me_id e), me_value := c_str (me_value e), me_confidence := sq_real Q (me_confidence e),
     me_workspace_id := c_str (me_workspace_id e), me_session_id := c_str (me_session_id e), me_actor_scope := c_str (me_actor_scope e),
     me_visibility := c_str (me_visibility e), me_source_path := c_str (me_source_path e), me_source_type := c_str (me_source_type e),
     me_commit_hash := c_str (me_commit_hash e), me_importance := sq_real Q (me_importance e), me_supersedes_id := c_str (me_supersedes_id e),
     me_contradicts_id := c_str (me_contradicts_id e), me_status := c_str (me_status e)\<rparr>"

text \<open>The columns that \<open>ON CONFLICT(key) DO UPDATE SET\<close> lists.\<close>

definition merge_memory :: "memory_row \<Rightarrow> memory_row \<Rightarrow> memory_row" where
  "merge_memory old new =
     (let cur = mr_entry old; n = mr_entry new
      in \<lparr>mr_entry = cur\<lparr>me_value := me_value n, me_confidence := me_confidence n, me_updated_at := me_updated_at n, me_importance := me_importance n,
            me_status := me_status n, me_supersedes_id := me_supersedes_id n, me_contradicts_id := me_contradicts_id n,
            me_access_count := me_access_count cur + 1\<rparr>, mr_embedding = mr_embedding new\<rparr>)"

definition extract_memory_entry :: "memory_row \<Rightarrow> memory_entry" where
  "extract_memory_entry r =
     (let e = mr_entry r
      in e\<lparr>me_access_count := sint (word_of_int (me_access_count e) :: u32), me_status := (if me_status e = [] then ''active'' else me_status e)\<rparr>)"

definition embedding_of :: "(string \<Rightarrow> f32 list) \<Rightarrow> memory_entry \<Rightarrow> f32 list \<Rightarrow> f32 list" where
  "embedding_of emb_fn entry embedding = (if embedding = [] then emb_fn (me_value entry) else embedding)"

definition bound_row :: "sqlite_ops \<Rightarrow> (string \<Rightarrow> f32 list) \<Rightarrow> memory_entry \<Rightarrow> f32 list \<Rightarrow> memory_row" where
  "bound_row Q emb_fn entry embedding =
     (let emb = embedding_of emb_fn entry embedding
      in \<lparr>mr_entry = to_columns Q entry, mr_embedding = (if emb = [] then None else Some emb)\<rparr>)"

definition put_memory :: "sqlite_ops \<Rightarrow> float_ops \<Rightarrow> (string \<Rightarrow> f32 list) \<Rightarrow> bool \<Rightarrow> memory_entry \<Rightarrow> f32 list \<Rightarrow> memory_store \<Rightarrow> bool \<times> memory_store" where
  "put_memory Q F emb_fn ok entry embedding ms =
     (if \<not> ms_open ms then (False, ms)
      else
        let emb = embedding_of emb_fn entry embedding
        in if \<not> ok then (False, ms)
           else
             let ms1 = ms\<lparr>ms_memories := upsert row_key merge_memory (bound_row Q emb_fn entry embedding) (ms_memories ms)\<rparr>
             in case ms_index ms of
                  None \<Rightarrow> (True, ms1)
                | Some ix \<Rightarrow>
                    if emb = [] then (True, ms1)
                    else let ix1 = vi_add F (me_key entry) emb ix in (True, ms1\<lparr>ms_index := Some ix1, ms_index_file := save_index ix1\<rparr>))"

definition get_memory :: "string \<Rightarrow> memory_store \<Rightarrow> memory_entry option" where
  "get_memory key ms =
     (if \<not> ms_open ms then None else map_option extract_memory_entry (find (\<lambda>r. row_key r = c_str key) (ms_memories ms)))"

definition delete_memory :: "bool \<Rightarrow> string \<Rightarrow> memory_store \<Rightarrow> bool \<times> memory_store" where
  "delete_memory ok key ms =
     (if \<not> ms_open ms \<or> \<not> ok then (False, ms)
      else
        let ms1 = ms\<lparr>ms_memories := filter (\<lambda>r. row_key r \<noteq> c_str key) (ms_memories ms)\<rparr>
        in case ms_index ms of
             None \<Rightarrow> (True, ms1)
           | Some ix \<Rightarrow> let ix1 = snd (vi_remove key ix) in (True, ms1\<lparr>ms_index := Some ix1, ms_index_file := save_index ix1\<rparr>))"

definition update_where :: "string \<Rightarrow> (memory_entry \<Rightarrow> memory_entry) \<Rightarrow> memory_row list \<Rightarrow> memory_row list" where
  "update_where key f rows = map (\<lambda>r. if row_key r = c_str key then r\<lparr>mr_entry := f (mr_entry r)\<rparr> else r) rows"

definition supersede_memory :: "bool \<Rightarrow> string \<Rightarrow> string \<Rightarrow> memory_store \<Rightarrow> bool \<times> memory_store" where
  "supersede_memory ok old_key new_key ms =
     (if \<not> ms_open ms \<or> old_key = [] \<or> \<not> ok then (False, ms)
      else (True, ms\<lparr>ms_memories := update_where old_key (\<lambda>e. e\<lparr>me_status := ''superseded'', me_supersedes_id := c_str new_key\<rparr>) (ms_memories ms)\<rparr>))"

definition touch_memory :: "bool \<Rightarrow> int \<Rightarrow> string \<Rightarrow> memory_store \<Rightarrow> bool \<times> memory_store" where
  "touch_memory ok now key ms =
     (if \<not> ms_open ms \<or> key = [] \<or> \<not> ok then (False, ms)
      else (True, ms\<lparr>ms_memories := update_where key (\<lambda>e. e\<lparr>me_access_count := me_access_count e + 1, me_last_accessed_at := now\<rparr>) (ms_memories ms)\<rparr>))"

section \<open>Queries\<close>

text \<open>The condition of the keyword statement.\<close>

definition keyword_where :: "sqlite_ops \<Rightarrow> string \<Rightarrow> scope_filter \<Rightarrow> memory_row \<Rightarrow> bool" where
  "keyword_where Q query f r =
     (let e = mr_entry r; pattern = c_str (''%'' @ query @ ''%'')
      in (sq_like Q pattern (me_key e) \<or> sq_like Q pattern (me_value e)) \<and> me_status e = ''active'' \<and>
         (sf_workspace_id f = [] \<or> me_workspace_id e = c_str (sf_workspace_id f) \<or> me_visibility e = ''global'') \<and>
         (sf_session_id f = [] \<or> me_session_id e = c_str (sf_session_id f)))"

definition store_query_keyword :: "sqlite_ops \<Rightarrow> string \<Rightarrow> nat \<Rightarrow> scope_filter \<Rightarrow> memory_store \<Rightarrow> memory_entry list" where
  "store_query_keyword Q query limit f ms =
     (if \<not> ms_open ms then []
      else query_memories_keyword f limit (map extract_memory_entry (filter (keyword_where Q query f) (sq_scan Q (ms_memories ms)))) [])"

text \<open>The keys of the scope statement.\<close>

definition scope_keys :: "sqlite_ops \<Rightarrow> scope_filter \<Rightarrow> memory_row list \<Rightarrow> string list" where
  "scope_keys Q f rows =
     (if CHR 0x27 \<in> set (sf_workspace_id f) then sq_pasted Q (sf_workspace_id f) rows
      else map row_key (filter (\<lambda>r. (sf_active_only f \<longrightarrow> me_status (mr_entry r) = ''active'') \<and>
        (sf_workspace_id f = [] \<or> me_workspace_id (mr_entry r) = sf_workspace_id f \<or> me_workspace_id (mr_entry r) = ''default'' \<or>
         me_visibility (mr_entry r) = ''public'')) (sq_scan Q rows)))"

fun collect_hits :: "(string \<Rightarrow> memory_entry option) \<Rightarrow> f32 \<Rightarrow> nat \<Rightarrow> index_hit list \<Rightarrow> (memory_entry \<times> f32) list \<Rightarrow> (memory_entry \<times> f32) list" where
  "collect_hits lookup threshold limit [] scored = scored"
| "collect_hits lookup threshold limit (h # hs) scored =
     (if f32_le threshold (hit_score h)
      then case lookup (hit_id h) of
             Some e \<Rightarrow> if limit \<le> Suc (length scored) then scored @ [(e, hit_score h)]
                       else collect_hits lookup threshold limit hs (scored @ [(e, hit_score h)])
           | None \<Rightarrow> collect_hits lookup threshold limit hs scored
      else collect_hits lookup threshold limit hs scored)"

text \<open>The entries of the rows whose key is a hit, if the filter accepts them (the map \<open>entry_map\<close>).\<close>

definition entry_map :: "scope_filter \<Rightarrow> memory_row list \<Rightarrow> string list \<Rightarrow> string \<Rightarrow> memory_entry option" where
  "entry_map f rows ids k =
     (case find (\<lambda>r. row_key r = k) rows of
        Some r \<Rightarrow> if k \<in> set (map c_str ids) \<and> scope_matches f (extract_memory_entry r) then Some (extract_memory_entry r) else None
      | None \<Rightarrow> None)"

definition query_memories_vector ::
  "sqlite_ops \<Rightarrow> float_ops \<Rightarrow> double_ops \<Rightarrow> f32 list \<Rightarrow> nat \<Rightarrow> f32 \<Rightarrow> scope_filter \<Rightarrow> memory_store \<Rightarrow> index_error + (memory_entry \<times> f32) list" where
  "query_memories_vector Q F D query_vec limit threshold f ms =
     (if \<not> ms_open ms \<or> query_vec = [] then Inr []
      else case ms_index ms of
        Some ix \<Rightarrow>
          sbind (vi_search F ix query_vec limit (Some (build_allowlist_mask ix (scope_keys Q f (ms_memories ms))))) (\<lambda>hits.
            Inr (if hits = [] then [] else collect_hits (entry_map f (ms_memories ms) (map hit_id hits)) threshold limit hits []))
      | None \<Rightarrow>
          let rows = filter (\<lambda>r. mr_embedding r \<noteq> None \<and> scope_matches f (extract_memory_entry r)) (sq_scan Q (ms_memories ms));
              scored = filter (\<lambda>p. f32_le threshold (snd p))
                (map (\<lambda>r. (extract_memory_entry r, cosine_similarity F D query_vec (the (mr_embedding r)))) rows)
          in Inr (take limit (stable_sort (desc_by snd) scored)))"

definition load_all_persistent :: "sqlite_ops \<Rightarrow> scope_filter \<Rightarrow> memory_store \<Rightarrow> memory_entry list" where
  "load_all_persistent Q f ms =
     (if \<not> ms_open ms then [] else filter (scope_matches f) (map extract_memory_entry (sq_scan Q (ms_memories ms))))"

section \<open>Sessions and archives\<close>

definition turn_columns :: "string \<Rightarrow> session_turn \<Rightarrow> turn_row" where
  "turn_columns sid t = \<lparr>tr_session_id = c_str sid, tr_turn = t\<lparr>st_role := c_str (st_role t), st_content := c_str (st_content t),
     st_tool_name := c_str (st_tool_name t), st_tool_arguments := c_str (st_tool_arguments t), st_tool_result := c_str (st_tool_result t)\<rparr>\<rparr>"

definition save_session :: "int \<Rightarrow> session_memory \<Rightarrow> memory_store \<Rightarrow> bool \<times> memory_store" where
  "save_session now sm ms =
     (if \<not> ms_open ms then (False, ms)
      else
        let sid = c_str (sm_session_id sm);
            row = \<lparr>sr_key = sid, sr_turn_count = sint (word_of_nat (length (sm_turns sm)) :: u32), sr_updated_at = now\<rparr>
        in (True, ms\<lparr>ms_sessions := upsert sr_key (\<lambda>old new. new) row (ms_sessions ms),
                     ms_turns := filter (\<lambda>t. tr_session_id t \<noteq> sid) (ms_turns ms) @ map (turn_columns sid) (sm_turns sm)\<rparr>))"

text \<open>The index is bound as a signed 32-bit integer.\<close>

definition turn_before :: "turn_row \<Rightarrow> turn_row \<Rightarrow> bool" where
  "turn_before a b \<longleftrightarrow> sint (st_turn_index (tr_turn a)) < sint (st_turn_index (tr_turn b))"

definition replay_turn :: "int \<Rightarrow> turn_row \<Rightarrow> session_memory \<Rightarrow> session_memory" where
  "replay_turn now row sm =
     (let t = tr_turn row
      in if st_role t = ''tool'' then add_tool_interaction now (st_tool_name t) (st_tool_arguments t) (st_tool_result t) sm
         else add_message now (st_role t) (st_content t) sm)"

definition load_session :: "int \<Rightarrow> string \<Rightarrow> session_memory \<Rightarrow> memory_store \<Rightarrow> bool \<times> session_memory" where
  "load_session now sid out ms =
     (if \<not> ms_open ms then (False, out)
      else
        let out1 = sm_set_session_id sid (sm_clear out);
            rows = stable_sort turn_before (filter (\<lambda>t. tr_session_id t = c_str sid) (ms_turns ms));
            out2 = fold (replay_turn now) rows out1
        in (0 < length (sm_turns out2), out2))"

definition save_archive :: "bool \<Rightarrow> int \<Rightarrow> string \<Rightarrow> string \<Rightarrow> string \<Rightarrow> string \<Rightarrow> memory_store \<Rightarrow> bool \<times> memory_store" where
  "save_archive ok now archive_id sid summary facts ms =
     (if \<not> ms_open ms \<or> \<not> ok then (False, ms)
      else (True, ms\<lparr>ms_archives := upsert ar_archive_id
              (\<lambda>old new. old\<lparr>ar_summary := ar_summary new, ar_extracted_facts := ar_extracted_facts new, ar_created_at := ar_created_at new\<rparr>)
              \<lparr>ar_archive_id = c_str archive_id, ar_session_id = c_str sid, ar_summary = c_str summary, ar_extracted_facts = c_str facts, ar_created_at = now\<rparr>
              (ms_archives ms)\<rparr>))"

definition get_archive :: "string \<Rightarrow> memory_store \<Rightarrow> string option" where
  "get_archive sid ms =
     (if \<not> ms_open ms then None
      else case stable_sort (\<lambda>a b. ar_created_at b < ar_created_at a) (filter (\<lambda>a. ar_session_id a = c_str sid) (ms_archives ms)) of
             [] \<Rightarrow> None
           | a # as \<Rightarrow> Some (ar_summary a))"

section \<open>The tables have keys\<close>

lemma merge_memory_key: "row_key (merge_memory old new) = row_key old"
  by (simp add: row_key_def merge_memory_def Let_def)

interpretation memories: keyed_table row_key merge_memory
  by unfold_locales (simp add: merge_memory_key)

interpretation session_rows: keyed_table sr_key "\<lambda>old new. new"
  by unfold_locales simp

interpretation archives: keyed_table ar_archive_id
  "\<lambda>old new. old\<lparr>ar_summary := ar_summary new, ar_extracted_facts := ar_extracted_facts new, ar_created_at := ar_created_at new\<rparr>"
  by unfold_locales simp

section \<open>Storing and retrieving\<close>

text \<open>An entry that the columns hold without loss: no zero bytes, numbers that survive the \<open>REAL\<close> columns, a 32-bit counter, a status.\<close>

definition entry_texts :: "memory_entry \<Rightarrow> string list" where
  "entry_texts e = [me_key e, me_id e, me_value e, me_workspace_id e, me_session_id e, me_actor_scope e, me_visibility e, me_source_path e,
     me_source_type e, me_commit_hash e, me_supersedes_id e, me_contradicts_id e, me_status e]"

definition entry_storable :: "sqlite_ops \<Rightarrow> memory_entry \<Rightarrow> bool" where
  "entry_storable Q e \<longleftrightarrow> list_all (\<lambda>s. CHR 0x00 \<notin> set s) (entry_texts e) \<and> sq_real Q (me_confidence e) = me_confidence e \<and>
     sq_real Q (me_importance e) = me_importance e \<and> sint (word_of_int (me_access_count e) :: u32) = me_access_count e \<and> me_status e \<noteq> []"

lemma to_columns_storable: "entry_storable Q e \<Longrightarrow> to_columns Q e = e"
  by (simp add: entry_storable_def entry_texts_def to_columns_def c_str_id)

lemma put_memory_rows:
  "ms_open ms \<Longrightarrow> ms_memories (snd (put_memory Q F emb_fn True e vec ms)) = upsert row_key merge_memory (bound_row Q emb_fn e vec) (ms_memories ms)"
  "ms_open (snd (put_memory Q F emb_fn ok e vec ms)) = ms_open ms"
  "ms_open ms \<Longrightarrow> fst (put_memory Q F emb_fn ok e vec ms) = ok"
  by (auto simp: put_memory_def Let_def split: option.splits)

lemma row_key_bound [simp]: "row_key (bound_row Q emb_fn e vec) = c_str (me_key e)"
  by (simp add: row_key_def bound_row_def to_columns_def Let_def)

lemma mr_entry_bound [simp]: "mr_entry (bound_row Q emb_fn e vec) = to_columns Q e"
  by (simp add: bound_row_def Let_def)

lemma get_put_memory:
  assumes "ms_open ms"
  shows "get_memory k (snd (put_memory Q F emb_fn True e vec ms)) =
    (if c_str k = c_str (me_key e)
     then Some (extract_memory_entry (case find (\<lambda>r. row_key r = c_str k) (ms_memories ms) of
       None \<Rightarrow> bound_row Q emb_fn e vec | Some old \<Rightarrow> merge_memory old (bound_row Q emb_fn e vec)))
     else get_memory k ms)"
  unfolding get_memory_def put_memory_rows(2) put_memory_rows(1) [OF assms] memories.find_upsert using assms by simp

text \<open>
  A memory that is stored comes back: putting an entry whose columns hold it without loss under a key that is not in use, and asking for the key,
  gives exactly the entry; every other key is answered as before.
\<close>

theorem stored_memory_comes_back:
  assumes "ms_open ms" and "entry_storable Q e" and "get_memory (me_key e) ms = None"
  shows "fst (put_memory Q F emb_fn True e vec ms) \<and> get_memory (me_key e) (snd (put_memory Q F emb_fn True e vec ms)) = Some e \<and>
    (\<forall>k. c_str k \<noteq> me_key e \<longrightarrow> get_memory k (snd (put_memory Q F emb_fn True e vec ms)) = get_memory k ms)"
proof -
  have c: "c_str (me_key e) = me_key e" using assms(2) by (simp add: entry_storable_def entry_texts_def c_str_id)
  have f: "find (\<lambda>r. row_key r = me_key e) (ms_memories ms) = None" using assms(1,3) c by (simp add: get_memory_def)
  have "extract_memory_entry (bound_row Q emb_fn e vec) = e"
    using assms(2) to_columns_storable [OF assms(2)] by (simp add: extract_memory_entry_def entry_storable_def Let_def)
  then show ?thesis using get_put_memory [OF assms(1)] put_memory_rows(3) [OF assms(1)] c f by auto
qed

text \<open>
  Rewriting a memory from another workspace keeps its old owner: the key is the primary key of all workspaces and the update leaves the workspace
  columns alone, so that the first workspace reads the value the second one stored, while the second workspace does not find its own memory.
\<close>

theorem rewritten_memory_keeps_owner:
  assumes "ms_open ms" and "entry_storable Q e" and "entry_storable Q e2" and "me_key e2 = me_key e" and "get_memory (me_key e) ms = None"
    and "me_visibility e = ''workspace''" and "me_workspace_id e = w1" and "me_workspace_id e2 = w2" and "w1 \<noteq> w2" and "w1 \<noteq> ''default''" and "w2 \<noteq> []"
    and "me_status e2 = ''active''"
  shows "\<exists>r. get_memory (me_key e) (snd (put_memory Q F emb_fn True e2 v2 (snd (put_memory Q F emb_fn True e v ms)))) = Some r \<and>
    me_value r = me_value e2 \<and> me_workspace_id r = w1 \<and> scope_matches (scope_of w1) r \<and> \<not> scope_matches (scope_of w2) r"
proof -
  let ?ms1 = "snd (put_memory Q F emb_fn True e v ms)"
  have c: "c_str (me_key e) = me_key e" using assms(2) by (simp add: entry_storable_def entry_texts_def c_str_id)
  have f: "find (\<lambda>r. row_key r = me_key e) (ms_memories ms) = None" using assms(1,5) c by (simp add: get_memory_def)
  have o1: "ms_open ?ms1" using assms(1) put_memory_rows(2) by simp
  have cols: "to_columns Q e = e" "to_columns Q e2 = e2" using to_columns_storable assms(2,3) by auto
  have w: "find (\<lambda>r. row_key r = me_key e) (ms_memories ?ms1) = Some (bound_row Q emb_fn e v)"
    unfolding put_memory_rows(1) [OF assms(1)] memories.find_upsert row_key_bound c f by simp
  show ?thesis
    unfolding get_put_memory [OF o1] assms(4) c w
    using assms(6-12) cols by (auto simp: extract_memory_entry_def merge_memory_def Let_def scope_matches_def scope_of_def default_filter_def)
qed

section \<open>The index follows the table\<close>

datatype store_call = Put_Memory memory_entry "f32 list" | Delete_Memory string | Supersede_Memory string string | Touch_Memory int string

fun run_call :: "sqlite_ops \<Rightarrow> float_ops \<Rightarrow> (string \<Rightarrow> f32 list) \<Rightarrow> store_call \<Rightarrow> memory_store \<Rightarrow> memory_store" where
  "run_call Q F emb_fn (Put_Memory e v) ms = snd (put_memory Q F emb_fn True e v ms)"
| "run_call Q F emb_fn (Delete_Memory k) ms = snd (delete_memory True k ms)"
| "run_call Q F emb_fn (Supersede_Memory k k2) ms = snd (supersede_memory True k k2 ms)"
| "run_call Q F emb_fn (Touch_Memory now k) ms = snd (touch_memory True now k ms)"

fun call_key :: "store_call \<Rightarrow> string" where
  "call_key (Put_Memory e v) = me_key e"
| "call_key (Delete_Memory k) = k"
| "call_key (Supersede_Memory k k2) = k"
| "call_key (Touch_Memory now k) = k"

text \<open>The active vectors are those of the rows; \<open>n\<close> more insertions fit the index.\<close>

definition index_synced :: "nat \<Rightarrow> memory_store \<Rightarrow> bool" where
  "index_synced n ms \<longleftrightarrow> ms_open ms \<and>
     (\<exists>ix. ms_index ms = Some ix \<and> vi_ok ix \<and> n \<le> vi_room ix \<and> dom (vi_lookup ix) = set (map row_key (ms_memories ms)) \<and>
       (ms_index_file ms \<noteq> [] \<longrightarrow> ms_index_file ms = save_index ix))"

lemma row_keys_update: "(\<And>e. me_key (f e) = me_key e) \<Longrightarrow> map row_key (update_where k f rows) = map row_key rows"
  by (induction rows) (auto simp: update_where_def row_key_def)

lemma index_synced_put:
  assumes "index_synced (Suc n) ms" and "CHR 0x00 \<notin> set (me_key e)" and "\<And>s. emb_fn s \<noteq> []"
  shows "index_synced n (snd (put_memory Q F emb_fn True e v ms))"
proof -
  obtain ix where ix: "ms_open ms" "ms_index ms = Some ix" "vi_ok ix" "Suc n \<le> vi_room ix" "dom (vi_lookup ix) = set (map row_key (ms_memories ms))"
    using assms(1) by (auto simp: index_synced_def)
  let ?v = "embedding_of emb_fn e v" and ?r = "vi_rotation ix" and ?d = "vi_dim ix"
  have fr: "vi_frame ?d ?r ix" using ix(3) by (simp add: vi_frame_def)
  have room: "0 < vi_room ix" using ix(4) by simp
  have a: "vi_ok (vi_add F (me_key e) ?v ix)" "n \<le> vi_room (vi_add F (me_key e) ?v ix)" "dom (vi_lookup (vi_add F (me_key e) ?v ix)) = insert (me_key e) (dom (vi_lookup ix))"
    using vstore.put_ok [OF fr room, of F "me_key e" ?v] vstore.put_lookup [OF fr room, of F "me_key e" ?v] ix(4) by (auto simp: vi_frame_def)
  have "?v \<noteq> []" using assms(3) by (simp add: embedding_of_def)
  then have p: "snd (put_memory Q F emb_fn True e v ms) = ms\<lparr>ms_memories := upsert row_key merge_memory (bound_row Q emb_fn e v) (ms_memories ms),
      ms_index := Some (vi_add F (me_key e) ?v ix), ms_index_file := save_index (vi_add F (me_key e) ?v ix)\<rparr>"
    using ix(1,2) by (simp add: put_memory_def Let_def)
  show ?thesis unfolding p index_synced_def using a ix(1,5) memories.upsert_keys [of "bound_row Q emb_fn e v" "ms_memories ms"] c_str_id [OF assms(2)] by simp
qed

lemma index_synced_delete:
  assumes "index_synced n ms" and "CHR 0x00 \<notin> set k"
  shows "index_synced n (snd (delete_memory True k ms))"
proof -
  obtain ix where ix: "ms_open ms" "ms_index ms = Some ix" "vi_ok ix" "n \<le> vi_room ix" "dom (vi_lookup ix) = set (map row_key (ms_memories ms))"
    using assms(1) by (auto simp: index_synced_def)
  have fr: "vi_frame (vi_dim ix) (vi_rotation ix) ix" using ix(3) by (simp add: vi_frame_def)
  have a: "vi_ok (snd (vi_remove k ix))" "n \<le> vi_room (snd (vi_remove k ix))" "dom (vi_lookup (snd (vi_remove k ix))) = dom (vi_lookup ix) - {k}"
    using vstore.del_ok [OF fr, of k] vstore.del_lookup [OF fr, of k] ix(4) by (auto simp: vi_frame_def)
  have p: "snd (delete_memory True k ms) = ms\<lparr>ms_memories := filter (\<lambda>r. row_key r \<noteq> k) (ms_memories ms), ms_index := Some (snd (vi_remove k ix)),
      ms_index_file := save_index (snd (vi_remove k ix))\<rparr>"
    using ix(1,2) c_str_id [OF assms(2)] by (simp add: delete_memory_def Let_def)
  show ?thesis unfolding p index_synced_def using a ix(1,5) by auto
qed

lemma index_synced_update:
  "index_synced n ms \<Longrightarrow> (\<And>e. me_key (f e) = me_key e) \<Longrightarrow> index_synced n (ms\<lparr>ms_memories := update_where k f (ms_memories ms)\<rparr>)"
  by (simp add: index_synced_def row_keys_update del: set_map)

lemma index_synced_call:
  assumes "index_synced (Suc n) ms" and "CHR 0x00 \<notin> set (call_key c)" and "\<And>s. emb_fn s \<noteq> []"
  shows "index_synced n (run_call Q F emb_fn c ms)"
proof -
  have less: "index_synced n ms" using assms(1) by (auto simp: index_synced_def)
  show ?thesis
  proof (cases c)
    case (Put_Memory e v)
    then show ?thesis using index_synced_put [OF assms(1) _ assms(3)] assms(2) by simp
  next
    case (Delete_Memory k)
    then show ?thesis using index_synced_delete [OF less] assms(2) by simp
  next
    case (Supersede_Memory k k2)
    then show ?thesis using less by (auto simp: supersede_memory_def intro!: index_synced_update)
  next
    case (Touch_Memory now k)
    then show ?thesis using less by (auto simp: touch_memory_def intro!: index_synced_update)
  qed
qed

definition opened_store :: "vector_index \<Rightarrow> memory_store" where
  "opened_store ix = \<lparr>ms_open = True, ms_memories = [], ms_sessions = [], ms_turns = [], ms_archives = [], ms_index = Some ix, ms_index_file = []\<rparr>"


section \<open>Queries stay in scope\<close>

lemma collect_hits_props:
  assumes "(e, sc) \<in> set (collect_hits lookup threshold limit hits scored)"
  shows "(e, sc) \<in> set scored \<or> f32_le threshold sc \<and> (\<exists>k. lookup k = Some e)"
  using assms by (induction lookup threshold limit hits scored rule: collect_hits.induct) (auto split: if_splits option.splits)

lemma collect_hits_length: "length scored < limit \<Longrightarrow> length (collect_hits lookup threshold limit hits scored) \<le> limit"
  by (induction lookup threshold limit hits scored rule: collect_hits.induct) (auto split: option.splits)

lemma entry_map_scope:
  "entry_map f rows ids k = Some e \<Longrightarrow> scope_matches f e \<and> (\<exists>r \<in> set rows. e = extract_memory_entry r)"
  unfolding entry_map_def by (auto split: option.splits if_splits simp: find_Some_iff)

lemma vi_search_in_mask: "vi_ok ix \<Longrightarrow> \<exists>hits. vi_search F ix q k (Some (build_allowlist_mask ix ids)) = Inr hits"
  using scan_covered [of "Some (build_allowlist_mask ix ids)" 0 "vi_vectors ix"] allowlist_mask(1) [of ix ids]
  by (auto simp: vi_search_def Let_def)

text \<open>
  A semantic query of the store stays in scope and within its limits, with the index and without it: it never reads outside the allow mask, and every
  result is a memory of the table that the caller's filter accepts, with a score at or above the threshold; there are at most \<open>limit\<close> of them.
\<close>

theorem vector_query_in_scope:
  assumes "0 < limit" and "\<And>ix. ms_index ms = Some ix \<Longrightarrow> vi_ok ix" and "\<And>rows. set (sq_scan Q rows) \<subseteq> set rows"
  shows "\<exists>res. query_memories_vector Q F D query limit threshold f ms = Inr res \<and> length res \<le> limit \<and>
    list_all (\<lambda>(e, sc). scope_matches f e \<and> f32_le threshold sc \<and> (\<exists>r \<in> set (ms_memories ms). e = extract_memory_entry r)) res"
proof (cases "ms_open ms \<and> query \<noteq> []")
  case False
  then show ?thesis by (auto simp: query_memories_vector_def)
next
  case q: True
  show ?thesis
  proof (cases "ms_index ms")
    case None
    let ?rows = "filter (\<lambda>r. mr_embedding r \<noteq> None \<and> scope_matches f (extract_memory_entry r)) (sq_scan Q (ms_memories ms))"
    let ?scored = "filter (\<lambda>p. f32_le threshold (snd p)) (map (\<lambda>r. (extract_memory_entry r, cosine_similarity F D query (the (mr_embedding r)))) ?rows)"
    have "list_all (\<lambda>(e, sc). scope_matches f e \<and> f32_le threshold sc \<and> (\<exists>r \<in> set (ms_memories ms). e = extract_memory_entry r)) ?scored"
      using assms(3) by (auto simp: list_all_iff)
    then have "list_all (\<lambda>(e, sc). scope_matches f e \<and> f32_le threshold sc \<and> (\<exists>r \<in> set (ms_memories ms). e = extract_memory_entry r))
        (take limit (stable_sort (desc_by snd) ?scored))"
      unfolding list_all_iff by (blast dest: in_set_takeD [of _ limit "stable_sort (desc_by snd) ?scored", unfolded set_stable_sort])
    then show ?thesis using None q by (simp add: query_memories_vector_def Let_def)
  next
    case (Some ix)
    obtain hits where hits: "vi_search F ix query limit (Some (build_allowlist_mask ix (scope_keys Q f (ms_memories ms)))) = Inr hits"
      using vi_search_in_mask assms(2) [OF Some] by blast
    let ?res = "collect_hits (entry_map f (ms_memories ms) (map hit_id hits)) threshold limit hits []"
    have "scope_matches f e \<and> f32_le threshold sc \<and> (\<exists>r \<in> set (ms_memories ms). e = extract_memory_entry r)" if "(e, sc) \<in> set ?res" for e sc
      using collect_hits_props [OF that] entry_map_scope by fastforce
    then have "list_all (\<lambda>(e, sc). scope_matches f e \<and> f32_le threshold sc \<and> (\<exists>r \<in> set (ms_memories ms). e = extract_memory_entry r)) ?res"
      by (auto simp: list_all_iff)
    then show ?thesis using q Some hits assms(1) collect_hits_length [of "[]" limit] by (auto simp: query_memories_vector_def)
  qed
qed

section \<open>Sessions\<close>

text \<open>
  Turns as \<open>add_message\<close> and \<open>add_tool_interaction\<close> make them, with their indexes in signed range and no zero bytes.
\<close>

definition turn_saved :: "session_turn \<Rightarrow> bool" where
  "turn_saved t \<longleftrightarrow> list_all (\<lambda>s. CHR 0x00 \<notin> set s) [st_role t, st_content t, st_tool_name t, st_tool_arguments t, st_tool_result t] \<and>
     (if st_role t = ''tool'' then st_content t = [] else st_tool_name t = [] \<and> st_tool_arguments t = [] \<and> st_tool_result t = [])"

lemma turn_columns_id: "turn_saved t \<Longrightarrow> tr_turn (turn_columns sid t) = t"
  by (simp add: turn_saved_def turn_columns_def c_str_id)

lemma insert_stable_first: "(\<And>y. y \<in> set ys \<Longrightarrow> \<not> before y x) \<Longrightarrow> insert_stable before x ys = x # ys"
  by (cases ys) auto

lemma stable_sort_id: "sorted_wrt (\<lambda>a b. \<not> before b a) xs \<Longrightarrow> stable_sort before xs = xs"
proof (induction xs)
  case (Cons x xs)
  then have "insert_stable before x xs = x # xs" by (intro insert_stable_first) auto
  then show ?case using Cons by (simp add: stable_sort_def)
qed (simp add: stable_sort_def)

lemma numbered_sorted:
  assumes "turns_numbered sm" and "length (sm_turns sm) \<le> 2 ^ 31"
  shows "sorted_wrt (\<lambda>a b. \<not> turn_before b a) (map (turn_columns sid) (sm_turns sm))"
proof -
  have s: "sint (word_of_nat i :: u32) = int i" if "i < length (sm_turns sm)" for i
  proof -
    have "int i < 2 ^ 31" using that assms(2) by simp
    then show ?thesis by (simp add: sint_uint unsigned_of_nat take_bit_nat_eq_self signed_take_bit_int_eq_self)
  qed
  have ix: "st_turn_index (sm_turns sm ! i) = word_of_nat i" if "i < length (sm_turns sm)" for i
    using assms(1) that unfolding turns_numbered_def by (metis add_0 length_map map_nth nth_map nth_upt)
  show ?thesis unfolding sorted_wrt_iff_nth_less
    by (auto simp: turn_before_def turn_columns_def ix s)
qed

lemma replay_turns:
  assumes "list_all turn_saved ts" and "map st_turn_index (sm_turns sm @ ts) = map word_of_nat [0..<length (sm_turns sm @ ts)]"
  shows "fold (replay_turn now) (map (turn_columns sid) ts) sm = sm\<lparr>sm_turns := sm_turns sm @ map (\<lambda>t. t\<lparr>st_timestamp := now\<rparr>) ts\<rparr>"
  using assms
proof (induction ts arbitrary: sm)
  case (Cons t ts)
  let ?n = "length (sm_turns sm)"
  have "st_turn_index ((sm_turns sm @ t # ts) ! ?n) = word_of_nat ?n"
    using arg_cong [OF Cons.prems(2), of "\<lambda>xs. xs ! ?n"] by (simp add: nth_append del: upt_Suc)
  then have i: "st_turn_index t = word_of_nat ?n" by simp
  have r: "replay_turn now (turn_columns sid t) sm = sm\<lparr>sm_turns := sm_turns sm @ [t\<lparr>st_timestamp := now\<rparr>]\<rparr>"
    using Cons.prems(1) i turn_columns_id [of t sid]
    by (auto simp: replay_turn_def turn_saved_def add_message_def add_tool_interaction_def)
  have "map st_turn_index (sm_turns (sm\<lparr>sm_turns := sm_turns sm @ [t\<lparr>st_timestamp := now\<rparr>]\<rparr>) @ ts) =
      map word_of_nat [0..<length (sm_turns (sm\<lparr>sm_turns := sm_turns sm @ [t\<lparr>st_timestamp := now\<rparr>]\<rparr>) @ ts)]"
    using Cons.prems(2) by (simp del: upt_Suc)
  from Cons.IH [OF _ this] Cons.prems(1) show ?case by (simp add: r)
qed simp

text \<open>
  A saved session comes back: loading a session that has been saved restores its turns in order, with new time stamps, whatever the sessions of
  other identifiers in the tables are; the decisions of the session are not part of what is stored.
\<close>

theorem saved_session_comes_back:
  assumes "ms_open ms" and "CHR 0x00 \<notin> set (sm_session_id sm)" and "turns_numbered sm" and "length (sm_turns sm) \<le> 2 ^ 31" and "list_all turn_saved (sm_turns sm)"
  shows "load_session now (sm_session_id sm) out (snd (save_session t0 sm ms)) =
    (sm_turns sm \<noteq> [], sm\<lparr>sm_turns := map (\<lambda>t. t\<lparr>st_timestamp := now\<rparr>) (sm_turns sm), sm_decisions := []\<rparr>)"
proof -
  let ?sid = "sm_session_id sm"
  have c: "c_str ?sid = ?sid" using assms(2) by (rule c_str_id)
  have f: "filter (\<lambda>t. tr_session_id t = ?sid) (filter (\<lambda>t. tr_session_id t \<noteq> ?sid) (ms_turns ms) @ map (turn_columns ?sid) (sm_turns sm)) = map (turn_columns ?sid) (sm_turns sm)"
    using c by (auto simp: turn_columns_def filter_empty_conv filter_id_conv)
  have s: "stable_sort turn_before (map (turn_columns ?sid) (sm_turns sm)) = map (turn_columns ?sid) (sm_turns sm)"
    by (rule stable_sort_id [OF numbered_sorted [OF assms(3,4)]])
  have r: "fold (replay_turn now) (map (turn_columns ?sid) (sm_turns sm)) (sm_set_session_id ?sid (sm_clear out)) =
      (sm_set_session_id ?sid (sm_clear out))\<lparr>sm_turns := map (\<lambda>t. t\<lparr>st_timestamp := now\<rparr>) (sm_turns sm)\<rparr>"
    by (subst replay_turns) (use assms(3,5) in \<open>auto simp: turns_numbered_def sm_set_session_id_def sm_clear_def\<close>)
  show ?thesis
    using assms(1) c f s r by (simp add: load_session_def save_session_def Let_def sm_set_session_id_def sm_clear_def)
qed

section \<open>Examples\<close>

definition demo_sql :: sqlite_ops where
  "demo_sql = \<lparr>sq_like = (\<lambda>pattern s. contains (lower s) (lower (butlast (tl pattern)))), sq_scan = (\<lambda>rows. rows), sq_real = (\<lambda>x. x), sq_pasted = (\<lambda>w rows. [])\<rparr>"

definition demo_store :: memory_store where
  "demo_store = opened_store demo_index"

lemma demo_store_open: "ms_open demo_store" "get_memory k demo_store = None"
  by (simp_all add: demo_store_def opened_store_def get_memory_def)

lemma demo_entry_storable: "entry_storable demo_sql (demo_memory ''w1'' ''db'' v)" if "CHR 0x00 \<notin> set v"
  using that by (simp add: entry_storable_def entry_texts_def demo_memory_def new_memory_entry_def demo_sql_def)

theorem stored_memory_comes_back_witness:
  "get_memory ''db'' (snd (put_memory demo_sql demo_floats (\<lambda>s. [f_one]) True (demo_memory ''w1'' ''db'' ''mysql'') [] demo_store)) =
     Some (demo_memory ''w1'' ''db'' ''mysql'')"
  using stored_memory_comes_back [of demo_store demo_sql "demo_memory ''w1'' ''db'' ''mysql''" demo_floats "\<lambda>s. [f_one]" "[]"]
    demo_store_open demo_entry_storable [of "''mysql''"] by (simp add: demo_memory_def)

theorem rewritten_memory_keeps_owner_witness:
  "\<exists>r. get_memory ''db'' (snd (put_memory demo_sql demo_floats (\<lambda>s. [f_one]) True (demo_memory ''w2'' ''db'' ''secret'') []
       (snd (put_memory demo_sql demo_floats (\<lambda>s. [f_one]) True (demo_memory ''w1'' ''db'' ''mysql'') [] demo_store)))) = Some r \<and>
     me_value r = ''secret'' \<and> scope_matches (scope_of ''w1'') r \<and> \<not> scope_matches (scope_of ''w2'') r"
proof -
  have a: "entry_storable demo_sql (demo_memory ''w1'' ''db'' ''mysql'')" "entry_storable demo_sql (demo_memory ''w2'' ''db'' ''secret'')"
    by (simp_all add: entry_storable_def entry_texts_def demo_memory_def new_memory_entry_def demo_sql_def)
  show ?thesis
    using rewritten_memory_keeps_owner [OF demo_store_open(1) a _ demo_store_open(2), of "''w1''" "''w2''" demo_floats "\<lambda>s. [f_one]" "[]" "[]"]
    by (auto simp: demo_memory_def new_memory_entry_def)
qed

definition demo_calls :: "store_call list" where
  "demo_calls = [Put_Memory (demo_memory ''w1'' ''db'' ''mysql'') [], Put_Memory (demo_memory ''w1'' ''os'' ''linux'') [], Delete_Memory ''db'']"


theorem vector_query_in_scope_witness:
  "\<exists>res. query_memories_vector demo_sql demo_floats demo_doubles [f_one] 3 f_zero (scope_of ''w1'') (demo_store\<lparr>ms_index := None,
      ms_memories := [\<lparr>mr_entry = demo_memory ''w1'' ''db'' ''mysql'', mr_embedding = Some [f_one]\<rparr>]\<rparr>) = Inr res \<and> length res \<le> 3"
  using vector_query_in_scope [of 3 "demo_store\<lparr>ms_index := None, ms_memories := [\<lparr>mr_entry = demo_memory ''w1'' ''db'' ''mysql'', mr_embedding = Some [f_one]\<rparr>]\<rparr>"
      demo_sql demo_floats demo_doubles "[f_one]" f_zero "scope_of ''w1''"]
  by (auto simp: demo_sql_def)

definition demo_session :: session_memory where
  "demo_session = add_tool_interaction 8 ''ls'' ''.'' ''src'' (add_message 7 ''user'' ''hi'' (new_session_memory ''s''))"

theorem saved_session_comes_back_witness:
  "load_session 9 ''s'' (new_session_memory []) (snd (save_session 9 demo_session demo_store)) =
     (True, demo_session\<lparr>sm_turns := map (\<lambda>t. t\<lparr>st_timestamp := 9\<rparr>) (sm_turns demo_session)\<rparr>)"
proof -
  have "turns_numbered demo_session" by (simp add: turns_numbered_def demo_session_def add_message_def add_tool_interaction_def new_session_memory_def)
  moreover have "list_all turn_saved (sm_turns demo_session)"
    by (simp add: turn_saved_def demo_session_def add_message_def add_tool_interaction_def new_session_memory_def)
  ultimately show ?thesis
    using saved_session_comes_back [OF demo_store_open(1), of demo_session 9 "new_session_memory []" 9]
    by (simp add: demo_session_def add_message_def add_tool_interaction_def new_session_memory_def)
qed

end
