(* ===== verification/Memory_Consolidation.thy ===== *)
theory Memory_Consolidation
  imports Memory_Store
begin

text \<open>
  Consolidation of a session (\<open>memory_consolidator.cpp\<close>) and the end of a session in the memory engine (\<open>memory_engine.cpp\<close>): durable facts are
  extracted from the decisions and turns, committed to the store and to the persistent memory, and the session is archived.

  The loop over related memories in \<open>consolidate\<close> has an empty body in the source (the replacement of contradicted memories is commented out), so
  only its query remains. The clock is an argument: \<open>ticks i j\<close> is its value at line \<open>j\<close> of the \<open>i\<close>-th text, \<open>now\<close> the milliseconds elsewhere.
\<close>

section \<open>Extraction\<close>

definition triggers :: "string list" where
  "triggers = [''remember'', ''always'', ''never'', ''rule:'', ''decision:'', ''convention:'', ''stack:'', ''database:'', ''framework:'', ''architecture:'',
     ''configured'', ''using version'', ''updated to'']"

definition is_durable_candidate :: "string \<Rightarrow> bool" where
  "is_durable_candidate s \<longleftrightarrow> 10 \<le> length s \<and> list_ex (contains (lower s)) triggers"

definition value_blanks :: "char list" where
  "value_blanks = [CHR 0x20, CHR 0x09, CHR 0x0D, CHR 0x0A]"

definition key_blanks :: "char list" where
  "key_blanks = value_blanks @ [CHR ''-'', CHR ''*'']"

text \<open>\<open>erase(0, find_first_not_of(..))\<close> and \<open>erase(find_last_not_of(..) + 1)\<close>.\<close>

definition trim :: "char list \<Rightarrow> string \<Rightarrow> string" where
  "trim blanks s = rev (dropWhile (\<lambda>c. c \<in> set blanks) (rev (dropWhile (\<lambda>c. c \<in> set blanks) s)))"

definition category_of_key :: "string \<Rightarrow> memory_category" where
  "category_of_key key =
     (let k = lower key
      in if contains k ''rule'' then RULE else if contains k ''decision'' then ARCHITECTURAL_DECISION
         else if contains k ''convention'' then CONVENTION else DISCOVERY)"

text \<open>Key and value of a line split at a colon.\<close>

definition split_fact :: "string \<Rightarrow> nat \<Rightarrow> string \<times> string" where
  "split_fact s i = (trim key_blanks (take i s), trim value_blanks (drop (Suc i) s))"

definition fact_of_line :: "int \<Rightarrow> string \<Rightarrow> memory_entry list" where
  "fact_of_line tick line =
     (if \<not> is_durable_candidate line then []
      else case str_find '':'' line of
        None \<Rightarrow> []
      | Some colon_pos \<Rightarrow>
          if \<not> (2 < colon_pos \<and> colon_pos + 2 < length line) then []
          else
            let (key0, val0) = split_fact line colon_pos;
                cat_assigned = category_of_key key0;
                (key, val) =
                  (if cat_assigned \<noteq> DISCOVERY \<or> contains (lower key0) ''remember''
                   then case str_find '':'' val0 of Some next_colon \<Rightarrow> split_fact val0 next_colon | None \<Rightarrow> (key0, val0)
                   else (key0, val0))
            in if key \<noteq> [] \<and> val \<noteq> []
               then [new_memory_entry\<lparr>me_id := ''mem_'' @ int_digits tick, me_key := key, me_value := val,
                       me_category := (if cat_assigned = DISCOVERY then category_of_key key else cat_assigned)\<rparr>]
               else [])"

definition extract_facts :: "(nat \<Rightarrow> int) \<Rightarrow> string \<Rightarrow> memory_entry list" where
  "extract_facts ticks s = concat (map (\<lambda>(j, line). fact_of_line (ticks j) line) (enumerate 0 (get_lines [] s)))"

section \<open>Consolidation\<close>

record consolidation_result =
  cr_archive_id :: string
  cr_session_id :: string
  cr_summary :: string
  cr_extracted :: "memory_entry list"
  cr_ignored_count :: nat
  cr_updated_count :: nat
  cr_added_count :: nat

definition archive_summary :: "session_memory \<Rightarrow> string" where
  "archive_summary sm =
     ''Session Archive ['' @ sm_session_id sm @ ''] - Turns: '' @ nat_digits (length (sm_turns sm)) @ nl @
     (if sm_decisions sm = [] then [] else ''Decisions:'' @ nl @ concat (map (\<lambda>d. '' - '' @ d @ nl) (sm_decisions sm)))"

text \<open>The texts that are searched for facts, in order.\<close>

definition fact_texts :: "session_memory \<Rightarrow> string list" where
  "fact_texts sm = sm_decisions sm @ map st_content (filter (\<lambda>t. st_role t = ''user'' \<or> st_role t = ''assistant'') (sm_turns sm))"

definition session_facts :: "(nat \<Rightarrow> nat \<Rightarrow> int) \<Rightarrow> session_memory \<Rightarrow> memory_entry list" where
  "session_facts ticks sm = concat (map (\<lambda>(i, s). extract_facts (ticks i) s) (enumerate 0 (fact_texts sm)))"

record commit_state =
  cs_store :: "memory_store option"
  cs_persistent :: "persistent_memory option"
  cs_updated :: nat
  cs_added :: nat
  cs_facts :: string

record env =
  e_sql :: sqlite_ops
  e_floats :: float_ops
  e_doubles :: double_ops
  e_embed :: "string \<Rightarrow> f32 list"
  e_ok :: bool
  e_now :: int

definition commit_fact :: "env \<Rightarrow> memory_entry \<Rightarrow> commit_state \<Rightarrow> index_error + commit_state" where
  "commit_fact E mem cs =
     (let cs1 = cs\<lparr>cs_facts := cs_facts cs @ ''['' @ me_key mem @ '']: '' @ me_value mem @ nl\<rparr>;
          keep = (\<lambda>c. c\<lparr>cs_persistent := map_option (set_entry (e_now E) mem) (cs_persistent c)\<rparr>)
      in case cs_store cs of
           None \<Rightarrow> Inr (keep cs1)
         | Some ms \<Rightarrow>
             let emb = e_embed E (me_value mem)
             in sbind (query_memories_vector (e_sql E) (e_floats E) (e_doubles E) emb 3 0x3ECCCCCD default_filter ms) (\<lambda>hits.
                let cs2 = (case get_memory (me_key mem) ms of
                             Some existing \<Rightarrow> cs1\<lparr>cs_updated := cs_updated cs1 + 1\<rparr> | None \<Rightarrow> cs1\<lparr>cs_added := cs_added cs1 + 1\<rparr>)
                in Inr (keep (cs2\<lparr>cs_store := Some (snd (put_memory (e_sql E) (e_floats E) (e_embed E) (e_ok E) mem emb ms))\<rparr>))))"

definition consolidate ::
  "env \<Rightarrow> (nat \<Rightarrow> nat \<Rightarrow> int) \<Rightarrow> session_memory \<Rightarrow> memory_store option \<Rightarrow> persistent_memory option
     \<Rightarrow> index_error + consolidation_result \<times> memory_store option \<times> persistent_memory option" where
  "consolidate E ticks sm store pm =
     (let archive_id = ''arch_'' @ int_digits (e_now E); summary = archive_summary sm; facts = session_facts ticks sm
      in sbind (sfold (commit_fact E) facts \<lparr>cs_store = store, cs_persistent = pm, cs_updated = 0, cs_added = 0, cs_facts = []\<rparr>) (\<lambda>cs.
           Inr (\<lparr>cr_archive_id = archive_id, cr_session_id = sm_session_id sm, cr_summary = summary, cr_extracted = facts, cr_ignored_count = 0,
                 cr_updated_count = cs_updated cs, cr_added_count = cs_added cs\<rparr>,
                map_option (\<lambda>ms. snd (save_archive (e_ok E) (e_now E) archive_id (sm_session_id sm) summary (cs_facts cs) ms)) (cs_store cs),
                cs_persistent cs)))"

definition end_session_and_archive ::
  "env \<Rightarrow> (nat \<Rightarrow> nat \<Rightarrow> int) \<Rightarrow> memory_engine \<Rightarrow> memory_store \<Rightarrow> index_error + consolidation_result \<times> memory_engine \<times> memory_store" where
  "end_session_and_archive E ticks en ms =
     sbind (consolidate E ticks (en_session en) (Some ms) (Some (en_persistent en))) (\<lambda>(res, store, pm).
       Inr (res, en\<lparr>en_session := sm_clear (en_session en), en_working := wm_reset (en_working en), en_persistent := the pm\<rparr>, the store))"

definition engine_init :: "env \<Rightarrow> bool \<Rightarrow> memory_engine \<Rightarrow> memory_store \<Rightarrow> bool \<times> memory_engine" where
  "engine_init E opened en ms =
     (if \<not> opened then (False, en) else (True, load_persistent (e_now E) (load_all_persistent (e_sql E) default_filter ms) en))"

section \<open>A written fact is read back\<close>

lemma str_find_char: "c \<notin> set a \<Longrightarrow> str_find [c] (a @ c # b) = Some (length a)"
  by (induction a) auto

lemma str_find_char_None: "c \<notin> set a \<Longrightarrow> str_find [c] a = None"
  by (induction a) auto

lemma dropWhile_id: "s = [] \<or> \<not> P (hd s) \<Longrightarrow> dropWhile P s = s"
  by (cases s) auto

text \<open>A string that trimming leaves alone.\<close>

definition trimmed :: "char list \<Rightarrow> string \<Rightarrow> bool" where
  "trimmed blanks s \<longleftrightarrow> s \<noteq> [] \<and> hd s \<notin> set blanks \<and> last s \<notin> set blanks"

lemma trim_trimmed: "trimmed blanks s \<Longrightarrow> trim blanks s = s"
  by (simp add: trimmed_def trim_def dropWhile_id hd_rev)

lemma trim_blank: "c \<in> set blanks \<Longrightarrow> trim blanks (c # s) = trim blanks s"
  by (simp add: trim_def)

text \<open>A key and a value that can be written on a line.\<close>

definition plain_fact :: "string \<times> string \<Rightarrow> bool" where
  "plain_fact kv \<longleftrightarrow> trimmed key_blanks (fst kv) \<and> trimmed value_blanks (snd kv) \<and> 2 < length (fst kv) \<and>
     CHR '':'' \<notin> set (fst kv) \<and> CHR '':'' \<notin> set (snd kv) \<and> CHR 0x0A \<notin> set (fst kv) \<and> CHR 0x0A \<notin> set (snd kv) \<and>
     is_durable_candidate (fst kv @ '': '' @ snd kv)"

definition fact_entry :: "int \<Rightarrow> string \<times> string \<Rightarrow> memory_entry" where
  "fact_entry tick kv = new_memory_entry\<lparr>me_id := ''mem_'' @ int_digits tick, me_key := fst kv, me_value := snd kv, me_category := category_of_key (fst kv)\<rparr>"

lemma fact_of_plain_line:
  assumes "plain_fact (k, v)"
  shows "fact_of_line tick (k @ '': '' @ v) = [fact_entry tick (k, v)]"
proof -
  have p: "trimmed key_blanks k" "trimmed value_blanks v" "2 < length k" "CHR '':'' \<notin> set k" "CHR '':'' \<notin> set v" "is_durable_candidate (k @ '': '' @ v)"
    using assms by (auto simp: plain_fact_def)
  have f: "str_find '':'' (k @ '': '' @ v) = Some (length k)" using str_find_char [OF p(4), of "CHR '' '' # v"] by simp
  have b: "CHR '' '' \<in> set value_blanks" by (simp add: value_blanks_def)
  have sp: "split_fact (k @ '': '' @ v) (length k) = (k, v)"
    using trim_trimmed [OF p(1)] trim_trimmed [OF p(2)] trim_blank [OF b, of v] by (simp add: split_fact_def)
  have ne: "k \<noteq> []" "v \<noteq> []" using p(1,2) by (auto simp: trimmed_def)
  show ?thesis
    unfolding fact_of_line_def f option.case sp using p(3,6) ne str_find_char_None [OF p(5)] by (simp add: fact_entry_def Let_def)
qed

lemma get_lines_text: "list_all (\<lambda>l. CHR 0x0A \<notin> set l) ls \<Longrightarrow> get_lines [] (concat (map (\<lambda>l. l @ nl) ls)) = ls"
  by (induction ls) (auto simp: nl_def get_lines_line)

text \<open>
  A written fact is read back: from a text with one line per fact, a key, a colon and a value each marked as durable, the extraction returns exactly these
  keys and values, in order, with the category of the key.
\<close>

theorem written_facts_read_back:
  assumes "list_all plain_fact kvs"
  shows "map (\<lambda>m. (me_key m, me_value m, me_category m)) (extract_facts ticks (concat (map (\<lambda>kv. (fst kv @ '': '' @ snd kv) @ nl) kvs))) =
    map (\<lambda>kv. (fst kv, snd kv, category_of_key (fst kv))) kvs"
proof -
  let ?line = "\<lambda>kv. fst kv @ '': '' @ snd kv"
  have l: "get_lines [] (concat (map (\<lambda>kv. ?line kv @ nl) kvs)) = map ?line kvs"
    using get_lines_text [of "map ?line kvs"] assms by (simp add: list_all_iff plain_fact_def comp_def)
  have "concat (map (\<lambda>(j, line). fact_of_line (ticks j) line) (enumerate n (map ?line kvs))) = map (\<lambda>(j, kv). fact_entry (ticks j) kv) (enumerate n kvs)" for n
    using assms
  proof (induction kvs arbitrary: n)
    case (Cons kv kvs)
    have "fact_of_line (ticks n) (?line kv) = [fact_entry (ticks n) kv]" using Cons.prems fact_of_plain_line [of "fst kv" "snd kv"] by simp
    then show ?case using Cons by simp
  qed simp
  then have e: "extract_facts ticks (concat (map (\<lambda>kv. ?line kv @ nl) kvs)) = map (\<lambda>(j, kv). fact_entry (ticks j) kv) (enumerate 0 kvs)"
    unfolding extract_facts_def l .
  have "map (\<lambda>m. (me_key m, me_value m, me_category m)) (map (\<lambda>(j, kv). fact_entry (ticks j) kv) (enumerate n kvs)) =
      map (\<lambda>kv. (fst kv, snd kv, category_of_key (fst kv))) kvs" for n
    by (induction kvs arbitrary: n) (auto simp: fact_entry_def)
  then show ?thesis unfolding e .
qed

section \<open>Facts of a clean session can be stored\<close>

lemma set_trim: "set (trim blanks s) \<subseteq> set s"
  by (auto simp: trim_def dest!: set_dropWhileD)

lemma set_split_fact: "set (fst (split_fact s i)) \<subseteq> set s" "set (snd (split_fact s i)) \<subseteq> set s"
  using set_trim set_take_subset [of i s] set_drop_subset [of "Suc i" s] by (fastforce simp: split_fact_def)+

lemma set_get_lines: "l \<in> set (get_lines cur s) \<Longrightarrow> set l \<subseteq> set cur \<union> set s"
  by (induction cur s rule: get_lines.induct) (auto split: if_splits)

lemma digits_clean: "CHR 0x00 \<notin> set (int_digits i)"
proof -
  have "\<not> isdigit (CHR 0x00)" by (simp add: isdigit_def code_def)
  then show ?thesis using nat_digits_isdigit by (auto simp: int_digits_def simp del: nat_digits.simps)
qed

definition reals_kept :: "sqlite_ops \<Rightarrow> bool" where
  "reals_kept Q \<longleftrightarrow> sq_real Q f_one = f_one \<and> sq_real Q 0x3F000000 = 0x3F000000"

lemma fact_of_line_storable:
  assumes "m \<in> set (fact_of_line tick line)" and "CHR 0x00 \<notin> set line" and "reals_kept Q"
  shows "entry_storable Q m"
proof -
  obtain i key val cat where m: "m = new_memory_entry\<lparr>me_id := ''mem_'' @ int_digits tick, me_key := key, me_value := val, me_category := cat\<rparr>"
      and kv: "(key, val) = split_fact line i \<or> (\<exists>j. (key, val) = split_fact (snd (split_fact line i)) j)"
    using assms(1) by (auto simp: fact_of_line_def Let_def split: if_splits option.splits prod.splits) (metis snd_conv)+
  have "set key \<union> set val \<subseteq> set line"
  proof (cases "(key, val) = split_fact line i")
    case True
    then show ?thesis using set_split_fact [of line i] by (metis Un_subset_iff fst_conv snd_conv)
  next
    case False
    then obtain j where j: "(key, val) = split_fact (snd (split_fact line i)) j" using kv by blast
    have "set key \<union> set val \<subseteq> set (snd (split_fact line i))"
      using set_split_fact [of "snd (split_fact line i)" j] j by (metis Un_subset_iff fst_conv snd_conv)
    then show ?thesis using set_split_fact(2) [of line i] by blast
  qed
  then show ?thesis using assms(2,3) digits_clean [of tick] unfolding m
    by (auto simp: entry_storable_def entry_texts_def new_memory_entry_def reals_kept_def)
qed

lemma session_facts_storable:
  assumes "m \<in> set (session_facts ticks sm)" and "list_all (\<lambda>s. CHR 0x00 \<notin> set s) (fact_texts sm)" and "reals_kept Q"
  shows "entry_storable Q m"
proof -
  obtain i s where s: "s \<in> set (fact_texts sm)" "m \<in> set (extract_facts (ticks i) s)"
    using assms(1) by (auto simp: session_facts_def in_set_enumerate_eq dest!: nth_mem)
  then obtain j line where line: "line \<in> set (get_lines [] s)" "m \<in> set (fact_of_line (ticks i j) line)"
    by (auto simp: extract_facts_def in_set_enumerate_eq dest!: nth_mem)
  have "CHR 0x00 \<notin> set line" using set_get_lines [OF line(1)] s(1) assms(2) by (auto simp: list_all_iff)
  then show ?thesis by (rule fact_of_line_storable [OF line(2) _ assms(3)])
qed

section \<open>Consolidated facts are kept\<close>

text \<open>The last value given to each key.\<close>

definition latest :: "memory_entry list \<Rightarrow> string \<rightharpoonup> string" where
  "latest facts = fold (\<lambda>m f. f(me_key m \<mapsto> me_value m)) facts Map.empty"

definition stored_values :: "memory_store \<Rightarrow> string \<rightharpoonup> string" where
  "stored_values ms k = map_option me_value (get_memory k ms)"

definition kept_values :: "persistent_memory \<Rightarrow> string \<rightharpoonup> string" where
  "kept_values pm k = map_option me_value (get_entry k pm)"

lemma stored_values_put:
  assumes "ms_open ms" "entry_storable Q m" "c_str k = k"
  shows "stored_values (snd (put_memory Q F emb_fn True m v ms)) k = ((stored_values ms)(me_key m \<mapsto> me_value m)) k"
proof -
  have "c_str (me_key m) = me_key m" using assms(2) by (simp add: entry_storable_def entry_texts_def c_str_id)
  moreover have "me_value (extract_memory_entry (bound_row Q emb_fn m v)) = me_value m"
      "me_value (extract_memory_entry (merge_memory old (bound_row Q emb_fn m v))) = me_value m" for old
    using to_columns_storable [OF assms(2)] by (simp_all add: extract_memory_entry_def merge_memory_def Let_def)
  ultimately show ?thesis using get_put_memory [OF assms(1), of k Q F emb_fn m v] assms(3) by (auto simp: stored_values_def split: option.splits)
qed

lemma kept_values_set: "kept_values (set_entry now m pm) = (kept_values pm)(me_key m \<mapsto> me_value m)"
  by (rule ext) (simp add: kept_values_def get_entry_def set_entry_def Let_def)

lemma synced_query:
  assumes "index_synced n ms"
  shows "\<exists>hits. query_memories_vector Q F D v k th f ms = Inr hits"
proof -
  obtain ix where ix: "ms_open ms" "ms_index ms = Some ix" "vi_ok ix" using assms by (auto simp: index_synced_def)
  obtain hits where "vi_search F ix v k (Some (build_allowlist_mask ix (scope_keys Q f (ms_memories ms)))) = Inr hits" using vi_search_in_mask [OF ix(3)] by blast
  then show ?thesis using ix(1,2) by (simp add: query_memories_vector_def)
qed

definition env_ok :: "env \<Rightarrow> bool" where
  "env_ok E \<longleftrightarrow> e_ok E \<and> reals_kept (e_sql E) \<and> (\<forall>s. e_embed E s \<noteq> [])"

lemma latest_fold: "fold (\<lambda>m f. f(me_key m \<mapsto> me_value m)) facts g k = (case latest facts k of Some v \<Rightarrow> Some v | None \<Rightarrow> g k)"
proof -
  have "fold (\<lambda>m f. f(me_key m \<mapsto> me_value m)) facts (h ++ f) = h ++ fold (\<lambda>m f. f(me_key m \<mapsto> me_value m)) facts f" for h f :: "string \<rightharpoonup> string"
    by (induction facts arbitrary: f) (auto simp flip: map_add_upd)
  from this [of g Map.empty] show ?thesis by (auto simp: latest_def map_add_def)
qed

lemma commit_fact_ok:
  assumes E: "env_ok E" and ms: "cs_store cs = Some ms" "index_synced (Suc n) ms" and pm: "cs_persistent cs = Some pm" and m: "entry_storable (e_sql E) m"
  shows "\<exists>cs' ms' pm'. commit_fact E m cs = Inr cs' \<and> cs_store cs' = Some ms' \<and> cs_persistent cs' = Some pm' \<and> index_synced n ms' \<and>
    cs_updated cs' + cs_added cs' = Suc (cs_updated cs + cs_added cs) \<and> ms' = snd (put_memory (e_sql E) (e_floats E) (e_embed E) True m (e_embed E (me_value m)) ms) \<and>
    pm' = set_entry (e_now E) m pm"
proof -
  obtain hits where h: "query_memories_vector (e_sql E) (e_floats E) (e_doubles E) (e_embed E (me_value m)) 3 0x3ECCCCCD default_filter ms = Inr hits"
    using synced_query [OF ms(2)] by blast
  have "index_synced n (snd (put_memory (e_sql E) (e_floats E) (e_embed E) True m (e_embed E (me_value m)) ms))"
    by (rule index_synced_put [OF ms(2)]) (use E m in \<open>auto simp: env_ok_def entry_storable_def entry_texts_def\<close>)
  then show ?thesis using E h ms(1) pm by (auto simp: commit_fact_def Let_def env_ok_def split: option.splits)
qed

lemma commit_facts_ok:
  assumes E: "env_ok E" and "cs_store cs = Some ms" "index_synced (length facts) ms" "cs_persistent cs = Some pm" "list_all (entry_storable (e_sql E)) facts"
  shows "\<exists>cs' ms' pm'. sfold (commit_fact E) facts cs = Inr cs' \<and> cs_store cs' = Some ms' \<and> cs_persistent cs' = Some pm' \<and> ms_open ms' \<and>
    cs_updated cs' + cs_added cs' = length facts + cs_updated cs + cs_added cs \<and>
    (\<forall>k. c_str k = k \<longrightarrow> stored_values ms' k = fold (\<lambda>m f. f(me_key m \<mapsto> me_value m)) facts (stored_values ms) k) \<and>
    kept_values pm' = fold (\<lambda>m f. f(me_key m \<mapsto> me_value m)) facts (kept_values pm)"
  using assms(2-)
proof (induction facts arbitrary: cs ms pm)
  case Nil
  then show ?case by (auto simp: index_synced_def)
next
  case (Cons m facts)
  let ?ms1 = "snd (put_memory (e_sql E) (e_floats E) (e_embed E) True m (e_embed E (me_value m)) ms)" and ?pm1 = "set_entry (e_now E) m pm"
  have sync: "index_synced (Suc (length facts)) ms" and st: "entry_storable (e_sql E) m" and rest: "list_all (entry_storable (e_sql E)) facts" using Cons.prems by auto
  obtain cs1 where c1: "commit_fact E m cs = Inr cs1" "cs_store cs1 = Some ?ms1" "cs_persistent cs1 = Some ?pm1" "index_synced (length facts) ?ms1"
      "cs_updated cs1 + cs_added cs1 = Suc (cs_updated cs + cs_added cs)"
    using commit_fact_ok [OF E Cons.prems(1) sync Cons.prems(3) st] by blast
  obtain cs' ms' pm' where c2: "sfold (commit_fact E) facts cs1 = Inr cs'" "cs_store cs' = Some ms'" "cs_persistent cs' = Some pm'" "ms_open ms'"
      "cs_updated cs' + cs_added cs' = length facts + cs_updated cs1 + cs_added cs1"
      "\<forall>k. c_str k = k \<longrightarrow> stored_values ms' k = fold (\<lambda>m f. f(me_key m \<mapsto> me_value m)) facts (stored_values ?ms1) k"
      "kept_values pm' = fold (\<lambda>m f. f(me_key m \<mapsto> me_value m)) facts (kept_values ?pm1)"
    using Cons.IH [OF c1(2,4,3) rest] by blast
  have o: "ms_open ms" using sync by (simp add: index_synced_def)
  have "stored_values ms' k = fold (\<lambda>m f. f(me_key m \<mapsto> me_value m)) (m # facts) (stored_values ms) k" if "c_str k = k" for k
    using c2(6) that stored_values_put [OF o st that] by (simp add: latest_fold split: option.split)
  moreover have "cs_updated cs' + cs_added cs' = length (m # facts) + cs_updated cs + cs_added cs" using c1(5) c2(5) by simp
  moreover have "kept_values pm' = fold (\<lambda>m f. f(me_key m \<mapsto> me_value m)) (m # facts) (kept_values pm)" using c2(7) by (simp add: kept_values_set)
  moreover have "sfold (commit_fact E) (m # facts) cs = Inr cs'" using c1(1) c2(1) by simp
  ultimately show ?case using c2(2-4) by blast
qed

text \<open>
  Ending a session keeps its facts: with a working store and a session without zero bytes, ending the session succeeds, clears the session and the
  working memory, and leaves in the store and in the persistent memory, for every key that a fact of the session names, the value of the last such fact; other
  memories keep their values, and the counts of added and updated memories add up.
\<close>

theorem ended_session_keeps_facts:
  assumes "env_ok E" and "list_all (\<lambda>s. CHR 0x00 \<notin> set s) (fact_texts (en_session en))" and "index_synced (length (session_facts ticks (en_session en))) ms"
  shows "\<exists>res en' ms'. end_session_and_archive E ticks en ms = Inr (res, en', ms') \<and>
    cr_updated_count res + cr_added_count res = length (cr_extracted res) \<and> sm_turns (en_session en') = [] \<and> en_working en' = new_working_memory \<and>
    (\<forall>k. c_str k = k \<longrightarrow> stored_values ms' k = (case latest (cr_extracted res) k of Some v \<Rightarrow> Some v | None \<Rightarrow> stored_values ms k) \<and>
       kept_values (en_persistent en') k = (case latest (cr_extracted res) k of Some v \<Rightarrow> Some v | None \<Rightarrow> kept_values (en_persistent en) k))"
proof -
  let ?facts = "session_facts ticks (en_session en)" and ?cs = "\<lparr>cs_store = Some ms, cs_persistent = Some (en_persistent en), cs_updated = 0, cs_added = 0, cs_facts = []\<rparr>"
  have st: "list_all (entry_storable (e_sql E)) ?facts"
    using session_facts_storable [OF _ assms(2)] assms(1) by (auto simp: list_all_iff env_ok_def)
  obtain cs ms' pm where c: "sfold (commit_fact E) ?facts ?cs = Inr cs" "cs_store cs = Some ms'" "cs_persistent cs = Some pm"
      "cs_updated cs + cs_added cs = length ?facts"
      "\<forall>k. c_str k = k \<longrightarrow> stored_values ms' k = fold (\<lambda>m f. f(me_key m \<mapsto> me_value m)) ?facts (stored_values ms) k"
      "kept_values pm = fold (\<lambda>m f. f(me_key m \<mapsto> me_value m)) ?facts (kept_values (en_persistent en))"
    using commit_facts_ok [OF assms(1) _ assms(3) _ st, of ?cs] by auto
  have a: "stored_values (snd (save_archive ok now i sid sum facts ms')) = stored_values ms'" for ok now i sid sum facts
    by (rule ext) (simp add: stored_values_def get_memory_def save_archive_def)
  show ?thesis
    using c(1-4) by (simp add: end_session_and_archive_def consolidate_def Let_def sm_clear_def wm_reset_def a c(5,6) latest_fold)
qed

section \<open>Examples\<close>

definition demo_env :: env where
  "demo_env = \<lparr>e_sql = demo_sql, e_floats = demo_floats, e_doubles = demo_doubles, e_embed = (\<lambda>s. [f_one]), e_ok = True, e_now = 9\<rparr>"

definition demo_engine :: memory_engine where
  "demo_engine = \<lparr>en_working = new_working_memory, en_session = add_message 7 ''user'' ''framework: Laravel'' (new_session_memory ''s''), en_persistent = []\<rparr>"

lemma demo_fact: "plain_fact (''framework'', ''Laravel'')"
  by (simp add: plain_fact_def trimmed_def key_blanks_def value_blanks_def is_durable_candidate_def) code_simp

theorem written_facts_read_back_witness:
  "map (\<lambda>m. (me_key m, me_value m)) (extract_facts (\<lambda>j. 0) (''framework: Laravel'' @ nl)) = [(''framework'', ''Laravel'')]"
  using arg_cong [OF written_facts_read_back [of "[(''framework'', ''Laravel'')]" "\<lambda>j. 0"], of "map (\<lambda>(k, v, c). (k, v))"] demo_fact
  by (simp add: comp_def)

lemma demo_session_facts: "session_facts (\<lambda>i j. 0) (en_session demo_engine) = [fact_entry 0 (''framework'', ''Laravel'')]"
  using fact_of_plain_line [OF demo_fact, of 0]
  by (simp add: session_facts_def fact_texts_def demo_engine_def add_message_def new_session_memory_def extract_facts_def)

theorem ended_session_keeps_facts_witness:
  "\<exists>res en' ms'. end_session_and_archive demo_env (\<lambda>i j. 0) demo_engine demo_store = Inr (res, en', ms') \<and> stored_values ms' ''framework'' = Some ''Laravel''"
proof -
  have e: "env_ok demo_env" by (simp add: env_ok_def demo_env_def reals_kept_def demo_sql_def)
  have c: "list_all (\<lambda>s. CHR 0x00 \<notin> set s) (fact_texts (en_session demo_engine))"
    by (simp add: fact_texts_def demo_engine_def add_message_def new_session_memory_def)
  have i: "index_synced (length (session_facts (\<lambda>i j. 0) (en_session demo_engine))) demo_store"
    unfolding demo_session_facts using vi_ok_new [of demo_floats "\<lambda>_ _. 0" 2 42]
    by (auto simp: index_synced_def demo_store_def opened_store_def demo_index_def vi_room_def vi_lookup_def new_vector_index_def)
  obtain res en' ms' where r: "end_session_and_archive demo_env (\<lambda>i j. 0) demo_engine demo_store = Inr (res, en', ms')"
      "\<forall>k. c_str k = k \<longrightarrow> stored_values ms' k = (case latest (cr_extracted res) k of Some v \<Rightarrow> Some v | None \<Rightarrow> stored_values demo_store k)"
    using ended_session_keeps_facts [OF e c i] by blast
  have "cr_extracted res = [fact_entry 0 (''framework'', ''Laravel'')]"
    using r(1) by (auto simp: end_session_and_archive_def consolidate_def Let_def sbind_Inr demo_session_facts)
  then have "stored_values ms' ''framework'' = Some ''Laravel''" using r(2) by (simp add: latest_def fact_entry_def c_str_def)
  with r(1) show ?thesis by blast
qed

end
