(* ===== verification/Code_Index.thy ===== *)
theory Code_Index
  imports Code_Tracker Search_Engine Sql_Table "HOL-Library.Sublist"
begin

text \<open>
  The code index: cutting a file into structural chunks along its syntax tree (\<open>ast_chunker.cpp\<close>), the table of symbols (\<open>symbol_index.cpp\<close>), and
  the incremental indexing of files (\<open>code_indexer.cpp\<close>).

  The tree-sitter parser is an argument that gives a tree of named nodes with byte and row ranges; \<open>std::hash\<close> is an argument. The table is the list of its
  rows in the order of their identifiers. Whether a statement of the database succeeds is an argument, as are \<open>LIKE\<close>, the order of a scan and \<open>ORDER BY\<close>.
\<close>

section \<open>Chunks of a syntax tree\<close>

datatype ts_node = TSNode (node_type: string) (start_byte: u32) (end_byte: u32) (start_row: u32) (end_row: u32) (node_children: "ts_node list")

definition extract_node_text :: "ts_node \<Rightarrow> string \<Rightarrow> string" where
  "extract_node_text node src =
     (let s = unat (start_byte node); e = unat (end_byte node)
      in if s < length src \<and> e \<le> length src \<and> s \<le> e then take (e - s) (drop s src) else [])"

fun find_identifier_name :: "string \<Rightarrow> ts_node \<Rightarrow> string" and find_identifier_in :: "string \<Rightarrow> ts_node list \<Rightarrow> string" where
  "find_identifier_name src (TSNode ty sb eb sr er children) = find_identifier_in src children"
| "find_identifier_in src [] = []"
| "find_identifier_in src (child # rest) =
     (if node_type child \<in> {''identifier'', ''name'', ''type_identifier'', ''field_identifier''} then extract_node_text child src
      else if node_type child = ''function_declarator'' \<or> node_type child = ''declarator''
      then (let sub = find_identifier_name src child in if sub \<noteq> [] then sub else find_identifier_in src rest)
      else find_identifier_in src rest)"

definition is_structural_definition :: "string \<Rightarrow> bool" where
  "is_structural_definition ty \<longleftrightarrow> ty \<in> {''function_definition'', ''class_definition'', ''class_specifier'', ''class_declaration'', ''struct_specifier'',
     ''method_declaration'', ''method_definition'', ''function_declaration''}"

definition node_symbol :: "string \<Rightarrow> string \<Rightarrow> ts_node \<Rightarrow> string" where
  "node_symbol src parent_sym node =
     (let found = find_identifier_name src node;
          sym_name = (if found = [] then ''<anonymous_'' @ node_type node @ ''>'' else found)
      in if parent_sym = [] then sym_name else parent_sym @ ''::'' @ sym_name)"

definition node_chunk :: "(string \<Rightarrow> u64) \<Rightarrow> string \<Rightarrow> string \<Rightarrow> string \<Rightarrow> string \<Rightarrow> ts_node \<Rightarrow> structural_chunk" where
  "node_chunk hash path language src parent_sym node =
     (let content = extract_node_text node src
      in \<lparr>ch_file_path = path, ch_symbol = node_symbol src parent_sym node, ch_parent_symbol = parent_sym, ch_language = language,
          ch_start_line = sint (start_row node + 1), ch_end_line = sint (end_row node + 1), ch_source_hash = hash content, ch_content = content\<rparr>)"

fun walk_ast :: "(string \<Rightarrow> u64) \<Rightarrow> string \<Rightarrow> string \<Rightarrow> string \<Rightarrow> string \<Rightarrow> ts_node \<Rightarrow> structural_chunk list" where
  "walk_ast hash path language src parent_sym (TSNode ty sb eb sr er children) =
     (let node = TSNode ty sb eb sr er children
      in if is_structural_definition ty
         then node_chunk hash path language src parent_sym node # concat (map (walk_ast hash path language src (node_symbol src parent_sym node)) children)
         else concat (map (walk_ast hash path language src parent_sym) children))"

definition module_chunk :: "(string \<Rightarrow> u64) \<Rightarrow> string \<Rightarrow> string \<Rightarrow> string \<Rightarrow> structural_chunk" where
  "module_chunk hash path language src =
     \<lparr>ch_file_path = path, ch_symbol = ''<module>'', ch_parent_symbol = [], ch_language = language, ch_start_line = 1, ch_end_line = 1,
      ch_source_hash = hash src, ch_content = src\<rparr>"

record chunk_env =
  ce_parse :: "grammar \<Rightarrow> string \<Rightarrow> ts_node option"
  ce_hash :: "string \<Rightarrow> u64"

definition chunk_file :: "chunk_env \<Rightarrow> string \<Rightarrow> string \<Rightarrow> structural_chunk list" where
  "chunk_file C path src =
     (if src = [] then []
      else let lang = detect_language path
           in case get_grammar_for_language lang of
                None \<Rightarrow> [module_chunk (ce_hash C) path ''raw'' src]
              | Some g \<Rightarrow>
                  let chunks = (case ce_parse C g src of None \<Rightarrow> [] | Some root \<Rightarrow> walk_ast (ce_hash C) path lang src [] root)
                  in if chunks = [] then [module_chunk (ce_hash C) path lang src] else chunks)"

section \<open>The table of symbols\<close>

record symbol_index =
  si_open :: bool
  si_rows :: "structural_chunk list"

record statement_outcome =
  so_remove :: bool
  so_prepare :: bool
  so_insert :: "structural_chunk \<Rightarrow> bool"

definition no_failures :: statement_outcome where
  "no_failures = \<lparr>so_remove = True, so_prepare = True, so_insert = (\<lambda>c. True)\<rparr>"

text \<open>\<open>init\<close> and \<open>set_shared_db\<close>: the database that is there, \<open>None\<close> when it cannot be opened; \<open>created\<close> is the outcome of the schema statement.\<close>

definition symbols_init :: "structural_chunk list option \<Rightarrow> bool \<Rightarrow> bool \<times> symbol_index" where
  "symbols_init db created =
     (case db of None \<Rightarrow> (False, \<lparr>si_open = False, si_rows = []\<rparr>) | Some rows \<Rightarrow> (created, \<lparr>si_open = True, si_rows = rows\<rparr>))"

definition remove_file_symbols :: "statement_outcome \<Rightarrow> string \<Rightarrow> symbol_index \<Rightarrow> bool \<times> symbol_index" where
  "remove_file_symbols so path si =
     (if \<not> si_open si \<or> \<not> so_remove so then (False, si) else (True, si\<lparr>si_rows := filter (\<lambda>r. ch_file_path r \<noteq> c_str path) (si_rows si)\<rparr>))"

definition stored_chunk :: "structural_chunk \<Rightarrow> structural_chunk" where
  "stored_chunk c = c\<lparr>ch_file_path := c_str (ch_file_path c), ch_symbol := c_str (ch_symbol c), ch_parent_symbol := c_str (ch_parent_symbol c),
     ch_language := c_str (ch_language c), ch_content := c_str (ch_content c)\<rparr>"

definition insert_chunks :: "statement_outcome \<Rightarrow> structural_chunk list \<Rightarrow> symbol_index \<Rightarrow> bool \<times> symbol_index" where
  "insert_chunks so chunks si =
     (if \<not> si_open si \<or> \<not> so_prepare so then (False, si) else (True, si\<lparr>si_rows := si_rows si @ map stored_chunk (filter (so_insert so) chunks)\<rparr>))"

record symbol_query =
  syq_like :: "string \<Rightarrow> string \<Rightarrow> bool"
  syq_scan :: "structural_chunk list \<Rightarrow> structural_chunk list"
  syq_by_line :: "structural_chunk list \<Rightarrow> structural_chunk list"

definition find_by_symbol :: "symbol_query \<Rightarrow> string \<Rightarrow> symbol_index \<Rightarrow> structural_chunk list" where
  "find_by_symbol Q query si =
     (if \<not> si_open si then [] else take 50 (syq_scan Q (filter (\<lambda>r. syq_like Q (c_str (''%'' @ query @ ''%'')) (ch_symbol r)) (si_rows si))))"

definition si_file_symbols :: "symbol_query \<Rightarrow> string \<Rightarrow> symbol_index \<Rightarrow> structural_chunk list" where
  "si_file_symbols Q path si = (if \<not> si_open si then [] else syq_by_line Q (filter (\<lambda>r. ch_file_path r = c_str path) (si_rows si)))"

definition symbol_count :: "symbol_index \<Rightarrow> nat" where
  "symbol_count si = (if si_open si then length (si_rows si) else 0)"

section \<open>Indexing files\<close>

record code_indexer =
  ci_tracker :: change_tracker
  ci_symbols :: symbol_index

record index_result =
  ir_file_path :: string
  ir_was_skipped :: bool
  ir_chunk_count :: nat

definition code_indexer_init :: "structural_chunk list option \<Rightarrow> bool \<Rightarrow> code_indexer \<Rightarrow> bool \<times> code_indexer" where
  "code_indexer_init db created ci = (let (ok, si) = symbols_init db created in (ok, ci\<lparr>ci_symbols := si\<rparr>))"

definition index_file :: "chunk_env \<Rightarrow> statement_outcome \<Rightarrow> string \<Rightarrow> string \<Rightarrow> bool \<Rightarrow> code_indexer \<Rightarrow> index_result \<times> code_indexer" where
  "index_file C so path content force ci =
     (if \<not> force \<and> \<not> has_changed (ci_tracker ci) path content
      then (\<lparr>ir_file_path = path, ir_was_skipped = True, ir_chunk_count = 0\<rparr>, ci)
      else
        let chunks = chunk_file C path content;
            si1 = snd (remove_file_symbols so path (ci_symbols ci));
            si2 = (if chunks \<noteq> [] then snd (insert_chunks so chunks si1) else si1)
        in (\<lparr>ir_file_path = path, ir_was_skipped = False, ir_chunk_count = length chunks\<rparr>,
            ci\<lparr>ci_symbols := si2, ci_tracker := update_hash path content (ci_tracker ci)\<rparr>))"

definition query_symbol :: "symbol_query \<Rightarrow> string \<Rightarrow> code_indexer \<Rightarrow> structural_chunk list" where
  "query_symbol Q name ci = find_by_symbol Q name (ci_symbols ci)"

definition get_file_symbols :: "symbol_query \<Rightarrow> string \<Rightarrow> code_indexer \<Rightarrow> structural_chunk list" where
  "get_file_symbols Q path ci = si_file_symbols Q path (ci_symbols ci)"

section \<open>What a chunk is\<close>

lemma extract_sublist: "sublist (extract_node_text node src) src"
proof -
  have "src = take i src @ take j (drop i src) @ drop j (drop i src)" for i j by (metis append_take_drop_id)
  then have "sublist (take j (drop i src)) src" for i j unfolding sublist_def by metis
  then show ?thesis by (simp add: extract_node_text_def Let_def)
qed

text \<open>Every chunk of a file carries its path and a contiguous piece of its text.\<close>

lemma walk_ast_chunks:
  "c \<in> set (walk_ast hash path language src parent_sym node) \<Longrightarrow>
   ch_file_path c = path \<and> ch_language c = language \<and> sublist (ch_content c) src \<and> ch_source_hash c = hash (ch_content c)"
proof (induction hash path language src parent_sym node rule: walk_ast.induct)
  case (1 hash path language src parent_sym ty sb eb sr er children)
  show ?case
  proof (cases "is_structural_definition ty")
    case True
    then show ?thesis using 1 by (auto simp: Let_def node_chunk_def extract_sublist)
  next
    case False
    then show ?thesis using 1 by auto
  qed
qed

lemma chunk_file_chunks: "c \<in> set (chunk_file C path src) \<Longrightarrow> ch_file_path c = path \<and> sublist (ch_content c) src \<and> ch_source_hash c = ce_hash C (ch_content c)"
  by (auto simp: chunk_file_def Let_def module_chunk_def dest: walk_ast_chunks split: option.splits if_splits)

lemma chunk_file_Nil: "chunk_file C path src = [] \<longleftrightarrow> src = []"
  by (auto simp: chunk_file_def Let_def split: option.splits)

section \<open>The index follows the files\<close>

record index_call =
  ic_path :: string
  ic_content :: string
  ic_force :: bool

definition run_index :: "chunk_env \<Rightarrow> index_call \<Rightarrow> code_indexer \<Rightarrow> code_indexer" where
  "run_index C k ci = snd (index_file C no_failures (ic_path k) (ic_content k) (ic_force k) ci)"

definition last_content :: "index_call \<Rightarrow> (string \<rightharpoonup> string) \<Rightarrow> (string \<rightharpoonup> string)" where
  "last_content k files = files(ic_path k \<mapsto> ic_content k)"

definition rows_of :: "chunk_env \<Rightarrow> (string \<rightharpoonup> string) \<Rightarrow> string \<Rightarrow> structural_chunk list" where
  "rows_of C files path = (case files path of None \<Rightarrow> [] | Some src \<Rightarrow> map stored_chunk (chunk_file C path src))"

definition follows :: "chunk_env \<Rightarrow> (string \<rightharpoonup> string) \<Rightarrow> code_indexer \<Rightarrow> bool" where
  "follows C files ci \<longleftrightarrow> si_open (ci_symbols ci) \<and> ci_tracker ci = map_option compute_hash \<circ> files \<and>
     (\<forall>path. CHR 0x00 \<notin> set path \<longrightarrow> filter (\<lambda>r. ch_file_path r = path) (si_rows (ci_symbols ci)) = rows_of C files path)"

lemma stored_paths: "c \<in> set (map stored_chunk (chunk_file C path src)) \<Longrightarrow> ch_file_path c = c_str path"
  by (auto simp: stored_chunk_def dest: chunk_file_chunks)

lemma filter_other: "(\<And>x. x \<in> set xs \<Longrightarrow> f x = a) \<Longrightarrow> filter (\<lambda>x. f x = b) xs = (if a = b then xs else [])"
  by (induction xs) auto

lemma follows_step:
  assumes "follows C files ci" and "CHR 0x00 \<notin> set (ic_path k)"
    and "\<And>src. files (ic_path k) = Some src \<Longrightarrow> compute_hash src = compute_hash (ic_content k) \<Longrightarrow> src = ic_content k"
  shows "follows C (last_content k files) (run_index C k ci)"
proof (cases "\<not> ic_force k \<and> \<not> has_changed (ci_tracker ci) (ic_path k) (ic_content k)")
  case True
  have "ci_tracker ci (ic_path k) = map_option compute_hash (files (ic_path k))" using assms(1) by (simp add: follows_def)
  moreover have "ci_tracker ci (ic_path k) = Some (compute_hash (ic_content k))" using True by (auto simp: has_changed_def split: option.splits)
  ultimately have "map_option compute_hash (files (ic_path k)) = Some (compute_hash (ic_content k))" by simp
  then have "files (ic_path k) = Some (ic_content k)" using assms(3) by auto
  then have "last_content k files = files" by (auto simp: last_content_def)
  then show ?thesis using True assms(1) by (simp add: run_index_def index_file_def)
next
  case False
  let ?p = "ic_path k" and ?new = "map stored_chunk (chunk_file C (ic_path k) (ic_content k))"
  have p: "c_str ?p = ?p" using assms(2) by (rule c_str_id)
  have o: "si_open (ci_symbols ci)" and t: "ci_tracker ci = map_option compute_hash \<circ> files" using assms(1) by (simp_all add: follows_def)
  have run: "run_index C k ci = ci\<lparr>ci_symbols := (ci_symbols ci)\<lparr>si_rows := filter (\<lambda>r. ch_file_path r \<noteq> ?p) (si_rows (ci_symbols ci)) @ ?new\<rparr>,
      ci_tracker := update_hash ?p (ic_content k) (ci_tracker ci)\<rparr>"
    unfolding run_index_def index_file_def Let_def if_not_P [OF False] using o p
    by (cases "chunk_file C ?p (ic_content k) = []") (simp_all add: remove_file_symbols_def insert_chunks_def no_failures_def)
  then have rest: "si_open (ci_symbols (run_index C k ci))" "ci_tracker (run_index C k ci) = map_option compute_hash \<circ> last_content k files"
    using o t by (simp_all add: update_hash_def last_content_def)
  have "filter (\<lambda>r. ch_file_path r = path) (si_rows (ci_symbols (run_index C k ci))) = rows_of C (last_content k files) path" if "CHR 0x00 \<notin> set path" for path
  proof -
    have "ch_file_path x = ?p" if "x \<in> set ?new" for x using stored_paths [OF that] p by simp
    then have new: "filter (\<lambda>r. ch_file_path r = path) ?new = (if ?p = path then ?new else [])" by (rule filter_other)
    have "filter (\<lambda>r. ch_file_path r = path) (filter (\<lambda>r. ch_file_path r \<noteq> ?p) (si_rows (ci_symbols ci))) = (if ?p = path then [] else rows_of C files path)"
    proof (cases "?p = path")
      case False
      then have "filter (\<lambda>r. ch_file_path r = path) (filter (\<lambda>r. ch_file_path r \<noteq> ?p) rs) = filter (\<lambda>r. ch_file_path r = path) rs" for rs :: "structural_chunk list"
        by (induction rs) auto
      then show ?thesis using False assms(1) that unfolding follows_def by (simp del: filter_filter)
    qed (simp add: filter_False)
    then show ?thesis using run new by (simp add: rows_of_def last_content_def del: filter_filter)
  qed
  then show ?thesis using rest by (simp add: follows_def)
qed

lemma follows_calls:
  assumes "follows C files ci" and "list_all (\<lambda>k. CHR 0x00 \<notin> set (ic_path k)) ks"
    and "inj_on compute_hash (ran files \<union> set (map ic_content ks))"
  shows "follows C (fold last_content ks files) (fold (run_index C) ks ci)"
  using assms
proof (induction ks arbitrary: files ci)
  case (Cons k ks)
  have "src = ic_content k" if "files (ic_path k) = Some src" "compute_hash src = compute_hash (ic_content k)" for src
    by (rule inj_onD [OF Cons.prems(3) that(2)]) (use that(1) in \<open>auto simp: ran_def\<close>)
  then have "follows C (last_content k files) (run_index C k ci)" using Cons.prems(1,2) by (intro follows_step) auto
  moreover have "ran (last_content k files) \<subseteq> insert (ic_content k) (ran files)" by (auto simp: last_content_def ran_def)
  then have "inj_on compute_hash (ran (last_content k files) \<union> set (map ic_content ks))" by (intro inj_on_subset [OF Cons.prems(3)]) auto
  ultimately show ?case using Cons.IH [of "last_content k files" "run_index C k ci"] Cons.prems(2) by simp
qed simp

text \<open>
  C30. The index follows the files: after any sequence of index calls on a new indexer, forced or not, with contents that the hash tells apart, the symbols of a file
  are the chunks of the content it was last indexed with, in their order, and none for a file that was never indexed.
\<close>

theorem index_follows_files:
  assumes "list_all (\<lambda>k. CHR 0x00 \<notin> set (ic_path k)) ks" and "inj_on compute_hash (set (map ic_content ks))" and "CHR 0x00 \<notin> set path"
  shows "si_file_symbols Q path (ci_symbols (fold (run_index C) ks \<lparr>ci_tracker = Map.empty, ci_symbols = snd (symbols_init (Some []) True)\<rparr>)) =
    syq_by_line Q (rows_of C (fold last_content ks Map.empty) path)"
proof -
  have "follows C Map.empty \<lparr>ci_tracker = Map.empty, ci_symbols = snd (symbols_init (Some []) True)\<rparr>"
    by (simp add: follows_def symbols_init_def rows_of_def fun_eq_iff)
  from follows_calls [OF this assms(1)] assms(2,3) show ?thesis by (simp add: follows_def si_file_symbols_def c_str_id)
qed

section \<open>A failed insertion is not repaired\<close>

text \<open>
  The hash of a file is recorded whatever the database did: when the insertion cannot be prepared, the file has no symbols, and indexing it again with the same
  content is skipped.
\<close>

theorem failed_insert_not_repaired:
  assumes "so_remove so" and "\<not> so_prepare so" and "si_open (ci_symbols ci)" and "has_changed (ci_tracker ci) path content"
  shows "let ci1 = snd (index_file C so path content False ci); (res, ci2) = index_file C no_failures path content False ci1
    in ir_was_skipped res \<and> ci2 = ci1 \<and> list_all (\<lambda>r. ch_file_path r \<noteq> c_str path) (si_rows (ci_symbols ci2))"
proof -
  have "\<not> has_changed (ci_tracker (snd (index_file C so path content False ci))) path content"
    using assms(4) by (simp add: index_file_def Let_def update_hash_def has_changed_def)
  moreover have "list_all (\<lambda>r. ch_file_path r \<noteq> c_str path) (si_rows (ci_symbols (snd (index_file C so path content False ci))))"
    using assms by (simp add: index_file_def Let_def remove_file_symbols_def insert_chunks_def list_all_iff)
  ultimately show ?thesis by (simp add: index_file_def [of C no_failures] Let_def)
qed

section \<open>The name of a function\<close>

text \<open>
  A C++ function that returns a named type is indexed under the name of the type: the type is the first child of the definition and is taken for the
  identifier.
\<close>

theorem return_type_taken_for_name:
  assumes "node_type ret = ''type_identifier''" and "extract_node_text ret src \<noteq> []"
  shows "ch_symbol (hd (walk_ast hash path lang src [] (TSNode ''function_definition'' sb eb sr er (ret # rest)))) = extract_node_text ret src"
  using assms by (simp add: is_structural_definition_def node_chunk_def node_symbol_def Let_def)

section \<open>Examples\<close>

definition demo_chunker :: chunk_env where
  "demo_chunker = \<lparr>ce_parse = (\<lambda>g s. None), ce_hash = (\<lambda>s. 0)\<rparr>"

definition demo_symbol_query :: symbol_query where
  "demo_symbol_query = \<lparr>syq_like = (\<lambda>p s. True), syq_scan = (\<lambda>rs. rs), syq_by_line = (\<lambda>rs. rs)\<rparr>"

definition demo_calls :: "index_call list" where
  "demo_calls = [\<lparr>ic_path = ''a.py'', ic_content = ''x = 1'', ic_force = False\<rparr>, \<lparr>ic_path = ''b.py'', ic_content = ''y = 2'', ic_force = False\<rparr>,
     \<lparr>ic_path = ''a.py'', ic_content = ''x = 3'', ic_force = False\<rparr>]"

theorem index_follows_files_witness:
  "map ch_content (si_file_symbols demo_symbol_query ''a.py'' (ci_symbols (fold (run_index demo_chunker) demo_calls
     \<lparr>ci_tracker = Map.empty, ci_symbols = snd (symbols_init (Some []) True)\<rparr>))) = [''x = 3'']"
proof -
  have h: "compute_hash ''x = 1'' \<noteq> compute_hash ''x = 3''" "compute_hash ''x = 1'' \<noteq> compute_hash ''y = 2''" "compute_hash ''x = 3'' \<noteq> compute_hash ''y = 2''" by code_simp+
  have "rows_of demo_chunker (fold last_content demo_calls Map.empty) ''a.py'' = map stored_chunk (chunk_file demo_chunker ''a.py'' ''x = 3'')"
    by (simp add: rows_of_def demo_calls_def last_content_def)
  moreover have "map ch_content (map stored_chunk (chunk_file demo_chunker ''a.py'' ''x = 3'')) = [''x = 3'']" by code_simp
  moreover have "inj_on compute_hash (set (map ic_content demo_calls))" using h by (auto simp: demo_calls_def)
  ultimately show ?thesis using index_follows_files [of demo_calls "''a.py''" demo_symbol_query demo_chunker]
    by (simp add: demo_calls_def demo_symbol_query_def)
qed

end
