(* ===== verification/Path_Service.thy ===== *)
theory Path_Service
  imports Sql_Table "HOL-Library.Sublist"
begin

text \<open>
  The path service (\<open>settings/path_service.cpp\<close>) and the database paths over it (\<open>databases/database_paths.hpp\<close>): user directories, the directories
  derived from the base directory, the directories of the storage settings, and the test that admits a model file.

  The surroundings are the record \<open>os_env\<close>: \<open>getenv\<close>, the home directory of the password database, the current directory, and the file-system
  calls of the standard library, which answer \<open>None\<close> where they fail. \<open>parent_path\<close>, \<open>filename\<close> and \<open>path_join\<close> are the lexical
  operations of \<open>std::filesystem::path\<close> on POSIX paths. The service's lock protects single accesses only and is left out.
\<close>

section \<open>Surroundings and paths\<close>

record os_env =
  oe_getenv :: "string \<Rightarrow> string option"
  oe_pw_dir :: "string option"
  oe_cwd :: string
  oe_exists :: "string \<Rightarrow> bool option"
  oe_readlink :: "string \<Rightarrow> string option"
  oe_canonical :: "string \<Rightarrow> string option"

definition filename_of :: "string \<Rightarrow> string" where
  "filename_of p = rev (takeWhile (\<lambda>c. c \<noteq> CHR ''/'') (rev p))"

definition parent_path :: "string \<Rightarrow> string" where
  "parent_path p =
     (let d = dropWhile (\<lambda>c. c \<noteq> CHR ''/'') (rev p); t = rev (dropWhile (\<lambda>c. c = CHR ''/'') d)
      in if t = [] \<and> d \<noteq> [] then ''/'' else t)"

definition path_join :: "string \<Rightarrow> string \<Rightarrow> string" where
  "path_join a b = (if starts_with ''/'' b then b else if a = [] \<or> last a = CHR ''/'' then a @ b else a @ ''/'' @ b)"

text \<open>A variable that is set and not empty (\<open>p && *p\<close>).\<close>

definition env_value :: "os_env \<Rightarrow> string \<Rightarrow> string option" where
  "env_value E name = (case oe_getenv E name of Some v \<Rightarrow> if v = [] then None else Some v | None \<Rightarrow> None)"

section \<open>User directories\<close>

definition home_dir :: "os_env \<Rightarrow> string option" where
  "home_dir E = (case oe_getenv E ''HOME'' of Some h \<Rightarrow> Some h | None \<Rightarrow> oe_pw_dir E)"

definition expand_user :: "os_env \<Rightarrow> string \<Rightarrow> string" where
  "expand_user E path =
     (if path = [] \<or> hd path \<noteq> CHR ''~'' then path
      else case home_dir E of
        None \<Rightarrow> path
      | Some home \<Rightarrow> if length path = 1 then home else if path ! 1 = CHR ''/'' then home @ tl path else path)"

definition default_user_home_dir :: "os_env \<Rightarrow> string" where
  "default_user_home_dir E = (case env_value E ''DENSELITE_HOME'' of Some h \<Rightarrow> h | None \<Rightarrow> expand_user E ''~/.denselite'')"

definition xdg_config_home :: "os_env \<Rightarrow> string" where
  "xdg_config_home E = (case env_value E ''XDG_CONFIG_HOME'' of Some p \<Rightarrow> p @ ''/denselite'' | None \<Rightarrow> expand_user E ''~/.config/denselite'')"

definition xdg_data_home :: "os_env \<Rightarrow> string" where
  "xdg_data_home E = (case env_value E ''XDG_DATA_HOME'' of Some p \<Rightarrow> p @ ''/denselite'' | None \<Rightarrow> expand_user E ''~/.local/share/denselite'')"

definition xdg_cache_home :: "os_env \<Rightarrow> string" where
  "xdg_cache_home E = (case env_value E ''XDG_CACHE_HOME'' of Some p \<Rightarrow> p @ ''/denselite'' | None \<Rightarrow> expand_user E ''~/.cache/denselite'')"

text \<open>The directory of the installation, from the place of the executable; every failure on the way falls back to the current directory.\<close>

definition dir_of_exe :: "os_env \<Rightarrow> string option" where
  "dir_of_exe E =
     (if oe_exists E ''/proc/self/exe'' \<noteq> Some True then None
      else case oe_readlink E ''/proc/self/exe'' of
        None \<Rightarrow> None
      | Some exe_path \<Rightarrow>
          let parent = parent_path exe_path
          in if filename_of parent = ''build'' then Some (parent_path parent)
             else if filename_of parent = ''bin''
             then let share = path_join (path_join (parent_path parent) ''share'') ''denselite''
                  in (case oe_exists E share of None \<Rightarrow> None | Some True \<Rightarrow> Some share | Some False \<Rightarrow> Some (parent_path parent))
             else Some parent)"

definition auto_resolve_base_dir :: "os_env \<Rightarrow> string" where
  "auto_resolve_base_dir E =
     (case env_value E ''DENSELITE_BASE_DIR'' of
        Some b \<Rightarrow> b
      | None \<Rightarrow> (case dir_of_exe E of Some d \<Rightarrow> d | None \<Rightarrow> oe_cwd E))"

section \<open>The service\<close>

record path_service =
  ps_base_dir :: string
  ps_database_dir :: string
  ps_data_dir :: string
  ps_models_dir :: string
  ps_kv_cache_dir :: string
  ps_log_path :: string

record storage_config =
  sc_models_dir :: string
  sc_data_dir :: string
  sc_kv_cache_dir :: string
  sc_logs_dir :: string

definition default_storage_config :: storage_config where
  "default_storage_config =
     \<lparr>sc_models_dir = ''~/.denselite/models'', sc_data_dir = ''~/.denselite/data'', sc_kv_cache_dir = ''~/.denselite/kv_cache'',
      sc_logs_dir = ''~/.denselite/logs''\<rparr>"

definition recompute_defaults :: "path_service \<Rightarrow> path_service" where
  "recompute_defaults ps =
     (let b = ps_base_dir ps; d = b @ ''/src/databases''
      in ps\<lparr>ps_database_dir := d, ps_data_dir := d, ps_models_dir := b @ ''/models'', ps_kv_cache_dir := b @ ''/denselite_kv_cache'',
            ps_log_path := b @ ''/denselite.log''\<rparr>)"

definition set_base_dir :: "string \<Rightarrow> path_service \<Rightarrow> path_service" where
  "set_base_dir dir ps = recompute_defaults (ps\<lparr>ps_base_dir := dir\<rparr>)"

definition new_path_service :: "os_env \<Rightarrow> path_service" where
  "new_path_service E = set_base_dir (auto_resolve_base_dir E)
     \<lparr>ps_base_dir = [], ps_database_dir = [], ps_data_dir = [], ps_models_dir = [], ps_kv_cache_dir = [], ps_log_path = []\<rparr>"

definition settings_db :: "path_service \<Rightarrow> string" where "settings_db ps = ps_database_dir ps @ ''/denselite_settings.db''"
definition state_db :: "path_service \<Rightarrow> string" where "state_db ps = settings_db ps"
definition memory_db :: "path_service \<Rightarrow> string" where "memory_db ps = ps_database_dir ps @ ''/denselite_memory.db''"
definition symbols_db :: "path_service \<Rightarrow> string" where "symbols_db ps = ps_database_dir ps @ ''/denselite_symbols.db''"
definition env_file :: "path_service \<Rightarrow> string" where "env_file ps = ps_base_dir ps @ ''/.env''"

definition set_database_dir :: "string \<Rightarrow> path_service \<Rightarrow> path_service" where "set_database_dir dir ps = ps\<lparr>ps_database_dir := dir\<rparr>"
definition set_data_dir :: "string \<Rightarrow> path_service \<Rightarrow> path_service" where "set_data_dir dir ps = ps\<lparr>ps_data_dir := dir\<rparr>"
definition set_models_dir :: "string \<Rightarrow> path_service \<Rightarrow> path_service" where "set_models_dir dir ps = ps\<lparr>ps_models_dir := dir\<rparr>"
definition set_kv_cache_dir :: "string \<Rightarrow> path_service \<Rightarrow> path_service" where "set_kv_cache_dir dir ps = ps\<lparr>ps_kv_cache_dir := dir\<rparr>"
definition set_log_path :: "string \<Rightarrow> path_service \<Rightarrow> path_service" where "set_log_path path ps = ps\<lparr>ps_log_path := path\<rparr>"

definition sync_from_storage_config :: "os_env \<Rightarrow> storage_config \<Rightarrow> path_service \<Rightarrow> path_service" where
  "sync_from_storage_config E cfg ps =
     ps\<lparr>ps_models_dir := (if sc_models_dir cfg \<noteq> [] then expand_user E (sc_models_dir cfg) else ps_models_dir ps),
        ps_data_dir := (if sc_data_dir cfg \<noteq> [] then expand_user E (sc_data_dir cfg) else ps_data_dir ps),
        ps_kv_cache_dir := (if sc_kv_cache_dir cfg \<noteq> [] then expand_user E (sc_kv_cache_dir cfg) else ps_kv_cache_dir ps),
        ps_log_path := (if sc_logs_dir cfg \<noteq> [] then expand_user E (sc_logs_dir cfg) @ ''/denselite.log'' else ps_log_path ps)\<rparr>"

text \<open>The directories that are created, in order.\<close>

definition ensured_directories :: "path_service \<Rightarrow> string list" where
  "ensured_directories ps =
     [ps_database_dir ps] @ (if ps_data_dir ps \<noteq> [] then [ps_data_dir ps] else []) @ [ps_models_dir ps, ps_kv_cache_dir ps] @
     (if ps_log_path ps \<noteq> [] then [parent_path (ps_log_path ps)] else [])"

section \<open>Database paths\<close>

text \<open>Each function of \<open>DatabasePaths\<close> sets the base directory of the service first when one is given.\<close>

definition with_base_dir :: "string \<Rightarrow> path_service \<Rightarrow> path_service" where
  "with_base_dir base_dir ps = (if base_dir \<noteq> [] then set_base_dir base_dir ps else ps)"

definition db_paths_settings_db :: "string \<Rightarrow> path_service \<Rightarrow> string \<times> path_service" where
  "db_paths_settings_db base_dir ps = (let ps1 = with_base_dir base_dir ps in (settings_db ps1, ps1))"

definition db_paths_memory_db :: "string \<Rightarrow> path_service \<Rightarrow> string \<times> path_service" where
  "db_paths_memory_db base_dir ps = (let ps1 = with_base_dir base_dir ps in (memory_db ps1, ps1))"

definition db_paths_symbols_db :: "string \<Rightarrow> path_service \<Rightarrow> string \<times> path_service" where
  "db_paths_symbols_db base_dir ps = (let ps1 = with_base_dir base_dir ps in (symbols_db ps1, ps1))"

definition db_paths_ensure_dir_exists :: "string \<Rightarrow> path_service \<Rightarrow> string list \<times> path_service" where
  "db_paths_ensure_dir_exists base_dir ps = (let ps1 = with_base_dir base_dir ps in (ensured_directories ps1, ps1))"

section \<open>Admission of model paths\<close>

definition forbidden_dirs :: "string list" where
  "forbidden_dirs = [''/etc'', ''/proc'', ''/sys'', ''/dev'', ''/root'', ''/boot'', ''/bin'', ''/sbin'', ''/usr/bin'', ''/usr/sbin'']"

definition below :: "string \<Rightarrow> string \<Rightarrow> bool" where
  "below dir p \<longleftrightarrow> p = dir \<or> starts_with (dir @ ''/'') p"

definition model_roots :: "os_env \<Rightarrow> path_service \<Rightarrow> string list" where
  "model_roots E ps =
     (if ps_models_dir ps \<noteq> [] then [ps_models_dir ps] else []) @ (if ps_base_dir ps \<noteq> [] then [ps_base_dir ps @ ''/models''] else []) @
     [expand_user E ''~/.denselite/models'', expand_user E ''~/models'', xdg_data_home E @ ''/models'', path_join (oe_cwd E) ''models'']"

definition allow_any_path :: "os_env \<Rightarrow> bool" where
  "allow_any_path E \<longleftrightarrow> oe_getenv E ''DENSELITE_ALLOW_CUSTOM_MODEL_PATHS'' \<in> {Some ''1'', Some ''true''}"

definition is_safe_model_path :: "os_env \<Rightarrow> path_service \<Rightarrow> string \<Rightarrow> bool" where
  "is_safe_model_path E ps path =
     (if path = [] then False
      else case oe_canonical E (expand_user E path) of
        None \<Rightarrow> False
      | Some cs \<Rightarrow>
          if list_ex (\<lambda>f. below f cs) forbidden_dirs then False
          else if allow_any_path E then True
          else list_ex (\<lambda>r. r \<noteq> [] \<and> (case oe_canonical E r of None \<Rightarrow> False | Some crs \<Rightarrow> below crs cs)) (model_roots E ps))"

section \<open>Containment is by path components\<close>

fun components :: "string \<Rightarrow> string list" where
  "components [] = [[]]"
| "components (c # cs) = (if c = CHR ''/'' then [] # components cs else case components cs of x # xs \<Rightarrow> (c # x) # xs | [] \<Rightarrow> [[c]])"

lemma components_Nil [simp]: "components p \<noteq> []"
  by (cases p) (auto split: list.splits)

lemma components_Nil_sym [simp]: "[] \<noteq> components p"
  by (rule components_Nil [symmetric])

lemma starts_with_append: "starts_with a p \<longleftrightarrow> prefix a p"
  by (induction a p rule: starts_with.induct) auto

lemma components_append: "components (a @ CHR ''/'' # b) = components a @ components b"
  by (induction a) (auto split: list.splits)

lemma components_inj: "components a = components b \<Longrightarrow> a = b"
proof (induction a arbitrary: b)
  case Nil
  then show ?case by (cases b) (auto split: if_splits list.splits)
next
  case (Cons c a)
  show ?case
  proof (cases b)
    case Nil
    then show ?thesis using Cons.prems by (auto split: if_splits list.splits)
  next
    case b: (Cons d b')
    have "components a \<noteq> []" "components b' \<noteq> []" by simp_all
    then obtain x xs y ys where "components a = x # xs" "components b' = y # ys" by (meson neq_Nil_conv)
    then show ?thesis using Cons b by (auto split: if_splits)
  qed
qed

lemma components_split: "\<exists>a b. n < length (components p) \<longrightarrow> n = 0 \<or> p = a @ CHR ''/'' # b \<and> components a = take n (components p)"
proof (induction p arbitrary: n)
  case (Cons c p)
  show ?case
  proof (cases "c = CHR ''/''")
    case True
    show ?thesis
    proof (cases n)
      case (Suc m)
      obtain a b where "m < length (components p) \<longrightarrow> m = 0 \<or> p = a @ CHR ''/'' # b \<and> components a = take m (components p)" using Cons by blast
      then show ?thesis
        using True Suc by (cases m) (auto intro: exI [of _ "[]"] exI [of _ "CHR ''/'' # a"])
    qed simp
  next
    case False
    obtain a b where i: "n < length (components p) \<longrightarrow> n = 0 \<or> p = a @ CHR ''/'' # b \<and> components a = take n (components p)" using Cons by blast
    obtain x xs where x: "components p = x # xs" by (meson components_Nil neq_Nil_conv)
    have "n < length (components (c # p)) \<longrightarrow> n = 0 \<or> c # p = (c # a) @ CHR ''/'' # b \<and> components (c # a) = take n (components (c # p))"
      using False i x by (cases n) auto
    then show ?thesis by blast
  qed
qed simp

lemma below_components: "below dir p \<longleftrightarrow> prefix (components dir) (components p)"
proof
  assume "below dir p"
  then show "prefix (components dir) (components p)" by (auto simp: below_def starts_with_append components_append prefix_def)
next
  assume pre: "prefix (components dir) (components p)"
  let ?n = "length (components dir)"
  have t: "take ?n (components p) = components dir" using pre by (auto simp: prefix_def)
  show "below dir p"
  proof (cases "?n < length (components p)")
    case True
    obtain a b where "?n = 0 \<or> p = a @ CHR ''/'' # b \<and> components a = take ?n (components p)" using components_split [of ?n p] True by blast
    then have "p = a @ CHR ''/'' # b" "components a = components dir" using t by auto
    then show ?thesis using components_inj by (auto simp: below_def starts_with_append prefix_def)
  next
    case False
    then have "components p = components dir" using t by simp
    then show ?thesis using components_inj by (auto simp: below_def)
  qed
qed

text \<open>
  The test for model paths is containment by path components: a path is admitted exactly when its canonical form exists, lies in no system directory,
  and lies in one of the model directories unless the override is set; \<open>/models-old\<close> is not in \<open>/models\<close>, and \<open>/etcetera\<close> is not in \<open>/etc\<close>.
\<close>

theorem safe_model_path_contained:
  "is_safe_model_path E ps path \<longleftrightarrow> path \<noteq> [] \<and>
     (\<exists>cs. oe_canonical E (expand_user E path) = Some cs \<and> \<not> list_ex (\<lambda>f. prefix (components f) (components cs)) forbidden_dirs \<and>
        (allow_any_path E \<or> list_ex (\<lambda>r. r \<noteq> [] \<and> (\<exists>crs. oe_canonical E r = Some crs \<and> prefix (components crs) (components cs))) (model_roots E ps)))"
  by (auto simp: is_safe_model_path_def below_components list_ex_iff split: option.splits)

section \<open>Asking for a database path discards the storage settings\<close>

text \<open>
  Asking for the path of a database discards the storage settings: whatever directories were configured, after a call with a base directory the service
  uses the directories below the base directory again.
\<close>

theorem database_path_discards_settings:
  assumes "base \<noteq> []"
  shows "snd (db_paths_memory_db base (sync_from_storage_config E cfg ps)) = set_base_dir base (new_path_service E) \<and>
    ps_models_dir (snd (db_paths_settings_db base (sync_from_storage_config E cfg ps))) = base @ ''/models'' \<and>
    ps_kv_cache_dir (snd (db_paths_symbols_db base (sync_from_storage_config E cfg ps))) = base @ ''/denselite_kv_cache''"
  using assms by (simp add: db_paths_memory_db_def db_paths_settings_db_def db_paths_symbols_db_def with_base_dir_def set_base_dir_def recompute_defaults_def
      sync_from_storage_config_def new_path_service_def Let_def)

definition demo_os :: os_env where
  "demo_os = \<lparr>oe_getenv = [''HOME'' \<mapsto> ''/home/u''], oe_pw_dir = None, oe_cwd = ''/srv'', oe_exists = (\<lambda>p. Some False), oe_readlink = (\<lambda>p. None),
     oe_canonical = Some\<rparr>"

theorem database_path_discards_settings_witness:
  "ps_models_dir (sync_from_storage_config demo_os default_storage_config (new_path_service demo_os)) = ''/home/u/.denselite/models'' \<and>
   ps_models_dir (snd (db_paths_settings_db ''/opt'' (sync_from_storage_config demo_os default_storage_config (new_path_service demo_os)))) = ''/opt/models''"
  using database_path_discards_settings [of "''/opt''" demo_os default_storage_config "new_path_service demo_os"]
  by (simp add: sync_from_storage_config_def default_storage_config_def expand_user_def home_dir_def demo_os_def)

text \<open>A user whose home is \<open>/root\<close> has no admissible model in the home directory, although two of the roots lie there.\<close>

lemma root_home_rejected:
  assumes "oe_getenv E ''HOME'' = Some ''/root''" and "\<And>p. oe_canonical E p = Some p"
  shows "\<not> is_safe_model_path E ps (''~/.denselite/models/'' @ name)"
  using assms by (simp add: is_safe_model_path_def expand_user_def home_dir_def below_def forbidden_dirs_def)

end
