(* ===== verification/Settings.thy ===== *)
theory Settings
  imports Path_Service "HOL-Library.State_Monad"
begin

text \<open>
  The settings (\<open>settings/settings_types.hpp\<close>, \<open>settings_db.cpp\<close>, \<open>settings_manager.cpp\<close>, \<open>settings_dtos.cpp\<close>) and the statements of
  \<open>databases/database_migrator.cpp\<close> that fill their table: a table of texts keyed by module and key, a cache in front of it that is refreshed when another
  connection has written, and the typed configurations that are read from and written to it.

  \<open>sdb_version\<close> is the answer of \<open>PRAGMA data_version\<close>: it changes when another connection commits and stays for the connection's own writes. The table is
  listed in the order of insertion. The methods are computations of the state monad over the manager; \<open>set_env\<close> holds the surroundings: the operating system,
  \<open>std::to_string\<close> and \<open>std::stof\<close> for \<open>float\<close>, whether a writing statement succeeds, and the clock. The manager's locks protect single accesses
  only; the model runs the calls one after the other.
\<close>

section \<open>Configurations\<close>

definition denselite_version :: string where "denselite_version = ''4.0.0''"

record server_config =
  srv_version :: string
  srv_host :: string
  srv_port :: int
  srv_threads :: int
  srv_max_payload_mb :: int
  srv_enable_api_auth :: bool
  srv_api_secret_key :: string
  srv_cors_allowed_origins :: string
  srv_n_batch :: int

definition default_server_config :: server_config where
  "default_server_config =
     \<lparr>srv_version = denselite_version, srv_host = ''127.0.0.1'', srv_port = 9501, srv_threads = 0, srv_max_payload_mb = 32,
      srv_enable_api_auth = True, srv_api_secret_key = [], srv_cors_allowed_origins = [], srv_n_batch = 512\<rparr>"

record resource_config =
  rsc_ram_budget_percent :: f32
  rsc_gpu_budget_percent :: f32
  rsc_headroom_safety_multiplier :: f32
  rsc_max_kv_tokens :: int
  rsc_enable_gpu :: bool
  rsc_vram_budget_mb :: int

definition default_resource_config :: resource_config where
  "default_resource_config =
     \<lparr>rsc_ram_budget_percent = 0x3F000000, rsc_gpu_budget_percent = 0x3F59999A, rsc_headroom_safety_multiplier = 0x3F8CCCCD,
      rsc_max_kv_tokens = 65536, rsc_enable_gpu = True, rsc_vram_budget_mb = 2048\<rparr>"

record inference_config =
  inf_default_temperature :: f32
  inf_default_top_p :: f32
  inf_repeat_penalty :: f32
  inf_repeat_last_n :: int
  inf_top_k :: int
  inf_min_p :: f32
  inf_max_output_tokens :: int
  inf_routing_mode :: string
  inf_enable_tool_dedup :: bool
  inf_context_window :: int
  inf_enable_context_injection :: bool
  inf_system_prompt :: string

definition default_inference_config :: inference_config where
  "default_inference_config =
     \<lparr>inf_default_temperature = 0x3F333333, inf_default_top_p = 0x3F666666, inf_repeat_penalty = 0x3F933333, inf_repeat_last_n = 64,
      inf_top_k = 40, inf_min_p = 0x3D4CCCCD, inf_max_output_tokens = 512, inf_routing_mode = ''modernbert'',
      inf_enable_tool_dedup = True, inf_context_window = 65536, inf_enable_context_injection = True,
      inf_system_prompt = ''You are DenseLite, a fast, concise programming and chat assistant.''\<rparr>"

record multimodal_config =
  mmc_sd_steps :: int
  mmc_sd_cfg_scale :: f32
  mmc_sd_width :: int
  mmc_sd_height :: int
  mmc_sd_negative_prompt :: string
  mmc_whisper_language :: string
  mmc_whisper_beam_size :: int

definition default_multimodal_config :: multimodal_config where
  "default_multimodal_config =
     \<lparr>mmc_sd_steps = 20, mmc_sd_cfg_scale = 0x40F00000, mmc_sd_width = 512, mmc_sd_height = 512,
      mmc_sd_negative_prompt = ''ugly, blurry, distorted, low quality'', mmc_whisper_language = ''auto'', mmc_whisper_beam_size = 5\<rparr>"

record memory_config =
  mec_search_top_k :: int
  mec_similarity_threshold :: f32
  mec_max_snippet_lines :: int
  mec_excluded_paths :: string

definition default_memory_config :: memory_config where
  "default_memory_config =
     \<lparr>mec_search_top_k = 5, mec_similarity_threshold = 0x3F333333, mec_max_snippet_lines = 60,
      mec_excluded_paths = ''vendor,node_modules,storage,.git,build''\<rparr>"

record cloud_config =
  cld_openrouter_api_key :: string
  cld_gemini_api_key :: string
  cld_openai_api_key :: string
  cld_cloud_fallback_enabled :: bool
  cld_cloud_priority :: string

definition default_cloud_config :: cloud_config where
  "default_cloud_config =
     \<lparr>cld_openrouter_api_key = [], cld_gemini_api_key = [], cld_openai_api_key = [], cld_cloud_fallback_enabled = True,
      cld_cloud_priority = ''openrouter,gemini,openai''\<rparr>"

record logging_config =
  lgc_level :: string
  lgc_enable_file_logging :: bool
  lgc_enable_console :: bool
  lgc_log_path :: string

definition default_logging_config :: logging_config where
  "default_logging_config =
     \<lparr>lgc_level = ''INFO'', lgc_enable_file_logging = True, lgc_enable_console = True, lgc_log_path = ''denselite.log''\<rparr>"

section \<open>The table\<close>

record setting_record =
  set_module :: string
  set_key :: string
  set_value :: string
  set_val_type :: string
  set_updated_at :: int

record settings_table =
  sdb_open :: bool
  sdb_rows :: "setting_record list"
  sdb_version :: nat

definition row_id :: "setting_record \<Rightarrow> string \<times> string" where
  "row_id r = (set_module r, set_key r)"

definition bound_setting :: "setting_record \<Rightarrow> setting_record" where
  "bound_setting r = r\<lparr>set_module := c_str (set_module r), set_key := c_str (set_key r), set_value := c_str (set_value r), set_val_type := c_str (set_val_type r)\<rparr>"

definition merge_setting :: "setting_record \<Rightarrow> setting_record \<Rightarrow> setting_record" where
  "merge_setting old new = old\<lparr>set_value := set_value new, set_val_type := set_val_type new, set_updated_at := set_updated_at new\<rparr>"

definition sdb_upsert :: "bool \<Rightarrow> setting_record \<Rightarrow> settings_table \<Rightarrow> bool \<times> settings_table" where
  "sdb_upsert ok r t =
     (if \<not> sdb_open t \<or> \<not> ok then (False, t) else (True, t\<lparr>sdb_rows := upsert row_id merge_setting (bound_setting r) (sdb_rows t)\<rparr>))"

definition sdb_get :: "string \<Rightarrow> string \<Rightarrow> settings_table \<Rightarrow> setting_record option" where
  "sdb_get m k t = (if \<not> sdb_open t then None else find (\<lambda>r. row_id r = (c_str m, c_str k)) (sdb_rows t))"

definition sdb_get_module :: "string \<Rightarrow> settings_table \<Rightarrow> setting_record list option" where
  "sdb_get_module m t = (if \<not> sdb_open t then None else Some (filter (\<lambda>r. set_module r = c_str m) (sdb_rows t)))"

definition sdb_get_all :: "settings_table \<Rightarrow> setting_record list option" where
  "sdb_get_all t = (if \<not> sdb_open t then None else Some (sdb_rows t))"

definition sdb_count :: "settings_table \<Rightarrow> nat" where
  "sdb_count t = (if \<not> sdb_open t then 0 else length (sdb_rows t))"

definition get_data_version :: "settings_table \<Rightarrow> nat" where
  "get_data_version t = (if \<not> sdb_open t then 0 else sdb_version t)"

section \<open>The manager\<close>

record settings_manager =
  stm_db :: settings_table
  stm_cache :: "string \<rightharpoonup> setting_record"
  stm_last_version :: nat
  stm_paths :: path_service

record set_env =
  se_os :: os_env
  se_print :: "f32 \<Rightarrow> string"
  se_stof :: "string \<Rightarrow> f32 option"
  se_ok :: bool
  se_now :: int

definition make_cache_key :: "string \<Rightarrow> string \<Rightarrow> string" where
  "make_cache_key m k = m @ '':'' @ k"

definition load_cache :: "setting_record list \<Rightarrow> string \<rightharpoonup> setting_record" where
  "load_cache rows = fold (\<lambda>r c. c(make_cache_key (set_module r) (set_key r) \<mapsto> r)) rows Map.empty"

definition cached_storage_config :: "(string \<rightharpoonup> setting_record) \<Rightarrow> storage_config" where
  "cached_storage_config c =
     (let get_c = (\<lambda>k d. case c (''storage:'' @ k) of Some r \<Rightarrow> set_value r | None \<Rightarrow> d); sc = default_storage_config
      in \<lparr>sc_models_dir = get_c ''models_dir'' (sc_models_dir sc), sc_data_dir = get_c ''data_dir'' (sc_data_dir sc),
          sc_kv_cache_dir = get_c ''kv_cache_dir'' (sc_kv_cache_dir sc), sc_logs_dir = get_c ''logs_dir'' (sc_logs_dir sc)\<rparr>)"

definition refresh :: "set_env \<Rightarrow> settings_manager \<Rightarrow> settings_manager" where
  "refresh X s =
     (let cur_ver = get_data_version (stm_db s)
      in if cur_ver = stm_last_version s then s
         else case sdb_get_all (stm_db s) of
           None \<Rightarrow> s
         | Some rows \<Rightarrow> s\<lparr>stm_cache := load_cache rows, stm_last_version := cur_ver,
               stm_paths := sync_from_storage_config (se_os X) (cached_storage_config (load_cache rows)) (stm_paths s)\<rparr>)"

definition check_and_reload :: "set_env \<Rightarrow> (settings_manager, unit) state" where
  "check_and_reload X = do { s \<leftarrow> State_Monad.get; State_Monad.set (refresh X s) }"

definition stm_reload :: "settings_manager \<Rightarrow> settings_manager" where
  "stm_reload s =
     (case sdb_get_all (stm_db s) of
        None \<Rightarrow> s
      | Some rows \<Rightarrow> s\<lparr>stm_cache := load_cache rows, stm_last_version := get_data_version (stm_db s)\<rparr>)"

definition cached_value :: "string \<Rightarrow> string \<Rightarrow> settings_manager \<Rightarrow> string option" where
  "cached_value m k s = map_option set_value (stm_cache s (make_cache_key m k))"

definition stm_get_string :: "set_env \<Rightarrow> string \<Rightarrow> string \<Rightarrow> string \<Rightarrow> (settings_manager, string) state" where
  "stm_get_string X m k d = do { check_and_reload X; s \<leftarrow> State_Monad.get;
     State_Monad.return (case cached_value m k s of Some v \<Rightarrow> v | None \<Rightarrow> d) }"

definition stm_get_int :: "set_env \<Rightarrow> string \<Rightarrow> string \<Rightarrow> int \<Rightarrow> (settings_manager, int) state" where
  "stm_get_int X m k d = do { check_and_reload X; s \<leftarrow> State_Monad.get;
     State_Monad.return (case cached_value m k s of Some v \<Rightarrow> (case stoi v of Some i \<Rightarrow> i | None \<Rightarrow> d) | None \<Rightarrow> d) }"

definition stm_get_float :: "set_env \<Rightarrow> string \<Rightarrow> string \<Rightarrow> f32 \<Rightarrow> (settings_manager, f32) state" where
  "stm_get_float X m k d = do { check_and_reload X; s \<leftarrow> State_Monad.get;
     State_Monad.return (case cached_value m k s of Some v \<Rightarrow> (case se_stof X v of Some f \<Rightarrow> f | None \<Rightarrow> d) | None \<Rightarrow> d) }"

definition stm_get_bool :: "set_env \<Rightarrow> string \<Rightarrow> string \<Rightarrow> bool \<Rightarrow> (settings_manager, bool) state" where
  "stm_get_bool X m k d = do { check_and_reload X; s \<leftarrow> State_Monad.get;
     State_Monad.return (case cached_value m k s of Some v \<Rightarrow> v = ''true'' \<or> v = ''1'' | None \<Rightarrow> d) }"

definition write_setting :: "set_env \<Rightarrow> string \<Rightarrow> string \<Rightarrow> string \<Rightarrow> string \<Rightarrow> settings_manager \<Rightarrow> settings_manager" where
  "write_setting X m k v ty s =
     (let r = \<lparr>set_module = m, set_key = k, set_value = v, set_val_type = ty, set_updated_at = se_now X\<rparr>
      in case sdb_upsert (se_ok X) r (stm_db s) of
           (False, db) \<Rightarrow> s\<lparr>stm_db := db\<rparr>
         | (True, db) \<Rightarrow> s\<lparr>stm_db := db, stm_cache := (stm_cache s)(make_cache_key m k \<mapsto> r), stm_last_version := get_data_version db\<rparr>)"

definition update_setting :: "set_env \<Rightarrow> string \<Rightarrow> string \<Rightarrow> string \<Rightarrow> string \<Rightarrow> (settings_manager, unit) state" where
  "update_setting X m k v ty = do { s \<leftarrow> State_Monad.get; State_Monad.set (write_setting X m k v ty s) }"

definition stm_set_string :: "set_env \<Rightarrow> string \<Rightarrow> string \<Rightarrow> string \<Rightarrow> (settings_manager, unit) state" where
  "stm_set_string X m k v = update_setting X m k v ''string''"

definition stm_set_int :: "set_env \<Rightarrow> string \<Rightarrow> string \<Rightarrow> int \<Rightarrow> (settings_manager, unit) state" where
  "stm_set_int X m k v = update_setting X m k (int_digits v) ''int''"

definition stm_set_float :: "set_env \<Rightarrow> string \<Rightarrow> string \<Rightarrow> f32 \<Rightarrow> (settings_manager, unit) state" where
  "stm_set_float X m k v = update_setting X m k (se_print X v) ''float''"

definition stm_set_bool :: "set_env \<Rightarrow> string \<Rightarrow> string \<Rightarrow> bool \<Rightarrow> (settings_manager, unit) state" where
  "stm_set_bool X m k v = update_setting X m k (if v then ''true'' else ''false'') ''bool''"

section \<open>Reading and writing configurations\<close>

text \<open>An empty key of the cloud settings is taken from the environment.\<close>

definition or_env :: "set_env \<Rightarrow> string \<Rightarrow> string \<Rightarrow> string" where
  "or_env X v name = (if v = [] then (case oe_getenv (se_os X) name of Some e \<Rightarrow> e | None \<Rightarrow> v) else v)"

definition sync_paths :: "set_env \<Rightarrow> storage_config \<Rightarrow> (settings_manager, unit) state" where
  "sync_paths X c = do { s \<leftarrow> State_Monad.get; State_Monad.set (s\<lparr>stm_paths := sync_from_storage_config (se_os X) c (stm_paths s)\<rparr>) }"

definition get_server_config :: "set_env \<Rightarrow> (settings_manager, server_config) state" where
  "get_server_config X = do {
     host \<leftarrow> stm_get_string X ''server'' ''host'' (srv_host default_server_config);
     port \<leftarrow> stm_get_int X ''server'' ''port'' (srv_port default_server_config);
     threads \<leftarrow> stm_get_int X ''server'' ''threads'' (srv_threads default_server_config);
     max_payload_mb \<leftarrow> stm_get_int X ''server'' ''max_payload_mb'' (srv_max_payload_mb default_server_config);
     enable_api_auth \<leftarrow> stm_get_bool X ''server'' ''enable_api_auth'' (srv_enable_api_auth default_server_config);
     api_secret_key \<leftarrow> stm_get_string X ''server'' ''api_secret_key'' (srv_api_secret_key default_server_config);
     cors_allowed_origins \<leftarrow> stm_get_string X ''server'' ''cors_allowed_origins'' (srv_cors_allowed_origins default_server_config);
     n_batch \<leftarrow> stm_get_int X ''server'' ''n_batch'' (srv_n_batch default_server_config);
     State_Monad.return \<lparr>srv_version = denselite_version, srv_host = host, srv_port = port, srv_threads = threads,
       srv_max_payload_mb = max_payload_mb, srv_enable_api_auth = enable_api_auth,
       srv_api_secret_key = api_secret_key, srv_cors_allowed_origins = cors_allowed_origins, srv_n_batch = n_batch\<rparr>
   }"

definition set_server_config :: "set_env \<Rightarrow> server_config \<Rightarrow> (settings_manager, unit) state" where
  "set_server_config X c = do {
     stm_set_string X ''server'' ''host'' (srv_host c);
     stm_set_int X ''server'' ''port'' (srv_port c);
     stm_set_int X ''server'' ''threads'' (srv_threads c);
     stm_set_int X ''server'' ''max_payload_mb'' (srv_max_payload_mb c);
     stm_set_bool X ''server'' ''enable_api_auth'' (srv_enable_api_auth c);
     stm_set_string X ''server'' ''api_secret_key'' (srv_api_secret_key c);
     stm_set_string X ''server'' ''cors_allowed_origins'' (srv_cors_allowed_origins c);
     stm_set_int X ''server'' ''n_batch'' (srv_n_batch c)
   }"

definition get_resource_config :: "set_env \<Rightarrow> (settings_manager, resource_config) state" where
  "get_resource_config X = do {
     ram_budget_percent \<leftarrow> stm_get_float X ''resource'' ''ram_budget_percent'' (rsc_ram_budget_percent default_resource_config);
     gpu_budget_percent \<leftarrow> stm_get_float X ''resource'' ''gpu_budget_percent'' (rsc_gpu_budget_percent default_resource_config);
     headroom_safety_multiplier \<leftarrow> stm_get_float X ''resource'' ''headroom_safety_multiplier'' (rsc_headroom_safety_multiplier default_resource_config);
     max_kv_tokens \<leftarrow> stm_get_int X ''resource'' ''max_kv_tokens'' (rsc_max_kv_tokens default_resource_config);
     enable_gpu \<leftarrow> stm_get_bool X ''resource'' ''enable_gpu'' (rsc_enable_gpu default_resource_config);
     vram_budget_mb \<leftarrow> stm_get_int X ''resource'' ''vram_budget_mb'' (rsc_vram_budget_mb default_resource_config);
     State_Monad.return \<lparr>rsc_ram_budget_percent = ram_budget_percent, rsc_gpu_budget_percent = gpu_budget_percent,
       rsc_headroom_safety_multiplier = headroom_safety_multiplier, rsc_max_kv_tokens = max_kv_tokens,
       rsc_enable_gpu = enable_gpu, rsc_vram_budget_mb = vram_budget_mb\<rparr>
   }"

definition set_resource_config :: "set_env \<Rightarrow> resource_config \<Rightarrow> (settings_manager, unit) state" where
  "set_resource_config X c = do {
     stm_set_float X ''resource'' ''ram_budget_percent'' (rsc_ram_budget_percent c);
     stm_set_float X ''resource'' ''gpu_budget_percent'' (rsc_gpu_budget_percent c);
     stm_set_float X ''resource'' ''headroom_safety_multiplier'' (rsc_headroom_safety_multiplier c);
     stm_set_int X ''resource'' ''max_kv_tokens'' (rsc_max_kv_tokens c);
     stm_set_bool X ''resource'' ''enable_gpu'' (rsc_enable_gpu c);
     stm_set_int X ''resource'' ''vram_budget_mb'' (rsc_vram_budget_mb c)
   }"

definition get_inference_config :: "set_env \<Rightarrow> (settings_manager, inference_config) state" where
  "get_inference_config X = do {
     default_temperature \<leftarrow> stm_get_float X ''inference'' ''default_temperature'' (inf_default_temperature default_inference_config);
     default_top_p \<leftarrow> stm_get_float X ''inference'' ''default_top_p'' (inf_default_top_p default_inference_config);
     repeat_penalty \<leftarrow> stm_get_float X ''inference'' ''repeat_penalty'' (inf_repeat_penalty default_inference_config);
     repeat_last_n \<leftarrow> stm_get_int X ''inference'' ''repeat_last_n'' (inf_repeat_last_n default_inference_config);
     top_k \<leftarrow> stm_get_int X ''inference'' ''top_k'' (inf_top_k default_inference_config);
     min_p \<leftarrow> stm_get_float X ''inference'' ''min_p'' (inf_min_p default_inference_config);
     max_output_tokens \<leftarrow> stm_get_int X ''inference'' ''max_output_tokens'' (inf_max_output_tokens default_inference_config);
     needle3_mode \<leftarrow> stm_get_string X ''inference'' ''needle3_mode'' (inf_routing_mode default_inference_config);
     routing_mode \<leftarrow> stm_get_string X ''inference'' ''routing_mode'' needle3_mode;
     enable_tool_dedup \<leftarrow> stm_get_bool X ''inference'' ''enable_tool_dedup'' (inf_enable_tool_dedup default_inference_config);
     context_window \<leftarrow> stm_get_int X ''inference'' ''context_window'' (inf_context_window default_inference_config);
     enable_context_injection \<leftarrow> stm_get_bool X ''inference'' ''enable_context_injection'' (inf_enable_context_injection default_inference_config);
     system_prompt \<leftarrow> stm_get_string X ''inference'' ''system_prompt'' (inf_system_prompt default_inference_config);
     State_Monad.return \<lparr>inf_default_temperature = default_temperature, inf_default_top_p = default_top_p,
       inf_repeat_penalty = repeat_penalty, inf_repeat_last_n = repeat_last_n, inf_top_k = top_k, inf_min_p = min_p,
       inf_max_output_tokens = max_output_tokens, inf_routing_mode = routing_mode,
       inf_enable_tool_dedup = enable_tool_dedup, inf_context_window = context_window,
       inf_enable_context_injection = enable_context_injection, inf_system_prompt = system_prompt\<rparr>
   }"

definition set_inference_config :: "set_env \<Rightarrow> inference_config \<Rightarrow> (settings_manager, unit) state" where
  "set_inference_config X c = do {
     stm_set_float X ''inference'' ''default_temperature'' (inf_default_temperature c);
     stm_set_float X ''inference'' ''default_top_p'' (inf_default_top_p c);
     stm_set_float X ''inference'' ''repeat_penalty'' (inf_repeat_penalty c);
     stm_set_int X ''inference'' ''repeat_last_n'' (inf_repeat_last_n c);
     stm_set_int X ''inference'' ''top_k'' (inf_top_k c);
     stm_set_float X ''inference'' ''min_p'' (inf_min_p c);
     stm_set_int X ''inference'' ''max_output_tokens'' (inf_max_output_tokens c);
     stm_set_string X ''inference'' ''routing_mode'' (inf_routing_mode c);
     stm_set_bool X ''inference'' ''enable_tool_dedup'' (inf_enable_tool_dedup c);
     stm_set_int X ''inference'' ''context_window'' (inf_context_window c);
     stm_set_bool X ''inference'' ''enable_context_injection'' (inf_enable_context_injection c);
     stm_set_string X ''inference'' ''system_prompt'' (inf_system_prompt c)
   }"

definition get_multimodal_config :: "set_env \<Rightarrow> (settings_manager, multimodal_config) state" where
  "get_multimodal_config X = do {
     sd_steps \<leftarrow> stm_get_int X ''multimodal'' ''sd_steps'' (mmc_sd_steps default_multimodal_config);
     sd_cfg_scale \<leftarrow> stm_get_float X ''multimodal'' ''sd_cfg_scale'' (mmc_sd_cfg_scale default_multimodal_config);
     sd_width \<leftarrow> stm_get_int X ''multimodal'' ''sd_width'' (mmc_sd_width default_multimodal_config);
     sd_height \<leftarrow> stm_get_int X ''multimodal'' ''sd_height'' (mmc_sd_height default_multimodal_config);
     sd_negative_prompt \<leftarrow> stm_get_string X ''multimodal'' ''sd_negative_prompt'' (mmc_sd_negative_prompt default_multimodal_config);
     whisper_language \<leftarrow> stm_get_string X ''multimodal'' ''whisper_language'' (mmc_whisper_language default_multimodal_config);
     whisper_beam_size \<leftarrow> stm_get_int X ''multimodal'' ''whisper_beam_size'' (mmc_whisper_beam_size default_multimodal_config);
     State_Monad.return \<lparr>mmc_sd_steps = sd_steps, mmc_sd_cfg_scale = sd_cfg_scale, mmc_sd_width = sd_width, mmc_sd_height = sd_height,
       mmc_sd_negative_prompt = sd_negative_prompt, mmc_whisper_language = whisper_language,
       mmc_whisper_beam_size = whisper_beam_size\<rparr>
   }"

definition set_multimodal_config :: "set_env \<Rightarrow> multimodal_config \<Rightarrow> (settings_manager, unit) state" where
  "set_multimodal_config X c = do {
     stm_set_int X ''multimodal'' ''sd_steps'' (mmc_sd_steps c);
     stm_set_float X ''multimodal'' ''sd_cfg_scale'' (mmc_sd_cfg_scale c);
     stm_set_int X ''multimodal'' ''sd_width'' (mmc_sd_width c);
     stm_set_int X ''multimodal'' ''sd_height'' (mmc_sd_height c);
     stm_set_string X ''multimodal'' ''sd_negative_prompt'' (mmc_sd_negative_prompt c);
     stm_set_string X ''multimodal'' ''whisper_language'' (mmc_whisper_language c);
     stm_set_int X ''multimodal'' ''whisper_beam_size'' (mmc_whisper_beam_size c)
   }"

definition get_memory_config :: "set_env \<Rightarrow> (settings_manager, memory_config) state" where
  "get_memory_config X = do {
     search_top_k \<leftarrow> stm_get_int X ''memory'' ''search_top_k'' (mec_search_top_k default_memory_config);
     similarity_threshold \<leftarrow> stm_get_float X ''memory'' ''similarity_threshold'' (mec_similarity_threshold default_memory_config);
     max_snippet_lines \<leftarrow> stm_get_int X ''memory'' ''max_snippet_lines'' (mec_max_snippet_lines default_memory_config);
     excluded_paths \<leftarrow> stm_get_string X ''memory'' ''excluded_paths'' (mec_excluded_paths default_memory_config);
     State_Monad.return \<lparr>mec_search_top_k = search_top_k, mec_similarity_threshold = similarity_threshold,
       mec_max_snippet_lines = max_snippet_lines, mec_excluded_paths = excluded_paths\<rparr>
   }"

definition set_memory_config :: "set_env \<Rightarrow> memory_config \<Rightarrow> (settings_manager, unit) state" where
  "set_memory_config X c = do {
     stm_set_int X ''memory'' ''search_top_k'' (mec_search_top_k c);
     stm_set_float X ''memory'' ''similarity_threshold'' (mec_similarity_threshold c);
     stm_set_int X ''memory'' ''max_snippet_lines'' (mec_max_snippet_lines c);
     stm_set_string X ''memory'' ''excluded_paths'' (mec_excluded_paths c)
   }"

definition get_cloud_config :: "set_env \<Rightarrow> (settings_manager, cloud_config) state" where
  "get_cloud_config X = do {
     openrouter_api_key \<leftarrow> stm_get_string X ''cloud'' ''openrouter_api_key'' (cld_openrouter_api_key default_cloud_config);
     gemini_api_key \<leftarrow> stm_get_string X ''cloud'' ''gemini_api_key'' (cld_gemini_api_key default_cloud_config);
     openai_api_key \<leftarrow> stm_get_string X ''cloud'' ''openai_api_key'' (cld_openai_api_key default_cloud_config);
     cloud_fallback_enabled \<leftarrow> stm_get_bool X ''cloud'' ''cloud_fallback_enabled'' (cld_cloud_fallback_enabled default_cloud_config);
     cloud_priority \<leftarrow> stm_get_string X ''cloud'' ''cloud_priority'' (cld_cloud_priority default_cloud_config);
     State_Monad.return \<lparr>cld_openrouter_api_key = or_env X openrouter_api_key ''OPENROUTER_API_KEY'',
       cld_gemini_api_key = or_env X gemini_api_key ''GEMINI_API_KEY'',
       cld_openai_api_key = or_env X openai_api_key ''OPENAI_API_KEY'',
       cld_cloud_fallback_enabled = cloud_fallback_enabled, cld_cloud_priority = cloud_priority\<rparr>
   }"

definition set_cloud_config :: "set_env \<Rightarrow> cloud_config \<Rightarrow> (settings_manager, unit) state" where
  "set_cloud_config X c = do {
     stm_set_string X ''cloud'' ''openrouter_api_key'' (cld_openrouter_api_key c);
     stm_set_string X ''cloud'' ''gemini_api_key'' (cld_gemini_api_key c);
     stm_set_string X ''cloud'' ''openai_api_key'' (cld_openai_api_key c);
     stm_set_bool X ''cloud'' ''cloud_fallback_enabled'' (cld_cloud_fallback_enabled c);
     stm_set_string X ''cloud'' ''cloud_priority'' (cld_cloud_priority c)
   }"

definition get_logging_config :: "set_env \<Rightarrow> (settings_manager, logging_config) state" where
  "get_logging_config X = do {
     level \<leftarrow> stm_get_string X ''logging'' ''level'' (lgc_level default_logging_config);
     enable_file_logging \<leftarrow> stm_get_bool X ''logging'' ''enable_file_logging'' (lgc_enable_file_logging default_logging_config);
     enable_console \<leftarrow> stm_get_bool X ''logging'' ''enable_console'' (lgc_enable_console default_logging_config);
     log_path \<leftarrow> stm_get_string X ''logging'' ''log_path'' (lgc_log_path default_logging_config);
     State_Monad.return \<lparr>lgc_level = level, lgc_enable_file_logging = enable_file_logging, lgc_enable_console = enable_console,
       lgc_log_path = log_path\<rparr>
   }"

definition set_logging_config :: "set_env \<Rightarrow> logging_config \<Rightarrow> (settings_manager, unit) state" where
  "set_logging_config X c = do {
     stm_set_string X ''logging'' ''level'' (lgc_level c);
     stm_set_bool X ''logging'' ''enable_file_logging'' (lgc_enable_file_logging c);
     stm_set_bool X ''logging'' ''enable_console'' (lgc_enable_console c);
     stm_set_string X ''logging'' ''log_path'' (lgc_log_path c)
   }"

definition get_storage_config :: "set_env \<Rightarrow> (settings_manager, storage_config) state" where
  "get_storage_config X = do {
     models_dir \<leftarrow> stm_get_string X ''storage'' ''models_dir'' (sc_models_dir default_storage_config);
     data_dir \<leftarrow> stm_get_string X ''storage'' ''data_dir'' (sc_data_dir default_storage_config);
     kv_cache_dir \<leftarrow> stm_get_string X ''storage'' ''kv_cache_dir'' (sc_kv_cache_dir default_storage_config);
     logs_dir \<leftarrow> stm_get_string X ''storage'' ''logs_dir'' (sc_logs_dir default_storage_config);
     State_Monad.return \<lparr>sc_models_dir = models_dir, sc_data_dir = data_dir, sc_kv_cache_dir = kv_cache_dir, sc_logs_dir = logs_dir\<rparr>
   }"

definition set_storage_config :: "set_env \<Rightarrow> storage_config \<Rightarrow> (settings_manager, unit) state" where
  "set_storage_config X c = do {
     stm_set_string X ''storage'' ''models_dir'' (sc_models_dir c);
     stm_set_string X ''storage'' ''data_dir'' (sc_data_dir c);
     stm_set_string X ''storage'' ''kv_cache_dir'' (sc_kv_cache_dir c);
     stm_set_string X ''storage'' ''logs_dir'' (sc_logs_dir c);
     sync_paths X c
   }"

section \<open>Start\<close>

definition set_all_defaults :: "set_env \<Rightarrow> (settings_manager, unit) state" where
  "set_all_defaults X = do {
     set_server_config X default_server_config;
     set_resource_config X default_resource_config;
     set_inference_config X default_inference_config;
     set_multimodal_config X default_multimodal_config;
     set_memory_config X default_memory_config;
     set_cloud_config X default_cloud_config;
     set_logging_config X default_logging_config;
     set_storage_config X default_storage_config
   }"

definition seed_defaults_if_empty :: "set_env \<Rightarrow> (settings_manager, unit) state" where
  "seed_defaults_if_empty X = do {
     s \<leftarrow> State_Monad.get;
     if 0 < sdb_count (stm_db s) then State_Monad.return () else set_all_defaults X
   }"

text \<open>\<open>init\<close>: the table as the opened file holds it, or \<open>None\<close> when opening fails.\<close>

definition stm_init :: "set_env \<Rightarrow> settings_table option \<Rightarrow> (settings_manager, bool) state" where
  "stm_init X opened =
     (case opened of
        None \<Rightarrow> do { s \<leftarrow> State_Monad.get; State_Monad.set (s\<lparr>stm_db := (stm_db s)\<lparr>sdb_open := False\<rparr>\<rparr>); State_Monad.return False }
      | Some db \<Rightarrow> do {
          s0 \<leftarrow> State_Monad.get;
          State_Monad.set (s0\<lparr>stm_db := db\<rparr>);
          seed_defaults_if_empty X;
          s1 \<leftarrow> State_Monad.get;
          State_Monad.set ((stm_reload s1)\<lparr>stm_last_version := get_data_version (stm_db s1)\<rparr>);
          sc \<leftarrow> get_storage_config X;
          sync_paths X sc;
          State_Monad.return True
        })"

definition new_settings_manager :: "path_service \<Rightarrow> settings_manager" where
  "new_settings_manager ps =
     \<lparr>stm_db = \<lparr>sdb_open = False, sdb_rows = [], sdb_version = 0\<rparr>, stm_cache = Map.empty, stm_last_version = 0, stm_paths = ps\<rparr>"

section \<open>The default rows\<close>

definition default_setting_rows :: "(string \<times> string \<times> string \<times> string) list" where
  "default_setting_rows =
     [(''server'', ''host'', ''127.0.0.1'', ''string''), (''server'', ''port'', ''9501'', ''int''), (''server'', ''threads'', ''0'', ''int''),
      (''server'', ''max_payload_mb'', ''32'', ''int''), (''server'', ''enable_api_auth'', ''true'', ''bool''),
      (''server'', ''api_secret_key'', [], ''string''), (''server'', ''cors_allowed_origins'', [], ''string''),
      (''server'', ''n_batch'', ''512'', ''int''), (''resource'', ''ram_budget_percent'', ''0.50'', ''float''),
      (''resource'', ''gpu_budget_percent'', ''0.85'', ''float''), (''resource'', ''headroom_safety_multiplier'', ''1.10'', ''float''),
      (''resource'', ''max_kv_tokens'', ''65536'', ''int''), (''resource'', ''enable_gpu'', ''true'', ''bool''),
      (''resource'', ''vram_budget_mb'', ''2048'', ''int''), (''inference'', ''default_temperature'', ''0.7'', ''float''),
      (''inference'', ''default_top_p'', ''0.9'', ''float''), (''inference'', ''repeat_penalty'', ''1.15'', ''float''),
      (''inference'', ''repeat_last_n'', ''64'', ''int''), (''inference'', ''top_k'', ''40'', ''int''),
      (''inference'', ''min_p'', ''0.05'', ''float''), (''inference'', ''max_output_tokens'', ''512'', ''int''),
      (''inference'', ''routing_mode'', ''modernbert'', ''string''), (''inference'', ''enable_tool_dedup'', ''true'', ''bool''),
      (''inference'', ''context_window'', ''65536'', ''int''), (''inference'', ''enable_context_injection'', ''true'', ''bool''),
      (''inference'', ''system_prompt'', ''You are DenseLite, a fast, concise programming and chat assistant.'', ''string''),
      (''multimodal'', ''sd_steps'', ''4'', ''int''), (''multimodal'', ''sd_cfg_scale'', ''1.5'', ''float''),
      (''multimodal'', ''sd_width'', ''1024'', ''int''), (''multimodal'', ''sd_height'', ''1024'', ''int''),
      (''multimodal'', ''sd_negative_prompt'', ''ugly, blurry, distorted, low quality'', ''string''),
      (''multimodal'', ''whisper_language'', ''auto'', ''string''), (''multimodal'', ''whisper_beam_size'', ''5'', ''int''),
      (''memory'', ''search_top_k'', ''5'', ''int''), (''memory'', ''similarity_threshold'', ''0.70'', ''float''),
      (''memory'', ''max_snippet_lines'', ''60'', ''int''),
      (''memory'', ''excluded_paths'', ''vendor,node_modules,storage,.git,build'', ''string''),
      (''cloud'', ''openrouter_api_key'', [], ''string''), (''cloud'', ''gemini_api_key'', [], ''string''),
      (''cloud'', ''openai_api_key'', [], ''string''), (''cloud'', ''cloud_fallback_enabled'', ''true'', ''bool''),
      (''cloud'', ''cloud_priority'', ''openrouter,gemini,openai'', ''string''), (''logging'', ''level'', ''INFO'', ''string''),
      (''logging'', ''enable_file_logging'', ''true'', ''bool''), (''logging'', ''enable_console'', ''true'', ''bool''),
      (''logging'', ''log_path'', ''denselite.log'', ''string''), (''storage'', ''models_dir'', ''~/.denselite/models'', ''string''),
      (''storage'', ''data_dir'', ''~/.denselite/data'', ''string''), (''storage'', ''kv_cache_dir'', ''~/.denselite/kv_cache'', ''string''),
      (''storage'', ''logs_dir'', ''~/.denselite/logs'', ''string'')]"

definition default_settings :: "setting_record list" where
  "default_settings =
     map (\<lambda>(m, k, v, ty). \<lparr>set_module = m, set_key = k, set_value = v, set_val_type = ty, set_updated_at = 1700000000000\<rparr>) default_setting_rows"

text \<open>\<open>INSERT OR IGNORE\<close> keeps a row that is there.\<close>

definition bootstrap_settings :: "setting_record list \<Rightarrow> setting_record list" where
  "bootstrap_settings rows = fold (upsert row_id (\<lambda>old new. old)) default_settings rows"

definition reset_settings_to_defaults :: "bool \<Rightarrow> settings_table \<Rightarrow> bool \<times> settings_table" where
  "reset_settings_to_defaults ok t =
     (if \<not> ok then (False, t) else (True, t\<lparr>sdb_rows := default_settings, sdb_version := Suc (sdb_version t)\<rparr>))"

section \<open>Single calls\<close>

named_theorems run_settings \<open>the calls of the manager as functions of its state\<close>

lemma refresh_idem [simp]: "refresh X (refresh X s) = refresh X s"
  by (simp add: refresh_def Let_def get_data_version_def split: option.split)

lemma run_check_and_reload [run_settings]: "run_state (check_and_reload X) s = ((), refresh X s)"
  by (simp add: check_and_reload_def)

lemma run_get_string [run_settings]:
  "run_state (stm_get_string X m k d) s = (case cached_value m k (refresh X s) of Some v \<Rightarrow> v | None \<Rightarrow> d, refresh X s)"
  by (simp add: stm_get_string_def run_check_and_reload)

lemma run_get_int [run_settings]:
  "run_state (stm_get_int X m k d) s =
     (case cached_value m k (refresh X s) of Some v \<Rightarrow> (case stoi v of Some i \<Rightarrow> i | None \<Rightarrow> d) | None \<Rightarrow> d, refresh X s)"
  by (simp add: stm_get_int_def run_check_and_reload)

lemma run_get_float [run_settings]:
  "run_state (stm_get_float X m k d) s =
     (case cached_value m k (refresh X s) of Some v \<Rightarrow> (case se_stof X v of Some f \<Rightarrow> f | None \<Rightarrow> d) | None \<Rightarrow> d, refresh X s)"
  by (simp add: stm_get_float_def run_check_and_reload)

lemma run_get_bool [run_settings]:
  "run_state (stm_get_bool X m k d) s = (case cached_value m k (refresh X s) of Some v \<Rightarrow> v = ''true'' \<or> v = ''1'' | None \<Rightarrow> d, refresh X s)"
  by (simp add: stm_get_bool_def run_check_and_reload)

lemma run_update_setting [run_settings]: "run_state (update_setting X m k v ty) s = ((), write_setting X m k v ty s)"
  by (simp add: update_setting_def)

interpretation settings_rows: keyed_table row_id merge_setting
  by unfold_locales (simp add: row_id_def merge_setting_def)

interpretation seeded_rows: keyed_table row_id "\<lambda>old new. old"
  by unfold_locales simp

section \<open>The table as a map\<close>

text \<open>The contents of the table: what it says of every module and key.\<close>

definition settings_map :: "setting_record list \<Rightarrow> string \<times> string \<rightharpoonup> string" where
  "settings_map rows i = map_option set_value (find (\<lambda>r. row_id r = i) rows)"

text \<open>No module name has a colon; every module and key has one row.\<close>

definition table_ok :: "setting_record list \<Rightarrow> bool" where
  "table_ok rows \<longleftrightarrow> distinct (map row_id rows) \<and> list_all (\<lambda>r. CHR '':'' \<notin> set (set_module r)) rows"

definition plain_text :: "string \<Rightarrow> bool" where
  "plain_text s \<longleftrightarrow> CHR 0x00 \<notin> set s"

lemma plain_c_str [simp]: "plain_text s \<Longrightarrow> c_str s = s"
  by (simp add: plain_text_def c_str_id)

lemma make_cache_key_inject:
  assumes "CHR '':'' \<notin> set m" and "CHR '':'' \<notin> set m'"
  shows "make_cache_key m k = make_cache_key m' k' \<longleftrightarrow> m = m' \<and> k = k'"
  using assms
proof (induction m arbitrary: m')
  case Nil
  then show ?case by (cases m') (auto simp: make_cache_key_def)
next
  case (Cons c m)
  then show ?case by (cases m') (auto simp: make_cache_key_def)
qed

lemma load_cache_find:
  assumes "table_ok rows" and "CHR '':'' \<notin> set m"
  shows "load_cache rows (make_cache_key m k) = find (\<lambda>r. row_id r = (m, k)) rows"
proof -
  have "fold (\<lambda>r c. c(make_cache_key (set_module r) (set_key r) \<mapsto> r)) rows c0 (make_cache_key m k) =
      (case find (\<lambda>r. row_id r = (m, k)) rows of None \<Rightarrow> c0 (make_cache_key m k) | Some r \<Rightarrow> Some r)" for c0
    using assms(1)
  proof (induction rows arbitrary: c0)
    case (Cons r rows)
    have i: "make_cache_key m k = make_cache_key (set_module r) (set_key r) \<longleftrightarrow> row_id r = (m, k)"
      using Cons.prems assms(2) by (auto simp: table_ok_def row_id_def make_cache_key_inject)
    have n: "find (\<lambda>r. row_id r = (m, k)) rows = None" if "row_id r = (m, k)"
      using Cons.prems that by (simp add: table_ok_def find_None_iff) (metis imageI)
    show ?case using Cons i n by (auto simp: table_ok_def)
  qed simp
  then show ?thesis by (simp add: load_cache_def split: option.split)
qed

lemma table_ok_upsert:
  assumes "table_ok rows" and "CHR '':'' \<notin> set m" and "plain_text m"
  shows "table_ok (upsert row_id merge_setting (bound_setting \<lparr>set_module = m, set_key = k, set_value = v, set_val_type = ty, set_updated_at = now\<rparr>) rows)"
proof -
  let ?r = "bound_setting \<lparr>set_module = m, set_key = k, set_value = v, set_val_type = ty, set_updated_at = now\<rparr>"
  have m: "set_module ?r = m" using assms(3) by (simp add: bound_setting_def)
  have ids: "fst ` set (map row_id (upsert row_id merge_setting ?r rows)) = insert (set_module ?r) (set_module ` set rows)"
    unfolding settings_rows.upsert_keys by (auto simp: row_id_def image_iff)
  have "set_module ` set (upsert row_id merge_setting ?r rows) = insert m (set_module ` set rows)"
    using ids m by (simp add: row_id_def image_image)
  then have "CHR '':'' \<notin> set (set_module r)" if "r \<in> set (upsert row_id merge_setting ?r rows)" for r
    using that assms(1,2) imageI [OF that, of set_module] by (auto simp: table_ok_def list_all_iff)
  then show ?thesis using assms(1) settings_rows.upsert_distinct by (auto simp: table_ok_def list_all_iff)
qed

lemma settings_map_upsert:
  assumes "plain_text m" and "plain_text k" and "plain_text v"
  shows "settings_map (upsert row_id merge_setting (bound_setting \<lparr>set_module = m, set_key = k, set_value = v, set_val_type = ty, set_updated_at = now\<rparr>) rows) =
    (settings_map rows)((m, k) \<mapsto> v)"
proof (rule ext)
  fix i
  have "row_id (bound_setting \<lparr>set_module = m, set_key = k, set_value = v, set_val_type = ty, set_updated_at = now\<rparr>) = (m, k)"
    using assms by (simp add: row_id_def bound_setting_def)
  then show "settings_map (upsert row_id merge_setting (bound_setting \<lparr>set_module = m, set_key = k, set_value = v, set_val_type = ty, set_updated_at = now\<rparr>) rows) i =
      ((settings_map rows)((m, k) \<mapsto> v)) i"
    unfolding settings_map_def settings_rows.find_upsert using assms by (auto simp: merge_setting_def bound_setting_def split: option.splits)
qed

section \<open>Reads and writes in sequence\<close>

text \<open>Calls of this process and commits of other connections, which may leave any well-formed table.\<close>

datatype settings_event = Own_Set string string string string | Own_Get string string | Foreign_Commit "setting_record list"

fun run_event :: "set_env \<Rightarrow> settings_event \<Rightarrow> settings_manager \<Rightarrow> settings_manager" where
  "run_event X (Own_Set m k v ty) s = snd (run_state (update_setting X m k v ty) s)"
| "run_event X (Own_Get m k) s = snd (run_state (stm_get_string X m k []) s)"
| "run_event X (Foreign_Commit rows) s = s\<lparr>stm_db := (stm_db s)\<lparr>sdb_rows := rows, sdb_version := Suc (sdb_version (stm_db s))\<rparr>\<rparr>"

text \<open>What the settings are after an event.\<close>

fun spec_event :: "settings_event \<Rightarrow> (string \<times> string \<rightharpoonup> string) \<Rightarrow> (string \<times> string \<rightharpoonup> string)" where
  "spec_event (Own_Set m k v ty) M = M((m, k) \<mapsto> v)"
| "spec_event (Own_Get m k) M = M"
| "spec_event (Foreign_Commit rows) M = settings_map rows"

fun event_ok :: "settings_event \<Rightarrow> bool" where
  "event_ok (Own_Set m k v ty) \<longleftrightarrow> CHR '':'' \<notin> set m \<and> plain_text m \<and> plain_text k \<and> plain_text v"
| "event_ok (Own_Get m k) \<longleftrightarrow> True"
| "event_ok (Foreign_Commit rows) \<longleftrightarrow> table_ok rows"

text \<open>No setting is written between a commit of another connection and the next read.\<close>

fun disciplined :: "bool \<Rightarrow> settings_event list \<Rightarrow> bool" where
  "disciplined stale [] \<longleftrightarrow> True"
| "disciplined stale (Own_Set m k v ty # es) \<longleftrightarrow> \<not> stale \<and> disciplined False es"
| "disciplined stale (Own_Get m k # es) \<longleftrightarrow> disciplined False es"
| "disciplined stale (Foreign_Commit rows # es) \<longleftrightarrow> disciplined True es"

text \<open>The cache agrees with the table, or the version tells that it may not; a version that was seen is never in the future.\<close>

definition coherent :: "bool \<Rightarrow> settings_manager \<Rightarrow> bool" where
  "coherent stale s \<longleftrightarrow> sdb_open (stm_db s) \<and> table_ok (sdb_rows (stm_db s)) \<and> stm_last_version s \<le> sdb_version (stm_db s) \<and>
     (stale \<or> stm_last_version s = sdb_version (stm_db s)) \<and>
     (stm_last_version s = sdb_version (stm_db s) \<longrightarrow>
        (\<forall>m k. CHR '':'' \<notin> set m \<longrightarrow> cached_value m k s = settings_map (sdb_rows (stm_db s)) (m, k)))"

lemma refresh_db [simp]: "stm_db (refresh X s) = stm_db s"
  by (simp add: refresh_def Let_def split: option.split)

lemma coherent_refresh: "coherent stale s \<Longrightarrow> coherent False (refresh X s)"
  by (auto simp: coherent_def refresh_def Let_def get_data_version_def sdb_get_all_def cached_value_def settings_map_def load_cache_find)

lemma coherent_write:
  assumes "coherent False s" and "se_ok X" and "CHR '':'' \<notin> set m" "plain_text m" "plain_text k" "plain_text v"
  shows "coherent False (write_setting X m k v ty s)" "settings_map (sdb_rows (stm_db (write_setting X m k v ty s))) = (settings_map (sdb_rows (stm_db s)))((m, k) \<mapsto> v)"
proof -
  let ?r = "\<lparr>set_module = m, set_key = k, set_value = v, set_val_type = ty, set_updated_at = se_now X\<rparr>"
  have o: "sdb_open (stm_db s)" using assms(1) by (simp add: coherent_def)
  have w: "write_setting X m k v ty s = s\<lparr>stm_db := (stm_db s)\<lparr>sdb_rows := upsert row_id merge_setting (bound_setting ?r) (sdb_rows (stm_db s))\<rparr>,
      stm_cache := (stm_cache s)(make_cache_key m k \<mapsto> ?r), stm_last_version := sdb_version (stm_db s)\<rparr>"
    using o assms(2) by (simp add: write_setting_def sdb_upsert_def get_data_version_def Let_def)
  show m: "settings_map (sdb_rows (stm_db (write_setting X m k v ty s))) = (settings_map (sdb_rows (stm_db s)))((m, k) \<mapsto> v)"
    unfolding w using settings_map_upsert [OF assms(4-6)] by simp
  have c: "cached_value m' k' (write_setting X m k v ty s) = (if (m', k') = (m, k) then Some v else cached_value m' k' s)" if "CHR '':'' \<notin> set m'" for m' k'
    unfolding w using make_cache_key_inject [OF that assms(3)] by (auto simp: cached_value_def)
  have t: "table_ok (sdb_rows (stm_db (write_setting X m k v ty s)))"
    unfolding w using table_ok_upsert [OF _ assms(3,4)] assms(1) by (simp add: coherent_def)
  have v: "stm_last_version (write_setting X m k v ty s) = sdb_version (stm_db (write_setting X m k v ty s))" "sdb_open (stm_db (write_setting X m k v ty s))"
    using o by (simp_all add: w)
  show "coherent False (write_setting X m k v ty s)"
    unfolding coherent_def m using t v c assms(1) by (simp add: coherent_def)
qed

lemma coherent_events:
  assumes "coherent stale s" and "list_all event_ok es" and "disciplined stale es" and "se_ok X"
  shows "\<exists>stale'. coherent stale' (fold (run_event X) es s) \<and>
    settings_map (sdb_rows (stm_db (fold (run_event X) es s))) = fold spec_event es (settings_map (sdb_rows (stm_db s)))"
  using assms(1-3)
proof (induction es arbitrary: s stale)
  case Nil
  then show ?case by auto
next
  case (Cons e es)
  show ?case
  proof (cases e)
    case (Own_Set m k v ty)
    have "coherent False s" using Cons.prems Own_Set by (cases stale) auto
    then show ?thesis using Cons.IH [of False "run_event X e s"] Cons.prems Own_Set coherent_write [of s X m k v ty] assms(4) by (simp add: run_update_setting)
  next
    case (Own_Get m k)
    then show ?thesis using Cons.IH [of False "run_event X e s"] Cons.prems coherent_refresh [of stale s X] by (simp add: run_get_string)
  next
    case (Foreign_Commit rows)
    have "coherent True (run_event X e s)" using Cons.prems Foreign_Commit by (simp add: coherent_def)
    then show ?thesis using Cons.IH [of True "run_event X e s"] Cons.prems Foreign_Commit by simp
  qed
qed

text \<open>
  C23. A setting that is read is the current one: from a state in which the cache agrees with the table, through any sequence of reads, writes and commits of
  other connections in which no own write falls between a foreign commit and the next read, \<open>get_string\<close> answers what the settings are, by the order of
  the writes, and the default where there is no such setting.
\<close>

theorem settings_read_current:
  assumes "coherent False s" and "list_all event_ok es" and "disciplined False es" and "se_ok X" and "CHR '':'' \<notin> set m"
  shows "fst (run_state (stm_get_string X m k d) (fold (run_event X) es s)) =
    (case fold spec_event es (settings_map (sdb_rows (stm_db s))) (m, k) of Some v \<Rightarrow> v | None \<Rightarrow> d)"
proof -
  let ?s = "fold (run_event X) es s"
  obtain stale where c: "coherent stale ?s" "settings_map (sdb_rows (stm_db ?s)) = fold spec_event es (settings_map (sdb_rows (stm_db s)))"
    using coherent_events [OF assms(1-4)] by blast
  have "coherent False (refresh X ?s)" using coherent_refresh [OF c(1)] .
  then have "cached_value m k (refresh X ?s) = settings_map (sdb_rows (stm_db ?s)) (m, k)" using assms(5) by (simp add: coherent_def)
  then show ?thesis using c(2) by (simp add: run_get_string)
qed

text \<open>
  An own write hides a foreign one: when another connection commits and this process writes any other setting before it reads, the manager takes the
  new version for seen and goes on answering the old value, whatever the other connection stored.
\<close>

theorem own_write_hides_foreign_commit:
  assumes "coherent False s" and "se_ok X" and "CHR '':'' \<notin> set m" and "CHR '':'' \<notin> set m2" and "(m, k) \<noteq> (m2, k2)"
  shows "fst (run_state (stm_get_string X m k d) (run_event X (Own_Set m2 k2 v ty) (run_event X (Foreign_Commit rows) s))) =
    (case settings_map (sdb_rows (stm_db s)) (m, k) of Some v \<Rightarrow> v | None \<Rightarrow> d)"
proof -
  let ?s1 = "run_event X (Foreign_Commit rows) s"
  let ?s2 = "write_setting X m2 k2 v ty ?s1"
  have o: "sdb_open (stm_db ?s1)" using assms(1) by (simp add: coherent_def)
  have r: "refresh X ?s2 = ?s2"
    using o assms(2) by (simp add: refresh_def write_setting_def sdb_upsert_def get_data_version_def Let_def)
  have "make_cache_key m k \<noteq> make_cache_key m2 k2" using make_cache_key_inject [OF assms(3,4)] assms(5) by auto
  then have "cached_value m k ?s2 = cached_value m k s"
    using o assms(2) by (simp add: cached_value_def write_setting_def sdb_upsert_def Let_def)
  also have "\<dots> = settings_map (sdb_rows (stm_db s)) (m, k)" using assms(1,3) by (simp add: coherent_def)
  finally show ?thesis unfolding run_event.simps(1) run_update_setting snd_conv run_get_string r by simp
qed

section \<open>Configurations survive a restart\<close>

definition write_all :: "set_env \<Rightarrow> string \<Rightarrow> (string \<times> string \<times> string) list \<Rightarrow> settings_manager \<Rightarrow> settings_manager" where
  "write_all X m ts s = fold (\<lambda>(k, v, ty). write_setting X m k v ty) ts s"

definition bool_text :: "bool \<Rightarrow> string" where
  "bool_text b = (if b then ''true'' else ''false'')"

text \<open>The texts that a configuration is stored as.\<close>

definition server_texts :: "set_env \<Rightarrow> server_config \<Rightarrow> (string \<times> string \<times> string) list" where
  "server_texts X c =
     [(''host'', srv_host c, ''string''), (''port'', int_digits (srv_port c), ''int''), (''threads'', int_digits (srv_threads c), ''int''),
      (''max_payload_mb'', int_digits (srv_max_payload_mb c), ''int''), (''enable_api_auth'', bool_text (srv_enable_api_auth c), ''bool''),
      (''api_secret_key'', srv_api_secret_key c, ''string''), (''cors_allowed_origins'', srv_cors_allowed_origins c, ''string''),
      (''n_batch'', int_digits (srv_n_batch c), ''int'')]"

definition resource_texts :: "set_env \<Rightarrow> resource_config \<Rightarrow> (string \<times> string \<times> string) list" where
  "resource_texts X c =
     [(''ram_budget_percent'', se_print X (rsc_ram_budget_percent c), ''float''),
      (''gpu_budget_percent'', se_print X (rsc_gpu_budget_percent c), ''float''),
      (''headroom_safety_multiplier'', se_print X (rsc_headroom_safety_multiplier c), ''float''),
      (''max_kv_tokens'', int_digits (rsc_max_kv_tokens c), ''int''), (''enable_gpu'', bool_text (rsc_enable_gpu c), ''bool''),
      (''vram_budget_mb'', int_digits (rsc_vram_budget_mb c), ''int'')]"

definition inference_texts :: "set_env \<Rightarrow> inference_config \<Rightarrow> (string \<times> string \<times> string) list" where
  "inference_texts X c =
     [(''default_temperature'', se_print X (inf_default_temperature c), ''float''),
      (''default_top_p'', se_print X (inf_default_top_p c), ''float''), (''repeat_penalty'', se_print X (inf_repeat_penalty c), ''float''),
      (''repeat_last_n'', int_digits (inf_repeat_last_n c), ''int''), (''top_k'', int_digits (inf_top_k c), ''int''),
      (''min_p'', se_print X (inf_min_p c), ''float''), (''max_output_tokens'', int_digits (inf_max_output_tokens c), ''int''),
      (''routing_mode'', inf_routing_mode c, ''string''), (''enable_tool_dedup'', bool_text (inf_enable_tool_dedup c), ''bool''),
      (''context_window'', int_digits (inf_context_window c), ''int''),
      (''enable_context_injection'', bool_text (inf_enable_context_injection c), ''bool''), (''system_prompt'', inf_system_prompt c, ''string'')]"

definition multimodal_texts :: "set_env \<Rightarrow> multimodal_config \<Rightarrow> (string \<times> string \<times> string) list" where
  "multimodal_texts X c =
     [(''sd_steps'', int_digits (mmc_sd_steps c), ''int''), (''sd_cfg_scale'', se_print X (mmc_sd_cfg_scale c), ''float''),
      (''sd_width'', int_digits (mmc_sd_width c), ''int''), (''sd_height'', int_digits (mmc_sd_height c), ''int''),
      (''sd_negative_prompt'', mmc_sd_negative_prompt c, ''string''), (''whisper_language'', mmc_whisper_language c, ''string''),
      (''whisper_beam_size'', int_digits (mmc_whisper_beam_size c), ''int'')]"

definition memory_texts :: "set_env \<Rightarrow> memory_config \<Rightarrow> (string \<times> string \<times> string) list" where
  "memory_texts X c =
     [(''search_top_k'', int_digits (mec_search_top_k c), ''int''), (''similarity_threshold'', se_print X (mec_similarity_threshold c), ''float''),
      (''max_snippet_lines'', int_digits (mec_max_snippet_lines c), ''int''), (''excluded_paths'', mec_excluded_paths c, ''string'')]"

definition cloud_texts :: "set_env \<Rightarrow> cloud_config \<Rightarrow> (string \<times> string \<times> string) list" where
  "cloud_texts X c =
     [(''openrouter_api_key'', cld_openrouter_api_key c, ''string''), (''gemini_api_key'', cld_gemini_api_key c, ''string''),
      (''openai_api_key'', cld_openai_api_key c, ''string''), (''cloud_fallback_enabled'', bool_text (cld_cloud_fallback_enabled c), ''bool''),
      (''cloud_priority'', cld_cloud_priority c, ''string'')]"

definition logging_texts :: "set_env \<Rightarrow> logging_config \<Rightarrow> (string \<times> string \<times> string) list" where
  "logging_texts X c =
     [(''level'', lgc_level c, ''string''), (''enable_file_logging'', bool_text (lgc_enable_file_logging c), ''bool''),
      (''enable_console'', bool_text (lgc_enable_console c), ''bool''), (''log_path'', lgc_log_path c, ''string'')]"

definition storage_texts :: "set_env \<Rightarrow> storage_config \<Rightarrow> (string \<times> string \<times> string) list" where
  "storage_texts X c =
     [(''models_dir'', sc_models_dir c, ''string''), (''data_dir'', sc_data_dir c, ''string''), (''kv_cache_dir'', sc_kv_cache_dir c, ''string''),
      (''logs_dir'', sc_logs_dir c, ''string'')]"

definition int_ok :: "int \<Rightarrow> bool" where
  "int_ok i \<longleftrightarrow> - (2 ^ 31) \<le> i \<and> i < 2 ^ 31"

definition float_ok :: "set_env \<Rightarrow> f32 \<Rightarrow> bool" where
  "float_ok X f \<longleftrightarrow> plain_text (se_print X f) \<and> se_stof X (se_print X f) = Some f"

text \<open>Values that their texts determine; a cloud key is not replaced by the environment.\<close>

definition server_ok :: "set_env \<Rightarrow> server_config \<Rightarrow> bool" where
  "server_ok X c \<longleftrightarrow> srv_version c = denselite_version \<and> plain_text (srv_host c) \<and> int_ok (srv_port c) \<and> int_ok (srv_threads c) \<and>
     int_ok (srv_max_payload_mb c) \<and> plain_text (srv_api_secret_key c) \<and> plain_text (srv_cors_allowed_origins c) \<and>
     int_ok (srv_n_batch c)"

definition resource_ok :: "set_env \<Rightarrow> resource_config \<Rightarrow> bool" where
  "resource_ok X c \<longleftrightarrow> float_ok X (rsc_ram_budget_percent c) \<and> float_ok X (rsc_gpu_budget_percent c) \<and>
     float_ok X (rsc_headroom_safety_multiplier c) \<and> int_ok (rsc_max_kv_tokens c) \<and> int_ok (rsc_vram_budget_mb c)"

definition inference_ok :: "set_env \<Rightarrow> inference_config \<Rightarrow> bool" where
  "inference_ok X c \<longleftrightarrow> float_ok X (inf_default_temperature c) \<and> float_ok X (inf_default_top_p c) \<and> float_ok X (inf_repeat_penalty c) \<and>
     int_ok (inf_repeat_last_n c) \<and> int_ok (inf_top_k c) \<and> float_ok X (inf_min_p c) \<and> int_ok (inf_max_output_tokens c) \<and>
     plain_text (inf_routing_mode c) \<and> int_ok (inf_context_window c) \<and> plain_text (inf_system_prompt c)"

definition multimodal_ok :: "set_env \<Rightarrow> multimodal_config \<Rightarrow> bool" where
  "multimodal_ok X c \<longleftrightarrow> int_ok (mmc_sd_steps c) \<and> float_ok X (mmc_sd_cfg_scale c) \<and> int_ok (mmc_sd_width c) \<and> int_ok (mmc_sd_height c) \<and>
     plain_text (mmc_sd_negative_prompt c) \<and> plain_text (mmc_whisper_language c) \<and> int_ok (mmc_whisper_beam_size c)"

definition memory_ok :: "set_env \<Rightarrow> memory_config \<Rightarrow> bool" where
  "memory_ok X c \<longleftrightarrow> int_ok (mec_search_top_k c) \<and> float_ok X (mec_similarity_threshold c) \<and> int_ok (mec_max_snippet_lines c) \<and>
     plain_text (mec_excluded_paths c)"

definition cloud_ok :: "set_env \<Rightarrow> cloud_config \<Rightarrow> bool" where
  "cloud_ok X c \<longleftrightarrow> plain_text (cld_openrouter_api_key c) \<and> or_env X (cld_openrouter_api_key c) ''OPENROUTER_API_KEY'' = cld_openrouter_api_key c \<and>
     plain_text (cld_gemini_api_key c) \<and> or_env X (cld_gemini_api_key c) ''GEMINI_API_KEY'' = cld_gemini_api_key c \<and>
     plain_text (cld_openai_api_key c) \<and> or_env X (cld_openai_api_key c) ''OPENAI_API_KEY'' = cld_openai_api_key c \<and>
     plain_text (cld_cloud_priority c)"

definition logging_ok :: "set_env \<Rightarrow> logging_config \<Rightarrow> bool" where
  "logging_ok X c \<longleftrightarrow> plain_text (lgc_level c) \<and> plain_text (lgc_log_path c)"

definition storage_ok :: "set_env \<Rightarrow> storage_config \<Rightarrow> bool" where
  "storage_ok X c \<longleftrightarrow> plain_text (sc_models_dir c) \<and> plain_text (sc_data_dir c) \<and> plain_text (sc_kv_cache_dir c) \<and>
     plain_text (sc_logs_dir c)"

lemma plain_bool_text [simp]: "plain_text (bool_text b)"
  by (simp add: bool_text_def plain_text_def)

lemma plain_int_digits [simp]: "plain_text (int_digits i)"
  using isdigit_plain nat_digits_isdigit by (auto simp: plain_text_def int_digits_def)

lemma bool_text_true [simp]: "(bool_text b = ''true'' \<or> bool_text b = ''1'') = b"
  by (simp add: bool_text_def)

lemma stoi_int_ok: "int_ok i \<Longrightarrow> stoi (int_digits i) = Some i"
  by (simp add: int_ok_def stoi_int_digits)

lemmas set_defs = stm_set_string_def stm_set_int_def stm_set_float_def stm_set_bool_def run_update_setting write_all_def

text \<open>Every text of the list is what the settings say of its key.\<close>

definition says :: "(string \<times> string \<rightharpoonup> string) \<Rightarrow> string \<Rightarrow> (string \<times> string \<times> string) list \<Rightarrow> bool" where
  "says M m ts \<longleftrightarrow> list_all (\<lambda>(k, v, ty). M (m, k) = Some v) ts"

definition texts_ok :: "(string \<times> string \<times> string) list \<Rightarrow> bool" where
  "texts_ok ts \<longleftrightarrow> distinct (map fst ts) \<and> list_all (\<lambda>(k, v, ty). plain_text k \<and> plain_text v) ts"

lemma run_set_server [run_settings]: "snd (run_state (set_server_config X c) s) = write_all X ''server'' (server_texts X c) s"
  by (simp add: set_server_config_def server_texts_def set_defs bool_text_def)

lemma server_texts_ok: "server_ok X c \<Longrightarrow> texts_ok (server_texts X c)"
  by (simp add: server_ok_def texts_ok_def server_texts_def float_ok_def) (simp add: plain_text_def)

lemma read_server:
  assumes "says (\<lambda>(m, k). cached_value m k (refresh X s)) ''server'' (server_texts X c)" and "server_ok X c"
  shows "fst (run_state (get_server_config X) s) = c"
  using assms by (cases c) (simp add: says_def server_texts_def get_server_config_def run_settings server_ok_def stoi_int_ok float_ok_def)

lemma run_set_resource [run_settings]: "snd (run_state (set_resource_config X c) s) = write_all X ''resource'' (resource_texts X c) s"
  by (simp add: set_resource_config_def resource_texts_def set_defs bool_text_def)

lemma resource_texts_ok: "resource_ok X c \<Longrightarrow> texts_ok (resource_texts X c)"
  by (simp add: resource_ok_def texts_ok_def resource_texts_def float_ok_def) (simp add: plain_text_def)

lemma read_resource:
  assumes "says (\<lambda>(m, k). cached_value m k (refresh X s)) ''resource'' (resource_texts X c)" and "resource_ok X c"
  shows "fst (run_state (get_resource_config X) s) = c"
  using assms by (cases c) (simp add: says_def resource_texts_def get_resource_config_def run_settings resource_ok_def stoi_int_ok float_ok_def)

lemma run_set_inference [run_settings]: "snd (run_state (set_inference_config X c) s) = write_all X ''inference'' (inference_texts X c) s"
  by (simp add: set_inference_config_def inference_texts_def set_defs bool_text_def)

lemma inference_texts_ok: "inference_ok X c \<Longrightarrow> texts_ok (inference_texts X c)"
  by (simp add: inference_ok_def texts_ok_def inference_texts_def float_ok_def) (simp add: plain_text_def)

lemma read_inference:
  assumes "says (\<lambda>(m, k). cached_value m k (refresh X s)) ''inference'' (inference_texts X c)" and "inference_ok X c"
  shows "fst (run_state (get_inference_config X) s) = c"
  using assms by (cases c) (simp add: says_def inference_texts_def get_inference_config_def run_settings inference_ok_def stoi_int_ok float_ok_def)

lemma run_set_multimodal [run_settings]: "snd (run_state (set_multimodal_config X c) s) = write_all X ''multimodal'' (multimodal_texts X c) s"
  by (simp add: set_multimodal_config_def multimodal_texts_def set_defs bool_text_def)

lemma multimodal_texts_ok: "multimodal_ok X c \<Longrightarrow> texts_ok (multimodal_texts X c)"
  by (simp add: multimodal_ok_def texts_ok_def multimodal_texts_def float_ok_def) (simp add: plain_text_def)

lemma read_multimodal:
  assumes "says (\<lambda>(m, k). cached_value m k (refresh X s)) ''multimodal'' (multimodal_texts X c)" and "multimodal_ok X c"
  shows "fst (run_state (get_multimodal_config X) s) = c"
  using assms by (cases c) (simp add: says_def multimodal_texts_def get_multimodal_config_def run_settings multimodal_ok_def stoi_int_ok float_ok_def)

lemma run_set_memory [run_settings]: "snd (run_state (set_memory_config X c) s) = write_all X ''memory'' (memory_texts X c) s"
  by (simp add: set_memory_config_def memory_texts_def set_defs bool_text_def)

lemma memory_texts_ok: "memory_ok X c \<Longrightarrow> texts_ok (memory_texts X c)"
  by (simp add: memory_ok_def texts_ok_def memory_texts_def float_ok_def) (simp add: plain_text_def)

lemma read_memory:
  assumes "says (\<lambda>(m, k). cached_value m k (refresh X s)) ''memory'' (memory_texts X c)" and "memory_ok X c"
  shows "fst (run_state (get_memory_config X) s) = c"
  using assms by (cases c) (simp add: says_def memory_texts_def get_memory_config_def run_settings memory_ok_def stoi_int_ok float_ok_def)

lemma run_set_cloud [run_settings]: "snd (run_state (set_cloud_config X c) s) = write_all X ''cloud'' (cloud_texts X c) s"
  by (simp add: set_cloud_config_def cloud_texts_def set_defs bool_text_def)

lemma cloud_texts_ok: "cloud_ok X c \<Longrightarrow> texts_ok (cloud_texts X c)"
  by (simp add: cloud_ok_def texts_ok_def cloud_texts_def float_ok_def) (simp add: plain_text_def)

lemma read_cloud:
  assumes "says (\<lambda>(m, k). cached_value m k (refresh X s)) ''cloud'' (cloud_texts X c)" and "cloud_ok X c"
  shows "fst (run_state (get_cloud_config X) s) = c"
  using assms by (cases c) (simp add: says_def cloud_texts_def get_cloud_config_def run_settings cloud_ok_def stoi_int_ok float_ok_def)

lemma run_set_logging [run_settings]: "snd (run_state (set_logging_config X c) s) = write_all X ''logging'' (logging_texts X c) s"
  by (simp add: set_logging_config_def logging_texts_def set_defs bool_text_def)

lemma logging_texts_ok: "logging_ok X c \<Longrightarrow> texts_ok (logging_texts X c)"
  by (simp add: logging_ok_def texts_ok_def logging_texts_def float_ok_def) (simp add: plain_text_def)

lemma read_logging:
  assumes "says (\<lambda>(m, k). cached_value m k (refresh X s)) ''logging'' (logging_texts X c)" and "logging_ok X c"
  shows "fst (run_state (get_logging_config X) s) = c"
  using assms by (cases c) (simp add: says_def logging_texts_def get_logging_config_def run_settings logging_ok_def stoi_int_ok float_ok_def)

lemma run_set_storage [run_settings]: "snd (run_state (set_storage_config X c) s) = (let s1 = write_all X ''storage'' (storage_texts X c) s in s1\<lparr>stm_paths := sync_from_storage_config (se_os X) c (stm_paths s1)\<rparr>)"
  by (simp add: set_storage_config_def storage_texts_def set_defs bool_text_def sync_paths_def Let_def)

lemma storage_texts_ok: "storage_ok X c \<Longrightarrow> texts_ok (storage_texts X c)"
  by (simp add: storage_ok_def texts_ok_def storage_texts_def float_ok_def) (simp add: plain_text_def)

lemma read_storage:
  assumes "says (\<lambda>(m, k). cached_value m k (refresh X s)) ''storage'' (storage_texts X c)" and "storage_ok X c"
  shows "fst (run_state (get_storage_config X) s) = c"
  using assms by (cases c) (simp add: says_def storage_texts_def get_storage_config_def run_settings storage_ok_def stoi_int_ok float_ok_def)

lemma write_all_table:
  assumes "sdb_open (stm_db s)" "table_ok (sdb_rows (stm_db s))" and "se_ok X" and "CHR '':'' \<notin> set m" "plain_text m"
    and "list_all (\<lambda>(k, v, ty). plain_text k \<and> plain_text v) ts"
  shows "sdb_open (stm_db (write_all X m ts s)) \<and> table_ok (sdb_rows (stm_db (write_all X m ts s))) \<and>
    settings_map (sdb_rows (stm_db (write_all X m ts s))) = fold (\<lambda>(k, v, ty) M. M((m, k) \<mapsto> v)) ts (settings_map (sdb_rows (stm_db s)))"
  using assms(1,2,6)
proof (induction ts arbitrary: s)
  case (Cons t ts)
  obtain k v ty where t: "t = (k, v, ty)" by (cases t)
  have p: "plain_text k" "plain_text v" using Cons.prems t by auto
  let ?r = "bound_setting \<lparr>set_module = m, set_key = k, set_value = v, set_val_type = ty, set_updated_at = se_now X\<rparr>"
  have db: "stm_db (write_setting X m k v ty s) = (stm_db s)\<lparr>sdb_rows := upsert row_id merge_setting ?r (sdb_rows (stm_db s))\<rparr>"
    using Cons.prems assms(3) by (simp add: write_setting_def sdb_upsert_def Let_def)
  have "table_ok (upsert row_id merge_setting ?r (sdb_rows (stm_db s)))" using table_ok_upsert Cons.prems assms(4,5) by simp
  then show ?case
    using Cons.IH [of "write_setting X m k v ty s"] Cons.prems settings_map_upsert [OF assms(5) p] by (simp add: write_all_def t db)
qed (simp add: write_all_def)

lemma fold_updates_other:
  "i \<notin> (\<lambda>(k, v, ty). (m, k)) ` set ts \<Longrightarrow> fold (\<lambda>(k, v, ty) M. M((m, k) \<mapsto> v)) ts M i = M i"
  by (induction ts arbitrary: M) auto

lemma says_updates:
  assumes "distinct (map fst ts)"
  shows "says (fold (\<lambda>(k, v, ty) M. M((m, k) \<mapsto> v)) ts M) m ts"
  using assms
proof (induction ts arbitrary: M)
  case (Cons t ts)
  obtain k v ty where t: "t = (k, v, ty)" by (cases t)
  have "(m, k) \<notin> (\<lambda>(k, v, ty). (m, k)) ` set ts" using Cons.prems t by (force simp: image_iff)
  then show ?case using Cons t fold_updates_other [of "(m, k)" m ts "M((m, k) \<mapsto> v)"] by (simp add: says_def del: fun_upd_apply) simp
qed (simp add: says_def)

lemma says_other_module: "m \<noteq> m2 \<Longrightarrow> says (fold (\<lambda>(k, v, ty) M. M((m2, k) \<mapsto> v)) ts2 M) m ts = says M m ts"
proof -
  assume "m \<noteq> m2"
  then have "(m, k) \<notin> (\<lambda>(k, v, ty). (m2, k)) ` set ts2" for k by auto
  from fold_updates_other [OF this] show ?thesis by (simp add: says_def)
qed

record all_settings =
  as_server :: server_config
  as_resource :: resource_config
  as_inference :: inference_config
  as_multimodal :: multimodal_config
  as_memory :: memory_config
  as_cloud :: cloud_config
  as_logging :: logging_config
  as_storage :: storage_config

definition set_all :: "set_env \<Rightarrow> all_settings \<Rightarrow> (settings_manager, unit) state" where
  "set_all X a = do {
     set_server_config X (as_server a);
     set_resource_config X (as_resource a);
     set_inference_config X (as_inference a);
     set_multimodal_config X (as_multimodal a);
     set_memory_config X (as_memory a);
     set_cloud_config X (as_cloud a);
     set_logging_config X (as_logging a);
     set_storage_config X (as_storage a)
   }"

definition all_ok :: "set_env \<Rightarrow> all_settings \<Rightarrow> bool" where
  "all_ok X a \<longleftrightarrow> server_ok X (as_server a) \<and> resource_ok X (as_resource a) \<and> inference_ok X (as_inference a) \<and> multimodal_ok X (as_multimodal a) \<and> memory_ok X (as_memory a) \<and> cloud_ok X (as_cloud a) \<and> logging_ok X (as_logging a) \<and> storage_ok X (as_storage a)"

text \<open>A new process that opens the file.\<close>

definition restarted :: "set_env \<Rightarrow> path_service \<Rightarrow> settings_manager \<Rightarrow> settings_manager" where
  "restarted X ps s = snd (run_state (stm_init X (Some (stm_db s))) (new_settings_manager ps))"

lemma run_get_storage: "\<exists>sc. run_state (get_storage_config X) s = (sc, refresh X s)"
  by (simp add: get_storage_config_def run_settings)

lemma restarted_coherent:
  assumes "sdb_open (stm_db s)" and "table_ok (sdb_rows (stm_db s))" and "sdb_rows (stm_db s) \<noteq> []" and "CHR '':'' \<notin> set m"
  shows "cached_value m k (refresh X (restarted X ps s)) = settings_map (sdb_rows (stm_db s)) (m, k)"
proof -
  let ?s1 = "(new_settings_manager ps)\<lparr>stm_db := stm_db s, stm_cache := load_cache (sdb_rows (stm_db s)), stm_last_version := sdb_version (stm_db s)\<rparr>"
  let ?s0 = "(new_settings_manager ps)\<lparr>stm_db := stm_db s\<rparr>"
  have seed: "run_state (seed_defaults_if_empty X) ?s0 = ((), ?s0)"
    using assms(1,3) by (simp add: seed_defaults_if_empty_def sdb_count_def)
  have reload: "(stm_reload ?s0)\<lparr>stm_last_version := get_data_version (stm_db ?s0)\<rparr> = ?s1"
    using assms(1) by (simp add: stm_reload_def sdb_get_all_def get_data_version_def)
  have idle: "refresh X (t\<lparr>stm_paths := q\<rparr>) = t\<lparr>stm_paths := q\<rparr>" if "t = ?s1" for t q
    using assms(1) that by (simp add: refresh_def get_data_version_def)
  have r: "refresh X ?s1 = ?s1" using assms(1) by (simp add: refresh_def get_data_version_def)
  obtain sc where sc: "run_state (get_storage_config X) ?s1 = (sc, refresh X ?s1)" using run_get_storage by blast
  have "restarted X ps s = ?s1\<lparr>stm_paths := sync_from_storage_config (se_os X) sc (stm_paths ?s1)\<rparr>"
    by (simp only: restarted_def stm_init_def option.case run_state_bind run_state_get run_state_set prod.case seed reload sc r sync_paths_def run_state_return snd_conv)
  then show ?thesis using idle load_cache_find [OF assms(2,4)] by (simp add: cached_value_def settings_map_def)
qed

lemma write_all_says:
  assumes "sdb_open (stm_db s)" "table_ok (sdb_rows (stm_db s))" and "se_ok X" and "CHR '':'' \<notin> set m" "plain_text m" and "texts_ok ts"
  shows "sdb_open (stm_db (write_all X m ts s))" "table_ok (sdb_rows (stm_db (write_all X m ts s)))"
    "says (settings_map (sdb_rows (stm_db (write_all X m ts s)))) m ts"
    "m' \<noteq> m \<Longrightarrow> says (settings_map (sdb_rows (stm_db (write_all X m ts s)))) m' ts' = says (settings_map (sdb_rows (stm_db s))) m' ts'"
  using write_all_table [OF assms(1-5), of ts] assms(6) says_updates [of ts m] says_other_module [of m' m] by (auto simp: texts_ok_def)

text \<open>The modules, their texts, in the order in which they are written.\<close>

definition module_texts :: "set_env \<Rightarrow> all_settings \<Rightarrow> (string \<times> (string \<times> string \<times> string) list) list" where
  "module_texts X a =
     [(''server'', server_texts X (as_server a)),
      (''resource'', resource_texts X (as_resource a)),
      (''inference'', inference_texts X (as_inference a)),
      (''multimodal'', multimodal_texts X (as_multimodal a)),
      (''memory'', memory_texts X (as_memory a)),
      (''cloud'', cloud_texts X (as_cloud a)),
      (''logging'', logging_texts X (as_logging a)),
      (''storage'', storage_texts X (as_storage a))]"

lemma says_modules:
  assumes "sdb_open (stm_db s)" "table_ok (sdb_rows (stm_db s))" and "se_ok X"
    and "list_all (\<lambda>(m, ts). CHR '':'' \<notin> set m \<and> plain_text m \<and> texts_ok ts) mts" and "distinct (map fst mts)"
  shows "sdb_open (stm_db (fold (\<lambda>(m, ts). write_all X m ts) mts s)) \<and> table_ok (sdb_rows (stm_db (fold (\<lambda>(m, ts). write_all X m ts) mts s))) \<and>
    list_all (\<lambda>(m, ts). says (settings_map (sdb_rows (stm_db (fold (\<lambda>(m, ts). write_all X m ts) mts s)))) m ts) mts \<and>
    (\<forall>m' ts'. m' \<notin> fst ` set mts \<longrightarrow> says (settings_map (sdb_rows (stm_db s))) m' ts' \<longrightarrow>
       says (settings_map (sdb_rows (stm_db (fold (\<lambda>(m, ts). write_all X m ts) mts s)))) m' ts')"
  using assms(1,2,4,5)
proof (induction mts arbitrary: s)
  case (Cons mt mts)
  obtain m ts where mt: "mt = (m, ts)" by (cases mt)
  have pre: "CHR '':'' \<notin> set m" "plain_text m" "texts_ok ts" using Cons.prems mt by auto
  note w = write_all_says [OF Cons.prems(1,2) assms(3) pre]
  have rest: "list_all (\<lambda>(m, ts). CHR '':'' \<notin> set m \<and> plain_text m \<and> texts_ok ts) mts" "distinct (map fst mts)" "m \<notin> fst ` set mts" using Cons.prems mt by auto
  note IH = Cons.IH [OF w(1,2) rest(1,2)]
  have "says (settings_map (sdb_rows (stm_db (write_all X m ts s)))) m' ts'" if "m' \<noteq> m" "says (settings_map (sdb_rows (stm_db s))) m' ts'" for m' ts'
    using w(4) that by simp
  then show ?case using IH w(3) rest(3) mt by auto
qed simp

lemma run_set_all:
  "stm_db (snd (run_state (set_all X a) s)) = stm_db (fold (\<lambda>(m, ts). write_all X m ts) (module_texts X a) s)"
  by (simp add: set_all_def module_texts_def run_settings Let_def split_beta)

lemma all_texts_ok:
  assumes "all_ok X a"
  shows "list_all (\<lambda>(m, ts). CHR '':'' \<notin> set m \<and> plain_text m \<and> texts_ok ts) (module_texts X a)" "distinct (map fst (module_texts X a))"
  using assms by (simp_all add: all_ok_def module_texts_def server_texts_ok resource_texts_ok inference_texts_ok multimodal_texts_ok memory_texts_ok cloud_texts_ok logging_texts_ok storage_texts_ok) (simp add: plain_text_def)


section \<open>Examples\<close>

definition demo_set_env :: set_env where
  "demo_set_env = \<lparr>se_os = demo_os, se_print = (\<lambda>f. int_digits (sint f)), se_stof = (\<lambda>t. map_option word_of_int (stoi t)), se_ok = True, se_now = 5\<rparr>"

definition demo_settings :: settings_manager where
  "demo_settings = (new_settings_manager (new_path_service demo_os))\<lparr>stm_db := \<lparr>sdb_open = True, sdb_rows = [], sdb_version = 1\<rparr>, stm_last_version := 1\<rparr>"

definition demo_all :: all_settings where
  "demo_all = \<lparr>as_server = default_server_config, as_resource = default_resource_config, as_inference = default_inference_config, as_multimodal = default_multimodal_config, as_memory = default_memory_config, as_cloud = default_cloud_config, as_logging = default_logging_config, as_storage = default_storage_config\<rparr>"

lemma demo_float_ok: "float_ok demo_set_env f"
proof -
  have "- (2 ^ 31) \<le> sint f \<and> sint f < 2 ^ 31" using sint_range_size [of f] by (simp add: word_size)
  then show ?thesis by (simp add: float_ok_def demo_set_env_def stoi_int_digits)
qed

lemma demo_or_env: "n \<noteq> ''HOME'' \<Longrightarrow> or_env demo_set_env v n = v"
  by (simp add: or_env_def demo_set_env_def demo_os_def)

lemma demo_coherent: "coherent False demo_settings"
  by (simp add: coherent_def demo_settings_def new_settings_manager_def table_ok_def cached_value_def settings_map_def)

theorem settings_read_current_witness:
  "fst (run_state (stm_get_string demo_set_env ''a'' ''k'' ''d'')
     (fold (run_event demo_set_env) [Own_Set ''a'' ''k'' ''v'' ''string'', Foreign_Commit [], Own_Get ''a'' ''k'', Own_Set ''a'' ''k'' ''w'' ''string''] demo_settings)) = ''w''"
  using settings_read_current [OF demo_coherent, of "[Own_Set ''a'' ''k'' ''v'' ''string'', Foreign_Commit [], Own_Get ''a'' ''k'', Own_Set ''a'' ''k'' ''w'' ''string'']"
      demo_set_env "''a''" "''k''" "''d''"]
  by (simp add: plain_text_def table_ok_def demo_set_env_def)

theorem own_write_hides_foreign_commit_witness:
  "fst (run_state (stm_get_string demo_set_env ''a'' ''k'' ''d'')
     (run_event demo_set_env (Own_Set ''b'' ''x'' ''v'' ''string'')
        (run_event demo_set_env (Foreign_Commit [\<lparr>set_module = ''a'', set_key = ''k'', set_value = ''new'', set_val_type = ''string'', set_updated_at = 1\<rparr>]) demo_settings)))
   = ''d''"
  using own_write_hides_foreign_commit [OF demo_coherent, of demo_set_env "''a''" "''b''" "''k''" "''x''" "''d''" "''v''" "''string''"
      "[\<lparr>set_module = ''a'', set_key = ''k'', set_value = ''new'', set_val_type = ''string'', set_updated_at = 1\<rparr>]"]
  by (simp add: demo_set_env_def demo_settings_def settings_map_def)

lemma demo_all_ok: "all_ok demo_set_env demo_all"
  unfolding all_ok_def demo_all_def all_settings.simps server_ok_def resource_ok_def inference_ok_def multimodal_ok_def memory_ok_def cloud_ok_def logging_ok_def storage_ok_def
  by (simp add: demo_float_ok int_ok_def plain_text_def demo_or_env default_server_config_def default_resource_config_def default_inference_config_def default_multimodal_config_def default_memory_config_def default_cloud_config_def default_logging_config_def default_storage_config_def)


text \<open>The rows that the migrator inserts differ from the defaults of the program.\<close>

lemma default_rows_differ:
  "settings_map default_settings (''multimodal'', ''sd_steps'') = Some ''4''" "mmc_sd_steps default_multimodal_config = 20"
  by (simp_all add: settings_map_def default_settings_def default_setting_rows_def row_id_def default_multimodal_config_def)

end
