(* ===== verification/Cloud_Router.thy ===== *)
theory Cloud_Router
  imports Settings
begin

text \<open>
  The provider router (\<open>sqlite_router.cpp\<close>, \<open>sqlite_router_models.cpp\<close>): the API keys of the \<open>.env\<close> file with their cooldowns, which the table
  \<open>api_keys\<close> keeps, and the table of provider models with its seeding and queries.

  Tables are lists of rows (\<open>Sql_Table\<close>); rows of equal priority are answered in the order of insertion. The keys of the settings are passed as the
  configuration that \<open>get_cloud_config\<close> returns, the environment as \<open>getenv\<close>, the clock in seconds as \<open>now\<close>. A stored seed version that is no
  number makes the constructor throw, which is \<open>None\<close>.
\<close>

section \<open>State\<close>

record api_key_status =
  ak_provider :: string
  ak_key_index :: int
  ak_env_var_name :: string
  ak_key_value :: string
  ak_cooldown_until :: int

record cooldown_row =
  cd_provider :: string
  cd_key_index :: int
  cd_cooldown_until :: int

record provider_model =
  pv_provider :: string
  pv_model_name :: string
  pv_model_type :: string
  pv_priority :: int

record sqlite_router =
  rt_open :: bool
  rt_keys :: "api_key_status list"
  rt_cooldowns :: "cooldown_row list"
  rt_models :: "provider_model list"
  rt_seed_version :: "string option"

section \<open>Keys\<close>

text \<open>The first key with this provider and index gets the cooldown.\<close>

fun set_cooldown :: "string \<Rightarrow> int \<Rightarrow> int \<Rightarrow> api_key_status list \<Rightarrow> api_key_status list" where
  "set_cooldown p i c [] = []"
| "set_cooldown p i c (k # ks) = (if ak_provider k = p \<and> ak_key_index k = i then k\<lparr>ak_cooldown_until := c\<rparr> # ks else k # set_cooldown p i c ks)"

definition sync_db :: "sqlite_router \<Rightarrow> sqlite_router" where
  "sync_db r =
     (if \<not> rt_open r then r
      else r\<lparr>rt_keys := fold (\<lambda>row. set_cooldown (cd_provider row) (cd_key_index row) (cd_cooldown_until row)) (rt_cooldowns r) (rt_keys r)\<rparr>)"

definition unquote :: "string \<Rightarrow> string" where
  "unquote v = (if 2 \<le> length v \<and> hd v = CHR 0x22 \<and> last v = CHR 0x22 then butlast (tl v) else v)"

definition rfind_char :: "char \<Rightarrow> string \<Rightarrow> nat option" where
  "rfind_char c s = (case str_find [c] (rev s) of Some i \<Rightarrow> Some (length s - Suc i) | None \<Rightarrow> None)"

definition key_of_line :: "string \<Rightarrow> api_key_status list" where
  "key_of_line line =
     (if line = [] \<or> hd line = CHR ''#'' then []
      else case str_find ''='' line of
        None \<Rightarrow> []
      | Some eq_pos \<Rightarrow>
          let name = take eq_pos line; val = unquote (drop (Suc eq_pos) line);
              plain = (case str_find ''_API_KEY'' name of
                         Some p \<Rightarrow> [\<lparr>ak_provider = take p name, ak_key_index = 1, ak_env_var_name = name, ak_key_value = val, ak_cooldown_until = 0\<rparr>]
                       | None \<Rightarrow> [])
          in case rfind_char (CHR ''_'') name of
               None \<Rightarrow> plain
             | Some last_underscore \<Rightarrow>
                 if \<not> last_underscore < length name - 1 then plain
                 else
                   let pre = take last_underscore name
                   in case str_find ''_API_KEY'' pre of
                        None \<Rightarrow> []
                      | Some p \<Rightarrow>
                          (case stoi (drop (Suc last_underscore) name) of
                             Some index \<Rightarrow> [\<lparr>ak_provider = take p pre, ak_key_index = index, ak_env_var_name = name, ak_key_value = val, ak_cooldown_until = 0\<rparr>]
                           | None \<Rightarrow> []))"

text \<open>\<open>load_env\<close>: the contents of the file, \<open>None\<close> when it cannot be opened.\<close>

definition load_env :: "string option \<Rightarrow> sqlite_router \<Rightarrow> sqlite_router" where
  "load_env contents r =
     (case contents of
        None \<Rightarrow> r
      | Some s \<Rightarrow> sync_db (r\<lparr>rt_keys := rt_keys r @ concat (map key_of_line (get_lines [] s))\<rparr>))"

definition settings_key :: "cloud_config \<Rightarrow> string \<Rightarrow> string" where
  "settings_key cfg provider =
     (if provider = ''OPENROUTER'' then cld_openrouter_api_key cfg else if provider = ''GEMINI'' then cld_gemini_api_key cfg
      else if provider = ''OPENAI'' then cld_openai_api_key cfg else [])"

definition no_key :: api_key_status where
  "no_key = \<lparr>ak_provider = [], ak_key_index = 0, ak_env_var_name = [], ak_key_value = [], ak_cooldown_until = 0\<rparr>"

definition environment_key :: "(string \<Rightarrow> string option) \<Rightarrow> string \<Rightarrow> api_key_status" where
  "environment_key getenv provider =
     (let env_name = provider @ ''_API_KEY'';
          from = (\<lambda>name v. \<lparr>ak_provider = provider, ak_key_index = 0, ak_env_var_name = name, ak_key_value = v, ak_cooldown_until = 0\<rparr>);
          google = (case getenv ''GOOGLE_API_KEY'' of Some v \<Rightarrow> if v = [] then no_key else from ''GOOGLE_API_KEY'' v | None \<Rightarrow> no_key);
          later = (if provider = ''GEMINI'' then google else no_key)
      in case getenv env_name of Some v \<Rightarrow> if v = [] then later else from env_name v | None \<Rightarrow> later)"

definition get_next_available_key ::
  "cloud_config \<Rightarrow> (string \<Rightarrow> string option) \<Rightarrow> int \<Rightarrow> string \<Rightarrow> sqlite_router \<Rightarrow> api_key_status \<times> sqlite_router" where
  "get_next_available_key cfg getenv now provider r =
     (let db_key = settings_key cfg provider
      in if db_key \<noteq> []
         then (\<lparr>ak_provider = provider, ak_key_index = 0, ak_env_var_name = ''DB_SETTINGS'', ak_key_value = db_key, ak_cooldown_until = 0\<rparr>, r)
         else let r1 = sync_db r
              in (case find (\<lambda>k. ak_provider k = provider \<and> ak_cooldown_until k < now) (rt_keys r1) of
                    Some k \<Rightarrow> k
                  | None \<Rightarrow> environment_key getenv provider, r1))"

definition cooldown_id :: "cooldown_row \<Rightarrow> string \<times> int" where
  "cooldown_id row = (cd_provider row, cd_key_index row)"

definition mark_key_cooldown :: "bool \<Rightarrow> int \<Rightarrow> string \<Rightarrow> int \<Rightarrow> int \<Rightarrow> sqlite_router \<Rightarrow> sqlite_router" where
  "mark_key_cooldown ok now provider key_index cooldown_seconds r =
     (if \<not> rt_open r then r
      else let cooldown_until = now + cooldown_seconds; r1 = r\<lparr>rt_keys := set_cooldown provider key_index cooldown_until (rt_keys r)\<rparr>
           in if \<not> ok then r1
              else r1\<lparr>rt_cooldowns := upsert cooldown_id (\<lambda>old new. new)
                  \<lparr>cd_provider = c_str provider, cd_key_index = key_index, cd_cooldown_until = cooldown_until\<rparr> (rt_cooldowns r)\<rparr>)"

section \<open>Provider models\<close>

definition seed_models :: "provider_model list" where
  "seed_models =
     map (\<lambda>(p, n, t, i). \<lparr>pv_provider = p, pv_model_name = n, pv_model_type = t, pv_priority = i\<rparr>)
       [(''GEMINI'', ''gemini-2.5-flash-image'', ''image'', 1), (''GEMINI'', ''gemini-2.5-flash'', ''text'', 1), (''GROQ'', ''openai/gpt-oss-20b'', ''text'', 1),
        (''OPENROUTER'', ''liquid/lfm-2.5-2.6b:free'', ''text'', 1), (''OPENROUTER'', ''inclusionai/ling-3.0-flash-fin:free'', ''text'', 2),
        (''MISTRAL'', ''ministral-8b-2512'', ''text'', 1), (''MISTRAL'', ''open-mistral-nemo'', ''text'', 2), (''COHERE'', ''command-r-08-2024'', ''text'', 1),
        (''NOVITA'', ''zai-org/glm-5.3-flash'', ''text'', 1)]"

definition seed_default_models :: "bool \<Rightarrow> sqlite_router \<Rightarrow> sqlite_router option" where
  "seed_default_models ok r =
     (if \<not> rt_open r then Some r
      else case (case rt_seed_version r of Some v \<Rightarrow> stoi v | None \<Rightarrow> Some 0) of
        None \<Rightarrow> None
      | Some db_version \<Rightarrow>
          if 2 \<le> db_version then Some r
          else if \<not> ok then Some (r\<lparr>rt_models := []\<rparr>)
          else Some (r\<lparr>rt_models := seed_models, rt_seed_version := Some (int_digits 2)\<rparr>))"

definition matching_models :: "string \<Rightarrow> string \<Rightarrow> sqlite_router \<Rightarrow> provider_model list" where
  "matching_models provider ty r =
     stable_sort (\<lambda>a b. pv_priority a < pv_priority b) (filter (\<lambda>m. pv_provider m = c_str provider \<and> pv_model_type m = c_str ty) (rt_models r))"

definition get_cheapest_model_for_provider :: "string \<Rightarrow> string \<Rightarrow> sqlite_router \<Rightarrow> string" where
  "get_cheapest_model_for_provider provider ty r =
     (if \<not> rt_open r then [] else case matching_models provider ty r of [] \<Rightarrow> [] | m # ms \<Rightarrow> pv_model_name m)"

definition get_fallback_model :: "string \<Rightarrow> string \<Rightarrow> string \<Rightarrow> sqlite_router \<Rightarrow> string" where
  "get_fallback_model provider current_model ty r =
     (if \<not> rt_open r then []
      else case filter (\<lambda>m. pv_model_name m \<noteq> c_str current_model) (matching_models provider ty r) of [] \<Rightarrow> [] | m # ms \<Rightarrow> pv_model_name m)"

definition get_provider_for_model :: "string \<Rightarrow> sqlite_router \<Rightarrow> string" where
  "get_provider_for_model model_name r =
     (if \<not> rt_open r then ''local''
      else case find (\<lambda>m. pv_model_name m = c_str model_name) (rt_models r) of Some m \<Rightarrow> pv_provider m | None \<Rightarrow> ''local'')"

definition get_provider_url :: "string \<Rightarrow> string" where
  "get_provider_url provider =
     (if provider = ''GROQ'' then ''https://api.groq.com'' else if provider = ''OPENROUTER'' then ''https://openrouter.ai''
      else if provider = ''NOVITA'' then ''https://api.novita.ai'' else if provider = ''MISTRAL'' then ''https://api.mistral.ai''
      else if provider = ''COHERE'' then ''https://api.cohere.com'' else if provider = ''GEMINI'' then ''https://generativelanguage.googleapis.com''
      else if provider = ''OPENAI'' then ''https://api.openai.com'' else [])"

section \<open>Which key is used\<close>

interpretation cooldowns: keyed_table cooldown_id "\<lambda>old new. new"
  by unfold_locales simp

definition key_id :: "api_key_status \<Rightarrow> string \<times> int" where
  "key_id k = (ak_provider k, ak_key_index k)"

text \<open>The cooldown that holds for a key: the table's, where it has one.\<close>

definition cooldown_of :: "cooldown_row list \<Rightarrow> api_key_status \<Rightarrow> int" where
  "cooldown_of rows k = (case find (\<lambda>row. cooldown_id row = key_id k) rows of Some row \<Rightarrow> cd_cooldown_until row | None \<Rightarrow> ak_cooldown_until k)"

lemma set_cooldown_map:
  "distinct (map key_id ks) \<Longrightarrow> set_cooldown p i c ks = map (\<lambda>k. if key_id k = (p, i) then k\<lparr>ak_cooldown_until := c\<rparr> else k) ks"
proof (induction ks)
  case (Cons k ks)
  show ?case
  proof (cases "key_id k = (p, i)")
    case True
    then have "map (\<lambda>k. if key_id k = (p, i) then k\<lparr>ak_cooldown_until := c\<rparr> else k) ks = map (\<lambda>k. k) ks"
      using Cons.prems by (intro map_cong) (auto simp: image_iff)
    then show ?thesis using True by (simp add: key_id_def)
  next
    case False
    then show ?thesis using Cons by (auto simp: key_id_def)
  qed
qed simp

lemma key_id_cooldown [simp]: "key_id (k\<lparr>ak_cooldown_until := c\<rparr>) = key_id k"
  by (simp add: key_id_def)

lemma find_map: "find P (map f ks) = map_option f (find (P \<circ> f) ks)"
  by (induction ks) auto

lemma sync_keys:
  assumes "distinct (map cooldown_id rows)" and "distinct (map key_id ks)"
  shows "fold (\<lambda>row. set_cooldown (cd_provider row) (cd_key_index row) (cd_cooldown_until row)) rows ks =
    map (\<lambda>k. k\<lparr>ak_cooldown_until := cooldown_of rows k\<rparr>) ks"
  using assms
proof (induction rows arbitrary: ks)
  case (Cons row rows)
  let ?f = "\<lambda>k. if key_id k = cooldown_id row then k\<lparr>ak_cooldown_until := cd_cooldown_until row\<rparr> else k"
  have s: "set_cooldown (cd_provider row) (cd_key_index row) (cd_cooldown_until row) ks = map ?f ks"
    using set_cooldown_map [OF Cons.prems(2)] by (simp add: cooldown_id_def)
  have ids: "map key_id (map ?f ks) = map key_id ks" by simp
  have n: "find (\<lambda>r. cooldown_id r = cooldown_id row) rows = None" using Cons.prems(1) by (auto simp: find_None_iff image_iff)
  have step: "fold (\<lambda>row. set_cooldown (cd_provider row) (cd_key_index row) (cd_cooldown_until row)) rows (map ?f ks) =
      map (\<lambda>k. k\<lparr>ak_cooldown_until := cooldown_of rows k\<rparr>) (map ?f ks)"
    using Cons.IH [of "map ?f ks"] Cons.prems unfolding ids by simp
  have "(?f k)\<lparr>ak_cooldown_until := cooldown_of rows (?f k)\<rparr> = k\<lparr>ak_cooldown_until := cooldown_of (row # rows) k\<rparr>" for k
    using n by (auto simp: cooldown_of_def)
  then show ?case using s step by simp
qed (simp add: cooldown_of_def)

text \<open>
  The key that is used: the key of the settings, else the first key of the file for the provider whose cooldown, as the table knows it, is over, else the key
  of the environment; so a key on cooldown is passed over, also by a process started after the cooldown was recorded.
\<close>

lemma next_key_not_cooling:
  assumes "rt_open r" and "distinct (map key_id (rt_keys r))" and "distinct (map cooldown_id (rt_cooldowns r))"
  shows "fst (get_next_available_key cfg getenv now provider r) =
    (if settings_key cfg provider \<noteq> []
     then \<lparr>ak_provider = provider, ak_key_index = 0, ak_env_var_name = ''DB_SETTINGS'', ak_key_value = settings_key cfg provider, ak_cooldown_until = 0\<rparr>
     else case find (\<lambda>k. ak_provider k = provider \<and> cooldown_of (rt_cooldowns r) k < now) (rt_keys r) of
       Some k \<Rightarrow> k\<lparr>ak_cooldown_until := cooldown_of (rt_cooldowns r) k\<rparr>
     | None \<Rightarrow> environment_key getenv provider)"
proof -
  have "rt_keys (sync_db r) = map (\<lambda>k. k\<lparr>ak_cooldown_until := cooldown_of (rt_cooldowns r) k\<rparr>) (rt_keys r)"
    using sync_keys [OF assms(3,2)] assms(1) by (simp add: sync_db_def)
  then show ?thesis by (simp add: get_next_available_key_def Let_def find_map comp_def split: option.split)
qed

text \<open>Marking a key keeps the table's identifiers distinct and sets the cooldown that holds for it.\<close>

lemma marked_key_cooldown:
  assumes "rt_open r" and "CHR 0x00 \<notin> set p"
  shows "cooldown_of (rt_cooldowns (mark_key_cooldown True now p i secs r)) k = (if key_id k = (p, i) then now + secs else cooldown_of (rt_cooldowns r) k)"
proof -
  have "cooldown_id \<lparr>cd_provider = c_str p, cd_key_index = i, cd_cooldown_until = c\<rparr> = (p, i)" for c using c_str_id [OF assms(2)] by (simp add: cooldown_id_def)
  then show ?thesis using assms(1) by (auto simp: mark_key_cooldown_def Let_def cooldown_of_def cooldowns.find_upsert split: option.splits)
qed

text \<open>
  A key that is marked is not used before its cooldown is over: after \<open>mark_key_cooldown\<close>, no request for the provider until then is answered with a key
  of the file that has the marked index.
\<close>

theorem marked_key_not_used:
  assumes "rt_open r" and "distinct (map key_id (rt_keys r))" and "distinct (map cooldown_id (rt_cooldowns r))" and "CHR 0x00 \<notin> set p"
    and "t \<le> now + secs" and "i \<noteq> 0"
  shows "ak_key_index (fst (get_next_available_key cfg getenv t p (mark_key_cooldown True now p i secs r))) \<noteq> i"
proof -
  let ?r = "mark_key_cooldown True now p i secs r"
  have o: "rt_open ?r" using assms(1) by (simp add: mark_key_cooldown_def Let_def)
  have k: "distinct (map key_id (rt_keys ?r))"
    using assms(1,2) set_cooldown_map [OF assms(2), of p i "now + secs"] by (simp add: mark_key_cooldown_def Let_def comp_def if_distrib cong: if_cong)
  have c: "distinct (map cooldown_id (rt_cooldowns ?r))"
    using assms(1,3) cooldowns.upsert_distinct by (simp add: mark_key_cooldown_def Let_def)
  have e: "ak_key_index (environment_key getenv p) = 0"
    by (simp add: environment_key_def no_key_def Let_def split: option.split)
  have "ak_key_index k \<noteq> i" if "find (\<lambda>k. ak_provider k = p \<and> cooldown_of (rt_cooldowns ?r) k < t) (rt_keys ?r) = Some k" for k
  proof
    assume "ak_key_index k = i"
    moreover have "ak_provider k = p" "cooldown_of (rt_cooldowns ?r) k < t" using that by (auto simp: find_Some_iff)
    ultimately show False using marked_key_cooldown [OF assms(1,4), of now i secs k] assms(5) by (simp add: key_id_def)
  qed
  then show ?thesis using next_key_not_cooling [OF o k c, of cfg getenv t p] e assms(6) by (simp split: option.split)
qed

section \<open>Lines of the key file\<close>

lemma str_find_here: "c \<notin> set a \<Longrightarrow> str_find [c] (a @ c # b) = Some (length a)"
  by (induction a) auto

lemma rfind_char_last: "c \<notin> set b \<Longrightarrow> rfind_char c (a @ c # b) = Some (length a)"
  using str_find_here [of c "rev b" "rev a"] by (simp add: rfind_char_def)

text \<open>
  A key without a number is ignored: a line \<open>PROVIDER_API_KEY=value\<close> adds no key, for every provider and value, since the last underscore of the name is
  the one before \<open>KEY\<close> and what follows it is no number.
\<close>

theorem unnumbered_key_ignored:
  assumes "p = [] \<or> hd p \<noteq> CHR ''#''" and "CHR ''='' \<notin> set p"
  shows "key_of_line (p @ ''_API_KEY='' @ v) = []"
proof -
  let ?line = "p @ ''_API_KEY='' @ v"
  have f: "str_find ''='' ?line = Some (length p + 8)" using str_find_here [of "CHR ''=''" "p @ ''_API_KEY''" v] assms(2) by simp
  have n: "take (length p + 8) ?line = (p @ ''_API'') @ CHR ''_'' # ''KEY''" by simp
  have u: "rfind_char (CHR ''_'') ((p @ ''_API'') @ CHR ''_'' # ''KEY'') = Some (length p + 4)"
    using rfind_char_last [of "CHR ''_''" "''KEY''" "p @ ''_API''"] by simp
  have t: "drop (Suc (length p + 4)) ((p @ ''_API'') @ CHR ''_'' # ''KEY'') = ''KEY''" by simp
  have k: "stoi ''KEY'' = None" by (simp add: stoi_def isspace_def isdigit_def code_def)
  have h: "\<not> (?line = [] \<or> hd ?line = CHR ''#'')" using assms(1) by (cases p) auto
  have l: "length p + 4 < length ((p @ ''_API'') @ CHR ''_'' # ''KEY'') - 1" by simp
  show ?thesis unfolding key_of_line_def f option.case n u t k Let_def using h l by (simp only: if_False not_True_eq_False simp_thms option.case option.case_eq_if) simp
qed

text \<open>A numbered key is read with its provider, number and value.\<close>

lemma str_find_marker: "CHR ''_'' \<notin> set p \<Longrightarrow> str_find ''_API_KEY'' (p @ ''_API_KEY'') = Some (length p)"
  by (induction p) auto

lemma numbered_key_read:
  assumes "p \<noteq> []" "hd p \<noteq> CHR ''#''" and "CHR ''='' \<notin> set p" "CHR ''_'' \<notin> set p" and "0 \<le> i" "i < 2 ^ 31"
  shows "key_of_line (p @ ''_API_KEY_'' @ int_digits i @ ''='' @ v) =
    [\<lparr>ak_provider = p, ak_key_index = i, ak_env_var_name = p @ ''_API_KEY_'' @ int_digits i, ak_key_value = unquote v, ak_cooldown_until = 0\<rparr>]"
proof -
  let ?name = "(p @ ''_API_KEY'') @ CHR ''_'' # int_digits i" and ?line = "p @ ''_API_KEY_'' @ int_digits i @ ''='' @ v"
  have d: "c \<notin> set (int_digits i)" if "\<not> isdigit c" for c using that assms(5) nat_digits_isdigit by (auto simp: int_digits_def)
  have nd: "\<not> isdigit (CHR ''='')" "\<not> isdigit (CHR ''_'')" by (simp_all add: isdigit_def code_def)
  have ne: "int_digits i \<noteq> []" by (simp add: int_digits_def)
  have f: "str_find ''='' ?line = Some (length ?name)" using str_find_here [of "CHR ''=''" ?name v] assms(3) d [OF nd(1)] by simp
  have cut: "take (length a) (a @ b) = a" "drop (Suc (length a)) (a @ c # b) = b" for a b :: string and c by simp_all
  have ln: "?line = ?name @ CHR ''='' # v" by simp
  have n: "take (length ?name) ?line = ?name" "drop (Suc (length ?name)) ?line = v" unfolding ln by (rule cut)+
  have u: "rfind_char (CHR ''_'') ?name = Some (length (p @ ''_API_KEY''))" by (rule rfind_char_last) (rule d [OF nd(2)])
  have t: "take (length (p @ ''_API_KEY'')) ?name = p @ ''_API_KEY''" "drop (Suc (length (p @ ''_API_KEY''))) ?name = int_digits i" by simp_all
  have l: "length (p @ ''_API_KEY'') < length ?name - 1" using ne by simp
  have h: "\<not> (?line = [] \<or> hd ?line = CHR ''#'')" using assms(1,2) by simp
  have k: "stoi (int_digits i) = Some i" using assms(5,6) by (intro stoi_int_digits) auto
  show ?thesis
    unfolding key_of_line_def f option.case n u t k str_find_marker [OF assms(4)] Let_def using h l by (simp only: if_False not_True_eq_False simp_thms) simp
qed

text \<open>The cheapest model has the least priority of its provider and type, and the provider of a model is never the empty text.\<close>

interpretation by_priority: strict_weak_order "\<lambda>m. True" "\<lambda>a b. pv_priority a < pv_priority b"
  by unfold_locales auto

lemma cheapest_is_least:
  assumes "get_cheapest_model_for_provider p ty r = n" and "n \<noteq> []"
  shows "\<exists>m \<in> set (rt_models r). pv_model_name m = n \<and> pv_provider m = c_str p \<and> pv_model_type m = c_str ty \<and>
    (\<forall>m' \<in> set (rt_models r). pv_provider m' = c_str p \<longrightarrow> pv_model_type m' = c_str ty \<longrightarrow> pv_priority m \<le> pv_priority m')"
proof -
  let ?ms = "filter (\<lambda>m. pv_provider m = c_str p \<and> pv_model_type m = c_str ty) (rt_models r)"
  obtain m ms where m: "stable_sort (\<lambda>a b. pv_priority a < pv_priority b) ?ms = m # ms" "pv_model_name m = n"
    using assms by (auto simp: get_cheapest_model_for_provider_def matching_models_def split: if_splits list.splits)
  have sorted: "sorted_wrt (\<lambda>a b. \<not> pv_priority b < pv_priority a) (m # ms)"
    using by_priority.stable_sort_sorted [of ?ms] m(1) by simp
  have set_ms: "set (m # ms) = set ?ms" using set_stable_sort [of "\<lambda>a b. pv_priority a < pv_priority b" ?ms] unfolding m(1) .
  have "pv_priority m \<le> pv_priority m'" if "m' \<in> set (rt_models r)" "pv_provider m' = c_str p" "pv_model_type m' = c_str ty" for m'
  proof -
    have "m' \<in> set (m # ms)" using that set_ms by simp
    then show ?thesis using sorted by auto
  qed
  moreover have "m \<in> set ?ms" using set_ms by (metis list.set_intros(1))
  ultimately show ?thesis using m(2) by (intro bexI [of _ m]) auto
qed

lemma provider_never_empty:
  assumes "list_all (\<lambda>m. pv_provider m \<noteq> []) (rt_models r)"
  shows "get_provider_for_model n r \<noteq> []"
  using assms by (auto simp: get_provider_for_model_def list_all_iff find_Some_iff split: option.split)

section \<open>Examples\<close>

definition demo_router :: sqlite_router where
  "demo_router = \<lparr>rt_open = True, rt_keys = [\<lparr>ak_provider = ''GROQ'', ak_key_index = 1, ak_env_var_name = ''GROQ_API_KEY_1'', ak_key_value = ''k1'', ak_cooldown_until = 0\<rparr>,
     \<lparr>ak_provider = ''GROQ'', ak_key_index = 2, ak_env_var_name = ''GROQ_API_KEY_2'', ak_key_value = ''k2'', ak_cooldown_until = 0\<rparr>],
     rt_cooldowns = [], rt_models = seed_models, rt_seed_version = Some ''2''\<rparr>"

theorem marked_key_not_used_witness:
  "ak_key_index (fst (get_next_available_key default_cloud_config (\<lambda>n. None) 130 ''GROQ'' (mark_key_cooldown True 100 ''GROQ'' 1 300 demo_router))) \<noteq> 1"
  using marked_key_not_used [of demo_router "''GROQ''" 130 100 300 1 default_cloud_config "\<lambda>n. None"] by (simp add: demo_router_def key_id_def)

theorem unnumbered_key_ignored_witness: "key_of_line ''GROQ_API_KEY=abc'' = []"
  using unnumbered_key_ignored [of "''GROQ''" "''abc''"] by simp

end
