(* ===== verification/Model_Catalog.thy ===== *)
theory Model_Catalog
  imports Cloud_Router Gguf_Parser Resource_Governor
begin

text \<open>
  The inventory of local models (\<open>settings/model_registry_db.cpp\<close>), its discovery on disk (\<open>settings/model_discovery.cpp\<close>) and the models
  that are resident at start (\<open>model_loader.cpp\<close>).

  The tables \<open>local_models\<close> (unique by identifier and by path) and \<open>model_roles\<close> are lists of rows; \<open>INSERT OR REPLACE\<close> removes every row that
  conflicts and appends the new one, and foreign keys are not enforced because no connection asks for it. \<open>ok\<close> says whether a writing statement
  succeeds. The files below a directory, their sizes and contents, the inspection of a model file and \<open>std::sort\<close> are arguments.
\<close>

section \<open>The inventory\<close>

record local_model =
  lm_model_id :: string
  lm_file_path :: string
  lm_architecture :: string
  lm_param_count :: u64
  lm_param_size_str :: string
  lm_quant_type :: string
  lm_context_length :: u32
  lm_is_verified :: bool
  lm_updated_at :: int

record role_binding =
  rb_role :: string
  rb_model_id :: string
  rb_is_active :: bool
  rb_updated_at :: int

record model_db =
  md_open :: bool
  md_models :: "local_model list"
  md_roles :: "role_binding list"

definition model_columns :: "int \<Rightarrow> local_model \<Rightarrow> local_model" where
  "model_columns now rec =
     rec\<lparr>lm_model_id := c_str (lm_model_id rec), lm_file_path := c_str (lm_file_path rec), lm_architecture := c_str (lm_architecture rec),
         lm_param_size_str := c_str (lm_param_size_str rec), lm_quant_type := c_str (lm_quant_type rec),
         lm_updated_at := (if lm_updated_at rec > 0 then lm_updated_at rec else now)\<rparr>"

definition register_model :: "bool \<Rightarrow> int \<Rightarrow> local_model \<Rightarrow> model_db \<Rightarrow> bool \<times> model_db" where
  "register_model ok now rec db =
     (if \<not> md_open db \<or> \<not> ok then (False, db)
      else let row = model_columns now rec
           in (True, db\<lparr>md_models := filter (\<lambda>r. lm_model_id r \<noteq> lm_model_id row \<and> lm_file_path r \<noteq> lm_file_path row) (md_models db) @ [row]\<rparr>))"

definition get_model :: "string \<Rightarrow> model_db \<Rightarrow> local_model option" where
  "get_model mid db = (if \<not> md_open db then None else find (\<lambda>r. lm_model_id r = c_str mid) (md_models db))"

definition get_all_models :: "model_db \<Rightarrow> local_model list" where
  "get_all_models db = (if \<not> md_open db then [] else stable_sort (\<lambda>a b. lm_model_id a < lm_model_id b) (md_models db))"

definition delete_model :: "bool \<Rightarrow> string \<Rightarrow> model_db \<Rightarrow> bool \<times> model_db" where
  "delete_model ok mid db =
     (if \<not> md_open db \<or> \<not> ok then (False, db)
      else (list_ex (\<lambda>r. lm_model_id r = c_str mid) (md_models db), db\<lparr>md_models := filter (\<lambda>r. lm_model_id r \<noteq> c_str mid) (md_models db)\<rparr>))"

definition bind_role :: "bool \<Rightarrow> int \<Rightarrow> string \<Rightarrow> string \<Rightarrow> bool \<Rightarrow> model_db \<Rightarrow> bool \<times> model_db" where
  "bind_role ok now role mid active db =
     (if \<not> md_open db \<or> \<not> ok then (False, db)
      else (True, db\<lparr>md_roles := filter (\<lambda>b. rb_role b \<noteq> c_str role) (md_roles db) @
              [\<lparr>rb_role = c_str role, rb_model_id = c_str mid, rb_is_active = active, rb_updated_at = now\<rparr>]\<rparr>))"

definition set_role_active :: "bool \<Rightarrow> int \<Rightarrow> string \<Rightarrow> bool \<Rightarrow> model_db \<Rightarrow> bool \<times> model_db" where
  "set_role_active ok now role active db =
     (if \<not> md_open db \<or> \<not> ok then (False, db)
      else (list_ex (\<lambda>b. rb_role b = c_str role) (md_roles db),
            db\<lparr>md_roles := map (\<lambda>b. if rb_role b = c_str role then b\<lparr>rb_is_active := active, rb_updated_at := now\<rparr> else b) (md_roles db)\<rparr>))"

definition unbind_role :: "bool \<Rightarrow> string \<Rightarrow> model_db \<Rightarrow> bool \<times> model_db" where
  "unbind_role ok role db =
     (if \<not> md_open db \<or> \<not> ok then (False, db)
      else (list_ex (\<lambda>b. rb_role b = c_str role) (md_roles db), db\<lparr>md_roles := filter (\<lambda>b. rb_role b \<noteq> c_str role) (md_roles db)\<rparr>))"

definition get_all_role_bindings :: "bool \<Rightarrow> model_db \<Rightarrow> role_binding list" where
  "get_all_role_bindings active_only db = (if \<not> md_open db then [] else filter (\<lambda>b. active_only \<longrightarrow> rb_is_active b) (md_roles db))"

definition get_model_for_role :: "string \<Rightarrow> model_db \<Rightarrow> string" where
  "get_model_for_role role db =
     (if \<not> md_open db then []
      else case find (\<lambda>b. rb_role b = c_str role \<and> rb_is_active b) (md_roles db) of Some b \<Rightarrow> rb_model_id b | None \<Rightarrow> [])"

section \<open>Discovery\<close>

definition file_exists :: "os_env \<Rightarrow> string \<Rightarrow> bool" where
  "file_exists E p \<longleftrightarrow> oe_exists E p = Some True"

text \<open>Stem and extension of a file name: the last dot counts unless it is the first character.\<close>

definition dot_of :: "string \<Rightarrow> nat option" where
  "dot_of name =
     (case str_find ''.'' (rev name) of
        None \<Rightarrow> None
      | Some i \<Rightarrow> if name = ''.'' \<or> name = ''..'' \<or> length name - Suc i = 0 then None else Some (length name - Suc i))"

definition stem_of :: "string \<Rightarrow> string" where
  "stem_of name = (case dot_of name of Some i \<Rightarrow> take i name | None \<Rightarrow> name)"

definition extension_of :: "string \<Rightarrow> string" where
  "extension_of name = (case dot_of name of Some i \<Rightarrow> drop i name | None \<Rightarrow> [])"

definition search_bases :: "os_env \<Rightarrow> path_service \<Rightarrow> string \<Rightarrow> string list" where
  "search_bases E ps base_dir =
     [expand_user E ''~/.denselite/models'', ps_models_dir ps, (if base_dir = [] then ps_base_dir ps else base_dir) @ ''/models'']"

definition resolve_model_path :: "os_env \<Rightarrow> path_service \<Rightarrow> string \<Rightarrow> string \<Rightarrow> string" where
  "resolve_model_path E ps raw_path base_dir =
     (if raw_path = [] then []
      else let expanded = expand_user E raw_path;
               candidates = (\<lambda>p. map (\<lambda>d. path_join d p) (filter (\<lambda>d. d \<noteq> []) (search_bases E ps base_dir)))
           in if file_exists E expanded then expanded
              else case find (file_exists E) (candidates raw_path) of
                     Some p \<Rightarrow> p
                   | None \<Rightarrow> (case find (file_exists E) (candidates (filename_of raw_path)) of Some p \<Rightarrow> p | None \<Rightarrow> expanded))"

definition clean_id :: "string \<Rightarrow> string" where
  "clean_id s = map (\<lambda>c. if isalnum c \<or> c = CHR ''_'' \<or> c = CHR ''-'' then tolower c else CHR ''_'') s"

definition derive_model_id :: "string \<Rightarrow> string" where
  "derive_model_id filename =
     (let l = lower filename
      in if contains l ''llama-3.2-1b'' \<or> contains l ''llama-3_2'' then ''llama-3_2-1b-instruct-abliterated_i1-q4_0''
         else if contains l ''deepseek-r1'' then ''deepseek-r1-distill-qwen-1_5b-q4_0''
         else if contains l ''qwen2.5-coder'' then ''qwen25_coder''
         else if contains l ''qwen2.5'' then ''qwen25_main''
         else if contains l ''smollm2'' \<or> contains l ''smol'' then ''smollm2''
         else if contains l ''nomic-embed'' \<or> contains l ''nomic'' then ''nomic_embed''
         else if contains l ''whisper-large-v3-turbo'' \<or> contains l ''turbo'' then ''whisper_turbo''
         else if contains l ''whisper'' \<or> contains l ''ggml-base'' then ''whisper_base''
         else if contains l ''sdxl_lightning'' \<or> contains l ''sdxl-lightning'' then ''sdxl_lightning_4step''
         else if contains l ''stable-diffusion'' \<or> contains l ''sd15'' then ''sd15''
         else let clean = clean_id (stem_of (filename_of filename)) in if clean = [] then ''custom_model'' else clean)"

definition bind_roles_for_id :: "bool \<Rightarrow> int \<Rightarrow> string \<Rightarrow> model_db \<Rightarrow> model_db" where
  "bind_roles_for_id ok now mid db =
     (let has_role = (\<lambda>r. list_ex (\<lambda>b. rb_role b = r \<and> rb_model_id b \<noteq> []) (get_all_role_bindings False db));
          bind = (\<lambda>r d. snd (bind_role ok now r mid True d))
      in if (mid = ''llama-3_2-1b-instruct-abliterated_i1-q4_0'' \<or> mid = ''qwen25_main'') \<and> \<not> has_role ''general'' then bind ''general'' db
         else if (mid = ''deepseek-r1-distill-qwen-1_5b-q4_0'' \<or> mid = ''qwen25_coder'') \<and> \<not> has_role ''coder'' then bind ''coder'' db
         else if mid = ''smollm2'' \<and> \<not> has_role ''compressor'' then bind ''compressor'' db
         else if mid = ''nomic_embed'' \<and> \<not> has_role ''embedding'' then bind ''embedding'' db
         else if (mid = ''whisper_turbo'' \<or> mid = ''whisper_base'') \<and> \<not> has_role ''audio_stt'' then bind ''audio_stt'' db
         else if (mid = ''sdxl_lightning_4step'' \<or> mid = ''sd15'') \<and> \<not> has_role ''image_gen'' then bind ''vision_sd'' (bind ''image_gen'' db)
         else db)"

record inspection =
  in_is_valid :: bool
  in_native_tensor_compatible :: bool
  in_architecture :: string
  in_param_count :: u64
  in_param_size_str :: string
  in_quant_type :: string
  in_context_length :: u32

definition is_supported_edge_size :: "inspection \<Rightarrow> bool" where
  "is_supported_edge_size i \<longleftrightarrow> in_param_count i \<le> (if in_architecture i = ''diffusion'' \<or> in_architecture i = ''unet'' then 4000000000 else 1850000000)"

text \<open>What discovery sees of the disk: the inspection of a file, and the regular files below a directory up to the first error.\<close>

record disk_view =
  dv_os :: os_env
  dv_inspect :: "string \<Rightarrow> inspection"
  dv_files :: "string \<Rightarrow> string list"
  dv_ok :: bool
  dv_now :: int

record discovery =
  ds_count :: nat
  ds_existing :: "local_model list"
  ds_db :: model_db

definition relocated :: "disk_view \<Rightarrow> string \<Rightarrow> local_model \<Rightarrow> local_model" where
  "relocated V path m =
     (let insp = dv_inspect V path; m1 = m\<lparr>lm_file_path := path\<rparr>
      in if extension_of (filename_of path) = ''.gguf'' \<and> in_is_valid insp
         then m1\<lparr>lm_architecture := in_architecture insp, lm_param_count := in_param_count insp, lm_param_size_str := in_param_size_str insp,
                 lm_quant_type := in_quant_type insp, lm_context_length := in_context_length insp\<rparr>
         else m1)"

fun check_and_update_existing :: "disk_view \<Rightarrow> string \<Rightarrow> string \<Rightarrow> local_model list \<Rightarrow> model_db \<Rightarrow> (local_model list \<times> model_db) option" where
  "check_and_update_existing V path mid [] db = None"
| "check_and_update_existing V path mid (m # ms) db =
     (if lm_model_id m = mid \<or> filename_of (lm_file_path m) = filename_of path
      then if lm_file_path m \<noteq> path \<and> \<not> file_exists (dv_os V) (lm_file_path m) \<and> file_exists (dv_os V) path
           then Some (relocated V path m # ms, snd (register_model (dv_ok V) (dv_now V) (relocated V path m) db))
           else Some (m # ms, db)
      else map_option (\<lambda>(ms', db'). (m # ms', db')) (check_and_update_existing V path mid ms db))"

definition register_found :: "disk_view \<Rightarrow> local_model \<Rightarrow> discovery \<Rightarrow> discovery" where
  "register_found V rec s =
     (let (done, db) = register_model (dv_ok V) (dv_now V) rec (ds_db s)
      in if done then s\<lparr>ds_count := ds_count s + 1, ds_existing := ds_existing s @ [rec], ds_db := bind_roles_for_id (dv_ok V) (dv_now V) (lm_model_id rec) db\<rparr>
         else s\<lparr>ds_db := db\<rparr>)"

definition fixed_record :: "string \<Rightarrow> string \<Rightarrow> string \<Rightarrow> u64 \<Rightarrow> string \<Rightarrow> string \<Rightarrow> u32 \<Rightarrow> local_model" where
  "fixed_record mid path arch params sz quant ctx =
     \<lparr>lm_model_id = mid, lm_file_path = path, lm_architecture = arch, lm_param_count = params, lm_param_size_str = sz, lm_quant_type = quant,
      lm_context_length = ctx, lm_is_verified = True, lm_updated_at = 0\<rparr>"

definition visit_file :: "disk_view \<Rightarrow> string \<Rightarrow> discovery \<Rightarrow> discovery" where
  "visit_file V path s =
     (let filename = filename_of path; ext = extension_of filename;
          known = (\<lambda>mid k. case check_and_update_existing V path mid (ds_existing s) (ds_db s) of
                     Some (ms, db) \<Rightarrow> s\<lparr>ds_existing := ms, ds_db := db\<rparr> | None \<Rightarrow> k)
      in if ext = ''.gguf''
         then let mid = derive_model_id filename; insp = dv_inspect V path
              in known mid
                   (if in_is_valid insp \<and> is_supported_edge_size insp \<and> in_native_tensor_compatible insp
                    then register_found V (fixed_record mid path (in_architecture insp) (in_param_count insp) (in_param_size_str insp)
                           (in_quant_type insp) (in_context_length insp)) s
                    else s)
         else if filename = ''ggml-base.en.bin'' \<or> contains filename ''whisper''
         then known ''whisper_base'' (register_found V (fixed_record ''whisper_base'' path ''whisper'' 72593920 ''72M'' ''FP32'' 448) s)
         else if ext = ''.safetensors'' \<or> contains filename ''v1-5-pruned''
         then known ''sd15'' (register_found V (fixed_record ''sd15'' path ''diffusion'' 860000000 ''860M'' ''FP16'' 77) s)
         else s)"

definition search_dirs :: "os_env \<Rightarrow> path_service \<Rightarrow> string \<Rightarrow> string list" where
  "search_dirs E ps base_dir =
     (let default_user = expand_user E ''~/.denselite/models''; user_dir = ps_models_dir ps;
          internal_dir = (if base_dir = [] then ps_base_dir ps else base_dir) @ ''/models''
      in (if file_exists E default_user then [default_user] else []) @
         (if file_exists E user_dir \<and> user_dir \<noteq> default_user then [user_dir] else []) @
         (if file_exists E internal_dir \<and> internal_dir \<noteq> default_user \<and> internal_dir \<noteq> user_dir then [internal_dir] else []))"

definition auto_discover_and_register :: "disk_view \<Rightarrow> path_service \<Rightarrow> string \<Rightarrow> model_db \<Rightarrow> nat \<times> model_db" where
  "auto_discover_and_register V ps base_dir db =
     (let s = fold (\<lambda>dir. fold (visit_file V) (dv_files V dir)) (search_dirs (dv_os V) ps base_dir)
                \<lparr>ds_count = 0, ds_existing = get_all_models db, ds_db = db\<rparr>
      in (ds_count s, ds_db s))"

section \<open>Resident models\<close>

definition get_role_priority :: "string \<Rightarrow> nat" where
  "get_role_priority role =
     (if role = ''router'' then 1 else if role = ''embedding'' then 2 else if role = ''general'' then 3 else if role = ''compressor'' then 4
      else if role = ''coder'' then 5 else if role = ''audio_stt'' then 6 else if role = ''image_gen'' \<or> role = ''vision_sd'' then 7 else 99)"

definition env_of_line :: "string \<Rightarrow> (string, string) omap \<Rightarrow> (string, string) omap" where
  "env_of_line line env =
     (if line = [] \<or> hd line = CHR ''#'' then env
      else case str_find ''='' line of None \<Rightarrow> env | Some pos \<Rightarrow> om_put (take pos line) (unquote (drop (Suc pos) line)) env)"

definition loader_env :: "string option \<Rightarrow> (string, string) omap" where
  "loader_env contents = (case contents of None \<Rightarrow> [] | Some s \<Rightarrow> fold env_of_line (get_lines [] s) [])"

text \<open>The bit pattern of a \<open>float\<close> as the number it stands for.\<close>

definition flt_of_f32 :: "f32 \<Rightarrow> flt" where
  "flt_of_f32 f =
     (let bits = uint f; neg = 2 ^ 31 \<le> bits; e = (bits div 2 ^ 23) mod 2 ^ 8; m = bits mod 2 ^ 23;
          sig = (if e = 0 then m else m + 2 ^ 23); e1 = max e 1; sgnd = (if neg then - sig else sig)
      in if e = 255 then (if m = 0 then FInf neg else FNaN)
         else if 150 \<le> e1 then FFin (sgnd * 2 ^ nat (e1 - 150)) 0 else FFin sgnd (nat (150 - e1)))"

definition load_model :: "os_env \<Rightarrow> (string \<Rightarrow> u8 list option) \<Rightarrow> string \<Rightarrow> dense_model \<Rightarrow> gguf_error + dense_model option" where
  "load_model E disk path m = (if \<not> file_exists E path then Inr None else sbind (load_gguf_model disk path m) (\<lambda>r. Inr (map_option fst r)))"

record load_ctx =
  lc_os :: os_env
  lc_disk :: "string \<Rightarrow> u8 list option"
  lc_size :: "string \<Rightarrow> size_t"
  lc_paths :: path_service
  lc_base_dir :: string
  lc_db :: model_db
  lc_headroom :: flt
  lc_governor :: resource_governor

record loader_state =
  ls_resident :: "(string, dense_model) omap"
  ls_loaded :: "(string, string) omap"
  ls_available :: size_t

definition bytes_of :: "load_ctx \<Rightarrow> string \<Rightarrow> size_t" where
  "bytes_of L path = (if file_exists (lc_os L) path then lc_size L path else 0)"

definition overhead_of :: "size_t \<Rightarrow> size_t" where
  "overhead_of file_bytes = (if file_bytes < 3 * 1024 * 1024 * 1024 then 200 * 1024 * 1024 else 300 * 1024 * 1024)"

definition placement :: "load_ctx \<Rightarrow> string \<Rightarrow> device_context" where
  "placement L path = (if can_admit_gpu_vram (lc_governor L) (bytes_of L path) (overhead_of (bytes_of L path)) then GPU else CPU)"

definition role_aliases :: "string \<Rightarrow> string list" where
  "role_aliases role =
     (if role = ''general'' then [''llama_main'', ''qwen_main'', ''qwen25_main'']
      else if role = ''coder'' then [''deepseek_coder'', ''qwen_coder'', ''qwen25_coder'']
      else if role = ''compressor'' then [''smollm2''] else if role = ''embedding'' then [''nomic'', ''nomic_embed''] else [])"

text \<open>A role is left to be loaded on demand.\<close>

definition held_back :: "load_ctx \<Rightarrow> role_binding \<Rightarrow> local_model \<Rightarrow> string \<Rightarrow> size_t \<Rightarrow> bool" where
  "held_back L b rec path available \<longleftrightarrow>
     5 \<le> get_role_priority (rb_role b) \<and>
     (rb_role b = ''audio_stt'' \<or> rb_role b = ''image_gen'' \<or> lm_architecture rec = ''whisper'' \<or> lm_architecture rec = ''diffusion'' \<or>
      available < flt_times_size (bytes_of L path) (lc_headroom L))"

definition add_resident :: "load_ctx \<Rightarrow> role_binding \<Rightarrow> dense_model \<Rightarrow> loader_state \<Rightarrow> loader_state" where
  "add_resident L b m ls =
     ls\<lparr>ls_resident := fold (\<lambda>alias r. om_put alias m r) (role_aliases (rb_role b)) (om_put (rb_model_id b) m (om_put (rb_role b) m (ls_resident ls)))\<rparr>"

definition load_binding :: "load_ctx \<Rightarrow> role_binding \<Rightarrow> loader_state \<Rightarrow> gguf_error + loader_state" where
  "load_binding L b ls =
     (case get_model (rb_model_id b) (lc_db L) of
        None \<Rightarrow> Inr ls
      | Some rec \<Rightarrow>
          let path = resolve_model_path (lc_os L) (lc_paths L) (lm_file_path rec) (lc_base_dir L); file_bytes = bytes_of L path
          in if \<not> lm_is_verified rec \<or> rb_role b = ''router'' \<or> held_back L b rec path (ls_available ls) then Inr ls
             else case map_of (ls_loaded ls) path of
               Some src_role \<Rightarrow>
                 Inr (add_resident L b (case map_of (ls_resident ls) src_role of Some m \<Rightarrow> m | None \<Rightarrow> new_dense_model) ls)
             | None \<Rightarrow>
                 sbind (load_model (lc_os L) (lc_disk L) path new_dense_model) (\<lambda>res.
                   case res of
                     None \<Rightarrow> Inr ls
                   | Some m0 \<Rightarrow>
                       let m = (upd_config (\<lambda>c. c\<lparr>model_id := lm_model_id rec\<rparr>) m0)\<lparr>dm_execution_context := placement L path\<rparr>
                       in Inr (add_resident L b m
                            (ls\<lparr>ls_loaded := om_put path (rb_role b) (ls_loaded ls),
                                ls_available := (if file_bytes < ls_available ls then ls_available ls - file_bytes else 0)\<rparr>))))"

text \<open>
  \<open>load_resident_models\<close>: the base directory is set, the disk searched, and the roles loaded in the order of their priority. \<open>dev\<close> is the device
  found, \<open>proc\<close> the readings of the host; the result says whether a model is resident.
\<close>

definition load_resident_models ::
  "(role_binding list \<Rightarrow> role_binding list) \<Rightarrow> disk_view \<Rightarrow> (string \<Rightarrow> u8 list option) \<Rightarrow> (string \<Rightarrow> size_t) \<Rightarrow> vulkan_device \<Rightarrow> proc_env
     \<Rightarrow> resource_config \<Rightarrow> string \<Rightarrow> path_service \<Rightarrow> model_db \<Rightarrow> (string, dense_model) omap
     \<Rightarrow> gguf_error + bool \<times> (string, dense_model) omap \<times> path_service \<times> model_db" where
  "load_resident_models srt V disk fsize dev proc res_cfg base_dir ps db resident =
     (let ps1 = set_base_dir (if base_dir = [] then ''.'' else base_dir) ps;
          db1 = snd (auto_discover_and_register V ps1 base_dir db);
          db_roles = get_all_role_bindings False db1
      in if db_roles = [] then Inr (False, resident, ps1, db1)
         else
           let ram_budget = compute_safe_ram_ceiling proc (flt_of_f32 (rsc_ram_budget_percent res_cfg));
               current_rss = get_process_rss_bytes proc;
               available_ram = (if current_rss < ram_budget then ram_budget - current_rss else 0);
               L = \<lparr>lc_os = dv_os V, lc_disk = disk, lc_size = fsize, lc_paths = ps1, lc_base_dir = base_dir, lc_db = db1,
                    lc_headroom = flt_of_f32 (rsc_headroom_safety_multiplier res_cfg), lc_governor = make_governor (Some dev) proc (flt_of_f32 (rsc_ram_budget_percent res_cfg))\<rparr>
           in sbind (sfold (load_binding L) (srt db_roles) \<lparr>ls_resident = resident, ls_loaded = [], ls_available = available_ram\<rparr>) (\<lambda>ls.
                Inr (ls_resident ls \<noteq> [], ls_resident ls, ps1, db1)))"

section \<open>The inventory keeps its keys\<close>

definition inventory_ok :: "model_db \<Rightarrow> bool" where
  "inventory_ok db \<longleftrightarrow> distinct (map lm_model_id (md_models db)) \<and> distinct (map lm_file_path (md_models db)) \<and> distinct (map rb_role (md_roles db))"

lemma distinct_replace: "distinct (map f xs) \<Longrightarrow> (\<And>x. x \<in> set xs \<Longrightarrow> P x \<Longrightarrow> f x \<noteq> f y) \<Longrightarrow> distinct (map f (filter P xs @ [y]))"
  by (auto simp: distinct_map_filter dest: sym)

lemma inventory_ok_register: "inventory_ok db \<Longrightarrow> inventory_ok (snd (register_model ok now rec db))"
  unfolding inventory_ok_def register_model_def Let_def by (auto intro!: distinct_replace simp del: map_append)

lemma inventory_ok_delete: "inventory_ok db \<Longrightarrow> inventory_ok (snd (delete_model ok mid db))"
  by (auto simp: inventory_ok_def delete_model_def distinct_map_filter)

lemma inventory_ok_bind: "inventory_ok db \<Longrightarrow> inventory_ok (snd (bind_role ok now role mid active db))"
  unfolding inventory_ok_def bind_role_def by (auto intro!: distinct_replace simp del: map_append)

lemma inventory_ok_unbind: "inventory_ok db \<Longrightarrow> inventory_ok (snd (unbind_role ok role db))"
  by (auto simp: inventory_ok_def unbind_role_def distinct_map_filter)

lemma inventory_ok_active: "inventory_ok db \<Longrightarrow> inventory_ok (snd (set_role_active ok now role active db))"
  by (simp add: inventory_ok_def set_role_active_def comp_def if_distrib [of rb_role] cong: if_cong)

lemmas inventory_steps = inventory_ok_register inventory_ok_delete inventory_ok_bind inventory_ok_unbind inventory_ok_active

lemma inventory_ok_roles: "inventory_ok db \<Longrightarrow> inventory_ok (bind_roles_for_id ok now mid db)"
  by (simp add: bind_roles_for_id_def Let_def inventory_ok_bind)

lemma check_existing_ok: "inventory_ok db \<Longrightarrow> check_and_update_existing V path mid ms db = Some (ms', db') \<Longrightarrow> inventory_ok db'"
  by (induction V path mid ms db arbitrary: ms' rule: check_and_update_existing.induct) (auto split: if_splits intro: inventory_ok_register)

lemma register_found_ok: "inventory_ok (ds_db s) \<Longrightarrow> inventory_ok (ds_db (register_found V rec s))"
  using inventory_ok_register [of "ds_db s" "dv_ok V" "dv_now V" rec] by (auto simp: register_found_def Let_def inventory_ok_roles split: prod.splits)

lemma visit_file_ok: "inventory_ok (ds_db s) \<Longrightarrow> inventory_ok (ds_db (visit_file V path s))"
  using check_existing_ok [of "ds_db s" V path _ "ds_existing s"]
  by (auto simp: visit_file_def Let_def register_found_ok split: option.splits)

text \<open>Discovery keeps identifiers, paths and roles unique.\<close>

lemma discovery_ok: "inventory_ok db \<Longrightarrow> inventory_ok (snd (auto_discover_and_register V ps base_dir db))"
proof -
  assume db: "inventory_ok db"
  have f: "inventory_ok (ds_db s) \<Longrightarrow> inventory_ok (ds_db (fold (visit_file V) fs s))" for fs s
    by (induction fs arbitrary: s) (auto intro: visit_file_ok)
  have "inventory_ok (ds_db s) \<Longrightarrow> inventory_ok (ds_db (fold (\<lambda>dir. fold (visit_file V) (dv_files V dir)) dirs s))" for dirs s
    by (induction dirs arbitrary: s) (auto intro: f)
  then show ?thesis using db by (simp add: auto_discover_and_register_def Let_def)
qed

text \<open>
  Deleting a model leaves its roles: the role goes on naming the model that is no longer in the inventory.
\<close>

theorem deleted_model_keeps_role:
  assumes "md_open db" and "get_model mid db = Some rec" and "get_model_for_role role db = c_str mid"
  shows "fst (delete_model True mid db) \<and> get_model mid (snd (delete_model True mid db)) = None \<and>
    get_model_for_role role (snd (delete_model True mid db)) = c_str mid"
  using assms by (auto simp: delete_model_def get_model_def get_model_for_role_def find_Some_iff find_None_iff list_ex_iff)

section \<open>Optional models fit\<close>

lemma headroom_covers:
  assumes "unat n < 2 ^ 63"
  shows "n \<le> flt_times_size n (flt_of_f32 0x3F8CCCCD)"
proof -
  let ?r1 = "round_sig 24 (unat n)" and ?m = "9227469 :: nat"
  let ?r2 = "round_sig 24 (?r1 * ?m)"
  have f: "flt_of_f32 0x3F8CCCCD = FFin 9227469 23" by (simp add: flt_of_f32_def Let_def)
  have a: "unat n * (2 ^ 24 - 1) \<le> ?r1 * 2 ^ 24" using round_sig_error(2) [of 24 "unat n"] by simp
  have b: "?r1 * ?m * (2 ^ 24 - 1) \<le> ?r2 * 2 ^ 24" using round_sig_error(2) [of 24 "?r1 * ?m"] by simp
  have "unat n * (2 ^ 24 - 1) * (?m * (2 ^ 24 - 1)) \<le> ?r1 * 2 ^ 24 * (?m * (2 ^ 24 - 1))" using a by (rule mult_le_mono1)
  also have "\<dots> = ?r1 * ?m * (2 ^ 24 - 1) * 2 ^ 24" by simp
  also have "\<dots> \<le> ?r2 * 2 ^ 24 * 2 ^ 24" using b by (rule mult_le_mono1)
  finally have "unat n * 2 ^ 23 \<le> ?r2" by simp
  then have lo: "unat n \<le> ?r2 div 2 ^ 23" using div_le_mono [of "unat n * 2 ^ 23" ?r2 "2 ^ 23"] by simp
  have "?r1 * 2 ^ 24 \<le> unat n * (2 ^ 24 + 1)" "?r2 * 2 ^ 24 \<le> ?r1 * ?m * (2 ^ 24 + 1)" using round_sig_error(1) [of 24 "unat n"] round_sig_error(1) [of 24 "?r1 * ?m"] by simp_all
  then have "?r2 div 2 ^ 23 < 2 ^ 64" using assms by (simp add: less_mult_imp_div_less)
  then show ?thesis using lo by (simp add: flt_times_size_def f word_le_nat_alt unat_of_nat take_bit_nat_eq_self)
qed

text \<open>The bytes of the optional models (coding, audio and vision) that have been loaded.\<close>

definition optional_bytes :: "load_ctx \<Rightarrow> loader_state \<Rightarrow> nat" where
  "optional_bytes L ls = om_sum (\<lambda>(path, role). if 5 \<le> get_role_priority role then unat (bytes_of L path) else 0) (ls_loaded ls)"

lemma add_resident_other [simp]: "ls_loaded (add_resident L b m ls) = ls_loaded ls" "ls_available (add_resident L b m ls) = ls_available ls"
  by (simp_all add: add_resident_def)

lemma load_binding_fits:
  assumes "lc_headroom L = flt_of_f32 0x3F8CCCCD" and "\<And>p. unat (bytes_of L p) < 2 ^ 63" and "load_binding L b ls = Inr ls'"
  shows "optional_bytes L ls' + unat (ls_available ls') \<le> optional_bytes L ls + unat (ls_available ls)"
proof (cases "ls_loaded ls' = ls_loaded ls \<and> ls_available ls' = ls_available ls")
  case True
  then show ?thesis by (simp add: optional_bytes_def)
next
  case False
  obtain rec where g: "get_model (rb_model_id b) (lc_db L) = Some rec" using assms(3) False by (cases "get_model (rb_model_id b) (lc_db L)") (auto simp: load_binding_def)
  define path where "path = resolve_model_path (lc_os L) (lc_paths L) (lm_file_path rec) (lc_base_dir L)"
  note unfold = assms(3) [unfolded load_binding_def g option.case Let_def, folded path_def]
  have h: "\<not> held_back L b rec path (ls_available ls)" "lm_is_verified rec" "rb_role b \<noteq> ''router''" using unfold False by (auto split: if_splits)
  have new: "map_of (ls_loaded ls) path = None" using unfold False h by (cases "map_of (ls_loaded ls) path") auto
  obtain m where ls': "ls' = add_resident L b m (ls\<lparr>ls_loaded := om_put path (rb_role b) (ls_loaded ls),
      ls_available := (if bytes_of L path < ls_available ls then ls_available ls - bytes_of L path else 0)\<rparr>)"
    using unfold False h new by (auto simp: sbind_Inr split: option.splits)
  have l: "ls_loaded ls' = om_put path (rb_role b) (ls_loaded ls)"
      and a: "ls_available ls' = (if bytes_of L path < ls_available ls then ls_available ls - bytes_of L path else 0)"
    by (simp_all add: ls')
  have s: "optional_bytes L ls' = (if 5 \<le> get_role_priority (rb_role b) then unat (bytes_of L path) else 0) + optional_bytes L ls"
    unfolding optional_bytes_def l using om_sum_put_new [OF new, of "\<lambda>(path, role). if 5 \<le> get_role_priority role then unat (bytes_of L path) else 0" "rb_role b"] by simp
  have av: "unat (ls_available ls') \<le> unat (ls_available ls) - unat (bytes_of L path)"
    unfolding a by (auto simp: unat_sub word_less_nat_alt word_le_nat_alt)
  show ?thesis
  proof (cases "5 \<le> get_role_priority (rb_role b)")
    case True
    then have "bytes_of L path \<le> ls_available ls"
      using h(1) headroom_covers [OF assms(2), of path] assms(1) by (auto simp: held_back_def)
    then show ?thesis using s av True by (simp add: word_le_nat_alt)
  next
    case False
    then show ?thesis using s av by simp
  qed
qed

text \<open>
  Optional models fit: with the default headroom the coding, audio and vision models that are loaded at start have together no more bytes than the memory
  that was available, whatever the order of the roles and the sizes of the other models.
\<close>

theorem optional_models_fit:
  assumes "lc_headroom L = flt_of_f32 (rsc_headroom_safety_multiplier default_resource_config)" and "\<And>p. unat (bytes_of L p) < 2 ^ 63"
    and "sfold (load_binding L) bs \<lparr>ls_resident = resident, ls_loaded = [], ls_available = available\<rparr> = Inr ls"
  shows "optional_bytes L ls \<le> unat available"
proof -
  have d: "lc_headroom L = flt_of_f32 0x3F8CCCCD" using assms(1) by (simp add: default_resource_config_def)
  have "sfold (load_binding L) bs s = Inr s' \<Longrightarrow> optional_bytes L s' + unat (ls_available s') \<le> optional_bytes L s + unat (ls_available s)" for s s'
  proof (induction bs arbitrary: s)
    case (Cons b bs)
    then obtain s1 where "load_binding L b s = Inr s1" "sfold (load_binding L) bs s1 = Inr s'" by (auto simp: sbind_Inr)
    then show ?case using load_binding_fits [OF d assms(2), of b s s1] Cons.IH [of s1] by simp
  qed simp
  from this [OF assms(3)] show ?thesis by (simp add: optional_bytes_def om_sum_def)
qed

lemma bytes_of_db [simp]: "bytes_of (L\<lparr>lc_db := db\<rparr>) = bytes_of L"
  by (simp add: fun_eq_iff bytes_of_def)

lemma ctx_db:
  "placement (L\<lparr>lc_db := db\<rparr>) = placement L" "held_back L (b\<lparr>rb_is_active := x, rb_updated_at := t\<rparr>) = held_back L b"
  "held_back (L\<lparr>lc_db := db\<rparr>) = held_back L" "add_resident L (b\<lparr>rb_is_active := x, rb_updated_at := t\<rparr>) = add_resident L b"
  "add_resident (L\<lparr>lc_db := db\<rparr>) = add_resident L" "bytes_of (L\<lparr>lc_db := db\<rparr>) = bytes_of L"
  "lc_os (L\<lparr>lc_db := db\<rparr>) = lc_os L" "lc_disk (L\<lparr>lc_db := db\<rparr>) = lc_disk L" "lc_paths (L\<lparr>lc_db := db\<rparr>) = lc_paths L"
  "lc_base_dir (L\<lparr>lc_db := db\<rparr>) = lc_base_dir L" "lc_db (L\<lparr>lc_db := db\<rparr>) = db"
  "rb_role (b\<lparr>rb_is_active := x, rb_updated_at := t\<rparr>) = rb_role b" "rb_model_id (b\<lparr>rb_is_active := x, rb_updated_at := t\<rparr>) = rb_model_id b"
  by (simp_all add: fun_eq_iff placement_def held_back_def add_resident_def)

text \<open>
  Deactivating a role does not keep its model from being loaded: the loader asks for all bindings and does not look at the flag.
\<close>

theorem deactivated_role_is_loaded:
  assumes "snd (set_role_active True now role False db) = db'"
  shows "sfold (load_binding (L\<lparr>lc_db := db'\<rparr>)) (get_all_role_bindings False db') ls = sfold (load_binding (L\<lparr>lc_db := db\<rparr>)) (get_all_role_bindings False db) ls"
proof (cases "md_open db")
  case True
  have g: "get_model mid db' = get_model mid db" for mid using assms True by (auto simp: set_role_active_def get_model_def)
  have b: "load_binding K (b\<lparr>rb_is_active := x, rb_updated_at := t\<rparr>) = load_binding K b"
      "load_binding (L\<lparr>lc_db := db'\<rparr>) b = load_binding (L\<lparr>lc_db := db\<rparr>) b" for b x t K
    unfolding load_binding_def fun_eq_iff ctx_db g by simp_all
  have "sfold (load_binding (L\<lparr>lc_db := db'\<rparr>)) (map (\<lambda>b. if rb_role b = c_str role then b\<lparr>rb_is_active := False, rb_updated_at := now\<rparr> else b) bs) s =
      sfold (load_binding (L\<lparr>lc_db := db\<rparr>)) bs s" for bs s
    by (induction bs arbitrary: s) (auto simp: b sbind_def split: sum.split)
  then show ?thesis using assms True by (auto simp: set_role_active_def get_all_role_bindings_def)
next
  case False
  then show ?thesis using assms by (auto simp: set_role_active_def get_all_role_bindings_def)
qed

section \<open>Examples\<close>

definition demo_model :: local_model where
  "demo_model = fixed_record ''m'' ''/m.gguf'' ''llama'' 1000 ''1000'' ''Q8_0'' 2048"

definition demo_model_db :: model_db where
  "demo_model_db = \<lparr>md_open = True, md_models = [demo_model], md_roles = [\<lparr>rb_role = ''coder'', rb_model_id = ''m'', rb_is_active = True, rb_updated_at = 1\<rparr>]\<rparr>"

definition demo_load_ctx :: load_ctx where
  "demo_load_ctx =
     \<lparr>lc_os = demo_os\<lparr>oe_exists := (\<lambda>p. Some True)\<rparr>, lc_disk = (\<lambda>p. Some []), lc_size = (\<lambda>p. 1000), lc_paths = new_path_service demo_os, lc_base_dir = [],
      lc_db = demo_model_db, lc_headroom = flt_of_f32 0x3F8CCCCD, lc_governor = make_governor None (Resource_Governor.demo_env []) (FFin 1 1)\<rparr>"

theorem deleted_model_keeps_role_witness:
  "get_model ''m'' (snd (delete_model True ''m'' demo_model_db)) = None \<and> get_model_for_role ''coder'' (snd (delete_model True ''m'' demo_model_db)) = ''m''"
  using deleted_model_keeps_role [of demo_model_db "''m''" demo_model "''coder''"]
  by (simp add: demo_model_db_def get_model_def get_model_for_role_def demo_model_def fixed_record_def c_str_def)

theorem optional_models_fit_witness:
  "\<exists>ls. sfold (load_binding demo_load_ctx) (md_roles demo_model_db) \<lparr>ls_resident = [], ls_loaded = [], ls_available = 5000\<rparr> = Inr ls \<and> optional_bytes demo_load_ctx ls \<le> 5000"
proof -
  have h: "lc_headroom demo_load_ctx = flt_of_f32 (rsc_headroom_safety_multiplier default_resource_config)" by (simp add: demo_load_ctx_def default_resource_config_def)
  have b: "unat (bytes_of demo_load_ctx p) < 2 ^ 63" for p by (simp add: bytes_of_def demo_load_ctx_def)
  let ?s0 = "\<lparr>ls_resident = [], ls_loaded = [], ls_available = 5000\<rparr>"
  have "\<exists>ls. load_binding demo_load_ctx \<lparr>rb_role = ''coder'', rb_model_id = ''m'', rb_is_active = True, rb_updated_at = 1\<rparr> ?s0 = Inr ls"
    by (auto simp: load_binding_def Let_def load_model_def load_gguf_model_def demo_load_ctx_def sbind_def split: option.split)
  then obtain ls where l: "sfold (load_binding demo_load_ctx) (md_roles demo_model_db) \<lparr>ls_resident = [], ls_loaded = [], ls_available = 5000\<rparr> = Inr ls"
    by (auto simp: demo_model_db_def sbind_Inr)
  then show ?thesis using optional_models_fit [OF h b l] by auto
qed

theorem deactivated_role_is_loaded_witness:
  "sfold (load_binding (demo_load_ctx\<lparr>lc_db := snd (set_role_active True 9 ''coder'' False demo_model_db)\<rparr>))
     (get_all_role_bindings False (snd (set_role_active True 9 ''coder'' False demo_model_db))) \<lparr>ls_resident = [], ls_loaded = [], ls_available = 5000\<rparr> =
   sfold (load_binding demo_load_ctx) (md_roles demo_model_db) \<lparr>ls_resident = [], ls_loaded = [], ls_available = 5000\<rparr>"
  using deactivated_role_is_loaded [of 9 "''coder''" demo_model_db _ demo_load_ctx "\<lparr>ls_resident = [], ls_loaded = [], ls_available = 5000\<rparr>"]
  by (simp add: get_all_role_bindings_def demo_model_db_def demo_load_ctx_def)

end
