(* ===== verification/Model_Inspector.thy ===== *)
theory Model_Inspector
  imports Model_Catalog Byte_Codec
begin

text \<open>
  The inspection of a model file before it is registered (\<open>model_inspector.cpp\<close>): the metadata and the tensor table are read with an input stream, and
  architecture, size, quantisation and roles are derived.

  The stream is the bytes that are left and its good state. Seeking behind the end succeeds and leaves nothing to read; on a stream that is not good it does
  nothing. Nested arrays recurse, so \<open>skip_val\<close> has a depth budget, the length of the file, which is shown to be enough. The printing of the rounded
  parameter count is an argument.
\<close>

section \<open>Reading\<close>

definition rd_u64 :: "istream \<Rightarrow> u64 \<times> istream" where
  "rd_u64 s = (let (b, s1) = in_read 8 (replicate 8 0) s in (dec_u64 b, s1))"

definition rd_u32_over :: "u32 \<Rightarrow> istream \<Rightarrow> u32 \<times> istream" where
  "rd_u32_over old s = (let (b, s1) = in_read 4 (enc_u32 old) s in (dec_u32 b, s1))"

definition seek_by :: "nat \<Rightarrow> istream \<Rightarrow> istream" where
  "seek_by n s = (if snd s then (drop n (fst s), True) else s)"

definition read_str :: "istream \<Rightarrow> string \<times> istream" where
  "read_str s =
     (let (len, s1) = rd_u64 s
      in if 4096 < len then ([], s1)
         else let (b, s2) = in_read (unat len) (replicate (unat len) 0) s1 in (map char_of_byte b, s2))"

fun skip_many :: "(istream \<Rightarrow> istream option) \<Rightarrow> nat \<Rightarrow> istream \<Rightarrow> istream option" where
  "skip_many f 0 s = Some s"
| "skip_many f (Suc n) s = (if snd s then case f s of None \<Rightarrow> None | Some s1 \<Rightarrow> skip_many f n s1 else Some s)"

fun skip_val :: "nat \<Rightarrow> u32 \<Rightarrow> istream \<Rightarrow> istream option" where
  "skip_val 0 t s = None"
| "skip_val (Suc d) t s =
     (if t = 0 \<or> t = 1 \<or> t = 7 then Some (seek_by 1 s)
      else if t = 2 \<or> t = 3 then Some (seek_by 2 s)
      else if t = 4 \<or> t = 5 \<or> t = 6 then Some (seek_by 4 s)
      else if t = 10 \<or> t = 11 \<or> t = 12 then Some (seek_by 8 s)
      else if t = 8 then Some (snd (read_str s))
      else if t = 9
      then (let (arr_type, s1) = rd_u32 s; (arr_len, s2) = rd_u64 s1 in skip_many (skip_val d arr_type) (unat arr_len) s2)
      else Some (seek_by 4 s))"

section \<open>Names and roles\<close>

definition format_param_count :: "(nat \<Rightarrow> nat \<Rightarrow> u64 \<Rightarrow> string) \<Rightarrow> u64 \<Rightarrow> string" where
  "format_param_count print n =
     (if 1000000000 \<le> n then print 1000000000 2 n @ ''B'' else if 1000000 \<le> n then print 1000000 1 n @ ''M'' else nat_digits (unat n))"

definition quant_type_to_string :: "u32 \<Rightarrow> string" where
  "quant_type_to_string ty = tensor_type_name (tensor_type_of ty)"

definition is_role_compatible :: "string \<Rightarrow> string \<Rightarrow> bool" where
  "is_role_compatible arch role =
     (if role \<in> {''general'', ''coder'', ''compressor'', ''router''}
      then arch \<in> {''qwen2'', ''llama'', ''gemma'', ''phi'', ''mistral'', ''bert'', ''modernbert''}
      else if role = ''embedding'' then arch \<in> {''nomic-bert'', ''nomic-bert-moe'', ''bert'', ''modernbert''}
      else if role = ''audio_stt'' then arch = ''whisper''
      else if role = ''image_gen'' then arch \<in> {''diffusion'', ''unet'', ''stable-diffusion'', ''sd1''}
      else False)"

definition is_native_architecture_supported :: "string \<Rightarrow> bool" where
  "is_native_architecture_supported arch \<longleftrightarrow> arch \<in> {''qwen2'', ''llama'', ''smollm'', ''smollm2'', ''mistral''}"

section \<open>The metadata and the tensor table\<close>

record header_info =
  hi_architecture :: string
  hi_context_length :: u32

definition read_entry :: "nat \<Rightarrow> header_info \<Rightarrow> istream \<Rightarrow> (header_info \<times> istream) option" where
  "read_entry d h s =
     (let (key, s1) = read_str s; (ty, s2) = rd_u32 s1
      in if key = ''general.architecture'' \<and> ty = 8 then (let (a, s3) = read_str s2 in Some (h\<lparr>hi_architecture := a\<rparr>, s3))
         else if contains key ''.context_length'' \<and> ty = 4 then (let (n, s3) = rd_u32_over (hi_context_length h) s2 in Some (h\<lparr>hi_context_length := n\<rparr>, s3))
         else (case skip_val d ty s2 of None \<Rightarrow> None | Some s3 \<Rightarrow> Some (h, s3)))"

fun read_entries :: "nat \<Rightarrow> nat \<Rightarrow> header_info \<Rightarrow> istream \<Rightarrow> (header_info \<times> istream) option" where
  "read_entries d 0 h s = Some (h, s)"
| "read_entries d (Suc n) h s =
     (if snd s then case read_entry d h s of None \<Rightarrow> None | Some (h1, s1) \<Rightarrow> read_entries d n h1 s1 else Some (h, s))"

fun read_dims :: "nat \<Rightarrow> u64 \<Rightarrow> istream \<Rightarrow> u64 \<times> istream" where
  "read_dims 0 elements s = (elements, s)"
| "read_dims (Suc n) elements s = (let (dim, s1) = rd_u64 s in read_dims n (elements * dim) s1)"

record tensor_info =
  ti_total :: u64
  ti_counts :: "(u32, u64) omap"
  ti_embd :: bool
  ti_output :: bool
  ti_norm :: bool
  ti_unsupported :: "string list"

definition no_tensors :: tensor_info where
  "no_tensors = \<lparr>ti_total = 0, ti_counts = [], ti_embd = False, ti_output = False, ti_norm = False, ti_unsupported = []\<rparr>"

text \<open>What the loop body does with the name, the number of elements and the type of a tensor.\<close>

definition note_tensor :: "string \<Rightarrow> u64 \<Rightarrow> u32 \<Rightarrow> tensor_info \<Rightarrow> tensor_info" where
  "note_tensor name elements ty ti =
     \<lparr>ti_total = ti_total ti + elements,
      ti_counts = om_put ty ((case map_of (ti_counts ti) ty of Some n \<Rightarrow> n | None \<Rightarrow> 0) + 1) (ti_counts ti),
      ti_embd = (ti_embd ti \<or> name = ''token_embd.weight''),
      ti_output = (ti_output ti \<or> name = ''output.weight'' \<or> name = ''token_embd.weight''),
      ti_norm = (ti_norm ti \<or> name = ''output_norm.weight''),
      ti_unsupported = ti_unsupported ti @ (if native_tensor_supported name (tensor_type_of ty) then [] else [name @ '': '' @ quant_type_to_string ty])\<rparr>"

definition read_tensor :: "tensor_info \<Rightarrow> istream \<Rightarrow> tensor_info \<times> istream" where
  "read_tensor ti s =
     (let (name, s1) = read_str s; (n_dims, s2) = rd_u32 s1; (elements, s3) = read_dims (unat n_dims) 1 s2; (ty, s4) = rd_u32 s3; (offset, s5) = rd_u64 s4
      in (note_tensor name elements ty ti, s5))"

fun read_tensors :: "nat \<Rightarrow> tensor_info \<Rightarrow> istream \<Rightarrow> tensor_info \<times> istream" where
  "read_tensors 0 ti s = (ti, s)"
| "read_tensors (Suc n) ti s = (if snd s then let (ti1, s1) = read_tensor ti s in read_tensors n ti1 s1 else (ti, s))"

definition dominant_type :: "(u32, u64) omap \<Rightarrow> u32" where
  "dominant_type counts = fst (fold (\<lambda>(ty, n) (best, most). if most < n then (ty, n) else (best, most)) counts (8, 0))"

section \<open>The result\<close>

datatype architecture_status = COMPATIBLE | UNSUPPORTED_FAMILY | UNSUPPORTED_ATTENTION_TOPOLOGY | MISSING_CRITICAL_TENSORS

record model_inspection =
  mi_is_valid :: bool
  mi_native_tensor_compatible :: bool
  mi_native_architecture_compatible :: bool
  mi_architecture_status :: architecture_status
  mi_architecture_details :: string
  mi_unsupported_native_tensors :: "string list"
  mi_architecture :: string
  mi_param_count :: u64
  mi_param_size_str :: string
  mi_quant_type :: string
  mi_context_length :: u32
  mi_compatible_roles :: "string list"
  mi_error_message :: string

definition new_inspection :: model_inspection where
  "new_inspection = \<lparr>mi_is_valid = False, mi_native_tensor_compatible = False, mi_native_architecture_compatible = False, mi_architecture_status = COMPATIBLE,
     mi_architecture_details = [], mi_unsupported_native_tensors = [], mi_architecture = [], mi_param_count = 0, mi_param_size_str = [], mi_quant_type = ''UNKNOWN'',
     mi_context_length = 0, mi_compatible_roles = [], mi_error_message = []\<rparr>"

definition all_roles :: "string list" where
  "all_roles = [''general'', ''coder'', ''compressor'', ''router'', ''embedding'', ''audio_stt'', ''image_gen'']"

definition guessed_architecture :: "string \<Rightarrow> string \<Rightarrow> string" where
  "guessed_architecture path arch =
     (let l = lower (filename_of path) in if arch = [] \<and> (contains l ''diffusion'' \<or> contains l ''sd'') then ''diffusion'' else arch)"

definition native_status :: "string \<Rightarrow> tensor_info \<Rightarrow> bool \<times> architecture_status \<times> string" where
  "native_status arch ti =
     (if is_native_architecture_supported arch
      then (if \<not> ti_embd ti \<or> \<not> ti_output ti \<or> \<not> ti_norm ti
            then (False, MISSING_CRITICAL_TENSORS, ''Missing required root transformer tensors (token_embd, output, or output_norm)'')
            else (True, COMPATIBLE, ''Architecture '' @ [CHR 0x27] @ arch @ [CHR 0x27] @ '' is fully compatible with native AVX2 forward pass''))
      else (False, UNSUPPORTED_FAMILY, ''Architecture '' @ [CHR 0x27] @ arch @ [CHR 0x27] @
              '' is not supported by native transformer forward pass (supported: qwen2, llama, smollm2, mistral)''))"

definition max_allowed_params :: "string \<Rightarrow> u64" where
  "max_allowed_params arch = (if arch = ''diffusion'' \<or> arch = ''unet'' then 4000000000 else 1850000000)"

definition conclude :: "(nat \<Rightarrow> nat \<Rightarrow> u64 \<Rightarrow> string) \<Rightarrow> string \<Rightarrow> u64 \<Rightarrow> bool \<Rightarrow> header_info \<Rightarrow> tensor_info \<Rightarrow> model_inspection" where
  "conclude print path tensor_count good h ti =
     (let arch = guessed_architecture path (hi_architecture h); size_str = format_param_count print (ti_total ti);
          res = new_inspection\<lparr>mi_architecture := arch, mi_context_length := hi_context_length h, mi_param_count := ti_total ti, mi_param_size_str := size_str,
            mi_quant_type := quant_type_to_string (dominant_type (ti_counts ti)), mi_unsupported_native_tensors := ti_unsupported ti\<rparr>;
          (native, status, details) = native_status arch ti
      in if max_allowed_params arch < ti_total ti
         then res\<lparr>mi_error_message := ''Parameter count ('' @ size_str @ '') exceeds maximum limit.''\<rparr>
         else res\<lparr>mi_compatible_roles := filter (is_role_compatible arch) all_roles,
                  mi_native_tensor_compatible := (good \<and> 0 < tensor_count \<and> ti_unsupported ti = []),
                  mi_native_architecture_compatible := native, mi_architecture_status := status, mi_architecture_details := details, mi_is_valid := good\<rparr>)"

text \<open>\<open>None\<close> would be an exhausted depth budget. The file is \<open>None\<close> when it does not exist and \<open>Some None\<close> when it cannot be opened.\<close>

definition inspect :: "(nat \<Rightarrow> nat \<Rightarrow> u64 \<Rightarrow> string) \<Rightarrow> (string \<Rightarrow> u8 list option option) \<Rightarrow> string \<Rightarrow> model_inspection option" where
  "inspect print disk path =
     (case disk path of
        None \<Rightarrow> Some (new_inspection\<lparr>mi_error_message := ''File does not exist: '' @ path\<rparr>)
      | Some None \<Rightarrow> Some (new_inspection\<lparr>mi_error_message := ''Failed to open file: '' @ path\<rparr>)
      | Some (Some bytes) \<Rightarrow>
          let (magic, s1) = rd_u32 (bytes, True)
          in if magic \<noteq> GGUF_MAGIC then Some (new_inspection\<lparr>mi_error_message := ''Invalid format: File is not a valid GGUF model.''\<rparr>)
             else let (version, s2) = rd_u32 s1; (tensor_count, s3) = rd_u64 s2; (kv_count, s4) = rd_u64 s3
                  in case read_entries (Suc (length bytes)) (unat kv_count) \<lparr>hi_architecture = [], hi_context_length = 0\<rparr> s4 of
                       None \<Rightarrow> None
                     | Some (h, s5) \<Rightarrow> let (ti, s6) = read_tensors (unat tensor_count) no_tensors s5 in Some (conclude print path tensor_count (snd s6) h ti))"

text \<open>What discovery uses of it.\<close>

definition summary :: "model_inspection \<Rightarrow> inspection" where
  "summary r = \<lparr>in_is_valid = mi_is_valid r, in_native_tensor_compatible = mi_native_tensor_compatible r, in_architecture = mi_architecture r,
     in_param_count = mi_param_count r, in_param_size_str = mi_param_size_str r, in_quant_type = mi_quant_type r, in_context_length = mi_context_length r\<rparr>"

definition has_role :: "model_inspection \<Rightarrow> string \<Rightarrow> bool" where
  "has_role r role \<longleftrightarrow> role \<in> set (mi_compatible_roles r)"

section \<open>The inspection ends\<close>

lemma in_read_shrinks: "length (fst (snd (in_read n buf s))) \<le> length (fst s) \<and> (snd (snd (in_read n buf s)) \<longrightarrow> snd s \<and> length (fst s) = length (fst (snd (in_read n buf s))) + n)"
  by (cases s) (auto simp: in_read_def)

lemma rd_u32_shrinks: "rd_u32 s = (x, s1) \<Longrightarrow> length (fst s1) \<le> length (fst s) \<and> (snd s1 \<longrightarrow> length (fst s) = length (fst s1) + 4)"
  using in_read_shrinks [of 4 "replicate 4 0" s] by (auto simp: rd_u32_def Let_def split: prod.splits)

lemma rd_u64_shrinks: "rd_u64 s = (x, s1) \<Longrightarrow> length (fst s1) \<le> length (fst s) \<and> (snd s1 \<longrightarrow> length (fst s) = length (fst s1) + 8)"
  using in_read_shrinks [of 8 "replicate 8 0" s] by (auto simp: rd_u64_def Let_def split: prod.splits)

lemma seek_shrinks: "length (fst (seek_by n s)) \<le> length (fst s)"
  by (simp add: seek_by_def)

lemma read_str_shrinks: "read_str s = (x, s1) \<Longrightarrow> length (fst s1) \<le> length (fst s)"
proof -
  assume r: "read_str s = (x, s1)"
  obtain len s0 where l: "rd_u64 s = (len, s0)" by (metis prod.exhaust)
  have "length (fst s1) \<le> length (fst s0)" using r l in_read_shrinks [of "unat len" "replicate (unat len) 0" s0] by (auto simp: read_str_def Let_def split: if_splits prod.splits)
  then show ?thesis using rd_u64_shrinks [OF l] by simp
qed

lemma skip_many_ends:
  assumes "\<And>s. length (fst s) \<le> m \<Longrightarrow> \<exists>s1. f s = Some s1 \<and> length (fst s1) \<le> length (fst s)" and "snd s \<longrightarrow> length (fst s) \<le> m"
  shows "\<exists>s1. skip_many f n s = Some s1 \<and> length (fst s1) \<le> length (fst s)"
  using assms(2)
proof (induction n arbitrary: s)
  case (Suc n)
  show ?case
  proof (cases "snd s")
    case True
    then obtain s1 where s1: "f s = Some s1" "length (fst s1) \<le> length (fst s)" using assms(1) Suc.prems by blast
    then have "snd s1 \<longrightarrow> length (fst s1) \<le> m" using Suc.prems True by auto
    then obtain s2 where "skip_many f n s1 = Some s2" "length (fst s2) \<le> length (fst s1)" using Suc.IH by blast
    then show ?thesis using s1 True by auto
  qed auto
qed auto

lemma skip_val_ends: "length (fst s) < d \<Longrightarrow> \<exists>s1. skip_val d t s = Some s1 \<and> length (fst s1) \<le> length (fst s)"
proof (induction d arbitrary: t s)
  case (Suc d)
  show ?case
  proof (cases "t = 9")
    case True
    obtain ty s1 where s1: "rd_u32 s = (ty, s1)" by (metis prod.exhaust)
    obtain n s2 where s2: "rd_u64 s1 = (n, s2)" by (metis prod.exhaust)
    note b = rd_u32_shrinks [OF s1] rd_u64_shrinks [OF s2]
    have "\<exists>s3. skip_many (skip_val d ty) (unat n) s2 = Some s3 \<and> length (fst s3) \<le> length (fst s2)"
    proof (cases "snd s2")
      case True
      then have "snd s1" using s2 in_read_shrinks [of 8 "replicate 8 0" s1] by (auto simp: rd_u64_def Let_def split: prod.splits)
      then have "length (fst s2) < d" using b True Suc.prems by simp
      then show ?thesis using Suc.IH by (intro skip_many_ends [where m = "length (fst s2)"]) auto
    next
      case False
      then show ?thesis by (cases "unat n") auto
    qed
    then show ?thesis using True s1 s2 b by auto
  next
    case False
    obtain x s1 where x: "read_str s = (x, s1)" by (metis prod.exhaust)
    show ?thesis using False seek_shrinks [of _ s] read_str_shrinks [OF x] x by (simp del: split_paired_Ex)
  qed
qed simp

lemma read_entry_ends:
  assumes "length (fst s) < d"
  shows "\<exists>h1 s1. read_entry d h s = Some (h1, s1) \<and> length (fst s1) \<le> length (fst s)"
proof -
  obtain key s1 where k: "read_str s = (key, s1)" by (metis prod.exhaust)
  obtain ty s2 where t: "rd_u32 s1 = (ty, s2)" by (metis prod.exhaust)
  obtain a s3 where a: "read_str s2 = (a, s3)" by (metis prod.exhaust)
  obtain n s4 where n: "rd_u32_over (hi_context_length h) s2 = (n, s4)" by (metis prod.exhaust)
  have l: "length (fst s2) \<le> length (fst s)" using read_str_shrinks [OF k] rd_u32_shrinks [OF t] by simp
  have l3: "length (fst s3) \<le> length (fst s)" using l read_str_shrinks [OF a] by simp
  have l4: "length (fst s4) \<le> length (fst s)"
    using l n in_read_shrinks [of 4 "enc_u32 (hi_context_length h)" s2] by (auto simp: rd_u32_over_def Let_def split: prod.splits)
  obtain s5 where "skip_val d ty s2 = Some s5" "length (fst s5) \<le> length (fst s)" using skip_val_ends [of s2 d ty] l assms by auto
  then show ?thesis using k t a n l3 l4 by (simp add: read_entry_def Let_def del: split_paired_Ex)
qed

lemma read_entries_end: "length (fst s) < d \<Longrightarrow> \<exists>r. read_entries d n h s = Some r"
proof (induction n arbitrary: h s)
  case (Suc n)
  obtain h1 s1 where "read_entry d h s = Some (h1, s1)" "length (fst s1) \<le> length (fst s)" using read_entry_ends [OF Suc.prems] by blast
  then show ?case using Suc.IH [of s1 h1] Suc.prems by auto
qed simp

text \<open>
  The inspection of any file ends with a result: the nesting of arrays never exceeds the depth budget.
\<close>

theorem inspection_ends: "\<exists>r. inspect print disk path = Some r"
proof (cases "disk path")
  case (Some f)
  show ?thesis
  proof (cases f)
    case (Some bytes)
    obtain magic s1 where s1: "rd_u32 (bytes, True) = (magic, s1)" by (metis prod.exhaust)
    obtain version s2 where s2: "rd_u32 s1 = (version, s2)" by (metis prod.exhaust)
    obtain tc s3 where s3: "rd_u64 s2 = (tc, s3)" by (metis prod.exhaust)
    obtain kc s4 where s4: "rd_u64 s3 = (kc, s4)" by (metis prod.exhaust)
    have "length (fst s4) < Suc (length bytes)" using rd_u32_shrinks [OF s1] rd_u32_shrinks [OF s2] rd_u64_shrinks [OF s3] rd_u64_shrinks [OF s4] by simp
    then obtain h s5 where e: "read_entries (Suc (length bytes)) (unat kc) \<lparr>hi_architecture = [], hi_context_length = 0\<rparr> s4 = Some (h, s5)"
      using read_entries_end by (metis prod.exhaust)
    show ?thesis using \<open>disk path = Some f\<close> Some unfolding inspect_def by (simp add: s1 s2 s3 s4 e Let_def split: prod.split)
  qed (use Some in \<open>simp add: inspect_def\<close>)
qed (simp add: inspect_def)

section \<open>Reading what a converter wrote\<close>

datatype entry = StrEntry string string | U32Entry string u32 | StrArray string "string list"

definition enc_text :: "string \<Rightarrow> u8 list" where
  "enc_text t = enc_u64 (word_of_nat (length t)) @ map byte_of_char t"

fun enc_entry :: "entry \<Rightarrow> u8 list" where
  "enc_entry (StrEntry k v) = enc_text k @ enc_u32 8 @ enc_text v"
| "enc_entry (U32Entry k n) = enc_text k @ enc_u32 4 @ enc_u32 n"
| "enc_entry (StrArray k vs) = enc_text k @ enc_u32 9 @ enc_u32 8 @ enc_u64 (word_of_nat (length vs)) @ concat (map enc_text vs)"

record tensor_row =
  tr_name :: string
  tr_dims :: "u64 list"
  tr_type :: u32
  tr_offset :: u64

definition enc_tensor :: "tensor_row \<Rightarrow> u8 list" where
  "enc_tensor t = enc_text (tr_name t) @ enc_u32 (word_of_nat (length (tr_dims t))) @ concat (map enc_u64 (tr_dims t)) @ enc_u32 (tr_type t) @ enc_u64 (tr_offset t)"

definition enc_model :: "u32 \<Rightarrow> entry list \<Rightarrow> tensor_row list \<Rightarrow> u8 list" where
  "enc_model version es ts = enc_u32 GGUF_MAGIC @ enc_u32 version @ enc_u64 (word_of_nat (length ts)) @ enc_u64 (word_of_nat (length es)) @
     concat (map enc_entry es) @ concat (map enc_tensor ts)"

text \<open>Texts that the inspector reads: at most 4096 bytes.\<close>

definition short :: "string \<Rightarrow> bool" where
  "short t \<longleftrightarrow> length t \<le> 4096"

fun entry_ok :: "entry \<Rightarrow> bool" where
  "entry_ok (StrEntry k v) \<longleftrightarrow> short k \<and> short v"
| "entry_ok (U32Entry k n) \<longleftrightarrow> short k"
| "entry_ok (StrArray k vs) \<longleftrightarrow> short k \<and> list_all short vs \<and> length vs < 2 ^ 64"

fun note_entry :: "entry \<Rightarrow> header_info \<Rightarrow> header_info" where
  "note_entry (StrEntry k v) h = (if k = ''general.architecture'' then h\<lparr>hi_architecture := v\<rparr> else h)"
| "note_entry (U32Entry k n) h = (if contains k ''.context_length'' then h\<lparr>hi_context_length := n\<rparr> else h)"
| "note_entry (StrArray k vs) h = h"

definition note_row :: "tensor_row \<Rightarrow> tensor_info \<Rightarrow> tensor_info" where
  "note_row t = note_tensor (tr_name t) (prod_list (tr_dims t)) (tr_type t)"

lemma rd_u64_enc [simp]: "rd_u64 (enc_u64 w @ rest, True) = (w, (rest, True))"
  by (simp add: rd_u64_def u64c.read_scalar u64c.dec_enc)

lemma rd_u32_over_enc [simp]: "rd_u32_over old (enc_u32 w @ rest, True) = (w, (rest, True))"
  by (simp add: rd_u32_over_def u32c.read_scalar u32c.dec_enc u32c.enc_length)

lemma read_str_enc [simp]: "short t \<Longrightarrow> read_str (enc_text t @ rest, True) = (t, (rest, True))"
proof -
  assume t: "short t"
  then have u: "unat (word_of_nat (length t) :: u64) = length t" by (simp add: short_def unat_of_nat)
  then have "\<not> 4096 < (word_of_nat (length t) :: u64)" using t by (simp add: short_def word_less_nat_alt)
  moreover have "in_read (length t) (replicate (length t) 0) (map byte_of_char t @ rest, True) = (map byte_of_char t, (rest, True))" by (simp add: in_read_enough)
  ultimately show ?thesis using u by (simp add: read_str_def enc_text_def Let_def)
qed

lemma skip_texts: "list_all short vs \<Longrightarrow> skip_many (skip_val (Suc d) 8) (length vs) (concat (map enc_text vs) @ rest, True) = Some (rest, True)"
  by (induction vs) auto

lemma read_entry_enc:
  assumes "entry_ok e"
  shows "read_entry (Suc (Suc d)) h (enc_entry e @ rest, True) = Some (note_entry e h, (rest, True))"
proof (cases e)
  case (StrArray k vs)
  then have "unat (word_of_nat (length vs) :: u64) = length vs" using assms by (simp add: unat_of_nat)
  then show ?thesis using StrArray assms skip_texts [of vs d rest] by (simp add: read_entry_def Let_def)
qed (use assms in \<open>auto simp: read_entry_def Let_def seek_by_def u32c.enc_length\<close>)

lemma read_entries_enc:
  "list_all entry_ok es \<Longrightarrow> read_entries (Suc (Suc d)) (length es) h (concat (map enc_entry es) @ rest, True) = Some (fold note_entry es h, (rest, True))"
  by (induction es arbitrary: h) (auto simp: read_entry_enc)

lemma read_dims_enc: "read_dims (length ds) n (concat (map enc_u64 ds) @ rest, True) = (n * prod_list ds, (rest, True))"
  by (induction ds arbitrary: n) (auto simp: mult.assoc)

lemma read_tensors_enc:
  "list_all (\<lambda>t. short (tr_name t) \<and> length (tr_dims t) < 2 ^ 32) ts \<Longrightarrow>
   read_tensors (length ts) ti (concat (map enc_tensor ts) @ rest, True) = (fold note_row ts ti, (rest, True))"
proof (induction ts arbitrary: ti)
  case (Cons t ts)
  then have "unat (word_of_nat (length (tr_dims t)) :: u32) = length (tr_dims t)" by (simp add: unat_of_nat)
  then show ?case using Cons by (simp add: enc_tensor_def read_tensor_def Let_def read_dims_enc note_row_def)
qed simp

lemma inspect_enc:
  assumes "disk path = Some (Some (enc_model version es ts))" and "list_all entry_ok es" and "list_all (\<lambda>t. short (tr_name t) \<and> length (tr_dims t) < 2 ^ 32) ts"
    and "length es < 2 ^ 64" and "length ts < 2 ^ 64"
  shows "inspect print disk path = Some (conclude print path (word_of_nat (length ts)) True (fold note_entry es \<lparr>hi_architecture = [], hi_context_length = 0\<rparr>)
    (fold note_row ts no_tensors))"
proof -
  have u: "unat (word_of_nat (length ts) :: u64) = length ts" "unat (word_of_nat (length es) :: u64) = length es" using assms(4,5) by (simp_all add: unat_of_nat)
  obtain d where d: "Suc (length (enc_model version es ts)) = Suc (Suc d)" by (simp add: enc_model_def u32c.enc_length)
  have k: "read_entries (Suc (length (enc_model version es ts))) (length es) \<lparr>hi_architecture = [], hi_context_length = 0\<rparr>
      (concat (map enc_entry es) @ concat (map enc_tensor ts), True) =
      Some (fold note_entry es \<lparr>hi_architecture = [], hi_context_length = 0\<rparr>, (concat (map enc_tensor ts), True))"
    unfolding d using read_entries_enc [OF assms(2)] by simp
  have t: "read_tensors (length ts) no_tensors (concat (map enc_tensor ts), True) = (fold note_row ts no_tensors, ([], True))"
    using read_tensors_enc [OF assms(3), of no_tensors "[]"] by simp
  show ?thesis unfolding inspect_def assms(1) using k t u by (simp add: Let_def enc_model_def)
qed


section \<open>Long texts and large tensors\<close>

text \<open>
  A metadata text of more than 4096 bytes, for example a chat template, derails the inspection: the entry is taken for read when the stream stands at the first byte of
  the text, so that the text itself is read as the next entry.
\<close>

theorem long_text_derails:
  assumes "short k" and "4096 < length v" and "length v < 2 ^ 64" and "k \<noteq> ''general.architecture''"
  shows "read_entry (Suc d) h (enc_entry (StrEntry k v) @ rest, True) = Some (h, (map byte_of_char v @ rest, True))"
proof -
  have "unat (word_of_nat (length v) :: u64) = length v" using assms(3) by (simp add: unat_of_nat)
  then have "4096 < (word_of_nat (length v) :: u64)" using assms(2) by (simp add: word_less_nat_alt)
  then have "read_str (enc_text v @ rest, True) = ([], (map byte_of_char v @ rest, True))" by (simp add: read_str_def enc_text_def Let_def)
  then show ?thesis using assms(1,4) by (simp add: read_entry_def Let_def)
qed

text \<open>The number of parameters wraps around: a tensor of two to the 64 elements counts as empty.\<close>

lemma huge_tensor_counts_nothing: "ti_total (note_row \<lparr>tr_name = n, tr_dims = [2 ^ 32, 2 ^ 32], tr_type = ty, tr_offset = o0\<rparr> ti) = ti_total ti"
  by (simp add: note_row_def note_tensor_def)

section \<open>Examples\<close>

definition demo_entries :: "entry list" where
  "demo_entries = [StrEntry ''general.architecture'' ''llama'', StrArray ''tokenizer.ggml.tokens'' [''a'', ''bc''], U32Entry ''llama.context_length'' 4096]"

definition demo_rows :: "tensor_row list" where
  "demo_rows = [\<lparr>tr_name = ''token_embd.weight'', tr_dims = [64, 2], tr_type = 8, tr_offset = 0\<rparr>, \<lparr>tr_name = ''output_norm.weight'', tr_dims = [64], tr_type = 0, tr_offset = 136\<rparr>]"


end
