(* ===== verification/Model_Engine.thy ===== *)
theory Model_Engine
  imports Model_Catalog Generation Agent_Policy Request_Model
begin

text \<open>
  The model engine (\<open>ModelEngine.cpp\<close>): an inference request goes to the provider of its model or to the local engine. The cloud branch chooses a key and
  sends the conversation; the local branch counts the requests per model, loads the model on demand, and generates with the cache of the session.

  The state is the record \<open>world\<close>: the resident models, the router, the model inventory, the settings (with the paths), the session caches, and the counters of
  \<open>ConcurrencyTracker\<close>, which also count the requests of other threads. \<open>surroundings\<close> holds what is outside: float operations, the sampler, the disk, the
  clock, the host's readings, the JSON printer and parser, and the HTTP exchange (\<open>Threw\<close> is an exception of the client or of the printer). An inference that
  crashes or does not return is an error value.
\<close>

section \<open>State and surroundings\<close>

datatype engine_error = Loader_Crash gguf_error | Memory_Crash mem_error | Not_Utf8 | No_Return

datatype cloud_reply = Reply int string | No_Connection | Threw string

record surroundings =
  su_floats :: float_ops
  su_sampler :: sampler
  su_settings :: set_env
  su_disk :: "string \<Rightarrow> u8 list option"
  su_can_open :: "string \<Rightarrow> bool"
  su_proc :: proc_env
  su_seconds :: int
  su_millis :: int
  su_fuel :: nat
  su_dump :: "json \<Rightarrow> string option"
  su_parse :: "string \<Rightarrow> json option"
  su_float_json :: "f32 \<Rightarrow> json"
  su_post :: "string \<Rightarrow> string \<Rightarrow> (string \<times> string) list \<Rightarrow> json \<Rightarrow> cloud_reply"

record world =
  w_models :: "(string, loaded_model) omap"
  w_router :: sqlite_router
  w_inventory :: model_db
  w_settings :: settings_manager
  w_caches :: kv_manager
  w_busy :: "(string, int) omap"

definition os_of :: "surroundings \<Rightarrow> os_env" where
  "os_of U = se_os (su_settings U)"

section \<open>Effective parameters\<close>

definition eff_temp :: "openai_request \<Rightarrow> inference_config \<Rightarrow> f32" where
  "eff_temp req cfg = (if f32_lt f_zero (rq_temperature req) then rq_temperature req else inf_default_temperature cfg)"

definition eff_max :: "openai_request \<Rightarrow> inference_config \<Rightarrow> int" where
  "eff_max req cfg = (if rq_max_tokens req > 0 then rq_max_tokens req else inf_max_output_tokens cfg)"

section \<open>The cloud branch\<close>

definition json_of_message :: "openai_message \<Rightarrow> json" where
  "json_of_message m =
     JObject ([(''content'', JString (msg_content m))] @ (if msg_name m \<noteq> [] then [(''name'', JString (msg_name m))] else []) @
       [(''role'', JString (msg_role m))] @ (if msg_tool_call_id m \<noteq> [] then [(''tool_call_id'', JString (msg_tool_call_id m))] else []))"

definition json_of_tool :: "(string \<Rightarrow> json option) \<Rightarrow> openai_tool \<Rightarrow> json" where
  "json_of_tool parse t =
     (let f = tool_function t;
          params = (if tf_parameters_schema f = [] then [] else case parse (tf_parameters_schema f) of Some j \<Rightarrow> [(''parameters'', j)] | None \<Rightarrow> [])
      in JObject [(''function'', JObject ([(''description'', JString (tf_description f)), (''name'', JString (tf_name f))] @ params)), (''type'', JString (tool_type t))])"

definition gemini_payload :: "(f32 \<Rightarrow> json) \<Rightarrow> openai_request \<Rightarrow> inference_config \<Rightarrow> json" where
  "gemini_payload num req cfg =
     JObject [(''contents'', JArray (map (\<lambda>m. JObject [(''parts'', JArray [JObject [(''text'', JString (msg_content m))]]),
                  (''role'', JString (if msg_role m = ''assistant'' then ''model'' else ''user''))]) (rq_messages req))),
              (''generationConfig'', JObject [(''maxOutputTokens'', JInt (eff_max req cfg)), (''temperature'', num (eff_temp req cfg))])]"

definition openai_payload :: "(f32 \<Rightarrow> json) \<Rightarrow> (string \<Rightarrow> json option) \<Rightarrow> string \<Rightarrow> openai_request \<Rightarrow> inference_config \<Rightarrow> json" where
  "openai_payload num parse model_name req cfg =
     JObject ([(''max_tokens'', JInt (eff_max req cfg)), (''messages'', JArray (map json_of_message (rq_messages req))), (''model'', JString model_name),
               (''temperature'', num (eff_temp req cfg))] @
              (if rq_tools req \<noteq> [] then [(''tools'', JArray (map (json_of_tool parse) (rq_tools req)))] else []))"

definition quoted_error :: "string \<Rightarrow> string" where
  "quoted_error what = [CHR ''{'', CHR 0x22] @ ''error'' @ [CHR 0x22] @ '': '' @ [CHR 0x22] @ what @ [CHR 0x22, CHR ''}'']"

definition infer_cloud :: "surroundings \<Rightarrow> string \<Rightarrow> string \<Rightarrow> string \<Rightarrow> openai_request \<Rightarrow> world \<Rightarrow> int \<times> string \<times> world" where
  "infer_cloud U model_name provider_url api_key req w =
     (let is_gemini = contains provider_url ''generativelanguage''; is_openrouter = contains provider_url ''openrouter'';
          endpoint = (if is_gemini then ''/v1beta/models/'' @ model_name @ '':generateContent''
                      else if is_openrouter then ''/api/v1/chat/completions'' else ''/v1/chat/completions'');
          headers = [(''Content-Type'', ''application/json''),
                     (if is_gemini then (''x-goog-api-key'', api_key) else (''Authorization'', ''Bearer '' @ api_key))];
          (cfg, s1) = run_state (get_inference_config (su_settings U)) (w_settings w);
          payload = (if is_gemini then gemini_payload (su_float_json U) req cfg else openai_payload (su_float_json U) (su_parse U) model_name req cfg);
          w1 = w\<lparr>w_settings := s1\<rparr>
      in case su_post U provider_url endpoint headers payload of
           Reply status body \<Rightarrow> (status, body, w1)
         | No_Connection \<Rightarrow> (503, quoted_error ''Connection failed'', w1)
         | Threw what \<Rightarrow> (503, quoted_error what, w1))"

section \<open>The local branch\<close>

definition busy_count :: "string \<Rightarrow> world \<Rightarrow> int" where
  "busy_count m w = (case map_of (w_busy w) m of Some n \<Rightarrow> n | None \<Rightarrow> 0)"

text \<open>Constructor and destructor of \<open>ConcurrencyTracker\<close>.\<close>

definition enter :: "string \<Rightarrow> world \<Rightarrow> world" where
  "enter m w = w\<lparr>w_busy := om_put m (busy_count m w + 1) (w_busy w)\<rparr>"

definition leave :: "string \<Rightarrow> world \<Rightarrow> world" where
  "leave m w = (case map_of (w_busy w) m of Some n \<Rightarrow> w\<lparr>w_busy := om_put m (n - 1) (w_busy w)\<rparr> | None \<Rightarrow> w)"

definition model_file :: "surroundings \<Rightarrow> string \<Rightarrow> world \<Rightarrow> string" where
  "model_file U model_name w =
     (let E = os_of U; candidate = ps_models_dir (stm_paths (w_settings w)) @ ''/'' @ model_name;
          by_name = (if file_exists E candidate then candidate else if file_exists E (candidate @ ''.gguf'') then candidate @ ''.gguf'' else [])
      in case get_model model_name (w_inventory w) of
           Some rec \<Rightarrow> if file_exists E (lm_file_path rec) then lm_file_path rec else by_name
         | None \<Rightarrow> by_name)"

definition load_resident :: "surroundings \<Rightarrow> string \<Rightarrow> engine_error + loaded_model option" where
  "load_resident U path =
     (if \<not> file_exists (os_of U) path then Inr None
      else case load_gguf_model (su_disk U) path new_dense_model of
        Inl e \<Rightarrow> Inl (Loader_Crash e)
      | Inr None \<Rightarrow> Inr None
      | Inr (Some (m, start)) \<Rightarrow> Inr (Some \<lparr>lm_model = m, lm_image = the (su_disk U path), lm_start = start\<rparr>))"

definition find_or_load :: "surroundings \<Rightarrow> string \<Rightarrow> world \<Rightarrow> engine_error + loaded_model option \<times> world" where
  "find_or_load U model_name w =
     (case map_of (w_models w) model_name of
        Some M \<Rightarrow> Inr (Some M, w)
      | None \<Rightarrow>
          let path = model_file U model_name w
          in if path = [] then Inr (None, w)
             else sbind (load_resident U path) (\<lambda>r.
                    case r of
                      None \<Rightarrow> Inr (None, w)
                    | Some M \<Rightarrow> Inr (Some M, w\<lparr>w_models := om_put model_name M (w_models w)\<rparr>)))"

definition kv_shape_of :: "loaded_model \<Rightarrow> kv_shape" where
  "kv_shape_of M = \<lparr>ks_num_layers = num_layers (cfg_of M), ks_num_kv_heads = num_kv_heads (cfg_of M), ks_head_dim = head_dim (cfg_of M)\<rparr>"

definition context_budget :: "surroundings \<Rightarrow> inference_config \<Rightarrow> resource_config \<Rightarrow> loaded_model \<Rightarrow> size_t" where
  "context_budget U cfg res M =
     (let b = calculate_dynamic_context_tokens (su_proc U) (flt_of_f32 (rsc_ram_budget_percent res)) (Some (kv_shape_of M))
      in if inf_context_window cfg > 0 \<and> word_of_int (inf_context_window cfg) < b then word_of_int (inf_context_window cfg) else b)"

text \<open>The session object is shared: what \<open>generate\<close> leaves in it is in the manager's table, and the handle is released at the end.\<close>

definition put_session :: "string \<Rightarrow> session_kv \<Rightarrow> kv_manager \<Rightarrow> kv_manager" where
  "put_session sid s m =
     (case map_of (km_sessions m) sid of Some e \<Rightarrow> m\<lparr>km_sessions := om_put sid (e\<lparr>ke_session := s\<rparr>) (km_sessions m)\<rparr> | None \<Rightarrow> m)"

definition release_session :: "string \<Rightarrow> kv_manager \<Rightarrow> kv_manager" where
  "release_session sid m =
     (case map_of (km_sessions m) sid of Some e \<Rightarrow> m\<lparr>km_sessions := om_put sid (e\<lparr>ke_handles := ke_handles e - 1\<rparr>) (km_sessions m)\<rparr> | None \<Rightarrow> m)"

text \<open>\<open>dump\<close> throws on a string that is not UTF-8, and nothing here catches it.\<close>

definition local_response :: "surroundings \<Rightarrow> string \<Rightarrow> engine_error + string" where
  "local_response U result_text =
     (case su_dump U (JObject [(''choices'', JArray [JObject [(''message'', JObject [(''content'', JString result_text)])]])]) of
        Some out \<Rightarrow> Inr out
      | None \<Rightarrow> Inl Not_Utf8)"

definition lift_mem :: "mem_error + 'a \<Rightarrow> engine_error + 'a" where
  "lift_mem r = (case r of Inl e \<Rightarrow> Inl (Memory_Crash e) | Inr x \<Rightarrow> Inr x)"

definition run_local :: "surroundings \<Rightarrow> string \<Rightarrow> openai_request \<Rightarrow> loaded_model \<Rightarrow> world \<Rightarrow> engine_error + int \<times> string \<times> world" where
  "run_local U prompt req M w =
     (let sid = rq_session_id req; tokens = tokenize (dm_vocab (lm_model M)) prompt
      in case get_or_create (su_fuel U) (su_floats U) (su_can_open U) (su_millis U) sid (Some (cfg_of M)) (w_caches w) of
           None \<Rightarrow> Inl No_Return
         | Some r \<Rightarrow> sbind (lift_mem r) (\<lambda>(session, km).
             let (cfg, s1) = run_state (get_inference_config (su_settings U)) (w_settings w);
                 (res, s2) = run_state (get_resource_config (su_settings U)) s1;
                 budget = context_budget U cfg res M;
                 rep_pen = (if f32_lt f_zero (inf_repeat_penalty cfg) then inf_repeat_penalty cfg else f_1_15);
                 w1 = w\<lparr>w_settings := s2, w_caches := km\<rparr>
             in if budget < 2
                then Inr (503, [CHR ''{'', CHR 0x22] @ ''error'' @ [CHR 0x22, CHR '':'', CHR 0x22] @ ''Insufficient RAM policy headroom for local KV cache'' @
                       [CHR 0x22, CHR ''}''], w1\<lparr>w_caches := release_session sid km\<rparr>)
                else sbind (lift_mem (generate (su_floats U) (su_sampler U) M tokens (eff_max req cfg) (eff_temp req cfg) rep_pen (Some session)
                              (sint (ucast budget :: u32)))) (\<lambda>(texts, session1).
                       let km1 = put_session sid (the session1) km
                       in sbind (if sid = [] then Inr km1 else lift_mem (map_sum (\<lambda>e. e) snd (save_to_disk (su_can_open U) sid km1))) (\<lambda>km2.
                            sbind (local_response U (concat texts)) (\<lambda>out. Inr (200, out, w1\<lparr>w_caches := release_session sid km2\<rparr>))))))"

definition infer_local :: "surroundings \<Rightarrow> string \<Rightarrow> string \<Rightarrow> openai_request \<Rightarrow> world \<Rightarrow> engine_error + int \<times> string \<times> world" where
  "infer_local U model_name prompt req w0 =
     (let w = enter model_name w0
      in if 1 \<le> busy_count model_name w0
         then Inr (429, [CHR ''{'', CHR 0x22] @ ''error'' @ [CHR 0x22] @ '': '' @ [CHR 0x22] @ ''Too Many Requests: Model '' @ [CHR 0x27] @ model_name @ [CHR 0x27] @
                '' is currently busy. Please try again.'' @ [CHR 0x22, CHR ''}''], leave model_name w)
         else sbind (find_or_load U model_name w) (\<lambda>(target, w1).
                case target of
                  None \<Rightarrow> Inr (500, ''Error: Local model '' @ [CHR 0x27] @ model_name @ [CHR 0x27] @ '' not loaded in RAM and not found on disk.'', leave model_name w1)
                | Some M \<Rightarrow> sbind (run_local U prompt req M w1) (\<lambda>(status, out, w2). Inr (status, out, leave model_name w2))))"

section \<open>Dispatch\<close>

definition infer :: "surroundings \<Rightarrow> string \<Rightarrow> openai_request \<Rightarrow> string \<Rightarrow> world \<Rightarrow> engine_error + int \<times> string \<times> world" where
  "infer U model_name req compiled_prompt w =
     (let provider = get_provider_for_model model_name (w_router w)
      in if provider = ''local'' \<or> provider = [] then infer_local U model_name compiled_prompt req w
         else
           let (cloud_cfg, s1) = run_state (get_cloud_config (su_settings U)) (w_settings w);
               (key, r1) = get_next_available_key cloud_cfg (oe_getenv (os_of U)) (su_seconds U) provider (w_router w);
               w1 = w\<lparr>w_settings := s1, w_router := r1\<rparr>
           in if ak_key_value key = []
              then Inr (429, [CHR ''{'', CHR 0x22] @ ''error'' @ [CHR 0x22] @ '': '' @ [CHR 0x22] @ ''No active API key configured or available for provider: '' @
                     provider @ [CHR 0x22, CHR ''}''], w1)
              else Inr (infer_cloud U model_name (get_provider_url provider) (ak_key_value key) req w1))"

section \<open>The counters are balanced\<close>

lemma find_or_load_busy: "find_or_load U m w = Inr (r, w') \<Longrightarrow> w_busy w' = w_busy w"
  by (auto simp: find_or_load_def Let_def sbind_Inr split: option.splits if_splits)

lemma run_local_busy:
  assumes "run_local U prompt req M w = Inr (st, out, w')"
  shows "w_busy w' = w_busy w"
proof -
  obtain r session km where g: "get_or_create (su_fuel U) (su_floats U) (su_can_open U) (su_millis U) (rq_session_id req) (Some (cfg_of M)) (w_caches w) = Some r"
      and r: "lift_mem r = Inr (session, km)"
    using assms by (auto simp: run_local_def Let_def sbind_Inr split: option.splits)
  obtain cfg s1 where c: "run_state (get_inference_config (su_settings U)) (w_settings w) = (cfg, s1)" by (cases "run_state (get_inference_config (su_settings U)) (w_settings w)")
  obtain res s2 where d: "run_state (get_resource_config (su_settings U)) s1 = (res, s2)" by (cases "run_state (get_resource_config (su_settings U)) s1")
  note u = assms [unfolded run_local_def Let_def g option.case sbind_Inr r c d prod.case]
  show ?thesis
  proof (cases "context_budget U cfg res M < 2")
    case True
    then show ?thesis using u by (auto simp: r c d)
  next
    case False
    then show ?thesis using u by (auto simp: r c d sbind_Inr)
  qed
qed

lemma leave_enter: "w_busy w' = w_busy (enter m w) \<Longrightarrow> busy_count m' (leave m w') = busy_count m' w"
  by (auto simp: busy_count_def leave_def enter_def split: option.splits)

lemma leave_enter_same: "busy_count m' (leave m (enter m w)) = busy_count m' w"
  by (rule leave_enter) simp

lemma infer_local_busy:
  assumes "infer_local U m prompt req w = Inr (st, out, w')"
  shows "busy_count m' w' = busy_count m' w"
proof (cases "1 \<le> busy_count m w")
  case True
  then show ?thesis using assms leave_enter_same by (auto simp: infer_local_def Let_def)
next
  case False
  then obtain target w1 where f: "find_or_load U m (enter m w) = Inr (target, w1)" using assms by (auto simp: infer_local_def Let_def sbind_Inr)
  have b1: "w_busy w1 = w_busy (enter m w)" using find_or_load_busy [OF f] .
  show ?thesis
  proof (cases target)
    case None
    then show ?thesis using assms False f leave_enter [OF b1] by (auto simp: infer_local_def Let_def sbind_Inr)
  next
    case (Some M)
    then obtain w2 where r: "run_local U prompt req M w1 = Inr (st, out, w2)" "w' = leave m w2" using assms False f by (auto simp: infer_local_def Let_def sbind_Inr)
    have "w_busy w2 = w_busy (enter m w)" using run_local_busy [OF r(1)] b1 by simp
    then show ?thesis using leave_enter r(2) by simp
  qed
qed

lemma infer_cloud_busy: "infer_cloud U m url key req w = (st, out, w') \<Longrightarrow> w_busy w' = w_busy w"
  by (auto simp: infer_cloud_def Let_def split: prod.splits cloud_reply.splits if_splits)

text \<open>
  C25. The request counters are balanced: whatever an inference returns, cloud or local, refused or completed, every model's counter is afterwards what it was before, so
  that a model never stays busy.
\<close>

theorem infer_keeps_counters:
  assumes "infer U m req prompt w = Inr (st, out, w')"
  shows "busy_count m' w' = busy_count m' w"
proof (cases "get_provider_for_model m (w_router w) = ''local'' \<or> get_provider_for_model m (w_router w) = []")
  case True
  then show ?thesis using assms infer_local_busy by (auto simp: infer_def Let_def)
next
  case False
  then show ?thesis using assms infer_cloud_busy by (fastforce simp: infer_def Let_def busy_count_def split: prod.splits if_splits)
qed

section \<open>The prompt and the cloud\<close>

text \<open>A request that goes to a provider does not depend on the compiled prompt: the conversation itself is sent.\<close>

lemma cloud_ignores_prompt:
  assumes "get_provider_for_model m (w_router w) \<noteq> ''local''" and "get_provider_for_model m (w_router w) \<noteq> []"
  shows "infer U m req prompt w = infer U m req prompt' w"
  using assms by (simp add: infer_def)

section \<open>A session and its model\<close>

text \<open>
  A session that is in memory is continued with another model's cache: whatever model computed the keys and values of a session, a request of the session for a model
  with another hash gets them, and its prefill starts behind the tokens they share, because only the file of a session is checked against the model.
\<close>

theorem switched_model_keeps_cache:
  assumes "sid \<noteq> []" and "map_of (km_sessions km) sid = Some e" and "sk_initialized (ke_session e)" and "ctx_len \<le> sk_max_context (ke_session e)"
    and "sk_model_hash (ke_session e) \<noteq> compute_model_hash (cfg_of M)"
  shows "\<exists>s km' s'. get_or_create fuel F can_open now sid (Some (cfg_of M)) km = Some (Inr (s, km')) \<and>
    open_session F M ctx_len tokens s = Inr (s', common_prefix (sk_cached_tokens (ke_session e)) tokens) \<and>
    st_k_cache (sk_state s') = st_k_cache (sk_state (ke_session e)) \<and> st_v_cache (sk_state s') = st_v_cache (sk_state (ke_session e))"
  using assms by (simp add: get_or_create_def open_session_def Let_def)

section \<open>Examples\<close>

definition demo_surroundings :: surroundings where
  "demo_surroundings =
     \<lparr>su_floats = demo_floats, su_sampler = demo_sampler, su_settings = demo_set_env, su_disk = (\<lambda>p. None), su_can_open = (\<lambda>p. True),
      su_proc = Resource_Governor.demo_env [], su_seconds = 100, su_millis = 100000, su_fuel = 8, su_dump = (\<lambda>j. Some ''{}''), su_parse = (\<lambda>t. None),
      su_float_json = (\<lambda>f. JInt (uint f)), su_post = (\<lambda>url endpoint headers payload. Reply 200 ''ok'')\<rparr>"

definition demo_world :: world where
  "demo_world =
     \<lparr>w_models = [], w_router = demo_router, w_inventory = demo_model_db, w_settings = demo_settings, w_caches = demo_kv_manager, w_busy = [(''m'', 1)]\<rparr>"

lemma demo_provider: "get_provider_for_model ''openai/gpt-oss-20b'' demo_router = ''GROQ''"
  by (simp add: get_provider_for_model_def demo_router_def seed_models_def c_str_def)

theorem infer_keeps_counters_witness:
  "\<exists>st out w'. infer demo_surroundings ''openai/gpt-oss-20b'' demo_request ''p'' demo_world = Inr (st, out, w') \<and> busy_count ''m'' w' = 1"
proof -
  have "\<exists>r. infer demo_surroundings ''openai/gpt-oss-20b'' demo_request ''p'' demo_world = Inr r"
    by (simp add: infer_def demo_world_def demo_provider Let_def split_beta del: split_paired_Ex)
  then obtain st out w' where r: "infer demo_surroundings ''openai/gpt-oss-20b'' demo_request ''p'' demo_world = Inr (st, out, w')" by (metis prod_cases3)
  have "busy_count ''m'' demo_world = 1" by (simp add: busy_count_def demo_world_def)
  then show ?thesis using infer_keeps_counters [OF r, of "''m''"] r by auto
qed

definition other_model_entry :: kv_entry where
  "other_model_entry = \<lparr>ke_session = demo_session\<lparr>sk_model_hash := compute_model_hash (cfg_of Forward_Pass.demo_model) + 1\<rparr>, ke_handles = 0\<rparr>"

theorem switched_model_keeps_cache_witness:
  "\<exists>s km' s'. get_or_create 8 demo_floats (\<lambda>p. True) 9 ''a'' (Some (cfg_of Forward_Pass.demo_model)) (demo_kv_manager\<lparr>km_sessions := [(''a'', other_model_entry)]\<rparr>) =
       Some (Inr (s, km')) \<and>
     open_session demo_floats Forward_Pass.demo_model 2 [7, 9, 11] s = Inr (s', 2) \<and> st_k_cache (sk_state s') = [[1, 2, 3, 4]]"
  using switched_model_keeps_cache [of "''a''" "demo_kv_manager\<lparr>km_sessions := [(''a'', other_model_entry)]\<rparr>" other_model_entry 2 Forward_Pass.demo_model 8 demo_floats
      "\<lambda>p. True" 9 "[7, 9, 11]"]
  by (auto simp: other_model_entry_def demo_session_def fresh_session_def new_session_def numeral_2_eq_2)

end
