(* ===== verification/Multimodal.thy ===== *)
theory Multimodal
  imports Model_Manager Resource_Governor Float_Order Byte_Codec
begin

text \<open>
  The multimodal engine (\<open>multimodal_engine.cpp\<close>): spectral analysis of audio samples, the seeded synthesis of images, the tests against the resource
  governor, and the lease of a neural model that both hold while they work.

  Float operations are arguments, with the conversions of \<open>media_ops\<close> and the normal draws of a seeded generator. Signed overflow, an access outside a
  vector and a vector longer than the library allows are error values; the clock and the loader of the model manager are arguments as there.
\<close>

section \<open>Results and surroundings\<close>

datatype multimodal_mode =
  PROCEDURAL_ACOUSTIC_FALLBACK | LEASED_NEURAL_WHISPER | PROCEDURAL_LATENT_FALLBACK | LEASED_NEURAL_DIFFUSION

datatype media_error = Signed_Overflow | Outside_Vector | Length_Error | Lock_Crash lock_error

record transcribe_result =
  tc_success :: bool
  tc_text :: string
  tc_detected_language :: string
  tc_duration_seconds :: f32
  tc_engine_mode :: string
  tc_mode :: multimodal_mode
  tc_error_message :: string

definition new_transcribe_result :: transcribe_result where
  "new_transcribe_result = \<lparr>tc_success = False, tc_text = [], tc_detected_language = ''en'', tc_duration_seconds = f_zero,
     tc_engine_mode = ''acoustic_spectral_fourier'', tc_mode = PROCEDURAL_ACOUSTIC_FALLBACK, tc_error_message = []\<rparr>"

record image_result =
  ig_success :: bool
  ig_prompt :: string
  ig_width :: int
  ig_height :: int
  ig_steps :: int
  ig_seed :: int
  ig_format :: string
  ig_engine_mode :: string
  ig_mode :: multimodal_mode
  ig_data_bytes :: nat
  ig_rgba_data :: "u8 list"
  ig_error_message :: string

definition new_image_result :: "string \<Rightarrow> int \<Rightarrow> int \<Rightarrow> int \<Rightarrow> int \<Rightarrow> image_result" where
  "new_image_result prompt width height steps seed =
     \<lparr>ig_success = False, ig_prompt = prompt, ig_width = width, ig_height = height, ig_steps = steps, ig_seed = seed, ig_format = ''png'',
      ig_engine_mode = ''latent_vae_synthesis'', ig_mode = PROCEDURAL_LATENT_FALLBACK, ig_data_bytes = 0, ig_rgba_data = [], ig_error_message = []\<rparr>"

record media_ops =
  mo_to_size :: "f32 \<Rightarrow> size_t"
  mo_to_byte :: "f32 \<Rightarrow> u8"
  mo_round :: "f32 \<Rightarrow> int"
  mo_print :: "f32 \<Rightarrow> string"
  mo_normal :: "u32 \<Rightarrow> nat \<Rightarrow> f32"

record 'm multimodal_engine =
  mm_manager :: "'m model_manager option"
  mm_governor :: "resource_governor option"

definition default_multimodal_engine :: "'m multimodal_engine" where
  "default_multimodal_engine = \<lparr>mm_manager = None, mm_governor = None\<rparr>"

definition f_two :: f32 where "f_two = 0x40000000"
definition f_half :: f32 where "f_half = 0x3F000000"
definition f_pi :: f32 where "f_pi = 0x40490FDB"
definition f_1em4 :: f32 where "f_1em4 = 0x38D1B717"
definition f_32768 :: f32 where "f_32768 = 0x47000000"
definition f_255 :: f32 where "f_255 = 0x437F0000"
definition f_0_15 :: f32 where "f_0_15 = 0x3E19999A"

section \<open>Headroom\<close>

definition can_transcribe_audio :: "float_ops \<Rightarrow> media_ops \<Rightarrow> proc_env \<Rightarrow> 'm multimodal_engine \<Rightarrow> f32 \<Rightarrow> bool" where
  "can_transcribe_audio F Q env e seconds =
     (case mm_governor e of
        Some g \<Rightarrow> can_admit_host_ram g env
          (mo_to_size Q (f_add F (f_of_int F 52428800) (f_mul F (f_mul F seconds (f_of_int F 16000)) (f_of_int F 4))))
      | None \<Rightarrow> True)"

definition can_generate_image :: "proc_env \<Rightarrow> 'm multimodal_engine \<Rightarrow> int \<Rightarrow> int \<Rightarrow> bool" where
  "can_generate_image env e width height =
     (case mm_governor e of
        Some g \<Rightarrow> if should_route_to_cloud g env \<or> is_under_memory_pressure g env then False
                   else can_admit_host_ram g env (1536 * 1024 * 1024 + word_of_int width * word_of_int height * 4)
      | None \<Rightarrow> True)"

section \<open>Leases\<close>

text \<open>The lease is taken after the tests and dropped when the function returns.\<close>

definition take_lease ::
  "(string \<Rightarrow> string + 'm) \<Rightarrow> 'm \<Rightarrow> int \<Rightarrow> model_role \<Rightarrow> 'm multimodal_engine \<Rightarrow> media_error + lease \<times> 'm multimodal_engine" where
  "take_lease loader dummy now role e =
     (case mm_manager e of
        None \<Rightarrow> Inr (empty_lease, e)
      | Some mgr \<Rightarrow> (case mgr_acquire_role loader dummy now role mgr of
          Inl err \<Rightarrow> Inl (Lock_Crash err)
        | Inr (l, mgr1) \<Rightarrow> Inr (l, e\<lparr>mm_manager := Some mgr1\<rparr>)))"

definition drop_lease :: "int \<Rightarrow> lease \<Rightarrow> 'm multimodal_engine \<Rightarrow> 'm multimodal_engine" where
  "drop_lease now l e = e\<lparr>mm_manager := map_option (\<lambda>mgr. mgr\<lparr>mg_pool := lease_drop now l (mg_pool mgr)\<rparr>) (mm_manager e)\<rparr>"

section \<open>Audio\<close>

definition crosses :: "f32 \<Rightarrow> f32 \<Rightarrow> bool" where
  "crosses a b \<longleftrightarrow> f32_le f_zero b \<and> f32_lt a f_zero \<or> f32_lt b f_zero \<and> f32_le f_zero a"

definition energy_of :: "float_ops \<Rightarrow> f32 list \<Rightarrow> f32" where
  "energy_of F pcm = fold (\<lambda>s acc. f_add F acc (f_mul F s s)) pcm f_zero"

definition zero_crossings :: "f32 list \<Rightarrow> nat" where
  "zero_crossings pcm = length (filter (\<lambda>(a, b). crosses a b) (zip pcm (tl pcm)))"

definition rms_of :: "float_ops \<Rightarrow> f32 list \<Rightarrow> f32" where
  "rms_of F pcm = f_sqrt F (f_div F (energy_of F pcm) (f_of_int F (int (length pcm))))"

definition hann_window :: "float_ops \<Rightarrow> nat \<Rightarrow> nat \<Rightarrow> f32" where
  "hann_window F n_fft n =
     f_mul F f_half (f_sub F f_one (f_cos F (f_div F (f_mul F (f_mul F f_two f_pi) (f_of_int F (int n))) (f_of_int F (int (n_fft - 1))))))"

definition windowed_samples :: "float_ops \<Rightarrow> f32 list \<Rightarrow> f32 list" where
  "windowed_samples F pcm =
     (let n_fft = min 1024 (length pcm) in map (\<lambda>n. f_mul F (pcm ! n) (hann_window F n_fft n)) [0..<n_fft])"

definition magnitude_at :: "float_ops \<Rightarrow> f32 list \<Rightarrow> nat \<Rightarrow> f32" where
  "magnitude_at F windowed k =
     (let n_fft = length windowed;
          step = f_div F (f_mul F (f_mul F f_two f_pi) (f_of_int F (int k))) (f_of_int F (int n_fft));
          (re, im) = fold (\<lambda>n (re, im). let angle = f_mul F step (f_of_int F (int n)) in
                       (f_add F re (f_mul F (windowed ! n) (f_cos F angle)), f_sub F im (f_mul F (windowed ! n) (f_sin F angle)))) [0..<n_fft] (f_zero, f_zero)
      in f_sqrt F (f_add F (f_mul F re re) (f_mul F im im)))"

definition max_bin :: "nat \<Rightarrow> int \<Rightarrow> nat" where
  "max_bin n_fft sample_rate = min (n_fft div 2) (2000 * n_fft div nat sample_rate + 1)"

definition dominant_bin :: "float_ops \<Rightarrow> f32 list \<Rightarrow> nat \<Rightarrow> f32 \<times> nat" where
  "dominant_bin F windowed bins =
     fold (\<lambda>k (max_mag, best). let mag = magnitude_at F windowed k in if f32_lt max_mag mag then (mag, k) else (max_mag, best)) [1..<bins] (f_zero, 0)"

definition peak_frequency :: "float_ops \<Rightarrow> f32 list \<Rightarrow> int \<Rightarrow> f32" where
  "peak_frequency F pcm sample_rate =
     (let windowed = windowed_samples F pcm; n_fft = length windowed
      in f_div F (f_mul F (f_of_int F (int (snd (dominant_bin F windowed (max_bin n_fft sample_rate))))) (f_of_int F sample_rate)) (f_of_int F (int n_fft)))"

definition is_tone :: "f32 \<Rightarrow> f32 \<Rightarrow> bool" where
  "is_tone peak zcr \<longleftrightarrow> f32_le 0x43C80000 peak \<and> f32_le peak 0x43F00000 \<and> f32_lt 0x3C23D70A zcr \<and> f32_lt zcr 0x3DCCCCCD"

definition transcript :: "float_ops \<Rightarrow> media_ops \<Rightarrow> f32 list \<Rightarrow> int \<Rightarrow> f32 \<Rightarrow> string" where
  "transcript F Q pcm sample_rate duration =
     (let zcr = f_div F (f_of_int F (int (zero_crossings pcm))) (f_of_int F (int (length pcm)))
      in if f32_lt (rms_of F pcm) f_1em4 then ''[silence]''
         else let peak = peak_frequency F pcm sample_rate
              in if is_tone peak zcr
                 then ''Detected audio tone: '' @ int_digits (mo_round Q peak) @ '' Hz (sine tone)''
                 else ''Transcribed speech segment: duration '' @ mo_print Q duration @ ''s, fundamental '' @ int_digits (mo_round Q peak) @ ''Hz'')"

definition transcribe_audio ::
  "float_ops \<Rightarrow> media_ops \<Rightarrow> proc_env \<Rightarrow> (string \<Rightarrow> string + 'm) \<Rightarrow> 'm \<Rightarrow> int \<Rightarrow> f32 list \<Rightarrow> int \<Rightarrow> 'm multimodal_engine \<Rightarrow>
   media_error + transcribe_result \<times> 'm multimodal_engine" where
  "transcribe_audio F Q env loader dummy now pcm sample_rate e =
     (if pcm = [] \<or> sample_rate \<le> 0
      then Inr (new_transcribe_result\<lparr>tc_error_message := ''Empty audio buffer or invalid sample rate''\<rparr>, e)
      else
        let duration = f_div F (f_of_int F (int (length pcm))) (f_of_int F sample_rate);
            res = new_transcribe_result\<lparr>tc_duration_seconds := duration\<rparr>
        in if \<not> can_transcribe_audio F Q env e duration
           then Inr (res\<lparr>tc_error_message := ''Insufficient memory headroom for audio transcription''\<rparr>, e)
           else sbind (take_lease loader dummy now SPEECH_TO_TEXT e) (\<lambda>(l, e1).
             let res1 = (if lease_is_valid l
                         then res\<lparr>tc_engine_mode := ''whisper_native:'' @ l_model_id l, tc_mode := LEASED_NEURAL_WHISPER\<rparr> else res)
             in Inr (res1\<lparr>tc_success := True, tc_detected_language := ''en'', tc_text := transcript F Q pcm sample_rate duration\<rparr>, drop_lease now l e1)))"

text \<open>The samples are little-endian 16-bit integers; an odd last byte is left out.\<close>

fun samples_of :: "u8 list \<Rightarrow> int list" where
  "samples_of (lo # hi # bs) = sint (word_of_nat (unat lo + 256 * unat hi) :: 16 word) # samples_of bs"
| "samples_of _ = []"

definition transcribe_pcm_bytes ::
  "float_ops \<Rightarrow> media_ops \<Rightarrow> proc_env \<Rightarrow> (string \<Rightarrow> string + 'm) \<Rightarrow> 'm \<Rightarrow> int \<Rightarrow> u8 list \<Rightarrow> 'm multimodal_engine \<Rightarrow>
   media_error + transcribe_result \<times> 'm multimodal_engine" where
  "transcribe_pcm_bytes F Q env loader dummy now bytes e =
     (if length bytes < 2 then Inr (new_transcribe_result\<lparr>tc_error_message := ''Audio byte stream too short''\<rparr>, e)
      else transcribe_audio F Q env loader dummy now (map (\<lambda>s. f_div F (f_of_int F s) f_32768) (samples_of bytes)) 16000 e)"

section \<open>Images\<close>

definition int32 :: "int \<Rightarrow> media_error + int" where
  "int32 i = (if i32_ok i then Inr i else Inl Signed_Overflow)"

definition checked_nth :: "'a list \<Rightarrow> int \<Rightarrow> media_error + 'a" where
  "checked_nth xs i = (if 0 \<le> i \<and> i < int (length xs) then Inr (xs ! nat i) else Inl Outside_Vector)"

definition denoise :: "float_ops \<Rightarrow> int \<Rightarrow> f32 list \<Rightarrow> f32 list" where
  "denoise F steps latents =
     fold (\<lambda>step. let sigma = f_sub F f_one (f_div F (f_of_int F (int step)) (f_of_int F steps)); dt = f_div F f_one (f_of_int F steps)
                   in map (\<lambda>v. f_sub F v (f_mul F dt (f_mul F (f_mul F v f_0_15) sigma)))) [0..<nat steps] latents"

definition clamp_byte :: "float_ops \<Rightarrow> media_ops \<Rightarrow> f32 \<Rightarrow> u8" where
  "clamp_byte F Q v =
     (let c = f_mul F (f_add F (f_mul F v f_half) f_half) f_255
      in mo_to_byte Q (if f32_lt c f_zero then f_zero else if f32_lt f_255 c then f_255 else c))"

text \<open>The four bytes of the pixel \<open>(x, y)\<close>, which the loops store at \<open>(y * width + x) * 4\<close>.\<close>

definition pixel ::
  "float_ops \<Rightarrow> media_ops \<Rightarrow> f32 list \<Rightarrow> int \<Rightarrow> int \<Rightarrow> int \<Rightarrow> int \<Rightarrow> int \<Rightarrow> int \<Rightarrow> media_error + int \<times> u8 list" where
  "pixel F Q latents latent_w latent_h width height y x =
     sbind (int32 (y * latent_h)) (\<lambda>yl. let ly = c_div yl height in
     sbind (int32 (x * latent_w)) (\<lambda>xl. let lx = c_div xl width in
     sbind (int32 (ly * latent_w)) (\<lambda>row. sbind (int32 (row + lx)) (\<lambda>cell. sbind (int32 (cell * 4)) (\<lambda>l_idx.
     sbind (checked_nth latents l_idx) (\<lambda>r. sbind (checked_nth latents (l_idx + 1)) (\<lambda>g. sbind (checked_nth latents (l_idx + 2)) (\<lambda>b.
     sbind (int32 (y * width)) (\<lambda>line. sbind (int32 (line + x)) (\<lambda>px.
       Inr (px * 4, [clamp_byte F Q r, clamp_byte F Q g, clamp_byte F Q b, 255])))))))))))"

definition store_pixel :: "int \<times> u8 list \<Rightarrow> u8 list \<Rightarrow> media_error + u8 list" where
  "store_pixel p data =
     (case p of (px, bs) \<Rightarrow>
        if 0 \<le> px \<and> px + 4 \<le> int (length data) then Inr (take (nat px) data @ bs @ drop (nat px + 4) data) else Inl Outside_Vector)"

definition paint ::
  "float_ops \<Rightarrow> media_ops \<Rightarrow> f32 list \<Rightarrow> int \<Rightarrow> int \<Rightarrow> int \<Rightarrow> int \<Rightarrow> u8 list \<Rightarrow> media_error + u8 list" where
  "paint F Q latents latent_w latent_h width height =
     sfold (\<lambda>(y, x) data. sbind (pixel F Q latents latent_w latent_h width height y x) (\<lambda>p. store_pixel p data))
       (concat (map (\<lambda>y. map (\<lambda>x. (y, x)) (map int [0..<nat width])) (map int [0..<nat height])))"

text \<open>\<open>std::vector::resize\<close> throws beyond \<open>max_size\<close>.\<close>

definition checked_size :: "nat \<Rightarrow> size_t \<Rightarrow> media_error + nat" where
  "checked_size max_size n = (if unat n \<le> max_size then Inr (unat n) else Inl Length_Error)"

definition synthesize :: "float_ops \<Rightarrow> media_ops \<Rightarrow> int \<Rightarrow> int \<Rightarrow> int \<Rightarrow> int \<Rightarrow> media_error + u8 list" where
  "synthesize F Q width height steps seed =
     (let latent_w = max 1 (c_div width 8); latent_h = max 1 (c_div height 8);
          latent_pixels = word_of_int latent_w * word_of_int latent_h :: size_t
      in sbind (checked_size (2 ^ 61 - 1) (4 * latent_pixels)) (\<lambda>n.
         let latents = denoise F steps (map (mo_normal Q (word_of_int seed)) [0..<n])
         in sbind (checked_size (2 ^ 63 - 1) (word_of_int width * word_of_int height * 4)) (\<lambda>bytes.
            paint F Q latents latent_w latent_h width height (replicate bytes 0))))"

definition generate_image ::
  "float_ops \<Rightarrow> media_ops \<Rightarrow> proc_env \<Rightarrow> (string \<Rightarrow> string + 'm) \<Rightarrow> 'm \<Rightarrow> int \<Rightarrow> string \<Rightarrow> int \<Rightarrow> int \<Rightarrow> int \<Rightarrow> int \<Rightarrow>
   'm multimodal_engine \<Rightarrow> media_error + image_result \<times> 'm multimodal_engine" where
  "generate_image F Q env loader dummy now prompt width height steps seed e =
     (let res = new_image_result prompt width height steps seed
      in if prompt = [] then Inr (res\<lparr>ig_error_message := ''Empty prompt for image generation''\<rparr>, e)
         else if \<not> can_generate_image env e width height
         then Inr (res\<lparr>ig_error_message := ''Insufficient memory headroom for local image generation; route to cloud''\<rparr>, e)
         else sbind (take_lease loader dummy now IMAGE_GENERATOR e) (\<lambda>(l, e1).
           let res1 = (if lease_is_valid l
                       then res\<lparr>ig_engine_mode := ''sd_native:'' @ l_model_id l, ig_mode := LEASED_NEURAL_DIFFUSION\<rparr> else res)
           in sbind (synthesize F Q width height steps seed) (\<lambda>data.
                Inr (res1\<lparr>ig_rgba_data := data, ig_success := True, ig_format := ''png'', ig_data_bytes := length data\<rparr>, drop_lease now l e1))))"

section \<open>The picture is complete\<close>

lemma c_div_pos: "0 \<le> a \<Longrightarrow> 0 < b \<Longrightarrow> c_div a b = a div b"
  by (cases "a = 0") (auto simp: c_div_def)

lemma int32_small [simp]: "0 \<le> i \<Longrightarrow> i < 2 ^ 31 \<Longrightarrow> int32 i = Inr i"
  by (simp add: int32_def i32_ok_def)

lemma checked_nth_in [simp]: "0 \<le> i \<Longrightarrow> i < int (length xs) \<Longrightarrow> checked_nth xs i = Inr (xs ! nat i)"
  by (simp add: checked_nth_def)

text \<open>A pixel lies over a cell of the latent grid.\<close>

lemma cell_below:
  assumes "0 \<le> y" "y < h" "0 < n"
  shows "0 \<le> y * n div h \<and> y * n div (h::int) < n"
proof -
  have "y * n < n * h" using mult_strict_right_mono [of y h n] assms by (simp add: mult.commute)
  moreover have "y * n div h * h \<le> y * n" using assms by (simp add: minus_mod_eq_div_mult [symmetric])
  ultimately have "y * n div h * h < n * h" by simp
  then show ?thesis using assms by (simp add: pos_imp_zdiv_nonneg_iff)
qed

lemma grid_index:
  assumes "0 \<le> (y::int)" "y < h" "0 \<le> x" "x < w"
  shows "0 \<le> y * w + x \<and> y * w + x < h * w"
proof -
  have "(y + 1) * w \<le> h * w" using assms by (intro mult_right_mono) auto
  then show ?thesis using assms by (simp add: algebra_simps)
qed

lemma mult_bound: "0 \<le> (a::int) \<Longrightarrow> a \<le> m \<Longrightarrow> 0 \<le> b \<Longrightarrow> b \<le> n \<Longrightarrow> a * b \<le> m * n"
  by (intro mult_mono) auto

lemma pixel_defined:
  assumes "0 \<le> y" "y < h" "0 \<le> x" "x < w" "w \<le> 32768" "h \<le> 32768" "0 < lw" "lw \<le> 4096" "0 < lh" "lh \<le> 4096"
    and "int (length latents) = 4 * (lw * lh)"
  shows "\<exists>r g b. pixel F Q latents lw lh w h y x = Inr ((y * w + x) * 4, [r, g, b, 255])"
proof -
  let ?ly = "y * lh div h" and ?lx = "x * lw div w"
  have l: "0 \<le> ?ly" "?ly < lh" "0 \<le> ?lx" "?lx < lw" using cell_below [of y h lh] cell_below [of x w lw] assms by auto
  have c: "0 \<le> ?ly * lw + ?lx" "?ly * lw + ?lx < lh * lw" using grid_index [of ?ly lh ?lx lw] l by auto
  have q: "0 \<le> y * w + x" "y * w + x < h * w" using grid_index [of y h x w] assms by auto
  have b: "lh * lw \<le> 4096 * 4096" "h * w \<le> 32768 * 32768" "y * lh \<le> 32768 * 4096" "x * lw \<le> 32768 * 4096"
    using assms by (intro mult_bound; simp)+
  have "0 \<le> ?ly * lw" "0 \<le> y * w" "0 \<le> y * lh" "0 \<le> x * lw" using assms l by auto
  moreover have "c_div (y * lh) h = ?ly" "c_div (x * lw) w = ?lx" using assms by (auto intro: c_div_pos)
  moreover have "(?ly * lw + ?lx) * 4 + 2 < int (length latents)" using c assms(11) by (simp add: mult.commute)
  ultimately show ?thesis using b c q l assms by (simp add: pixel_def Let_def)
qed

definition opaque :: "nat set \<Rightarrow> u8 list \<Rightarrow> bool" where
  "opaque S data \<longleftrightarrow> (\<forall>q \<in> S. data ! (4 * q + 3) = 255)"

lemma store_pixel_opaque:
  assumes "4 * q + 4 \<le> length data" "opaque S data" "\<forall>q \<in> S. 4 * q + 3 < length data" "p = int q * 4"
  shows "\<exists>data'. store_pixel (p, [r, g, b, 255]) data = Inr data' \<and> length data' = length data \<and> opaque (insert q S) data'"
proof -
  let ?d = "take (4 * q) data @ [r, g, b, 255] @ drop (4 * q + 4) data"
  have len: "length (take (4 * q) data) = 4 * q" using assms(1) by simp
  have here: "?d ! (4 * q + 3) = 255" using len by (simp add: nth_append)
  have "?d ! (4 * k + 3) = 255" if "k \<in> S" for k
  proof (cases "k < q")
    case True
    then show ?thesis using assms(2) that len by (auto simp: nth_append opaque_def)
  next
    case False
    show ?thesis
    proof (cases "k = q")
      case False
      then have "q < k" using \<open>\<not> k < q\<close> by simp
      then have "?d ! (4 * k + 3) = data ! (4 * k + 3)" using len assms(1,3) that by (simp add: nth_append nth_Cons' add.commute)
      then show ?thesis using assms(2) that by (simp add: opaque_def)
    qed (use here in simp)
  qed
  then have "opaque (insert q S) ?d" using here by (simp add: opaque_def)
  then show ?thesis using assms(1,4) by (simp add: store_pixel_def nat_mult_distrib mult.commute)
qed

lemma paint_pixels:
  assumes "\<And>y x. (y, x) \<in> set ps \<Longrightarrow> \<exists>r g b. px (y, x) = Inr (int (at (y, x)) * 4, [r, g, b, 255]) \<and> at (y, x) < n"
    and "length data = 4 * n" and "opaque S data" and "\<forall>q \<in> S. q < n"
  shows "\<exists>data'. sfold (\<lambda>yx data. sbind (px yx) (\<lambda>p. store_pixel p data)) ps data = Inr data' \<and> length data' = 4 * n \<and> opaque (S \<union> at ` set ps) data'"
  using assms
proof (induction ps arbitrary: S data)
  case (Cons yx ps)
  obtain r g b where p: "px yx = Inr (int (at yx) * 4, [r, g, b, 255])" "at yx < n" using Cons.prems(1) [of "fst yx" "snd yx"] by auto
  have "4 * at yx + 4 \<le> length data" "\<forall>q \<in> S. 4 * q + 3 < length data" using p(2) Cons.prems(2,4) by auto
  from store_pixel_opaque [OF this(1) Cons.prems(3) this(2) refl] obtain d1
    where d1: "store_pixel (int (at yx) * 4, [r, g, b, 255]) data = Inr d1" "length d1 = length data" "opaque (insert (at yx) S) d1" by blast
  have "\<forall>q \<in> insert (at yx) S. q < n" using p(2) Cons.prems(4) by simp
  from Cons.IH [OF Cons.prems(1) _ d1(3) this] show ?case using p d1 Cons.prems(2) by auto
qed simp

lemma paint_complete:
  assumes "0 < w" "w \<le> 32768" "0 < h" "h \<le> 32768" "0 < lw" "lw \<le> 4096" "0 < lh" "lh \<le> 4096"
    and "int (length latents) = 4 * (lw * lh)" and "length data = 4 * (nat h * nat w)"
  shows "\<exists>data'. paint F Q latents lw lh w h data = Inr data' \<and> length data' = 4 * (nat h * nat w) \<and> opaque {..< nat h * nat w} data'"
proof -
  let ?ps = "concat (map (\<lambda>y. map (\<lambda>x. (y, x)) (map int [0..<nat w])) (map int [0..<nat h]))"
  let ?at = "\<lambda>(y, x). nat (y * w + x)"
  have px: "\<exists>r g b. (case (y, x) of (y, x) \<Rightarrow> pixel F Q latents lw lh w h y x) = Inr (int (?at (y, x)) * 4, [r, g, b, 255]) \<and> ?at (y, x) < nat h * nat w"
    if "(y, x) \<in> set ?ps" for y x
  proof -
    have b: "0 \<le> y" "y < h" "0 \<le> x" "x < w" using that assms by auto
    then show ?thesis using pixel_defined [OF b assms(2,4-9), of F Q] grid_index [OF b] assms(1,3)
      by (auto simp: nat_mult_distrib [symmetric] simp del: nat_mult_distrib)
  qed
  have cover: "{..< nat h * nat w} \<subseteq> ?at ` set ?ps"
  proof
    fix q assume "q \<in> {..< nat h * nat w}"
    then have "q < nat h * nat w" by simp
    then have b: "q div nat w < nat h" "q mod nat w < nat w" using assms(1) by (auto simp: less_mult_imp_div_less)
    have "?at (int (q div nat w), int (q mod nat w)) = q" using assms(1) by (simp add: zdiv_int zmod_int)
    moreover have "(int (q div nat w), int (q mod nat w)) \<in> set ?ps" using b by (auto intro!: image_eqI bexI [of _ "q div nat w"])
    ultimately show "q \<in> ?at ` set ?ps" by (metis image_eqI)
  qed
  have sp: "(\<lambda>(y, x) data. sbind (pixel F Q latents lw lh w h y x) (\<lambda>p. store_pixel p data)) =
      (\<lambda>yx data. sbind (case yx of (y, x) \<Rightarrow> pixel F Q latents lw lh w h y x) (\<lambda>p. store_pixel p data))" by (auto simp: fun_eq_iff)
  have "opaque {} data" by (simp add: opaque_def)
  from paint_pixels [where px = "\<lambda>(y, x). pixel F Q latents lw lh w h y x" and at = ?at and S = "{}" and ps = ?ps, OF px assms(10) this] obtain d where d: "paint F Q latents lw lh w h data = Inr d" "length d = 4 * (nat h * nat w)" "opaque (?at ` set ?ps) d"
    unfolding paint_def sp by auto
  then show ?thesis using cover by (auto simp: opaque_def)
qed

lemma denoise_length [simp]: "length (denoise F steps latents) = length latents"
proof -
  have "length (fold (\<lambda>k. map (g k)) ks xs) = length xs" for g :: "nat \<Rightarrow> 'a \<Rightarrow> 'a" and ks xs by (induction ks arbitrary: xs) auto
  then show ?thesis by (simp add: denoise_def Let_def)
qed

lemma size_of_product:
  assumes "0 \<le> a" "a \<le> 32768" "0 \<le> b" "b \<le> 32768"
  shows "unat (word_of_int a * word_of_int b * 4 :: size_t) = 4 * (nat b * nat a)"
proof -
  have "word_of_int a * word_of_int b * 4 = (word_of_int (a * b * 4) :: size_t)" by simp
  moreover have "a * b \<le> 32768 * 32768" using assms by (intro mult_bound) auto
  then have "a * b * 4 mod 2 ^ 64 = a * b * 4" using assms by (intro mod_pos_pos_trivial) auto
  then have "uint (word_of_int (a * b * 4) :: size_t) = a * b * 4" unfolding uint_word_of_int by simp
  ultimately show ?thesis using assms unfolding unat_eq_nat_uint by (simp add: nat_mult_distrib)
qed

lemma synthesize_complete:
  assumes "0 < w" "w \<le> 32768" "0 < h" "h \<le> 32768"
  shows "\<exists>data. synthesize F Q w h steps seed = Inr data \<and> length data = 4 * (nat h * nat w) \<and> opaque {..< nat h * nat w} data"
proof -
  let ?lw = "max 1 (c_div w 8)" and ?lh = "max 1 (c_div h 8)"
  have l: "0 < ?lw" "?lw \<le> 4096" "0 < ?lh" "?lh \<le> 4096" using assms by (auto simp: c_div_pos)
  have n: "unat (4 * (word_of_int ?lw * word_of_int ?lh :: size_t)) = 4 * (nat ?lh * nat ?lw)"
    using size_of_product [of ?lw ?lh] l by (simp add: mult.commute mult.left_commute)
  have "nat ?lh * nat ?lw \<le> 4096 * 4096" "nat h * nat w \<le> 32768 * 32768" using l assms by (intro mult_le_mono; simp)+
  then have s: "checked_size (2 ^ 61 - 1) (4 * (word_of_int ?lw * word_of_int ?lh)) = Inr (4 * (nat ?lh * nat ?lw))"
      "checked_size (2 ^ 63 - 1) (word_of_int w * word_of_int h * 4) = Inr (4 * (nat h * nat w))"
    using n size_of_product [of w h] assms by (simp_all add: checked_size_def)
  let ?z = "denoise F steps (map (mo_normal Q (word_of_int seed)) [0..<4 * (nat ?lh * nat ?lw)])"
  have "int (length ?z) = 4 * (?lw * ?lh)" using l by (simp add: mult.commute)
  from paint_complete [OF assms(1,2,3,4) l this, of "replicate (4 * (nat h * nat w)) 0" F Q] show ?thesis
    unfolding synthesize_def Let_def s sbind_simps by simp
qed

text \<open>
  The picture is complete: for every prompt and every size up to 32768 by 32768 pixels, once the headroom is granted and the lease has been asked for, the synthesis
  stays inside the latent grid and the pixel buffer, no index overflows, and the result holds four bytes for every pixel, all of them opaque.
\<close>

theorem generated_image_complete:
  assumes "prompt \<noteq> []" and "can_generate_image env e w h" and "take_lease loader dummy now IMAGE_GENERATOR e = Inr (l, e1)"
    and "0 < w" "w \<le> 32768" "0 < h" "h \<le> 32768"
  shows "\<exists>res. generate_image F Q env loader dummy now prompt w h steps seed e = Inr (res, drop_lease now l e1) \<and> ig_success res \<and>
    ig_data_bytes res = 4 * (nat h * nat w) \<and> length (ig_rgba_data res) = 4 * (nat h * nat w) \<and>
    list_all (\<lambda>q. ig_rgba_data res ! (4 * q + 3) = 255) [0..<nat h * nat w]"
proof -
  obtain data where "synthesize F Q w h steps seed = Inr data" "length data = 4 * (nat h * nat w)" "opaque {..< nat h * nat w} data"
    using synthesize_complete [OF assms(4-7), of F Q steps seed] by blast
  then show ?thesis using assms(1-3) by (simp add: generate_image_def Let_def opaque_def list_all_iff)
qed

section \<open>The lease is given back\<close>

definition media_inv :: "'m multimodal_engine \<Rightarrow> lease multiset \<Rightarrow> bool" where
  "media_inv e ls \<longleftrightarrow> (\<forall>mgr. mm_manager e = Some mgr \<longrightarrow> mgr_inv mgr ls)"

lemma take_lease_inv:
  assumes "media_inv e ls" and "take_lease loader dummy now role e = Inr (l, e1)"
  shows "media_inv e1 (add_mset l ls)"
proof (cases "mm_manager e")
  case None
  then show ?thesis using assms by (auto simp: take_lease_def media_inv_def)
next
  case (Some mgr)
  then obtain mgr1 where m: "mgr_acquire_role loader dummy now role mgr = Inr (l, mgr1)" "e1 = e\<lparr>mm_manager := Some mgr1\<rparr>"
    using assms(2) by (auto simp: take_lease_def split: sum.splits prod.splits)
  have inv: "mgr_inv mgr ls" using assms(1) Some by (simp add: media_inv_def)
  have "mgr_inv mgr1 (add_mset l ls)"
    using m(1) inv mgr_acquire_inv [OF inv] by (auto simp: mgr_acquire_role_def mgr_inv_def leases_ok_def holds_def empty_lease_def split: option.splits)
  then show ?thesis using m(2) by (simp add: media_inv_def)
qed

lemma drop_lease_inv:
  assumes "media_inv e (add_mset l ls)"
  shows "media_inv (drop_lease now l e) ls"
proof (cases "mm_manager e")
  case (Some mgr)
  then have inv: "mgr_inv mgr (add_mset l ls)" using assms by (simp add: media_inv_def)
  then have p: "pool_wf (mg_pool mgr)" "leases_ok (add_mset l ls) (mg_pool mgr)" by (simp_all add: mgr_inv_def)
  have "mgr_inv (mgr\<lparr>mg_pool := lease_drop now l (mg_pool mgr)\<rparr>) ls"
    using lease_drop_inv [OF p, of now] lease_drop_gpu_bytes [OF p(1), of now l] by (intro mgr_inv_pool [OF inv]) auto
  then show ?thesis using Some by (simp add: media_inv_def drop_lease_def)
qed (simp add: media_inv_def drop_lease_def)

text \<open>
  Whatever an image or a transcription returns, the model manager is left with the leases it had: the lease of the neural model is given back on every path,
  the early answer for silence included.
\<close>

theorem media_lease_given_back:
  assumes "media_inv e ls"
  shows "generate_image F Q env loader dummy now prompt w h steps seed e = Inr (ires, e1) \<Longrightarrow> media_inv e1 ls"
    and "transcribe_pcm_bytes F Q env loader dummy now bytes e = Inr (tres, e2) \<Longrightarrow> media_inv e2 ls"
  using assms drop_lease_inv take_lease_inv [OF assms]
  by (fastforce simp: generate_image_def transcribe_pcm_bytes_def transcribe_audio_def Let_def sbind_Inr split: if_splits prod.splits)+

section \<open>Examples\<close>

definition demo_media :: media_ops where
  "demo_media = \<lparr>mo_to_size = (\<lambda>f. ucast f), mo_to_byte = (\<lambda>f. ucast f), mo_round = (\<lambda>f. uint f), mo_print = (\<lambda>f. nat_digits (unat f)), mo_normal = (\<lambda>s i. word_of_nat i)\<rparr>"

theorem generated_image_complete_witness:
  "\<exists>res. generate_image demo_floats demo_media (demo_env []) demo_loader 0 9 ''a cat'' 512 512 20 42 default_multimodal_engine =
       Inr (res, default_multimodal_engine) \<and> ig_success res \<and> length (ig_rgba_data res) = 1048576"
  using generated_image_complete [of "''a cat''" "demo_env []" default_multimodal_engine 512 512 demo_loader 0 9 empty_lease default_multimodal_engine demo_floats demo_media 20 42]
  by (auto simp: can_generate_image_def take_lease_def default_multimodal_engine_def drop_lease_def)

end
