(* ===== verification/Engine.thy ===== *)
theory Engine
  imports Model_Engine Multimodal Context_Engine Text_Embedding Decision_Engine Tool_Registry
begin

text \<open>
  The request engine (\<open>DenseLiteEngine.cpp\<close>): a request is parsed, attached to a session, routed, stripped of or given tools, sent to a model with
  recovery and continuation, and answered.

  The state is the record \<open>dense_engine\<close>: the table of sessions and the parts the engine owns. \<open>pipeline_env\<close> holds what is outside, with a field for each
  reading of the clock and of the host; \<open>at_asked\<close> lists the models asked, in order. What the C++ code lets escape as an exception, undefined accesses and
  calls that do not return are error values. \<open>enforce_thread_limits\<close> sets the number of OpenMP threads and is left out; a session's working memory is behind a
  shared pointer whose only other owner is the table entry that the end of the request replaces or erases.
\<close>

section \<open>Sessions and surroundings\<close>

datatype session_status =
  S_CREATED | S_ANALYZING | S_ROUTING | S_INFERRING | S_WAITING_FOR_TOOL | S_PROCESSING_TOOL_RESULT | S_CONTINUING | S_COMPLETED | S_FAILED | S_CANCELLED

record inference_session =
  is_session_id :: string
  is_request_id :: string
  is_status :: session_status
  is_task_type :: string
  is_model :: string
  is_iteration_count :: int
  is_iteration_results :: "string list"
  is_waiting_for_tool :: bool
  is_working_memory :: "working_memory option"

record http_response =
  hr_status :: int
  hr_body :: string
  hr_content_type :: string

definition new_response :: http_response where
  "new_response = \<lparr>hr_status = -1, hr_body = [], hr_content_type = []\<rparr>"

definition set_content :: "string \<Rightarrow> string \<Rightarrow> http_response \<Rightarrow> http_response" where
  "set_content body ty res = res\<lparr>hr_body := body, hr_content_type := ty\<rparr>"

datatype pipeline_error = Model_Crash engine_error | Media_Crash media_error | Tools_Stuck | Not_Printable | Undefined_Access

record pipeline_env =
  pe_engine :: surroundings
  pe_num :: num_ops
  pe_parse_ms :: nat
  pe_session_ms :: int
  pe_tool_ms :: int
  pe_epoch :: int
  pe_bert :: bert
  pe_intent_sort :: "(string \<times> f32) list \<Rightarrow> (string \<times> f32) list"
  pe_rank_sort :: "search_result list \<Rightarrow> search_result list"
  pe_doubles :: double_ops
  pe_embedding_fn :: "(string \<Rightarrow> f32 list) option"
  pe_route_proc :: proc_env
  pe_stage_proc :: proc_env
  pe_media_proc :: proc_env
  pe_media :: media_ops
  pe_loader :: "string \<Rightarrow> string + loaded_model"
  pe_dummy :: loaded_model

record dense_engine =
  en_sessions :: "(string, inference_session) omap"
  en_world :: world
  en_tools :: tool_registry
  en_tokenizers :: tokenizer_registry
  en_search :: search_engine
  en_governor :: resource_governor
  en_media :: "loaded_model multimodal_engine"

text \<open>The constructor: a tokenizer for every resident model; the databases and indexes it opens are behind the search engine.\<close>

definition new_engine :: "world \<Rightarrow> search_engine \<Rightarrow> resource_governor \<Rightarrow> dense_engine" where
  "new_engine w se g =
     \<lparr>en_sessions = [], en_world = w, en_tools = new_tool_registry,
      en_tokenizers = fold (\<lambda>(mid, M). register_tokenizer mid (Some (dm_vocab (lm_model M))) (eos_token_id (cfg_of M)) (- 1)) (w_models w)
        \<lparr>tg_tokenizers = [], tg_default = []\<rparr>,
      en_search = se, en_governor = g, en_media = default_multimodal_engine\<rparr>"

definition embedding_model :: "(string, loaded_model) omap \<Rightarrow> loaded_model option" where
  "embedding_model models =
     (case map_of models ''nomic'' of Some M \<Rightarrow> Some M
      | None \<Rightarrow> (case map_of models ''embedding'' of Some M \<Rightarrow> Some M | None \<Rightarrow> map_of models ''nomic_embed''))"

definition fresh_inference_session :: "string \<Rightarrow> inference_session" where
  "fresh_inference_session sid =
     \<lparr>is_session_id = sid, is_request_id = [], is_status = S_CREATED, is_task_type = [], is_model = [], is_iteration_count = 1, is_iteration_results = [],
      is_waiting_for_tool = False, is_working_memory = Some new_working_memory\<rparr>"

definition get_or_create_session :: "int \<Rightarrow> string \<Rightarrow> dense_engine \<Rightarrow> inference_session \<times> dense_engine" where
  "get_or_create_session now_ms sid e =
     (case (if sid = [] then None else map_of (en_sessions e) sid) of
        Some s \<Rightarrow>
          let s1 = s\<lparr>is_iteration_count := is_iteration_count s + 1, is_status := S_CONTINUING\<rparr>
          in (s1, e\<lparr>en_sessions := om_put sid s1 (en_sessions e)\<rparr>)
      | None \<Rightarrow>
          let s1 = fresh_inference_session (if sid = [] then int_digits now_ms else sid)
          in (s1, e\<lparr>en_sessions := om_put (is_session_id s1) s1 (en_sessions e)\<rparr>))"

section \<open>Routing, tools and the target model\<close>

definition user_query_of :: "openai_request \<Rightarrow> string" where
  "user_query_of req = (if rq_messages req = [] then [] else msg_content (last (rq_messages req)))"

definition is_auto :: "openai_request \<Rightarrow> bool" where
  "is_auto req \<longleftrightarrow> rq_model req = ''denselite'' \<or> rq_model req = []"

definition route_request :: "pipeline_env \<Rightarrow> inference_config \<Rightarrow> openai_request \<Rightarrow> decision_output \<times> string \<times> openai_request" where
  "route_request V cfg req =
     (if inf_routing_mode cfg = ''off'' \<or> rq_model req \<noteq> [] \<and> rq_model req \<noteq> ''denselite''
      then (new_decision, ''general'', req)
      else let dec = decide (pe_intent_sort V) (su_floats (pe_engine V)) (pe_bert V) (user_query_of req) (Some req)
           in (dec, do_intent dec, req\<lparr>rq_use_context := do_requires_code_context dec \<or> do_requires_memory dec\<rparr>))"

definition tool_keywords :: "string list" where
  "tool_keywords = [''artisan'', ''run'', ''execute'', ''migrate'', ''database'', ''query'', ''schema'', ''tool'', ''search_symbols'', ''fetch'', ''bash'',
     ''command'', ''mcp'']"

definition requires_tools :: "string \<Rightarrow> bool" where
  "requires_tools user_query = list_ex (contains (lower user_query)) tool_keywords"

definition strip_request :: "inference_config \<Rightarrow> openai_request \<Rightarrow> openai_request" where
  "strip_request cfg req =
     (let default_sys = (if inf_system_prompt cfg = [] then ''You are DenseLite, a fast, concise programming and chat assistant.'' else inf_system_prompt cfg)
      in req\<lparr>rq_tools := [], rq_messages := map (\<lambda>m. if msg_role m = ''system'' \<and> 400 < length (msg_content m) then m\<lparr>msg_content := default_sys\<rparr> else m)
           (rq_messages req)\<rparr>)"

definition prepare_tools ::
  "pipeline_env \<Rightarrow> inference_config \<Rightarrow> string \<Rightarrow> string \<Rightarrow> openai_request \<Rightarrow> tool_registry \<Rightarrow> (openai_request \<times> tool_registry) option" where
  "prepare_tools V cfg task_type sid req tr =
     (let q = user_query_of req
      in case (if rq_tools req \<noteq> [] then register_tools (su_fuel (pe_engine V)) (pe_tool_ms V) sid (rq_tools req) tr else Some tr) of
           None \<Rightarrow> None
         | Some tr1 \<Rightarrow>
             if inf_enable_tool_dedup cfg \<and> \<not> requires_tools q \<and> (task_type = ''text'' \<or> length q < 160) then Some (strip_request cfg req, tr1)
             else if requires_tools q \<and> rq_tools req = []
             then let (there, tr2) = has_tools (pe_tool_ms V) sid tr1
                  in if there then let (tools, tr3) = get_all_tools (pe_tool_ms V) sid tr2 in Some (req\<lparr>rq_tools := tools\<rparr>, tr3) else Some (req, tr2)
             else Some (req, tr1))"

definition payload_chars :: "openai_request \<Rightarrow> nat" where
  "payload_chars req = sum_list (map (\<lambda>m. length (msg_content m)) (rq_messages req))"

definition role_model :: "world \<Rightarrow> string \<Rightarrow> string \<Rightarrow> string" where
  "role_model w role otherwise = (let s = get_model_for_role role (w_inventory w) in if s = [] then otherwise else s)"

definition default_general :: string where "default_general = ''llama-3_2-1b-instruct-abliterated_i1-q4_0''"
definition default_coder :: string where "default_coder = ''deepseek-r1-distill-qwen-1_5b-q4_0''"

definition offload_model :: "sqlite_router \<Rightarrow> string" where
  "offload_model r =
     (if get_provider_for_model ''openai/gpt-oss-20b'' r \<noteq> [] then ''openai/gpt-oss-20b''
      else if get_provider_for_model ''gemini-2.5-flash'' r \<noteq> [] then ''gemini-2.5-flash'' else [])"

definition select_model :: "pipeline_env \<Rightarrow> string \<Rightarrow> string \<Rightarrow> openai_request \<Rightarrow> resource_governor \<Rightarrow> world \<Rightarrow> string" where
  "select_model V task_type user_query req g w =
     (let t1 = (if \<not> is_auto req then rq_model req
                else if task_type = ''coding'' then role_model w ''coder'' default_coder else role_model w ''general'' default_general);
          cloud = offload_model (w_router w);
          t2 = (if (4000 < payload_chars req \<or> requires_tools user_query) \<and> is_auto req \<and> cloud \<noteq> [] then cloud else t1);
          cheapest = get_cheapest_model_for_provider ''OPENROUTER'' ''text'' (w_router w)
      in if should_route_to_cloud g (pe_route_proc V) \<and> cheapest \<noteq> [] then cheapest else t2)"

section \<open>Evidence and prompt\<close>

definition gather_evidence :: "pipeline_env \<Rightarrow> inference_config \<Rightarrow> string \<Rightarrow> string \<Rightarrow> openai_request \<Rightarrow> search_engine \<Rightarrow> world \<Rightarrow> search_result list \<times> world" where
  "gather_evidence V cfg user_query task_type req se w =
     (if rq_use_context req \<and> inf_enable_context_injection cfg
      then let (mem, s1) = run_state (get_memory_config (su_settings (pe_engine V))) (w_settings w);
               top_k = (if mec_search_top_k mem \<le> 0 then 5 else mec_search_top_k mem);
               F = su_floats (pe_engine V);
               embed_query = (\<lambda>t. case embed_text F (pe_doubles V) (pe_embedding_fn V) t 128 of Inr v \<Rightarrow> v | Inl _ \<Rightarrow> [])
           in (search (pe_rank_sort V) F embed_query se user_query task_type (word_of_int top_k), w\<lparr>w_settings := s1\<rparr>)
      else ([], w))"

definition context_cap :: "inference_config \<Rightarrow> eviction_stage \<Rightarrow> decision_output \<Rightarrow> size_t" where
  "context_cap cfg stage dec =
     (let default_ctx = (if 0 < inf_context_window cfg then word_of_int (inf_context_window cfg) else 8192);
          cap = (if SHRINK_CONTEXT \<le> stage then min 4096 default_ctx else default_ctx)
      in if f32_lt (do_complexity_score dec) 0x3ECCCCCD then min 2048 cap else cap)"

definition config_for :: "string \<Rightarrow> world \<Rightarrow> model_config" where
  "config_for target w = (case map_of (w_models w) target of Some M \<Rightarrow> cfg_of M | None \<Rightarrow> default_config\<lparr>architecture := target\<rparr>)"

definition prompt_for :: "tokenizer_registry \<Rightarrow> openai_request \<Rightarrow> search_result list \<Rightarrow> string \<Rightarrow> model_config \<Rightarrow> size_t \<Rightarrow> string" where
  "prompt_for reg req hits target cfg cap =
     co_compiled_prompt (optimize_with_evidence (Some reg) req (map (\<lambda>h. (sr_symbol_name h, sr_file_path h, sr_content h)) hits) target cfg cap)"

section \<open>Inference with recovery\<close>

record attempt =
  at_target :: string
  at_prompt :: string
  at_world :: world
  at_asked :: "string list"

definition resolve_fallback :: "world \<Rightarrow> string" where
  "resolve_fallback w =
     (let s = get_model_for_role ''general'' (w_inventory w)
      in if s \<noteq> [] then s else if map_of (w_models w) ''general'' \<noteq> None then ''general'' else default_general)"

definition recover :: "tokenizer_registry \<Rightarrow> openai_request \<Rightarrow> model_config \<Rightarrow> recovery_action \<Rightarrow> attempt \<Rightarrow> attempt" where
  "recover reg req cfg action a =
     (case action of
        REDUCE_CONTEXT \<Rightarrow> a\<lparr>at_prompt := prompt_for reg req [] (at_target a) cfg 4096\<rparr>
      | FALLBACK_LOCAL \<Rightarrow> a\<lparr>at_target := resolve_fallback (at_world a)\<rparr>
      | RETRY_SAME \<Rightarrow> a
      | FAIL_SESSION \<Rightarrow> a
      | _ \<Rightarrow> a\<lparr>at_target := (let c = get_cheapest_model_for_provider ''OPENROUTER'' ''text'' (w_router (at_world a))
                             in if c = [] then resolve_fallback (at_world a) else c)\<rparr>)"

text \<open>The inner loop: whether a try returned 200, the status and the output.\<close>

fun attempts ::
  "surroundings \<Rightarrow> tokenizer_registry \<Rightarrow> openai_request \<Rightarrow> model_config \<Rightarrow> nat \<Rightarrow> int \<times> string \<Rightarrow> attempt \<Rightarrow>
   engine_error + (bool \<times> int \<times> string) \<times> attempt" where
  "attempts U reg req cfg 0 (status, out) a = Inr ((False, status, out), a)"
| "attempts U reg req cfg (Suc n) _ a =
     sbind (infer U (at_target a) req (at_prompt a) (at_world a)) (\<lambda>(status, out, w).
       let a1 = a\<lparr>at_world := w, at_asked := at_asked a @ [at_target a]\<rparr>
       in if status = 200 then Inr ((True, 200, out), a1)
          else let action = determine_action status out
               in if action = FAIL_SESSION then Inr ((False, status, out), a1)
                  else attempts U reg req cfg n (status, out) (recover reg req cfg action a1))"

definition evidence_of :: "string \<Rightarrow> string \<Rightarrow> response_action \<Rightarrow> completion_evidence" where
  "evidence_of task_type out action =
     \<lparr>has_output = (out \<noteq> []), has_task_type = (task_type \<noteq> []), tools_called = False, tool_result_received = False,
      artifact_produced = contains out ''```'', unresolved_error = False, model_says_complete = False, evidence_says_complete = (action = COMPLETE)\<rparr>"

text \<open>The outer loop ends with an answer of its own, or leaves the results to the curator.\<close>

datatype turn_end = Respond http_response inference_session | Curate inference_session

fun turns ::
  "surroundings \<Rightarrow> tokenizer_registry \<Rightarrow> openai_request \<Rightarrow> model_config \<Rightarrow> nat \<Rightarrow> inference_session \<Rightarrow> attempt \<Rightarrow> engine_error + turn_end \<times> attempt" where
  "turns U reg req cfg 0 s a = Inr (Curate s, a)"
| "turns U reg req cfg (Suc n) s a =
     sbind (attempts U reg req cfg 3 (0, []) a) (\<lambda>((step_ok, status, out), a1).
       if \<not> step_ok
       then Inr (Respond (set_content out ''text/plain'' (new_response\<lparr>hr_status := status\<rparr>)) (s\<lparr>is_status := S_FAILED\<rparr>), a1)
       else
         let s1 = s\<lparr>is_iteration_results := is_iteration_results s @ [out]\<rparr>; action = analyze_response (su_parse U) out []
         in case action of
              TOOL_CALL \<Rightarrow> Inr (Respond (set_content out ''application/json'' new_response) (s1\<lparr>is_status := S_WAITING_FOR_TOOL\<rparr>), a1)
            | INVALID \<Rightarrow> turns U reg req cfg n s1 (a1\<lparr>at_target := role_model (at_world a1) ''general'' default_general\<rparr>)
            | MODEL_CONTINUE \<Rightarrow> turns U reg req cfg n (s1\<lparr>is_status := S_CONTINUING\<rparr>)
                (a1\<lparr>at_prompt := at_prompt a1 @ [CHR 0x0A] @ out @ [CHR 0x0A] @ ''Continue directly:''\<rparr>)
            | _ \<Rightarrow> if is_acceptable (is_task_type s1) out (evidence_of (is_task_type s1) out action)
                   then Inr (Curate (s1\<lparr>is_status := S_COMPLETED\<rparr>), a1)
                   else turns U reg req cfg n s1 a1)"

section \<open>The answer\<close>

definition escape_text :: "surroundings \<Rightarrow> string \<Rightarrow> pipeline_error + string" where
  "escape_text U t = (if su_dump U (JString t) = None then Inl Not_Printable else Inr (json_escape (the \<circ> su_dump U) t))"

definition sse_text :: "surroundings \<Rightarrow> string \<Rightarrow> pipeline_error + string" where
  "sse_text U t =
     (if su_dump U (choices_of (JObject [(''content'', JString t)])) = None then Inl Not_Printable
      else Inr (format_sse_delta (the \<circ> su_dump U) t @ format_sse_done))"

definition completion_body :: "string \<Rightarrow> int \<Rightarrow> string \<Rightarrow> string \<Rightarrow> string" where
  "completion_body sid now_sec target escaped =
     ''{'' @ quoted ''id'' @ '':'' @ quoted (''chatcmpl-'' @ sid) @ '','' @ quoted ''object'' @ '':'' @ quoted ''chat.completion'' @ '','' @
     quoted ''created'' @ '':'' @ int_digits now_sec @ '','' @ quoted ''model'' @ '':'' @ quoted target @ '','' @
     quoted ''choices'' @ '':[{'' @ quoted ''index'' @ '':0,'' @ quoted ''message'' @ '':{'' @ quoted ''role'' @ '':'' @ quoted ''assistant'' @ '','' @
     quoted ''content'' @ '':'' @ quoted escaped @ ''},'' @ quoted ''finish_reason'' @ '':'' @ quoted ''stop'' @ ''}]}''"

definition curate :: "pipeline_env \<Rightarrow> openai_request \<Rightarrow> search_result list \<Rightarrow> string \<Rightarrow> inference_session \<Rightarrow> pipeline_error + http_response" where
  "curate V req hits target s =
     (case Agent_Policy.consolidate (su_parse (pe_engine V)) (is_iteration_results s) (is_task_type s) (map (\<lambda>h. (sr_symbol_name h, sr_file_path h)) hits) of
        None \<Rightarrow> Inl Undefined_Access
      | Some final \<Rightarrow>
          if rq_stream req then sbind (sse_text (pe_engine V) final) (\<lambda>b. Inr (set_content b ''text/event-stream'' new_response))
          else sbind (escape_text (pe_engine V) final) (\<lambda>t.
                 Inr (set_content (completion_body (is_session_id s) (pe_epoch V) target t) ''application/json'' new_response)))"

section \<open>Image and audio tasks\<close>

definition image_body :: "nat \<Rightarrow> string" where
  "image_body n = ''{'' @ quoted ''created'' @ '':1700000000,'' @ quoted ''data'' @ '':[{'' @ quoted ''b64_json'' @ '':'' @
     quoted (''[image_data:'' @ nat_digits n @ ''_bytes]'') @ ''}]}''"

definition audio_body :: "string \<Rightarrow> string \<Rightarrow> string" where
  "audio_body t lang = ''{'' @ quoted ''text'' @ '':'' @ quoted t @ '','' @ quoted ''language'' @ '':'' @ quoted lang @ ''}''"

text \<open>\<open>None\<close> when the request goes on to inference.\<close>

definition dispatch_media ::
  "pipeline_env \<Rightarrow> string \<Rightarrow> string \<Rightarrow> loaded_model multimodal_engine \<Rightarrow> pipeline_error + string option \<times> loaded_model multimodal_engine" where
  "dispatch_media V task_type user_query mm =
     (let F = su_floats (pe_engine V)
      in if task_type = ''image''
         then case generate_image F (pe_media V) (pe_media_proc V) (pe_loader V) (pe_dummy V) (pe_tool_ms V) user_query 512 512 20 42 mm of
                Inl e \<Rightarrow> Inl (Media_Crash e)
              | Inr (res, mm1) \<Rightarrow> Inr (if ig_success res then Some (image_body (ig_data_bytes res)) else None, mm1)
         else if task_type = ''audio''
         then case transcribe_pcm_bytes F (pe_media V) (pe_media_proc V) (pe_loader V) (pe_dummy V) (pe_tool_ms V) (map byte_of_char user_query) mm of
                Inl e \<Rightarrow> Inl (Media_Crash e)
              | Inr (res, mm1) \<Rightarrow>
                  if tc_success res
                  then sbind (escape_text (pe_engine V) (tc_text res)) (\<lambda>t. Inr (Some (audio_body t (tc_detected_language res)), mm1))
                  else Inr (None, mm1)
         else Inr (None, mm))"

section \<open>The pipeline\<close>

definition lift_engine :: "engine_error + 'a \<Rightarrow> pipeline_error + 'a" where
  "lift_engine r = (case r of Inl e \<Rightarrow> Inl (Model_Crash e) | Inr x \<Rightarrow> Inr x)"

definition infer_and_answer ::
  "pipeline_env \<Rightarrow> openai_request \<Rightarrow> model_config \<Rightarrow> search_result list \<Rightarrow> inference_session \<Rightarrow> attempt \<Rightarrow> dense_engine \<Rightarrow>
   pipeline_error + inference_session \<times> http_response \<times> dense_engine" where
  "infer_and_answer V req cfg hits s a e =
     sbind (lift_engine (turns (pe_engine V) (en_tokenizers e) req cfg 3 (s\<lparr>is_status := S_INFERRING\<rparr>) a)) (\<lambda>(te, a1).
       let e1 = e\<lparr>en_world := at_world a1\<rparr>
       in case te of
            Respond res s1 \<Rightarrow> Inr (s1, res, e1)
          | Curate s1 \<Rightarrow> sbind (curate V req hits (at_target a1) s1) (\<lambda>res. Inr (s1, res, e1)))"

definition execute_pipeline ::
  "pipeline_env \<Rightarrow> inference_session \<Rightarrow> openai_request \<Rightarrow> dense_engine \<Rightarrow> pipeline_error + inference_session \<times> http_response \<times> dense_engine" where
  "execute_pipeline V s req e =
     (let U = pe_engine V; q = user_query_of req;
          (cfg, st) = run_state (get_inference_config (su_settings U)) (w_settings (en_world e));
          w1 = (en_world e)\<lparr>w_settings := st\<rparr>;
          (dec, task, req1) = route_request V cfg req;
          s1 = s\<lparr>is_status := S_ROUTING, is_task_type := task,
                 is_working_memory := map_option (\<lambda>m. set_current_task q (set_objective task m)) (is_working_memory s)\<rparr>
      in case prepare_tools V cfg task (is_session_id s) req1 (en_tools e) of
           None \<Rightarrow> Inl Tools_Stuck
         | Some (req2, tr) \<Rightarrow>
             let target = select_model V task q req2 (en_governor e) w1;
                 (hits, w2) = gather_evidence V cfg q task req2 (en_search e) w1;
                 cap = context_cap cfg (assess_eviction_stage (en_governor e) (pe_stage_proc V)) dec;
                 mcfg = config_for target w2;
                 prompt = prompt_for (en_tokenizers e) req2 hits target mcfg cap;
                 g = track_inference_memory (word_of_nat (length prompt)) (en_governor e)
             in sbind (dispatch_media V task q (en_media e)) (\<lambda>(answer, mm).
                  let e1 = e\<lparr>en_world := w2, en_tools := tr, en_governor := g, en_media := mm\<rparr>
                  in case answer of
                       Some body \<Rightarrow> Inr (s1\<lparr>is_status := S_COMPLETED\<rparr>, set_content body ''application/json'' (new_response\<lparr>hr_status := 200\<rparr>), e1)
                     | None \<Rightarrow> infer_and_answer V req2 mcfg hits s1 \<lparr>at_target = target, at_prompt = prompt, at_world = w2, at_asked = []\<rparr> e1))"

definition error_body :: "string \<Rightarrow> string" where
  "error_body message = ''{'' @ quoted ''error'' @ '':{'' @ quoted ''message'' @ '':'' @ quoted message @ '','' @ quoted ''type'' @ '':'' @
     quoted ''invalid_request_error'' @ ''}}''"

definition bad_request :: "string \<Rightarrow> http_response" where
  "bad_request message = set_content (error_body message) ''application/json'' (new_response\<lparr>hr_status := 400\<rparr>)"

definition close_session :: "inference_session \<Rightarrow> dense_engine \<Rightarrow> dense_engine" where
  "close_session s e =
     (if is_status s = S_COMPLETED \<or> is_status s = S_FAILED
      then e\<lparr>en_sessions := om_erase (is_session_id s) (en_sessions e), en_tools := clear_session (is_session_id s) (en_tools e)\<rparr>
      else e\<lparr>en_sessions := om_put (is_session_id s) s (en_sessions e)\<rparr>)"

definition parsed_request :: "pipeline_env \<Rightarrow> string \<Rightarrow> openai_request option" where
  "parsed_request V body = parse_request (su_parse (pe_engine V)) (pe_num V) (the \<circ> su_dump (pe_engine V)) (pe_parse_ms V) body"

definition process :: "pipeline_env \<Rightarrow> string \<Rightarrow> dense_engine \<Rightarrow> pipeline_error + http_response \<times> dense_engine" where
  "process V body e =
     (case parsed_request V body of
        None \<Rightarrow> Inr (bad_request ''Malformed JSON in request body'', e)
      | Some req \<Rightarrow>
          if rq_messages req = []
          then Inr (bad_request (''Invalid request: '' @ [CHR 0x27] @ ''messages'' @ [CHR 0x27] @ '' is a required non-empty array''), e)
          else let (s, e1) = get_or_create_session (pe_session_ms V) (rq_session_id req) e
               in sbind (execute_pipeline V s (req\<lparr>rq_session_id := is_session_id s\<rparr>) e1) (\<lambda>(s2, res, e2). Inr (res, close_session s2 e2)))"

section \<open>The two loops\<close>

lemma attempts_asked:
  "attempts U reg req cfg n r a = Inr (out, a') \<Longrightarrow>
   length (at_asked a') \<le> length (at_asked a) + n \<and> (\<exists>ms. at_asked a' = at_asked a @ ms)"
proof (induction n arbitrary: r a)
  case (Suc n)
  obtain status o1 w where i: "infer U (at_target a) req (at_prompt a) (at_world a) = Inr (status, o1, w)"
    using Suc.prems by (auto simp: sbind_Inr)
  have rec: "at_asked (recover reg req cfg act b) = at_asked b" for act b by (cases act) (simp_all add: recover_def)
  show ?case using Suc.prems Suc.IH i by (fastforce simp: Let_def rec split: if_splits)
qed (cases r, auto)

lemma turns_asked:
  "turns U reg req cfg n s a = Inr (te, a') \<Longrightarrow> length (at_asked a') \<le> length (at_asked a) + 3 * n"
proof (induction n arbitrary: s a)
  case (Suc n)
  obtain ok status out a1 where t: "attempts U reg req cfg 3 (0, []) a = Inr ((ok, status, out), a1)"
    using Suc.prems by (auto simp: sbind_Inr)
  have "length (at_asked a1) \<le> length (at_asked a) + 3" using attempts_asked [OF t] by simp
  then show ?case using Suc.prems Suc.IH t by (fastforce simp: Let_def split: if_splits response_action.splits)
qed simp

text \<open>\<open>P\<close> holds in the states the engine gets into, and in them a call of the model engine returns.\<close>

lemma attempts_return:
  assumes "\<And>m p w. P w \<Longrightarrow> \<exists>st out w'. infer U m req p w = Inr (st, out, w') \<and> P w'" and "P (at_world a)"
  shows "\<exists>r a'. attempts U reg req cfg n so a = Inr (r, a') \<and> P (at_world a')"
  using assms(2)
proof (induction n arbitrary: so a)
  case (Suc n)
  obtain status out w where "infer U (at_target a) req (at_prompt a) (at_world a) = Inr (status, out, w)" "P w" using assms(1) Suc.prems by metis
  moreover have "at_world (recover reg req cfg act b) = at_world b" for act b by (cases act) (simp_all add: recover_def)
  ultimately show ?case using Suc.IH by (auto simp: Let_def simp del: split_paired_Ex)
qed (cases so, auto)

lemma turns_return:
  assumes "\<And>m p w. P w \<Longrightarrow> \<exists>st out w'. infer U m req p w = Inr (st, out, w') \<and> P w'" and "P (at_world a)"
  shows "\<exists>te a'. turns U reg req cfg n s a = Inr (te, a') \<and> P (at_world a')"
  using assms(2)
proof (induction n arbitrary: s a)
  case (Suc n)
  obtain ok status out a1 where "attempts U reg req cfg 3 (0, []) a = Inr ((ok, status, out), a1)" "P (at_world a1)"
    using attempts_return [where P = P, OF assms(1) Suc.prems, of reg cfg 3 "(0, [])"] by auto
  then show ?case using Suc.IH by (auto simp: Let_def simp del: split_paired_Ex attempts.simps split: response_action.split)
qed auto

text \<open>
  C22. The recovery and continuation loops end: as long as the calls of the model engine return, three turns return too, after at most nine calls, whatever the
  answers and error codes are, and the world keeps the property \<open>P\<close> that the calls keep.
\<close>

theorem inference_loop_bounded:
  assumes "\<And>m p w. P w \<Longrightarrow> \<exists>st out w'. infer U m req p w = Inr (st, out, w') \<and> P w'" and "P (at_world a)"
  shows "\<exists>te a'. turns U reg req cfg 3 s a = Inr (te, a') \<and> P (at_world a') \<and> length (at_asked a') \<le> length (at_asked a) + 9"
proof -
  obtain te a' where t: "turns U reg req cfg 3 s a = Inr (te, a')" "P (at_world a')" using turns_return [where P = P, OF assms] by blast
  then show ?thesis using turns_asked [OF t(1)] by simp
qed

section \<open>Life of a session\<close>

fun end_session :: "turn_end \<Rightarrow> inference_session" where
  "end_session (Respond res s) = s"
| "end_session (Curate s) = s"

definition may_end :: "session_status \<Rightarrow> inference_session \<Rightarrow> turn_end \<Rightarrow> bool" where
  "may_end st s te \<longleftrightarrow> is_session_id (end_session te) = is_session_id s \<and>
     (case te of Respond res s' \<Rightarrow> is_status s' \<in> {S_FAILED, S_WAITING_FOR_TOOL} | Curate s' \<Rightarrow> is_status s' \<in> {S_COMPLETED, S_CONTINUING, st})"

lemma turns_end: "turns U reg req cfg n s a = Inr (te, a') \<Longrightarrow> is_status s \<in> {S_CONTINUING, st} \<Longrightarrow> may_end st s te"
proof (induction n arbitrary: s a)
  case (Suc n)
  obtain ok status out a1 where t: "attempts U reg req cfg 3 (0, []) a = Inr ((ok, status, out), a1)"
    using Suc.prems by (auto simp: sbind_Inr simp del: attempts.simps)
  let ?s1 = "s\<lparr>is_iteration_results := is_iteration_results s @ [out]\<rparr>"
  have IH: "turns U reg req cfg n s2 b = Inr (te, a') \<Longrightarrow> is_status s2 \<in> {S_CONTINUING, st} \<Longrightarrow> is_session_id s2 = is_session_id s \<Longrightarrow> may_end st s te" for s2 b
    using Suc.IH [of s2 b] by (auto simp: may_end_def)
  show ?case
  proof (cases ok)
    case False
    then show ?thesis using Suc.prems(1) t by (auto simp: may_end_def simp del: attempts.simps)
  next
    case True
    note e = Suc.prems(1) [unfolded turns.simps t sbind_simps prod.case Let_def, simplified True, simplified]
    have again: "turns U reg req cfg n ?s1 b = Inr (te, a') \<Longrightarrow> may_end st s te" for b
      using Suc.prems(2) by (intro IH [of ?s1 b]) simp_all
    have fin: "may_end st s (Curate (?s1\<lparr>is_status := S_COMPLETED\<rparr>))" by (simp add: may_end_def)
    show ?thesis
    proof (cases "analyze_response (su_parse U) out []")
      case TOOL_CALL
      then show ?thesis using e by (auto simp: may_end_def)
    next
      case MODEL_CONTINUE
      then show ?thesis using e by (auto intro: IH)
    qed (use e again fin in \<open>auto split: if_splits\<close>)
  qed
qed (auto simp: may_end_def)

lemma infer_and_answer_end:
  assumes "infer_and_answer V req cfg hits s a e = Inr (s', res, e')"
  shows "is_session_id s' = is_session_id s \<and> en_sessions e' = en_sessions e \<and>
    is_status s' \<in> {S_COMPLETED, S_FAILED, S_WAITING_FOR_TOOL, S_CONTINUING, S_INFERRING}"
proof -
  obtain te a1 where t: "turns (pe_engine V) (en_tokenizers e) req cfg 3 (s\<lparr>is_status := S_INFERRING\<rparr>) a = Inr (te, a1)"
    using assms by (auto simp: infer_and_answer_def lift_engine_def sbind_Inr split: sum.splits)
  have "s' = end_session te \<and> en_sessions e' = en_sessions e"
    using assms by (cases te) (auto simp: infer_and_answer_def lift_engine_def t sbind_Inr simp del: turns.simps)
  then show ?thesis using turns_end [OF t, of S_INFERRING] by (cases te) (auto simp: may_end_def)
qed

lemma pipeline_end:
  assumes "execute_pipeline V s req e = Inr (s', res, e')"
  shows "is_session_id s' = is_session_id s \<and> en_sessions e' = en_sessions e \<and>
    is_status s' \<in> {S_COMPLETED, S_FAILED, S_WAITING_FOR_TOOL, S_CONTINUING, S_INFERRING}"
proof -
  obtain cfg st where c: "run_state (get_inference_config (su_settings (pe_engine V))) (w_settings (en_world e)) = (cfg, st)" by (metis prod.exhaust)
  obtain dec task req1 where r: "route_request V cfg req = (dec, task, req1)" by (metis prod_cases3)
  note u = assms [unfolded execute_pipeline_def Let_def c prod.case r]
  then obtain req2 tr where p: "prepare_tools V cfg task (is_session_id s) req1 (en_tools e) = Some (req2, tr)" by (auto split: option.splits)
  obtain hits w2 where h: "gather_evidence V cfg (user_query_of req) task req2 (en_search e) ((en_world e)\<lparr>w_settings := st\<rparr>) = (hits, w2)" by (metis prod.exhaust)
  note u2 = u [unfolded p option.case prod.case h]
  then obtain answer mm where m: "dispatch_media V task (user_query_of req) (en_media e) = Inr (answer, mm)" by (auto simp: sbind_Inr)
  note u3 = u2 [unfolded m sbind_simps prod.case]
  show ?thesis using u3 infer_and_answer_end by (cases answer) fastforce+
qed

definition sessions_ok :: "dense_engine \<Rightarrow> bool" where
  "sessions_ok e \<longleftrightarrow> (\<forall>k s. map_of (en_sessions e) k = Some s \<longrightarrow> is_session_id s = k)"

definition goes_on :: "session_status \<Rightarrow> bool" where
  "goes_on st \<longleftrightarrow> st \<in> {S_WAITING_FOR_TOOL, S_CONTINUING, S_INFERRING}"

lemma opened_session:
  assumes "get_or_create_session now sid e = (s, e1)" and "sessions_ok e" and "sid \<noteq> []"
  shows "is_session_id s = sid \<and> map_of (en_sessions e1) = (map_of (en_sessions e))(sid \<mapsto> s)"
  using assms by (auto simp: get_or_create_session_def Let_def fresh_inference_session_def sessions_ok_def split: option.splits)

text \<open>
  C21. The table holds exactly the sessions that go on: after a request with messages, the session of the request is in the table under its identifier, waiting for a
  tool or unfinished, or it is gone together with its tools; every other session is as it was.
\<close>

theorem session_kept_or_closed:
  assumes "process V body e = Inr (res, e')" and "parsed_request V body = Some req" and "rq_messages req \<noteq> []" and "rq_session_id req = sid" and "sid \<noteq> []"
    and "sessions_ok e"
  shows "(case map_of (en_sessions e') sid of None \<Rightarrow> map_of (tr_catalogs (en_tools e')) sid = None | Some s \<Rightarrow> is_session_id s = sid \<and> goes_on (is_status s)) \<and>
    map_of (en_sessions e') |` (- {sid}) = map_of (en_sessions e) |` (- {sid}) \<and> sessions_ok e'"
proof -
  obtain s e1 where g: "get_or_create_session (pe_session_ms V) sid e = (s, e1)" by (metis prod.exhaust)
  obtain s2 e2 where x: "execute_pipeline V s (req\<lparr>rq_session_id := is_session_id s\<rparr>) e1 = Inr (s2, res, e2)" "e' = close_session s2 e2"
    using assms(1-4) g by (auto simp: process_def sbind_Inr)
  note o = opened_session [OF g assms(6,5)]
  have p: "is_session_id s2 = sid" "map_of (en_sessions e2) = (map_of (en_sessions e))(sid \<mapsto> s)"
      "is_status s2 \<in> {S_COMPLETED, S_FAILED, S_WAITING_FOR_TOOL, S_CONTINUING, S_INFERRING}"
    using pipeline_end [OF x(1)] o by auto
  have "map_of (en_sessions e') = (map_of (en_sessions e))(sid := if goes_on (is_status s2) then Some s2 else None)"
    using x(2) p by (auto simp: close_session_def goes_on_def)
  moreover have "\<not> goes_on (is_status s2) \<Longrightarrow> map_of (tr_catalogs (en_tools e')) sid = None"
    using x(2) p assms(5) by (auto simp: close_session_def goes_on_def clear_session_def erase_session_def)
  ultimately show ?thesis using p(1) assms(6) by (auto simp: sessions_ok_def restrict_map_def fun_eq_iff)
qed

section \<open>Without keys\<close>

text \<open>No key anywhere: none in the settings, in the key table or in the environment.\<close>

definition keyless :: "surroundings \<Rightarrow> world \<Rightarrow> bool" where
  "keyless U w \<longleftrightarrow> (let c = fst (run_state (get_cloud_config (su_settings U)) (w_settings w))
      in cld_openrouter_api_key c = [] \<and> cld_gemini_api_key c = [] \<and> cld_openai_api_key c = []) \<and>
     rt_keys (w_router w) = [] \<and> (\<forall>p. oe_getenv (os_of U) (p @ ''_API_KEY'') = None)"

definition cloud_only :: "sqlite_router \<Rightarrow> string \<Rightarrow> bool" where
  "cloud_only r m \<longleftrightarrow> get_provider_for_model m r \<noteq> ''local'' \<and> get_provider_for_model m r \<noteq> []"

lemma run_get_cloud: "snd (run_state (get_cloud_config X) s) = refresh X s"
    "fst (run_state (get_cloud_config X) (refresh X s)) = fst (run_state (get_cloud_config X) s)"
  by (simp_all add: get_cloud_config_def run_settings)

lemma set_cooldowns_Nil: "fold (\<lambda>row. set_cooldown (f row) (g row) (h row)) rows [] = []"
  by (induction rows) simp_all

lemma keyless_infer:
  assumes "keyless U w" and "cloud_only (w_router w) m"
  shows "\<exists>out w'. infer U m req p w = Inr (429, out, w') \<and> keyless U w' \<and> rt_models (w_router w') = rt_models (w_router w) \<and>
    rt_open (w_router w') = rt_open (w_router w)"
proof -
  let ?X = "su_settings U"
  obtain c where c: "run_state (get_cloud_config ?X) (w_settings w) = (c, refresh ?X (w_settings w))" using run_get_cloud(1) by (metis prod.collapse)
  have k: "cld_openrouter_api_key c = []" "cld_gemini_api_key c = []" "cld_openai_api_key c = []" "rt_keys (w_router w) = []" "oe_getenv (os_of U) (p @ ''_API_KEY'') = None" for p
    using assms(1) c by (simp_all add: keyless_def Let_def)
  have sy: "rt_keys (sync_db (w_router w)) = []" "rt_models (sync_db (w_router w)) = rt_models (w_router w)" "rt_open (sync_db (w_router w)) = rt_open (w_router w)"
    using k(4) by (simp_all add: sync_db_def set_cooldowns_Nil)
  have "settings_key c p = []" for p using k by (simp add: settings_key_def)
  then have "get_next_available_key c (oe_getenv (os_of U)) (su_seconds U) p (w_router w) = (no_key, sync_db (w_router w))" for p
    using k(5) k(5) [of "''GOOGLE''"] sy(1) by (simp add: get_next_available_key_def Let_def environment_key_def)
  then show ?thesis using assms c k sy run_get_cloud(2) [of ?X "w_settings w"]
    by (simp add: infer_def cloud_only_def Let_def no_key_def keyless_def)
qed

definition same_models :: "sqlite_router \<Rightarrow> sqlite_router \<Rightarrow> bool" where
  "same_models r r' \<longleftrightarrow> rt_models r' = rt_models r \<and> rt_open r' = rt_open r"

lemma same_models_answers:
  assumes "same_models r r'"
  shows "cloud_only r' m = cloud_only r m" and "get_cheapest_model_for_provider p ty r' = get_cheapest_model_for_provider p ty r"
  using assms by (simp_all add: same_models_def cloud_only_def get_provider_for_model_def get_cheapest_model_for_provider_def matching_models_def)

lemma busy_action: "determine_action 429 out = SWITCH_KEY \<or> determine_action 429 out = SWITCH_PROVIDER"
  by (simp add: determine_action_def)

lemma keyless_attempts:
  assumes "keyless U (at_world a)" and "same_models r (w_router (at_world a))" and "cloud_only r (at_target a)"
    and "get_cheapest_model_for_provider ''OPENROUTER'' ''text'' r = c" and "c \<noteq> []" and "cloud_only r c" and "n = 0 \<longrightarrow> fst so = 429"
  shows "\<exists>out a' ms. attempts U reg req cfg n so a = Inr ((False, 429, out), a') \<and> at_asked a' = at_asked a @ ms \<and> length ms = n \<and> list_all (cloud_only r) ms"
  using assms(1-3,7)
proof (induction n arbitrary: a so)
  case 0
  then show ?case by (cases so) auto
next
  case (Suc n)
  have m: "cloud_only (w_router (at_world a)) (at_target a)" using Suc.prems(2,3) same_models_answers(1) by blast
  obtain out w where i: "infer U (at_target a) req (at_prompt a) (at_world a) = Inr (429, out, w)" "keyless U w" "same_models (w_router (at_world a)) (w_router w)"
    using keyless_infer [OF Suc.prems(1) m, of req "at_prompt a"] by (auto simp: same_models_def)
  have sm: "same_models r (w_router w)" using i(3) Suc.prems(2) by (simp add: same_models_def)
  let ?a1 = "a\<lparr>at_world := w, at_asked := at_asked a @ [at_target a]\<rparr>"
  have rec: "recover reg req cfg (determine_action 429 out) ?a1 = ?a1\<lparr>at_target := c\<rparr>"
    using busy_action [of out] same_models_answers(2) [OF sm] assms(4,5) by (auto simp: recover_def)
  have step: "attempts U reg req cfg (Suc n) so a = attempts U reg req cfg n (429, out) (?a1\<lparr>at_target := c\<rparr>)"
    using i(1) rec busy_action [of out] by (auto simp: Let_def)
  have "\<exists>out' a' ms. attempts U reg req cfg n (429, out) (?a1\<lparr>at_target := c\<rparr>) = Inr ((False, 429, out'), a') \<and>
      at_asked a' = at_asked (?a1\<lparr>at_target := c\<rparr>) @ ms \<and> length ms = n \<and> list_all (cloud_only r) ms"
    using i(2) sm assms(6) by (intro Suc.IH) simp_all
  then obtain out' a' ms where "attempts U reg req cfg n (429, out) (?a1\<lparr>at_target := c\<rparr>) = Inr ((False, 429, out'), a')"
      "at_asked a' = at_asked a @ [at_target a] @ ms" "length ms = n" "list_all (cloud_only r) ms" by auto
  then show ?case unfolding step using Suc.prems(3) by (intro exI [of _ out'] exI [of _ a'] exI [of _ "at_target a # ms"]) simp
qed

lemma keyless_target:
  assumes "is_auto req" and "4000 < payload_chars req \<or> requires_tools q" and "cloud_only (w_router w) ''openai/gpt-oss-20b''"
    and "get_cheapest_model_for_provider ''OPENROUTER'' ''text'' (w_router w) = c" and "cloud_only (w_router w) c"
  shows "cloud_only (w_router w) (select_model V task q req g w)"
  using assms by (auto simp: select_model_def Let_def offload_model_def cloud_only_def)

lemma keyless_turns:
  assumes "keyless U w" and "cloud_only (w_router w) m"
    and "get_cheapest_model_for_provider ''OPENROUTER'' ''text'' (w_router w) = c" and "c \<noteq> []" and "cloud_only (w_router w) c"
  shows "\<exists>out a'. turns U reg req cfg 3 s \<lparr>at_target = m, at_prompt = prompt, at_world = w, at_asked = []\<rparr> =
      Inr (Respond \<lparr>hr_status = 429, hr_body = out, hr_content_type = ''text/plain''\<rparr> (s\<lparr>is_status := S_FAILED\<rparr>), a')"
proof -
  let ?a = "\<lparr>at_target = m, at_prompt = prompt, at_world = w, at_asked = []\<rparr>"
  obtain out a' ms where a: "attempts U reg req cfg 3 (0, []) ?a = Inr ((False, 429, out), a')"
    using keyless_attempts [of U ?a "w_router w" c 3 "(0, [])" reg req cfg] assms by (auto simp: same_models_def)
  then show ?thesis by (simp add: numeral_3_eq_3 set_content_def new_response_def del: attempts.simps)
qed

lemma keyless_answer:
  assumes "keyless (pe_engine V) w" and "cloud_only (w_router w) m"
    and "get_cheapest_model_for_provider ''OPENROUTER'' ''text'' (w_router w) = c" and "c \<noteq> []" and "cloud_only (w_router w) c"
    and "is_session_id s = sid" and "en_sessions e = es"
  shows "\<exists>s' out e'. infer_and_answer V req cfg hits s \<lparr>at_target = m, at_prompt = prompt, at_world = w, at_asked = []\<rparr> e =
      Inr (s', \<lparr>hr_status = 429, hr_body = out, hr_content_type = ''text/plain''\<rparr>, e') \<and>
    is_session_id s' = sid \<and> is_status s' = S_FAILED \<and> en_sessions e' = es"
  using assms(6,7) keyless_turns [OF assms(1-5), of "en_tokenizers e" req cfg "s\<lparr>is_status := S_INFERRING\<rparr>" prompt]
  by (auto simp: infer_and_answer_def lift_engine_def simp del: turns.simps)

lemma run_get_inference: "snd (run_state (get_inference_config X) s) = refresh X s"
  by (simp add: get_inference_config_def run_settings)

lemma run_get_memory: "snd (run_state (get_memory_config X) s) = refresh X s"
  by (simp add: get_memory_config_def run_settings)

lemma keyless_refresh: "keyless U w \<Longrightarrow> keyless U (w\<lparr>w_settings := refresh (su_settings U) (w_settings w)\<rparr>)"
  by (simp add: keyless_def run_get_cloud)

lemma gather_world:
  assumes "gather_evidence V cfg q task req se w = (hits, w')"
  shows "w' = w \<or> w' = w\<lparr>w_settings := refresh (su_settings (pe_engine V)) (w_settings w)\<rparr>"
proof (cases "rq_use_context req \<and> inf_enable_context_injection cfg")
  case True
  obtain mem where "run_state (get_memory_config (su_settings (pe_engine V))) (w_settings w) = (mem, refresh (su_settings (pe_engine V)) (w_settings w))"
    using run_get_memory by (metis prod.collapse)
  then show ?thesis using assms True by (simp add: gather_evidence_def Let_def)
qed (use assms in \<open>auto simp: gather_evidence_def\<close>)

lemma prepare_keeps:
  assumes "rq_tools req = []" and "requires_tools (user_query_of req)"
  shows "\<exists>req2 tr2. prepare_tools V cfg task sid req tr = Some (req2, tr2) \<and> rq_model req2 = rq_model req"
  using assms by (auto simp: prepare_tools_def Let_def split: prod.split)

lemma route_keeps:
  assumes "route_request V cfg req = (dec, task, req1)"
  shows "rq_model req1 = rq_model req \<and> rq_tools req1 = rq_tools req \<and> user_query_of req1 = user_query_of req"
  using assms by (auto simp: route_request_def Let_def user_query_of_def split: if_splits)

definition task_of :: "pipeline_env \<Rightarrow> openai_request \<Rightarrow> dense_engine \<Rightarrow> string" where
  "task_of V req e =
     fst (snd (route_request V (fst (run_state (get_inference_config (su_settings (pe_engine V))) (w_settings (en_world e)))) req))"

lemma keyless_pipeline:
  assumes "keyless (pe_engine V) (en_world e)" and "is_auto req" and "requires_tools (user_query_of req)" and "rq_tools req = []"
    and "r = w_router (en_world e)" and "cloud_only r ''openai/gpt-oss-20b''"
    and "get_cheapest_model_for_provider ''OPENROUTER'' ''text'' r = c" and "c \<noteq> []" and "cloud_only r c" and "task_of V req e \<notin> {''image'', ''audio''}"
  shows "\<exists>s' out e'. execute_pipeline V s req e = Inr (s', \<lparr>hr_status = 429, hr_body = out, hr_content_type = ''text/plain''\<rparr>, e') \<and>
    is_session_id s' = is_session_id s \<and> is_status s' = S_FAILED \<and> en_sessions e' = en_sessions e"
proof -
  let ?X = "su_settings (pe_engine V)" and ?q = "user_query_of req"
  obtain cfg where c: "run_state (get_inference_config ?X) (w_settings (en_world e)) = (cfg, refresh ?X (w_settings (en_world e)))" using run_get_inference by (metis prod.collapse)
  let ?w1 = "(en_world e)\<lparr>w_settings := refresh ?X (w_settings (en_world e))\<rparr>"
  obtain dec task req1 where rt: "route_request V cfg req = (dec, task, req1)" by (metis prod_cases3)
  have task: "task \<noteq> ''image''" "task \<noteq> ''audio''" using assms(10) c rt by (auto simp: task_of_def)
  note rk = route_keeps [OF rt]
  obtain req2 tr where p: "prepare_tools V cfg task (is_session_id s) req1 (en_tools e) = Some (req2, tr)" "rq_model req2 = rq_model req1"
    using prepare_keeps [of req1 V cfg task "is_session_id s" "en_tools e"] rk assms(3,4) by auto
  obtain hits w2 where h: "gather_evidence V cfg ?q task req2 (en_search e) ?w1 = (hits, w2)" by (metis prod.exhaust)
  have w2: "keyless (pe_engine V) w2" "w_router w2 = r" using gather_world [OF h] keyless_refresh [OF assms(1)] keyless_refresh assms(5) by auto
  have "is_auto req2" using assms(2) p(2) rk by (simp add: is_auto_def)
  then have m: "cloud_only r (select_model V task ?q req2 (en_governor e) ?w1)" using keyless_target [of req2 ?q ?w1 c V task "en_governor e"] assms(3,5-9) by simp
  have d: "dispatch_media V task ?q (en_media e) = Inr (None, en_media e)" using task by (simp add: dispatch_media_def)
  show ?thesis unfolding execute_pipeline_def Let_def c prod.case rt p(1) option.case h d sbind_simps
    by (rule keyless_answer [OF w2(1), unfolded w2(2), OF m assms(7-9)]) simp_all
qed

lemma classified_intent: "do_intent (classify_domain q c t) \<in> {''coding'', ''reasoning'', ''text''}"
  by (simp add: classify_domain_def new_decision_def)

lemma heuristic_intent: "\<exists>q' c t. do_intent (fast_heuristic_decide F q r) = do_intent (classify_domain q' c t)"
  unfolding fast_heuristic_decide_def Let_def by (intro exI) (simp split: if_split)

lemma heuristic_task:
  assumes "\<not> bert_available (pe_bert V)" and "route_request V cfg req = (dec, task, req1)"
  shows "task \<noteq> ''image'' \<and> task \<noteq> ''audio''"
proof -
  have "do_intent (fast_heuristic_decide F q r) \<in> {''coding'', ''reasoning'', ''text''}" for F q r
    using heuristic_intent classified_intent by metis
  then have "do_intent (decide srt F (pe_bert V) q r) \<in> {''coding'', ''reasoning'', ''text''}" for srt F q r using assms(1) by (simp add: decide_def)
  moreover have "x \<noteq> ''image'' \<and> x \<noteq> ''audio''" if "x \<in> {''coding'', ''reasoning'', ''text''}" for x :: string using that by auto
  ultimately have "do_intent (decide srt F (pe_bert V) q r) \<noteq> ''image'' \<and> do_intent (decide srt F (pe_bert V) q r) \<noteq> ''audio''" for srt F q r by metis
  then show ?thesis using assms(2) by (auto simp: route_request_def Let_def split: if_splits)
qed

lemma keyless_process:
  assumes "parsed_request V body = Some req" and "rq_messages req \<noteq> []" and "is_auto req" and "requires_tools (user_query_of req)" and "rq_tools req = []"
    and "\<not> bert_available (pe_bert V)" and "keyless (pe_engine V) (en_world e)" and "r = w_router (en_world e)" and "cloud_only r ''openai/gpt-oss-20b''"
    and "get_cheapest_model_for_provider ''OPENROUTER'' ''text'' r = c" and "c \<noteq> []" and "cloud_only r c" and "sessions_ok e"
  shows "\<exists>res e'. process V body e = Inr (res, e') \<and> hr_status res = 429 \<and> map_of (en_sessions e') (rq_session_id req) = None"
proof -
  let ?sid = "rq_session_id req"
  have sid: "?sid \<noteq> []" using assms(1) parse_session_id_nonempty by (auto simp: parsed_request_def parse_request_def parse_request_json_def bind_eq_Some_conv)
  obtain s e1 where g: "get_or_create_session (pe_session_ms V) ?sid e = (s, e1)" by (metis prod.exhaust)
  note o = opened_session [OF g assms(13) sid]
  have w: "en_world e1 = en_world e" using g by (auto simp: get_or_create_session_def Let_def split: option.splits)
  let ?req = "req\<lparr>rq_session_id := is_session_id s\<rparr>"
  have q: "is_auto ?req" "requires_tools (user_query_of ?req)" "rq_tools ?req = []" using assms(3-5) by (auto simp: is_auto_def user_query_of_def)
  have "task_of V ?req e1 \<notin> {''image'', ''audio''}" using heuristic_task [OF assms(6)] unfolding task_of_def by (metis empty_iff insert_iff prod.collapse)
  from keyless_pipeline [of V e1 ?req r c s, OF _ q _ assms(9-12) this] assms(7,8) w
  obtain s' out e' where x: "execute_pipeline V s ?req e1 = Inr (s', \<lparr>hr_status = 429, hr_body = out, hr_content_type = ''text/plain''\<rparr>, e')"
      "is_session_id s' = is_session_id s" "is_status s' = S_FAILED" "en_sessions e' = en_sessions e1" by auto
  then show ?thesis using assms(1,2) g o by (simp add: process_def close_session_def)
qed

text \<open>
  Without an API key a request that mentions a tool word fails: whatever local models there are, a request that leaves the choice of the model to the engine and
  contains one of the words, for example ``run'', is offloaded to a cloud model, the recovery chooses another cloud model, and the client gets status 429.
\<close>

theorem keyless_tool_request_fails:
  assumes "parsed_request V body = Some req" and "rq_messages req \<noteq> []" and "is_auto req" and "requires_tools (user_query_of req)" and "rq_tools req = []"
    and "\<not> bert_available (pe_bert V)" and "keyless (pe_engine V) (en_world e)" and "r = w_router (en_world e)" and "cloud_only r ''openai/gpt-oss-20b''"
    and "get_cheapest_model_for_provider ''OPENROUTER'' ''text'' r = c" and "c \<noteq> []" and "cloud_only r c" and "sessions_ok e"
  shows "\<exists>res e'. process V body e = Inr (res, e') \<and> hr_status res = 429 \<and> map_of (en_sessions e') (rq_session_id req) = None"
  using keyless_process [OF assms] .

section \<open>Context, errors and call identifiers\<close>

text \<open>A client that names its model gets at most 2048 tokens of context, whatever the configured window, because the decision that is tested was never made.\<close>

theorem named_model_context_cut:
  assumes "rq_model req \<noteq> []" and "rq_model req \<noteq> ''denselite''"
  shows "context_cap cfg stage (fst (route_request V cfg req)) \<le> 2048"
proof -
  have "f32_lt 0 0x3ECCCCCD" by code_simp
  then show ?thesis using assms by (simp add: route_request_def context_cap_def Let_def new_decision_def f_zero_def)
qed

text \<open>After a refused cloud request, reducing the context sends the same request again.\<close>

theorem reduced_context_not_sent:
  assumes "cloud_only (w_router (at_world a)) (at_target a)"
  shows "at_target (recover reg req cfg REDUCE_CONTEXT a) = at_target a \<and>
    infer U (at_target a) req (at_prompt (recover reg req cfg REDUCE_CONTEXT a)) (at_world a) = infer U (at_target a) req (at_prompt a) (at_world a)"
  using assms cloud_ignores_prompt [of "at_target a" "at_world a" U req] by (simp add: recover_def cloud_only_def)

text \<open>An answer with status 200 that is an error object completes the session.\<close>

theorem error_answer_completes:
  assumes "attempts U reg req cfg 3 (0, []) a = Inr ((True, 200, out), a1)" and "out \<noteq> []" and "su_parse U out = Some j" and "jcontains j ''error''"
    and "\<not> is_bare_claim out"
  shows "turns U reg req cfg (Suc n) s a = Inr (Curate (s\<lparr>is_iteration_results := is_iteration_results s @ [out], is_status := S_COMPLETED\<rparr>), a1)"
  using assms by (simp add: analyze_response_def analyze_json_def is_acceptable_def evidence_of_def Let_def del: attempts.simps)

text \<open>The messages of a request never carry a name or the identifier of a tool call, so that a tool result is sent to the provider without it.\<close>

lemma mapM_opt_set: "mapM_opt f xs = Some ys \<Longrightarrow> y \<in> set ys \<Longrightarrow> \<exists>x \<in> set xs. f x = Some y"
  by (induction xs arbitrary: ys) (auto simp: bind_eq_Some_conv)

theorem call_ids_dropped:
  assumes "parsed_request V body = Some req" and "m \<in> set (rq_messages req)"
  shows "json_of_message m = JObject [(''content'', JString (msg_content m)), (''role'', JString (msg_role m))]"
proof -
  obtain x where "parse_message x = Some m"
    using assms by (auto simp: parsed_request_def parse_request_def parse_request_json_def bind_eq_Some_conv dest: mapM_opt_set)
  then have "msg_name m = []" "msg_tool_call_id m = []" by (auto simp: parse_message_def bind_eq_Some_conv)
  then show ?thesis by (simp add: json_of_message_def)
qed

section \<open>Examples\<close>

definition run_body :: json where
  "run_body = JObject [(''session_id'', JString ''s1''), (''messages'', JArray [message_json \<lparr>msg_role = ''user'', msg_content = ''Run it'', msg_name = [], msg_tool_call_id = []\<rparr>])]"

definition demo_pipeline :: pipeline_env where
  "demo_pipeline =
     \<lparr>pe_engine = demo_surroundings\<lparr>su_parse := (\<lambda>t. Some run_body)\<rparr>, pe_num = demo_num, pe_parse_ms = 0, pe_session_ms = 1, pe_tool_ms = 1, pe_epoch = 1,
      pe_bert = \<lparr>bert_available = False, bert_initializes = False, bert_rank = (\<lambda>q. [])\<rparr>, pe_intent_sort = (\<lambda>xs. xs), pe_rank_sort = (\<lambda>xs. xs), pe_doubles = demo_doubles,
      pe_embedding_fn = None, pe_route_proc = Resource_Governor.demo_env ''4000000'', pe_stage_proc = Resource_Governor.demo_env ''4000000'',
      pe_media_proc = Resource_Governor.demo_env ''4000000'', pe_media = demo_media, pe_loader = (\<lambda>p. Inl ''no file''), pe_dummy = Forward_Pass.demo_model\<rparr>"

definition demo_engine_state :: dense_engine where
  "demo_engine_state = new_engine (demo_world\<lparr>w_router := demo_router\<lparr>rt_keys := []\<rparr>\<rparr>) new_search_engine demo_governor"

lemma demo_parsed: "\<exists>req. parsed_request demo_pipeline ''b'' = Some req \<and> rq_messages req \<noteq> [] \<and> is_auto req \<and> user_query_of req = ''Run it'' \<and> rq_tools req = [] \<and> rq_session_id req = ''s1''"
  by (simp add: parsed_request_def demo_pipeline_def parse_request_def parse_request_json_def run_body_def array_at_def parse_session_id_def nonempty_string_at_def
      parse_message_def message_json_def is_auto_def user_query_of_def)

lemma demo_keyless: "keyless (pe_engine demo_pipeline) (en_world demo_engine_state)"
  by (simp add: keyless_def demo_pipeline_def demo_engine_state_def new_engine_def demo_world_def demo_surroundings_def get_cloud_config_def run_settings os_of_def demo_set_env_def
      demo_os_def or_env_def demo_settings_def new_settings_manager_def refresh_def get_data_version_def cached_value_def default_cloud_config_def)

lemma demo_run: "requires_tools ''Run it''"
  by code_simp

lemma demo_cloud:
  "cloud_only (w_router (en_world demo_engine_state)) ''openai/gpt-oss-20b''"
  "get_cheapest_model_for_provider ''OPENROUTER'' ''text'' (w_router (en_world demo_engine_state)) = ''liquid/lfm-2.5-2.6b:free''"
  "cloud_only (w_router (en_world demo_engine_state)) ''liquid/lfm-2.5-2.6b:free''"
  by (simp_all add: cloud_only_def get_provider_for_model_def get_cheapest_model_for_provider_def matching_models_def stable_sort_def demo_engine_state_def new_engine_def
      demo_world_def demo_router_def seed_models_def c_str_def)

lemma demo_sessions: "sessions_ok demo_engine_state"
  by (simp add: sessions_ok_def demo_engine_state_def new_engine_def)

theorem keyless_tool_request_fails_witness:
  "\<exists>res e'. process demo_pipeline ''b'' demo_engine_state = Inr (res, e') \<and> hr_status res = 429 \<and> map_of (en_sessions e') ''s1'' = None"
proof -
  obtain req where q: "parsed_request demo_pipeline ''b'' = Some req" "rq_messages req \<noteq> []" "is_auto req" "user_query_of req = ''Run it''" "rq_tools req = []"
      "rq_session_id req = ''s1''" using demo_parsed by blast
  have "\<not> bert_available (pe_bert demo_pipeline)" by (simp add: demo_pipeline_def)
  from keyless_tool_request_fails [OF q(1-3) _ q(5) this demo_keyless refl demo_cloud(1,2) _ demo_cloud(3) demo_sessions] q demo_run show ?thesis by simp
qed

theorem session_kept_or_closed_witness:
  "\<exists>res e'. process demo_pipeline ''b'' demo_engine_state = Inr (res, e') \<and> map_of (en_sessions e') ''s1'' = None \<and> map_of (tr_catalogs (en_tools e')) ''s1'' = None"
proof -
  obtain req where q: "parsed_request demo_pipeline ''b'' = Some req" "rq_messages req \<noteq> []" "is_auto req" "user_query_of req = ''Run it''" "rq_tools req = []"
      "rq_session_id req = ''s1''" using demo_parsed by blast
  have "\<not> bert_available (pe_bert demo_pipeline)" by (simp add: demo_pipeline_def)
  from keyless_process [OF q(1-3) _ q(5) this demo_keyless refl demo_cloud(1,2) _ demo_cloud(3) demo_sessions] q demo_run
  obtain res e' where p: "process demo_pipeline ''b'' demo_engine_state = Inr (res, e')" "map_of (en_sessions e') ''s1'' = None" by auto
  then show ?thesis using session_kept_or_closed [OF p(1) q(1,2,6) _ demo_sessions] by auto
qed

text \<open>With no model file and no resident model every call of the model engine returns.\<close>

lemma demo_infer_returns:
  assumes "w_models w = []"
  shows "\<exists>st out w'. infer demo_surroundings m req p w = Inr (st, out, w') \<and> w_models w' = []"
proof -
  have "find_or_load demo_surroundings m (enter m w) = Inr (None, enter m w)"
    using assms by (simp add: find_or_load_def enter_def model_file_def Let_def file_exists_def os_of_def demo_surroundings_def demo_set_env_def demo_os_def split: option.split)
  then have "\<exists>st out w'. infer_local demo_surroundings m p req w = Inr (st, out, w') \<and> w_models w' = []"
    using assms by (auto simp: infer_local_def Let_def leave_def enter_def split: option.split)
  moreover have "w_models (snd (snd (infer_cloud demo_surroundings m url key req v))) = w_models v" for url key v
    by (simp add: infer_cloud_def Let_def split_beta split: cloud_reply.split)
  ultimately show ?thesis using assms unfolding infer_def Let_def split_beta by (auto simp: prod_eq_iff)
qed

theorem inference_loop_bounded_witness:
  "\<exists>te a'. turns demo_surroundings \<lparr>tg_tokenizers = [], tg_default = []\<rparr> demo_request default_config 3 (fresh_inference_session ''s1'')
       \<lparr>at_target = ''m'', at_prompt = ''p'', at_world = demo_world, at_asked = []\<rparr> = Inr (te, a') \<and> length (at_asked a') \<le> 9"
  using inference_loop_bounded [where P = "\<lambda>w. w_models w = []", OF demo_infer_returns,
      of "\<lparr>at_target = ''m'', at_prompt = ''p'', at_world = demo_world, at_asked = []\<rparr>" "\<lparr>tg_tokenizers = [], tg_default = []\<rparr>" demo_request default_config
        "fresh_inference_session ''s1''"]
  by (auto simp: demo_world_def simp del: turns.simps)

end
