(* ===== verification/Control_Panel.thy ===== *)
theory Control_Panel
  imports Settings Json_Model Float_Order
begin

text \<open>
  The settings routes of the control panel (\<open>tray/tray_routes_settings.cpp\<close>): all settings as one JSON object with the secrets masked, the application of such an
  object to the settings module by module, and the routes that export, import and reset them.

  The JSON printer and parser are arguments; objects list their fields in the order of their keys, as \<open>std::map\<close> keeps them. A thrown type error ends the
  application of an object where it occurs, with the modules before it already stored: the result of the computation tells whether it ran to its end. The
  float operations on the RAM budget and the conversion of \<open>float\<close> to the \<open>double\<close> of a JSON number are arguments.
\<close>

section \<open>Settings as JSON\<close>

record panel_env =
  cp_set :: set_env
  cp_num :: num_ops
  cp_double :: "f32 \<Rightarrow> u64"
  cp_times_100 :: "f32 \<Rightarrow> f32"
  cp_div_100 :: "f32 \<Rightarrow> f32"
  cp_trunc :: "f32 \<Rightarrow> int"

definition mask_secret :: "string \<Rightarrow> string" where
  "mask_secret secret =
     (if secret = [] then []
      else if length secret \<le> 4 then replicate (length secret) CHR ''*''
      else replicate (length secret - 4) CHR ''*'' @ drop (length secret - 4) secret)"

definition ram_percent :: "panel_env \<Rightarrow> f32 \<Rightarrow> int" where
  "ram_percent P r = (if f32_le r 0x3F800000 then cp_trunc P (cp_times_100 P r) else cp_trunc P r)"

definition server_json :: "server_config \<Rightarrow> json" where
  "server_json c = JObject
     [(''api_secret_key'', JString (mask_secret (srv_api_secret_key c))), (''cors_allowed_origins'', JString (srv_cors_allowed_origins c)),
      (''enable_api_auth'', JBool (srv_enable_api_auth c)), (''host'', JString (srv_host c)), (''max_payload_mb'', JInt (srv_max_payload_mb c)),
      (''n_batch'', JInt (srv_n_batch c)), (''port'', JInt (srv_port c)), (''threads'', JInt (srv_threads c))]"

definition resource_json :: "panel_env \<Rightarrow> resource_config \<Rightarrow> json" where
  "resource_json P c = JObject
     [(''enable_gpu'', JBool (rsc_enable_gpu c)), (''ram_budget_percent'', JInt (ram_percent P (rsc_ram_budget_percent c))),
      (''vram_budget_mb'', JInt (rsc_vram_budget_mb c))]"

definition inference_json :: "panel_env \<Rightarrow> inference_config \<Rightarrow> json" where
  "inference_json P c = JObject
     [(''context_window'', JInt (inf_context_window c)), (''default_temperature'', JReal (cp_double P (inf_default_temperature c))),
      (''default_top_p'', JReal (cp_double P (inf_default_top_p c))), (''enable_context_injection'', JBool (inf_enable_context_injection c)),
      (''enable_tool_dedup'', JBool (inf_enable_tool_dedup c)), (''max_output_tokens'', JInt (inf_max_output_tokens c)),
      (''min_p'', JReal (cp_double P (inf_min_p c))), (''repeat_last_n'', JInt (inf_repeat_last_n c)),
      (''repeat_penalty'', JReal (cp_double P (inf_repeat_penalty c))), (''routing_mode'', JString (inf_routing_mode c)),
      (''system_prompt'', JString (inf_system_prompt c)), (''top_k'', JInt (inf_top_k c))]"

definition multimodal_json :: "panel_env \<Rightarrow> multimodal_config \<Rightarrow> json" where
  "multimodal_json P c = JObject
     [(''sd_cfg_scale'', JReal (cp_double P (mmc_sd_cfg_scale c))), (''sd_height'', JInt (mmc_sd_height c)),
      (''sd_negative_prompt'', JString (mmc_sd_negative_prompt c)), (''sd_steps'', JInt (mmc_sd_steps c)), (''sd_width'', JInt (mmc_sd_width c)),
      (''whisper_beam_size'', JInt (mmc_whisper_beam_size c)), (''whisper_language'', JString (mmc_whisper_language c))]"

definition memory_json :: "panel_env \<Rightarrow> memory_config \<Rightarrow> json" where
  "memory_json P c = JObject
     [(''excluded_paths'', JString (mec_excluded_paths c)), (''max_snippet_lines'', JInt (mec_max_snippet_lines c)),
      (''search_top_k'', JInt (mec_search_top_k c)), (''similarity_threshold'', JReal (cp_double P (mec_similarity_threshold c)))]"

definition cloud_json :: "cloud_config \<Rightarrow> json" where
  "cloud_json c = JObject
     [(''cloud_fallback_enabled'', JBool (cld_cloud_fallback_enabled c)), (''cloud_priority'', JString (cld_cloud_priority c)),
      (''gemini_api_key'', JString (mask_secret (cld_gemini_api_key c))), (''openai_api_key'', JString (mask_secret (cld_openai_api_key c))),
      (''openrouter_api_key'', JString (mask_secret (cld_openrouter_api_key c)))]"

definition storage_json :: "storage_config \<Rightarrow> json" where
  "storage_json c = JObject
     [(''data_dir'', JString (sc_data_dir c)), (''kv_cache_dir'', JString (sc_kv_cache_dir c)), (''logs_dir'', JString (sc_logs_dir c)),
      (''models_dir'', JString (sc_models_dir c))]"

definition logging_json :: "logging_config \<Rightarrow> json" where
  "logging_json c = JObject
     [(''enable_console'', JBool (lgc_enable_console c)), (''enable_file_logging'', JBool (lgc_enable_file_logging c)),
      (''level'', JString (lgc_level c)), (''log_path'', JString (lgc_log_path c))]"

definition get_all_settings_json :: "panel_env \<Rightarrow> (settings_manager, json) state" where
  "get_all_settings_json P = do {
     srv \<leftarrow> get_server_config (cp_set P);
     rc \<leftarrow> get_resource_config (cp_set P);
     inf \<leftarrow> get_inference_config (cp_set P);
     mm \<leftarrow> get_multimodal_config (cp_set P);
     mem \<leftarrow> get_memory_config (cp_set P);
     cc \<leftarrow> get_cloud_config (cp_set P);
     st \<leftarrow> get_storage_config (cp_set P);
     log \<leftarrow> get_logging_config (cp_set P);
     State_Monad.return (JObject
       [(''cloud'', cloud_json cc), (''inference'', inference_json P inf), (''logging'', logging_json log), (''memory'', memory_json P mem),
        (''multimodal'', multimodal_json P mm), (''resource'', resource_json P rc), (''server'', server_json srv), (''storage'', storage_json st)])
   }"

section \<open>Applying JSON to the settings\<close>

text \<open>\<open>if (j.contains(k)) c.field = j[k];\<close> where the conversion of the value may throw.\<close>

definition put :: "(json \<Rightarrow> 'a option) \<Rightarrow> json \<Rightarrow> string \<Rightarrow> ('a \<Rightarrow> 'c \<Rightarrow> 'c) \<Rightarrow> 'c \<Rightarrow> 'c option" where
  "put getter j k upd c = (case jget j k of None \<Rightarrow> Some c | Some v \<Rightarrow> map_option (\<lambda>x. upd x c) (getter v))"

definition inference_from :: "panel_env \<Rightarrow> json \<Rightarrow> inference_config \<Rightarrow> inference_config option" where
  "inference_from P j c0 = do {
     c1 \<leftarrow> (if jcontains j ''routing_mode'' then put get_string j ''routing_mode'' (\<lambda>v c. c\<lparr>inf_routing_mode := v\<rparr>) c0
           else put get_string j ''needle3_mode'' (\<lambda>v c. c\<lparr>inf_routing_mode := v\<rparr>) c0);
     c2 \<leftarrow> put get_bool j ''enable_tool_dedup'' (\<lambda>v c. c\<lparr>inf_enable_tool_dedup := v\<rparr>) c1;
     c3 \<leftarrow> put get_bool j ''enable_context_injection'' (\<lambda>v c. c\<lparr>inf_enable_context_injection := v\<rparr>) c2;
     c4 \<leftarrow> put (get_int (cp_num P)) j ''context_window'' (\<lambda>v c. c\<lparr>inf_context_window := v\<rparr>) c3;
     c5 \<leftarrow> put (get_float (cp_num P)) j ''default_temperature'' (\<lambda>v c. c\<lparr>inf_default_temperature := v\<rparr>) c4;
     c6 \<leftarrow> put (get_float (cp_num P)) j ''default_top_p'' (\<lambda>v c. c\<lparr>inf_default_top_p := v\<rparr>) c5;
     c7 \<leftarrow> put (get_float (cp_num P)) j ''repeat_penalty'' (\<lambda>v c. c\<lparr>inf_repeat_penalty := v\<rparr>) c6;
     c8 \<leftarrow> put (get_int (cp_num P)) j ''repeat_last_n'' (\<lambda>v c. c\<lparr>inf_repeat_last_n := v\<rparr>) c7;
     c9 \<leftarrow> put (get_int (cp_num P)) j ''top_k'' (\<lambda>v c. c\<lparr>inf_top_k := v\<rparr>) c8;
     c10 \<leftarrow> put (get_float (cp_num P)) j ''min_p'' (\<lambda>v c. c\<lparr>inf_min_p := v\<rparr>) c9;
     c11 \<leftarrow> put (get_int (cp_num P)) j ''max_output_tokens'' (\<lambda>v c. c\<lparr>inf_max_output_tokens := v\<rparr>) c10;
     put get_string j ''system_prompt'' (\<lambda>v c. c\<lparr>inf_system_prompt := v\<rparr>) c11
   }"

definition multimodal_from :: "panel_env \<Rightarrow> json \<Rightarrow> multimodal_config \<Rightarrow> multimodal_config option" where
  "multimodal_from P j c0 = do {
     c1 \<leftarrow> put (get_int (cp_num P)) j ''sd_steps'' (\<lambda>v c. c\<lparr>mmc_sd_steps := v\<rparr>) c0;
     c2 \<leftarrow> put (get_float (cp_num P)) j ''sd_cfg_scale'' (\<lambda>v c. c\<lparr>mmc_sd_cfg_scale := v\<rparr>) c1;
     c3 \<leftarrow> put (get_int (cp_num P)) j ''sd_width'' (\<lambda>v c. c\<lparr>mmc_sd_width := v\<rparr>) c2;
     c4 \<leftarrow> put (get_int (cp_num P)) j ''sd_height'' (\<lambda>v c. c\<lparr>mmc_sd_height := v\<rparr>) c3;
     c5 \<leftarrow> put get_string j ''sd_negative_prompt'' (\<lambda>v c. c\<lparr>mmc_sd_negative_prompt := v\<rparr>) c4;
     c6 \<leftarrow> put get_string j ''whisper_language'' (\<lambda>v c. c\<lparr>mmc_whisper_language := v\<rparr>) c5;
     put (get_int (cp_num P)) j ''whisper_beam_size'' (\<lambda>v c. c\<lparr>mmc_whisper_beam_size := v\<rparr>) c6
   }"

definition memory_from :: "panel_env \<Rightarrow> json \<Rightarrow> memory_config \<Rightarrow> memory_config option" where
  "memory_from P j c0 = do {
     c1 \<leftarrow> put (get_int (cp_num P)) j ''search_top_k'' (\<lambda>v c. c\<lparr>mec_search_top_k := v\<rparr>) c0;
     c2 \<leftarrow> put (get_float (cp_num P)) j ''similarity_threshold'' (\<lambda>v c. c\<lparr>mec_similarity_threshold := v\<rparr>) c1;
     c3 \<leftarrow> put (get_int (cp_num P)) j ''max_snippet_lines'' (\<lambda>v c. c\<lparr>mec_max_snippet_lines := v\<rparr>) c2;
     put get_string j ''excluded_paths'' (\<lambda>v c. c\<lparr>mec_excluded_paths := v\<rparr>) c3
   }"

definition cloud_from :: "json \<Rightarrow> cloud_config \<Rightarrow> cloud_config option" where
  "cloud_from j c0 = do {
     c1 \<leftarrow> put get_string j ''openrouter_api_key'' (\<lambda>v c. c\<lparr>cld_openrouter_api_key := v\<rparr>) c0;
     c2 \<leftarrow> put get_string j ''gemini_api_key'' (\<lambda>v c. c\<lparr>cld_gemini_api_key := v\<rparr>) c1;
     c3 \<leftarrow> put get_string j ''openai_api_key'' (\<lambda>v c. c\<lparr>cld_openai_api_key := v\<rparr>) c2;
     c4 \<leftarrow> put get_string j ''cloud_priority'' (\<lambda>v c. c\<lparr>cld_cloud_priority := v\<rparr>) c3;
     put get_bool j ''cloud_fallback_enabled'' (\<lambda>v c. c\<lparr>cld_cloud_fallback_enabled := v\<rparr>) c4
   }"

definition server_from :: "panel_env \<Rightarrow> json \<Rightarrow> server_config \<Rightarrow> server_config option" where
  "server_from P j c0 = do {
     c1 \<leftarrow> put get_string j ''host'' (\<lambda>v c. c\<lparr>srv_host := v\<rparr>) c0;
     c2 \<leftarrow> put (get_int (cp_num P)) j ''port'' (\<lambda>v c. c\<lparr>srv_port := v\<rparr>) c1;
     c3 \<leftarrow> put (get_int (cp_num P)) j ''threads'' (\<lambda>v c. c\<lparr>srv_threads := v\<rparr>) c2;
     c4 \<leftarrow> put (get_int (cp_num P)) j ''max_payload_mb'' (\<lambda>v c. c\<lparr>srv_max_payload_mb := v\<rparr>) c3;
     c5 \<leftarrow> put get_bool j ''enable_api_auth'' (\<lambda>v c. c\<lparr>srv_enable_api_auth := v\<rparr>) c4;
     c6 \<leftarrow> put get_string j ''api_secret_key'' (\<lambda>v c. c\<lparr>srv_api_secret_key := v\<rparr>) c5;
     c7 \<leftarrow> put get_string j ''cors_allowed_origins'' (\<lambda>v c. c\<lparr>srv_cors_allowed_origins := v\<rparr>) c6;
     put (get_int (cp_num P)) j ''n_batch'' (\<lambda>v c. c\<lparr>srv_n_batch := v\<rparr>) c7
   }"

definition ram_fraction :: "panel_env \<Rightarrow> f32 \<Rightarrow> f32" where
  "ram_fraction P p = (if f32_lt 0x3F800000 p then cp_div_100 P p else p)"

definition resource_from :: "panel_env \<Rightarrow> json \<Rightarrow> resource_config \<Rightarrow> resource_config option" where
  "resource_from P j c0 = do {
     c1 \<leftarrow> put (get_float (cp_num P)) j ''ram_budget_percent'' (\<lambda>p c. c\<lparr>rsc_ram_budget_percent := ram_fraction P p\<rparr>) c0;
     c2 \<leftarrow> put get_bool j ''enable_gpu'' (\<lambda>v c. c\<lparr>rsc_enable_gpu := v\<rparr>) c1;
     put (get_int (cp_num P)) j ''vram_budget_mb'' (\<lambda>v c. c\<lparr>rsc_vram_budget_mb := v\<rparr>) c2
   }"

definition storage_from :: "json \<Rightarrow> storage_config \<Rightarrow> storage_config option" where
  "storage_from j c0 = do {
     c1 \<leftarrow> put get_string j ''models_dir'' (\<lambda>v c. c\<lparr>sc_models_dir := v\<rparr>) c0;
     c2 \<leftarrow> put get_string j ''data_dir'' (\<lambda>v c. c\<lparr>sc_data_dir := v\<rparr>) c1;
     c3 \<leftarrow> put get_string j ''kv_cache_dir'' (\<lambda>v c. c\<lparr>sc_kv_cache_dir := v\<rparr>) c2;
     put get_string j ''logs_dir'' (\<lambda>v c. c\<lparr>sc_logs_dir := v\<rparr>) c3
   }"

definition logging_from :: "json \<Rightarrow> logging_config \<Rightarrow> logging_config option" where
  "logging_from j c0 = do {
     c1 \<leftarrow> put get_string j ''level'' (\<lambda>v c. c\<lparr>lgc_level := v\<rparr>) c0;
     c2 \<leftarrow> put get_bool j ''enable_file_logging'' (\<lambda>v c. c\<lparr>lgc_enable_file_logging := v\<rparr>) c1;
     c3 \<leftarrow> put get_bool j ''enable_console'' (\<lambda>v c. c\<lparr>lgc_enable_console := v\<rparr>) c2;
     put get_string j ''log_path'' (\<lambda>v c. c\<lparr>lgc_log_path := v\<rparr>) c3
   }"

text \<open>One module of the object, and the next one when nothing was thrown.\<close>

definition apply_module :: "json \<Rightarrow> string \<Rightarrow> (settings_manager, 'c) state \<Rightarrow> (json \<Rightarrow> 'c \<Rightarrow> 'c option) \<Rightarrow> ('c \<Rightarrow> (settings_manager, unit) state) \<Rightarrow>
    (settings_manager, bool) state \<Rightarrow> (settings_manager, bool) state" where
  "apply_module body m getc from_json setc rest =
     (case jget body m of
        None \<Rightarrow> rest
      | Some j \<Rightarrow> do {
          c \<leftarrow> getc;
          (case from_json j c of
             None \<Rightarrow> State_Monad.return False
           | Some c' \<Rightarrow> do { setc c'; rest })
        })"

definition apply_settings_json :: "panel_env \<Rightarrow> json \<Rightarrow> (settings_manager, bool) state" where
  "apply_settings_json P body =
     (let X = cp_set P
      in apply_module body ''inference'' (get_inference_config X) (inference_from P) (set_inference_config X)
        (apply_module body ''multimodal'' (get_multimodal_config X) (multimodal_from P) (set_multimodal_config X)
        (apply_module body ''memory'' (get_memory_config X) (memory_from P) (set_memory_config X)
        (apply_module body ''cloud'' (get_cloud_config X) cloud_from (set_cloud_config X)
        (apply_module body ''server'' (get_server_config X) (server_from P) (set_server_config X)
        (apply_module body ''resource'' (get_resource_config X) (resource_from P) (set_resource_config X)
        (apply_module body ''storage'' (get_storage_config X) storage_from (set_storage_config X)
        (apply_module body ''logging'' (get_logging_config X) logging_from (set_logging_config X)
        (State_Monad.return True)))))))))"

section \<open>Routes\<close>

text \<open>The answer of a route: whether it reports success. The text of a failure is that of the exception.\<close>

definition show_settings :: "panel_env \<Rightarrow> (json \<Rightarrow> string option) \<Rightarrow> (settings_manager, string option) state" where
  "show_settings P dump = do { j \<leftarrow> get_all_settings_json P; State_Monad.return (dump j) }"

definition post_settings :: "panel_env \<Rightarrow> (string \<Rightarrow> json option) \<Rightarrow> string \<Rightarrow> (settings_manager, bool) state" where
  "post_settings P parse body =
     (case parse body of None \<Rightarrow> State_Monad.return False | Some j \<Rightarrow> apply_settings_json P j)"

text \<open>The export is the indented text of the same object; the import does what posting the settings does.\<close>

definition export_settings :: "panel_env \<Rightarrow> (json \<Rightarrow> string option) \<Rightarrow> (settings_manager, string option) state" where
  "export_settings P dump = do { j \<leftarrow> get_all_settings_json P; State_Monad.return (dump j) }"

definition import_settings :: "panel_env \<Rightarrow> (string \<Rightarrow> json option) \<Rightarrow> string \<Rightarrow> (settings_manager, bool) state" where
  "import_settings P parse body =
     (case parse body of None \<Rightarrow> State_Monad.return False | Some j \<Rightarrow> apply_settings_json P j)"

definition reset_settings :: "bool \<Rightarrow> (settings_manager, bool) state" where
  "reset_settings db_ok = do {
     s \<leftarrow> State_Monad.get;
     let (ok, t) = reset_settings_to_defaults db_ok (stm_db s);
     State_Monad.set (if ok then stm_reload (s\<lparr>stm_db := t\<rparr>) else s\<lparr>stm_db := t\<rparr>);
     State_Monad.return ok
   }"

section \<open>The modules of the settings\<close>

text \<open>The cache of a coherent manager answers with the table; writing the texts of a module changes that module only.\<close>

definition agree :: "set_env \<Rightarrow> string set \<Rightarrow> settings_manager \<Rightarrow> settings_manager \<Rightarrow> bool" where
  "agree X ms s s' \<longleftrightarrow> (\<forall>m k. m \<notin> ms \<longrightarrow> CHR '':'' \<notin> set m \<longrightarrow> cached_value m k (refresh X s') = cached_value m k (refresh X s))"

lemma agree_trans: "agree X ms s s1 \<Longrightarrow> agree X ms' s1 s2 \<Longrightarrow> agree X (ms \<union> ms') s s2"
  by (simp add: agree_def)

lemma coherent_cached:
  "coherent stale s \<Longrightarrow> CHR '':'' \<notin> set m \<Longrightarrow> cached_value m k (refresh X s) = settings_map (sdb_rows (stm_db s)) (m, k)"
  using coherent_refresh [of stale s X] by (auto simp: coherent_def)

lemma coherent_paths [simp]: "coherent stale (s\<lparr>stm_paths := p\<rparr>) = coherent stale s"
  by (simp add: coherent_def cached_value_def)

lemma coherent_write_all:
  assumes "coherent False s" and "se_ok X" and "CHR '':'' \<notin> set m" "plain_text m" and "list_all (\<lambda>(k, v, ty). plain_text k \<and> plain_text v) ts"
  shows "coherent False (write_all X m ts s)"
  using assms(1,5)
proof (induction ts arbitrary: s)
  case (Cons t ts)
  obtain k v ty where t: "t = (k, v, ty)" by (cases t)
  then have "coherent False (write_setting X m k v ty s)" using Cons.prems coherent_write(1) [OF Cons.prems(1) assms(2-4)] by auto
  from Cons.IH [OF this] Cons.prems t show ?case by (simp add: write_all_def)
qed (simp add: write_all_def)

text \<open>What the reading and the writing of a configuration promise to a client that changes the configurations one after the other.\<close>

locale config_module =
  fixes X :: set_env and m :: string and getc :: "(settings_manager, 'c) state" and setc :: "'c \<Rightarrow> (settings_manager, unit) state"
    and texts :: "'c \<Rightarrow> (string \<times> string \<times> string) list" and okc :: "'c \<Rightarrow> bool"
  assumes name: "CHR '':'' \<notin> set m" "plain_text m"
    and get_state: "snd (run_state getc s) = refresh X s"
    and get_cong: "(\<And>k. cached_value m k (refresh X s) = cached_value m k (refresh X s')) \<Longrightarrow> fst (run_state getc s) = fst (run_state getc s')"
    and set_state: "\<exists>p. snd (run_state (setc c) s) = (write_all X m (texts c) s)\<lparr>stm_paths := p\<rparr>"
    and set_texts: "okc c \<Longrightarrow> texts_ok (texts c)"
    and read_back: "says (\<lambda>(m, k). cached_value m k (refresh X s)) m (texts c) \<Longrightarrow> okc c \<Longrightarrow> fst (run_state getc s) = c"
begin

lemma get_agree: "agree X ms s s' \<Longrightarrow> m \<notin> ms \<Longrightarrow> fst (run_state getc s') = fst (run_state getc s)"
  using name by (intro get_cong) (simp add: agree_def)

lemma write_read:
  assumes "coherent False s" and "se_ok X" and "okc c"
  shows "coherent False (snd (run_state (setc c) s))" and "agree X {m} s (snd (run_state (setc c) s))" and "fst (run_state getc (snd (run_state (setc c) s))) = c"
proof -
  let ?s = "snd (run_state (setc c) s)"
  obtain p where p: "?s = (write_all X m (texts c) s)\<lparr>stm_paths := p\<rparr>" using set_state by blast
  have t: "texts_ok (texts c)" using set_texts assms(3) .
  have sdb: "sdb_open (stm_db s)" "table_ok (sdb_rows (stm_db s))" using assms(1) by (simp_all add: coherent_def)
  show c: "coherent False ?s" unfolding p using coherent_write_all [OF assms(1,2) name] t by (simp add: texts_ok_def)
  have map: "settings_map (sdb_rows (stm_db ?s)) = fold (\<lambda>(k, v, ty) M. M((m, k) \<mapsto> v)) (texts c) (settings_map (sdb_rows (stm_db s)))"
    unfolding p using write_all_table [OF sdb assms(2) name] t by (simp add: texts_ok_def)
  show "agree X {m} s ?s"
    unfolding agree_def
  proof (intro allI impI)
    fix m' k assume m': "m' \<notin> {m}" "CHR '':'' \<notin> set m'"
    then have "(m', k) \<notin> (\<lambda>(k, v, ty). (m, k)) ` set (texts c)" by auto
    then show "cached_value m' k (refresh X ?s) = cached_value m' k (refresh X s)"
      using coherent_cached [OF c m'(2)] coherent_cached [OF assms(1) m'(2)] fold_updates_other by (simp add: map)
  qed
  have "says (settings_map (sdb_rows (stm_db ?s))) m (texts c)" unfolding map using t says_updates by (auto simp: texts_ok_def)
  then have "says (\<lambda>(m, k). cached_value m k (refresh X ?s)) m (texts c)" using coherent_cached [OF c name(1)] by (simp add: says_def)
  from read_back [OF this assms(3)] show "fst (run_state getc ?s) = c" .
qed

text \<open>One module of an imported object: it is stored, the others stay, and the rest is applied.\<close>

lemma apply_module_run:
  assumes "jget body m = Some j" and "agree X ms s0 s" and "m \<notin> ms" and "from_json j (fst (run_state getc s0)) = Some c"
  shows "run_state (apply_module body m getc from_json setc rest) s = run_state rest (snd (run_state (setc c) (refresh X s)))"
proof -
  have "run_state getc s = (fst (run_state getc s0), refresh X s)"
    using get_agree [OF assms(2,3)] get_state [of s] by (simp add: prod_eq_iff)
  then show ?thesis using assms(1,4) by (simp add: apply_module_def split_beta)
qed

lemma apply_module_step:
  assumes "coherent False s" and "se_ok X" and "agree X ms s0 s" and "okc c" and "s' = snd (run_state (setc c) (refresh X s))"
  shows "coherent False s'" and "agree X (insert m ms) s0 s'" and "agree X {m} s s'" and "fst (run_state getc s') = c"
proof -
  have r: "coherent False (refresh X s)" "agree X {} s (refresh X s)" using coherent_refresh [OF assms(1)] by (simp_all add: agree_def)
  note w = write_read [OF r(1) assms(2,4), folded assms(5)]
  show "coherent False s'" "fst (run_state getc s') = c" using w by simp_all
  show a: "agree X {m} s s'" using agree_trans [OF r(2) w(2)] by simp
  from agree_trans [OF assms(3) this] show "agree X (insert m ms) s0 s'" by simp
qed

end

lemma run_get_server_state: "snd (run_state (get_server_config X) s) = refresh X s"
  by (simp add: get_server_config_def run_settings)

lemma run_get_resource_state: "snd (run_state (get_resource_config X) s) = refresh X s"
  by (simp add: get_resource_config_def run_settings)

lemma run_get_inference_state: "snd (run_state (get_inference_config X) s) = refresh X s"
  by (simp add: get_inference_config_def run_settings)

lemma run_get_multimodal_state: "snd (run_state (get_multimodal_config X) s) = refresh X s"
  by (simp add: get_multimodal_config_def run_settings)

lemma run_get_memory_state: "snd (run_state (get_memory_config X) s) = refresh X s"
  by (simp add: get_memory_config_def run_settings)

lemma run_get_cloud_state: "snd (run_state (get_cloud_config X) s) = refresh X s"
  by (simp add: get_cloud_config_def run_settings)

lemma run_get_storage_state: "snd (run_state (get_storage_config X) s) = refresh X s"
  by (simp add: get_storage_config_def run_settings)

lemma run_get_logging_state: "snd (run_state (get_logging_config X) s) = refresh X s"
  by (simp add: get_logging_config_def run_settings)

interpretation server_module: config_module X "''server''" "get_server_config X" "set_server_config X" "server_texts X" "server_ok X" for X
proof
  show "fst (run_state (get_server_config X) s) = fst (run_state (get_server_config X) s')"
    if "\<And>k. cached_value ''server'' k (refresh X s) = cached_value ''server'' k (refresh X s')" for s s'
    using that by (simp add: get_server_config_def run_settings cong: option.case_cong)
  show "\<exists>p. snd (run_state (set_server_config X c) s) = (write_all X ''server'' (server_texts X c) s)\<lparr>stm_paths := p\<rparr>" for c s
    by (rule exI [of _ "stm_paths (write_all X ''server'' (server_texts X c) s)"]) (simp add: run_settings Let_def)
qed ((rule run_get_server_state server_texts_ok read_server; assumption) | simp add: plain_text_def)+

interpretation resource_module: config_module X "''resource''" "get_resource_config X" "set_resource_config X" "resource_texts X" "resource_ok X" for X
proof
  show "fst (run_state (get_resource_config X) s) = fst (run_state (get_resource_config X) s')"
    if "\<And>k. cached_value ''resource'' k (refresh X s) = cached_value ''resource'' k (refresh X s')" for s s'
    using that by (simp add: get_resource_config_def run_settings cong: option.case_cong)
  show "\<exists>p. snd (run_state (set_resource_config X c) s) = (write_all X ''resource'' (resource_texts X c) s)\<lparr>stm_paths := p\<rparr>" for c s
    by (rule exI [of _ "stm_paths (write_all X ''resource'' (resource_texts X c) s)"]) (simp add: run_settings Let_def)
qed ((rule run_get_resource_state resource_texts_ok read_resource; assumption) | simp add: plain_text_def)+

interpretation inference_module: config_module X "''inference''" "get_inference_config X" "set_inference_config X" "inference_texts X" "inference_ok X" for X
proof
  show "fst (run_state (get_inference_config X) s) = fst (run_state (get_inference_config X) s')"
    if "\<And>k. cached_value ''inference'' k (refresh X s) = cached_value ''inference'' k (refresh X s')" for s s'
    using that by (simp add: get_inference_config_def run_settings cong: option.case_cong)
  show "\<exists>p. snd (run_state (set_inference_config X c) s) = (write_all X ''inference'' (inference_texts X c) s)\<lparr>stm_paths := p\<rparr>" for c s
    by (rule exI [of _ "stm_paths (write_all X ''inference'' (inference_texts X c) s)"]) (simp add: run_settings Let_def)
qed ((rule run_get_inference_state inference_texts_ok read_inference; assumption) | simp add: plain_text_def)+

interpretation multimodal_module: config_module X "''multimodal''" "get_multimodal_config X" "set_multimodal_config X" "multimodal_texts X" "multimodal_ok X" for X
proof
  show "fst (run_state (get_multimodal_config X) s) = fst (run_state (get_multimodal_config X) s')"
    if "\<And>k. cached_value ''multimodal'' k (refresh X s) = cached_value ''multimodal'' k (refresh X s')" for s s'
    using that by (simp add: get_multimodal_config_def run_settings cong: option.case_cong)
  show "\<exists>p. snd (run_state (set_multimodal_config X c) s) = (write_all X ''multimodal'' (multimodal_texts X c) s)\<lparr>stm_paths := p\<rparr>" for c s
    by (rule exI [of _ "stm_paths (write_all X ''multimodal'' (multimodal_texts X c) s)"]) (simp add: run_settings Let_def)
qed ((rule run_get_multimodal_state multimodal_texts_ok read_multimodal; assumption) | simp add: plain_text_def)+

interpretation memory_module: config_module X "''memory''" "get_memory_config X" "set_memory_config X" "memory_texts X" "memory_ok X" for X
proof
  show "fst (run_state (get_memory_config X) s) = fst (run_state (get_memory_config X) s')"
    if "\<And>k. cached_value ''memory'' k (refresh X s) = cached_value ''memory'' k (refresh X s')" for s s'
    using that by (simp add: get_memory_config_def run_settings cong: option.case_cong)
  show "\<exists>p. snd (run_state (set_memory_config X c) s) = (write_all X ''memory'' (memory_texts X c) s)\<lparr>stm_paths := p\<rparr>" for c s
    by (rule exI [of _ "stm_paths (write_all X ''memory'' (memory_texts X c) s)"]) (simp add: run_settings Let_def)
qed ((rule run_get_memory_state memory_texts_ok read_memory; assumption) | simp add: plain_text_def)+

interpretation cloud_module: config_module X "''cloud''" "get_cloud_config X" "set_cloud_config X" "cloud_texts X" "cloud_ok X" for X
proof
  show "fst (run_state (get_cloud_config X) s) = fst (run_state (get_cloud_config X) s')"
    if "\<And>k. cached_value ''cloud'' k (refresh X s) = cached_value ''cloud'' k (refresh X s')" for s s'
    using that by (simp add: get_cloud_config_def run_settings cong: option.case_cong)
  show "\<exists>p. snd (run_state (set_cloud_config X c) s) = (write_all X ''cloud'' (cloud_texts X c) s)\<lparr>stm_paths := p\<rparr>" for c s
    by (rule exI [of _ "stm_paths (write_all X ''cloud'' (cloud_texts X c) s)"]) (simp add: run_settings Let_def)
qed ((rule run_get_cloud_state cloud_texts_ok read_cloud; assumption) | simp add: plain_text_def)+

interpretation storage_module: config_module X "''storage''" "get_storage_config X" "set_storage_config X" "storage_texts X" "storage_ok X" for X
proof
  show "fst (run_state (get_storage_config X) s) = fst (run_state (get_storage_config X) s')"
    if "\<And>k. cached_value ''storage'' k (refresh X s) = cached_value ''storage'' k (refresh X s')" for s s'
    using that by (simp add: get_storage_config_def run_settings cong: option.case_cong)
  show "\<exists>p. snd (run_state (set_storage_config X c) s) = (write_all X ''storage'' (storage_texts X c) s)\<lparr>stm_paths := p\<rparr>" for c s
    by (rule exI [of _ "sync_from_storage_config (se_os X) c (stm_paths (write_all X ''storage'' (storage_texts X c) s))"]) (simp add: run_settings Let_def)
qed ((rule run_get_storage_state storage_texts_ok read_storage; assumption) | simp add: plain_text_def)+

interpretation logging_module: config_module X "''logging''" "get_logging_config X" "set_logging_config X" "logging_texts X" "logging_ok X" for X
proof
  show "fst (run_state (get_logging_config X) s) = fst (run_state (get_logging_config X) s')"
    if "\<And>k. cached_value ''logging'' k (refresh X s) = cached_value ''logging'' k (refresh X s')" for s s'
    using that by (simp add: get_logging_config_def run_settings cong: option.case_cong)
  show "\<exists>p. snd (run_state (set_logging_config X c) s) = (write_all X ''logging'' (logging_texts X c) s)\<lparr>stm_paths := p\<rparr>" for c s
    by (rule exI [of _ "stm_paths (write_all X ''logging'' (logging_texts X c) s)"]) (simp add: run_settings Let_def)
qed ((rule run_get_logging_state logging_texts_ok read_logging; assumption) | simp add: plain_text_def)+

section \<open>Importing an export\<close>

definition read_all :: "set_env \<Rightarrow> settings_manager \<Rightarrow> all_settings" where
  "read_all X s =
     \<lparr>as_server = fst (run_state (get_server_config X) s), as_resource = fst (run_state (get_resource_config X) s),
      as_inference = fst (run_state (get_inference_config X) s), as_multimodal = fst (run_state (get_multimodal_config X) s),
      as_memory = fst (run_state (get_memory_config X) s), as_cloud = fst (run_state (get_cloud_config X) s),
      as_logging = fst (run_state (get_logging_config X) s), as_storage = fst (run_state (get_storage_config X) s)\<rparr>"

definition masked_server :: "server_config \<Rightarrow> server_config" where
  "masked_server c = c\<lparr>srv_api_secret_key := mask_secret (srv_api_secret_key c)\<rparr>"

definition masked_cloud :: "cloud_config \<Rightarrow> cloud_config" where
  "masked_cloud c = c\<lparr>cld_openrouter_api_key := mask_secret (cld_openrouter_api_key c), cld_gemini_api_key := mask_secret (cld_gemini_api_key c),
     cld_openai_api_key := mask_secret (cld_openai_api_key c)\<rparr>"

definition masked :: "all_settings \<Rightarrow> all_settings" where
  "masked a = a\<lparr>as_server := masked_server (as_server a), as_cloud := masked_cloud (as_cloud a)\<rparr>"

text \<open>Numbers that survive the conversion to a JSON number and back; a RAM budget of whole percents above one.\<close>

definition float_exact :: "panel_env \<Rightarrow> f32 \<Rightarrow> bool" where
  "float_exact P f \<longleftrightarrow> double_to_float (cp_num P) (cp_double P f) = f"

definition exportable :: "panel_env \<Rightarrow> all_settings \<Rightarrow> bool" where
  "exportable P a \<longleftrightarrow> all_ok (cp_set P) a \<and>
     float_exact P (inf_default_temperature (as_inference a)) \<and> float_exact P (inf_default_top_p (as_inference a)) \<and>
     float_exact P (inf_repeat_penalty (as_inference a)) \<and> float_exact P (inf_min_p (as_inference a)) \<and>
     float_exact P (mmc_sd_cfg_scale (as_multimodal a)) \<and> float_exact P (mec_similarity_threshold (as_memory a)) \<and>
     ram_fraction P (int_to_float (cp_num P) (ram_percent P (rsc_ram_budget_percent (as_resource a)))) = rsc_ram_budget_percent (as_resource a)"

lemma mask_secret_Nil [simp]: "mask_secret s = [] \<longleftrightarrow> s = []"
  by (auto simp: mask_secret_def)

lemma length_mask_secret [simp]: "length (mask_secret s) = length s"
  by (auto simp: mask_secret_def)

lemma mask_secret_plain: "plain_text s \<Longrightarrow> plain_text (mask_secret s)"
  by (auto simp: mask_secret_def plain_text_def dest: in_set_dropD)

text \<open>A mask is the secret only when all of it but the last four characters are stars.\<close>

lemma mask_secret_eq_iff: "mask_secret s = s \<longleftrightarrow> (\<forall>c \<in> set (take (if length s \<le> 4 then length s else length s - 4) s). c = CHR ''*'')"
proof -
  have r: "replicate n c = xs \<longleftrightarrow> length xs = n \<and> (\<forall>x \<in> set xs. x = c)" for n c and xs :: string
    by (metis length_replicate in_set_replicate replicate_eqI)
  have m: "mask_secret s = s \<longleftrightarrow> replicate (length s - 4) CHR ''*'' = take (length s - 4) s" if "4 < length s"
  proof -
    have "mask_secret s = replicate (length s - 4) CHR ''*'' @ drop (length s - 4) s" using that by (auto simp: mask_secret_def)
    then have "mask_secret s = s \<longleftrightarrow> replicate (length s - 4) CHR ''*'' @ drop (length s - 4) s = take (length s - 4) s @ drop (length s - 4) s" by simp
    then show ?thesis by (simp only: append_same_eq)
  qed
  show ?thesis
  proof (cases "length s \<le> 4")
    case True
    then have "mask_secret s = replicate (length s) CHR ''*''" by (simp add: mask_secret_def)
    then show ?thesis using True by (simp add: r)
  next
    case False
    then show ?thesis using m by (simp add: r)
  qed
qed

lemma or_env_mask: "or_env X s n = s \<Longrightarrow> or_env X (mask_secret s) n = mask_secret s"
  by (cases "s = []") (auto simp: or_env_def mask_secret_def)

lemma masked_ok: "server_ok X c \<Longrightarrow> server_ok X (masked_server c)" "cloud_ok X d \<Longrightarrow> cloud_ok X (masked_cloud d)"
  by (simp_all add: server_ok_def masked_server_def cloud_ok_def masked_cloud_def mask_secret_plain or_env_mask)

lemmas from_json_defs = put_def float_exact_def int_ok_def cut_int_id

lemma from_json:
  "server_ok X srv \<Longrightarrow> server_from P (server_json srv) srv = Some (masked_server srv)"
  "cloud_from (cloud_json cc) cc = Some (masked_cloud cc)"
  "storage_from (storage_json st) st = Some st"
  "logging_from (logging_json lg) lg = Some lg"
  by (simp_all add: server_from_def server_json_def server_ok_def masked_server_def cloud_from_def cloud_json_def masked_cloud_def
      storage_from_def storage_json_def logging_from_def logging_json_def from_json_defs)

lemma from_json_numbers:
  assumes "exportable P a"
  shows "inference_from P (inference_json P (as_inference a)) (as_inference a) = Some (as_inference a)"
    "multimodal_from P (multimodal_json P (as_multimodal a)) (as_multimodal a) = Some (as_multimodal a)"
    "memory_from P (memory_json P (as_memory a)) (as_memory a) = Some (as_memory a)"
    "resource_from P (resource_json P (as_resource a)) (as_resource a) = Some (as_resource a)"
  using assms by (simp_all add: exportable_def all_ok_def inference_ok_def multimodal_ok_def memory_ok_def resource_ok_def inference_from_def inference_json_def
      multimodal_from_def multimodal_json_def memory_from_def memory_json_def resource_from_def resource_json_def from_json_defs)

definition settings_json :: "panel_env \<Rightarrow> all_settings \<Rightarrow> json" where
  "settings_json P a = JObject
     [(''cloud'', cloud_json (as_cloud a)), (''inference'', inference_json P (as_inference a)), (''logging'', logging_json (as_logging a)),
      (''memory'', memory_json P (as_memory a)), (''multimodal'', multimodal_json P (as_multimodal a)), (''resource'', resource_json P (as_resource a)),
      (''server'', server_json (as_server a)), (''storage'', storage_json (as_storage a))]"

lemma run_get_all: "run_state (get_all_settings_json P) s = (settings_json P (read_all (cp_set P) s), refresh (cp_set P) s)"
proof -
  have s: "snd (run_state (get_server_config X) s) = refresh X s" "snd (run_state (get_resource_config X) s) = refresh X s"
     "snd (run_state (get_inference_config X) s) = refresh X s" "snd (run_state (get_multimodal_config X) s) = refresh X s"
     "snd (run_state (get_memory_config X) s) = refresh X s" "snd (run_state (get_cloud_config X) s) = refresh X s"
     "snd (run_state (get_storage_config X) s) = refresh X s" "snd (run_state (get_logging_config X) s) = refresh X s" for X s
    by (rule server_module.get_state resource_module.get_state inference_module.get_state multimodal_module.get_state memory_module.get_state
        cloud_module.get_state storage_module.get_state logging_module.get_state)+
  have a: "agree X {} s (refresh X s)" for X by (simp add: agree_def)
  note g = resource_module.get_agree [OF a] inference_module.get_agree [OF a] multimodal_module.get_agree [OF a] memory_module.get_agree [OF a]
     cloud_module.get_agree [OF a] storage_module.get_agree [OF a] logging_module.get_agree [OF a]
  show ?thesis by (simp add: get_all_settings_json_def settings_json_def read_all_def split_beta s g)
qed

lemma import_export:
  assumes "coherent stale s" and "se_ok (cp_set P)" and "exportable P (read_all (cp_set P) s)"
  obtains s' where "run_state (apply_settings_json P (fst (run_state (get_all_settings_json P) s))) (snd (run_state (get_all_settings_json P) s)) = (True, s')"
    and "coherent False s'" and "read_all (cp_set P) s' = masked (read_all (cp_set P) s)"
proof -
  let ?X = "cp_set P" and ?a = "read_all (cp_set P) s" and ?s0 = "refresh (cp_set P) s"
  let ?j = "settings_json P ?a"
  have ok: "server_ok ?X (as_server ?a)" "resource_ok ?X (as_resource ?a)" "inference_ok ?X (as_inference ?a)" "multimodal_ok ?X (as_multimodal ?a)"
    "memory_ok ?X (as_memory ?a)" "cloud_ok ?X (as_cloud ?a)" "logging_ok ?X (as_logging ?a)" "storage_ok ?X (as_storage ?a)"
    using assms(3) by (simp_all add: exportable_def all_ok_def)
  have j: "jget ?j ''server'' = Some (server_json (as_server ?a))" "jget ?j ''resource'' = Some (resource_json P (as_resource ?a))"
    "jget ?j ''inference'' = Some (inference_json P (as_inference ?a))" "jget ?j ''multimodal'' = Some (multimodal_json P (as_multimodal ?a))"
    "jget ?j ''memory'' = Some (memory_json P (as_memory ?a))" "jget ?j ''cloud'' = Some (cloud_json (as_cloud ?a))"
    "jget ?j ''storage'' = Some (storage_json (as_storage ?a))" "jget ?j ''logging'' = Some (logging_json (as_logging ?a))"
    by (simp_all add: settings_json_def)
  have r: "as_server ?a = fst (run_state (get_server_config ?X) s)" "as_resource ?a = fst (run_state (get_resource_config ?X) s)"
    "as_inference ?a = fst (run_state (get_inference_config ?X) s)" "as_multimodal ?a = fst (run_state (get_multimodal_config ?X) s)"
    "as_memory ?a = fst (run_state (get_memory_config ?X) s)" "as_cloud ?a = fst (run_state (get_cloud_config ?X) s)"
    "as_storage ?a = fst (run_state (get_storage_config ?X) s)" "as_logging ?a = fst (run_state (get_logging_config ?X) s)"
    by (simp_all add: read_all_def)
  note f = from_json_numbers [OF assms(3)] from_json(1) [OF ok(1), of P] from_json(2-4)
  have 0: "coherent False ?s0" "agree ?X {} s ?s0" using coherent_refresh [OF assms(1)] by (simp_all add: agree_def)
  define s1 where "s1 = snd (run_state (set_inference_config ?X (as_inference ?a)) (refresh ?X ?s0))"
  define s2 where "s2 = snd (run_state (set_multimodal_config ?X (as_multimodal ?a)) (refresh ?X s1))"
  define s3 where "s3 = snd (run_state (set_memory_config ?X (as_memory ?a)) (refresh ?X s2))"
  define s4 where "s4 = snd (run_state (set_cloud_config ?X (masked_cloud (as_cloud ?a))) (refresh ?X s3))"
  define s5 where "s5 = snd (run_state (set_server_config ?X (masked_server (as_server ?a))) (refresh ?X s4))"
  define s6 where "s6 = snd (run_state (set_resource_config ?X (as_resource ?a)) (refresh ?X s5))"
  define s7 where "s7 = snd (run_state (set_storage_config ?X (as_storage ?a)) (refresh ?X s6))"
  define s8 where "s8 = snd (run_state (set_logging_config ?X (as_logging ?a)) (refresh ?X s7))"
  note 1 = inference_module.apply_module_step [OF 0(1) assms(2) 0(2) ok(3) s1_def]
  note 2 = multimodal_module.apply_module_step [OF 1(1) assms(2) 1(2) ok(4) s2_def]
  note 3 = memory_module.apply_module_step [OF 2(1) assms(2) 2(2) ok(5) s3_def]
  note 4 = cloud_module.apply_module_step [OF 3(1) assms(2) 3(2) masked_ok(2) [OF ok(6)] s4_def]
  note 5 = server_module.apply_module_step [OF 4(1) assms(2) 4(2) masked_ok(1) [OF ok(1)] s5_def]
  note 6 = resource_module.apply_module_step [OF 5(1) assms(2) 5(2) ok(2) s6_def]
  note 7 = storage_module.apply_module_step [OF 6(1) assms(2) 6(2) ok(8) s7_def]
  note 8 = logging_module.apply_module_step [OF 7(1) assms(2) 7(2) ok(7) s8_def]
  have "run_state (apply_settings_json P ?j) ?s0 = (True, s8)"
    unfolding apply_settings_json_def Let_def
    apply (subst inference_module.apply_module_run [OF j(3) 0(2)], simp, simp add: f flip: r, fold s1_def)
    apply (subst multimodal_module.apply_module_run [OF j(4) 1(2)], simp, simp add: f flip: r, fold s2_def)
    apply (subst memory_module.apply_module_run [OF j(5) 2(2)], simp, simp add: f flip: r, fold s3_def)
    apply (subst cloud_module.apply_module_run [OF j(6) 3(2)], simp, simp add: f flip: r, fold s4_def)
    apply (subst server_module.apply_module_run [OF j(1) 4(2)], simp, simp add: f flip: r, fold s5_def)
    apply (subst resource_module.apply_module_run [OF j(2) 5(2)], simp, simp add: f flip: r, fold s6_def)
    apply (subst storage_module.apply_module_run [OF j(7) 6(2)], simp, simp add: f flip: r, fold s7_def)
    apply (subst logging_module.apply_module_run [OF j(8) 7(2)], simp, simp add: f flip: r, fold s8_def)
    by simp
  moreover
  note a7 = 8(3)
  note a6 = agree_trans [OF 7(3) a7]
  note a5 = agree_trans [OF 6(3) a6]
  note a4 = agree_trans [OF 5(3) a5]
  note a3 = agree_trans [OF 4(3) a4]
  note a2 = agree_trans [OF 3(3) a3]
  note a1 = agree_trans [OF 2(3) a2]
  have "read_all ?X s8 = masked ?a"
    using inference_module.get_agree [OF a1] multimodal_module.get_agree [OF a2] memory_module.get_agree [OF a3] cloud_module.get_agree [OF a4] server_module.get_agree [OF a5] resource_module.get_agree [OF a6] storage_module.get_agree [OF a7]
    by (simp add: read_all_def masked_def 1(4) 2(4) 3(4) 4(4) 5(4) 6(4) 7(4) 8(4))
  ultimately show thesis using that 8(1) by (simp add: run_get_all)
qed

section \<open>Failures\<close>

text \<open>
  An import is not atomic: when the second module of an object cannot be converted, the answer is a failure, and the first module is stored all the same.
\<close>

theorem failed_import_half_stored:
  assumes "coherent False s" and "se_ok (cp_set P)" and "parse body = Some j" and "jget j ''inference'' = Some ji" and "jget j ''multimodal'' = Some jm"
    and "inference_from P ji (fst (run_state (get_inference_config (cp_set P)) s)) = Some c" and "inference_ok (cp_set P) c"
    and "multimodal_from P jm (fst (run_state (get_multimodal_config (cp_set P)) s)) = None"
  shows "\<exists>s'. run_state (import_settings P parse body) s = (False, s') \<and> fst (run_state (get_inference_config (cp_set P)) s') = c"
proof -
  let ?X = "cp_set P" and ?s1 = "snd (run_state (set_inference_config (cp_set P) c) (refresh (cp_set P) s))"
  have a: "agree ?X {} s s" by (simp add: agree_def)
  note w = inference_module.apply_module_step [OF assms(1,2) a assms(7) refl]
  have m: "fst (run_state (get_multimodal_config ?X) ?s1) = fst (run_state (get_multimodal_config ?X) s)"
    by (rule multimodal_module.get_agree [OF w(3)]) simp
  have r: "run_state (import_settings P parse body) s = (False, refresh ?X ?s1)"
    unfolding import_settings_def assms(3) option.case apply_settings_json_def Let_def
    apply (subst inference_module.apply_module_run [OF assms(4) a], simp, rule assms(6))
    using assms(5,8) m multimodal_module.get_state by (simp add: apply_module_def split_beta)
  have "agree ?X {} ?s1 (refresh ?X ?s1)" by (simp add: agree_def)
  from inference_module.get_agree [OF this] w(4) r show ?thesis by simp
qed

text \<open>A budget of one percent is exported as 1, and 1 is imported as the fraction 1.0: all of the memory.\<close>

theorem one_percent_becomes_all:
  assumes "ram_percent P (rsc_ram_budget_percent c) = 1" and "int_to_float (cp_num P) 1 = 0x3F800000"
  shows "\<exists>c'. resource_from P (resource_json P c) c = Some c' \<and> rsc_ram_budget_percent c' = 0x3F800000"
  using assms by (simp add: resource_from_def resource_json_def put_def ram_fraction_def f32_lt_def)

text \<open>
  The reset replaces the table and the cache, but the directories of the running process stay those of the old storage settings: the version is taken as seen, so
  that no later read brings the directories up to date.
\<close>

theorem reset_keeps_old_paths:
  assumes "sdb_open (stm_db s)" and "run_state (reset_settings True) s = (ok, s')"
  shows "ok \<and> settings_map (sdb_rows (stm_db s')) = settings_map default_settings \<and> stm_paths (snd (run_state (get_storage_config X) s')) = stm_paths s"
proof -
  have s': "ok" "s' = s\<lparr>stm_db := (stm_db s)\<lparr>sdb_rows := default_settings, sdb_version := Suc (sdb_version (stm_db s))\<rparr>,
      stm_cache := load_cache default_settings, stm_last_version := Suc (sdb_version (stm_db s))\<rparr>"
    using assms by (auto simp: reset_settings_def reset_settings_to_defaults_def stm_reload_def sdb_get_all_def get_data_version_def)
  then have "refresh X s' = s'" using assms(1) by (simp add: refresh_def get_data_version_def)
  then show ?thesis using s' storage_module.get_state [of X s'] by simp
qed

section \<open>Examples\<close>

definition demo_panel :: panel_env where
  "demo_panel =
     \<lparr>cp_set = demo_set_env, cp_num = \<lparr>double_to_int = uint, double_to_float = ucast, int_to_float = (\<lambda>i. if i = 50 then 0x42480000 else word_of_int i)\<rparr>, cp_double = ucast,
      cp_times_100 = (\<lambda>f. if f = 0x3F000000 then 0x42480000 else f), cp_div_100 = (\<lambda>f. if f = 0x42480000 then 0x3F000000 else f),
      cp_trunc = (\<lambda>f. if f = 0x42480000 then 50 else uint f)\<rparr>"

lemma demo_fresh: "refresh demo_set_env demo_settings = demo_settings" "cached_value m k demo_settings = None"
  by (simp_all add: refresh_def get_data_version_def demo_settings_def new_settings_manager_def cached_value_def)

lemma demo_read_all: "read_all demo_set_env demo_settings = demo_all"
  unfolding read_all_def demo_all_def all_settings.ext_inject
  by (intro conjI; simp add: get_server_config_def get_resource_config_def get_inference_config_def get_multimodal_config_def get_memory_config_def
      get_cloud_config_def get_logging_config_def get_storage_config_def run_settings demo_fresh demo_or_env;
    simp add: default_server_config_def default_cloud_config_def)

lemma ucast_double_back: "ucast (ucast f :: u64) = (f :: f32)"
  by (rule bit_word_eqI) (auto simp: bit_simps)

lemma demo_exportable: "all_ok demo_set_env a \<Longrightarrow> rsc_ram_budget_percent (as_resource a) = 0x3F000000 \<Longrightarrow> exportable demo_panel a"
  by (simp add: exportable_def demo_panel_def float_exact_def ucast_double_back ram_percent_def ram_fraction_def f32_le_def f32_lt_def f32_nan_def f32_key_def f32_mag_def)

end
