(* ===== verification/Gateway.thy ===== *)
theory Gateway
  imports Engine Control_Panel
begin

text \<open>
  The HTTP gateway (\<open>server.cpp\<close>): what happens before the server listens (the generated secret, the limits on payload and worker threads, the allowed
  origin), and its routes: the completion of a chat behind the API secret, the list of models, the health check and the preflight.

  A request is its authorization header (empty when there is none) and its body. The configuration is read anew for every request, so that a change made by the
  control panel, another process, is seen. The draws of the random generator are an argument. Processes, signals and sockets are not modelled.
\<close>

section \<open>Start\<close>

definition charset :: string where
  "charset = ''abcdefghijklmnopqrstuvwxyzABCDEFGHIJKLMNOPQRSTUVWXYZ0123456789''"

definition generated_secret :: "(nat \<Rightarrow> nat) \<Rightarrow> string" where
  "generated_secret draw = map (\<lambda>i. charset ! draw i) [0..<48]"

definition ensure_secret :: "set_env \<Rightarrow> (nat \<Rightarrow> nat) \<Rightarrow> (settings_manager, server_config) state" where
  "ensure_secret X draw = do {
     srv_cfg \<leftarrow> get_server_config X;
     if srv_enable_api_auth srv_cfg \<and> srv_api_secret_key srv_cfg = []
     then do {
       let srv_cfg' = srv_cfg\<lparr>srv_api_secret_key := generated_secret draw\<rparr>;
       set_server_config X srv_cfg';
       State_Monad.return srv_cfg'
     }
     else State_Monad.return srv_cfg
   }"

text \<open>The function that embeds texts with a resident model, where there is one.\<close>

definition embedding_fn :: "float_ops \<Rightarrow> double_ops \<Rightarrow> (string, loaded_model) omap \<Rightarrow> (string \<Rightarrow> mem_error + f32 list) option" where
  "embedding_fn F D resident = map_option
     (\<lambda>M t. if v_tokens (dm_vocab (lm_model M)) = [] then Inr [] else compute_embedding F D M (tokenize (dm_vocab (lm_model M)) t)) (embedding_model resident)"

definition payload_max_length :: "server_config \<Rightarrow> size_t" where
  "payload_max_length cfg = word_of_int (srv_max_payload_mb cfg) * 1024 * 1024"

definition worker_threads :: "int \<Rightarrow> server_config \<Rightarrow> int" where
  "worker_threads hw cfg = (let clamped_threads = thread_limit_for_hardware hw (srv_threads cfg) in if clamped_threads \<le> 0 then 1 else clamped_threads)"

definition cors_origin :: "server_config \<Rightarrow> string" where
  "cors_origin cfg = (if srv_cors_allowed_origins cfg = [] then ''http://localhost'' else srv_cors_allowed_origins cfg)"

section \<open>Routes\<close>

definition unauthorized :: "string \<Rightarrow> http_response" where
  "unauthorized message = set_content
     (''{'' @ [CHR 0x22] @ ''error'' @ [CHR 0x22] @ '':{'' @ [CHR 0x22] @ ''message'' @ [CHR 0x22] @ '':'' @ [CHR 0x22] @ message @ [CHR 0x22] @ '','' @
      [CHR 0x22] @ ''type'' @ [CHR 0x22] @ '':'' @ [CHR 0x22] @ ''invalid_request_error'' @ [CHR 0x22] @ ''}}'')
     ''application/json'' (new_response\<lparr>hr_status := 401\<rparr>)"

definition refused :: "server_config \<Rightarrow> string \<Rightarrow> bool" where
  "refused cfg auth \<longleftrightarrow> srv_enable_api_auth cfg \<and> (auth = [] \<or> auth \<noteq> ''Bearer '' @ srv_api_secret_key cfg)"

definition with_settings :: "settings_manager \<Rightarrow> dense_engine \<Rightarrow> dense_engine" where
  "with_settings st e = e\<lparr>en_world := (en_world e)\<lparr>w_settings := st\<rparr>\<rparr>"

definition chat_completions :: "pipeline_env \<Rightarrow> string \<Rightarrow> string \<Rightarrow> dense_engine \<Rightarrow> pipeline_error + http_response \<times> dense_engine" where
  "chat_completions V auth body e =
     (let (cfg, st) = run_state (get_server_config (su_settings (pe_engine V))) (w_settings (en_world e)); e1 = with_settings st e
      in if refused cfg auth then Inr (unauthorized ''Unauthorized: Invalid API key'', e1) else process V body e1)"

definition model_entry :: "(string, loaded_model) omap \<Rightarrow> string \<Rightarrow> string" where
  "model_entry resident mid =
     ''{'' @ [CHR 0x22] @ ''id'' @ [CHR 0x22] @ '':'' @ [CHR 0x22] @ mid @ [CHR 0x22] @ '','' @ [CHR 0x22] @ ''object'' @ [CHR 0x22] @ '':'' @ [CHR 0x22] @ ''model'' @ [CHR 0x22] @
     '','' @ [CHR 0x22] @ ''created'' @ [CHR 0x22] @ '':1700000000,'' @ [CHR 0x22] @ ''owned_by'' @ [CHR 0x22] @ '':'' @ [CHR 0x22] @ ''denselite'' @ [CHR 0x22] @ '','' @
     [CHR 0x22] @ ''state'' @ [CHR 0x22] @ '':'' @ [CHR 0x22] @
     (if mid = ''denselite'' then ''ready'' else if map_of resident mid \<noteq> None then ''loaded'' else ''registered'') @ [CHR 0x22] @ ''}''"

definition listed_models :: "model_db \<Rightarrow> (string, loaded_model) omap \<Rightarrow> string list" where
  "listed_models db resident = sorted_list_of_set (set (''denselite'' # map lm_model_id (get_all_models db) @ map fst resident))"

fun comma_separated :: "string list \<Rightarrow> string" where
  "comma_separated [] = []"
| "comma_separated [x] = x"
| "comma_separated (x # y # xs) = x @ '','' @ comma_separated (y # xs)"

definition models_body :: "model_db \<Rightarrow> (string, loaded_model) omap \<Rightarrow> string" where
  "models_body db resident =
     ''{'' @ [CHR 0x22] @ ''object'' @ [CHR 0x22] @ '':'' @ [CHR 0x22] @ ''list'' @ [CHR 0x22] @ '','' @ [CHR 0x22] @ ''data'' @ [CHR 0x22] @ '':['' @
     comma_separated (map (model_entry resident) (listed_models db resident)) @ '']}''"

definition list_models_route :: "set_env \<Rightarrow> string \<Rightarrow> dense_engine \<Rightarrow> http_response \<times> dense_engine" where
  "list_models_route X auth e =
     (let (cfg, st) = run_state (get_server_config X) (w_settings (en_world e)); e1 = with_settings st e
      in if refused cfg auth then (unauthorized ''Unauthorized'', e1)
         else (set_content (models_body (w_inventory (en_world e1)) (w_models (en_world e1))) ''application/json'' new_response, e1))"

definition health :: http_response where
  "health = set_content (''{'' @ [CHR 0x22] @ ''status'' @ [CHR 0x22] @ '':'' @ [CHR 0x22] @ ''ok'' @ [CHR 0x22] @ ''}'') ''application/json'' new_response"

definition preflight :: http_response where
  "preflight = new_response\<lparr>hr_status := 204\<rparr>"

section \<open>The secret\<close>

lemma charset_chars: "length charset = 62" "list_all (\<lambda>c. c \<noteq> CHR 0x00) charset"
  by (simp_all add: charset_def)

lemma generated_secret_chars:
  assumes "\<forall>i<48. draw i < 62"
  shows "length (generated_secret draw) = 48" "set (generated_secret draw) \<subseteq> set charset" "plain_text (generated_secret draw)"
proof -
  show "length (generated_secret draw) = 48" by (simp add: generated_secret_def)
  show s: "set (generated_secret draw) \<subseteq> set charset" using assms charset_chars(1) by (auto simp: generated_secret_def)
  then show "plain_text (generated_secret draw)" using charset_chars(2) by (auto simp: plain_text_def list_all_iff)
qed

lemma refused_iff: "refused cfg auth \<longleftrightarrow> srv_enable_api_auth cfg \<and> auth \<noteq> ''Bearer '' @ srv_api_secret_key cfg"
  by (auto simp: refused_def)

lemma get_server_refresh: "fst (run_state (get_server_config X) (refresh X s)) = fst (run_state (get_server_config X) s)"
  by (rule server_module.get_agree [of X "{}"]) (simp_all add: agree_def)

lemma ensure_secret_result:
  assumes "coherent stale st" and "se_ok X" and "server_ok X (fst (run_state (get_server_config X) st))" and "\<forall>i<48. draw i < 62"
    and "run_state (ensure_secret X draw) st = (cfg, st')"
  shows "coherent False st'" "fst (run_state (get_server_config X) st') = cfg" "srv_enable_api_auth cfg \<longrightarrow> srv_api_secret_key cfg \<noteq> []"
    "srv_enable_api_auth cfg = srv_enable_api_auth (fst (run_state (get_server_config X) st))"
proof -
  obtain c where g: "run_state (get_server_config X) st = (c, refresh X st)" using server_module.get_state [of X st] by (metis prod.collapse)
  let ?c = "c\<lparr>srv_api_secret_key := generated_secret draw\<rparr>"
  have r: "coherent False (refresh X st)" using coherent_refresh [OF assms(1)] .
  have ok: "server_ok X ?c" using assms(3) g generated_secret_chars(3) [OF assms(4)] by (simp add: server_ok_def)
  note w = server_module.write_read [OF r assms(2) ok]
  have ne: "generated_secret draw \<noteq> []" using generated_secret_chars(1) [OF assms(4)] by auto
  have reread: "fst (run_state (get_server_config X) (refresh X st)) = c" using get_server_refresh [of X st] g by simp
  show "coherent False st'" "fst (run_state (get_server_config X) st') = cfg" "srv_enable_api_auth cfg \<longrightarrow> srv_api_secret_key cfg \<noteq> []"
    "srv_enable_api_auth cfg = srv_enable_api_auth (fst (run_state (get_server_config X) st))"
    using assms(5) w r ne reread by (auto simp: ensure_secret_def g Let_def split_beta split: if_splits)
qed

lemma chat_cases:
  assumes "fst (run_state (get_server_config (su_settings (pe_engine V))) (w_settings (en_world e))) = cfg"
  shows "chat_completions V auth body e =
    (let e1 = with_settings (refresh (su_settings (pe_engine V)) (w_settings (en_world e))) e
     in if refused cfg auth then Inr (unauthorized ''Unauthorized: Invalid API key'', e1) else process V body e1)"
  using assms server_module.get_state [of "su_settings (pe_engine V)" "w_settings (en_world e)"]
  by (simp add: chat_completions_def Let_def split_beta)


section \<open>A backup locks its owner out\<close>

lemma get_server_same:
  "(\<And>k. cached_value ''server'' k (refresh X s) = cached_value ''server'' k (refresh X' s')) \<Longrightarrow>
   fst (run_state (get_server_config X) s) = fst (run_state (get_server_config X') s')"
  by (simp add: get_server_config_def run_settings)

lemma same_table_same_server:
  assumes "coherent stale s" and "coherent stale' s'" and "sdb_rows (stm_db s) = sdb_rows (stm_db s')"
  shows "fst (run_state (get_server_config X) s) = fst (run_state (get_server_config X') s')"
  using coherent_cached [OF assms(1)] coherent_cached [OF assms(2)] assms(3) by (intro get_server_same) simp

lemma foreign_commit_coherent:
  "coherent stale s \<Longrightarrow> table_ok rows \<Longrightarrow> coherent True (run_event X (Foreign_Commit rows) s)"
  by (auto simp: coherent_def)

text \<open>
  Importing an exported backup in the control panel replaces every secret by its mask: all other settings are as before, the cloud keys are masked, and a
  client of the gateway, which was served with its key before, is refused with 401 afterwards.
\<close>

theorem backup_import_locks_out:
  assumes "coherent stale s" and "se_ok (cp_set P)" and "exportable P (read_all (cp_set P) s)"
    and "run_state (export_settings P dump) s = (Some backup, s1)" and "parse backup = Some (fst (run_state (get_all_settings_json P) s))"
    and "coherent stale' (w_settings (en_world e))" and "sdb_rows (stm_db (w_settings (en_world e))) = sdb_rows (stm_db s)"
    and "srv_enable_api_auth (as_server (read_all (cp_set P) s))" and "srv_api_secret_key (as_server (read_all (cp_set P) s)) = key" and "mask_secret key \<noteq> key"
  shows "\<exists>s'. run_state (import_settings P parse backup) s1 = (True, s') \<and> read_all (cp_set P) s' = masked (read_all (cp_set P) s) \<and>
    (\<exists>e1. chat_completions V (''Bearer '' @ key) body e = process V body e1) \<and>
    (\<exists>e2. chat_completions V (''Bearer '' @ key) body (with_settings (run_event (cp_set P) (Foreign_Commit (sdb_rows (stm_db s'))) (w_settings (en_world e))) e) =
       Inr (unauthorized ''Unauthorized: Invalid API key'', e2))"
proof -
  obtain s' where i: "run_state (apply_settings_json P (fst (run_state (get_all_settings_json P) s))) (snd (run_state (get_all_settings_json P) s)) = (True, s')"
      and c: "coherent False s'" and r: "read_all (cp_set P) s' = masked (read_all (cp_set P) s)"
    using import_export [OF assms(1-3)] by blast
  have s1: "s1 = snd (run_state (get_all_settings_json P) s)" using assms(4) by (auto simp: export_settings_def split_beta)
  have imp: "run_state (import_settings P parse backup) s1 = (True, s')" using i assms(5) s1 by (simp add: import_settings_def)
  let ?st = "run_event (cp_set P) (Foreign_Commit (sdb_rows (stm_db s'))) (w_settings (en_world e))" and ?X = "su_settings (pe_engine V)"
  have "table_ok (sdb_rows (stm_db s'))" using c by (simp add: coherent_def)
  note f = foreign_commit_coherent [OF assms(6) this, of "cp_set P"]
  have old: "fst (run_state (get_server_config ?X) (w_settings (en_world e))) = as_server (read_all (cp_set P) s)"
    using same_table_same_server [OF assms(6) assms(1) assms(7), of ?X "cp_set P"] by (simp add: read_all_def)
  have new: "fst (run_state (get_server_config ?X) (w_settings (en_world (with_settings ?st e)))) = masked_server (as_server (read_all (cp_set P) s))"
    using same_table_same_server [OF f c, of ?X "cp_set P"] r by (simp add: with_settings_def read_all_def masked_def)
  have "chat_completions V (''Bearer '' @ key) body e = process V body (with_settings (refresh ?X (w_settings (en_world e))) e)"
    using chat_cases [OF old] assms(9) by (simp add: refused_iff Let_def)
  moreover have "\<exists>e2. chat_completions V (''Bearer '' @ key) body (with_settings ?st e) = Inr (unauthorized ''Unauthorized: Invalid API key'', e2)"
    using chat_cases [OF new] assms(8-10) by (simp add: refused_iff masked_server_def Let_def)
  ultimately show ?thesis using imp r by blast
qed

text \<open>The control panel never shows a generated secret, only its mask.\<close>

theorem generated_secret_not_shown:
  assumes "\<forall>i<48. draw i < 62"
  shows "mask_secret (generated_secret draw) \<noteq> generated_secret draw"
proof -
  have "hd (generated_secret draw) \<noteq> CHR ''*''" "hd (generated_secret draw) \<in> set (take 44 (generated_secret draw))"
    using generated_secret_chars [OF assms] by (auto simp: charset_def generated_secret_def upt_rec [of 0] dest: subsetD)
  then show ?thesis using generated_secret_chars(1) [OF assms] by (auto simp: mask_secret_eq_iff)
qed

section \<open>Models and limits\<close>

text \<open>The list of models names every registered and every resident model and the engine itself, each once and in order.\<close>

theorem listed_models_complete:
  "sorted (listed_models db resident) \<and> distinct (listed_models db resident) \<and>
   set (listed_models db resident) = insert ''denselite'' (lm_model_id ` set (get_all_models db) \<union> fst ` set resident)"
proof -
  have "finite (set (''denselite'' # map lm_model_id (get_all_models db) @ map fst resident))" by (rule finite_set)
  from set_sorted_list_of_set [OF this] show ?thesis unfolding listed_models_def by (simp del: sorted_list_of_set_insert_remove)
qed

text \<open>A negative limit for the payload is taken for almost all of the address space.\<close>

lemma negative_payload_limit: "srv_max_payload_mb cfg = - 1 \<Longrightarrow> unat (payload_max_length cfg) = 2 ^ 64 - 2 ^ 20"
  by (simp add: payload_max_length_def)

lemma worker_threads_positive: "1 \<le> worker_threads hw cfg"
  by (simp add: worker_threads_def Let_def)

section \<open>Examples\<close>

lemma demo_engine_settings: "w_settings (en_world demo_engine_state) = demo_settings" "su_settings (pe_engine demo_pipeline) = demo_set_env"
  by (simp_all add: demo_engine_state_def new_engine_def demo_world_def demo_pipeline_def demo_surroundings_def)

lemma demo_server: "fst (run_state (get_server_config demo_set_env) demo_settings) = default_server_config"
  using arg_cong [OF demo_read_all, of as_server] by (simp add: read_all_def demo_all_def)


text \<open>A manager with a secret: the default settings, written once.\<close>

definition keyed_settings :: settings_manager where
  "keyed_settings = snd (run_state (set_server_config demo_set_env (default_server_config\<lparr>srv_api_secret_key := ''sesame''\<rparr>)) demo_settings)"

lemma keyed_read: "coherent False keyed_settings" "read_all demo_set_env keyed_settings = demo_all\<lparr>as_server := default_server_config\<lparr>srv_api_secret_key := ''sesame''\<rparr>\<rparr>"
proof -
  have "server_ok demo_set_env default_server_config" using demo_all_ok by (simp add: all_ok_def demo_all_def)
  then have "server_ok demo_set_env (default_server_config\<lparr>srv_api_secret_key := ''sesame''\<rparr>)" by (simp add: server_ok_def plain_text_def)
  note w = server_module.write_read [OF demo_coherent _ this, folded keyed_settings_def]
  have k: "se_ok demo_set_env" by (simp add: demo_set_env_def)
  show "coherent False keyed_settings" using w(1) k by simp
  note a = w(2) [OF k]
  have "read_all demo_set_env keyed_settings = (read_all demo_set_env demo_settings)\<lparr>as_server := default_server_config\<lparr>srv_api_secret_key := ''sesame''\<rparr>\<rparr>"
    using w(3) [OF k] resource_module.get_agree [OF a] inference_module.get_agree [OF a] multimodal_module.get_agree [OF a] memory_module.get_agree [OF a]
      cloud_module.get_agree [OF a] storage_module.get_agree [OF a] logging_module.get_agree [OF a] by (simp add: read_all_def)
  then show "read_all demo_set_env keyed_settings = demo_all\<lparr>as_server := default_server_config\<lparr>srv_api_secret_key := ''sesame''\<rparr>\<rparr>"
    by (simp add: demo_read_all)
qed

theorem backup_import_locks_out_witness:
  "\<exists>s' e2. run_state (import_settings demo_panel (\<lambda>t. Some (fst (run_state (get_all_settings_json demo_panel) keyed_settings))) ''backup'')
       (snd (run_state (get_all_settings_json demo_panel) keyed_settings)) = (True, s') \<and>
     chat_completions demo_pipeline ''Bearer sesame'' ''b''
       (with_settings (run_event demo_set_env (Foreign_Commit (sdb_rows (stm_db s'))) keyed_settings) (with_settings keyed_settings demo_engine_state)) =
       Inr (unauthorized ''Unauthorized: Invalid API key'', e2)"
proof -
  let ?e = "with_settings keyed_settings demo_engine_state"
  have P: "cp_set demo_panel = demo_set_env" "se_ok demo_set_env" by (simp_all add: demo_panel_def demo_set_env_def)
  have "all_ok demo_set_env (demo_all\<lparr>as_server := default_server_config\<lparr>srv_api_secret_key := ''sesame''\<rparr>\<rparr>)"
    using demo_all_ok by (simp add: all_ok_def server_ok_def demo_all_def plain_text_def)
  then have x: "exportable demo_panel (demo_all\<lparr>as_server := default_server_config\<lparr>srv_api_secret_key := ''sesame''\<rparr>\<rparr>)"
    by (rule demo_exportable) (simp add: demo_all_def default_resource_config_def)
  have exp: "run_state (export_settings demo_panel (\<lambda>j. Some ''backup'')) keyed_settings = (Some ''backup'', snd (run_state (get_all_settings_json demo_panel) keyed_settings))"
    by (simp add: export_settings_def split_beta)
  have e: "w_settings (en_world ?e) = keyed_settings" by (simp add: with_settings_def)
  have m: "mask_secret ''sesame'' \<noteq> ''sesame''" by (simp add: mask_secret_def)
  have a: "srv_enable_api_auth (default_server_config\<lparr>srv_api_secret_key := ''sesame''\<rparr>)" by (simp add: default_server_config_def)
  from backup_import_locks_out [of False keyed_settings demo_panel "\<lambda>j. Some ''backup''" "''backup''" _ "\<lambda>t. Some (fst (run_state (get_all_settings_json demo_panel) keyed_settings))"
      False ?e "''sesame''" demo_pipeline "''b''", unfolded P(1) e keyed_read(2), OF keyed_read(1) P(2) x exp refl keyed_read(1) refl _ _ m] a
  show ?thesis by auto
qed

end
