(* ===== verification/Panel_Models.thy ===== *)
theory Panel_Models
  imports Model_Inspector Json_Model
begin

text \<open>
  The model routes of the control panel (\<open>tray/tray_routes_models.cpp\<close>): the list of models and role bindings after a discovery, the inspection of a file,
  the registration of a model, and the binding and switching of roles.

  A request is the text of its body; the JSON parser is an argument. An exception that a route catches is the answer \<open>Thrown\<close>, one that it lets through is
  \<open>None\<close>. \<open>mp_ok\<close> tells whether the statements of the database succeed.
\<close>

record model_panel =
  mp_os :: os_env
  mp_paths :: path_service
  mp_parse :: "string \<Rightarrow> json option"
  mp_print :: "nat \<Rightarrow> nat \<Rightarrow> u64 \<Rightarrow> string"
  mp_disk :: "string \<Rightarrow> u8 list option option"
  mp_ok :: bool
  mp_now :: int

definition model_json :: "local_model \<Rightarrow> json" where
  "model_json m = JObject
     [(''architecture'', JString (lm_architecture m)), (''context_length'', JInt (uint (lm_context_length m))), (''file_path'', JString (lm_file_path m)),
      (''is_verified'', JBool (lm_is_verified m)), (''model_id'', JString (lm_model_id m)), (''param_size_str'', JString (lm_param_size_str m)),
      (''quant_type'', JString (lm_quant_type m))]"

definition role_json :: "role_binding \<Rightarrow> json" where
  "role_json b = JObject [(''is_active'', JBool (rb_is_active b)), (''model_id'', JString (rb_model_id b)), (''role'', JString (rb_role b))]"

definition models_route :: "disk_view \<Rightarrow> path_service \<Rightarrow> string \<Rightarrow> model_db \<Rightarrow> json \<times> model_db" where
  "models_route V ps base_dir db =
     (let (n, db1) = auto_discover_and_register V ps base_dir db
      in (JObject [(''models'', JArray (map model_json (get_all_models db1))), (''roles'', JArray (map role_json (get_all_role_bindings False db1)))], db1))"

definition supported_edge_size :: "model_inspection \<Rightarrow> bool" where
  "supported_edge_size insp \<longleftrightarrow>
     (if mi_architecture insp = ''diffusion'' \<or> mi_architecture insp = ''unet'' then mi_param_count insp \<le> 4000000000 else mi_param_count insp \<le> 1850000000)"

definition inspection_json :: "model_inspection \<Rightarrow> json" where
  "inspection_json insp = JObject
     [(''architecture'', JString (mi_architecture insp)), (''compatible_roles'', JArray (map JString (mi_compatible_roles insp))),
      (''context_length'', JInt (uint (mi_context_length insp))), (''error'', JString (mi_error_message insp)),
      (''native_tensor_compatible'', JBool (mi_native_tensor_compatible insp)), (''param_size_str'', JString (mi_param_size_str insp)),
      (''pass_edge_budget'', JBool (supported_edge_size insp)), (''quant_type'', JString (mi_quant_type insp)),
      (''unsupported_native_tensors'', JArray (map JString (mi_unsupported_native_tensors insp))), (''valid'', JBool (mi_is_valid insp))]"

definition requested_path :: "model_panel \<Rightarrow> json \<Rightarrow> string option" where
  "requested_path M j = map_option (expand_user (mp_os M)) (jvalue get_string j ''path'' [])"

definition access_denied :: string where
  "access_denied = ''Access denied: model path outside approved roots''"

definition invalid_reply :: "string \<Rightarrow> json" where
  "invalid_reply message = JObject [(''error'', JString message), (''valid'', JBool False)]"

definition inspect_route :: "model_panel \<Rightarrow> string \<Rightarrow> json" where
  "inspect_route M body =
     (case Option.bind (mp_parse M body) (requested_path M) of
        None \<Rightarrow> invalid_reply ''Invalid JSON''
      | Some path \<Rightarrow>
          if \<not> is_safe_model_path (mp_os M) (mp_paths M) path then invalid_reply access_denied
          else case inspect (mp_print M) (mp_disk M) path of Some insp \<Rightarrow> inspection_json insp | None \<Rightarrow> invalid_reply ''Invalid JSON'')"

datatype register_answer = Denied | Unsuitable | Registered bool | Thrown

fun bind_listed_roles :: "model_panel \<Rightarrow> string \<Rightarrow> json list \<Rightarrow> model_db \<Rightarrow> bool \<times> model_db" where
  "bind_listed_roles M mid [] db = (True, db)"
| "bind_listed_roles M mid (r # rs) db =
     (case get_string r of
        None \<Rightarrow> (False, db)
      | Some role \<Rightarrow> bind_listed_roles M mid rs (snd (bind_role (mp_ok M) (mp_now M) role mid True db)))"

definition record_of :: "string \<Rightarrow> string \<Rightarrow> model_inspection \<Rightarrow> local_model" where
  "record_of mid path insp =
     \<lparr>lm_model_id = mid, lm_file_path = path, lm_architecture = mi_architecture insp, lm_param_count = mi_param_count insp, lm_param_size_str = mi_param_size_str insp,
      lm_quant_type = mi_quant_type insp, lm_context_length = mi_context_length insp, lm_is_verified = True, lm_updated_at = 0\<rparr>"

definition register_route :: "model_panel \<Rightarrow> string \<Rightarrow> model_db \<Rightarrow> register_answer \<times> model_db" where
  "register_route M body db =
     (case mp_parse M body of
        None \<Rightarrow> (Thrown, db)
      | Some j \<Rightarrow>
          (case requested_path M j of
             None \<Rightarrow> (Thrown, db)
           | Some path \<Rightarrow>
               if \<not> is_safe_model_path (mp_os M) (mp_paths M) path then (Denied, db)
               else case jvalue get_string j ''id'' [] of
                 None \<Rightarrow> (Thrown, db)
               | Some mid \<Rightarrow>
                   (case inspect (mp_print M) (mp_disk M) path of
                      None \<Rightarrow> (Thrown, db)
                    | Some insp \<Rightarrow>
                        if \<not> mi_is_valid insp \<or> \<not> supported_edge_size insp \<or> \<not> mi_native_tensor_compatible insp then (Unsuitable, db)
                        else let (ok, db1) = register_model (mp_ok M) (mp_now M) (record_of mid path insp) db
                             in if ok \<and> (case jget j ''roles'' of Some r \<Rightarrow> is_array r | None \<Rightarrow> False)
                                then let (bound, db2) = bind_listed_roles M mid (elements (the (jget j ''roles''))) db1 in (if bound then Registered ok else Thrown, db2)
                                else (Registered ok, db1))))"

definition bind_route :: "model_panel \<Rightarrow> string \<Rightarrow> model_db \<Rightarrow> (bool \<times> model_db) option" where
  "bind_route M body db = do {
     b \<leftarrow> mp_parse M body;
     role \<leftarrow> jvalue get_string b ''role'' [];
     mid \<leftarrow> jvalue get_string b ''model_id'' [];
     Some (bind_role (mp_ok M) (mp_now M) role mid True db)
   }"

definition toggle_route :: "model_panel \<Rightarrow> string \<Rightarrow> model_db \<Rightarrow> (bool \<times> model_db) option" where
  "toggle_route M body db = do {
     b \<leftarrow> mp_parse M body;
     role \<leftarrow> jvalue get_string b ''role'' [];
     act \<leftarrow> jvalue get_bool b ''activate'' True;
     Some (set_role_active (mp_ok M) (mp_now M) role act db)
   }"

section \<open>Registration is guarded\<close>

lemma bind_listed_roles_models: "md_models (snd (bind_listed_roles M mid rs db)) = md_models db"
proof (induction rs arbitrary: db)
  case (Cons r rs)
  have "md_models (snd (bind_role ok now role mid True db)) = md_models db" for ok now role by (simp add: bind_role_def)
  then show ?case using Cons.IH by (simp split: option.split)
qed simp

text \<open>
  C34. The panel registers no model outside the approved directories and none that the engine could not run: whenever a registration changes the inventory, the path
  of the request is admitted, the inspection of the file found it valid, of a supported size and with tensors of supported types, and the only new model is the record of
  this inspection.
\<close>

theorem registration_guarded:
  assumes "register_route M body db = (answer, db')" and "db' \<noteq> db"
  shows "\<exists>j path mid insp. mp_parse M body = Some j \<and> requested_path M j = Some path \<and> is_safe_model_path (mp_os M) (mp_paths M) path \<and>
    inspect (mp_print M) (mp_disk M) path = Some insp \<and> mi_is_valid insp \<and> supported_edge_size insp \<and> mi_native_tensor_compatible insp \<and>
    set (md_models db') \<subseteq> insert (model_columns (mp_now M) (record_of mid path insp)) (set (md_models db))"
proof -
  obtain j path where j: "mp_parse M body = Some j" "requested_path M j = Some path" "is_safe_model_path (mp_os M) (mp_paths M) path"
    using assms by (auto simp: register_route_def split: option.splits if_splits)
  obtain mid insp where i: "jvalue get_string j ''id'' [] = Some mid" "inspect (mp_print M) (mp_disk M) path = Some insp"
      "mi_is_valid insp" "supported_edge_size insp" "mi_native_tensor_compatible insp"
    using assms j by (auto simp: register_route_def split: option.splits if_splits)
  obtain ok db1 where r: "register_model (mp_ok M) (mp_now M) (record_of mid path insp) db = (ok, db1)" by fastforce
  have "set (md_models db1) \<subseteq> insert (model_columns (mp_now M) (record_of mid path insp)) (set (md_models db))"
    using r by (auto simp: register_model_def Let_def split: if_splits)
  moreover have "md_models db' = md_models db1"
    using assms(1) j i r bind_listed_roles_models by (auto simp: register_route_def split_beta split: if_splits)
  ultimately show ?thesis using j i by metis
qed

section \<open>Roles are not checked\<close>

text \<open>The binding route binds any role to any identifier: nothing asks whether the model exists or suits the role.\<close>

theorem binding_unchecked:
  assumes "mp_parse M body = Some (JObject [(''model_id'', JString mid), (''role'', JString role)])" and "md_open db" and "mp_ok M"
  shows "\<exists>db'. bind_route M body db = Some (True, db') \<and> get_model_for_role role db' = c_str mid"
proof -
  have "find (\<lambda>b. rb_role b = c_str role \<and> rb_is_active b) (filter (\<lambda>b. rb_role b \<noteq> c_str role) (md_roles db)) = None" by (auto simp: find_None_iff)
  then show ?thesis using assms by (simp add: bind_route_def bind_role_def get_model_for_role_def find_append)
qed

text \<open>A registration whose list of roles holds a value that is no text is answered with a failure although the model is registered.\<close>

theorem failed_registration_stays:
  assumes "mp_parse M body = Some (JObject [(''id'', JString mid), (''path'', JString p), (''roles'', JArray [JNull])])"
    and "is_safe_model_path (mp_os M) (mp_paths M) (expand_user (mp_os M) p)" and "inspect (mp_print M) (mp_disk M) (expand_user (mp_os M) p) = Some insp"
    and "mi_is_valid insp" "supported_edge_size insp" "mi_native_tensor_compatible insp" and "md_open db" "mp_ok M"
  shows "\<exists>db'. register_route M body db = (Thrown, db') \<and> model_columns (mp_now M) (record_of mid (expand_user (mp_os M) p) insp) \<in> set (md_models db')"
  using assms by (simp add: register_route_def requested_path_def register_model_def Let_def)

section \<open>Examples\<close>

definition demo_file :: "u8 list" where
  "demo_file = enc_model 3 [] [\<lparr>tr_name = ''w.weight'', tr_dims = [4], tr_type = 8, tr_offset = 0\<rparr>]"

definition demo_model_panel :: model_panel where
  "demo_model_panel =
     \<lparr>mp_os = demo_os, mp_paths = (new_path_service demo_os)\<lparr>ps_models_dir := ''/models''\<rparr>,
      mp_parse = (\<lambda>t. Some (JObject [(''id'', JString ''m''), (''path'', JString ''/models/m.gguf'')])), mp_print = (\<lambda>d p n. []), mp_disk = (\<lambda>p. Some (Some demo_file)),
      mp_ok = True, mp_now = 5\<rparr>"

definition empty_inventory :: model_db where
  "empty_inventory = \<lparr>md_open = True, md_models = [], md_roles = []\<rparr>"

lemma demo_inspection:
  "\<exists>i. inspect (\<lambda>d p n. []) (\<lambda>p. Some (Some demo_file)) ''/models/m.gguf'' = Some i \<and> mi_is_valid i \<and> supported_edge_size i \<and> mi_native_tensor_compatible i"
proof -
  let ?ts = "[\<lparr>tr_name = ''w.weight'', tr_dims = [4], tr_type = 8, tr_offset = 0\<rparr>] :: tensor_row list"
  have "inspect (\<lambda>d p n. []) (\<lambda>p. Some (Some demo_file)) ''/models/m.gguf'' =
      Some (conclude (\<lambda>d p n. []) ''/models/m.gguf'' (word_of_nat (length ?ts)) True (fold note_entry [] \<lparr>hi_architecture = [], hi_context_length = 0\<rparr>) (fold note_row ?ts no_tensors))"
    by (rule inspect_enc [where version = 3]) (simp_all add: demo_file_def short_def)
  moreover have "(let i = conclude (\<lambda>d p n. []) ''/models/m.gguf'' (word_of_nat (length ?ts)) True (fold note_entry [] \<lparr>hi_architecture = [], hi_context_length = 0\<rparr>)
      (fold note_row ?ts no_tensors) in mi_is_valid i \<and> supported_edge_size i \<and> mi_native_tensor_compatible i)" by code_simp
  ultimately show ?thesis by (simp add: Let_def)
qed

lemma demo_path_safe: "is_safe_model_path demo_os ((new_path_service demo_os)\<lparr>ps_models_dir := ''/models''\<rparr>) ''/models/m.gguf''"
  by (simp add: is_safe_model_path_def expand_user_def demo_os_def forbidden_dirs_def below_def model_roots_def allow_any_path_def)

theorem registration_guarded_witness:
  "\<exists>db' path insp. register_route demo_model_panel ''b'' empty_inventory = (Registered True, db') \<and> db' \<noteq> empty_inventory \<and>
     is_safe_model_path (mp_os demo_model_panel) (mp_paths demo_model_panel) path \<and> inspect (\<lambda>d p n. []) (\<lambda>p. Some (Some demo_file)) path = Some insp \<and> mi_is_valid insp"
proof -
  obtain insp where i: "inspect (\<lambda>d p n. []) (\<lambda>p. Some (Some demo_file)) ''/models/m.gguf'' = Some insp"
      "mi_is_valid insp" "supported_edge_size insp" "mi_native_tensor_compatible insp"
    using demo_inspection by blast
  obtain db' where r: "register_route demo_model_panel ''b'' empty_inventory = (Registered True, db')" "db' \<noteq> empty_inventory"
    using i demo_path_safe
    by (auto simp: register_route_def demo_model_panel_def requested_path_def expand_user_def register_model_def empty_inventory_def Let_def)
  from registration_guarded [OF r] r show ?thesis by (auto simp: demo_model_panel_def)
qed

end
