(* ===== verification/Databases.thy ===== *)
theory Databases
  imports Cloud_Router Model_Catalog
begin

text \<open>
  The databases and their migration (\<open>databases/database_migrator.cpp\<close>), together with the schemas that the users of the same files bring along
  (\<open>MemoryStore::create_tables\<close>, \<open>SymbolIndex::create_table\<close>) and the row counts that the control panel shows (\<open>tray/tray_routes_system.cpp\<close>).

  The schema of a file is the list of its tables with their columns and the list of its indexes. A script runs statement by statement, each committed on its
  own, and stops at the first error, as \<open>sqlite3_exec\<close> does. \<open>CREATE ... IF NOT EXISTS\<close> looks at the name only: an existing table keeps its columns.
  An index on a table or column that does not exist and a column that exists already are errors. The rows that the migration inserts are modelled on the row types of
  the components that own the tables; types and constraints of columns beyond the keys are not.
\<close>

section \<open>Schemas\<close>

datatype ddl = Create_Table string "string list" | Create_Index string string "string list" | Add_Column string string

record schema =
  sch_tables :: "(string \<times> string list) list"
  sch_indexes :: "string list"

definition empty_schema :: schema where
  "empty_schema = \<lparr>sch_tables = [], sch_indexes = []\<rparr>"

fun add_column :: "string \<Rightarrow> string \<Rightarrow> (string \<times> string list) list \<Rightarrow> (string \<times> string list) list" where
  "add_column t c [] = []"
| "add_column t c ((t', cs) # ts) = (if t' = t then (t', cs @ [c]) # ts else (t', cs) # add_column t c ts)"

fun run_ddl :: "ddl \<Rightarrow> schema \<Rightarrow> schema option" where
  "run_ddl (Create_Table t cs) db = Some (if map_of (sch_tables db) t = None then db\<lparr>sch_tables := sch_tables db @ [(t, cs)]\<rparr> else db)"
| "run_ddl (Create_Index i t cs) db =
     (if List.member (sch_indexes db) i then Some db
      else case map_of (sch_tables db) t of
        None \<Rightarrow> None
      | Some cols \<Rightarrow> if list_all (List.member cols) cs then Some (db\<lparr>sch_indexes := sch_indexes db @ [i]\<rparr>) else None)"
| "run_ddl (Add_Column t c) db =
     (case map_of (sch_tables db) t of
        None \<Rightarrow> None
      | Some cols \<Rightarrow> if List.member cols c then None else Some (db\<lparr>sch_tables := add_column t c (sch_tables db)\<rparr>))"

fun exec_script :: "ddl list \<Rightarrow> schema \<Rightarrow> bool \<times> schema" where
  "exec_script [] db = (True, db)"
| "exec_script (d # ds) db = (case run_ddl d db of None \<Rightarrow> (False, db) | Some db' \<Rightarrow> exec_script ds db')"

text \<open>Single statements whose result is not looked at.\<close>

definition try_ddl :: "ddl \<Rightarrow> schema \<Rightarrow> schema" where
  "try_ddl d db = (case run_ddl d db of None \<Rightarrow> db | Some db' \<Rightarrow> db')"

section \<open>The migrator\<close>

definition settings_script :: "ddl list" where
  "settings_script =
     [Create_Table ''system_settings'' [''module'', ''key'', ''value'', ''val_type'', ''updated_at''],
      Create_Index ''idx_settings_module'' ''system_settings'' [''module''],
      Create_Table ''metadata'' [''key'', ''value''],
      Create_Table ''api_keys'' [''provider'', ''key_index'', ''cooldown_until''],
      Create_Table ''provider_models'' [''provider'', ''model_name'', ''model_type'', ''priority''],
      Create_Index ''idx_provider_type'' ''provider_models'' [''provider'', ''model_type'', ''priority''],
      Create_Table ''local_models'' [''model_id'', ''file_path'', ''architecture'', ''param_count'', ''param_size_str'', ''quant_type'', ''context_length'', ''is_verified'', ''updated_at''],
      Create_Table ''model_roles'' [''role'', ''model_id'', ''is_active'', ''updated_at'']]"

definition memory_script :: "ddl list" where
  "memory_script =
     [Create_Table ''memories'' [''key'', ''id'', ''category'', ''value'', ''confidence'', ''updated_at''],
      Create_Table ''sessions'' [''session_id'', ''turn_count'', ''updated_at''],
      Create_Table ''session_turns'' [''id'', ''session_id'', ''turn_index'', ''timestamp'', ''role'', ''content'', ''tool_name'', ''tool_args'', ''tool_result''],
      Create_Table ''consolidated_archives'' [''archive_id'', ''session_id'', ''summary'', ''extracted_facts'', ''created_at''],
      Create_Index ''idx_session_turns'' ''session_turns'' [''session_id'', ''turn_index''],
      Create_Index ''idx_memories_category'' ''memories'' [''category'']]"

definition symbols_script :: "ddl list" where
  "symbols_script =
     [Create_Table ''code_symbols'' [''id'', ''file_path'', ''symbol'', ''parent_symbol'', ''language'', ''start_line'', ''end_line'', ''source_hash'', ''content''],
      Create_Index ''idx_sym_file'' ''code_symbols'' [''file_path''],
      Create_Index ''idx_sym_name'' ''code_symbols'' [''symbol''],
      Create_Index ''idx_sym_lang'' ''code_symbols'' [''language'']]"

record database_status =
  dst_name :: string
  dst_path :: string
  dst_created :: bool
  dst_migrated :: bool

text \<open>The files by their paths; \<open>can\<close> tells whether SQLite opens a path.\<close>

type_synonym db_disk = "string \<rightharpoonup> schema"

definition execute_sql :: "(string \<Rightarrow> bool) \<Rightarrow> string \<Rightarrow> ddl list \<Rightarrow> db_disk \<Rightarrow> bool \<times> db_disk" where
  "execute_sql can path script disk =
     (if \<not> can path then (False, disk)
      else let (ok, db) = exec_script script (case disk path of None \<Rightarrow> empty_schema | Some db \<Rightarrow> db) in (ok, disk(path \<mapsto> db)))"

definition bootstrap_db :: "string \<Rightarrow> ddl list \<Rightarrow> (string \<Rightarrow> bool) \<Rightarrow> string \<Rightarrow> db_disk \<Rightarrow> database_status \<times> db_disk" where
  "bootstrap_db name script can path disk =
     (let (ok, disk1) = execute_sql can path script disk
      in (\<lparr>dst_name = name, dst_path = path, dst_created = (disk path = None), dst_migrated = ok\<rparr>, disk1))"

definition bootstrap_settings_db :: "(string \<Rightarrow> bool) \<Rightarrow> string \<Rightarrow> db_disk \<Rightarrow> database_status \<times> db_disk" where
  "bootstrap_settings_db = bootstrap_db ''Settings & Control DB'' settings_script"

definition bootstrap_memory_db :: "(string \<Rightarrow> bool) \<Rightarrow> string \<Rightarrow> db_disk \<Rightarrow> database_status \<times> db_disk" where
  "bootstrap_memory_db = bootstrap_db ''Memory DB'' memory_script"

definition bootstrap_symbols_db :: "(string \<Rightarrow> bool) \<Rightarrow> string \<Rightarrow> db_disk \<Rightarrow> database_status \<times> db_disk" where
  "bootstrap_symbols_db = bootstrap_db ''Symbols DB'' symbols_script"

definition ensure_all_databases_ready :: "(string \<Rightarrow> bool) \<Rightarrow> path_service \<Rightarrow> db_disk \<Rightarrow> bool \<times> db_disk" where
  "ensure_all_databases_ready can ps disk =
     (let (s0, disk0) = bootstrap_settings_db can (settings_db ps) disk;
          (s1, disk1) = bootstrap_memory_db can (memory_db ps) disk0;
          (s2, disk2) = bootstrap_symbols_db can (symbols_db ps) disk1
      in (dst_migrated s0 \<and> dst_migrated s1 \<and> dst_migrated s2, disk2))"

text \<open>Vacuuming changes no schema; it creates a file that is missing.\<close>

definition vacuum_databases :: "(string \<Rightarrow> bool) \<Rightarrow> path_service \<Rightarrow> db_disk \<Rightarrow> bool \<times> db_disk" where
  "vacuum_databases can ps disk =
     (let (ok0, disk0) = execute_sql can (settings_db ps) [] disk;
          (ok1, disk1) = execute_sql can (memory_db ps) [] disk0;
          (ok2, disk2) = execute_sql can (symbols_db ps) [] disk1
      in (ok0 \<and> ok1 \<and> ok2, disk2))"

text \<open>Removing the spilled sessions: everything below the directory goes, and errors are not reported.\<close>

definition purge_kv_cache :: "string \<Rightarrow> string list \<Rightarrow> bool \<times> string list" where
  "purge_kv_cache kv_dir files = (True, filter (\<lambda>f. \<not> starts_with (kv_dir @ ''/'') f) files)"

section \<open>The rows of the settings database\<close>

definition default_roles :: "role_binding list" where
  "default_roles = map (\<lambda>(role, mid). \<lparr>rb_role = role, rb_model_id = mid, rb_is_active = True, rb_updated_at = 1700000000000\<rparr>)
     [(''general'', ''llama-3_2-1b-instruct-abliterated_i1-q4_0''), (''coder'', ''deepseek-r1-distill-qwen-1_5b-q4_0''), (''compressor'', ''smollm2''),
      (''embedding'', ''nomic_embed''), (''image_gen'', ''sdxl_lightning_4step''), (''vision_sd'', ''sdxl_lightning_4step''), (''audio_stt'', ''whisper_turbo''),
      (''router'', ''modernbert_router'')]"

definition bootstrap_roles :: "role_binding list \<Rightarrow> role_binding list" where
  "bootstrap_roles rows = fold (upsert rb_role (\<lambda>old new. old)) default_roles rows"

definition provider_model_id :: "provider_model \<Rightarrow> string \<times> string" where
  "provider_model_id m = (pv_provider m, pv_model_name m)"

definition bootstrap_provider_models :: "provider_model list \<Rightarrow> provider_model list" where
  "bootstrap_provider_models rows = fold (upsert provider_model_id (\<lambda>old new. old)) seed_models rows"

text \<open>The tables of the router as the migration leaves them.\<close>

definition bootstrap_router :: "sqlite_router \<Rightarrow> sqlite_router" where
  "bootstrap_router r = r\<lparr>rt_models := bootstrap_provider_models (rt_models r), rt_seed_version := Some ''2''\<rparr>"

section \<open>The users of the files\<close>

definition store_script :: "ddl list" where
  "store_script =
     [Create_Table ''memories'' [''key'', ''id'', ''category'', ''value'', ''confidence'', ''updated_at'', ''embedding'', ''workspace_id'', ''session_id'', ''actor_scope'',
        ''visibility'', ''source_path'', ''source_type'', ''commit_hash'', ''importance'', ''access_count'', ''last_accessed_at'', ''expires_at'', ''supersedes_id'',
        ''contradicts_id'', ''status''],
      Create_Table ''sessions'' [''session_id'', ''turn_count'', ''updated_at''],
      Create_Table ''session_turns'' [''id'', ''session_id'', ''turn_index'', ''timestamp'', ''role'', ''content'', ''tool_name'', ''tool_args'', ''tool_result''],
      Create_Table ''consolidated_archives'' [''archive_id'', ''session_id'', ''summary'', ''extracted_facts'', ''created_at''],
      Create_Index ''idx_memories_workspace_status'' ''memories'' [''workspace_id'', ''status'']]"

definition store_migration :: "ddl list" where
  "store_migration =
     map (Add_Column ''memories'')
       [''embedding'', ''workspace_id'', ''session_id'', ''actor_scope'', ''visibility'', ''source_path'', ''source_type'', ''commit_hash'', ''importance'',
        ''access_count'', ''last_accessed_at'', ''expires_at'', ''supersedes_id'', ''contradicts_id'', ''status''] @
     [Create_Index ''idx_memories_workspace_status'' ''memories'' [''workspace_id'', ''status'']]"

definition store_create_tables :: "schema \<Rightarrow> bool \<times> schema" where
  "store_create_tables db =
     (let (ok, db1) = exec_script store_script db in if \<not> ok then (False, db1) else (True, fold try_ddl store_migration db1))"

definition store_init :: "(string \<Rightarrow> bool) \<Rightarrow> string \<Rightarrow> db_disk \<Rightarrow> bool \<times> db_disk" where
  "store_init can path disk =
     (if \<not> can path then (False, disk)
      else let (ok, db) = store_create_tables (case disk path of None \<Rightarrow> empty_schema | Some db \<Rightarrow> db) in (ok, disk(path \<mapsto> db)))"

definition symbol_index_script :: "ddl list" where
  "symbol_index_script =
     [Create_Table ''code_symbols'' [''id'', ''file_path'', ''symbol'', ''parent_symbol'', ''language'', ''start_line'', ''end_line'', ''source_hash'', ''content''],
      Create_Index ''idx_sym_file'' ''code_symbols'' [''file_path''],
      Create_Index ''idx_sym_name'' ''code_symbols'' [''symbol'']]"

section \<open>Statistics of the control panel\<close>

text \<open>The number of rows of every table of a file is \<open>rows\<close>; a statement on a missing table cannot be prepared.\<close>

definition count_table_rows :: "(string \<Rightarrow> bool) \<Rightarrow> (string \<Rightarrow> string \<Rightarrow> nat) \<Rightarrow> db_disk \<Rightarrow> string \<Rightarrow> string \<Rightarrow> nat" where
  "count_table_rows can rows disk path tbl =
     (case disk path of
        None \<Rightarrow> 0
      | Some db \<Rightarrow> if can path \<and> map_of (sch_tables db) tbl \<noteq> None then rows path tbl else 0)"

definition system_stats :: "(string \<Rightarrow> bool) \<Rightarrow> (string \<Rightarrow> string \<Rightarrow> nat) \<Rightarrow> path_service \<Rightarrow> db_disk \<Rightarrow> (string \<times> nat) list" where
  "system_stats can rows ps disk =
     [(''settings_rows'', count_table_rows can rows disk (settings_db ps) ''system_settings''),
      (''registered_models'', count_table_rows can rows disk (settings_db ps) ''local_models''),
      (''role_bindings'', count_table_rows can rows disk (settings_db ps) ''role_bindings''),
      (''memory_records'', count_table_rows can rows disk (memory_db ps) ''persistent_memory''),
      (''indexed_symbols'', count_table_rows can rows disk (symbols_db ps) ''symbol_index'')]"

section \<open>The memory database\<close>

lemma exec_script_append:
  "exec_script (ds @ es) db = (let (ok, db1) = exec_script ds db in if ok then exec_script es db1 else (False, db1))"
  by (induction ds arbitrary: db) (auto simp: Let_def split: option.split)

text \<open>A memory database without the columns of scopes, or without memories at all.\<close>

definition lacks_scopes :: "schema \<Rightarrow> bool" where
  "lacks_scopes db \<longleftrightarrow> (case map_of (sch_tables db) ''memories'' of None \<Rightarrow> True | Some cs \<Rightarrow> ''workspace_id'' \<notin> set cs) \<and>
     ''idx_memories_workspace_status'' \<notin> set (sch_indexes db)"

definition old_memories :: "schema \<Rightarrow> bool" where
  "old_memories db \<longleftrightarrow> lacks_scopes db \<and> map_of (sch_tables db) ''memories'' \<noteq> None"

text \<open>Statements that leave the memories of such a database alone.\<close>

fun spares_memories :: "ddl \<Rightarrow> bool" where
  "spares_memories (Create_Table t cs) \<longleftrightarrow> True"
| "spares_memories (Create_Index i t cs) \<longleftrightarrow> i \<noteq> ''idx_memories_workspace_status''"
| "spares_memories (Add_Column t c) \<longleftrightarrow> False"

lemma run_ddl_old: "old_memories db \<Longrightarrow> spares_memories d \<Longrightarrow> run_ddl d db = Some db' \<Longrightarrow> old_memories db'"
  by (cases d) (auto simp: old_memories_def lacks_scopes_def map_add_def split: if_splits option.splits)

lemma exec_script_old: "old_memories db \<Longrightarrow> list_all spares_memories ds \<Longrightarrow> old_memories (snd (exec_script ds db))"
proof (induction ds arbitrary: db)
  case (Cons d ds)
  then show ?case using run_ddl_old [OF Cons.prems(1)] by (auto split: option.split)
qed simp

lemma memory_script_old:
  assumes "lacks_scopes db"
  shows "old_memories (snd (exec_script memory_script db))"
proof -
  let ?cs = "[''key'', ''id'', ''category'', ''value'', ''confidence'', ''updated_at'']"
  obtain db1 ds where d: "memory_script = Create_Table ''memories'' ?cs # ds" "list_all spares_memories ds" "run_ddl (Create_Table ''memories'' ?cs) db = Some db1"
    by (simp add: memory_script_def)
  have "old_memories db1" using assms d(3) by (auto simp: old_memories_def lacks_scopes_def map_add_def split: if_splits option.splits)
  then show ?thesis unfolding d(1) exec_script.simps d(3) option.case by (rule exec_script_old [OF _ d(2)])
qed

lemma store_script_old:
  assumes "old_memories db"
  shows "fst (store_create_tables db) = False" and "old_memories (snd (store_create_tables db))"
proof -
  obtain ds where ds: "store_script = ds @ [Create_Index ''idx_memories_workspace_status'' ''memories'' [''workspace_id'', ''status'']]" "list_all spares_memories ds"
    by (simp add: store_script_def)
  obtain ok db1 where e: "exec_script ds db = (ok, db1)" by (cases "exec_script ds db")
  then have o: "old_memories db1" using exec_script_old [OF assms ds(2)] by simp
  then have "run_ddl (Create_Index ''idx_memories_workspace_status'' ''memories'' [''workspace_id'', ''status'']) db1 = None"
    by (auto simp: old_memories_def lacks_scopes_def)
  then show "fst (store_create_tables db) = False" "old_memories (snd (store_create_tables db))"
    using o e by (auto simp: store_create_tables_def ds(1) exec_script_append)
qed

lemma paths_differ: "memory_db ps \<noteq> settings_db ps" "memory_db ps \<noteq> symbols_db ps" "settings_db ps \<noteq> symbols_db ps"
  by (simp_all add: memory_db_def settings_db_def symbols_db_def)

definition file_lacks_scopes :: "db_disk \<Rightarrow> string \<Rightarrow> bool" where
  "file_lacks_scopes disk path \<longleftrightarrow> lacks_scopes (case disk path of None \<Rightarrow> empty_schema | Some db \<Rightarrow> db)"

lemma execute_sql_elsewhere: "path' \<noteq> path \<Longrightarrow> snd (execute_sql can path script disk) path' = disk path'"
  by (simp add: execute_sql_def split_beta)

lemma ensure_memory:
  assumes "can (memory_db ps)"
  shows "snd (ensure_all_databases_ready can ps disk) (memory_db ps) =
    Some (snd (exec_script memory_script (case disk (memory_db ps) of None \<Rightarrow> empty_schema | Some db \<Rightarrow> db)))"
proof -
  have "snd (execute_sql can (memory_db ps) memory_script d) (memory_db ps) =
      Some (snd (exec_script memory_script (case d (memory_db ps) of None \<Rightarrow> empty_schema | Some db \<Rightarrow> db)))" for d
    using assms by (simp add: execute_sql_def split_beta)
  then show ?thesis using paths_differ [of ps]
    by (simp add: ensure_all_databases_ready_def bootstrap_settings_db_def bootstrap_memory_db_def bootstrap_symbols_db_def bootstrap_db_def split_beta
        execute_sql_elsewhere)
qed

text \<open>A start of the server: the migration, then the opening of the memory store.\<close>

definition start_memory :: "(string \<Rightarrow> bool) \<Rightarrow> path_service \<Rightarrow> db_disk \<Rightarrow> bool \<times> db_disk" where
  "start_memory can ps disk = store_init can (memory_db ps) (snd (ensure_all_databases_ready can ps disk))"

lemma start_memory_fails:
  assumes "can (memory_db ps)" and "file_lacks_scopes disk (memory_db ps)"
  shows "\<not> fst (start_memory can ps disk)" and "file_lacks_scopes (snd (start_memory can ps disk)) (memory_db ps)"
proof -
  have o: "old_memories (snd (exec_script memory_script (case disk (memory_db ps) of None \<Rightarrow> empty_schema | Some db \<Rightarrow> db)))"
    using memory_script_old assms(2) by (simp add: file_lacks_scopes_def)
  note s = store_script_old [OF o]
  show "\<not> fst (start_memory can ps disk)" "file_lacks_scopes (snd (start_memory can ps disk)) (memory_db ps)"
    using assms(1) s by (simp_all add: start_memory_def store_init_def ensure_memory split_beta file_lacks_scopes_def old_memories_def)
qed

text \<open>
  C33. The memory store never opens: on a new installation the migration creates the table of memories without the columns of the scopes before the store sees the
  file; the store's script then fails at its index on these columns and returns before the statements that would add them. The same holds for every later start, and
  for a file with the old table, for which those statements were written.
\<close>

theorem memory_store_never_opens:
  assumes "can (memory_db ps)" and "file_lacks_scopes disk (memory_db ps)"
  shows "fst (start_memory can ps (((snd \<circ> start_memory can ps) ^^ n) disk)) = False"
proof -
  have "file_lacks_scopes (((snd \<circ> start_memory can ps) ^^ n) disk) (memory_db ps)"
    by (induction n) (simp_all add: assms start_memory_fails(2))
  from start_memory_fails(1) [of can ps, OF assms(1) this] show ?thesis by simp
qed

text \<open>Without the migration the store opens on a new file, and the migration then leaves its table alone, so that it opens again.\<close>

lemma store_alone_opens:
  "fst (exec_script store_script empty_schema)"
  "fst (exec_script store_script (snd (exec_script memory_script (snd (exec_script store_script empty_schema)))))"
  by (simp_all add: store_script_def memory_script_def empty_schema_def)

text \<open>The index of symbols agrees with the migration.\<close>

lemma symbols_agree: "fst (exec_script symbol_index_script (snd (exec_script symbols_script empty_schema)))"
  by code_simp

section \<open>Rows survive the migration\<close>

interpretation role_rows: keyed_table rb_role "\<lambda>old new. old"
  by unfold_locales simp

interpretation provider_rows: keyed_table provider_model_id "\<lambda>old new. old"
  by unfold_locales simp

context keyed_table
begin

text \<open>Inserting rows and ignoring those whose key is there: the rows that were there stay, and every key of the new rows is there.\<close>

lemma find_insert_ignore:
  assumes "\<And>old new. merge old new = old"
  shows "find (\<lambda>r. key r = k) (fold (upsert key merge) new rows) =
    (case find (\<lambda>r. key r = k) rows of Some r \<Rightarrow> Some r | None \<Rightarrow> find (\<lambda>r. key r = k) new)"
proof (induction new arbitrary: rows)
  case (Cons r new)
  show ?case unfolding fold_simps Cons.IH find_upsert by (auto simp: assms split: option.split)
qed (simp split: option.split)

end

lemma bootstrap_find:
  "find (\<lambda>r. row_id r = i) (bootstrap_settings rows) =
     (case find (\<lambda>r. row_id r = i) rows of Some r \<Rightarrow> Some r | None \<Rightarrow> find (\<lambda>r. row_id r = i) default_settings)"
  "find (\<lambda>r. rb_role r = role) (bootstrap_roles roles) =
     (case find (\<lambda>r. rb_role r = role) roles of Some r \<Rightarrow> Some r | None \<Rightarrow> find (\<lambda>r. rb_role r = role) default_roles)"
  "find (\<lambda>m. provider_model_id m = j) (bootstrap_provider_models models) =
     (case find (\<lambda>m. provider_model_id m = j) models of Some m \<Rightarrow> Some m | None \<Rightarrow> find (\<lambda>m. provider_model_id m = j) seed_models)"
  unfolding bootstrap_settings_def bootstrap_roles_def bootstrap_provider_models_def
  by (rule seeded_rows.find_insert_ignore role_rows.find_insert_ignore provider_rows.find_insert_ignore; simp)+

text \<open>
  The migration keeps what a user has set: a setting, a role binding or a provider model that is there stays as it is, a missing one gets its default, and
  migrating again changes nothing that can be looked up.
\<close>

theorem migration_keeps_rows:
  "settings_map (bootstrap_settings rows) i = (case settings_map rows i of Some v \<Rightarrow> Some v | None \<Rightarrow> settings_map default_settings i)"
  "settings_map (bootstrap_settings (bootstrap_settings rows)) = settings_map (bootstrap_settings rows)"
  by (auto simp: settings_map_def bootstrap_find fun_eq_iff split: option.split)

text \<open>
  The upgrade of the provider models never runs in the server: the migration writes the current seed version before the router looks at it, so that outdated models
  stay.
\<close>

theorem seed_upgrade_never_runs: "seed_default_models ok (bootstrap_router r) = Some (bootstrap_router r)"
proof -
  have "stoi ''2'' = Some 2" by code_simp
  then show ?thesis by (simp add: seed_default_models_def bootstrap_router_def)
qed

section \<open>Statistics without tables\<close>

lemma exec_script_tables:
  "map_of (sch_tables db) t = None \<Longrightarrow> list_all (\<lambda>d. case d of Create_Table t' cs \<Rightarrow> t' \<noteq> t | Create_Index i t' cs \<Rightarrow> True | Add_Column t' c \<Rightarrow> False) ds \<Longrightarrow>
   map_of (sch_tables (snd (exec_script ds db))) t = None"
proof (induction ds arbitrary: db)
  case (Cons d ds)
  have "map_of (sch_tables db') t = None" if "run_ddl d db = Some db'" for db'
    using Cons.prems that by (cases d) (auto simp: map_add_def split: if_splits option.splits)
  then show ?case using Cons by (auto split: option.split)
qed simp

text \<open>The panel counts the rows of tables that no script creates: on a new installation three of its five numbers are zero whatever the databases hold.\<close>

theorem panel_statistics_blind:
  assumes "disk = snd (ensure_all_databases_ready can ps Map.empty)"
  shows "map_of (system_stats can rows ps disk) ''role_bindings'' = Some 0 \<and> map_of (system_stats can rows ps disk) ''memory_records'' = Some 0 \<and>
    map_of (system_stats can rows ps disk) ''indexed_symbols'' = Some 0"
proof -
  have e: "map_of (sch_tables (snd (exec_script settings_script empty_schema))) ''role_bindings'' = None"
    "map_of (sch_tables (snd (exec_script memory_script empty_schema))) ''persistent_memory'' = None"
    "map_of (sch_tables (snd (exec_script symbols_script empty_schema))) ''symbol_index'' = None"
    by (rule exec_script_tables; simp add: empty_schema_def settings_script_def memory_script_def symbols_script_def)+
  show ?thesis using e paths_differ [of ps] unfolding assms
    by (auto simp: system_stats_def count_table_rows_def ensure_all_databases_ready_def bootstrap_settings_db_def bootstrap_memory_db_def bootstrap_symbols_db_def
        bootstrap_db_def execute_sql_def split_beta split: option.split)
qed

section \<open>Examples\<close>

theorem memory_store_never_opens_witness:
  "fst (start_memory (\<lambda>p. True) (new_path_service demo_os) (((snd \<circ> start_memory (\<lambda>p. True) (new_path_service demo_os)) ^^ 2) Map.empty)) = False"
  using memory_store_never_opens [of "\<lambda>p. True" "new_path_service demo_os" Map.empty 2]
  by (simp add: file_lacks_scopes_def lacks_scopes_def empty_schema_def)

end
