(* ===== verification/Tray_Process.thy ===== *)
theory Tray_Process
  imports Control_Panel Databases
begin

text \<open>
  The supervisor of the desktop application: the engine process it starts and stops (\<open>tray/tray_process.cpp\<close>), the lock that keeps a second supervisor away
  (\<open>tray/tray_app.cpp\<close>), the filter in front of the control panel (\<open>tray/tray_server.cpp\<close>) and the number of spilled sessions it shows
  (\<open>tray/tray_routes_system.cpp\<close>).

  The operating system is part of the state: the living children and the exited ones that have not been waited for. \<open>fork\<close> answers with an argument, a negative
  number when it fails and the identifier of the new process otherwise; \<open>exits\<close> tells before which poll the child ends. Every method locks the mutex, but
  \<open>start\<close> does so twice, once inside \<open>is_running\<close> and once for the rest: the two halves are separate steps of a thread. What the child does after
  \<open>fork\<close>, the menus and the drawing of the icon are not modelled.
\<close>

section \<open>The engine process\<close>

record tray =
  tp_child_pid :: int
  tp_start_time :: int
  os_alive :: "int list"
  os_zombies :: "int list"

definition new_tray :: tray where
  "new_tray = \<lparr>tp_child_pid = -1, tp_start_time = 0, os_alive = [], os_zombies = []\<rparr>"

definition waitpid_nohang :: "int \<Rightarrow> tray \<Rightarrow> int \<times> tray" where
  "waitpid_nohang pid t =
     (if List.member (os_alive t) pid then (0, t)
      else if List.member (os_zombies t) pid then (pid, t\<lparr>os_zombies := remove1 pid (os_zombies t)\<rparr>)
      else (-1, t))"

definition child_exits :: "int \<Rightarrow> tray \<Rightarrow> tray" where
  "child_exits pid t =
     (if List.member (os_alive t) pid then t\<lparr>os_alive := remove1 pid (os_alive t), os_zombies := pid # os_zombies t\<rparr> else t)"

definition is_running :: "tray \<Rightarrow> bool \<times> tray" where
  "is_running t =
     (if tp_child_pid t \<le> 0 then (False, t)
      else let (res, t1) = waitpid_nohang (tp_child_pid t) t in if res = 0 then (True, t1) else (False, t1\<lparr>tp_child_pid := -1\<rparr>))"

definition get_uptime_seconds :: "int \<Rightarrow> tray \<Rightarrow> int" where
  "get_uptime_seconds now_ms t = (if tp_child_pid t \<le> 0 then 0 else (now_ms - tp_start_time t) div 1000)"

text \<open>The part of \<open>start\<close> behind the second lock.\<close>

definition fork_engine :: "int \<Rightarrow> int \<Rightarrow> tray \<Rightarrow> bool \<times> tray" where
  "fork_engine pid now t =
     (if pid < 0 then (False, t) else (True, t\<lparr>tp_child_pid := pid, tp_start_time := now, os_alive := pid # os_alive t\<rparr>))"

definition start_engine :: "int \<Rightarrow> int \<Rightarrow> tray \<Rightarrow> bool \<times> tray" where
  "start_engine pid now t = (let (running, t1) = is_running t in if running then (True, t1) else fork_engine pid now t1)"

fun poll_exit :: "(nat \<Rightarrow> bool) \<Rightarrow> int \<Rightarrow> nat list \<Rightarrow> tray \<Rightarrow> bool \<times> tray" where
  "poll_exit exits pid [] t = (False, t)"
| "poll_exit exits pid (i # is) t =
     (let (res, t1) = waitpid_nohang pid (if exits i then child_exits pid t else t)
      in if res \<noteq> 0 then (True, t1) else poll_exit exits pid is t1)"

text \<open>After \<open>SIGKILL\<close> the blocking wait returns with the child gone.\<close>

definition kill_and_reap :: "int \<Rightarrow> tray \<Rightarrow> tray" where
  "kill_and_reap pid t = t\<lparr>os_alive := remove1 pid (os_alive t), os_zombies := remove1 pid (os_zombies t)\<rparr>"

definition stop_engine :: "(nat \<Rightarrow> bool) \<Rightarrow> tray \<Rightarrow> bool \<times> tray" where
  "stop_engine exits t =
     (if tp_child_pid t \<le> 0 then (True, t)
      else let pid = tp_child_pid t; (terminated, t1) = poll_exit exits pid [0..<30] t; t2 = (if terminated then t1 else kill_and_reap pid t1)
           in (True, t2\<lparr>tp_child_pid := -1\<rparr>))"

definition restart_engine :: "(nat \<Rightarrow> bool) \<Rightarrow> int \<Rightarrow> int \<Rightarrow> tray \<Rightarrow> bool \<times> tray" where
  "restart_engine exits pid now t = start_engine pid now (snd (stop_engine exits t))"

definition push_line :: "nat \<Rightarrow> string \<Rightarrow> string list \<Rightarrow> string list" where
  "push_line max_lines line buffer = (let b = buffer @ [line] in if length b > max_lines then tl b else b)"

definition get_recent_logs :: "(string \<Rightarrow> string option) \<Rightarrow> string \<Rightarrow> nat \<Rightarrow> string list" where
  "get_recent_logs disk base_dir max_lines =
     (case disk (base_dir @ ''/denselite.log'') of
        None \<Rightarrow> []
      | Some contents \<Rightarrow> fold (push_line max_lines) (get_lines [] contents) [])"

section \<open>One supervisor\<close>

text \<open>\<open>in >> pid\<close>: 0 without digits, the nearest 32-bit number when there are too many.\<close>

definition stream_pid :: "string \<Rightarrow> int" where
  "stream_pid s =
     (let s1 = dropWhile isspace s;
          neg = (s1 \<noteq> [] \<and> hd s1 = CHR ''-'');
          s2 = (if s1 \<noteq> [] \<and> (hd s1 = CHR ''-'' \<or> hd s1 = CHR ''+'') then tl s1 else s1);
          n = int (fst (read_digits 0 s2))
      in if s2 = [] \<or> \<not> isdigit (hd s2) then 0 else if neg then max (- (2 ^ 31)) (- n) else min (2 ^ 31 - 1) n)"

definition check_single_instance :: "(int \<Rightarrow> bool) \<Rightarrow> int \<Rightarrow> string option \<Rightarrow> bool \<times> string option" where
  "check_single_instance process_exists own_pid lock =
     (case lock of
        Some contents \<Rightarrow>
          (let pid = stream_pid contents in if pid > 0 \<and> process_exists pid then (False, lock) else (True, Some (int_digits own_pid)))
      | None \<Rightarrow> (True, Some (int_digits own_pid)))"

definition tray_quit :: "(nat \<Rightarrow> bool) \<Rightarrow> tray \<times> string option \<Rightarrow> tray \<times> string option" where
  "tray_quit exits st = (snd (stop_engine exits (fst st)), None)"

section \<open>The control panel's filter\<close>

definition pre_routing :: "string \<Rightarrow> string \<Rightarrow> int option" where
  "pre_routing req_method origin =
     (if req_method = ''OPTIONS'' then Some 204
      else if origin \<noteq> [] \<and> \<not> contains origin ''127.0.0.1'' \<and> \<not> contains origin ''localhost'' then Some 403
      else None)"

definition get_active_kv_count :: "set_env \<Rightarrow> (string \<Rightarrow> string list option) \<Rightarrow> (settings_manager, nat) state" where
  "get_active_kv_count X list_dir = do {
     cfg \<leftarrow> get_storage_config X;
     State_Monad.return (case list_dir (expand_user (se_os X) (sc_kv_cache_dir cfg)) of
        None \<Rightarrow> 0
      | Some entries \<Rightarrow> length (filter (\<lambda>e. extension_of (filename_of e) = ''.kv'') entries))
   }"

section \<open>Calls one after the other\<close>

text \<open>At most one child, and the supervisor knows it.\<close>

definition single :: "tray \<Rightarrow> bool" where
  "single t \<longleftrightarrow> os_alive t @ os_zombies t = [] \<or> 0 < tp_child_pid t \<and> os_alive t @ os_zombies t = [tp_child_pid t]"

definition fresh_pid :: "int \<Rightarrow> tray \<Rightarrow> bool" where
  "fresh_pid pid t \<longleftrightarrow> pid < 0 \<or> 0 < pid \<and> pid \<notin> set (os_alive t @ os_zombies t)"

inductive serial_step :: "tray \<Rightarrow> tray \<Rightarrow> bool" where
  query: "serial_step t (snd (is_running t))"
| start: "fresh_pid pid t \<Longrightarrow> serial_step t (snd (start_engine pid now t))"
| stop: "serial_step t (snd (stop_engine exits t))"
| restart: "fresh_pid pid t \<Longrightarrow> serial_step t (snd (restart_engine exits pid now t))"
| exits: "serial_step t (child_exits pid t)"

lemma append_single: "xs @ ys = [x] \<longleftrightarrow> xs = [x] \<and> ys = [] \<or> xs = [] \<and> ys = [x]"
  by (auto simp: append_eq_Cons_conv)

lemma child_exits_single: "single t \<Longrightarrow> single (child_exits pid t)"
  by (auto simp: single_def child_exits_def append_single)

lemma is_running_single:
  assumes "single t"
  shows "single (snd (is_running t))" and "\<not> fst (is_running t) \<Longrightarrow> os_alive (snd (is_running t)) = [] \<and> os_zombies (snd (is_running t)) = []"
    and "set (os_alive (snd (is_running t)) @ os_zombies (snd (is_running t))) \<subseteq> set (os_alive t @ os_zombies t)"
  using assms by (auto simp: single_def is_running_def waitpid_nohang_def append_single split: if_splits)

lemma poll_exit_single:
  assumes "single t" and "tp_child_pid t = pid" and "poll_exit exits pid is t = (ended, t1)"
  shows "single t1 \<and> tp_child_pid t1 = pid \<and> (ended \<longrightarrow> os_alive t1 = [] \<and> os_zombies t1 = [])"
  using assms
proof (induction "is" arbitrary: t)
  case (Cons i "is")
  let ?t = "if exits i then child_exits pid t else t"
  have s: "single ?t" "tp_child_pid ?t = pid" using Cons.prems child_exits_single by (auto simp: child_exits_def)
  obtain res t2 where w: "waitpid_nohang pid ?t = (res, t2)" by fastforce
  then have t2: "single t2" "tp_child_pid t2 = pid" "res \<noteq> 0 \<Longrightarrow> os_alive t2 = [] \<and> os_zombies t2 = []"
    using s by (auto simp: waitpid_nohang_def single_def append_single split: if_splits)
  show ?case using Cons.IH [OF t2(1,2)] Cons.prems(3) t2 w by (auto split: if_splits)
qed auto

lemma stop_engine_single:
  assumes "single t"
  shows "os_alive (snd (stop_engine exits t)) = []" and "os_zombies (snd (stop_engine exits t)) = []"
proof -
  obtain ok t1 where p: "poll_exit exits (tp_child_pid t) [0..<30] t = (ok, t1)" by fastforce
  note s = poll_exit_single [OF assms refl p]
  show "os_alive (snd (stop_engine exits t)) = []" "os_zombies (snd (stop_engine exits t)) = []"
    using assms s p by (auto simp: stop_engine_def kill_and_reap_def single_def append_single simp del: upt.simps upt_rec_numeral)
qed

lemma start_engine_single:
  assumes "single t" and "fresh_pid pid t"
  shows "single (snd (start_engine pid now t))"
proof (cases "fst (is_running t)")
  case True
  then show ?thesis using is_running_single(1) [OF assms(1)] by (simp add: start_engine_def split_beta)
next
  case False
  then show ?thesis using is_running_single(2) [OF assms(1)] assms(2)
    by (auto simp: start_engine_def split_beta fork_engine_def single_def fresh_pid_def)
qed

text \<open>
  C35. As long as the calls on the supervisor come one after the other, it has at most one engine process, living or not waited for, and this is the one it knows,
  whatever the processes do in between.
\<close>

theorem serial_single_engine:
  assumes "serial_step\<^sup>*\<^sup>* new_tray t"
  shows "length (os_alive t @ os_zombies t) \<le> 1 \<and> (\<forall>pid \<in> set (os_alive t @ os_zombies t). pid = tp_child_pid t)"
proof -
  have "single t" using assms
  proof (induction rule: rtranclp_induct)
    case base
    show ?case by (simp add: single_def new_tray_def)
  next
    case (step t t')
    have r: "single (snd (restart_engine exits pid now t))" if "fresh_pid pid t" for exits pid now
      unfolding restart_engine_def
      by (rule start_engine_single) (use stop_engine_single [OF step.IH] that in \<open>auto simp: single_def fresh_pid_def\<close>)
    have "single (snd (stop_engine exits t))" for exits using stop_engine_single [OF step.IH] by (simp add: single_def)
    with step.hyps(2) step.IH r show ?case by cases (auto intro: is_running_single(1) start_engine_single child_exits_single)
  qed
  then show ?thesis by (auto simp: single_def append_single)
qed

section \<open>Calls at the same time\<close>

text \<open>Calls of several threads, by the sections they hold the mutex for; the number counts the calls of \<open>start\<close> that have found nothing running.\<close>

inductive panel_step :: "tray \<times> nat \<Rightarrow> tray \<times> nat \<Rightarrow> bool" where
  found_running: "is_running t = (r, t') \<Longrightarrow> panel_step (t, n) (t', n)"
| found_nothing: "is_running t = (False, t') \<Longrightarrow> panel_step (t, n) (t', Suc n)"
| fork: "fresh_pid pid t \<Longrightarrow> panel_step (t, Suc n) (snd (fork_engine pid now t), n)"
| stop: "panel_step (t, n) (snd (stop_engine exits t), n)"
| exits: "panel_step (t, n) (child_exits pid t, n)"

text \<open>
  C36. Two calls of \<open>start\<close> at the same time leave an engine nobody stops: both find nothing running, both fork, and after the next \<open>stop\<close> the supervisor reports
  that nothing runs while the first process lives on.
\<close>

theorem concurrent_starts_orphan:
  assumes "0 < p" and "0 < q" and "p \<noteq> q"
  shows "\<exists>t. panel_step\<^sup>*\<^sup>* (new_tray, 0) (t, 0) \<and> os_alive t = [q, p] \<and>
    os_alive (snd (stop_engine exits t)) = [p] \<and> \<not> fst (is_running (snd (stop_engine exits t)))"
proof -
  let ?t1 = "new_tray\<lparr>tp_child_pid := p, tp_start_time := 0, os_alive := [p]\<rparr>" and ?t = "new_tray\<lparr>tp_child_pid := q, tp_start_time := 0, os_alive := [q, p]\<rparr>"
  have c: "panel_step (new_tray, n) (new_tray, Suc n)" for n by (rule found_nothing) (simp add: is_running_def new_tray_def)
  have f1: "panel_step (new_tray, Suc 1) (?t1, 1)"
    using panel_step.fork [of p new_tray 1 0] assms by (simp add: fresh_pid_def new_tray_def fork_engine_def)
  have f2: "panel_step (?t1, Suc 0) (?t, 0)"
    using panel_step.fork [of q ?t1 0 0] assms by (simp add: fresh_pid_def new_tray_def fork_engine_def)
  have steps: "panel_step\<^sup>*\<^sup>* (new_tray, 0) (?t, 0)"
    using c [of 0] c [of 1] f1 f2 by (metis One_nat_def converse_rtranclp_into_rtranclp rtranclp.rtrancl_refl)
  have polls: "fst (poll_exit exits q is t) \<longrightarrow> os_alive (snd (poll_exit exits q is t)) = [p]"
    "\<not> fst (poll_exit exits q is t) \<longrightarrow> os_alive (snd (poll_exit exits q is t)) = [q, p]" if "os_alive t = [q, p]" for "is" t
    using that
  proof (induction "is" arbitrary: t)
    case (Cons i "is")
    { case 1 then show ?case using Cons.IH(1) assms(2,3) by (auto simp: waitpid_nohang_def child_exits_def Let_def split: if_splits) }
    { case 2 then show ?case using Cons.IH(2) assms(2,3) by (auto simp: waitpid_nohang_def child_exits_def Let_def split: if_splits) }
  qed simp_all
  have "os_alive (snd (stop_engine exits ?t)) = [p] \<and> \<not> fst (is_running (snd (stop_engine exits ?t)))"
    using polls [of ?t "[0..<30]"] assms(2)
    by (simp add: stop_engine_def split_beta kill_and_reap_def is_running_def new_tray_def del: upt.simps upt_rec_numeral)
  then show ?thesis using steps by (intro exI [of _ ?t]) simp
qed

section \<open>Logs, lock and filter\<close>

text \<open>The recent lines are the last lines of the log.\<close>

lemma push_lines:
  assumes "length buffer \<le> n"
  shows "fold (push_line n) lines buffer = drop (length (buffer @ lines) - n) (buffer @ lines)"
  using assms
proof (induction lines arbitrary: buffer)
  case (Cons l lines)
  have p: "length (push_line n l buffer) \<le> n" using Cons.prems by (auto simp: push_line_def Let_def)
  show ?case
  proof (cases "length buffer = n")
    case True
    then have "push_line n l buffer = tl (buffer @ [l])" by (simp add: push_line_def)
    then show ?thesis using Cons.IH [OF p] True [symmetric] by (cases buffer) (simp_all add: drop_Suc)
  next
    case False
    then show ?thesis using Cons.IH [OF p] Cons.prems by (simp add: push_line_def)
  qed
qed simp

theorem recent_logs_are_last:
  "disk (base_dir @ ''/denselite.log'') = Some contents \<Longrightarrow>
   get_recent_logs disk base_dir n = drop (length (get_lines [] contents) - n) (get_lines [] contents)"
  by (simp add: get_recent_logs_def push_lines)

lemma stream_pid_digits: "0 \<le> i \<Longrightarrow> i < 2 ^ 31 \<Longrightarrow> stream_pid (int_digits i) = i"
proof -
  assume i: "0 \<le> i" "i < 2 ^ 31"
  have "dropWhile isspace (nat_digits (nat i)) = nat_digits (nat i)"
    by (rule dropWhile_keep) (use hd_nat_digits [of "nat i"] isdigit_plain in blast)
  then show ?thesis using i hd_nat_digits [of "nat i"] isdigit_plain [OF hd_nat_digits [of "nat i"]]
    by (simp add: stream_pid_def int_digits_def Let_def read_digits_nat_digits)
qed

text \<open>While a supervisor lives, a second one gives up and leaves the lock alone.\<close>

theorem second_supervisor_gives_up:
  assumes "check_single_instance ex1 pid lock0 = (True, lock)" and "0 < pid" and "pid < 2 ^ 31" and "ex2 pid"
  shows "check_single_instance ex2 pid2 lock = (False, lock)"
  using assms stream_pid_digits [of pid] by (auto simp: check_single_instance_def Let_def split: option.splits if_splits)

text \<open>Any origin that contains the local address passes the filter, wherever it is.\<close>

theorem lookalike_origin_passes: "m \<noteq> ''OPTIONS'' \<Longrightarrow> pre_routing m (a @ ''127.0.0.1'' @ b) = None"
  using str_find_append [of "''127.0.0.1''" a b] by (simp add: pre_routing_def contains_def)

section \<open>Examples\<close>

theorem concurrent_starts_orphan_witness:
  "\<exists>t. panel_step\<^sup>*\<^sup>* (new_tray, 0) (t, 0) \<and> os_alive t = [8, 7] \<and> os_alive (snd (stop_engine (\<lambda>i. i = 3) t)) = [7] \<and>
     \<not> fst (is_running (snd (stop_engine (\<lambda>i. i = 3) t)))"
  by (rule concurrent_starts_orphan) simp_all

theorem serial_single_engine_witness:
  "length (os_alive (snd (start_engine 7 0 new_tray)) @ os_zombies (snd (start_engine 7 0 new_tray))) \<le> 1"
proof -
  have "serial_step new_tray (snd (start_engine 7 0 new_tray))" by (rule serial_step.start) (simp add: fresh_pid_def new_tray_def)
  from serial_single_engine [OF r_into_rtranclp [of serial_step, OF this]] show ?thesis by blast
qed

end
