(* ===== verification/Intent_Router.thy ===== *)
theory Intent_Router
  imports Decision_Engine Tokenizer_Model Json_Model Path_Service Request_Model Float_Order
begin

text \<open>
  The classifier of intents (\<open>routing/modernbert_router.cpp\<close>) and its facade (\<open>Router.cpp\<close>): the search for the model directory, the vocabulary and
  trie built from \<open>tokenizer.json\<close>, the token sequences that pair a query with each hypothesis, the ranking of the intents and the routing decision.

  The ONNX session is an argument: \<open>ie_logits\<close> gives the two logits for a sequence of token identifiers. What \<open>std::sort\<close> by descending probability makes of the
  scores is the argument \<open>ie_sort\<close>. Objects of JSON list their fields in the order of their keys.
\<close>

section \<open>State and surroundings\<close>

record bert_score =
  bs_label :: string
  bs_probability :: f32
  bs_entailment_logit :: f32
  bs_not_entailment_logit :: f32

record modernbert =
  mb_tokens :: "string list"
  mb_root :: trie_node
  mb_ready :: bool

definition new_modernbert :: modernbert where
  "new_modernbert = \<lparr>mb_tokens = [], mb_root = TrieNode (-1) [], mb_ready = False\<rparr>"

record intent_env =
  ie_os :: os_env
  ie_paths :: path_service
  ie_num :: num_ops
  ie_floats :: float_ops
  ie_read :: "string \<Rightarrow> string option"
  ie_parse :: "string \<Rightarrow> json option"
  ie_session_loads :: "string \<Rightarrow> bool"
  ie_logits :: "int list \<Rightarrow> f32 \<times> f32"
  ie_sort :: "bert_score list \<Rightarrow> bert_score list"

definition candidates :: "(string \<times> int list) list" where
  "candidates =
     [(''coding'', [1552, 2505, 310, 670, 4382, 10717, 285, 12425, 15, 50282]),
      (''image'', [1552, 2505, 310, 670, 2460, 5978, 13, 10263, 13, 390, 5304, 1445, 15, 50282]),
      (''audio'', [1552, 2505, 310, 670, 6519, 13, 9797, 9464, 13, 390, 3590, 7663, 15, 50282]),
      (''reasoning'', [1552, 2505, 310, 2087, 14720, 13, 2892, 13, 390, 7827, 15, 50282]),
      (''compressor'', [1552, 2505, 310, 24433, 2505, 10405, 1320, 390, 13800, 15, 50282])]"

section \<open>Initialisation\<close>

definition path_there :: "intent_env \<Rightarrow> string \<Rightarrow> bool" where
  "path_there V p \<longleftrightarrow> oe_exists (ie_os V) p = Some True"

definition effective_dir :: "intent_env \<Rightarrow> string \<Rightarrow> string" where
  "effective_dir V model_dir =
     (let tok = (\<lambda>d. d @ ''/tokenizer.json'');
          ps_dir = ps_models_dir (ie_paths V) @ ''/modernbert'';
          base_m = ps_base_dir (ie_paths V) @ ''/models/modernbert'';
          user_m = expand_user (ie_os V) ''~/.denselite/models/modernbert''
      in if model_dir \<noteq> [] \<and> path_there V (tok model_dir) then model_dir
         else if path_there V (tok ps_dir) then ps_dir
         else if path_there V (tok base_m) then base_m
         else if path_there V (tok user_m) then user_m
         else model_dir)"

text \<open>\<open>j[k]\<close> on a value that may be changed: a missing field is null, and null is taken for an empty object.\<close>

definition subscript :: "json \<Rightarrow> string \<Rightarrow> json option" where
  "subscript j k = (case j of JObject fs \<Rightarrow> Some (case map_of fs k of Some v \<Rightarrow> v | None \<Rightarrow> JNull) | JNull \<Rightarrow> Some JNull | _ \<Rightarrow> None)"

text \<open>Iteration over a JSON value; only the elements of an object have a key.\<close>

fun items :: "json \<Rightarrow> (string option \<times> json) list" where
  "items (JObject fs) = map (\<lambda>(k, v). (Some k, v)) fs"
| "items (JArray xs) = map (\<lambda>v. (None, v)) xs"
| "items JNull = []"
| "items j = [(None, j)]"

definition vocab_size :: nat where "vocab_size = 50285"

definition resize_tokens :: "string list \<Rightarrow> string list" where
  "resize_tokens ts = take vocab_size ts @ replicate (vocab_size - length ts) []"

text \<open>Filling the vocabulary; \<open>False\<close> when a conversion or the access to a key throws.\<close>

fun fill_tokens :: "num_ops \<Rightarrow> (string option \<times> json) list \<Rightarrow> string list \<Rightarrow> bool \<times> string list" where
  "fill_tokens N [] ts = (True, ts)"
| "fill_tokens N ((k, v) # rest) ts =
     (case get_int N v of
        None \<Rightarrow> (False, ts)
      | Some i \<Rightarrow>
          if 0 \<le> i \<and> i < int (length ts)
          then (case k of None \<Rightarrow> (False, ts) | Some key \<Rightarrow> fill_tokens N rest (ts[nat i := key]))
          else fill_tokens N rest ts)"

fun insert_tokens :: "nat \<Rightarrow> string list \<Rightarrow> trie_node \<Rightarrow> trie_node" where
  "insert_tokens i [] root = root"
| "insert_tokens i (s # ss) root = insert_tokens (Suc i) ss (if s = [] then root else trie_insert s (int i) root)"

definition initialize :: "intent_env \<Rightarrow> string \<Rightarrow> modernbert \<Rightarrow> bool \<times> modernbert" where
  "initialize V model_dir mb =
     (if mb_ready mb then (True, mb)
      else let dir = effective_dir V model_dir; tok_path = (if dir = [] then [] else dir @ ''/tokenizer.json'')
           in case ie_read V tok_path of
                None \<Rightarrow> (False, mb)
              | Some contents \<Rightarrow>
                  (case Option.bind (ie_parse V contents) (\<lambda>j. Option.bind (subscript j ''model'') (\<lambda>m. subscript m ''vocab'')) of
                     None \<Rightarrow> (False, mb)
                   | Some v \<Rightarrow>
                       (let (ok, ts) = fill_tokens (ie_num V) (items v) (resize_tokens (mb_tokens mb)); mb1 = mb\<lparr>mb_tokens := ts\<rparr>
                        in if \<not> ok then (False, mb1)
                           else let mb2 = mb1\<lparr>mb_root := insert_tokens 0 ts (mb_root mb)\<rparr>
                                in if ie_session_loads V (dir @ ''/model.onnx'') then (True, mb2\<lparr>mb_ready := True\<rparr>) else (False, mb2))))"

section \<open>Ranking and routing\<close>

definition query_tokens :: "modernbert \<Rightarrow> string \<Rightarrow> int list" where
  "query_tokens mb q = take 450 (encode_loop (mb_root mb) (bpe_text q))"

definition input_ids :: "modernbert \<Rightarrow> string \<Rightarrow> int list \<Rightarrow> int list" where
  "input_ids mb q hyp = [50281] @ query_tokens mb q @ [50282] @ hyp"

definition score_candidate :: "intent_env \<Rightarrow> modernbert \<Rightarrow> string \<Rightarrow> string \<times> int list \<Rightarrow> bert_score" where
  "score_candidate V mb q c =
     (let (l_ent, l_not) = ie_logits V (input_ids mb q (snd c)); F = ie_floats V;
          prob = f_div F f_one (f_add F f_one (f_exp F (f_sub F l_not l_ent)))
      in \<lparr>bs_label = fst c, bs_probability = prob, bs_entailment_logit = l_ent, bs_not_entailment_logit = l_not\<rparr>)"

definition rank_intents :: "intent_env \<Rightarrow> string \<Rightarrow> modernbert \<Rightarrow> bert_score list \<times> modernbert" where
  "rank_intents V q mb =
     (let (ok, mb1) = (if mb_ready mb then (True, mb) else initialize V [] mb)
      in if \<not> ok then ([], mb1) else (ie_sort V (map (score_candidate V mb1 q) candidates), mb1))"

record routing_decision =
  rd_intent :: string
  rd_domain :: string
  rd_complexity :: string
  rd_required_capabilities :: string

definition decision_for :: "string \<Rightarrow> string \<Rightarrow> routing_decision" where
  "decision_for intent q =
     \<lparr>rd_intent = intent,
      rd_domain = (if intent = ''coding'' then ''software'' else if intent = ''image'' \<or> intent = ''audio'' then ''creative'' else ''general''),
      rd_complexity = (if length q > 300 \<or> contains q ''```'' then ''high'' else ''low''),
      rd_required_capabilities = (if intent = ''coding'' then ''code_execution'' else ''none'')\<rparr>"

definition plain_decision :: "string \<Rightarrow> routing_decision" where
  "plain_decision intent = \<lparr>rd_intent = intent, rd_domain = ''general'', rd_complexity = ''low'', rd_required_capabilities = ''none''\<rparr>"

definition route :: "intent_env \<Rightarrow> string \<Rightarrow> modernbert \<Rightarrow> routing_decision \<times> modernbert" where
  "route V q mb =
     (if q = [] \<or> length q < 10 then (plain_decision ''reasoning'', mb)
      else let (scores, mb1) = rank_intents V q mb
           in (case scores of [] \<Rightarrow> plain_decision ''reasoning'' | best # rest \<Rightarrow> decision_for (bs_label best) q, mb1))"

definition analyze_request :: "intent_env \<Rightarrow> openai_request \<Rightarrow> modernbert \<Rightarrow> routing_decision \<times> modernbert" where
  "analyze_request V req mb =
     (let q = (if rq_messages req = [] then [] else msg_content (last (rq_messages req)));
          mb1 = (if mb_ready mb then mb else snd (initialize V [] mb))
      in if mb_ready mb1 then route V q mb1 else (plain_decision ''general'', mb1))"

section \<open>What the classifier is given\<close>

lemma encode_ids: "t \<in> set (encode_loop root s) \<Longrightarrow> \<exists>u. t = trie_lookup root u \<and> t \<noteq> -1"
proof (induction root s rule: encode_loop.induct)
  case (2 root c cs)
  obtain i l where m: "longest_match root (c # cs) 0 (-1) 0 = (i, l)" by fastforce
  show ?case
  proof (cases "i = -1")
    case True
    then show ?thesis using 2 m by (simp del: longest_match.simps)
  next
    case False
    then have "\<exists>u. i = trie_lookup root u" using longest_match_spec [OF m] by blast
    then show ?thesis using 2(2) [OF m [symmetric] refl False] 2(3) m False by (auto simp del: longest_match.simps)
  qed
qed simp

definition ids_below :: "nat \<Rightarrow> trie_node \<Rightarrow> bool" where
  "ids_below n root \<longleftrightarrow> (\<forall>s. trie_lookup root s = -1 \<or> 0 \<le> trie_lookup root s \<and> trie_lookup root s < int n)"

lemma ids_below_insert: "ids_below n root \<Longrightarrow> i + length ss \<le> n \<Longrightarrow> ids_below n (insert_tokens i ss root)"
  by (induction i ss root rule: insert_tokens.induct) (auto simp: ids_below_def trie_lookup_insert)

lemma length_fill_tokens: "length (snd (fill_tokens N kvs ts)) = length ts"
  by (induction N kvs ts rule: fill_tokens.induct) (auto split: option.split)

lemma length_resize_tokens [simp]: "length (resize_tokens ts) = vocab_size"
  by (simp add: resize_tokens_def)

lemma initialize_ids:
  assumes "ids_below vocab_size (mb_root mb)"
  shows "ids_below vocab_size (mb_root (snd (initialize V dir mb)))"
proof -
  have "length (snd (fill_tokens (ie_num V) kvs (resize_tokens (mb_tokens mb)))) \<le> vocab_size" for kvs by (simp add: length_fill_tokens)
  then have "ids_below vocab_size (insert_tokens 0 (snd (fill_tokens (ie_num V) kvs (resize_tokens (mb_tokens mb)))) (mb_root mb))" for kvs
    using ids_below_insert [OF assms] by simp
  then show ?thesis using assms by (auto simp: initialize_def Let_def split_beta split: option.split)
qed

lemma new_ids: "ids_below vocab_size (mb_root new_modernbert)"
proof -
  have "trie_lookup (TrieNode (-1) []) s = -1" for s by (cases s) auto
  then show ?thesis by (simp add: ids_below_def new_modernbert_def)
qed

lemma query_tokens_ids: "ids_below vocab_size (mb_root mb) \<Longrightarrow> list_all (\<lambda>t. 0 \<le> t \<and> t < 50285) (query_tokens mb q)"
  using encode_ids [of _ "mb_root mb" "bpe_text q"] by (fastforce simp: list_all_iff query_tokens_def ids_below_def vocab_size_def dest: in_set_takeD)

text \<open>
  C39. Whatever the tokenizer file says and however often the router is initialised, every sequence it hands to the classifier has at most 466 tokens, starts with the
  class token, ends with the separator, and holds only identifiers of the vocabulary.
\<close>

theorem classifier_input_bounded:
  "list_all (\<lambda>c. let xs = input_ids (fold (\<lambda>(V, dir) mb. snd (initialize V dir mb)) inits new_modernbert) q (snd c)
     in length xs \<le> 466 \<and> hd xs = 50281 \<and> last xs = 50282 \<and> list_all (\<lambda>t. 0 \<le> t \<and> t < 50285) xs) candidates"
proof -
  let ?mb = "fold (\<lambda>(V, dir) mb. snd (initialize V dir mb)) inits new_modernbert"
  have "ids_below vocab_size (mb_root (fold (\<lambda>(V, dir) mb. snd (initialize V dir mb)) inits mb))" if "ids_below vocab_size (mb_root mb)" for mb
    using that by (induction inits arbitrary: mb) (auto simp: initialize_ids)
  from query_tokens_ids [OF this [OF new_ids], of q] have t: "list_all (\<lambda>t. 0 \<le> t \<and> t < 50285) (query_tokens ?mb q)" .
  have "length (query_tokens ?mb q) \<le> 450" by (simp add: query_tokens_def)
  then show ?thesis using t by (simp add: candidates_def input_ids_def)
qed

section \<open>The routed intent\<close>

text \<open>What the code relies on: sorting keeps the scores and puts none in front of one with a higher probability.\<close>

definition sorts_scores :: "(bert_score list \<Rightarrow> bert_score list) \<Rightarrow> bool" where
  "sorts_scores f \<longleftrightarrow> (\<forall>xs. mset (f xs) = mset xs \<and> sorted_wrt (\<lambda>a b. \<not> f32_lt (bs_probability a) (bs_probability b)) (f xs))"

text \<open>
  A query of ten bytes or more is routed to a candidate with which no other one can compete.
\<close>

theorem route_best_candidate:
  assumes "mb_ready mb" and "10 \<le> length q" and "sorts_scores (ie_sort V)"
  shows "\<exists>c \<in> set candidates. rd_intent (fst (route V q mb)) = fst c \<and>
    list_all (\<lambda>d. \<not> f32_lt (bs_probability (score_candidate V mb q c)) (bs_probability (score_candidate V mb q d)) \<or> d = c) candidates"
proof -
  let ?scores = "map (score_candidate V mb q) candidates"
  have m: "mset (ie_sort V ?scores) = mset ?scores" and s: "sorted_wrt (\<lambda>a b. \<not> f32_lt (bs_probability a) (bs_probability b)) (ie_sort V ?scores)"
    using assms(3) by (auto simp: sorts_scores_def)
  have "ie_sort V ?scores \<noteq> []" using arg_cong [OF m, of size] by (auto simp: candidates_def)
  then obtain best rest where b: "ie_sort V ?scores = best # rest" by (cases "ie_sort V ?scores") auto
  have set: "set (best # rest) = score_candidate V mb q ` set candidates" using arg_cong [OF m, of set_mset] b by simp
  then have "best \<in> score_candidate V mb q ` set candidates" by (metis list.set_intros(1))
  then obtain c where c: "c \<in> set candidates" "best = score_candidate V mb q c" by blast
  have "\<not> f32_lt (bs_probability best) (bs_probability (score_candidate V mb q d)) \<or> d = c" if "d \<in> set candidates" for d
  proof -
    have "score_candidate V mb q d = best \<or> score_candidate V mb q d \<in> set rest" using set that by auto
    then show ?thesis using s b c by (auto simp: f32_lt_def)
  qed
  moreover have "bs_label best = fst c" using c by (simp add: score_candidate_def Let_def split_beta)
  moreover have "rd_intent (fst (route V q mb)) = bs_label best" using assms(1,2) b by (auto simp: route_def rank_intents_def decision_for_def)
  ultimately show ?thesis using c by (auto simp: list_all_iff)
qed

text \<open>A short query never reaches the classifier.\<close>

lemma short_query_plain: "length q < 10 \<Longrightarrow> route V q mb = (plain_decision ''reasoning'', mb)"
  by (auto simp: route_def)

end
