(* ===== verification/Provider_Sync.thy ===== *)
theory Provider_Sync
  imports Cloud_Router Json_Model
begin

text \<open>
  The synchronisation of the provider models (\<open>ProviderSync.cpp\<close>): the list of models is fetched from a provider's service and replaces the provider's rows in
  the table of the router.

  The HTTP request is an argument, \<open>None\<close> when there is no answer, and so is the JSON parser. \<open>del_ok\<close> and \<open>ins_ok\<close> tell whether the two statements can be
  prepared. A row whose provider and model name are in the table already is not inserted, by the table's \<open>UNIQUE\<close> constraint.
\<close>

section \<open>Fetching\<close>

record endpoint =
  ep_host :: string
  ep_path :: string
  ep_headers :: "(string \<times> string) list"

definition provider_endpoint :: "string \<Rightarrow> string \<Rightarrow> endpoint option" where
  "provider_endpoint provider api_key =
     (let bearer = [(''Authorization'', ''Bearer '' @ api_key)]
      in if provider = ''GROQ'' then Some \<lparr>ep_host = ''https://api.groq.com'', ep_path = ''/openai/v1/models'', ep_headers = bearer\<rparr>
         else if provider = ''OPENROUTER'' then Some \<lparr>ep_host = ''https://openrouter.ai'', ep_path = ''/api/v1/models'', ep_headers = bearer\<rparr>
         else if provider = ''NOVITA'' then Some \<lparr>ep_host = ''https://api.novita.ai'', ep_path = ''/v3/openai/models'', ep_headers = bearer\<rparr>
         else if provider = ''MISTRAL'' then Some \<lparr>ep_host = ''https://api.mistral.ai'', ep_path = ''/v1/models'', ep_headers = bearer\<rparr>
         else if provider = ''COHERE'' then Some \<lparr>ep_host = ''https://api.cohere.com'', ep_path = ''/v1/models'', ep_headers = bearer\<rparr>
         else if provider = ''GEMINI''
         then Some \<lparr>ep_host = ''https://generativelanguage.googleapis.com'', ep_path = ''/v1beta/models?key='' @ api_key, ep_headers = []\<rparr>
         else None)"

definition listed_names :: "json \<Rightarrow> string \<Rightarrow> string \<Rightarrow> string list" where
  "listed_names j list_key name_key =
     (case jget j list_key of
        None \<Rightarrow> []
      | Some l \<Rightarrow> List.map_filter (\<lambda>item. Option.bind (jget item name_key) get_string) (elements l))"

definition fetched_names :: "string \<Rightarrow> json \<Rightarrow> string list" where
  "fetched_names provider j =
     (if provider = ''COHERE'' \<or> provider = ''GEMINI'' then listed_names j ''models'' ''name'' else listed_names j ''data'' ''id'')"

section \<open>Storing\<close>

definition stored_name :: "string \<Rightarrow> string \<Rightarrow> string" where
  "stored_name provider m_name = (if provider = ''GEMINI'' \<and> starts_with ''models/'' m_name then drop 7 m_name else m_name)"

definition model_type_of :: "string \<Rightarrow> string" where
  "model_type_of model_name =
     (let model_lower = lower model_name
      in if contains model_lower ''vision'' \<or> contains model_lower ''vl'' then ''image''
         else if contains model_lower ''coder'' \<or> contains model_lower ''code'' then ''coding''
         else ''text'')"

fun insert_names :: "string \<Rightarrow> int \<Rightarrow> string list \<Rightarrow> provider_model list \<Rightarrow> provider_model list" where
  "insert_names provider priority [] rows = rows"
| "insert_names provider priority (m_name # names) rows =
     (let n = stored_name provider m_name;
          row = \<lparr>pv_provider = c_str provider, pv_model_name = c_str n, pv_model_type = c_str (model_type_of n), pv_priority = priority\<rparr>
      in insert_names provider (priority + 1) names
           (if list_ex (\<lambda>r. pv_provider r = pv_provider row \<and> pv_model_name r = pv_model_name row) rows then rows else rows @ [row]))"

definition store_names :: "bool \<Rightarrow> bool \<Rightarrow> string \<Rightarrow> string list \<Rightarrow> provider_model list \<Rightarrow> provider_model list" where
  "store_names del_ok ins_ok provider names rows =
     (let rows1 = (if del_ok then filter (\<lambda>r. pv_provider r \<noteq> c_str provider) rows else rows)
      in if ins_ok then insert_names provider 1 names rows1 else rows1)"

definition sync_models_from_provider ::
  "bool \<Rightarrow> bool \<Rightarrow> (endpoint \<Rightarrow> (int \<times> string) option) \<Rightarrow> (string \<Rightarrow> json option) \<Rightarrow> string \<Rightarrow> string \<Rightarrow> sqlite_router \<Rightarrow> sqlite_router" where
  "sync_models_from_provider del_ok ins_ok fetch parse provider api_key r =
     (if \<not> rt_open r then r
      else case provider_endpoint provider api_key of
        None \<Rightarrow> r
      | Some ep \<Rightarrow>
          (case fetch ep of
             None \<Rightarrow> r
           | Some (status, body) \<Rightarrow>
               if status \<noteq> 200 then r
               else case parse body of
                 None \<Rightarrow> r
               | Some j \<Rightarrow> r\<lparr>rt_models := store_names del_ok ins_ok provider (fetched_names provider j) (rt_models r)\<rparr>))"

section \<open>The provider's rows are replaced\<close>

lemma insert_names_result:
  "\<exists>new. insert_names provider p names rows = rows @ new \<and> list_all (\<lambda>r. pv_provider r = c_str provider \<and> p \<le> pv_priority r) new \<and>
     sorted_wrt (\<lambda>a b. pv_priority a < pv_priority b) new"
proof (induction names arbitrary: p rows)
  case (Cons m names)
  let ?n = "stored_name provider m"
  let ?row = "\<lparr>pv_provider = c_str provider, pv_model_name = c_str ?n, pv_model_type = c_str (model_type_of ?n), pv_priority = p\<rparr>"
  let ?rows = "if list_ex (\<lambda>r. pv_provider r = pv_provider ?row \<and> pv_model_name r = pv_model_name ?row) rows then rows else rows @ [?row]"
  obtain new where n: "insert_names provider (p + 1) names ?rows = ?rows @ new" "list_all (\<lambda>r. pv_provider r = c_str provider \<and> p + 1 \<le> pv_priority r) new"
      "sorted_wrt (\<lambda>a b. pv_priority a < pv_priority b) new"
    using Cons.IH [of "p + 1" ?rows] by blast
  let ?new = "(if ?rows = rows then [] else [?row]) @ new"
  have "insert_names provider p (m # names) rows = rows @ ?new" using n(1) by (simp add: Let_def)
  moreover have "list_all (\<lambda>r. pv_provider r = c_str provider \<and> p \<le> pv_priority r) ?new" using n(2) by (auto simp: list_all_iff)
  moreover have "sorted_wrt (\<lambda>a b. pv_priority a < pv_priority b) ?new" using n(2,3) by (auto simp: list_all_iff)
  ultimately show ?case by blast
qed simp

definition own_names :: "string \<Rightarrow> provider_model list \<Rightarrow> string set" where
  "own_names provider rows = pv_model_name ` set (filter (\<lambda>r. pv_provider r = c_str provider) rows)"

lemma insert_names_set: "own_names provider (insert_names provider p names rows) = own_names provider rows \<union> (c_str \<circ> stored_name provider) ` set names"
proof (induction names arbitrary: p rows)
  case (Cons m names)
  let ?n = "c_str (stored_name provider m)"
  have dup: "own_names provider rows = insert ?n (own_names provider rows)" if "list_ex (\<lambda>r. pv_provider r = c_str provider \<and> pv_model_name r = ?n) rows"
    using that by (force simp: own_names_def list_ex_iff)
  have add: "own_names provider (rows @ [row]) = insert (pv_model_name row) (own_names provider rows)" if "pv_provider row = c_str provider" for row
    using that by (auto simp: own_names_def)
  show ?case using dup by (auto simp: Let_def Cons.IH add)
qed simp

lemma insert_names_distinct:
  "distinct (map (\<lambda>r. (pv_provider r, pv_model_name r)) rows) \<Longrightarrow> distinct (map (\<lambda>r. (pv_provider r, pv_model_name r)) (insert_names provider p names rows))"
proof (induction names arbitrary: p rows)
  case (Cons m names)
  let ?n = "stored_name provider m"
  let ?row = "\<lparr>pv_provider = c_str provider, pv_model_name = c_str ?n, pv_model_type = c_str (model_type_of ?n), pv_priority = p\<rparr>"
  let ?rows = "if list_ex (\<lambda>r. pv_provider r = pv_provider ?row \<and> pv_model_name r = pv_model_name ?row) rows then rows else rows @ [?row]"
  have "distinct (map (\<lambda>r. (pv_provider r, pv_model_name r)) ?rows)" using Cons.prems by (auto simp: list_ex_iff)
  from Cons.IH [OF this, of "p + 1"] show ?case by (simp only: insert_names.simps Let_def)
qed simp

text \<open>
  C40. A successful synchronisation replaces the provider's models and nothing else: the rows of the other providers stay in place in front, the provider's new rows have
  exactly the fetched names, each once, with strictly rising priorities, so that the router prefers them in the order of the provider.
\<close>

theorem sync_replaces_models:
  assumes "rt_open r" and "provider_endpoint provider api_key = Some ep" and "fetch ep = Some (200, body)" and "parse body = Some j"
    and "distinct (map (\<lambda>m. (pv_provider m, pv_model_name m)) (rt_models r))"
  shows "\<exists>new. rt_models (sync_models_from_provider True True fetch parse provider api_key r) = filter (\<lambda>m. pv_provider m \<noteq> c_str provider) (rt_models r) @ new \<and>
    list_all (\<lambda>m. pv_provider m = c_str provider) new \<and> pv_model_name ` set new = (c_str \<circ> stored_name provider) ` set (fetched_names provider j) \<and>
    distinct (map pv_model_name new) \<and> sorted_wrt (\<lambda>a b. pv_priority a < pv_priority b) new"
proof -
  let ?kept = "filter (\<lambda>m. pv_provider m \<noteq> c_str provider) (rt_models r)" and ?names = "fetched_names provider j"
  have rows: "rt_models (sync_models_from_provider True True fetch parse provider api_key r) = insert_names provider 1 ?names ?kept"
    using assms(1-4) by (simp add: sync_models_from_provider_def store_names_def)
  obtain new where n: "insert_names provider 1 ?names ?kept = ?kept @ new" "list_all (\<lambda>m. pv_provider m = c_str provider) new"
      "sorted_wrt (\<lambda>a b. pv_priority a < pv_priority b) new"
    using insert_names_result [of provider 1 ?names ?kept] by (auto simp: list_all_iff)
  have "distinct (map (\<lambda>m. (pv_provider m, pv_model_name m)) ?kept)" using assms(5) by (rule distinct_map_filter)
  from insert_names_distinct [OF this, of provider 1 ?names] have "distinct (map (\<lambda>m. (pv_provider m, pv_model_name m)) new)" unfolding n(1) by simp
  then have "distinct (map pv_model_name new)" using n(2) by (auto simp: distinct_map inj_on_def list_all_iff)
  moreover have "pv_model_name ` set new = (c_str \<circ> stored_name provider) ` set ?names"
  proof -
    have "own_names provider (?kept @ new) = pv_model_name ` set new" "own_names provider ?kept = {}"
      using n(2) by (auto simp: own_names_def list_all_iff image_iff)
    then show ?thesis using insert_names_set [of provider 1 ?names ?kept] unfolding n(1) by simp
  qed
  ultimately show ?thesis unfolding rows n(1) using n(2,3) by blast
qed

text \<open>An answer that is JSON but not the expected list deletes all models of the provider.\<close>

theorem odd_answer_wipes_models:
  assumes "rt_open r" and "provider_endpoint provider api_key = Some ep" and "fetch ep = Some (200, body)" and "parse body = Some (JObject [])"
  shows "rt_models (sync_models_from_provider True True fetch parse provider api_key r) = filter (\<lambda>m. pv_provider m \<noteq> c_str provider) (rt_models r)"
  using assms by (simp add: sync_models_from_provider_def store_names_def fetched_names_def listed_names_def)

section \<open>Examples\<close>

theorem sync_replaces_models_witness:
  "\<exists>new. rt_models (sync_models_from_provider True True (\<lambda>e. Some (200, ''b'')) (\<lambda>t. Some (JObject [(''data'', JArray [JObject [(''id'', JString ''a'')]])])) ''GROQ'' ''k'' demo_router) =
     filter (\<lambda>m. pv_provider m \<noteq> ''GROQ'') seed_models @ new \<and> distinct (map pv_model_name new)"
proof -
  have m: "rt_open demo_router" "rt_models demo_router = seed_models" by (simp_all add: demo_router_def)
  have d: "distinct (map (\<lambda>m. (pv_provider m, pv_model_name m)) seed_models)" by (simp add: seed_models_def)
  have g: "c_str ''GROQ'' = ''GROQ''" by (simp add: c_str_def)
  obtain ep where ep: "provider_endpoint ''GROQ'' ''k'' = Some ep" by (simp add: provider_endpoint_def Let_def)
  from sync_replaces_models [where fetch = "\<lambda>e. Some (200, ''b'')" and parse = "\<lambda>t. Some (JObject [(''data'', JArray [JObject [(''id'', JString ''a'')]])])",
      OF m(1) ep refl refl, unfolded m(2) g, OF d]
  show ?thesis by blast
qed

end
