(* ===== verification/Vulkan_Compute.thy ===== *)
theory Vulkan_Compute
  imports Kernels Vulkan_Device
begin

text \<open>
  \<open>VulkanCompute\<close> (\<open>vulkan_compute.hpp\<close>, \<open>vulkan_compute.cpp\<close>), the two compute shaders it dispatches (\<open>shaders/*.comp\<close>) and the two dispatch
  functions of \<open>VulkanDevice\<close>. The Vulkan driver is the argument \<open>D\<close>: it answers every creation from the calls made so far, and the calls are kept
  as a trace, newest first. A handle is a number, \<open>VK_NULL_HANDLE\<close> is 0, and a failed creation leaves the handle variable alone. The memory of a
  mapped buffer is the list of its floats.
\<close>

unbundle bit_operations_syntax

section \<open>The driver\<close>

type_synonym vk_handle = nat

datatype vk_kind = Descriptor_Pool | Set_Layout | Pipeline_Layout | Shader_Module | Compute_Pipeline | Descriptor_Set | Vk_Buffer | Device_Memory | Command_Buffer

datatype vk_call = Created vk_kind vk_handle | Refused vk_kind | Destroyed vk_kind vk_handle | Mapped vk_handle | Unmapped vk_handle

type_synonym vk_trace = "vk_call list"

record vk_driver =
  drv_create :: "vk_trace \<Rightarrow> vk_kind \<Rightarrow> vk_handle option"
  drv_type_bits :: "vk_handle \<Rightarrow> u32"
  drv_map :: "vk_trace \<Rightarrow> vk_handle \<Rightarrow> size_t \<Rightarrow> f32 list option"
  drv_submit :: "vk_trace \<Rightarrow> bool"
  drv_finish :: "vk_trace \<Rightarrow> bool"

text \<open>The objects that exist after a trace. A descriptor set belongs to its pool and is not destroyed by itself.\<close>

fun live :: "vk_trace \<Rightarrow> (vk_kind \<times> vk_handle) list" where
  "live [] = []"
| "live (Created k h # tr) = (if k = Descriptor_Set then live tr else (k, h) # live tr)"
| "live (Destroyed k h # tr) = remove1 (k, h) (live tr)"
| "live (_ # tr) = live tr"

text \<open>No object is destroyed twice or without having been created.\<close>

fun clean_trace :: "vk_trace \<Rightarrow> bool" where
  "clean_trace [] = True"
| "clean_trace (Destroyed k h # tr) = ((k, h) \<in> set (live tr) \<and> clean_trace tr)"
| "clean_trace (_ # tr) = clean_trace tr"

definition fresh_handles :: "vk_driver \<Rightarrow> bool" where
  "fresh_handles D \<longleftrightarrow> (\<forall>tr k h. drv_create D tr k = Some h \<longrightarrow> h \<noteq> 0 \<and> (k, h) \<notin> set (live tr))"

definition maps_whole :: "vk_driver \<Rightarrow> bool" where
  "maps_whole D \<longleftrightarrow> (\<forall>tr m sz ws. drv_map D tr m sz = Some ws \<longrightarrow> unat sz \<le> 4 * length ws)"

definition never_lost :: "vk_driver \<Rightarrow> bool" where
  "never_lost D \<longleftrightarrow> (\<forall>tr. drv_finish D tr)"

section \<open>State\<close>

text \<open>What \<open>VulkanDevice\<close> shows to \<open>VulkanCompute\<close>.\<close>

record gpu_device =
  gd_available :: bool
  gd_device :: vk_handle
  gd_compute_queue :: vk_handle
  gd_memory_types :: "u32 list"

definition vk_device :: "gpu_device option \<Rightarrow> vk_handle" where
  "vk_device g = (case g of None \<Rightarrow> 0 | Some d \<Rightarrow> gd_device d)"

record gpu_buffer =
  gb_buffer :: vk_handle
  gb_memory :: vk_handle
  gb_mapped :: "f32 list option"
  gb_capacity_bytes :: size_t

definition null_buffer :: gpu_buffer where
  "null_buffer = \<lparr>gb_buffer = 0, gb_memory = 0, gb_mapped = None, gb_capacity_bytes = 0\<rparr>"

text \<open>The handle members, named by position; the buffers are \<open>a\<close>, \<open>b\<close>, \<open>out\<close> and \<open>x\<close>, \<open>w\<close>, \<open>y\<close>.\<close>

datatype slot = Desc_Pool | Dot_Module | Dot_Dsl | Dot_Layout | Dot_Pipeline | Dot_Desc_Set | Rms_Module | Rms_Dsl | Rms_Layout | Rms_Pipeline | Rms_Desc_Set

fun kind_of :: "slot \<Rightarrow> vk_kind" where
  "kind_of Desc_Pool = Descriptor_Pool"
| "kind_of Dot_Module = Shader_Module"
| "kind_of Rms_Module = Shader_Module"
| "kind_of Dot_Dsl = Set_Layout"
| "kind_of Rms_Dsl = Set_Layout"
| "kind_of Dot_Layout = Pipeline_Layout"
| "kind_of Rms_Layout = Pipeline_Layout"
| "kind_of Dot_Pipeline = Compute_Pipeline"
| "kind_of Rms_Pipeline = Compute_Pipeline"
| "kind_of Dot_Desc_Set = Descriptor_Set"
| "kind_of Rms_Desc_Set = Descriptor_Set"

record vulkan_compute =
  vc_initialized :: bool
  vc_slots :: "slot \<Rightarrow> vk_handle"
  vc_dot_bufs :: "gpu_buffer list"
  vc_rms_bufs :: "gpu_buffer list"

definition new_compute :: vulkan_compute where
  "new_compute = \<lparr>vc_initialized = False, vc_slots = (\<lambda>_. 0), vc_dot_bufs = replicate 3 null_buffer, vc_rms_bufs = replicate 3 null_buffer\<rparr>"

definition is_ready :: "gpu_device option \<Rightarrow> bool" where
  "is_ready g \<longleftrightarrow> (case g of None \<Rightarrow> False | Some d \<Rightarrow> gd_available d \<and> gd_compute_queue d \<noteq> 0)"

section \<open>Buffers\<close>

definition destroy_all :: "(vk_kind \<times> vk_handle) list \<Rightarrow> vk_trace \<Rightarrow> vk_trace" where
  "destroy_all hs tr = foldl (\<lambda>tr p. if snd p \<noteq> 0 then Destroyed (fst p) (snd p) # tr else tr) tr hs"

definition free_buffer :: "gpu_device option \<Rightarrow> gpu_buffer \<Rightarrow> vk_trace \<Rightarrow> gpu_buffer \<times> vk_trace" where
  "free_buffer g buf tr =
     (if vk_device g = 0 then (buf, tr)
      else (null_buffer, destroy_all [(Vk_Buffer, gb_buffer buf), (Device_Memory, gb_memory buf)]
                           (if gb_mapped buf \<noteq> None then Unmapped (gb_memory buf) # tr else tr)))"

definition memory_types :: "gpu_device option \<Rightarrow> u32 list" where
  "memory_types g = (case g of None \<Rightarrow> [] | Some d \<Rightarrow> gd_memory_types d)"

text \<open>Host-visible is 2 and host-coherent 4.\<close>

definition ensure_buffer :: "vk_driver \<Rightarrow> gpu_device option \<Rightarrow> size_t \<Rightarrow> gpu_buffer \<Rightarrow> vk_trace \<Rightarrow> bool \<times> gpu_buffer \<times> vk_trace" where
  "ensure_buffer D g size_bytes buf tr =
     (if gb_buffer buf \<noteq> 0 \<and> size_bytes \<le> gb_capacity_bytes buf then (True, buf, tr)
      else let (buf1, tr1) = free_buffer g buf tr in
        if vk_device g = 0 then (False, buf1, tr1)
        else
          let alloc_size = (size_bytes + 1023) AND NOT 1023
          in case drv_create D tr1 Vk_Buffer of
               None \<Rightarrow> (False, buf1, Refused Vk_Buffer # tr1)
             | Some b \<Rightarrow>
                 let tr2 = Created Vk_Buffer b # tr1
                 in case find_memory_type (memory_types g) (drv_type_bits D b) 6 of
                      None \<Rightarrow> (False, buf1, Destroyed Vk_Buffer b # tr2)
                    | Some mem_type \<Rightarrow>
                        (case drv_create D tr2 Device_Memory of
                           None \<Rightarrow> (False, buf1, Destroyed Vk_Buffer b # Refused Device_Memory # tr2)
                         | Some m \<Rightarrow>
                             let tr3 = Created Device_Memory m # tr2
                             in case drv_map D tr3 m alloc_size of
                                  None \<Rightarrow> (case free_buffer g (buf1\<lparr>gb_buffer := b, gb_memory := m\<rparr>) tr3 of (buf2, tr4) \<Rightarrow> (False, buf2, tr4))
                                | Some ws \<Rightarrow> (True, buf1\<lparr>gb_buffer := b, gb_memory := m, gb_mapped := Some ws, gb_capacity_bytes := alloc_size\<rparr>, Mapped m # tr3)))"

text \<open>The chain \<open>!ensure_buffer(...) || ...\<close>: the first failure ends it.\<close>

fun ensure_buffers :: "vk_driver \<Rightarrow> gpu_device option \<Rightarrow> size_t list \<Rightarrow> gpu_buffer list \<Rightarrow> vk_trace \<Rightarrow> bool \<times> gpu_buffer list \<times> vk_trace" where
  "ensure_buffers D g (sz # sizes) (buf # bufs) tr =
     (case ensure_buffer D g sz buf tr of (ok, buf1, tr1) \<Rightarrow>
        if ok then case ensure_buffers D g sizes bufs tr1 of (ok2, bufs2, tr2) \<Rightarrow> (ok2, buf1 # bufs2, tr2)
        else (False, buf1 # bufs, tr1))"
| "ensure_buffers D g sizes bufs tr = (True, bufs, tr)"

section \<open>Pipelines\<close>

fun create_all :: "vk_driver \<Rightarrow> slot list \<Rightarrow> (slot \<Rightarrow> vk_handle) \<Rightarrow> vk_trace \<Rightarrow> bool \<times> (slot \<Rightarrow> vk_handle) \<times> vk_trace" where
  "create_all D [] slots tr = (True, slots, tr)"
| "create_all D (s # ss) slots tr =
     (case drv_create D tr (kind_of s) of
        None \<Rightarrow> (False, slots, Refused (kind_of s) # tr)
      | Some h \<Rightarrow> create_all D ss (slots(s := h)) (Created (kind_of s) h # tr))"

definition init_order :: "slot list" where
  "init_order = [Desc_Pool, Dot_Dsl, Rms_Dsl, Dot_Layout, Rms_Layout, Dot_Module, Rms_Module, Dot_Pipeline, Rms_Pipeline, Dot_Desc_Set, Rms_Desc_Set]"

definition init_resources :: "vk_driver \<Rightarrow> gpu_device option \<Rightarrow> vulkan_compute \<Rightarrow> vk_trace \<Rightarrow> bool \<times> vulkan_compute \<times> vk_trace" where
  "init_resources D g c tr =
     (if vc_initialized c then (True, c, tr)
      else if \<not> is_ready g then (False, c, tr)
      else case create_all D init_order (vc_slots c) tr of (ok, slots, tr1) \<Rightarrow>
             (ok, c\<lparr>vc_slots := slots, vc_initialized := ok\<rparr>, tr1))"

definition destroy_order :: "slot list" where
  "destroy_order = [Dot_Pipeline, Rms_Pipeline, Dot_Layout, Rms_Layout, Dot_Dsl, Rms_Dsl, Dot_Module, Rms_Module, Desc_Pool]"

fun free_buffers :: "gpu_device option \<Rightarrow> gpu_buffer list \<Rightarrow> vk_trace \<Rightarrow> gpu_buffer list \<times> vk_trace" where
  "free_buffers g [] tr = ([], tr)"
| "free_buffers g (b # bs) tr = (case free_buffer g b tr of (b1, tr1) \<Rightarrow> case free_buffers g bs tr1 of (bs1, tr2) \<Rightarrow> (b1 # bs1, tr2))"

definition cleanup_resources :: "gpu_device option \<Rightarrow> vulkan_compute \<Rightarrow> vk_trace \<Rightarrow> vulkan_compute \<times> vk_trace" where
  "cleanup_resources g c tr =
     (if vk_device g = 0 then (c, tr)
      else case free_buffers g (vc_dot_bufs c) tr of (dot, tr1) \<Rightarrow> case free_buffers g (vc_rms_bufs c) tr1 of (rms, tr2) \<Rightarrow>
        (c\<lparr>vc_initialized := False, vc_slots := (\<lambda>s. if s \<in> set destroy_order then 0 else vc_slots c s), vc_dot_bufs := dot, vc_rms_bufs := rms\<rparr>,
         destroy_all (map (\<lambda>s. (kind_of s, vc_slots c s)) destroy_order) tr2))"

section \<open>The shaders\<close>

text \<open>
  The elements invocation \<open>tid\<close> visits: \<open>tid\<close>, \<open>tid + 256\<close>, and so on. The counter is a \<open>uint\<close>, which does not wrap around for
  \<open>n + 256 \<le> 2^32\<close>.
\<close>

function strided :: "nat \<Rightarrow> nat \<Rightarrow> nat list" where
  "strided i n = (if n \<le> i then [] else i # strided (i + 256) n)"
  by pat_completeness auto
termination by (relation "measure (\<lambda>(i, n). n - i)") auto

declare strided.simps [simp del]

text \<open>
  One round of the reduction in shared memory: invocation \<open>tid < s\<close> adds the cell \<open>tid + s\<close> to its own. Only cells below \<open>s\<close> are written and the
  cells added are not below \<open>s\<close>, so the invocations between two barriers do not interfere.
\<close>

definition reduce_round :: "('a \<Rightarrow> 'a \<Rightarrow> 'a) \<Rightarrow> 'a list \<Rightarrow> nat \<Rightarrow> 'a list" where
  "reduce_round add cells s = map (\<lambda>tid. if tid < s then add (cells ! tid) (cells ! (tid + s)) else cells ! tid) [0..<length cells]"

definition workgroup_sum :: "('a \<Rightarrow> 'a \<Rightarrow> 'a) \<Rightarrow> 'a \<Rightarrow> (nat \<Rightarrow> 'a) \<Rightarrow> nat \<Rightarrow> 'a" where
  "workgroup_sum add zero item n =
     foldl (reduce_round add) (map (\<lambda>tid. foldl (\<lambda>s i. add s (item i)) zero (strided tid n)) [0..<256]) [128, 64, 32, 16, 8, 4, 2, 1] ! 0"

definition shader_dot :: "('a \<Rightarrow> 'a \<Rightarrow> 'a) \<Rightarrow> ('a \<Rightarrow> 'a \<Rightarrow> 'a) \<Rightarrow> 'a \<Rightarrow> 'a list \<Rightarrow> 'a list \<Rightarrow> nat \<Rightarrow> 'a" where
  "shader_dot add mul zero a b n = workgroup_sum add zero (\<lambda>i. mul (a ! i) (b ! i)) n"

definition shader_rmsnorm :: "float_ops \<Rightarrow> f32 list \<Rightarrow> f32 list \<Rightarrow> nat \<Rightarrow> f32 \<Rightarrow> f32 list" where
  "shader_rmsnorm F x w n eps =
     (let ss = workgroup_sum (f_add F) f_zero (\<lambda>i. f_mul F (x ! i) (x ! i)) n;
          inv_rms = f_div F f_one (f_sqrt F (f_add F (f_div F ss (f_of_int F (int n))) eps))
      in map (\<lambda>i. f_mul F (f_mul F (x ! i) inv_rms) (w ! i)) [0..<n])"

section \<open>The fallback on the processor\<close>

function dot_rounds :: "('a \<Rightarrow> 'a \<Rightarrow> 'a \<Rightarrow> 'a) \<Rightarrow> 'a list \<Rightarrow> 'a list \<Rightarrow> 'a list \<Rightarrow> 'a list \<times> 'a list \<times> 'a list" where
  "dot_rounds fma a b acc =
     (if length a < 8 then (acc, a, b)
      else dot_rounds fma (drop 8 a) (drop 8 b) (map (\<lambda>t. fma (fst t) (fst (snd t)) (snd (snd t))) (zip (take 8 a) (zip (take 8 b) acc))))"
  by pat_completeness auto
termination by (relation "measure (\<lambda>(fma, a, b, acc). length a)") auto

declare dot_rounds.simps [simp del]

definition avx2_dot_product_fp32 :: "('a \<Rightarrow> 'a \<Rightarrow> 'a) \<Rightarrow> ('a \<Rightarrow> 'a \<Rightarrow> 'a) \<Rightarrow> ('a \<Rightarrow> 'a \<Rightarrow> 'a \<Rightarrow> 'a) \<Rightarrow> 'a \<Rightarrow> 'a list \<Rightarrow> 'a list \<Rightarrow> 'a" where
  "avx2_dot_product_fp32 add mul fma zero a b =
     (case dot_rounds fma a b (replicate 8 zero) of (tmp, a', b') \<Rightarrow>
        foldl (\<lambda>s p. add s (mul (fst p) (snd p))) (foldl add (hd tmp) (tl tmp)) (zip a' b'))"

definition cpu_dot :: "float_ops \<Rightarrow> f32 list \<Rightarrow> f32 list \<Rightarrow> size_t \<Rightarrow> mem_error + f32" where
  "cpu_dot F a b n =
     (if length a < unat n \<or> length b < unat n then Inl OutOfBounds
      else Inr (avx2_dot_product_fp32 (f_add F) (f_mul F) (f_fma F) f_zero (take (unat n) a) (take (unat n) b)))"

text \<open>
  \<open>math::rmsnorm\<close> into \<open>y\<close>, with the size as an \<open>int\<close>: a negative size leaves \<open>y\<close> alone, and null weights are read through.
\<close>

definition cpu_rmsnorm :: "float_ops \<Rightarrow> f32 list \<Rightarrow> f32 list option \<Rightarrow> f32 list \<Rightarrow> size_t \<Rightarrow> f32 \<Rightarrow> mem_error + f32 list" where
  "cpu_rmsnorm F x w y n eps =
     (let sz = sint (ucast n :: 32 word)
      in if sz mod 8 \<noteq> 0 then Inl OutOfBounds
         else if sz \<le> 0 then Inr y
         else case w of
           None \<Rightarrow> Inl NullPointer
         | Some ws \<Rightarrow>
             if length y < nat sz then Inl OutOfBounds
             else sbind (rmsnorm F x (nat sz) eps ws) (\<lambda>r. Inr (take (nat sz) r @ drop (nat sz) y)))"

section \<open>Dispatch\<close>

datatype gpu_outcome = No_Command | Rejected | Lost | Completed

text \<open>
  Recording, submission and the wait: \<open>Lost\<close> is a submission after which the queue becomes idle without having run the shader. The results of
  \<open>vkBeginCommandBuffer\<close>, \<open>vkEndCommandBuffer\<close> and \<open>vkQueueWaitIdle\<close> are not looked at.
\<close>

definition run_commands :: "vk_driver \<Rightarrow> vk_trace \<Rightarrow> gpu_outcome \<times> vk_trace" where
  "run_commands D tr =
     (case drv_create D tr Command_Buffer of
        None \<Rightarrow> (No_Command, Refused Command_Buffer # tr)
      | Some cmd \<Rightarrow>
          let tr1 = Created Command_Buffer cmd # tr
          in (if \<not> drv_submit D tr1 then Rejected else if drv_finish D tr1 then Completed else Lost, Destroyed Command_Buffer cmd # tr1))"

definition mem_of :: "gpu_buffer \<Rightarrow> f32 list" where
  "mem_of buf = (case gb_mapped buf of None \<Rightarrow> [] | Some ws \<Rightarrow> ws)"

text \<open>\<open>memcpy\<close> of a byte count to the start of an array.\<close>

definition memcpy :: "f32 list \<Rightarrow> f32 list \<Rightarrow> size_t \<Rightarrow> mem_error + f32 list" where
  "memcpy dst src bytes =
     (let k = unat bytes div 4 in if length dst < k \<or> length src < k then Inl OutOfBounds else Inr (take k src @ drop k dst))"

definition set_mem :: "gpu_buffer \<Rightarrow> f32 list \<Rightarrow> gpu_buffer" where
  "set_mem buf ws = buf\<lparr>gb_mapped := Some ws\<rparr>"

definition vector_dot ::
  "float_ops \<Rightarrow> vk_driver \<Rightarrow> gpu_device option \<Rightarrow> f32 list option \<Rightarrow> f32 list option \<Rightarrow> size_t \<Rightarrow> vulkan_compute \<Rightarrow> vk_trace
     \<Rightarrow> mem_error + (bool \<times> f32) \<times> vulkan_compute \<times> vk_trace" where
  "vector_dot F D g a_ptr b_ptr n c tr =
     (case (a_ptr, b_ptr) of
        (Some a, Some b) \<Rightarrow>
          if n = 0 then Inr ((False, f_zero), c, tr)
          else case (if is_ready g then init_resources D g c tr else (False, c, tr)) of (ready, c1, tr1) \<Rightarrow>
            if \<not> ready then sbind (cpu_dot F a b n) (\<lambda>r. Inr ((True, r), c1, tr1))
            else let byte_size = n * 4
              in case ensure_buffers D g [byte_size, byte_size, 4] (vc_dot_bufs c1) tr1 of (ok, bufs, tr2) \<Rightarrow>
                if \<not> ok then sbind (cpu_dot F a b n) (\<lambda>r. Inr ((True, r), c1\<lparr>vc_dot_bufs := bufs\<rparr>, tr2))
                else
                  sbind (memcpy (mem_of (bufs ! 0)) a byte_size) (\<lambda>ma.
                  sbind (memcpy (mem_of (bufs ! 1)) b byte_size) (\<lambda>mb.
                    let count = unat (ucast n :: u32);
                        bufs1 = bufs[0 := set_mem (bufs ! 0) ma, 1 := set_mem (bufs ! 1) mb];
                        mo = mem_of (bufs ! 2)
                    in case run_commands D tr2 of (outcome, tr3) \<Rightarrow>
                         if outcome = Completed \<or> outcome = Lost then
                           let mo1 = (if outcome = Completed then mo[0 := shader_dot (f_add F) (f_mul F) f_zero ma mb count] else mo)
                           in if mo1 = [] then Inl OutOfBounds
                              else Inr ((True, mo1 ! 0), c1\<lparr>vc_dot_bufs := bufs1[2 := set_mem (bufs ! 2) mo1]\<rparr>, tr3)
                         else sbind (cpu_dot F a b n) (\<lambda>r. Inr ((True, r), c1\<lparr>vc_dot_bufs := bufs1\<rparr>, tr3))))
      | _ \<Rightarrow> Inr ((False, f_zero), c, tr))"

definition compute_rmsnorm ::
  "float_ops \<Rightarrow> vk_driver \<Rightarrow> gpu_device option \<Rightarrow> f32 list option \<Rightarrow> f32 list option \<Rightarrow> f32 list option \<Rightarrow> size_t \<Rightarrow> f32 \<Rightarrow> vulkan_compute \<Rightarrow> vk_trace
     \<Rightarrow> mem_error + (bool \<times> f32 list option) \<times> vulkan_compute \<times> vk_trace" where
  "compute_rmsnorm F D g x_ptr w_ptr y_ptr n eps c tr =
     (case (x_ptr, y_ptr) of
        (Some x, Some y) \<Rightarrow>
          if n = 0 then Inr ((False, y_ptr), c, tr)
          else case (if is_ready g then init_resources D g c tr else (False, c, tr)) of (ready, c1, tr1) \<Rightarrow>
            if \<not> ready then sbind (cpu_rmsnorm F x w_ptr y n eps) (\<lambda>r. Inr ((True, Some r), c1, tr1))
            else let byte_size = n * 4
              in case ensure_buffers D g [byte_size, byte_size, byte_size] (vc_rms_bufs c1) tr1 of (ok, bufs, tr2) \<Rightarrow>
                if \<not> ok then sbind (cpu_rmsnorm F x w_ptr y n eps) (\<lambda>r. Inr ((True, Some r), c1\<lparr>vc_rms_bufs := bufs\<rparr>, tr2))
                else
                  sbind (memcpy (mem_of (bufs ! 0)) x byte_size) (\<lambda>mx.
                  sbind (case w_ptr of None \<Rightarrow> Inl NullPointer | Some w \<Rightarrow> memcpy (mem_of (bufs ! 1)) w byte_size) (\<lambda>mw.
                    let count = unat (ucast n :: u32);
                        bufs1 = bufs[0 := set_mem (bufs ! 0) mx, 1 := set_mem (bufs ! 1) mw];
                        my = mem_of (bufs ! 2)
                    in case run_commands D tr2 of (outcome, tr3) \<Rightarrow>
                         if outcome = Completed \<or> outcome = Lost then
                           let my1 = (if outcome = Completed then shader_rmsnorm F mx mw count eps @ drop count my else my)
                           in sbind (memcpy y my1 byte_size) (\<lambda>y1. Inr ((True, Some y1), c1\<lparr>vc_rms_bufs := bufs1[2 := set_mem (bufs ! 2) my1]\<rparr>, tr3))
                         else sbind (cpu_rmsnorm F x w_ptr y n eps) (\<lambda>r. Inr ((True, Some r), c1\<lparr>vc_rms_bufs := bufs1\<rparr>, tr3))))
      | _ \<Rightarrow> Inr ((False, y_ptr), c, tr))"

text \<open>The dispatch functions of \<open>VulkanDevice\<close> make a \<open>VulkanCompute\<close> for the one call and destroy it on return.\<close>

definition dispatch_vector_dot ::
  "float_ops \<Rightarrow> vk_driver \<Rightarrow> gpu_device option \<Rightarrow> f32 list option \<Rightarrow> f32 list option \<Rightarrow> size_t \<Rightarrow> vk_trace \<Rightarrow> mem_error + (bool \<times> f32) \<times> vk_trace" where
  "dispatch_vector_dot F D g a b n tr =
     sbind (vector_dot F D g a b n new_compute tr) (\<lambda>(r, c, tr1). Inr (r, snd (cleanup_resources g c tr1)))"

definition dispatch_rmsnorm ::
  "float_ops \<Rightarrow> vk_driver \<Rightarrow> gpu_device option \<Rightarrow> f32 list option \<Rightarrow> f32 list option \<Rightarrow> f32 list option \<Rightarrow> size_t \<Rightarrow> f32 \<Rightarrow> vk_trace
     \<Rightarrow> mem_error + (bool \<times> f32 list option) \<times> vk_trace" where
  "dispatch_rmsnorm F D g x w y n eps tr =
     sbind (compute_rmsnorm F D g x w y n eps new_compute tr) (\<lambda>(r, c, tr1). Inr (r, snd (cleanup_resources g c tr1)))"

section \<open>What exists and who holds it\<close>

definition nonnull :: "(vk_kind \<times> vk_handle) list \<Rightarrow> (vk_kind \<times> vk_handle) multiset" where
  "nonnull hs = mset (filter (\<lambda>p. snd p \<noteq> 0) hs)"

definition buf_handles :: "gpu_buffer \<Rightarrow> (vk_kind \<times> vk_handle) list" where
  "buf_handles b = [(Vk_Buffer, gb_buffer b), (Device_Memory, gb_memory b)]"

definition slot_handles :: "(slot \<Rightarrow> vk_handle) \<Rightarrow> (vk_kind \<times> vk_handle) list" where
  "slot_handles slots = map (\<lambda>s. (kind_of s, slots s)) destroy_order"

text \<open>The trace is clean, and what exists is what is held together with what others hold (\<open>B\<close>).\<close>

definition balanced :: "(vk_kind \<times> vk_handle) multiset \<Rightarrow> (vk_kind \<times> vk_handle) list \<Rightarrow> vk_trace \<Rightarrow> bool" where
  "balanced B hs tr \<longleftrightarrow> clean_trace tr \<and> mset (live tr) = B + nonnull hs"

definition all_bufs :: "gpu_buffer list \<Rightarrow> (vk_kind \<times> vk_handle) list" where
  "all_bufs bufs = concat (map buf_handles bufs)"

definition held :: "vulkan_compute \<Rightarrow> (vk_kind \<times> vk_handle) list" where
  "held c = slot_handles (vc_slots c) @ all_bufs (vc_dot_bufs c) @ all_bufs (vc_rms_bufs c)"

lemma nonnull_simps [simp]:
  "nonnull [] = {#}" "nonnull ((k, h) # hs) = (if h = 0 then nonnull hs else add_mset (k, h) (nonnull hs))" "nonnull (hs @ hs') = nonnull hs + nonnull hs'"
  by (simp_all add: nonnull_def)

lemma buf_handles_simps [simp]:
  "buf_handles null_buffer = [(Vk_Buffer, 0), (Device_Memory, 0)]" "buf_handles (set_mem b ws) = buf_handles b"
  "all_bufs [] = []" "all_bufs (b # bs) = buf_handles b @ all_bufs bs"
  by (simp_all add: buf_handles_def null_buffer_def set_mem_def all_bufs_def)

lemma all_bufs_set_mem [simp]: "all_bufs (bufs[i := set_mem (bufs ! i) ws]) = all_bufs bufs"
proof -
  have "map buf_handles (bufs[i := set_mem (bufs ! i) ws]) = map buf_handles bufs"
    by (cases "i < length bufs") (simp_all add: map_update list_update_same_conv list_update_beyond)
  then show ?thesis by (simp add: all_bufs_def)
qed

lemma balanced_append: "balanced B (hs @ hs') tr \<longleftrightarrow> balanced (B + nonnull hs') hs tr"
  by (auto simp: balanced_def ac_simps)

lemma balanced_swap: "balanced B (hs @ hs') tr \<longleftrightarrow> balanced (B + nonnull hs) hs' tr"
  by (auto simp: balanced_def ac_simps)

lemma balanced_silent [simp]:
  "balanced B hs (Refused k # tr) = balanced B hs tr" "balanced B hs (Mapped m # tr) = balanced B hs tr" "balanced B hs (Unmapped m # tr) = balanced B hs tr"
  by (simp_all add: balanced_def)

lemma balanced_create:
  assumes "balanced B hs tr" and "k \<noteq> Descriptor_Set" and "h \<noteq> 0"
  shows "balanced B ((k, h) # hs) (Created k h # tr)"
  using assms by (simp add: balanced_def)

lemma balanced_destroy:
  assumes "balanced B ((k, h) # hs) tr" and "h \<noteq> 0"
  shows "balanced B hs (Destroyed k h # tr)"
proof -
  have m: "mset (live tr) = B + add_mset (k, h) (nonnull hs)" using assms by (simp add: balanced_def)
  then have "(k, h) \<in> set (live tr)" by (metis set_mset_mset union_iff union_single_eq_member)
  then show ?thesis using assms m by (simp add: balanced_def)
qed

lemma balanced_null: "balanced B ((k, 0) # hs) tr \<longleftrightarrow> balanced B hs tr"
  by (simp add: balanced_def)

lemma balanced_destroy_all: "balanced B hs tr \<Longrightarrow> balanced B [] (destroy_all hs tr)"
proof (induction hs arbitrary: tr)
  case (Cons p hs)
  obtain k h where "p = (k, h)" by fastforce
  then show ?case using Cons.IH [of "Destroyed k h # tr"] Cons.IH [of tr] Cons.prems balanced_destroy [of B k h hs tr]
    by (cases "h = 0") (auto simp: destroy_all_def balanced_null)
qed (simp add: destroy_all_def)

lemma free_buffer_balanced:
  assumes "free_buffer g b tr = (b', tr')" and "balanced B (buf_handles b) tr"
  shows "balanced B (buf_handles b') tr'"
proof (cases "vk_device g = 0")
  case False
  let ?tr = "if gb_mapped b \<noteq> None then Unmapped (gb_memory b) # tr else tr"
  have "balanced B (buf_handles b) ?tr" using assms(2) by simp
  then have "balanced B [] (destroy_all (buf_handles b) ?tr)" by (rule balanced_destroy_all)
  then show ?thesis using assms(1) False by (auto simp: free_buffer_def buf_handles_def balanced_null null_buffer_def)
qed (use assms in \<open>auto simp: free_buffer_def\<close>)

lemma free_buffer_null: "vk_device g \<noteq> 0 \<Longrightarrow> fst (free_buffer g b tr) = null_buffer"
  by (simp add: free_buffer_def)

text \<open>A buffer that exists has as much memory as its capacity says.\<close>

definition buffer_ok :: "gpu_buffer \<Rightarrow> bool" where
  "buffer_ok b \<longleftrightarrow> (gb_buffer b \<noteq> 0 \<longrightarrow> unat (gb_capacity_bytes b) \<le> 4 * length (mem_of b))"

lemma fresh_nonnull: "fresh_handles D \<Longrightarrow> drv_create D tr k = Some h \<Longrightarrow> h \<noteq> 0"
  by (auto simp: fresh_handles_def)

lemma ensure_buffer_balanced:
  assumes "ensure_buffer D g sz b tr = (ok, b', tr')" and "balanced B (buf_handles b) tr" and "fresh_handles D"
  shows "balanced B (buf_handles b') tr'"
proof (cases "(gb_buffer b \<noteq> 0 \<and> sz \<le> gb_capacity_bytes b) \<or> vk_device g = 0")
  case True
  then show ?thesis using assms(1,2) by (auto simp: ensure_buffer_def free_buffer_def split: if_splits)
next
  case False
  obtain tr1 where f: "free_buffer g b tr = (null_buffer, tr1)"
    using False free_buffer_null [of g b tr] by (cases "free_buffer g b tr") auto
  have b0: "balanced B [] tr1" using free_buffer_balanced [OF f assms(2)] by (simp add: balanced_null)
  show ?thesis
  proof (cases "drv_create D tr1 Vk_Buffer")
    case None
    then show ?thesis using assms(1) False f b0 by (auto simp: ensure_buffer_def Let_def balanced_null)
  next
    case (Some h)
    have h: "h \<noteq> 0" using fresh_nonnull [OF assms(3) Some] .
    have b1: "balanced B [(Vk_Buffer, h)] (Created Vk_Buffer h # tr1)" using balanced_create [OF b0] h by simp
    have d: "balanced B [] (Destroyed Vk_Buffer h # Created Vk_Buffer h # tr1)"
      "balanced B [] (Destroyed Vk_Buffer h # Refused Device_Memory # Created Vk_Buffer h # tr1)"
      using balanced_destroy [OF b1 h] balanced_destroy [of B Vk_Buffer h "[]" "Refused Device_Memory # Created Vk_Buffer h # tr1"] b1 h by simp_all
    show ?thesis
    proof (cases "find_memory_type (memory_types g) (drv_type_bits D h) 6 = None \<or> drv_create D (Created Vk_Buffer h # tr1) Device_Memory = None")
      case True
      then show ?thesis using assms(1) False f Some d by (auto simp: ensure_buffer_def Let_def balanced_null split: option.splits)
    next
      case no: False
      then obtain t m where t: "find_memory_type (memory_types g) (drv_type_bits D h) 6 = Some t"
        and m: "drv_create D (Created Vk_Buffer h # tr1) Device_Memory = Some m" by auto
      have mz: "m \<noteq> 0" using fresh_nonnull [OF assms(3) m] .
      let ?tr3 = "Created Device_Memory m # Created Vk_Buffer h # tr1"
      have b2: "balanced B [(Vk_Buffer, h), (Device_Memory, m)] ?tr3"
        using balanced_create [OF b1, of Device_Memory m] mz by (auto simp: balanced_def)
      let ?b = "null_buffer\<lparr>gb_buffer := h, gb_memory := m\<rparr>"
      have "balanced B (buf_handles ?b) ?tr3" using b2 by (simp add: buf_handles_def)
      then have f2: "balanced B (buf_handles b2) tr4" if "free_buffer g ?b ?tr3 = (b2, tr4)" for b2 tr4
        using free_buffer_balanced [OF that] by blast
      show ?thesis using assms(1) False f Some t m b2 f2
        by (auto simp: ensure_buffer_def Let_def buf_handles_def split: option.splits prod.splits)
    qed
  qed
qed

lemma and_not_mask: "x AND NOT m = x - (x AND m)" for x m :: "'a::len word"
proof -
  have "x - (x AND m) = x AND NOT (x AND m)" by (rule disjunctive_diff_eq_and_not) (simp add: bit_eq_iff bit_simps)
  also have "\<dots> = x AND NOT m" by (auto simp: bit_eq_iff bit_simps)
  finally show ?thesis by simp
qed

lemma align_up:
  fixes sz :: size_t
  assumes "unat sz + 1023 < 2 ^ 64"
  shows "unat sz \<le> unat ((sz + 1023) AND NOT 1023)"
proof -
  let ?x = "sz + 1023"
  have x: "unat ?x = unat sz + 1023" using assms by (simp add: unat_word_ariths)
  have lo: "?x AND 1023 \<le> 1023" "?x AND 1023 \<le> ?x" by (rule word_and_le1, rule word_and_le2)
  have "?x AND NOT 1023 = ?x - (?x AND 1023)" by (rule and_not_mask)
  then have "unat (?x AND NOT 1023) = unat ?x - unat (?x AND 1023)" using unat_sub [OF lo(2)] by simp
  then show ?thesis using x lo(1) by (simp add: word_le_nat_alt)
qed

lemma ensure_buffer_room:
  assumes "ensure_buffer D g sz b tr = (True, b', tr')" and "buffer_ok b" and "maps_whole D" and "unat sz + 1023 < 2 ^ 64"
  shows "buffer_ok b'" "unat sz \<le> 4 * length (mem_of b')"
proof -
  have new: "unat ((sz + 1023) AND NOT 1023) \<le> 4 * length ws" if "drv_map D tr3 m ((sz + 1023) AND NOT 1023) = Some ws" for tr3 m ws
    using assms(3) that by (auto simp: maps_whole_def)
  have both: "buffer_ok b' \<and> unat sz \<le> 4 * length (mem_of b')"
  proof (cases "gb_buffer b \<noteq> 0 \<and> sz \<le> gb_capacity_bytes b")
    case True
    then have "b' = b" using assms(1) by (simp add: ensure_buffer_def)
    moreover have "unat sz \<le> unat (gb_capacity_bytes b)" using True by (simp add: word_le_nat_alt)
    ultimately show ?thesis using True assms(2) by (auto simp: buffer_ok_def)
  next
    case False
    then show ?thesis using assms(1) align_up [OF assms(4)] new
      by (fastforce simp: ensure_buffer_def buffer_ok_def mem_of_def Let_def split: if_splits option.splits prod.splits)
  qed
  show "buffer_ok b'" "unat sz \<le> 4 * length (mem_of b')" using both by simp_all
qed

lemma ensure_buffers_balanced:
  assumes "ensure_buffers D g szs bufs tr = (ok, bufs', tr')" and "balanced B (all_bufs bufs) tr" and "fresh_handles D"
  shows "balanced B (all_bufs bufs') tr'"
  using assms
proof (induction D g szs bufs tr arbitrary: B ok bufs' tr' rule: ensure_buffers.induct)
  case (1 D g sz szs b bufs tr)
  obtain ok1 b1 tr1 where e: "ensure_buffer D g sz b tr = (ok1, b1, tr1)" by (cases "ensure_buffer D g sz b tr") auto
  have "balanced (B + nonnull (all_bufs bufs)) (buf_handles b) tr" using "1.prems"(2) by (simp add: balanced_append)
  from ensure_buffer_balanced [OF e this "1.prems"(3)] have b1: "balanced B (buf_handles b1 @ all_bufs bufs) tr1" by (simp add: balanced_append)
  show ?case
  proof (cases ok1)
    case True
    obtain ok2 bufs2 tr2 where e2: "ensure_buffers D g szs bufs tr1 = (ok2, bufs2, tr2)" by (cases "ensure_buffers D g szs bufs tr1") auto
    have "balanced (B + nonnull (buf_handles b1)) (all_bufs bufs2) tr2"
      by (rule "1.IH" [OF e [symmetric] refl True e2]) (use b1 "1.prems"(3) in \<open>simp_all add: balanced_swap\<close>)
    then show ?thesis using "1.prems"(1) e e2 True by (auto simp: balanced_swap)
  qed (use "1.prems"(1) e b1 in auto)
qed simp_all

lemma ensure_buffers_length: "ensure_buffers D g szs bufs tr = (ok, bufs', tr') \<Longrightarrow> length bufs' = length bufs"
  by (induction D g szs bufs tr arbitrary: ok bufs' tr' rule: ensure_buffers.induct) (auto split: prod.splits if_splits)

lemma ensure_buffers_room:
  assumes "ensure_buffers D g szs bufs tr = (True, bufs', tr')" and "list_all buffer_ok bufs" and "maps_whole D"
    and "list_all (\<lambda>sz. unat sz + 1023 < 2 ^ 64) szs" and "length szs = length bufs"
  shows "list_all2 (\<lambda>sz b. unat sz \<le> 4 * length (mem_of b)) szs bufs'"
  using assms
proof (induction D g szs bufs tr arbitrary: bufs' tr' rule: ensure_buffers.induct)
  case (1 D g sz szs b bufs tr)
  obtain ok1 b1 tr1 where e: "ensure_buffer D g sz b tr = (ok1, b1, tr1)" by (cases "ensure_buffer D g sz b tr") auto
  have ok1: ok1 using "1.prems"(1) e by (auto split: if_splits)
  obtain bufs2 where b2: "ensure_buffers D g szs bufs tr1 = (True, bufs2, tr')" "bufs' = b1 # bufs2"
    using "1.prems"(1) e ok1 by (auto split: prod.splits)
  have "list_all2 (\<lambda>sz b. unat sz \<le> 4 * length (mem_of b)) szs bufs2"
    by (rule "1.IH" [OF e [symmetric] refl ok1 b2(1)]) (use "1.prems" in simp_all)
  moreover have "unat sz \<le> 4 * length (mem_of b1)"
    by (rule ensure_buffer_room(2) [of D g sz b tr b1 tr1]) (use e ok1 "1.prems" in simp_all)
  ultimately show ?case using b2(2) by simp
qed simp_all

section \<open>Pipelines and clean-up\<close>

lemma slot_handles_update:
  "kind_of s \<noteq> Descriptor_Set \<Longrightarrow> h \<noteq> 0 \<Longrightarrow>
     nonnull (slot_handles (slots(s := h))) + (if slots s = 0 then {#} else {#(kind_of s, slots s)#}) = add_mset (kind_of s, h) (nonnull (slot_handles slots))"
  "kind_of s = Descriptor_Set \<Longrightarrow> slot_handles (slots(s := h)) = slot_handles slots"
  by (cases s; simp add: slot_handles_def destroy_order_def)+

lemma balanced_slot:
  assumes "balanced B (slot_handles slots) tr" and "drv_create D tr (kind_of s) = Some h" and "fresh_handles D"
  shows "balanced (B + (if slots s = 0 \<or> kind_of s = Descriptor_Set then {#} else {#(kind_of s, slots s)#})) (slot_handles (slots(s := h))) (Created (kind_of s) h # tr)"
proof (cases "kind_of s = Descriptor_Set")
  case True
  then show ?thesis using assms(1) by (simp add: balanced_def slot_handles_update(2))
next
  case False
  have "h \<noteq> 0" using fresh_nonnull [OF assms(3,2)] .
  from slot_handles_update(1) [OF False this, of slots] show ?thesis using assms(1) False
    by (auto simp: balanced_def ac_simps)
qed

text \<open>Creating the objects into members that already hold handles forgets those: they stay behind in \<open>E\<close>.\<close>

lemma create_all_balanced:
  assumes "create_all D ss slots tr = (ok, slots', tr')" and "balanced B (slot_handles slots) tr" and "fresh_handles D" and "distinct ss"
  shows "\<exists>E. balanced (B + E) (slot_handles slots') tr' \<and> ((\<forall>s \<in> set ss. slots s = 0) \<longrightarrow> E = {#})"
  using assms
proof (induction D ss slots tr arbitrary: B rule: create_all.induct)
  case (2 D s ss slots tr)
  show ?case
  proof (cases "drv_create D tr (kind_of s)")
    case None
    then show ?thesis using "2.prems" by (intro exI [of _ "{#}"]) auto
  next
    case (Some h)
    let ?L = "if slots s = 0 \<or> kind_of s = Descriptor_Set then {#} else {#(kind_of s, slots s)#}"
    have c: "create_all D ss (slots(s := h)) (Created (kind_of s) h # tr) = (ok, slots', tr')" "distinct ss" using "2.prems"(1,4) Some by simp_all
    obtain E where E: "balanced (B + ?L + E) (slot_handles slots') tr'" "(\<forall>s' \<in> set ss. (slots(s := h)) s' = 0) \<longrightarrow> E = {#}"
      using "2.IH" [OF Some c(1) balanced_slot [OF "2.prems"(2) Some "2.prems"(3)] "2.prems"(3) c(2)] by blast
    have "(\<forall>s' \<in> set (s # ss). slots s' = 0) \<longrightarrow> ?L + E = {#}" using E(2) "2.prems"(4) by auto
    then show ?thesis using E(1) by (intro exI [of _ "?L + E"]) (simp add: ac_simps)
  qed
qed (auto intro: exI [of _ "{#}"])

lemma free_buffers_balanced:
  "free_buffers g bufs tr = (bufs', tr') \<Longrightarrow> balanced B (all_bufs bufs) tr \<Longrightarrow> balanced B (all_bufs bufs') tr'"
proof (induction bufs arbitrary: B tr bufs' tr')
  case (Cons b bufs)
  obtain b1 tr1 where f: "free_buffer g b tr = (b1, tr1)" by fastforce
  obtain bs1 tr2 where f2: "free_buffers g bufs tr1 = (bs1, tr2)" by fastforce
  have "balanced (B + nonnull (all_bufs bufs)) (buf_handles b) tr" using Cons.prems(2) by (simp add: balanced_append)
  from free_buffer_balanced [OF f this] have "balanced (B + nonnull (buf_handles b1)) (all_bufs bufs) tr1"
    by (simp add: balanced_def ac_simps)
  from Cons.IH [OF f2 this] show ?case using Cons.prems(1) f f2 by (auto simp: balanced_swap)
qed simp

lemma free_buffers_null: "vk_device g \<noteq> 0 \<Longrightarrow> nonnull (all_bufs (fst (free_buffers g bufs tr))) = {#}"
proof (induction bufs arbitrary: tr)
  case (Cons b bufs)
  then show ?case using free_buffer_null [of g b tr] by (auto split: prod.splits) (metis fst_conv)
qed simp

lemma cleanup_balanced:
  assumes "vk_device g \<noteq> 0" and "balanced B (held c) tr"
  shows "balanced B [] (snd (cleanup_resources g c tr))"
proof -
  obtain d tr1 where f1: "free_buffers g (vc_dot_bufs c) tr = (d, tr1)" by fastforce
  obtain r tr2 where f2: "free_buffers g (vc_rms_bufs c) tr1 = (r, tr2)" by fastforce
  have z: "nonnull (all_bufs d) = {#}" "nonnull (all_bufs r) = {#}"
    using free_buffers_null [OF assms(1)] f1 f2 by (metis fst_conv)+
  let ?S = "nonnull (slot_handles (vc_slots c))"
  have "balanced (B + ?S + nonnull (all_bufs (vc_rms_bufs c))) (all_bufs (vc_dot_bufs c)) tr"
    using assms(2) by (simp add: held_def balanced_def ac_simps)
  from free_buffers_balanced [OF f1 this] have "balanced (B + ?S) (all_bufs (vc_rms_bufs c)) tr1" using z(1) by (simp add: balanced_def ac_simps)
  from free_buffers_balanced [OF f2 this] have "balanced B (slot_handles (vc_slots c)) tr2" using z(2) by (simp add: balanced_def ac_simps)
  from balanced_destroy_all [OF this] show ?thesis using assms(1) f1 f2 by (simp add: cleanup_resources_def slot_handles_def)
qed

lemma init_resources_bufs:
  "init_resources D g c tr = (ok, c', tr') \<Longrightarrow> vc_dot_bufs c' = vc_dot_bufs c \<and> vc_rms_bufs c' = vc_rms_bufs c"
  by (auto simp: init_resources_def split: if_splits prod.splits)

lemma init_resources_balanced:
  assumes "init_resources D g c tr = (ok, c', tr')" and "balanced B (held c) tr" and "fresh_handles D"
  shows "\<exists>E. balanced (B + E) (held c') tr' \<and> (vc_initialized c \<or> (\<forall>s. vc_slots c s = 0) \<longrightarrow> E = {#})"
proof (cases "vc_initialized c \<or> \<not> is_ready g")
  case True
  then show ?thesis using assms(1,2) by (intro exI [of _ "{#}"]) (auto simp: init_resources_def split: if_splits)
next
  case False
  obtain slots where a: "create_all D init_order (vc_slots c) tr = (ok, slots, tr')" "c' = c\<lparr>vc_slots := slots, vc_initialized := ok\<rparr>"
    using assms(1) False by (auto simp: init_resources_def split: prod.splits)
  let ?bufs = "nonnull (all_bufs (vc_dot_bufs c)) + nonnull (all_bufs (vc_rms_bufs c))"
  have "balanced (B + ?bufs) (slot_handles (vc_slots c)) tr" using assms(2) by (simp add: held_def balanced_append)
  moreover have "distinct init_order" by (simp add: init_order_def)
  ultimately obtain E where E: "balanced (B + ?bufs + E) (slot_handles slots) tr'" "(\<forall>s \<in> set init_order. vc_slots c s = 0) \<longrightarrow> E = {#}"
    using create_all_balanced [OF a(1) _ assms(3)] by blast
  then have "balanced (B + E) (held c') tr'" using a(2) by (simp add: held_def balanced_def ac_simps)
  then show ?thesis using E(2) False by blast
qed

lemma run_commands_balanced: "balanced B hs tr \<Longrightarrow> run_commands D tr = (outcome, tr') \<Longrightarrow> balanced B hs tr'"
  by (auto simp: run_commands_def balanced_def Let_def split: option.splits)

text \<open>Whether the device is used: readiness and the creation of the pipelines, as both operations start.\<close>

lemma start_balanced:
  assumes "(if is_ready g then init_resources D g c tr else (False, c, tr)) = (ready, c1, tr1)" and "balanced B (held c) tr" and "fresh_handles D"
    and "vc_initialized c \<or> (\<forall>s. vc_slots c s = 0)"
  shows "balanced B (held c1) tr1" "vc_dot_bufs c1 = vc_dot_bufs c" "vc_rms_bufs c1 = vc_rms_bufs c"
proof -
  have "balanced B (held c1) tr1 \<and> vc_dot_bufs c1 = vc_dot_bufs c \<and> vc_rms_bufs c1 = vc_rms_bufs c"
  proof (cases "is_ready g")
    case True
    then have i: "init_resources D g c tr = (ready, c1, tr1)" using assms(1) by simp
    show ?thesis using init_resources_balanced [OF i assms(2,3)] init_resources_bufs [OF i] assms(4) by auto
  qed (use assms in auto)
  then show "balanced B (held c1) tr1" "vc_dot_bufs c1 = vc_dot_bufs c" "vc_rms_bufs c1 = vc_rms_bufs c" by simp_all
qed

lemma dot_bufs_balanced:
  assumes "balanced B (held c) tr" and "ensure_buffers D g szs (vc_dot_bufs c) tr = (ok, bufs, tr')" and "fresh_handles D"
  shows "balanced B (held (c\<lparr>vc_dot_bufs := bufs\<rparr>)) tr'"
proof -
  have "balanced (B + nonnull (slot_handles (vc_slots c)) + nonnull (all_bufs (vc_rms_bufs c))) (all_bufs (vc_dot_bufs c)) tr"
    using assms(1) by (simp add: held_def balanced_def ac_simps)
  from ensure_buffers_balanced [OF assms(2) this assms(3)] show ?thesis by (simp add: held_def balanced_def ac_simps)
qed

lemma rms_bufs_balanced:
  assumes "balanced B (held c) tr" and "ensure_buffers D g szs (vc_rms_bufs c) tr = (ok, bufs, tr')" and "fresh_handles D"
  shows "balanced B (held (c\<lparr>vc_rms_bufs := bufs\<rparr>)) tr'"
proof -
  have "balanced (B + nonnull (slot_handles (vc_slots c)) + nonnull (all_bufs (vc_dot_bufs c))) (all_bufs (vc_rms_bufs c)) tr"
    using assms(1) by (simp add: held_def balanced_def ac_simps)
  from ensure_buffers_balanced [OF assms(2) this assms(3)] show ?thesis by (simp add: held_def balanced_def ac_simps)
qed

lemma held_filled:
  "all_bufs bufs' = all_bufs bufs \<Longrightarrow> held (c\<lparr>vc_dot_bufs := bufs'\<rparr>) = held (c\<lparr>vc_dot_bufs := bufs\<rparr>)"
  "all_bufs bufs' = all_bufs bufs \<Longrightarrow> held (c\<lparr>vc_rms_bufs := bufs'\<rparr>) = held (c\<lparr>vc_rms_bufs := bufs\<rparr>)"
  by (simp_all add: held_def)

lemma all_bufs_filled: "length bufs = 3 \<Longrightarrow> all_bufs (bufs[0 := set_mem (bufs ! 0) u, 1 := set_mem (bufs ! 1) v]) = all_bufs bufs"
  "length bufs = 3 \<Longrightarrow> all_bufs (bufs[0 := set_mem (bufs ! 0) u, 1 := set_mem (bufs ! 1) v, 2 := set_mem (bufs ! 2) w]) = all_bufs bufs"
  by (auto simp: eval_nat_numeral length_Suc_conv)

lemma vector_dot_balanced:
  assumes "vector_dot F D g a b n c tr = Inr (r, c', tr')" and "balanced B (held c) tr" and "fresh_handles D"
    and "vc_initialized c \<or> (\<forall>s. vc_slots c s = 0)" and "length (vc_dot_bufs c) = 3"
  shows "balanced B (held c') tr'"
proof (cases "a = None \<or> b = None \<or> n = 0")
  case True
  then show ?thesis using assms(1,2) by (auto simp: vector_dot_def split: option.splits)
next
  case False
  then obtain xs ys where ab: "a = Some xs" "b = Some ys" "n \<noteq> 0" by auto
  obtain ready c1 tr1 where st: "(if is_ready g then init_resources D g c tr else (False, c, tr)) = (ready, c1, tr1)" by (metis prod_cases3)
  note c1 = start_balanced [OF st assms(2-4)]
  obtain ok bufs tr2 where e: "ensure_buffers D g [n * 4, n * 4, 4] (vc_dot_bufs c1) tr1 = (ok, bufs, tr2)" by (metis prod_cases3)
  note c2 = dot_bufs_balanced [OF c1(1) e assms(3)]
  have len: "length bufs = 3" using ensure_buffers_length [OF e] c1(2) assms(5) by simp
  obtain outcome tr3 where o: "run_commands D tr2 = (outcome, tr3)" by fastforce
  note c3 = run_commands_balanced [OF c2 o]
  have "c' = c1 \<and> tr' = tr1 \<or> c' = c1\<lparr>vc_dot_bufs := bufs\<rparr> \<and> tr' = tr2 \<or>
      (\<exists>bufs'. c' = c1\<lparr>vc_dot_bufs := bufs'\<rparr> \<and> all_bufs bufs' = all_bufs bufs \<and> tr' = tr3)"
    using assms(1) ab(3) all_bufs_filled [OF len]
    unfolding vector_dot_def ab option.case prod.case st Let_def e o by (auto simp: sbind_Inr split: if_splits)
  then show ?thesis using c1(1) c2 c3 held_filled(1) by metis
qed

lemma compute_rmsnorm_balanced:
  assumes "compute_rmsnorm F D g x w y n eps c tr = Inr (r, c', tr')" and "balanced B (held c) tr" and "fresh_handles D"
    and "vc_initialized c \<or> (\<forall>s. vc_slots c s = 0)" and "length (vc_rms_bufs c) = 3"
  shows "balanced B (held c') tr'"
proof (cases "x = None \<or> y = None \<or> n = 0")
  case True
  then show ?thesis using assms(1,2) by (auto simp: compute_rmsnorm_def split: option.splits)
next
  case False
  then obtain xs ys where xy: "x = Some xs" "y = Some ys" "n \<noteq> 0" by auto
  obtain ready c1 tr1 where st: "(if is_ready g then init_resources D g c tr else (False, c, tr)) = (ready, c1, tr1)" by (metis prod_cases3)
  note c1 = start_balanced [OF st assms(2-4)]
  obtain ok bufs tr2 where e: "ensure_buffers D g [n * 4, n * 4, n * 4] (vc_rms_bufs c1) tr1 = (ok, bufs, tr2)" by (metis prod_cases3)
  note c2 = rms_bufs_balanced [OF c1(1) e assms(3)]
  have len: "length bufs = 3" using ensure_buffers_length [OF e] c1(3) assms(5) by simp
  obtain outcome tr3 where o: "run_commands D tr2 = (outcome, tr3)" by fastforce
  note c3 = run_commands_balanced [OF c2 o]
  have "c' = c1 \<and> tr' = tr1 \<or> c' = c1\<lparr>vc_rms_bufs := bufs\<rparr> \<and> tr' = tr2 \<or>
      (\<exists>bufs'. c' = c1\<lparr>vc_rms_bufs := bufs'\<rparr> \<and> all_bufs bufs' = all_bufs bufs \<and> tr' = tr3)"
    using assms(1) xy(3) all_bufs_filled [OF len]
    unfolding compute_rmsnorm_def xy option.case prod.case st Let_def e o by (auto simp: sbind_Inr split: if_splits)
  then show ?thesis using c1(1) c2 c3 held_filled(2) by metis
qed

section \<open>The sums\<close>

lemma strided_set: "set (strided i n) = {j. i \<le> j \<and> j < n \<and> j mod 256 = i mod 256}"
proof (induction i n rule: strided.induct)
  case (1 i n)
  show ?case
  proof (cases "n \<le> i")
    case False
    have "j = i \<or> i + 256 \<le> j" if "i \<le> j" "j mod 256 = i mod 256" for j
    proof -
      have "256 dvd j - i" using that by (metis mod_eq_dvd_iff_nat)
      then obtain k where k: "j - i = 256 * k" by (rule dvdE)
      then show ?thesis using that(1) by (cases k) auto
    qed
    moreover have "set (strided i n) = insert i (set (strided (i + 256) n))" using False by (subst strided.simps) simp
    ultimately show ?thesis using "1.IH" False by (auto simp: mod_add_self2)
  qed (subst strided.simps, auto)
qed

lemma strided_distinct: "distinct (strided i n)"
proof (induction i n rule: strided.induct)
  case (1 i n)
  then show ?case by (subst strided.simps) (auto simp: strided_set)
qed

lemma foldl_sum: "foldl (\<lambda>s i. s + f i) z xs = z + sum_list (map f xs)" for z :: "'a::comm_monoid_add"
  by (induction xs arbitrary: z) (auto simp: ac_simps)

lemma strided_sum: "t < 256 \<Longrightarrow> foldl (\<lambda>s i. s + item i) 0 (strided t n) = (\<Sum>i | i \<in> {..<n} \<and> i mod 256 = t. item i)" for item :: "nat \<Rightarrow> 'a::comm_monoid_add"
proof -
  assume t: "t < 256"
  have "set (strided t n) = {i. i \<in> {..<n} \<and> i mod 256 = t}" using t by (auto simp: strided_set)
  then show ?thesis using sum.distinct_set_conv_list [OF strided_distinct, of item t n] by (simp add: foldl_sum)
qed

lemma sum_split: "(\<Sum>t<d + m. f t) = (\<Sum>t<d. f t) + (\<Sum>t<m. f (t + d))" for f :: "nat \<Rightarrow> 'a::comm_monoid_add"
  by (induction m) (simp_all add: ac_simps)

lemma length_reduce_round [simp]: "length (reduce_round add cells d) = length cells"
  by (simp add: reduce_round_def)

lemma reduce_round_sum:
  fixes cells :: "'a::comm_monoid_add list"
  assumes "d + d \<le> length cells"
  shows "(\<Sum>t<d. reduce_round (+) cells d ! t) = (\<Sum>t<d + d. cells ! t)"
proof -
  have "(\<Sum>t<d. reduce_round (+) cells d ! t) = (\<Sum>t<d. cells ! t + cells ! (t + d))"
    by (rule sum.cong) (use assms in \<open>simp_all add: reduce_round_def\<close>)
  then show ?thesis by (simp add: sum_split sum.distrib)
qed

text \<open>The rounds with \<open>s = 2^(k-1), ..., 1\<close> leave the sum of the first \<open>2^k\<close> cells in the first one.\<close>

fun halvings :: "nat \<Rightarrow> nat list" where
  "halvings 0 = []"
| "halvings (Suc k) = 2 ^ k # halvings k"

lemma reduction_sum:
  fixes cells :: "'a::comm_monoid_add list"
  shows "2 ^ k \<le> length cells \<Longrightarrow> foldl (reduce_round (+)) cells (halvings k) ! 0 = (\<Sum>t<2 ^ k. cells ! t)"
proof (induction k arbitrary: cells)
  case (Suc k)
  have "2 ^ k + 2 ^ k \<le> length cells" using Suc.prems by simp
  from reduce_round_sum [OF this] Suc.IH [of "reduce_round (+) cells (2 ^ k)"] Suc.prems show ?case by (simp add: mult_2)
qed simp

lemma workgroup_sum_exact: "workgroup_sum (+) 0 item n = (\<Sum>i<n. item i)" for item :: "nat \<Rightarrow> 'a::comm_monoid_add"
proof -
  let ?cells = "map (\<lambda>tid. foldl (\<lambda>s i. s + item i) 0 (strided tid n)) [0..<256]"
  have h: "[128, 64, 32, 16, 8, 4, 2, 1] = halvings 8" by (simp add: eval_nat_numeral)
  have "workgroup_sum (+) 0 item n = (\<Sum>t<256. ?cells ! t)" unfolding workgroup_sum_def h using reduction_sum [of 8 ?cells] by simp
  also have "\<dots> = (\<Sum>t<256. \<Sum>i | i \<in> {..<n} \<and> i mod 256 = t. item i)" by (rule sum.cong) (simp_all add: strided_sum)
  also have "\<dots> = (\<Sum>i<n. item i)" by (rule sum.group) auto
  finally show ?thesis .
qed

lemma workgroup_sum_cong: "(\<And>i. i < n \<Longrightarrow> f i = g i) \<Longrightarrow> workgroup_sum add zero f n = workgroup_sum add zero g n"
proof -
  assume fg: "\<And>i. i < n \<Longrightarrow> f i = g i"
  have "foldl (\<lambda>s i. add s (f i)) zero (strided tid n) = foldl (\<lambda>s i. add s (g i)) zero (strided tid n)" for tid
    by (rule foldl_cong) (auto simp: strided_set fg)
  then show ?thesis by (simp add: workgroup_sum_def)
qed

definition dot :: "'a::comm_semiring_0 list \<Rightarrow> 'a list \<Rightarrow> 'a" where
  "dot a b = sum_list (map (\<lambda>p. fst p * snd p) (zip a b))"

lemma fma_lanes_sum:
  "length a = length b \<Longrightarrow> length b = length acc \<Longrightarrow>
     sum_list (map (\<lambda>t. fst t * fst (snd t) + snd (snd t)) (zip a (zip b acc))) = dot a b + sum_list acc"
  for acc :: "'a::comm_semiring_0 list"
  by (induction a b acc rule: list_induct3) (simp_all add: dot_def ac_simps)

lemma dot_rounds_sum:
  fixes acc :: "'a::comm_semiring_0 list"
  shows "dot_rounds (\<lambda>x y z. x * y + z) a b acc = (tmp, a', b') \<Longrightarrow> length a = length b \<Longrightarrow> length acc = 8 \<Longrightarrow>
    length tmp = 8 \<and> sum_list tmp + dot a' b' = sum_list acc + dot a b"
proof (induction "\<lambda>x y z :: 'a. x * y + z" a b acc rule: dot_rounds.induct)
  case (1 a b acc)
  show ?case
  proof (cases "length a < 8")
    case False
    let ?acc = "map (\<lambda>t. fst t * fst (snd t) + snd (snd t)) (zip (take 8 a) (zip (take 8 b) acc))"
    have s: "sum_list ?acc = dot (take 8 a) (take 8 b) + sum_list acc" by (rule fma_lanes_sum) (use False "1.prems" in auto)
    have ab: "dot (take 8 a) (take 8 b) + dot (drop 8 a) (drop 8 b) = dot a b"
    proof -
      have "zip (take 8 a) (take 8 b) @ zip (drop 8 a) (drop 8 b) = zip a b"
        unfolding take_zip [symmetric] drop_zip [symmetric] by (rule append_take_drop_id)
      then show ?thesis by (simp add: dot_def flip: sum_list_append map_append)
    qed
    have "dot_rounds (\<lambda>x y z. x * y + z) (drop 8 a) (drop 8 b) ?acc = (tmp, a', b')"
      using "1.prems"(1) False by (subst (asm) dot_rounds.simps) simp
    from "1.hyps" [OF False this] have "length tmp = 8 \<and> sum_list tmp + dot a' b' = sum_list ?acc + dot (drop 8 a) (drop 8 b)"
      using False "1.prems"(2,3) by simp
    then show ?thesis unfolding s ab [symmetric] by (simp add: ac_simps)
  next
    case True
    then show ?thesis using "1.prems" by (subst (asm) dot_rounds.simps) simp
  qed
qed

lemma avx2_dot_exact:
  fixes a :: "'a::comm_semiring_0 list"
  assumes "length a = length b"
  shows "avx2_dot_product_fp32 (+) (*) (\<lambda>x y z. x * y + z) 0 a b = dot a b"
proof -
  obtain tmp a' b' where r: "dot_rounds (\<lambda>x y z. x * y + z) a b (replicate 8 0) = (tmp, a', b')" by (metis prod_cases3)
  have t: "length tmp = 8 \<and> sum_list tmp + dot a' b' = dot a b" using dot_rounds_sum [OF r assms] by (simp add: eval_nat_numeral)
  then obtain x xs where x: "tmp = x # xs" by (cases tmp) auto
  have "foldl (+) x xs = x + sum_list xs" using foldl_sum [of id x xs] by simp
  then show ?thesis using t x foldl_sum [of "\<lambda>p. fst p * snd p" "x + sum_list xs" "zip a' b'"]
    by (simp add: avx2_dot_product_fp32_def r dot_def)
qed

lemma dot_sum: "length a = length b \<Longrightarrow> dot a b = (\<Sum>i<length a. a ! i * b ! i)"
  by (simp add: dot_def sum_list_sum_nth lessThan_atLeast0)

section \<open>Dispatch leaves nothing behind\<close>

text \<open>\<open>VulkanDevice::init_vulkan\<close> sets \<open>available_\<close> after the device was created.\<close>

definition wf_gpu :: "gpu_device option \<Rightarrow> bool" where
  "wf_gpu g \<longleftrightarrow> (\<forall>d. g = Some d \<and> gd_available d \<longrightarrow> gd_device d \<noteq> 0)"

lemma wf_gpu_ready: "wf_gpu g \<Longrightarrow> is_ready g \<Longrightarrow> vk_device g \<noteq> 0"
  by (auto simp: wf_gpu_def is_ready_def vk_device_def split: option.splits)

lemma new_compute_balanced: "balanced B (held new_compute) tr \<longleftrightarrow> clean_trace tr \<and> mset (live tr) = B"
  by (simp add: balanced_def held_def new_compute_def slot_handles_def destroy_order_def eval_nat_numeral)

lemma new_compute_simps:
  "vc_slots new_compute s = 0" "length (vc_dot_bufs new_compute) = 3" "length (vc_rms_bufs new_compute) = 3"
  "list_all buffer_ok (vc_dot_bufs new_compute)"
  by (simp_all add: new_compute_def buffer_ok_def null_buffer_def list_all_iff)

lemma unready_untouched:
  "\<not> is_ready g \<Longrightarrow> vector_dot F D g a b n c tr = Inr (r, c', tr') \<Longrightarrow> tr' = tr"
  "\<not> is_ready g \<Longrightarrow> compute_rmsnorm F D g x w y n eps c tr = Inr (q, c', tr') \<Longrightarrow> tr' = tr"
  by (auto simp: vector_dot_def compute_rmsnorm_def sbind_Inr split: option.splits if_splits)

lemma destructor_balanced:
  assumes "wf_gpu g" and "is_ready g \<longrightarrow> balanced B (held c) tr1" and "vk_device g \<noteq> 0 \<longrightarrow> balanced B (held c) tr1" and "\<not> is_ready g \<longrightarrow> tr1 = tr"
    and "clean_trace tr" and "B = mset (live tr)"
  shows "balanced B [] (snd (cleanup_resources g c tr1))"
proof (cases "vk_device g = 0")
  case True
  then show ?thesis using assms wf_gpu_ready [OF assms(1)] by (auto simp: cleanup_resources_def balanced_def)
qed (use assms(3) cleanup_balanced in blast)

lemma dispatch_dot_balanced:
  assumes "fresh_handles D" and "wf_gpu g" and "clean_trace tr" and "vector_dot F D g a b n new_compute tr = Inr (r, c, tr1)"
  shows "balanced (mset (live tr)) [] (snd (cleanup_resources g c tr1))"
proof -
  have "balanced (mset (live tr)) (held c) tr1"
    by (rule vector_dot_balanced [OF assms(4)]) (use assms(1,3) in \<open>simp_all add: new_compute_balanced new_compute_simps\<close>)
  then show ?thesis using destructor_balanced [OF assms(2), of _ c tr1 tr] unready_untouched(1) [OF _ assms(4)] assms(3) by blast
qed

lemma dispatch_rmsnorm_balanced:
  assumes "fresh_handles D" and "wf_gpu g" and "clean_trace tr" and "compute_rmsnorm F D g x w y n eps new_compute tr = Inr (r, c, tr1)"
  shows "balanced (mset (live tr)) [] (snd (cleanup_resources g c tr1))"
proof -
  have "balanced (mset (live tr)) (held c) tr1"
    by (rule compute_rmsnorm_balanced [OF assms(4)]) (use assms(1,3) in \<open>simp_all add: new_compute_balanced new_compute_simps\<close>)
  then show ?thesis using destructor_balanced [OF assms(2), of _ c tr1 tr] unready_untouched(2) [OF _ assms(4)] assms(3) by blast
qed


section \<open>The result of a dispatch\<close>

lemma memcpy_room: "4 * k = unat bytes \<Longrightarrow> k \<le> length dst \<Longrightarrow> k \<le> length src \<Longrightarrow> memcpy dst src bytes = Inr (take k src @ drop k dst)"
proof -
  assume a: "4 * k = unat bytes" "k \<le> length dst" "k \<le> length src"
  have "unat bytes div 4 = k" using a(1) by simp
  then show ?thesis using a(2,3) by (simp add: memcpy_def)
qed

lemma dot_bufs_room:
  assumes "ensure_buffers D g [n * 4, n * 4, 4] (vc_dot_bufs new_compute) tr = (True, bufs, tr')" and "maps_whole D" and "unat n < 2 ^ 32"
  shows "unat (n * 4) = 4 * unat n" "unat n \<le> length (mem_of (bufs ! 0))" "unat n \<le> length (mem_of (bufs ! 1))" "mem_of (bufs ! 2) \<noteq> []"
proof -
  show n4: "unat (n * 4) = 4 * unat n" using assms(3) by (simp add: unat_word_ariths)
  have "list_all2 (\<lambda>sz b. unat sz \<le> 4 * length (mem_of b)) [n * 4, n * 4, 4] bufs"
    by (rule ensure_buffers_room [OF assms(1)]) (use assms(2,3) n4 in \<open>simp_all add: new_compute_simps\<close>)
  note all = list_all2_nthD [OF this]
  show "unat n \<le> length (mem_of (bufs ! 0))" "unat n \<le> length (mem_of (bufs ! 1))" "mem_of (bufs ! 2) \<noteq> []"
    using all [of 0] all [of 1] all [of 2] n4 by auto
qed

lemma vector_dot_result:
  assumes "maps_whole D" and "never_lost D" and "n \<noteq> 0" and "unat n \<le> length a" and "unat n \<le> length b" and "unat n < 2 ^ 32"
  shows "\<exists>r c tr'. vector_dot F D g (Some a) (Some b) n new_compute tr = Inr ((True, r), c, tr') \<and>
    (r = shader_dot (f_add F) (f_mul F) f_zero a b (unat n) \<or>
     r = avx2_dot_product_fp32 (f_add F) (f_mul F) (f_fma F) f_zero (take (unat n) a) (take (unat n) b))"
proof -
  obtain ready c1 tr1 where st: "(if is_ready g then init_resources D g new_compute tr else (False, new_compute, tr)) = (ready, c1, tr1)"
    by (metis prod_cases3)
  have bufs: "vc_dot_bufs c1 = vc_dot_bufs new_compute" using st init_resources_bufs by (auto split: if_splits)
  obtain ok bufs tr2 where e: "ensure_buffers D g [n * 4, n * 4, 4] (vc_dot_bufs c1) tr1 = (ok, bufs, tr2)" by (metis prod_cases3)
  obtain outcome tr3 where o: "run_commands D tr2 = (outcome, tr3)" by fastforce
  have cpu: "cpu_dot F a b n = Inr (avx2_dot_product_fp32 (f_add F) (f_mul F) (f_fma F) f_zero (take (unat n) a) (take (unat n) b))"
    using assms(4,5) by (simp add: cpu_dot_def)
  have count: "unat (ucast n :: u32) = unat n" using assms(6) by (simp add: unsigned_ucast_eq take_bit_nat_eq_self)
  have fin: "outcome \<noteq> Lost" using o assms(2) by (auto simp: run_commands_def never_lost_def Let_def split: option.splits if_splits)
  show ?thesis
  proof (cases "ready \<and> ok")
    case False
    then show ?thesis using assms(3) unfolding vector_dot_def option.case prod.case st Let_def e cpu by auto
  next
    case True
    have "ensure_buffers D g [n * 4, n * 4, 4] (vc_dot_bufs new_compute) tr1 = (True, bufs, tr2)" using e True bufs by simp
    note room = dot_bufs_room [OF this assms(1,6)]
    let ?ma = "take (unat n) a @ drop (unat n) (mem_of (bufs ! 0))" and ?mb = "take (unat n) b @ drop (unat n) (mem_of (bufs ! 1))"
    have cp: "memcpy (mem_of (bufs ! 0)) a (n * 4) = Inr ?ma" "memcpy (mem_of (bufs ! 1)) b (n * 4) = Inr ?mb"
      by (rule memcpy_room; use room assms(4,5) in simp)+
    have sh: "shader_dot (f_add F) (f_mul F) f_zero ?ma ?mb (unat n) = shader_dot (f_add F) (f_mul F) f_zero a b (unat n)"
      unfolding shader_dot_def by (rule workgroup_sum_cong) (use assms(4,5) in \<open>simp add: nth_append\<close>)
    have z: "(mem_of (bufs ! 2))[0 := v] ! 0 = v" for v using room(4) by simp
    show ?thesis using True assms(3) room(4) fin
      unfolding vector_dot_def option.case prod.case st Let_def e cp sbind_simps o count sh cpu by (auto simp: z)
  qed
qed

text \<open>
  A dispatched dot product always answers: for arrays with at least \<open>n\<close> elements and a driver that runs what it accepts, the result is that
  of the shader or that of the AVX2 loop, whatever the driver refuses.
\<close>

theorem dispatch_dot_delivers:
  assumes "fresh_handles D" and "maps_whole D" and "never_lost D" and "wf_gpu g" and "clean_trace tr"
    and "n \<noteq> 0" and "unat n \<le> length a" and "unat n \<le> length b" and "unat n + 256 \<le> 2 ^ 32"
  shows "\<exists>r tr'. dispatch_vector_dot F D g (Some a) (Some b) n tr = Inr ((True, r), tr') \<and>
    (r = shader_dot (f_add F) (f_mul F) f_zero a b (unat n) \<or>
     r = avx2_dot_product_fp32 (f_add F) (f_mul F) (f_fma F) f_zero (take (unat n) a) (take (unat n) b)) \<and>
    clean_trace tr' \<and> mset (live tr') = mset (live tr)"
proof -
  have "unat n < 2 ^ 32" using assms(9) by simp
  from vector_dot_result [OF assms(2,3,6-8) this, of F g tr] obtain r c tr1
    where v: "vector_dot F D g (Some a) (Some b) n new_compute tr = Inr ((True, r), c, tr1)"
      "r = shader_dot (f_add F) (f_mul F) f_zero a b (unat n) \<or>
       r = avx2_dot_product_fp32 (f_add F) (f_mul F) (f_fma F) f_zero (take (unat n) a) (take (unat n) b)" by blast
  have "balanced (mset (live tr)) [] (snd (cleanup_resources g c tr1))" by (rule dispatch_dot_balanced [OF assms(1,4,5) v(1)])
  then show ?thesis using v(2) by (auto simp: dispatch_vector_dot_def v(1) balanced_def)
qed

text \<open>
  C38. The two routes compute the same function: with exact arithmetic the 256 invocations of the shader with their reduction in shared memory and the eight
  lanes of the AVX2 loop both give the dot product.
\<close>

theorem dot_routes_agree:
  fixes a b :: "'a::comm_semiring_0 list"
  assumes "length a = length b"
  shows "shader_dot (+) (*) 0 a b (length a) = (\<Sum>i<length a. a ! i * b ! i) \<and>
    avx2_dot_product_fp32 (+) (*) (\<lambda>x y z. x * y + z) 0 a b = (\<Sum>i<length a. a ! i * b ! i)"
  by (simp add: shader_dot_def workgroup_sum_exact avx2_dot_exact [OF assms] dot_sum [OF assms])

theorem dot_routes_agree_witness:
  "shader_dot (+) (*) 0 [1, 2, 3 :: int] [4, 5, 6] 3 = 32 \<and> avx2_dot_product_fp32 (+) (*) (\<lambda>x y z. x * y + z) 0 [1, 2, 3 :: int] [4, 5, 6] = 32"
  using dot_routes_agree [of "[1, 2, 3 :: int]" "[4, 5, 6]"] by (simp add: eval_nat_numeral)

section \<open>Examples\<close>

text \<open>A driver that numbers its objects and refuses what \<open>refuse\<close> says, and a device with one host-visible memory type.\<close>

definition demo_driver :: "(vk_trace \<Rightarrow> vk_kind \<Rightarrow> bool) \<Rightarrow> vk_driver" where
  "demo_driver refuse =
     \<lparr>drv_create = (\<lambda>tr k. if refuse tr k then None else Some (Suc (sum_list (map snd (live tr))))), drv_type_bits = (\<lambda>_. 1),
      drv_map = (\<lambda>tr m sz. Some (replicate (unat sz) 0)), drv_submit = (\<lambda>_. True), drv_finish = (\<lambda>_. True)\<rparr>"

definition demo_gpu_device :: "gpu_device option" where
  "demo_gpu_device = Some \<lparr>gd_available = True, gd_device = 1, gd_compute_queue = 1, gd_memory_types = [6]\<rparr>"

lemma demo_driver_ok: "fresh_handles (demo_driver refuse)" "maps_whole (demo_driver refuse)" "never_lost (demo_driver refuse)"
proof -
  have "h \<le> sum_list (map snd hs)" if "(k, h) \<in> set hs" for k :: vk_kind and h :: nat and hs
    using that member_le_sum_list [of h "map snd hs"] by force
  then show "fresh_handles (demo_driver refuse)" by (fastforce simp: fresh_handles_def demo_driver_def)
qed (simp_all add: demo_driver_def maps_whole_def never_lost_def)

lemma demo_gpu_ok: "wf_gpu demo_gpu_device" "is_ready demo_gpu_device"
  by (simp_all add: wf_gpu_def demo_gpu_device_def is_ready_def)

theorem dispatch_dot_delivers_witness:
  "\<exists>r tr'. dispatch_vector_dot demo_floats (demo_driver (\<lambda>tr k. k = Device_Memory)) demo_gpu_device (Some [1, 2]) (Some [3, 4]) 2 [] = Inr ((True, r), tr') \<and> live tr' = []"
  using dispatch_dot_delivers [OF demo_driver_ok demo_gpu_ok(1), of "[]" 2 "[1, 2]" "[3, 4]" demo_floats "\<lambda>tr k. k = Device_Memory"] by force


section \<open>What goes wrong\<close>

text \<open>
  An interrupted start leaks: when the creation of the pipelines fails after the descriptor pool was made, the next call on the same
  object makes a second pool over the handle of the first, which no clean-up destroys.
\<close>

theorem interrupted_start_leaks:
  assumes "fresh_handles D" and "wf_gpu g" and "is_ready g" and "clean_trace tr"
    and "init_resources D g new_compute tr = (False, c1, tr1)" and "vc_slots c1 Desc_Pool \<noteq> 0"
    and "drv_create D tr1 Descriptor_Pool \<noteq> None" and "init_resources D g c1 tr1 = (ok, c2, tr2)"
  shows "add_mset (Descriptor_Pool, vc_slots c1 Desc_Pool) (mset (live tr)) \<subseteq># mset (live (snd (cleanup_resources g c2 tr2)))"
proof -
  let ?B = "mset (live tr)" and ?p = "(Descriptor_Pool, vc_slots c1 Desc_Pool)"
  let ?bufs = "nonnull (all_bufs (vc_dot_bufs c1)) + nonnull (all_bufs (vc_rms_bufs c1))"
  have b1: "balanced ?B (held c1) tr1"
    using init_resources_balanced [OF assms(5) _ assms(1), of ?B] assms(4) by (auto simp: new_compute_balanced new_compute_simps)
  then have s1: "balanced (?B + ?bufs) (slot_handles (vc_slots c1)) tr1" by (simp add: held_def balanced_append)
  obtain h where h: "drv_create D tr1 (kind_of Desc_Pool) = Some h" using assms(7) by auto
  have u: "\<not> vc_initialized c1" using assms(3,5) by (auto simp: init_resources_def split: if_splits prod.splits)
  obtain slots where a: "create_all D init_order (vc_slots c1) tr1 = (ok, slots, tr2)" "c2 = c1\<lparr>vc_slots := slots, vc_initialized := ok\<rparr>"
    using assms(3,8) u by (auto simp: init_resources_def split: prod.splits)
  have rest: "create_all D (tl init_order) ((vc_slots c1)(Desc_Pool := h)) (Created Descriptor_Pool h # tr1) = (ok, slots, tr2)" "distinct (tl init_order)"
    using a(1) h by (simp_all add: init_order_def)
  have "balanced (?B + ?bufs + {#?p#}) (slot_handles ((vc_slots c1)(Desc_Pool := h))) (Created Descriptor_Pool h # tr1)"
    using balanced_slot [OF s1 h assms(1)] assms(6) by simp
  from create_all_balanced [OF rest(1) this assms(1) rest(2)]
  obtain E where "balanced (?B + ?bufs + {#?p#} + E) (slot_handles slots) tr2" by blast
  then have "balanced (?B + {#?p#} + E) (held c2) tr2" using a(2) by (simp add: held_def balanced_def ac_simps)
  from cleanup_balanced [OF wf_gpu_ready [OF assms(2,3)] this] show ?thesis by (simp add: balanced_def)
qed

lemma demo_interrupted:
  "init_resources (demo_driver (\<lambda>tr k. k = Set_Layout \<and> Refused Set_Layout \<notin> set tr)) demo_gpu_device new_compute [] =
     (False, new_compute\<lparr>vc_slots := (\<lambda>_. 0)(Desc_Pool := 1)\<rparr>, [Refused Set_Layout, Created Descriptor_Pool 1])"
  by (simp add: init_resources_def demo_gpu_ok init_order_def demo_driver_def new_compute_def)

theorem interrupted_start_leaks_witness:
  "\<exists>ok c2 tr2. init_resources (demo_driver (\<lambda>tr k. k = Set_Layout \<and> Refused Set_Layout \<notin> set tr)) demo_gpu_device
       (new_compute\<lparr>vc_slots := (\<lambda>_. 0)(Desc_Pool := 1)\<rparr>) [Refused Set_Layout, Created Descriptor_Pool 1] = (ok, c2, tr2) \<and>
     {#(Descriptor_Pool, 1)#} \<subseteq># mset (live (snd (cleanup_resources demo_gpu_device c2 tr2)))"
proof -
  let ?D = "demo_driver (\<lambda>tr k. k = Set_Layout \<and> Refused Set_Layout \<notin> set tr)" and ?tr1 = "[Refused Set_Layout, Created Descriptor_Pool 1]"
  obtain ok c2 tr2 where r: "init_resources ?D demo_gpu_device (new_compute\<lparr>vc_slots := (\<lambda>_. 0)(Desc_Pool := 1)\<rparr>) ?tr1 = (ok, c2, tr2)" by (metis prod_cases3)
  have "drv_create ?D ?tr1 Descriptor_Pool \<noteq> None" by (simp add: demo_driver_def)
  with interrupted_start_leaks [OF demo_driver_ok(1) demo_gpu_ok _ demo_interrupted _ _ r] r show ?thesis by auto
qed

text \<open>
  Null weights are let through by the test of the arguments, which looks at \<open>x\<close> and \<open>y\<close> only, and every route then reads through the null pointer.
\<close>

lemma sint_small: "unat n < 2 ^ 31 \<Longrightarrow> sint (ucast n :: 32 word) = int (unat n)" for n :: size_t
proof -
  assume n: "unat n < 2 ^ 31"
  have "unat (ucast n :: 32 word) = unat n" using n by (simp add: unsigned_ucast_eq take_bit_nat_eq_self)
  then have "uint (ucast n :: 32 word) = int (unat n)" by (metis int_nat_eq nat_uint_eq uint_ge_0)
  then have "sint (ucast n :: 32 word) = signed_take_bit 31 (int (unat n))" by (simp add: sint_uint)
  moreover have "int (unat n) < 2 ^ 31" using n by (metis of_nat_less_iff of_nat_numeral of_nat_power)
  moreover have "- (2 ^ 31) \<le> int (unat n)" by (rule order_trans [of _ 0]) (simp, rule of_nat_0_le_iff)
  ultimately show ?thesis by (metis signed_take_bit_int_eq_self)
qed

theorem null_weights_fault:
  assumes "n \<noteq> 0" and "unat n < 2 ^ 31"
  shows "\<exists>e. dispatch_rmsnorm F D g (Some x) None (Some y) n eps tr = Inl e"
proof -
  have "0 < sint (ucast n :: 32 word)" using assms(1) sint_small [OF assms(2)] by (metis of_nat_0_less_iff unat_gt_0)
  then have cpu: "\<exists>e. cpu_rmsnorm F x None y n eps = Inl e" by (auto simp: cpu_rmsnorm_def Let_def)
  have "\<nexists>r. compute_rmsnorm F D g (Some x) None (Some y) n eps new_compute tr = Inr r"
    using cpu assms(1) by (auto simp: compute_rmsnorm_def Let_def sbind_Inr split: prod.splits if_splits)
  then show ?thesis by (cases "compute_rmsnorm F D g (Some x) None (Some y) n eps new_compute tr") (auto simp: dispatch_rmsnorm_def)
qed

text \<open>A lost device is not noticed: the wait is not looked at, and the call reports success with whatever the output buffer held.\<close>

theorem lost_device_unnoticed:
  assumes "maps_whole D" and "n \<noteq> 0" and "unat n \<le> length a" and "unat n \<le> length b" and "unat n < 2 ^ 32"
    and "init_resources D g new_compute tr = (True, c1, tr1)" and "is_ready g"
    and "ensure_buffers D g [n * 4, n * 4, 4] (vc_dot_bufs new_compute) tr1 = (True, bufs, tr2)" and "run_commands D tr2 = (Lost, tr3)"
  shows "\<exists>c tr'. vector_dot F D g (Some a) (Some b) n new_compute tr = Inr ((True, mem_of (bufs ! 2) ! 0), c, tr')"
proof -
  note room = dot_bufs_room [OF assms(8,1,5)]
  have cp: "\<exists>ma. memcpy (mem_of (bufs ! 0)) a (n * 4) = Inr ma" "\<exists>mb. memcpy (mem_of (bufs ! 1)) b (n * 4) = Inr mb"
    using memcpy_room [of "unat n" "n * 4"] room assms(3,4) by auto
  have "vc_dot_bufs c1 = vc_dot_bufs new_compute" using init_resources_bufs [OF assms(6)] by simp
  then show ?thesis using assms(2,6-9) room(4) cp by (auto simp: vector_dot_def Let_def)
qed

end
