(* ===== verification/Model_Cli.thy ===== *)
theory Model_Cli
  imports Panel_Models
begin

text \<open>
  The command line of the model tools (\<open>model_cli.cpp\<close>): inspection, registration with roles, the list of models, and the binding and switching of roles.

  A command gives what it writes to the two output streams and the inventory it leaves; \<open>None\<close> is an exception of the inspection, which ends the program.
\<close>

record cli_env =
  mc_os :: os_env
  mc_paths :: path_service
  mc_print :: "nat \<Rightarrow> nat \<Rightarrow> u64 \<Rightarrow> string"
  mc_disk :: "string \<Rightarrow> u8 list option option"
  mc_view :: disk_view
  mc_ok :: bool
  mc_now :: int

record cli_result =
  cr_out :: string
  cr_err :: string
  cr_db :: model_db

definition line :: "string \<Rightarrow> string" where
  "line s = s @ [CHR 0x0A]"

definition cli_paths :: "cli_env \<Rightarrow> string \<Rightarrow> path_service" where
  "cli_paths C base_dir = with_base_dir base_dir (mc_paths C)"

definition says :: "string \<Rightarrow> model_db \<Rightarrow> cli_result" where
  "says text db = \<lparr>cr_out = text, cr_err = [], cr_db = db\<rparr>"

definition complains :: "string \<Rightarrow> model_db \<Rightarrow> cli_result" where
  "complains text db = \<lparr>cr_out = [], cr_err = text, cr_db = db\<rparr>"

section \<open>Words\<close>

text \<open>\<open>getline\<close> with a delimiter, empty pieces left out; \<open>cur\<close> is the piece read so far.\<close>

fun split_at :: "char \<Rightarrow> string \<Rightarrow> string \<Rightarrow> string list" where
  "split_at d cur [] = (if cur = [] then [] else [cur])"
| "split_at d cur (c # cs) = (if c = d then (if cur = [] then [] else [cur]) @ split_at d [] cs else split_at d (cur @ [c]) cs)"

definition split_list :: "string \<Rightarrow> char \<Rightarrow> string list" where
  "split_list s d = split_at d [] s"

text \<open>The options after the file name: the last \<open>--id\<close> and the last \<open>--roles\<close> count, everything else is skipped.\<close>

fun register_options :: "string list \<Rightarrow> string \<times> string list \<Rightarrow> string \<times> string list" where
  "register_options (arg # v # rest) (mid, roles) =
     (if arg = ''--id'' then register_options rest (v, roles)
      else if arg = ''--roles'' then register_options rest (mid, split_list v (CHR '',''))
      else register_options (v # rest) (mid, roles))"
| "register_options args opts = opts"

fun bind_options :: "string list \<Rightarrow> string \<Rightarrow> string" where
  "bind_options [] mid = mid"
| "bind_options [arg] mid = (if mid = [] \<and> (arg = [] \<or> hd arg \<noteq> CHR ''-'') then arg else mid)"
| "bind_options (arg # v # rest) mid =
     (if arg = ''--model'' then bind_options rest v
      else bind_options (v # rest) (if mid = [] \<and> (arg = [] \<or> hd arg \<noteq> CHR ''-'') then arg else mid))"

section \<open>Inspection\<close>

definition sep_line :: string where
  "sep_line = ''============================================================''"

fun comma_separated :: "string list \<Rightarrow> string" where
  "comma_separated [] = []"
| "comma_separated [r] = r"
| "comma_separated (r # rs) = r @ '', '' @ comma_separated rs"

definition inspection_report :: "string \<Rightarrow> model_inspection \<Rightarrow> string" where
  "inspection_report path res =
     line [] @ line ''================ DenseLite Model Inspection ================'' @ line ('' File:           '' @ path) @
     (if \<not> mi_is_valid res then
        line ('' Status:         INVALID ('' @ mi_error_message res @ '')'') @ line sep_line @ line []
      else
        line ('' Architecture:   '' @ mi_architecture res) @
        line ('' Parameters:     '' @ mi_param_size_str res @ '' ('' @ nat_digits (unat (mi_param_count res)) @ '' raw)'') @
        line ('' Quantization:   '' @ mi_quant_type res) @
        line ('' Context Length: '' @ nat_digits (unat (mi_context_length res))) @
        line ('' Edge Size Cap:  '' @ (if supported_edge_size res then ''PASS (<= 1.85B)'' else ''FAIL (> 1.85B)'')) @
        '' Compatible:     '' @ line (comma_separated (mi_compatible_roles res)) @ line sep_line @ line [])"

definition handle_inspect :: "cli_env \<Rightarrow> string \<Rightarrow> model_db \<Rightarrow> cli_result option" where
  "handle_inspect C filepath db =
     (let path = expand_user (mc_os C) filepath
      in map_option (\<lambda>res. says (inspection_report path res) db) (inspect (mc_print C) (mc_disk C) path))"

section \<open>Registration\<close>

definition role_compatible :: "model_inspection \<Rightarrow> string \<Rightarrow> bool" where
  "role_compatible insp role \<longleftrightarrow> list_ex (\<lambda>r. r = role) (mi_compatible_roles insp)"

definition bind_all :: "cli_env \<Rightarrow> string \<Rightarrow> string list \<Rightarrow> model_db \<Rightarrow> model_db" where
  "bind_all C mid roles db = fold (\<lambda>r db. snd (bind_role (mc_ok C) (mc_now C) r mid True db)) roles db"

definition registered_report :: "string \<Rightarrow> string \<Rightarrow> model_inspection \<Rightarrow> string list \<Rightarrow> string" where
  "registered_report mid path insp roles =
     line (''[Registry] Model '' @ [CHR 0x27] @ mid @ [CHR 0x27] @ '' registered successfully.'') @ line (''  Path:  '' @ path) @
     line (''  Arch:  '' @ mi_architecture insp @ '' ('' @ mi_param_size_str insp @ '')'') @ ''  Roles: '' @ line (concat (map (\<lambda>r. r @ '' '') roles))"

definition handle_register :: "cli_env \<Rightarrow> string \<Rightarrow> string \<Rightarrow> string list \<Rightarrow> model_db \<Rightarrow> cli_result option" where
  "handle_register C base_dir file args db =
     (let filepath = expand_user (mc_os C) file;
          (given, roles) = register_options args ([], []);
          mid = (if given = [] then stem_of (filename_of filepath) else given)
      in case inspect (mc_print C) (mc_disk C) filepath of
           None \<Rightarrow> None
         | Some insp \<Rightarrow> Some (
             if \<not> mi_is_valid insp then complains (line (''[Registry Error] Cannot register invalid GGUF model: '' @ mi_error_message insp)) db
             else if \<not> supported_edge_size insp then
               complains (line (''[Registry Error] Model parameter count ('' @ mi_param_size_str insp @ '') exceeds DenseLite edge budget (<= 1.85B).'')) db
             else case find (\<lambda>r. \<not> role_compatible insp r) roles of
                 Some r \<Rightarrow> complains (line (''[Registry Error] Model architecture '' @ [CHR 0x27] @ mi_architecture insp @ [CHR 0x27] @ '' is incompatible with role: '' @ r)) db
               | None \<Rightarrow>
                   let (ok, db1) = register_model (mc_ok C) (mc_now C) (record_of mid filepath insp) db
                   in if \<not> ok then complains (line (''[Registry Error] Failed to persist model record in '' @ settings_db (cli_paths C base_dir))) db1
                      else says (registered_report mid filepath insp roles) (bind_all C mid roles db1)))"

section \<open>The list\<close>

text \<open>\<open>std::left\<close> with \<open>setw(12)\<close>.\<close>

definition pad12 :: "string \<Rightarrow> string" where
  "pad12 s = s @ replicate (12 - length s) (CHR '' '')"

definition model_lines :: "local_model \<Rightarrow> string" where
  "model_lines m =
     line ('' ID:           '' @ lm_model_id m) @ line ('' File:         '' @ lm_file_path m) @ line ('' Architecture: '' @ lm_architecture m) @
     line ('' Parameters:   '' @ lm_param_size_str m) @ line ('' Quantization: '' @ lm_quant_type m) @
     line ('' Context:      '' @ nat_digits (unat (lm_context_length m))) @
     line ('' Status:       '' @ (if lm_is_verified m then ''VERIFIED'' else ''UNVERIFIED'')) @
     line '' ------------------------------------------------------------''"

definition binding_line :: "role_binding \<Rightarrow> string" where
  "binding_line b =
     line ('' Role: ['' @ pad12 (rb_role b) @ ''] -> Model: '' @ rb_model_id b @ '' (Active: '' @ (if rb_is_active b then ''YES'' else ''NO'') @ '')'')"

definition handle_list :: "cli_env \<Rightarrow> string \<Rightarrow> model_db \<Rightarrow> cli_result" where
  "handle_list C base_dir db =
     (let (n, db1) = auto_discover_and_register (mc_view C) (cli_paths C base_dir) base_dir db;
          models = get_all_models db1; bindings = get_all_role_bindings False db1
      in says
           (line [] @ line ''================ DenseLite Registered Models ================'' @
            (if models = [] then line ('' (No local models registered in '' @ settings_db (cli_paths C base_dir) @ '')'') else []) @ concat (map model_lines models) @
            line [] @ line ''================ Active Role Bindings ================'' @
            (if bindings = [] then line '' (No active roles assigned. Using fallback .env models)'' else []) @ concat (map binding_line bindings) @
            line ''======================================================='' @ line [])
           db1)"

section \<open>Roles\<close>

definition handle_bind_role :: "cli_env \<Rightarrow> string \<Rightarrow> string list \<Rightarrow> model_db \<Rightarrow> cli_result" where
  "handle_bind_role C role args db =
     (let mid = bind_options args []
      in if mid = [] then complains (line ''[Registry Error] Usage: --bind-role <role> --model <model_id>'') db
         else case get_model mid db of
                None \<Rightarrow> complains (line (''[Registry Error] Model '' @ [CHR 0x27] @ mid @ [CHR 0x27] @ '' is not registered.'')) db
              | Some rec \<Rightarrow>
                  says (line (''[Registry] Bound role '' @ [CHR 0x27] @ role @ [CHR 0x27] @ '' -> model '' @ [CHR 0x27] @ mid @ [CHR 0x27] @ '' (active)''))
                    (snd (bind_role (mc_ok C) (mc_now C) role mid True db)))"

definition handle_set_role :: "cli_env \<Rightarrow> string \<Rightarrow> bool \<Rightarrow> model_db \<Rightarrow> cli_result" where
  "handle_set_role C role active db =
     (let (ok, db1) = set_role_active (mc_ok C) (mc_now C) role active db
      in if \<not> ok then complains (line (''[Registry Error] Role '' @ [CHR 0x27] @ role @ [CHR 0x27] @ '' not found.'')) db1
         else says (line (''[Registry] Role '' @ [CHR 0x27] @ role @ [CHR 0x27] @ '' is now '' @ (if active then ''ACTIVE'' else ''INACTIVE'') @ ''.'')) db1)"

text \<open>\<open>handle_cli\<close>: \<open>Inl ()\<close> is the answer \<open>false\<close>, after which the server starts.\<close>

definition handle_cli :: "cli_env \<Rightarrow> string \<Rightarrow> string list \<Rightarrow> model_db \<Rightarrow> unit + cli_result option" where
  "handle_cli C base_dir argv db =
     (case argv of
        prog # cmd # args \<Rightarrow>
          if cmd = ''--inspect-model'' \<and> args \<noteq> [] then Inr (handle_inspect C (hd args) db)
          else if cmd = ''--register-model'' \<and> args \<noteq> [] then Inr (handle_register C base_dir (hd args) (tl args) db)
          else if cmd = ''--list-models'' then Inr (Some (handle_list C base_dir db))
          else if cmd = ''--bind-role'' \<and> args \<noteq> [] then Inr (Some (handle_bind_role C (hd args) (tl args) db))
          else if cmd = ''--activate-role'' \<and> args \<noteq> [] then Inr (Some (handle_set_role C (hd args) True db))
          else if cmd = ''--deactivate-role'' \<and> args \<noteq> [] then Inr (Some (handle_set_role C (hd args) False db))
          else Inl ()
      | _ \<Rightarrow> Inl ())"

section \<open>The inventory stays well-formed\<close>

lemma bind_all_ok: "inventory_ok db \<Longrightarrow> inventory_ok (bind_all C mid roles db)"
  unfolding bind_all_def by (induction roles arbitrary: db) (simp_all add: inventory_ok_bind)

text \<open>Whatever the arguments, a command leaves an inventory in which identifiers, files and roles are unique.\<close>

theorem cli_keeps_inventory:
  assumes "inventory_ok db" and "handle_cli C base_dir argv db = Inr (Some r)"
  shows "inventory_ok (cr_db r)"
proof -
  have ins: "inventory_ok (cr_db r)" if "handle_inspect C f db = Some r" for f
    using that assms(1) by (auto simp: handle_inspect_def Let_def says_def)
  have reg: "inventory_ok (cr_db r)" if "handle_register C base_dir f args db = Some r" for f args
    using that assms(1)
    by (auto simp: handle_register_def Let_def says_def complains_def split_beta bind_all_ok inventory_ok_register split: option.splits if_splits)
  have lst: "inventory_ok (cr_db (handle_list C base_dir db))"
    using discovery_ok [OF assms(1)] by (simp add: handle_list_def Let_def says_def split_beta)
  have bnd: "inventory_ok (cr_db (handle_bind_role C role args db))" for role args
    using assms(1) by (simp add: handle_bind_role_def Let_def says_def complains_def inventory_ok_bind split: option.splits)
  have act: "inventory_ok (cr_db (handle_set_role C role active db))" for role active
    using inventory_ok_active [OF assms(1)] by (simp add: handle_set_role_def Let_def says_def complains_def split_beta)
  show ?thesis using assms(2) ins reg lst bnd act by (auto simp: handle_cli_def split: list.splits if_splits)
qed

section \<open>Registration binds its roles\<close>

lemma split_join:
  "list_all (\<lambda>r. r \<noteq> [] \<and> d \<notin> set r) rs \<Longrightarrow> split_list (concat (map (\<lambda>r. r @ [d]) rs)) d = rs"
proof (induction rs)
  case (Cons r rs)
  have "split_at d cur (w @ d # t) = (cur @ w) # split_at d [] t" if "cur @ w \<noteq> []" "d \<notin> set w" for cur w t
    using that by (induction w arbitrary: cur) auto
  from this [of "[]" r] Cons show ?case by (simp add: split_list_def)
qed (simp add: split_list_def)

lemma bind_all_models: "md_models (bind_all C mid roles db) = md_models db" "md_open (bind_all C mid roles db) = md_open db"
  unfolding bind_all_def by (induction roles arbitrary: db) (simp_all add: bind_role_def)

lemma find_filter: "(\<And>x. P x \<Longrightarrow> Q x) \<Longrightarrow> find P (filter Q xs) = find P xs"
  by (induction xs) auto

lemma bind_role_lookup:
  assumes "md_open db" and "ok"
  shows "get_model_for_role r (snd (bind_role ok now r' mid True db)) = (if c_str r = c_str r' then c_str mid else get_model_for_role r db)"
proof (cases "c_str r = c_str r'")
  case True
  have "find (\<lambda>b. rb_role b = c_str r' \<and> rb_is_active b) (filter (\<lambda>b. rb_role b \<noteq> c_str r') (md_roles db)) = None" by (auto simp: find_None_iff)
  then show ?thesis using assms True by (simp add: bind_role_def get_model_for_role_def find_append)
next
  case False
  have "find (\<lambda>b. rb_role b = c_str r \<and> rb_is_active b) (filter (\<lambda>b. rb_role b \<noteq> c_str r') (md_roles db)) = find (\<lambda>b. rb_role b = c_str r \<and> rb_is_active b) (md_roles db)"
    by (rule find_filter) (use False in auto)
  then show ?thesis using assms False by (auto simp: bind_role_def get_model_for_role_def find_append split: option.splits)
qed

lemma bind_all_lookup:
  assumes "md_open db" and "mc_ok C"
  shows "get_model_for_role r (bind_all C mid roles db) = (if c_str r \<in> c_str ` set roles then c_str mid else get_model_for_role r db)"
  using assms(1)
proof (induction roles arbitrary: db)
  case (Cons q roles)
  let ?db = "snd (bind_role (mc_ok C) (mc_now C) q mid True db)"
  have "md_open ?db" using Cons.prems by (simp add: bind_role_def)
  from Cons.IH [OF this] bind_role_lookup [OF Cons.prems assms(2), of r "mc_now C" q mid] assms(2) show ?case by (auto simp: bind_all_def)
qed (simp add: bind_all_def)

text \<open>
  Registering a model with a list of roles: when the file is a model of a supported size and every listed role suits it, the inventory holds the record of the
  inspection and every listed role leads to the model.
\<close>

theorem cli_register_binds:
  assumes "inspect (mc_print C) (mc_disk C) (expand_user (mc_os C) file) = Some insp" and "mi_is_valid insp" and "supported_edge_size insp"
    and "list_all (\<lambda>r. r \<noteq> [] \<and> CHR '','' \<notin> set r \<and> role_compatible insp r) roles" and "mid \<noteq> []" and "md_open db" and "mc_ok C"
  shows "\<exists>r. handle_cli C base_dir [prog, ''--register-model'', file, ''--id'', mid, ''--roles'', concat (map (\<lambda>r. r @ '','') roles)] db = Inr (Some r) \<and>
    cr_err r = [] \<and> get_model mid (cr_db r) = Some (model_columns (mc_now C) (record_of mid (expand_user (mc_os C) file) insp)) \<and>
    (\<forall>role \<in> set roles. get_model_for_role role (cr_db r) = c_str mid)"
proof -
  let ?rec = "record_of mid (expand_user (mc_os C) file) insp"
  have sp: "split_list (concat (map (\<lambda>r. r @ '','') roles)) (CHR '','') = roles"
    by (rule split_join) (use assms(4) in \<open>auto simp: list_all_iff\<close>)
  have none: "find (\<lambda>r. \<not> role_compatible insp r) roles = None" using assms(4) by (auto simp: find_None_iff list_all_iff)
  obtain db1 where r: "register_model (mc_ok C) (mc_now C) ?rec db = (True, db1)" "md_open db1"
      "md_models db1 = filter (\<lambda>m. lm_model_id m \<noteq> c_str mid \<and> lm_file_path m \<noteq> c_str (expand_user (mc_os C) file)) (md_models db) @ [model_columns (mc_now C) ?rec]"
    using assms(6,7) by (simp add: register_model_def Let_def model_columns_def record_of_def)
  have "find (\<lambda>m. lm_model_id m = c_str mid) (filter (\<lambda>m. lm_model_id m \<noteq> c_str mid \<and> lm_file_path m \<noteq> c_str (expand_user (mc_os C) file)) (md_models db)) = None"
    by (auto simp: find_None_iff)
  then have g: "get_model mid (bind_all C mid roles db1) = Some (model_columns (mc_now C) ?rec)"
    using r by (simp add: get_model_def bind_all_models find_append) (simp add: model_columns_def record_of_def)
  have h: "handle_cli C base_dir [prog, ''--register-model'', file, ''--id'', mid, ''--roles'', concat (map (\<lambda>r. r @ '','') roles)] db =
      Inr (Some (says (registered_report mid (expand_user (mc_os C) file) insp roles) (bind_all C mid roles db1)))"
    using assms(1-3,5) none r(1) by (simp add: handle_cli_def handle_register_def Let_def sp)
  show ?thesis using h g bind_all_lookup [OF r(2) assms(7)] by (auto simp: says_def)
qed

text \<open>
  The two ways to register disagree: a file whose tensors the engine cannot run is refused by the control panel and registered by the command line.
\<close>

theorem cli_skips_tensor_check:
  assumes "inspect print disk path = Some insp" and "mi_is_valid insp" and "supported_edge_size insp" and "\<not> mi_native_tensor_compatible insp"
    and "expand_user E path = path" and "path \<noteq> []" and "md_open db" and "mc_os C = E" "mc_print C = print" "mc_disk C = disk" "mc_ok C"
    and "mp_os M = E" "mp_print M = print" "mp_disk M = disk" "mp_parse M body = Some (JObject [(''id'', JString mid), (''path'', JString path)])" and "mid \<noteq> []"
  shows "snd (register_route M body db) = db \<and>
    (\<exists>r. handle_cli C base_dir [prog, ''--register-model'', path, ''--id'', mid] db = Inr (Some r) \<and>
         get_model mid (cr_db r) = Some (model_columns (mc_now C) (record_of mid path insp)))"
proof -
  have p: "snd (register_route M body db) = db" using assms by (simp add: register_route_def requested_path_def)
  have "find (\<lambda>m. lm_model_id m = c_str mid) (filter (\<lambda>m. lm_model_id m \<noteq> c_str mid \<and> lm_file_path m \<noteq> c_str path) (md_models db)) = None"
    by (auto simp: find_None_iff)
  then show ?thesis using p assms
    by (simp add: handle_cli_def handle_register_def Let_def register_model_def get_model_def bind_all_def says_def find_append) (simp add: model_columns_def record_of_def)
qed

end
