(* ===== verification/Conversation.thy ===== *)
theory Conversation
  imports Generation
begin

text \<open>
  A conversation in one session: the texts of the turns are tokenised with the vocabulary of the model and given to \<open>generate\<close> one after the other, the session
  being carried along, as \<open>ModelEngine::infer_local\<close> does for the requests of one session. The lemmas show that no turn can leave the memory of the
  model, the state or the cache, whatever the cache holds.
\<close>

section \<open>Tokens of a text\<close>

text \<open>What the GGUF loader leaves: the trie of the token list, and its length as the size of the vocabulary.\<close>

definition vocab_loaded :: "loaded_model \<Rightarrow> bool" where
  "vocab_loaded M \<longleftrightarrow>
     (let v = dm_vocab (lm_model M) in v_root v = build_trie 0 (v_tokens v) (TrieNode (-1) []) \<and> n_vocab M = length (v_tokens v))"

lemma encode_in_range: "trie_matches toks root \<Longrightarrow> list_all (\<lambda>t. 0 \<le> t \<and> t < int (length toks)) (encode_loop root s)"
proof (induction "length s" arbitrary: s rule: less_induct)
  case less
  obtain i l where r: "longest_match root s 0 (-1) 0 = (i, l)" by fastforce
  from longest_match_spec [OF r] consider "no_match root s" | k where "is_longest root s k" by auto
  then show ?case
  proof cases
    case 1
    then show ?thesis using less encode_skip by (cases s) auto
  next
    case 2
    have "list_all (\<lambda>t. 0 \<le> t \<and> t < int (length toks)) (encode_loop root (drop k s))" by (rule less.hyps) (use 2 less.prems in \<open>auto simp: is_longest_def\<close>)
    moreover have "trie_lookup root (take k s) \<noteq> -1" using 2 by (simp add: is_longest_def)
    ultimately show ?thesis using encode_step [OF 2] less.prems by (simp add: trie_matches_def)
  qed
qed

lemma tokenize_ok: "vocab_loaded M \<Longrightarrow> list_all (token_ok M) (tokenize (dm_vocab (lm_model M)) text)"
  using encode_in_range [OF build_trie_matches, of "v_tokens (dm_vocab (lm_model M))"]
  by (simp add: vocab_loaded_def Let_def tokenize_def token_ok_def list_all_iff)

section \<open>A turn is safe\<close>

lemma gen_loop_safe:
  assumes S: "sampler_ok S" "0 < n_vocab M" and c: "ctx - 1 \<le> int c"
  shows "runs_on M c st \<Longrightarrow> 0 \<le> st_current_pos st \<Longrightarrow> token_ok M tok \<Longrightarrow> length lg = n_vocab M \<Longrightarrow>
    \<exists>r. gen_loop (forward_pass F M) (pick_token F S temperature pen) eos ctx n step tok gen st lg = Inr r \<and> \<not> gr_failed r \<and> runs_on M c (gr_state r) \<and>
      length (gr_tokens r) \<le> length gen + n"
proof (induction n arbitrary: step tok gen st lg)
  case (Suc n)
  show ?case
  proof (cases "ctx - 1 \<le> st_current_pos st")
    case False
    have p: "nat (st_current_pos st) < c" using False c Suc.prems(2) by simp
    obtain st1 lg1 where f: "forward_pass F M st tok lg = Inr (True, st1, lg1)" "state_fits M c st1" "length lg1 = n_vocab M" "caches_frame M (nat (st_current_pos st)) st st1"
      using forward_pass_fits [OF _ Suc.prems(3) _ Suc.prems(2) p Suc.prems(4)] Suc.prems(1) unfolding runs_on_def by blast
    obtain t where t: "pick_token F S temperature pen step gen lg1 = Inr t" "token_ok M t" using pick_token_ok [OF S f(3)] by blast
    have q: "st_current_pos st1 = st_current_pos st" using f(4) by (simp add: caches_frame_def)
    have r: "runs_on M c st1" using f(2) Suc.prems(1) by (simp add: runs_on_def)
    show ?thesis
    proof (cases "eos t")
      case True
      then show ?thesis using False f(1) t(1) r by simp
    next
      case no: False
      have "runs_on M c (inc_pos st1)" "0 \<le> st_current_pos (inc_pos st1)" using r q Suc.prems(2) by (simp_all add: dec.fits_pos)
      from Suc.IH [OF this t(2) f(3), of "Suc step" "gen @ [t]"] show ?thesis using False f(1) t(1) no by simp
    qed
  qed (use Suc.prems in auto)
qed simp

lemma run_model_safe:
  assumes S: "sampler_ok S" "0 < n_vocab M" and st: "runs_on M c st" "st_current_pos st = int start" "start < length eff"
    and eff: "list_all (token_ok M) eff" "int (length eff) \<le> ctx" "ctx - 1 \<le> int c" and mt: "0 \<le> mt"
  shows "\<exists>texts gen st1. run_model F S M ctx mt temperature pen eff start st = Inr (texts, gen, st1, True) \<and> int (length texts) \<le> mt \<and> runs_on M c st1"
proof -
  let ?body = "drop start (butlast eff)" and ?lg = "replicate (n_vocab M) f_zero"
  have ne: "eff \<noteq> []" using st(3) by auto
  have tk: "list_all (token_ok M) ?body" "token_ok M (last eff)"
    using eff(1) ne by (auto simp: list_all_iff dest: in_set_butlastD in_set_dropD)
  obtain s lg where pre: "prefill (forward_pass F M) ctx ?body st ?lg = Inr (True, s, lg)" "runs_on M c s" "length lg = n_vocab M" "st_current_pos s = int (length (butlast eff))"
    by (rule dec.prefill_one [of M c st ?body ctx ?lg F]) (use st eff tk in auto)
  obtain r where "gen_loop (forward_pass F M) (pick_token F S temperature pen) (is_eos (lm_model M)) ctx (nat mt) 0 (last eff) [] s lg = Inr r" "\<not> gr_failed r"
      "runs_on M c (gr_state r)" "length (gr_tokens r) \<le> nat mt"
    using gen_loop_safe [OF S eff(3) pre(2) _ tk(2) pre(3), of F temperature pen "is_eos (lm_model M)" "nat mt" 0 "[]"] pre(4) by auto
  then show ?thesis using mt ne pre(1) by (simp add: run_model_def)
qed

text \<open>A session that a turn with context \<open>ctx\<close> may use: before its first use, or initialised with at least this capacity.\<close>

definition usable :: "loaded_model \<Rightarrow> int \<Rightarrow> session_kv \<Rightarrow> bool" where
  "usable M ctx s \<longleftrightarrow>
     blank_session s \<and> model_ok M \<and> nat ctx * kv_dim M < 2 ^ 32 \<or> sk_initialized s \<and> runs_on M (nat (sk_max_context s)) (sk_state s) \<and> ctx \<le> sk_max_context s"

lemma usable_mono: "usable M ctx s \<Longrightarrow> ctx' \<le> ctx \<Longrightarrow> usable M ctx' s"
proof -
  assume u: "usable M ctx s" "ctx' \<le> ctx"
  have "nat ctx' * kv_dim M \<le> nat ctx * kv_dim M" using u(2) by (intro mult_le_mono1) (simp add: nat_mono)
  then have "nat ctx * kv_dim M < 2 ^ 32 \<Longrightarrow> nat ctx' * kv_dim M < 2 ^ 32" by (rule le_less_trans)
  then show ?thesis using u unfolding usable_def by (metis order_trans)
qed

lemma open_usable:
  assumes "usable M (context_len M b) s" and "0 \<le> context_len M b" and "prompt \<noteq> []"
  shows "\<exists>s1. sk_initialized s1 \<and> runs_on M (nat (sk_max_context s1)) (sk_state s1) \<and> context_len M b \<le> sk_max_context s1 \<and>
    generate F S M prompt mt temperature pen (Some s) b = generate F S M prompt mt temperature pen (Some s1) b"
proof (cases "blank_session s \<and> model_ok M \<and> nat (context_len M b) * kv_dim M < 2 ^ 32")
  case True
  then show ?thesis using blank_session_opens [of s M b prompt F S mt temperature pen] assms(2,3) by (auto simp: session_holds_def)
qed (use assms(1) in \<open>auto simp: usable_def\<close>)

lemma generate_safe:
  assumes S: "sampler_ok S" "0 < n_vocab M" and ses: "usable M (context_len M b) s" and pr: "list_all (token_ok M) prompt"
    and ctx: "2 \<le> context_len M b" and mt: "0 \<le> mt"
  shows "\<exists>texts s'. generate F S M prompt mt temperature pen (Some s) b = Inr (texts, Some s') \<and> int (length texts) \<le> mt \<and> usable M (context_len M b) s'"
proof (cases "prompt = []")
  case True
  then show ?thesis using ses mt by (simp add: generate_def)
next
  case False
  let ?ctx = "context_len M b" and ?eff = "effective_prompt (context_len M b) prompt"
  obtain s1 where s1: "sk_initialized s1" "runs_on M (nat (sk_max_context s1)) (sk_state s1)" "?ctx \<le> sk_max_context s1"
      "generate F S M prompt mt temperature pen (Some s) b = generate F S M prompt mt temperature pen (Some s1) b"
    using open_usable [OF ses _ False, of F S mt temperature pen] ctx by auto
  let ?c = "nat (sk_max_context s1)"
  note ep = effective_prompt_props [OF ctx False]
  obtain start where start: "entry_state s1 prompt ?ctx = (start, set_pos (int start) (sk_state s1))" "start < length ?eff"
    using ep(1,4) common_prefix_props(1) [OF False] by (auto simp: entry_state_def Let_def)
  obtain texts gen st1 where r: "run_model F S M ?ctx mt temperature pen ?eff start (set_pos (int start) (sk_state s1)) = Inr (texts, gen, st1, True)"
      "int (length texts) \<le> mt" "runs_on M ?c st1"
    using run_model_safe [OF S, of ?c "set_pos (int start) (sk_state s1)" start ?eff ?ctx mt F temperature pen] s1(2,3) start(2) ep(2,3) pr ctx mt
    by (auto simp: dec.fits_pos)
  have "generate F S M prompt mt temperature pen (Some s1) b = Inr (texts, Some (s1\<lparr>sk_state := st1, sk_cached_tokens := ?eff @ gen\<rparr>))"
    using generate_session [OF s1(1,3) _ False, of F S mt temperature pen] start(1) r(1) ctx by simp
  then show ?thesis using s1 r by (auto simp: usable_def)
qed

section \<open>Conversations\<close>

record turn =
  tu_text :: string
  tu_max_tokens :: int
  tu_budget :: int
  tu_temperature :: f32
  tu_penalty :: f32

fun conversation :: "float_ops \<Rightarrow> sampler \<Rightarrow> loaded_model \<Rightarrow> turn list \<Rightarrow> session_kv \<Rightarrow> mem_error + string list \<times> session_kv" where
  "conversation F S M [] s = Inr ([], s)"
| "conversation F S M (t # ts) s =
     sbind (generate F S M (tokenize (dm_vocab (lm_model M)) (tu_text t)) (tu_max_tokens t) (tu_temperature t) (tu_penalty t) (Some s) (tu_budget t)) (\<lambda>(texts, s1).
       sbind (conversation F S M ts (case s1 of Some s' \<Rightarrow> s' | None \<Rightarrow> s)) (\<lambda>(answers, s2). Inr (concat texts # answers, s2)))"

text \<open>Turns with room for two tokens whose contexts do not grow.\<close>

definition orderly :: "loaded_model \<Rightarrow> turn list \<Rightarrow> bool" where
  "orderly M ts \<longleftrightarrow> list_all (\<lambda>t. 2 \<le> context_len M (tu_budget t) \<and> 0 \<le> tu_max_tokens t) ts \<and>
     sorted_wrt (\<lambda>t t'. context_len M (tu_budget t') \<le> context_len M (tu_budget t)) ts"

lemma conversation_safe:
  assumes "sampler_ok S" and "0 < n_vocab M" and "vocab_loaded M" and "orderly M ts" and "list_all (\<lambda>t. usable M (context_len M (tu_budget t)) s) ts"
  shows "\<exists>answers s'. conversation F S M ts s = Inr (answers, s') \<and> length answers = length ts"
  using assms(4,5)
proof (induction ts arbitrary: s)
  case (Cons t ts)
  have t: "2 \<le> context_len M (tu_budget t)" "0 \<le> tu_max_tokens t" "orderly M ts" using Cons.prems(1) by (auto simp: orderly_def)
  obtain texts s1 where g: "generate F S M (tokenize (dm_vocab (lm_model M)) (tu_text t)) (tu_max_tokens t) (tu_temperature t) (tu_penalty t) (Some s) (tu_budget t) = Inr (texts, Some s1)"
      "usable M (context_len M (tu_budget t)) s1"
    using generate_safe [OF assms(1,2) _ tokenize_ok [OF assms(3)] t(1,2), of s F "tu_text t" "tu_temperature t" "tu_penalty t"] Cons.prems(2) by auto
  have "list_all (\<lambda>t'. usable M (context_len M (tu_budget t')) s1) ts"
    using g(2) Cons.prems(1) usable_mono by (auto simp: orderly_def list_all_iff)
  from Cons.IH [OF t(3) this] show ?case using g(1) by auto
qed simp

section \<open>Example\<close>

definition talk_vocab :: vocab where
  "talk_vocab = \<lparr>v_tokens = [''a'', ''b''], v_scores = [], v_root = build_trie 0 [''a'', ''b''] (TrieNode (-1) [])\<rparr>"

definition talk_model :: loaded_model where
  "talk_model = \<lparr>lm_model = (lm_model demo_model)\<lparr>dm_vocab := talk_vocab\<rparr>, lm_image = lm_image demo_model, lm_start = lm_start demo_model\<rparr>"

definition demo_turn :: "string \<Rightarrow> turn" where
  "demo_turn text = \<lparr>tu_text = text, tu_max_tokens = 3, tu_budget = 0, tu_temperature = f_one, tu_penalty = f_one\<rparr>"

lemma vocab_irrelevant:
  assumes "lm_model M' = (lm_model M)\<lparr>dm_vocab := v\<rparr>" and "lm_image M' = lm_image M" and "lm_start M' = lm_start M"
  shows "cfg_of M' = cfg_of M" "has_tensor M' = has_tensor M" "tensor_bytes M' = tensor_bytes M" "dm_tensors (lm_model M') = dm_tensors (lm_model M)"
  by (simp_all add: assms cfg_of_def has_tensor_def [abs_def] tensor_bytes_def [abs_def] cong: option.case_cong)

lemma model_ok_vocab:
  assumes "lm_model M' = (lm_model M)\<lparr>dm_vocab := v\<rparr>" and "lm_image M' = lm_image M" and "lm_start M' = lm_start M"
  shows "model_ok M' = model_ok M" "kv_dim M' = kv_dim M" "n_vocab M' = n_vocab M" "context_len M' b = context_len M b"
proof -
  note v = vocab_irrelevant [OF assms]
  show dims: "kv_dim M' = kv_dim M" "n_vocab M' = n_vocab M" "context_len M' b = context_len M b"
    by (simp_all add: v kv_dim_def n_vocab_def context_len_def)
  have e: "emb_dim M' = emb_dim M" "hd_dim M' = hd_dim M" "mlp_dim M' = mlp_dim M" "n_heads M' = n_heads M" "n_kv_heads M' = n_kv_heads M" "n_layers M' = n_layers M"
    by (simp_all add: v emb_dim_def hd_dim_def mlp_dim_def n_heads_def n_kv_heads_def n_layers_def)
  have w: "weights_fit M' = weights_fit M" "floats_fit M' = floats_fit M" "bias_fits M' = bias_fits M"
    by (simp_all add: fun_eq_iff v weights_fit_def floats_fit_def bias_fits_def)
  have p: "projection_fits M' = projection_fits M" by (simp add: fun_eq_iff projection_fits_def e w)
  have "layer_fits M' = layer_fits M" by (simp add: fun_eq_iff layer_fits_def dims e w p)
  then show "model_ok M' = model_ok M" by (simp add: model_ok_def dims_ok_def v dims e w)
qed

lemma talk_model_ok: "model_ok talk_model" "vocab_loaded talk_model" "0 < n_vocab talk_model" "context_len talk_model 0 = 8" "kv_dim talk_model = 32"
proof -
  have e: "lm_model talk_model = (lm_model demo_model)\<lparr>dm_vocab := talk_vocab\<rparr>" "lm_image talk_model = lm_image demo_model" "lm_start talk_model = lm_start demo_model"
    by (simp_all add: talk_model_def)
  note m = model_ok_vocab [OF e]
  show "model_ok talk_model" "0 < n_vocab talk_model" "context_len talk_model 0 = 8" "kv_dim talk_model = 32" by (simp_all add: m demo_model_ok demo_dims demo_context)
  show "vocab_loaded talk_model" by (simp add: vocab_loaded_def m(3) demo_dims e(1) talk_vocab_def)
qed

end
